(* ===== verification/Prelude.thy ===== *)
theory Prelude
  imports Main "HOL-Library.List_Lexorder" "HOL-Library.Char_ord"
begin

text \<open>
  Shared vocabulary of the development: the errors the TypeScript code throws, effectful
  programs over an explicit store (a throw is a value, \<open>engine.transaction\<close> is rollback on
  a throw), SQL tables as lists of rows, and the string tests the code writes as regular
  expressions.
\<close>

section \<open>Collections\<close>

named_theorems prog_simps \<open>definitions of the program combinators\<close>
named_theorems row_simps \<open>what a key lookup sees after a table operation\<close>

section \<open>Errors\<close>

text \<open>
  The members of \<open>ErrorCode\<close> (packages/domain/src/errors.ts) that the modelled code raises.
  Callers branch on \<open>code\<close>, never on the message, so a thrown \<open>ForesiftError\<close> is its code.
\<close>

datatype error_code =
    LEASE_FENCING_TOKEN_STALE
  | WF_TRIGGER_STATUS_UNKNOWN
  | WF_RUN_STATUS_UNKNOWN
  | WF_STEP_STATUS_UNKNOWN
  | WF_SCHEDULE_STATUS_UNKNOWN
  | WF_CONCURRENCY_POLICY_UNKNOWN
  | WF_RETRY_ERROR_CLASS_UNKNOWN
  | WF_OUTBOX_STATUS_UNKNOWN
  | WF_DEAD_LETTER_STATUS_UNKNOWN
  | WF_SCHEDULE_ACTION_UNKNOWN
  | WF_SCHEDULER_SIGNATURE_INVALID
  | WF_SCHEDULER_TIMESTAMP_OUT_OF_WINDOW
  | WF_SCHEDULER_TIMESTAMP_INVALID
  | WF_SCHEDULER_DELIVERY_REPLAYED
  | WF_SCHEDULER_NOT_FOUND
  | WF_SCHEDULER_TRANSPORT_FAILED
  | WF_TRIGGER_IDENTITY_INVALID
  | WF_TRIGGER_DELIVERY_REJECTED
  | WF_TRIGGER_PAYLOAD_HASH_INVALID
  | WF_TRIGGER_SCHEDULE_MISMATCH
  | WF_SCHEDULE_NOT_FOUND
  | WF_SCHEDULE_NOT_ACTIVE
  | WF_SCHEDULE_PAUSED
  | WF_SCHEDULE_DISABLED
  | WF_SCHEDULE_VERSION_NOT_FOUND
  | WF_SCHEDULE_VERSION_IMMUTABLE
  | WF_SCHEDULE_TRANSITION_INVALID
  | WF_SCHEDULE_CONFIG_INVALID
  | WF_SCHEDULE_CRON_INVALID
  | WF_SCHEDULE_TIMEZONE_INVALID
  | WF_FORECAST_MISSING
  | WF_FORECAST_STALE
  | WF_STEP_NOT_FOUND
  | WF_STEP_ORDER_INVALID
  | WF_STEP_INPUT_HASH_MISMATCH
  | WF_STEP_TRANSITION_INVALID
  | WF_RETRY_POLICY_INVALID
  | WF_RUN_NOT_FOUND
  | WF_NOTIFICATION_CHANNEL_FAILED
  | WF_NOTIFICATION_CHANNEL_CRASHED
  | WF_OUTBOX_PAYLOAD_INVALID
  | WF_OUTBOX_NOT_FOUND
  | WF_OUTBOX_CLAIM_STALE
  | WF_OUTBOX_TRANSITION_INVALID
  | WF_OUTBOX_SUPPRESSED
  | WF_SHADOW_INFLUENCE_REFUSED
  | WF_DEAD_LETTER_NOT_FOUND
  | WF_DEAD_LETTER_NO_CHECKPOINT
  | WF_DEAD_LETTER_TRANSITION_INVALID
  | WF_RECONCILIATION_CHECK_INVALID
  | WF_RECONCILIATION_REPAIR_REFUSED
  | WF_STATE_CHECK_UNKNOWN
  | CONTRACT_INVARIANT_VIOLATED
  | TIMESTAMP_INVALID
  | AUTHENTICATION_REFUSED
  | AUTHORIZATION_REFUSED

text \<open>The machine-readable value of a code is its own name.\<close>

fun error_code_text :: "error_code \<Rightarrow> string" where
  "error_code_text LEASE_FENCING_TOKEN_STALE = ''LEASE_FENCING_TOKEN_STALE''"
| "error_code_text WF_TRIGGER_STATUS_UNKNOWN = ''WF_TRIGGER_STATUS_UNKNOWN''"
| "error_code_text WF_RUN_STATUS_UNKNOWN = ''WF_RUN_STATUS_UNKNOWN''"
| "error_code_text WF_STEP_STATUS_UNKNOWN = ''WF_STEP_STATUS_UNKNOWN''"
| "error_code_text WF_SCHEDULE_STATUS_UNKNOWN = ''WF_SCHEDULE_STATUS_UNKNOWN''"
| "error_code_text WF_CONCURRENCY_POLICY_UNKNOWN = ''WF_CONCURRENCY_POLICY_UNKNOWN''"
| "error_code_text WF_RETRY_ERROR_CLASS_UNKNOWN = ''WF_RETRY_ERROR_CLASS_UNKNOWN''"
| "error_code_text WF_OUTBOX_STATUS_UNKNOWN = ''WF_OUTBOX_STATUS_UNKNOWN''"
| "error_code_text WF_DEAD_LETTER_STATUS_UNKNOWN = ''WF_DEAD_LETTER_STATUS_UNKNOWN''"
| "error_code_text WF_SCHEDULE_ACTION_UNKNOWN = ''WF_SCHEDULE_ACTION_UNKNOWN''"
| "error_code_text WF_SCHEDULER_SIGNATURE_INVALID = ''WF_SCHEDULER_SIGNATURE_INVALID''"
| "error_code_text WF_SCHEDULER_TIMESTAMP_OUT_OF_WINDOW = ''WF_SCHEDULER_TIMESTAMP_OUT_OF_WINDOW''"
| "error_code_text WF_SCHEDULER_TIMESTAMP_INVALID = ''WF_SCHEDULER_TIMESTAMP_INVALID''"
| "error_code_text WF_SCHEDULER_DELIVERY_REPLAYED = ''WF_SCHEDULER_DELIVERY_REPLAYED''"
| "error_code_text WF_SCHEDULER_NOT_FOUND = ''WF_SCHEDULER_NOT_FOUND''"
| "error_code_text WF_SCHEDULER_TRANSPORT_FAILED = ''WF_SCHEDULER_TRANSPORT_FAILED''"
| "error_code_text WF_TRIGGER_IDENTITY_INVALID = ''WF_TRIGGER_IDENTITY_INVALID''"
| "error_code_text WF_TRIGGER_DELIVERY_REJECTED = ''WF_TRIGGER_DELIVERY_REJECTED''"
| "error_code_text WF_TRIGGER_PAYLOAD_HASH_INVALID = ''WF_TRIGGER_PAYLOAD_HASH_INVALID''"
| "error_code_text WF_TRIGGER_SCHEDULE_MISMATCH = ''WF_TRIGGER_SCHEDULE_MISMATCH''"
| "error_code_text WF_SCHEDULE_NOT_FOUND = ''WF_SCHEDULE_NOT_FOUND''"
| "error_code_text WF_SCHEDULE_NOT_ACTIVE = ''WF_SCHEDULE_NOT_ACTIVE''"
| "error_code_text WF_SCHEDULE_PAUSED = ''WF_SCHEDULE_PAUSED''"
| "error_code_text WF_SCHEDULE_DISABLED = ''WF_SCHEDULE_DISABLED''"
| "error_code_text WF_SCHEDULE_VERSION_NOT_FOUND = ''WF_SCHEDULE_VERSION_NOT_FOUND''"
| "error_code_text WF_SCHEDULE_VERSION_IMMUTABLE = ''WF_SCHEDULE_VERSION_IMMUTABLE''"
| "error_code_text WF_SCHEDULE_TRANSITION_INVALID = ''WF_SCHEDULE_TRANSITION_INVALID''"
| "error_code_text WF_SCHEDULE_CONFIG_INVALID = ''WF_SCHEDULE_CONFIG_INVALID''"
| "error_code_text WF_SCHEDULE_CRON_INVALID = ''WF_SCHEDULE_CRON_INVALID''"
| "error_code_text WF_SCHEDULE_TIMEZONE_INVALID = ''WF_SCHEDULE_TIMEZONE_INVALID''"
| "error_code_text WF_FORECAST_MISSING = ''WF_FORECAST_MISSING''"
| "error_code_text WF_FORECAST_STALE = ''WF_FORECAST_STALE''"
| "error_code_text WF_STEP_NOT_FOUND = ''WF_STEP_NOT_FOUND''"
| "error_code_text WF_STEP_ORDER_INVALID = ''WF_STEP_ORDER_INVALID''"
| "error_code_text WF_STEP_INPUT_HASH_MISMATCH = ''WF_STEP_INPUT_HASH_MISMATCH''"
| "error_code_text WF_STEP_TRANSITION_INVALID = ''WF_STEP_TRANSITION_INVALID''"
| "error_code_text WF_RETRY_POLICY_INVALID = ''WF_RETRY_POLICY_INVALID''"
| "error_code_text WF_RUN_NOT_FOUND = ''WF_RUN_NOT_FOUND''"
| "error_code_text WF_NOTIFICATION_CHANNEL_FAILED = ''WF_NOTIFICATION_CHANNEL_FAILED''"
| "error_code_text WF_NOTIFICATION_CHANNEL_CRASHED = ''WF_NOTIFICATION_CHANNEL_CRASHED''"
| "error_code_text WF_OUTBOX_PAYLOAD_INVALID = ''WF_OUTBOX_PAYLOAD_INVALID''"
| "error_code_text WF_OUTBOX_NOT_FOUND = ''WF_OUTBOX_NOT_FOUND''"
| "error_code_text WF_OUTBOX_CLAIM_STALE = ''WF_OUTBOX_CLAIM_STALE''"
| "error_code_text WF_OUTBOX_TRANSITION_INVALID = ''WF_OUTBOX_TRANSITION_INVALID''"
| "error_code_text WF_OUTBOX_SUPPRESSED = ''WF_OUTBOX_SUPPRESSED''"
| "error_code_text WF_SHADOW_INFLUENCE_REFUSED = ''WF_SHADOW_INFLUENCE_REFUSED''"
| "error_code_text WF_DEAD_LETTER_NOT_FOUND = ''WF_DEAD_LETTER_NOT_FOUND''"
| "error_code_text WF_DEAD_LETTER_NO_CHECKPOINT = ''WF_DEAD_LETTER_NO_CHECKPOINT''"
| "error_code_text WF_DEAD_LETTER_TRANSITION_INVALID = ''WF_DEAD_LETTER_TRANSITION_INVALID''"
| "error_code_text WF_RECONCILIATION_CHECK_INVALID = ''WF_RECONCILIATION_CHECK_INVALID''"
| "error_code_text WF_RECONCILIATION_REPAIR_REFUSED = ''WF_RECONCILIATION_REPAIR_REFUSED''"
| "error_code_text WF_STATE_CHECK_UNKNOWN = ''WF_STATE_CHECK_UNKNOWN''"
| "error_code_text CONTRACT_INVARIANT_VIOLATED = ''CONTRACT_INVARIANT_VIOLATED''"
| "error_code_text TIMESTAMP_INVALID = ''TIMESTAMP_INVALID''"
| "error_code_text AUTHENTICATION_REFUSED = ''AUTHENTICATION_REFUSED''"
| "error_code_text AUTHORIZATION_REFUSED = ''AUTHORIZATION_REFUSED''"

text \<open>\<open>ExecErrorCode\<close> (packages/domain/src/exec.ts), the codes of the execution laws.\<close>

datatype exec_error_code =
    OUTCOME_CLASS_UNKNOWN
  | OUTCOME_MATURITY_UNKNOWN
  | ADAPTER_FAMILY_UNKNOWN
  | ADAPTER_SUPPORT_STATE_UNKNOWN
  | EXECUTION_STATUS_UNKNOWN
  | STRESS_SCENARIO_KIND_UNKNOWN
  | EXIT_POLICY_KIND_UNKNOWN
  | PRIMARY_ORDERING_UNKNOWN
  | TRADABILITY_VERDICT_UNKNOWN
  | OBSERVATION_PLAN_TRIGGER_CLASS_UNKNOWN
  | TRADABLE_FAILURE_REASON_UNKNOWN
  | EXEC_LABEL_CLAUSES_INVALID
  | EXEC_PROFIT_RENDERING_INPUT_INVALID
  | EXEC_CONFIRMATION_INPUT_INVALID
  | EXEC_TARGET_INPUT_INVALID
  | EXEC_UNCERTAINTY_INPUT_INVALID
  | EXEC_DELAY_GATE_INPUT_INVALID
  | EXEC_ORDERING_INPUT_INVALID

text \<open>\<open>InternalSurfaceCode\<close> (apps/api/src/internal/internal-surface.ts), the transport refusals.\<close>

datatype internal_surface_code =
    ROUTE_NOT_FOUND
  | METHOD_NOT_ALLOWED
  | REQUEST_INVALID
  | SURFACE_FAILURE

fun internal_surface_code_text :: "internal_surface_code \<Rightarrow> string" where
  "internal_surface_code_text ROUTE_NOT_FOUND = ''INTERNAL_ROUTE_NOT_FOUND''"
| "internal_surface_code_text METHOD_NOT_ALLOWED = ''INTERNAL_METHOD_NOT_ALLOWED''"
| "internal_surface_code_text REQUEST_INVALID = ''INTERNAL_REQUEST_INVALID''"
| "internal_surface_code_text SURFACE_FAILURE = ''INTERNAL_SURFACE_FAILURE''"

text \<open>
  What a \<open>throw\<close> can carry. \<open>NotificationChannelError\<close> keeps its \<open>retryable\<close> flag; the SQL
  engine's own refusal of a constraint violation is \<open>SqlError\<close>; \<open>InternalSurfaceError\<close> has its HTTP status; \<open>OtherError\<close> is any value a
  caller-supplied callback throws, or an \<open>Error\<close> of the component's own, with the code it is refused under.
\<close>

datatype js_error =
    ForesiftError error_code
  | ExecVocabularyError exec_error_code
  | InternalSurfaceError internal_surface_code nat
  | NotificationChannelError bool
  | NotificationChannelCrashError
  | RangeError
  | TypeError
  | SyntaxError
  | SqlError
  | OtherError string

section \<open>Fallible values\<close>

type_synonym 'a res = "js_error + 'a"

definition bindE :: "'a res \<Rightarrow> ('a \<Rightarrow> 'b res) \<Rightarrow> 'b res" where
  "bindE m f = (case m of Inl e \<Rightarrow> Inl e | Inr x \<Rightarrow> f x)"

definition guardE :: "bool \<Rightarrow> error_code \<Rightarrow> unit res" where
  "guardE b c = (if b then Inr () else Inl (ForesiftError c))"

lemma bindE_Inl [simp]: "bindE (Inl e) f = Inl e"
  by (simp add: bindE_def)

lemma bindE_Inr [simp]: "bindE (Inr x) f = f x"
  by (simp add: bindE_def)

lemma bindE_eq_Inr: "bindE m f = Inr y \<longleftrightarrow> (\<exists>x. m = Inr x \<and> f x = Inr y)"
  by (cases m) auto

lemma bindE_eq_Inl: "bindE m f = Inl e \<longleftrightarrow> m = Inl e \<or> (\<exists>x. m = Inr x \<and> f x = Inl e)"
  by (cases m) auto

lemma guardE_eq_Inr [simp]: "guardE b c = Inr u \<longleftrightarrow> b"
  by (simp add: guardE_def)

lemma guardE_eq_Inl [simp]: "guardE b c = Inl e \<longleftrightarrow> \<not> b \<and> e = ForesiftError c"
  by (auto simp: guardE_def)

lemma guardE_True [simp]: "guardE True c = Inr ()"
  by (simp add: guardE_def)

lemma guardE_False [simp]: "guardE False c = Inl (ForesiftError c)"
  by (simp add: guardE_def)

section \<open>Programs over a store\<close>

text \<open>
  A program takes the store and returns what it produced or threw together with the store it
  leaves behind: a throw does not undo writes. Only \<open>transaction\<close> does, as
  \<open>TransactionalEngine.transaction\<close> issues \<open>ROLLBACK\<close> before it rethrows.
\<close>

type_synonym ('s, 'a) prog = "'s \<Rightarrow> 'a res \<times> 's"

definition ret :: "'a \<Rightarrow> ('s, 'a) prog" where
  "ret x = (\<lambda>s. (Inr x, s))"

definition raise :: "js_error \<Rightarrow> ('s, 'a) prog" where
  "raise e = (\<lambda>s. (Inl e, s))"

definition bindP :: "('s, 'a) prog \<Rightarrow> ('a \<Rightarrow> ('s, 'b) prog) \<Rightarrow> ('s, 'b) prog" where
  "bindP m f = (\<lambda>s. case m s of (Inl e, t) \<Rightarrow> (Inl e, t) | (Inr x, t) \<Rightarrow> f x t)"

definition liftE :: "'a res \<Rightarrow> ('s, 'a) prog" where
  "liftE r = (\<lambda>s. (r, s))"

definition reads :: "('s \<Rightarrow> 'a) \<Rightarrow> ('s, 'a) prog" where
  "reads f = (\<lambda>s. (Inr (f s), s))"

definition writes :: "('s \<Rightarrow> 's) \<Rightarrow> ('s, unit) prog" where
  "writes f = (\<lambda>s. (Inr (), f s))"

definition transaction :: "('s, 'a) prog \<Rightarrow> ('s, 'a) prog" where
  "transaction m = (\<lambda>s. case m s of (Inl e, t) \<Rightarrow> (Inl e, s) | (Inr x, t) \<Rightarrow> (Inr x, t))"

text \<open>
  \<open>try m catch h\<close>; and the point between two statements of one transaction, where other
  sessions may commit: \<open>env i\<close> is what they do to the store at the \<open>i\<close>-th such point.
\<close>

definition tryP :: "('s, 'a) prog \<Rightarrow> (js_error \<Rightarrow> ('s, 'a) prog) \<Rightarrow> ('s, 'a) prog" where
  "tryP m h = (\<lambda>s. case m s of (Inl e, t) \<Rightarrow> h e t | (Inr x, t) \<Rightarrow> (Inr x, t))"

definition gap :: "(nat \<Rightarrow> 's \<Rightarrow> 's) \<Rightarrow> nat \<Rightarrow> ('s, unit) prog" where
  "gap env i = writes (env i)"

text \<open>The outcome of \<open>m\<close> as a value: what a \<open>catch\<close> clause that continues works on.\<close>

definition outcomeP :: "('s, 'a) prog \<Rightarrow> ('s, 'a res) prog" where
  "outcomeP m = (\<lambda>s. case m s of (r, t) \<Rightarrow> (Inr r, t))"

lemmas prog_defs [prog_simps] =
  ret_def raise_def bindP_def liftE_def reads_def writes_def

lemma ret_run [simp]: "ret x s = (Inr x, s)"
  by (simp add: ret_def)

lemma raise_run [simp]: "raise e s = (Inl e, s)"
  by (simp add: raise_def)

lemma liftE_run [simp]: "liftE r s = (r, s)"
  by (simp add: liftE_def)

lemma reads_run [simp]: "reads f s = (Inr (f s), s)"
  by (simp add: reads_def)

lemma writes_run [simp]: "writes f s = (Inr (), f s)"
  by (simp add: writes_def)

lemma bindP_run:
  "bindP m f s = (case m s of (Inl e, t) \<Rightarrow> (Inl e, t) | (Inr x, t) \<Rightarrow> f x t)"
  by (simp add: bindP_def)

lemma bindP_ok: "m s = (Inr x, t) \<Longrightarrow> bindP m f s = f x t"
  by (simp add: bindP_run)

lemma bindP_throw: "m s = (Inl e, t) \<Longrightarrow> bindP m f s = (Inl e, t)"
  by (simp add: bindP_run)

lemma bindP_ret [simp]: "bindP (ret x) f s = f x s"
  by (simp add: bindP_run)

lemma bindP_raise [simp]: "bindP (raise e) f s = (Inl e, s)"
  by (simp add: bindP_run)

lemma bindP_reads [simp]: "bindP (reads g) f s = f (g s) s"
  by (simp add: bindP_run)

lemma bindP_writes [simp]: "bindP (writes g) f s = f () (g s)"
  by (simp add: bindP_run)

lemma bindP_liftE:
  "bindP (liftE r) f s = (case r of Inl e \<Rightarrow> (Inl e, s) | Inr x \<Rightarrow> f x s)"
  by (simp add: bindP_run)

lemma gap_run [simp]: "gap env i s = (Inr (), env i s)"
  by (simp add: gap_def)

lemma bindP_gap [simp]: "bindP (gap env i) f s = f () (env i s)"
  by (simp add: gap_def)

lemma outcomeP_run: "outcomeP m s = (Inr (fst (m s)), snd (m s))"
  by (simp add: outcomeP_def split_beta)

lemma tryP_ok: "m s = (Inr x, t) \<Longrightarrow> tryP m h s = (Inr x, t)"
  by (simp add: tryP_def)

lemma tryP_throw: "m s = (Inl e, t) \<Longrightarrow> tryP m h s = h e t"
  by (simp add: tryP_def)

lemma tryP_eq_Inr:
  "tryP m h s = (Inr x, t) \<longleftrightarrow>
     m s = (Inr x, t) \<or> (\<exists>e u. m s = (Inl e, u) \<and> h e u = (Inr x, t))"
  by (cases "m s"; cases "fst (m s)") (auto simp: tryP_def)

lemma bindP_eq_Inr:
  "bindP m f s = (Inr y, t) \<longleftrightarrow> (\<exists>x u. m s = (Inr x, u) \<and> f x u = (Inr y, t))"
  by (cases "m s"; cases "fst (m s)") (auto simp: bindP_run)

lemma bindP_eq_Inl:
  "bindP m f s = (Inl e, t) \<longleftrightarrow>
     m s = (Inl e, t) \<or> (\<exists>x u. m s = (Inr x, u) \<and> f x u = (Inl e, t))"
  by (cases "m s"; cases "fst (m s)") (auto simp: bindP_run)

lemma transaction_rollback: "transaction m s = (Inl e, t) \<Longrightarrow> t = s"
  by (auto simp: transaction_def split: prod.splits sum.splits)

lemma transaction_eq_Inr [simp]: "transaction m s = (Inr x, t) \<longleftrightarrow> m s = (Inr x, t)"
  by (auto simp: transaction_def split: prod.splits sum.splits)

lemma transaction_eq_Inl:
  "transaction m s = (Inl e, t) \<longleftrightarrow> t = s \<and> (\<exists>u. m s = (Inl e, u))"
  by (auto simp: transaction_def split: prod.splits sum.splits)

lemma transaction_ok: "m s = (Inr x, t) \<Longrightarrow> transaction m s = (Inr x, t)"
  by simp

lemma transaction_throw: "m s = (Inl e, t) \<Longrightarrow> transaction m s = (Inl e, s)"
  by (simp add: transaction_def)

text \<open>
  Invariant preservation of a program: whatever it returns or throws, the store it leaves
  satisfies the invariant. A transaction needs the committing runs only.
\<close>

definition preserves :: "('s \<Rightarrow> bool) \<Rightarrow> ('s, 'a) prog \<Rightarrow> bool" where
  "preserves I m \<longleftrightarrow> (\<forall>s. I s \<longrightarrow> I (snd (m s)))"

lemma preservesI: "(\<And>s r t. I s \<Longrightarrow> m s = (r, t) \<Longrightarrow> I t) \<Longrightarrow> preserves I m"
  by (auto simp: preserves_def intro: prod.collapse [symmetric])

lemma preservesD: "preserves I m \<Longrightarrow> I s \<Longrightarrow> m s = (r, t) \<Longrightarrow> I t"
  by (metis preserves_def snd_conv)

lemma preserves_ret [simp, intro]: "preserves I (ret x)"
  by (simp add: preserves_def)

lemma preserves_raise [simp, intro]: "preserves I (raise e)"
  by (simp add: preserves_def)

lemma preserves_liftE [simp, intro]: "preserves I (liftE r)"
  by (simp add: preserves_def)

lemma preserves_reads [simp, intro]: "preserves I (reads f)"
  by (simp add: preserves_def)

lemma preserves_bindP [intro]:
  assumes "preserves I m" and "\<And>x. preserves I (f x)"
  shows "preserves I (bindP m f)"
proof (rule preservesI)
  fix s r t
  assume "I s" and run: "bindP m f s = (r, t)"
  obtain r1 u where m: "m s = (r1, u)" by (cases "m s")
  with assms(1) \<open>I s\<close> have "I u" by (rule preservesD)
  with m run assms(2) show "I t"
    by (cases r1) (auto simp: bindP_run dest: preservesD)
qed

lemma preserves_transaction:
  assumes "\<And>s x t. I s \<Longrightarrow> m s = (Inr x, t) \<Longrightarrow> I t"
  shows "preserves I (transaction m)"
proof (rule preservesI)
  fix s r t
  assume "I s" and run: "transaction m s = (r, t)"
  then show "I t" using assms by (cases r) (auto dest: transaction_rollback)
qed

text \<open>
  Rely and guarantee: \<open>R\<close> relates the store before and after whatever one session, or all
  other sessions between two of its statements, may do. A program whose own writes stay in a
  reflexive and transitive \<open>R\<close> stays in \<open>R\<close> under any interference in \<open>R\<close>.
\<close>

definition guarantees :: "('s \<Rightarrow> 's \<Rightarrow> bool) \<Rightarrow> ('s, 'a) prog \<Rightarrow> bool" where
  "guarantees R m \<longleftrightarrow> (\<forall>s. R s (snd (m s)))"

lemma guaranteesD: "guarantees R m \<Longrightarrow> m s = (r, t) \<Longrightarrow> R s t"
  by (metis guarantees_def snd_conv)

locale rely_guarantee =
  fixes R :: "'s \<Rightarrow> 's \<Rightarrow> bool"
  assumes R_refl: "R s s"
    and R_trans: "R s t \<Longrightarrow> R t u \<Longrightarrow> R s u"
begin

lemma g_pure [simp, intro]:
  "guarantees R (ret x)" "guarantees R (raise e)" "guarantees R (liftE r)" "guarantees R (reads f)"
  by (simp_all add: guarantees_def R_refl)

lemma g_bindP:
  assumes "guarantees R m" and "\<And>x. guarantees R (f x)"
  shows "guarantees R (bindP m f)"
  unfolding guarantees_def
proof
  fix s
  obtain r u where m: "m s = (r, u)" by fastforce
  then have "R s u" using assms(1) unfolding guarantees_def by (metis snd_conv)
  moreover have "R u (snd (f x u))" for x using assms(2) by (simp add: guarantees_def)
  ultimately show "R s (snd (bindP m f s))"
    using m by (cases r) (auto simp: bindP_run intro: R_trans)
qed

lemma g_bindP_liftE: "(\<And>x. r = Inr x \<Longrightarrow> guarantees R (f x)) \<Longrightarrow> guarantees R (bindP (liftE r) f)"
  by (cases r) (auto simp: guarantees_def bindP_liftE R_refl)

lemma g_gap: "(\<And>s. R s (env i s)) \<Longrightarrow> guarantees R (gap env i)"
  by (simp add: guarantees_def gap_def)

lemma g_tryP:
  assumes "guarantees R m" and "\<And>e. guarantees R (h e)"
  shows "guarantees R (tryP m h)"
  unfolding guarantees_def
proof
  fix s
  obtain r u where m: "m s = (r, u)" by fastforce
  then have "R s u" using assms(1) unfolding guarantees_def by (metis snd_conv)
  moreover have "R u (snd (h e u))" for e using assms(2) by (simp add: guarantees_def)
  ultimately show "R s (snd (tryP m h s))"
    using m by (cases r) (auto simp: tryP_def intro: R_trans)
qed

text \<open>
  Programs that keep \<open>R\<close> because of what they have established: \<open>P\<close> is a fact about the store
  that no step in \<open>R\<close> destroys.
\<close>

definition stable :: "('s \<Rightarrow> bool) \<Rightarrow> bool" where
  "stable P \<longleftrightarrow> (\<forall>s t. P s \<longrightarrow> R s t \<longrightarrow> P t)"

definition keeps :: "('s \<Rightarrow> bool) \<Rightarrow> ('s, 'a) prog \<Rightarrow> bool" where
  "keeps P m \<longleftrightarrow> (\<forall>s. P s \<longrightarrow> R s (snd (m s)))"

lemma keeps_pure [simp]:
  "keeps P (ret x)" "keeps P (raise e)" "keeps P (liftE r)" "keeps P (reads f)"
  by (simp_all add: keeps_def R_refl)

lemma keeps_bindP:
  assumes "keeps P m" and "\<And>x. keeps (\<lambda>t. \<exists>s. P s \<and> m s = (Inr x, t)) (f x)"
  shows "keeps P (bindP m f)"
  unfolding keeps_def
proof (intro allI impI)
  fix s assume P: "P s"
  obtain r u where m: "m s = (r, u)" by fastforce
  then have su: "R s u" using assms(1) P unfolding keeps_def by (metis snd_conv)
  show "R s (snd (bindP m f s))"
  proof (cases r)
    case (Inr x)
    then have "R u (snd (f x u))" using assms(2) [of x] m P unfolding keeps_def by blast
    then show ?thesis using su m Inr by (auto simp: bindP_run intro: R_trans)
  qed (use su m in \<open>simp add: bindP_run\<close>)
qed

lemma keeps_weaken: "keeps P' m \<Longrightarrow> (\<And>s. P s \<Longrightarrow> P' s) \<Longrightarrow> keeps P m"
  by (simp add: keeps_def)

lemma keeps_last: "keeps P m \<Longrightarrow> (\<And>x. \<exists>r. f x = liftE r) \<Longrightarrow> keeps P (bindP m f)"
  by (rule keeps_bindP) (metis keeps_pure(3))+

lemma keeps_reads: "(\<And>x. keeps (\<lambda>s. P s \<and> g s = x) (f x)) \<Longrightarrow> keeps P (bindP (reads g) f)"
  by (simp add: keeps_def)

lemma keeps_liftE: "(\<And>x. r = Inr x \<Longrightarrow> keeps P (f x)) \<Longrightarrow> keeps P (bindP (liftE r) f)"
  by (cases r) (auto simp: keeps_def bindP_liftE R_refl)

lemma keeps_gap:
  assumes "stable P" and "\<And>s. R s (env i s)" and "keeps P (f ())"
  shows "keeps P (bindP (gap env i) f)"
  using assms by (simp add: keeps_def stable_def) (blast intro: R_trans)

lemma keeps_outcome:
  assumes "keeps P m" and "\<And>r. keeps (\<lambda>t. \<exists>s. P s \<and> m s = (r, t)) (f r)"
  shows "keeps P (bindP (outcomeP m) f)"
proof (rule keeps_bindP)
  show "keeps P (outcomeP m)" using assms(1) by (simp add: keeps_def outcomeP_run)
  show "keeps (\<lambda>t. \<exists>s. P s \<and> outcomeP m s = (Inr x, t)) (f x)" for x
    by (rule keeps_weaken [OF assms(2)]) (auto simp: outcomeP_run)
qed

lemma keeps_guarantees: "guarantees R m \<Longrightarrow> keeps P m"
  by (simp add: guarantees_def keeps_def)

lemma g_transaction: "guarantees R m \<Longrightarrow> guarantees R (transaction m)"
  unfolding guarantees_def transaction_def
  by (metis (no_types, lifting) R_refl old.sum.simps(5,6) prod.collapse snd_conv
      split_conv surj_pair sum.exhaust)

end

section \<open>Tables\<close>

text \<open>
  A table is the list of its rows. \<open>UPDATE t SET f WHERE p\<close> is \<open>sql_update\<close>, its
  \<open>RETURNING\<close> rows are \<open>sql_returning\<close>, a primary-key lookup is \<open>row_by\<close>.
\<close>

definition sql_update :: "('r \<Rightarrow> bool) \<Rightarrow> ('r \<Rightarrow> 'r) \<Rightarrow> 'r list \<Rightarrow> 'r list" where
  "sql_update p f rows = map (\<lambda>r. if p r then f r else r) rows"

definition sql_returning :: "('r \<Rightarrow> bool) \<Rightarrow> ('r \<Rightarrow> 'r) \<Rightarrow> 'r list \<Rightarrow> 'r list" where
  "sql_returning p f rows = map f (filter p rows)"

text \<open>
  The statement as a program: a new row that violates the table's checks makes the database
  refuse the whole statement.
\<close>

definition update_stmt ::
  "('s \<Rightarrow> 'r list) \<Rightarrow> (('r list \<Rightarrow> 'r list) \<Rightarrow> 's \<Rightarrow> 's) \<Rightarrow> ('r \<Rightarrow> bool) \<Rightarrow>
   ('s \<Rightarrow> 'r \<Rightarrow> bool) \<Rightarrow> ('r \<Rightarrow> 'r) \<Rightarrow> ('s, 'r list) prog" where
  "update_stmt rows upd chk p f = (\<lambda>s.
     if \<exists>r \<in> set (rows s). p s r \<and> \<not> chk (f r) then (Inl SqlError, s)
     else (Inr (sql_returning (p s) f (rows s)), upd (sql_update (p s) f) s))"

text \<open>\<open>INSERT INTO t VALUES row\<close>: checks, unique keys and references are the predicate \<open>ok\<close>.\<close>

definition insert_stmt ::
  "(('r list \<Rightarrow> 'r list) \<Rightarrow> 's \<Rightarrow> 's) \<Rightarrow> ('s \<Rightarrow> 'r \<Rightarrow> bool) \<Rightarrow> 'r \<Rightarrow> ('s, unit) prog" where
  "insert_stmt upd ok row = (\<lambda>s.
     if ok s row then (Inr (), upd (\<lambda>rows. rows @ [row]) s) else (Inl SqlError, s))"

definition row_by :: "('r \<Rightarrow> 'k) \<Rightarrow> 'k \<Rightarrow> 'r list \<Rightarrow> 'r option" where
  "row_by key k rows = find (\<lambda>r. key r = k) rows"

definition keys_distinct :: "('r \<Rightarrow> 'k) \<Rightarrow> 'r list \<Rightarrow> bool" where
  "keys_distinct key rows \<longleftrightarrow> distinct (map key rows)"

lemma row_by_Nil [simp, row_simps]: "row_by key k [] = None"
  by (simp add: row_by_def)

lemma row_by_Cons [simp, row_simps]:
  "row_by key k (r # rows) = (if key r = k then Some r else row_by key k rows)"
  by (simp add: row_by_def)

lemma row_by_append [simp, row_simps]:
  "row_by key k (xs @ ys) = (case row_by key k xs of None \<Rightarrow> row_by key k ys | Some r \<Rightarrow> Some r)"
  by (induction xs) auto

lemma row_by_SomeD: "row_by key k rows = Some r \<Longrightarrow> r \<in> set rows \<and> key r = k"
  by (induction rows) (auto split: if_splits)

lemma row_by_None_iff: "row_by key k rows = None \<longleftrightarrow> k \<notin> key ` set rows"
  by (induction rows) auto

lemma row_by_eq_Some_iff:
  "keys_distinct key rows \<Longrightarrow> row_by key k rows = Some r \<longleftrightarrow> r \<in> set rows \<and> key r = k"
  by (induction rows) (auto simp: keys_distinct_def image_iff)

lemma sql_update_Nil [simp]: "sql_update p f [] = []"
  by (simp add: sql_update_def)

lemma sql_update_Cons [simp]:
  "sql_update p f (r # rows) = (if p r then f r else r) # sql_update p f rows"
  by (simp add: sql_update_def)

lemma sql_returning_Nil [simp]: "sql_returning p f [] = []"
  by (simp add: sql_returning_def)

lemma sql_returning_Cons [simp]:
  "sql_returning p f (r # rows) =
     (if p r then f r # sql_returning p f rows else sql_returning p f rows)"
  by (simp add: sql_returning_def)

lemma row_by_update [row_simps]:
  assumes "\<And>r. key (f r) = key r"
  shows "row_by key k (sql_update p f rows) =
    map_option (\<lambda>r. if p r then f r else r) (row_by key k rows)"
  using assms by (induction rows) auto

lemma row_by_update_other:
  assumes "\<And>r. key (f r) = key r" and "\<And>r. p r \<Longrightarrow> key r \<noteq> k"
  shows "row_by key k (sql_update p f rows) = row_by key k rows"
  using assms by (induction rows) auto

lemma set_sql_update:
  "r \<in> set (sql_update p f rows) \<longleftrightarrow>
     (\<exists>q \<in> set rows. (p q \<and> r = f q) \<or> (\<not> p q \<and> r = q))"
  by (auto simp: sql_update_def)

lemma keys_distinct_update [simp]:
  assumes "\<And>r. key (f r) = key r"
  shows "keys_distinct key (sql_update p f rows) = keys_distinct key rows"
proof -
  have "map key (sql_update p f rows) = map key rows"
    using assms by (induction rows) auto
  then show ?thesis by (simp add: keys_distinct_def)
qed

lemma keys_distinct_append [simp]:
  "keys_distinct key (rows @ [r]) \<longleftrightarrow> keys_distinct key rows \<and> row_by key (key r) rows = None"
  by (auto simp: keys_distinct_def row_by_None_iff)

lemma sql_returning_empty_iff:
  "sql_returning p f rows = [] \<longleftrightarrow> (\<forall>r \<in> set rows. \<not> p r)"
  by (induction rows) auto

lemma sql_update_none: "\<forall>r \<in> set rows. \<not> p r \<Longrightarrow> sql_update p f rows = rows"
  by (induction rows) auto

lemma update_stmt_cases:
  assumes "update_stmt rows upd chk p f s = (res, t)"
  obtains (check) r where "r \<in> set (rows s)" and "p s r" and "\<not> chk (f r)"
      and "res = Inl SqlError" and "t = s"
    | (updated) "res = Inr (sql_returning (p s) f (rows s))" and "t = upd (sql_update (p s) f) s"
      and "\<And>r. r \<in> set (rows s) \<Longrightarrow> p s r \<Longrightarrow> chk (f r)"
proof (cases "\<exists>r \<in> set (rows s). p s r \<and> \<not> chk (f r)")
  case True
  then obtain r where "r \<in> set (rows s)" "p s r" "\<not> chk (f r)" by blast
  then show thesis using assms True by (intro check [of r]) (simp_all add: update_stmt_def)
next
  case False
  then have "update_stmt rows upd chk p f s =
      (Inr (sql_returning (p s) f (rows s)), upd (sql_update (p s) f) s)"
    by (simp only: update_stmt_def if_False)
  then show thesis using assms False by (intro updated) auto
qed

text \<open>A \<open>WHERE key = k AND \<dots>\<close> statement on a keyed table touches the row found by \<open>row_by\<close>.\<close>

lemma sql_returning_key:
  assumes "keys_distinct key rows"
  shows "sql_returning (\<lambda>r. key r = k \<and> p r) f rows =
    (case row_by key k rows of None \<Rightarrow> [] | Some r \<Rightarrow> if p r then [f r] else [])"
  using assms
proof (induction rows)
  case Nil
  then show ?case by simp
next
  case (Cons r rows)
  show ?case
  proof (cases "key r = k")
    case True
    with Cons.prems have "row_by key k rows = None"
      by (auto simp: row_by_None_iff keys_distinct_def)
    with Cons True show ?thesis by (simp add: keys_distinct_def)
  next
    case False
    with Cons show ?thesis by (simp add: keys_distinct_def)
  qed
qed

text \<open>
  A keyed \<open>UPDATE\<close> statement as a function of the row under the key: no row or an unmet
  condition updates nothing, a violated check is the database's error.
\<close>

lemma update_stmt_row:
  assumes keys: "keys_distinct key (rows s)" and p: "p s = (\<lambda>r. key r = k \<and> q r)"
    and upd: "\<And>g. g (rows s) = rows s \<Longrightarrow> upd g s = s"
  shows "update_stmt rows upd chk p f s =
    (case row_by key k (rows s) of
       None \<Rightarrow> (Inr [], s)
     | Some r \<Rightarrow> if \<not> q r then (Inr [], s) else if \<not> chk (f r) then (Inl SqlError, s)
                else (Inr [f r], upd (sql_update (\<lambda>r. key r = k \<and> q r) f) s))"
proof -
  let ?p = "\<lambda>r. key r = k \<and> q r"
  have ret: "sql_returning ?p f (rows s) =
      (case row_by key k (rows s) of None \<Rightarrow> [] | Some r \<Rightarrow> if q r then [f r] else [])"
    using keys by (rule sql_returning_key)
  have ex: "(\<exists>r \<in> set (rows s). ?p r \<and> \<not> chk (f r)) \<longleftrightarrow>
      (case row_by key k (rows s) of None \<Rightarrow> False | Some r \<Rightarrow> q r \<and> \<not> chk (f r))"
    using sql_returning_key [OF keys, of k "\<lambda>r. q r \<and> \<not> chk (f r)" "\<lambda>r. r"]
      sql_returning_empty_iff [of "\<lambda>r. key r = k \<and> q r \<and> \<not> chk (f r)" "\<lambda>r. r" "rows s"]
    by (auto split: option.splits if_splits)
  have none: "upd (sql_update ?p f) s = s" if "sql_returning ?p f (rows s) = []"
    using that by (intro upd sql_update_none) (simp add: sql_returning_empty_iff)
  show ?thesis
    unfolding update_stmt_def p ex using ret none by (auto split: option.splits)
qed

lemma map_key_update [simp]:
  "(\<And>r. key (f r) = key r) \<Longrightarrow> map key (sql_update p f rows) = map key rows"
  by (induction rows) auto

text \<open>\<open>EXISTS (SELECT 1 \<dots> WHERE key = k AND \<dots>)\<close> asks the row found by \<open>row_by\<close>.\<close>

lemma ex_row_iff:
  assumes "keys_distinct key rows"
  shows "(\<exists>r \<in> set rows. key r = k \<and> P r) \<longleftrightarrow>
    (case row_by key k rows of None \<Rightarrow> False | Some r \<Rightarrow> P r)"
  using sql_returning_key [OF assms, of k P "\<lambda>r. r"]
    sql_returning_empty_iff [of "\<lambda>r. key r = k \<and> P r" "\<lambda>r. r" rows]
  by (auto split: option.splits if_splits)

lemma filter_row:
  assumes "keys_distinct key rows"
  shows "filter (\<lambda>r. key r = k \<and> P r) rows =
    (case row_by key k rows of None \<Rightarrow> [] | Some r \<Rightarrow> if P r then [r] else [])"
  using sql_returning_key [OF assms, of k P "\<lambda>r. r"] by (simp add: sql_returning_def)

section \<open>Strings\<close>

text \<open>
  \<open>String.prototype.trim\<close> strips white space and line terminators; below code unit 256 these
  are tab, line feed, vertical tab, form feed, carriage return, space and no-break space.
\<close>

definition js_space :: "char \<Rightarrow> bool" where
  "js_space c \<longleftrightarrow> (let n = of_char c :: nat in 9 \<le> n \<and> n \<le> 13 \<or> n = 32 \<or> n = 160)"

definition trim :: "string \<Rightarrow> string" where
  "trim s = rev (dropWhile js_space (rev (dropWhile js_space s)))"

definition blank :: "string \<Rightarrow> bool" where
  "blank s \<longleftrightarrow> trim s = []"

definition hex_digit :: "char \<Rightarrow> bool" where
  "hex_digit c \<longleftrightarrow> (let n = of_char c :: nat in 48 \<le> n \<and> n \<le> 57 \<or> 97 \<le> n \<and> n \<le> 102)"

text \<open>\<^verbatim>\<open>/^sha256:[0-9a-f]{64}$/\<close>\<close>

definition HASH_PATTERN :: "string \<Rightarrow> bool" where
  "HASH_PATTERN s \<longleftrightarrow>
     take 7 s = ''sha256:'' \<and> length (drop 7 s) = 64 \<and> list_all hex_digit (drop 7 s)"

lemma blank_iff: "blank s \<longleftrightarrow> list_all js_space s"
proof
  assume "blank s"
  then have all: "\<forall>c \<in> set (dropWhile js_space s). js_space c"
    by (simp add: blank_def trim_def dropWhile_eq_Nil_conv)
  have "dropWhile js_space s = []"
  proof (rule ccontr)
    assume ne: "dropWhile js_space s \<noteq> []"
    with all have "js_space (hd (dropWhile js_space s))" by simp
    with hd_dropWhile [OF ne] show False by simp
  qed
  then show "list_all js_space s" by (simp add: list_all_iff dropWhile_eq_Nil_conv)
next
  assume "list_all js_space s"
  then show "blank s"
    by (auto simp: blank_def trim_def list_all_iff dest: set_dropWhileD)
qed

lemma HASH_PATTERN_sha256: "length h = 64 \<Longrightarrow> list_all hex_digit h \<Longrightarrow> HASH_PATTERN (''sha256:'' @ h)"
  by (simp add: HASH_PATTERN_def)

end
