(* ===== verification/JsNumber.thy ===== *)
theory JsNumber
  imports Complex_Main "HOL-Library.Log_Nat" Prelude
begin

text \<open>
  ECMAScript numbers. A \<open>number\<close> is a binary64 value: not-a-number, an infinity, or a finite
  value, here the rational it denotes (the two zeroes are one value: no modelled operation
  tells them apart). Every arithmetic operation computes the exact result and rounds it to
  the nearest binary64 value, ties to even (\<open>fl\<close>), overflowing to an infinity.
  \<open>bigint\<close> values are HOL integers. The lemmas show that rounding is monotone and exact on
  the integers up to \<open>2 ^ 53\<close>, which is all the components use of it.
\<close>

section \<open>Rounding\<close>

definition ilog2 :: "rat \<Rightarrow> int" where
  "ilog2 x = (case quotient_of x of (n, d) \<Rightarrow>
     (let k = bitlen n - bitlen d in if 2 powi k \<le> x then k else k - 1))"

definition rne :: "rat \<Rightarrow> int" where
  "rne r = (let f = \<lfloor>r\<rfloor>; d = r - of_int f in
     if d < 1 / 2 then f else if 1 / 2 < d then f + 1 else if even f then f else f + 1)"

definition ulp_exp :: "rat \<Rightarrow> int" where
  "ulp_exp x = max (ilog2 \<bar>x\<bar> - 52) (- 1074)"

definition fl :: "rat \<Rightarrow> rat" where
  "fl x = (if x = 0 then 0 else of_int (rne (x / 2 powi (ulp_exp x))) * 2 powi (ulp_exp x))"

subsection \<open>Round to nearest, ties to even\<close>

lemma rne_of_int [simp]: "rne (of_int n) = n"
  by (simp add: rne_def Let_def)

lemma rne_near: "\<bar>of_int (rne r) - r\<bar> \<le> 1 / 2"
proof -
  have "of_int \<lfloor>r\<rfloor> \<le> r" "r < of_int \<lfloor>r\<rfloor> + 1" by linarith+
  then show ?thesis by (auto simp: rne_def Let_def abs_if simp del: of_int_floor_le)
qed

lemma rne_mono: "r \<le> s \<Longrightarrow> rne r \<le> rne s"
proof -
  assume rs: "r \<le> s"
  then have f: "\<lfloor>r\<rfloor> \<le> \<lfloor>s\<rfloor>" by (rule floor_mono)
  show ?thesis
  proof (cases "\<lfloor>r\<rfloor> = \<lfloor>s\<rfloor>")
    case True
    with rs show ?thesis by (auto simp: rne_def Let_def)
  next
    case False
    with f have "\<lfloor>r\<rfloor> + 1 \<le> \<lfloor>s\<rfloor>" by simp
    then show ?thesis by (auto simp: rne_def Let_def)
  qed
qed

lemma rne_minus: "rne (- r) = - rne r"
proof (cases "r = of_int \<lfloor>r\<rfloor>")
  case True
  then have "rne r = \<lfloor>r\<rfloor>" by (metis rne_of_int)
  moreover have "rne (- r) = - \<lfloor>r\<rfloor>" using True by (metis of_int_minus rne_of_int)
  ultimately show ?thesis by simp
next
  case False
  then have "\<lfloor>- r\<rfloor> = - \<lfloor>r\<rfloor> - 1" by linarith
  then show ?thesis by (auto simp: rne_def Let_def)
qed

lemma rne_le_int: "r \<le> of_int n \<Longrightarrow> rne r \<le> n"
  using rne_mono [of r "of_int n"] by simp

lemma rne_ge_int: "of_int n \<le> r \<Longrightarrow> n \<le> rne r"
  using rne_mono [of "of_int n" r] by simp

subsection \<open>The binade of a positive rational\<close>

lemma quotient_bitlen:
  assumes "0 < x" and q: "quotient_of x = (n, d)"
  shows "2 powi (bitlen n - bitlen d - 1) < x" and "x < 2 powi (bitlen n - bitlen d + 1)"
proof -
  have x: "x = of_int n / of_int d" using q by (rule quotient_of_div)
  have d: "0 < d" using q by (rule quotient_of_denom_pos)
  have n: "0 < n" using assms(1) x d by (simp add: zero_less_divide_iff)
  have nb: "2 ^ nat (bitlen n - 1) \<le> n" "n < 2 ^ nat (bitlen n)"
    using bitlen_bounds [OF n] by auto
  have db: "2 ^ nat (bitlen d - 1) \<le> d" "d < 2 ^ nat (bitlen d)"
    using bitlen_bounds [OF d] by auto
  have pos: "0 < bitlen n" "0 < bitlen d"
    using n d by (metis bitlen_eq_zero_iff bitlen_nonneg order_le_less not_le)+
  have pw: "(2::rat) powi k = of_int (2 ^ nat k)" if "0 \<le> k" for k :: int
    using that by (simp add: power_int_def)
  have nn: "2 powi (bitlen n - 1) \<le> (of_int n :: rat)" "(of_int n :: rat) < 2 powi bitlen n"
    using nb pos pw [of "bitlen n - 1"] pw [of "bitlen n"] by (metis diff_ge_0_iff_ge int_one_le_iff_zero_less of_int_le_iff)
      (metis nb(2) of_int_less_iff order_less_imp_le pos(1) pw)
  have dd: "2 powi (bitlen d - 1) \<le> (of_int d :: rat)" "(of_int d :: rat) < 2 powi bitlen d"
    using db pos pw [of "bitlen d - 1"] pw [of "bitlen d"] by (metis diff_ge_0_iff_ge int_one_le_iff_zero_less of_int_le_iff)
      (metis db(2) of_int_less_iff order_less_imp_le pos(2) pw)
  have dp: "(0::rat) < of_int d" and np: "(0::rat) < of_int n" using d n by simp_all
  have "2 powi (bitlen n - bitlen d - 1) * of_int d < (2::rat) powi (bitlen n - bitlen d - 1) * 2 powi bitlen d"
    using dd(2) by (intro mult_strict_left_mono) auto
  also have "\<dots> = 2 powi (bitlen n - 1)"
    by (simp flip: power_int_add)
  also have "\<dots> \<le> of_int n" by (rule nn(1))
  finally show "2 powi (bitlen n - bitlen d - 1) < x"
    using dp by (simp add: x pos_less_divide_eq)
  have "of_int n < (2::rat) powi bitlen n" by (rule nn(2))
  also have "\<dots> = 2 powi (bitlen n - bitlen d + 1) * 2 powi (bitlen d - 1)"
    by (simp flip: power_int_add)
  also have "\<dots> \<le> 2 powi (bitlen n - bitlen d + 1) * of_int d"
    using dd(1) by (intro mult_left_mono) auto
  finally show "x < 2 powi (bitlen n - bitlen d + 1)"
    using dp by (simp add: x pos_divide_less_eq)
qed

lemma ilog2_bounds:
  assumes "0 < x"
  shows "2 powi (ilog2 x) \<le> x" and "x < 2 powi (ilog2 x + 1)"
proof -
  obtain n d where q: "quotient_of x = (n, d)" by (cases "quotient_of x")
  note b = quotient_bitlen [OF assms q]
  show "2 powi (ilog2 x) \<le> x" "x < 2 powi (ilog2 x + 1)"
    using b q by (auto simp: ilog2_def Let_def not_le)
qed

lemma powi_less_imp: "(2::rat) powi a < 2 powi b \<Longrightarrow> a < b"
  by (metis linorder_not_less one_le_numeral power_int_increasing)

lemma ilog2_mono: "0 < x \<Longrightarrow> x \<le> y \<Longrightarrow> ilog2 x \<le> ilog2 y"
proof -
  assume x: "0 < x" "x \<le> y"
  then have "(2::rat) powi (ilog2 x) < 2 powi (ilog2 y + 1)"
    using ilog2_bounds(1) [of x] ilog2_bounds(2) [of y] by linarith
  then show ?thesis using powi_less_imp by fastforce
qed

subsection \<open>Rounding is odd, monotone and exact on the grid\<close>

lemma ulp_exp_minus [simp]: "ulp_exp (- x) = ulp_exp x"
  by (simp add: ulp_exp_def)

lemma fl_minus: "fl (- x) = - fl x"
  by (simp add: fl_def rne_minus)

lemma fl_zero [simp]: "fl 0 = 0"
  by (simp add: fl_def)

lemma powi_split: "e \<le> k \<Longrightarrow> (2::rat) powi k = of_int (2 ^ nat (k - e)) * 2 powi e"
proof -
  assume "e \<le> k"
  then have "of_int (2 ^ nat (k - e)) = (2::rat) powi (k - e)" by (simp add: power_int_def)
  moreover have "(2::rat) powi k = 2 powi (k - e) * 2 powi e" by (simp flip: power_int_add)
  ultimately show ?thesis by simp
qed

lemma powi_grid: "e \<le> k \<Longrightarrow> \<exists>n. (2::rat) powi k = of_int n * 2 powi e"
  using powi_split by blast

lemma fl_exact:
  assumes x: "x = of_int n * 2 powi e" and e: "ulp_exp x \<le> e"
  shows "fl x = x"
proof (cases "x = 0")
  case False
  define u where "u = ulp_exp x"
  have "x = of_int (n * 2 ^ nat (e - u)) * 2 powi u"
    using powi_split [of u e] e x by (simp add: u_def)
  then have "x / 2 powi u = of_int (n * 2 ^ nat (e - u))" by simp
  then have "of_int (rne (x / 2 powi u)) = x / 2 powi u"
    by (metis rne_of_int)
  with False show ?thesis by (simp add: fl_def flip: u_def)
qed simp

lemma fl_pos_le:
  assumes "0 < x" and "x \<le> p" and p: "p = of_int n * 2 powi (ulp_exp x)"
  shows "fl x \<le> p"
proof -
  have "x / 2 powi (ulp_exp x) \<le> of_int n"
    using assms by (simp add: pos_divide_le_eq)
  then have "rne (x / 2 powi (ulp_exp x)) \<le> n" by (rule rne_le_int)
  then have "of_int (rne (x / 2 powi (ulp_exp x))) * 2 powi (ulp_exp x) \<le> p"
    unfolding p by (intro mult_right_mono) auto
  then show ?thesis using assms(1) by (simp add: fl_def)
qed

lemma fl_pos_ge:
  assumes "0 < x" and "p \<le> x" and p: "p = of_int n * 2 powi (ulp_exp x)"
  shows "p \<le> fl x"
proof -
  have "of_int n \<le> x / 2 powi (ulp_exp x)"
    using assms by (simp add: pos_le_divide_eq)
  then have "n \<le> rne (x / 2 powi (ulp_exp x))" by (rule rne_ge_int)
  then have "p \<le> of_int (rne (x / 2 powi (ulp_exp x))) * 2 powi (ulp_exp x)"
    unfolding p by (intro mult_right_mono) auto
  then show ?thesis using assms(1) by (simp add: fl_def)
qed

lemma fl_nonneg: "0 \<le> x \<Longrightarrow> 0 \<le> fl x"
  using fl_pos_ge [of x 0 0] by (cases "x = 0") auto

lemma fl_mono_pos:
  assumes "0 < x" and "x \<le> y"
  shows "fl x \<le> fl y"
proof (cases "ulp_exp x = ulp_exp y")
  case True
  have "rne (x / 2 powi (ulp_exp x)) \<le> rne (y / 2 powi (ulp_exp x))"
    using assms by (intro rne_mono divide_right_mono) auto
  then have "of_int (rne (x / 2 powi (ulp_exp x))) * 2 powi (ulp_exp x)
    \<le> (of_int (rne (y / 2 powi (ulp_exp x))) * 2 powi (ulp_exp x) :: rat)"
    by (intro mult_right_mono) auto
  with True assms show ?thesis by (simp add: fl_def)
next
  case False
  have y: "0 < y" using assms by linarith
  have lg: "ilog2 x \<le> ilog2 y" using assms by (rule ilog2_mono)
  with False assms y have lt: "ilog2 x < ilog2 y" and big: "ulp_exp y = ilog2 y - 52"
    and ex: "ulp_exp x \<le> ilog2 y"
    by (auto simp: ulp_exp_def max_def split: if_splits)
  let ?p = "(2::rat) powi (ilog2 y)"
  have "x \<le> ?p"
  proof -
    have "x < 2 powi (ilog2 x + 1)" using assms(1) by (rule ilog2_bounds(2))
    also have "\<dots> \<le> ?p" using lt by (intro power_int_increasing) auto
    finally show ?thesis by simp
  qed
  moreover obtain n where "?p = of_int n * 2 powi (ulp_exp x)" using powi_grid [OF ex] ..
  ultimately have "fl x \<le> ?p" using assms(1) by (intro fl_pos_le)
  also obtain m where "?p = of_int m * 2 powi (ulp_exp y)"
    using powi_grid [of "ulp_exp y" "ilog2 y"] big by auto
  then have "?p \<le> fl y" using y ilog2_bounds(1) [OF y] by (intro fl_pos_ge)
  finally show ?thesis .
qed

lemma fl_mono: "x \<le> y \<Longrightarrow> fl x \<le> fl y"
proof -
  assume xy: "x \<le> y"
  consider "0 < x" | "x \<le> 0" "0 \<le> y" | "y < 0" using xy by linarith
  then show ?thesis
  proof cases
    case 1
    then show ?thesis using xy by (rule fl_mono_pos)
  next
    case 2
    have "0 \<le> fl (- x)" "0 \<le> fl y" using 2 by (auto intro: fl_nonneg)
    then show ?thesis by (simp add: fl_minus)
  next
    case 3
    then have "fl (- y) \<le> fl (- x)" using xy by (intro fl_mono_pos) auto
    then show ?thesis by (simp add: fl_minus)
  qed
qed

lemma fl_of_int:
  assumes "\<bar>n\<bar> \<le> 2 ^ 53"
  shows "fl (of_int n) = of_int n"
proof (cases "\<bar>n\<bar> = 2 ^ 53")
  case True
  have "ilog2 (2 ^ 53) \<le> 53"
    using ilog2_bounds(1) [of "2 ^ 53"] powi_less_imp [of "ilog2 (2 ^ 53)" 54]
    by (simp add: power_int_def)
  with True have "ulp_exp (of_int n) \<le> 1"
    by (auto simp: ulp_exp_def simp flip: of_int_abs)
  moreover have "(of_int n :: rat) = of_int (sgn n * 2 ^ 52) * 2 powi 1"
    using True by (auto simp: abs_if sgn_if split: if_splits)
  ultimately show ?thesis by (intro fl_exact)
next
  case False
  have "ulp_exp (of_int n) \<le> 0" if "n \<noteq> 0"
  proof -
    have "2 powi (ilog2 \<bar>of_int n\<bar>) \<le> \<bar>of_int n :: rat\<bar>"
      using that by (intro ilog2_bounds) auto
    also have "\<dots> < of_int (2 ^ 53)"
      using False assms by (metis of_int_abs of_int_less_iff order_le_less)
    also have "\<dots> = (2::rat) powi 53" by (simp add: power_int_def)
    finally have "ilog2 \<bar>of_int n\<bar> < 53" by (rule powi_less_imp)
    then show ?thesis by (simp add: ulp_exp_def)
  qed
  then show ?thesis
    using fl_exact [of "of_int n" n 0] by (cases "n = 0") auto
qed

lemma fl_scaled:
  assumes "\<bar>n\<bar> < 2 ^ 53" and "- 1074 \<le> e"
  shows "fl (of_int n * 2 powi e) = of_int n * 2 powi e"
proof (cases "n = 0")
  case False
  let ?x = "of_int n * 2 powi e :: rat"
  have ax: "\<bar>?x\<bar> = of_int \<bar>n\<bar> * 2 powi e" by (simp add: abs_mult)
  have "2 powi (ilog2 \<bar>?x\<bar>) \<le> \<bar>?x\<bar>" using False by (intro ilog2_bounds) simp
  also have "\<dots> < of_int (2 ^ 53) * 2 powi e"
    unfolding ax using assms(1) by (intro mult_strict_right_mono) (simp_all only: of_int_less_iff, simp)
  also have "\<dots> = (2::rat) powi (53 + e)" by (simp add: power_int_add)
  finally have "ilog2 \<bar>?x\<bar> < 53 + e" by (rule powi_less_imp)
  then have "ulp_exp ?x \<le> e" using assms(2) by (simp add: ulp_exp_def)
  then show ?thesis by (rule fl_exact [OF refl])
qed simp

lemma fl_idem: "fl (fl x) = fl x"
proof (cases "x = 0")
  case False
  define e where "e = ulp_exp x"
  define n where "n = rne (x / 2 powi e)"
  have x: "fl x = of_int n * 2 powi e" using False by (simp add: fl_def e_def n_def)
  have e: "- 1074 \<le> e" "ilog2 \<bar>x\<bar> + 1 \<le> 53 + e" by (simp_all add: e_def ulp_exp_def)
  have "\<bar>x\<bar> < 2 powi (ilog2 \<bar>x\<bar> + 1)" using False by (intro ilog2_bounds) simp
  also have "\<dots> \<le> 2 powi (53 + e)" using e(2) by (intro power_int_increasing) auto
  also have "\<dots> = of_int (2 ^ 53) * 2 powi e" by (simp add: power_int_add)
  finally have "\<bar>x\<bar> \<le> of_int (2 ^ 53) * 2 powi e" by simp
  then have "\<bar>x / 2 powi e\<bar> \<le> of_int (2 ^ 53)" by (simp add: abs_divide pos_divide_le_eq)
  then have "x / 2 powi e \<le> of_int (2 ^ 53)" "of_int (- (2 ^ 53)) \<le> x / 2 powi e"
    unfolding abs_le_iff by (simp_all del: of_int_power)
  then have "n \<le> 2 ^ 53" "- (2 ^ 53) \<le> n" unfolding n_def by (blast intro: rne_le_int rne_ge_int)+
  then consider "\<bar>n\<bar> < 2 ^ 53" | "\<bar>n\<bar> = 2 ^ 53" by linarith
  then show ?thesis
  proof cases
    case 1
    then show ?thesis using e(1) unfolding x by (rule fl_scaled)
  next
    case 2
    then have "of_int n * 2 powi e = (of_int (sgn n * 2 ^ 52) * 2 powi (e + 1) :: rat)"
      by (auto simp: abs_if sgn_if power_int_add split: if_splits)
    then show ?thesis unfolding x using fl_scaled [of "sgn n * 2 ^ 52" "e + 1"] e(1) by (simp add: sgn_if)
  qed
qed simp

section \<open>Numbers and their operations\<close>

datatype jsnum = NaN | Infinity | NegInfinity | Fin rat

definition to_num :: "rat \<Rightarrow> jsnum" where
  "to_num x = (let y = fl x in
     if 2 ^ 1024 \<le> y then Infinity else if y \<le> - (2 ^ 1024) then NegInfinity else Fin y)"

text \<open>\<open>Number(n)\<close> for a \<open>bigint\<close> rounds as an arithmetic result does.\<close>

definition js_Number :: "int \<Rightarrow> jsnum" where
  "js_Number n = to_num (of_int n)"

fun js_add :: "jsnum \<Rightarrow> jsnum \<Rightarrow> jsnum" where
  "js_add (Fin a) (Fin b) = to_num (a + b)"
| "js_add NaN _ = NaN"
| "js_add _ NaN = NaN"
| "js_add Infinity NegInfinity = NaN"
| "js_add NegInfinity Infinity = NaN"
| "js_add Infinity _ = Infinity"
| "js_add _ Infinity = Infinity"
| "js_add NegInfinity _ = NegInfinity"
| "js_add _ NegInfinity = NegInfinity"

fun js_neg :: "jsnum \<Rightarrow> jsnum" where
  "js_neg NaN = NaN"
| "js_neg Infinity = NegInfinity"
| "js_neg NegInfinity = Infinity"
| "js_neg (Fin a) = Fin (- a)"

definition js_sub :: "jsnum \<Rightarrow> jsnum \<Rightarrow> jsnum" where
  "js_sub a b = js_add a (js_neg b)"

definition inf_of_sign :: "rat \<Rightarrow> jsnum" where
  "inf_of_sign s = (if 0 < s then Infinity else if s < 0 then NegInfinity else NaN)"

fun js_mul :: "jsnum \<Rightarrow> jsnum \<Rightarrow> jsnum" where
  "js_mul (Fin a) (Fin b) = to_num (a * b)"
| "js_mul NaN _ = NaN"
| "js_mul _ NaN = NaN"
| "js_mul Infinity (Fin b) = inf_of_sign b"
| "js_mul NegInfinity (Fin b) = inf_of_sign (- b)"
| "js_mul (Fin a) Infinity = inf_of_sign a"
| "js_mul (Fin a) NegInfinity = inf_of_sign (- a)"
| "js_mul Infinity Infinity = Infinity"
| "js_mul NegInfinity NegInfinity = Infinity"
| "js_mul _ _ = NegInfinity"

text \<open>Division; a zero divisor is positive zero (the modelled code divides by positive values).\<close>

fun js_div :: "jsnum \<Rightarrow> jsnum \<Rightarrow> jsnum" where
  "js_div (Fin a) (Fin b) = (if b = 0 then inf_of_sign a else to_num (a / b))"
| "js_div NaN _ = NaN"
| "js_div _ NaN = NaN"
| "js_div (Fin a) _ = Fin 0"
| "js_div Infinity (Fin b) = (if b < 0 then NegInfinity else Infinity)"
| "js_div NegInfinity (Fin b) = (if b < 0 then Infinity else NegInfinity)"
| "js_div _ _ = NaN"

fun js_lt :: "jsnum \<Rightarrow> jsnum \<Rightarrow> bool" where
  "js_lt (Fin a) (Fin b) = (a < b)"
| "js_lt NaN _ = False"
| "js_lt _ NaN = False"
| "js_lt NegInfinity b = (b \<noteq> NegInfinity)"
| "js_lt a Infinity = (a \<noteq> Infinity)"
| "js_lt _ _ = False"

definition js_eq :: "jsnum \<Rightarrow> jsnum \<Rightarrow> bool" where
  "js_eq a b \<longleftrightarrow> a = b \<and> a \<noteq> NaN"

definition js_le :: "jsnum \<Rightarrow> jsnum \<Rightarrow> bool" where
  "js_le a b \<longleftrightarrow> js_lt a b \<or> js_eq a b"

definition js_min :: "jsnum \<Rightarrow> jsnum \<Rightarrow> jsnum" where
  "js_min a b = (if a = NaN \<or> b = NaN then NaN else if js_lt b a then b else a)"

definition js_max :: "jsnum \<Rightarrow> jsnum \<Rightarrow> jsnum" where
  "js_max a b = (if a = NaN \<or> b = NaN then NaN else if js_lt a b then b else a)"

fun js_round :: "jsnum \<Rightarrow> jsnum" where
  "js_round (Fin a) = Fin (of_int \<lfloor>a + 1 / 2\<rfloor>)"
| "js_round a = a"

definition rat_trunc :: "rat \<Rightarrow> int" where
  "rat_trunc a = (if 0 \<le> a then \<lfloor>a\<rfloor> else - \<lfloor>- a\<rfloor>)"

fun js_trunc :: "jsnum \<Rightarrow> jsnum" where
  "js_trunc (Fin a) = Fin (of_int (rat_trunc a))"
| "js_trunc a = a"

fun js_isFinite :: "jsnum \<Rightarrow> bool" where
  "js_isFinite (Fin a) = True"
| "js_isFinite _ = False"

fun js_isInteger :: "jsnum \<Rightarrow> bool" where
  "js_isInteger (Fin a) = (a = of_int \<lfloor>a\<rfloor>)"
| "js_isInteger _ = False"

text \<open>\<open>2 ** k\<close> for a non-negative integer exponent: a power of two is exact until it overflows.\<close>

definition js_pow2 :: "nat \<Rightarrow> jsnum" where
  "js_pow2 k = (if k < 1024 then Fin (2 ^ k) else Infinity)"

text \<open>The rationals that are finite binary64 values.\<close>

definition is_double :: "rat \<Rightarrow> bool" where
  "is_double x \<longleftrightarrow> fl x = x \<and> \<bar>x\<bar> < 2 ^ 1024"

lemma to_num_double: "is_double x \<Longrightarrow> to_num x = Fin x"
  by (auto simp: is_double_def to_num_def Let_def abs_if split: if_splits)

lemma is_double_of_int: "\<bar>n\<bar> \<le> 2 ^ 53 \<Longrightarrow> is_double (of_int n)"
proof -
  assume n: "\<bar>n\<bar> \<le> 2 ^ 53"
  have "\<bar>of_int n :: rat\<bar> \<le> of_int (2 ^ 53)"
    using n by (metis of_int_abs of_int_le_iff)
  also have "\<dots> < (2 ^ 1024 :: rat)" by simp
  finally show ?thesis using fl_of_int [OF n] by (simp add: is_double_def)
qed

lemma js_Number_exact: "\<bar>n\<bar> \<le> 2 ^ 53 \<Longrightarrow> js_Number n = Fin (of_int n)"
  by (simp add: js_Number_def to_num_double is_double_of_int)

lemma to_num_of_int: "\<bar>n\<bar> \<le> 2 ^ 53 \<Longrightarrow> to_num (of_int n) = Fin (of_int n)"
  by (simp add: to_num_double is_double_of_int)

text \<open>A rounded result stays between two binary64 values that enclose the exact one.\<close>

lemma to_num_between:
  assumes "is_double lo" and "is_double hi" and "lo \<le> x" and "x \<le> hi"
  shows "\<exists>y. to_num x = Fin y \<and> lo \<le> y \<and> y \<le> hi"
proof -
  have "lo \<le> fl x" "fl x \<le> hi"
    using fl_mono [OF assms(3)] fl_mono [OF assms(4)] assms(1,2) by (simp_all add: is_double_def)
  moreover have "fl x < 2 ^ 1024" "- (2 ^ 1024) < fl x"
    using calculation assms(1,2) by (auto simp: is_double_def abs_if split: if_splits)
  ultimately show ?thesis by (simp add: to_num_def Let_def)
qed

lemma to_num_is_double: "to_num x = Fin y \<Longrightarrow> is_double y"
  by (auto simp: to_num_def Let_def is_double_def fl_idem abs_less_iff not_le split: if_splits)

lemma to_num_nonneg: "0 \<le> x \<Longrightarrow> to_num x = Fin y \<Longrightarrow> 0 \<le> y"
  by (auto simp: to_num_def Let_def fl_nonneg split: if_splits)

lemma is_double_simps [simp]: "is_double 0" "is_double 1" "is_double 10000"
  using is_double_of_int [of 0] is_double_of_int [of 1] is_double_of_int [of 10000] by simp_all

lemma is_double_half:
  assumes "0 \<le> n" and "n < 2 ^ 53"
  shows "is_double (of_int n / 2)"
proof -
  have "of_int n / 2 = (of_int n * 2 powi (- 1) :: rat)" by (simp add: power_int_minus)
  then have "fl (of_int n / 2) = of_int n / 2"
    using fl_scaled [of n "- 1"] assms by simp
  moreover have "\<bar>of_int n / 2 :: rat\<bar> < 2 ^ 1024"
  proof -
    have "(of_int n :: rat) < of_int (2 ^ 53)" using assms(2) by (simp only: of_int_less_iff)
    then have "of_int n / 2 < (2 ^ 1024 :: rat)" by simp
    then show ?thesis using assms(1) by simp
  qed
  ultimately show ?thesis by (simp add: is_double_def)
qed

lemma js_isIntegerE:
  assumes "js_isInteger x"
  obtains n where "x = Fin (of_int n)"
  using assms by (cases x) auto

section \<open>Dates\<close>

text \<open>
  An instant is a number of milliseconds since the epoch. A timestamp string enters the
  model as the value \<open>Date.parse\<close> gives it, \<open>None\<close> where that is not a number; the code
  only ever parses, compares and re-prints these strings, and \<open>timestamptz\<close> columns hold
  the instants. \<open>TimeClip\<close> truncates to whole milliseconds and refuses beyond
  \<open>8.64e15\<close>, where \<open>toISOString\<close> throws a \<open>RangeError\<close>.
\<close>

type_synonym instant = int
type_synonym iso = "instant option"

fun time_clip :: "jsnum \<Rightarrow> instant option" where
  "time_clip (Fin a) = (if \<bar>a\<bar> \<le> 8640000000000000 then Some (rat_trunc a) else None)"
| "time_clip _ = None"

definition date_add :: "instant \<Rightarrow> jsnum \<Rightarrow> instant res" where
  "date_add t ms = (case time_clip (js_add (Fin (of_int t)) ms) of
     None \<Rightarrow> Inl RangeError | Some u \<Rightarrow> Inr u)"

lemma rat_trunc_of_int [simp]: "rat_trunc (of_int n) = n"
  by (simp add: rat_trunc_def)

lemma rat_trunc_ge: "of_int n \<le> a \<Longrightarrow> n \<le> rat_trunc a"
  by (simp add: rat_trunc_def) linarith

lemma date_add_int:
  assumes "\<bar>t + m\<bar> \<le> 8640000000000000"
  shows "date_add t (Fin (of_int m)) = Inr (t + m)"
proof -
  have "\<bar>of_int (t + m) :: rat\<bar> \<le> of_int 8640000000000000"
    using assms by (metis of_int_abs of_int_le_iff)
  moreover have "to_num (of_int (t + m)) = Fin (of_int (t + m))"
    using assms by (intro to_num_of_int) simp
  ultimately show ?thesis
    by (simp add: date_add_def flip: of_int_add)
qed

lemma date_add_later:
  assumes "\<bar>t\<bar> \<le> 8640000000000000" and "1 \<le> ms" and "date_add t (Fin ms) = Inr u"
  shows "t < u"
proof -
  have r: "fl (of_int (t + 1)) = of_int (t + 1)" using assms(1) by (intro fl_of_int) auto
  have le: "of_int (t + 1) \<le> of_int t + ms" using assms(2) by simp
  have "of_int (t + 1) \<le> fl (of_int t + ms)"
    using fl_mono [OF le] r by simp
  then have "t + 1 \<le> rat_trunc (fl (of_int t + ms))" by (rule rat_trunc_ge)
  then show ?thesis
    using assms(3) by (auto simp: date_add_def to_num_def Let_def split: if_splits)
qed

end
