(* ===== verification/WfDomain.thy ===== *)
theory WfDomain
  imports JsNumber
begin

text \<open>
  The durable-workflow vocabularies and pure laws of packages/domain/src/wf.ts: the closed
  status enumerations with their fail-closed parsers, the retry policy of each error class,
  the shadow-influence law and the default concurrency policies. The interface
  \<open>closed_vocabulary\<close> states what a parser of an enumeration promises; it is interpreted for
  every enumeration of the file.
\<close>

section \<open>Closed vocabularies\<close>

datatype trigger_status =
  Trig_RECEIVED | Trig_VERIFIED | Trig_PROCESSED | Trig_DUPLICATE_COLLAPSED | Trig_REJECTED

datatype run_status =
    Run_PENDING | Run_RUNNING | Run_WAITING | Run_SUCCEEDED | Run_FAILED | Run_CANCELLED
  | Run_DEAD_LETTERED

datatype step_status =
    Step_PENDING | Step_RUNNING | Step_SUCCEEDED | Step_FAILED_RETRYABLE
  | Step_FAILED_EXHAUSTED | Step_SKIPPED_POLICY

datatype schedule_status = Sched_DRAFT | Sched_ACTIVE | Sched_PAUSED | Sched_DISABLED

datatype concurrency_policy =
  SKIP_IF_RUNNING | QUEUE_AFTER_RUNNING | CANCEL_PREVIOUS | ALLOW_PARALLEL

datatype retry_error_class =
    AUTH_INVALID_KEY | INVALID_INPUT | RATE_LIMITED | TIMEOUT_OR_5XX | SCHEMA_DRIFT
  | MODEL_FORMAT_ERROR | BUDGET_EXCEEDED | SERIALIZATION_CONFLICT | NOTIFICATION_TRANSIENT

datatype outbox_status =
    Out_PENDING | Out_CLAIMED | Out_SENT | Out_FAILED | Out_SUPPRESSED_SHADOW
  | Out_SUPPRESSED_OUTAGE

datatype dead_letter_status = DL_OPEN | DL_RETRIED | DL_RESOLVED

datatype schedule_control_action =
    Ctl_CREATE | Ctl_EDIT_DRAFT | Ctl_VALIDATE | Ctl_ENABLE | Ctl_PAUSE | Ctl_RESUME
  | Ctl_RUN_NOW | Ctl_DRY_RUN | Ctl_DUPLICATE | Ctl_DISABLE | Ctl_DELETE

text \<open>The string each member is stored as, and the members in \<open>Object.values\<close> order.\<close>

fun trigger_status_text :: "trigger_status \<Rightarrow> string" where
  "trigger_status_text Trig_RECEIVED = ''RECEIVED''"
| "trigger_status_text Trig_VERIFIED = ''VERIFIED''"
| "trigger_status_text Trig_PROCESSED = ''PROCESSED''"
| "trigger_status_text Trig_DUPLICATE_COLLAPSED = ''DUPLICATE_COLLAPSED''"
| "trigger_status_text Trig_REJECTED = ''REJECTED''"

fun run_status_text :: "run_status \<Rightarrow> string" where
  "run_status_text Run_PENDING = ''PENDING''"
| "run_status_text Run_RUNNING = ''RUNNING''"
| "run_status_text Run_WAITING = ''WAITING''"
| "run_status_text Run_SUCCEEDED = ''SUCCEEDED''"
| "run_status_text Run_FAILED = ''FAILED''"
| "run_status_text Run_CANCELLED = ''CANCELLED''"
| "run_status_text Run_DEAD_LETTERED = ''DEAD_LETTERED''"

fun step_status_text :: "step_status \<Rightarrow> string" where
  "step_status_text Step_PENDING = ''PENDING''"
| "step_status_text Step_RUNNING = ''RUNNING''"
| "step_status_text Step_SUCCEEDED = ''SUCCEEDED''"
| "step_status_text Step_FAILED_RETRYABLE = ''FAILED_RETRYABLE''"
| "step_status_text Step_FAILED_EXHAUSTED = ''FAILED_EXHAUSTED''"
| "step_status_text Step_SKIPPED_POLICY = ''SKIPPED_POLICY''"

fun schedule_status_text :: "schedule_status \<Rightarrow> string" where
  "schedule_status_text Sched_DRAFT = ''DRAFT''"
| "schedule_status_text Sched_ACTIVE = ''ACTIVE''"
| "schedule_status_text Sched_PAUSED = ''PAUSED''"
| "schedule_status_text Sched_DISABLED = ''DISABLED''"

fun concurrency_policy_text :: "concurrency_policy \<Rightarrow> string" where
  "concurrency_policy_text SKIP_IF_RUNNING = ''SKIP_IF_RUNNING''"
| "concurrency_policy_text QUEUE_AFTER_RUNNING = ''QUEUE_AFTER_RUNNING''"
| "concurrency_policy_text CANCEL_PREVIOUS = ''CANCEL_PREVIOUS''"
| "concurrency_policy_text ALLOW_PARALLEL = ''ALLOW_PARALLEL''"

fun retry_error_class_text :: "retry_error_class \<Rightarrow> string" where
  "retry_error_class_text AUTH_INVALID_KEY = ''AUTH_INVALID_KEY''"
| "retry_error_class_text INVALID_INPUT = ''INVALID_INPUT''"
| "retry_error_class_text RATE_LIMITED = ''RATE_LIMITED''"
| "retry_error_class_text TIMEOUT_OR_5XX = ''TIMEOUT_OR_5XX''"
| "retry_error_class_text SCHEMA_DRIFT = ''SCHEMA_DRIFT''"
| "retry_error_class_text MODEL_FORMAT_ERROR = ''MODEL_FORMAT_ERROR''"
| "retry_error_class_text BUDGET_EXCEEDED = ''BUDGET_EXCEEDED''"
| "retry_error_class_text SERIALIZATION_CONFLICT = ''SERIALIZATION_CONFLICT''"
| "retry_error_class_text NOTIFICATION_TRANSIENT = ''NOTIFICATION_TRANSIENT''"

fun outbox_status_text :: "outbox_status \<Rightarrow> string" where
  "outbox_status_text Out_PENDING = ''PENDING''"
| "outbox_status_text Out_CLAIMED = ''CLAIMED''"
| "outbox_status_text Out_SENT = ''SENT''"
| "outbox_status_text Out_FAILED = ''FAILED''"
| "outbox_status_text Out_SUPPRESSED_SHADOW = ''SUPPRESSED_SHADOW''"
| "outbox_status_text Out_SUPPRESSED_OUTAGE = ''SUPPRESSED_OUTAGE''"

fun dead_letter_status_text :: "dead_letter_status \<Rightarrow> string" where
  "dead_letter_status_text DL_OPEN = ''OPEN''"
| "dead_letter_status_text DL_RETRIED = ''RETRIED''"
| "dead_letter_status_text DL_RESOLVED = ''RESOLVED''"

fun schedule_control_action_text :: "schedule_control_action \<Rightarrow> string" where
  "schedule_control_action_text Ctl_CREATE = ''CREATE''"
| "schedule_control_action_text Ctl_EDIT_DRAFT = ''EDIT_DRAFT''"
| "schedule_control_action_text Ctl_VALIDATE = ''VALIDATE''"
| "schedule_control_action_text Ctl_ENABLE = ''ENABLE''"
| "schedule_control_action_text Ctl_PAUSE = ''PAUSE''"
| "schedule_control_action_text Ctl_RESUME = ''RESUME''"
| "schedule_control_action_text Ctl_RUN_NOW = ''RUN_NOW''"
| "schedule_control_action_text Ctl_DRY_RUN = ''DRY_RUN''"
| "schedule_control_action_text Ctl_DUPLICATE = ''DUPLICATE''"
| "schedule_control_action_text Ctl_DISABLE = ''DISABLE''"
| "schedule_control_action_text Ctl_DELETE = ''DELETE''"

definition ALL_TRIGGER_STATUSES :: "trigger_status list" where
  "ALL_TRIGGER_STATUSES = [Trig_RECEIVED, Trig_VERIFIED, Trig_PROCESSED,
     Trig_DUPLICATE_COLLAPSED, Trig_REJECTED]"

definition ALL_RUN_STATUSES :: "run_status list" where
  "ALL_RUN_STATUSES = [Run_PENDING, Run_RUNNING, Run_WAITING, Run_SUCCEEDED, Run_FAILED,
     Run_CANCELLED, Run_DEAD_LETTERED]"

definition ALL_STEP_STATUSES :: "step_status list" where
  "ALL_STEP_STATUSES = [Step_PENDING, Step_RUNNING, Step_SUCCEEDED, Step_FAILED_RETRYABLE,
     Step_FAILED_EXHAUSTED, Step_SKIPPED_POLICY]"

definition ALL_SCHEDULE_STATUSES :: "schedule_status list" where
  "ALL_SCHEDULE_STATUSES = [Sched_DRAFT, Sched_ACTIVE, Sched_PAUSED, Sched_DISABLED]"

definition ALL_CONCURRENCY_POLICIES :: "concurrency_policy list" where
  "ALL_CONCURRENCY_POLICIES =
     [SKIP_IF_RUNNING, QUEUE_AFTER_RUNNING, CANCEL_PREVIOUS, ALLOW_PARALLEL]"

definition ALL_RETRY_ERROR_CLASSES :: "retry_error_class list" where
  "ALL_RETRY_ERROR_CLASSES = [AUTH_INVALID_KEY, INVALID_INPUT, RATE_LIMITED, TIMEOUT_OR_5XX,
     SCHEMA_DRIFT, MODEL_FORMAT_ERROR, BUDGET_EXCEEDED, SERIALIZATION_CONFLICT,
     NOTIFICATION_TRANSIENT]"

definition ALL_OUTBOX_STATUSES :: "outbox_status list" where
  "ALL_OUTBOX_STATUSES = [Out_PENDING, Out_CLAIMED, Out_SENT, Out_FAILED,
     Out_SUPPRESSED_SHADOW, Out_SUPPRESSED_OUTAGE]"

definition ALL_DEAD_LETTER_STATUSES :: "dead_letter_status list" where
  "ALL_DEAD_LETTER_STATUSES = [DL_OPEN, DL_RETRIED, DL_RESOLVED]"

definition ALL_SCHEDULE_CONTROL_ACTIONS :: "schedule_control_action list" where
  "ALL_SCHEDULE_CONTROL_ACTIONS = [Ctl_CREATE, Ctl_EDIT_DRAFT, Ctl_VALIDATE, Ctl_ENABLE,
     Ctl_PAUSE, Ctl_RESUME, Ctl_RUN_NOW, Ctl_DRY_RUN, Ctl_DUPLICATE, Ctl_DISABLE, Ctl_DELETE]"

text \<open>
  \<open>parseClosed\<close>: an \<open>unknown\<close> argument is \<open>None\<close> when it is not a string.
\<close>

definition parseClosed ::
  "'a list \<Rightarrow> ('a \<Rightarrow> string) \<Rightarrow> string option \<Rightarrow> error_code \<Rightarrow> 'a res" where
  "parseClosed vals text v code =
     (case v of
        None \<Rightarrow> Inl (ForesiftError code)
      | Some s \<Rightarrow> (case find (\<lambda>x. text x = s) vals of
          Some x \<Rightarrow> Inr x
        | None \<Rightarrow> Inl (ForesiftError code)))"

definition parseTriggerStatus :: "string option \<Rightarrow> trigger_status res" where
  "parseTriggerStatus v =
     parseClosed ALL_TRIGGER_STATUSES trigger_status_text v WF_TRIGGER_STATUS_UNKNOWN"

definition parseRunStatus :: "string option \<Rightarrow> run_status res" where
  "parseRunStatus v = parseClosed ALL_RUN_STATUSES run_status_text v WF_RUN_STATUS_UNKNOWN"

definition parseStepStatus :: "string option \<Rightarrow> step_status res" where
  "parseStepStatus v = parseClosed ALL_STEP_STATUSES step_status_text v WF_STEP_STATUS_UNKNOWN"

definition parseScheduleStatus :: "string option \<Rightarrow> schedule_status res" where
  "parseScheduleStatus v =
     parseClosed ALL_SCHEDULE_STATUSES schedule_status_text v WF_SCHEDULE_STATUS_UNKNOWN"

definition parseConcurrencyPolicy :: "string option \<Rightarrow> concurrency_policy res" where
  "parseConcurrencyPolicy v =
     parseClosed ALL_CONCURRENCY_POLICIES concurrency_policy_text v WF_CONCURRENCY_POLICY_UNKNOWN"

definition parseRetryErrorClass :: "string option \<Rightarrow> retry_error_class res" where
  "parseRetryErrorClass v =
     parseClosed ALL_RETRY_ERROR_CLASSES retry_error_class_text v WF_RETRY_ERROR_CLASS_UNKNOWN"

definition parseOutboxStatus :: "string option \<Rightarrow> outbox_status res" where
  "parseOutboxStatus v =
     parseClosed ALL_OUTBOX_STATUSES outbox_status_text v WF_OUTBOX_STATUS_UNKNOWN"

definition parseDeadLetterStatus :: "string option \<Rightarrow> dead_letter_status res" where
  "parseDeadLetterStatus v =
     parseClosed ALL_DEAD_LETTER_STATUSES dead_letter_status_text v WF_DEAD_LETTER_STATUS_UNKNOWN"

definition parseScheduleControlAction :: "string option \<Rightarrow> schedule_control_action res" where
  "parseScheduleControlAction v =
     parseClosed ALL_SCHEDULE_CONTROL_ACTIONS schedule_control_action_text v
       WF_SCHEDULE_ACTION_UNKNOWN"

section \<open>What a closed vocabulary promises\<close>

text \<open>
  The contract of \<open>parseClosed\<close> on one enumeration: with a complete member list and an
  injective text, parsing the text of a member gives the member back, and everything else
  is refused with the vocabulary's own code.
\<close>

locale named_values =
  fixes vals :: "'a list" and name :: "'a \<Rightarrow> string"
  assumes complete: "x \<in> set vals"
    and name_inj: "name x = name y \<Longrightarrow> x = y"
begin

lemma find_name: "find (\<lambda>y. name y = name x) vals = Some x"
proof -
  have "find (\<lambda>y. name y = name x) vals \<noteq> None"
    unfolding find_None_iff using complete by blast
  then obtain y where y: "find (\<lambda>y. name y = name x) vals = Some y" by blast
  then have "name y = name x" by (auto simp: find_Some_iff)
  then show ?thesis using y name_inj by blast
qed

end

locale closed_vocabulary = named_values vals name for vals :: "'a list" and name :: "'a \<Rightarrow> string" +
  fixes code :: error_code
begin

lemma parse_roundtrip: "parseClosed vals name (Some (name x)) code = Inr x"
  by (simp add: parseClosed_def find_name)

lemma parse_refuses:
  assumes "\<And>x. v \<noteq> Some (name x)"
  shows "parseClosed vals name v code = Inl (ForesiftError code)"
  using assms by (auto simp: parseClosed_def find_Some_iff split: option.splits)

lemma parse_iff: "parseClosed vals name v code = Inr x \<longleftrightarrow> v = Some (name x)"
proof
  assume ok: "parseClosed vals name v code = Inr x"
  then obtain y where "v = Some (name y)" using parse_refuses by fastforce
  with ok show "v = Some (name x)" by (simp add: parse_roundtrip)
qed (simp add: parse_roundtrip)

end

lemma trigger_status_text_inj: "trigger_status_text x = trigger_status_text y \<Longrightarrow> x = y"
  by (cases x; cases y; simp)

interpretation trigger_voc: closed_vocabulary ALL_TRIGGER_STATUSES trigger_status_text
  WF_TRIGGER_STATUS_UNKNOWN
proof
  show "x \<in> set ALL_TRIGGER_STATUSES" for x by (cases x) (simp_all add: ALL_TRIGGER_STATUSES_def)
qed (rule trigger_status_text_inj)

lemma run_status_text_inj: "run_status_text x = run_status_text y \<Longrightarrow> x = y"
  by (cases x; cases y; simp)

interpretation run_voc: closed_vocabulary ALL_RUN_STATUSES run_status_text
  WF_RUN_STATUS_UNKNOWN
proof
  show "x \<in> set ALL_RUN_STATUSES" for x by (cases x) (simp_all add: ALL_RUN_STATUSES_def)
qed (rule run_status_text_inj)

lemma step_status_text_inj: "step_status_text x = step_status_text y \<Longrightarrow> x = y"
  by (cases x; cases y; simp)

interpretation step_voc: closed_vocabulary ALL_STEP_STATUSES step_status_text
  WF_STEP_STATUS_UNKNOWN
proof
  show "x \<in> set ALL_STEP_STATUSES" for x by (cases x) (simp_all add: ALL_STEP_STATUSES_def)
qed (rule step_status_text_inj)

lemma schedule_status_text_inj: "schedule_status_text x = schedule_status_text y \<Longrightarrow> x = y"
  by (cases x; cases y; simp)

interpretation schedule_voc: closed_vocabulary ALL_SCHEDULE_STATUSES schedule_status_text
  WF_SCHEDULE_STATUS_UNKNOWN
proof
  show "x \<in> set ALL_SCHEDULE_STATUSES" for x by (cases x) (simp_all add: ALL_SCHEDULE_STATUSES_def)
qed (rule schedule_status_text_inj)

lemma concurrency_policy_text_inj: "concurrency_policy_text x = concurrency_policy_text y \<Longrightarrow> x = y"
  by (cases x; cases y; simp)

interpretation policy_voc: closed_vocabulary ALL_CONCURRENCY_POLICIES concurrency_policy_text
  WF_CONCURRENCY_POLICY_UNKNOWN
proof
  show "x \<in> set ALL_CONCURRENCY_POLICIES" for x by (cases x) (simp_all add: ALL_CONCURRENCY_POLICIES_def)
qed (rule concurrency_policy_text_inj)

lemma retry_error_class_text_inj: "retry_error_class_text x = retry_error_class_text y \<Longrightarrow> x = y"
  by (cases x; cases y; simp)

interpretation errclass_voc: closed_vocabulary ALL_RETRY_ERROR_CLASSES retry_error_class_text
  WF_RETRY_ERROR_CLASS_UNKNOWN
proof
  show "x \<in> set ALL_RETRY_ERROR_CLASSES" for x by (cases x) (simp_all add: ALL_RETRY_ERROR_CLASSES_def)
qed (rule retry_error_class_text_inj)

lemma outbox_status_text_inj: "outbox_status_text x = outbox_status_text y \<Longrightarrow> x = y"
  by (cases x; cases y; simp)

interpretation outbox_voc: closed_vocabulary ALL_OUTBOX_STATUSES outbox_status_text
  WF_OUTBOX_STATUS_UNKNOWN
proof
  show "x \<in> set ALL_OUTBOX_STATUSES" for x by (cases x) (simp_all add: ALL_OUTBOX_STATUSES_def)
qed (rule outbox_status_text_inj)

lemma dead_letter_status_text_inj: "dead_letter_status_text x = dead_letter_status_text y \<Longrightarrow> x = y"
  by (cases x; cases y; simp)

interpretation deadletter_voc: closed_vocabulary ALL_DEAD_LETTER_STATUSES dead_letter_status_text
  WF_DEAD_LETTER_STATUS_UNKNOWN
proof
  show "x \<in> set ALL_DEAD_LETTER_STATUSES" for x by (cases x) (simp_all add: ALL_DEAD_LETTER_STATUSES_def)
qed (rule dead_letter_status_text_inj)

lemma schedule_control_action_text_inj: "schedule_control_action_text x = schedule_control_action_text y \<Longrightarrow> x = y"
  by (cases x; cases y; simp)

interpretation action_voc: closed_vocabulary ALL_SCHEDULE_CONTROL_ACTIONS schedule_control_action_text
  WF_SCHEDULE_ACTION_UNKNOWN
proof
  show "x \<in> set ALL_SCHEDULE_CONTROL_ACTIONS" for x by (cases x) (simp_all add: ALL_SCHEDULE_CONTROL_ACTIONS_def)
qed (rule schedule_control_action_text_inj)

section \<open>Retry policies\<close>

text \<open>
  The policy a retry error class resolves to: \<open>NONE\<close> carries whether the operation is to be
  disabled, \<open>BOUNDED_EXPONENTIAL\<close> its attempt cap, base delay and delay ceiling.
\<close>

datatype retry_policy =
    NONE bool
  | RETRY_AFTER_RESET
  | BOUNDED_EXPONENTIAL int jsnum jsnum
  | DEGRADE_NO_REPEAT
  | SINGLE_REPAIR
  | RETRY_TRANSACTION
  | RETRY_OUTBOX

definition TIMEOUT_RETRY_MAX_ATTEMPTS :: int where
  "TIMEOUT_RETRY_MAX_ATTEMPTS = 5"

definition TIMEOUT_RETRY_BASE_DELAY_MS :: jsnum where
  "TIMEOUT_RETRY_BASE_DELAY_MS = Fin 250"

definition TIMEOUT_RETRY_MAX_DELAY_MS :: jsnum where
  "TIMEOUT_RETRY_MAX_DELAY_MS = Fin 30000"

fun RETRY_POLICY_BY_ERROR_CLASS :: "retry_error_class \<Rightarrow> retry_policy" where
  "RETRY_POLICY_BY_ERROR_CLASS AUTH_INVALID_KEY = NONE True"
| "RETRY_POLICY_BY_ERROR_CLASS INVALID_INPUT = NONE False"
| "RETRY_POLICY_BY_ERROR_CLASS RATE_LIMITED = RETRY_AFTER_RESET"
| "RETRY_POLICY_BY_ERROR_CLASS TIMEOUT_OR_5XX =
     BOUNDED_EXPONENTIAL TIMEOUT_RETRY_MAX_ATTEMPTS TIMEOUT_RETRY_BASE_DELAY_MS
       TIMEOUT_RETRY_MAX_DELAY_MS"
| "RETRY_POLICY_BY_ERROR_CLASS SCHEMA_DRIFT = DEGRADE_NO_REPEAT"
| "RETRY_POLICY_BY_ERROR_CLASS MODEL_FORMAT_ERROR = SINGLE_REPAIR"
| "RETRY_POLICY_BY_ERROR_CLASS BUDGET_EXCEEDED = NONE False"
| "RETRY_POLICY_BY_ERROR_CLASS SERIALIZATION_CONFLICT = RETRY_TRANSACTION"
| "RETRY_POLICY_BY_ERROR_CLASS NOTIFICATION_TRANSIENT = RETRY_OUTBOX"

text \<open>
  \<open>retryPolicyFor\<close> re-parses its argument, which may come from untrusted state, before the
  table lookup.
\<close>

definition retryPolicyFor :: "string option \<Rightarrow> retry_policy res" where
  "retryPolicyFor v = bindE (parseRetryErrorClass v) (\<lambda>c. Inr (RETRY_POLICY_BY_ERROR_CLASS c))"

definition isRetryable :: "retry_policy \<Rightarrow> bool" where
  "isRetryable p = (case p of NONE _ \<Rightarrow> False | DEGRADE_NO_REPEAT \<Rightarrow> False | _ \<Rightarrow> True)"

lemma retryPolicyFor_text [simp]:
  "retryPolicyFor (Some (retry_error_class_text c)) = Inr (RETRY_POLICY_BY_ERROR_CLASS c)"
  by (simp add: retryPolicyFor_def parseRetryErrorClass_def errclass_voc.parse_roundtrip)

section \<open>Shadow influence and default concurrency\<close>

datatype shadow_influence_kind = OPPORTUNITY_NOTIFICATION | POLICY_WRITE_BACK | EVIDENCE_READ

definition OPPORTUNITY_INFLUENCING_KINDS :: "shadow_influence_kind list" where
  "OPPORTUNITY_INFLUENCING_KINDS = [OPPORTUNITY_NOTIFICATION, POLICY_WRITE_BACK]"

definition shadowSuppressesInfluence :: "bool \<Rightarrow> shadow_influence_kind \<Rightarrow> bool" where
  "shadowSuppressesInfluence shadow influence \<longleftrightarrow>
     shadow \<and> influence \<in> set OPPORTUNITY_INFLUENCING_KINDS"

datatype workflow_workload_kind = BROAD_SCAN | CANDIDATE_RECHECK

fun defaultConcurrencyFor :: "workflow_workload_kind \<Rightarrow> concurrency_policy" where
  "defaultConcurrencyFor BROAD_SCAN = SKIP_IF_RUNNING"
| "defaultConcurrencyFor CANDIDATE_RECHECK = QUEUE_AFTER_RUNNING"

lemma shadowSuppresses_iff:
  "shadowSuppressesInfluence shadow k \<longleftrightarrow> shadow \<and> k \<noteq> EVIDENCE_READ"
  by (cases k) (simp_all add: shadowSuppressesInfluence_def OPPORTUNITY_INFLUENCING_KINDS_def)

end
