(* ===== verification/Retries.thy ===== *)
theory Retries
  imports WfDomain
begin

text \<open>
  The executable retry taxonomy of packages/workflow-runtime/src/retries.ts: the bounded
  exponential delay with equal jitter and the per-attempt decision for every policy. An
  attempt number is an integer-valued number; jitter draws come from an injected source,
  here the drawn number.
\<close>

section \<open>Definitions\<close>

definition TRANSACTION_RETRY_MAX_ATTEMPTS :: int where
  "TRANSACTION_RETRY_MAX_ATTEMPTS = 3"

definition OUTBOX_RETRY_MAX_ATTEMPTS :: int where
  "OUTBOX_RETRY_MAX_ATTEMPTS = 5"

definition OUTBOX_RETRY_BASE_DELAY_MS :: jsnum where
  "OUTBOX_RETRY_BASE_DELAY_MS = Fin 1000"

definition OUTBOX_RETRY_MAX_DELAY_MS :: jsnum where
  "OUTBOX_RETRY_MAX_DELAY_MS = Fin 60000"

definition SINGLE_REPAIR_MAX_ATTEMPTS :: int where
  "SINGLE_REPAIR_MAX_ATTEMPTS = 2"

definition RATE_LIMIT_MAX_DELAY_MS :: jsnum where
  "RATE_LIMIT_MAX_DELAY_MS = Fin (60 * 60 * 1000)"

definition RATE_LIMIT_DEFAULT_MAX_ATTEMPTS :: int where
  "RATE_LIMIT_DEFAULT_MAX_ATTEMPTS = 3"

datatype attempt_action = RETRY | STOP | DISABLE_OPERATION | DEGRADE

datatype policy_kind =
    K_NONE | K_RETRY_AFTER_RESET | K_BOUNDED_EXPONENTIAL | K_DEGRADE_NO_REPEAT
  | K_SINGLE_REPAIR | K_RETRY_TRANSACTION | K_RETRY_OUTBOX

record dead_letter_handoff =
  ho_errorClass :: retry_error_class
  ho_attempts :: int
  ho_lastValidCheckpointRef :: "string option"
  ho_reason :: string

record attempt_plan =
  policyKind :: policy_kind
  pl_action :: attempt_action
  pl_attempt :: int
  nextAttempt :: "int option"
  delayMs :: jsnum
  jittered :: bool
  exhausted :: bool
  handoff :: "dead_letter_handoff option"
  pl_reason :: string

text \<open>The optional fields of \<open>AttemptPlanContext\<close>; an absent context has all of them absent.\<close>

record attempt_context =
  ctx_errorClass :: "retry_error_class option"
  ctx_lastValidCheckpointRef :: "string option"
  ctx_retryAfterMs :: "jsnum option"
  ctx_budgetRemainingMs :: "jsnum option"

definition clamp01 :: "jsnum \<Rightarrow> jsnum" where
  "clamp01 v =
     (if \<not> js_isFinite v then Fin 0
      else if js_lt v (Fin 0) then Fin 0
      else if js_le (Fin 1) v then to_num (999999 / 1000000)
      else v)"

definition assertAttempt :: "jsnum \<Rightarrow> int res" where
  "assertAttempt attempt =
     (case attempt of
        Fin a \<Rightarrow> if a = of_int \<lfloor>a\<rfloor> \<and> 1 \<le> a then Inr \<lfloor>a\<rfloor>
                 else Inl (ForesiftError WF_RETRY_POLICY_INVALID)
      | _ \<Rightarrow> Inl (ForesiftError WF_RETRY_POLICY_INVALID))"

definition handoffFor ::
  "attempt_context \<Rightarrow> int \<Rightarrow> string \<Rightarrow> dead_letter_handoff option" where
  "handoffFor ctx attempts reason =
     (case ctx_errorClass ctx of
        None \<Rightarrow> None
      | Some c \<Rightarrow> Some \<lparr>ho_errorClass = c, ho_attempts = attempts,
          ho_lastValidCheckpointRef = ctx_lastValidCheckpointRef ctx, ho_reason = reason\<rparr>)"

definition stopPlan ::
  "policy_kind \<Rightarrow> int \<Rightarrow> attempt_action \<Rightarrow> string \<Rightarrow> attempt_context \<Rightarrow> attempt_plan" where
  "stopPlan kind attempt action reason ctx =
     \<lparr>policyKind = kind, pl_action = action, pl_attempt = attempt, nextAttempt = None,
      delayMs = Fin 0, jittered = False, exhausted = True,
      handoff = handoffFor ctx attempt reason, pl_reason = reason\<rparr>"

definition retryPlan ::
  "policy_kind \<Rightarrow> int \<Rightarrow> jsnum \<Rightarrow> bool \<Rightarrow> string \<Rightarrow> attempt_plan" where
  "retryPlan kind attempt delay jit reason =
     \<lparr>policyKind = kind, pl_action = RETRY, pl_attempt = attempt,
      nextAttempt = Some (attempt + 1), delayMs = delay, jittered = jit, exhausted = False,
      handoff = None, pl_reason = reason\<rparr>"

definition boundedExponentialDelay :: "int \<Rightarrow> jsnum \<Rightarrow> jsnum \<Rightarrow> jsnum \<Rightarrow> jsnum" where
  "boundedExponentialDelay attempt baseDelayMs maxDelayMs random =
     (let raw = js_min (js_mul baseDelayMs (js_pow2 (nat (attempt - 1)))) maxDelayMs;
          half = js_div raw (Fin 2);
          jittered = js_add half (js_mul (clamp01 random) half)
      in js_min (js_round jittered) maxDelayMs)"

text \<open>The \<open>RETRY_AFTER_RESET\<close> case of the decision: the reset must fit the wait window and the budget.\<close>

definition retryAfterReset :: "int \<Rightarrow> attempt_context \<Rightarrow> attempt_plan res" where
  "retryAfterReset n ctx =
     (let retryAfterMs = (case ctx_retryAfterMs ctx of None \<Rightarrow> Fin 0 | Some r \<Rightarrow> r);
          go = Inr (retryPlan K_RETRY_AFTER_RESET n retryAfterMs False ''retry after reset'')
      in if \<not> js_isFinite retryAfterMs \<or> js_lt retryAfterMs (Fin 0)
         then Inl (ForesiftError WF_RETRY_POLICY_INVALID)
         else if js_lt RATE_LIMIT_MAX_DELAY_MS retryAfterMs
         then Inr (stopPlan K_RETRY_AFTER_RESET n STOP
                ''rate-limit reset exceeds the bounded wait window'' ctx)
         else (case ctx_budgetRemainingMs ctx of
             None \<Rightarrow>
               if RATE_LIMIT_DEFAULT_MAX_ATTEMPTS \<le> n
               then Inr (stopPlan K_RETRY_AFTER_RESET n STOP
                      ''rate-limit retry attempts exhausted without a declared budget'' ctx)
               else go
           | Some budget \<Rightarrow>
               if \<not> js_isFinite budget \<or> js_lt budget (Fin 0)
               then Inl (ForesiftError WF_RETRY_POLICY_INVALID)
               else if js_lt budget retryAfterMs
               then Inr (stopPlan K_RETRY_AFTER_RESET n STOP
                      ''rate-limit reset exceeds the remaining retry budget'' ctx)
               else go))"

definition nextAttemptPlan ::
  "retry_policy \<Rightarrow> jsnum \<Rightarrow> jsnum \<Rightarrow> attempt_context \<Rightarrow> attempt_plan res" where
  "nextAttemptPlan policy attempt random ctx =
     bindE (assertAttempt attempt) (\<lambda>n.
       case policy of
         NONE disableOperation \<Rightarrow>
           if disableOperation
           then Inr (stopPlan K_NONE n DISABLE_OPERATION
                  ''authentication invalid: disable operation'' ctx)
           else Inr (stopPlan K_NONE n STOP ''error class is not retryable'' ctx)
       | DEGRADE_NO_REPEAT \<Rightarrow>
           Inr (stopPlan K_DEGRADE_NO_REPEAT n DEGRADE
             ''schema drift: no automated repeated retry; mark operation degraded'' ctx)
       | RETRY_AFTER_RESET \<Rightarrow> retryAfterReset n ctx
       | BOUNDED_EXPONENTIAL maxAttempts baseDelayMs maxDelayMs \<Rightarrow>
           if maxAttempts \<le> n
           then Inr (stopPlan K_BOUNDED_EXPONENTIAL n STOP
                  ''bounded exponential retry budget exhausted'' ctx)
           else Inr (retryPlan K_BOUNDED_EXPONENTIAL n
                  (boundedExponentialDelay n baseDelayMs maxDelayMs random) True
                  ''bounded exponential with jitter'')
       | SINGLE_REPAIR \<Rightarrow>
           if SINGLE_REPAIR_MAX_ATTEMPTS \<le> n
           then Inr (stopPlan K_SINGLE_REPAIR n STOP ''single repair attempt already used'' ctx)
           else Inr (retryPlan K_SINGLE_REPAIR n (Fin 0) False ''one repair attempt'')
       | RETRY_TRANSACTION \<Rightarrow>
           if TRANSACTION_RETRY_MAX_ATTEMPTS \<le> n
           then Inr (stopPlan K_RETRY_TRANSACTION n STOP ''transaction retry budget exhausted'' ctx)
           else Inr (retryPlan K_RETRY_TRANSACTION n (Fin 0) False ''retry transaction'')
       | RETRY_OUTBOX \<Rightarrow>
           if OUTBOX_RETRY_MAX_ATTEMPTS \<le> n
           then Inr (stopPlan K_RETRY_OUTBOX n STOP ''outbox retry budget exhausted'' ctx)
           else Inr (retryPlan K_RETRY_OUTBOX n
                  (boundedExponentialDelay n OUTBOX_RETRY_BASE_DELAY_MS
                     OUTBOX_RETRY_MAX_DELAY_MS random) True
                  ''retry from outbox''))"

definition planAttempt ::
  "retry_error_class \<Rightarrow> jsnum \<Rightarrow> jsnum \<Rightarrow> attempt_context \<Rightarrow> attempt_plan res" where
  "planAttempt errorClass attempt random ctx =
     bindE (retryPolicyFor (Some (retry_error_class_text errorClass))) (\<lambda>policy.
       nextAttemptPlan policy attempt random (ctx\<lparr>ctx_errorClass := Some errorClass\<rparr>))"

section \<open>The delay is bounded in both directions\<close>

lemma clamp01_unit: "\<exists>c. clamp01 v = Fin c \<and> 0 \<le> c \<and> c \<le> 1"
proof -
  have one: "is_double 1" using is_double_of_int [of 1] by simp
  have zero: "is_double 0" using is_double_of_int [of 0] by simp
  obtain y where "to_num (999999 / 1000000) = Fin y" "0 \<le> y" "y \<le> 1"
    using to_num_between [OF zero one, of "999999 / 1000000"] by auto
  then show ?thesis
    by (cases v) (auto simp: clamp01_def js_le_def js_eq_def)
qed

text \<open>The capped power: overflow and rounding above the ceiling do not matter, below it the product is exact.\<close>

lemma js_min_pow2:
  assumes "1 \<le> b" and "0 \<le> m" and "m < 2 ^ 53" and "b < 2 ^ 53"
  shows "js_min (js_mul (Fin (of_int b)) (js_pow2 k)) (Fin (of_int m)) =
    Fin (of_int (min (b * 2 ^ k) m))"
proof (cases "k < 1024")
  case False
  have "(2::int) ^ 53 \<le> 2 ^ k" using False by (intro power_increasing) auto
  also have "\<dots> \<le> b * 2 ^ k" using assms(1) by simp
  finally have "min (b * 2 ^ k) m = m" using assms(3) by simp
  with False assms(1) show ?thesis
    by (simp add: js_pow2_def inf_of_sign_def js_min_def)
next
  case True
  let ?p = "of_int (b * 2 ^ k) :: rat"
  have prod: "js_mul (Fin (of_int b)) (js_pow2 k) = to_num ?p"
    using True by (simp add: js_pow2_def)
  show ?thesis
  proof (cases "b * 2 ^ k \<le> m")
    case True
    have "to_num ?p = Fin ?p"
      using True assms by (intro to_num_of_int) (simp add: abs_le_iff)
    with True show ?thesis
      unfolding prod by (simp add: js_min_def min_def del: of_int_mult)
  next
    case False
    then have le: "of_int m \<le> ?p" by (simp only: of_int_le_iff)
    have "of_int m \<le> fl ?p"
      using fl_mono [OF le] fl_of_int [of m] assms(2,3) by simp
    moreover from this have "0 \<le> fl ?p"
      using assms(2) by (meson of_int_0_le_iff order_trans)
    ultimately have "js_min (to_num ?p) (Fin (of_int m)) = Fin (of_int m)"
      by (auto simp: to_num_def Let_def js_min_def)
    then show ?thesis using False by (simp add: prod min_def)
  qed
qed

lemma round_between_int:
  assumes "of_int n / 2 \<le> z" and "z \<le> of_int n"
  shows "\<exists>d. js_round (Fin z) = Fin (of_int d) \<and> n \<le> 2 * d \<and> d \<le> n"
proof -
  let ?d = "\<lfloor>z + 1 / 2\<rfloor>"
  have "?d \<le> n" using assms(2) by linarith
  moreover have "n \<le> 2 * ?d"
  proof -
    have "of_int n < (2 * of_int ?d + 1 :: rat)" using assms(1) by linarith
    then have "(of_int n :: rat) < of_int (2 * ?d + 1)" by simp
    then show ?thesis by (simp only: of_int_less_iff)
  qed
  ultimately show ?thesis by auto
qed

lemma delay_bounds:
  assumes "1 \<le> b" and "b < 2 ^ 53" and "0 \<le> m" and "m < 2 ^ 53"
  shows "\<exists>d. boundedExponentialDelay n (Fin (of_int b)) (Fin (of_int m)) random = Fin (of_int d)
    \<and> min (b * 2 ^ nat (n - 1)) m \<le> 2 * d \<and> d \<le> min (b * 2 ^ nat (n - 1)) m"
proof -
  define raw where "raw = min (b * 2 ^ nat (n - 1)) m"
  have raw: "0 \<le> raw" "raw < 2 ^ 53" "raw \<le> m" using assms by (auto simp: raw_def)
  let ?h = "of_int raw / 2 :: rat"
  have h: "is_double ?h" and hh: "to_num ?h = Fin ?h"
    using is_double_half [OF raw(1,2)] by (simp_all add: to_num_double)
  have r: "is_double (of_int raw)" and z: "is_double 0"
    using raw is_double_of_int [of raw] is_double_of_int [of 0] by simp_all
  obtain c where c: "clamp01 random = Fin c" "0 \<le> c" "c \<le> 1" using clamp01_unit by blast
  have "0 \<le> c * ?h" "c * ?h \<le> ?h"
    using c raw(1) by (simp_all add: mult_left_le_one_le)
  then obtain y where y: "to_num (c * ?h) = Fin y" "0 \<le> y" "y \<le> ?h"
    using to_num_between [OF z h] by blast
  then obtain w where w: "to_num (?h + y) = Fin w" "?h \<le> w" "w \<le> of_int raw"
    using to_num_between [OF h r, of "?h + y"] by auto
  obtain d where d: "js_round (Fin w) = Fin (of_int d)" "raw \<le> 2 * d" "d \<le> raw"
    using round_between_int [OF w(2,3)] by blast
  have "boundedExponentialDelay n (Fin (of_int b)) (Fin (of_int m)) random =
    js_min (js_round (Fin w)) (Fin (of_int m))"
    using js_min_pow2 [OF assms(1,3,4,2)] hh c(1) y(1) w(1)
    by (simp add: boundedExponentialDelay_def Let_def flip: raw_def)
  also have "\<dots> = Fin (of_int d)"
    using d raw(3) by (simp add: js_min_def)
  finally show ?thesis using d by (auto simp: raw_def)
qed

section \<open>The per-attempt decision\<close>

text \<open>When a rate-limit reset is waited out: it fits the wait window and the budget (or the default cap).\<close>

definition reset_fits :: "int \<Rightarrow> attempt_context \<Rightarrow> bool" where
  "reset_fits n ctx \<longleftrightarrow>
     (let r = (case ctx_retryAfterMs ctx of None \<Rightarrow> Fin 0 | Some r \<Rightarrow> r)
      in \<not> js_lt RATE_LIMIT_MAX_DELAY_MS r \<and>
         (case ctx_budgetRemainingMs ctx of
            None \<Rightarrow> n < RATE_LIMIT_DEFAULT_MAX_ATTEMPTS
          | Some b \<Rightarrow> \<not> js_lt b r))"

fun retry_allowed :: "retry_error_class \<Rightarrow> int \<Rightarrow> attempt_context \<Rightarrow> bool" where
  "retry_allowed TIMEOUT_OR_5XX n ctx = (n < 5)"
| "retry_allowed MODEL_FORMAT_ERROR n ctx = (n < 2)"
| "retry_allowed SERIALIZATION_CONFLICT n ctx = (n < 3)"
| "retry_allowed NOTIFICATION_TRANSIENT n ctx = (n < 5)"
| "retry_allowed RATE_LIMITED n ctx = reset_fits n ctx"
| "retry_allowed _ n ctx = False"

lemmas retry_caps =
  TIMEOUT_RETRY_MAX_ATTEMPTS_def SINGLE_REPAIR_MAX_ATTEMPTS_def
  TRANSACTION_RETRY_MAX_ATTEMPTS_def OUTBOX_RETRY_MAX_ATTEMPTS_def

lemmas retry_delays =
  TIMEOUT_RETRY_BASE_DELAY_MS_def TIMEOUT_RETRY_MAX_DELAY_MS_def
  OUTBOX_RETRY_BASE_DELAY_MS_def OUTBOX_RETRY_MAX_DELAY_MS_def

lemma assertAttempt_int [simp]:
  "assertAttempt (Fin (of_int n)) =
     (if 1 \<le> n then Inr n else Inl (ForesiftError WF_RETRY_POLICY_INVALID))"
  by (simp add: assertAttempt_def)

lemma assertAttempt_ok: "assertAttempt a = Inr n \<longleftrightarrow> a = Fin (of_int n) \<and> 1 \<le> n"
  by (cases a) (auto simp: assertAttempt_def le_floor_iff split: if_splits)

lemma planAttempt_nextAttemptPlan:
  "planAttempt c a random ctx =
     nextAttemptPlan (RETRY_POLICY_BY_ERROR_CLASS c) a random (ctx\<lparr>ctx_errorClass := Some c\<rparr>)"
  by (simp add: planAttempt_def)

text \<open>A plan is either a retry with a successor and no handoff, or an exhausted one with both dropped or set.\<close>

definition plan_wf :: "retry_error_class \<Rightarrow> int \<Rightarrow> attempt_context \<Rightarrow> attempt_plan \<Rightarrow> bool" where
  "plan_wf c n ctx p \<longleftrightarrow>
     pl_attempt p = n \<and>
     (if pl_action p = RETRY
      then nextAttempt p = Some (n + 1) \<and> \<not> exhausted p \<and> handoff p = None
      else nextAttempt p = None \<and> delayMs p = Fin 0 \<and> exhausted p \<and>
        handoff p = Some \<lparr>ho_errorClass = c, ho_attempts = n,
          ho_lastValidCheckpointRef = ctx_lastValidCheckpointRef ctx, ho_reason = pl_reason p\<rparr>)"

lemma plan_wf_retry [simp]: "plan_wf c n ctx (retryPlan k n d j r)"
  by (simp add: plan_wf_def retryPlan_def)

lemma plan_wf_stop [simp]:
  "a \<noteq> RETRY \<Longrightarrow> plan_wf c n ctx (stopPlan k n a r (ctx\<lparr>ctx_errorClass := Some c\<rparr>))"
  by (simp add: plan_wf_def stopPlan_def handoffFor_def)

lemma planAttempt_ok_wf:
  assumes "planAttempt c a random ctx = Inr p"
  shows "\<exists>n. a = Fin (of_int n) \<and> 1 \<le> n \<and> plan_wf c n ctx p"
  using assms
  by (cases c)
     (auto simp: planAttempt_nextAttemptPlan nextAttemptPlan_def retryAfterReset_def Let_def
       bindE_eq_Inr assertAttempt_ok split: if_splits option.splits)

lemma planAttempt_ok_retry:
  assumes "planAttempt c (Fin (of_int n)) random ctx = Inr p"
  shows "pl_action p = RETRY \<longleftrightarrow> retry_allowed c n ctx"
  using assms
  by (cases c)
     (auto simp: planAttempt_nextAttemptPlan nextAttemptPlan_def retryAfterReset_def Let_def
       bindE_eq_Inr assertAttempt_ok retry_caps reset_fits_def stopPlan_def retryPlan_def
       split: if_splits option.splits)

lemma planAttempt_delay:
  assumes "planAttempt c (Fin (of_int n)) random ctx = Inr p"
  shows "\<exists>d. delayMs p = Fin d \<and> 0 \<le> d \<and> d \<le> 3600000"
proof (cases "c = RATE_LIMITED")
  case True
  with assms show ?thesis
    by (auto simp: planAttempt_nextAttemptPlan nextAttemptPlan_def retryAfterReset_def Let_def
        bindE_eq_Inr assertAttempt_ok RATE_LIMIT_MAX_DELAY_MS_def stopPlan_def retryPlan_def
        not_less elim!: js_isFinite.elims split: if_splits option.splits)
next
  case False
  obtain d where "boundedExponentialDelay n (Fin 250) (Fin 30000) random = Fin (of_int d)"
    "0 \<le> d" "d \<le> 30000"
    using delay_bounds [of 250 30000 n random] by auto
  moreover obtain e where "boundedExponentialDelay n (Fin 1000) (Fin 60000) random = Fin (of_int e)"
    "0 \<le> e" "e \<le> 60000"
    using delay_bounds [of 1000 60000 n random] by auto
  ultimately show ?thesis
    using assms False
    by (cases c)
       (auto simp: planAttempt_nextAttemptPlan nextAttemptPlan_def bindE_eq_Inr assertAttempt_ok
         retry_delays stopPlan_def retryPlan_def split: if_splits)
qed

lemma planAttempt_error:
  "planAttempt c a random ctx = Inl e \<longleftrightarrow>
     e = ForesiftError WF_RETRY_POLICY_INVALID \<and>
     (\<not> (\<exists>n \<ge> 1. a = Fin (of_int n)) \<or>
      c = RATE_LIMITED \<and>
        (let r = (case ctx_retryAfterMs ctx of None \<Rightarrow> Fin 0 | Some r \<Rightarrow> r) in
           \<not> js_isFinite r \<or> js_lt r (Fin 0) \<or>
           \<not> js_lt RATE_LIMIT_MAX_DELAY_MS r \<and>
             (\<exists>b. ctx_budgetRemainingMs ctx = Some b \<and> (\<not> js_isFinite b \<or> js_lt b (Fin 0)))))"
proof (cases "\<exists>n \<ge> 1. a = Fin (of_int n)")
  case True
  then obtain n where "a = Fin (of_int n)" "1 \<le> n" by blast
  then show ?thesis
    by (cases c)
       (auto simp: planAttempt_nextAttemptPlan nextAttemptPlan_def retryAfterReset_def Let_def
         split: if_splits option.splits)
next
  case False
  then have "assertAttempt a = Inl (ForesiftError WF_RETRY_POLICY_INVALID)"
    using assertAttempt_ok by (cases a) (auto simp: assertAttempt_def split: if_splits)
  with False show ?thesis
    by (auto simp: planAttempt_nextAttemptPlan nextAttemptPlan_def)
qed

section \<open>Properties\<close>

text \<open>
  For integer base and ceiling delays below \<open>2 ^ 53\<close>, in binary64
  arithmetic and for every jitter draw, the delay before the next attempt is an integer
  between half the capped exponential \<open>min (base * 2 ^ (n - 1), max)\<close> and that value: it
  never exceeds the ceiling and is never below half of the nominal delay.
\<close>

theorem retry_delay_bounds:
  assumes "1 \<le> base" and "base < 2 ^ 53" and "0 \<le> ceil" and "ceil < 2 ^ 53"
  shows "\<exists>d. boundedExponentialDelay n (Fin (of_int base)) (Fin (of_int ceil)) random = Fin (of_int d)
    \<and> min (base * 2 ^ nat (n - 1)) ceil \<le> 2 * d \<and> d \<le> min (base * 2 ^ nat (n - 1)) ceil"
  using assms by (rule delay_bounds)

theorem retry_delay_bounds_witness:
  "\<exists>d. boundedExponentialDelay 3 (Fin (of_int 250)) (Fin (of_int 30000)) (Fin (1 / 3)) = Fin (of_int d)
    \<and> 1000 \<le> 2 * d \<and> d \<le> 1000"
  using retry_delay_bounds [of 250 30000 3 "Fin (1 / 3)"] by (simp add: min_def)

text \<open>
  Every plan \<open>planAttempt\<close> produces is for a positive integer attempt
  \<open>n\<close>; it retries exactly when the error class allows it at that attempt (five attempts for
  timeouts and the outbox, three for transactions, two for a model repair, none for the
  non-retryable classes, and for rate limits when the advertised reset fits the hour window
  and the declared budget, or the default cap of three without one). A retry names attempt
  \<open>n + 1\<close>; every other plan is exhausted and hands the error class, the attempt count, the
  checkpoint and the reason over to the dead-letter writer. The delay is between 0 and one hour.
\<close>

theorem planAttempt_sound:
  assumes "planAttempt c a random ctx = Inr p"
  shows "\<exists>n \<ge> 1. a = Fin (of_int n) \<and> plan_wf c n ctx p
    \<and> (pl_action p = RETRY \<longleftrightarrow> retry_allowed c n ctx)
    \<and> (\<exists>d. delayMs p = Fin d \<and> 0 \<le> d \<and> d \<le> 3600000)"
  using assms planAttempt_ok_wf [OF assms] planAttempt_ok_retry planAttempt_delay by blast

theorem planAttempt_sound_witness:
  "\<exists>n \<ge> 1. Fin 5 = Fin (of_int n) \<and>
     plan_wf NOTIFICATION_TRANSIENT n
       \<lparr>ctx_errorClass = None, ctx_lastValidCheckpointRef = Some ''wfs_1'',
        ctx_retryAfterMs = None, ctx_budgetRemainingMs = None\<rparr>
       (stopPlan K_RETRY_OUTBOX 5 STOP ''outbox retry budget exhausted''
         \<lparr>ctx_errorClass = Some NOTIFICATION_TRANSIENT, ctx_lastValidCheckpointRef = Some ''wfs_1'',
          ctx_retryAfterMs = None, ctx_budgetRemainingMs = None\<rparr>)"
proof -
  let ?ctx = "\<lparr>ctx_errorClass = None, ctx_lastValidCheckpointRef = Some ''wfs_1'',
        ctx_retryAfterMs = None, ctx_budgetRemainingMs = None\<rparr>"
  have "planAttempt NOTIFICATION_TRANSIENT (Fin (of_int 5)) (Fin 0) ?ctx =
    Inr (stopPlan K_RETRY_OUTBOX 5 STOP ''outbox retry budget exhausted''
         (?ctx\<lparr>ctx_errorClass := Some NOTIFICATION_TRANSIENT\<rparr>))"
    unfolding planAttempt_nextAttemptPlan nextAttemptPlan_def assertAttempt_int
    by (simp add: OUTBOX_RETRY_MAX_ATTEMPTS_def)
  from planAttempt_sound [OF this] show ?thesis by auto
qed

text \<open>
  The only refusal of \<open>planAttempt\<close> is \<open>WF_RETRY_POLICY_INVALID\<close>,
  and it is raised exactly when the attempt is not a positive integer, or when a rate-limited
  call advertises a reset that is not a finite non-negative duration, or one inside the wait
  window together with a budget that is not; for every other input a plan is produced.
\<close>

theorem planAttempt_refusals:
  "planAttempt c a random ctx = Inl e \<longleftrightarrow>
     e = ForesiftError WF_RETRY_POLICY_INVALID \<and>
     (\<not> (\<exists>n \<ge> 1. a = Fin (of_int n)) \<or>
      c = RATE_LIMITED \<and>
        (let r = (case ctx_retryAfterMs ctx of None \<Rightarrow> Fin 0 | Some r \<Rightarrow> r) in
           \<not> js_isFinite r \<or> js_lt r (Fin 0) \<or>
           \<not> js_lt RATE_LIMIT_MAX_DELAY_MS r \<and>
             (\<exists>b. ctx_budgetRemainingMs ctx = Some b \<and> (\<not> js_isFinite b \<or> js_lt b (Fin 0)))))"
  by (rule planAttempt_error)

theorem planAttempt_refusals_witness:
  "planAttempt TIMEOUT_OR_5XX (Fin (of_int 0)) NaN
     \<lparr>ctx_errorClass = None, ctx_lastValidCheckpointRef = None,
      ctx_retryAfterMs = None, ctx_budgetRemainingMs = None\<rparr>
   = Inl (ForesiftError WF_RETRY_POLICY_INVALID)"
  unfolding planAttempt_refusals by simp

end
