(* ===== verification/WfTables.thy ===== *)
theory WfTables
  imports Retries
begin

text \<open>
  The tables of the \<open>wf\<close> schema the workflow runtime works on (migrations/g2_wf_0001 to
  g2_wf_0005), one record per row type with the columns the TypeScript row interfaces name,
  and the store \<open>wf_db\<close> of all tables and the two fencing sequences. A \<open>text\<close> column with a
  closed CHECK list holds the vocabulary's datatype, a nullable column is an option, a
  \<open>timestamptz\<close> is an instant. Column and row checks the statements can violate are
  written out as predicates; a violation is the database's own error.
\<close>

section \<open>Rows\<close>

record lease_row =
  l_resource_key :: string
  l_owner :: string
  l_fencing_token :: nat
  l_acquired_at :: instant
  l_expires_at :: instant
  l_released_at :: "instant option"

record step_row =
  s_step_id :: string
  s_run_id :: string
  s_step_type :: string
  s_idempotency_key :: string
  s_attempt :: int
  s_input_hash :: "string option"
  s_output_hash :: "string option"
  s_status :: step_status
  s_lease_owner :: "string option"
  s_lease_version :: int
  s_lease_expires_at :: "instant option"
  s_started_at :: "instant option"
  s_completed_at :: "instant option"
  s_error_class :: "retry_error_class option"
  s_retryable :: "bool option"

record run_row =
  r_run_id :: string
  r_schedule_id :: string
  r_resolved_schedule_version :: string
  r_inbox_id :: string
  r_trigger_source :: string
  r_trigger_external_message_id :: string
  r_trigger_canonical_external_message_id :: string
  r_concurrency_policy :: concurrency_policy
  r_concurrency_outcome :: concurrency_policy
  r_shadow :: bool
  r_status :: run_status
  r_deadline :: instant
  r_started_at :: "instant option"
  r_completed_at :: "instant option"

record 'p decision_row =
  d_decision_id :: string
  d_run_id :: string
  d_decision_kind :: string
  d_payload :: 'p
  d_payload_hash :: string
  d_committed_at :: instant

record 'p alert_row =
  a_alert_id :: string
  a_decision_id :: string
  a_alert_class :: string
  a_payload :: 'p
  a_payload_hash :: string
  a_created_at :: instant

record outbox_row =
  o_outbox_id :: string
  o_decision_ref :: string
  o_alert_ref :: "string option"
  o_channel :: string
  o_payload_hash :: string
  o_status :: outbox_status
  o_claim_owner :: "string option"
  o_claim_fencing_token :: "nat option"
  o_claim_expires_at :: "instant option"
  o_attempts :: int
  o_enqueued_at :: instant
  o_claimed_at :: "instant option"
  o_sent_at :: "instant option"
  o_last_error :: "string option"

record 'p dead_letter_row =
  dl_dead_letter_id :: string
  dl_run_id :: string
  dl_step_id :: "string option"
  dl_error_class :: retry_error_class
  dl_context :: 'p
  dl_last_valid_checkpoint_ref :: "string option"
  dl_status :: dead_letter_status
  dl_opened_at :: instant
  dl_resolved_at :: "instant option"

record inbox_row =
  i_inbox_id :: string
  i_source :: string
  i_external_message_id :: string
  i_canonical_external_message_id :: string
  i_schedule_id :: string
  i_scheduled_for :: instant
  i_payload_hash :: string
  i_received_at :: instant
  i_verified_at :: "instant option"
  i_processed_run_id :: "string option"
  i_status :: trigger_status

record schedule_row =
  sc_schedule_id :: string
  sc_name :: string
  sc_concurrency_policy :: concurrency_policy
  sc_status :: schedule_status
  sc_current_version_id :: "string option"
  sc_created_at :: instant
  sc_updated_at :: instant

record 'p version_row =
  v_version_id :: string
  v_schedule_id :: string
  v_config_hash :: string
  v_resolved_config :: 'p
  v_shadow :: bool
  v_superseded_by :: "string option"
  v_created_at :: instant

record 'p forecast_row =
  fc_forecast_id :: string
  fc_schedule_id :: string
  fc_version_id :: string
  fc_computed_at :: instant
  fc_payload :: 'p
  fc_payload_hash :: string
  fc_created_at :: instant

record 'p report_row =
  rp_report_id :: string
  rp_checked_at :: instant
  rp_diff :: 'p
  rp_incident_refs :: "string list"

section \<open>The store\<close>

record 'p wf_db =
  schedules :: "schedule_row list"
  schedule_versions :: "'p version_row list"
  trigger_inbox :: "inbox_row list"
  runs :: "run_row list"
  steps :: "step_row list"
  step_leases :: "lease_row list"
  wf_lease_fencing_seq :: nat
  notification_outbox :: "outbox_row list"
  wf_outbox_fencing_seq :: nat
  decision_commits :: "'p decision_row list"
  alert_records :: "'p alert_row list"
  dead_letters :: "'p dead_letter_row list"
  schedule_forecasts :: "'p forecast_row list"
  reconciliation_reports :: "'p report_row list"

text \<open>\<open>nextval\<close> of a sequence that starts with 1: the field holds the value it returns next.\<close>

definition empty_db :: "'p wf_db" where
  "empty_db = \<lparr>schedules = [], schedule_versions = [], trigger_inbox = [], runs = [],
     steps = [], step_leases = [], wf_lease_fencing_seq = 1, notification_outbox = [],
     wf_outbox_fencing_seq = 1, decision_commits = [], alert_records = [], dead_letters = [],
     schedule_forecasts = [], reconciliation_reports = []\<rparr>"

abbreviation lease_of :: "'p wf_db \<Rightarrow> string \<Rightarrow> lease_row option" where
  "lease_of db k \<equiv> row_by l_resource_key k (step_leases db)"

abbreviation run_of :: "'p wf_db \<Rightarrow> string \<Rightarrow> run_row option" where
  "run_of db k \<equiv> row_by r_run_id k (runs db)"

abbreviation step_key :: "step_row \<Rightarrow> string \<times> string" where
  "step_key r \<equiv> (s_run_id r, s_idempotency_key r)"

abbreviation step_of :: "'p wf_db \<Rightarrow> string \<Rightarrow> string \<Rightarrow> step_row option" where
  "step_of db run key \<equiv> row_by step_key (run, key) (steps db)"

abbreviation outbox_of :: "'p wf_db \<Rightarrow> string \<Rightarrow> outbox_row option" where
  "outbox_of db k \<equiv> row_by o_outbox_id k (notification_outbox db)"

abbreviation letter_of :: "'p wf_db \<Rightarrow> string \<Rightarrow> 'p dead_letter_row option" where
  "letter_of db k \<equiv> row_by dl_dead_letter_id k (dead_letters db)"

abbreviation schedule_of :: "'p wf_db \<Rightarrow> string \<Rightarrow> schedule_row option" where
  "schedule_of db k \<equiv> row_by sc_schedule_id k (schedules db)"

abbreviation inbox_of :: "'p wf_db \<Rightarrow> string \<Rightarrow> inbox_row option" where
  "inbox_of db k \<equiv> row_by i_inbox_id k (trigger_inbox db)"

end
