(* ===== verification/Fencing.thy ===== *)
theory Fencing
  imports Prelude
begin

text \<open>
  The contract of fencing tokens, shared by the step leases and the outbox claims: tokens
  come from one increasing counter, a resource has at most one current token, and a step
  either leaves a current token, drops it, or installs a fresh one. What a client may rely on
  is proved here once: a token that stopped being current never becomes current again, and
  the current tokens of a resource only grow.
\<close>

locale fenced_tokens =
  fixes step :: "'s \<Rightarrow> 's \<Rightarrow> bool"
    and current :: "'s \<Rightarrow> 'k \<Rightarrow> nat option"
    and next_token :: "'s \<Rightarrow> nat"
    and inv :: "'s \<Rightarrow> bool"
  assumes step_inv: "inv s \<Longrightarrow> step s s' \<Longrightarrow> inv s'"
    and current_issued: "inv s \<Longrightarrow> current s k = Some t \<Longrightarrow> t < next_token s"
    and next_mono: "inv s \<Longrightarrow> step s s' \<Longrightarrow> next_token s \<le> next_token s'"
    and step_current: "inv s \<Longrightarrow> step s s' \<Longrightarrow> current s' k = Some t \<Longrightarrow>
      current s k = Some t \<or> next_token s \<le> t"
    and current_unique: "inv s \<Longrightarrow> current s k = Some t \<Longrightarrow> current s k' = Some t \<Longrightarrow> k = k'"
begin

lemma star_inv: "step\<^sup>*\<^sup>* s s' \<Longrightarrow> inv s \<Longrightarrow> inv s'"
  by (induction rule: rtranclp_induct) (auto intro: step_inv)

lemma star_next_mono: "step\<^sup>*\<^sup>* s s' \<Longrightarrow> inv s \<Longrightarrow> next_token s \<le> next_token s'"
proof (induction rule: rtranclp_induct)
  case (step y z)
  then have "inv y" by (blast intro: star_inv)
  with step show ?case by (blast intro: next_mono order_trans)
qed simp

lemma star_current:
  "step\<^sup>*\<^sup>* s s' \<Longrightarrow> inv s \<Longrightarrow> current s' k = Some t \<Longrightarrow>
     current s k = Some t \<or> next_token s \<le> t"
proof (induction rule: rtranclp_induct)
  case (step y z)
  then have y: "inv y" "next_token s \<le> next_token y"
    by (auto intro: star_inv star_next_mono)
  from step_current [OF y(1) step.hyps(2) step.prems(2)] show ?case
    using step y by auto
qed simp

text \<open>Fencing: a token issued before and not current now is never current again.\<close>

lemma stale_forever:
  assumes "inv s" and "step\<^sup>*\<^sup>* s s'" and "t < next_token s" and "current s k \<noteq> Some t"
  shows "current s' k \<noteq> Some t"
  using star_current [OF assms(2,1)] assms(3,4) by (metis not_less)

lemma tokens_grow:
  assumes "inv s" and "step\<^sup>*\<^sup>* s s'" and "current s k = Some t" and "current s' k' = Some t'"
    and "k = k'"
  shows "t \<le> t'"
proof -
  have "current s k = Some t' \<or> next_token s \<le> t'"
    using star_current [OF assms(2,1)] assms(4,5) by blast
  then show ?thesis using current_issued [OF assms(1,3)] assms(3) by auto
qed

text \<open>A holder whose resource shows another token has been fenced off for good.\<close>

lemma superseded_forever:
  assumes "inv s0" and "step\<^sup>*\<^sup>* s0 s1" and "step\<^sup>*\<^sup>* s1 s2"
    and "current s0 k = Some t" and "current s1 k \<noteq> Some t"
  shows "current s2 k \<noteq> Some t"
proof (rule stale_forever [OF _ assms(3) _ assms(5)])
  show "inv s1" using assms(2,1) by (rule star_inv)
  show "t < next_token s1"
    using current_issued [OF assms(1,4)] star_next_mono [OF assms(2,1)] by simp
qed

end

end
