(* ===== verification/CanonicalJson.thy ===== *)
theory CanonicalJson
  imports Prelude
begin

text \<open>
  The canonical JSON serializer and content addresses of
  packages/persistence/src/canonical-json.ts. The serializer is the text every hash in the
  system is taken over; the digest itself (node's \<open>createHash\<close>) is a parameter.
\<close>

section \<open>Values\<close>

text \<open>
  The JavaScript values \<open>canonicalJson\<close> is called on. \<open>JsFun\<close> stands for functions and
  symbols. Numeric leaves are integers below \<open>1e21\<close> in magnitude, which \<open>JSON.stringify\<close>
  prints in decimal notation; fractional leaves are outside the model. An object is the list
  of its own enumerable members in \<open>Object.keys\<close> order.
\<close>

datatype jsval =
    JsUndefined
  | JsFun
  | JsNull
  | JsBool bool
  | JsInt int
  | JsStr string
  | JsArr "jsval list"
  | JsObj "(string \<times> jsval) list"

section \<open>JSON text of the leaves\<close>

fun digits :: "nat \<Rightarrow> string" where
  "digits n = (if n < 10 then [char_of (48 + n)] else digits (n div 10) @ [char_of (48 + n mod 10)])"

declare digits.simps [simp del]

definition int_text :: "int \<Rightarrow> string" where
  "int_text i = (if i < 0 then CHR ''-'' # digits (nat (- i)) else digits (nat i))"

definition hex_char :: "nat \<Rightarrow> char" where
  "hex_char n = (if n < 10 then char_of (48 + n) else char_of (87 + n))"

text \<open>\<open>JSON.stringify\<close> of one code unit: the two-character escapes, \<open>u00XX\<close> below a space.\<close>

definition quote_char :: "char \<Rightarrow> string" where
  "quote_char c = (let n = of_char c :: nat in
     if n = 34 then [char_of (92 :: nat), c]
     else if n = 92 then [char_of (92 :: nat), c]
     else if n = 8 then [char_of (92 :: nat), CHR ''b'']
     else if n = 9 then [char_of (92 :: nat), CHR ''t'']
     else if n = 10 then [char_of (92 :: nat), CHR ''n'']
     else if n = 12 then [char_of (92 :: nat), CHR ''f'']
     else if n = 13 then [char_of (92 :: nat), CHR ''r'']
     else if n < 32 then [char_of (92 :: nat), CHR ''u'', CHR ''0'', CHR ''0'',
                          hex_char (n div 16), hex_char (n mod 16)]
     else [c])"

definition json_quote :: "string \<Rightarrow> string" where
  "json_quote s = [char_of (34 :: nat)] @ concat (map quote_char s) @ [char_of (34 :: nat)]"

section \<open>The serializer\<close>

text \<open>
  The key sort of the source is an insertion sort by UTF-16 code units: the inner loop
  shifts the larger keys up and drops the current key below them.
\<close>

fun insert_member :: "string \<times> 'v \<Rightarrow> (string \<times> 'v) list \<Rightarrow> (string \<times> 'v) list" where
  "insert_member m [] = [m]"
| "insert_member m (x # xs) = (if fst m < fst x then m # x # xs else x # insert_member m xs)"

definition sort_members :: "(string \<times> 'v) list \<Rightarrow> (string \<times> 'v) list" where
  "sort_members ms = foldl (\<lambda>acc m. insert_member m acc) [] ms"

fun join_comma :: "string list \<Rightarrow> string" where
  "join_comma [] = []"
| "join_comma [x] = x"
| "join_comma (x # y # xs) = x @ '','' @ join_comma (y # xs)"

text \<open>Serialized members are paired with their keys first; the emission order is the sorted one.\<close>

fun canonicalJson :: "jsval \<Rightarrow> string res"
and canonical_list :: "jsval list \<Rightarrow> string list res"
and canonical_members :: "(string \<times> jsval) list \<Rightarrow> (string \<times> string) list res" where
  "canonicalJson JsUndefined = Inl TypeError"
| "canonicalJson JsFun = Inl TypeError"
| "canonicalJson JsNull = Inr ''null''"
| "canonicalJson (JsBool b) = Inr (if b then ''true'' else ''false'')"
| "canonicalJson (JsInt i) = Inr (int_text i)"
| "canonicalJson (JsStr s) = Inr (json_quote s)"
| "canonicalJson (JsArr vs) =
     bindE (canonical_list vs) (\<lambda>ts. Inr (''['' @ join_comma ts @ '']''))"
| "canonicalJson (JsObj ms) =
     bindE (canonical_members ms) (\<lambda>ts.
       Inr (''{'' @ join_comma (map (\<lambda>(k, t). json_quote k @ '':'' @ t) (sort_members ts)) @ ''}''))"
| "canonical_list [] = Inr []"
| "canonical_list (v # vs) =
     bindE (canonicalJson v) (\<lambda>t. bindE (canonical_list vs) (\<lambda>ts. Inr (t # ts)))"
| "canonical_members [] = Inr []"
| "canonical_members ((k, v) # ms) =
     (if v = JsUndefined then canonical_members ms
      else bindE (canonicalJson v) (\<lambda>t.
           bindE (canonical_members ms) (\<lambda>ts. Inr ((k, t) # ts))))"

text \<open>
  What a \<open>jsonb\<close> column gives back for a value stored as \<open>JSON.stringify(value)\<close>: members
  that hold undefined or a function are dropped, such array slots become null. The order of
  members in \<open>jsonb\<close> is its own and not modelled; the serializer sorts them.
\<close>

fun jsonb :: "jsval \<Rightarrow> jsval"
and jsonb_list :: "jsval list \<Rightarrow> jsval list"
and jsonb_members :: "(string \<times> jsval) list \<Rightarrow> (string \<times> jsval) list" where
  "jsonb (JsArr vs) = JsArr (jsonb_list vs)"
| "jsonb (JsObj ms) = JsObj (jsonb_members ms)"
| "jsonb v = v"
| "jsonb_list [] = []"
| "jsonb_list (v # vs) = (if v = JsUndefined \<or> v = JsFun then JsNull else jsonb v) # jsonb_list vs"
| "jsonb_members [] = []"
| "jsonb_members ((k, v) # ms) =
     (if v = JsUndefined \<or> v = JsFun then jsonb_members ms else (k, jsonb v) # jsonb_members ms)"

lemma jsonb_undefined [simp]: "jsonb v = JsUndefined \<longleftrightarrow> v = JsUndefined"
  by (cases v) auto

text \<open>The serializer gives the same text for the stored value, so content addresses survive storage.\<close>

lemma canonical_jsonb:
  "canonicalJson v = Inr t \<Longrightarrow> canonicalJson (jsonb v) = Inr t"
  "canonical_list vs = Inr ts \<Longrightarrow> canonical_list (jsonb_list vs) = Inr ts"
  "canonical_members ms = Inr ps \<Longrightarrow> canonical_members (jsonb_members ms) = Inr ps"
  by (induction v and vs and ms arbitrary: t and ts and ps
      rule: canonicalJson_canonical_list_canonical_members.induct)
    (auto simp: bindE_eq_Inr split: if_splits)

definition sha256Text :: "(string \<Rightarrow> string) \<Rightarrow> string \<Rightarrow> string" where
  "sha256Text sha256hex text = ''sha256:'' @ sha256hex text"

text \<open>What the code relies on of the digest: 64 lower-case hex digits.\<close>

definition hex_digest :: "(string \<Rightarrow> string) \<Rightarrow> bool" where
  "hex_digest h \<longleftrightarrow> (\<forall>t. length (h t) = 64 \<and> list_all hex_digit (h t))"

lemma sha256Text_pattern: "hex_digest h \<Longrightarrow> HASH_PATTERN (sha256Text h t)"
  unfolding sha256Text_def hex_digest_def by (blast intro: HASH_PATTERN_sha256)

end
