(* ===== verification/Leases.thy ===== *)
theory Leases
  imports WfTables Fencing CanonicalJson
begin

text \<open>
  Step leases with fencing tokens (packages/workflow-runtime/src/leases.ts): acquisition and
  takeover, release, the commit-time compare and the liveness probe, over \<open>wf.step_leases\<close>
  and its sequence. Every clock reading is an argument, so the theorems hold for workers
  whose clocks disagree.
\<close>

section \<open>Definitions\<close>

record lease_handle =
  h_resourceKey :: string
  h_fencingToken :: nat
  h_expiresAt :: instant

definition addSeconds :: "instant \<Rightarrow> jsnum \<Rightarrow> instant res" where
  "addSeconds t seconds = date_add t (js_mul seconds (Fin 1000))"

text \<open>The row checks of \<open>wf.step_leases\<close> an insert can violate.\<close>

definition lease_checks :: "lease_row \<Rightarrow> bool" where
  "lease_checks r \<longleftrightarrow>
     l_resource_key r \<noteq> [] \<and> l_owner r \<noteq> [] \<and> 0 < l_fencing_token r \<and>
     l_acquired_at r < l_expires_at r \<and>
     (case l_released_at r of None \<Rightarrow> True | Some t \<Rightarrow> l_acquired_at r \<le> t)"

text \<open>
  \<open>STEP_LEASE_TAKEOVER\<close>: the insert draws a token; on a conflicting key the guarded update
  draws a second one and takes over a released or expired row only. A refused upsert returns
  no row, and its token stays drawn: sequences are not rolled back. The
  \<open>step_leases_no_regression\<close> trigger refuses a decreasing token.
\<close>

definition step_lease_takeover ::
  "string \<Rightarrow> string \<Rightarrow> instant \<Rightarrow> instant \<Rightarrow> ('p wf_db, nat option) prog" where
  "step_lease_takeover key owner acquired expires = (\<lambda>db.
     let t = wf_lease_fencing_seq db;
         new = \<lparr>l_resource_key = key, l_owner = owner, l_fencing_token = t,
                l_acquired_at = acquired, l_expires_at = expires, l_released_at = None\<rparr>;
         db1 = db\<lparr>wf_lease_fencing_seq := t + 1\<rparr>
     in if \<not> lease_checks new then (Inl SqlError, db1)
        else case lease_of db key of
          None \<Rightarrow> (Inr (Some t), db1\<lparr>step_leases := step_leases db @ [new]\<rparr>)
        | Some r \<Rightarrow>
            if l_released_at r \<noteq> None \<or> l_expires_at r \<le> acquired
            then if t + 1 < l_fencing_token r
                 then (Inl SqlError, db\<lparr>wf_lease_fencing_seq := t + 2\<rparr>)
                 else (Inr (Some (t + 1)),
                   db\<lparr>wf_lease_fencing_seq := t + 2,
                      step_leases := sql_update (\<lambda>r. l_resource_key r = key)
                        (\<lambda>r. r\<lparr>l_fencing_token := t + 1, l_owner := owner,
                               l_acquired_at := acquired, l_expires_at := expires,
                               l_released_at := None\<rparr>) (step_leases db)\<rparr>)
            else (Inr None, db1))"

definition acquire ::
  "instant \<Rightarrow> jsnum option \<Rightarrow> string \<Rightarrow> string \<Rightarrow> jsnum option \<Rightarrow> ('p wf_db, lease_handle) prog" where
  "acquire now defaultTtlSeconds resourceKey owner ttlSeconds =
     (let ttl = (case ttlSeconds of Some t \<Rightarrow> t | None \<Rightarrow>
                   (case defaultTtlSeconds of Some t \<Rightarrow> t | None \<Rightarrow> Fin 60))
      in if \<not> js_isFinite ttl \<or> js_le ttl (Fin 0)
         then raise (ForesiftError CONTRACT_INVARIANT_VIOLATED)
         else bindP (liftE (addSeconds now ttl)) (\<lambda>expiresAt.
              bindP (step_lease_takeover resourceKey owner now expiresAt) (\<lambda>token.
              case token of
                None \<Rightarrow> raise (ForesiftError LEASE_FENCING_TOKEN_STALE)
              | Some t \<Rightarrow> ret \<lparr>h_resourceKey = resourceKey, h_fencingToken = t,
                               h_expiresAt = expiresAt\<rparr>)))"

text \<open>The predicate of \<open>STEP_LEASE_RELEASE\<close> and \<open>STEP_LEASE_ASSERT\<close>: matching token, still held.\<close>

definition lease_held :: "string \<Rightarrow> nat \<Rightarrow> lease_row \<Rightarrow> bool" where
  "lease_held key token r \<longleftrightarrow>
     l_resource_key r = key \<and> l_fencing_token r = token \<and> l_released_at r = None"

definition release :: "instant \<Rightarrow> lease_handle \<Rightarrow> ('p wf_db, unit) prog" where
  "release now h =
     (let p = lease_held (h_resourceKey h) (h_fencingToken h);
          f = (\<lambda>r. r\<lparr>l_released_at := Some now\<rparr>)
      in bindP (reads step_leases) (\<lambda>rows.
           if \<exists>r \<in> set rows. p r \<and> \<not> lease_checks (f r) then raise SqlError
           else if sql_returning p f rows = []
           then raise (ForesiftError LEASE_FENCING_TOKEN_STALE)
           else writes (step_leases_update (sql_update p f))))"

definition assertLeaseCurrent :: "lease_handle \<Rightarrow> ('p wf_db, unit) prog" where
  "assertLeaseCurrent h =
     bindP (reads (\<lambda>db. filter (lease_held (h_resourceKey h) (h_fencingToken h)) (step_leases db)))
       (\<lambda>held. if held = [] then raise (ForesiftError LEASE_FENCING_TOKEN_STALE) else ret ())"

definition isLive :: "instant \<Rightarrow> string \<Rightarrow> 'p wf_db \<Rightarrow> bool" where
  "isLive now resourceKey db \<longleftrightarrow>
     (\<exists>r \<in> set (step_leases db).
        l_resource_key r = resourceKey \<and> l_released_at r = None \<and> now < l_expires_at r)"

text \<open>
  \<open>resourceKeyHash\<close>: the hash is the parameter \<open>sha256hex\<close> (the hex digest of node's
  \<open>createHash\<close>), the text under it \<open>JSON.stringify\<close> of the array of the two strings.
\<close>

definition resourceKeyHash :: "(string \<Rightarrow> string) \<Rightarrow> string \<Rightarrow> string \<Rightarrow> string" where
  "resourceKeyHash sha256hex runId stepType =
     sha256Text sha256hex (''['' @ json_quote runId @ '','' @ json_quote stepType @ '']'')"

section \<open>The lease protocol\<close>

text \<open>The token that currently owns a resource key: that of an unreleased lease.\<close>

definition current_token :: "'p wf_db \<Rightarrow> string \<Rightarrow> nat option" where
  "current_token db key =
     (case lease_of db key of
        None \<Rightarrow> None
      | Some r \<Rightarrow> if l_released_at r = None then Some (l_fencing_token r) else None)"

definition leases_ok :: "'p wf_db \<Rightarrow> bool" where
  "leases_ok db \<longleftrightarrow> keys_distinct l_resource_key (step_leases db) \<and> 0 < wf_lease_fencing_seq db \<and>
     (\<forall>k r. lease_of db k = Some r \<longrightarrow> l_fencing_token r < wf_lease_fencing_seq db) \<and>
     (\<forall>k k' r r'. lease_of db k = Some r \<longrightarrow> lease_of db k' = Some r' \<longrightarrow>
        l_fencing_token r = l_fencing_token r' \<longrightarrow> k = k')"

text \<open>Any worker may acquire or release at any reading of its clock, in any order.\<close>

inductive lease_step :: "'p wf_db \<Rightarrow> 'p wf_db \<Rightarrow> bool" where
  acquire: "acquire now dflt key owner ttl db = (res, db') \<Longrightarrow> lease_step db db'"
| release: "release now h db = (res, db') \<Longrightarrow> lease_step db db'"

section \<open>Effect of the operations\<close>

text \<open>A key can be taken when it has no lease, a released one, or one expired at the instant.\<close>

definition lease_free :: "instant \<Rightarrow> lease_row option \<Rightarrow> bool" where
  "lease_free now r \<longleftrightarrow>
     (case r of None \<Rightarrow> True | Some r \<Rightarrow> l_released_at r \<noteq> None \<or> l_expires_at r \<le> now)"

lemma isLive_iff:
  assumes "leases_ok db"
  shows "isLive now key db \<longleftrightarrow> \<not> lease_free now (lease_of db key)"
  using assms ex_row_iff [of l_resource_key "step_leases db" key
      "\<lambda>r. l_released_at r = None \<and> now < l_expires_at r"]
  by (auto simp: isLive_def lease_free_def leases_ok_def split: option.splits)

text \<open>One takeover statement: it either installs a fresh token or leaves the leases alone.\<close>

lemma takeover_ok:
  assumes "step_lease_takeover key owner now e db = (Inr (Some t), db')"
  shows "lease_free now (lease_of db key)"
    and "wf_lease_fencing_seq db \<le> t" and "wf_lease_fencing_seq db' = t + 1" and "now < e"
    and "lease_of db' key = Some \<lparr>l_resource_key = key, l_owner = owner, l_fencing_token = t,
           l_acquired_at = now, l_expires_at = e, l_released_at = None\<rparr>"
    and "db' = db\<lparr>wf_lease_fencing_seq := t + 1, step_leases := step_leases db'\<rparr>"
    and "map l_resource_key (step_leases db') =
           map l_resource_key (step_leases db) @ (if lease_of db key = None then [key] else [])"
  using assms
  by (auto simp: step_lease_takeover_def lease_checks_def lease_free_def Let_def row_by_update
      intro!: lease_row.equality dest: row_by_SomeD split: option.splits if_splits)

definition seq_drawn :: "'p wf_db \<Rightarrow> 'p wf_db \<Rightarrow> bool" where
  "seq_drawn db db' \<longleftrightarrow> (\<exists>n \<ge> wf_lease_fencing_seq db. db' = db\<lparr>wf_lease_fencing_seq := n\<rparr>)"

lemma seq_drawn_simps [simp]:
  "seq_drawn db db"
  "wf_lease_fencing_seq db \<le> n \<Longrightarrow> seq_drawn db (db\<lparr>wf_lease_fencing_seq := n\<rparr>)"
  unfolding seq_drawn_def by (rule exI [of _ "wf_lease_fencing_seq db"]; simp) blast

lemma takeover_refused:
  assumes "step_lease_takeover key owner now e db = (res, db')" and "\<And>t. res \<noteq> Inr (Some t)"
  shows "seq_drawn db db'"
  using assms
  by (auto simp: step_lease_takeover_def Let_def split: option.splits if_splits)

lemma takeover_seq:
  "step_lease_takeover key owner now e db = (Inr (Some t), db') \<Longrightarrow>
     wf_lease_fencing_seq db \<le> wf_lease_fencing_seq db'"
  using takeover_ok(2,3) by fastforce

lemma takeover_other:
  "step_lease_takeover key owner now e db = (res, db') \<Longrightarrow> k \<noteq> key \<Longrightarrow> lease_of db' k = lease_of db k"
  by (auto simp: step_lease_takeover_def Let_def row_by_update_other
      split: option.splits if_splits)

text \<open>\<open>acquire\<close> and \<open>release\<close> in terms of the statements they issue.\<close>

lemma acquire_cases:
  assumes "acquire now dflt key owner ttl db = (res, db')"
  obtains (refused) e where "res = Inl e" and "seq_drawn db db'"
    | (taken) t e where "res = Inr \<lparr>h_resourceKey = key, h_fencingToken = t, h_expiresAt = e\<rparr>"
      and "step_lease_takeover key owner now e db = (Inr (Some t), db')"
proof (cases res)
  case (Inl e)
  have "seq_drawn db db'"
    using assms Inl takeover_refused [of key owner now _ db _ db']
    by (auto simp: acquire_def Let_def bindP_liftE bindP_eq_Inl
        split: if_splits sum.splits option.splits)
  then show ?thesis using Inl refused by blast
next
  case (Inr h)
  then show ?thesis using assms taken
    by (auto simp: acquire_def Let_def bindP_liftE bindP_eq_Inr split: if_splits sum.splits option.splits)
qed

lemma release_cases:
  assumes "release now h db = (res, db')" and "leases_ok db"
  obtains (refused) e where "res = Inl e" and "db' = db"
    | (released) r where "res = Inr ()" and "lease_of db (h_resourceKey h) = Some r"
      and "l_fencing_token r = h_fencingToken h" and "l_released_at r = None"
      and "db' = db\<lparr>step_leases := sql_update (lease_held (h_resourceKey h) (h_fencingToken h))
             (\<lambda>r. r\<lparr>l_released_at := Some now\<rparr>) (step_leases db)\<rparr>"
proof -
  let ?p = "lease_held (h_resourceKey h) (h_fencingToken h)"
  have k: "keys_distinct l_resource_key (step_leases db)"
    using assms(2) by (simp add: leases_ok_def)
  show thesis
  proof (cases "\<exists>r \<in> set (step_leases db). ?p r")
    case True
    then obtain r where r: "r \<in> set (step_leases db)" "?p r" by blast
    then have "lease_of db (h_resourceKey h) = Some r"
      using k by (simp add: row_by_eq_Some_iff lease_held_def)
    with r True show thesis using assms(1) refused released
      by (auto simp: release_def Let_def sql_returning_empty_iff lease_held_def split: if_splits)
  next
    case False
    then show thesis using assms(1) refused
      by (auto simp: release_def Let_def sql_returning_empty_iff split: if_splits)
  qed
qed

section \<open>The invariant and the fencing contract\<close>

lemma leases_ok_empty [simp]: "leases_ok empty_db"
  by (simp add: leases_ok_def empty_db_def keys_distinct_def)

lemma leases_okI:
  assumes "keys_distinct l_resource_key (step_leases db)" and "0 < wf_lease_fencing_seq db"
    and "\<And>k r. lease_of db k = Some r \<Longrightarrow> l_fencing_token r < wf_lease_fencing_seq db"
    and "\<And>k k' r r'. lease_of db k = Some r \<Longrightarrow> lease_of db k' = Some r' \<Longrightarrow>
        l_fencing_token r = l_fencing_token r' \<Longrightarrow> k = k'"
  shows "leases_ok db"
  using assms unfolding leases_ok_def by blast

lemma leases_okD:
  assumes "leases_ok db"
  shows "keys_distinct l_resource_key (step_leases db)" and "0 < wf_lease_fencing_seq db"
    and "lease_of db k = Some r \<Longrightarrow> l_fencing_token r < wf_lease_fencing_seq db"
    and "lease_of db k = Some r \<Longrightarrow> lease_of db k' = Some r' \<Longrightarrow>
        l_fencing_token r = l_fencing_token r' \<Longrightarrow> k = k'"
  using assms unfolding leases_ok_def by blast+

lemma leases_ok_drawn: "leases_ok db \<Longrightarrow> seq_drawn db db' \<Longrightarrow> leases_ok db'"
  by (fastforce simp: seq_drawn_def leases_ok_def intro: less_le_trans)

lemma leases_ok_taken:
  assumes ok: "leases_ok db" and run: "step_lease_takeover key owner now e db = (Inr (Some t), db')"
  shows "leases_ok db'"
proof (rule leases_okI)
  note new = takeover_ok [OF run] and old = takeover_other [OF run] and okD = leases_okD [OF ok]
  show "keys_distinct l_resource_key (step_leases db')"
    using new(7) okD(1) by (simp add: keys_distinct_def row_by_None_iff)
  show "0 < wf_lease_fencing_seq db'" using new(3) by simp
  have less: "l_fencing_token r < t" if "k \<noteq> key" "lease_of db' k = Some r" for k r
    using okD(3) [of k r] old [OF that(1)] new(2) that(2) by simp
  show "l_fencing_token r < wf_lease_fencing_seq db'" if "lease_of db' k = Some r" for k r
    using that less [of k r] new(3,5) by (cases "k = key") auto
  show "k = k'" if "lease_of db' k = Some r" "lease_of db' k' = Some r'"
    "l_fencing_token r = l_fencing_token r'" for k k' r r'
    using that less [of k r] less [of k' r'] new(5) old okD(4)
    by (cases "k = key"; cases "k' = key") auto
qed

lemma leases_ok_released:
  "leases_ok db \<Longrightarrow> leases_ok (db\<lparr>step_leases :=
     sql_update p (\<lambda>r. r\<lparr>l_released_at := Some now\<rparr>) (step_leases db)\<rparr>)"
  by (rule leases_okI) (auto simp: row_by_update dest: leases_okD split: if_splits)

lemma lease_step_ok: "leases_ok db \<Longrightarrow> lease_step db db' \<Longrightarrow> leases_ok db'"
  by (erule lease_step.cases)
    (auto elim!: acquire_cases release_cases intro: leases_ok_drawn leases_ok_taken leases_ok_released)

lemma lease_step_seq:
  "leases_ok db \<Longrightarrow> lease_step db db' \<Longrightarrow> wf_lease_fencing_seq db \<le> wf_lease_fencing_seq db'"
  by (erule lease_step.cases)
    (auto elim!: acquire_cases release_cases simp: seq_drawn_def dest: takeover_seq)

lemma lease_step_current:
  assumes "leases_ok db" and "lease_step db db'" and "current_token db' k = Some t"
  shows "current_token db k = Some t \<or> wf_lease_fencing_seq db \<le> t"
  using assms(2)
proof cases
  case (acquire now dflt key owner ttl res)
  then show ?thesis
  proof (cases rule: acquire_cases)
    case (refused e)
    then show ?thesis using assms(3) by (auto simp: seq_drawn_def current_token_def)
  next
    case (taken u e)
    then show ?thesis using assms(3) takeover_ok(2,5) [OF taken(2)] takeover_other [OF taken(2), of k]
      by (cases "k = key") (auto simp: current_token_def)
  qed
next
  case (release now h res)
  then show ?thesis using assms(1)
  proof (cases rule: release_cases)
    case refused
    then show ?thesis using assms(3) by simp
  next
    case (released r)
    then show ?thesis using assms(3)
      by (auto simp: current_token_def row_by_update split: option.splits if_splits)
  qed
qed

interpretation lease_fence: fenced_tokens lease_step current_token wf_lease_fencing_seq leases_ok
proof unfold_locales
  fix db db' :: "'p wf_db" and k k' t
  show "leases_ok db \<Longrightarrow> lease_step db db' \<Longrightarrow> leases_ok db'" by (rule lease_step_ok)
  show "leases_ok db \<Longrightarrow> current_token db k = Some t \<Longrightarrow> t < wf_lease_fencing_seq db"
    by (auto simp: current_token_def dest: leases_okD split: option.splits if_splits)
  show "leases_ok db \<Longrightarrow> lease_step db db' \<Longrightarrow> wf_lease_fencing_seq db \<le> wf_lease_fencing_seq db'"
    by (rule lease_step_seq)
  show "leases_ok db \<Longrightarrow> lease_step db db' \<Longrightarrow> current_token db' k = Some t \<Longrightarrow>
      current_token db k = Some t \<or> wf_lease_fencing_seq db \<le> t"
    by (rule lease_step_current)
  show "leases_ok db \<Longrightarrow> current_token db k = Some t \<Longrightarrow> current_token db k' = Some t \<Longrightarrow> k = k'"
    by (auto simp: current_token_def dest: leases_okD(4) split: option.splits if_splits)
qed

text \<open>The token compares of the code are \<open>current_token\<close>.\<close>

lemma holds_lease:
  assumes "leases_ok db"
  shows "filter (lease_held key t) (step_leases db) = [] \<longleftrightarrow> current_token db key \<noteq> Some t"
  using filter_row [OF leases_okD(1) [OF assms], of key "\<lambda>r. l_fencing_token r = t \<and> l_released_at r = None"]
  by (auto simp: lease_held_def [abs_def] current_token_def split: option.splits)

lemma assertLeaseCurrent_iff:
  assumes "leases_ok db"
  shows "assertLeaseCurrent h db =
    (if current_token db (h_resourceKey h) = Some (h_fencingToken h) then (Inr (), db)
     else (Inl (ForesiftError LEASE_FENCING_TOKEN_STALE), db))"
  using holds_lease [OF assms] by (simp add: assertLeaseCurrent_def)

lemma release_stale:
  assumes "leases_ok db" and "current_token db (h_resourceKey h) \<noteq> Some (h_fencingToken h)"
  shows "release now h db = (Inl (ForesiftError LEASE_FENCING_TOKEN_STALE), db)"
  using holds_lease [OF assms(1), of "h_resourceKey h" "h_fencingToken h"] assms(2)
  by (auto simp: release_def Let_def sql_returning_def filter_empty_conv)

lemma acquire_int:
  assumes "0 < s" and "0 \<le> now" and "now + s * 1000 \<le> 8640000000000000"
  shows "acquire now dflt key owner (Some (Fin (of_int s))) =
    bindP (step_lease_takeover key owner now (now + s * 1000)) (\<lambda>token. case token of
        None \<Rightarrow> raise (ForesiftError LEASE_FENCING_TOKEN_STALE)
      | Some t \<Rightarrow> ret \<lparr>h_resourceKey = key, h_fencingToken = t, h_expiresAt = now + s * 1000\<rparr>)"
proof -
  have "to_num (of_int (s * 1000)) = Fin (of_int (s * 1000))"
    using assms by (intro to_num_of_int) auto
  then have "addSeconds now (Fin (of_int s)) = Inr (now + s * 1000)"
    using date_add_int [of now "s * 1000"] assms by (simp add: addSeconds_def)
  moreover have "\<not> js_le (Fin (of_int s)) (Fin 0)"
    using assms(1) by (simp add: js_le_def js_eq_def)
  ultimately show ?thesis by (simp add: acquire_def fun_eq_iff bindP_liftE bindP_def)
qed

lemma acquire_current:
  assumes "acquire now dflt key owner ttl db = (Inr h, db')"
  shows "current_token db' key = Some (h_fencingToken h)" and "h_resourceKey h = key"
    and "wf_lease_fencing_seq db \<le> h_fencingToken h" and "lease_free now (lease_of db key)"
  using assms by (auto elim!: acquire_cases dest: takeover_ok simp: current_token_def)

lemma takeover_supersedes:
  assumes "leases_ok db0"
    and "acquire now1 dflt1 key owner1 ttl1 db0 = (Inr h1, db1)" and "lease_step\<^sup>*\<^sup>* db1 db2"
    and "acquire now2 dflt2 key owner2 ttl2 db2 = (Inr h2, db3)" and "lease_step\<^sup>*\<^sup>* db3 db4"
  shows "leases_ok db4 \<and> h_fencingToken h1 < h_fencingToken h2 \<and> current_token db4 key \<noteq> Some (h_fencingToken h1)"
proof -
  note a1 = acquire_current [OF assms(2)] and a2 = acquire_current [OF assms(4)]
  have ok1: "leases_ok db1" using assms(1,2) by (blast intro: lease_step_ok lease_step.acquire)
  have ok2: "leases_ok db2" using assms(3) ok1 by (rule lease_fence.star_inv)
  have s23: "lease_step db2 db3" using assms(4) by (rule lease_step.acquire)
  have star: "lease_step\<^sup>*\<^sup>* db1 db3" using assms(3) s23 by simp
  have "h_fencingToken h1 < wf_lease_fencing_seq db2"
    using lease_fence.current_issued [OF ok1 a1(1)] lease_fence.star_next_mono [OF assms(3) ok1] by simp
  with a2(3) have less: "h_fencingToken h1 < h_fencingToken h2" by simp
  have "current_token db4 key \<noteq> Some (h_fencingToken h1)"
    using a2(1) less by (intro lease_fence.superseded_forever [OF ok1 star assms(5) a1(1)]) simp
  moreover have "leases_ok db4"
    using lease_fence.star_inv [OF star ok1] lease_fence.star_inv [OF assms(5)] by blast
  ultimately show ?thesis using less by simp
qed

section \<open>Properties\<close>

text \<open>
  C5 (lease_takeover_fences). Fencing: when a worker acquired a lease and, after any
  interleaving of acquisitions and releases by any workers on any clocks, the same resource is
  acquired again, the second token is larger, and from then on, whatever happens next, the
  first handle fails the commit-time compare and cannot release the lease: both raise
  \<open>LEASE_FENCING_TOKEN_STALE\<close> and change nothing.
\<close>

theorem lease_takeover_fences:
  assumes "leases_ok db0"
    and "acquire now1 dflt1 key owner1 ttl1 db0 = (Inr h1, db1)" and "lease_step\<^sup>*\<^sup>* db1 db2"
    and "acquire now2 dflt2 key owner2 ttl2 db2 = (Inr h2, db3)" and "lease_step\<^sup>*\<^sup>* db3 db4"
  shows "h_fencingToken h1 < h_fencingToken h2
    \<and> assertLeaseCurrent h1 db4 = (Inl (ForesiftError LEASE_FENCING_TOKEN_STALE), db4)
    \<and> release now3 h1 db4 = (Inl (ForesiftError LEASE_FENCING_TOKEN_STALE), db4)"
  using takeover_supersedes [OF assms] acquire_current(2) [OF assms(2)]
  by (simp add: assertLeaseCurrent_iff release_stale)

text \<open>Two workers on one key: \<open>a\<close> at instant 0, \<open>b\<close> after the minute has passed.\<close>

definition lease_demo1 :: "unit wf_db" where
  "lease_demo1 = snd (acquire 0 None ''k'' ''a'' (Some (Fin 60)) empty_db)"

definition lease_demo2 :: "unit wf_db" where
  "lease_demo2 = snd (acquire 60000 None ''k'' ''b'' (Some (Fin 5)) lease_demo1)"

lemma lease_demo_runs:
  "acquire 0 None ''k'' ''a'' (Some (Fin 60)) empty_db =
     (Inr \<lparr>h_resourceKey = ''k'', h_fencingToken = 1, h_expiresAt = 60000\<rparr>, lease_demo1)"
  "acquire 60000 None ''k'' ''b'' (Some (Fin 5)) lease_demo1 =
     (Inr \<lparr>h_resourceKey = ''k'', h_fencingToken = 3, h_expiresAt = 65000\<rparr>, lease_demo2)"
  by (simp_all add: acquire_int [of 60 0, simplified] acquire_int [of 5 60000, simplified] lease_demo1_def lease_demo2_def bindP_run step_lease_takeover_def lease_checks_def
      empty_db_def Let_def)

theorem lease_takeover_fences_witness:
  "assertLeaseCurrent \<lparr>h_resourceKey = ''k'', h_fencingToken = 1, h_expiresAt = 60000\<rparr> lease_demo2
     = (Inl (ForesiftError LEASE_FENCING_TOKEN_STALE), lease_demo2)"
  using lease_takeover_fences [OF leases_ok_empty lease_demo_runs(1) _ lease_demo_runs(2)] by simp

text \<open>
  While a live lease exists for a resource key, every acquisition of
  that key fails and leaves all leases as they are; with a non-empty key and owner and a whole
  number of seconds that stays in the range of dates, the refusal is
  \<open>LEASE_FENCING_TOKEN_STALE\<close>.
\<close>

theorem acquire_exclusive:
  assumes "leases_ok db" and "isLive now key db"
  shows "(\<exists>e n. acquire now dflt key owner ttl db = (Inl e, db\<lparr>wf_lease_fencing_seq := n\<rparr>)) \<and>
    (\<forall>s. key \<noteq> [] \<and> owner \<noteq> [] \<and> 0 < s \<and> 0 \<le> now \<and> now + s * 1000 \<le> 8640000000000000 \<longrightarrow>
      acquire now dflt key owner (Some (Fin (of_int s))) db =
        (Inl (ForesiftError LEASE_FENCING_TOKEN_STALE),
         db\<lparr>wf_lease_fencing_seq := wf_lease_fencing_seq db + 1\<rparr>))"
proof -
  have busy: "\<not> lease_free now (lease_of db key)"
    using assms isLive_iff by blast
  obtain res db' where run: "acquire now dflt key owner ttl db = (res, db')" by fastforce
  then have "\<exists>e n. (res, db') = (Inl e, db\<lparr>wf_lease_fencing_seq := n\<rparr>)"
    using busy by (cases rule: acquire_cases) (auto simp: seq_drawn_def dest: takeover_ok(1))
  with run show ?thesis using busy leases_okD(2) [OF assms(1)]
    by (auto simp: acquire_int step_lease_takeover_def lease_free_def lease_checks_def Let_def bindP_run
        split: option.splits)
qed

theorem acquire_exclusive_witness:
  "isLive 1000 ''k'' lease_demo1 \<and> acquire 1000 None ''k'' ''b'' (Some (Fin 60)) lease_demo1 =
     (Inl (ForesiftError LEASE_FENCING_TOKEN_STALE), lease_demo1\<lparr>wf_lease_fencing_seq := 3\<rparr>)"
proof -
  have live: "isLive 1000 ''k'' lease_demo1" and seq: "wf_lease_fencing_seq lease_demo1 = 2"
    by (simp_all add: acquire_int [of 60 0, simplified] lease_demo1_def isLive_def bindP_run step_lease_takeover_def lease_checks_def
        empty_db_def Let_def)
  have ok: "leases_ok lease_demo1"
    using lease_demo_runs(1) leases_ok_empty by (blast intro: lease_step_ok lease_step.acquire)
  show ?thesis
    using live seq acquire_exclusive [OF ok live, of None "''b''" None] by (auto dest: spec [of _ 60])
qed

text \<open>
  A key with no live lease can always be taken: for every state the
  protocol reaches, a non-empty key and owner and a whole number of seconds in the range of
  dates, \<open>acquire\<close> returns a handle with a fresh token and the exact expiry; the lease is then
  live until that expiry, the handle passes the commit-time compare, and no other key changes.
\<close>

theorem acquire_free:
  assumes "leases_ok db" and "\<not> isLive now key db" and "key \<noteq> []" and "owner \<noteq> []"
    and "0 < s" and "0 \<le> now" and "now + s * 1000 \<le> 8640000000000000"
  shows "\<exists>t db'. acquire now dflt key owner (Some (Fin (of_int s))) db =
      (Inr \<lparr>h_resourceKey = key, h_fencingToken = t, h_expiresAt = now + s * 1000\<rparr>, db')
    \<and> wf_lease_fencing_seq db \<le> t
    \<and> (\<forall>later. isLive later key db' \<longleftrightarrow> later < now + s * 1000)
    \<and> (\<forall>e. assertLeaseCurrent \<lparr>h_resourceKey = key, h_fencingToken = t, h_expiresAt = e\<rparr> db' = (Inr (), db'))
    \<and> (\<forall>k. k \<noteq> key \<longrightarrow> lease_of db' k = lease_of db k)"
proof -
  let ?e = "now + s * 1000"
  have free: "lease_free now (lease_of db key)" using assms(1,2) isLive_iff by blast
  have "\<exists>t db'. step_lease_takeover key owner now ?e db = (Inr (Some t), db')"
    using free assms leases_okD(2) [OF assms(1)]
    by (auto simp: step_lease_takeover_def lease_free_def lease_checks_def Let_def
        split: option.splits dest!: leases_okD(3) [OF assms(1)])
  then obtain t db' where run: "step_lease_takeover key owner now ?e db = (Inr (Some t), db')" by blast
  note ok' = leases_ok_taken [OF assms(1) run]
  from run have "acquire now dflt key owner (Some (Fin (of_int s))) db =
      (Inr \<lparr>h_resourceKey = key, h_fencingToken = t, h_expiresAt = ?e\<rparr>, db')"
    using assms by (simp add: acquire_int bindP_run)
  moreover have "isLive later key db' \<longleftrightarrow> later < ?e" for later
    using takeover_ok(5) [OF run] by (auto simp: isLive_iff [OF ok'] lease_free_def)
  moreover have "current_token db' key = Some t"
    using takeover_ok(5) [OF run] by (simp add: current_token_def)
  ultimately show ?thesis
    using takeover_ok(2) [OF run] takeover_other [OF run] by (auto simp: assertLeaseCurrent_iff [OF ok'])
qed

theorem acquire_free_witness:
  "\<exists>t db'. acquire 5 None ''k'' ''a'' (Some (Fin (of_int 30))) (empty_db :: unit wf_db) =
      (Inr \<lparr>h_resourceKey = ''k'', h_fencingToken = t, h_expiresAt = 30005\<rparr>, db')
    \<and> 1 \<le> t \<and> isLive 30004 ''k'' db'"
proof -
  have "\<not> isLive 5 ''k'' (empty_db :: unit wf_db)" by (simp add: isLive_def empty_db_def)
  from acquire_free [OF leases_ok_empty this, of "''a''" 30 None] show ?thesis
    by (fastforce simp: empty_db_def)
qed

end
