(* ===== verification/Steps.thy ===== *)
theory Steps
  imports Leases
begin

text \<open>
  Step checkpoints with per-run idempotency keys (packages/workflow-runtime/src/steps.ts). The
  statements of a transaction are atomic; between two of them other sessions may commit, which
  is the argument \<open>env\<close> of the two writers. Neither writer has written anything when it
  throws, so a rollback has nothing to undo.
\<close>

section \<open>Step order and status transitions\<close>

definition WF_STANDARD_STEP_ORDER :: "string list" where
  "WF_STANDARD_STEP_ORDER =
    [''load_immutable_resolved_configuration'',
     ''discover_candidates'',
     ''canonicalize_and_deduplicate'',
     ''apply_eligibility_data_quality_gates'',
     ''fetch_cheap_required_evidence'',
     ''update_snapshots_and_features'',
     ''rank_and_select_candidates'',
     ''run_deep_research_within_budget'',
     ''validate_decision'',
     ''run_conditional_skeptic'',
     ''apply_lifecycle_risk_transitions'',
     ''apply_alert_policy'',
     ''commit_decision_and_outbox_atomically'',
     ''schedule_outcome_collection'',
     ''complete_run_summary'']"

definition STEP_ORDER_INDEX :: "(string \<times> nat) list" where
  "STEP_ORDER_INDEX = zip WF_STANDARD_STEP_ORDER [0..<length WF_STANDARD_STEP_ORDER]"

definition stepOrderIndex :: "string \<Rightarrow> int" where
  "stepOrderIndex stepType =
     (case map_of STEP_ORDER_INDEX stepType of None \<Rightarrow> - 1 | Some i \<Rightarrow> int i)"

fun order_loop :: "int \<Rightarrow> string list \<Rightarrow> unit res" where
  "order_loop index [] = Inr ()"
| "order_loop index (completed # rest) =
     (let completedIndex = stepOrderIndex completed
      in if completedIndex < 0 then Inl (ForesiftError WF_STEP_ORDER_INVALID)
         else if completedIndex > index then Inl (ForesiftError WF_STEP_ORDER_INVALID)
         else order_loop index rest)"

definition assertStepOrder :: "string \<Rightarrow> string list \<Rightarrow> unit res" where
  "assertStepOrder stepType completedStepTypes =
     (let index = stepOrderIndex stepType
      in if index < 0 then Inl (ForesiftError WF_STEP_ORDER_INVALID)
         else order_loop index completedStepTypes)"

fun ALLOWED_STEP_TRANSITIONS :: "step_status \<Rightarrow> step_status list" where
  "ALLOWED_STEP_TRANSITIONS Step_PENDING = [Step_RUNNING, Step_SKIPPED_POLICY]"
| "ALLOWED_STEP_TRANSITIONS Step_RUNNING =
     [Step_SUCCEEDED, Step_FAILED_RETRYABLE, Step_FAILED_EXHAUSTED, Step_SKIPPED_POLICY]"
| "ALLOWED_STEP_TRANSITIONS Step_SUCCEEDED = []"
| "ALLOWED_STEP_TRANSITIONS Step_FAILED_RETRYABLE = [Step_RUNNING, Step_FAILED_EXHAUSTED]"
| "ALLOWED_STEP_TRANSITIONS Step_FAILED_EXHAUSTED = []"
| "ALLOWED_STEP_TRANSITIONS Step_SKIPPED_POLICY = []"

definition assertStepTransition :: "step_status \<Rightarrow> step_status \<Rightarrow> unit res" where
  "assertStepTransition src dst =
     guardE (dst \<in> set (ALLOWED_STEP_TRANSITIONS src)) WF_STEP_TRANSITION_INVALID"

definition assertHash :: "string \<Rightarrow> string res" where
  "assertHash v =
     (if HASH_PATTERN v then Inr v else Inl (ForesiftError WF_STEP_TRANSITION_INVALID))"

text \<open>An absent \<open>now\<close> is the clock reading; an unparsable one is refused.\<close>

definition nowIso :: "instant \<Rightarrow> iso option \<Rightarrow> instant res" where
  "nowIso clock input =
     (case input of
        None \<Rightarrow> Inr clock
      | Some None \<Rightarrow> Inl (ForesiftError WF_STEP_TRANSITION_INVALID)
      | Some (Some now) \<Rightarrow> Inr now)"

definition opt_hash :: "string option \<Rightarrow> string option res" where
  "opt_hash h = (case h of None \<Rightarrow> Inr None | Some v \<Rightarrow> bindE (assertHash v) (\<lambda>v. Inr (Some v)))"

section \<open>Rows\<close>

text \<open>
  \<open>mapRow\<close> re-parses the closed text columns; the checkpoint record has the fields of the row.
\<close>

definition mapRow :: "step_row \<Rightarrow> step_row res" where
  "mapRow row =
     bindE (parseStepStatus (Some (step_status_text (s_status row)))) (\<lambda>status.
     bindE (case s_error_class row of
              None \<Rightarrow> Inr None
            | Some c \<Rightarrow> bindE (parseRetryErrorClass (Some (retry_error_class_text c))) (\<lambda>c. Inr (Some c)))
       (\<lambda>errorClass. Inr (row\<lparr>s_status := status, s_error_class := errorClass\<rparr>)))"

text \<open>The checks of \<open>wf.steps\<close>; its counters are four-byte integers.\<close>

definition int4 :: "int \<Rightarrow> bool" where
  "int4 i \<longleftrightarrow> - 2147483648 \<le> i \<and> i \<le> 2147483647"

definition step_checks :: "step_row \<Rightarrow> bool" where
  "step_checks r \<longleftrightarrow>
     s_step_id r \<noteq> [] \<and> s_step_type r \<noteq> [] \<and> s_idempotency_key r \<noteq> [] \<and>
     0 \<le> s_attempt r \<and> int4 (s_attempt r) \<and>
     pred_option HASH_PATTERN (s_input_hash r) \<and> pred_option HASH_PATTERN (s_output_hash r) \<and>
     0 \<le> s_lease_version r \<and> int4 (s_lease_version r)"

text \<open>
  \<open>INSERT INTO wf.steps \<dots> ON CONFLICT (run_id, idempotency_key) DO NOTHING RETURNING\<close>: a
  check, primary-key or foreign-key violation is the database's error.
\<close>

definition step_insert :: "step_row \<Rightarrow> ('p wf_db, step_row option) prog" where
  "step_insert row = (\<lambda>db.
     if \<not> step_checks row then (Inl SqlError, db)
     else if step_of db (s_run_id row) (s_idempotency_key row) \<noteq> None then (Inr None, db)
     else if \<exists>r \<in> set (steps db). s_step_id r = s_step_id row then (Inl SqlError, db)
     else if run_of db (s_run_id row) = None then (Inl SqlError, db)
     else (Inr (Some row), db\<lparr>steps := steps db @ [row]\<rparr>))"

section \<open>The commit-time fence\<close>

record lease_fence =
  f_resourceKey :: string
  f_fencingToken :: nat

text \<open>
  \<open>STEP_LEASE_FENCE_PREDICATE\<close>: with a token, that token must hold the lease; without one, no
  live lease may exist at the commit instant.
\<close>

definition fence_ok :: "nat option \<Rightarrow> string \<Rightarrow> instant \<Rightarrow> 'p wf_db \<Rightarrow> bool" where
  "fence_ok token key now db \<longleftrightarrow>
     (case token of
        Some t \<Rightarrow> (\<exists>r \<in> set (step_leases db). lease_held key t r)
      | None \<Rightarrow> \<not> (\<exists>r \<in> set (step_leases db).
                     l_resource_key r = key \<and> l_released_at r = None \<and> now < l_expires_at r))"

definition stepLeaseResourceKey :: "(string \<Rightarrow> string) \<Rightarrow> string \<Rightarrow> string \<Rightarrow> string" where
  "stepLeaseResourceKey sha runId stepType = resourceKeyHash sha runId stepType"

definition fenceParams :: "lease_fence option \<Rightarrow> string \<Rightarrow> nat option \<times> string" where
  "fenceParams fence resourceKey =
     (case fence of None \<Rightarrow> (None, resourceKey) | Some f \<Rightarrow> (Some (f_fencingToken f), f_resourceKey f))"

definition stepWriteRefusal ::
  "lease_fence option \<Rightarrow> string \<Rightarrow> instant \<Rightarrow> ('p wf_db, js_error) prog" where
  "stepWriteRefusal fence resourceKey now =
     bindP (reads step_leases) (\<lambda>leases.
       let stale = (case fence of
             None \<Rightarrow> filter (\<lambda>r. l_resource_key r = resourceKey \<and> l_released_at r = None \<and>
                       now < l_expires_at r) leases \<noteq> []
           | Some f \<Rightarrow> filter (lease_held resourceKey (f_fencingToken f)) leases = [])
       in ret (ForesiftError (if stale then LEASE_FENCING_TOKEN_STALE else WF_STEP_NOT_FOUND)))"

text \<open>The fence parameters of a write: the presented lease, or the step's own resource key.\<close>

definition step_fence :: "(string \<Rightarrow> string) \<Rightarrow> lease_fence option \<Rightarrow> string \<Rightarrow> string \<Rightarrow> nat option \<times> string" where
  "step_fence sha lease runId stepType =
     fenceParams lease (case lease of Some l \<Rightarrow> f_resourceKey l | None \<Rightarrow> stepLeaseResourceKey sha runId stepType)"

section \<open>Claiming an attempt\<close>

record begin_input =
  b_runId :: string
  b_stepType :: string
  b_idempotencyKey :: string
  b_inputHash :: "string option"
  b_leaseOwner :: "string option"
  b_leaseVersion :: "int option"
  b_leaseExpiresAt :: "instant option"
  b_now :: "iso option"
  b_stepId :: "string option"
  b_lease :: "lease_fence option"

record step_replay_result =
  rp_stepId :: string
  rp_status :: step_status
  rp_attempt :: int
  rp_inputHash :: "string option"
  rp_outputHash :: "string option"
  rp_replayed :: bool
  rp_executed :: bool

definition replay_result :: "bool \<Rightarrow> step_row \<Rightarrow> step_replay_result" where
  "replay_result replayed r =
     \<lparr>rp_stepId = s_step_id r, rp_status = s_status r, rp_attempt = s_attempt r,
      rp_inputHash = s_input_hash r, rp_outputHash = s_output_hash r,
      rp_replayed = replayed, rp_executed = \<not> replayed\<rparr>"

text \<open>The row the first claim inserts.\<close>

definition fresh_step :: "begin_input \<Rightarrow> string option \<Rightarrow> instant \<Rightarrow> step_row" where
  "fresh_step input inputHash now =
     \<lparr>s_step_id = (case b_stepId input of Some i \<Rightarrow> i
                   | None \<Rightarrow> ''wfs_'' @ b_runId input @ ''_'' @ b_idempotencyKey input),
      s_run_id = b_runId input, s_step_type = b_stepType input,
      s_idempotency_key = b_idempotencyKey input, s_attempt = 1, s_input_hash = inputHash,
      s_output_hash = None, s_status = Step_RUNNING, s_lease_owner = b_leaseOwner input,
      s_lease_version = (case b_leaseVersion input of Some v \<Rightarrow> v | None \<Rightarrow> 0),
      s_lease_expires_at = b_leaseExpiresAt input, s_started_at = Some now,
      s_completed_at = None, s_error_class = None, s_retryable = None\<rparr>"

text \<open>The \<open>SET\<close> list of the re-claim: a new attempt of the same row.\<close>

definition reclaim :: "begin_input \<Rightarrow> string option \<Rightarrow> instant \<Rightarrow> step_row \<Rightarrow> step_row" where
  "reclaim input inputHash now r = r\<lparr>
     s_status := Step_RUNNING,
     s_attempt := s_attempt r + 1,
     s_input_hash := (case inputHash of Some h \<Rightarrow> Some h | None \<Rightarrow> s_input_hash r),
     s_lease_owner := (case b_leaseOwner input of Some l \<Rightarrow> Some l | None \<Rightarrow> s_lease_owner r),
     s_lease_version := (case b_leaseVersion input of Some v \<Rightarrow> v | None \<Rightarrow> 0),
     s_lease_expires_at := b_leaseExpiresAt input,
     s_started_at := Some now,
     s_completed_at := None, s_error_class := None, s_retryable := None\<rparr>"

text \<open>\<open>UPDATE wf.steps \<dots> WHERE run_id, idempotency_key, status AND fence RETURNING\<close>.\<close>

definition step_update ::
  "string \<Rightarrow> string \<Rightarrow> step_status \<Rightarrow> nat option \<times> string \<Rightarrow> instant \<Rightarrow> (step_row \<Rightarrow> step_row) \<Rightarrow>
   ('p wf_db, step_row list) prog" where
  "step_update runId key status fence now f =
     update_stmt steps steps_update step_checks
       (\<lambda>db r. s_run_id r = runId \<and> s_idempotency_key r = key \<and> s_status r = status \<and>
               fence_ok (fst fence) (snd fence) now db) f"

text \<open>
  The last statement of both writers: the fenced update, and on zero rows the typed refusal.
  Other sessions may commit before the update and before the refusal's probe.
\<close>

definition fenced_write ::
  "(nat \<Rightarrow> 'p wf_db \<Rightarrow> 'p wf_db) \<Rightarrow> nat \<Rightarrow> string \<Rightarrow> string \<Rightarrow> step_status \<Rightarrow> lease_fence option \<Rightarrow>
   nat option \<times> string \<Rightarrow> instant \<Rightarrow> (step_row \<Rightarrow> step_row) \<Rightarrow> ('p wf_db, step_row) prog" where
  "fenced_write env i runId key status lease fence now f =
     bindP (gap env i) (\<lambda>_.
     bindP (step_update runId key status fence now f) (\<lambda>updated.
     case updated of
       row # _ \<Rightarrow> ret row
     | [] \<Rightarrow> bindP (gap env (Suc i)) (\<lambda>_. bindP (stepWriteRefusal lease (snd fence) now) raise)))"

text \<open>The part of \<open>beginStep\<close> that handles an existing row (the caller's or a concurrent winner's).\<close>

definition claim_existing ::
  "(string \<Rightarrow> string) \<Rightarrow> (nat \<Rightarrow> 'p wf_db \<Rightarrow> 'p wf_db) \<Rightarrow> begin_input \<Rightarrow> string option \<Rightarrow> instant \<Rightarrow>
   step_row \<Rightarrow> ('p wf_db, step_replay_result) prog" where
  "claim_existing sha env input inputHash now existing =
     (let currentStatus = s_status existing
      in if inputHash \<noteq> None \<and> s_input_hash existing \<noteq> None \<and> s_input_hash existing \<noteq> inputHash
         then raise (ForesiftError WF_STEP_INPUT_HASH_MISMATCH)
         else if currentStatus = Step_SUCCEEDED then ret (replay_result True existing)
         else if currentStatus = Step_FAILED_EXHAUSTED \<or> currentStatus = Step_SKIPPED_POLICY
         then raise (ForesiftError WF_STEP_TRANSITION_INVALID)
         else bindP (liftE (if currentStatus \<noteq> Step_RUNNING
                            then assertStepTransition currentStatus Step_RUNNING else Inr ())) (\<lambda>_.
              bindP (fenced_write env 2 (b_runId input) (b_idempotencyKey input) currentStatus
                       (b_lease input)
                       (step_fence sha (b_lease input) (b_runId input) (b_stepType input)) now
                       (reclaim input inputHash now)) (\<lambda>claimed.
              ret (replay_result False claimed))))"

definition beginStep ::
  "(string \<Rightarrow> string) \<Rightarrow> instant \<Rightarrow> (nat \<Rightarrow> 'p wf_db \<Rightarrow> 'p wf_db) \<Rightarrow> begin_input \<Rightarrow>
   ('p wf_db, step_replay_result) prog" where
  "beginStep sha clock env input =
     bindP (liftE (nowIso clock (b_now input))) (\<lambda>now.
     bindP (liftE (opt_hash (b_inputHash input))) (\<lambda>inputHash.
     bindP (reads (\<lambda>db. step_of db (b_runId input) (b_idempotencyKey input))) (\<lambda>existing.
     case existing of
       Some r \<Rightarrow> claim_existing sha env input inputHash now r
     | None \<Rightarrow>
         bindP (gap env 0) (\<lambda>_.
         bindP (step_insert (fresh_step input inputHash now)) (\<lambda>inserted.
         case inserted of
           Some r \<Rightarrow> ret (replay_result False r)
         | None \<Rightarrow>
             bindP (gap env 1) (\<lambda>_.
             bindP (reads (\<lambda>db. step_of db (b_runId input) (b_idempotencyKey input))) (\<lambda>claimed.
             case claimed of
               None \<Rightarrow> raise (ForesiftError CONTRACT_INVARIANT_VIOLATED)
             | Some r \<Rightarrow> claim_existing sha env input inputHash now r)))))))"

section \<open>Checkpoints\<close>

record checkpoint_input =
  c_runId :: string
  c_idempotencyKey :: string
  c_status :: step_status
  c_outputHash :: "string option"
  c_errorClass :: "retry_error_class option"
  c_retryable :: "bool option"
  c_now :: "iso option"
  c_lease :: "lease_fence option"

definition checkpoint_set ::
  "step_status \<Rightarrow> string option \<Rightarrow> retry_error_class option \<Rightarrow> bool option \<Rightarrow> instant \<Rightarrow> step_row \<Rightarrow> step_row" where
  "checkpoint_set target outputHash errorClass retryable now r = r\<lparr>
     s_status := target, s_output_hash := outputHash, s_error_class := errorClass,
     s_retryable := retryable, s_completed_at := Some now\<rparr>"

text \<open>\<open>input.retryable ?? (errorClass === null ? null : isRetryable(retryPolicyFor(errorClass)))\<close>\<close>

definition retryable_column :: "bool option \<Rightarrow> retry_error_class option \<Rightarrow> bool option res" where
  "retryable_column retryable errorClass =
     (case retryable of
        Some b \<Rightarrow> Inr (Some b)
      | None \<Rightarrow> (case errorClass of
            None \<Rightarrow> Inr None
          | Some c \<Rightarrow> bindE (retryPolicyFor (Some (retry_error_class_text c))) (\<lambda>p. Inr (Some (isRetryable p)))))"

definition checkpointStep ::
  "(string \<Rightarrow> string) \<Rightarrow> instant \<Rightarrow> (nat \<Rightarrow> 'p wf_db \<Rightarrow> 'p wf_db) \<Rightarrow> checkpoint_input \<Rightarrow>
   ('p wf_db, step_row) prog" where
  "checkpointStep sha clock env input =
     bindP (liftE (parseStepStatus (Some (step_status_text (c_status input))))) (\<lambda>target.
     if target = Step_PENDING \<or> target = Step_RUNNING
     then raise (ForesiftError WF_STEP_TRANSITION_INVALID)
     else bindP (liftE (nowIso clock (c_now input))) (\<lambda>now.
          bindP (liftE (opt_hash (c_outputHash input))) (\<lambda>outputHash.
          if target = Step_SUCCEEDED \<and> outputHash = None
          then raise (ForesiftError WF_STEP_TRANSITION_INVALID)
          else bindP (liftE (retryable_column (c_retryable input) (c_errorClass input))) (\<lambda>retryable.
          bindP (reads (\<lambda>db. step_of db (c_runId input) (c_idempotencyKey input))) (\<lambda>existing.
          case existing of
            None \<Rightarrow> raise (ForesiftError WF_STEP_NOT_FOUND)
          | Some existing \<Rightarrow>
              bindP (liftE (assertStepTransition (s_status existing) target)) (\<lambda>_.
              bindP (fenced_write env 0 (c_runId input) (c_idempotencyKey input) (s_status existing)
                       (c_lease input)
                       (step_fence sha (c_lease input) (c_runId input) (s_step_type existing)) now
                       (checkpoint_set target outputHash (c_errorClass input) retryable now)) (\<lambda>row.
              liftE (mapRow row))))))))"

definition readStepCheckpoint :: "string \<Rightarrow> string \<Rightarrow> ('p wf_db, step_row option) prog" where
  "readStepCheckpoint runId key =
     bindP (reads (\<lambda>db. step_of db runId key)) (\<lambda>row.
     case row of
       None \<Rightarrow> ret None
     | Some r \<Rightarrow> bindP (liftE (mapRow r)) (\<lambda>r. ret (Some r)))"

section \<open>Idempotent execution\<close>

text \<open>
  The effect is any program on the store that returns an output hash or throws; it also stands
  for whatever other sessions do while it runs. \<open>clock i\<close> and \<open>env i\<close> belong to the \<open>i\<close>-th
  runtime call.
\<close>

definition success_checkpoint :: "begin_input \<Rightarrow> string \<Rightarrow> checkpoint_input" where
  "success_checkpoint input outputHash =
     \<lparr>c_runId = b_runId input, c_idempotencyKey = b_idempotencyKey input, c_status = Step_SUCCEEDED,
      c_outputHash = Some outputHash, c_errorClass = None, c_retryable = None,
      c_now = b_now input, c_lease = b_lease input\<rparr>"

definition failure_checkpoint :: "begin_input \<Rightarrow> retry_error_class \<Rightarrow> retry_policy \<Rightarrow> checkpoint_input" where
  "failure_checkpoint input errorClass policy =
     \<lparr>c_runId = b_runId input, c_idempotencyKey = b_idempotencyKey input,
      c_status = Step_FAILED_RETRYABLE, c_outputHash = None, c_errorClass = Some errorClass,
      c_retryable = Some (isRetryable policy), c_now = b_now input, c_lease = b_lease input\<rparr>"

text \<open>The two arms of the \<open>try\<close>: the effect with its checkpoint, and the recorded failure.\<close>

definition run_effect ::
  "(string \<Rightarrow> string) \<Rightarrow> (nat \<Rightarrow> instant) \<Rightarrow> (nat \<Rightarrow> nat \<Rightarrow> 'p wf_db \<Rightarrow> 'p wf_db) \<Rightarrow> begin_input \<Rightarrow>
   step_replay_result \<Rightarrow> ('p wf_db, string) prog \<Rightarrow> ('p wf_db, step_replay_result) prog" where
  "run_effect sha clock env input begun effect =
     bindP effect (\<lambda>outputHash.
     bindP (checkpointStep sha (clock 1) (env 1) (success_checkpoint input outputHash)) (\<lambda>_.
     ret \<lparr>rp_stepId = rp_stepId begun, rp_status = Step_SUCCEEDED, rp_attempt = rp_attempt begun,
          rp_inputHash = rp_inputHash begun, rp_outputHash = Some outputHash,
          rp_replayed = False, rp_executed = True\<rparr>))"

definition record_failure ::
  "(string \<Rightarrow> string) \<Rightarrow> (nat \<Rightarrow> instant) \<Rightarrow> (nat \<Rightarrow> nat \<Rightarrow> 'p wf_db \<Rightarrow> 'p wf_db) \<Rightarrow> begin_input \<Rightarrow>
   retry_error_class option \<Rightarrow> js_error \<Rightarrow> ('p wf_db, step_replay_result) prog" where
  "record_failure sha clock env input errorClassOnFailure error =
     (let errorClass = (case errorClassOnFailure of Some c \<Rightarrow> c | None \<Rightarrow> TIMEOUT_OR_5XX)
      in bindP (liftE (retryPolicyFor (Some (retry_error_class_text errorClass)))) (\<lambda>policy.
         bindP (checkpointStep sha (clock 2) (env 2) (failure_checkpoint input errorClass policy))
           (\<lambda>_. raise error)))"

definition runStepOnce ::
  "(string \<Rightarrow> string) \<Rightarrow> (nat \<Rightarrow> instant) \<Rightarrow> (nat \<Rightarrow> nat \<Rightarrow> 'p wf_db \<Rightarrow> 'p wf_db) \<Rightarrow> begin_input \<Rightarrow>
   retry_error_class option \<Rightarrow> ('p wf_db, string) prog \<Rightarrow> ('p wf_db, step_replay_result) prog" where
  "runStepOnce sha clock env input errorClassOnFailure effect =
     bindP (beginStep sha (clock 0) (env 0) input) (\<lambda>begun.
     if \<not> rp_executed begun then ret begun
     else tryP (run_effect sha clock env input begun effect)
               (record_failure sha clock env input errorClassOnFailure))"

section \<open>Pure parts\<close>

lemma mapRow_id [simp]: "mapRow r = Inr r"
  by (cases "s_error_class r")
    (simp_all add: mapRow_def parseStepStatus_def parseRetryErrorClass_def
      step_voc.parse_roundtrip errclass_voc.parse_roundtrip)

lemma parse_step_text [simp]: "parseStepStatus (Some (step_status_text s)) = Inr s"
  by (simp add: parseStepStatus_def step_voc.parse_roundtrip)

lemma opt_hash_ok: "opt_hash h = Inr v \<longleftrightarrow> v = h \<and> pred_option HASH_PATTERN h"
  by (cases h) (auto simp: opt_hash_def assertHash_def)

lemma nowIso_ok: "nowIso clock input = Inr now \<longleftrightarrow> (input = None \<and> now = clock \<or> input = Some (Some now))"
  by (auto simp: nowIso_def split: option.splits)

lemma fence_ok_iff:
  assumes "leases_ok db"
  shows "fence_ok token key now db \<longleftrightarrow>
    (case token of Some t \<Rightarrow> current_token db key = Some t | None \<Rightarrow> \<not> isLive now key db)"
  using holds_lease [OF assms, of key]
  by (auto simp: fence_ok_def isLive_def filter_empty_conv split: option.splits)

section \<open>History of the step table\<close>

text \<open>
  What a step row may become, whoever writes: it keeps its identity, attempts are never taken
  back, the status moves along the transition table (a \<open>RUNNING\<close> row may be reclaimed), and a
  terminal row stays exactly as recorded.
\<close>

definition terminal :: "step_status \<Rightarrow> bool" where
  "terminal s \<longleftrightarrow> ALLOWED_STEP_TRANSITIONS s = []"

definition step_moves :: "step_status \<Rightarrow> step_status \<Rightarrow> bool" where
  "step_moves s t \<longleftrightarrow> (\<lambda>a b. b \<in> set (ALLOWED_STEP_TRANSITIONS a))\<^sup>*\<^sup>* s t"

definition step_progress :: "step_row \<Rightarrow> step_row \<Rightarrow> bool" where
  "step_progress r r' \<longleftrightarrow>
     s_step_id r' = s_step_id r \<and> s_run_id r' = s_run_id r \<and> s_step_type r' = s_step_type r \<and>
     s_idempotency_key r' = s_idempotency_key r \<and> s_attempt r \<le> s_attempt r' \<and>
     step_moves (s_status r) (s_status r') \<and> (terminal (s_status r) \<longrightarrow> r' = r)"

definition steps_evolve :: "'p wf_db \<Rightarrow> 'p wf_db \<Rightarrow> bool" where
  "steps_evolve db db' \<longleftrightarrow>
     (keys_distinct step_key (steps db) \<longrightarrow> keys_distinct step_key (steps db')) \<and>
     (\<forall>run key r. step_of db run key = Some r \<longrightarrow>
        (\<exists>r'. step_of db' run key = Some r' \<and> step_progress r r'))"

lemma terminal_iff: "terminal s \<longleftrightarrow> s \<in> {Step_SUCCEEDED, Step_FAILED_EXHAUSTED, Step_SKIPPED_POLICY}"
  by (cases s) (simp_all add: terminal_def)

lemma step_progress_refl [simp]: "step_progress r r"
  by (simp add: step_progress_def step_moves_def)

lemma step_progress_trans: "step_progress a b \<Longrightarrow> step_progress b c \<Longrightarrow> step_progress a c"
  by (auto simp: step_progress_def step_moves_def)

interpretation step_history: rely_guarantee steps_evolve
proof unfold_locales
  fix s t u :: "'p wf_db"
  show "steps_evolve s s" unfolding steps_evolve_def by (auto intro: step_progress_refl)
  show "steps_evolve s t \<Longrightarrow> steps_evolve t u \<Longrightarrow> steps_evolve s u"
    unfolding steps_evolve_def by (meson step_progress_trans)
qed

lemma steps_evolve_same [simp]: "steps db' = steps db \<Longrightarrow> steps_evolve db db'"
  by (simp add: steps_evolve_def)

lemma step_insert_evolves: "guarantees steps_evolve (step_insert row)"
  by (auto simp: guarantees_def step_insert_def steps_evolve_def)

lemma step_update_evolves:
  assumes "\<And>r. s_status r = status \<Longrightarrow> step_progress r (f r)"
    and "\<And>r. s_run_id (f r) = s_run_id r \<and> s_idempotency_key (f r) = s_idempotency_key r"
  shows "guarantees steps_evolve (step_update runId key status fence now f)"
  unfolding guarantees_def
proof
  fix db :: "'p wf_db"
  obtain res db' where run: "step_update runId key status fence now f db = (res, db')" by fastforce
  then have "steps_evolve db db'"
    unfolding step_update_def
  proof (cases rule: update_stmt_cases)
    case (check r)
    then show ?thesis by simp
  next
    case updated
    then show ?thesis using assms by (auto simp: steps_evolve_def row_by_update)
  qed
  with run show "steps_evolve db (snd (step_update runId key status fence now f db))" by simp
qed

lemma stepWriteRefusal_reads [simp]: "snd (stepWriteRefusal fence key now db) = db"
  by (simp add: stepWriteRefusal_def Let_def)

lemma refusal_evolves [simp]: "guarantees steps_evolve (stepWriteRefusal fence key now)"
  by (simp add: guarantees_def)

lemma keeps_key [simp]:
  "s_run_id (reclaim input h now r) = s_run_id r"
  "s_idempotency_key (reclaim input h now r) = s_idempotency_key r"
  "s_run_id (checkpoint_set target out c b now r) = s_run_id r"
  "s_idempotency_key (checkpoint_set target out c b now r) = s_idempotency_key r"
  by (simp_all add: reclaim_def checkpoint_set_def)

lemma reclaim_progress:
  "s_status r \<in> {Step_PENDING, Step_RUNNING, Step_FAILED_RETRYABLE} \<Longrightarrow>
     step_progress r (reclaim input h now r)"
  by (auto simp: step_progress_def reclaim_def terminal_def step_moves_def intro: r_into_rtranclp)

lemma checkpoint_progress:
  "target \<in> set (ALLOWED_STEP_TRANSITIONS (s_status r)) \<Longrightarrow>
     step_progress r (checkpoint_set target out c b now r)"
  by (auto simp: step_progress_def checkpoint_set_def terminal_def step_moves_def)

lemma fenced_write_evolves:
  assumes "\<And>i db. steps_evolve db (env i db)" and "\<And>r. s_status r = status \<Longrightarrow> step_progress r (f r)"
    and "\<And>r. s_run_id (f r) = s_run_id r \<and> s_idempotency_key (f r) = s_idempotency_key r"
  shows "guarantees steps_evolve (fenced_write env i runId key status lease fence now f)"
  unfolding fenced_write_def
  using assms by (auto intro!: step_history.g_bindP step_history.g_gap step_update_evolves
      split: list.splits)

lemma claim_existing_evolves:
  assumes "\<And>i db. steps_evolve db (env i db)"
  shows "guarantees steps_evolve (claim_existing sha env input inputHash now existing)"
proof -
  have w: "status \<in> {Step_PENDING, Step_RUNNING, Step_FAILED_RETRYABLE} \<Longrightarrow>
    guarantees steps_evolve (fenced_write env i runId key status lease fence now (reclaim input h now))"
    for i runId key status lease fence h
    by (rule fenced_write_evolves [OF assms]) (auto intro: reclaim_progress)
  show ?thesis
    unfolding claim_existing_def Let_def
    by (cases "s_status existing") (auto intro!: step_history.g_bindP w)
qed

lemma beginStep_evolves:
  assumes "\<And>i db. steps_evolve db (env i db)"
  shows "guarantees steps_evolve (beginStep sha clock env input)"
  unfolding beginStep_def
  using assms by (auto intro!: step_history.g_bindP step_history.g_gap claim_existing_evolves
      step_insert_evolves split: option.splits)

lemma checkpointStep_evolves:
  assumes "\<And>i db. steps_evolve db (env i db)"
  shows "guarantees steps_evolve (checkpointStep sha clock env input)"
proof -
  have w: "assertStepTransition status target = Inr u \<Longrightarrow>
    guarantees steps_evolve (fenced_write env i runId key status lease fence now (checkpoint_set target out c b now))"
    for i runId key status lease fence target u out c b now
    by (rule fenced_write_evolves [OF assms])
      (auto intro: checkpoint_progress simp: assertStepTransition_def)
  show ?thesis
    unfolding checkpointStep_def Let_def
    by (auto intro!: step_history.g_bindP_liftE step_history.g_bindP w split: option.splits)
qed

lemma runStepOnce_evolves:
  assumes "\<And>i j db. steps_evolve db (env i j db)" and "guarantees steps_evolve effect"
  shows "guarantees steps_evolve (runStepOnce sha clock env input c effect)"
  unfolding runStepOnce_def run_effect_def record_failure_def Let_def
  using assms by (auto intro!: step_history.g_bindP step_history.g_tryP beginStep_evolves
      checkpointStep_evolves)

section \<open>Outcomes\<close>

lemma steps_update_id: "g (steps db) = steps db \<Longrightarrow> steps_update g db = db"
  by (cases db) simp

lemma step_update_row:
  assumes "keys_distinct step_key (steps db)"
  shows "step_update runId key status fence now f db =
    (case step_of db runId key of
       None \<Rightarrow> (Inr [], db)
     | Some r \<Rightarrow>
         if \<not> (s_status r = status \<and> fence_ok (fst fence) (snd fence) now db) then (Inr [], db)
         else if \<not> step_checks (f r) then (Inl SqlError, db)
         else (Inr [f r], steps_update (sql_update (\<lambda>r. step_key r = (runId, key) \<and>
                s_status r = status \<and> fence_ok (fst fence) (snd fence) now db) f) db))"
  unfolding step_update_def
  by (rule update_stmt_row [where q = "\<lambda>r. s_status r = status \<and> fence_ok (fst fence) (snd fence) now db"])
    (auto simp: assms steps_update_id)

lemma step_update_lookup:
  assumes "\<And>r. s_run_id (f r) = s_run_id r \<and> s_idempotency_key (f r) = s_idempotency_key r"
    and "step_of db runId key = Some r" and "q r"
  shows "step_of (steps_update (sql_update (\<lambda>r. step_key r = (runId, key) \<and> q r) f) db) runId key = Some (f r)"
  using assms by (auto simp: row_by_update dest: row_by_SomeD)

text \<open>A claim or checkpoint that goes through, in the store its statement ran in.\<close>

lemma step_update_ok:
  assumes "step_update runId key status fence now f db = (Inr (row # rest), db')"
    and "keys_distinct step_key (steps db)"
    and "\<And>r. s_run_id (f r) = s_run_id r \<and> s_idempotency_key (f r) = s_idempotency_key r"
  obtains r where "step_of db runId key = Some r" and "s_status r = status"
    and "fence_ok (fst fence) (snd fence) now db" and "row = f r" and "step_checks row"
    and "step_of db' runId key = Some row" and "step_leases db' = step_leases db"
proof -
  let ?q = "\<lambda>r. s_status r = status \<and> fence_ok (fst fence) (snd fence) now db"
  from assms(1) obtain r where r: "step_of db runId key = Some r" "?q r" "row = f r" "step_checks row"
    and db': "db' = steps_update (sql_update (\<lambda>r. step_key r = (runId, key) \<and> ?q r) f) db"
    unfolding step_update_row [OF assms(2)] by (auto split: option.splits if_splits)
  have "step_of db' runId key = Some (f r)"
    unfolding db' by (rule step_update_lookup [where q = ?q, OF assms(3) r(1,2)])
  with r db' show thesis by (intro that [of r]) simp_all
qed

lemma evolve_keys: "steps_evolve db db' \<Longrightarrow> keys_distinct step_key (steps db) \<Longrightarrow> keys_distinct step_key (steps db')"
  by (simp add: steps_evolve_def)

lemma evolve_terminal:
  "steps_evolve db db' \<Longrightarrow> step_of db run key = Some r \<Longrightarrow> terminal (s_status r) \<Longrightarrow>
     step_of db' run key = Some r"
  unfolding steps_evolve_def step_progress_def by blast

lemma fenced_write_ok:
  assumes "fenced_write env i runId key status lease fence now f db = (Inr row, db')"
    and "keys_distinct step_key (steps (env i db))"
    and "\<And>r. s_run_id (f r) = s_run_id r \<and> s_idempotency_key (f r) = s_idempotency_key r"
  obtains r where "step_of (env i db) runId key = Some r" and "s_status r = status"
    and "fence_ok (fst fence) (snd fence) now (env i db)" and "row = f r" and "step_checks row"
    and "step_of db' runId key = Some row" and "step_leases db' = step_leases (env i db)"
proof -
  from assms(1) obtain rows d where "step_update runId key status fence now f (env i db) = (Inr rows, d)"
    and "(case rows of row # _ \<Rightarrow> ret row
          | [] \<Rightarrow> bindP (gap env (Suc i)) (\<lambda>_. bindP (stepWriteRefusal lease (snd fence) now) raise)) d
        = (Inr row, db')"
    unfolding fenced_write_def by (auto simp: bindP_eq_Inr)
  then obtain rest where "step_update runId key status fence now f (env i db) = (Inr (row # rest), db')"
    by (cases rows) (auto simp: bindP_eq_Inr)
  then show thesis using assms(2,3) by (rule step_update_ok) (rule that)
qed

lemma fenced_write_refused:
  assumes "leases_ok (env i db)" and "leases_ok (env (Suc i) (env i db))"
    and "keys_distinct step_key (steps (env i db))"
    and "current_token (env i db) (f_resourceKey l) \<noteq> Some (f_fencingToken l)"
    and "current_token (env (Suc i) (env i db)) (f_resourceKey l) \<noteq> Some (f_fencingToken l)"
  shows "fenced_write env i runId key status (Some l) (step_fence sha (Some l) run2 ty) now f db =
    (Inl (ForesiftError LEASE_FENCING_TOKEN_STALE), env (Suc i) (env i db))"
  using assms holds_lease [OF assms(2), of "f_resourceKey l" "f_fencingToken l"]
  by (auto simp: fenced_write_def step_update_row fence_ok_iff step_fence_def fenceParams_def
      stepWriteRefusal_def bindP_run gap_def split: option.splits)

lemma checkpointStep_ok:
  assumes "checkpointStep sha clock env input db = (Inr row, db')"
  obtains existing now b where "step_of db (c_runId input) (c_idempotencyKey input) = Some existing"
    and "c_status input \<in> set (ALLOWED_STEP_TRANSITIONS (s_status existing))"
    and "c_status input \<notin> {Step_PENDING, Step_RUNNING}"
    and "c_status input = Step_SUCCEEDED \<Longrightarrow> c_outputHash input \<noteq> None"
    and "nowIso clock (c_now input) = Inr now"
    and "fenced_write env 0 (c_runId input) (c_idempotencyKey input) (s_status existing) (c_lease input)
           (step_fence sha (c_lease input) (c_runId input) (s_step_type existing)) now
           (checkpoint_set (c_status input) (c_outputHash input) (c_errorClass input) b now) db = (Inr row, db')"
  using assms that
  by (auto simp: checkpointStep_def bindP_liftE opt_hash_ok assertStepTransition_def bindP_eq_Inr
      split: sum.splits if_splits option.splits)

text \<open>What a successful claim saw and did.\<close>

lemma claim_existing_ok:
  assumes "claim_existing sha env input h now existing db = (Inr res, db')"
    and "keys_distinct step_key (steps (env 2 db))"
  obtains (replayed) "s_status existing = Step_SUCCEEDED" and "res = replay_result True existing" and "db' = db"
    | (claimed) r where "s_status existing \<in> {Step_PENDING, Step_RUNNING, Step_FAILED_RETRYABLE}"
      and "step_of (env 2 db) (b_runId input) (b_idempotencyKey input) = Some r"
      and "s_status r = s_status existing"
      and "let f = step_fence sha (b_lease input) (b_runId input) (b_stepType input)
           in fence_ok (fst f) (snd f) now (env 2 db)"
      and "res = replay_result False (reclaim input h now r)"
      and "step_of db' (b_runId input) (b_idempotencyKey input) = Some (reclaim input h now r)"
proof (cases "s_status existing = Step_SUCCEEDED")
  case True
  then show thesis using assms(1) replayed by (auto simp: claim_existing_def split: if_splits)
next
  case False
  then have st: "s_status existing \<in> {Step_PENDING, Step_RUNNING, Step_FAILED_RETRYABLE}"
    using assms(1) by (cases "s_status existing") (auto simp: claim_existing_def split: if_splits)
  from False assms(1) obtain row where row: "res = replay_result False row"
    and w: "fenced_write env 2 (b_runId input) (b_idempotencyKey input) (s_status existing)
        (b_lease input) (step_fence sha (b_lease input) (b_runId input) (b_stepType input)) now
        (reclaim input h now) db = (Inr row, db')"
    by (auto simp: claim_existing_def Let_def bindP_liftE bindP_eq_Inr split: if_splits sum.splits)
  from w assms(2) show thesis
    by (rule fenced_write_ok) (use claimed st row in \<open>auto simp: Let_def\<close>)
qed

lemma beginStep_ok:
  assumes "beginStep sha clock env input db = (Inr res, db')"
  obtains (inserted) now where "step_of db (b_runId input) (b_idempotencyKey input) = None"
      and "nowIso clock (b_now input) = Inr now"
      and "step_insert (fresh_step input (b_inputHash input) now) (env 0 db) =
             (Inr (Some (fresh_step input (b_inputHash input) now)), db')"
      and "res = replay_result False (fresh_step input (b_inputHash input) now)"
    | (existing) now r d where "nowIso clock (b_now input) = Inr now"
      and "d = db \<or> d = env 1 (env 0 db)"
      and "step_of d (b_runId input) (b_idempotencyKey input) = Some r"
      and "claim_existing sha env input (b_inputHash input) now r d = (Inr res, db')"
proof -
  from assms obtain now where now: "nowIso clock (b_now input) = Inr now"
    by (auto simp: beginStep_def bindP_liftE split: sum.splits)
  have h: "opt_hash (b_inputHash input) = Inr (b_inputHash input)"
    using assms by (auto simp: beginStep_def bindP_liftE opt_hash_ok split: sum.splits)
  show thesis
  proof (cases "step_of db (b_runId input) (b_idempotencyKey input)")
    case (Some r)
    then show thesis using assms now h existing [of now db r] by (simp add: beginStep_def bindP_liftE)
  next
    case None
    obtain ins d where i: "step_insert (fresh_step input (b_inputHash input) now) (env 0 db) = (ins, d)"
      by fastforce
    show thesis
    proof (cases "ins = Inr None")
      case True
      then have "d = env 0 db" using i by (auto simp: step_insert_def split: if_splits)
      with True i None now h assms existing [of now "env 1 (env 0 db)"] show thesis
        by (auto simp: beginStep_def bindP_liftE bindP_run split: option.splits)
    next
      case False
      with i None now h assms show thesis
        by (intro inserted [of now])
          (auto simp: beginStep_def bindP_liftE bindP_run step_insert_def split: if_splits option.splits)
    qed
  qed
qed

lemma beginStep_row:
  assumes "beginStep sha clock env input db = (Inr res, db')"
    and "keys_distinct step_key (steps db)" and "\<And>i d. steps_evolve d (env i d)"
  obtains row where "step_of db' (b_runId input) (b_idempotencyKey input) = Some row"
    and "res = replay_result (\<not> rp_executed res) row"
    and "s_status row = (if rp_executed res then Step_RUNNING else Step_SUCCEEDED)"
  using assms(1)
proof (cases rule: beginStep_ok)
  case (inserted now)
  then have "step_of db' (b_runId input) (b_idempotencyKey input) = Some (fresh_step input (b_inputHash input) now)"
    by (auto simp: step_insert_def fresh_step_def split: if_splits)
  with inserted show thesis by (intro that) (auto simp: replay_result_def fresh_step_def)
next
  case (existing now r d)
  have "steps_evolve db d"
    using existing(2) assms(3) by (blast intro: step_history.R_refl step_history.R_trans)
  then have "keys_distinct step_key (steps (env 2 d))"
    using assms(2,3) evolve_keys by blast
  with existing(4) show thesis
  proof (cases rule: claim_existing_ok)
    case replayed
    with existing(3) show thesis by (intro that [of r]) (auto simp: replay_result_def)
  next
    case (claimed r')
    then show thesis by (intro that) (auto simp: replay_result_def reclaim_def)
  qed
qed

lemma replay_run:
  assumes "step_of db (b_runId input) (b_idempotencyKey input) = Some r" and "s_status r = Step_SUCCEEDED"
    and "nowIso (clock 0) (b_now input) = Inr now" and "pred_option HASH_PATTERN (b_inputHash input)"
    and "b_inputHash input = None \<or> s_input_hash r = None \<or> b_inputHash input = s_input_hash r"
  shows "runStepOnce sha clock env input c effect db = (Inr (replay_result True r), db)"
proof -
  have "opt_hash (b_inputHash input) = Inr (b_inputHash input)" using assms(4) by (simp add: opt_hash_ok)
  with assms have "beginStep sha (clock 0) (env 0) input db = (Inr (replay_result True r), db)"
    by (auto simp: beginStep_def bindP_liftE claim_existing_def)
  then show ?thesis by (simp add: runStepOnce_def bindP_run replay_result_def)
qed

lemma checkpoint_success_row:
  assumes "checkpointStep sha clock env input db = (Inr row, db')"
    and "keys_distinct step_key (steps (env 0 db))"
  shows "step_of db' (c_runId input) (c_idempotencyKey input) = Some row \<and>
    s_status row = c_status input \<and> s_output_hash row = c_outputHash input \<and>
    s_error_class row = c_errorClass input"
  using assms(1)
proof (rule checkpointStep_ok)
  fix existing now b
  assume "fenced_write env 0 (c_runId input) (c_idempotencyKey input) (s_status existing) (c_lease input)
      (step_fence sha (c_lease input) (c_runId input) (s_step_type existing)) now
      (checkpoint_set (c_status input) (c_outputHash input) (c_errorClass input) b now) db = (Inr row, db')"
  then show ?thesis using assms(2)
    by (rule fenced_write_ok) (auto simp: checkpoint_set_def)
qed

lemma record_failure_throws: "record_failure sha clock env input c e db \<noteq> (Inr x, db')"
  by (auto simp: record_failure_def Let_def bindP_eq_Inr)

lemma run_effect_ok:
  assumes "run_effect sha clock env input begun effect d = (Inr res, db')"
  obtains out e row where "effect d = (Inr out, e)" and "rp_outputHash res = Some out"
    and "checkpointStep sha (clock 1) (env 1) (success_checkpoint input out) e = (Inr row, db')"
  using assms by (auto simp: run_effect_def bindP_eq_Inr)

text \<open>A run that returns has left a \<open>SUCCEEDED\<close> row with the output hash it returned.\<close>

lemma runStepOnce_row:
  assumes run: "runStepOnce sha clock env input c effect db = (Inr res, db')"
    and keys: "keys_distinct step_key (steps db)"
    and env: "\<And>i j d. steps_evolve d (env i j d)" and eff: "guarantees steps_evolve effect"
  obtains row where "step_of db' (b_runId input) (b_idempotencyKey input) = Some row"
    and "s_status row = Step_SUCCEEDED" and "s_output_hash row = rp_outputHash res"
proof -
  from run obtain begun d where b: "beginStep sha (clock 0) (env 0) input db = (Inr begun, d)"
    by (auto simp: runStepOnce_def bindP_eq_Inr)
  from beginStep_row [OF b keys env] obtain row0 where
    row0: "step_of d (b_runId input) (b_idempotencyKey input) = Some row0"
      "begun = replay_result (\<not> rp_executed begun) row0"
      "s_status row0 = (if rp_executed begun then Step_RUNNING else Step_SUCCEEDED)" by blast
  show thesis
  proof (cases "rp_executed begun")
    case False
    then have "res = begun" "db' = d" using run b by (auto simp: runStepOnce_def bindP_run)
    moreover have "rp_outputHash begun = s_output_hash row0"
      by (subst row0(2)) (simp add: replay_result_def)
    ultimately show thesis using row0 False by (intro that [of row0]) auto
  next
    case True
    then have "run_effect sha clock env input begun effect d = (Inr res, db')"
      using run b by (auto simp: runStepOnce_def bindP_run tryP_eq_Inr record_failure_throws)
    then obtain out e row where o: "effect d = (Inr out, e)" "rp_outputHash res = Some out"
      and cp: "checkpointStep sha (clock 1) (env 1) (success_checkpoint input out) e = (Inr row, db')"
      by (rule run_effect_ok)
    have "steps_evolve db d"
      by (rule guaranteesD [OF beginStep_evolves b]) (rule env)
    moreover have "steps_evolve d e" using eff o(1) by (rule guaranteesD)
    ultimately have "keys_distinct step_key (steps (env 1 0 e))"
      using keys env [of e 1 0] by (blast dest: evolve_keys)
    from checkpoint_success_row [OF cp this] o(2) show thesis
      by (intro that [of row]) (auto simp: success_checkpoint_def)
  qed
qed

lemma stepOrderIndex_nth:
  "i < length WF_STANDARD_STEP_ORDER \<Longrightarrow> stepOrderIndex (WF_STANDARD_STEP_ORDER ! i) = int i"
proof -
  have d: "distinct WF_STANDARD_STEP_ORDER" by (simp add: WF_STANDARD_STEP_ORDER_def)
  assume "i < length WF_STANDARD_STEP_ORDER"
  then show ?thesis using map_of_zip_nth [OF _ d, of "[0..<length WF_STANDARD_STEP_ORDER]" i]
    by (simp add: stepOrderIndex_def STEP_ORDER_INDEX_def)
qed

lemma stepOrderIndex_known: "0 \<le> stepOrderIndex t \<longleftrightarrow> t \<in> set WF_STANDARD_STEP_ORDER"
proof
  assume "0 \<le> stepOrderIndex t"
  then show "t \<in> set WF_STANDARD_STEP_ORDER"
    by (auto simp: stepOrderIndex_def STEP_ORDER_INDEX_def split: option.splits
        dest!: map_of_SomeD set_zip_leftD)
next
  assume "t \<in> set WF_STANDARD_STEP_ORDER"
  then show "0 \<le> stepOrderIndex t" by (auto simp: in_set_conv_nth stepOrderIndex_nth)
qed

lemma order_loop_ok: "order_loop i cs = Inr () \<longleftrightarrow> (\<forall>c \<in> set cs. 0 \<le> stepOrderIndex c \<and> stepOrderIndex c \<le> i)"
  by (induction cs) (auto simp: Let_def)

lemma assertStepOrder_ok:
  "assertStepOrder t cs = Inr () \<longleftrightarrow> t \<in> set WF_STANDARD_STEP_ORDER \<and>
     (\<forall>c \<in> set cs. c \<in> set WF_STANDARD_STEP_ORDER \<and> stepOrderIndex c \<le> stepOrderIndex t)"
  by (auto simp: assertStepOrder_def Let_def order_loop_ok simp flip: stepOrderIndex_known)

section \<open>Properties\<close>

text \<open>
  C6 (run_step_once_durable). Exactly-once results: when \<open>runStepOnce\<close> returns, the step row is
  \<open>SUCCEEDED\<close> and records the output hash that was returned; and in every later store, whatever
  other workers do to the step table in the meantime, every further \<open>runStepOnce\<close> under the same
  run and idempotency key (with no or the same input hash) returns the recorded output without
  running its effect and without a write. Other sessions may commit between all statements.
\<close>

theorem run_step_once_durable:
  assumes "runStepOnce sha clock env input c effect db = (Inr res, db')"
    and "keys_distinct step_key (steps db)"
    and "\<And>i j d. steps_evolve d (env i j d)" and "guarantees steps_evolve effect"
  shows "\<exists>row. step_of db' (b_runId input) (b_idempotencyKey input) = Some row \<and>
    s_status row = Step_SUCCEEDED \<and> s_output_hash row = rp_outputHash res \<and>
    (\<forall>db'' input' clock' env' c' effect' now.
       steps_evolve db' db'' \<and> b_runId input' = b_runId input \<and>
       b_idempotencyKey input' = b_idempotencyKey input \<and> nowIso (clock' 0) (b_now input') = Inr now \<and>
       (b_inputHash input' = None \<or>
        b_inputHash input' = s_input_hash row \<and> pred_option HASH_PATTERN (b_inputHash input')) \<longrightarrow>
       runStepOnce sha clock' env' input' c' effect' db'' = (Inr (replay_result True row), db''))"
proof -
  obtain row where row: "step_of db' (b_runId input) (b_idempotencyKey input) = Some row"
    "s_status row = Step_SUCCEEDED" "s_output_hash row = rp_outputHash res"
    using runStepOnce_row [OF assms] by blast
  have "runStepOnce sha clock' env' input' c' effect' db'' = (Inr (replay_result True row), db'')"
    if "steps_evolve db' db''" "b_runId input' = b_runId input"
      "b_idempotencyKey input' = b_idempotencyKey input" "nowIso (clock' 0) (b_now input') = Inr now"
      "b_inputHash input' = None \<or>
        b_inputHash input' = s_input_hash row \<and> pred_option HASH_PATTERN (b_inputHash input')"
    for db'' input' clock' env' c' effect' now
    using that row(2) evolve_terminal [OF that(1) row(1)]
    by (intro replay_run) (auto simp: terminal_iff)
  with row show ?thesis by blast
qed

text \<open>A store with one run and no step yet; a worker on it that meets no interference.\<close>

definition demo_hash :: string where
  "demo_hash = ''sha256:'' @ replicate 64 (CHR ''a'')"

definition demo_run :: run_row where
  "demo_run = \<lparr>r_run_id = ''r1'', r_schedule_id = ''s1'', r_resolved_schedule_version = ''v1'',
     r_inbox_id = ''i1'', r_trigger_source = ''q'', r_trigger_external_message_id = ''m'',
     r_trigger_canonical_external_message_id = ''m'', r_concurrency_policy = SKIP_IF_RUNNING,
     r_concurrency_outcome = SKIP_IF_RUNNING, r_shadow = False, r_status = Run_RUNNING,
     r_deadline = 100000, r_started_at = Some 0, r_completed_at = None\<rparr>"

definition demo_db :: "unit wf_db" where
  "demo_db = empty_db\<lparr>runs := [demo_run]\<rparr>"

definition demo_begin :: begin_input where
  "demo_begin = \<lparr>b_runId = ''r1'', b_stepType = ''discover_candidates'', b_idempotencyKey = ''k1'',
     b_inputHash = None, b_leaseOwner = None, b_leaseVersion = None, b_leaseExpiresAt = None,
     b_now = None, b_stepId = None, b_lease = None\<rparr>"

definition demo_row :: step_row where
  "demo_row = \<lparr>s_step_id = ''wfs_r1_k1'', s_run_id = ''r1'', s_step_type = ''discover_candidates'',
     s_idempotency_key = ''k1'', s_attempt = 1, s_input_hash = None, s_output_hash = Some demo_hash,
     s_status = Step_SUCCEEDED, s_lease_owner = None, s_lease_version = 0, s_lease_expires_at = None,
     s_started_at = Some 5, s_completed_at = Some 9, s_error_class = None, s_retryable = None\<rparr>"

definition demo_clock :: "nat \<Rightarrow> instant" where
  "demo_clock i = (if i = 0 then 5 else 9)"

definition no_sha :: "string \<Rightarrow> string" where
  "no_sha t = replicate 64 (CHR ''0'')"

lemma HASH_PATTERN_demo [simp]: "HASH_PATTERN demo_hash"
  unfolding demo_hash_def by (rule HASH_PATTERN_sha256) (simp_all add: list_all_iff hex_digit_def)

lemma demo_step_run:
  "runStepOnce no_sha demo_clock (\<lambda>_ _ d. d) demo_begin None (ret demo_hash) demo_db =
     (Inr \<lparr>rp_stepId = ''wfs_r1_k1'', rp_status = Step_SUCCEEDED, rp_attempt = 1, rp_inputHash = None,
           rp_outputHash = Some demo_hash, rp_replayed = False, rp_executed = True\<rparr>,
      demo_db\<lparr>steps := [demo_row]\<rparr>)"
proof -
  let ?r = "demo_row\<lparr>s_status := Step_RUNNING, s_output_hash := None, s_completed_at := None\<rparr>"
  have b: "beginStep no_sha 5 (\<lambda>_ d. d) demo_begin demo_db =
      (Inr (replay_result False ?r), demo_db\<lparr>steps := [?r]\<rparr>)"
    by (simp add: beginStep_def bindP_run nowIso_def opt_hash_def demo_begin_def demo_db_def empty_db_def
        step_insert_def step_checks_def int4_def fresh_step_def demo_run_def demo_row_def)
  have c: "checkpointStep no_sha 9 (\<lambda>_ d. d) (success_checkpoint demo_begin demo_hash)
      (demo_db\<lparr>steps := [?r]\<rparr>) = (Inr demo_row, demo_db\<lparr>steps := [demo_row]\<rparr>)"
    by (simp add: checkpointStep_def success_checkpoint_def bindP_run nowIso_def opt_hash_def assertHash_def
        retryable_column_def demo_begin_def demo_db_def empty_db_def demo_row_def assertStepTransition_def
        fenced_write_def step_fence_def fenceParams_def step_update_def update_stmt_def fence_ok_def
        checkpoint_set_def step_checks_def int4_def del: step_status_text.simps)
  show ?thesis
    using b c by (simp add: runStepOnce_def bindP_run tryP_def run_effect_def demo_clock_def
        replay_result_def demo_row_def)
qed

theorem run_step_once_durable_witness:
  "runStepOnce no_sha demo_clock (\<lambda>_ _ d. d) demo_begin None (raise TypeError) (demo_db\<lparr>steps := [demo_row]\<rparr>) =
     (Inr (replay_result True demo_row), demo_db\<lparr>steps := [demo_row]\<rparr>)"
proof -
  have "keys_distinct step_key (steps demo_db)" by (simp add: demo_db_def empty_db_def keys_distinct_def)
  from run_step_once_durable [OF demo_step_run this] obtain row where
    row: "step_of (demo_db\<lparr>steps := [demo_row]\<rparr>) ''r1'' ''k1'' = Some row" and
    again: "\<And>db'' input' clock' env' c' effect' now.
       steps_evolve (demo_db\<lparr>steps := [demo_row]\<rparr>) db'' \<and> b_runId input' = b_runId demo_begin \<and>
       b_idempotencyKey input' = b_idempotencyKey demo_begin \<and> nowIso (clock' 0) (b_now input') = Inr now \<and>
       (b_inputHash input' = None \<or>
        b_inputHash input' = s_input_hash row \<and> pred_option HASH_PATTERN (b_inputHash input')) \<Longrightarrow>
       runStepOnce no_sha clock' env' input' c' effect' db'' = (Inr (replay_result True row), db'')"
    by (auto simp: guarantees_def demo_begin_def)
  have "row = demo_row" using row by (simp add: demo_row_def)
  then show ?thesis
    using again [of "demo_db\<lparr>steps := [demo_row]\<rparr>" demo_begin demo_clock 5 "\<lambda>_ _ d. d" None "raise TypeError"]
    by (simp add: demo_begin_def nowIso_def demo_clock_def)
qed

text \<open>
  Step history is append-only in the sense of the transition table,
  under any interference that respects it: \<open>beginStep\<close>, \<open>checkpointStep\<close> and \<open>runStepOnce\<close> keep
  every row's identity, never lower its attempt count, move its status only along the table,
  and leave \<open>SUCCEEDED\<close>, \<open>FAILED_EXHAUSTED\<close> and \<open>SKIPPED_POLICY\<close> rows exactly as recorded.
\<close>

theorem step_history_preserved:
  assumes "\<And>i j d. steps_evolve d (env i j d)" and "guarantees steps_evolve effect"
  shows "steps_evolve db (snd (beginStep sha t (env 0) bi db)) \<and>
    steps_evolve db (snd (checkpointStep sha t (env 0) ci db)) \<and>
    steps_evolve db (snd (runStepOnce sha clock env bi c effect db))"
proof -
  have "guarantees steps_evolve (beginStep sha t (env 0) bi)"
    by (rule beginStep_evolves) (rule assms(1))
  moreover have "guarantees steps_evolve (checkpointStep sha t (env 0) ci)"
    by (rule checkpointStep_evolves) (rule assms(1))
  moreover have "guarantees steps_evolve (runStepOnce sha clock env bi c effect)"
    by (rule runStepOnce_evolves) (rule assms)+
  ultimately show ?thesis by (simp add: guarantees_def)
qed

theorem step_history_preserved_witness:
  "steps_evolve demo_db (snd (runStepOnce no_sha demo_clock (\<lambda>_ _ d. d) demo_begin None (ret demo_hash) demo_db))"
  using step_history_preserved [of "\<lambda>_ _ d. d" "ret demo_hash" demo_db no_sha 0 demo_begin undefined demo_clock None]
  by (simp add: guarantees_def)

text \<open>
  A checkpoint that commits did so on a row that, at the moment of
  its statement, was in a status the transition table lets move to the recorded one, and behind
  the fence: the presented token was the current token of its resource key, or, with no token
  presented, no live lease existed for the step's own key. The stored row is exactly the
  checkpointed one, and a \<open>SUCCEEDED\<close> row carries a sha256 output hash.
\<close>

theorem checkpoint_commit_sound:
  assumes "checkpointStep sha clock env input db = (Inr row, db')"
    and "keys_distinct step_key (steps (env 0 db))" and "leases_ok (env 0 db)"
  shows "\<exists>r existing now b. step_of db (c_runId input) (c_idempotencyKey input) = Some existing \<and>
    step_of (env 0 db) (c_runId input) (c_idempotencyKey input) = Some r \<and>
    c_status input \<in> set (ALLOWED_STEP_TRANSITIONS (s_status r)) \<and>
    row = checkpoint_set (c_status input) (c_outputHash input) (c_errorClass input) b now r \<and>
    step_of db' (c_runId input) (c_idempotencyKey input) = Some row \<and>
    (s_status row = Step_SUCCEEDED \<longrightarrow> (\<exists>h. s_output_hash row = Some h \<and> HASH_PATTERN h)) \<and>
    (case c_lease input of
       Some f \<Rightarrow> current_token (env 0 db) (f_resourceKey f) = Some (f_fencingToken f)
     | None \<Rightarrow> \<not> isLive now (resourceKeyHash sha (c_runId input) (s_step_type existing)) (env 0 db))"
  using assms(1)
proof (rule checkpointStep_ok)
  fix existing now b
  assume pre: "step_of db (c_runId input) (c_idempotencyKey input) = Some existing"
    "c_status input \<in> set (ALLOWED_STEP_TRANSITIONS (s_status existing))"
    "c_status input = Step_SUCCEEDED \<Longrightarrow> c_outputHash input \<noteq> None"
  assume "fenced_write env 0 (c_runId input) (c_idempotencyKey input) (s_status existing) (c_lease input)
      (step_fence sha (c_lease input) (c_runId input) (s_step_type existing)) now
      (checkpoint_set (c_status input) (c_outputHash input) (c_errorClass input) b now) db = (Inr row, db')"
  then obtain r where r: "step_of (env 0 db) (c_runId input) (c_idempotencyKey input) = Some r"
      "s_status r = s_status existing" "row = checkpoint_set (c_status input) (c_outputHash input) (c_errorClass input) b now r"
      "step_checks row" "step_of db' (c_runId input) (c_idempotencyKey input) = Some row"
    and f: "fence_ok (fst (step_fence sha (c_lease input) (c_runId input) (s_step_type existing)))
        (snd (step_fence sha (c_lease input) (c_runId input) (s_step_type existing))) now (env 0 db)"
    using assms(2) by (rule fenced_write_ok) auto
  have hash: "s_status row = Step_SUCCEEDED \<longrightarrow> (\<exists>h. s_output_hash row = Some h \<and> HASH_PATTERN h)"
    using r(3,4) pre(3) by (auto simp: checkpoint_set_def step_checks_def)
  have fence: "case c_lease input of
       Some f \<Rightarrow> current_token (env 0 db) (f_resourceKey f) = Some (f_fencingToken f)
     | None \<Rightarrow> \<not> isLive now (resourceKeyHash sha (c_runId input) (s_step_type existing)) (env 0 db)"
    using f by (auto simp: fence_ok_iff [OF assms(3)] step_fence_def fenceParams_def
        stepLeaseResourceKey_def split: option.splits)
  have allowed: "c_status input \<in> set (ALLOWED_STEP_TRANSITIONS (s_status r))"
    using pre(2) r(2) by simp
  show ?thesis
    by (rule exI [of _ r], rule exI [of _ existing], rule exI [of _ now], rule exI [of _ b])
      (intro conjI pre(1) r(1,3,5) allowed hash fence)
qed

theorem checkpoint_commit_sound_witness:
  "\<exists>r. step_of (demo_db\<lparr>steps := [demo_row\<lparr>s_status := Step_RUNNING\<rparr>]\<rparr>) ''r1'' ''k1'' = Some r \<and>
     Step_SUCCEEDED \<in> set (ALLOWED_STEP_TRANSITIONS (s_status r)) \<and>
     (\<exists>now. \<not> isLive now (resourceKeyHash no_sha ''r1'' ''discover_candidates'') demo_db)"
proof -
  let ?db = "demo_db\<lparr>steps := [demo_row\<lparr>s_status := Step_RUNNING\<rparr>]\<rparr>"
  have "checkpointStep no_sha 9 (\<lambda>_ d. d) (success_checkpoint demo_begin demo_hash) ?db =
      (Inr demo_row, demo_db\<lparr>steps := [demo_row]\<rparr>)"
    by (simp add: checkpointStep_def success_checkpoint_def bindP_run nowIso_def opt_hash_def assertHash_def
        retryable_column_def demo_begin_def demo_db_def empty_db_def demo_row_def assertStepTransition_def
        fenced_write_def step_fence_def fenceParams_def step_update_def update_stmt_def fence_ok_def
        checkpoint_set_def step_checks_def int4_def del: step_status_text.simps)
  from checkpoint_commit_sound [OF this] show ?thesis
    by (fastforce simp: demo_db_def empty_db_def keys_distinct_def leases_ok_def success_checkpoint_def
        demo_begin_def demo_row_def isLive_def)
qed

lemma stale_fence_refused:
  assumes "c_lease input = Some l" and "c_status input \<notin> {Step_PENDING, Step_RUNNING}"
    and "pred_option HASH_PATTERN (c_outputHash input)"
    and "c_status input = Step_SUCCEEDED \<Longrightarrow> c_outputHash input \<noteq> None"
    and "nowIso clock (c_now input) = Inr now"
    and "step_of db (c_runId input) (c_idempotencyKey input) = Some existing"
    and "c_status input \<in> set (ALLOWED_STEP_TRANSITIONS (s_status existing))"
    and "keys_distinct step_key (steps (env 0 db))"
    and "leases_ok (env 0 db)" and "leases_ok (env 1 (env 0 db))"
    and "current_token (env 0 db) (f_resourceKey l) \<noteq> Some (f_fencingToken l)"
    and "current_token (env 1 (env 0 db)) (f_resourceKey l) \<noteq> Some (f_fencingToken l)"
  shows "checkpointStep sha clock env input db =
    (Inl (ForesiftError LEASE_FENCING_TOKEN_STALE), env 1 (env 0 db))"
proof -
  obtain b where b: "retryable_column (c_retryable input) (c_errorClass input) = Inr b"
    by (cases "c_retryable input"; cases "c_errorClass input") (auto simp: retryable_column_def)
  have h: "opt_hash (c_outputHash input) = Inr (c_outputHash input)" using assms(3) by (simp add: opt_hash_ok)
  have w: "fenced_write env 0 (c_runId input) (c_idempotencyKey input) (s_status existing) (Some l)
      (step_fence sha (Some l) (c_runId input) (s_step_type existing)) now
      (checkpoint_set (c_status input) (c_outputHash input) (c_errorClass input) b now) db =
    (Inl (ForesiftError LEASE_FENCING_TOKEN_STALE), env 1 (env 0 db))"
    using fenced_write_refused [of env 0 db l] assms(8-12) by simp
  show ?thesis
    using assms(1-7) b h w by (auto simp: checkpointStep_def bindP_liftE assertStepTransition_def bindP_run)
qed

text \<open>
  A worker that presents a fencing token which is not the current
  token of its lease cannot commit a checkpoint: an otherwise valid request fails with
  \<open>LEASE_FENCING_TOKEN_STALE\<close> and writes nothing; the store is what the other sessions made of it.
\<close>

theorem stale_checkpoint_refused:
  assumes "c_lease input = Some l" and "c_status input \<notin> {Step_PENDING, Step_RUNNING}"
    and "pred_option HASH_PATTERN (c_outputHash input)"
    and "c_status input = Step_SUCCEEDED \<Longrightarrow> c_outputHash input \<noteq> None"
    and "nowIso clock (c_now input) = Inr now"
    and "step_of db (c_runId input) (c_idempotencyKey input) = Some existing"
    and "c_status input \<in> set (ALLOWED_STEP_TRANSITIONS (s_status existing))"
    and "keys_distinct step_key (steps (env 0 db))"
    and "leases_ok (env 0 db)" and "leases_ok (env 1 (env 0 db))"
    and "current_token (env 0 db) (f_resourceKey l) \<noteq> Some (f_fencingToken l)"
    and "current_token (env 1 (env 0 db)) (f_resourceKey l) \<noteq> Some (f_fencingToken l)"
  shows "checkpointStep sha clock env input db =
    (Inl (ForesiftError LEASE_FENCING_TOKEN_STALE), env 1 (env 0 db))"
  using assms by (rule stale_fence_refused)

theorem stale_checkpoint_refused_witness:
  "checkpointStep no_sha 9 (\<lambda>_ d. d)
     ((success_checkpoint demo_begin demo_hash)\<lparr>c_lease := Some \<lparr>f_resourceKey = ''k'', f_fencingToken = 1\<rparr>\<rparr>)
     (lease_demo2\<lparr>steps := [demo_row\<lparr>s_status := Step_RUNNING\<rparr>]\<rparr>) =
   (Inl (ForesiftError LEASE_FENCING_TOKEN_STALE),
    lease_demo2\<lparr>steps := [demo_row\<lparr>s_status := Step_RUNNING\<rparr>]\<rparr>)"
proof -
  let ?db = "lease_demo2\<lparr>steps := [demo_row\<lparr>s_status := Step_RUNNING\<rparr>]\<rparr>"
  have tok: "current_token lease_demo2 ''k'' = Some 3"
    using acquire_current(1) [OF lease_demo_runs(2)] by simp
  have "leases_ok lease_demo2"
    using lease_demo_runs leases_ok_empty by (blast intro: lease_step_ok lease_step.acquire)
  then have ok: "leases_ok ?db" and tok': "current_token ?db ''k'' \<noteq> Some 1"
    using tok by (simp_all add: leases_ok_def current_token_def)
  show ?thesis
    by (rule stale_checkpoint_refused [where l = "\<lparr>f_resourceKey = ''k'', f_fencingToken = 1\<rparr>" and now = 9 and
          existing = "demo_row\<lparr>s_status := Step_RUNNING\<rparr>"])
      (use ok tok' in \<open>simp_all add: success_checkpoint_def demo_begin_def nowIso_def demo_row_def keys_distinct_def\<close>)
qed

text \<open>The row is a new attempt of what the store \<open>d\<close> held, behind the fence there.\<close>

definition claimed_in :: "(string \<Rightarrow> string) \<Rightarrow> begin_input \<Rightarrow> 'p wf_db \<Rightarrow> step_row \<Rightarrow> bool" where
  "claimed_in sha input d row \<longleftrightarrow>
     (\<exists>r now. step_of d (b_runId input) (b_idempotencyKey input) = Some r \<and>
        s_status r \<in> {Step_PENDING, Step_RUNNING, Step_FAILED_RETRYABLE} \<and>
        s_attempt row = s_attempt r + 1 \<and> s_step_id row = s_step_id r \<and>
        (case b_lease input of
           Some f \<Rightarrow> current_token d (f_resourceKey f) = Some (f_fencingToken f)
         | None \<Rightarrow> \<not> isLive now (resourceKeyHash sha (b_runId input) (b_stepType input)) d))"

text \<open>
  A claim that goes through either replays a \<open>SUCCEEDED\<close> row (nothing is
  written, the recorded output is returned), or inserted a first attempt, or claimed a new
  attempt: the row was \<open>PENDING\<close>, \<open>RUNNING\<close> or \<open>FAILED_RETRYABLE\<close> and behind the fence when the
  statement ran, its attempt count grew by one and its previous error was cleared. The returned
  record is the stored row.
\<close>

theorem beginStep_sound:
  assumes "beginStep sha clock env input db = (Inr res, db')"
    and "keys_distinct step_key (steps db)" and "\<And>i d. steps_evolve d (env i d)"
    and "\<And>d. leases_ok d \<Longrightarrow> leases_ok (env 2 d)" and "leases_ok db" and "leases_ok (env 1 (env 0 db))"
  shows "\<exists>row. step_of db' (b_runId input) (b_idempotencyKey input) = Some row \<and>
    res = replay_result (s_status row = Step_SUCCEEDED) row \<and>
    (s_status row = Step_SUCCEEDED \<and> (db' = db \<or> db' = env 1 (env 0 db)) \<or>
     s_status row = Step_RUNNING \<and> s_error_class row = None \<and> s_completed_at row = None \<and>
     (s_attempt row = 1 \<and> step_of (env 0 db) (b_runId input) (b_idempotencyKey input) = None \<or>
      claimed_in sha input (env 2 db) row \<or> claimed_in sha input (env 2 (env 1 (env 0 db))) row))"
  using assms(1)
proof (cases rule: beginStep_ok)
  case (inserted now)
  then show ?thesis
    by (intro exI [of _ "fresh_step input (b_inputHash input) now"])
      (auto simp: step_insert_def fresh_step_def split: if_splits)
next
  case (existing now r d)
  have d: "steps_evolve db d" "leases_ok d"
    using existing(2) assms(3,5,6) by (auto intro: step_history.R_refl step_history.R_trans)
  then have keys: "keys_distinct step_key (steps (env 2 d))" and ok: "leases_ok (env 2 d)"
    using assms(2-4) evolve_keys by blast+
  from existing(4) keys show ?thesis
  proof (cases rule: claim_existing_ok)
    case replayed
    with existing(2,3) show ?thesis by (intro exI [of _ r]) auto
  next
    case (claimed r')
    let ?row = "reclaim input (b_inputHash input) now r'"
    have row: "s_status ?row = Step_RUNNING" "s_error_class ?row = None" "s_completed_at ?row = None"
      "s_attempt ?row = s_attempt r' + 1" "s_step_id ?row = s_step_id r'" by (simp_all add: reclaim_def)
    have "case b_lease input of
            Some f \<Rightarrow> current_token (env 2 d) (f_resourceKey f) = Some (f_fencingToken f)
          | None \<Rightarrow> \<not> isLive now (resourceKeyHash sha (b_runId input) (b_stepType input)) (env 2 d)"
      using claimed(4) by (auto simp: Let_def fence_ok_iff [OF ok] step_fence_def fenceParams_def
          stepLeaseResourceKey_def split: option.splits)
    with claimed(1-3) row have "claimed_in sha input (env 2 d) ?row"
      unfolding claimed_in_def by (intro exI [of _ r'] exI [of _ now]) simp
    with claimed(5,6) row existing(2) show ?thesis
      by (intro exI [of _ ?row]) auto
  qed
qed

theorem beginStep_sound_witness:
  "\<exists>row. step_of (snd (beginStep no_sha 5 (\<lambda>_ d. d) demo_begin demo_db)) ''r1'' ''k1'' = Some row
    \<and> s_status row = Step_RUNNING \<and> s_attempt row = 1"
proof -
  let ?r = "demo_row\<lparr>s_status := Step_RUNNING, s_output_hash := None, s_completed_at := None\<rparr>"
  have b: "beginStep no_sha 5 (\<lambda>_ d. d) demo_begin demo_db =
      (Inr (replay_result False ?r), demo_db\<lparr>steps := [?r]\<rparr>)"
    by (simp add: beginStep_def bindP_run nowIso_def opt_hash_def demo_begin_def demo_db_def empty_db_def
        step_insert_def step_checks_def int4_def fresh_step_def demo_run_def demo_row_def)
  from beginStep_sound [OF b] show ?thesis
    unfolding b by (auto simp: demo_db_def empty_db_def keys_distinct_def leases_ok_def demo_begin_def demo_row_def)
qed

text \<open>
  When the effect of a claimed attempt throws and the step's row
  and leases are still as the claim left them, \<open>runStepOnce\<close> rethrows that same error, after
  recording the attempt as \<open>FAILED_RETRYABLE\<close> with the declared error class (default
  \<open>TIMEOUT_OR_5XX\<close>) and the retry flag of that class's policy.
\<close>

theorem effect_failure_recorded:
  assumes "beginStep sha (clock 0) (env 0) input db = (Inr begun, d)" and "rp_executed begun"
    and "effect d = (Inl e, d')" and "\<And>x. env 2 0 x = x"
    and "keys_distinct step_key (steps d')"
    and "step_of d' (b_runId input) (b_idempotencyKey input) = Some r" and "s_status r = Step_RUNNING"
    and "step_checks r" and "nowIso (clock 2) (b_now input) = Inr now"
    and "let f = step_fence sha (b_lease input) (b_runId input) (s_step_type r)
         in fence_ok (fst f) (snd f) now d'"
  shows "\<exists>db' c. runStepOnce sha clock env input errorClass effect db = (Inl e, db') \<and>
    c = (case errorClass of Some c \<Rightarrow> c | None \<Rightarrow> TIMEOUT_OR_5XX) \<and>
    step_of db' (b_runId input) (b_idempotencyKey input) =
      Some (checkpoint_set Step_FAILED_RETRYABLE None (Some c)
              (Some (isRetryable (RETRY_POLICY_BY_ERROR_CLASS c))) now r)"
proof -
  define c where "c = (case errorClass of Some c \<Rightarrow> c | None \<Rightarrow> TIMEOUT_OR_5XX)"
  let ?f = "step_fence sha (b_lease input) (b_runId input) (s_step_type r)"
  let ?set = "checkpoint_set Step_FAILED_RETRYABLE None (Some c)
      (Some (isRetryable (RETRY_POLICY_BY_ERROR_CLASS c))) now"
  let ?q = "\<lambda>r. s_status r = Step_RUNNING \<and> fence_ok (fst ?f) (snd ?f) now d'"
  let ?db = "steps_update (sql_update (\<lambda>r. step_key r = (b_runId input, b_idempotencyKey input) \<and> ?q r) ?set) d'"
  have q: "?q r" using assms(7,10) by (simp add: Let_def)
  have "step_checks (?set r)" using assms(8) by (simp add: step_checks_def checkpoint_set_def)
  then have upd: "step_update (b_runId input) (b_idempotencyKey input) Step_RUNNING ?f now ?set d' = (Inr [?set r], ?db)"
    using q assms(6) by (simp add: step_update_row [OF assms(5)])
  have "checkpointStep sha (clock 2) (env 2) (failure_checkpoint input c (RETRY_POLICY_BY_ERROR_CLASS c)) d' =
      (Inr (?set r), ?db)"
    using assms(4,6,7,9) upd
    by (simp add: checkpointStep_def failure_checkpoint_def bindP_run opt_hash_def retryable_column_def
        assertStepTransition_def fenced_write_def del: step_status_text.simps)
  then have "record_failure sha clock env input errorClass e d' = (Inl e, ?db)"
    by (simp add: record_failure_def bindP_run flip: c_def)
  then have "runStepOnce sha clock env input errorClass effect db = (Inl e, ?db)"
    using assms(1-3) by (simp add: runStepOnce_def run_effect_def bindP_run tryP_def)
  moreover have "step_of ?db (b_runId input) (b_idempotencyKey input) = Some (?set r)"
    by (rule step_update_lookup [where q = ?q]) (use assms(6) q in auto)
  ultimately show ?thesis using c_def by blast
qed

theorem effect_failure_recorded_witness:
  "\<exists>db'. runStepOnce no_sha (\<lambda>_. 5) (\<lambda>_ _ d. d) demo_begin (Some RATE_LIMITED) (raise (OtherError ''boom'')) demo_db =
      (Inl (OtherError ''boom''), db') \<and>
    step_of db' ''r1'' ''k1'' = Some (demo_row\<lparr>s_status := Step_FAILED_RETRYABLE, s_output_hash := None,
      s_error_class := Some RATE_LIMITED, s_retryable := Some True, s_completed_at := Some 5\<rparr>)"
proof -
  let ?r = "demo_row\<lparr>s_status := Step_RUNNING, s_output_hash := None, s_completed_at := None\<rparr>"
  have b: "beginStep no_sha 5 (\<lambda>_ d. d) demo_begin demo_db =
      (Inr (replay_result False ?r), demo_db\<lparr>steps := [?r]\<rparr>)"
    by (simp add: beginStep_def bindP_run nowIso_def opt_hash_def demo_begin_def demo_db_def empty_db_def
        step_insert_def step_checks_def int4_def fresh_step_def demo_run_def demo_row_def)
  have "\<exists>db' c. runStepOnce no_sha (\<lambda>_. 5) (\<lambda>_ _ d. d) demo_begin (Some RATE_LIMITED) (raise (OtherError ''boom'')) demo_db =
      (Inl (OtherError ''boom''), db') \<and> c = (case Some RATE_LIMITED of Some c \<Rightarrow> c | None \<Rightarrow> TIMEOUT_OR_5XX) \<and>
    step_of db' (b_runId demo_begin) (b_idempotencyKey demo_begin) = Some (checkpoint_set Step_FAILED_RETRYABLE None (Some c)
              (Some (isRetryable (RETRY_POLICY_BY_ERROR_CLASS c))) 5 ?r)"
    by (rule effect_failure_recorded [where d = "demo_db\<lparr>steps := [?r]\<rparr>" and d' = "demo_db\<lparr>steps := [?r]\<rparr>"
          and begun = "replay_result False ?r"], rule b)
      (simp_all add: replay_result_def demo_begin_def demo_row_def keys_distinct_def step_checks_def int4_def
        nowIso_def demo_db_def empty_db_def fence_ok_def step_fence_def fenceParams_def)
  then show ?thesis
    by (auto simp: demo_begin_def checkpoint_set_def isRetryable_def demo_row_def)
qed

text \<open>
  A sequence of steps, each admitted by \<open>assertStepOrder\<close> against the
  steps before it, is exactly a sequence of standard steps whose positions in the discovery
  workflow never decrease: steps may be skipped or repeated, never reordered.
\<close>

theorem step_order_sequence:
  "(\<forall>k < length ts. assertStepOrder (ts ! k) (take k ts) = Inr ()) \<longleftrightarrow>
     set ts \<subseteq> set WF_STANDARD_STEP_ORDER \<and> sorted (map stepOrderIndex ts)"
  (is "?L \<longleftrightarrow> ?R")
proof
  assume L: ?L
  then have "set ts \<subseteq> set WF_STANDARD_STEP_ORDER"
    by (auto simp: in_set_conv_nth assertStepOrder_ok)
  moreover have "stepOrderIndex (ts ! i) \<le> stepOrderIndex (ts ! j)" if "i < j" "j < length ts" for i j
  proof -
    have "ts ! i \<in> set (take j ts)" using that by (auto simp: in_set_conv_nth)
    then show ?thesis using L that(2) by (auto simp: assertStepOrder_ok)
  qed
  ultimately show ?R by (auto simp: sorted_iff_nth_mono_less)
next
  assume R: ?R
  show ?L
  proof (intro allI impI)
    fix k assume k: "k < length ts"
    have "c \<in> set WF_STANDARD_STEP_ORDER \<and> stepOrderIndex c \<le> stepOrderIndex (ts ! k)"
      if "c \<in> set (take k ts)" for c
    proof -
      from that obtain i where "i < k" "c = ts ! i" using k by (auto simp: in_set_conv_nth)
      then show ?thesis using R k sorted_nth_mono [of "map stepOrderIndex ts" i k] by auto
    qed
    then show "assertStepOrder (ts ! k) (take k ts) = Inr ()"
      using R k by (auto simp: assertStepOrder_ok)
  qed
qed

theorem step_order_sequence_witness:
  "\<not> (\<forall>k < length [''validate_decision'', ''discover_candidates'']. assertStepOrder ([''validate_decision'', ''discover_candidates''] ! k)
         (take k [''validate_decision'', ''discover_candidates'']) = Inr ())"
proof -
  have "\<not> sorted (map stepOrderIndex [''validate_decision'', ''discover_candidates''])"
    by (simp add: stepOrderIndex_def STEP_ORDER_INDEX_def WF_STANDARD_STEP_ORDER_def)
  then show ?thesis using step_order_sequence [of "[''validate_decision'', ''discover_candidates'']"]
    by blast
qed

end
