(* ===== verification/Channels.thy ===== *)
theory Channels
  imports WfTables CanonicalJson
begin

text \<open>
  The notification channel seam of packages/workflow-runtime/src/channels.ts: the port's law as
  the locale \<open>notification_channel\<close> (what the outbox worker may rely on of any channel), and the
  deterministic \<open>FakeNotificationChannel\<close> as its instance.
\<close>

section \<open>Requests, acknowledgements and failures\<close>

record send_request =
  q_idempotencyKey :: string
  q_channel :: string
  q_payload :: jsval
  q_payloadHash :: string

record send_ack =
  k_ackAt :: instant
  k_channelMessageId :: string

fun isTransientChannelError :: "js_error \<Rightarrow> bool" where
  "isTransientChannelError (NotificationChannelError retryable) = retryable"
| "isTransientChannelError NotificationChannelCrashError = False"
| "isTransientChannelError _ = True"

definition assertText :: "string \<Rightarrow> unit res" where
  "assertText v = guardE (\<not> blank v) WF_OUTBOX_PAYLOAD_INVALID"

definition assertSendRequest :: "send_request \<Rightarrow> unit res" where
  "assertSendRequest q =
     bindE (assertText (q_idempotencyKey q)) (\<lambda>_.
     bindE (assertText (q_channel q)) (\<lambda>_.
     bindE (guardE (HASH_PATTERN (q_payloadHash q)) WF_OUTBOX_PAYLOAD_INVALID) (\<lambda>_.
     guardE (q_payload q \<noteq> JsUndefined) WF_OUTBOX_PAYLOAD_INVALID)))"

section \<open>The port's law\<close>

text \<open>What a channel keeps of an accepted send: where it went, its content address, its ack.\<close>

record delivery_note =
  dn_channel :: string
  dn_payloadHash :: string
  dn_ack :: send_ack

text \<open>
  \<open>delivered c k\<close> is the one delivery the channel holds for an idempotency key. An accepted
  send returns the ack of the key's delivery; no send ever alters or repeats a delivery; a new
  delivery is the request's own. A send that throws may still have delivered (a crash after
  the channel accepted it).
\<close>

locale notification_channel =
  fixes send :: "send_request \<Rightarrow> ('c, send_ack) prog"
    and delivered :: "'c \<Rightarrow> string \<Rightarrow> delivery_note option"
  assumes send_acks: "send q c = (Inr a, c') \<Longrightarrow>
      \<exists>d. delivered c' (q_idempotencyKey q) = Some d \<and> dn_ack d = a"
    and send_keeps: "delivered c k = Some d \<Longrightarrow> send q c = (r, c') \<Longrightarrow> delivered c' k = Some d"
    and send_new: "delivered c k = None \<Longrightarrow> send q c = (r, c') \<Longrightarrow> delivered c' k = Some d \<Longrightarrow>
      k = q_idempotencyKey q \<and> dn_channel d = q_channel q \<and> dn_payloadHash d = q_payloadHash q"
begin

text \<open>Any sequence of sends, whatever each returns or throws.\<close>

fun send_all :: "send_request list \<Rightarrow> 'c \<Rightarrow> 'c" where
  "send_all [] c = c"
| "send_all (q # qs) c = send_all qs (snd (send q c))"

lemma send_all_keeps: "delivered c k = Some d \<Longrightarrow> delivered (send_all qs c) k = Some d"
  by (induction qs arbitrary: c) (auto intro: send_keeps prod.collapse [symmetric])

lemma send_all_append: "send_all (qs @ rs) c = send_all rs (send_all qs c)"
  by (induction qs arbitrary: c) auto

text \<open>A replay after an accepted send is acknowledged with the original ack, and delivers nothing.\<close>

lemma replay_ack:
  assumes "send q c = (Inr a, c')" and "send q' (send_all qs c') = (Inr a', c'')"
    and "q_idempotencyKey q' = q_idempotencyKey q"
  shows "a' = a \<and> delivered c'' = delivered (send_all qs c')"
proof
  from send_acks [OF assms(1)] obtain d where d: "delivered c' (q_idempotencyKey q) = Some d" "dn_ack d = a"
    by blast
  then have kept: "delivered (send_all qs c') (q_idempotencyKey q) = Some d"
    by (simp add: send_all_keeps)
  from send_acks [OF assms(2)] send_keeps [OF kept assms(2)] d show "a' = a"
    using assms(3) by auto
  show "delivered c'' = delivered (send_all qs c')"
  proof
    fix k
    show "delivered c'' k = delivered (send_all qs c') k"
    proof (cases "delivered (send_all qs c') k")
      case None
      have "k \<noteq> q_idempotencyKey q" using None kept by auto
      then show ?thesis using None send_new [OF None assms(2)] assms(3)
        by (cases "delivered c'' k") auto
    next
      case (Some d')
      then show ?thesis using send_keeps [OF Some assms(2)] by simp
    qed
  qed
qed

end

section \<open>The fake channel\<close>

datatype send_outcome = ACKNOWLEDGED | DEDUPLICATED | TRANSIENT_FAILURE | CRASHED

record delivery_record =
  n_sequence :: nat
  n_idempotencyKey :: string
  n_channel :: string
  n_payloadHash :: string
  n_enqueuedAt :: instant
  n_ackAt :: instant
  n_channelMessageId :: string

record send_attempt =
  t_idempotencyKey :: string
  t_channel :: string
  t_payloadHash :: string
  t_attemptedAt :: instant
  t_outcome :: send_outcome

text \<open>
  The private fields; the \<open>Map\<close> is the list of its values in insertion order (each under its
  own key). The injected clock is the list of its future readings, \<open>fc_clock i\<close> the \<open>i\<close>-th.
\<close>

record fake_channel =
  fc_clock :: "nat \<Rightarrow> instant"
  fc_clockReads :: nat
  fc_messageIdPrefix :: string
  fc_recordsByKey :: "delivery_record list"
  fc_transientFailuresRemaining :: jsnum
  fc_crashAtDeliveryCount :: "jsnum option"
  fc_crashFired :: bool
  fc_attempts :: "send_attempt list"

definition fakeChannel :: "(nat \<Rightarrow> instant) \<Rightarrow> string option \<Rightarrow> fake_channel" where
  "fakeChannel now messageIdPrefix =
     \<lparr>fc_clock = now, fc_clockReads = 0,
      fc_messageIdPrefix = (case messageIdPrefix of Some p \<Rightarrow> p | None \<Rightarrow> ''fake-msg''),
      fc_recordsByKey = [], fc_transientFailuresRemaining = Fin 0, fc_crashAtDeliveryCount = None,
      fc_crashFired = False, fc_attempts = []\<rparr>"

definition failTransiently :: "jsnum \<Rightarrow> fake_channel \<Rightarrow> fake_channel" where
  "failTransiently n c = c\<lparr>fc_transientFailuresRemaining := js_max (Fin 0) (js_trunc n)\<rparr>"

definition crashAfter :: "jsnum \<Rightarrow> fake_channel \<Rightarrow> fake_channel" where
  "crashAfter n c =
     c\<lparr>fc_crashAtDeliveryCount := Some (js_max (Fin 0) (js_trunc n)), fc_crashFired := False\<rparr>"

definition deliveries :: "fake_channel \<Rightarrow> delivery_record list" where
  "deliveries c = fc_recordsByKey c"

definition deliveryCount :: "fake_channel \<Rightarrow> nat" where
  "deliveryCount c = length (fc_recordsByKey c)"

definition callCount :: "fake_channel \<Rightarrow> nat" where
  "callCount c = length (fc_attempts c)"

definition deduplicatedCount :: "fake_channel \<Rightarrow> nat" where
  "deduplicatedCount c = length (filter (\<lambda>a. t_outcome a = DEDUPLICATED) (fc_attempts c))"

definition latencySamples :: "fake_channel \<Rightarrow> (instant \<times> instant) list" where
  "latencySamples c = map (\<lambda>d. (n_enqueuedAt d, n_ackAt d)) (deliveries c)"

definition fc_now :: "(fake_channel, instant) prog" where
  "fc_now = (\<lambda>c. (Inr (fc_clock c (fc_clockReads c)), c\<lparr>fc_clockReads := fc_clockReads c + 1\<rparr>))"

definition push_attempt :: "send_request \<Rightarrow> instant \<Rightarrow> send_outcome \<Rightarrow> (fake_channel, unit) prog" where
  "push_attempt q attemptedAt outcome =
     writes (fc_attempts_update (\<lambda>as. as @
       [\<lparr>t_idempotencyKey = q_idempotencyKey q, t_channel = q_channel q,
         t_payloadHash = q_payloadHash q, t_attemptedAt = attemptedAt, t_outcome = outcome\<rparr>]))"

text \<open>The end of a first delivery: the configured crash fires once, after the record is kept.\<close>

definition finish_delivery ::
  "send_request \<Rightarrow> instant \<Rightarrow> delivery_record \<Rightarrow> (fake_channel, send_ack) prog" where
  "finish_delivery q attemptedAt r =
     bindP (reads (\<lambda>c. case fc_crashAtDeliveryCount c of
              None \<Rightarrow> False
            | Some n \<Rightarrow> \<not> fc_crashFired c \<and>
                js_le n (Fin (of_nat (length (fc_recordsByKey c)))))) (\<lambda>crash.
     if crash
     then bindP (writes (fc_crashFired_update (\<lambda>_. True))) (\<lambda>_.
          bindP (push_attempt q attemptedAt CRASHED) (\<lambda>_. raise NotificationChannelCrashError))
     else bindP (push_attempt q attemptedAt ACKNOWLEDGED) (\<lambda>_.
          ret \<lparr>k_ackAt = n_ackAt r, k_channelMessageId = n_channelMessageId r\<rparr>))"

definition send :: "send_request \<Rightarrow> (fake_channel, send_ack) prog" where
  "send q =
     bindP (liftE (assertSendRequest q)) (\<lambda>_.
     bindP fc_now (\<lambda>attemptedAt.
     bindP (reads (\<lambda>c. c)) (\<lambda>c.
     if js_lt (Fin 0) (fc_transientFailuresRemaining c)
     then bindP (writes (fc_transientFailuresRemaining_update (\<lambda>n. js_sub n (Fin 1)))) (\<lambda>_.
          bindP (push_attempt q attemptedAt TRANSIENT_FAILURE) (\<lambda>_.
          raise (NotificationChannelError True)))
     else case row_by n_idempotencyKey (q_idempotencyKey q) (fc_recordsByKey c) of
            Some existing \<Rightarrow>
              bindP (push_attempt q attemptedAt DEDUPLICATED) (\<lambda>_.
              ret \<lparr>k_ackAt = n_ackAt existing, k_channelMessageId = n_channelMessageId existing\<rparr>)
          | None \<Rightarrow>
              bindP fc_now (\<lambda>ackAt.
              let n = length (fc_recordsByKey c) + 1;
                  r = \<lparr>n_sequence = n, n_idempotencyKey = q_idempotencyKey q, n_channel = q_channel q,
                       n_payloadHash = q_payloadHash q, n_enqueuedAt = attemptedAt, n_ackAt = ackAt,
                       n_channelMessageId = fc_messageIdPrefix c @ ''-'' @ digits n\<rparr>
              in bindP (writes (fc_recordsByKey_update (\<lambda>rs. rs @ [r]))) (\<lambda>_.
                 finish_delivery q attemptedAt r)))))"

section \<open>The fake channel keeps the law\<close>

definition fake_delivered :: "fake_channel \<Rightarrow> string \<Rightarrow> delivery_note option" where
  "fake_delivered c k = map_option (\<lambda>r. \<lparr>dn_channel = n_channel r, dn_payloadHash = n_payloadHash r,
       dn_ack = \<lparr>k_ackAt = n_ackAt r, k_channelMessageId = n_channelMessageId r\<rparr>\<rparr>)
     (row_by n_idempotencyKey k (fc_recordsByKey c))"

lemma push_attempt_run:
  "push_attempt q t outcome c = (Inr (), c\<lparr>fc_attempts := fc_attempts c @
     [\<lparr>t_idempotencyKey = q_idempotencyKey q, t_channel = q_channel q,
       t_payloadHash = q_payloadHash q, t_attemptedAt = t, t_outcome = outcome\<rparr>]\<rparr>)"
  by (simp add: push_attempt_def)

lemma finish_delivery_run:
  "finish_delivery q t r c = (res, c') \<Longrightarrow> fc_recordsByKey c' = fc_recordsByKey c \<and>
     (\<forall>a. res = Inr a \<longrightarrow> a = \<lparr>k_ackAt = n_ackAt r, k_channelMessageId = n_channelMessageId r\<rparr>)"
  by (auto simp: finish_delivery_def bindP_run push_attempt_run split: if_splits option.splits)

text \<open>The three ways a send can go, in terms of the ledger.\<close>

lemma send_cases:
  assumes "send q c = (res, c')"
  obtains (refused) e where "res = Inl e" and "fc_recordsByKey c' = fc_recordsByKey c"
    | (replay) r where "row_by n_idempotencyKey (q_idempotencyKey q) (fc_recordsByKey c) = Some r"
      and "res = Inr \<lparr>k_ackAt = n_ackAt r, k_channelMessageId = n_channelMessageId r\<rparr>"
      and "fc_recordsByKey c' = fc_recordsByKey c"
    | (first) r where "row_by n_idempotencyKey (q_idempotencyKey q) (fc_recordsByKey c) = None"
      and "fc_recordsByKey c' = fc_recordsByKey c @ [r]"
      and "n_idempotencyKey r = q_idempotencyKey q" and "n_channel r = q_channel q"
      and "n_payloadHash r = q_payloadHash q" and "n_sequence r = length (fc_recordsByKey c) + 1"
      and "\<And>a. res = Inr a \<Longrightarrow> a = \<lparr>k_ackAt = n_ackAt r, k_channelMessageId = n_channelMessageId r\<rparr>"
proof (cases "assertSendRequest q = Inr () \<and> \<not> js_lt (Fin 0) (fc_transientFailuresRemaining c)")
  case False
  then show thesis using assms refused
    by (cases "assertSendRequest q") (auto simp: send_def bindP_liftE bindP_run fc_now_def push_attempt_run)
next
  case ok: True
  show thesis
  proof (cases "row_by n_idempotencyKey (q_idempotencyKey q) (fc_recordsByKey c)")
    case None
    with ok assms show thesis
      by (auto simp: send_def bindP_liftE bindP_run fc_now_def push_attempt_run Let_def
          dest!: finish_delivery_run intro!: first)
  next
    case (Some r)
    with ok assms replay show thesis
      by (auto simp: send_def bindP_liftE bindP_run fc_now_def push_attempt_run)
  qed
qed

interpretation fake: notification_channel send fake_delivered
proof unfold_locales
  fix q a c c' k d r
  show "send q c = (Inr a, c') \<Longrightarrow> \<exists>d. fake_delivered c' (q_idempotencyKey q) = Some d \<and> dn_ack d = a"
    by (erule send_cases) (auto simp: fake_delivered_def)
  show "fake_delivered c k = Some d \<Longrightarrow> send q c = (r, c') \<Longrightarrow> fake_delivered c' k = Some d"
    by (erule send_cases) (auto simp: fake_delivered_def)
  show "fake_delivered c k = None \<Longrightarrow> send q c = (r, c') \<Longrightarrow> fake_delivered c' k = Some d \<Longrightarrow>
      k = q_idempotencyKey q \<and> dn_channel d = q_channel q \<and> dn_payloadHash d = q_payloadHash q"
    by (erule send_cases) (auto simp: fake_delivered_def split: if_splits)
qed

definition send_seq :: "send_request list \<Rightarrow> fake_channel \<Rightarrow> fake_channel" where
  "send_seq qs c = foldl (\<lambda>c q. snd (send q c)) c qs"

lemma send_seq_all: "send_seq qs c = fake.send_all qs c"
  by (induction qs arbitrary: c) (auto simp: send_seq_def)

lemma crash_records:
  assumes "send q c = (Inl NotificationChannelCrashError, c')"
  shows "\<exists>r. row_by n_idempotencyKey (q_idempotencyKey q) (fc_recordsByKey c') = Some r \<and>
    n_payloadHash r = q_payloadHash q \<and> n_channel r = q_channel q"
proof -
  have a: "assertSendRequest q \<noteq> Inl NotificationChannelCrashError"
    by (auto simp: assertSendRequest_def assertText_def bindE_eq_Inl)
  show ?thesis
  proof (cases "assertSendRequest q = Inr () \<and> \<not> js_lt (Fin 0) (fc_transientFailuresRemaining c)")
    case False
    then show ?thesis using assms a
      by (cases "assertSendRequest q") (auto simp: send_def bindP_liftE bindP_run fc_now_def push_attempt_run)
  next
    case True
    then show ?thesis using assms
      by (auto simp: send_def bindP_liftE bindP_run fc_now_def push_attempt_run Let_def
          dest!: finish_delivery_run split: option.splits)
  qed
qed

lemma send_ledger:
  assumes "keys_distinct n_idempotencyKey (fc_recordsByKey c)"
    and "map n_sequence (fc_recordsByKey c) = [1..<length (fc_recordsByKey c) + 1]"
  shows "keys_distinct n_idempotencyKey (fc_recordsByKey (snd (send q c))) \<and>
    map n_sequence (fc_recordsByKey (snd (send q c))) = [1..<length (fc_recordsByKey (snd (send q c))) + 1]"
proof -
  obtain res c' where run: "send q c = (res, c')" by fastforce
  then show ?thesis using assms by (cases rule: send_cases) (auto simp: run)
qed

section \<open>Properties\<close>

text \<open>
  The exactly-once ledger: after any sequence of sends on a new channel,
  with any configured failures and any crash, the recorded deliveries have pairwise distinct
  idempotency keys and are numbered 1, 2, 3, ... in order.
\<close>

theorem channel_ledger:
  "keys_distinct n_idempotencyKey (deliveries (send_seq qs (crashAfter m (failTransiently n (fakeChannel now p)))))
   \<and> map n_sequence (deliveries (send_seq qs (crashAfter m (failTransiently n (fakeChannel now p))))) =
       [1..<deliveryCount (send_seq qs (crashAfter m (failTransiently n (fakeChannel now p)))) + 1]"
proof -
  have step: "keys_distinct n_idempotencyKey (fc_recordsByKey (send_seq qs c)) \<and>
      map n_sequence (fc_recordsByKey (send_seq qs c)) = [1..<length (fc_recordsByKey (send_seq qs c)) + 1]"
    if "keys_distinct n_idempotencyKey (fc_recordsByKey c)"
      "map n_sequence (fc_recordsByKey c) = [1..<length (fc_recordsByKey c) + 1]" for c
    using that
  proof (induction qs arbitrary: c)
    case (Cons q qs)
    then show ?case using send_ledger [of c q] by (simp add: send_seq_def)
  qed (simp add: send_seq_def)
  show ?thesis
    unfolding deliveries_def deliveryCount_def
    by (rule step) (simp_all add: crashAfter_def failTransiently_def fakeChannel_def keys_distinct_def)
qed

text \<open>
  The port's law on the fake channel: once a send of a key was
  acknowledged, or crashed after the channel accepted it, every later acknowledged send of
  that key, after any other traffic, returns the original acknowledgement, and the ledger of
  deliveries does not grow.
\<close>

theorem channel_replay_collapses:
  assumes "send q c = (Inr a, c') \<or> send q c = (Inl NotificationChannelCrashError, c')"
    and "send q' (send_seq qs c') = (Inr a', c'')" and "q_idempotencyKey q' = q_idempotencyKey q"
  shows "deliveries c'' = deliveries (send_seq qs c') \<and>
    (\<exists>r \<in> set (deliveries c'). n_idempotencyKey r = q_idempotencyKey q \<and>
       a' = \<lparr>k_ackAt = n_ackAt r, k_channelMessageId = n_channelMessageId r\<rparr>)"
proof -
  have "\<exists>r. row_by n_idempotencyKey (q_idempotencyKey q) (fc_recordsByKey c') = Some r"
    using assms(1) fake.send_acks [of q c a c'] crash_records [of q c c'] by (auto simp: fake_delivered_def)
  then obtain r where r: "row_by n_idempotencyKey (q_idempotencyKey q) (fc_recordsByKey c') = Some r" by blast
  define n where "n = \<lparr>dn_channel = n_channel r, dn_payloadHash = n_payloadHash r,
       dn_ack = \<lparr>k_ackAt = n_ackAt r, k_channelMessageId = n_channelMessageId r\<rparr>\<rparr>"
  have "fake_delivered c' (q_idempotencyKey q) = Some n" using r by (simp add: fake_delivered_def n_def)
  then have kept: "fake_delivered (send_seq qs c') (q_idempotencyKey q) = Some n"
    by (simp add: send_seq_all fake.send_all_keeps)
  have ack: "a' = dn_ack n"
    using fake.send_acks [OF assms(2)] fake.send_keeps [OF kept assms(2)] assms(3) by auto
  have "deliveries c'' = deliveries (send_seq qs c')"
    using assms(2)
  proof (cases rule: send_cases)
    case (first r')
    then show ?thesis using kept assms(3) by (simp add: fake_delivered_def)
  qed (simp_all add: deliveries_def)
  then show ?thesis using ack r by (auto simp: n_def deliveries_def dest: row_by_SomeD)
qed

definition demo_request :: send_request where
  "demo_request = \<lparr>q_idempotencyKey = ''wfo_1'', q_channel = ''telegram'', q_payload = JsNull,
     q_payloadHash = ''sha256:'' @ replicate 64 (CHR ''0'')\<rparr>"

text \<open>The first delivery crashes after it was accepted; the replay is acknowledged.\<close>

definition demo_channel :: fake_channel where
  "demo_channel = crashAfter (Fin 1) (fakeChannel int None)"

lemma demo_request_ok: "assertSendRequest demo_request = Inr ()"
proof -
  have "HASH_PATTERN (q_payloadHash demo_request)"
    unfolding demo_request_def send_request.simps
    by (rule HASH_PATTERN_sha256) (simp_all add: list_all_iff hex_digit_def)
  then show ?thesis
    by (simp add: assertSendRequest_def assertText_def blank_iff js_space_def demo_request_def)
qed

lemma demo_crash: "fst (send demo_request demo_channel) = Inl NotificationChannelCrashError"
  by (simp add: send_def bindP_run demo_request_ok fc_now_def push_attempt_def finish_delivery_def Let_def
      demo_channel_def crashAfter_def fakeChannel_def js_le_def js_eq_def js_max_def rat_trunc_def)

lemma demo_replay:
  "\<exists>a. fst (send demo_request (send_seq [] (snd (send demo_request demo_channel)))) = Inr a"
  by (simp add: send_def bindP_run demo_request_ok fc_now_def push_attempt_def finish_delivery_def Let_def
      demo_channel_def crashAfter_def fakeChannel_def js_le_def js_eq_def js_max_def rat_trunc_def send_seq_def)

theorem channel_replay_collapses_witness:
  "deliveries (snd (send demo_request (send_seq [] (snd (send demo_request demo_channel))))) =
     deliveries (send_seq [] (snd (send demo_request demo_channel)))"
proof -
  obtain a where a: "fst (send demo_request (send_seq [] (snd (send demo_request demo_channel)))) = Inr a"
    using demo_replay by blast
  have crash: "send demo_request demo_channel = (Inl NotificationChannelCrashError, snd (send demo_request demo_channel))"
    using demo_crash by (metis prod.collapse)
  show ?thesis
    using channel_replay_collapses [of demo_request demo_channel undefined "snd (send demo_request demo_channel)"
        demo_request "[]" a] crash a by (metis prod.collapse)
qed

end
