(* ===== verification/Outbox.thy ===== *)
theory Outbox
  imports Steps Channels
begin

text \<open>
  The shadow choke point (packages/workflow-runtime/src/shadow.ts) and the transactional
  notification outbox (packages/workflow-runtime/src/outbox.ts): the atomic commit of decision,
  alert and outbox entry, the fenced claim of a batch, and the delivery worker over any
  notification channel. Between any two statements of the delivery worker other sessions may
  commit; \<open>env\<close> is what they do.
\<close>

section \<open>The shadow choke point\<close>

definition shadowSuppressionFor :: "bool \<Rightarrow> shadow_influence_kind \<Rightarrow> outbox_status option" where
  "shadowSuppressionFor shadow influence =
     (if shadowSuppressesInfluence shadow influence then Some Out_SUPPRESSED_SHADOW else None)"

definition assertNoOpportunityInfluence :: "bool \<Rightarrow> shadow_influence_kind \<Rightarrow> unit res" where
  "assertNoOpportunityInfluence shadow influence =
     guardE (shadowSuppressionFor shadow influence = None) WF_SHADOW_INFLUENCE_REFUSED"

section \<open>Inputs and results\<close>

record decision_input =
  di_decisionId :: string
  di_decisionKind :: string
  di_payload :: jsval
  di_payloadHash :: "string option"

record alert_input =
  ai_alertId :: string
  ai_alertClass :: string
  ai_payload :: jsval
  ai_payloadHash :: "string option"

text \<open>\<open>oi_alertRef\<close> is \<open>None\<close> when the property is absent and \<open>Some None\<close> when it is null.\<close>

record outbox_input =
  oi_outboxId :: "string option"
  oi_channel :: string
  oi_payloadHash :: "string option"
  oi_alertRef :: "string option option"

record commit_input =
  ci_runId :: string
  ci_decision :: decision_input
  ci_alert :: alert_input
  ci_outbox :: outbox_input
  ci_outcome :: "string option"
  ci_influence :: "shadow_influence_kind option"
  ci_now :: "iso option"

record commit_result =
  cr_outboxId :: string
  cr_status :: outbox_status
  cr_decisionId :: string
  cr_alertId :: string
  cr_suppressed :: bool

record outbox_claim =
  cl_outboxId :: string
  cl_decisionRef :: string
  cl_alertRef :: "string option"
  cl_channel :: string
  cl_payloadHash :: string
  cl_fencingToken :: nat
  cl_claimedAt :: "instant option"
  cl_claimExpiresAt :: "instant option"
  cl_attempts :: int
  cl_enqueuedAt :: instant

datatype delivery_outcome =
  D_SENT | D_RETRY_SCHEDULED | D_FAILED | D_STALE | D_REFUSED_SUPPRESSED | D_NOT_FOUND

record outcome_row =
  or_outboxId :: string
  or_outcome :: delivery_outcome
  or_attempts :: int
  or_detail :: "string option"

record deliver_report =
  rep_outcomes :: "outcome_row list"
  rep_sent :: "string list"
  rep_retried :: "string list"
  rep_failed :: "string list"
  rep_stale :: "string list"
  rep_refusedSuppressed :: "string list"

section \<open>Helpers\<close>

definition outbox_nowIso :: "instant \<Rightarrow> iso option \<Rightarrow> instant res" where
  "outbox_nowIso clock input =
     (case input of
        None \<Rightarrow> Inr clock
      | Some None \<Rightarrow> Inl (ForesiftError WF_OUTBOX_PAYLOAD_INVALID)
      | Some (Some now) \<Rightarrow> Inr now)"

definition requireText :: "string \<Rightarrow> string res" where
  "requireText v = (if blank v then Inl (ForesiftError WF_OUTBOX_PAYLOAD_INVALID) else Inr v)"

definition contentHash :: "(string \<Rightarrow> string) \<Rightarrow> jsval \<Rightarrow> string option \<Rightarrow> string res" where
  "contentHash sha payload provided =
     (if payload = JsUndefined then Inl (ForesiftError WF_OUTBOX_PAYLOAD_INVALID)
      else case provided of
        None \<Rightarrow> bindE (canonicalJson payload) (\<lambda>t. Inr (sha256Text sha t))
      | Some h \<Rightarrow> if HASH_PATTERN h then Inr h else Inl (ForesiftError WF_OUTBOX_PAYLOAD_INVALID))"

definition addMs :: "instant \<Rightarrow> jsnum \<Rightarrow> instant res" where
  "addMs t ms = date_add t ms"

text \<open>
  \<open>JSON.stringify\<close> of a bare undefined or function is undefined, which reaches the database
  as NULL; every other payload is stored as \<open>jsonb\<close>.
\<close>

definition serialisePayload :: "jsval \<Rightarrow> jsval option" where
  "serialisePayload p = (if p = JsUndefined \<or> p = JsFun then None else Some (jsonb p))"

definition outbox_checks :: "outbox_row \<Rightarrow> bool" where
  "outbox_checks r \<longleftrightarrow>
     o_outbox_id r \<noteq> [] \<and> o_decision_ref r \<noteq> [] \<and> o_channel r \<noteq> [] \<and> HASH_PATTERN (o_payload_hash r) \<and>
     pred_option (\<lambda>t. 0 < t) (o_claim_fencing_token r) \<and> 0 \<le> o_attempts r \<and> int4 (o_attempts r) \<and>
     (o_status r = Out_CLAIMED \<longrightarrow>
        o_claim_owner r \<noteq> None \<and> o_claim_fencing_token r \<noteq> None \<and> o_claim_expires_at r \<noteq> None)"

section \<open>The commit boundary\<close>

definition decision_insert :: "jsval decision_row \<Rightarrow> (jsval wf_db, unit) prog" where
  "decision_insert row = insert_stmt decision_commits_update
     (\<lambda>db r. d_decision_id r \<noteq> [] \<and> d_decision_kind r \<noteq> [] \<and> HASH_PATTERN (d_payload_hash r) \<and>
        row_by d_decision_id (d_decision_id r) (decision_commits db) = None \<and>
        run_of db (d_run_id r) \<noteq> None) row"

definition alert_insert :: "jsval alert_row \<Rightarrow> (jsval wf_db, unit) prog" where
  "alert_insert row = insert_stmt alert_records_update
     (\<lambda>db r. a_alert_id r \<noteq> [] \<and> a_alert_class r \<noteq> [] \<and> HASH_PATTERN (a_payload_hash r) \<and>
        row_by a_alert_id (a_alert_id r) (alert_records db) = None \<and>
        row_by d_decision_id (a_decision_id r) (decision_commits db) \<noteq> None) row"

definition new_decision_row :: "commit_input \<Rightarrow> jsval \<Rightarrow> string \<Rightarrow> instant \<Rightarrow> jsval decision_row" where
  "new_decision_row input payload hash now =
     \<lparr>d_decision_id = di_decisionId (ci_decision input), d_run_id = ci_runId input,
      d_decision_kind = di_decisionKind (ci_decision input), d_payload = payload,
      d_payload_hash = hash, d_committed_at = now\<rparr>"

definition new_alert_row :: "commit_input \<Rightarrow> jsval \<Rightarrow> string \<Rightarrow> instant \<Rightarrow> jsval alert_row" where
  "new_alert_row input payload hash now =
     \<lparr>a_alert_id = ai_alertId (ci_alert input), a_decision_id = di_decisionId (ci_decision input),
      a_alert_class = ai_alertClass (ci_alert input), a_payload = payload,
      a_payload_hash = hash, a_created_at = now\<rparr>"

text \<open>A NULL payload violates the column's NOT NULL.\<close>

definition not_null :: "'a option \<Rightarrow> 'a res" where
  "not_null v = (case v of None \<Rightarrow> Inl SqlError | Some x \<Rightarrow> Inr x)"

definition outbox_insert :: "outbox_row \<Rightarrow> (jsval wf_db, unit) prog" where
  "outbox_insert row = insert_stmt notification_outbox_update
     (\<lambda>db r. outbox_checks r \<and> outbox_of db (o_outbox_id r) = None \<and>
        row_by d_decision_id (o_decision_ref r) (decision_commits db) \<noteq> None \<and>
        (case o_alert_ref r of None \<Rightarrow> True
         | Some a \<Rightarrow> row_by a_alert_id a (alert_records db) \<noteq> None)) row"

definition new_outbox_row ::
  "commit_input \<Rightarrow> string \<Rightarrow> string \<Rightarrow> outbox_status \<Rightarrow> instant \<Rightarrow> outbox_row" where
  "new_outbox_row input outboxId hash status now =
     \<lparr>o_outbox_id = outboxId, o_decision_ref = di_decisionId (ci_decision input),
      o_alert_ref = (case oi_alertRef (ci_outbox input) of
          None \<Rightarrow> Some (ai_alertId (ci_alert input)) | Some r \<Rightarrow> r),
      o_channel = oi_channel (ci_outbox input), o_payload_hash = hash, o_status = status,
      o_claim_owner = None, o_claim_fencing_token = None, o_claim_expires_at = None, o_attempts = 0,
      o_enqueued_at = now, o_claimed_at = None, o_sent_at = None, o_last_error = None\<rparr>"

text \<open>The status the entry is written with: shadow first, whatever the influence, then outage.\<close>

definition commit_status :: "bool \<Rightarrow> shadow_influence_kind \<Rightarrow> string \<Rightarrow> outbox_status res" where
  "commit_status shadow influence outcome =
     bindE (if influence = POLICY_WRITE_BACK then assertNoOpportunityInfluence shadow influence else Inr ()) (\<lambda>_.
     if shadowSuppressionFor shadow influence \<noteq> None then Inr Out_SUPPRESSED_SHADOW
     else if shadow
     then bindE (assertNoOpportunityInfluence shadow influence) (\<lambda>_. Inr Out_SUPPRESSED_SHADOW)
     else if outcome = ''PROVIDER_OUTAGE'' then Inr Out_SUPPRESSED_OUTAGE
     else Inr Out_PENDING)"

text \<open>The transaction of the commit: the run, then the three inserts.\<close>

definition commit_tx ::
  "string \<Rightarrow> commit_input \<Rightarrow> instant \<Rightarrow> shadow_influence_kind \<Rightarrow> string \<Rightarrow> string \<Rightarrow> string \<Rightarrow> string \<Rightarrow>
   (jsval wf_db, commit_result) prog" where
  "commit_tx outboxId input now influence outcome decisionHash alertHash outboxHash =
     bindP (reads (\<lambda>db. run_of db (ci_runId input))) (\<lambda>run.
     case run of
       None \<Rightarrow> raise (ForesiftError WF_RUN_NOT_FOUND)
     | Some run \<Rightarrow>
         bindP (liftE (commit_status (r_shadow run) influence outcome)) (\<lambda>status.
         bindP (liftE (not_null (serialisePayload (di_payload (ci_decision input))))) (\<lambda>decision.
         bindP (decision_insert (new_decision_row input decision decisionHash now)) (\<lambda>_.
         bindP (liftE (not_null (serialisePayload (ai_payload (ci_alert input))))) (\<lambda>alert.
         bindP (alert_insert (new_alert_row input alert alertHash now)) (\<lambda>_.
         bindP (outbox_insert (new_outbox_row input outboxId outboxHash status now)) (\<lambda>_.
         ret \<lparr>cr_outboxId = outboxId, cr_status = status,
              cr_decisionId = di_decisionId (ci_decision input), cr_alertId = ai_alertId (ci_alert input),
              cr_suppressed = (status \<noteq> Out_PENDING)\<rparr>)))))))"

definition commitDecisionWithOutbox ::
  "(string \<Rightarrow> string) \<Rightarrow> instant \<Rightarrow> string \<Rightarrow> commit_input \<Rightarrow> (jsval wf_db, commit_result) prog" where
  "commitDecisionWithOutbox sha clock uuid input =
     bindP (liftE (outbox_nowIso clock (ci_now input))) (\<lambda>now.
     bindP (liftE (requireText (ci_runId input))) (\<lambda>_.
     bindP (liftE (requireText (di_decisionId (ci_decision input)))) (\<lambda>_.
     bindP (liftE (requireText (di_decisionKind (ci_decision input)))) (\<lambda>_.
     bindP (liftE (requireText (ai_alertId (ci_alert input)))) (\<lambda>_.
     bindP (liftE (requireText (ai_alertClass (ci_alert input)))) (\<lambda>_.
     bindP (liftE (requireText (oi_channel (ci_outbox input)))) (\<lambda>_.
     let influence = (case ci_influence input of Some i \<Rightarrow> i | None \<Rightarrow> OPPORTUNITY_NOTIFICATION);
         outcome = (case ci_outcome input of Some x \<Rightarrow> x | None \<Rightarrow> ''NORMAL'')
     in if outcome \<noteq> ''NORMAL'' \<and> outcome \<noteq> ''PROVIDER_OUTAGE''
        then raise (ForesiftError WF_OUTBOX_PAYLOAD_INVALID)
        else bindP (liftE (contentHash sha (di_payload (ci_decision input)) (di_payloadHash (ci_decision input))))
               (\<lambda>decisionHash.
             bindP (liftE (contentHash sha (ai_payload (ci_alert input)) (ai_payloadHash (ci_alert input))))
               (\<lambda>alertHash.
             let outboxId = (case oi_outboxId (ci_outbox input) of Some i \<Rightarrow> i | None \<Rightarrow> ''wfo_'' @ uuid);
                 outboxHash = (case oi_payloadHash (ci_outbox input) of Some h \<Rightarrow> h | None \<Rightarrow> alertHash)
             in if \<not> HASH_PATTERN outboxHash then raise (ForesiftError WF_OUTBOX_PAYLOAD_INVALID)
                else transaction (commit_tx outboxId input now influence outcome decisionHash alertHash outboxHash))))))))))"

section \<open>Claiming a batch\<close>

definition claimable :: "instant \<Rightarrow> outbox_row \<Rightarrow> bool" where
  "claimable now r \<longleftrightarrow> o_status r = Out_PENDING \<or>
     o_status r = Out_CLAIMED \<and> (case o_claim_expires_at r of None \<Rightarrow> False | Some e \<Rightarrow> e \<le> now)"

text \<open>
  The candidates of \<open>CLAIM_OUTBOX_BATCH\<close>: claimable rows that no other transaction has locked
  (\<open>FOR UPDATE SKIP LOCKED\<close>), oldest first, ties by id, at most \<open>limit\<close> of them.
\<close>

definition claim_candidates :: "string list \<Rightarrow> instant \<Rightarrow> nat \<Rightarrow> outbox_row list \<Rightarrow> outbox_row list" where
  "claim_candidates locked now limit rows =
     take limit (sort_key o_enqueued_at (sort_key o_outbox_id
       (filter (\<lambda>r. claimable now r \<and> o_outbox_id r \<notin> set locked) rows)))"

definition claim_set :: "string \<Rightarrow> instant \<Rightarrow> instant \<Rightarrow> nat \<Rightarrow> outbox_row \<Rightarrow> outbox_row" where
  "claim_set worker now expires t r = r\<lparr>o_status := Out_CLAIMED, o_claim_owner := Some worker,
     o_claim_fencing_token := Some t, o_claimed_at := Some now, o_claim_expires_at := Some expires\<rparr>"

definition claim_tokens :: "nat \<Rightarrow> outbox_row list \<Rightarrow> (string \<times> nat) list" where
  "claim_tokens seq rows = zip (map o_outbox_id rows) [seq..<seq + length rows]"

definition claim_row :: "(string \<times> nat) list \<Rightarrow> string \<Rightarrow> instant \<Rightarrow> instant \<Rightarrow> outbox_row \<Rightarrow> outbox_row" where
  "claim_row toks worker now expires r =
     (case map_of toks (o_outbox_id r) of None \<Rightarrow> r | Some t \<Rightarrow> claim_set worker now expires t r)"

text \<open>The statement: every candidate gets a token of its own from the sequence.\<close>

definition claim_batch_stmt ::
  "string list \<Rightarrow> string \<Rightarrow> instant \<Rightarrow> instant \<Rightarrow> nat \<Rightarrow> ('p wf_db, outbox_row list) prog" where
  "claim_batch_stmt locked worker now expires limit = (\<lambda>db.
     let cs = claim_candidates locked now limit (notification_outbox db);
         toks = claim_tokens (wf_outbox_fencing_seq db) cs
     in (Inr (map (claim_row toks worker now expires) cs),
         db\<lparr>notification_outbox := map (claim_row toks worker now expires) (notification_outbox db),
            wf_outbox_fencing_seq := wf_outbox_fencing_seq db + length cs\<rparr>))"

definition claim_of_row :: "outbox_row \<Rightarrow> outbox_claim" where
  "claim_of_row r = \<lparr>cl_outboxId = o_outbox_id r, cl_decisionRef = o_decision_ref r,
     cl_alertRef = o_alert_ref r, cl_channel = o_channel r, cl_payloadHash = o_payload_hash r,
     cl_fencingToken = (case o_claim_fencing_token r of Some t \<Rightarrow> t | None \<Rightarrow> 0),
     cl_claimedAt = o_claimed_at r, cl_claimExpiresAt = o_claim_expires_at r,
     cl_attempts = o_attempts r, cl_enqueuedAt = o_enqueued_at r\<rparr>"

definition MAX_BATCH_LIMIT :: rat where
  "MAX_BATCH_LIMIT = 1000"

text \<open>The argument checks: the lease duration and the batch limit of a claim.\<close>

definition claim_lease :: "jsnum option \<Rightarrow> jsnum res" where
  "claim_lease leaseMs =
     (let lease = (case leaseMs of Some l \<Rightarrow> l | None \<Rightarrow> Fin 30000)
      in if \<not> js_isFinite lease \<or> js_le lease (Fin 0)
         then Inl (ForesiftError WF_OUTBOX_TRANSITION_INVALID) else Inr lease)"

definition claim_limit :: "jsnum option \<Rightarrow> nat res" where
  "claim_limit limit =
     (case (case limit of Some l \<Rightarrow> l | None \<Rightarrow> Fin 10) of
        Fin n \<Rightarrow> if n \<noteq> of_int \<lfloor>n\<rfloor> \<or> n \<le> 0 \<or> MAX_BATCH_LIMIT < n
                 then Inl (ForesiftError WF_OUTBOX_TRANSITION_INVALID) else Inr (nat \<lfloor>n\<rfloor>)
      | _ \<Rightarrow> Inl (ForesiftError WF_OUTBOX_TRANSITION_INVALID))"

definition claimOutboxBatch ::
  "instant \<Rightarrow> string list \<Rightarrow> string \<Rightarrow> iso option \<Rightarrow> jsnum option \<Rightarrow> jsnum option \<Rightarrow>
   ('p wf_db, outbox_claim list) prog" where
  "claimOutboxBatch clock locked workerId now leaseMs limit =
     bindP (liftE (requireText workerId)) (\<lambda>worker.
     bindP (liftE (outbox_nowIso clock now)) (\<lambda>now.
     bindP (liftE (claim_lease leaseMs)) (\<lambda>lease.
     bindP (liftE (claim_limit limit)) (\<lambda>limit.
     bindP (liftE (addMs now lease)) (\<lambda>expires.
     bindP (claim_batch_stmt locked worker now expires limit) (\<lambda>rows.
     ret (map claim_of_row rows)))))))"

section \<open>Delivering claims\<close>

text \<open>The delivery worker works on the store and on a channel of any kind \<open>'c\<close>.\<close>

type_synonym 'c world = "jsval wf_db \<times> 'c"

definition on_db :: "(jsval wf_db, 'a) prog \<Rightarrow> ('c world, 'a) prog" where
  "on_db m = (\<lambda>(db, c). case m db of (r, db') \<Rightarrow> (r, (db', c)))"

definition on_channel :: "('c, 'a) prog \<Rightarrow> ('c world, 'a) prog" where
  "on_channel m = (\<lambda>(db, c). case m c of (r, c') \<Rightarrow> (r, (db, c')))"

definition defaultResolvePayload :: "outbox_claim \<Rightarrow> jsval wf_db \<Rightarrow> jsval res" where
  "defaultResolvePayload claim db =
     (case Option.bind (cl_alertRef claim) (\<lambda>a. row_by a_alert_id a (alert_records db)) of
        Some alert \<Rightarrow> Inr (a_payload alert)
      | None \<Rightarrow> (case row_by d_decision_id (cl_decisionRef claim) (decision_commits db) of
            Some decision \<Rightarrow> Inr (d_payload decision)
          | None \<Rightarrow> Inl (ForesiftError WF_OUTBOX_PAYLOAD_INVALID)))"

definition isClaimCurrent :: "outbox_claim \<Rightarrow> string \<Rightarrow> instant \<Rightarrow> jsval wf_db \<Rightarrow> bool" where
  "isClaimCurrent claim workerId now db =
     (case outbox_of db (cl_outboxId claim) of
        None \<Rightarrow> False
      | Some row \<Rightarrow>
          o_status row = Out_CLAIMED \<and> o_claim_owner row = Some workerId \<and>
          (case o_claim_fencing_token row of Some t \<Rightarrow> t | None \<Rightarrow> 0) = cl_fencingToken claim \<and>
          (case o_claim_expires_at row of None \<Rightarrow> False | Some e \<Rightarrow> now < e))"

text \<open>\<open>OUTBOX_RUN_SHADOW\<close>: the shadow flag of the run that owns the row's decision.\<close>

definition owning_shadow :: "'p wf_db \<Rightarrow> string \<Rightarrow> bool option" where
  "owning_shadow db outboxId =
     Option.bind (outbox_of db outboxId) (\<lambda>ob.
     Option.bind (row_by d_decision_id (o_decision_ref ob) (decision_commits db)) (\<lambda>d.
     map_option r_shadow (run_of db (d_run_id d))))"

definition outbox_update ::
  "(outbox_row \<Rightarrow> bool) \<Rightarrow> string \<Rightarrow> (outbox_row \<Rightarrow> outbox_row) \<Rightarrow> (jsval wf_db, outbox_row list) prog" where
  "outbox_update p outboxId f =
     update_stmt notification_outbox notification_outbox_update outbox_checks
       (\<lambda>_ r. o_outbox_id r = outboxId \<and> p r) f"

definition mark_suppressed_shadow :: "string \<Rightarrow> (jsval wf_db, outbox_row list) prog" where
  "mark_suppressed_shadow outboxId =
     outbox_update (\<lambda>r. o_status r = Out_PENDING \<or> o_status r = Out_CLAIMED) outboxId
       (\<lambda>r. r\<lparr>o_status := Out_SUPPRESSED_SHADOW, o_claim_owner := None, o_claim_fencing_token := None,
              o_claim_expires_at := None,
              o_last_error := Some ''FR-WF-008: shadow-run notification delivery refused''\<rparr>)"

text \<open>The guard of \<open>MARK_SENT\<close> and \<open>MARK_RETRY\<close>: the row is still under this very claim.\<close>

definition claim_held :: "string \<Rightarrow> nat \<Rightarrow> outbox_row \<Rightarrow> bool" where
  "claim_held worker token r \<longleftrightarrow>
     o_status r = Out_CLAIMED \<and> o_claim_owner r = Some worker \<and> o_claim_fencing_token r = Some token"

definition mark_sent :: "outbox_claim \<Rightarrow> instant \<Rightarrow> string \<Rightarrow> (jsval wf_db, outbox_row list) prog" where
  "mark_sent claim now worker =
     outbox_update (claim_held worker (cl_fencingToken claim)) (cl_outboxId claim)
       (\<lambda>r. r\<lparr>o_status := Out_SENT, o_sent_at := Some now, o_last_error := None\<rparr>)"

definition mark_retry ::
  "outbox_status \<Rightarrow> int \<Rightarrow> string \<Rightarrow> outbox_claim \<Rightarrow> string \<Rightarrow> (jsval wf_db, outbox_row list) prog" where
  "mark_retry status attempts diagnostic claim worker =
     outbox_update (claim_held worker (cl_fencingToken claim)) (cl_outboxId claim)
       (\<lambda>r. r\<lparr>o_status := status, o_attempts := attempts, o_claim_owner := None,
              o_claim_fencing_token := None, o_claim_expires_at := None, o_last_error := Some diagnostic\<rparr>)"

text \<open>
  \<open>errorDiagnostic\<close>: \<open>nameOf\<close> is the \<open>name\<close> property of a thrown \<open>Error\<close>, absent when the thrown
  value is none.
\<close>

definition errorDiagnostic :: "(js_error \<Rightarrow> string option) \<Rightarrow> js_error \<Rightarrow> string" where
  "errorDiagnostic nameOf e =
     (case nameOf e of
        None \<Rightarrow> ''unknown channel failure''
      | Some name \<Rightarrow>
          (case e of
             ForesiftError c \<Rightarrow> name @ '':'' @ error_code_text c
           | NotificationChannelError _ \<Rightarrow> name @ '':WF_NOTIFICATION_CHANNEL_FAILED''
           | NotificationChannelCrashError \<Rightarrow> name @ '':WF_NOTIFICATION_CHANNEL_CRASHED''
           | _ \<Rightarrow> name))"

definition no_context :: attempt_context where
  "no_context = \<lparr>ctx_errorClass = None, ctx_lastValidCheckpointRef = None, ctx_retryAfterMs = None,
     ctx_budgetRemainingMs = None\<rparr>"

text \<open>What a delivery call fixes for all its claims.\<close>

record 'c delivery =
  dv_sha :: "string \<Rightarrow> string"
  dv_nameOf :: "js_error \<Rightarrow> string option"
  dv_send :: "send_request \<Rightarrow> ('c, send_ack) prog"
  dv_resolvePayload :: "(outbox_claim \<Rightarrow> ('c world, jsval) prog) option"
  dv_worker :: string
  dv_now :: instant
  dv_maxAttempts :: "jsnum option"

definition outcome :: "outbox_claim \<Rightarrow> delivery_outcome \<Rightarrow> int \<Rightarrow> string option \<Rightarrow> outcome_row" where
  "outcome claim kind attempts detail =
     \<lparr>or_outboxId = cl_outboxId claim, or_outcome = kind, or_attempts = attempts, or_detail = detail\<rparr>"

text \<open>The \<open>catch\<close> of \<open>resolvePayload\<close>: a crash goes through, anything else is retried or failed.\<close>

definition resolve_failed ::
  "'c delivery \<Rightarrow> jsnum \<Rightarrow> (nat \<Rightarrow> 'c world \<Rightarrow> 'c world) \<Rightarrow> outbox_claim \<Rightarrow> outbox_row \<Rightarrow> js_error \<Rightarrow>
   ('c world, outcome_row) prog" where
  "resolve_failed dv random env claim row e =
     (if e = NotificationChannelCrashError then raise e
      else let diagnostic = errorDiagnostic (dv_nameOf dv) e; attempts = o_attempts row + 1
           in bindP (liftE (planAttempt NOTIFICATION_TRANSIENT (Fin (of_int attempts)) random no_context)) (\<lambda>plan.
              let nextStatus = (if pl_action plan = RETRY then Out_PENDING else Out_FAILED)
              in bindP (gap env 4) (\<lambda>_.
                 bindP (on_db (mark_retry nextStatus attempts diagnostic claim (dv_worker dv))) (\<lambda>_.
                 ret (outcome claim (if nextStatus = Out_PENDING then D_RETRY_SCHEDULED else D_FAILED)
                        attempts (Some diagnostic))))))"

text \<open>The \<open>catch\<close> of \<open>channel.send\<close>.\<close>

definition send_failed ::
  "'c delivery \<Rightarrow> jsnum \<Rightarrow> (nat \<Rightarrow> 'c world \<Rightarrow> 'c world) \<Rightarrow> outbox_claim \<Rightarrow> outbox_row \<Rightarrow> js_error \<Rightarrow>
   ('c world, outcome_row) prog" where
  "send_failed dv random env claim row e =
     (if e = NotificationChannelCrashError then raise e
      else let attempts = o_attempts row + 1; transient = isTransientChannelError e
           in bindP (liftE (planAttempt NOTIFICATION_TRANSIENT (Fin (of_int attempts)) random no_context)) (\<lambda>plan.
              let nextStatus =
                    (if transient \<and> (case dv_maxAttempts dv of None \<Rightarrow> True | Some m \<Rightarrow> js_lt (Fin (of_int attempts)) m)
                     then if pl_action plan = RETRY then Out_PENDING else Out_FAILED
                     else Out_FAILED);
                  diagnostic = errorDiagnostic (dv_nameOf dv) e
              in bindP (gap env 6) (\<lambda>_.
                 bindP (on_db (mark_retry nextStatus attempts diagnostic claim (dv_worker dv))) (\<lambda>updated.
                 if updated = []
                 then ret (outcome claim D_STALE attempts (Some ''claim changed while the send was failing''))
                 else ret (outcome claim (if nextStatus = Out_PENDING then D_RETRY_SCHEDULED else D_FAILED)
                             attempts (Some diagnostic))))))"

text \<open>From the resolved payload on: the content-address check, the send, the \<open>SENT\<close> mark.\<close>

definition hash_mismatch_text :: "'c delivery \<Rightarrow> outbox_row \<Rightarrow> string \<Rightarrow> string" where
  "hash_mismatch_text dv row resolvedHash =
     errorDiagnostic (dv_nameOf dv) (ForesiftError WF_OUTBOX_PAYLOAD_INVALID) @
     '' payload hash mismatch (stored '' @ o_payload_hash row @ '', recomputed '' @ resolvedHash @ '')''"

definition send_claim ::
  "'c delivery \<Rightarrow> jsnum \<Rightarrow> (nat \<Rightarrow> 'c world \<Rightarrow> 'c world) \<Rightarrow> outbox_claim \<Rightarrow> outbox_row \<Rightarrow> jsval \<Rightarrow>
   ('c world, outcome_row) prog" where
  "send_claim dv random env claim row payload =
     bindP (liftE (canonicalJson payload)) (\<lambda>text.
     let resolvedHash = sha256Text (dv_sha dv) text
     in if resolvedHash \<noteq> o_payload_hash row
        then let attempts = o_attempts row + 1; diagnostic = hash_mismatch_text dv row resolvedHash
             in bindP (gap env 5) (\<lambda>_.
                bindP (on_db (mark_retry Out_FAILED attempts diagnostic claim (dv_worker dv))) (\<lambda>_.
                ret (outcome claim D_FAILED attempts (Some diagnostic))))
        else bindP (gap env 5) (\<lambda>_.
             bindP (outcomeP (on_channel (dv_send dv
                      \<lparr>q_idempotencyKey = cl_outboxId claim, q_channel = o_channel row,
                       q_payload = payload, q_payloadHash = o_payload_hash row\<rparr>))) (\<lambda>r.
             case r of
               Inl e \<Rightarrow> send_failed dv random env claim row e
             | Inr _ \<Rightarrow>
                 bindP (gap env 6) (\<lambda>_.
                 bindP (on_db (mark_sent claim (dv_now dv) (dv_worker dv))) (\<lambda>marked.
                 if marked = []
                 then ret (outcome claim D_STALE (o_attempts row) (Some ''claim changed before the SENT mark''))
                 else ret (outcome claim D_SENT (o_attempts row) None))))))"

definition resolve_claim :: "'c delivery \<Rightarrow> outbox_claim \<Rightarrow> ('c world, jsval) prog" where
  "resolve_claim dv claim =
     (case dv_resolvePayload dv of
        Some f \<Rightarrow> f claim
      | None \<Rightarrow> on_db (bindP (reads (defaultResolvePayload claim)) liftE))"

text \<open>A claim that passed the freshness test: resolve the payload, then send.\<close>

definition deliver_current ::
  "'c delivery \<Rightarrow> jsnum \<Rightarrow> (nat \<Rightarrow> 'c world \<Rightarrow> 'c world) \<Rightarrow> outbox_claim \<Rightarrow> outbox_row \<Rightarrow> ('c world, outcome_row) prog" where
  "deliver_current dv random env claim row =
     bindP (gap env 3) (\<lambda>_.
     bindP (outcomeP (resolve_claim dv claim)) (\<lambda>r.
     case r of
       Inl e \<Rightarrow> resolve_failed dv random env claim row e
     | Inr payload \<Rightarrow> send_claim dv random env claim row payload))"

text \<open>A row of a run that is not shadow: the claim must still be current.\<close>

definition deliver_unsuppressed ::
  "'c delivery \<Rightarrow> jsnum \<Rightarrow> (nat \<Rightarrow> 'c world \<Rightarrow> 'c world) \<Rightarrow> outbox_claim \<Rightarrow> outbox_row \<Rightarrow> ('c world, outcome_row) prog" where
  "deliver_unsuppressed dv random env claim row =
     bindP (gap env 2) (\<lambda>_.
     bindP (on_db (reads (isClaimCurrent claim (dv_worker dv) (dv_now dv)))) (\<lambda>current.
     if \<not> current
     then ret (outcome claim D_STALE (o_attempts row) (Some ''claim owner/token is no longer current''))
     else deliver_current dv random env claim row))"

text \<open>The second shadow choke point: the owning run is read again for every claimed row.\<close>

definition deliver_shadow_checked ::
  "'c delivery \<Rightarrow> jsnum \<Rightarrow> (nat \<Rightarrow> 'c world \<Rightarrow> 'c world) \<Rightarrow> outbox_claim \<Rightarrow> outbox_row \<Rightarrow> ('c world, outcome_row) prog" where
  "deliver_shadow_checked dv random env claim row =
     bindP (gap env 0) (\<lambda>_.
     bindP (on_db (reads (\<lambda>db. owning_shadow db (cl_outboxId claim)))) (\<lambda>shadow.
     if shadow = Some True
     then bindP (gap env 1) (\<lambda>_.
          bindP (on_db (mark_suppressed_shadow (cl_outboxId claim))) (\<lambda>_.
          ret (outcome claim D_REFUSED_SUPPRESSED (o_attempts row)
            (Some ''the owning run is shadow, so its notification is never deliverable''))))
     else deliver_unsuppressed dv random env claim row))"

text \<open>One iteration of the loop of \<open>deliverClaimed\<close>.\<close>

definition deliver_one ::
  "'c delivery \<Rightarrow> jsnum \<Rightarrow> (nat \<Rightarrow> 'c world \<Rightarrow> 'c world) \<Rightarrow> outbox_claim \<Rightarrow> ('c world, outcome_row) prog" where
  "deliver_one dv random env claim =
     bindP (on_db (reads (\<lambda>db. outbox_of db (cl_outboxId claim)))) (\<lambda>found.
     case found of
       None \<Rightarrow> ret (outcome claim D_NOT_FOUND (cl_attempts claim) (Some ''outbox row no longer exists''))
     | Some row \<Rightarrow>
         bindP (liftE (parseOutboxStatus (Some (outbox_status_text (o_status row))))) (\<lambda>status.
         if status = Out_SUPPRESSED_SHADOW \<or> status = Out_SUPPRESSED_OUTAGE
         then ret (outcome claim D_REFUSED_SUPPRESSED (o_attempts row)
                     (Some (''suppressed row status '' @ outbox_status_text status @ '' is never deliverable'')))
         else deliver_shadow_checked dv random env claim row))"

fun deliver_loop ::
  "'c delivery \<Rightarrow> (nat \<Rightarrow> jsnum) \<Rightarrow> (nat \<Rightarrow> nat \<Rightarrow> 'c world \<Rightarrow> 'c world) \<Rightarrow> nat \<Rightarrow> outbox_claim list \<Rightarrow>
   ('c world, outcome_row list) prog" where
  "deliver_loop dv random env i [] = ret []"
| "deliver_loop dv random env i (claim # claims) =
     bindP (deliver_one dv (random i) (env i) claim) (\<lambda>row.
     bindP (deliver_loop dv random env (Suc i) claims) (\<lambda>rows. ret (row # rows)))"

definition report_of :: "outcome_row list \<Rightarrow> deliver_report" where
  "report_of rows =
     (let ids = (\<lambda>kinds. map or_outboxId (filter (\<lambda>r. or_outcome r \<in> set kinds) rows))
      in \<lparr>rep_outcomes = rows, rep_sent = ids [D_SENT], rep_retried = ids [D_RETRY_SCHEDULED],
          rep_failed = ids [D_FAILED], rep_stale = ids [D_STALE, D_NOT_FOUND],
          rep_refusedSuppressed = ids [D_REFUSED_SUPPRESSED]\<rparr>)"

text \<open>The claims a worker finds when none are handed in: \<open>ORDER BY claimed_at, outbox_id\<close>, nulls last.\<close>

definition owned_claims :: "string \<Rightarrow> outbox_row list \<Rightarrow> outbox_claim list" where
  "owned_claims worker rows =
     map claim_of_row (sort_key (\<lambda>r. o_claimed_at r = None)
       (sort_key (\<lambda>r. case o_claimed_at r of Some t \<Rightarrow> t | None \<Rightarrow> 0)
       (sort_key o_outbox_id
       (filter (\<lambda>r. o_status r = Out_CLAIMED \<and> o_claim_owner r = Some worker) rows))))"

definition deliverClaimed ::
  "'c delivery \<Rightarrow> instant \<Rightarrow> iso option \<Rightarrow> (nat \<Rightarrow> jsnum) \<Rightarrow> (nat \<Rightarrow> nat \<Rightarrow> 'c world \<Rightarrow> 'c world) \<Rightarrow>
   outbox_claim list option \<Rightarrow> ('c world, deliver_report) prog" where
  "deliverClaimed dv clock nowInput random env claimsInput =
     bindP (liftE (requireText (dv_worker dv))) (\<lambda>worker.
     bindP (liftE (outbox_nowIso clock nowInput)) (\<lambda>now.
     bindP (case claimsInput of
              Some cs \<Rightarrow> ret cs
            | None \<Rightarrow> on_db (reads (\<lambda>db. owned_claims worker (notification_outbox db)))) (\<lambda>claims.
     bindP (deliver_loop (dv\<lparr>dv_now := now\<rparr>) random env 0 claims) (\<lambda>rows.
     ret (report_of rows)))))"

end
