(* ===== verification/OutboxCommit.thy ===== *)
theory OutboxCommit
  imports Outbox
begin

text \<open>
  The commit boundary and the claims of the outbox: a commit is all or nothing and a shadow run
  never gets a deliverable entry; a claim takes only free rows, oldest first, each under a
  fresh token; and a claim that was superseded can never act on its row again (the second
  instance of the fencing contract).
\<close>

section \<open>The commit boundary\<close>

lemma commit_status_ok:
  "commit_status shadow influence x = Inr status \<longleftrightarrow>
     \<not> (shadow \<and> influence = POLICY_WRITE_BACK) \<and>
     status = (if shadow then Out_SUPPRESSED_SHADOW
               else if x = ''PROVIDER_OUTAGE'' then Out_SUPPRESSED_OUTAGE else Out_PENDING)"
  by (cases influence)
    (auto simp: commit_status_def assertNoOpportunityInfluence_def shadowSuppressionFor_def shadowSuppresses_iff)

lemma insert_stmt_ok:
  "insert_stmt upd ok row s = (Inr u, t) \<longleftrightarrow> ok s row \<and> t = upd (\<lambda>rows. rows @ [row]) s"
  by (auto simp: insert_stmt_def)

lemma not_null_ok: "not_null (serialisePayload p) = Inr v \<longleftrightarrow> p \<noteq> JsUndefined \<and> p \<noteq> JsFun \<and> v = jsonb p"
  by (auto simp: not_null_def serialisePayload_def)

text \<open>The store after a commit: one new row in each of the three tables.\<close>

definition committed_db ::
  "commit_input \<Rightarrow> string \<Rightarrow> outbox_status \<Rightarrow> string \<Rightarrow> string \<Rightarrow> string \<Rightarrow> instant \<Rightarrow> jsval wf_db \<Rightarrow> jsval wf_db" where
  "committed_db input outboxId status dh ah oh now db = db\<lparr>
     decision_commits := decision_commits db @ [new_decision_row input (jsonb (di_payload (ci_decision input))) dh now],
     alert_records := alert_records db @ [new_alert_row input (jsonb (ai_payload (ci_alert input))) ah now],
     notification_outbox := notification_outbox db @ [new_outbox_row input outboxId oh status now]\<rparr>"

lemma commit_tx_ok:
  assumes "commit_tx outboxId input now influence x dh ah oh db = (Inr r, db')"
  obtains run where "run_of db (ci_runId input) = Some run"
    and "commit_status (r_shadow run) influence x = Inr (cr_status r)"
    and "r = \<lparr>cr_outboxId = outboxId, cr_status = cr_status r, cr_decisionId = di_decisionId (ci_decision input),
           cr_alertId = ai_alertId (ci_alert input), cr_suppressed = (cr_status r \<noteq> Out_PENDING)\<rparr>"
    and "db' = committed_db input outboxId (cr_status r) dh ah oh now db"
    and "outbox_of db outboxId = None" and "outbox_checks (new_outbox_row input outboxId oh (cr_status r) now)"
    and "row_by d_decision_id (di_decisionId (ci_decision input)) (decision_commits db) = None"
    and "row_by a_alert_id (ai_alertId (ci_alert input)) (alert_records db) = None"
proof -
  from assms obtain run status where run: "run_of db (ci_runId input) = Some run"
    and st: "commit_status (r_shadow run) influence x = Inr status"
    by (auto simp: commit_tx_def bindP_liftE split: option.splits sum.splits)
  with assms show thesis
    by (intro that [of run])
      (auto simp: commit_tx_def bindP_liftE bindP_eq_Inr decision_insert_def alert_insert_def outbox_insert_def
        insert_stmt_ok not_null_ok committed_db_def new_decision_row_def new_alert_row_def new_outbox_row_def
        split: sum.splits)
qed

lemma commit_ok:
  assumes "commitDecisionWithOutbox sha clock uuid input db = (Inr r, db')"
  obtains run now x dh ah oh where "run_of db (ci_runId input) = Some run"
    and "x = (case ci_outcome input of Some x \<Rightarrow> x | None \<Rightarrow> ''NORMAL'')" and "x \<in> {''NORMAL'', ''PROVIDER_OUTAGE''}"
    and "commit_status (r_shadow run) (case ci_influence input of Some i \<Rightarrow> i | None \<Rightarrow> OPPORTUNITY_NOTIFICATION) x
         = Inr (cr_status r)"
    and "contentHash sha (di_payload (ci_decision input)) (di_payloadHash (ci_decision input)) = Inr dh"
    and "contentHash sha (ai_payload (ci_alert input)) (ai_payloadHash (ci_alert input)) = Inr ah"
    and "oh = (case oi_payloadHash (ci_outbox input) of Some h \<Rightarrow> h | None \<Rightarrow> ah)"
    and "cr_outboxId r = (case oi_outboxId (ci_outbox input) of Some i \<Rightarrow> i | None \<Rightarrow> ''wfo_'' @ uuid)"
    and "cr_suppressed r = (cr_status r \<noteq> Out_PENDING)"
    and "db' = committed_db input (cr_outboxId r) (cr_status r) dh ah oh now db"
    and "outbox_of db (cr_outboxId r) = None"
    and "outbox_checks (new_outbox_row input (cr_outboxId r) oh (cr_status r) now)"
    and "row_by d_decision_id (di_decisionId (ci_decision input)) (decision_commits db) = None"
    and "row_by a_alert_id (ai_alertId (ci_alert input)) (alert_records db) = None"
proof -
  define x where "x = (case ci_outcome input of Some x \<Rightarrow> x | None \<Rightarrow> ''NORMAL'')"
  define infl where "infl = (case ci_influence input of Some i \<Rightarrow> i | None \<Rightarrow> OPPORTUNITY_NOTIFICATION)"
  define oid where "oid = (case oi_outboxId (ci_outbox input) of Some i \<Rightarrow> i | None \<Rightarrow> ''wfo_'' @ uuid)"
  from assms obtain now dh ah where dh: "contentHash sha (di_payload (ci_decision input)) (di_payloadHash (ci_decision input)) = Inr dh"
    and ah: "contentHash sha (ai_payload (ci_alert input)) (ai_payloadHash (ci_alert input)) = Inr ah"
    and x: "x \<in> {''NORMAL'', ''PROVIDER_OUTAGE''}"
    and tx: "commit_tx oid input now infl x dh ah
        (case oi_payloadHash (ci_outbox input) of Some h \<Rightarrow> h | None \<Rightarrow> ah) db = (Inr r, db')"
    unfolding commitDecisionWithOutbox_def Let_def x_def [symmetric] infl_def [symmetric] oid_def [symmetric]
    by (auto simp: bindP_liftE split: sum.splits if_splits)
  from tx show thesis
  proof (rule commit_tx_ok)
    fix run
    assume t: "run_of db (ci_runId input) = Some run" "commit_status (r_shadow run) infl x = Inr (cr_status r)"
      "r = \<lparr>cr_outboxId = oid, cr_status = cr_status r, cr_decisionId = di_decisionId (ci_decision input),
           cr_alertId = ai_alertId (ci_alert input), cr_suppressed = (cr_status r \<noteq> Out_PENDING)\<rparr>"
      "db' = committed_db input oid (cr_status r) dh ah (case oi_payloadHash (ci_outbox input) of Some h \<Rightarrow> h | None \<Rightarrow> ah) now db"
      "outbox_of db oid = None"
      "outbox_checks (new_outbox_row input oid (case oi_payloadHash (ci_outbox input) of Some h \<Rightarrow> h | None \<Rightarrow> ah) (cr_status r) now)"
      "row_by d_decision_id (di_decisionId (ci_decision input)) (decision_commits db) = None"
      "row_by a_alert_id (ai_alertId (ci_alert input)) (alert_records db) = None"
    have "cr_outboxId r = oid" "cr_suppressed r = (cr_status r \<noteq> Out_PENDING)"
      by (subst t(3); simp)+
    with t dh ah x show thesis
      by (intro that [of run x dh ah _ now]) (simp_all add: x_def infl_def oid_def)
  qed
qed

lemma commit_throw:
  assumes "commitDecisionWithOutbox sha clock uuid input db = (Inl e, db')"
  shows "db' = db"
  using assms unfolding commitDecisionWithOutbox_def Let_def
  by (auto simp: bindP_liftE split: sum.splits if_splits dest: transaction_rollback)

section \<open>Claims\<close>

definition claim_token :: "'p wf_db \<Rightarrow> string \<Rightarrow> nat option" where
  "claim_token db k =
     (case outbox_of db k of
        None \<Rightarrow> None
      | Some r \<Rightarrow> if o_status r = Out_CLAIMED then o_claim_fencing_token r else None)"

lemma claim_row_key [simp]: "o_outbox_id (claim_row toks w now e r) = o_outbox_id r"
  by (simp add: claim_row_def claim_set_def split: option.split)

lemma candidates_set:
  assumes "r \<in> set (claim_candidates locked now n rows)"
  shows "r \<in> set rows" and "claimable now r" and "o_outbox_id r \<notin> set locked"
  using assms by (auto simp: claim_candidates_def dest!: in_set_takeD)

lemma distinct_sort_key: "distinct (map f xs) \<Longrightarrow> distinct (map f (sort_key g xs))"
  by (metis distinct_map distinct_sort set_sort)

lemma candidates_distinct:
  assumes "keys_distinct o_outbox_id rows"
  shows "keys_distinct o_outbox_id (claim_candidates locked now n rows)"
  using assms unfolding keys_distinct_def claim_candidates_def
  by (auto simp: take_map [symmetric] intro!: distinct_take distinct_sort_key distinct_map_filter)

lemma row_by_map:
  assumes "\<And>r. key (f r) = key r"
  shows "row_by key k (map f rows) = map_option f (row_by key k rows)"
  using assms by (induction rows) auto

lemma claim_tokens_Some:
  "map_of (claim_tokens seq cs) k = Some t \<Longrightarrow> \<exists>i < length cs. k = o_outbox_id (cs ! i) \<and> t = seq + i"
  by (auto simp: claim_tokens_def in_set_zip dest!: map_of_SomeD)

lemma claim_tokens_inj:
  "map_of (claim_tokens seq cs) k = Some t \<Longrightarrow> map_of (claim_tokens seq cs) k' = Some t \<Longrightarrow> k = k'"
  by (auto dest!: claim_tokens_Some)

lemma claim_tokens_row:
  assumes "keys_distinct o_outbox_id cs" and "i < length cs"
  shows "map_of (claim_tokens seq cs) (o_outbox_id (cs ! i)) = Some (seq + i)"
  using assms map_of_zip_nth [of "map o_outbox_id cs" "[seq..<seq + length cs]" i]
  by (simp add: claim_tokens_def keys_distinct_def)

lemma claim_tokens_iff: "map_of (claim_tokens seq cs) k = None \<longleftrightarrow> k \<notin> o_outbox_id ` set cs"
  by (simp add: claim_tokens_def map_of_zip_is_None)

text \<open>Only a claimable row is claimed, and only under a fresh token.\<close>

lemma claim_batch_lookup:
  assumes "claim_batch_stmt locked w now e n db = (res, db')"
  shows "outbox_of db' k = map_option (claim_row (claim_tokens (wf_outbox_fencing_seq db)
      (claim_candidates locked now n (notification_outbox db))) w now e) (outbox_of db k)"
    and "wf_outbox_fencing_seq db \<le> wf_outbox_fencing_seq db'"
    and "map o_outbox_id (notification_outbox db') = map o_outbox_id (notification_outbox db)"
    and "map_of (claim_tokens (wf_outbox_fencing_seq db) (claim_candidates locked now n (notification_outbox db))) k
       = Some t \<Longrightarrow> wf_outbox_fencing_seq db \<le> t \<and> t < wf_outbox_fencing_seq db'"
  using assms by (auto simp: claim_batch_stmt_def Let_def row_by_map dest!: claim_tokens_Some)

definition outbox_ok :: "'p wf_db \<Rightarrow> bool" where
  "outbox_ok db \<longleftrightarrow> keys_distinct o_outbox_id (notification_outbox db) \<and> 0 < wf_outbox_fencing_seq db \<and>
     (\<forall>k t. claim_token db k = Some t \<longrightarrow> t < wf_outbox_fencing_seq db) \<and>
     (\<forall>k k' t. claim_token db k = Some t \<longrightarrow> claim_token db k' = Some t \<longrightarrow> k = k')"

lemma outbox_okI:
  assumes "keys_distinct o_outbox_id (notification_outbox db)" and "0 < wf_outbox_fencing_seq db"
    and "\<And>k t. claim_token db k = Some t \<Longrightarrow> t < wf_outbox_fencing_seq db"
    and "\<And>k k' t. claim_token db k = Some t \<Longrightarrow> claim_token db k' = Some t \<Longrightarrow> k = k'"
  shows "outbox_ok db"
  using assms unfolding outbox_ok_def by blast

lemma outbox_okD:
  assumes "outbox_ok db"
  shows "keys_distinct o_outbox_id (notification_outbox db)" and "0 < wf_outbox_fencing_seq db"
    and "claim_token db k = Some t \<Longrightarrow> t < wf_outbox_fencing_seq db"
    and "claim_token db k = Some t \<Longrightarrow> claim_token db k' = Some t \<Longrightarrow> k = k'"
  using assms unfolding outbox_ok_def by blast+

lemma outbox_ok_empty [simp]: "outbox_ok empty_db"
  by (simp add: outbox_ok_def empty_db_def keys_distinct_def claim_token_def)

text \<open>A step that issues no token: it keeps the keys and the sequence, and no claim appears or changes token.\<close>

lemma outbox_ok_quiet:
  assumes "outbox_ok db" and "keys_distinct o_outbox_id (notification_outbox db')"
    and "wf_outbox_fencing_seq db' = wf_outbox_fencing_seq db"
    and "\<And>k t. claim_token db' k = Some t \<Longrightarrow> claim_token db k = Some t"
  shows "outbox_ok db'"
  using assms unfolding outbox_ok_def by metis

lemma claim_token_batch:
  assumes "claim_batch_stmt locked w now e n db = (res, db')" and "claim_token db' k = Some t"
  shows "claim_token db k = Some t \<or>
    map_of (claim_tokens (wf_outbox_fencing_seq db) (claim_candidates locked now n (notification_outbox db))) k = Some t"
  using assms(2) claim_batch_lookup(1) [OF assms(1), of k]
  by (auto simp: claim_token_def claim_row_def claim_set_def dest: row_by_SomeD split: option.splits if_splits)

lemma outbox_ok_batch:
  assumes ok: "outbox_ok db" and run: "claim_batch_stmt locked w now e n db = (res, db')"
  shows "outbox_ok db'"
proof (rule outbox_okI)
  note look = claim_batch_lookup [OF run] and tok = claim_token_batch [OF run] and okD = outbox_okD [OF ok]
  show "keys_distinct o_outbox_id (notification_outbox db')"
    using okD(1) look(3) by (simp add: keys_distinct_def)
  show "0 < wf_outbox_fencing_seq db'" using okD(2) look(2) by simp
  show "t < wf_outbox_fencing_seq db'" if "claim_token db' k = Some t" for k t
    using tok [OF that] okD(3) [of k t] look(2,4) by fastforce
  show "k = k'" if a: "claim_token db' k = Some t" and b: "claim_token db' k' = Some t" for k k' t
    using tok [OF a] tok [OF b] okD(3) [of k t] okD(3) [of k' t] okD(4) [of k t k'] look(4)
      claim_tokens_inj by (metis leD)
qed

text \<open>A guarded update of one row, as a function of that row.\<close>

lemma notification_outbox_update_id:
  "g (notification_outbox db) = notification_outbox db \<Longrightarrow> notification_outbox_update g db = db"
  by (cases db) simp

lemma outbox_update_cases:
  assumes "outbox_update p k f db = (res, db')" and "keys_distinct o_outbox_id (notification_outbox db)"
    and "\<And>r. o_outbox_id (f r) = o_outbox_id r"
  obtains (none) "db' = db" and "res = Inr [] \<or> res = Inl SqlError"
      and "res = Inr [] \<longleftrightarrow> (case outbox_of db k of None \<Rightarrow> True | Some r \<Rightarrow> \<not> p r)"
    | (row) r rows where "outbox_of db k = Some r" and "p r" and "outbox_checks (f r)" and "res = Inr [f r]"
      and "db' = db\<lparr>notification_outbox := rows\<rparr>"
      and "map o_outbox_id rows = map o_outbox_id (notification_outbox db)"
      and "\<And>j. row_by o_outbox_id j rows = (if j = k then Some (f r) else outbox_of db j)"
proof -
  have run: "(res, db') = (case outbox_of db k of
       None \<Rightarrow> (Inr [], db)
     | Some r \<Rightarrow> if \<not> p r then (Inr [], db) else if \<not> outbox_checks (f r) then (Inl SqlError, db)
                else (Inr [f r], notification_outbox_update (sql_update (\<lambda>r. o_outbox_id r = k \<and> p r) f) db))"
    using assms(1) unfolding outbox_update_def
    by (subst (asm) update_stmt_row [where key = o_outbox_id and k = k and q = p])
      (use assms(2) notification_outbox_update_id in auto)
  show thesis
  proof (cases "\<exists>r. outbox_of db k = Some r \<and> p r \<and> outbox_checks (f r)")
    case False
    then show thesis using run none by (auto split: option.splits if_splits)
  next
    case True
    then obtain r where r: "outbox_of db k = Some r" "p r" "outbox_checks (f r)" by blast
    let ?rows = "sql_update (\<lambda>r. o_outbox_id r = k \<and> p r) f (notification_outbox db)"
    have look: "row_by o_outbox_id j ?rows = (if j = k then Some (f r) else outbox_of db j)" for j
    proof (cases "j = k")
      case True
      then show ?thesis using r by (auto simp: row_by_update assms(3) dest: row_by_SomeD)
    next
      case False
      then show ?thesis by (auto intro!: row_by_update_other simp: assms(3))
    qed
    from run r have res: "res = Inr [f r]" "db' = db\<lparr>notification_outbox := ?rows\<rparr>" by simp_all
    show thesis
      by (rule row [of r ?rows]) (use r res look assms(3) in simp_all)
  qed
qed

text \<open>The claim-ending updates never create a claim.\<close>

definition quiet :: "'p wf_db \<Rightarrow> 'p wf_db \<Rightarrow> bool" where
  "quiet db db' \<longleftrightarrow> outbox_ok db' \<and> wf_outbox_fencing_seq db' = wf_outbox_fencing_seq db \<and>
     (\<forall>k t. claim_token db' k = Some t \<longrightarrow> claim_token db k = Some t)"

lemma quiet_update:
  assumes "outbox_update p k f db = (res, db')" and "outbox_ok db"
    and "\<And>r. o_outbox_id (f r) = o_outbox_id r" and "\<And>r. o_status (f r) \<noteq> Out_CLAIMED"
  shows "quiet db db'"
  using assms(1) outbox_okD(1) [OF assms(2)] assms(3)
proof (cases rule: outbox_update_cases)
  case none
  then show ?thesis using assms(2) by (simp add: quiet_def)
next
  case (row r rows)
  have tok: "claim_token db' j = Some t \<Longrightarrow> claim_token db j = Some t" for j t
    using row assms(4) by (auto simp: claim_token_def split: if_splits)
  have "outbox_ok db'"
    by (rule outbox_ok_quiet [OF assms(2)])
      (use row(5,6) tok outbox_okD(1) [OF assms(2)] in \<open>simp_all add: keys_distinct_def\<close>)
  then show ?thesis using row(5) tok by (simp add: quiet_def)
qed

section \<open>The outbox protocol\<close>

text \<open>
  Every statement any worker may issue against the outbox, in any order and at any reading of
  any clock: the commit, the claim, and the three marks of the delivery worker.
\<close>

inductive outbox_step :: "jsval wf_db \<Rightarrow> jsval wf_db \<Rightarrow> bool" where
  commit: "commitDecisionWithOutbox sha clock uuid input db = (res, db') \<Longrightarrow> outbox_step db db'"
| claim: "claimOutboxBatch clock locked worker now lease limit db = (res, db') \<Longrightarrow> outbox_step db db'"
| sent: "mark_sent c t worker db = (res, db') \<Longrightarrow> outbox_step db db'"
| retry: "mark_retry status n diag c worker db = (res, db') \<Longrightarrow> status \<in> {Out_PENDING, Out_FAILED} \<Longrightarrow>
    outbox_step db db'"
| suppress: "mark_suppressed_shadow k db = (res, db') \<Longrightarrow> outbox_step db db'"

lemma claim_limit_ok: "claim_limit limit = Inr n \<Longrightarrow> 0 < n \<and> n \<le> 1000"
  by (auto simp: claim_limit_def MAX_BATCH_LIMIT_def not_le not_less split: jsnum.splits if_splits)
    (metis of_int_0_less_iff int_one_le_iff_zero_less of_int_1_le_iff)

lemma claimOutboxBatch_cases:
  assumes "claimOutboxBatch clock locked worker now lease limit db = (res, db')"
  obtains (refused) e where "res = Inl e" and "db' = db"
    | (claimed) t e n rows where "res = Inr (map claim_of_row rows)" and "outbox_nowIso clock now = Inr t"
      and "claim_limit limit = Inr n" and "claim_batch_stmt locked worker t e n db = (Inr rows, db')"
proof -
  have stmt: "\<exists>rows d. claim_batch_stmt locked w t e n db = (Inr rows, d)" for w t e n
    by (simp add: claim_batch_stmt_def Let_def)
  show thesis
  proof (cases res)
    case (Inl e)
    then have "db' = db" using assms stmt unfolding claimOutboxBatch_def
      by (auto simp: bindP_liftE bindP_eq_Inl split: sum.splits) (metis Pair_inject sum.distinct(1))
    with Inl refused show thesis by blast
  next
    case (Inr cs)
    then show thesis using assms claimed unfolding claimOutboxBatch_def
      by (auto simp: bindP_liftE bindP_eq_Inr requireText_def split: sum.splits if_splits)
  qed
qed

lemma quiet_commit:
  assumes "commitDecisionWithOutbox sha clock uuid input db = (res, db')" and "outbox_ok db"
  shows "quiet db db'"
proof (cases res)
  case (Inl e)
  then have "db' = db" using assms(1) commit_throw by blast
  then show ?thesis using assms(2) by (simp add: quiet_def)
next
  case (Inr r)
  with assms(1) have "commitDecisionWithOutbox sha clock uuid input db = (Inr r, db')" by simp
  then show ?thesis
  proof (rule commit_ok)
    fix run now x dh ah oh
    assume c: "commit_status (r_shadow run) (case ci_influence input of None \<Rightarrow> OPPORTUNITY_NOTIFICATION | Some i \<Rightarrow> i) x
        = Inr (cr_status r)" "db' = committed_db input (cr_outboxId r) (cr_status r) dh ah oh now db"
      "outbox_of db (cr_outboxId r) = None"
    have st: "cr_status r \<noteq> Out_CLAIMED" using c(1) by (auto simp: commit_status_ok split: if_splits)
    have tok: "claim_token db' k = claim_token db k" for k
      using c(2,3) st by (auto simp: committed_db_def claim_token_def new_outbox_row_def split: option.splits)
    have "outbox_ok db'"
      by (rule outbox_ok_quiet [OF assms(2)])
        (use c(2,3) tok outbox_okD(1) [OF assms(2)] in \<open>auto simp: committed_db_def new_outbox_row_def\<close>)
    then show ?thesis using tok c(2) by (simp add: committed_db_def quiet_def)
  qed
qed

lemma quiet_marks:
  assumes "outbox_ok db"
  shows "mark_sent c t w db = (res, db') \<Longrightarrow> quiet db db'"
    and "mark_retry status n diag c w db = (res, db') \<Longrightarrow> status \<in> {Out_PENDING, Out_FAILED} \<Longrightarrow> quiet db db'"
    and "mark_suppressed_shadow j db = (res, db') \<Longrightarrow> quiet db db'"
  unfolding mark_sent_def mark_retry_def mark_suppressed_shadow_def
  by (erule quiet_update [OF _ assms]; auto)+

text \<open>Every step is quiet or one claim statement.\<close>

lemma outbox_step_cases:
  assumes "outbox_step db db'" and "outbox_ok db"
  obtains "quiet db db'"
    | locked w t e n rows where "claim_batch_stmt locked w t e n db = (Inr rows, db')"
  using assms
  by (cases rule: outbox_step.cases)
    (auto dest: quiet_commit quiet_marks elim!: claimOutboxBatch_cases simp: quiet_def)

interpretation claim_fence: fenced_tokens outbox_step claim_token wf_outbox_fencing_seq outbox_ok
proof unfold_locales
  fix db db' :: "jsval wf_db" and k k' t
  show "outbox_ok db \<Longrightarrow> outbox_step db db' \<Longrightarrow> outbox_ok db'"
    by (erule outbox_step_cases) (auto simp: quiet_def intro: outbox_ok_batch)
  show "outbox_ok db \<Longrightarrow> claim_token db k = Some t \<Longrightarrow> t < wf_outbox_fencing_seq db"
    by (rule outbox_okD)
  show "outbox_ok db \<Longrightarrow> outbox_step db db' \<Longrightarrow> wf_outbox_fencing_seq db \<le> wf_outbox_fencing_seq db'"
    by (erule outbox_step_cases) (auto simp: quiet_def dest: claim_batch_lookup(2))
  show "outbox_ok db \<Longrightarrow> outbox_step db db' \<Longrightarrow> claim_token db' k = Some t \<Longrightarrow>
      claim_token db k = Some t \<or> wf_outbox_fencing_seq db \<le> t"
    by (erule outbox_step_cases) (auto simp: quiet_def dest: claim_token_batch claim_batch_lookup(4))
  show "outbox_ok db \<Longrightarrow> claim_token db k = Some t \<Longrightarrow> claim_token db k' = Some t \<Longrightarrow> k = k'"
    by (rule outbox_okD)
qed

text \<open>What a claim returned, in terms of the two stores.\<close>

lemma claimed_rows:
  assumes "claim_batch_stmt locked w now e n db = (Inr rows, db')" and "outbox_ok db" and "r \<in> set rows"
  shows "claim_token db' (o_outbox_id r) = o_claim_fencing_token r"
    and "\<exists>t \<ge> wf_outbox_fencing_seq db. o_claim_fencing_token r = Some t"
    and "\<exists>r0. outbox_of db (o_outbox_id r) = Some r0 \<and> claimable now r0 \<and> o_outbox_id r0 \<notin> set locked \<and>
          r = claim_set w now e (the (o_claim_fencing_token r)) r0"
    and "outbox_of db' (o_outbox_id r) = Some r"
proof -
  let ?cs = "claim_candidates locked now n (notification_outbox db)"
  let ?toks = "claim_tokens (wf_outbox_fencing_seq db) ?cs"
  have "rows = map (claim_row ?toks w now e) ?cs" using assms(1) by (simp add: claim_batch_stmt_def Let_def)
  then obtain i where i: "i < length ?cs" "r = claim_row ?toks w now e (?cs ! i)"
    using assms(3) by (auto simp: in_set_conv_nth)
  let ?r0 = "?cs ! i"
  have mem: "?r0 \<in> set ?cs" using i(1) by simp
  have tok: "map_of ?toks (o_outbox_id ?r0) = Some (wf_outbox_fencing_seq db + i)"
    using claim_tokens_row [OF candidates_distinct [OF outbox_okD(1) [OF assms(2)]] i(1)] by simp
  then have r: "r = claim_set w now e (wf_outbox_fencing_seq db + i) ?r0"
    using i(2) by (simp add: claim_row_def)
  have row0: "outbox_of db (o_outbox_id ?r0) = Some ?r0"
    using candidates_set(1) [OF mem] outbox_okD(1) [OF assms(2)] by (simp add: row_by_eq_Some_iff)
  have id: "o_outbox_id r = o_outbox_id ?r0" using r by (simp add: claim_set_def)
  show row: "outbox_of db' (o_outbox_id r) = Some r"
    using claim_batch_lookup(1) [OF assms(1)] row0 id i(2) by simp
  show "claim_token db' (o_outbox_id r) = o_claim_fencing_token r"
    using row r by (simp add: claim_token_def claim_set_def)
  show "\<exists>t \<ge> wf_outbox_fencing_seq db. o_claim_fencing_token r = Some t" using r by (simp add: claim_set_def)
  show "\<exists>r0. outbox_of db (o_outbox_id r) = Some r0 \<and> claimable now r0 \<and> o_outbox_id r0 \<notin> set locked \<and>
          r = claim_set w now e (the (o_claim_fencing_token r)) r0"
    using row0 id candidates_set(2,3) [OF mem] r by (auto simp: claim_set_def)
qed

lemma claim_batch_token:
  assumes "claimOutboxBatch clock locked w now lease limit d = (Inr cs, d')" and "c \<in> set cs" and "outbox_ok d"
  shows "claim_token d' (cl_outboxId c) = Some (cl_fencingToken c) \<and> wf_outbox_fencing_seq d \<le> cl_fencingToken c"
  using assms(1)
proof (cases rule: claimOutboxBatch_cases)
  case (claimed t e n rows)
  then obtain r where r: "r \<in> set rows" "c = claim_of_row r" using assms(2) by auto
  then show ?thesis using claimed_rows(1,2) [OF claimed(4) assms(3) r(1)] by (auto simp: claim_of_row_def)
qed simp

lemma held_current:
  assumes "keys_distinct o_outbox_id (notification_outbox db)" and "claim_token db (cl_outboxId c) \<noteq> Some (cl_fencingToken c)"
  shows "mark_sent c t w db = (Inr [], db)" and "mark_retry status m diag c w db = (Inr [], db)"
proof -
  have none: "outbox_update (claim_held w (cl_fencingToken c)) (cl_outboxId c) f db = (Inr [], db)"
    if "\<And>r. o_outbox_id (f r) = o_outbox_id r" for f
  proof -
    obtain res db' where run: "outbox_update (claim_held w (cl_fencingToken c)) (cl_outboxId c) f db = (res, db')"
      by fastforce
    from this assms(1) that show ?thesis
    proof (cases rule: outbox_update_cases)
      case none
      then show ?thesis using assms(2) run
        by (auto simp: claim_token_def claim_held_def split: option.splits)
    next
      case (row r rows)
      then show ?thesis using assms(2) by (auto simp: claim_token_def claim_held_def)
    qed
  qed
  show "mark_sent c t w db = (Inr [], db)" "mark_retry status m diag c w db = (Inr [], db)"
    unfolding mark_sent_def mark_retry_def by (rule none; simp)+
qed

text \<open>What a returned commit did to the store.\<close>

definition commit_effect ::
  "commit_input \<Rightarrow> commit_result \<Rightarrow> run_row \<Rightarrow> jsval decision_row \<Rightarrow> jsval alert_row \<Rightarrow> outbox_row \<Rightarrow>
   jsval wf_db \<Rightarrow> jsval wf_db \<Rightarrow> bool" where
  "commit_effect input r run d a ob db db' \<longleftrightarrow>
     db' = db\<lparr>decision_commits := decision_commits db @ [d], alert_records := alert_records db @ [a],
              notification_outbox := notification_outbox db @ [ob]\<rparr> \<and>
     d_run_id d = ci_runId input \<and> a_decision_id a = d_decision_id d \<and> o_decision_ref ob = d_decision_id d \<and>
     (oi_alertRef (ci_outbox input) = None \<longrightarrow> o_alert_ref ob = Some (a_alert_id a)) \<and>
     o_outbox_id ob = cr_outboxId r \<and> o_status ob = cr_status r \<and>
     row_by d_decision_id (d_decision_id d) (decision_commits db) = None \<and>
     row_by a_alert_id (a_alert_id a) (alert_records db) = None \<and>
     outbox_of db (o_outbox_id ob) = None \<and>
     \<not> (r_shadow run \<and> ci_influence input = Some POLICY_WRITE_BACK) \<and>
     cr_suppressed r = (cr_status r \<noteq> Out_PENDING) \<and>
     cr_status r = (if r_shadow run then Out_SUPPRESSED_SHADOW
       else if ci_outcome input = Some ''PROVIDER_OUTAGE'' then Out_SUPPRESSED_OUTAGE else Out_PENDING)"

lemma commit_ok_effect:
  assumes "commitDecisionWithOutbox sha clock uuid input db = (Inr r, db')"
  shows "\<exists>run d a ob. run_of db (ci_runId input) = Some run \<and> commit_effect input r run d a ob db db'"
  using assms
proof (rule commit_ok)
  fix run now x dh ah oh
  let ?d = "new_decision_row input (jsonb (di_payload (ci_decision input))) dh now"
  let ?a = "new_alert_row input (jsonb (ai_payload (ci_alert input))) ah now"
  let ?ob = "new_outbox_row input (cr_outboxId r) oh (cr_status r) now"
  assume run: "run_of db (ci_runId input) = Some run"
    and x: "x = (case ci_outcome input of None \<Rightarrow> ''NORMAL'' | Some x \<Rightarrow> x)"
    and st: "commit_status (r_shadow run) (case ci_influence input of None \<Rightarrow> OPPORTUNITY_NOTIFICATION | Some i \<Rightarrow> i) x
        = Inr (cr_status r)"
    and sup: "cr_suppressed r = (cr_status r \<noteq> Out_PENDING)"
    and db': "db' = committed_db input (cr_outboxId r) (cr_status r) dh ah oh now db"
    and new: "outbox_of db (cr_outboxId r) = None"
      "row_by d_decision_id (di_decisionId (ci_decision input)) (decision_commits db) = None"
      "row_by a_alert_id (ai_alertId (ci_alert input)) (alert_records db) = None"
  have ids: "d_run_id ?d = ci_runId input" "d_decision_id ?d = di_decisionId (ci_decision input)"
    "a_decision_id ?a = di_decisionId (ci_decision input)" "a_alert_id ?a = ai_alertId (ci_alert input)"
    "o_decision_ref ?ob = di_decisionId (ci_decision input)" "o_outbox_id ?ob = cr_outboxId r"
    "o_status ?ob = cr_status r"
    "oi_alertRef (ci_outbox input) = None \<longrightarrow> o_alert_ref ?ob = Some (ai_alertId (ci_alert input))"
    by (simp_all add: new_decision_row_def new_alert_row_def new_outbox_row_def)
  have status: "\<not> (r_shadow run \<and> ci_influence input = Some POLICY_WRITE_BACK)"
    "cr_status r = (if r_shadow run then Out_SUPPRESSED_SHADOW
       else if ci_outcome input = Some ''PROVIDER_OUTAGE'' then Out_SUPPRESSED_OUTAGE else Out_PENDING)"
    using st x by (auto simp: commit_status_ok split: option.splits)
  have "commit_effect input r run ?d ?a ?ob db db'"
    unfolding commit_effect_def ids
    by (intro conjI) (use db' new sup status ids in \<open>simp_all add: committed_db_def\<close>)
  with run show ?thesis by blast
qed

section \<open>Order of a batch\<close>

lemma sorted_wrt_two_keys:
  assumes "sorted (map f ys)" and "\<And>k. sorted (map g (filter (\<lambda>y. f y = k) ys))"
  shows "sorted_wrt (\<lambda>a b. f a < f b \<or> f a = f b \<and> g a \<le> g b) ys"
  using assms
proof (induction ys)
  case (Cons a ys)
  have "f a < f b \<or> f a = f b \<and> g a \<le> g b" if "b \<in> set ys" for b
    using that Cons.prems(1) Cons.prems(2) [of "f a"] by (cases "f a = f b") auto
  moreover have "sorted (map g (filter (\<lambda>y. f y = k) ys))" for k
    using Cons.prems(2) [of k] by (auto split: if_splits)
  ultimately show ?case using Cons by simp
qed simp

lemma two_sorts:
  "sorted_wrt (\<lambda>a b. f a < f b \<or> f a = f b \<and> g a \<le> g b) (sort_key f (sort_key g xs))"
proof (rule sorted_wrt_two_keys)
  show "sorted (map f (sort_key f (sort_key g xs)))" by simp
  show "sorted (map g (filter (\<lambda>y. f y = k) (sort_key f (sort_key g xs))))" for k
    by (simp add: sort_key_stable sorted_filter)
qed

lemma sorted_wrt_take_drop:
  assumes "sorted_wrt P xs" and "a \<in> set (take n xs)" and "b \<in> set (drop n xs)"
  shows "P a b"
  using assms sorted_wrt_append [of P "take n xs" "drop n xs"] by simp

lemma candidates_first:
  assumes "c \<in> set (claim_candidates locked now n rows)" and "r \<in> set rows" and "claimable now r"
    and "o_outbox_id r \<notin> set locked" and "r \<notin> set (claim_candidates locked now n rows)"
  shows "o_enqueued_at c < o_enqueued_at r \<or> o_enqueued_at c = o_enqueued_at r \<and> o_outbox_id c \<le> o_outbox_id r"
proof -
  let ?xs = "sort_key o_enqueued_at (sort_key o_outbox_id
       (filter (\<lambda>r. claimable now r \<and> o_outbox_id r \<notin> set locked) rows))"
  have "r \<in> set ?xs" using assms(2-4) by simp
  moreover have "set ?xs = set (take n ?xs) \<union> set (drop n ?xs)" by (metis append_take_drop_id set_append)
  ultimately have "r \<in> set (drop n ?xs)"
    using assms(5) unfolding claim_candidates_def by blast
  moreover have "c \<in> set (take n ?xs)" using assms(1) by (simp add: claim_candidates_def)
  ultimately show ?thesis by (intro sorted_wrt_take_drop [OF two_sorts, of c n _ _ _ r])
qed

lemma candidates_length:
  "length (claim_candidates locked now n rows) =
     min n (length (filter (\<lambda>r. claimable now r \<and> o_outbox_id r \<notin> set locked) rows))"
  by (simp add: claim_candidates_def min.commute)

section \<open>Properties\<close>


text \<open>
  C3 (superseded_claim_powerless). Claim fencing: after a worker claimed an outbox row and, with
  any interleaving of commits, claims and marks by any workers, the row was claimed again, the
  second token is larger and the first claim is dead for good: in every later store its \<open>SENT\<close>
  and retry marks match no row and change nothing, and \<open>isClaimCurrent\<close> refuses it.
\<close>

theorem superseded_claim_powerless:
  assumes "outbox_ok db0"
    and "claimOutboxBatch clock1 locked1 w1 now1 lease1 limit1 db0 = (Inr cs1, db1)" and "c1 \<in> set cs1"
    and "outbox_step\<^sup>*\<^sup>* db1 db2"
    and "claimOutboxBatch clock2 locked2 w2 now2 lease2 limit2 db2 = (Inr cs2, db3)" and "c2 \<in> set cs2"
    and "cl_outboxId c2 = cl_outboxId c1" and "outbox_step\<^sup>*\<^sup>* db3 db4"
  shows "cl_fencingToken c1 < cl_fencingToken c2 \<and> mark_sent c1 t w db4 = (Inr [], db4) \<and>
    mark_retry status n diag c1 w db4 = (Inr [], db4) \<and> \<not> isClaimCurrent c1 w now db4"
proof -
  have ok1: "outbox_ok db1" using assms(1,2) claim_fence.step_inv outbox_step.claim by blast
  have ok2: "outbox_ok db2" using assms(4) ok1 by (rule claim_fence.star_inv)
  have s23: "outbox_step db2 db3" using assms(5) by (rule outbox_step.claim)
  note t1 = claim_batch_token [OF assms(2,3,1)] and t2 = claim_batch_token [OF assms(5,6) ok2]
  have less: "cl_fencingToken c1 < cl_fencingToken c2"
    using claim_fence.current_issued [OF ok1] t1 t2 claim_fence.star_next_mono [OF assms(4) ok1] by fastforce
  have "outbox_step\<^sup>*\<^sup>* db1 db3" using assms(4) s23 by simp
  moreover have "claim_token db3 (cl_outboxId c1) \<noteq> Some (cl_fencingToken c1)"
    using t2 less assms(7) by simp
  ultimately have dead: "claim_token db4 (cl_outboxId c1) \<noteq> Some (cl_fencingToken c1)"
    using claim_fence.superseded_forever [OF ok1 _ assms(8)] t1 by blast
  have "outbox_ok db4"
    using claim_fence.star_inv [OF assms(8)] claim_fence.step_inv [OF ok2 s23] by blast
  moreover have "0 < cl_fencingToken c1" using t1 outbox_okD(2) [OF assms(1)] by simp
  ultimately show ?thesis using less dead held_current [OF outbox_okD(1)]
    by (auto simp: isClaimCurrent_def claim_token_def split: option.splits)
qed

text \<open>
  A claimed batch holds as many rows as there are free ones, up to the
  limit (1 to 1000): rows that were \<open>PENDING\<close>, or whose claim had expired at the claim instant,
  and that no other transaction held locked, so a live claim is never taken; the oldest first,
  ties by id. Each row gets a token of its own that was never issued before, and no other row
  changes.
\<close>

theorem claim_batch_sound:
  assumes "outbox_ok db" and "claimOutboxBatch clock locked w now lease limit db = (Inr cs, db')"
  shows "\<exists>t n e. outbox_nowIso clock now = Inr t \<and> 0 < n \<and> n \<le> 1000 \<and>
    length cs = min n (length (filter (\<lambda>r. claimable t r \<and> o_outbox_id r \<notin> set locked) (notification_outbox db))) \<and>
    distinct (map cl_outboxId cs) \<and> distinct (map cl_fencingToken cs) \<and>
    (\<forall>c \<in> set cs. \<exists>r. outbox_of db (cl_outboxId c) = Some r \<and> claimable t r \<and> cl_outboxId c \<notin> set locked \<and>
       wf_outbox_fencing_seq db \<le> cl_fencingToken c \<and>
       outbox_of db' (cl_outboxId c) = Some (claim_set w t e (cl_fencingToken c) r)) \<and>
    (\<forall>k. k \<notin> cl_outboxId ` set cs \<longrightarrow> outbox_of db' k = outbox_of db k) \<and>
    (\<forall>c \<in> set cs. \<forall>r \<in> set (notification_outbox db).
       claimable t r \<and> o_outbox_id r \<notin> set locked \<and> o_outbox_id r \<notin> cl_outboxId ` set cs \<longrightarrow>
       cl_enqueuedAt c < o_enqueued_at r \<or> cl_enqueuedAt c = o_enqueued_at r \<and> cl_outboxId c \<le> o_outbox_id r)"
  using assms(2)
proof (cases rule: claimOutboxBatch_cases)
  case (claimed t e n rows)
  let ?cs = "claim_candidates locked t n (notification_outbox db)"
  let ?toks = "claim_tokens (wf_outbox_fencing_seq db) ?cs"
  have keys: "keys_distinct o_outbox_id ?cs" using candidates_distinct outbox_okD(1) [OF assms(1)] .
  have rows: "rows = map (claim_row ?toks w t e) ?cs" and cs: "cs = map claim_of_row rows"
    using claimed(1,4) by (simp_all add: claim_batch_stmt_def Let_def)
  have ids: "map cl_outboxId cs = map o_outbox_id ?cs"
    unfolding cs rows by (simp add: claim_of_row_def)
  have tok: "cl_fencingToken (cs ! i) = wf_outbox_fencing_seq db + i" if "i < length ?cs" for i
    using that claim_tokens_row [OF keys that] unfolding cs rows by (simp add: claim_of_row_def claim_row_def claim_set_def)
  have "map cl_fencingToken cs = [wf_outbox_fencing_seq db..<wf_outbox_fencing_seq db + length ?cs]"
    by (rule nth_equalityI) (use tok in \<open>auto simp: cs rows\<close>)
  then have dtok: "distinct (map cl_fencingToken cs)" by simp
  have enq: "\<exists>c0 \<in> set ?cs. cl_outboxId c = o_outbox_id c0 \<and> cl_enqueuedAt c = o_enqueued_at c0" if "c \<in> set cs" for c
    using that unfolding cs rows
    by (auto simp: claim_of_row_def claim_row_def claim_set_def split: option.splits)
  have set_ids: "cl_outboxId ` set cs = o_outbox_id ` set ?cs"
    using arg_cong [OF ids, of set] by simp
  have old: "\<exists>r. outbox_of db (cl_outboxId c) = Some r \<and> claimable t r \<and> cl_outboxId c \<notin> set locked \<and>
       wf_outbox_fencing_seq db \<le> cl_fencingToken c \<and>
       outbox_of db' (cl_outboxId c) = Some (claim_set w t e (cl_fencingToken c) r)" if "c \<in> set cs" for c
  proof -
    from that obtain r where r: "r \<in> set rows" "c = claim_of_row r" unfolding cs by auto
    note cr = claimed_rows [OF claimed(4) assms(1) r(1)]
    from cr(3) obtain r0 where r0: "outbox_of db (o_outbox_id r) = Some r0" "claimable t r0"
      "o_outbox_id r0 \<notin> set locked" "r = claim_set w t e (the (o_claim_fencing_token r)) r0" by blast
    have "o_outbox_id r0 = o_outbox_id r" using r0(1) by (auto dest: row_by_SomeD)
    with r0 r(2) cr(2,4) show ?thesis by (auto simp: claim_of_row_def)
  qed
  have other: "outbox_of db' k = outbox_of db k" if "k \<notin> cl_outboxId ` set cs" for k
    using claim_batch_lookup(1) [OF claimed(4), of k] that claim_tokens_iff [of "wf_outbox_fencing_seq db" ?cs k]
    by (cases "outbox_of db k") (auto simp: set_ids claim_row_def dest: row_by_SomeD)
  have first: "cl_enqueuedAt c < o_enqueued_at r \<or> cl_enqueuedAt c = o_enqueued_at r \<and> cl_outboxId c \<le> o_outbox_id r"
    if "c \<in> set cs" "r \<in> set (notification_outbox db)" "claimable t r" "o_outbox_id r \<notin> set locked"
      "o_outbox_id r \<notin> cl_outboxId ` set cs" for c r
    using enq [OF that(1)] candidates_first [OF _ that(2-4)] that(5) unfolding set_ids by force
  have len: "length cs = min n (length (filter (\<lambda>r. claimable t r \<and> o_outbox_id r \<notin> set locked) (notification_outbox db)))"
    unfolding cs rows by (simp only: length_map candidates_length)
  have dids: "distinct (map cl_outboxId cs)" unfolding ids using keys by (simp add: keys_distinct_def)
  have lim: "0 < n" "n \<le> 1000" using claim_limit_ok [OF claimed(3)] by blast+
  show ?thesis
    by (rule exI [of _ t], rule exI [of _ n], rule exI [of _ e])
      (intro conjI ballI allI impI claimed(2) lim len dids dtok old other first; (elim conjE)?; assumption)
qed simp

section \<open>Worked example\<close>

text \<open>A store with one run; a commit on it; two claims of the entry, a minute apart.\<close>

definition demo_commit :: commit_input where
  "demo_commit = \<lparr>ci_runId = ''r1'',
     ci_decision = \<lparr>di_decisionId = ''d1'', di_decisionKind = ''k'', di_payload = JsNull, di_payloadHash = Some demo_hash\<rparr>,
     ci_alert = \<lparr>ai_alertId = ''a1'', ai_alertClass = ''c'', ai_payload = JsNull, ai_payloadHash = Some demo_hash\<rparr>,
     ci_outbox = \<lparr>oi_outboxId = Some ''o1'', oi_channel = ''telegram'', oi_payloadHash = None, oi_alertRef = None\<rparr>,
     ci_outcome = None, ci_influence = None, ci_now = Some (Some 7)\<rparr>"

definition demo_store :: "jsval wf_db" where
  "demo_store = empty_db\<lparr>runs := [demo_run]\<rparr>"

definition demo_entry :: outbox_row where
  "demo_entry = \<lparr>o_outbox_id = ''o1'', o_decision_ref = ''d1'', o_alert_ref = Some ''a1'', o_channel = ''telegram'',
     o_payload_hash = demo_hash, o_status = Out_PENDING, o_claim_owner = None, o_claim_fencing_token = None,
     o_claim_expires_at = None, o_attempts = 0, o_enqueued_at = 7, o_claimed_at = None, o_sent_at = None,
     o_last_error = None\<rparr>"

definition demo_committed :: "jsval wf_db" where
  "demo_committed = demo_store\<lparr>
     decision_commits := [new_decision_row demo_commit JsNull demo_hash 7],
     alert_records := [new_alert_row demo_commit JsNull demo_hash 7], notification_outbox := [demo_entry]\<rparr>"

lemma blank_demo [simp]:
  "\<not> blank ''r1''" "\<not> blank ''d1''" "\<not> blank ''k''" "\<not> blank ''a1''" "\<not> blank ''c''"
  "\<not> blank ''telegram''" "\<not> blank ''w1''" "\<not> blank ''w2''"
  by (simp_all add: blank_iff js_space_def)

lemma demo_commit_run:
  "commitDecisionWithOutbox no_sha 0 ''u'' demo_commit demo_store =
     (Inr \<lparr>cr_outboxId = ''o1'', cr_status = Out_PENDING, cr_decisionId = ''d1'', cr_alertId = ''a1'',
           cr_suppressed = False\<rparr>, demo_committed)"
proof -
  have "commit_tx ''o1'' demo_commit 7 OPPORTUNITY_NOTIFICATION ''NORMAL'' demo_hash demo_hash demo_hash demo_store =
      (Inr \<lparr>cr_outboxId = ''o1'', cr_status = Out_PENDING, cr_decisionId = ''d1'', cr_alertId = ''a1'',
           cr_suppressed = False\<rparr>, demo_committed)"
    by (simp add: commit_tx_def bindP_run commit_status_def shadowSuppressionFor_def shadowSuppresses_iff
        not_null_def serialisePayload_def decision_insert_def alert_insert_def outbox_insert_def insert_stmt_def
        outbox_checks_def int4_def demo_store_def empty_db_def demo_run_def demo_commit_def new_decision_row_def
        new_alert_row_def new_outbox_row_def demo_committed_def demo_entry_def)
  then show ?thesis
    by (simp add: commitDecisionWithOutbox_def bindP_run outbox_nowIso_def requireText_def contentHash_def
        transaction_def demo_commit_def)
qed


definition demo_claim :: "nat \<Rightarrow> instant \<Rightarrow> outbox_claim" where
  "demo_claim token now = \<lparr>cl_outboxId = ''o1'', cl_decisionRef = ''d1'', cl_alertRef = Some ''a1'',
     cl_channel = ''telegram'', cl_payloadHash = demo_hash, cl_fencingToken = token,
     cl_claimedAt = Some now, cl_claimExpiresAt = Some (now + 30000), cl_attempts = 0, cl_enqueuedAt = 7\<rparr>"

definition demo_claimed :: "string \<Rightarrow> nat \<Rightarrow> instant \<Rightarrow> jsval wf_db" where
  "demo_claimed w t now = demo_committed\<lparr>notification_outbox := [claim_set w now (now + 30000) t demo_entry],
     wf_outbox_fencing_seq := t + 1\<rparr>"

lemma demo_claim_runs:
  "claimOutboxBatch 0 [] ''w1'' (Some (Some 10)) None None demo_committed =
     (Inr [demo_claim 1 10], demo_claimed ''w1'' 1 10)"
  "claimOutboxBatch 0 [] ''w2'' (Some (Some 60010)) None None (demo_claimed ''w1'' 1 10) =
     (Inr [demo_claim 2 60010], demo_claimed ''w2'' 2 60010)"
proof -
  have lim: "claim_lease None = Inr (Fin 30000)" "claim_limit None = Inr 10"
    by (simp_all add: claim_lease_def claim_limit_def MAX_BATCH_LIMIT_def js_le_def js_eq_def)
  have add: "addMs 10 (Fin 30000) = Inr 30010" "addMs 60010 (Fin 30000) = Inr 90010"
    using date_add_int [of 10 30000] date_add_int [of 60010 30000] by (simp_all add: addMs_def)
  show "claimOutboxBatch 0 [] ''w1'' (Some (Some 10)) None None demo_committed =
     (Inr [demo_claim 1 10], demo_claimed ''w1'' 1 10)"
    "claimOutboxBatch 0 [] ''w2'' (Some (Some 60010)) None None (demo_claimed ''w1'' 1 10) =
     (Inr [demo_claim 2 60010], demo_claimed ''w2'' 2 60010)"
    by (simp_all add: claimOutboxBatch_def bindP_run requireText_def outbox_nowIso_def lim add claim_batch_stmt_def
        claim_candidates_def claimable_def claim_tokens_def claim_row_def claim_set_def demo_committed_def demo_store_def
        empty_db_def demo_entry_def demo_claim_def demo_claimed_def claim_of_row_def Let_def)
qed

lemma demo_outbox_ok: "outbox_ok demo_committed" "outbox_ok (demo_claimed ''w1'' 1 10)"
proof -
  show ok: "outbox_ok demo_committed"
    by (simp add: outbox_ok_def keys_distinct_def demo_committed_def demo_store_def empty_db_def claim_token_def demo_entry_def)
  show "outbox_ok (demo_claimed ''w1'' 1 10)"
    using claim_fence.step_inv [OF ok outbox_step.claim [OF demo_claim_runs(1)]] .
qed

theorem claim_batch_sound_witness:
  "\<exists>t e. outbox_nowIso 0 (Some (Some 10)) = Inr t \<and>
     outbox_of (demo_claimed ''w1'' 1 10) ''o1'' = Some (claim_set ''w1'' t e 1 demo_entry)"
  using claim_batch_sound [OF demo_outbox_ok(1) demo_claim_runs(1)]
  by (auto simp: demo_claim_def demo_committed_def demo_entry_def)

theorem superseded_claim_powerless_witness:
  "mark_sent (demo_claim 1 10) 60020 ''w1'' (demo_claimed ''w2'' 2 60010) = (Inr [], demo_claimed ''w2'' 2 60010)"
  using superseded_claim_powerless [OF demo_outbox_ok(1) demo_claim_runs(1) _ rtranclp.rtrancl_refl demo_claim_runs(2)
      _ _ rtranclp.rtrancl_refl, of "demo_claim 1 10" "demo_claim 2 60010" 60020 "''w1''"]
  by (simp add: demo_claim_def)

end
