(* ===== verification/OutboxDelivery.thy ===== *)
theory OutboxDelivery
  imports OutboxCommit
begin

text \<open>
  Delivery from the outbox, for every notification channel that keeps the port's law: whatever
  the workers, their clocks and the interleaving of their statements, the channel's ledger and
  the outbox agree. Rely and guarantee: each program's own steps stay in \<open>world_evolves\<close> if
  the other sessions' do.
\<close>

section \<open>The contract between outbox and channel\<close>

definition row_kept :: "outbox_row \<Rightarrow> outbox_row \<Rightarrow> bool" where
  "row_kept r r' \<longleftrightarrow>
     o_decision_ref r' = o_decision_ref r \<and> o_alert_ref r' = o_alert_ref r \<and> o_channel r' = o_channel r \<and>
     o_payload_hash r' = o_payload_hash r \<and> o_enqueued_at r' = o_enqueued_at r \<and>
     (o_status r \<notin> {Out_PENDING, Out_CLAIMED} \<longrightarrow> o_status r' = o_status r)"

text \<open>
  Every outbox row has its decision and run. Everything the channel holds under an outbox id is
  that row's content, sent to that row's channel, for a run that is not shadow; and a row
  marked \<open>SENT\<close> has been accepted by the channel.
\<close>

definition delivery_inv :: "('c \<Rightarrow> string \<Rightarrow> delivery_note option) \<Rightarrow> 'c world \<Rightarrow> bool" where
  "delivery_inv delivered = (\<lambda>(db, c). outbox_ok db \<and>
     (\<forall>k r. outbox_of db k = Some r \<longrightarrow> owning_shadow db k \<noteq> None) \<and>
     (\<forall>k d. delivered c k = Some d \<longrightarrow> owning_shadow db k = Some False \<and>
        (\<exists>r. outbox_of db k = Some r \<and> dn_channel d = o_channel r \<and> dn_payloadHash d = o_payload_hash r)) \<and>
     (\<forall>k r. outbox_of db k = Some r \<longrightarrow> o_status r = Out_SENT \<longrightarrow> delivered c k \<noteq> None))"

text \<open>
  What may happen to outbox and ledger: rows keep their content and a final status, the owning
  run's shadow flag stands, deliveries are never lost or altered, the invariant is kept.
\<close>

definition world_evolves :: "('c \<Rightarrow> string \<Rightarrow> delivery_note option) \<Rightarrow> 'c world \<Rightarrow> 'c world \<Rightarrow> bool" where
  "world_evolves delivered = (\<lambda>(db, c) (db', c').
     (delivery_inv delivered (db, c) \<longrightarrow> delivery_inv delivered (db', c')) \<and>
     (\<forall>k r. outbox_of db k = Some r \<longrightarrow> (\<exists>r'. outbox_of db' k = Some r' \<and> row_kept r r')) \<and>
     (\<forall>k b. owning_shadow db k = Some b \<longrightarrow> owning_shadow db' k = Some b) \<and>
     (\<forall>k d. delivered c k = Some d \<longrightarrow> delivered c' k = Some d))"

lemma row_kept_refl [simp]: "row_kept r r"
  by (simp add: row_kept_def)

lemma row_kept_trans: "row_kept a b \<Longrightarrow> row_kept b c \<Longrightarrow> row_kept a c"
  by (auto simp: row_kept_def)

lemma world_evolves_rg: "rely_guarantee (world_evolves (delivered :: 'a \<Rightarrow> string \<Rightarrow> delivery_note option))"
proof
  fix s t u :: "'a world"
  show "world_evolves delivered s s" by (auto simp: world_evolves_def split: prod.split)
  show "world_evolves delivered s t \<Longrightarrow> world_evolves delivered t u \<Longrightarrow> world_evolves delivered s u"
    by (auto simp: world_evolves_def split: prod.splits) (meson row_kept_trans)+
qed

lemma delivery_invI:
  assumes "outbox_ok db" and "\<And>k r. outbox_of db k = Some r \<Longrightarrow> owning_shadow db k \<noteq> None"
    and "\<And>k d. delivered c k = Some d \<Longrightarrow> owning_shadow db k = Some False"
    and "\<And>k d. delivered c k = Some d \<Longrightarrow>
        \<exists>r. outbox_of db k = Some r \<and> dn_channel d = o_channel r \<and> dn_payloadHash d = o_payload_hash r"
    and "\<And>k r. outbox_of db k = Some r \<Longrightarrow> o_status r = Out_SENT \<Longrightarrow> delivered c k \<noteq> None"
  shows "delivery_inv delivered (db, c)"
  using assms unfolding delivery_inv_def split_conv by blast

lemma delivery_invD:
  assumes "delivery_inv delivered (db, c)"
  shows "outbox_ok db" and "outbox_of db k = Some r \<Longrightarrow> owning_shadow db k \<noteq> None"
    and "delivered c k = Some d \<Longrightarrow> owning_shadow db k = Some False"
    and "delivered c k = Some d \<Longrightarrow>
        \<exists>r. outbox_of db k = Some r \<and> dn_channel d = o_channel r \<and> dn_payloadHash d = o_payload_hash r"
    and "outbox_of db k = Some r \<Longrightarrow> o_status r = Out_SENT \<Longrightarrow> delivered c k \<noteq> None"
  using assms unfolding delivery_inv_def split_conv by blast+

text \<open>Changes of outbox rows alone: each row is kept, and \<open>SENT\<close> is set for delivered rows only.\<close>

lemma evolves_rows:
  assumes inv: "delivery_inv delivered (db, c)" and ok: "outbox_ok db'"
    and sh: "\<And>k. owning_shadow db' k = owning_shadow db k"
    and none: "\<And>k. outbox_of db k = None \<Longrightarrow> outbox_of db' k = None"
    and kept: "\<And>k r. outbox_of db k = Some r \<Longrightarrow> \<exists>r'. outbox_of db' k = Some r' \<and> row_kept r r' \<and>
        (o_status r' = Out_SENT \<longrightarrow> o_status r = Out_SENT \<or> delivered c k \<noteq> None)"
  shows "world_evolves delivered (db, c) (db', c)"
proof -
  note invD = delivery_invD [OF inv]
  have prev: "\<exists>r. outbox_of db k = Some r \<and> row_kept r r' \<and>
      (o_status r' = Out_SENT \<longrightarrow> o_status r = Out_SENT \<or> delivered c k \<noteq> None)"
    if "outbox_of db' k = Some r'" for k r'
    using that none [of k] kept [of k] by (cases "outbox_of db k") fastforce+
  have "delivery_inv delivered (db', c)"
  proof (rule delivery_invI)
    show "outbox_ok db'" by (rule ok)
    show "owning_shadow db' k \<noteq> None" if "outbox_of db' k = Some r" for k r
      using prev [OF that] invD(2) sh by metis
    show "owning_shadow db' k = Some False" if "delivered c k = Some d" for k d
      using invD(3) [OF that] sh by simp
    show "\<exists>r. outbox_of db' k = Some r \<and> dn_channel d = o_channel r \<and> dn_payloadHash d = o_payload_hash r"
      if "delivered c k = Some d" for k d
      using invD(4) [OF that] kept [of k] by (force simp: row_kept_def)
    show "delivered c k \<noteq> None" if "outbox_of db' k = Some r" "o_status r = Out_SENT" for k r
      using prev [OF that(1)] that(2) invD(5) by metis
  qed
  then show ?thesis using kept sh unfolding world_evolves_def split_conv by fastforce
qed

lemma owning_shadow_rows:
  assumes "\<And>k. map_option o_decision_ref (row_by o_outbox_id k rows) = map_option o_decision_ref (outbox_of db k)"
  shows "owning_shadow (db\<lparr>notification_outbox := rows, wf_outbox_fencing_seq := n\<rparr>) k = owning_shadow db k"
  using assms [of k] unfolding owning_shadow_def
  by (cases "outbox_of db k"; cases "row_by o_outbox_id k rows") auto

text \<open>The statements on the outbox.\<close>

lemma update_evolves:
  assumes run: "outbox_update p k f db = (res, db')" and inv: "delivery_inv delivered (db, c)"
    and key: "\<And>r. o_outbox_id (f r) = o_outbox_id r" and st: "\<And>r. o_status (f r) \<noteq> Out_CLAIMED"
    and kept: "\<And>r. p r \<Longrightarrow> row_kept r (f r)"
    and sent: "\<And>r. outbox_of db k = Some r \<Longrightarrow> p r \<Longrightarrow> o_status (f r) = Out_SENT \<Longrightarrow> delivered c k \<noteq> None"
  shows "world_evolves delivered (db, c) (db', c)"
  using run outbox_okD(1) [OF delivery_invD(1) [OF inv]] key
proof (cases rule: outbox_update_cases)
  case none
  then show ?thesis using rely_guarantee.R_refl [OF world_evolves_rg] by simp
next
  case (row r rows)
  have ok: "outbox_ok db'"
    using quiet_update [OF run delivery_invD(1) [OF inv] key st] by (simp add: quiet_def)
  have dec: "o_decision_ref (f r) = o_decision_ref r" using kept [OF row(2)] by (simp add: row_kept_def)
  have "owning_shadow db' j = owning_shadow db j" for j
    using row(1,5,7) dec unfolding owning_shadow_def by simp
  with inv ok show ?thesis
    by (rule evolves_rows) (use row kept [OF row(2)] sent in \<open>auto split: if_splits\<close>)
qed

lemma marks_evolve:
  assumes "delivery_inv delivered (db, c)"
  shows "mark_retry status n diag cl w db = (res, db') \<Longrightarrow> status \<in> {Out_PENDING, Out_FAILED} \<Longrightarrow>
      world_evolves delivered (db, c) (db', c)"
    and "mark_suppressed_shadow k db = (res, db') \<Longrightarrow> world_evolves delivered (db, c) (db', c)"
    and "mark_sent cl t w db = (res, db') \<Longrightarrow> delivered c (cl_outboxId cl) \<noteq> None \<Longrightarrow>
      world_evolves delivered (db, c) (db', c)"
  unfolding mark_retry_def mark_suppressed_shadow_def mark_sent_def
  by (erule update_evolves [OF _ assms]; auto simp: row_kept_def claim_held_def)+

lemma claim_batch_evolves:
  assumes run: "claim_batch_stmt locked w now e n db = (res, db')" and inv: "delivery_inv delivered (db, c)"
  shows "world_evolves delivered (db, c) (db', c)"
proof -
  let ?cs = "claim_candidates locked now n (notification_outbox db)"
  let ?toks = "claim_tokens (wf_outbox_fencing_seq db) ?cs"
  have db': "db' = db\<lparr>notification_outbox := map (claim_row ?toks w now e) (notification_outbox db),
      wf_outbox_fencing_seq := wf_outbox_fencing_seq db + length ?cs\<rparr>"
    using run by (simp add: claim_batch_stmt_def Let_def)
  note ok = delivery_invD(1) [OF inv] and look = claim_batch_lookup(1) [OF run]
  have open_row: "o_status r \<in> {Out_PENDING, Out_CLAIMED}"
    if "outbox_of db k = Some r" "map_of ?toks (o_outbox_id r) = Some t" for k r t
  proof -
    from claim_tokens_Some [OF that(2)] obtain i where "i < length ?cs" "o_outbox_id r = o_outbox_id (?cs ! i)"
      by blast
    moreover from this have "?cs ! i \<in> set (notification_outbox db)" "claimable now (?cs ! i)"
      using candidates_set(1,2) [OF nth_mem] by blast+
    moreover have "r \<in> set (notification_outbox db)" using that(1) by (auto dest: row_by_SomeD)
    ultimately have "r = ?cs ! i" "claimable now (?cs ! i)"
      using outbox_okD(1) [OF ok] by (auto simp: keys_distinct_def distinct_map inj_on_def)
    then show ?thesis by (auto simp: claimable_def)
  qed
  have sh: "owning_shadow db' k = owning_shadow db k" for k
    unfolding db' by (rule owning_shadow_rows)
      (auto simp: row_by_map claim_row_def claim_set_def option.map_comp comp_def split: option.split
        intro!: option.map_cong)
  show ?thesis
  proof (rule evolves_rows [OF inv outbox_ok_batch [OF ok run] sh])
    show "outbox_of db' k = None" if "outbox_of db k = None" for k using look [of k] that by simp
    show "\<exists>r'. outbox_of db' k = Some r' \<and> row_kept r r' \<and>
        (o_status r' = Out_SENT \<longrightarrow> o_status r = Out_SENT \<or> delivered c k \<noteq> None)"
      if "outbox_of db k = Some r" for k r
      using look [of k] that open_row [OF that]
      by (auto simp: claim_row_def claim_set_def row_kept_def split: option.splits)
  qed
qed

lemma commit_evolves:
  assumes run: "commitDecisionWithOutbox sha clock uuid input db = (res, db')" and inv: "delivery_inv delivered (db, c)"
  shows "world_evolves delivered (db, c) (db', c)"
proof (cases res)
  case (Inl e)
  then have "db' = db" using run commit_throw by blast
  then show ?thesis using rely_guarantee.R_refl [OF world_evolves_rg] by simp
next
  case (Inr r)
  then obtain rn d a ob where rn: "run_of db (ci_runId input) = Some rn"
    and eff: "commit_effect input r rn d a ob db db'" using run commit_ok_effect by blast
  note invD = delivery_invD [OF inv]
  have new: "outbox_of db (o_outbox_id ob) = None" "row_by d_decision_id (d_decision_id d) (decision_commits db) = None"
    and refs: "d_run_id d = ci_runId input" "o_decision_ref ob = d_decision_id d" "o_status ob \<noteq> Out_SENT"
    and db': "db' = db\<lparr>decision_commits := decision_commits db @ [d], alert_records := alert_records db @ [a],
        notification_outbox := notification_outbox db @ [ob]\<rparr>"
    using eff by (auto simp: commit_effect_def)
  have look: "outbox_of db' k = (if k = o_outbox_id ob then Some ob else outbox_of db k)" for k
    using new(1) unfolding db' by (auto split: option.splits)
  have dec: "row_by d_decision_id x (decision_commits db') =
      (if x = d_decision_id d then Some d else row_by d_decision_id x (decision_commits db))" for x
    using new(2) unfolding db' by (auto split: option.splits)
  have runs: "runs db' = runs db" unfolding db' by simp
  have sh: "owning_shadow db' k = Some b" if o: "owning_shadow db k = Some b" for k b
  proof -
    from o obtain q e where q: "outbox_of db k = Some q"
      "row_by d_decision_id (o_decision_ref q) (decision_commits db) = Some e"
      "map_option r_shadow (run_of db (d_run_id e)) = Some b"
      unfolding owning_shadow_def by (auto simp: bind_eq_Some_conv)
    have "outbox_of db' k = Some q" using q(1) new(1) by (auto simp: look)
    moreover have "row_by d_decision_id (o_decision_ref q) (decision_commits db') = Some e"
      using q(2) new(2) by (auto simp: dec)
    ultimately show ?thesis using q(3) by (simp add: owning_shadow_def runs)
  qed
  have "outbox_of db' (o_outbox_id ob) = Some ob" by (simp add: look)
  then have sh_new: "owning_shadow db' (o_outbox_id ob) \<noteq> None"
    using rn refs by (simp add: owning_shadow_def dec runs)
  have "delivery_inv delivered (db', c)"
  proof (rule delivery_invI)
    show "outbox_ok db'" using quiet_commit [OF run invD(1)] by (simp add: quiet_def)
    show "owning_shadow db' k \<noteq> None" if "outbox_of db' k = Some q" for k q
      using that sh_new sh [of k] invD(2) [of k] unfolding look by (auto split: if_splits)
    show "owning_shadow db' k = Some False" if "delivered c k = Some n" for k n
      using sh invD(3) [OF that] by blast
    show "\<exists>r. outbox_of db' k = Some r \<and> dn_channel n = o_channel r \<and> dn_payloadHash n = o_payload_hash r"
      if "delivered c k = Some n" for k n
      using invD(4) [OF that] new(1) unfolding look by auto
    show "delivered c k \<noteq> None" if "outbox_of db' k = Some q" "o_status q = Out_SENT" for k q
      using that invD(5) [of k q] refs(3) unfolding look by (auto split: if_splits)
  qed
  then show ?thesis using sh look new(1) unfolding world_evolves_def split_conv by auto
qed

lemma claim_evolves:
  assumes "claimOutboxBatch clock locked w now lease limit db = (res, db')" and "delivery_inv delivered (db, c)"
  shows "world_evolves delivered (db, c) (db', c)"
  using assms(1)
proof (cases rule: claimOutboxBatch_cases)
  case (refused e)
  then show ?thesis using rely_guarantee.R_refl [OF world_evolves_rg] by simp
next
  case (claimed t e n rows)
  show ?thesis by (rule claim_batch_evolves [OF claimed(4) assms(2)])
qed

lemma world_evolvesD:
  assumes "world_evolves delivered (db, c) (db', c')"
  shows "delivery_inv delivered (db, c) \<Longrightarrow> delivery_inv delivered (db', c')"
    and "outbox_of db k = Some r \<Longrightarrow> \<exists>r'. outbox_of db' k = Some r' \<and> row_kept r r'"
    and "owning_shadow db k = Some b \<Longrightarrow> owning_shadow db' k = Some b"
    and "delivered c k = Some d \<Longrightarrow> delivered c' k = Some d"
  using assms unfolding world_evolves_def split_conv by blast+

section \<open>The delivery worker\<close>

sublocale notification_channel < rg: rely_guarantee "world_evolves delivered"
  by (rule world_evolves_rg)

lemma on_db_run: "on_db m (db, c) = (fst (m db), (snd (m db), c))"
  by (simp add: on_db_def split_beta)

lemma on_channel_run: "on_channel m (db, c) = (fst (m c), (db, snd (m c)))"
  by (simp add: on_channel_def split_beta)

lemma on_db_reads: "on_db (reads g) = reads (\<lambda>w. g (fst w))"
  by (rule ext) (simp add: on_db_def split_beta)

text \<open>What the worker has established when it sends and when it marks, and that no one can undo.\<close>

definition knows_row :: "string \<Rightarrow> outbox_row \<Rightarrow> 'c world \<Rightarrow> bool" where
  "knows_row k row = (\<lambda>(db, c). \<exists>r. outbox_of db k = Some r \<and> row_kept row r)"

definition not_shadow :: "string \<Rightarrow> 'c world \<Rightarrow> bool" where
  "not_shadow k = (\<lambda>(db, c). owning_shadow db k = Some False)"

text \<open>A caller-supplied payload resolver may touch the world only as any other session may.\<close>

definition resolver_ok :: "('c \<Rightarrow> string \<Rightarrow> delivery_note option) \<Rightarrow> 'c delivery \<Rightarrow> bool" where
  "resolver_ok delivered dv \<longleftrightarrow>
     (\<forall>f cl. dv_resolvePayload dv = Some f \<longrightarrow> guarantees (world_evolves delivered) (f cl))"

lemma bindP_ret_fun: "bindP (ret x) f = f x"
  by (rule ext) simp

context notification_channel
begin

definition accepted :: "string \<Rightarrow> 'c world \<Rightarrow> bool" where
  "accepted k = (\<lambda>(db, c). delivered c k \<noteq> None)"

lemma stable_facts:
  "rg.stable (delivery_inv delivered)"
  "rg.stable (knows_row k row)"
  "rg.stable (not_shadow k)"
  "rg.stable (accepted k)"
  by (auto simp: rg.stable_def knows_row_def not_shadow_def accepted_def dest: world_evolvesD
      intro: row_kept_trans)

lemma stable_conj: "rg.stable P \<Longrightarrow> rg.stable Q \<Longrightarrow> rg.stable (\<lambda>w. P w \<and> Q w)"
  unfolding rg.stable_def by blast

lemmas stable_known = stable_facts stable_conj

lemma send_evolves:
  assumes run: "send q c = (res, c')" and inv: "delivery_inv delivered (db, c)"
    and row: "outbox_of db (q_idempotencyKey q) = Some r" "o_channel r = q_channel q" "o_payload_hash r = q_payloadHash q"
    and sh: "owning_shadow db (q_idempotencyKey q) = Some False"
  shows "world_evolves delivered (db, c) (db, c')"
proof -
  note invD = delivery_invD [OF inv]
  have keep: "delivered c' k = Some d" if "delivered c k = Some d" for k d
    using send_keeps [OF that run] .
  have new: "owning_shadow db k = Some False \<and>
      (\<exists>r. outbox_of db k = Some r \<and> dn_channel d = o_channel r \<and> dn_payloadHash d = o_payload_hash r)"
    if "delivered c' k = Some d" for k d
  proof (cases "delivered c k")
    case None
    then show ?thesis using send_new [OF None run that] row sh by auto
  next
    case (Some d')
    then show ?thesis using keep [OF Some] that invD(3,4) by auto
  qed
  have "delivery_inv delivered (db, c')"
  proof (rule delivery_invI)
    show "delivered c' k \<noteq> None" if "outbox_of db k = Some r" "o_status r = Out_SENT" for k r
      using invD(5) [OF that] keep [of k] by auto
  qed (use invD(1,2) new in blast)+
  then show ?thesis using keep unfolding world_evolves_def split_conv by auto
qed

lemma keeps_send:
  "rg.keeps (\<lambda>w. delivery_inv delivered w \<and> knows_row (q_idempotencyKey q) row w \<and> not_shadow (q_idempotencyKey q) w \<and>
     o_channel row = q_channel q \<and> o_payload_hash row = q_payloadHash q) (on_channel (send q))"
  unfolding rg.keeps_def
proof (intro allI impI)
  fix w :: "'c world"
  obtain db c where w: "w = (db, c)" by fastforce
  obtain res c' where run: "send q c = (res, c')" by fastforce
  assume "delivery_inv delivered w \<and> knows_row (q_idempotencyKey q) row w \<and> not_shadow (q_idempotencyKey q) w \<and>
     o_channel row = q_channel q \<and> o_payload_hash row = q_payloadHash q"
  then have "world_evolves delivered (db, c) (db, c')"
    using send_evolves [OF run] by (auto simp: w knows_row_def not_shadow_def row_kept_def)
  then show "world_evolves delivered w (snd (on_channel (send q) w))" by (simp add: w on_channel_run run)
qed

lemma keeps_marks:
  "status \<in> {Out_PENDING, Out_FAILED} \<Longrightarrow>
     rg.keeps (delivery_inv delivered) (on_db (mark_retry status n diag cl w))"
  "rg.keeps (delivery_inv delivered) (on_db (mark_suppressed_shadow k))"
  "rg.keeps (\<lambda>w. delivery_inv delivered w \<and> accepted (cl_outboxId cl) w) (on_db (mark_sent cl t wk))"
  unfolding rg.keeps_def accepted_def
  by (auto simp: on_db_run split: prod.splits intro!: marks_evolve(1) [OF _ prod.collapse [symmetric]]
      marks_evolve(2) [OF _ prod.collapse [symmetric]] marks_evolve(3) [OF _ prod.collapse [symmetric]])

text \<open>The worker's programs, from what it knows at each point.\<close>

lemma ret_liftE: "ret x = liftE (Inr x)"
  by (rule ext) simp

lemma keeps_retry:
  assumes "\<And>i w. world_evolves delivered w (env i w)" and "status \<in> {Out_PENDING, Out_FAILED}"
    and "\<And>u. \<exists>r. f u = liftE r"
  shows "rg.keeps (delivery_inv delivered)
    (bindP (gap env i) (\<lambda>_. bindP (on_db (mark_retry status n diag claim w)) f))"
  by (rule rg.keeps_gap [OF stable_facts(1) assms(1)], rule rg.keeps_last [OF keeps_marks(1) [OF assms(2)] assms(3)])

lemma keeps_resolve_failed:
  assumes "\<And>i w. world_evolves delivered w (env i w)"
  shows "rg.keeps (delivery_inv delivered) (resolve_failed dv random env claim row e)"
  unfolding resolve_failed_def Let_def
  by (auto intro!: rg.keeps_liftE keeps_retry assms simp: ret_liftE)

lemma keeps_send_failed:
  assumes "\<And>i w. world_evolves delivered w (env i w)"
  shows "rg.keeps (delivery_inv delivered) (send_failed dv random env claim row e)"
  unfolding send_failed_def Let_def
  by (auto intro!: rg.keeps_liftE keeps_retry assms simp: ret_liftE)

lemma send_accepts:
  assumes "on_channel (send q) w = (Inr a, w')"
  shows "accepted (q_idempotencyKey q) w'"
  using assms send_acks [of q "snd w" a "snd w'"]
  by (cases w) (auto simp: on_channel_def accepted_def split: prod.splits)

lemma keeps_send_claim:
  assumes env: "\<And>i w. world_evolves delivered w (env i w)" and dv: "dv_send dv = send"
  shows "rg.keeps (\<lambda>w. delivery_inv delivered w \<and> knows_row (cl_outboxId claim) row w \<and> not_shadow (cl_outboxId claim) w)
    (send_claim dv random env claim row payload)"
    (is "rg.keeps ?P _")
proof -
  let ?q = "\<lparr>q_idempotencyKey = cl_outboxId claim, q_channel = o_channel row, q_payload = payload, q_payloadHash = o_payload_hash row\<rparr>"
  have st: "rg.stable ?P" by (intro stable_known)
  have snd: "rg.keeps ?P (on_channel (send ?q))"
    by (rule rg.keeps_weaken [OF keeps_send [of ?q row]]) simp
  have inv': "delivery_inv delivered t" if "?P s" "on_channel (send ?q) s = (r, t)" for s t r
    using that snd stable_facts(1) unfolding rg.keeps_def rg.stable_def by (metis snd_conv)
  have failed: "rg.keeps (\<lambda>t. \<exists>s. ?P s \<and> on_channel (send ?q) s = (Inl e, t)) (send_failed dv random env claim row e)" for e
    by (rule rg.keeps_weaken [OF keeps_send_failed [OF env]]) (use inv' in blast)
  let ?mark = "bindP (gap env 6) (\<lambda>_. bindP (on_db (mark_sent claim (dv_now dv) (dv_worker dv))) (\<lambda>marked.
         if marked = [] then ret (outcome claim D_STALE (o_attempts row) (Some ''claim changed before the SENT mark''))
         else ret (outcome claim D_SENT (o_attempts row) None)))"
  have marked: "rg.keeps (\<lambda>w. delivery_inv delivered w \<and> accepted (cl_outboxId claim) w) ?mark"
    by (rule rg.keeps_gap [OF stable_conj [OF stable_facts(1,4)] env], rule rg.keeps_last [OF keeps_marks(3)])
      (auto simp: ret_liftE)
  have sent: "rg.keeps (\<lambda>t. \<exists>s. ?P s \<and> on_channel (send ?q) s = (Inr a, t)) ?mark" for a
    by (rule rg.keeps_weaken [OF marked]) (use inv' send_accepts [of ?q] in auto)
  have retry: "rg.keeps ?P (bindP (gap env 5) (\<lambda>_. bindP (on_db (mark_retry Out_FAILED n diag claim w)) (\<lambda>_. ret x)))"
    for n diag w x
    by (rule rg.keeps_weaken [OF keeps_retry [OF env]]) (auto simp: ret_liftE)
  have go: "rg.keeps ?P (bindP (gap env 5) (\<lambda>_. bindP (outcomeP (on_channel (send ?q))) (\<lambda>r.
      case r of Inl e \<Rightarrow> send_failed dv random env claim row e | Inr _ \<Rightarrow> ?mark)))"
  proof (rule rg.keeps_gap [OF st env], rule rg.keeps_outcome [OF snd])
    fix r
    show "rg.keeps (\<lambda>t. \<exists>s. ?P s \<and> on_channel (send ?q) s = (r, t))
        (case r of Inl e \<Rightarrow> send_failed dv random env claim row e | Inr _ \<Rightarrow> ?mark)"
      by (cases r) (simp_all only: sum.case failed sent)
  qed
  show ?thesis
    unfolding send_claim_def Let_def dv using retry go by (auto intro!: rg.keeps_liftE)
qed

lemma keeps_resolve:
  assumes "resolver_ok delivered dv"
  shows "rg.keeps P (resolve_claim dv claim)"
proof (cases "dv_resolvePayload dv")
  case None
  then show ?thesis
    by (auto simp: rg.keeps_def resolve_claim_def on_db_run bindP_run split: prod.splits intro: rg.R_refl)
next
  case (Some f)
  then show ?thesis using assms by (simp add: resolver_ok_def resolve_claim_def rg.keeps_guarantees)
qed

lemma deliver_current_keeps:
  assumes env: "\<And>i w. world_evolves delivered w (env i w)" and dv: "dv_send dv = send"
    and res: "resolver_ok delivered dv"
  shows "rg.keeps (\<lambda>w. delivery_inv delivered w \<and> knows_row (cl_outboxId claim) row w \<and> not_shadow (cl_outboxId claim) w)
    (deliver_current dv random env claim row)" (is "rg.keeps ?K _")
proof -
  have st: "rg.stable ?K" by (intro stable_known)
  have r: "rg.keeps ?K (resolve_claim dv claim)" by (rule keeps_resolve [OF res])
  have after: "?K t" if "?K s" "resolve_claim dv claim s = (x, t)" for s t x
    using that r st unfolding rg.keeps_def rg.stable_def by (metis (no_types, lifting) snd_conv)
  show ?thesis
    unfolding deliver_current_def
  proof (rule rg.keeps_gap [OF st env], rule rg.keeps_outcome [OF r])
    fix x
    show "rg.keeps (\<lambda>t. \<exists>s. ?K s \<and> resolve_claim dv claim s = (x, t))
      (case x of Inl e \<Rightarrow> resolve_failed dv random env claim row e
       | Inr payload \<Rightarrow> send_claim dv random env claim row payload)"
    proof (cases x)
      case (Inl e)
      show ?thesis unfolding Inl sum.case
        by (rule rg.keeps_weaken [OF keeps_resolve_failed [OF env]]) (use after in blast)
    next
      case (Inr payload)
      show ?thesis unfolding Inr sum.case
        by (rule rg.keeps_weaken [OF keeps_send_claim [OF env dv]]) (use after in blast)
    qed
  qed
qed

lemma deliver_shadow_checked_keeps:
  assumes env: "\<And>i w. world_evolves delivered w (env i w)" and dv: "dv_send dv = send"
    and res: "resolver_ok delivered dv"
  shows "rg.keeps (\<lambda>w. delivery_inv delivered w \<and> knows_row (cl_outboxId claim) row w)
    (deliver_shadow_checked dv random env claim row)" (is "rg.keeps ?K _")
  unfolding deliver_shadow_checked_def on_db_reads
proof (rule rg.keeps_gap [OF stable_conj [OF stable_facts(1,2)] env], rule rg.keeps_reads)
  let ?k = "cl_outboxId claim"
  have cur: "rg.keeps (\<lambda>w. delivery_inv delivered w \<and> knows_row ?k row w \<and> not_shadow ?k w)
      (deliver_unsuppressed dv random env claim row)" (is "rg.keeps ?P _")
    unfolding deliver_unsuppressed_def on_db_reads
  proof (rule rg.keeps_gap [OF _ env], (intro stable_known)[], rule rg.keeps_reads)
    fix x
    show "rg.keeps (\<lambda>s. ?P s \<and> isClaimCurrent claim (dv_worker dv) (dv_now dv) (fst s) = x)
      (if \<not> x then ret (outcome claim D_STALE (o_attempts row) (Some ''claim owner/token is no longer current''))
       else deliver_current dv random env claim row)"
      by (cases x) (auto intro!: rg.keeps_weaken [OF deliver_current_keeps [OF env dv res]])
  qed
  fix sh
  have ns: "not_shadow ?k w" if "?K w" "owning_shadow (fst w) ?k \<noteq> Some True" for w
    using that delivery_invD(2) [of delivered "fst w" "snd w" ?k]
    by (cases w) (auto simp: not_shadow_def knows_row_def)
  show "rg.keeps (\<lambda>s. ?K s \<and> owning_shadow (fst s) ?k = sh)
    (if sh = Some True
     then bindP (gap env 1) (\<lambda>_. bindP (on_db (mark_suppressed_shadow ?k)) (\<lambda>_.
          ret (outcome claim D_REFUSED_SUPPRESSED (o_attempts row)
            (Some ''the owning run is shadow, so its notification is never deliverable''))))
     else deliver_unsuppressed dv random env claim row)"
  proof (cases "sh = Some True")
    case True
    have "rg.keeps (delivery_inv delivered) (bindP (gap env 1) (\<lambda>_. bindP (on_db (mark_suppressed_shadow ?k)) (\<lambda>_.
          ret (outcome claim D_REFUSED_SUPPRESSED (o_attempts row)
            (Some ''the owning run is shadow, so its notification is never deliverable'')))))"
      by (rule rg.keeps_gap [OF stable_facts(1) env], rule rg.keeps_last [OF keeps_marks(2)]) (auto simp: ret_liftE)
    then show ?thesis unfolding True by (simp add: rg.keeps_def)
  next
    case False
    have "rg.keeps (\<lambda>s. ?K s \<and> owning_shadow (fst s) ?k = sh) (deliver_unsuppressed dv random env claim row)"
      by (rule rg.keeps_weaken [OF cur]) (use ns False in auto)
    with False show ?thesis by simp
  qed
qed

lemma deliver_one_keeps:
  assumes env: "\<And>i w. world_evolves delivered w (env i w)" and dv: "dv_send dv = send"
    and res: "resolver_ok delivered dv"
  shows "rg.keeps (delivery_inv delivered) (deliver_one dv random env claim)"
  unfolding deliver_one_def on_db_reads
proof (rule rg.keeps_reads)
  fix found
  let ?K = "\<lambda>w. delivery_inv delivered w \<and> outbox_of (fst w) (cl_outboxId claim) = found"
  show "rg.keeps ?K
    (case found of
       None \<Rightarrow> ret (outcome claim D_NOT_FOUND (cl_attempts claim) (Some ''outbox row no longer exists''))
     | Some row \<Rightarrow>
         bindP (liftE (parseOutboxStatus (Some (outbox_status_text (o_status row))))) (\<lambda>status.
         if status = Out_SUPPRESSED_SHADOW \<or> status = Out_SUPPRESSED_OUTAGE
         then ret (outcome claim D_REFUSED_SUPPRESSED (o_attempts row)
                     (Some (''suppressed row status '' @ outbox_status_text status @ '' is never deliverable'')))
         else deliver_shadow_checked dv random env claim row))"
  proof (cases found)
    case (Some row)
    have "rg.keeps ?K (deliver_shadow_checked dv random env claim row)"
      by (rule rg.keeps_weaken [OF deliver_shadow_checked_keeps [OF env dv res, of claim row]])
        (auto simp: Some knows_row_def)
    then show ?thesis unfolding Some option.case by (intro rg.keeps_liftE) (auto simp: rg.keeps_pure)
  qed simp
qed

lemma deliver_loop_keeps:
  assumes "\<And>i j w. world_evolves delivered w (env i j w)" and "dv_send dv = send"
    and "resolver_ok delivered dv"
  shows "rg.keeps (delivery_inv delivered) (deliver_loop dv random env i claims)"
proof (induction claims arbitrary: i)
  case (Cons claim claims)
  have one: "rg.keeps (delivery_inv delivered) (deliver_one dv (random i) (env i) claim)"
    by (rule deliver_one_keeps) (rule assms)+
  have inv': "delivery_inv delivered t" if "delivery_inv delivered s" "deliver_one dv (random i) (env i) claim s = (x, t)" for s t x
    using that one stable_facts(1) unfolding rg.keeps_def rg.stable_def by (metis snd_conv)
  show ?case unfolding deliver_loop.simps
  proof (rule rg.keeps_bindP [OF one])
    fix x
    show "rg.keeps (\<lambda>t. \<exists>s. delivery_inv delivered s \<and> deliver_one dv (random i) (env i) claim s = (Inr x, t))
      (bindP (deliver_loop dv random env (Suc i) claims) (\<lambda>rows. ret (x # rows)))"
      by (rule rg.keeps_weaken [OF rg.keeps_last [OF Cons.IH]]) (use inv' in \<open>auto simp: ret_liftE\<close>)
  qed
qed simp

lemma deliverClaimed_keeps:
  assumes "\<And>i j w. world_evolves delivered w (env i j w)" and "dv_send dv = send"
    and "resolver_ok delivered dv"
    and "delivery_inv delivered w" and "deliverClaimed dv clock now random env claims w = (res, w')"
  shows "world_evolves delivered w w'"
proof -
  have loop: "rg.keeps (delivery_inv delivered)
      (bindP (deliver_loop (dv\<lparr>dv_now := t\<rparr>) random env 0 cs) (\<lambda>rows. ret (report_of rows)))" for t cs
    by (rule rg.keeps_last [OF deliver_loop_keeps]) (use assms(1-3) in \<open>auto simp: ret_liftE resolver_ok_def\<close>)
  have "rg.keeps (delivery_inv delivered) (deliverClaimed dv clock now random env claims)"
    unfolding deliverClaimed_def
  proof (intro rg.keeps_liftE)
    fix worker t
    show "rg.keeps (delivery_inv delivered)
      (bindP (case claims of Some cs \<Rightarrow> ret cs
              | None \<Rightarrow> on_db (reads (\<lambda>db. owned_claims worker (notification_outbox db)))) (\<lambda>claims.
       bindP (deliver_loop (dv\<lparr>dv_now := t\<rparr>) random env 0 claims) (\<lambda>rows. ret (report_of rows))))"
    proof (cases claims)
      case None
      show ?thesis unfolding None option.case on_db_reads
        by (rule rg.keeps_reads, rule rg.keeps_weaken [OF loop]) blast
    next
      case (Some cs)
      show ?thesis unfolding Some option.case bindP_ret_fun by (rule loop)
    qed
  qed
  then show ?thesis using assms(4,5) unfolding rg.keeps_def by (metis snd_conv)
qed

end

section \<open>Histories\<close>

text \<open>
  Every history of the outbox with the fake channel: it starts with no outbox entry and no
  delivery; decisions are committed, batches claimed and claims delivered by any workers, with
  other sessions interfering between the worker's statements; failures and crashes are
  configured at any time; and other parts of the system work on the rest of the store, never
  on the outbox tables and never on a run's shadow flag.
\<close>

definition elsewhere :: "jsval wf_db \<Rightarrow> jsval wf_db \<Rightarrow> bool" where
  "elsewhere db db' \<longleftrightarrow>
     notification_outbox db' = notification_outbox db \<and> decision_commits db' = decision_commits db \<and>
     alert_records db' = alert_records db \<and> wf_outbox_fencing_seq db' = wf_outbox_fencing_seq db \<and>
     (\<forall>k r. run_of db k = Some r \<longrightarrow> (\<exists>r'. run_of db' k = Some r' \<and> r_shadow r' = r_shadow r))"

inductive history :: "fake_channel world \<Rightarrow> bool" where
  start: "notification_outbox db = [] \<Longrightarrow> 0 < wf_outbox_fencing_seq db \<Longrightarrow> history (db, fakeChannel now prefix)"
| commit: "history (db, c) \<Longrightarrow> commitDecisionWithOutbox sha clock uuid input db = (res, db') \<Longrightarrow> history (db', c)"
| claim: "history (db, c) \<Longrightarrow> claimOutboxBatch clock locked worker now lease limit db = (res2, db') \<Longrightarrow> history (db', c)"
| deliver: "history w \<Longrightarrow> dv_send dv = send \<Longrightarrow> resolver_ok fake_delivered dv \<Longrightarrow>
    (\<And>i j w. world_evolves fake_delivered w (env i j w)) \<Longrightarrow>
    deliverClaimed dv clock now random env claims w = (res3, w') \<Longrightarrow> history w'"
| transient: "history (db, c) \<Longrightarrow> history (db, failTransiently n c)"
| crash: "history (db, c) \<Longrightarrow> history (db, crashAfter n c)"
| other: "history (db, c) \<Longrightarrow> elsewhere db db' \<Longrightarrow> history (db', c)"

lemma elsewhere_inv:
  assumes "delivery_inv delivered (db, c)" and "elsewhere db db'"
  shows "delivery_inv delivered (db', c)"
proof -
  note invD = delivery_invD [OF assms(1)]
  have rows: "outbox_of db' k = outbox_of db k" for k using assms(2) by (simp add: elsewhere_def)
  have sh: "owning_shadow db' k = Some b" if "owning_shadow db k = Some b" for k b
    using that assms(2) unfolding owning_shadow_def elsewhere_def
    by (auto simp: bind_eq_Some_conv) (metis option.inject)+
  have "outbox_ok db'"
    using invD(1) assms(2) by (simp add: outbox_ok_def elsewhere_def claim_token_def)
  moreover have "owning_shadow db' k \<noteq> None" if "outbox_of db' k = Some r" for k r
    using invD(2) [of k r] that sh [of k] rows by (cases "owning_shadow db k") auto
  ultimately show ?thesis
    by (rule delivery_invI) (use rows invD(3-5) sh in \<open>simp_all add: rows\<close>)
qed

lemma history_inv: "history w \<Longrightarrow> delivery_inv fake_delivered w"
proof (induction rule: history.induct)
  case (start db now prefix)
  then show ?case
    by (auto simp: delivery_inv_def outbox_ok_def keys_distinct_def claim_token_def fake_delivered_def fakeChannel_def)
next
  case (commit db c sha clock uuid input res db')
  show ?case by (rule world_evolvesD(1) [OF commit_evolves [OF commit.hyps(2) commit.IH] commit.IH])
next
  case (claim db c clock locked worker now lease limit res2 db')
  show ?case by (rule world_evolvesD(1) [OF claim_evolves [OF claim.hyps(2) claim.IH] claim.IH])
next
  case (deliver w dv env clock now random claims res3 w')
  have "world_evolves fake_delivered w w'"
    by (rule fake.deliverClaimed_keeps [OF deliver.hyps(4,2,3) deliver.IH deliver.hyps(5)])
  then show ?case using deliver.IH world_evolvesD(1) by (metis surj_pair)
next
  case (transient db c n)
  then show ?case by (simp add: delivery_inv_def failTransiently_def fake_delivered_def)
next
  case (crash db c n)
  then show ?case by (simp add: delivery_inv_def crashAfter_def fake_delivered_def)
next
  case (other db c db')
  show ?case by (rule elsewhere_inv [OF other.IH other.hyps(2)])
qed

section \<open>Properties\<close>

text \<open>
  Rely and guarantee of the delivery worker: from a world in which the
  outbox and the channel's ledger agree, \<open>deliverClaimed\<close>, with any claims, stale or not, and
  with other sessions committing between any two of its statements, keeps them in agreement,
  changes no entry's content and no final status, and neither loses nor alters a delivery;
  \<open>commitDecisionWithOutbox\<close> and \<open>claimOutboxBatch\<close> do the same.
\<close>

theorem delivery_contract:
  assumes "delivery_inv fake_delivered (db, c)" and "dv_send dv = send" and "resolver_ok fake_delivered dv"
    and "\<And>i j w. world_evolves fake_delivered w (env i j w)"
  shows "world_evolves fake_delivered (db, c) (snd (deliverClaimed dv clock now random env claims (db, c))) \<and>
    world_evolves fake_delivered (db, c) (snd (commitDecisionWithOutbox sha clock uuid input db), c) \<and>
    world_evolves fake_delivered (db, c) (snd (claimOutboxBatch clock locked worker now lease limit db), c)"
proof (intro conjI)
  show "world_evolves fake_delivered (db, c) (snd (deliverClaimed dv clock now random env claims (db, c)))"
    by (rule fake.deliverClaimed_keeps [OF assms(4,2,3,1) prod.collapse [symmetric]])
  show "world_evolves fake_delivered (db, c) (snd (commitDecisionWithOutbox sha clock uuid input db), c)"
    by (rule commit_evolves [OF prod.collapse [symmetric] assms(1)])
  show "world_evolves fake_delivered (db, c) (snd (claimOutboxBatch clock locked worker now lease limit db), c)"
    by (rule claim_evolves [OF prod.collapse [symmetric] assms(1)])
qed

text \<open>
  C2 (delivered_exactly_what_was_committed). In every history, whatever crashes, retries,
  re-claims and interleavings it has: a notification in the channel's ledger is that of an
  outbox entry that exists, has the entry's content hash and channel, and belongs to a run
  that is not shadow, so no shadow run ever delivers; an entry marked \<open>SENT\<close> is in the ledger;
  and every outbox entry has its decision and run.
\<close>

theorem delivered_exactly_what_was_committed:
  assumes "history (db, c)"
  shows "(\<forall>k d. fake_delivered c k = Some d \<longrightarrow> owning_shadow db k = Some False \<and>
       (\<exists>row. outbox_of db k = Some row \<and> dn_payloadHash d = o_payload_hash row \<and> dn_channel d = o_channel row)) \<and>
    (\<forall>k. owning_shadow db k = Some True \<longrightarrow> fake_delivered c k = None) \<and>
    (\<forall>k row. outbox_of db k = Some row \<longrightarrow> owning_shadow db k \<noteq> None \<and>
       (o_status row = Out_SENT \<longrightarrow> fake_delivered c k \<noteq> None))"
proof -
  note invD = delivery_invD [OF history_inv [OF assms]]
  have "fake_delivered c k = None" if "owning_shadow db k = Some True" for k
    using that invD(3) [of k] by (cases "fake_delivered c k") auto
  then show ?thesis using invD(2-5) by metis
qed

section \<open>Worked example\<close>

definition quiet_dv :: "fake_channel delivery" where
  "quiet_dv = \<lparr>dv_sha = no_sha, dv_nameOf = (\<lambda>_. None), dv_send = send, dv_resolvePayload = None,
     dv_worker = ''w1'', dv_now = 0, dv_maxAttempts = None\<rparr>"

lemma quiet_dv_facts: "dv_send quiet_dv = send" "resolver_ok fake_delivered quiet_dv"
  by (simp_all add: quiet_dv_def resolver_ok_def)

lemma demo_history: "history (demo_claimed ''w1'' 1 10, fakeChannel int None)"
proof -
  have "history (demo_store, fakeChannel int None)"
    by (rule history.start) (simp_all add: demo_store_def empty_db_def)
  then have "history (demo_committed, fakeChannel int None)"
    using demo_commit_run by (rule history.commit)
  then show ?thesis using demo_claim_runs(1) by (rule history.claim)
qed

theorem delivery_contract_witness:
  "world_evolves fake_delivered (demo_claimed ''w1'' 1 10, fakeChannel int None)
     (snd (deliverClaimed quiet_dv 0 (Some (Some 20)) (\<lambda>_. Fin 0) (\<lambda>_ _ w. w) (Some [demo_claim 1 10])
        (demo_claimed ''w1'' 1 10, fakeChannel int None)))"
  using delivery_contract [OF history_inv [OF demo_history] quiet_dv_facts, where env = "\<lambda>_ _ w. w"
      and clock = 0 and now = "Some (Some 20)" and random = "\<lambda>_. Fin 0" and claims = "Some [demo_claim 1 10]"]
    rely_guarantee.R_refl [OF world_evolves_rg] by blast

theorem delivered_exactly_what_was_committed_witness:
  "owning_shadow (demo_claimed ''w1'' 1 10) ''o1'' \<noteq> None"
  using delivered_exactly_what_was_committed [OF demo_history]
  by (auto simp: demo_claimed_def demo_committed_def demo_store_def demo_entry_def claim_set_def)

end
