(* ===== verification/OutboxProgress.thy ===== *)
theory OutboxProgress
  imports OutboxDelivery
begin

text \<open>
  Progress of delivery: a committed and claimed entry is delivered, and a worker's crash after
  the channel accepted the message is repaired by the next claim without a second delivery.
\<close>

section \<open>Entries that can be sent\<close>

text \<open>
  An entry whose stored payload still has the entry's content address, for a run that is not
  shadow. The payload is found through the row's own references, as
  \<open>defaultResolvePayload\<close> does with the claim's.
\<close>

definition sendable :: "(string \<Rightarrow> string) \<Rightarrow> jsval wf_db \<Rightarrow> string \<Rightarrow> outbox_row \<Rightarrow> jsval \<Rightarrow> bool" where
  "sendable sha db k row payload \<longleftrightarrow>
     outbox_of db k = Some row \<and> outbox_checks row \<and> owning_shadow db k = Some False \<and> \<not> blank k \<and>
     \<not> blank (o_channel row) \<and> payload \<noteq> JsUndefined \<and>
     defaultResolvePayload (claim_of_row row) db = Inr payload \<and>
     (\<exists>text. canonicalJson payload = Inr text \<and> sha256Text sha text = o_payload_hash row)"

definition entry_request :: "string \<Rightarrow> outbox_row \<Rightarrow> jsval \<Rightarrow> send_request" where
  "entry_request k row payload =
     \<lparr>q_idempotencyKey = k, q_channel = o_channel row, q_payload = payload, q_payloadHash = o_payload_hash row\<rparr>"

lemma entry_request_ok:
  "sendable sha db k row payload \<Longrightarrow> assertSendRequest (entry_request k row payload) = Inr ()"
  by (simp add: sendable_def entry_request_def assertSendRequest_def assertText_def outbox_checks_def)

text \<open>A commit without caller-supplied content addresses writes such an entry.\<close>

lemma commit_sendable:
  assumes run: "commitDecisionWithOutbox sha clock uuid input db = (Inr r, db')" and "cr_status r = Out_PENDING"
    and "ai_payloadHash (ci_alert input) = None" and "oi_payloadHash (ci_outbox input) = None"
    and "oi_alertRef (ci_outbox input) = None" and "\<not> blank (cr_outboxId r)"
  shows "\<exists>row. sendable sha db' (cr_outboxId r) row (jsonb (ai_payload (ci_alert input))) \<and>
    o_channel row = oi_channel (ci_outbox input) \<and>
    (\<exists>body. canonicalJson (ai_payload (ci_alert input)) = Inr body \<and> o_payload_hash row = sha256Text sha body)"
  using run
proof (rule commit_ok)
  fix run now x dh ah oh
  let ?row = "new_outbox_row input (cr_outboxId r) oh (cr_status r) now"
  assume r: "run_of db (ci_runId input) = Some run"
    and st: "commit_status (r_shadow run) (case ci_influence input of None \<Rightarrow> OPPORTUNITY_NOTIFICATION | Some i \<Rightarrow> i) x
        = Inr (cr_status r)"
    and ah: "contentHash sha (ai_payload (ci_alert input)) (ai_payloadHash (ci_alert input)) = Inr ah"
    and oh: "oh = (case oi_payloadHash (ci_outbox input) of None \<Rightarrow> ah | Some h \<Rightarrow> h)"
    and db': "db' = committed_db input (cr_outboxId r) (cr_status r) dh ah oh now db"
    and new: "outbox_of db (cr_outboxId r) = None"
      "row_by d_decision_id (di_decisionId (ci_decision input)) (decision_commits db) = None"
      "row_by a_alert_id (ai_alertId (ci_alert input)) (alert_records db) = None"
    and chk: "outbox_checks ?row"
  from ah assms(3) obtain body where body: "canonicalJson (ai_payload (ci_alert input)) = Inr body" "ah = sha256Text sha body"
    by (auto simp: contentHash_def bindE_eq_Inr split: if_splits)
  have run': "run_of db' (ci_runId input) = Some run" using r db' by (simp add: committed_db_def)
  have "\<not> r_shadow run" using st assms(2) by (auto simp: commit_status_ok split: if_splits)
  moreover have "\<not> blank (oi_channel (ci_outbox input))"
    using run by (auto simp: commitDecisionWithOutbox_def bindP_liftE requireText_def split: sum.splits if_splits)
  moreover have "jsonb (ai_payload (ci_alert input)) \<noteq> JsUndefined"
    using ah by (cases "ai_payload (ci_alert input)") (auto simp: contentHash_def)
  ultimately have "sendable sha db' (cr_outboxId r) ?row (jsonb (ai_payload (ci_alert input)))"
    using new chk body canonical_jsonb(1) [OF body(1)] oh run' db' assms(4-6)
    by (simp add: sendable_def committed_db_def new_outbox_row_def new_decision_row_def new_alert_row_def
        owning_shadow_def defaultResolvePayload_def claim_of_row_def)
  then show ?thesis using body oh assms(4) by (auto simp: new_outbox_row_def)
qed

lemma resolve_same:
  "cl_alertRef c' = cl_alertRef c \<Longrightarrow> cl_decisionRef c' = cl_decisionRef c \<Longrightarrow> alert_records db' = alert_records db \<Longrightarrow>
   decision_commits db' = decision_commits db \<Longrightarrow> defaultResolvePayload c' db' = defaultResolvePayload c db"
  by (simp only: defaultResolvePayload_def)

text \<open>A claim takes the row over and leaves the rest of the entry as it is.\<close>

lemma claim_sendable:
  assumes run: "claimOutboxBatch clock locked w now lease limit db = (Inr cs, db')" and cl: "cl \<in> set cs"
    and ok: "outbox_ok db" and s: "sendable sha db (cl_outboxId cl) row payload"
  shows "\<exists>t e. sendable sha db' (cl_outboxId cl) (claim_set w t e (cl_fencingToken cl) row) payload \<and>
    cl = claim_of_row (claim_set w t e (cl_fencingToken cl) row) \<and> outbox_ok db' \<and> cl_claimExpiresAt cl = Some e"
  using run
proof (cases rule: claimOutboxBatch_cases)
  case (claimed t e n rows)
  then obtain r where r: "r \<in> set rows" "cl = claim_of_row r" using cl by auto
  have id: "cl_outboxId cl = o_outbox_id r" using r(2) by (simp add: claim_of_row_def)
  note rows = claimed_rows [OF claimed(4) ok r(1)]
  obtain tk where tk: "o_claim_fencing_token r = Some tk" using rows(2) by blast
  have pos: "0 < tk" using rows(2) tk outbox_okD(2) [OF ok] by auto
  have row: "r = claim_set w t e tk row"
    using rows(3) s tk id by (auto simp: sendable_def)
  have tok: "cl_fencingToken cl = tk" using r(2) tk by (simp add: claim_of_row_def)
  have ok': "outbox_ok db'" using claim_fence.step_inv [OF ok outbox_step.claim [OF run]] .
  have same: "decision_commits db' = decision_commits db" "alert_records db' = alert_records db" "runs db' = runs db"
    using claimed(4) by (auto simp: claim_batch_stmt_def Let_def)
  have "outbox_of db' (cl_outboxId cl) = Some r" using rows(4) id by simp
  moreover have "defaultResolvePayload (claim_of_row r) db' = defaultResolvePayload (claim_of_row row) db"
    using same row by (intro resolve_same) (simp_all add: claim_of_row_def claim_set_def)
  ultimately have "sendable sha db' (cl_outboxId cl) r payload"
    using s pos row same
    by (auto simp: sendable_def claim_set_def owning_shadow_def outbox_checks_def)
  moreover have "cl_claimExpiresAt cl = Some e" using r(2) row by (simp add: claim_of_row_def claim_set_def)
  ultimately show ?thesis using r(2) row tok ok' by (intro exI [of _ t] exI [of _ e]) simp
qed simp

lemma claimed_entry:
  assumes "outbox_ok db" and "commitDecisionWithOutbox sha clock uuid input db = (Inr r, db1)"
    and "cr_status r = Out_PENDING" and "\<not> blank (cr_outboxId r)"
    and "ai_payloadHash (ci_alert input) = None" and "oi_payloadHash (ci_outbox input) = None"
    and "oi_alertRef (ci_outbox input) = None"
    and "claimOutboxBatch clock2 locked w t2 lease limit db1 = (Inr cs, db2)" and "cl \<in> set cs"
    and "cl_outboxId cl = cr_outboxId r" and "cl_claimExpiresAt cl = Some e"
  obtains row t body where "sendable sha db2 (cr_outboxId r) (claim_set w t e (cl_fencingToken cl) row)
      (jsonb (ai_payload (ci_alert input)))"
    and "cl = claim_of_row (claim_set w t e (cl_fencingToken cl) row)" and "outbox_ok db2"
    and "o_channel row = oi_channel (ci_outbox input)"
    and "canonicalJson (ai_payload (ci_alert input)) = Inr body" and "o_payload_hash row = sha256Text sha body"
proof -
  from commit_sendable [OF assms(2,3,5-7,4)] obtain row body where
    s1: "sendable sha db1 (cr_outboxId r) row (jsonb (ai_payload (ci_alert input)))"
    and more: "o_channel row = oi_channel (ci_outbox input)" "canonicalJson (ai_payload (ci_alert input)) = Inr body"
      "o_payload_hash row = sha256Text sha body" by blast
  have ok1: "outbox_ok db1" using claim_fence.step_inv [OF assms(1) outbox_step.commit [OF assms(2)]] .
  from claim_sendable [OF assms(8,9) ok1, unfolded assms(10), OF s1] show thesis
    using that more assms(11) by (metis option.inject)
qed

section \<open>One undisturbed delivery\<close>

lemma deliver_one_sendable:
  assumes s: "sendable (dv_sha dv) db k (claim_set (dv_worker dv) t e tk row) payload"
    and cl: "cl = claim_of_row (claim_set (dv_worker dv) t e tk row)" and now: "dv_now dv < e"
    and res: "dv_resolvePayload dv = None"
  shows "deliver_one dv random (\<lambda>_ w. w) cl (db, c) =
    (case dv_send dv (entry_request k row payload) c of
       (Inl err, c') \<Rightarrow> send_failed dv random (\<lambda>_ w. w) cl (claim_set (dv_worker dv) t e tk row) err (db, c')
     | (Inr _, c') \<Rightarrow> bindP (on_db (mark_sent cl (dv_now dv) (dv_worker dv))) (\<lambda>marked.
         if marked = []
         then ret (outcome cl D_STALE (o_attempts row) (Some ''claim changed before the SENT mark''))
         else ret (outcome cl D_SENT (o_attempts row) None)) (db, c'))"
proof -
  let ?row = "claim_set (dv_worker dv) t e tk row"
  from s obtain body where body: "canonicalJson payload = Inr body" "sha256Text (dv_sha dv) body = o_payload_hash row"
    and row: "outbox_of db k = Some ?row" and sh: "owning_shadow db k = Some False"
    and pl: "defaultResolvePayload cl db = Inr payload"
    unfolding cl by (auto simp: sendable_def claim_set_def)
  have id: "cl_outboxId cl = k" using row cl by (auto simp: claim_of_row_def dest: row_by_SomeD)
  have cur: "isClaimCurrent cl (dv_worker dv) (dv_now dv) db"
    using row now cl id by (simp add: isClaimCurrent_def claim_of_row_def claim_set_def)
  have "deliver_one dv random (\<lambda>_ w. w) cl (db, c) = send_claim dv random (\<lambda>_ w. w) cl ?row payload (db, c)"
    using row sh cur pl res id
    by (simp add: deliver_one_def deliver_shadow_checked_def deliver_unsuppressed_def deliver_current_def
        resolve_claim_def on_db_def bindP_run outcomeP_run claim_set_def parseOutboxStatus_def
        outbox_voc.parse_roundtrip del: outbox_status_text.simps)
  also have "\<dots> = (case dv_send dv (entry_request k row payload) c of
       (Inl err, c') \<Rightarrow> send_failed dv random (\<lambda>_ w. w) cl ?row err (db, c')
     | (Inr _, c') \<Rightarrow> bindP (on_db (mark_sent cl (dv_now dv) (dv_worker dv))) (\<lambda>marked.
         if marked = []
         then ret (outcome cl D_STALE (o_attempts row) (Some ''claim changed before the SENT mark''))
         else ret (outcome cl D_SENT (o_attempts row) None)) (db, c'))"
    using body id
    by (simp add: send_claim_def bindP_run outcomeP_run on_channel_def entry_request_def claim_set_def
        split: prod.split sum.split)
  finally show ?thesis .
qed

lemma outbox_update_hit:
  assumes "outbox_ok db" and "outbox_of db k = Some r" and "p r" and "outbox_checks (f r)"
    and "\<And>r. o_outbox_id (f r) = o_outbox_id r"
  shows "\<exists>db'. outbox_update p k f db = (Inr [f r], db') \<and> outbox_of db' k = Some (f r)"
proof -
  have "outbox_update p k f db =
      (Inr [f r], notification_outbox_update (sql_update (\<lambda>r. o_outbox_id r = k \<and> p r) f) db)"
    using assms(2-4) unfolding outbox_update_def
    by (subst update_stmt_row [where key = o_outbox_id and k = k and q = p])
      (use outbox_okD(1) [OF assms(1)] notification_outbox_update_id in auto)
  then show ?thesis using assms(2,3,5) by (auto simp: row_by_update dest: row_by_SomeD)
qed

lemma mark_sent_sendable:
  assumes s: "sendable sha db k (claim_set w t e tk row) payload" and ok: "outbox_ok db"
    and cl: "cl = claim_of_row (claim_set w t e tk row)"
  shows "\<exists>r db'. mark_sent cl now w db = (Inr [r], db') \<and> outbox_of db' k = Some r \<and> o_status r = Out_SENT \<and>
    o_sent_at r = Some now"
proof -
  let ?row = "claim_set w t e tk row"
  let ?f = "\<lambda>r. r\<lparr>o_status := Out_SENT, o_sent_at := Some now, o_last_error := None\<rparr>"
  have row: "outbox_of db k = Some ?row" and chk: "outbox_checks (?f ?row)"
    using s by (auto simp: sendable_def outbox_checks_def)
  have id: "cl_outboxId cl = k" "cl_fencingToken cl = tk"
    using row cl by (auto simp: claim_of_row_def claim_set_def dest: row_by_SomeD)
  have held: "claim_held w tk ?row" by (simp add: claim_held_def claim_set_def)
  from outbox_update_hit [of db k ?row "claim_held w tk" ?f, OF ok row held chk] show ?thesis
    unfolding mark_sent_def id by auto
qed

text \<open>A whole delivery call on one such claim, and its two ways to end on a channel that takes the message.\<close>

lemma deliver_claim:
  assumes s: "sendable (dv_sha dv) db k (claim_set (dv_worker dv) t e tk row) payload" and ok: "outbox_ok db"
    and cl: "cl = claim_of_row (claim_set (dv_worker dv) t e tk row)" and now: "now < e"
    and res: "dv_resolvePayload dv = None" and worker: "\<not> blank (dv_worker dv)"
  shows "dv_send dv (entry_request k row payload) c = (Inl NotificationChannelCrashError, c') \<Longrightarrow>
      deliverClaimed dv clock (Some (Some now)) random (\<lambda>_ _ w. w) (Some [cl]) (db, c) =
        (Inl NotificationChannelCrashError, (db, c'))"
    and "dv_send dv (entry_request k row payload) c = (Inr ack, c') \<Longrightarrow>
      \<exists>rep db' r. deliverClaimed dv clock (Some (Some now)) random (\<lambda>_ _ w. w) (Some [cl]) (db, c) = (Inr rep, (db', c')) \<and>
        rep_sent rep = [k] \<and> outbox_of db' k = Some r \<and> o_status r = Out_SENT \<and> o_sent_at r = Some now"
proof -
  let ?dv = "dv\<lparr>dv_now := now\<rparr>"
  have s': "sendable (dv_sha ?dv) db k (claim_set (dv_worker ?dv) t e tk row) payload"
    and cl': "cl = claim_of_row (claim_set (dv_worker ?dv) t e tk row)" using s cl by simp_all
  note one = deliver_one_sendable [OF s' cl', of "random 0" c]
  have id: "cl_outboxId cl = k" using s cl by (auto simp: sendable_def claim_of_row_def dest: row_by_SomeD)
  have call: "deliverClaimed dv clock (Some (Some now)) random (\<lambda>_ _ w. w) (Some [cl]) (db, c) =
      bindP (deliver_one ?dv (random 0) (\<lambda>_ w. w) cl) (\<lambda>x. ret (report_of [x])) (db, c)"
    using worker by (simp add: deliverClaimed_def bindP_run requireText_def outbox_nowIso_def split: prod.split sum.split)
  show "deliverClaimed dv clock (Some (Some now)) random (\<lambda>_ _ w. w) (Some [cl]) (db, c) =
        (Inl NotificationChannelCrashError, (db, c'))"
    if "dv_send dv (entry_request k row payload) c = (Inl NotificationChannelCrashError, c')"
    unfolding call using one that now res by (simp add: bindP_run send_failed_def)
  show "\<exists>rep db' r. deliverClaimed dv clock (Some (Some now)) random (\<lambda>_ _ w. w) (Some [cl]) (db, c) = (Inr rep, (db', c')) \<and>
        rep_sent rep = [k] \<and> outbox_of db' k = Some r \<and> o_status r = Out_SENT \<and> o_sent_at r = Some now"
    if "dv_send dv (entry_request k row payload) c = (Inr ack, c')"
  proof -
    from mark_sent_sendable [OF s ok cl, of now] obtain r db' where
      m: "mark_sent cl now (dv_worker dv) db = (Inr [r], db')" "outbox_of db' k = Some r" "o_status r = Out_SENT"
        "o_sent_at r = Some now" by blast
    have "deliver_one ?dv (random 0) (\<lambda>_ w. w) cl (db, c) = (Inr (outcome cl D_SENT (o_attempts row) None), (db', c'))"
      using one that now res m(1) by (simp add: bindP_run on_db_def)
    then show ?thesis unfolding call
      using m(2-4) id by (auto simp: bindP_run report_of_def outcome_def)
  qed
qed

text \<open>What the fake channel does with a valid request when no transient failure is due.\<close>

lemma fake_takes:
  assumes "assertSendRequest q = Inr ()" and "\<not> js_lt (Fin 0) (fc_transientFailuresRemaining c)"
    and "row_by n_idempotencyKey (q_idempotencyKey q) (deliveries c) = None"
  shows "\<exists>res c' r. send q c = (res, c') \<and> (res = Inl NotificationChannelCrashError \<or> (\<exists>a. res = Inr a)) \<and>
    deliveries c' = deliveries c @ [r] \<and> n_idempotencyKey r = q_idempotencyKey q \<and> n_channel r = q_channel q \<and>
    n_payloadHash r = q_payloadHash q \<and> fc_transientFailuresRemaining c' = fc_transientFailuresRemaining c \<and>
    (fc_crashAtDeliveryCount c = None \<longrightarrow> (\<exists>a. res = Inr a))"
  using assms
  by (simp add: send_def bindP_run fc_now_def Let_def finish_delivery_def push_attempt_run deliveries_def
      split: option.split)

lemma fake_replays:
  assumes "assertSendRequest q = Inr ()" and "\<not> js_lt (Fin 0) (fc_transientFailuresRemaining c)"
    and "row_by n_idempotencyKey (q_idempotencyKey q) (deliveries c) = Some r"
  shows "\<exists>a c'. send q c = (Inr a, c') \<and> deliveries c' = deliveries c"
  using assms by (simp add: send_def bindP_run fc_now_def push_attempt_run deliveries_def)

section \<open>Properties\<close>

text \<open>
  Progress: an alert committed \<open>PENDING\<close> (content addresses computed by
  the commit itself) and claimed by a worker is delivered by that worker's undisturbed
  \<open>deliverClaimed\<close> before the claim expires, if the channel has no failure due: the call reports
  the entry as sent, the row is \<open>SENT\<close>, and the ledger gained exactly one record, with the entry's
  id as key and the content address of the committed alert payload. The payload passes the
  content check although the store has normalised it.
\<close>

theorem commit_to_delivery:
  assumes "outbox_ok db" and "commitDecisionWithOutbox sha clock uuid input db = (Inr r, db1)"
    and "cr_status r = Out_PENDING" and "\<not> blank (cr_outboxId r)"
    and "ai_payloadHash (ci_alert input) = None" and "oi_payloadHash (ci_outbox input) = None"
    and "oi_alertRef (ci_outbox input) = None"
    and "claimOutboxBatch clock2 locked w t2 lease limit db1 = (Inr cs, db2)" and "cl \<in> set cs"
    and "cl_outboxId cl = cr_outboxId r" and "cl_claimExpiresAt cl = Some e" and "now < e"
    and "dv_sha dv = sha" and "dv_send dv = send" and "dv_resolvePayload dv = None" and "dv_worker dv = w"
    and "\<not> blank w"
    and "\<not> js_lt (Fin 0) (fc_transientFailuresRemaining c)" and "fc_crashAtDeliveryCount c = None"
    and "row_by n_idempotencyKey (cr_outboxId r) (deliveries c) = None"
  shows "\<exists>rep db3 c3 row n body. deliverClaimed dv clock3 (Some (Some now)) random (\<lambda>_ _ x. x) (Some [cl]) (db2, c) =
      (Inr rep, (db3, c3)) \<and> rep_sent rep = [cr_outboxId r] \<and>
    outbox_of db3 (cr_outboxId r) = Some row \<and> o_status row = Out_SENT \<and>
    deliveries c3 = deliveries c @ [n] \<and> n_idempotencyKey n = cr_outboxId r \<and>
    n_channel n = oi_channel (ci_outbox input) \<and>
    canonicalJson (ai_payload (ci_alert input)) = Inr body \<and> n_payloadHash n = sha256Text sha body"
proof -
  let ?k = "cr_outboxId r" and ?p = "jsonb (ai_payload (ci_alert input))"
  from assms(1-11) obtain row t body where
    s: "sendable sha db2 ?k (claim_set w t e (cl_fencingToken cl) row) ?p"
    and cl: "cl = claim_of_row (claim_set w t e (cl_fencingToken cl) row)" and ok: "outbox_ok db2"
    and row: "o_channel row = oi_channel (ci_outbox input)" "canonicalJson (ai_payload (ci_alert input)) = Inr body"
      "o_payload_hash row = sha256Text sha body" by (rule claimed_entry)
  note send = deliver_claim(2) [of dv db2 ?k t e "cl_fencingToken cl" row ?p cl now]
  have "assertSendRequest (entry_request ?k row ?p) = Inr ()"
    using entry_request_ok [OF s] by (simp add: entry_request_def claim_set_def)
  from fake_takes [OF this assms(18)] assms(14,19,20) obtain a c3 n where
    sent: "dv_send dv (entry_request ?k row ?p) c = (Inr a, c3)" "deliveries c3 = deliveries c @ [n]"
      "n_idempotencyKey n = ?k" "n_channel n = o_channel row" "n_payloadHash n = o_payload_hash row"
    by (auto simp: entry_request_def)
  show ?thesis
    using send [OF _ ok _ assms(12,15) _ sent(1), of clock3 random] s cl assms(13,16,17) sent(2-5) row by auto
qed


section \<open>Worked example\<close>

text \<open>
  The commit of the worked example with its alert's content address computed, a first worker
  that crashes after the channel accepted the message, and a second one that recovers.
\<close>

definition a_sha :: "string \<Rightarrow> string" where
  "a_sha t = replicate 64 (CHR ''a'')"

definition demo_hashed :: commit_input where
  "demo_hashed = demo_commit\<lparr>ci_alert := (ci_alert demo_commit)\<lparr>ai_payloadHash := None\<rparr>\<rparr>"

definition demo_dv :: "string \<Rightarrow> fake_channel delivery" where
  "demo_dv w = \<lparr>dv_sha = a_sha, dv_nameOf = (\<lambda>_. None), dv_send = send, dv_resolvePayload = None,
     dv_worker = w, dv_now = 0, dv_maxAttempts = None\<rparr>"

lemma a_sha_demo: "sha256Text a_sha t = demo_hash"
  by (simp add: sha256Text_def a_sha_def demo_hash_def)

definition demo_committed_result :: commit_result where
  "demo_committed_result = \<lparr>cr_outboxId = ''o1'', cr_status = Out_PENDING, cr_decisionId = ''d1'', cr_alertId = ''a1'',
     cr_suppressed = False\<rparr>"

lemma demo_hashed_run:
  "commitDecisionWithOutbox a_sha 0 ''u'' demo_hashed demo_store = (Inr demo_committed_result, demo_committed)"
proof -
  have "commit_tx ''o1'' demo_hashed 7 OPPORTUNITY_NOTIFICATION ''NORMAL'' demo_hash demo_hash demo_hash demo_store =
      (Inr demo_committed_result, demo_committed)"
    by (simp add: commit_tx_def bindP_run commit_status_def not_null_def serialisePayload_def decision_insert_def
        alert_insert_def outbox_insert_def insert_stmt_def shadowSuppressionFor_def shadowSuppresses_iff
        outbox_checks_def int4_def demo_store_def empty_db_def demo_run_def demo_hashed_def demo_commit_def new_decision_row_def
        new_alert_row_def new_outbox_row_def demo_committed_def demo_entry_def demo_committed_result_def)
  then show ?thesis
    by (simp add: commitDecisionWithOutbox_def bindP_run outbox_nowIso_def requireText_def contentHash_def Let_def
        transaction_def demo_hashed_def demo_commit_def a_sha_demo)
qed

lemma blank_o1 [simp]: "\<not> blank ''o1''"
  by (simp add: blank_iff js_space_def)

lemma demo_facts:
  "dv_sha (demo_dv w) = a_sha" "dv_send (demo_dv w) = send" "dv_resolvePayload (demo_dv w) = None" "dv_worker (demo_dv w) = w"
  "cl_outboxId (demo_claim t n) = ''o1''" "cl_claimExpiresAt (demo_claim t n) = Some (n + 30000)"
  "cr_outboxId demo_committed_result = ''o1''" "cr_status demo_committed_result = Out_PENDING"
  "ai_payloadHash (ci_alert demo_hashed) = None" "oi_payloadHash (ci_outbox demo_hashed) = None"
  "oi_alertRef (ci_outbox demo_hashed) = None" "outbox_ok demo_store"
  by (simp_all add: demo_dv_def demo_claim_def demo_committed_result_def demo_hashed_def demo_commit_def outbox_ok_def
      demo_store_def empty_db_def keys_distinct_def claim_token_def)

lemma demo_channels:
  "\<not> js_lt (Fin 0) (fc_transientFailuresRemaining (fakeChannel int None))"
  "fc_crashAtDeliveryCount (fakeChannel int None) = None" "deliveries (fakeChannel int None) = []"
  "\<not> js_lt (Fin 0) (fc_transientFailuresRemaining demo_channel)" "deliveries demo_channel = []"
  by (simp_all add: fakeChannel_def demo_channel_def crashAfter_def deliveries_def)

theorem commit_to_delivery_witness:
  "\<exists>rep db3 c3 row n body. deliverClaimed (demo_dv ''w1'') 0 (Some (Some 20)) (\<lambda>_. Fin 0) (\<lambda>_ _ x. x)
       (Some [demo_claim 1 10]) (demo_claimed ''w1'' 1 10, fakeChannel int None) = (Inr rep, (db3, c3)) \<and>
     rep_sent rep = [''o1''] \<and> outbox_of db3 ''o1'' = Some row \<and> o_status row = Out_SENT \<and> deliveries c3 = [n] \<and>
     n_idempotencyKey n = ''o1'' \<and> n_channel n = oi_channel (ci_outbox demo_hashed) \<and>
     canonicalJson (ai_payload (ci_alert demo_hashed)) = Inr body \<and> n_payloadHash n = sha256Text a_sha body"
  using commit_to_delivery [OF demo_facts(12) demo_hashed_run demo_facts(8) _ demo_facts(9-11) demo_claim_runs(1),
      of "demo_claim 1 10" 30010 20 "demo_dv ''w1''" "fakeChannel int None" 0 "\<lambda>_. Fin 0"]
  by (simp add: demo_facts demo_channels)

lemma demo_first_attempt:
  "\<exists>c3. deliverClaimed (demo_dv ''w1'') 0 (Some (Some 20)) (\<lambda>_. Fin 0) (\<lambda>_ _ x. x) (Some [demo_claim 1 10])
      (demo_claimed ''w1'' 1 10, demo_channel) = (Inl NotificationChannelCrashError, (demo_claimed ''w1'' 1 10, c3))"
proof -
  from claimed_entry [OF demo_facts(12) demo_hashed_run demo_facts(8) _ demo_facts(9-11) demo_claim_runs(1),
      of "demo_claim 1 10" 30010] obtain row t where
    s: "sendable a_sha (demo_claimed ''w1'' 1 10) ''o1'' (claim_set ''w1'' t 30010 (cl_fencingToken (demo_claim 1 10)) row)
        (jsonb (ai_payload (ci_alert demo_hashed)))"
    and cl: "demo_claim 1 10 = claim_of_row (claim_set ''w1'' t 30010 (cl_fencingToken (demo_claim 1 10)) row)"
    and ok: "outbox_ok (demo_claimed ''w1'' 1 10)"
    by (simp add: demo_facts) blast
  let ?q = "entry_request ''o1'' row (jsonb (ai_payload (ci_alert demo_hashed)))"
  have "assertSendRequest ?q = Inr ()" using entry_request_ok [OF s] by (simp add: entry_request_def claim_set_def)
  then have "\<exists>c3. send ?q demo_channel = (Inl NotificationChannelCrashError, c3)"
    by (simp add: send_def bindP_run fc_now_def push_attempt_def finish_delivery_def Let_def
      demo_channel_def crashAfter_def fakeChannel_def js_le_def js_eq_def js_max_def rat_trunc_def)
  then show ?thesis
    using deliver_claim(1) [of "demo_dv ''w1''", OF _ ok _ _ demo_facts(3), of "''o1''" t 30010
        "cl_fencingToken (demo_claim 1 10)" row _ "demo_claim 1 10" 20] s cl by (auto simp: demo_facts)
qed


end
