(* ===== verification/DeadLetters.thy ===== *)
theory DeadLetters
  imports Steps CanonicalJson "HOL-Library.Multiset"
begin

text \<open>
  Dead letters (packages/workflow-runtime/src/dead-letters.ts): opening an actionable record
  for an exhausted run, the listing, and recovery from the last valid checkpoint.
\<close>

section \<open>Records and validation\<close>

record open_input =
  od_runId :: string
  od_stepId :: "string option"
  od_errorClass :: string
  od_context :: jsval
  od_lastValidCheckpointRef :: "string option"
  od_now :: "iso option"
  od_deadLetterId :: "string option"

definition dl_nowIso :: "instant \<Rightarrow> iso option \<Rightarrow> instant res" where
  "dl_nowIso clock input =
     (case input of
        None \<Rightarrow> Inr clock
      | Some None \<Rightarrow> Inl (ForesiftError WF_DEAD_LETTER_TRANSITION_INVALID)
      | Some (Some now) \<Rightarrow> Inr now)"

text \<open>
  \<open>mapDeadLetterRow\<close>: the closed columns are re-parsed; a context that is no object reads as
  the empty object (an array is an object for \<open>typeof\<close>).
\<close>

definition mapDeadLetterRow :: "jsval dead_letter_row \<Rightarrow> jsval dead_letter_row res" where
  "mapDeadLetterRow row =
     bindE (parseRetryErrorClass (Some (retry_error_class_text (dl_error_class row)))) (\<lambda>errorClass.
     bindE (parseDeadLetterStatus (Some (dead_letter_status_text (dl_status row)))) (\<lambda>status.
     Inr (row\<lparr>dl_error_class := errorClass, dl_status := status,
              dl_context := (case dl_context row of JsObj ms \<Rightarrow> JsObj ms | JsArr vs \<Rightarrow> JsArr vs | _ \<Rightarrow> JsObj [])\<rparr>)))"

text \<open>A property read \<open>context.k\<close>; an array has none of the names read here.\<close>

definition jsprop :: "jsval \<Rightarrow> string \<Rightarrow> jsval" where
  "jsprop v k = (case v of JsObj ms \<Rightarrow> (case map_of ms k of Some x \<Rightarrow> x | None \<Rightarrow> JsUndefined) | _ \<Rightarrow> JsUndefined)"

definition assertActionableContext :: "jsval \<Rightarrow> unit res" where
  "assertActionableContext context =
     bindE (guardE (case context of JsObj _ \<Rightarrow> True | JsArr _ \<Rightarrow> True | _ \<Rightarrow> False) WF_DEAD_LETTER_TRANSITION_INVALID) (\<lambda>_.
     bindE (guardE (case jsprop context ''attempts'' of JsInt n \<Rightarrow> 0 \<le> n | _ \<Rightarrow> False) WF_DEAD_LETTER_TRANSITION_INVALID) (\<lambda>_.
     guardE (case jsprop context ''reason'' of JsStr s \<Rightarrow> \<not> blank s | _ \<Rightarrow> False) WF_DEAD_LETTER_TRANSITION_INVALID))"

text \<open>Object spread with later members: an existing key keeps its place, a new one goes last.\<close>

fun set_prop :: "string \<Rightarrow> jsval \<Rightarrow> (string \<times> jsval) list \<Rightarrow> (string \<times> jsval) list" where
  "set_prop k v [] = [(k, v)]"
| "set_prop k v ((k', v') # ms) = (if k = k' then (k, v) # ms else (k', v') # set_prop k v ms)"

definition letter_context :: "jsval \<Rightarrow> retry_error_class \<Rightarrow> jsval" where
  "letter_context context errorClass =
     JsObj (set_prop ''reason'' (jsprop context ''reason'')
           (set_prop ''attempts'' (jsprop context ''attempts'')
           (set_prop ''errorClass'' (JsStr (retry_error_class_text errorClass))
              (case context of JsObj ms \<Rightarrow> ms | _ \<Rightarrow> []))))"

section \<open>Opening a dead letter\<close>

definition step_in_run :: "jsval wf_db \<Rightarrow> string \<Rightarrow> string \<Rightarrow> step_row option" where
  "step_in_run db stepId runId = find (\<lambda>s. s_step_id s = stepId \<and> s_run_id s = runId) (steps db)"

definition exhaust :: "retry_error_class \<Rightarrow> instant \<Rightarrow> step_row \<Rightarrow> step_row" where
  "exhaust errorClass now r = r\<lparr>s_status := Step_FAILED_EXHAUSTED, s_error_class := Some errorClass,
     s_retryable := Some False, s_completed_at := Some now\<rparr>"

definition exhaust_step ::
  "string \<Rightarrow> string \<Rightarrow> retry_error_class \<Rightarrow> instant \<Rightarrow> (jsval wf_db, step_row list) prog" where
  "exhaust_step stepId runId errorClass now =
     update_stmt steps steps_update step_checks
       (\<lambda>_ r. s_step_id r = stepId \<and> s_run_id r = runId \<and>
              s_status r \<in> {Step_PENDING, Step_RUNNING, Step_FAILED_RETRYABLE})
       (exhaust errorClass now)"

definition letter_insert :: "jsval dead_letter_row \<Rightarrow> (jsval wf_db, unit) prog" where
  "letter_insert row = insert_stmt dead_letters_update
     (\<lambda>db r. dl_dead_letter_id r \<noteq> [] \<and> letter_of db (dl_dead_letter_id r) = None \<and>
        run_of db (dl_run_id r) \<noteq> None \<and>
        (case dl_step_id r of None \<Rightarrow> True | Some s \<Rightarrow> \<exists>x \<in> set (steps db). s_step_id x = s) \<and>
        dl_last_valid_checkpoint_ref r \<noteq> Some []) row"

definition run_update :: "(run_row \<Rightarrow> bool) \<Rightarrow> string \<Rightarrow> (run_row \<Rightarrow> run_row) \<Rightarrow> (jsval wf_db, run_row list) prog" where
  "run_update p runId f = update_stmt runs runs_update (\<lambda>_. True) (\<lambda>_ r. r_run_id r = runId \<and> p r) f"

definition exhaust_given_step ::
  "string option \<Rightarrow> string \<Rightarrow> retry_error_class \<Rightarrow> instant \<Rightarrow> (jsval wf_db, unit) prog" where
  "exhaust_given_step stepId runId errorClass now =
     (case stepId of
        None \<Rightarrow> ret ()
      | Some stepId \<Rightarrow>
          bindP (reads (\<lambda>db. step_in_run db stepId runId)) (\<lambda>found.
          case found of
            None \<Rightarrow> raise (ForesiftError WF_STEP_NOT_FOUND)
          | Some step \<Rightarrow>
              if s_status step \<noteq> Step_FAILED_EXHAUSTED
              then bindP (exhaust_step stepId runId errorClass now) (\<lambda>_. ret ())
              else ret ()))"

definition open_row :: "open_input \<Rightarrow> string \<Rightarrow> retry_error_class \<Rightarrow> instant \<Rightarrow> jsval dead_letter_row" where
  "open_row input deadLetterId errorClass now =
     \<lparr>dl_dead_letter_id = deadLetterId, dl_run_id = od_runId input, dl_step_id = od_stepId input,
      dl_error_class = errorClass, dl_context = letter_context (od_context input) errorClass,
      dl_last_valid_checkpoint_ref = od_lastValidCheckpointRef input, dl_status = DL_OPEN,
      dl_opened_at = now, dl_resolved_at = None\<rparr>"

text \<open>The stored context is the \<open>jsonb\<close> form of the one the caller gets back.\<close>

definition open_tx :: "jsval dead_letter_row \<Rightarrow> (jsval wf_db, jsval dead_letter_row) prog" where
  "open_tx row =
     bindP (reads (\<lambda>db. run_of db (dl_run_id row))) (\<lambda>run.
     case run of
       None \<Rightarrow> raise (ForesiftError WF_RUN_NOT_FOUND)
     | Some run \<Rightarrow>
         if r_status run = Run_SUCCEEDED \<or> r_status run = Run_CANCELLED
         then raise (ForesiftError WF_DEAD_LETTER_TRANSITION_INVALID)
         else bindP (exhaust_given_step (dl_step_id row) (dl_run_id row) (dl_error_class row) (dl_opened_at row)) (\<lambda>_.
              bindP (letter_insert (row\<lparr>dl_context := jsonb (dl_context row)\<rparr>)) (\<lambda>_.
              bindP (run_update (\<lambda>_. True) (dl_run_id row) (r_status_update (\<lambda>_. Run_DEAD_LETTERED))) (\<lambda>_.
              ret row))))"

definition openDeadLetter ::
  "instant \<Rightarrow> string \<Rightarrow> open_input \<Rightarrow> (jsval wf_db, jsval dead_letter_row) prog" where
  "openDeadLetter clock uuid input =
     bindP (liftE (dl_nowIso clock (od_now input))) (\<lambda>now.
     bindP (liftE (guardE (\<not> blank (od_runId input)) WF_DEAD_LETTER_TRANSITION_INVALID)) (\<lambda>_.
     bindP (liftE (parseRetryErrorClass (Some (od_errorClass input)))) (\<lambda>errorClass.
     bindP (liftE (assertActionableContext (od_context input))) (\<lambda>_.
     let deadLetterId = (case od_deadLetterId input of Some i \<Rightarrow> i | None \<Rightarrow> ''wfd_'' @ uuid)
     in transaction (open_tx (open_row input deadLetterId errorClass now))))))"

fun map_rows :: "'a list \<Rightarrow> ('a \<Rightarrow> 'b res) \<Rightarrow> 'b list res" where
  "map_rows [] f = Inr []"
| "map_rows (x # xs) f = bindE (f x) (\<lambda>y. bindE (map_rows xs f) (\<lambda>ys. Inr (y # ys)))"

lemma map_rows_eq_Inr: "map_rows xs f = Inr ys \<longleftrightarrow> list_all2 (\<lambda>x y. f x = Inr y) xs ys"
  by (induction xs arbitrary: ys) (auto simp: bindE_eq_Inr list_all2_Cons1)

definition listDeadLetters :: "string option \<Rightarrow> (jsval wf_db, jsval dead_letter_row list) prog" where
  "listDeadLetters status =
     bindP (liftE (case status of None \<Rightarrow> Inr () | Some s \<Rightarrow> bindE (parseDeadLetterStatus (Some s)) (\<lambda>_. Inr ()))) (\<lambda>_.
     bindP (reads (\<lambda>db. sort_key dl_opened_at (sort_key dl_dead_letter_id
              (filter (\<lambda>r. status = None \<or> status = Some (dead_letter_status_text (dl_status r))) (dead_letters db))))) (\<lambda>rows.
     liftE (map_rows rows mapDeadLetterRow)))"

section \<open>Recovery from the last valid checkpoint\<close>

record retry_step_plan =
  rs_stepType :: string
  rs_idempotencyKey :: string
  rs_attempt :: nat

record retry_resume_plan =
  rr_runId :: string
  rr_deadLetterId :: string
  rr_lastValidCheckpointRef :: string
  rr_errorClass :: retry_error_class
  rr_steps :: "retry_step_plan list"

record retry_result =
  rt_deadLetterId :: string
  rt_runId :: string
  rt_status :: dead_letter_status
  rt_resumedFrom :: string
  rt_reExecutedStepTypes :: "string list"

definition loadDeadLetter :: "string \<Rightarrow> (jsval wf_db, jsval dead_letter_row option) prog" where
  "loadDeadLetter k =
     bindP (reads (\<lambda>db. letter_of db k)) (\<lambda>row.
     case row of None \<Rightarrow> ret None | Some r \<Rightarrow> liftE (bindE (mapDeadLetterRow r) (\<lambda>d. Inr (Some d))))"

fun latest_loop :: "step_row option \<Rightarrow> int \<Rightarrow> step_row list \<Rightarrow> step_row option" where
  "latest_loop best bestIndex [] = best"
| "latest_loop best bestIndex (step # rest) =
     (let index = stepOrderIndex (s_step_type step)
      in if bestIndex < index then latest_loop (Some step) index rest else latest_loop best bestIndex rest)"

definition latestCompletedStep :: "step_row list \<Rightarrow> step_row option" where
  "latestCompletedStep completed = latest_loop None (- 1) completed"

text \<open>
  The completed steps, in the order the database returns them: the query has no
  \<open>ORDER BY\<close>, \<open>scan\<close> is the order of this execution.
\<close>

definition completed_steps :: "(step_row list \<Rightarrow> step_row list) \<Rightarrow> string \<Rightarrow> jsval wf_db \<Rightarrow> step_row list" where
  "completed_steps scan runId db =
     scan (filter (\<lambda>s. s_run_id s = runId \<and> s_status s = Step_SUCCEEDED) (steps db))"

definition find_checkpoint :: "string option \<Rightarrow> step_row list \<Rightarrow> step_row res" where
  "find_checkpoint ref completed =
     (case (case ref of
              Some ref \<Rightarrow> find (\<lambda>s. s_step_id s = ref \<or> s_idempotency_key s = ref) completed
            | None \<Rightarrow> latestCompletedStep completed) of
        None \<Rightarrow> Inl (ForesiftError WF_DEAD_LETTER_NO_CHECKPOINT)
      | Some c \<Rightarrow> if stepOrderIndex (s_step_type c) < 0
                  then Inl (ForesiftError WF_DEAD_LETTER_NO_CHECKPOINT) else Inr c)"

definition retry_steps :: "string \<Rightarrow> int \<Rightarrow> step_row list \<Rightarrow> retry_step_plan list" where
  "retry_steps deadLetterId checkpointIndex completed =
     map (\<lambda>(stepType, _). \<lparr>rs_stepType = stepType, rs_idempotencyKey = ''wfr_'' @ deadLetterId @ ''_'' @ stepType,
            rs_attempt = 1\<rparr>)
       (filter (\<lambda>(stepType, i). checkpointIndex < int i \<and> stepType \<notin> set (map s_step_type completed))
         (zip WF_STANDARD_STEP_ORDER [0..<length WF_STANDARD_STEP_ORDER]))"

definition resume_plan :: "string \<Rightarrow> jsval dead_letter_row \<Rightarrow> step_row \<Rightarrow> step_row list \<Rightarrow> retry_resume_plan" where
  "resume_plan runId letter checkpoint completed =
     \<lparr>rr_runId = runId, rr_deadLetterId = dl_dead_letter_id letter, rr_lastValidCheckpointRef = s_step_id checkpoint,
      rr_errorClass = dl_error_class letter,
      rr_steps = retry_steps (dl_dead_letter_id letter) (stepOrderIndex (s_step_type checkpoint)) completed\<rparr>"

text \<open>The check that completed history is what it was, one query per completed step.\<close>

definition same_history :: "step_row \<Rightarrow> step_row option \<Rightarrow> bool" where
  "same_history before row =
     (case row of
        None \<Rightarrow> False
      | Some r \<Rightarrow> s_idempotency_key r = s_idempotency_key before \<and> s_output_hash r = s_output_hash before \<and>
                  s_status r = Step_SUCCEEDED)"

fun verify_history :: "(nat \<Rightarrow> jsval wf_db \<Rightarrow> jsval wf_db) \<Rightarrow> nat \<Rightarrow> step_row list \<Rightarrow> (jsval wf_db, unit) prog" where
  "verify_history env i [] = ret ()"
| "verify_history env i (before # rest) =
     bindP (gap env i) (\<lambda>_.
     bindP (reads (\<lambda>db. row_by s_step_id (s_step_id before) (steps db))) (\<lambda>row.
     if \<not> same_history before row then raise (ForesiftError WF_DEAD_LETTER_TRANSITION_INVALID)
     else verify_history env (Suc i) rest))"

definition mark_retried :: "string \<Rightarrow> (jsval wf_db, jsval dead_letter_row list) prog" where
  "mark_retried k = update_stmt dead_letters dead_letters_update (\<lambda>_. True)
     (\<lambda>_ r. dl_dead_letter_id r = k \<and> dl_status r = DL_OPEN) (dl_status_update (\<lambda>_. DL_RETRIED))"

definition resume_and_close ::
  "(nat \<Rightarrow> jsval wf_db \<Rightarrow> jsval wf_db) \<Rightarrow> (retry_resume_plan \<Rightarrow> (jsval wf_db, bool) prog) \<Rightarrow> string \<Rightarrow> instant \<Rightarrow>
   retry_resume_plan \<Rightarrow> step_row list \<Rightarrow> (jsval wf_db, unit) prog" where
  "resume_and_close env resume runId now plan completed =
     bindP (gap env 1) (\<lambda>_.
     bindP (run_update (\<lambda>r. r_status r = Run_DEAD_LETTERED) runId (r_status_update (\<lambda>_. Run_RUNNING))) (\<lambda>_.
     bindP (gap env 2) (\<lambda>_.
     bindP (resume plan) (\<lambda>completedRun.
     bindP (verify_history env 5 completed) (\<lambda>_.
     bindP (gap env 3) (\<lambda>_.
     bindP (mark_retried (rr_deadLetterId plan)) (\<lambda>retried.
     if retried = [] then raise (ForesiftError WF_DEAD_LETTER_TRANSITION_INVALID)
     else if completedRun
     then bindP (gap env 4) (\<lambda>_.
          bindP (run_update (\<lambda>r. r_status r \<noteq> Run_SUCCEEDED \<and> r_status r \<noteq> Run_CANCELLED) runId
                   (\<lambda>r. r\<lparr>r_status := Run_SUCCEEDED, r_completed_at := Some now\<rparr>)) (\<lambda>_. ret ()))
     else ret ())))))))"

text \<open>
  The caller's \<open>resume\<close> may run any statements; it gives whether the run is complete
  (\<open>outcome.completed === true\<close>), and is absent when the input holds no function.
\<close>

definition retryFromLastValidCheckpoint ::
  "instant \<Rightarrow> (step_row list \<Rightarrow> step_row list) \<Rightarrow> (nat \<Rightarrow> jsval wf_db \<Rightarrow> jsval wf_db) \<Rightarrow>
   (retry_resume_plan \<Rightarrow> (jsval wf_db, bool) prog) option \<Rightarrow> string \<Rightarrow> string \<Rightarrow> iso option \<Rightarrow>
   (jsval wf_db, retry_result) prog" where
  "retryFromLastValidCheckpoint clock scan env resume deadLetterId runId nowInput =
     bindP (liftE (dl_nowIso clock nowInput)) (\<lambda>now.
     case resume of
       None \<Rightarrow> raise (ForesiftError WF_DEAD_LETTER_TRANSITION_INVALID)
     | Some resume \<Rightarrow>
     bindP (loadDeadLetter deadLetterId) (\<lambda>found.
     case found of
       None \<Rightarrow> raise (ForesiftError WF_DEAD_LETTER_NOT_FOUND)
     | Some letter \<Rightarrow>
         if dl_run_id letter \<noteq> runId then raise (ForesiftError WF_DEAD_LETTER_NOT_FOUND)
         else if dl_status letter \<noteq> DL_OPEN then raise (ForesiftError WF_DEAD_LETTER_TRANSITION_INVALID)
         else bindP (gap env 0) (\<lambda>_.
              bindP (reads (completed_steps scan runId)) (\<lambda>completed.
              bindP (liftE (find_checkpoint (dl_last_valid_checkpoint_ref letter) completed)) (\<lambda>checkpoint.
              let plan = resume_plan runId letter checkpoint completed
              in bindP (resume_and_close env resume runId now plan completed) (\<lambda>_.
                 ret \<lparr>rt_deadLetterId = dl_dead_letter_id letter, rt_runId = runId, rt_status = DL_RETRIED,
                      rt_resumedFrom = s_step_id checkpoint,
                      rt_reExecutedStepTypes = map rs_stepType (rr_steps plan)\<rparr>))))))"

section \<open>Lemmas on opening\<close>

lemma mapDeadLetterRow_ok:
  "mapDeadLetterRow r = Inr (r\<lparr>dl_context := (case dl_context r of JsObj ms \<Rightarrow> JsObj ms | JsArr vs \<Rightarrow> JsArr vs | _ \<Rightarrow> JsObj [])\<rparr>)"
  by (simp add: mapDeadLetterRow_def parseRetryErrorClass_def parseDeadLetterStatus_def errclass_voc.parse_roundtrip
      deadletter_voc.parse_roundtrip)

lemma map_of_set_prop [simp]: "map_of (set_prop k v ms) j = (if j = k then Some v else map_of ms j)"
  by (induction ms) auto

lemma map_of_jsonb_members:
  "map_of ms k = Some v \<Longrightarrow> v \<noteq> JsUndefined \<Longrightarrow> v \<noteq> JsFun \<Longrightarrow> map_of (jsonb_members ms) k = Some (jsonb v)"
  by (induction ms) (auto split: if_splits)

lemma jsprop_letter_context:
  "jsprop (letter_context c e) ''reason'' = jsprop c ''reason''"
  "jsprop (letter_context c e) ''attempts'' = jsprop c ''attempts''"
  "jsprop (letter_context c e) ''errorClass'' = JsStr (retry_error_class_text e)"
  by (simp_all add: letter_context_def jsprop_def)

lemma jsprop_jsonb:
  "jsprop v k = x \<Longrightarrow> x \<noteq> JsUndefined \<Longrightarrow> x \<noteq> JsFun \<Longrightarrow> jsprop (jsonb v) k = jsonb x"
  by (cases v) (auto simp: jsprop_def map_of_jsonb_members split: option.splits)

text \<open>What every stored dead letter holds: a bounded count, a reason to act on, its error class.\<close>

definition actionable :: "jsval dead_letter_row \<Rightarrow> bool" where
  "actionable r \<longleftrightarrow>
     (case jsprop (dl_context r) ''attempts'' of JsInt n \<Rightarrow> 0 \<le> n | _ \<Rightarrow> False) \<and>
     (case jsprop (dl_context r) ''reason'' of JsStr s \<Rightarrow> \<not> blank s | _ \<Rightarrow> False) \<and>
     jsprop (dl_context r) ''errorClass'' = JsStr (retry_error_class_text (dl_error_class r))"

lemma actionable_context:
  assumes "assertActionableContext (od_context input) = Inr ()"
  shows "actionable (open_row input k e now)"
    and "actionable ((open_row input k e now)\<lparr>dl_context := jsonb (dl_context (open_row input k e now))\<rparr>)"
proof -
  from assms obtain n x where p: "jsprop (od_context input) ''attempts'' = JsInt n" "0 \<le> n"
    "jsprop (od_context input) ''reason'' = JsStr x" "\<not> blank x"
    by (auto simp: assertActionableContext_def bindE_eq_Inr split: jsval.splits)
  then show "actionable (open_row input k e now)"
    "actionable ((open_row input k e now)\<lparr>dl_context := jsonb (dl_context (open_row input k e now))\<rparr>)"
    using jsprop_letter_context [of "od_context input" e]
      jsprop_jsonb [of "letter_context (od_context input) e" "''attempts''" "JsInt n"]
      jsprop_jsonb [of "letter_context (od_context input) e" "''reason''" "JsStr x"]
      jsprop_jsonb [of "letter_context (od_context input) e" "''errorClass''" "JsStr (retry_error_class_text e)"]
    by (simp_all add: actionable_def open_row_def)
qed

text \<open>The effect of opening: the letter, the run's status, and the named step if it can still fail.\<close>

definition exhausts :: "open_input \<Rightarrow> step_row \<Rightarrow> bool" where
  "exhausts input r \<longleftrightarrow> od_stepId input = Some (s_step_id r) \<and> s_run_id r = od_runId input \<and>
     s_status r \<in> {Step_PENDING, Step_RUNNING, Step_FAILED_RETRYABLE}"

definition opened_db :: "open_input \<Rightarrow> jsval dead_letter_row \<Rightarrow> jsval wf_db \<Rightarrow> jsval wf_db" where
  "opened_db input d db = db\<lparr>
     steps := sql_update (exhausts input) (exhaust (dl_error_class d) (dl_opened_at d)) (steps db),
     dead_letters := dead_letters db @ [d\<lparr>dl_context := jsonb (dl_context d)\<rparr>],
     runs := sql_update (\<lambda>r. r_run_id r = od_runId input) (r_status_update (\<lambda>_. Run_DEAD_LETTERED)) (runs db)\<rparr>"

lemma exhaust_given_step_ok:
  assumes "exhaust_given_step (od_stepId input) (od_runId input) e now db = (Inr u, db')"
    and "keys_distinct s_step_id (steps db)"
  shows "db' = db\<lparr>steps := sql_update (exhausts input) (exhaust e now) (steps db)\<rparr>"
proof (cases "od_stepId input")
  case None
  then have "sql_update (exhausts input) (exhaust e now) (steps db) = steps db"
    by (intro sql_update_none) (simp add: exhausts_def)
  then show ?thesis using assms(1) None by (simp add: exhaust_given_step_def)
next
  case (Some k)
  obtain r where r: "step_in_run db k (od_runId input) = Some r"
    using assms(1) Some by (auto simp: exhaust_given_step_def split: option.splits)
  show ?thesis
  proof (cases "s_status r = Step_FAILED_EXHAUSTED")
    case True
    have "\<not> exhausts input x" if x: "x \<in> set (steps db)" for x
    proof
      assume "exhausts input x"
      then have "s_step_id x = s_step_id r" "s_status x \<noteq> Step_FAILED_EXHAUSTED"
        using r Some by (auto simp: exhausts_def step_in_run_def find_Some_iff)
      moreover have "r \<in> set (steps db)" using r by (auto simp: step_in_run_def find_Some_iff)
      ultimately show False using x True assms(2) by (auto simp: keys_distinct_def distinct_map inj_on_def)
    qed
    then have "sql_update (exhausts input) (exhaust e now) (steps db) = steps db" by (intro sql_update_none) blast
    then show ?thesis using assms(1) Some r True by (simp add: exhaust_given_step_def)
  next
    case False
    have p: "(\<lambda>x. s_step_id x = k \<and> s_run_id x = od_runId input \<and>
        s_status x \<in> {Step_PENDING, Step_RUNNING, Step_FAILED_RETRYABLE}) = exhausts input"
      using Some by (auto simp: exhausts_def)
    obtain x where "exhaust_step k (od_runId input) e now db = (Inr x, db')"
      using assms(1) Some r False by (auto simp: exhaust_given_step_def bindP_eq_Inr)
    then show ?thesis unfolding exhaust_step_def
    proof (cases rule: update_stmt_cases)
      case updated
      then show ?thesis unfolding p by simp
    qed simp
  qed
qed

lemma run_update_run:
  "run_update p k f db = (Inr (sql_returning (\<lambda>r. r_run_id r = k \<and> p r) f (runs db)),
     db\<lparr>runs := sql_update (\<lambda>r. r_run_id r = k \<and> p r) f (runs db)\<rparr>)"
  by (simp add: run_update_def update_stmt_def)

lemma openDeadLetter_ok:
  assumes "openDeadLetter clock uuid input db = (Inr d, db')" and "keys_distinct s_step_id (steps db)"
  obtains k e now run where "d = open_row input k e now" and "assertActionableContext (od_context input) = Inr ()"
    and "parseRetryErrorClass (Some (od_errorClass input)) = Inr e"
    and "run_of db (od_runId input) = Some run" and "r_status run \<notin> {Run_SUCCEEDED, Run_CANCELLED}"
    and "letter_of db k = None" and "db' = opened_db input d db"
    and "od_stepId input = None \<or> (\<exists>x \<in> set (steps db). od_stepId input = Some (s_step_id x) \<and> s_run_id x = od_runId input)"
proof -
  from assms(1) obtain now e k where ctx: "assertActionableContext (od_context input) = Inr ()"
    and e: "parseRetryErrorClass (Some (od_errorClass input)) = Inr e"
    and tx: "open_tx (open_row input k e now) db = (Inr d, db')"
    by (auto simp: openDeadLetter_def bindP_liftE Let_def split: sum.splits)
  let ?row = "open_row input k e now"
  have sel: "dl_run_id ?row = od_runId input" "dl_step_id ?row = od_stepId input" "dl_error_class ?row = e"
    "dl_opened_at ?row = now" "dl_dead_letter_id ?row = k" by (simp_all add: open_row_def)
  obtain run where run: "run_of db (od_runId input) = Some run" using tx sel by (auto simp: open_tx_def split: option.splits)
  have st: "r_status run \<notin> {Run_SUCCEEDED, Run_CANCELLED}" using tx run sel by (auto simp: open_tx_def split: if_splits)
  obtain u db1 where ex: "exhaust_given_step (od_stepId input) (od_runId input) e now db = (Inr u, db1)"
    and rest: "bindP (letter_insert (?row\<lparr>dl_context := jsonb (dl_context ?row)\<rparr>)) (\<lambda>_.
              bindP (run_update (\<lambda>_. True) (od_runId input) (r_status_update (\<lambda>_. Run_DEAD_LETTERED))) (\<lambda>_.
              ret ?row)) db1 = (Inr d, db')"
    using tx run st by (auto simp: open_tx_def sel bindP_eq_Inr [of "exhaust_given_step _ _ _ _"] split: if_splits)
  note db1 = exhaust_given_step_ok [OF ex assms(2)]
  from rest have d: "d = ?row" and new: "letter_of db1 k = None"
    and db': "db' = db1\<lparr>dead_letters := dead_letters db1 @ [?row\<lparr>dl_context := jsonb (dl_context ?row)\<rparr>],
      runs := sql_update (\<lambda>r. r_run_id r = od_runId input) (r_status_update (\<lambda>_. Run_DEAD_LETTERED)) (runs db1)\<rparr>"
    by (auto simp: letter_insert_def insert_stmt_def bindP_run run_update_run sel split: if_splits)
  have step: "od_stepId input = None \<or> (\<exists>x \<in> set (steps db). od_stepId input = Some (s_step_id x) \<and> s_run_id x = od_runId input)"
    using ex by (auto simp: exhaust_given_step_def step_in_run_def find_Some_iff split: option.splits)
  show thesis
    by (rule that [OF _ ctx e run st _ _ step, of k now]) (use d new db' db1 sel in \<open>simp_all add: opened_db_def\<close>)
qed

section \<open>Lemmas on recovery\<close>

text \<open>What may happen to dead letters: content stays, a closed letter is never reopened.\<close>

definition letter_kept :: "'p dead_letter_row \<Rightarrow> 'p dead_letter_row \<Rightarrow> bool" where
  "letter_kept r r' \<longleftrightarrow>
     dl_run_id r' = dl_run_id r \<and> dl_step_id r' = dl_step_id r \<and> dl_error_class r' = dl_error_class r \<and>
     dl_context r' = dl_context r \<and> dl_last_valid_checkpoint_ref r' = dl_last_valid_checkpoint_ref r \<and>
     dl_opened_at r' = dl_opened_at r \<and> (dl_status r \<noteq> DL_OPEN \<longrightarrow> dl_status r' = dl_status r)"

definition letters_evolve :: "'p wf_db \<Rightarrow> 'p wf_db \<Rightarrow> bool" where
  "letters_evolve db db' \<longleftrightarrow>
     (keys_distinct dl_dead_letter_id (dead_letters db) \<longrightarrow> keys_distinct dl_dead_letter_id (dead_letters db')) \<and>
     (\<forall>k r. letter_of db k = Some r \<longrightarrow> (\<exists>r'. letter_of db' k = Some r' \<and> letter_kept r r'))"

lemma letter_kept_refl [simp]: "letter_kept r r"
  by (simp add: letter_kept_def)

interpretation letter_history: rely_guarantee letters_evolve
proof unfold_locales
  fix s t u :: "'p wf_db"
  show "letters_evolve s s" unfolding letters_evolve_def by (auto intro: letter_kept_refl)
  have "letter_kept a b \<Longrightarrow> letter_kept b c \<Longrightarrow> letter_kept a c" for a b c :: "'p dead_letter_row"
    by (auto simp: letter_kept_def)
  then show "letters_evolve s t \<Longrightarrow> letters_evolve t u \<Longrightarrow> letters_evolve s u"
    unfolding letters_evolve_def by meson
qed

lemma letters_evolve_same: "dead_letters db' = dead_letters db \<Longrightarrow> letters_evolve db db'"
  by (simp add: letters_evolve_def)

lemma run_update_letters: "guarantees letters_evolve (run_update p k f)"
  by (simp add: guarantees_def run_update_run letters_evolve_same)

lemma mark_retried_run:
  "mark_retried k db = (Inr (sql_returning (\<lambda>r. dl_dead_letter_id r = k \<and> dl_status r = DL_OPEN) (dl_status_update (\<lambda>_. DL_RETRIED)) (dead_letters db)),
     db\<lparr>dead_letters := sql_update (\<lambda>r. dl_dead_letter_id r = k \<and> dl_status r = DL_OPEN) (dl_status_update (\<lambda>_. DL_RETRIED)) (dead_letters db)\<rparr>)"
  by (simp add: mark_retried_def update_stmt_def)

lemma mark_retried_letters: "guarantees letters_evolve (mark_retried k)"
  by (auto simp: guarantees_def mark_retried_run letters_evolve_def row_by_update letter_kept_def)

lemma mark_retried_hit:
  assumes "mark_retried k db = (Inr rs, db')" and "rs \<noteq> []" and "keys_distinct dl_dead_letter_id (dead_letters db)"
  shows "\<exists>r. letter_of db k = Some r \<and> dl_status r = DL_OPEN \<and> letter_of db' k = Some (r\<lparr>dl_status := DL_RETRIED\<rparr>)"
  using assms by (auto simp: mark_retried_run sql_returning_key row_by_update dest: row_by_SomeD split: option.splits if_splits)

lemma mark_retried_closed:
  assumes "mark_retried k db = (res, db')" and "letter_of db' k = Some l"
  shows "dl_status l \<noteq> DL_OPEN"
proof -
  from assms obtain r where "letter_of db k = Some r" and l: "l = (if dl_dead_letter_id r = k \<and> dl_status r = DL_OPEN
      then r\<lparr>dl_status := DL_RETRIED\<rparr> else r)"
    by (auto simp: mark_retried_run row_by_update)
  then have "dl_dead_letter_id r = k" by (auto dest: row_by_SomeD)
  then show ?thesis unfolding l by simp
qed

lemma verify_history_letters:
  assumes "\<And>i db. letters_evolve db (env i db)"
  shows "guarantees letters_evolve (verify_history env i completed)"
proof (induction completed arbitrary: i)
  case (Cons b rest)
  then show ?case unfolding verify_history.simps
    by (intro letter_history.g_bindP letter_history.g_gap assms) (auto simp: if_distrib)
qed (simp add: letter_history.g_pure)

lemma loadDeadLetter_run:
  "loadDeadLetter k db = (Inr (map_option (\<lambda>r. r\<lparr>dl_context :=
      (case dl_context r of JsObj ms \<Rightarrow> JsObj ms | JsArr vs \<Rightarrow> JsArr vs | _ \<Rightarrow> JsObj [])\<rparr>) (letter_of db k)), db)"
  by (simp add: loadDeadLetter_def mapDeadLetterRow_ok bindP_run split: option.split)

lemma resume_and_close_ok:
  assumes "resume_and_close env resume runId now plan completed db = (Inr u, db')"
  obtains s1 b s2 s3 rs s4 where "resume plan s1 = (Inr b, s2)"
    and "s1 = env 2 (snd (run_update (\<lambda>r. r_status r = Run_DEAD_LETTERED) runId (r_status_update (\<lambda>_. Run_RUNNING)) (env 1 db)))"
    and "verify_history env 5 completed s2 = (Inr (), s3)"
    and "mark_retried (rr_deadLetterId plan) (env 3 s3) = (Inr rs, s4)" and "rs \<noteq> []"
    and "db' = (if b then snd (run_update (\<lambda>r. r_status r \<noteq> Run_SUCCEEDED \<and> r_status r \<noteq> Run_CANCELLED) runId
                   (\<lambda>r. r\<lparr>r_status := Run_SUCCEEDED, r_completed_at := Some now\<rparr>) (env 4 s4)) else s4)"
proof -
  let ?s1 = "env 2 (snd (run_update (\<lambda>r. r_status r = Run_DEAD_LETTERED) runId (r_status_update (\<lambda>_. Run_RUNNING)) (env 1 db)))"
  from assms obtain b s2 s3 rs s4 where "resume plan ?s1 = (Inr b, s2)" "verify_history env 5 completed s2 = (Inr (), s3)"
    "mark_retried (rr_deadLetterId plan) (env 3 s3) = (Inr rs, s4)" "rs \<noteq> []"
    "db' = (if b then snd (run_update (\<lambda>r. r_status r \<noteq> Run_SUCCEEDED \<and> r_status r \<noteq> Run_CANCELLED) runId
                   (\<lambda>r. r\<lparr>r_status := Run_SUCCEEDED, r_completed_at := Some now\<rparr>) (env 4 s4)) else s4)"
    unfolding resume_and_close_def
    by (auto simp: run_update_run bindP_eq_Inr split: if_splits)
  then show thesis using that by blast
qed

lemma retry_ok:
  assumes "retryFromLastValidCheckpoint clock scan env resume k runId nowInput db = (Inr res, db')"
  obtains f now letter checkpoint where "resume = Some f" and "letter_of db k = Some letter"
    and "dl_run_id letter = runId" and "dl_status letter = DL_OPEN" and "dl_nowIso clock nowInput = Inr now"
    and "find_checkpoint (dl_last_valid_checkpoint_ref letter) (completed_steps scan runId (env 0 db)) = Inr checkpoint"
    and "resume_and_close env f runId now
        (resume_plan runId letter checkpoint (completed_steps scan runId (env 0 db)))
        (completed_steps scan runId (env 0 db)) (env 0 db) = (Inr (), db')"
    and "res = \<lparr>rt_deadLetterId = k, rt_runId = runId, rt_status = DL_RETRIED, rt_resumedFrom = s_step_id checkpoint,
        rt_reExecutedStepTypes = map rs_stepType
          (rr_steps (resume_plan runId letter checkpoint (completed_steps scan runId (env 0 db))))\<rparr>"
proof -
  have plan: "resume_plan runId (l\<lparr>dl_context := x\<rparr>) c cs = resume_plan runId l c cs" for l :: "jsval dead_letter_row" and x c cs
    by (simp add: resume_plan_def)
  from assms obtain f now letter where a: "resume = Some f" "dl_nowIso clock nowInput = Inr now" "letter_of db k = Some letter"
    "dl_run_id letter = runId" "dl_status letter = DL_OPEN"
    by (auto simp: retryFromLastValidCheckpoint_def bindP_liftE bindP_run [of "loadDeadLetter _"] loadDeadLetter_run
        split: sum.splits option.splits if_splits)
  have "dl_dead_letter_id letter = k" using a(3) by (auto dest: row_by_SomeD)
  with a assms show thesis
    by (auto simp: retryFromLastValidCheckpoint_def bindP_liftE bindP_run [of "loadDeadLetter _"] loadDeadLetter_run plan Let_def
        bindP_eq_Inr [of "resume_and_close _ _ _ _ _ _"] split: sum.splits intro!: that)
qed

lemma verify_history_quiet:
  "verify_history (\<lambda>_ d. d) i completed db = (Inr (), db') \<Longrightarrow>
     db' = db \<and> (\<forall>b \<in> set completed. same_history b (row_by s_step_id (s_step_id b) (steps db)))"
  by (induction completed arbitrary: i) (auto simp: bindP_run split: if_splits)

lemma resume_and_close_letters:
  assumes "\<And>i db. letters_evolve db (env i db)" and "guarantees letters_evolve (resume plan)"
  shows "guarantees letters_evolve (resume_and_close env resume runId now plan completed)"
  unfolding resume_and_close_def
  by (intro letter_history.g_bindP letter_history.g_gap run_update_letters mark_retried_letters assms verify_history_letters)
    (auto intro!: letter_history.g_bindP letter_history.g_gap assms run_update_letters)

text \<open>The plan: the uncompleted steps after the checkpoint, in the standard order, each once.\<close>

lemma retry_steps_types:
  "map rs_stepType (retry_steps k i completed) =
     filter (\<lambda>t. i < stepOrderIndex t \<and> t \<notin> set (map s_step_type completed)) WF_STANDARD_STEP_ORDER"
proof -
  let ?z = "zip WF_STANDARD_STEP_ORDER [0..<length WF_STANDARD_STEP_ORDER]"
  have idx: "int n = stepOrderIndex t" if "(t, n) \<in> set ?z" for t n
    using that stepOrderIndex_nth by (auto simp: set_zip)
  have "map rs_stepType (retry_steps k i completed) =
      map fst (filter (\<lambda>(t, n). i < int n \<and> t \<notin> set (map s_step_type completed)) ?z)"
    by (simp add: retry_steps_def comp_def case_prod_unfold)
  also have "\<dots> = map fst (filter (\<lambda>x. i < stepOrderIndex (fst x) \<and> fst x \<notin> set (map s_step_type completed)) ?z)"
    using idx by (intro arg_cong [of _ _ "map fst"] filter_cong) auto
  also have "\<dots> = filter (\<lambda>t. i < stepOrderIndex t \<and> t \<notin> set (map s_step_type completed)) (map fst ?z)"
    by (simp only: filter_map comp_def)
  finally show ?thesis by simp
qed

lemma retry_steps_keys:
  "p \<in> set (retry_steps k i completed) \<Longrightarrow> rs_idempotencyKey p = ''wfr_'' @ k @ ''_'' @ rs_stepType p \<and> rs_attempt p = 1"
  by (auto simp: retry_steps_def)

lemma latest_loop_max:
  "latest_loop best i cs = Some c \<Longrightarrow> (best = None \<longrightarrow> i = - 1) \<Longrightarrow> (\<And>b. best = Some b \<Longrightarrow> stepOrderIndex (s_step_type b) = i) \<Longrightarrow>
     (c \<in> set cs \<or> best = Some c) \<and> i \<le> stepOrderIndex (s_step_type c) \<and>
     (\<forall>x \<in> set cs. stepOrderIndex (s_step_type x) \<le> stepOrderIndex (s_step_type c))"
proof (induction cs arbitrary: best i)
  case (Cons x xs)
  show ?case
  proof (cases "i < stepOrderIndex (s_step_type x)")
    case True
    then have run: "latest_loop (Some x) (stepOrderIndex (s_step_type x)) xs = Some c" using Cons.prems(1) by simp
    have "(c \<in> set xs \<or> Some x = Some c) \<and> stepOrderIndex (s_step_type x) \<le> stepOrderIndex (s_step_type c) \<and>
        (\<forall>x \<in> set xs. stepOrderIndex (s_step_type x) \<le> stepOrderIndex (s_step_type c))"
      by (rule Cons.IH [OF run]) simp_all
    then show ?thesis using True by auto
  next
    case False
    then have run: "latest_loop best i xs = Some c" using Cons.prems(1) by simp
    have "(c \<in> set xs \<or> best = Some c) \<and> i \<le> stepOrderIndex (s_step_type c) \<and>
        (\<forall>x \<in> set xs. stepOrderIndex (s_step_type x) \<le> stepOrderIndex (s_step_type c))"
      by (rule Cons.IH [OF run Cons.prems(2,3)])
    then show ?thesis using False by auto
  qed
qed auto

lemma find_checkpoint_ok:
  assumes "find_checkpoint ref completed = Inr c"
  shows "c \<in> set completed" and "0 \<le> stepOrderIndex (s_step_type c)"
    and "ref = Some x \<Longrightarrow> s_step_id c = x \<or> s_idempotency_key c = x"
    and "ref = None \<Longrightarrow> s \<in> set completed \<Longrightarrow> stepOrderIndex (s_step_type s) \<le> stepOrderIndex (s_step_type c)"
proof -
  have f: "case ref of Some ref \<Rightarrow> find (\<lambda>s. s_step_id s = ref \<or> s_idempotency_key s = ref) completed = Some c
      | None \<Rightarrow> latestCompletedStep completed = Some c"
    using assms by (auto simp: find_checkpoint_def split: option.splits if_splits)
  show "0 \<le> stepOrderIndex (s_step_type c)"
    using assms by (auto simp: find_checkpoint_def split: option.splits if_splits)
  show "c \<in> set completed" using f latest_loop_max [of None "- 1" completed c]
    by (auto simp: latestCompletedStep_def find_Some_iff split: option.splits)
  show "ref = Some x \<Longrightarrow> s_step_id c = x \<or> s_idempotency_key c = x"
    using f by (auto simp: find_Some_iff)
  show "ref = None \<Longrightarrow> s \<in> set completed \<Longrightarrow> stepOrderIndex (s_step_type s) \<le> stepOrderIndex (s_step_type c)"
    using f latest_loop_max [of None "- 1" completed c] by (auto simp: latestCompletedStep_def)
qed

section \<open>Properties\<close>

text \<open>
  Opening a dead letter is all or nothing. It succeeds only for an
  existing run that is neither \<open>SUCCEEDED\<close> nor \<open>CANCELLED\<close> (and a named step of that run); then
  the run is \<open>DEAD_LETTERED\<close>, a new \<open>OPEN\<close> letter holds the caller's attempt count and reason
  and the error class, a named step that could still fail is \<open>FAILED_EXHAUSTED\<close>, no finished
  step and no other table is touched. A refusal changes nothing.
\<close>

theorem open_dead_letter_effect:
  assumes "openDeadLetter clock uuid input db = (res, db')" and "keys_distinct s_step_id (steps db)"
    and "keys_distinct step_key (steps db)"
  shows "case res of
      Inl e \<Rightarrow> db' = db
    | Inr d \<Rightarrow> actionable d \<and> dl_status d = DL_OPEN \<and> retry_error_class_text (dl_error_class d) = od_errorClass input \<and>
        letter_of db (dl_dead_letter_id d) = None \<and> db' = opened_db input d db \<and> steps_evolve db db' \<and>
        (\<exists>run. run_of db (od_runId input) = Some run \<and> r_status run \<notin> {Run_SUCCEEDED, Run_CANCELLED} \<and>
           run_of db' (od_runId input) = Some (run\<lparr>r_status := Run_DEAD_LETTERED\<rparr>))"
proof (cases res)
  case (Inl e)
  then have "db' = db" using assms(1)
    by (auto simp: openDeadLetter_def bindP_liftE Let_def dest: transaction_rollback split: sum.splits)
  with Inl show ?thesis by simp
next
  case (Inr d)
  from assms(1) [unfolded Inr] assms(2) show ?thesis
  proof (rule openDeadLetter_ok)
    fix k e now run
    assume d: "d = open_row input k e now" and ctx: "assertActionableContext (od_context input) = Inr ()"
      and e: "parseRetryErrorClass (Some (od_errorClass input)) = Inr e"
      and run: "run_of db (od_runId input) = Some run" "r_status run \<notin> {Run_SUCCEEDED, Run_CANCELLED}"
      and new: "letter_of db k = None" and db': "db' = opened_db input d db"
    have moves: "step_moves Step_PENDING Step_FAILED_EXHAUSTED"
      unfolding step_moves_def by (rule rtranclp_trans [of _ _ Step_RUNNING]; rule r_into_rtranclp; simp)
    have "step_progress r (exhaust c t r)" if "exhausts input r" for r c t
      using that moves
      by (auto simp: exhausts_def exhaust_def step_progress_def terminal_iff) (auto simp: step_moves_def intro!: r_into_rtranclp)
    moreover have "step_key (exhaust c t r) = step_key r" for c t r by (simp add: exhaust_def)
    ultimately have "steps_evolve db db'"
      using assms(3) unfolding db' by (auto simp: steps_evolve_def opened_db_def row_by_update)
    moreover have "run_of db' (od_runId input) = Some (run\<lparr>r_status := Run_DEAD_LETTERED\<rparr>)"
      using run(1) unfolding db' by (auto simp: opened_db_def row_by_update dest: row_by_SomeD)
    moreover have "retry_error_class_text e = od_errorClass input"
      using e errclass_voc.parse_iff by (auto simp: parseRetryErrorClass_def)
    ultimately show ?thesis unfolding Inr
      using run new db' d actionable_context(1) [OF ctx] by (auto simp: open_row_def)
  qed
qed

text \<open>
  A dead letter is never opaque: if every stored letter carries a
  non-negative attempt count, a non-blank reason and its error class in its context, this stays
  so after opening another one, whatever context the caller supplied and whether the call
  succeeds or not; an accepted call adds exactly one letter, and the listing returns every
  stored letter once, each with an actionable context.
\<close>

theorem dead_letters_actionable:
  assumes "\<forall>r \<in> set (dead_letters db). actionable r" and "keys_distinct s_step_id (steps db)"
    and "openDeadLetter clock uuid input db = (res, db1)"
    and "listDeadLetters None db1 = (Inr ls, db2)"
  shows "(\<forall>r \<in> set ls. actionable r) \<and> mset (map dl_dead_letter_id ls) = mset (map dl_dead_letter_id (dead_letters db1)) \<and>
    (case res of Inl _ \<Rightarrow> dead_letters db1 = dead_letters db
     | Inr d \<Rightarrow> \<exists>l. dead_letters db1 = dead_letters db @ [l] \<and> dl_dead_letter_id l = dl_dead_letter_id d)"
proof -
  have map_rows: "map_rows rs mapDeadLetterRow = Inr (map (\<lambda>r. r\<lparr>dl_context :=
      (case dl_context r of JsObj ms \<Rightarrow> JsObj ms | JsArr vs \<Rightarrow> JsArr vs | _ \<Rightarrow> JsObj [])\<rparr>) rs)" for rs
    by (induction rs) (simp_all add: mapDeadLetterRow_ok)
  have act: "actionable (r\<lparr>dl_context := (case dl_context r of JsObj ms \<Rightarrow> JsObj ms | JsArr vs \<Rightarrow> JsArr vs | _ \<Rightarrow> JsObj [])\<rparr>)"
    if "actionable r" for r using that by (auto simp: actionable_def jsprop_def split: jsval.splits)
  have ls: "ls = map (\<lambda>r. r\<lparr>dl_context := (case dl_context r of JsObj ms \<Rightarrow> JsObj ms | JsArr vs \<Rightarrow> JsArr vs | _ \<Rightarrow> JsObj [])\<rparr>)
      (sort_key dl_opened_at (sort_key dl_dead_letter_id (dead_letters db1)))"
    using assms(4) by (auto simp: listDeadLetters_def bindP_run map_rows)
  have new: "case res of Inl _ \<Rightarrow> dead_letters db1 = dead_letters db
     | Inr d \<Rightarrow> \<exists>l. dead_letters db1 = dead_letters db @ [l] \<and> dl_dead_letter_id l = dl_dead_letter_id d \<and> actionable l"
  proof (cases res)
    case (Inl e)
    then have "db1 = db" using assms(3)
      by (auto simp: openDeadLetter_def bindP_liftE Let_def dest: transaction_rollback split: sum.splits)
    with Inl show ?thesis by simp
  next
    case (Inr d)
    from assms(3) [unfolded Inr] assms(2) show ?thesis
      by (rule openDeadLetter_ok) (auto simp: Inr opened_db_def dest: actionable_context(2))
  qed
  then have "\<forall>r \<in> set (dead_letters db1). actionable r" using assms(1) by (auto split: sum.splits)
  then have "\<forall>r \<in> set ls. actionable r" unfolding ls using act by simp
  moreover have "mset (map dl_dead_letter_id ls) = mset (map dl_dead_letter_id (dead_letters db1))"
    unfolding ls by (simp add: comp_def)
  ultimately show ?thesis using new by (auto split: sum.splits)
qed

text \<open>
  Undisturbed recovery, with any \<open>resume\<close>: it succeeds only on
  an \<open>OPEN\<close> letter of that run, from a checkpoint that is a \<open>SUCCEEDED\<close> standard step (the
  recorded one, or else the last in the standard order). \<open>resume\<close> was called on exactly the
  uncompleted standard steps after the checkpoint, in order, under keys derived from the letter's
  id; afterwards every step that was \<open>SUCCEEDED\<close> still is, with the same key and output hash,
  even if \<open>resume\<close> tried to rewrite it, and the letter is \<open>RETRIED\<close>.
\<close>

theorem retry_resumes_from_checkpoint:
  assumes "retryFromLastValidCheckpoint clock scan (\<lambda>_ d. d) (Some resume) k runId now db = (Inr res, db')"
    and "\<And>rows. set (scan rows) = set rows"
  shows "\<exists>letter c plan s1 s2 b. letter_of db k = Some letter \<and> dl_run_id letter = runId \<and> dl_status letter = DL_OPEN \<and>
    c \<in> set (steps db) \<and> s_run_id c = runId \<and> s_status c = Step_SUCCEEDED \<and> s_step_type c \<in> set WF_STANDARD_STEP_ORDER \<and>
    (case dl_last_valid_checkpoint_ref letter of
       Some ref \<Rightarrow> s_step_id c = ref \<or> s_idempotency_key c = ref
     | None \<Rightarrow> \<forall>s \<in> set (steps db). s_run_id s = runId \<and> s_status s = Step_SUCCEEDED \<longrightarrow>
         stepOrderIndex (s_step_type s) \<le> stepOrderIndex (s_step_type c)) \<and>
    resume plan s1 = (Inr b, s2) \<and> steps s1 = steps db \<and> rt_resumedFrom res = s_step_id c \<and>
    rt_reExecutedStepTypes res = map rs_stepType (rr_steps plan) \<and>
    map rs_stepType (rr_steps plan) = filter (\<lambda>t. stepOrderIndex (s_step_type c) < stepOrderIndex t \<and>
       \<not> (\<exists>s \<in> set (steps db). s_run_id s = runId \<and> s_status s = Step_SUCCEEDED \<and> s_step_type s = t)) WF_STANDARD_STEP_ORDER \<and>
    (\<forall>p \<in> set (rr_steps plan). rs_idempotencyKey p = ''wfr_'' @ k @ ''_'' @ rs_stepType p \<and> rs_attempt p = 1) \<and>
    (\<forall>s \<in> set (steps db). s_run_id s = runId \<and> s_status s = Step_SUCCEEDED \<longrightarrow>
       same_history s (row_by s_step_id (s_step_id s) (steps db'))) \<and>
    (\<forall>l. letter_of db' k = Some l \<longrightarrow> dl_status l \<noteq> DL_OPEN)"
proof -
  let ?cs = "completed_steps scan runId db"
  have cs: "set ?cs = {s \<in> set (steps db). s_run_id s = runId \<and> s_status s = Step_SUCCEEDED}"
    by (auto simp: completed_steps_def assms(2))
  from assms(1) obtain t letter c where letter: "letter_of db k = Some letter" "dl_run_id letter = runId"
    "dl_status letter = DL_OPEN"
    and c: "find_checkpoint (dl_last_valid_checkpoint_ref letter) ?cs = Inr c"
    and run: "resume_and_close (\<lambda>_ d. d) resume runId t (resume_plan runId letter c ?cs) ?cs db = (Inr (), db')"
    and res: "rt_resumedFrom res = s_step_id c"
      "rt_reExecutedStepTypes res = map rs_stepType (rr_steps (resume_plan runId letter c ?cs))"
    by (auto elim!: retry_ok)
  note ck = find_checkpoint_ok [OF c]
  have id: "dl_dead_letter_id letter = k" using letter(1) by (auto dest: row_by_SomeD)
  let ?plan = "resume_plan runId letter c ?cs"
  have steps: "rr_steps ?plan = retry_steps k (stepOrderIndex (s_step_type c)) ?cs" "rr_deadLetterId ?plan = k"
    by (simp_all add: resume_plan_def id)
  from run show ?thesis
  proof (rule resume_and_close_ok)
    fix s1 b s2 s3 rs s4
    assume r: "resume ?plan s1 = (Inr b, s2)"
      and s1: "s1 = snd (run_update (\<lambda>r. r_status r = Run_DEAD_LETTERED) runId (r_status_update (\<lambda>_. Run_RUNNING)) db)"
      and v: "verify_history (\<lambda>_ d. d) 5 ?cs s2 = (Inr (), s3)"
      and m: "mark_retried (rr_deadLetterId ?plan) s3 = (Inr rs, s4)"
      and d: "db' = (if b then snd (run_update (\<lambda>r. r_status r \<noteq> Run_SUCCEEDED \<and> r_status r \<noteq> Run_CANCELLED) runId
                   (\<lambda>r. r\<lparr>r_status := Run_SUCCEEDED, r_completed_at := Some t\<rparr>) s4) else s4)"
    note hist = verify_history_quiet [OF v]
    have same: "steps db' = steps s2" "dead_letters db' = dead_letters s4"
      using d m hist by (auto simp: run_update_run mark_retried_run)
    have closed: "\<forall>l. letter_of db' k = Some l \<longrightarrow> dl_status l \<noteq> DL_OPEN"
      using mark_retried_closed m unfolding same steps by blast
    have s1': "steps s1 = steps db" unfolding s1 by (simp add: run_update_run)
    have ckpt: "case dl_last_valid_checkpoint_ref letter of
        Some ref \<Rightarrow> s_step_id c = ref \<or> s_idempotency_key c = ref
      | None \<Rightarrow> \<forall>s \<in> set (steps db). s_run_id s = runId \<and> s_status s = Step_SUCCEEDED \<longrightarrow>
         stepOrderIndex (s_step_type s) \<le> stepOrderIndex (s_step_type c)"
      using ck(3,4) cs by (auto split: option.split)
    have types: "map rs_stepType (rr_steps ?plan) = filter (\<lambda>t. stepOrderIndex (s_step_type c) < stepOrderIndex t \<and>
       \<not> (\<exists>s \<in> set (steps db). s_run_id s = runId \<and> s_status s = Step_SUCCEEDED \<and> s_step_type s = t)) WF_STANDARD_STEP_ORDER"
      unfolding steps retry_steps_types set_map cs by (intro filter_cong) auto
    have keys: "\<forall>p \<in> set (rr_steps ?plan). rs_idempotencyKey p = ''wfr_'' @ k @ ''_'' @ rs_stepType p \<and> rs_attempt p = 1"
      unfolding steps using retry_steps_keys by blast
    have history: "\<forall>s \<in> set (steps db). s_run_id s = runId \<and> s_status s = Step_SUCCEEDED \<longrightarrow>
       same_history s (row_by s_step_id (s_step_id s) (steps db'))"
      using hist cs unfolding same by auto
    have mem: "c \<in> set (steps db)" "s_run_id c = runId" "s_status c = Step_SUCCEEDED" using ck(1) cs by auto
    have std: "s_step_type c \<in> set WF_STANDARD_STEP_ORDER" using ck(2) stepOrderIndex_known by blast
    show ?thesis
      by (intro exI [of _ letter] exI [of _ c] exI [of _ ?plan] exI [of _ s1] exI [of _ s2] exI [of _ b] conjI
          letter mem std ckpt r s1' res types keys history closed)
  qed
qed

text \<open>
  One letter, one recovery: with other sessions interfering between all
  statements (never reopening a letter), a successful recovery found the letter \<open>OPEN\<close> both at
  its start and at the statement that closed it, and leaves it \<open>RETRIED\<close>; every later recovery
  of the same letter, however much later, is refused without running its \<open>resume\<close> or
  changing the store.
\<close>

theorem retry_at_most_once:
  assumes "retryFromLastValidCheckpoint clock scan env (Some resume) k runId now db = (Inr res, db1)"
    and "\<And>i db. letters_evolve db (env i db)" and "\<And>plan. guarantees letters_evolve (resume plan)"
    and "keys_distinct dl_dead_letter_id (dead_letters db)"
    and "letters_evolve db1 db2"
    and "retryFromLastValidCheckpoint clock2 scan2 env2 (Some resume2) k runId (Some (Some now2)) db2 = (res2, db3)"
  shows "(\<exists>l s rs t. letter_of db k = Some l \<and> dl_status l = DL_OPEN \<and>
      letters_evolve db s \<and> (\<exists>ls. letter_of s k = Some ls \<and> dl_status ls = DL_OPEN) \<and>
      mark_retried k s = (Inr rs, t) \<and> letters_evolve t db1 \<and>
      (\<exists>l1. letter_of db1 k = Some l1 \<and> dl_status l1 = DL_RETRIED)) \<and>
    res2 = Inl (ForesiftError WF_DEAD_LETTER_TRANSITION_INVALID) \<and> db3 = db2"
proof -
  from assms(1) obtain t letter c where letter: "letter_of db k = Some letter" "dl_run_id letter = runId"
    "dl_status letter = DL_OPEN"
    and run: "resume_and_close env resume runId t (resume_plan runId letter c (completed_steps scan runId (env 0 db)))
       (completed_steps scan runId (env 0 db)) (env 0 db) = (Inr (), db1)"
    by (auto elim!: retry_ok)
  have plan: "rr_deadLetterId (resume_plan runId letter c cs) = k" for cs
    using letter(1) by (auto simp: resume_plan_def dest: row_by_SomeD)
  note R = letter_history.R_trans
  have upd: "letters_evolve s (snd (run_update p runId f s))" for p f s
    by (simp add: run_update_run letters_evolve_same)
  from run have "\<exists>s rs s4. letters_evolve db s \<and> mark_retried k s = (Inr rs, s4) \<and> rs \<noteq> [] \<and> letters_evolve s4 db1"
  proof (rule resume_and_close_ok)
    fix s1 b s2 s3 rs s4
    assume r: "resume (resume_plan runId letter c (completed_steps scan runId (env 0 db))) s1 = (Inr b, s2)"
      and s1: "s1 = env 2 (snd (run_update (\<lambda>r. r_status r = Run_DEAD_LETTERED) runId (r_status_update (\<lambda>_. Run_RUNNING)) (env 1 (env 0 db))))"
      and v: "verify_history env 5 (completed_steps scan runId (env 0 db)) s2 = (Inr (), s3)"
      and m: "mark_retried (rr_deadLetterId (resume_plan runId letter c (completed_steps scan runId (env 0 db)))) (env 3 s3) = (Inr rs, s4)" "rs \<noteq> []"
      and d: "db1 = (if b then snd (run_update (\<lambda>r. r_status r \<noteq> Run_SUCCEEDED \<and> r_status r \<noteq> Run_CANCELLED) runId
                   (\<lambda>r. r\<lparr>r_status := Run_SUCCEEDED, r_completed_at := Some t\<rparr>) (env 4 s4)) else s4)"
    have "letters_evolve db s1" unfolding s1 by (intro R [OF _ assms(2)] R [OF _ upd] letter_history.R_refl)
    then have "letters_evolve db (env 3 s3)"
      by (intro R [OF _ assms(2)] R [OF _ guaranteesD [OF verify_history_letters [OF assms(2)] v]] R [OF _ guaranteesD [OF assms(3) r]])
    moreover have "letters_evolve s4 db1" using R [OF assms(2) upd] letter_history.R_refl unfolding d by auto
    ultimately show ?thesis using m unfolding plan by blast
  qed
  then obtain s rs s4 where s: "letters_evolve db s" "mark_retried k s = (Inr rs, s4)" "rs \<noteq> []" "letters_evolve s4 db1"
    by (elim exE conjE) (rule that)
  have "keys_distinct dl_dead_letter_id (dead_letters s)" using s(1) assms(4) by (simp add: letters_evolve_def)
  from mark_retried_hit [OF s(2,3) this] obtain ls where ls: "letter_of s k = Some ls" "dl_status ls = DL_OPEN"
    "letter_of s4 k = Some (ls\<lparr>dl_status := DL_RETRIED\<rparr>)" by blast
  have final: "\<exists>l'. letter_of d k = Some l' \<and> dl_status l' = DL_RETRIED \<and> dl_run_id l' = runId" if ev: "letters_evolve s4 d" for d
  proof -
    obtain l' where "letter_of d k = Some l'" "letter_kept (ls\<lparr>dl_status := DL_RETRIED\<rparr>) l'"
      using ev ls(3) unfolding letters_evolve_def by blast
    moreover have "dl_run_id ls = runId" using s(1) letter ls(1) by (force simp: letters_evolve_def letter_kept_def)
    ultimately show ?thesis by (auto simp: letter_kept_def)
  qed
  obtain l2 where "letter_of db2 k = Some l2" "dl_status l2 = DL_RETRIED" "dl_run_id l2 = runId"
    using final [OF R [OF s(4) assms(5)]] by blast
  then have "res2 = Inl (ForesiftError WF_DEAD_LETTER_TRANSITION_INVALID) \<and> db3 = db2"
    using assms(6) by (auto simp: retryFromLastValidCheckpoint_def dl_nowIso_def bindP_liftE bindP_run loadDeadLetter_run)
  moreover have "\<exists>l s rs t. letter_of db k = Some l \<and> dl_status l = DL_OPEN \<and>
      letters_evolve db s \<and> (\<exists>ls. letter_of s k = Some ls \<and> dl_status ls = DL_OPEN) \<and>
      mark_retried k s = (Inr rs, t) \<and> letters_evolve t db1 \<and>
      (\<exists>l1. letter_of db1 k = Some l1 \<and> dl_status l1 = DL_RETRIED)"
    by (rule exI [of _ letter], rule exI [of _ s], rule exI [of _ rs], rule exI [of _ s4])
      (use letter(1,3) s(1,2,4) ls(1,2) final [OF s(4)] in auto)
  ultimately show ?thesis by (intro conjI) simp_all
qed

text \<open>
  Recovery fails closed, in this order and without running \<open>resume\<close> or
  changing the store: an unknown letter or one of another run is not found; a letter that is not
  \<open>OPEN\<close> is refused; and without a completed standard step to resume from (none at all, or a
  recorded reference that names no \<open>SUCCEEDED\<close> step of the run) there is no checkpoint.
\<close>

theorem retry_refusals:
  assumes "retryFromLastValidCheckpoint clock scan (\<lambda>_ d. d) (Some resume) k runId (Some (Some now)) db = (res, db')"
    and "\<And>rows. set (scan rows) = set rows"
  shows "((\<nexists>l. letter_of db k = Some l \<and> dl_run_id l = runId) \<longrightarrow>
      res = Inl (ForesiftError WF_DEAD_LETTER_NOT_FOUND) \<and> db' = db) \<and>
    (\<forall>l. letter_of db k = Some l \<and> dl_run_id l = runId \<and> dl_status l \<noteq> DL_OPEN \<longrightarrow>
      res = Inl (ForesiftError WF_DEAD_LETTER_TRANSITION_INVALID) \<and> db' = db) \<and>
    (\<forall>l. letter_of db k = Some l \<and> dl_run_id l = runId \<and> dl_status l = DL_OPEN \<and>
      (\<nexists>s. s \<in> set (steps db) \<and> s_run_id s = runId \<and> s_status s = Step_SUCCEEDED \<and>
         s_step_type s \<in> set WF_STANDARD_STEP_ORDER \<and>
         (\<forall>ref. dl_last_valid_checkpoint_ref l = Some ref \<longrightarrow> s_step_id s = ref \<or> s_idempotency_key s = ref)) \<longrightarrow>
      res = Inl (ForesiftError WF_DEAD_LETTER_NO_CHECKPOINT) \<and> db' = db)"
proof -
  let ?cs = "completed_steps scan runId db"
  have cs: "set ?cs = {s \<in> set (steps db). s_run_id s = runId \<and> s_status s = Step_SUCCEEDED}"
    by (auto simp: completed_steps_def assms(2))
  have err: "find_checkpoint ref ?cs = Inl (ForesiftError WF_DEAD_LETTER_NO_CHECKPOINT)"
    if "\<nexists>s. s \<in> set (steps db) \<and> s_run_id s = runId \<and> s_status s = Step_SUCCEEDED \<and>
         s_step_type s \<in> set WF_STANDARD_STEP_ORDER \<and>
         (\<forall>r. ref = Some r \<longrightarrow> s_step_id s = r \<or> s_idempotency_key s = r)" for ref
  proof (cases "find_checkpoint ref ?cs")
    case (Inl e)
    then show ?thesis by (auto simp: find_checkpoint_def split: option.splits if_splits)
  next
    case (Inr c)
    note ck = find_checkpoint_ok [OF Inr]
    have "s_step_type c \<in> set WF_STANDARD_STEP_ORDER" using ck(2) stepOrderIndex_known by blast
    then show ?thesis using that ck(1,3) cs by blast
  qed
  show ?thesis
    using assms(1) err
    by (auto simp: retryFromLastValidCheckpoint_def dl_nowIso_def bindP_liftE bindP_run [of "loadDeadLetter _"] loadDeadLetter_run
        split: option.splits if_splits)
qed

section \<open>Worked example\<close>

text \<open>A run whose first standard step succeeded is dead-lettered and recovered.\<close>

definition demo_fail_db :: "jsval wf_db" where
  "demo_fail_db = empty_db\<lparr>runs := [demo_run], steps := [demo_row]\<rparr>"

definition demo_open :: open_input where
  "demo_open = \<lparr>od_runId = ''r1'', od_stepId = None, od_errorClass = ''SCHEMA_DRIFT'',
     od_context = JsObj [(''attempts'', JsInt 1), (''reason'', JsStr ''drift'')], od_lastValidCheckpointRef = None,
     od_now = Some (Some 20), od_deadLetterId = Some ''d1''\<rparr>"

definition demo_letter :: "jsval dead_letter_row" where
  "demo_letter = open_row demo_open ''d1'' SCHEMA_DRIFT 20"

definition demo_dead_db :: "jsval wf_db" where
  "demo_dead_db = opened_db demo_open demo_letter demo_fail_db"

lemma demo_open_run: "openDeadLetter 0 ''u'' demo_open demo_fail_db = (Inr demo_letter, demo_dead_db)"
proof -
  have cls: "parseRetryErrorClass (Some (od_errorClass demo_open)) = Inr SCHEMA_DRIFT"
    using errclass_voc.parse_roundtrip [of SCHEMA_DRIFT] by (simp add: parseRetryErrorClass_def demo_open_def)
  have b: "\<not> blank ''r1''" "\<not> blank ''drift''" by (simp_all add: blank_iff js_space_def)
  have ctx: "assertActionableContext (od_context demo_open) = Inr ()"
    using b by (simp add: assertActionableContext_def demo_open_def jsprop_def)
  have "open_tx demo_letter demo_fail_db = (Inr demo_letter, demo_dead_db)"
    by (simp add: open_tx_def demo_letter_def open_row_def demo_open_def demo_fail_db_def empty_db_def demo_run_def
        exhaust_given_step_def letter_insert_def insert_stmt_def bindP_run run_update_run demo_dead_db_def opened_db_def
        exhausts_def demo_row_def)
  then have tx: "transaction (open_tx (open_row demo_open ''d1'' SCHEMA_DRIFT 20)) demo_fail_db = (Inr demo_letter, demo_dead_db)"
    by (simp add: transaction_ok demo_letter_def)
  have sel: "od_runId demo_open = ''r1''" "od_now demo_open = Some (Some 20)" "od_deadLetterId demo_open = Some ''d1''"
    by (simp_all add: demo_open_def)
  show ?thesis
    by (simp add: openDeadLetter_def bindP_run dl_nowIso_def cls ctx tx sel b)
qed

lemma demo_fail_keys: "keys_distinct s_step_id (steps demo_fail_db)" "keys_distinct step_key (steps demo_fail_db)"
  "dead_letters demo_fail_db = []"
  by (simp_all add: keys_distinct_def demo_fail_db_def empty_db_def)

theorem open_dead_letter_effect_witness:
  "actionable demo_letter \<and> run_of demo_dead_db ''r1'' = Some (demo_run\<lparr>r_status := Run_DEAD_LETTERED\<rparr>)"
  using open_dead_letter_effect [OF demo_open_run demo_fail_keys(1,2)]
  by (auto simp: demo_open_def demo_fail_db_def demo_run_def)

theorem dead_letters_actionable_witness:
  "\<exists>ls. listDeadLetters None demo_dead_db = (Inr ls, demo_dead_db) \<and> (\<forall>r \<in> set ls. actionable r) \<and>
     map dl_dead_letter_id ls = [''d1'']"
proof -
  have "\<exists>ls. listDeadLetters None demo_dead_db = (Inr ls, demo_dead_db)"
    by (simp add: listDeadLetters_def bindP_run demo_dead_db_def opened_db_def demo_fail_db_def empty_db_def mapDeadLetterRow_ok)
  then obtain ls where ls: "listDeadLetters None demo_dead_db = (Inr ls, demo_dead_db)" by blast
  have "\<forall>r \<in> set ls. actionable r" "mset (map dl_dead_letter_id ls) = mset (map dl_dead_letter_id (dead_letters demo_dead_db))"
    using dead_letters_actionable [OF _ demo_fail_keys(1) demo_open_run ls] demo_fail_keys(3) by auto
  moreover have "map dl_dead_letter_id (dead_letters demo_dead_db) = [''d1'']"
    by (simp add: demo_dead_db_def opened_db_def demo_fail_keys demo_letter_def open_row_def)
  ultimately have "map dl_dead_letter_id ls = [''d1'']" by (metis mset.simps mset_single_iff)
  then show ?thesis using \<open>\<forall>r \<in> set ls. actionable r\<close> ls by (intro exI [of _ ls]) simp
qed

text \<open>A \<open>resume\<close> that does its work elsewhere and reports the run as complete.\<close>

definition demo_resume :: "retry_resume_plan \<Rightarrow> (jsval wf_db, bool) prog" where
  "demo_resume plan = ret True"

lemma demo_retry_run:
  "\<exists>res db'. retryFromLastValidCheckpoint 0 (\<lambda>rs. rs) (\<lambda>_ d. d) (Some demo_resume) ''d1'' ''r1'' (Some (Some 30)) demo_dead_db = (Inr res, db')"
proof -
  have idx: "stepOrderIndex ''discover_candidates'' \<ge> 0"
    by (simp add: stepOrderIndex_known WF_STANDARD_STEP_ORDER_def)
  then have "find_checkpoint None [demo_row] = Inr demo_row"
    by (simp add: find_checkpoint_def latestCompletedStep_def demo_row_def)
  then show ?thesis
    by (simp add: retryFromLastValidCheckpoint_def dl_nowIso_def bindP_run loadDeadLetter_run demo_dead_db_def opened_db_def
        demo_fail_db_def empty_db_def demo_letter_def open_row_def demo_open_def completed_steps_def sql_update_none exhausts_def
        resume_and_close_def run_update_run demo_resume_def mark_retried_run resume_plan_def same_history_def)
      (simp add: demo_row_def)
qed

theorem retry_resumes_from_checkpoint_witness:
  "\<exists>res db'. retryFromLastValidCheckpoint 0 (\<lambda>rs. rs) (\<lambda>_ d. d) (Some demo_resume) ''d1'' ''r1''
       (Some (Some 30)) demo_dead_db = (Inr res, db') \<and> rt_resumedFrom res = ''wfs_r1_k1'' \<and>
     (\<forall>s \<in> set (steps demo_dead_db). s_run_id s = ''r1'' \<and> s_status s = Step_SUCCEEDED \<longrightarrow>
        same_history s (row_by s_step_id (s_step_id s) (steps db'))) \<and>
     (\<forall>l. letter_of db' ''d1'' = Some l \<longrightarrow> dl_status l \<noteq> DL_OPEN)"
proof -
  obtain res db' where run: "retryFromLastValidCheckpoint 0 (\<lambda>rs. rs) (\<lambda>_ d. d) (Some demo_resume) ''d1'' ''r1''
      (Some (Some 30)) demo_dead_db = (Inr res, db')" using demo_retry_run by blast
  have only: "c \<in> set (steps demo_dead_db) \<Longrightarrow> s_step_id c = ''wfs_r1_k1''" for c
    by (simp add: demo_dead_db_def opened_db_def demo_fail_db_def empty_db_def demo_row_def exhaust_def split: if_splits)
  have "\<exists>c. c \<in> set (steps demo_dead_db) \<and> rt_resumedFrom res = s_step_id c \<and>
      (\<forall>s \<in> set (steps demo_dead_db). s_run_id s = ''r1'' \<and> s_status s = Step_SUCCEEDED \<longrightarrow>
        same_history s (row_by s_step_id (s_step_id s) (steps db'))) \<and>
      (\<forall>l. letter_of db' ''d1'' = Some l \<longrightarrow> dl_status l \<noteq> DL_OPEN)"
    using retry_resumes_from_checkpoint [OF run refl] by (elim exE conjE) (intro exI conjI, assumption+)
  then show ?thesis using run only by (intro exI [of _ res] exI [of _ db']) auto
qed

lemma demo_resume_letters: "guarantees letters_evolve (demo_resume plan)"
  by (simp add: demo_resume_def letter_history.g_pure)

theorem retry_at_most_once_witness:
  "\<exists>db1. fst (retryFromLastValidCheckpoint 0 (\<lambda>rs. rs) (\<lambda>_ d. d) (Some demo_resume) ''d1'' ''r1'' (Some (Some 40)) db1) =
     Inl (ForesiftError WF_DEAD_LETTER_TRANSITION_INVALID)"
proof -
  obtain res db1 where run: "retryFromLastValidCheckpoint 0 (\<lambda>rs. rs) (\<lambda>_ d. d) (Some demo_resume) ''d1'' ''r1''
      (Some (Some 30)) demo_dead_db = (Inr res, db1)" using demo_retry_run by blast
  have keys: "keys_distinct dl_dead_letter_id (dead_letters demo_dead_db)"
    by (simp add: demo_dead_db_def opened_db_def demo_fail_keys keys_distinct_def)
  obtain res2 db3 where again: "retryFromLastValidCheckpoint 0 (\<lambda>rs. rs) (\<lambda>_ d. d) (Some demo_resume) ''d1'' ''r1''
      (Some (Some 40)) db1 = (res2, db3)" by fastforce
  have "res2 = Inl (ForesiftError WF_DEAD_LETTER_TRANSITION_INVALID)"
    using retry_at_most_once [OF run letter_history.R_refl demo_resume_letters keys letter_history.R_refl again] by (elim conjE)
  with again show ?thesis by (intro exI [of _ db1]) simp
qed

theorem retry_refusals_witness:
  "fst (retryFromLastValidCheckpoint 0 (\<lambda>rs. rs) (\<lambda>_ d. d) (Some demo_resume) ''d2'' ''r1'' (Some (Some 40)) demo_dead_db) =
     Inl (ForesiftError WF_DEAD_LETTER_NOT_FOUND)"
proof -
  obtain res db' where run: "retryFromLastValidCheckpoint 0 (\<lambda>rs. rs) (\<lambda>_ d. d) (Some demo_resume) ''d2'' ''r1''
      (Some (Some 40)) demo_dead_db = (res, db')" by fastforce
  have "letter_of demo_dead_db ''d2'' = None"
    by (simp add: demo_dead_db_def opened_db_def demo_fail_keys demo_letter_def open_row_def)
  then show ?thesis using retry_refusals [OF run] run by simp
qed

end
