(* ===== verification/TriggerInbox.thy ===== *)
theory TriggerInbox
  imports DeadLetters
begin

text \<open>
  The trigger pipeline of packages/workflow-runtime/src/trigger-inbox.ts: canonical message
  identities, the idempotent inbox, the concurrency policy and the creation of exactly one run
  per delivery, all in one transaction.
\<close>

section \<open>Canonical identities\<close>

datatype trigger_delivery_outcome = RUN_STARTED | POLICY_SKIPPED | DUPLICATE_COLLAPSED | REJECTED

definition ALL_TRIGGER_DELIVERY_OUTCOMES :: "trigger_delivery_outcome list" where
  "ALL_TRIGGER_DELIVERY_OUTCOMES = [RUN_STARTED, POLICY_SKIPPED, DUPLICATE_COLLAPSED, REJECTED]"

definition DEFAULT_RUN_DEADLINE_MS :: jsnum where
  "DEFAULT_RUN_DEADLINE_MS = Fin (15 * 60 * 1000)"

text \<open>\<open>toLowerCase\<close> on code units below 256: the ASCII and the Latin-1 capitals.\<close>

definition lower_char :: "char \<Rightarrow> char" where
  "lower_char c = (let n = of_char c :: nat in
     if 65 \<le> n \<and> n \<le> 90 \<or> 192 \<le> n \<and> n \<le> 222 \<and> n \<noteq> 215 then char_of (n + 32) else c)"

definition toLowerCase :: "string \<Rightarrow> string" where
  "toLowerCase s = map lower_char s"

definition hex_digit_i :: "char \<Rightarrow> bool" where
  "hex_digit_i c \<longleftrightarrow> hex_digit (lower_char c) \<and> (of_char c :: nat) < 128"

text \<open>\<^verbatim>\<open>/^[0-9a-f]{8}-[0-9a-f]{4}-[0-9a-f]{4}-[0-9a-f]{4}-[0-9a-f]{12}$/i\<close>\<close>

definition UUID_PATTERN :: "string \<Rightarrow> bool" where
  "UUID_PATTERN s \<longleftrightarrow> length s = 36 \<and>
     (\<forall>i < 36. if i \<in> {8, 13, 18, 23} then s ! i = CHR ''-'' else hex_digit_i (s ! i))"

text \<open>\<^verbatim>\<open>/^[0-9a-f]{64}$/i\<close>\<close>

definition HEX_DIGEST_PATTERN :: "string \<Rightarrow> bool" where
  "HEX_DIGEST_PATTERN s \<longleftrightarrow> length s = 64 \<and> list_all hex_digit_i s"

definition normalizeSource :: "string \<Rightarrow> string res" where
  "normalizeSource source =
     (if blank source then Inl (ForesiftError WF_TRIGGER_IDENTITY_INVALID) else Inr (toLowerCase (trim source)))"

definition control_char :: "char \<Rightarrow> bool" where
  "control_char c \<longleftrightarrow> (of_char c :: nat) < 32 \<or> (of_char c :: nat) = 127"

text \<open>\<open>replace\<close> of every white-space run by one space.\<close>

fun collapse_spaces :: "string \<Rightarrow> string" where
  "collapse_spaces [] = []"
| "collapse_spaces (c # cs) =
     (if js_space c
      then (case cs of d # _ \<Rightarrow> if js_space d then collapse_spaces cs else CHR '' '' # collapse_spaces cs
            | [] \<Rightarrow> [CHR '' ''])
      else c # collapse_spaces cs)"

definition scheme_start :: "char \<Rightarrow> bool" where
  "scheme_start c \<longleftrightarrow> (let n = of_char c :: nat in 65 \<le> n \<and> n \<le> 90 \<or> 97 \<le> n \<and> n \<le> 122)"

definition scheme_char :: "char \<Rightarrow> bool" where
  "scheme_char c \<longleftrightarrow> scheme_start c \<or> (let n = of_char c :: nat in 48 \<le> n \<and> n \<le> 57) \<or>
     c = CHR ''+'' \<or> c = CHR ''.'' \<or> c = CHR ''-''"

text \<open>\<^verbatim>\<open>/^[a-z][a-z0-9+.-]*:\/\//i\<close>\<close>

definition looks_like_url :: "string \<Rightarrow> bool" where
  "looks_like_url s \<longleftrightarrow> s \<noteq> [] \<and> scheme_start (hd s) \<and>
     take 3 (dropWhile scheme_char (tl s)) = '':'' @ [CHR ''/'', CHR ''/'']"

text \<open>
  The identity of a delivery. \<open>url\<close> is the platform's URL parser: origin and path of a text
  it accepts, nothing for one it rejects.
\<close>

definition canonical_text :: "string \<Rightarrow> string" where
  "canonical_text s = collapse_spaces (trim (map (\<lambda>c. if control_char c then CHR '' '' else c) s))"

definition canonicalizeExternalMessageId ::
  "(string \<Rightarrow> (string \<times> string) option) \<Rightarrow> string \<Rightarrow> string \<Rightarrow> string res" where
  "canonicalizeExternalMessageId url source externalMessageId =
     bindE (normalizeSource source) (\<lambda>_.
     let canonical = canonical_text externalMessageId
     in if canonical = [] then Inl (ForesiftError WF_TRIGGER_IDENTITY_INVALID)
        else if looks_like_url canonical
        then (case url canonical of
                None \<Rightarrow> Inl (ForesiftError WF_TRIGGER_IDENTITY_INVALID)
              | Some (origin, pathname) \<Rightarrow>
                  Inr (origin @ (if pathname = ''/'' then [] else rev (dropWhile (\<lambda>c. c = CHR ''/'') (rev pathname)))))
        else if UUID_PATTERN canonical \<or> HEX_DIGEST_PATTERN canonical then Inr (toLowerCase canonical)
        else Inr canonical)"

definition trigger_assertHash :: "string \<Rightarrow> string res" where
  "trigger_assertHash v =
     (if HASH_PATTERN v then Inr v else Inl (ForesiftError WF_TRIGGER_PAYLOAD_HASH_INVALID))"

text \<open>A timestamp text that does not parse is \<open>None\<close>.\<close>

definition assertTimestamp :: "iso \<Rightarrow> instant res" where
  "assertTimestamp v = (case v of None \<Rightarrow> Inl (ForesiftError WF_SCHEDULER_TIMESTAMP_INVALID) | Some t \<Rightarrow> Inr t)"

definition addMilliseconds :: "instant \<Rightarrow> jsnum \<Rightarrow> instant res" where
  "addMilliseconds t ms = date_add t ms"

definition deriveTriggerInboxId :: "(string \<Rightarrow> string) \<Rightarrow> string \<Rightarrow> string \<Rightarrow> string res" where
  "deriveTriggerInboxId sha source canonical =
     bindE (canonicalJson (JsArr [JsStr source, JsStr canonical])) (\<lambda>text.
     Inr (''wf_inbox_'' @ take 32 (drop 7 (sha256Text sha text))))"

definition deriveTriggerRunId :: "(string \<Rightarrow> string) \<Rightarrow> string \<Rightarrow> string \<Rightarrow> string \<Rightarrow> string res" where
  "deriveTriggerRunId sha scheduleId version inboxId =
     bindE (canonicalJson (JsArr [JsStr scheduleId, JsStr version, JsStr inboxId])) (\<lambda>text.
     Inr (''wf_run_'' @ take 32 (drop 7 (sha256Text sha text))))"

text \<open>The schedule's policy is absent when the argument is no string.\<close>

definition resolveConcurrencyPolicy ::
  "jsval \<Rightarrow> string option \<Rightarrow> workflow_workload_kind option \<Rightarrow> concurrency_policy res" where
  "resolveConcurrencyPolicy resolvedConfig schedulePolicy workloadKind =
     (case jsprop resolvedConfig ''concurrencyPolicy'' of
        JsStr p \<Rightarrow> parseConcurrencyPolicy (Some p)
      | _ \<Rightarrow> (case schedulePolicy of
                Some p \<Rightarrow> parseConcurrencyPolicy (Some p)
              | None \<Rightarrow> Inr (defaultConcurrencyFor (case workloadKind of Some w \<Rightarrow> w | None \<Rightarrow> BROAD_SCAN))))"

definition refuseInactiveSchedule :: "schedule_status \<Rightarrow> js_error" where
  "refuseInactiveSchedule status =
     (if status = Sched_PAUSED then ForesiftError WF_SCHEDULE_PAUSED
      else if status = Sched_DISABLED then ForesiftError WF_SCHEDULE_DISABLED
      else ForesiftError WF_SCHEDULE_NOT_ACTIVE)"

section \<open>The pipeline\<close>

record trigger_input =
  ti_source :: string
  ti_externalMessageId :: string
  ti_scheduleId :: string
  ti_scheduledFor :: iso
  ti_payloadHash :: string
  ti_receivedAt :: iso
  ti_verifiedAt :: "iso option"
  ti_workloadKind :: "workflow_workload_kind option"
  ti_deadlineMs :: "jsnum option"
  ti_inboxId :: "string option"
  ti_runId :: "string option"

record trigger_result =
  tr_inboxId :: string
  tr_runId :: "string option"
  tr_outcome :: trigger_delivery_outcome
  tr_duplicate :: bool
  tr_concurrencyPolicy :: concurrency_policy

text \<open>The arguments after validation.\<close>

record delivery_args =
  da_source :: string
  da_canonical :: string
  da_payloadHash :: string
  da_scheduledFor :: instant
  da_receivedAt :: instant
  da_verifiedAt :: instant
  da_deadlineMs :: jsnum

definition trigger_args :: "(string \<Rightarrow> (string \<times> string) option) \<Rightarrow> trigger_input \<Rightarrow> delivery_args res" where
  "trigger_args url input =
     bindE (normalizeSource (ti_source input)) (\<lambda>source.
     bindE (canonicalizeExternalMessageId url source (ti_externalMessageId input)) (\<lambda>canonical.
     bindE (trigger_assertHash (ti_payloadHash input)) (\<lambda>payloadHash.
     bindE (assertTimestamp (ti_scheduledFor input)) (\<lambda>scheduledFor.
     bindE (assertTimestamp (ti_receivedAt input)) (\<lambda>receivedAt.
     bindE (case ti_verifiedAt input of None \<Rightarrow> Inr receivedAt | Some v \<Rightarrow> assertTimestamp v) (\<lambda>verifiedAt.
     let deadlineMs = (case ti_deadlineMs input of Some d \<Rightarrow> d | None \<Rightarrow> DEFAULT_RUN_DEADLINE_MS)
     in if \<not> js_isFinite deadlineMs \<or> js_le deadlineMs (Fin 0)
        then Inl (ForesiftError WF_TRIGGER_IDENTITY_INVALID)
        else Inr \<lparr>da_source = source, da_canonical = canonical, da_payloadHash = payloadHash,
                  da_scheduledFor = scheduledFor, da_receivedAt = receivedAt, da_verifiedAt = verifiedAt,
                  da_deadlineMs = deadlineMs\<rparr>))))))"

abbreviation inbox_key :: "inbox_row \<Rightarrow> string \<times> string" where
  "inbox_key r \<equiv> (i_source r, i_canonical_external_message_id r)"

abbreviation delivery_of :: "'p wf_db \<Rightarrow> string \<Rightarrow> string \<Rightarrow> inbox_row option" where
  "delivery_of db source canonical \<equiv> row_by inbox_key (source, canonical) (trigger_inbox db)"

text \<open>
  \<open>INSERT \<dots> ON CONFLICT (source, canonical_external_message_id) DO NOTHING RETURNING\<close>: True when
  the row was inserted.
\<close>

definition inbox_insert :: "inbox_row \<Rightarrow> (jsval wf_db, bool) prog" where
  "inbox_insert row = (\<lambda>db.
     if i_inbox_id row = [] \<or> i_source row = [] \<or> i_external_message_id row = [] \<or>
        i_canonical_external_message_id row = [] \<or> \<not> HASH_PATTERN (i_payload_hash row) then (Inl SqlError, db)
     else if delivery_of db (i_source row) (i_canonical_external_message_id row) \<noteq> None then (Inr False, db)
     else if inbox_of db (i_inbox_id row) \<noteq> None then (Inl SqlError, db)
     else if schedule_of db (i_schedule_id row) = None then (Inl SqlError, db)
     else (Inr True, db\<lparr>trigger_inbox := trigger_inbox db @ [row]\<rparr>))"

text \<open>
  \<open>INSERT INTO wf.runs \<dots> ON CONFLICT DO NOTHING RETURNING\<close>: a taken run id or inbox id inserts
  nothing; a check or a reference that fails is the database's error.
\<close>

definition run_insert :: "run_row \<Rightarrow> (jsval wf_db, bool) prog" where
  "run_insert row = (\<lambda>db.
     if r_run_id row = [] \<or> r_trigger_source row = [] \<or> r_trigger_external_message_id row = [] \<or>
        r_trigger_canonical_external_message_id row = [] then (Inl SqlError, db)
     else if run_of db (r_run_id row) \<noteq> None \<or> row_by r_inbox_id (r_inbox_id row) (runs db) \<noteq> None
     then (Inr False, db)
     else if schedule_of db (r_schedule_id row) = None \<or>
        \<not> (\<exists>v \<in> set (schedule_versions db). v_schedule_id v = r_schedule_id row \<and> v_version_id v = r_resolved_schedule_version row) \<or>
        \<not> (\<exists>i \<in> set (trigger_inbox db). i_schedule_id i = r_schedule_id row \<and> i_inbox_id i = r_inbox_id row)
     then (Inl SqlError, db)
     else (Inr True, db\<lparr>runs := runs db @ [row]\<rparr>))"

definition active :: "run_row \<Rightarrow> bool" where
  "active r \<longleftrightarrow> r_status r \<in> {Run_PENDING, Run_RUNNING, Run_WAITING}"

definition active_runs :: "'p wf_db \<Rightarrow> string \<Rightarrow> run_row list" where
  "active_runs db scheduleId = filter (\<lambda>r. r_schedule_id r = scheduleId \<and> active r) (runs db)"

definition cancel_active :: "string \<Rightarrow> instant \<Rightarrow> (jsval wf_db, run_row list) prog" where
  "cancel_active scheduleId t =
     update_stmt runs runs_update (\<lambda>_. True) (\<lambda>_ r. r_schedule_id r = scheduleId \<and> active r)
       (\<lambda>r. r\<lparr>r_status := Run_CANCELLED, r_completed_at := Some t\<rparr>)"

definition inbox_update :: "(inbox_row \<Rightarrow> bool) \<Rightarrow> string \<Rightarrow> (inbox_row \<Rightarrow> inbox_row) \<Rightarrow> (jsval wf_db, inbox_row list) prog" where
  "inbox_update p inboxId f =
     update_stmt trigger_inbox trigger_inbox_update (\<lambda>_. True) (\<lambda>_ r. i_inbox_id r = inboxId \<and> p r) f"

definition new_inbox_row :: "trigger_input \<Rightarrow> delivery_args \<Rightarrow> string \<Rightarrow> inbox_row" where
  "new_inbox_row input a inboxId =
     \<lparr>i_inbox_id = inboxId, i_source = da_source a, i_external_message_id = ti_externalMessageId input,
      i_canonical_external_message_id = da_canonical a, i_schedule_id = ti_scheduleId input,
      i_scheduled_for = da_scheduledFor a, i_payload_hash = da_payloadHash a, i_received_at = da_receivedAt a,
      i_verified_at = Some (da_verifiedAt a), i_processed_run_id = None, i_status = Trig_VERIFIED\<rparr>"

definition new_run_row ::
  "trigger_input \<Rightarrow> delivery_args \<Rightarrow> string \<Rightarrow> string \<Rightarrow> string \<Rightarrow> concurrency_policy \<Rightarrow> bool \<Rightarrow> bool \<Rightarrow> instant \<Rightarrow> run_row" where
  "new_run_row input a runId version inboxId policy shadow skipped deadline =
     \<lparr>r_run_id = runId, r_schedule_id = ti_scheduleId input, r_resolved_schedule_version = version,
      r_inbox_id = inboxId, r_trigger_source = da_source a, r_trigger_external_message_id = ti_externalMessageId input,
      r_trigger_canonical_external_message_id = da_canonical a, r_concurrency_policy = policy,
      r_concurrency_outcome = policy, r_shadow = shadow,
      r_status = (if skipped then Run_CANCELLED else Run_PENDING), r_deadline = deadline, r_started_at = None,
      r_completed_at = (if skipped then Some (da_receivedAt a) else None)\<rparr>"

text \<open>The last part: the run row, or the run that a conflict shows to exist already.\<close>

definition create_run ::
  "trigger_input \<Rightarrow> delivery_args \<Rightarrow> string \<Rightarrow> concurrency_policy \<Rightarrow> bool \<Rightarrow> run_row \<Rightarrow> (jsval wf_db, trigger_result) prog" where
  "create_run input a inboxId policy skipped row =
     bindP (run_insert row) (\<lambda>created.
     if \<not> created
     then bindP (reads (\<lambda>db. row_by r_inbox_id inboxId (runs db))) (\<lambda>existing.
          case existing of
            None \<Rightarrow> raise (ForesiftError CONTRACT_INVARIANT_VIOLATED)
          | Some r \<Rightarrow> ret \<lparr>tr_inboxId = inboxId, tr_runId = Some (r_run_id r), tr_outcome = DUPLICATE_COLLAPSED,
                          tr_duplicate = True, tr_concurrencyPolicy = policy\<rparr>)
     else bindP (inbox_update (\<lambda>_. True) inboxId (\<lambda>i. i\<lparr>i_status := Trig_PROCESSED,
                   i_processed_run_id := Some (r_run_id row),
                   i_verified_at := (case i_verified_at i of Some v \<Rightarrow> Some v | None \<Rightarrow> Some (da_verifiedAt a))\<rparr>)) (\<lambda>_.
          ret \<lparr>tr_inboxId = inboxId, tr_runId = Some (r_run_id row),
               tr_outcome = (if skipped then POLICY_SKIPPED else RUN_STARTED), tr_duplicate = False,
               tr_concurrencyPolicy = policy\<rparr>))"

definition start_run ::
  "(string \<Rightarrow> string) \<Rightarrow> trigger_input \<Rightarrow> delivery_args \<Rightarrow> string \<Rightarrow> string \<Rightarrow> string \<Rightarrow> bool \<Rightarrow> concurrency_policy \<Rightarrow> bool \<Rightarrow>
   (jsval wf_db, trigger_result) prog" where
  "start_run sha input a scheduleId inboxId versionId shadow policy hasActiveRun =
     (let skipped = (hasActiveRun \<and> policy = SKIP_IF_RUNNING)
      in bindP (if hasActiveRun \<and> policy = CANCEL_PREVIOUS
                then cancel_active scheduleId (da_receivedAt a) else ret []) (\<lambda>_.
         bindP (liftE (case ti_runId input of
                  Some i \<Rightarrow> Inr i
                | None \<Rightarrow> deriveTriggerRunId sha scheduleId versionId inboxId)) (\<lambda>runId.
         bindP (liftE (addMilliseconds (da_receivedAt a) (da_deadlineMs a))) (\<lambda>deadline.
         create_run input a inboxId policy skipped
           (new_run_row input a runId versionId inboxId policy shadow skipped deadline)))))"

text \<open>From the active schedule's version on: the policy, the active-run probe, the run.\<close>

definition admit ::
  "(string \<Rightarrow> string) \<Rightarrow> trigger_input \<Rightarrow> delivery_args \<Rightarrow> schedule_row \<Rightarrow> string \<Rightarrow> (jsval wf_db, trigger_result) prog" where
  "admit sha input a schedule inboxId =
     (if sc_status schedule \<noteq> Sched_ACTIVE then raise (refuseInactiveSchedule (sc_status schedule))
      else case sc_current_version_id schedule of
        None \<Rightarrow> raise (ForesiftError WF_SCHEDULE_VERSION_NOT_FOUND)
      | Some versionId \<Rightarrow>
          bindP (reads (\<lambda>db. find (\<lambda>v. v_version_id v = versionId \<and> v_schedule_id v = sc_schedule_id schedule) (schedule_versions db))) (\<lambda>found.
          case found of
            None \<Rightarrow> raise (ForesiftError WF_SCHEDULE_VERSION_NOT_FOUND)
          | Some version \<Rightarrow>
              bindP (liftE (resolveConcurrencyPolicy (v_resolved_config version)
                       (Some (concurrency_policy_text (sc_concurrency_policy schedule))) (ti_workloadKind input))) (\<lambda>policy.
              bindP (reads (\<lambda>db. active_runs db (sc_schedule_id schedule) \<noteq> [])) (\<lambda>hasActiveRun.
              start_run sha input a (sc_schedule_id schedule) inboxId versionId (v_shadow version) policy hasActiveRun))))"

definition trigger_tx :: "(string \<Rightarrow> string) \<Rightarrow> trigger_input \<Rightarrow> delivery_args \<Rightarrow> (jsval wf_db, trigger_result) prog" where
  "trigger_tx sha input a =
     bindP (reads (\<lambda>db. schedule_of db (ti_scheduleId input))) (\<lambda>found.
     case found of
       None \<Rightarrow> raise (ForesiftError WF_SCHEDULE_NOT_FOUND)
     | Some schedule \<Rightarrow>
         bindP (liftE (parseConcurrencyPolicy (Some (concurrency_policy_text (sc_concurrency_policy schedule))))) (\<lambda>schedulePolicy.
         bindP (liftE (case ti_inboxId input of
                  Some i \<Rightarrow> Inr i | None \<Rightarrow> deriveTriggerInboxId sha (da_source a) (da_canonical a))) (\<lambda>inboxId.
         bindP (inbox_insert (new_inbox_row input a inboxId)) (\<lambda>inserted.
         if inserted then admit sha input a schedule inboxId
         else bindP (reads (\<lambda>db. delivery_of db (da_source a) (da_canonical a))) (\<lambda>existing.
              case existing of
                None \<Rightarrow> raise (ForesiftError CONTRACT_INVARIANT_VIOLATED)
              | Some existing \<Rightarrow>
                  if i_schedule_id existing \<noteq> ti_scheduleId input
                  then raise (ForesiftError WF_TRIGGER_SCHEDULE_MISMATCH)
                  else if i_status existing = Trig_REJECTED
                  then raise (ForesiftError WF_TRIGGER_DELIVERY_REJECTED)
                  else if i_processed_run_id existing \<noteq> None \<or> i_status existing = Trig_PROCESSED
                  then bindP (inbox_update (\<lambda>i. i_status i = Trig_PROCESSED) (i_inbox_id existing)
                                (i_status_update (\<lambda>_. Trig_DUPLICATE_COLLAPSED))) (\<lambda>_.
                       ret \<lparr>tr_inboxId = i_inbox_id existing, tr_runId = i_processed_run_id existing,
                            tr_outcome = DUPLICATE_COLLAPSED, tr_duplicate = True,
                            tr_concurrencyPolicy = schedulePolicy\<rparr>)
                  else admit sha input a schedule (i_inbox_id existing))))))"

definition recordTriggerDeliveryInner ::
  "(string \<Rightarrow> string) \<Rightarrow> (string \<Rightarrow> (string \<times> string) option) \<Rightarrow> trigger_input \<Rightarrow> (jsval wf_db, trigger_result) prog" where
  "recordTriggerDeliveryInner sha url input =
     bindP (liftE (trigger_args url input)) (\<lambda>a. transaction (trigger_tx sha input a))"

text \<open>
  \<open>recordTriggerDelivery\<close> chains the deliveries of one schedule in their order of arrival; a
  rejected one does not stop the later ones. Deliveries as a process admits them:
\<close>

fun recordTriggerDelivery ::
  "(string \<Rightarrow> string) \<Rightarrow> (string \<Rightarrow> (string \<times> string) option) \<Rightarrow> trigger_input list \<Rightarrow> jsval wf_db \<Rightarrow>
   trigger_result res list \<times> jsval wf_db" where
  "recordTriggerDelivery sha url [] db = ([], db)"
| "recordTriggerDelivery sha url (input # inputs) db =
     (case recordTriggerDeliveryInner sha url input db of (res, db') \<Rightarrow>
        (case recordTriggerDelivery sha url inputs db' of (rs, db'') \<Rightarrow> (res # rs, db'')))"

section \<open>The invariant of inbox and runs\<close>

text \<open>
  Identities and runs are unique, a processed delivery names its run, every run is that of a
  processed delivery, and a processed status has a run.
\<close>

definition trig_inv :: "jsval wf_db \<Rightarrow> bool" where
  "trig_inv db \<longleftrightarrow>
     keys_distinct i_inbox_id (trigger_inbox db) \<and> keys_distinct inbox_key (trigger_inbox db) \<and>
     keys_distinct r_run_id (runs db) \<and> keys_distinct r_inbox_id (runs db) \<and>
     (\<forall>i \<in> set (trigger_inbox db). \<forall>k. i_processed_run_id i = Some k \<longrightarrow>
        (\<exists>r \<in> set (runs db). r_run_id r = k \<and> r_inbox_id r = i_inbox_id i)) \<and>
     (\<forall>r \<in> set (runs db). \<exists>i \<in> set (trigger_inbox db).
        i_inbox_id i = r_inbox_id r \<and> i_schedule_id i = r_schedule_id r \<and> i_processed_run_id i = Some (r_run_id r)) \<and>
     (\<forall>i \<in> set (trigger_inbox db). i_status i \<in> {Trig_PROCESSED, Trig_DUPLICATE_COLLAPSED} \<longrightarrow> i_processed_run_id i \<noteq> None)"

lemma trig_invD:
  assumes "trig_inv db"
  shows "keys_distinct i_inbox_id (trigger_inbox db)" and "keys_distinct inbox_key (trigger_inbox db)"
    and "keys_distinct r_run_id (runs db)" and "keys_distinct r_inbox_id (runs db)"
    and "i \<in> set (trigger_inbox db) \<Longrightarrow> i_processed_run_id i = Some k \<Longrightarrow>
        \<exists>r \<in> set (runs db). r_run_id r = k \<and> r_inbox_id r = i_inbox_id i"
    and "r \<in> set (runs db) \<Longrightarrow> \<exists>i \<in> set (trigger_inbox db).
        i_inbox_id i = r_inbox_id r \<and> i_schedule_id i = r_schedule_id r \<and> i_processed_run_id i = Some (r_run_id r)"
    and "i \<in> set (trigger_inbox db) \<Longrightarrow> i_status i \<in> {Trig_PROCESSED, Trig_DUPLICATE_COLLAPSED} \<Longrightarrow> i_processed_run_id i \<noteq> None"
  using assms unfolding trig_inv_def by blast+

text \<open>What the rest of the invariant does not depend on: a run's status and times.\<close>

definition run_identity :: "run_row \<Rightarrow> string \<times> string \<times> string" where
  "run_identity r = (r_run_id r, r_inbox_id r, r_schedule_id r)"

lemma trig_inv_runs:
  assumes "trig_inv db" and "map run_identity (runs db') = map run_identity (runs db)"
    and "trigger_inbox db' = trigger_inbox db"
  shows "trig_inv db'"
proof -
  have set: "run_identity ` set (runs db') = run_identity ` set (runs db)"
    using assms(2) by (metis set_map)
  have ids: "map r_run_id (runs db') = map r_run_id (runs db)" "map r_inbox_id (runs db') = map r_inbox_id (runs db)"
    using arg_cong [OF assms(2), of "map fst"] arg_cong [OF assms(2), of "map (fst \<circ> snd)"]
    by (simp_all add: run_identity_def comp_def)
  have there: "\<exists>r \<in> set (runs db'). r_run_id r = k \<and> r_inbox_id r = j"
    if "\<exists>r \<in> set (runs db). r_run_id r = k \<and> r_inbox_id r = j" for k j
  proof -
    from that obtain r where "r \<in> set (runs db)" "r_run_id r = k" "r_inbox_id r = j" by blast
    then have "run_identity r \<in> run_identity ` set (runs db')" using set by blast
    then show ?thesis using \<open>r_run_id r = k\<close> \<open>r_inbox_id r = j\<close> by (auto simp: run_identity_def)
  qed
  have prev: "\<exists>r0 \<in> set (runs db). run_identity r0 = run_identity r" if "r \<in> set (runs db')" for r
    using that set by (metis imageE imageI)
  have fwd: "\<exists>i \<in> set (trigger_inbox db). i_inbox_id i = r_inbox_id r \<and> i_schedule_id i = r_schedule_id r \<and>
      i_processed_run_id i = Some (r_run_id r)" if "r \<in> set (runs db')" for r
  proof -
    from prev [OF that] obtain r0 where r0: "r0 \<in> set (runs db)" "run_identity r0 = run_identity r" by blast
    from trig_invD(6) [OF assms(1) r0(1)] show ?thesis using r0(2) by (simp add: run_identity_def)
  qed
  show ?thesis
    using assms(1) there fwd unfolding trig_inv_def assms(3) keys_distinct_def ids by blast
qed

lemma inbox_unique:
  "trig_inv db \<Longrightarrow> i \<in> set (trigger_inbox db) \<Longrightarrow> j \<in> set (trigger_inbox db) \<Longrightarrow> i_inbox_id i = i_inbox_id j \<Longrightarrow> i = j"
  using trig_invD(1) [of db] by (auto simp: keys_distinct_def distinct_map inj_on_def)

section \<open>One delivery\<close>

lemma inbox_update_run:
  "inbox_update p k f db = (Inr (sql_returning (\<lambda>r. i_inbox_id r = k \<and> p r) f (trigger_inbox db)),
     db\<lparr>trigger_inbox := sql_update (\<lambda>r. i_inbox_id r = k \<and> p r) f (trigger_inbox db)\<rparr>)"
  by (simp add: inbox_update_def update_stmt_def)

lemma cancel_active_run:
  "cancel_active sid t db = (Inr (sql_returning (\<lambda>r. r_schedule_id r = sid \<and> active r)
       (\<lambda>r. r\<lparr>r_status := Run_CANCELLED, r_completed_at := Some t\<rparr>) (runs db)),
     db\<lparr>runs := sql_update (\<lambda>r. r_schedule_id r = sid \<and> active r)
       (\<lambda>r. r\<lparr>r_status := Run_CANCELLED, r_completed_at := Some t\<rparr>) (runs db)\<rparr>)"
  by (simp add: cancel_active_def update_stmt_def)

definition processed :: "string \<Rightarrow> instant \<Rightarrow> inbox_row \<Rightarrow> inbox_row" where
  "processed runId verifiedAt i = i\<lparr>i_status := Trig_PROCESSED, i_processed_run_id := Some runId,
     i_verified_at := (case i_verified_at i of Some v \<Rightarrow> Some v | None \<Rightarrow> Some verifiedAt)\<rparr>"

text \<open>A fresh delivery (its inbox row has no run yet) gets the one new run row.\<close>

lemma create_run_ok:
  assumes "create_run input a inboxId policy skipped row db = (Inr res, db')" and "trig_inv db"
    and "r_inbox_id row = inboxId" and "i \<in> set (trigger_inbox db)" and "i_inbox_id i = inboxId"
    and "i_processed_run_id i = None"
  shows "res = \<lparr>tr_inboxId = inboxId, tr_runId = Some (r_run_id row),
       tr_outcome = (if skipped then POLICY_SKIPPED else RUN_STARTED), tr_duplicate = False, tr_concurrencyPolicy = policy\<rparr>"
    and "db' = db\<lparr>runs := runs db @ [row], trigger_inbox := sql_update (\<lambda>r. i_inbox_id r = inboxId)
       (processed (r_run_id row) (da_verifiedAt a)) (trigger_inbox db)\<rparr>"
    and "run_of db (r_run_id row) = None" and "row_by r_inbox_id inboxId (runs db) = None"
    and "\<exists>j \<in> set (trigger_inbox db). i_schedule_id j = r_schedule_id row \<and> i_inbox_id j = inboxId"
proof -
  have none: "row_by r_inbox_id inboxId (runs db) = None"
  proof (rule ccontr)
    assume "row_by r_inbox_id inboxId (runs db) \<noteq> None"
    then obtain r where "r \<in> set (runs db)" "r_inbox_id r = inboxId" by (auto dest: row_by_SomeD)
    then obtain j where "j \<in> set (trigger_inbox db)" "i_inbox_id j = inboxId" "i_processed_run_id j \<noteq> None"
      using trig_invD(6) [OF assms(2)] by blast
    then show False using inbox_unique [OF assms(2) assms(4)] assms(5,6) by metis
  qed
  from assms(1) none assms(3) have run: "run_insert row db = (Inr True, db\<lparr>runs := runs db @ [row]\<rparr>) \<and>
      run_of db (r_run_id row) = None \<and> (\<exists>j \<in> set (trigger_inbox db). i_schedule_id j = r_schedule_id row \<and> i_inbox_id j = inboxId)"
    by (auto simp: create_run_def bindP_run run_insert_def split: if_splits)
  show "row_by r_inbox_id inboxId (runs db) = None" by (rule none)
  show "run_of db (r_run_id row) = None"
    "\<exists>j \<in> set (trigger_inbox db). i_schedule_id j = r_schedule_id row \<and> i_inbox_id j = inboxId" using run by blast+
  have p: "(\<lambda>i. i\<lparr>i_status := Trig_PROCESSED, i_processed_run_id := Some (r_run_id row),
      i_verified_at := (case i_verified_at i of Some v \<Rightarrow> Some v | None \<Rightarrow> Some (da_verifiedAt a))\<rparr>) =
      processed (r_run_id row) (da_verifiedAt a)"
    by (rule ext) (simp add: processed_def)
  show "res = \<lparr>tr_inboxId = inboxId, tr_runId = Some (r_run_id row),
       tr_outcome = (if skipped then POLICY_SKIPPED else RUN_STARTED), tr_duplicate = False, tr_concurrencyPolicy = policy\<rparr>"
    "db' = db\<lparr>runs := runs db @ [row], trigger_inbox := sql_update (\<lambda>r. i_inbox_id r = inboxId)
       (processed (r_run_id row) (da_verifiedAt a)) (trigger_inbox db)\<rparr>"
    using assms(1) run unfolding create_run_def p by (auto simp: bindP_run inbox_update_run)
qed

definition after_cancel :: "string \<Rightarrow> instant \<Rightarrow> bool \<Rightarrow> run_row list \<Rightarrow> run_row list" where
  "after_cancel sid t cancel rows = (if cancel then sql_update (\<lambda>r. r_schedule_id r = sid \<and> active r)
     (\<lambda>r. r\<lparr>r_status := Run_CANCELLED, r_completed_at := Some t\<rparr>) rows else rows)"

lemma after_cancel_identity [simp]: "map run_identity (after_cancel sid t b rows) = map run_identity rows"
  by (auto simp: after_cancel_def run_identity_def sql_update_def)

text \<open>
  The effect of an admitted delivery: a new run row, its status and the cancellations as the
  policy says, and the delivery marked as processed.
\<close>

definition admitted ::
  "trigger_input \<Rightarrow> delivery_args \<Rightarrow> string \<Rightarrow> concurrency_policy \<Rightarrow> run_row \<Rightarrow> jsval wf_db \<Rightarrow> trigger_result \<Rightarrow> jsval wf_db \<Rightarrow> bool" where
  "admitted input a inboxId policy row db res db' \<longleftrightarrow>
     (let sid = ti_scheduleId input; busy = active_runs db sid \<noteq> []; skipped = (busy \<and> policy = SKIP_IF_RUNNING) in
      r_inbox_id row = inboxId \<and> r_schedule_id row = sid \<and> r_concurrency_outcome row = policy \<and>
      r_status row = (if skipped then Run_CANCELLED else Run_PENDING) \<and>
      run_of db (r_run_id row) = None \<and> row_by r_inbox_id inboxId (runs db) = None \<and>
      res = \<lparr>tr_inboxId = inboxId, tr_runId = Some (r_run_id row),
         tr_outcome = (if skipped then POLICY_SKIPPED else RUN_STARTED), tr_duplicate = False, tr_concurrencyPolicy = policy\<rparr> \<and>
      db' = db\<lparr>runs := after_cancel sid (da_receivedAt a) (busy \<and> policy = CANCEL_PREVIOUS) (runs db) @ [row],
         trigger_inbox := sql_update (\<lambda>r. i_inbox_id r = inboxId) (processed (r_run_id row) (da_verifiedAt a)) (trigger_inbox db)\<rparr>)"

lemma row_by_cancel:
  "row_by r_run_id k (after_cancel sid t b rows) = None \<longleftrightarrow> row_by r_run_id k rows = None"
  "row_by r_inbox_id k (after_cancel sid t b rows) = None \<longleftrightarrow> row_by r_inbox_id k rows = None"
  by (auto simp: after_cancel_def row_by_update)

lemma admit_ok:
  assumes run: "admit sha input a schedule inboxId db = (Inr res, db')" and inv: "trig_inv db"
    and sid: "sc_schedule_id schedule = ti_scheduleId input"
    and i: "i \<in> set (trigger_inbox db)" "i_inbox_id i = inboxId" "i_processed_run_id i = None"
  shows "sc_status schedule = Sched_ACTIVE \<and> (\<exists>policy row. admitted input a inboxId policy row db res db' \<and>
    (\<exists>j \<in> set (trigger_inbox db). i_schedule_id j = ti_scheduleId input \<and> i_inbox_id j = inboxId))"
proof -
  let ?sid = "ti_scheduleId input"
  from run have act: "sc_status schedule = Sched_ACTIVE" by (auto simp: admit_def split: if_splits)
  let ?busy = "active_runs db ?sid \<noteq> []"
  from run act obtain vid shadow policy where
    rest: "start_run sha input a ?sid inboxId vid shadow policy ?busy db = (Inr res, db')"
    by (auto simp: admit_def bindP_liftE sid split: option.splits sum.splits)
  let ?skipped = "?busy \<and> policy = SKIP_IF_RUNNING"
  let ?db1 = "db\<lparr>runs := after_cancel ?sid (da_receivedAt a) (?busy \<and> policy = CANCEL_PREVIOUS) (runs db)\<rparr>"
  have mid: "\<exists>x. (if ?busy \<and> policy = CANCEL_PREVIOUS then cancel_active ?sid (da_receivedAt a) else ret []) db = (Inr x, ?db1)"
    by (simp add: cancel_active_run after_cancel_def)
  from rest obtain runId deadline where
    cr: "create_run input a inboxId policy ?skipped
        (new_run_row input a runId vid inboxId policy shadow ?skipped deadline) ?db1 = (Inr res, db')"
    using mid unfolding start_run_def Let_def by (auto simp: bindP_ok bindP_liftE simp del: if_split_asm split: sum.splits)
  let ?row = "new_run_row input a runId vid inboxId policy shadow ?skipped deadline"
  have inv1: "trig_inv ?db1" by (rule trig_inv_runs [OF inv]) simp_all
  have row: "r_inbox_id ?row = inboxId" "r_schedule_id ?row = ?sid" "r_concurrency_outcome ?row = policy"
    "r_status ?row = (if ?skipped then Run_CANCELLED else Run_PENDING)" by (simp_all add: new_run_row_def)
  have i1: "i \<in> set (trigger_inbox ?db1)" using i(1) by simp
  note c = create_run_ok [OF cr inv1 row(1) i1 i(2,3)]
  have "admitted input a inboxId policy ?row db res db'"
    using c(1-4) row row_by_cancel unfolding admitted_def Let_def by simp
  moreover have "\<exists>j \<in> set (trigger_inbox db). i_schedule_id j = ti_scheduleId input \<and> i_inbox_id j = inboxId"
    using c(5) row(2) by simp
  ultimately show ?thesis using act by blast
qed

lemma admitted_inv:
  assumes ad: "admitted input a inboxId policy row db res db'" and inv: "trig_inv db"
    and i: "i \<in> set (trigger_inbox db)" "i_inbox_id i = inboxId" "i_schedule_id i = ti_scheduleId input"
      "i_processed_run_id i = None"
  shows "trig_inv db'"
proof -
  let ?up = "sql_update (\<lambda>r. i_inbox_id r = inboxId) (processed (r_run_id row) (da_verifiedAt a)) (trigger_inbox db)"
  obtain b where db': "db' = db\<lparr>runs := after_cancel (ti_scheduleId input) (da_receivedAt a) b (runs db) @ [row], trigger_inbox := ?up\<rparr>"
    and row: "r_inbox_id row = inboxId" "r_schedule_id row = ti_scheduleId input"
    and new: "run_of db (r_run_id row) = None" "row_by r_inbox_id inboxId (runs db) = None"
    using ad unfolding admitted_def Let_def by (elim conjE) (rule that)
  let ?db1 = "db\<lparr>runs := after_cancel (ti_scheduleId input) (da_receivedAt a) b (runs db)\<rparr>"
  have inv1: "trig_inv ?db1" by (rule trig_inv_runs [OF inv]) simp_all
  note I = trig_invD [OF inv1, simplified]
  have key: "i_inbox_id (processed x t r) = i_inbox_id r" "inbox_key (processed x t r) = inbox_key r"
    "i_schedule_id (processed x t r) = i_schedule_id r" "i_processed_run_id (processed x t r) = Some x" for x t r
    by (simp_all add: processed_def)
  have set: "x \<in> set ?up \<longleftrightarrow> x = processed (r_run_id row) (da_verifiedAt a) i \<or> x \<in> set (trigger_inbox db) \<and> x \<noteq> i" for x
  proof -
    have one: "i_inbox_id r = inboxId \<longleftrightarrow> r = i" if "r \<in> set (trigger_inbox db)" for r
      using inbox_unique [OF inv that i(1)] i(2) by auto
    have "set ?up = (\<lambda>r. if r = i then processed (r_run_id row) (da_verifiedAt a) i else r) ` set (trigger_inbox db)"
      unfolding sql_update_def set_map by (rule image_cong) (simp_all add: one)
    then show ?thesis using i(1) by (simp add: image_iff)
  qed
  show ?thesis unfolding trig_inv_def
  proof (intro conjI ballI allI impI)
    show "keys_distinct i_inbox_id (trigger_inbox db')" "keys_distinct inbox_key (trigger_inbox db')"
      using I(1,2) key unfolding db' by simp_all
    show "keys_distinct r_run_id (runs db')" "keys_distinct r_inbox_id (runs db')"
      using I(3,4) new row unfolding db' by (simp_all add: row_by_cancel flip: row_by_None_iff)
    show "\<exists>r \<in> set (runs db'). r_run_id r = k \<and> r_inbox_id r = i_inbox_id x"
      if "x \<in> set (trigger_inbox db')" "i_processed_run_id x = Some k" for x k
    proof (cases "x = processed (r_run_id row) (da_verifiedAt a) i")
      case True
      then show ?thesis using that(2) row i(2) unfolding db' by (auto simp: key)
    next
      case False
      then have "x \<in> set (trigger_inbox db)" using that(1) set unfolding db' by simp
      then show ?thesis using I(5) that(2) unfolding db' by auto
    qed
    show "\<exists>x \<in> set (trigger_inbox db'). i_inbox_id x = r_inbox_id r \<and> i_schedule_id x = r_schedule_id r \<and>
        i_processed_run_id x = Some (r_run_id r)" if r: "r \<in> set (runs db')" for r
    proof (cases "r = row")
      case True
      then show ?thesis using row i(2,3) set unfolding db'
        by (intro bexI [of _ "processed (r_run_id row) (da_verifiedAt a) i"]) (simp_all add: key)
    next
      case False
      then obtain x where x: "x \<in> set (trigger_inbox db)" "i_inbox_id x = r_inbox_id r" "i_schedule_id x = r_schedule_id r"
        "i_processed_run_id x = Some (r_run_id r)" using I(6) [of r] r unfolding db' by auto
      then have "x \<noteq> i" using i(4) by auto
      then show ?thesis using x set unfolding db' by auto
    qed
    show "i_processed_run_id x \<noteq> None"
      if "x \<in> set (trigger_inbox db')" "i_status x \<in> {Trig_PROCESSED, Trig_DUPLICATE_COLLAPSED}" for x
    proof (cases "x = processed (r_run_id row) (da_verifiedAt a) i")
      case True
      then show ?thesis by (simp add: key)
    next
      case False
      then show ?thesis using that set I(7) [of x] unfolding db' by simp
    qed
  qed
qed

text \<open>Storing a delivery for the first time.\<close>

lemma inbox_insert_ok:
  assumes "inbox_insert row db = (Inr b, db')"
  shows "b \<longleftrightarrow> delivery_of db (i_source row) (i_canonical_external_message_id row) = None"
    and "db' = (if b then db\<lparr>trigger_inbox := trigger_inbox db @ [row]\<rparr> else db)"
    and "b \<Longrightarrow> inbox_of db (i_inbox_id row) = None"
  using assms by (auto simp: inbox_insert_def split: if_splits)

lemma insert_inv:
  assumes "trig_inv db" and "delivery_of db (i_source row) (i_canonical_external_message_id row) = None"
    and "inbox_of db (i_inbox_id row) = None" and "i_processed_run_id row = None" and "i_status row = Trig_VERIFIED"
  shows "trig_inv (db\<lparr>trigger_inbox := trigger_inbox db @ [row]\<rparr>)"
proof -
  note I = trig_invD [OF assms(1)]
  have k: "keys_distinct i_inbox_id (trigger_inbox db @ [row])" "keys_distinct inbox_key (trigger_inbox db @ [row])"
    using I(1,2) assms(2,3) by (simp_all flip: row_by_None_iff)
  show ?thesis unfolding trig_inv_def
    using k I assms(4,5) by auto
qed

lemma duplicate_inv:
  assumes "trig_inv db"
  shows "trig_inv (db\<lparr>trigger_inbox := sql_update (\<lambda>r. i_inbox_id r = k \<and> i_status r = Trig_PROCESSED)
     (i_status_update (\<lambda>_. Trig_DUPLICATE_COLLAPSED)) (trigger_inbox db)\<rparr>)"
proof -
  let ?up = "sql_update (\<lambda>r. i_inbox_id r = k \<and> i_status r = Trig_PROCESSED)
     (i_status_update (\<lambda>_. Trig_DUPLICATE_COLLAPSED)) (trigger_inbox db)"
  note I = trig_invD [OF assms]
  have keys: "keys_distinct i_inbox_id ?up" "keys_distinct inbox_key ?up" using I(1,2) by simp_all
  have prev: "\<exists>i0 \<in> set (trigger_inbox db). i_inbox_id i0 = i_inbox_id i \<and> i_processed_run_id i0 = i_processed_run_id i \<and>
      (i_status i \<in> {Trig_PROCESSED, Trig_DUPLICATE_COLLAPSED} \<longrightarrow> i_status i0 \<in> {Trig_PROCESSED, Trig_DUPLICATE_COLLAPSED})"
    if "i \<in> set ?up" for i using that by (auto simp: sql_update_def split: if_splits)
  have p5: "\<exists>r \<in> set (runs db). r_run_id r = x \<and> r_inbox_id r = i_inbox_id i" if i: "i \<in> set ?up" "i_processed_run_id i = Some x" for i x
    using prev [OF i(1)] I(5) i(2) by metis
  have p7: "i_processed_run_id i \<noteq> None" if i: "i \<in> set ?up" "i_status i \<in> {Trig_PROCESSED, Trig_DUPLICATE_COLLAPSED}" for i
    using prev [OF i(1)] I(7) i(2) by metis
  have p6: "\<exists>i \<in> set ?up. i_inbox_id i = r_inbox_id r \<and> i_schedule_id i = r_schedule_id r \<and> i_processed_run_id i = Some (r_run_id r)"
    if r: "r \<in> set (runs db)" for r
  proof -
    from I(6) [OF r] obtain i where i: "i \<in> set (trigger_inbox db)" "i_inbox_id i = r_inbox_id r" "i_schedule_id i = r_schedule_id r"
      "i_processed_run_id i = Some (r_run_id r)" by blast
    show ?thesis
      by (rule bexI [of _ "if i_inbox_id i = k \<and> i_status i = Trig_PROCESSED then i\<lparr>i_status := Trig_DUPLICATE_COLLAPSED\<rparr> else i"])
        (use i in \<open>auto simp: sql_update_def\<close>)
  qed
  show ?thesis unfolding trig_inv_def using keys I(3,4) p5 p6 p7 by simp
qed

text \<open>The two ways a delivery is accepted.\<close>

lemma delivery_ok:
  assumes run: "recordTriggerDeliveryInner sha url input db = (Inr res, db')" and inv: "trig_inv db"
  obtains (duplicate) a i k where "trigger_args url input = Inr a"
      and "delivery_of db (da_source a) (da_canonical a) = Some i" and "i_schedule_id i = ti_scheduleId input"
      and "i_processed_run_id i = Some k" and "i_status i \<noteq> Trig_REJECTED"
      and "tr_inboxId res = i_inbox_id i" and "tr_runId res = Some k" and "tr_outcome res = DUPLICATE_COLLAPSED" and "tr_duplicate res"
      and "db' = db\<lparr>trigger_inbox := sql_update (\<lambda>r. i_inbox_id r = i_inbox_id i \<and> i_status r = Trig_PROCESSED)
        (i_status_update (\<lambda>_. Trig_DUPLICATE_COLLAPSED)) (trigger_inbox db)\<rparr>"
    | (admitted) a i schedule policy row db0 where "trigger_args url input = Inr a" and "i \<in> set (trigger_inbox db0)"
      and "inbox_key i = (da_source a, da_canonical a)" and "i_schedule_id i = ti_scheduleId input" and "i_processed_run_id i = None"
      and "i_status i \<noteq> Trig_REJECTED" and "schedule_of db (ti_scheduleId input) = Some schedule" and "sc_status schedule = Sched_ACTIVE"
      and "db0 = db \<or> db0 = db\<lparr>trigger_inbox := trigger_inbox db @ [i]\<rparr> \<and> delivery_of db (da_source a) (da_canonical a) = None"
      and "trig_inv db0" and "admitted input a (i_inbox_id i) policy row db0 res db'"
proof -
  from run obtain a where a: "trigger_args url input = Inr a" and tx: "trigger_tx sha input a db = (Inr res, db')"
    by (auto simp: recordTriggerDeliveryInner_def bindP_liftE split: sum.splits)
  from tx obtain schedule where sch: "schedule_of db (ti_scheduleId input) = Some schedule"
    by (auto simp: trigger_tx_def split: option.splits)
  have sid: "sc_schedule_id schedule = ti_scheduleId input" using sch by (auto dest: row_by_SomeD)
  have pol: "parseConcurrencyPolicy (Some (concurrency_policy_text p)) = Inr p" for p
    by (simp add: parseConcurrencyPolicy_def policy_voc.parse_roundtrip)
  let ?rest = "\<lambda>inboxId inserted. if inserted then admit sha input a schedule inboxId
         else bindP (reads (\<lambda>db. delivery_of db (da_source a) (da_canonical a))) (\<lambda>existing.
              case existing of
                None \<Rightarrow> raise (ForesiftError CONTRACT_INVARIANT_VIOLATED)
              | Some existing \<Rightarrow>
                  if i_schedule_id existing \<noteq> ti_scheduleId input
                  then raise (ForesiftError WF_TRIGGER_SCHEDULE_MISMATCH)
                  else if i_status existing = Trig_REJECTED
                  then raise (ForesiftError WF_TRIGGER_DELIVERY_REJECTED)
                  else if i_processed_run_id existing \<noteq> None \<or> i_status existing = Trig_PROCESSED
                  then bindP (inbox_update (\<lambda>i. i_status i = Trig_PROCESSED) (i_inbox_id existing)
                                (i_status_update (\<lambda>_. Trig_DUPLICATE_COLLAPSED))) (\<lambda>_.
                       ret \<lparr>tr_inboxId = i_inbox_id existing, tr_runId = i_processed_run_id existing,
                            tr_outcome = DUPLICATE_COLLAPSED, tr_duplicate = True,
                            tr_concurrencyPolicy = sc_concurrency_policy schedule\<rparr>)
                  else admit sha input a schedule (i_inbox_id existing))"
  from tx sch obtain inboxId b db1 where ins: "inbox_insert (new_inbox_row input a inboxId) db = (Inr b, db1)"
    and rest: "?rest inboxId b db1 = (Inr res, db')"
    by (auto simp: trigger_tx_def pol bindP_liftE bindP_eq_Inr [of "inbox_insert _"] split: sum.splits)
  let ?new = "new_inbox_row input a inboxId"
  have new: "i_source ?new = da_source a" "i_canonical_external_message_id ?new = da_canonical a" "i_inbox_id ?new = inboxId"
    "i_schedule_id ?new = ti_scheduleId input" "i_processed_run_id ?new = None" "i_status ?new = Trig_VERIFIED"
    by (simp_all add: new_inbox_row_def)
  note io = inbox_insert_ok [OF ins, unfolded new]
  show thesis
  proof (cases b)
    case True
    have inv1: "trig_inv db1"
      using insert_inv [of db ?new] inv io True new by simp
    have mem: "?new \<in> set (trigger_inbox db1)" using io(2) True by simp
    from rest True have ad: "admit sha input a schedule inboxId db1 = (Inr res, db')" by simp
    from admit_ok [OF ad inv1 sid mem new(3,5)] obtain policy row where
      "sc_status schedule = Sched_ACTIVE" "admitted input a inboxId policy row db1 res db'" by blast
    then show thesis
      using admitted [OF a mem _ new(4,5) _ sch] new io True inv1 by simp
  next
    case False
    then have db1: "db1 = db" using io(2) by simp
    from rest False db1 obtain i where i: "delivery_of db (da_source a) (da_canonical a) = Some i"
      "i_schedule_id i = ti_scheduleId input" "i_status i \<noteq> Trig_REJECTED"
      by (auto split: option.splits if_splits)
    have mem: "i \<in> set (trigger_inbox db)" "inbox_key i = (da_source a, da_canonical a)" using i(1) by (auto dest: row_by_SomeD)
    show thesis
    proof (cases "i_processed_run_id i \<noteq> None \<or> i_status i = Trig_PROCESSED")
      case True
      then obtain k where k: "i_processed_run_id i = Some k" using trig_invD(7) [OF inv mem(1)] by auto
      from rest False db1 i True have "res = \<lparr>tr_inboxId = i_inbox_id i, tr_runId = i_processed_run_id i,
            tr_outcome = DUPLICATE_COLLAPSED, tr_duplicate = True, tr_concurrencyPolicy = sc_concurrency_policy schedule\<rparr>"
        "db' = db\<lparr>trigger_inbox := sql_update (\<lambda>r. i_inbox_id r = i_inbox_id i \<and> i_status r = Trig_PROCESSED)
          (i_status_update (\<lambda>_. Trig_DUPLICATE_COLLAPSED)) (trigger_inbox db)\<rparr>"
        by (auto simp: bindP_run inbox_update_run)
      then show thesis using duplicate [OF a i(1,2) k i(3)] k by simp
    next
      case fresh: False
      then have ad: "admit sha input a schedule (i_inbox_id i) db = (Inr res, db')" using rest False db1 i by simp
      from fresh have none: "i_processed_run_id i = None" by simp
      from admit_ok [OF ad inv sid mem(1) refl none] obtain policy row where
        "sc_status schedule = Sched_ACTIVE" "admitted input a (i_inbox_id i) policy row db res db'" by blast
      then show thesis using admitted [OF a mem(1,2) i(2) none i(3) sch _ _ inv] by simp
    qed
  qed
qed

section \<open>Histories of deliveries\<close>

text \<open>
  Any sequence of deliveries, accepted or refused, and of other work that neither touches the
  inbox nor adds or re-addresses runs.
\<close>

inductive trigger_step :: "jsval wf_db \<Rightarrow> jsval wf_db \<Rightarrow> bool" where
  deliver: "recordTriggerDeliveryInner sha url input db = (res, db') \<Longrightarrow> trigger_step db db'"
| other: "trigger_inbox db' = trigger_inbox db \<Longrightarrow> map run_identity (runs db') = map run_identity (runs db) \<Longrightarrow>
    trigger_step db db'"

lemma delivery_refused: "recordTriggerDeliveryInner sha url input db = (Inl e, db') \<Longrightarrow> db' = db"
  by (auto simp: recordTriggerDeliveryInner_def bindP_liftE dest: transaction_rollback split: sum.splits)

lemma delivery_inv:
  assumes "recordTriggerDeliveryInner sha url input db = (res, db')" and "trig_inv db"
  shows "trig_inv db'"
proof (cases res)
  case (Inl e)
  then show ?thesis using assms delivery_refused by blast
next
  case (Inr r)
  from assms(1) [unfolded Inr] assms(2) show ?thesis
  proof (cases rule: delivery_ok)
    case duplicate
    then show ?thesis using duplicate_inv [OF assms(2)] by simp
  next
    case (admitted a i schedule policy row db0)
    then show ?thesis using admitted_inv [OF admitted(11,10,2) refl admitted(4,5)] by simp
  qed
qed

lemma step_inv: "trigger_step db db' \<Longrightarrow> trig_inv db \<Longrightarrow> trig_inv db'"
  by (induction rule: trigger_step.induct) (auto intro: delivery_inv trig_inv_runs)

text \<open>A delivery that has its run keeps it.\<close>

definition settled :: "jsval wf_db \<Rightarrow> string \<Rightarrow> string \<Rightarrow> string \<Rightarrow> string \<Rightarrow> bool" where
  "settled db source canonical scheduleId runId \<longleftrightarrow> (\<exists>i. delivery_of db source canonical = Some i \<and>
     i_schedule_id i = scheduleId \<and> i_processed_run_id i = Some runId \<and> i_status i \<noteq> Trig_REJECTED)"

lemma admitted_db:
  assumes "admitted input a inboxId policy row db res db'"
  shows "trigger_inbox db' = sql_update (\<lambda>r. i_inbox_id r = inboxId) (processed (r_run_id row) (da_verifiedAt a)) (trigger_inbox db)"
    and "tr_runId res = Some (r_run_id row)"
  using assms unfolding admitted_def Let_def by simp_all

lemma admitted_settled:
  assumes "admitted input a (i_inbox_id i) policy row db res db'" and "trig_inv db" and "i \<in> set (trigger_inbox db)"
    and "inbox_key i = (source, canonical)"
  shows "delivery_of db' source canonical = Some (processed (r_run_id row) (da_verifiedAt a) i)"
    and "delivery_of db s c = Some j \<Longrightarrow> j \<noteq> i \<Longrightarrow> delivery_of db' s c = Some j"
proof -
  have key: "inbox_key (processed x t r) = inbox_key r" for x t r by (simp add: processed_def)
  have look: "delivery_of db' s c = map_option (\<lambda>r. if i_inbox_id r = i_inbox_id i then processed (r_run_id row) (da_verifiedAt a) r else r)
      (delivery_of db s c)" for s c
    unfolding admitted_db(1) [OF assms(1)] by (rule row_by_update) (simp add: key)
  have "delivery_of db source canonical = Some i"
    using trig_invD(2) [OF assms(2)] assms(3,4) by (simp add: row_by_eq_Some_iff)
  then show "delivery_of db' source canonical = Some (processed (r_run_id row) (da_verifiedAt a) i)" using look by simp
  show "delivery_of db' s c = Some j" if "delivery_of db s c = Some j" "j \<noteq> i"
    using that look inbox_unique [OF assms(2) _ assms(3), of j] by (auto dest: row_by_SomeD)
qed

lemma delivery_settled:
  assumes "recordTriggerDeliveryInner sha url input db = (res, db')" and "trig_inv db" and "settled db s c sid k"
  shows "settled db' s c sid k"
proof (cases res)
  case (Inl e)
  then show ?thesis using assms delivery_refused by blast
next
  case (Inr r)
  from assms(3) obtain j where j: "delivery_of db s c = Some j" "i_schedule_id j = sid" "i_processed_run_id j = Some k"
    "i_status j \<noteq> Trig_REJECTED" by (auto simp: settled_def)
  from assms(1) [unfolded Inr] assms(2) show ?thesis
  proof (cases rule: delivery_ok)
    case (duplicate a i k')
    have "delivery_of db' s c = map_option (\<lambda>r. if i_inbox_id r = i_inbox_id i \<and> i_status r = Trig_PROCESSED
        then r\<lparr>i_status := Trig_DUPLICATE_COLLAPSED\<rparr> else r) (delivery_of db s c)"
      unfolding duplicate(10) by (simp add: row_by_update)
    then show ?thesis using j by (auto simp: settled_def)
  next
    case (admitted a i schedule policy row db0)
    have "j \<noteq> i" using j(3) admitted(5) by auto
    moreover have "delivery_of db0 s c = Some j" using j(1) admitted(9) by auto
    ultimately have "delivery_of db' s c = Some j"
      using admitted_settled(2) [OF admitted(11,10,2,3)] by blast
    then show ?thesis using j by (auto simp: settled_def)
  qed
qed

lemma steps_settled: "trigger_step\<^sup>*\<^sup>* db db' \<Longrightarrow> trig_inv db \<Longrightarrow> settled db s c sid k \<Longrightarrow> trig_inv db' \<and> settled db' s c sid k"
proof (induction rule: rtranclp_induct)
  case (step db1 db2)
  from step.hyps(2) show ?case
  proof cases
    case deliver
    then show ?thesis using step delivery_inv delivery_settled by blast
  next
    case other
    then show ?thesis using step trig_inv_runs by (auto simp: settled_def)
  qed
qed simp

lemma accepted_settled:
  assumes "recordTriggerDeliveryInner sha url input db = (Inr res, db')" and "trig_inv db" and "trigger_args url input = Inr a"
  obtains k where "tr_runId res = Some k" and "settled db' (da_source a) (da_canonical a) (ti_scheduleId input) k"
  using assms(1,2)
proof (cases rule: delivery_ok)
  case (duplicate a' i k)
  then have "settled db (da_source a) (da_canonical a) (ti_scheduleId input) k" using assms(3) by (simp add: settled_def)
  then have "settled db' (da_source a) (da_canonical a) (ti_scheduleId input) k" by (rule delivery_settled [OF assms(1,2)])
  then show thesis using that duplicate(7) by blast
next
  case (admitted a' i schedule policy row db0)
  have a': "a' = a" using admitted(1) assms(3) by simp
  have "delivery_of db' (da_source a) (da_canonical a) = Some (processed (r_run_id row) (da_verifiedAt a') i)"
    using admitted_settled(1) [OF admitted(11,10,2,3)] a' by simp
  then have "settled db' (da_source a) (da_canonical a) (ti_scheduleId input) (r_run_id row)"
    using admitted(4) by (simp add: settled_def processed_def)
  then show thesis using that admitted_db(2) [OF admitted(11)] by blast
qed

end
