(* ===== verification/TriggerRuns.thy ===== *)
theory TriggerRuns
  imports TriggerInbox
begin

text \<open>
  What the trigger pipeline promises: one run per delivery identity, duplicates collapse onto
  it, the concurrency policy is kept, refusals are typed and leave no trace, and canonical
  identities are stable.
\<close>

section \<open>Valid arguments\<close>

lemma normalizeSource_ok: "normalizeSource x = Inr v \<Longrightarrow> v \<noteq> []"
  by (auto simp: normalizeSource_def blank_def toLowerCase_def split: if_splits)

lemma trigger_args_ok:
  assumes "trigger_args url input = Inr a"
  shows "da_source a \<noteq> []" and "ti_externalMessageId input \<noteq> []" and "HASH_PATTERN (da_payloadHash a)"
proof -
  from assms obtain c where c: "canonicalizeExternalMessageId url (da_source a) (ti_externalMessageId input) = Inr c"
    and s: "normalizeSource (ti_source input) = Inr (da_source a)" and h: "trigger_assertHash (ti_payloadHash input) = Inr (da_payloadHash a)"
    by (auto simp: trigger_args_def bindE_eq_Inr Let_def split: if_splits)
  show "da_source a \<noteq> []" using s by (rule normalizeSource_ok)
  show "ti_externalMessageId input \<noteq> []"
    using c by (auto simp: canonicalizeExternalMessageId_def bindE_eq_Inr canonical_text_def trim_def)
  show "HASH_PATTERN (da_payloadHash a)" using h by (auto simp: trigger_assertHash_def split: if_splits)
qed

lemma deriveTriggerInboxId_ok: "\<exists>k. deriveTriggerInboxId sha s c = Inr k \<and> k \<noteq> []"
  by (simp add: deriveTriggerInboxId_def)

text \<open>The transaction for arguments that pass the inbox table's checks, by what the inbox holds.\<close>

definition inbox_id_for :: "(string \<Rightarrow> string) \<Rightarrow> trigger_input \<Rightarrow> delivery_args \<Rightarrow> string res" where
  "inbox_id_for sha input a =
     (case ti_inboxId input of Some i \<Rightarrow> Inr i | None \<Rightarrow> deriveTriggerInboxId sha (da_source a) (da_canonical a))"

definition by_inbox ::
  "(string \<Rightarrow> string) \<Rightarrow> trigger_input \<Rightarrow> delivery_args \<Rightarrow> schedule_row \<Rightarrow> string \<Rightarrow> (jsval wf_db, trigger_result) prog" where
  "by_inbox sha input a schedule k db =
    (case delivery_of db (da_source a) (da_canonical a) of
       None \<Rightarrow> if inbox_of db k \<noteq> None then (Inl SqlError, db)
               else admit sha input a schedule k (db\<lparr>trigger_inbox := trigger_inbox db @ [new_inbox_row input a k]\<rparr>)
     | Some existing \<Rightarrow>
         if i_schedule_id existing \<noteq> ti_scheduleId input then (Inl (ForesiftError WF_TRIGGER_SCHEDULE_MISMATCH), db)
         else if i_status existing = Trig_REJECTED then (Inl (ForesiftError WF_TRIGGER_DELIVERY_REJECTED), db)
         else if i_processed_run_id existing \<noteq> None \<or> i_status existing = Trig_PROCESSED
         then (Inr \<lparr>tr_inboxId = i_inbox_id existing, tr_runId = i_processed_run_id existing,
                 tr_outcome = DUPLICATE_COLLAPSED, tr_duplicate = True, tr_concurrencyPolicy = sc_concurrency_policy schedule\<rparr>,
               db\<lparr>trigger_inbox := sql_update (\<lambda>r. i_inbox_id r = i_inbox_id existing \<and> i_status r = Trig_PROCESSED)
                 (i_status_update (\<lambda>_. Trig_DUPLICATE_COLLAPSED)) (trigger_inbox db)\<rparr>)
         else admit sha input a schedule (i_inbox_id existing) db)"

lemma trigger_tx_insert:
  assumes "trigger_args url input = Inr a" and "da_canonical a \<noteq> []" and "ti_inboxId input \<noteq> Some []"
    and "schedule_of db (ti_scheduleId input) = Some schedule"
  shows "\<exists>k. inbox_id_for sha input a = Inr k \<and> trigger_tx sha input a db = by_inbox sha input a schedule k db"
proof -
  have pol: "parseConcurrencyPolicy (Some (concurrency_policy_text p)) = Inr p" for p
    by (simp add: parseConcurrencyPolicy_def policy_voc.parse_roundtrip)
  from deriveTriggerInboxId_ok [of sha "da_source a" "da_canonical a"] obtain d where
    d: "deriveTriggerInboxId sha (da_source a) (da_canonical a) = Inr d" "d \<noteq> []" by blast
  define k where "k = (case ti_inboxId input of Some i \<Rightarrow> i | None \<Rightarrow> d)"
  have k: "inbox_id_for sha input a = Inr k" "k \<noteq> []"
    using d assms(3) by (auto simp: k_def inbox_id_for_def split: option.splits)
  have ins: "inbox_insert (new_inbox_row input a k) db =
      (if delivery_of db (da_source a) (da_canonical a) \<noteq> None then (Inr False, db)
       else if inbox_of db k \<noteq> None then (Inl SqlError, db)
       else (Inr True, db\<lparr>trigger_inbox := trigger_inbox db @ [new_inbox_row input a k]\<rparr>))"
    using trigger_args_ok [OF assms(1)] assms(2,4) k(2) by (simp add: inbox_insert_def new_inbox_row_def)
  have "trigger_tx sha input a db = by_inbox sha input a schedule k db"
    using assms(4) k(1) ins
    by (auto simp: trigger_tx_def by_inbox_def inbox_id_for_def pol bindP_liftE bindP_run inbox_update_run split: option.splits)
  with k(1) show ?thesis by blast
qed

lemma delivery_is_tx:
  "trigger_args url input = Inr a \<Longrightarrow>
   recordTriggerDeliveryInner sha url input db = transaction (trigger_tx sha input a) db"
  by (simp add: recordTriggerDeliveryInner_def bindP_liftE)

section \<open>Properties\<close>

text \<open>
  C36 (one_run_per_delivery). From an empty inbox, after any sequence of deliveries, accepted or
  refused, and of other work on runs and schedules: an external identity is stored once; a
  delivery that names a run has exactly that run and no other, a delivery that names none has
  no run, and every run stems from exactly one delivery, of its own schedule.
\<close>

theorem one_run_per_delivery:
  assumes "trigger_inbox db = []" and "runs db = []" and "trigger_step\<^sup>*\<^sup>* db db'"
  shows "keys_distinct inbox_key (trigger_inbox db') \<and>
    (\<forall>i \<in> set (trigger_inbox db'). case i_processed_run_id i of
       Some k \<Rightarrow> \<exists>r. filter (\<lambda>r. r_inbox_id r = i_inbox_id i) (runs db') = [r] \<and> r_run_id r = k
     | None \<Rightarrow> filter (\<lambda>r. r_inbox_id r = i_inbox_id i) (runs db') = []) \<and>
    (\<forall>r \<in> set (runs db'). \<exists>!i. i \<in> set (trigger_inbox db') \<and> i_inbox_id i = r_inbox_id r \<and>
       i_schedule_id i = r_schedule_id r \<and> i_processed_run_id i = Some (r_run_id r))"
proof -
  have "trig_inv db" using assms(1,2) by (simp add: trig_inv_def keys_distinct_def)
  then have inv: "trig_inv db'" using assms(3) by (induction rule: rtranclp_induct [OF assms(3)]) (auto intro: step_inv)
  note I = trig_invD [OF inv]
  have run: "filter (\<lambda>r. r_inbox_id r = k) (runs db') = (case row_by r_inbox_id k (runs db') of None \<Rightarrow> [] | Some r \<Rightarrow> [r])" for k
    using filter_row [OF I(4), of k "\<lambda>_. True"] by (simp cong: option.case_cong)
  have "case i_processed_run_id i of
       Some k \<Rightarrow> \<exists>r. filter (\<lambda>r. r_inbox_id r = i_inbox_id i) (runs db') = [r] \<and> r_run_id r = k
     | None \<Rightarrow> filter (\<lambda>r. r_inbox_id r = i_inbox_id i) (runs db') = []" if i: "i \<in> set (trigger_inbox db')" for i
  proof (cases "i_processed_run_id i")
    case None
    have "r_inbox_id r \<noteq> i_inbox_id i" if r: "r \<in> set (runs db')" for r
      using I(6) [OF r] inbox_unique [OF inv i] None by (metis option.distinct(1))
    then show ?thesis using None by (simp add: filter_empty_conv)
  next
    case (Some k)
    from I(5) [OF i Some] obtain r where "r \<in> set (runs db')" "r_run_id r = k" "r_inbox_id r = i_inbox_id i" by blast
    then have "row_by r_inbox_id (i_inbox_id i) (runs db') = Some r" using I(4) by (simp add: row_by_eq_Some_iff)
    then show ?thesis using Some \<open>r_run_id r = k\<close> by (simp add: run)
  qed
  moreover have "\<exists>!i. i \<in> set (trigger_inbox db') \<and> i_inbox_id i = r_inbox_id r \<and>
       i_schedule_id i = r_schedule_id r \<and> i_processed_run_id i = Some (r_run_id r)" if r: "r \<in> set (runs db')" for r
    using I(6) [OF r] inbox_unique [OF inv] by metis
  ultimately show ?thesis using I(2) by blast
qed

text \<open>
  Once a delivery was accepted, whatever happened since (other
  deliveries, runs that ended, a schedule that was paused or got a new version), another
  delivery of the same identity to the same schedule is acknowledged with the same run id as
  a collapsed duplicate, and no run is added or changed.
\<close>

theorem duplicate_delivery_collapses:
  assumes "trig_inv db" and "recordTriggerDeliveryInner sha url input db = (Inr res, db1)"
    and "trigger_step\<^sup>*\<^sup>* db1 db2"
    and "trigger_args url input = Inr a" and "trigger_args url input2 = Inr a2"
    and "da_source a2 = da_source a" and "da_canonical a2 = da_canonical a" and "ti_scheduleId input2 = ti_scheduleId input"
    and "da_canonical a \<noteq> []" and "ti_inboxId input2 \<noteq> Some []" and "schedule_of db2 (ti_scheduleId input) = Some schedule"
    and "recordTriggerDeliveryInner sha url input2 db2 = (res2, db3)"
  shows "\<exists>r2. res2 = Inr r2 \<and> tr_runId res \<noteq> None \<and> tr_runId r2 = tr_runId res \<and> tr_outcome r2 = DUPLICATE_COLLAPSED \<and>
    tr_duplicate r2 \<and> runs db3 = runs db2"
proof -
  from assms(2,1,4) obtain k where k: "tr_runId res = Some k" "settled db1 (da_source a) (da_canonical a) (ti_scheduleId input) k"
    by (rule accepted_settled)
  have "trig_inv db1" by (rule delivery_inv [OF assms(2,1)])
  then have "settled db2 (da_source a) (da_canonical a) (ti_scheduleId input) k"
    using steps_settled [OF assms(3) _ k(2)] by blast
  then obtain i where i: "delivery_of db2 (da_source a) (da_canonical a) = Some i" "i_schedule_id i = ti_scheduleId input"
    "i_processed_run_id i = Some k" "i_status i \<noteq> Trig_REJECTED" by (auto simp: settled_def)
  have c: "da_canonical a2 \<noteq> []" using assms(7,9) by simp
  have sch: "schedule_of db2 (ti_scheduleId input2) = Some schedule" using assms(8,11) by simp
  obtain k' where "trigger_tx sha input2 a2 db2 = by_inbox sha input2 a2 schedule k' db2"
    using trigger_tx_insert [OF assms(5) c assms(10) sch] by blast
  then show ?thesis
    using assms(6-8,12) i k(1) unfolding delivery_is_tx [OF assms(5)] by (auto simp: by_inbox_def transaction_ok)
qed

text \<open>
  An accepted delivery that is no duplicate adds exactly one run,
  for its schedule, and the active runs of the schedule are then what the resolved policy
  says: under \<open>SKIP_IF_RUNNING\<close> a busy schedule keeps its active runs and the new run is
  cancelled at birth, so at most one run is ever active; under \<open>CANCEL_PREVIOUS\<close> the new run is
  the only active one; otherwise it joins the active ones. Other schedules are not affected.
\<close>

theorem concurrency_policy_enforced:
  assumes "trig_inv db" and "recordTriggerDeliveryInner sha url input db = (Inr res, db')" and "\<not> tr_duplicate res"
  shows "\<exists>new. tr_runId res = Some (r_run_id new) \<and> r_schedule_id new = ti_scheduleId input \<and>
    run_of db (r_run_id new) = None \<and> map run_identity (runs db') = map run_identity (runs db) @ [run_identity new] \<and>
    (case tr_concurrencyPolicy res of
       SKIP_IF_RUNNING \<Rightarrow> if active_runs db (ti_scheduleId input) \<noteq> []
         then tr_outcome res = POLICY_SKIPPED \<and> r_status new = Run_CANCELLED \<and>
              active_runs db' (ti_scheduleId input) = active_runs db (ti_scheduleId input)
         else tr_outcome res = RUN_STARTED \<and> active_runs db' (ti_scheduleId input) = [new]
     | CANCEL_PREVIOUS \<Rightarrow> tr_outcome res = RUN_STARTED \<and> active_runs db' (ti_scheduleId input) = [new]
     | _ \<Rightarrow> tr_outcome res = RUN_STARTED \<and>
            active_runs db' (ti_scheduleId input) = active_runs db (ti_scheduleId input) @ [new]) \<and>
    (\<forall>s. s \<noteq> ti_scheduleId input \<longrightarrow> active_runs db' s = active_runs db s)"
  using assms(2,1)
proof (cases rule: delivery_ok)
  case duplicate
  then show ?thesis using assms(3) by simp
next
  case (admitted a i schedule policy row db0)
  let ?sid = "ti_scheduleId input"
  have same: "runs db0 = runs db" using admitted(9) by auto
  then have act0: "active_runs db0 s = active_runs db s" for s by (simp add: active_runs_def)
  let ?busy = "active_runs db ?sid \<noteq> []" and ?skipped = "active_runs db ?sid \<noteq> [] \<and> policy = SKIP_IF_RUNNING"
  from admitted(11) have row: "r_schedule_id row = ?sid" "r_status row = (if ?skipped then Run_CANCELLED else Run_PENDING)"
    "run_of db (r_run_id row) = None" "tr_runId res = Some (r_run_id row)" "tr_concurrencyPolicy res = policy"
    "tr_outcome res = (if ?skipped then POLICY_SKIPPED else RUN_STARTED)"
    "runs db' = after_cancel ?sid (da_receivedAt a) (?busy \<and> policy = CANCEL_PREVIOUS) (runs db) @ [row]"
    unfolding admitted_def Let_def act0 same by simp_all
  have cancelled: "filter (\<lambda>r. r_schedule_id r = s \<and> active r) (after_cancel ?sid t b rows) =
      (if b \<and> s = ?sid then [] else filter (\<lambda>r. r_schedule_id r = s \<and> active r) rows)" for s t b rows
    by (induction rows) (auto simp: after_cancel_def active_def)
  have act: "active_runs db' s = (if ?busy \<and> policy = CANCEL_PREVIOUS \<and> s = ?sid then [] else active_runs db s) @
      (if s = ?sid \<and> \<not> ?skipped then [row] else [])" for s
    unfolding active_runs_def row(7) filter_append cancelled using row(1,2) by (auto simp: active_def active_runs_def)
  have "map run_identity (runs db') = map run_identity (runs db) @ [run_identity row]" unfolding row(7) by simp
  then show ?thesis
    by (intro exI [of _ row]) (use row(1-6) act in \<open>auto split: concurrency_policy.split\<close>)
qed

text \<open>
  Deliveries fail closed and leave no trace. With valid arguments: an
  unknown schedule is not found; an identity that was delivered to another schedule is refused
  as a mismatch, never collapsed onto that schedule's run; a rejected identity stays rejected;
  and a new identity (with a free inbox id) on a paused, disabled or draft schedule is refused with that reason.
  Every refusal, typed or not, leaves the store exactly as it was.
\<close>

theorem trigger_refusals:
  assumes "recordTriggerDeliveryInner sha url input db = (res, db')" and "trigger_args url input = Inr a"
    and "da_canonical a \<noteq> []" and "ti_inboxId input \<noteq> Some []"
  shows "(\<forall>e. res = Inl e \<longrightarrow> db' = db) \<and>
    (schedule_of db (ti_scheduleId input) = None \<longrightarrow> res = Inl (ForesiftError WF_SCHEDULE_NOT_FOUND)) \<and>
    (\<forall>schedule i. schedule_of db (ti_scheduleId input) = Some schedule \<and> delivery_of db (da_source a) (da_canonical a) = Some i \<longrightarrow>
       (i_schedule_id i \<noteq> ti_scheduleId input \<longrightarrow> res = Inl (ForesiftError WF_TRIGGER_SCHEDULE_MISMATCH)) \<and>
       (i_schedule_id i = ti_scheduleId input \<and> i_status i = Trig_REJECTED \<longrightarrow>
          res = Inl (ForesiftError WF_TRIGGER_DELIVERY_REJECTED))) \<and>
    (\<forall>schedule. schedule_of db (ti_scheduleId input) = Some schedule \<and> sc_status schedule \<noteq> Sched_ACTIVE \<and>
       delivery_of db (da_source a) (da_canonical a) = None \<and>
       (\<forall>k. inbox_id_for sha input a = Inr k \<longrightarrow> inbox_of db k = None) \<longrightarrow>
       res = Inl (ForesiftError (case sc_status schedule of Sched_PAUSED \<Rightarrow> WF_SCHEDULE_PAUSED
          | Sched_DISABLED \<Rightarrow> WF_SCHEDULE_DISABLED | _ \<Rightarrow> WF_SCHEDULE_NOT_ACTIVE)))"
proof -
  have tx: "(res, db') = transaction (trigger_tx sha input a) db"
    using assms(1) unfolding delivery_is_tx [OF assms(2)] by simp
  have res: "res = fst (trigger_tx sha input a db)"
    using tx by (cases "trigger_tx sha input a db") (auto simp: transaction_def split: sum.splits)
  have none: "res = Inl (ForesiftError WF_SCHEDULE_NOT_FOUND)" if "schedule_of db (ti_scheduleId input) = None"
    using tx that by (simp add: trigger_tx_def transaction_def)
  have tx_of: "\<exists>k. inbox_id_for sha input a = Inr k \<and> res = fst (by_inbox sha input a schedule k db)"
    if "schedule_of db (ti_scheduleId input) = Some schedule" for schedule
    using trigger_tx_insert [OF assms(2-4) that, of sha] res by auto
  have known: "res = Inl (ForesiftError WF_TRIGGER_SCHEDULE_MISMATCH)" if "schedule_of db (ti_scheduleId input) = Some schedule"
      "delivery_of db (da_source a) (da_canonical a) = Some i" "i_schedule_id i \<noteq> ti_scheduleId input" for schedule i
    using tx_of [OF that(1)] that(2,3) by (auto simp: by_inbox_def)
  have rejected: "res = Inl (ForesiftError WF_TRIGGER_DELIVERY_REJECTED)" if "schedule_of db (ti_scheduleId input) = Some schedule"
      "delivery_of db (da_source a) (da_canonical a) = Some i" "i_schedule_id i = ti_scheduleId input" "i_status i = Trig_REJECTED" for schedule i
    using tx_of [OF that(1)] that(2-4) by (auto simp: by_inbox_def)
  have inactive: "res = Inl (ForesiftError (case sc_status schedule of Sched_PAUSED \<Rightarrow> WF_SCHEDULE_PAUSED
          | Sched_DISABLED \<Rightarrow> WF_SCHEDULE_DISABLED | _ \<Rightarrow> WF_SCHEDULE_NOT_ACTIVE))"
    if "schedule_of db (ti_scheduleId input) = Some schedule" "sc_status schedule \<noteq> Sched_ACTIVE"
      "delivery_of db (da_source a) (da_canonical a) = None"
      "\<forall>k. inbox_id_for sha input a = Inr k \<longrightarrow> inbox_of db k = None" for schedule
  proof -
    have "res = Inl (refuseInactiveSchedule (sc_status schedule))"
      using tx_of [OF that(1)] that(2-4) by (auto simp: by_inbox_def admit_def)
    then show ?thesis using that(2) by (cases "sc_status schedule") (simp_all add: refuseInactiveSchedule_def)
  qed
  show ?thesis
  proof (intro conjI allI impI)
    show "db' = db" if "res = Inl e" for e using delivery_refused assms(1) that by blast
    show "res = Inl (ForesiftError WF_SCHEDULE_NOT_FOUND)" if "schedule_of db (ti_scheduleId input) = None"
      using that by (rule none)
    show "res = Inl (ForesiftError WF_TRIGGER_SCHEDULE_MISMATCH)"
      if "schedule_of db (ti_scheduleId input) = Some schedule \<and> delivery_of db (da_source a) (da_canonical a) = Some i"
        "i_schedule_id i \<noteq> ti_scheduleId input" for schedule i
      using known [of schedule i] that by simp
    show "res = Inl (ForesiftError WF_TRIGGER_DELIVERY_REJECTED)"
      if "schedule_of db (ti_scheduleId input) = Some schedule \<and> delivery_of db (da_source a) (da_canonical a) = Some i"
        "i_schedule_id i = ti_scheduleId input \<and> i_status i = Trig_REJECTED" for schedule i
      using rejected [of schedule i] that by simp
  qed (elim conjE, rule inactive)
qed

section \<open>Canonical identities\<close>

lemma js_space_blank [simp]: "js_space (CHR '' '')"
  by (simp add: js_space_def)

lemma collapse_Cons:
  "collapse_spaces (c # cs) =
     (if js_space c then if cs \<noteq> [] \<and> js_space (hd cs) then collapse_spaces cs else CHR '' '' # collapse_spaces cs
      else c # collapse_spaces cs)"
  by (cases cs) simp_all

declare collapse_spaces.simps(2) [simp del]

lemma collapse_empty [simp]: "collapse_spaces s = [] \<longleftrightarrow> s = []"
  by (induction s) (auto simp: collapse_Cons)

lemma collapse_hd: "s \<noteq> [] \<Longrightarrow> js_space (hd (collapse_spaces s)) \<longleftrightarrow> js_space (hd s)"
  by (induction s) (auto simp: collapse_Cons)

lemma collapse_last: "s \<noteq> [] \<Longrightarrow> js_space (last (collapse_spaces s)) \<longleftrightarrow> js_space (last s)"
  by (induction s) (auto simp: collapse_Cons)

lemma collapse_chars: "c \<in> set (collapse_spaces s) \<Longrightarrow> c = CHR '' '' \<or> c \<in> set s \<and> \<not> js_space c"
  by (induction s) (auto simp: collapse_Cons split: if_splits)

definition spaced :: "string \<Rightarrow> bool" where
  "spaced s \<longleftrightarrow> successively (\<lambda>a b. \<not> (js_space a \<and> js_space b)) s \<and> (\<forall>c \<in> set s. js_space c \<longrightarrow> c = CHR '' '')"

lemma spaced_Cons:
  "spaced (c # s) \<longleftrightarrow> (js_space c \<longrightarrow> c = CHR '' '' \<and> (s = [] \<or> \<not> js_space (hd s))) \<and> spaced s"
  by (auto simp: spaced_def successively_Cons)

lemma collapse_spaced: "spaced (collapse_spaces s)"
proof (induction s)
  case (Cons c cs)
  have "cs \<noteq> [] \<Longrightarrow> js_space (hd (collapse_spaces cs)) = js_space (hd cs)" by (rule collapse_hd)
  with Cons show ?case by (auto simp: collapse_Cons spaced_Cons)
qed (simp add: spaced_def)

lemma spaced_collapse: "spaced s \<Longrightarrow> collapse_spaces s = s"
  by (induction s) (auto simp: collapse_Cons spaced_Cons)

text \<open>The normal form of a message id.\<close>

definition normal_id :: "string \<Rightarrow> bool" where
  "normal_id s \<longleftrightarrow> spaced s \<and> (\<forall>c \<in> set s. \<not> control_char c) \<and> (s \<noteq> [] \<longrightarrow> \<not> js_space (hd s) \<and> \<not> js_space (last s))"

lemma trim_ends: "trim s \<noteq> [] \<Longrightarrow> \<not> js_space (hd (trim s)) \<and> \<not> js_space (last (trim s))"
proof -
  let ?t = "dropWhile js_space s"
  assume ne: "trim s \<noteq> []"
  have t: "?t \<noteq> []"
  proof
    assume "?t = []"
    then have "trim s = []" by (simp only: trim_def rev.simps dropWhile.simps)
    with ne show False by simp
  qed
  have ne': "dropWhile js_space (rev ?t) \<noteq> []" using ne unfolding trim_def by (metis rev.simps(1))
  have "last (trim s) = hd (dropWhile js_space (rev ?t))" unfolding trim_def by (simp only: last_rev)
  moreover have "\<not> js_space (hd (dropWhile js_space (rev ?t)))" by (rule hd_dropWhile [OF ne'])
  moreover have "hd (trim s) = hd ?t"
  proof -
    obtain u where "rev ?t = u @ dropWhile js_space (rev ?t)" by (metis takeWhile_dropWhile_id)
    then have "?t = trim s @ rev u" unfolding trim_def by (metis rev_append rev_rev_ident)
    then show ?thesis using ne by (metis hd_append2)
  qed
  ultimately show ?thesis using hd_dropWhile [OF t] by simp
qed

lemma trim_id: "s \<noteq> [] \<Longrightarrow> \<not> js_space (hd s) \<Longrightarrow> \<not> js_space (last s) \<Longrightarrow> trim s = s"
proof -
  assume a: "s \<noteq> []" "\<not> js_space (hd s)" "\<not> js_space (last s)"
  then have "dropWhile js_space s = s" by (cases s) auto
  moreover have "dropWhile js_space (rev s) = rev s" using a by (cases s rule: rev_cases) auto
  ultimately show ?thesis by (simp add: trim_def)
qed

lemma trim_set: "set (trim s) \<subseteq> set s"
  unfolding trim_def by (metis set_dropWhileD set_rev subsetI)

lemma canonical_text_normal: "normal_id (canonical_text s)"
proof -
  let ?r = "map (\<lambda>c. if control_char c then CHR '' '' else c) s"
  have ctl: "\<not> control_char c" if "c \<in> set (collapse_spaces (trim ?r))" for c
    using collapse_chars [OF that] trim_set [of ?r] by (auto simp: control_char_def split: if_splits)
  show ?thesis unfolding normal_id_def canonical_text_def
    using collapse_spaced ctl trim_ends [of ?r] collapse_hd [of "trim ?r"] collapse_last [of "trim ?r"] by auto
qed

lemma normal_text: "normal_id s \<Longrightarrow> canonical_text s = s"
proof -
  assume n: "normal_id s"
  then have "map (\<lambda>c. if control_char c then CHR '' '' else c) s = s" by (auto simp: normal_id_def intro: map_idI)
  moreover have "trim s = s" using n trim_id by (cases "s = []") (auto simp: normal_id_def trim_def)
  ultimately show ?thesis using n by (simp add: canonical_text_def normal_id_def spaced_collapse)
qed

text \<open>Lower-cased UUIDs and digests are normal ids of the same shape.\<close>

lemma hex_digit_i_lower:
  assumes "hex_digit_i c"
  shows "hex_digit_i (lower_char c)" and "lower_char (lower_char c) = lower_char c"
    and "\<not> js_space (lower_char c)" and "\<not> control_char (lower_char c)" and "lower_char c \<noteq> CHR '':''"
proof -
  let ?d = "lower_char c"
  have d: "hex_digit ?d" using assms by (simp add: hex_digit_i_def)
  then show id: "lower_char ?d = ?d" by (auto simp: lower_char_def hex_digit_def Let_def)
  show "hex_digit_i ?d" using d id by (auto simp: hex_digit_i_def hex_digit_def Let_def)
  show "\<not> js_space ?d" "\<not> control_char ?d" using d by (auto simp: js_space_def control_char_def hex_digit_def Let_def)
  show "?d \<noteq> CHR '':''" using d by (auto simp: hex_digit_def Let_def)
qed

definition hex_or_dash :: "char \<Rightarrow> bool" where
  "hex_or_dash c \<longleftrightarrow> hex_digit_i c \<or> c = CHR ''-''"

lemma pattern_chars: "UUID_PATTERN s \<or> HEX_DIGEST_PATTERN s \<Longrightarrow> c \<in> set s \<Longrightarrow> hex_or_dash c"
  unfolding UUID_PATTERN_def HEX_DIGEST_PATTERN_def hex_or_dash_def list_all_iff by (metis in_set_conv_nth)

lemma lower_dash [simp]: "lower_char (CHR ''-'') = CHR ''-''"
  by (simp add: lower_char_def)

lemma hex_or_dash_lower:
  assumes "hex_or_dash c"
  shows "lower_char (lower_char c) = lower_char c" and "\<not> js_space (lower_char c)" and "\<not> control_char (lower_char c)"
    and "lower_char c \<noteq> CHR '':''"
  using assms hex_digit_i_lower [of c] by (auto simp: hex_or_dash_def js_space_def control_char_def)

lemma url_colon: "looks_like_url s \<Longrightarrow> CHR '':'' \<in> set s"
proof -
  assume u: "looks_like_url s"
  then obtain c t where s: "s = c # t" by (cases s) (auto simp: looks_like_url_def)
  with u have "CHR '':'' \<in> set (take 3 (dropWhile scheme_char t))" by (simp add: looks_like_url_def)
  then have "CHR '':'' \<in> set (dropWhile scheme_char t)" by (rule in_set_takeD)
  then have "CHR '':'' \<in> set t" by (rule set_dropWhileD)
  then show ?thesis by (simp add: s)
qed

lemma lower_normal:
  assumes "\<And>c. c \<in> set s \<Longrightarrow> hex_or_dash c"
  shows "normal_id (toLowerCase s)" and "toLowerCase (toLowerCase s) = toLowerCase s" and "\<not> looks_like_url (toLowerCase s)"
proof -
  have no: "\<not> js_space c" "\<not> control_char c" "c \<noteq> CHR '':''" if "c \<in> set (toLowerCase s)" for c
    using that assms hex_or_dash_lower by (auto simp: toLowerCase_def)
  have "spaced t" if "\<forall>c \<in> set t. \<not> js_space c" for t using that
    by (induction t) (simp_all add: spaced_Cons, simp add: spaced_def)
  then show "normal_id (toLowerCase s)" using no(1,2) by (auto simp: normal_id_def)
  show "toLowerCase (toLowerCase s) = toLowerCase s" using assms hex_or_dash_lower(1) by (simp add: toLowerCase_def)
  show "\<not> looks_like_url (toLowerCase s)"
  proof
    assume "looks_like_url (toLowerCase s)"
    then show False using no(3) url_colon by blast
  qed
qed

lemma pattern_lower:
  "UUID_PATTERN s \<Longrightarrow> UUID_PATTERN (toLowerCase s)" "HEX_DIGEST_PATTERN s \<Longrightarrow> HEX_DIGEST_PATTERN (toLowerCase s)"
  using hex_digit_i_lower(1) by (auto simp: UUID_PATTERN_def HEX_DIGEST_PATTERN_def toLowerCase_def list_all_iff)

text \<open>
  The canonical form of a message id that is not a URL is never
  empty, holds no control character, no leading, trailing or doubled white space, and is a fixed
  point of canonicalization, so an identity that was canonicalized twice is still the same
  identity; ids that differ only in letter case share a canonical form when they are UUIDs or
  content digests.
\<close>

theorem canonical_identity_stable:
  assumes "canonicalizeExternalMessageId url source x = Inr c" and "\<not> looks_like_url (canonical_text x)"
  shows "c \<noteq> [] \<and> normal_id c \<and> canonicalizeExternalMessageId url source c = Inr c \<and>
    (\<forall>y. (UUID_PATTERN (canonical_text y) \<or> HEX_DIGEST_PATTERN (canonical_text y)) \<and>
       toLowerCase (canonical_text y) = toLowerCase (canonical_text x) \<and>
       (UUID_PATTERN (canonical_text x) \<or> HEX_DIGEST_PATTERN (canonical_text x)) \<longrightarrow>
       canonicalizeExternalMessageId url source y = Inr c)"
proof -
  let ?t = "canonical_text x" and ?pat = "\<lambda>s. UUID_PATTERN s \<or> HEX_DIGEST_PATTERN s"
  have src: "\<exists>v. normalizeSource source = Inr v" and ne: "?t \<noteq> []" and c: "c = (if ?pat ?t then toLowerCase ?t else ?t)"
    using assms by (auto simp: canonicalizeExternalMessageId_def bindE_eq_Inr Let_def split: if_splits)
  have url: "\<not> looks_like_url s" if "?pat s" for s
  proof
    assume u: "looks_like_url s"
    then have "hex_or_dash (CHR '':'')" using pattern_chars [OF that] url_colon by blast
    then show False by (simp add: hex_or_dash_def hex_digit_i_def hex_digit_def lower_char_def)
  qed
  have canon: "canonicalizeExternalMessageId url source s = Inr (if ?pat (canonical_text s) then toLowerCase (canonical_text s) else canonical_text s)"
    if "canonical_text s \<noteq> []" "\<not> looks_like_url (canonical_text s)" for s
    using src that by (auto simp: canonicalizeExternalMessageId_def Let_def)
  have "normal_id (toLowerCase ?t)" if "?pat ?t" by (rule lower_normal(1)) (rule pattern_chars [OF that])
  then have norm: "normal_id c \<and> c \<noteq> []" using ne canonical_text_normal unfolding c by (simp add: toLowerCase_def)
  have again: "canonicalizeExternalMessageId url source c = Inr c"
  proof (cases "?pat ?t")
    case True
    note low = lower_normal [OF pattern_chars [OF True]]
    have "?pat c" using True pattern_lower c by auto
    then show ?thesis using canon [of c] norm normal_text low c True by simp
  next
    case False
    then show ?thesis using canon [of c] norm normal_text assms(2) c by simp
  qed
  have same: "canonicalizeExternalMessageId url source y = Inr c"
    if y: "?pat (canonical_text y)" "toLowerCase (canonical_text y) = toLowerCase ?t" "?pat ?t" for y
  proof -
    have "canonical_text y \<noteq> []" using y(2) ne by (auto simp: toLowerCase_def)
    then show ?thesis using canon url y c by simp
  qed
  show ?thesis using norm again same by blast
qed

section \<open>Worked example\<close>

text \<open>An active schedule that skips while it runs; two messages, the first delivered twice.\<close>

definition demo_version :: "jsval version_row" where
  "demo_version = \<lparr>v_version_id = ''v1'', v_schedule_id = ''s1'', v_config_hash = demo_hash, v_resolved_config = JsObj [],
     v_shadow = False, v_superseded_by = None, v_created_at = 0\<rparr>"

definition demo_schedule :: schedule_row where
  "demo_schedule = \<lparr>sc_schedule_id = ''s1'', sc_name = ''scan'', sc_concurrency_policy = SKIP_IF_RUNNING,
     sc_status = Sched_ACTIVE, sc_current_version_id = Some ''v1'', sc_created_at = 0, sc_updated_at = 0\<rparr>"

definition demo_scheduled :: "jsval wf_db" where
  "demo_scheduled = empty_db\<lparr>schedules := [demo_schedule], schedule_versions := [demo_version]\<rparr>"

definition demo_trigger :: "string \<Rightarrow> trigger_input" where
  "demo_trigger m = \<lparr>ti_source = ''q'', ti_externalMessageId = m, ti_scheduleId = ''s1'', ti_scheduledFor = Some 5,
     ti_payloadHash = demo_hash, ti_receivedAt = Some 6, ti_verifiedAt = None, ti_workloadKind = None,
     ti_deadlineMs = None, ti_inboxId = Some (''i'' @ m), ti_runId = Some (''r'' @ m)\<rparr>"

definition no_url :: "string \<Rightarrow> (string \<times> string) option" where
  "no_url s = None"

definition demo_args :: "string \<Rightarrow> delivery_args" where
  "demo_args m = \<lparr>da_source = ''q'', da_canonical = m, da_payloadHash = demo_hash, da_scheduledFor = 5, da_receivedAt = 6,
     da_verifiedAt = 6, da_deadlineMs = Fin 900000\<rparr>"

lemma demo_canonical: "canonicalizeExternalMessageId no_url ''q'' ''m'' = Inr ''m''" "normalizeSource ''q'' = Inr ''q''"
  "canonical_text ''m'' = ''m''"
proof -
  have b: "\<not> blank ''q''" by (simp add: blank_iff js_space_def)
  show q: "normalizeSource ''q'' = Inr ''q''" using b
    by (simp add: normalizeSource_def trim_def js_space_def toLowerCase_def lower_char_def)
  show t: "canonical_text ''m'' = ''m''"
    by (simp add: canonical_text_def control_char_def trim_def js_space_def collapse_Cons)
  have u: "\<not> UUID_PATTERN ''m''" "\<not> HEX_DIGEST_PATTERN ''m''" "\<not> looks_like_url ''m''"
    by (simp_all add: UUID_PATTERN_def HEX_DIGEST_PATTERN_def looks_like_url_def)
  then show "canonicalizeExternalMessageId no_url ''q'' ''m'' = Inr ''m''"
    using q t by (simp add: canonicalizeExternalMessageId_def)
qed

lemma demo_args_ok: "trigger_args no_url (demo_trigger ''m'') = Inr (demo_args ''m'')"
  by (simp add: trigger_args_def demo_trigger_def demo_canonical trigger_assertHash_def assertTimestamp_def
      DEFAULT_RUN_DEADLINE_MS_def js_le_def js_eq_def demo_args_def)

lemma demo_deadline: "addMilliseconds 6 (Fin 900000) = Inr 900006"
  using date_add_int [of 6 900000] by (simp add: addMilliseconds_def)

lemma demo_trigger_run:
  "\<exists>res db'. recordTriggerDeliveryInner no_sha no_url (demo_trigger ''m'') demo_scheduled = (Inr res, db') \<and>
     \<not> tr_duplicate res \<and> tr_runId res = Some ''rm'' \<and> tr_concurrencyPolicy res = SKIP_IF_RUNNING \<and>
     schedules db' = [demo_schedule]"
proof -
  have pol: "parseConcurrencyPolicy (Some ''SKIP_IF_RUNNING'') = Inr SKIP_IF_RUNNING"
    using policy_voc.parse_roundtrip [of SKIP_IF_RUNNING] by (simp add: parseConcurrencyPolicy_def)
  have deadline: "addMilliseconds (da_receivedAt (demo_args ''m'')) (da_deadlineMs (demo_args ''m'')) = Inr 900006"
    using demo_deadline by (simp add: demo_args_def)
  have "\<exists>res db'. trigger_tx no_sha (demo_trigger ''m'') (demo_args ''m'') demo_scheduled = (Inr res, db') \<and>
     \<not> tr_duplicate res \<and> tr_runId res = Some ''rm'' \<and> tr_concurrencyPolicy res = SKIP_IF_RUNNING \<and>
     schedules db' = [demo_schedule]"
    by (simp add: trigger_tx_def demo_scheduled_def empty_db_def demo_trigger_def demo_schedule_def pol bindP_run
        inbox_insert_def new_inbox_row_def demo_args_def admit_def demo_version_def resolveConcurrencyPolicy_def jsprop_def
        active_runs_def start_run_def demo_deadline create_run_def run_insert_def new_run_row_def inbox_update_run)
  then show ?thesis unfolding delivery_is_tx [OF demo_args_ok] using transaction_ok by metis
qed

lemma demo_scheduled_inv: "trig_inv demo_scheduled"
  by (simp add: trig_inv_def demo_scheduled_def empty_db_def keys_distinct_def)

theorem one_run_per_delivery_witness:
  "\<exists>res db'. recordTriggerDeliveryInner no_sha no_url (demo_trigger ''m'') demo_scheduled = (Inr res, db') \<and>
     keys_distinct inbox_key (trigger_inbox db')"
proof -
  obtain res db' where run: "recordTriggerDeliveryInner no_sha no_url (demo_trigger ''m'') demo_scheduled = (Inr res, db')"
    using demo_trigger_run by blast
  have e: "trigger_inbox demo_scheduled = []" "runs demo_scheduled = []" by (simp_all add: demo_scheduled_def empty_db_def)
  have "keys_distinct inbox_key (trigger_inbox db')"
    using one_run_per_delivery [OF e r_into_rtranclp, OF trigger_step.deliver [OF run]] by (elim conjE)
  with run show ?thesis by blast
qed

theorem duplicate_delivery_collapses_witness:
  "\<exists>res db1 r2 db2. recordTriggerDeliveryInner no_sha no_url (demo_trigger ''m'') demo_scheduled = (Inr res, db1) \<and>
     recordTriggerDeliveryInner no_sha no_url (demo_trigger ''m'') db1 = (Inr r2, db2) \<and> tr_runId r2 = tr_runId res \<and>
     tr_duplicate r2 \<and> runs db2 = runs db1"
proof -
  obtain res db1 where run: "recordTriggerDeliveryInner no_sha no_url (demo_trigger ''m'') demo_scheduled = (Inr res, db1)"
    and sch: "schedules db1 = [demo_schedule]" using demo_trigger_run by blast
  obtain res2 db2 where again: "recordTriggerDeliveryInner no_sha no_url (demo_trigger ''m'') db1 = (res2, db2)" by fastforce
  have "schedule_of db1 (ti_scheduleId (demo_trigger ''m'')) = Some demo_schedule" using sch by (simp add: demo_schedule_def demo_trigger_def)
  from duplicate_delivery_collapses [OF demo_scheduled_inv run rtranclp.rtrancl_refl demo_args_ok demo_args_ok refl refl refl _ _ this again]
  obtain r2 where "res2 = Inr r2" "tr_runId r2 = tr_runId res" "tr_duplicate r2" "runs db2 = runs db1"
    by (auto simp: demo_args_def demo_trigger_def)
  with run again show ?thesis by metis
qed

theorem concurrency_policy_enforced_witness:
  "\<exists>res db' new. recordTriggerDeliveryInner no_sha no_url (demo_trigger ''m'') demo_scheduled = (Inr res, db') \<and>
     tr_outcome res = RUN_STARTED \<and> active_runs db' ''s1'' = [new]"
proof -
  obtain res db' where run: "recordTriggerDeliveryInner no_sha no_url (demo_trigger ''m'') demo_scheduled = (Inr res, db')"
    "\<not> tr_duplicate res" "tr_concurrencyPolicy res = SKIP_IF_RUNNING" using demo_trigger_run by blast
  have "active_runs demo_scheduled ''s1'' = []" "ti_scheduleId (demo_trigger ''m'') = ''s1''"
    by (simp_all add: active_runs_def demo_scheduled_def empty_db_def demo_trigger_def)
  then show ?thesis using concurrency_policy_enforced [OF demo_scheduled_inv run(1,2)] run(1,3) by auto
qed

theorem trigger_refusals_witness:
  "recordTriggerDeliveryInner no_sha no_url (demo_trigger ''m'') empty_db = (Inl (ForesiftError WF_SCHEDULE_NOT_FOUND), empty_db)"
proof -
  obtain res db' where run: "recordTriggerDeliveryInner no_sha no_url (demo_trigger ''m'') empty_db = (res, db')" by fastforce
  have "da_canonical (demo_args ''m'') \<noteq> []" "ti_inboxId (demo_trigger ''m'') \<noteq> Some []"
    "schedule_of (empty_db :: jsval wf_db) (ti_scheduleId (demo_trigger ''m'')) = None"
    by (simp_all add: demo_args_def demo_trigger_def empty_db_def)
  then show ?thesis using trigger_refusals [OF run demo_args_ok] run by simp
qed

theorem canonical_identity_stable_witness:
  "canonicalizeExternalMessageId no_url ''q'' ''m'' = Inr ''m'' \<and> normal_id ''m''"
proof -
  have "\<not> looks_like_url (canonical_text ''m'')" unfolding demo_canonical(3) by (simp add: looks_like_url_def)
  then show ?thesis using canonical_identity_stable [OF demo_canonical(1)] demo_canonical(1) by simp
qed

end
