(* ===== verification/ConstantProduct.thy ===== *)
theory ConstantProduct
  imports PoolAdapter "HOL-Library.Signed_Division"
begin

text \<open>
  The exact constant-product adapter of packages/pool-math/src/constant-product.ts. Amounts are
  \<open>bigint\<close>, that is \<open>int\<close>; \<open>bigint\<close> division truncates towards zero (\<open>sdiv\<close>, \<open>smod\<close>). The price
  impact is computed in binary64 arithmetic (JsNumber). A thrown \<open>RangeError\<close> is a value.
\<close>

section \<open>Conversions\<close>

text \<open>
  \<open>BigInt(text)\<close>: white space around the literal is ignored, the empty literal is 0; a decimal
  literal may carry a sign, the radix-prefixed ones may not; everything else is a \<open>SyntaxError\<close>.
\<close>

definition digit_value :: "char \<Rightarrow> nat" where
  "digit_value c = (let n = of_char c :: nat in
     if 48 \<le> n \<and> n \<le> 57 then n - 48
     else if 97 \<le> n \<and> n \<le> 122 then n - 87
     else if 65 \<le> n \<and> n \<le> 90 then n - 55
     else 36)"

definition parse_digits :: "nat \<Rightarrow> string \<Rightarrow> int res" where
  "parse_digits base s =
     (if s \<noteq> [] \<and> list_all (\<lambda>c. digit_value c < base) s
      then Inr (int (foldl (\<lambda>acc c. acc * base + digit_value c) 0 s)) else Inl SyntaxError)"

definition js_BigInt :: "string \<Rightarrow> int res" where
  "js_BigInt s = (case trim s of
     [] \<Rightarrow> Inr 0
   | c # rest \<Rightarrow>
       if c = CHR ''0'' \<and> rest \<noteq> [] \<and> hd rest \<in> {CHR ''x'', CHR ''X''} then parse_digits 16 (tl rest)
       else if c = CHR ''0'' \<and> rest \<noteq> [] \<and> hd rest \<in> {CHR ''o'', CHR ''O''} then parse_digits 8 (tl rest)
       else if c = CHR ''0'' \<and> rest \<noteq> [] \<and> hd rest \<in> {CHR ''b'', CHR ''B''} then parse_digits 2 (tl rest)
       else if c = CHR ''-'' then bindE (parse_digits 10 rest) (\<lambda>n. Inr (- n))
       else if c = CHR ''+'' then parse_digits 10 rest
       else parse_digits 10 (c # rest))"

text \<open>\<open>BigInt(number)\<close> of an integral number.\<close>

fun big_of_num :: "jsnum \<Rightarrow> int" where
  "big_of_num (Fin a) = \<lfloor>a\<rfloor>"
| "big_of_num _ = 0"

section \<open>The curve\<close>

definition requirePositive :: "int \<Rightarrow> int res" where
  "requirePositive v = (if v \<le> 0 then Inl RangeError else Inr v)"

definition requireBps :: "jsnum \<Rightarrow> jsnum res" where
  "requireBps feeBps =
     (if \<not> js_isInteger feeBps \<or> js_lt feeBps (Fin 0) \<or> js_lt (Fin 10000) feeBps
      then Inl RangeError else Inr feeBps)"

definition applyFee :: "int \<Rightarrow> jsnum \<Rightarrow> int res" where
  "applyFee amountIn feeBps =
     bindE (requirePositive amountIn) (\<lambda>_.
     bindE (requireBps feeBps) (\<lambda>bps.
     Inr ((amountIn * (10000 - big_of_num bps)) sdiv 10000)))"

definition constantProductOut :: "int \<Rightarrow> int \<Rightarrow> int \<Rightarrow> int res" where
  "constantProductOut amountInAfterFee reserveIn reserveOut =
     bindE (requirePositive amountInAfterFee) (\<lambda>_.
     bindE (requirePositive reserveIn) (\<lambda>_.
     bindE (requirePositive reserveOut) (\<lambda>_.
     Inr ((amountInAfterFee * reserveOut) sdiv (reserveIn + amountInAfterFee)))))"

definition constantProductIn :: "int \<Rightarrow> int \<Rightarrow> int \<Rightarrow> int res" where
  "constantProductIn amountOut reserveIn reserveOut =
     bindE (requirePositive amountOut) (\<lambda>_.
     bindE (requirePositive reserveIn) (\<lambda>_.
     bindE (requirePositive reserveOut) (\<lambda>_.
     if reserveOut \<le> amountOut then Inl RangeError
     else let numerator = reserveIn * amountOut;
              denominator = reserveOut - amountOut
          in Inr ((numerator + denominator - 1) sdiv denominator))))"

definition priceImpactBpsBeforeAfter :: "int \<Rightarrow> int \<Rightarrow> int \<Rightarrow> jsnum res" where
  "priceImpactBpsBeforeAfter reserveIn reserveOut amountInAfterFee =
     (let nReserveIn = js_Number reserveIn;
          nReserveOut = js_Number reserveOut;
          newIn = reserveIn + amountInAfterFee
      in bindE (constantProductOut amountInAfterFee reserveIn reserveOut) (\<lambda>out.
         let newOut = reserveOut - out;
             nNewIn = js_Number newIn;
             nNewOut = js_Number newOut
         in if \<not> js_isFinite nReserveIn \<or> \<not> js_isFinite nReserveOut \<or> \<not> js_isFinite nNewIn \<or> \<not> js_isFinite nNewOut
            then Inl RangeError
            else let spotBefore = js_div nReserveOut nReserveIn;
                     spotAfter = js_div nNewOut nNewIn
                 in if spotBefore = Fin 0 then Inr (Fin 0)
                    else Inr (js_max (Fin 0) (js_mul (js_div (js_sub spotBefore spotAfter) spotBefore) (Fin 10000)))))"

section \<open>Reading the pool state\<close>

record curve_state =
  reserveZeroRaw :: int
  reserveOneRaw :: int

datatype direction = ZERO_TO_ONE | ONE_TO_ZERO

definition decodeCurveState :: "pool_state \<Rightarrow> curve_state res" where
  "decodeCurveState poolState =
     (case (map_of (ps_reserves poolState) ''0'', map_of (ps_reserves poolState) ''1'') of
        (Some zero, Some one) \<Rightarrow>
          if prop_of (ps_curveState poolState) ''kind'' \<noteq> U_string ''CONSTANT_PRODUCT'' then Inl RangeError
          else bindE (js_BigInt zero) (\<lambda>z. bindE (js_BigInt one) (\<lambda>w.
               Inr \<lparr>reserveZeroRaw = z, reserveOneRaw = w\<rparr>))
      | _ \<Rightarrow> Inl RangeError)"

definition quoteDirection :: "string \<Rightarrow> string \<Rightarrow> pool_state \<Rightarrow> direction res" where
  "quoteDirection inTokenMint outTokenMint poolState =
     (let mintZero = prop_of (ps_curveState poolState) ''mint0'';
          mintOne = prop_of (ps_curveState poolState) ''mint1''
      in if mintZero = U_string inTokenMint \<and> mintOne = U_string outTokenMint then Inr ZERO_TO_ONE
         else if mintOne = U_string inTokenMint \<and> mintZero = U_string outTokenMint then Inr ONE_TO_ZERO
         else Inl RangeError)"

definition feeBpsOf :: "pool_state \<Rightarrow> jsnum res" where
  "feeBpsOf poolState = (case prop_of (ps_feeConfiguration poolState) ''feeBps'' of
     U_number fee \<Rightarrow> requireBps fee
   | _ \<Rightarrow> Inl RangeError)"

definition sides :: "direction \<Rightarrow> curve_state \<Rightarrow> int \<times> int" where
  "sides direction curve = (case direction of
     ZERO_TO_ONE \<Rightarrow> (reserveZeroRaw curve, reserveOneRaw curve)
   | ONE_TO_ZERO \<Rightarrow> (reserveOneRaw curve, reserveZeroRaw curve))"

section \<open>The adapter\<close>

record cp_config =
  cfg_adapterId :: string
  cfg_version :: string
  cfg_chainId :: string
  cfg_programId :: string
  cfg_supportedProgramVersions :: "string list"
  cfg_curveTypes :: "string list option"

definition decodeState :: "cp_config \<Rightarrow> raw_accounts \<Rightarrow> pool_state res" where
  "decodeState cfg input =
     (if ra_programId input \<noteq> cfg_programId cfg then Inl RangeError
      else if ra_owner input \<noteq> cfg_programId cfg then Inl RangeError
      else Inr \<lparr>ps_programId = ra_programId input, ps_programVersion = ra_programVersion input,
                ps_adapterId = cfg_adapterId cfg, ps_adapterVersion = cfg_version cfg,
                ps_reserves = (case ra_reserves input of Some r \<Rightarrow> r | None \<Rightarrow> []),
                ps_curveState = [(''kind'', U_string ''CONSTANT_PRODUCT'')],
                ps_feeConfiguration = [],
                ps_stateCompleteness = (if ra_reserves input \<noteq> None then COMPLETE else INCOMPLETE_BLOCKING)\<rparr>)"

definition validateStateCompleteness :: "pool_state \<Rightarrow> coverage_assessment" where
  "validateStateCompleteness state =
     (let missing = (if map_of (ps_reserves state) ''0'' = None then [''reserve0''] else []) @
                    (if map_of (ps_reserves state) ''1'' = None then [''reserve1''] else []) @
                    (if prop_of (ps_feeConfiguration state) ''feeBps'' = U_undefined then [''feeBps''] else [])
      in \<lparr>ca_stateCompleteness = (if missing = [] then COMPLETE else INCOMPLETE_BLOCKING),
          ca_missingAccountFamilies = missing, ca_materialToFill = (missing \<noteq> []),
          ca_uncertaintyBound = (if missing = [] then None else Some (Fin 1))\<rparr>)"

definition quoteExactIn :: "quote_in_input \<Rightarrow> quote_result res" where
  "quoteExactIn input =
     bindE (decodeCurveState (qi_poolState input)) (\<lambda>curve.
     bindE (quoteDirection (qi_inTokenMint input) (qi_outTokenMint input) (qi_poolState input)) (\<lambda>direction.
     bindE (feeBpsOf (qi_poolState input)) (\<lambda>feeBps.
     bindE (requirePositive (qi_rawAmountIn input)) (\<lambda>_.
     bindE (applyFee (qi_rawAmountIn input) feeBps) (\<lambda>afterFee.
     case sides direction curve of (reserveIn, reserveOut) \<Rightarrow>
     bindE (constantProductOut afterFee reserveIn reserveOut) (\<lambda>out.
     bindE (priceImpactBpsBeforeAfter reserveIn reserveOut afterFee) (\<lambda>impact.
     Inr \<lparr>rawAmountIn = qi_rawAmountIn input, rawAmountOut = out,
          feeRawAmount = qi_rawAmountIn input - afterFee, priceImpactBps = impact,
          minimumOutputRaw = None\<rparr>)))))))"

definition quoteExactOut :: "quote_out_input \<Rightarrow> quote_result res" where
  "quoteExactOut input =
     bindE (decodeCurveState (qo_poolState input)) (\<lambda>curve.
     bindE (quoteDirection (qo_inTokenMint input) (qo_outTokenMint input) (qo_poolState input)) (\<lambda>direction.
     bindE (feeBpsOf (qo_poolState input)) (\<lambda>feeBps.
     bindE (requirePositive (qo_rawAmountOut input)) (\<lambda>_.
     if (case direction of ZERO_TO_ONE \<Rightarrow> reserveOneRaw curve | ONE_TO_ZERO \<Rightarrow> reserveZeroRaw curve) \<le> qo_rawAmountOut input
     then Inl RangeError
     else case sides direction curve of (reserveIn, reserveOut) \<Rightarrow>
     bindE (constantProductIn (qo_rawAmountOut input) reserveIn reserveOut) (\<lambda>afterFeeNeeded.
     bindE (requireBps feeBps) (\<lambda>b.
     let bps = big_of_num b in
     if bps = 10000 then Inl RangeError
     else let grossRequired = (afterFeeNeeded * 10000) sdiv (10000 - bps) +
                (if (afterFeeNeeded * 10000) smod (10000 - bps) = 0 then 0 else 1)
          in bindE (applyFee grossRequired feeBps) (\<lambda>afterFee.
             bindE (constantProductOut afterFee reserveIn reserveOut) (\<lambda>modeledOut.
             bindE (priceImpactBpsBeforeAfter reserveIn reserveOut afterFee) (\<lambda>impact.
             Inr \<lparr>rawAmountIn = grossRequired, rawAmountOut = modeledOut,
                  feeRawAmount = grossRequired - afterFee, priceImpactBps = impact,
                  minimumOutputRaw = Some (qo_rawAmountOut input)\<rparr>)))))))))"

definition modelLiquidityMutation :: "liquidity_input \<Rightarrow> pool_state res" where
  "modelLiquidityMutation input =
     bindE (decodeCurveState (lm_poolState input)) (\<lambda>curve.
     let zeroDelta = (case map_of (lm_rawAmounts input) ''0'' of Some d \<Rightarrow> d | None \<Rightarrow> 0);
         oneDelta = (case map_of (lm_rawAmounts input) ''1'' of Some d \<Rightarrow> d | None \<Rightarrow> 0)
     in if zeroDelta < 0 \<or> oneDelta < 0 then Inl RangeError
        else let zero = (if lm_mutation input = ADD then reserveZeroRaw curve + zeroDelta else reserveZeroRaw curve - zeroDelta);
                 one = (if lm_mutation input = ADD then reserveOneRaw curve + oneDelta else reserveOneRaw curve - oneDelta)
             in if zero \<le> 0 \<or> one \<le> 0 then Inl RangeError
                else Inr ((lm_poolState input)\<lparr>ps_reserves := [(''0'', int_text zero), (''1'', int_text one)]\<rparr>))"

definition requiredAccounts :: "account_requirement list" where
  "requiredAccounts =
     [\<lparr>ar_accountFamily = ''Pool'', ar_required = True, ar_purpose = ''reserves and fee configuration''\<rparr>,
      \<lparr>ar_accountFamily = ''Vault0'', ar_required = True, ar_purpose = ''token-0 reserve balance''\<rparr>,
      \<lparr>ar_accountFamily = ''Vault1'', ar_required = True, ar_purpose = ''token-1 reserve balance''\<rparr>,
      \<lparr>ar_accountFamily = ''Mint0'', ar_required = True, ar_purpose = ''token-0 decimals/supply''\<rparr>,
      \<lparr>ar_accountFamily = ''Mint1'', ar_required = True, ar_purpose = ''token-1 decimals/supply''\<rparr>]"

definition constantProductAdapter :: "cp_config \<Rightarrow> pool_adapter" where
  "constantProductAdapter cfg =
     \<lparr>ad_adapterId = cfg_adapterId cfg, ad_version = cfg_version cfg, ad_chainId = cfg_chainId cfg,
      ad_programId = cfg_programId cfg, ad_supportedProgramVersions = cfg_supportedProgramVersions cfg,
      ad_curveTypes = (case cfg_curveTypes cfg of Some c \<Rightarrow> c | None \<Rightarrow> [''CONSTANT_PRODUCT'']),
      ad_family = CONSTANT_PRODUCT_AMM, ad_decodeState = decodeState cfg,
      ad_validateStateCompleteness = validateStateCompleteness, ad_quoteExactIn = quoteExactIn,
      ad_quoteExactOut = quoteExactOut, ad_modelLiquidityMutation = modelLiquidityMutation,
      ad_requiredAccounts = requiredAccounts\<rparr>"

end
