(* ===== verification/PoolLaws.thy ===== *)
theory PoolLaws
  imports ConstantProduct
begin

text \<open>
  The laws of the constant-product adapter's quotes: exact rounding against the trader, and
  minimality of exact-out quotes.
\<close>

section \<open>Arithmetic of the curve\<close>

lemma le_div_iff: "0 < (d :: int) \<Longrightarrow> z \<le> n div d \<longleftrightarrow> z * d \<le> n"
proof
  assume d: "0 < d" and "z \<le> n div d"
  then have "z * d \<le> (n div d) * d" by (simp add: mult_right_mono)
  also have "\<dots> \<le> n" using d by (simp add: pos_mod_sign minus_mod_eq_div_mult [symmetric])
  finally show "z * d \<le> n" .
next
  assume d: "0 < d" and "z * d \<le> n"
  then have "(z * d) div d \<le> n div d" by (intro zdiv_mono1) auto
  then show "z \<le> n div d" using d by simp
qed

lemma ceil_div_le_iff: "0 < (d :: int) \<Longrightarrow> (n + d - 1) div d \<le> z \<longleftrightarrow> n \<le> z * d"
proof -
  assume d: "0 < d"
  have "(n + d - 1) div d \<le> z \<longleftrightarrow> \<not> z + 1 \<le> (n + d - 1) div d" by linarith
  also have "\<dots> \<longleftrightarrow> \<not> (z + 1) * d \<le> n + d - 1" using le_div_iff [OF d] by simp
  also have "\<dots> \<longleftrightarrow> n \<le> z * d" by (simp add: algebra_simps) linarith
  finally show ?thesis .
qed

lemma ceil_div_alt: "0 < (d :: int) \<Longrightarrow> n div d + (if n mod d = 0 then 0 else 1) \<le> z \<longleftrightarrow> n \<le> z * d"
proof -
  assume d: "0 < d"
  have n: "n = n div d * d + n mod d" by simp
  have m: "0 \<le> n mod d" "n mod d < d" using d by auto
  show ?thesis
  proof (cases "n mod d = 0")
    case True
    then have "n = n div d * d" using n by simp
    then show ?thesis using d True by (metis add.right_neutral mult_le_cancel_right_pos)
  next
    case False
    then have "n div d + 1 \<le> z \<longleftrightarrow> \<not> z \<le> n div d" by linarith
    also have "\<dots> \<longleftrightarrow> \<not> z * d \<le> n" using le_div_iff [OF d] by simp
    also have "\<dots> \<longleftrightarrow> n \<le> z * d"
      using False by (metis linorder_linear linorder_neqE_linordered_idom mod_mult_self2_is_0 not_less order_less_le)
    finally show ?thesis using False by simp
  qed
qed

lemma sdiv_pos: "0 \<le> (n :: int) \<Longrightarrow> 0 < d \<Longrightarrow> n sdiv d = n div d"
  by (cases "n = 0") (simp_all add: signed_divide_int_def)

lemma smod_pos: "0 \<le> (n :: int) \<Longrightarrow> 0 < d \<Longrightarrow> n smod d = n mod d"
  by (cases "n = 0") (simp_all add: signed_modulo_int_def sgn_if)

text \<open>What a trade of \<open>a\<close> pays out of the reserves \<open>x\<close>, \<open>y\<close>, and what it takes to be paid \<open>z\<close>.\<close>

definition cp_out :: "int \<Rightarrow> int \<Rightarrow> int \<Rightarrow> int" where
  "cp_out a x y = (a * y) div (x + a)"

definition after_fee :: "int \<Rightarrow> int \<Rightarrow> int" where
  "after_fee n b = (n * (10000 - b)) div 10000"

definition cp_in :: "int \<Rightarrow> int \<Rightarrow> int \<Rightarrow> int" where
  "cp_in z x y = (x * z + (y - z) - 1) div (y - z)"

definition gross :: "int \<Rightarrow> int \<Rightarrow> int" where
  "gross a b = (a * 10000) div (10000 - b) + (if (a * 10000) mod (10000 - b) = 0 then 0 else 1)"

lemma le_cp_out: "0 < a \<Longrightarrow> 0 < x \<Longrightarrow> z \<le> cp_out a x y \<longleftrightarrow> x * y \<le> (x + a) * (y - z)"
  unfolding cp_out_def by (subst le_div_iff) (auto simp: algebra_simps)

lemma cp_out_bounds: "0 < a \<Longrightarrow> 0 < x \<Longrightarrow> 0 < y \<Longrightarrow> 0 \<le> cp_out a x y \<and> cp_out a x y < y"
proof -
  assume a: "0 < a" "0 < x" "0 < y"
  then have "a * y < y * (x + a)" by (simp add: algebra_simps)
  then have "\<not> y \<le> cp_out a x y" unfolding cp_out_def using a by (subst le_div_iff) auto
  then show ?thesis using a by (simp add: cp_out_def pos_imp_zdiv_nonneg_iff)
qed

lemma cp_in_le: "0 < x \<Longrightarrow> 0 < z \<Longrightarrow> z < y \<Longrightarrow> 0 < a \<Longrightarrow> cp_in z x y \<le> a \<longleftrightarrow> z \<le> cp_out a x y"
  unfolding cp_in_def by (subst ceil_div_le_iff) (auto simp: le_cp_out algebra_simps)

lemma cp_in_pos: "0 < x \<Longrightarrow> 0 < z \<Longrightarrow> z < y \<Longrightarrow> 0 < cp_in z x y"
proof -
  assume a: "0 < x" "0 < z" "z < y"
  then have "0 < x * z" by simp
  with a have "\<not> cp_in z x y \<le> 0" unfolding cp_in_def by (subst ceil_div_le_iff) (auto simp: not_le)
  then show ?thesis by simp
qed

lemma gross_le: "b < 10000 \<Longrightarrow> gross a b \<le> n \<longleftrightarrow> a \<le> after_fee n b"
  unfolding gross_def after_fee_def by (subst ceil_div_alt) (auto simp: le_div_iff mult.commute)

lemma gross_pos: "b < 10000 \<Longrightarrow> 0 < a \<Longrightarrow> 0 < gross a b"
proof -
  assume b: "b < 10000" "0 < a"
  have "after_fee 0 b = 0" by (simp add: after_fee_def)
  then have "\<not> gross a b \<le> 0" using b gross_le [of b a 0] by simp
  then show ?thesis by simp
qed

lemma after_fee_bounds: "0 < n \<Longrightarrow> 0 \<le> b \<Longrightarrow> b \<le> 10000 \<Longrightarrow> 0 \<le> after_fee n b \<and> after_fee n b \<le> n"
proof -
  assume a: "0 < n" "0 \<le> b" "b \<le> 10000"
  then have "0 \<le> n * b" by simp
  then have "n * (10000 - b) < (n + 1) * 10000" by (simp add: algebra_simps)
  then have "\<not> n + 1 \<le> after_fee n b" unfolding after_fee_def by (subst le_div_iff) auto
  then show ?thesis using a by (simp add: after_fee_def pos_imp_zdiv_nonneg_iff)
qed

section \<open>What a quote reads from the state\<close>

text \<open>The reserves on the input and output side and the fee, when the state gives them.\<close>

definition trade_terms :: "string \<Rightarrow> string \<Rightarrow> pool_state \<Rightarrow> (int \<times> int \<times> int) res" where
  "trade_terms inMint outMint s =
     bindE (decodeCurveState s) (\<lambda>curve.
     bindE (quoteDirection inMint outMint s) (\<lambda>d.
     bindE (feeBpsOf s) (\<lambda>f. Inr (fst (sides d curve), snd (sides d curve), big_of_num f))))"

lemma requireBps_ok:
  "requireBps f = Inr g \<longleftrightarrow> (\<exists>b. f = Fin (of_int b) \<and> g = f \<and> 0 \<le> b \<and> b \<le> 10000)"
proof (cases f)
  case (Fin a)
  show ?thesis
  proof (cases "a = of_int \<lfloor>a\<rfloor>")
    case True
    then obtain c where "a = of_int c" by blast
    then show ?thesis using Fin by (auto simp: requireBps_def not_less)
  next
    case False
    then have "\<nexists>b. a = of_int b" by auto
    then show ?thesis using Fin False by (auto simp: requireBps_def)
  qed
qed (auto simp: requireBps_def)

lemma requireBps_of_int: "0 \<le> b \<Longrightarrow> b \<le> 10000 \<Longrightarrow> requireBps (Fin (of_int b)) = Inr (Fin (of_int b))"
  by (auto simp: requireBps_ok)

lemma requirePositive_ok: "requirePositive v = (if 0 < v then Inr v else Inl RangeError)"
  by (simp add: requirePositive_def)

lemma applyFee_run:
  "0 < n \<Longrightarrow> 0 \<le> b \<Longrightarrow> b \<le> 10000 \<Longrightarrow> applyFee n (Fin (of_int b)) = Inr (after_fee n b)"
  by (simp add: applyFee_def requirePositive_ok requireBps_of_int after_fee_def sdiv_pos)

lemma constantProductOut_run:
  "constantProductOut a x y = (if 0 < a \<and> 0 < x \<and> 0 < y then Inr (cp_out a x y) else Inl RangeError)"
  by (simp add: constantProductOut_def requirePositive_ok cp_out_def sdiv_pos)

lemma constantProductIn_run:
  "0 < z \<Longrightarrow> 0 < x \<Longrightarrow> z < y \<Longrightarrow> constantProductIn z x y = Inr (cp_in z x y)"
proof -
  assume a: "0 < z" "0 < x" "z < y"
  then have "0 \<le> x * z" by simp
  then have "0 \<le> x * z + (y - z) - 1" using a by linarith
  with a show ?thesis by (simp add: constantProductIn_def requirePositive_ok cp_in_def Let_def sdiv_pos)
qed

lemma quoteExactIn_run:
  assumes "trade_terms inMint outMint s = Inr (x, y, b)"
  shows "0 \<le> b \<and> b \<le> 10000" and
    "quoteExactIn \<lparr>qi_inTokenMint = inMint, qi_outTokenMint = outMint, qi_rawAmountIn = n, qi_poolState = s\<rparr> =
      (if 0 < n \<and> 0 < after_fee n b \<and> 0 < x \<and> 0 < y
       then bindE (priceImpactBpsBeforeAfter x y (after_fee n b)) (\<lambda>impact.
         Inr \<lparr>rawAmountIn = n, rawAmountOut = cp_out (after_fee n b) x y, feeRawAmount = n - after_fee n b,
              priceImpactBps = impact, minimumOutputRaw = None\<rparr>)
       else Inl RangeError)"
proof -
  obtain curve d f where s: "decodeCurveState s = Inr curve" "quoteDirection inMint outMint s = Inr d" "feeBpsOf s = Inr f"
    and t: "sides d curve = (x, y)" "b = big_of_num f"
    using assms by (auto simp: trade_terms_def bindE_eq_Inr)
  from s(3) obtain c where "requireBps c = Inr f" by (auto simp: feeBpsOf_def split: js_unknown.splits)
  then have b: "f = Fin (of_int b)" "0 \<le> b" "b \<le> 10000" using t(2) by (auto simp: requireBps_ok)
  then show "0 \<le> b \<and> b \<le> 10000" by simp
  show "quoteExactIn \<lparr>qi_inTokenMint = inMint, qi_outTokenMint = outMint, qi_rawAmountIn = n, qi_poolState = s\<rparr> =
      (if 0 < n \<and> 0 < after_fee n b \<and> 0 < x \<and> 0 < y
       then bindE (priceImpactBpsBeforeAfter x y (after_fee n b)) (\<lambda>impact.
         Inr \<lparr>rawAmountIn = n, rawAmountOut = cp_out (after_fee n b) x y, feeRawAmount = n - after_fee n b,
              priceImpactBps = impact, minimumOutputRaw = None\<rparr>)
       else Inl RangeError)"
    using s t(1) b by (auto simp: quoteExactIn_def requirePositive_ok applyFee_run constantProductOut_run)
qed

lemma quoteExactIn_terms:
  assumes "quoteExactIn \<lparr>qi_inTokenMint = inMint, qi_outTokenMint = outMint, qi_rawAmountIn = n, qi_poolState = s\<rparr> = Inr q"
  shows "\<exists>x y b. trade_terms inMint outMint s = Inr (x, y, b)"
  using assms by (auto simp: quoteExactIn_def trade_terms_def bindE_eq_Inr)

lemma quoteExactOut_run:
  assumes "trade_terms inMint outMint s = Inr (x, y, b)"
  shows "quoteExactOut \<lparr>qo_inTokenMint = inMint, qo_outTokenMint = outMint, qo_rawAmountOut = z, qo_poolState = s\<rparr> =
      (if 0 < z \<and> z < y \<and> 0 < x \<and> b < 10000
       then let n = gross (cp_in z x y) b in
         bindE (priceImpactBpsBeforeAfter x y (after_fee n b)) (\<lambda>impact.
         Inr \<lparr>rawAmountIn = n, rawAmountOut = cp_out (after_fee n b) x y, feeRawAmount = n - after_fee n b,
              priceImpactBps = impact, minimumOutputRaw = Some z\<rparr>)
       else Inl RangeError)"
proof -
  obtain curve d f where s: "decodeCurveState s = Inr curve" "quoteDirection inMint outMint s = Inr d" "feeBpsOf s = Inr f"
    and t: "sides d curve = (x, y)" "b = big_of_num f"
    using assms by (auto simp: trade_terms_def bindE_eq_Inr)
  note b = quoteExactIn_run(1) [OF assms]
  from s(3) obtain c where "requireBps c = Inr f" by (auto simp: feeBpsOf_def split: js_unknown.splits)
  then have f: "f = Fin (of_int b)" using t(2) by (auto simp: requireBps_ok)
  have y: "(case d of ZERO_TO_ONE \<Rightarrow> reserveOneRaw curve | ONE_TO_ZERO \<Rightarrow> reserveZeroRaw curve) = y"
    using t(1) by (auto simp: sides_def split: direction.splits)
  show ?thesis
  proof (cases "0 < z \<and> z < y \<and> 0 < x \<and> b < 10000")
    case True
    have a: "0 < cp_in z x y" using True by (intro cp_in_pos) auto
    have g: "0 < gross (cp_in z x y) b" using True a by (intro gross_pos) auto
    have "cp_in z x y \<le> after_fee (gross (cp_in z x y) b) b" using True gross_le [of b "cp_in z x y" "gross (cp_in z x y) b"] by simp
    with a have "0 < after_fee (gross (cp_in z x y) b) b" by linarith
    then show ?thesis
      using True s t(1) f b y a g
      by (simp add: quoteExactOut_def requirePositive_ok constantProductIn_run requireBps_of_int Let_def sdiv_pos smod_pos
          gross_def [symmetric] applyFee_run constantProductOut_run)
  next
    case False
    show ?thesis
    proof (cases "0 < z \<and> z < y \<and> 0 < x")
      case True
      with False b have "b = 10000" by simp
      with True False s t(1) f y show ?thesis
        by (simp add: quoteExactOut_def requirePositive_ok constantProductIn_run requireBps_of_int [of 10000, simplified] Let_def)
    next
      case False
      with s t(1) y show ?thesis
        by (auto simp: quoteExactOut_def requirePositive_ok constantProductIn_def)
    qed
  qed
qed

lemma quoteExactOut_terms:
  assumes "quoteExactOut \<lparr>qo_inTokenMint = inMint, qo_outTokenMint = outMint, qo_rawAmountOut = z, qo_poolState = s\<rparr> = Inr q"
  shows "\<exists>x y b. trade_terms inMint outMint s = Inr (x, y, b)"
  using assms by (auto simp: quoteExactOut_def trade_terms_def bindE_eq_Inr)

section \<open>The price impact in binary64\<close>

lemma js_Number_finite:
  assumes "js_isFinite (js_Number n)" and "1 \<le> n"
  shows "\<exists>v. js_Number n = Fin v \<and> v = fl (of_int n) \<and> is_double v \<and> 1 \<le> v"
proof -
  obtain v where v: "to_num (of_int n) = Fin v"
    using assms(1) by (cases "js_Number n") (auto simp: js_Number_def)
  then have f: "v = fl (of_int n)" by (auto simp: to_num_def Let_def split: if_splits)
  have "fl 1 \<le> fl (of_int n)" using assms(2) by (intro fl_mono) simp
  then have "1 \<le> v" using f is_double_simps(2) by (simp add: is_double_def)
  then show ?thesis using v f to_num_is_double [OF v] by (simp add: js_Number_def)
qed

lemma js_div_bounded:
  assumes "is_double u" and "0 \<le> u" and "1 \<le> v"
  shows "\<exists>r. js_div (Fin u) (Fin v) = Fin r \<and> r = fl (u / v) \<and> 0 \<le> r \<and> is_double r"
proof -
  have "u / v \<le> u" using assms by (simp add: pos_divide_le_eq mult_le_cancel_left1)
  moreover have "0 \<le> u / v" using assms by simp
  ultimately obtain r where r: "to_num (u / v) = Fin r" "0 \<le> r"
    using to_num_between [of 0 u "u / v"] assms(1) by auto
  then show ?thesis using assms(3) to_num_is_double [OF r(1)]
    by (auto simp: to_num_def Let_def split: if_splits)
qed

lemma priceImpact_bounds:
  assumes "priceImpactBpsBeforeAfter x y a = Inr p"
  shows "\<exists>v. p = Fin v \<and> 0 \<le> v \<and> v \<le> 10000"
proof -
  have pos: "0 < a" "0 < x" "0 < y"
    using assms by (auto simp: priceImpactBpsBeforeAfter_def constantProductOut_run Let_def split: if_splits)
  define y' where "y' = y - cp_out a x y"
  have y': "1 \<le> y'" "y' \<le> y" using cp_out_bounds [OF pos] by (auto simp: y'_def)
  have run: "js_isFinite (js_Number x) \<and> js_isFinite (js_Number y) \<and> js_isFinite (js_Number (x + a)) \<and> js_isFinite (js_Number y')"
    and p: "p = (let b = js_div (js_Number y) (js_Number x); c = js_div (js_Number y') (js_Number (x + a)) in
      if b = Fin 0 then Fin 0 else js_max (Fin 0) (js_mul (js_div (js_sub b c) b) (Fin 10000)))"
    using assms pos by (auto simp: priceImpactBpsBeforeAfter_def constantProductOut_run Let_def y'_def split: if_splits)
  obtain X where X: "js_Number x = Fin X" "X = fl (of_int x)" "1 \<le> X" using js_Number_finite [of x] run pos by auto
  obtain Y where Y: "js_Number y = Fin Y" "Y = fl (of_int y)" "is_double Y" "1 \<le> Y" using js_Number_finite [of y] run pos by auto
  obtain X' where X': "js_Number (x + a) = Fin X'" "X' = fl (of_int (x + a))" "1 \<le> X'"
    using js_Number_finite [of "x + a"] run pos by auto
  obtain Y' where Y': "js_Number y' = Fin Y'" "Y' = fl (of_int y')" "is_double Y'" "1 \<le> Y'"
    using js_Number_finite [of y'] run y' by auto
  have le: "X \<le> X'" "Y' \<le> Y" unfolding X X' Y Y' using pos y' by (auto intro: fl_mono)
  obtain b where b: "js_div (Fin Y) (Fin X) = Fin b" "b = fl (Y / X)" "0 \<le> b" "is_double b"
    using js_div_bounded [of Y X] X Y by auto
  obtain c where c: "js_div (Fin Y') (Fin X') = Fin c" "c = fl (Y' / X')" "0 \<le> c"
    using js_div_bounded [of Y' X'] X' Y' by auto
  have cb: "c \<le> b" unfolding b(2) c(2) using le X Y' by (intro fl_mono frac_le) auto
  show ?thesis
  proof (cases "b = 0")
    case True
    then show ?thesis using p b by (simp add: X(1) Y(1))
  next
    case False
    with b have b0: "0 < b" by simp
    obtain d where d: "js_sub (Fin b) (Fin c) = Fin d" "0 \<le> d" "d \<le> b"
      using to_num_between [of 0 b "b - c"] b(4) cb c(3) by (auto simp: js_sub_def)
    obtain r where r: "js_div (Fin d) (Fin b) = Fin r" "0 \<le> r" "r \<le> 1"
      using to_num_between [of 0 1 "d / b"] d b0 by (auto simp: pos_divide_le_eq)
    obtain v where v: "js_mul (Fin r) (Fin 10000) = Fin v" "0 \<le> v" "v \<le> 10000"
      using to_num_between [of 0 10000 "r * 10000"] r by auto
    have "p = js_max (Fin 0) (Fin v)"
      using p False by (simp add: X(1) Y(1) X'(1) Y'(1) b(1) c(1) d(1) r(1) v(1) Let_def del: js_div.simps js_mul.simps)
    then show ?thesis using v by (auto simp: js_max_def)
  qed
qed

section \<open>Properties\<close>

text \<open>
  The exact-in law. A quote that is given splits the whole input into
  the amount that trades and the fee, the fee being the rounded-up share of the input; it pays
  out less than the output reserve and exactly the largest amount \<open>z\<close> for which the pool's
  product, with the traded part of the input, does not fall below its value before the trade (so rounding is always in favour of
  the pool); and its price impact is a number between 0 and 10000 basis points.
\<close>

theorem exact_in_conservative:
  assumes "quoteExactIn \<lparr>qi_inTokenMint = inMint, qi_outTokenMint = outMint, qi_rawAmountIn = n, qi_poolState = s\<rparr> = Inr q"
  shows "\<exists>x y b. trade_terms inMint outMint s = Inr (x, y, b) \<and> 0 < x \<and> 0 < y \<and> rawAmountIn q = n \<and>
    (let a = n - feeRawAmount q in 0 < a \<and> a \<le> n \<and> n * b \<le> feeRawAmount q * 10000 \<and> feeRawAmount q * 10000 < n * b + 10000 \<and>
       0 \<le> rawAmountOut q \<and> rawAmountOut q < y \<and>
       (\<forall>z. z \<le> rawAmountOut q \<longleftrightarrow> x * y \<le> (x + a) * (y - z))) \<and>
    (\<exists>v. priceImpactBps q = Fin v \<and> 0 \<le> v \<and> v \<le> 10000)"
proof -
  obtain x y b where t: "trade_terms inMint outMint s = Inr (x, y, b)" using quoteExactIn_terms [OF assms] by blast
  note b = quoteExactIn_run(1) [OF t] and run = quoteExactIn_run(2) [OF t, of n]
  let ?a = "after_fee n b"
  obtain p where q: "q = \<lparr>rawAmountIn = n, rawAmountOut = cp_out ?a x y, feeRawAmount = n - ?a, priceImpactBps = p, minimumOutputRaw = None\<rparr>"
    and p: "priceImpactBpsBeforeAfter x y ?a = Inr p" and pos: "0 < n" "0 < ?a" "0 < x" "0 < y"
    using assms run by (auto simp: bindE_eq_Inr split: if_splits)
  have "?a * 10000 \<le> n * (10000 - b)" "\<not> (?a + 1) * 10000 \<le> n * (10000 - b)"
    using le_div_iff [of 10000 _ "n * (10000 - b)"] unfolding after_fee_def by (metis order_refl zero_less_numeral, smt (verit))
  then have "n * b \<le> (n - ?a) * 10000" "(n - ?a) * 10000 < n * b + 10000" by (auto simp: algebra_simps)
  moreover have "?a \<le> n" using after_fee_bounds [of n b] pos b by simp
  ultimately show ?thesis
    using t pos cp_out_bounds [OF pos(2-4)] priceImpact_bounds [OF p]
    by - (rule exI [of _ x], rule exI [of _ y], rule exI [of _ b],
      simp add: q Let_def, simp add: le_cp_out [OF pos(2,3), where y = y])
qed

text \<open>
  C8 (exact_out_minimal). The exact-out law. A quote for a demanded output delivers at least the demand;
  its input is exactly minimal: over every input the pool quotes, exact-in delivers the demand if and only if the input is
  at least the quoted one; and trading the quoted input exact-in gives the very output, fee and
  price impact the exact-out quote reported.
\<close>

theorem exact_out_minimal:
  assumes "quoteExactOut \<lparr>qo_inTokenMint = inMint, qo_outTokenMint = outMint, qo_rawAmountOut = z, qo_poolState = s\<rparr> = Inr q"
  shows "z \<le> rawAmountOut q \<and> minimumOutputRaw q = Some z \<and>
    quoteExactIn \<lparr>qi_inTokenMint = inMint, qi_outTokenMint = outMint, qi_rawAmountIn = rawAmountIn q, qi_poolState = s\<rparr>
      = Inr (q\<lparr>minimumOutputRaw := None\<rparr>) \<and>
    (\<forall>n q'. quoteExactIn \<lparr>qi_inTokenMint = inMint, qi_outTokenMint = outMint, qi_rawAmountIn = n, qi_poolState = s\<rparr> = Inr q' \<longrightarrow>
       (z \<le> rawAmountOut q' \<longleftrightarrow> rawAmountIn q \<le> n))"
proof -
  obtain x y b where t: "trade_terms inMint outMint s = Inr (x, y, b)" using quoteExactOut_terms [OF assms] by blast
  let ?n = "gross (cp_in z x y) b" and ?a = "after_fee (gross (cp_in z x y) b) b"
  obtain p where q: "q = \<lparr>rawAmountIn = ?n, rawAmountOut = cp_out ?a x y, feeRawAmount = ?n - ?a, priceImpactBps = p, minimumOutputRaw = Some z\<rparr>"
    and p: "priceImpactBpsBeforeAfter x y ?a = Inr p" and pos: "0 < z" "z < y" "0 < x" "b < 10000"
    using assms quoteExactOut_run [OF t, of z] by (auto simp: bindE_eq_Inr Let_def split: if_splits)
  have need: "z \<le> cp_out (after_fee n b) x y \<longleftrightarrow> ?n \<le> n" if "0 < after_fee n b" for n
    using cp_in_le [OF pos(3,1,2) that] gross_le [OF pos(4)] by simp
  have "0 < ?n" using gross_pos cp_in_pos pos by simp
  moreover have "cp_in z x y \<le> ?a" using gross_le [OF pos(4)] by blast
  then have "0 < ?a" using cp_in_pos [OF pos(3,1,2)] by linarith
  ultimately show ?thesis
    using need pos p quoteExactIn_run(2) [OF t]
    by (auto simp: q bindE_eq_Inr split: if_splits)
qed

text \<open>A pool of 1000 and 2000 units with a fee of 30 basis points.\<close>

definition demo_pool :: pool_state where
  "demo_pool = \<lparr>ps_programId = ''amm'', ps_programVersion = ''v1'', ps_adapterId = ''cp'', ps_adapterVersion = ''1'',
     ps_reserves = [(''0'', ''1000''), (''1'', ''2000'')],
     ps_curveState = [(''kind'', U_string ''CONSTANT_PRODUCT''), (''mint0'', U_string ''A''), (''mint1'', U_string ''B'')],
     ps_feeConfiguration = [(''feeBps'', U_number (Fin 30))], ps_stateCompleteness = COMPLETE\<rparr>"

lemma priceImpact_small:
  assumes "0 < a" and "0 < x" and "0 < y" and "x + a \<le> 2 ^ 53" and "y \<le> 2 ^ 53"
  shows "\<exists>p. priceImpactBpsBeforeAfter x y a = Inr p"
proof -
  have "\<bar>y - cp_out a x y\<bar> \<le> 2 ^ 53" using cp_out_bounds [OF assms(1-3)] assms by simp
  then show ?thesis using assms
    by (simp add: priceImpactBpsBeforeAfter_def constantProductOut_run Let_def js_Number_exact del: js_div.simps)
qed

lemma demo_reserves: "decodeCurveState demo_pool = Inr \<lparr>reserveZeroRaw = 1000, reserveOneRaw = 2000\<rparr>"
  by (simp add: demo_pool_def decodeCurveState_def prop_of_def js_BigInt_def trim_def js_space_def parse_digits_def digit_value_def)

lemma demo_terms: "trade_terms ''A'' ''B'' demo_pool = Inr (1000, 2000, 30)"
  using requireBps_of_int [of 30]
  by (simp add: trade_terms_def demo_reserves, simp add: demo_pool_def quoteDirection_def feeBpsOf_def prop_of_def sides_def)

lemma demo_quote:
  "\<exists>p. quoteExactIn \<lparr>qi_inTokenMint = ''A'', qi_outTokenMint = ''B'', qi_rawAmountIn = 100, qi_poolState = demo_pool\<rparr> =
     Inr \<lparr>rawAmountIn = 100, rawAmountOut = 180, feeRawAmount = 1, priceImpactBps = p, minimumOutputRaw = None\<rparr>"
  using quoteExactIn_run(2) [OF demo_terms, of 100] priceImpact_small [of 99 1000 2000]
  by (auto simp: after_fee_def cp_out_def)

theorem exact_in_conservative_witness:
  "\<exists>q. quoteExactIn \<lparr>qi_inTokenMint = ''A'', qi_outTokenMint = ''B'', qi_rawAmountIn = 100, qi_poolState = demo_pool\<rparr> = Inr q \<and>
     rawAmountOut q = 180 \<and> \<not> 1000 * 2000 \<le> (1000 + (100 - feeRawAmount q)) * (2000 - (181 :: int)) \<and>
     (\<exists>v. priceImpactBps q = Fin v \<and> 0 \<le> v \<and> v \<le> 10000)"
proof -
  obtain p where q: "quoteExactIn \<lparr>qi_inTokenMint = ''A'', qi_outTokenMint = ''B'', qi_rawAmountIn = 100, qi_poolState = demo_pool\<rparr> =
     Inr \<lparr>rawAmountIn = 100, rawAmountOut = 180, feeRawAmount = 1, priceImpactBps = p, minimumOutputRaw = None\<rparr>"
    using demo_quote by blast
  show ?thesis using exact_in_conservative [OF q] q by auto
qed

theorem exact_out_minimal_witness:
  "\<exists>q. quoteExactOut \<lparr>qo_inTokenMint = ''A'', qo_outTokenMint = ''B'', qo_rawAmountOut = 180, qo_poolState = demo_pool\<rparr> = Inr q \<and>
     rawAmountIn q = 100 \<and> rawAmountOut q = 180 \<and>
     quoteExactIn \<lparr>qi_inTokenMint = ''A'', qi_outTokenMint = ''B'', qi_rawAmountIn = 100, qi_poolState = demo_pool\<rparr> =
       Inr (q\<lparr>minimumOutputRaw := None\<rparr>)"
proof -
  obtain p where q: "quoteExactOut \<lparr>qo_inTokenMint = ''A'', qo_outTokenMint = ''B'', qo_rawAmountOut = 180, qo_poolState = demo_pool\<rparr> =
     Inr \<lparr>rawAmountIn = 100, rawAmountOut = 180, feeRawAmount = 1, priceImpactBps = p, minimumOutputRaw = Some 180\<rparr>"
    using quoteExactOut_run [OF demo_terms, of 180] priceImpact_small [of 99 1000 2000]
    by (auto simp: after_fee_def cp_out_def cp_in_def gross_def)
  show ?thesis using exact_out_minimal [OF q] q by auto
qed

end
