(* ===== verification/PoolTrades.thy ===== *)
theory PoolTrades
  imports PoolLaws
begin

text \<open>
  Pools under trades and liquidity changes. A trade is settled with the adapter's own operations:
  the quoted input is added to the pool and the quoted output removed from it. The locale states
  what a client of a pool relies on; it is interpreted on the constant-product adapter.
\<close>

section \<open>Reserves as decimal text\<close>

lemma digit_value_char [simp]: "k < 10 \<Longrightarrow> digit_value (char_of (48 + k)) = k"
  by (simp add: digit_value_def)

definition decimal :: "char \<Rightarrow> bool" where
  "decimal c \<longleftrightarrow> digit_value c < 10 \<and> \<not> js_space c \<and> c \<noteq> CHR ''-'' \<and> c \<noteq> CHR ''+''"

lemma decimal_char: "k < 10 \<Longrightarrow> decimal (char_of (48 + k :: nat))"
proof -
  assume k: "k < 10"
  then have n: "of_char (char_of (48 + k :: nat) :: char) = 48 + k" by simp
  have "(of_char (CHR ''-'') :: nat) \<noteq> 48 + k" "(of_char (CHR ''+'') :: nat) \<noteq> 48 + k" by simp_all
  then have "char_of (48 + k) \<noteq> CHR ''-''" "char_of (48 + k) \<noteq> CHR ''+''" using n by metis+
  then show ?thesis using k by (simp add: decimal_def js_space_def)
qed

lemma digits_decimal: "list_all decimal (digits n)"
proof (induction n rule: digits.induct)
  case (1 n)
  then show ?case by (subst digits.simps) (auto intro: decimal_char)
qed

lemma digits_nonempty [simp]: "digits n \<noteq> []"
  by (subst digits.simps) simp

lemma digits_value: "foldl (\<lambda>acc c. acc * 10 + digit_value c) 0 (digits n) = n"
proof (induction n rule: digits.induct)
  case (1 n)
  then show ?case by (subst digits.simps) auto
qed

lemma digits_lead: "0 < n \<Longrightarrow> hd (digits n) \<noteq> CHR ''0''"
proof (induction n rule: digits.induct)
  case (1 n)
  show ?case
  proof (cases "n < 10")
    case True
    have "of_char (char_of (48 + n) :: char) \<noteq> (of_char (CHR ''0'') :: nat)" using True 1(2) by simp
    then have "char_of (48 + n) \<noteq> CHR ''0''" by metis
    then show ?thesis using True by (subst digits.simps) simp
  next
    case False
    then show ?thesis using 1 by (subst digits.simps) simp
  qed
qed

lemma trim_no_space: "list_all (\<lambda>c. \<not> js_space c) s \<Longrightarrow> trim s = s"
proof -
  assume "list_all (\<lambda>c. \<not> js_space c) s"
  then have ns: "\<And>c. c \<in> set s \<Longrightarrow> \<not> js_space c" by (simp add: list_all_iff)
  have "dropWhile js_space u = u" if u: "set u \<subseteq> set s" for u
    using ns u by (cases u) auto
  then show ?thesis by (simp add: trim_def)
qed

lemma js_BigInt_text: "0 < n \<Longrightarrow> js_BigInt (int_text n) = Inr n"
proof -
  assume n: "0 < n"
  let ?d = "digits (nat n)"
  obtain c rest where d: "?d = c # rest" by (cases ?d) auto
  have dec: "list_all decimal ?d" by (rule digits_decimal)
  then have t: "trim ?d = ?d" by (intro trim_no_space) (auto simp: decimal_def list_all_iff)
  have "c \<noteq> CHR ''0''" using digits_lead [of "nat n"] n d by simp
  moreover have "c \<noteq> CHR ''-''" "c \<noteq> CHR ''+''" using dec d by (auto simp: decimal_def)
  moreover have "parse_digits 10 ?d = Inr n"
    using dec digits_value [of "nat n"] n by (auto simp: parse_digits_def decimal_def list_all_iff)
  ultimately show ?thesis using n t d by (simp add: int_text_def js_BigInt_def)
qed

section \<open>Reserves under mutations\<close>

definition reserve0 :: "pool_state \<Rightarrow> int" where
  "reserve0 s = (case decodeCurveState s of Inr c \<Rightarrow> reserveZeroRaw c | Inl _ \<Rightarrow> 0)"

definition reserve1 :: "pool_state \<Rightarrow> int" where
  "reserve1 s = (case decodeCurveState s of Inr c \<Rightarrow> reserveOneRaw c | Inl _ \<Rightarrow> 0)"

definition live :: "pool_state \<Rightarrow> bool" where
  "live s \<longleftrightarrow> (\<exists>c. decodeCurveState s = Inr c) \<and> 0 < reserve0 s \<and> 0 < reserve1 s"

definition with_reserves :: "int \<Rightarrow> int \<Rightarrow> pool_state \<Rightarrow> pool_state" where
  "with_reserves u v s = s\<lparr>ps_reserves := [(''0'', int_text u), (''1'', int_text v)]\<rparr>"

definition delta :: "(string \<times> int) list \<Rightarrow> string \<Rightarrow> int" where
  "delta ds k = (case map_of ds k of Some d \<Rightarrow> d | None \<Rightarrow> 0)"

lemma decode_with_reserves:
  assumes "decodeCurveState s = Inr c" and "0 < u" and "0 < v"
  shows "decodeCurveState (with_reserves u v s) = Inr \<lparr>reserveZeroRaw = u, reserveOneRaw = v\<rparr>"
  using assms by (auto simp: decodeCurveState_def with_reserves_def js_BigInt_text split: option.splits if_splits)

lemma reserves_with_reserves:
  assumes "decodeCurveState s = Inr c" and "0 < u" and "0 < v"
  shows "reserve0 (with_reserves u v s) = u" and "reserve1 (with_reserves u v s) = v" and "live (with_reserves u v s)"
  using decode_with_reserves [OF assms] assms(2,3) by (auto simp: reserve0_def reserve1_def live_def)

lemma with_reserves_again [simp]: "with_reserves u v (with_reserves u' v' s) = with_reserves u v s"
  by (simp add: with_reserves_def)

text \<open>The effect of a mutation on the reserves, and exactly when it is refused.\<close>

lemma mutation_run:
  assumes "decodeCurveState s = Inr c"
  shows "modelLiquidityMutation \<lparr>lm_poolState = s, lm_mutation = m, lm_rawAmounts = ds\<rparr> =
    (let sign = (if m = ADD then 1 else - 1);
         u = reserve0 s + sign * delta ds ''0''; v = reserve1 s + sign * delta ds ''1''
     in if 0 \<le> delta ds ''0'' \<and> 0 \<le> delta ds ''1'' \<and> 0 < u \<and> 0 < v then Inr (with_reserves u v s) else Inl RangeError)"
  using assms by (auto simp: modelLiquidityMutation_def reserve0_def reserve1_def Let_def delta_def with_reserves_def)

section \<open>Settled trades\<close>

definition in_key :: "direction \<Rightarrow> string" where
  "in_key d = (case d of ZERO_TO_ONE \<Rightarrow> ''0'' | ONE_TO_ZERO \<Rightarrow> ''1'')"

definition out_key :: "direction \<Rightarrow> string" where
  "out_key d = (case d of ZERO_TO_ONE \<Rightarrow> ''1'' | ONE_TO_ZERO \<Rightarrow> ''0'')"

definition settle :: "string \<Rightarrow> string \<Rightarrow> int \<Rightarrow> pool_state \<Rightarrow> pool_state res" where
  "settle inMint outMint n s =
     bindE (quoteExactIn \<lparr>qi_inTokenMint = inMint, qi_outTokenMint = outMint, qi_rawAmountIn = n, qi_poolState = s\<rparr>) (\<lambda>q.
     bindE (quoteDirection inMint outMint s) (\<lambda>d.
     bindE (modelLiquidityMutation \<lparr>lm_poolState = s, lm_mutation = ADD, lm_rawAmounts = [(in_key d, rawAmountIn q)]\<rparr>) (\<lambda>s1.
     modelLiquidityMutation \<lparr>lm_poolState = s1, lm_mutation = REMOVE, lm_rawAmounts = [(out_key d, rawAmountOut q)]\<rparr>)))"

inductive trade :: "pool_state \<Rightarrow> pool_state \<Rightarrow> bool" where
  settled: "settle inMint outMint n s = Inr t \<Longrightarrow> trade s t"

inductive_cases tradeE: "trade s t"

text \<open>What a client of a pool relies on.\<close>

locale conservative_pool =
  fixes swap :: "'s \<Rightarrow> 's \<Rightarrow> bool" and r0 :: "'s \<Rightarrow> int" and r1 :: "'s \<Rightarrow> int" and ok :: "'s \<Rightarrow> bool"
  assumes ok_pos: "ok s \<Longrightarrow> 0 < r0 s \<and> 0 < r1 s"
    and swap_ok: "ok s \<Longrightarrow> swap s t \<Longrightarrow> ok t"
    and swap_product: "ok s \<Longrightarrow> swap s t \<Longrightarrow> r0 s * r1 s \<le> r0 t * r1 t"
begin

lemma swaps_ok: "swap\<^sup>*\<^sup>* s t \<Longrightarrow> ok s \<Longrightarrow> ok t"
  by (induction rule: rtranclp_induct) (auto dest: swap_ok)

lemma swaps_product: "swap\<^sup>*\<^sup>* s t \<Longrightarrow> ok s \<Longrightarrow> r0 s * r1 s \<le> r0 t * r1 t"
proof (induction rule: rtranclp_induct)
  case (step u t)
  then show ?case using swap_product [of u t] swaps_ok [of s u] by force
qed simp

text \<open>Whoever took nothing net of one token put in at least nothing net of the other.\<close>

lemma no_free_output:
  assumes "swap\<^sup>*\<^sup>* s t" and "ok s"
  shows "r1 t \<le> r1 s \<Longrightarrow> r0 s \<le> r0 t" and "r0 t \<le> r0 s \<Longrightarrow> r1 s \<le> r1 t"
proof -
  have p: "r0 s * r1 s \<le> r0 t * r1 t" using assms by (rule swaps_product)
  have s: "0 < r0 s" "0 < r1 s" and t: "0 < r0 t" "0 < r1 t"
    using ok_pos [OF assms(2)] ok_pos [OF swaps_ok [OF assms]] by auto
  show "r0 s \<le> r0 t" if "r1 t \<le> r1 s"
  proof (rule ccontr)
    assume "\<not> r0 s \<le> r0 t"
    then have "r0 t * r1 t < r0 s * r1 s" using that s t by (intro mult_less_le_imp_less) auto
    then show False using p by simp
  qed
  show "r1 s \<le> r1 t" if "r0 t \<le> r0 s"
  proof (rule ccontr)
    assume "\<not> r1 s \<le> r1 t"
    then have "r0 t * r1 t < r0 s * r1 s" using that s t by (intro mult_le_less_imp_less) auto
    then show False using p by simp
  qed
qed

end

text \<open>Every quoted trade settles, on the exact new reserves.\<close>

lemma settle_run:
  assumes "quoteExactIn \<lparr>qi_inTokenMint = inMint, qi_outTokenMint = outMint, qi_rawAmountIn = n, qi_poolState = s\<rparr> = Inr q"
  shows "\<exists>d. quoteDirection inMint outMint s = Inr d \<and> live s \<and> 0 < n \<and> rawAmountIn q = n \<and>
    (let u = reserve0 s + (case d of ZERO_TO_ONE \<Rightarrow> n | ONE_TO_ZERO \<Rightarrow> - rawAmountOut q);
         v = reserve1 s + (case d of ZERO_TO_ONE \<Rightarrow> - rawAmountOut q | ONE_TO_ZERO \<Rightarrow> n)
     in settle inMint outMint n s = Inr (with_reserves u v s) \<and> 0 < u \<and> 0 < v \<and> reserve0 s * reserve1 s \<le> u * v)"
proof -
  obtain x y b where t: "trade_terms inMint outMint s = Inr (x, y, b)" using quoteExactIn_terms [OF assms] by blast
  then obtain c d where c: "decodeCurveState s = Inr c" and d: "quoteDirection inMint outMint s = Inr d"
    and sd: "sides d c = (x, y)" by (auto simp: trade_terms_def bindE_eq_Inr)
  let ?a = "after_fee n b"
  have q: "rawAmountIn q = n" "rawAmountOut q = cp_out ?a x y" and pos: "0 < n" "0 < ?a" "0 < x" "0 < y"
    using assms quoteExactIn_run(2) [OF t, of n] by (auto simp: bindE_eq_Inr split: if_splits)
  have out: "0 \<le> cp_out ?a x y" "cp_out ?a x y < y" using cp_out_bounds [OF pos(2-4)] by auto
  have "x * y \<le> (x + ?a) * (y - cp_out ?a x y)" using le_cp_out [OF pos(2,3), of "cp_out ?a x y" y] by simp
  also have "\<dots> \<le> (x + n) * (y - cp_out ?a x y)"
    using after_fee_bounds [of n b] quoteExactIn_run(1) [OF t] pos(1) out by (intro mult_right_mono) auto
  finally have k: "x * y \<le> (x + n) * (y - cp_out ?a x y)" .
  have r: "reserve0 s = reserveZeroRaw c" "reserve1 s = reserveOneRaw c" by (simp_all add: reserve0_def reserve1_def c)
  show ?thesis
  proof (cases d)
    case ZERO_TO_ONE
    with sd r have xy: "x = reserve0 s" "y = reserve1 s" by (simp_all add: sides_def)
    have uv: "0 < x + n" "0 < y" using pos by auto
    note step = mutation_run [OF decode_with_reserves [OF c uv]] reserves_with_reserves [OF c uv]
    have "settle inMint outMint n s = Inr (with_reserves (x + n) (y - cp_out ?a x y) s)"
      using pos out by (simp add: settle_def assms d q ZERO_TO_ONE in_key_def out_key_def mutation_run [OF c] step delta_def xy [symmetric])
    then show ?thesis using d c pos out k by (simp add: ZERO_TO_ONE q xy [symmetric] live_def)
  next
    case ONE_TO_ZERO
    with sd r have xy: "x = reserve1 s" "y = reserve0 s" by (simp_all add: sides_def)
    have uv: "0 < y" "0 < x + n" using pos by auto
    note step = mutation_run [OF decode_with_reserves [OF c uv]] reserves_with_reserves [OF c uv]
    have "settle inMint outMint n s = Inr (with_reserves (y - cp_out ?a x y) (x + n) s)"
      using pos out by (simp add: settle_def assms d q ONE_TO_ZERO in_key_def out_key_def mutation_run [OF c] step delta_def xy [symmetric])
    moreover have "y * x \<le> (y - cp_out ?a x y) * (x + n)" using k by (metis mult.commute)
    ultimately show ?thesis using d c pos out by (simp add: ONE_TO_ZERO q xy [symmetric] live_def)
  qed
qed

lemma trade_effect:
  assumes "trade s t"
  shows "live t \<and> reserve0 s * reserve1 s \<le> reserve0 t * reserve1 t"
  using assms
proof (rule tradeE)
  fix inMint outMint n
  assume st: "settle inMint outMint n s = Inr t"
  then obtain q where q: "quoteExactIn \<lparr>qi_inTokenMint = inMint, qi_outTokenMint = outMint, qi_rawAmountIn = n, qi_poolState = s\<rparr> = Inr q"
    by (auto simp: settle_def bindE_eq_Inr)
  obtain u v where "live s" "t = with_reserves u v s" "0 < u" "0 < v" "reserve0 s * reserve1 s \<le> u * v"
    using settle_run [OF q] st by (auto simp: Let_def)
  then show ?thesis using reserves_with_reserves by (auto simp: live_def)
qed

interpretation cp_pool: conservative_pool trade reserve0 reserve1 live
proof unfold_locales
  show "0 < reserve0 s \<and> 0 < reserve1 s" if "live s" for s using that by (simp add: live_def)
qed (use trade_effect in blast)+

section \<open>Properties\<close>

text \<open>
  C4 (pool_never_loses). Every exact-in quote can be settled: adding the input and removing the
  output with the adapter's own liquidity operations is never refused and leaves both reserves
  positive. Over any sequence of settled trades of a pool, in either direction and of any size, the product of
  the reserves never falls, so traders who end with no net gain of one token never gain any of the other.
\<close>

theorem pool_never_loses:
  assumes "live s" and "trade\<^sup>*\<^sup>* s t"
  shows "live t \<and> reserve0 s * reserve1 s \<le> reserve0 t * reserve1 t \<and>
    (reserve1 t \<le> reserve1 s \<longrightarrow> reserve0 s \<le> reserve0 t) \<and> (reserve0 t \<le> reserve0 s \<longrightarrow> reserve1 s \<le> reserve1 t) \<and>
    (\<forall>inMint outMint n q.
       quoteExactIn \<lparr>qi_inTokenMint = inMint, qi_outTokenMint = outMint, qi_rawAmountIn = n, qi_poolState = t\<rparr> = Inr q \<longrightarrow>
       (\<exists>t'. settle inMint outMint n t = Inr t' \<and> live t'))"
proof (intro conjI allI impI)
  show "live t" using assms(2,1) by (rule cp_pool.swaps_ok)
  show "reserve0 s * reserve1 s \<le> reserve0 t * reserve1 t" using assms(2,1) by (rule cp_pool.swaps_product)
  show "reserve0 s \<le> reserve0 t" if "reserve1 t \<le> reserve1 s" using assms(2,1) that by (rule cp_pool.no_free_output)
  show "reserve1 s \<le> reserve1 t" if "reserve0 t \<le> reserve0 s" using assms(2,1) that by (rule cp_pool.no_free_output)
  fix inMint outMint n q
  assume q: "quoteExactIn \<lparr>qi_inTokenMint = inMint, qi_outTokenMint = outMint, qi_rawAmountIn = n, qi_poolState = t\<rparr> = Inr q"
  obtain t' where "settle inMint outMint n t = Inr t'" using settle_run [OF q] by (auto simp: Let_def)
  then show "\<exists>t'. settle inMint outMint n t = Inr t' \<and> live t'" using trade_effect trade.settled by blast
qed

lemma demo_live: "live demo_pool" "reserve0 demo_pool = 1000" "reserve1 demo_pool = 2000"
  by (simp_all add: live_def reserve0_def reserve1_def demo_reserves)

theorem pool_never_loses_witness:
  "\<exists>t. settle ''A'' ''B'' 100 demo_pool = Inr t \<and> live t \<and> 1000 * 2000 \<le> reserve0 t * reserve1 t"
proof -
  obtain p where q: "quoteExactIn \<lparr>qi_inTokenMint = ''A'', qi_outTokenMint = ''B'', qi_rawAmountIn = 100, qi_poolState = demo_pool\<rparr> =
     Inr \<lparr>rawAmountIn = 100, rawAmountOut = 180, feeRawAmount = 1, priceImpactBps = p, minimumOutputRaw = None\<rparr>"
    using demo_quote by blast
  obtain t where t: "settle ''A'' ''B'' 100 demo_pool = Inr t"
    using pool_never_loses [OF demo_live(1) rtranclp.rtrancl_refl] q by blast
  then have "trade\<^sup>*\<^sup>* demo_pool t" by (blast intro: trade.settled)
  then show ?thesis using pool_never_loses [OF demo_live(1)] t demo_live by fastforce
qed

text \<open>
  Liquidity changes are exact and reversible: on a pool with positive
  reserves, adding amounts succeeds exactly when none is negative, and removing the same amounts from the
  result restores both reserves (the state of the curve, the fee and the identity untouched); a
  removal is refused exactly when an amount is negative or would leave a reserve empty.
\<close>

theorem liquidity_roundtrip:
  assumes "live s"
  shows "((\<exists>t. modelLiquidityMutation \<lparr>lm_poolState = s, lm_mutation = ADD, lm_rawAmounts = ds\<rparr> = Inr t) \<longleftrightarrow>
      0 \<le> delta ds ''0'' \<and> 0 \<le> delta ds ''1'') \<and>
    (\<forall>t. modelLiquidityMutation \<lparr>lm_poolState = s, lm_mutation = ADD, lm_rawAmounts = ds\<rparr> = Inr t \<longrightarrow>
      reserve0 t = reserve0 s + delta ds ''0'' \<and> reserve1 t = reserve1 s + delta ds ''1'' \<and>
      (\<exists>r. modelLiquidityMutation \<lparr>lm_poolState = t, lm_mutation = REMOVE, lm_rawAmounts = ds\<rparr> = Inr r \<and>
        reserve0 r = reserve0 s \<and> reserve1 r = reserve1 s \<and> r\<lparr>ps_reserves := ps_reserves s\<rparr> = s)) \<and>
    ((\<exists>t. modelLiquidityMutation \<lparr>lm_poolState = s, lm_mutation = REMOVE, lm_rawAmounts = ds\<rparr> = Inr t) \<longleftrightarrow>
      0 \<le> delta ds ''0'' \<and> 0 \<le> delta ds ''1'' \<and> delta ds ''0'' < reserve0 s \<and> delta ds ''1'' < reserve1 s)"
proof -
  obtain c where c: "decodeCurveState s = Inr c" and pos: "0 < reserve0 s" "0 < reserve1 s" using assms by (auto simp: live_def)
  let ?u = "reserve0 s + delta ds ''0''" and ?v = "reserve1 s + delta ds ''1''"
  have undo: "modelLiquidityMutation \<lparr>lm_poolState = with_reserves ?u ?v s, lm_mutation = REMOVE, lm_rawAmounts = ds\<rparr>
      = Inr (with_reserves (reserve0 s) (reserve1 s) s)"
    if nn: "0 \<le> delta ds ''0''" "0 \<le> delta ds ''1''"
  proof -
    have uv: "0 < ?u" "0 < ?v" using pos nn by auto
    show ?thesis
      using pos nn by (simp add: mutation_run [OF decode_with_reserves [OF c uv]] reserves_with_reserves [OF c uv])
  qed
  have eq: "(with_reserves (reserve0 s) (reserve1 s) s)\<lparr>ps_reserves := ps_reserves s\<rparr> = s"
    by (simp add: with_reserves_def)
  show ?thesis
    using pos undo eq reserves_with_reserves [OF c pos] reserves_with_reserves [OF c, of ?u ?v]
    by (auto simp: mutation_run [OF c] Let_def)
qed

theorem liquidity_roundtrip_witness:
  "\<exists>t r. modelLiquidityMutation \<lparr>lm_poolState = demo_pool, lm_mutation = ADD, lm_rawAmounts = [(''0'', 5)]\<rparr> = Inr t \<and>
     reserve0 t = 1005 \<and> reserve1 t = 2000 \<and>
     modelLiquidityMutation \<lparr>lm_poolState = t, lm_mutation = REMOVE, lm_rawAmounts = [(''0'', 5)]\<rparr> = Inr r \<and>
     reserve0 r = 1000 \<and> reserve1 r = 2000"
proof -
  have "\<exists>t. modelLiquidityMutation \<lparr>lm_poolState = demo_pool, lm_mutation = ADD, lm_rawAmounts = [(''0'', 5)]\<rparr> = Inr t"
    using liquidity_roundtrip [OF demo_live(1), of "[(''0'', 5)]"] by (simp add: delta_def)
  then obtain t where t: "modelLiquidityMutation \<lparr>lm_poolState = demo_pool, lm_mutation = ADD, lm_rawAmounts = [(''0'', 5)]\<rparr> = Inr t" ..
  show ?thesis
    using liquidity_roundtrip [OF demo_live(1), of "[(''0'', 5)]"] t demo_live by (auto simp: delta_def)
qed

end
