(* ===== verification/ParityGate.thy ===== *)
theory ParityGate
  imports PoolAdapter
begin

text \<open>
  The parity gate of packages/pool-math/src/parity.ts, with the upgrade detection of
  packages/program-decoders/src/parity.ts. The quote callbacks are parameters and may throw.
\<close>

section \<open>Cases and results\<close>

record deterministic_vector =
  dv_vectorId :: string
  dv_expectedOutRaw :: int

record observed_trade =
  ot_caseId :: string
  ot_inTokenMint :: string
  ot_outTokenMint :: string
  ot_rawAmountIn :: int
  ot_observedOutRaw :: int
  ot_toleranceBps :: jsnum

record reference_quote =
  rf_caseId :: string
  rf_quote :: quote_result
  rf_referenceOutRaw :: int
  rf_toleranceBps :: jsnum

datatype parity_cause =
    DETERMINISTIC_VECTOR_MISMATCH | OBSERVED_TRADE_PARITY_DRIFT | REFERENCE_QUOTE_PARITY_DRIFT
  | TOLERANCE_GATE_EXCEEDED | IDL_OR_LAYOUT_HASH_MISMATCH | DECODER_HASH_MISMATCH

datatype incident_cause = PARITY_DRIFT | PROGRAM_UPGRADE | FIXTURE_FAILURE

record parity_result =
  pg_adapterId :: string
  pg_adapterVersion :: string
  pg_passed :: bool
  pg_failures :: "parity_cause list"
  pg_failingCaseIds :: "string list"
  pg_resultingSupportState :: adapter_support_state
  pg_incidentCause :: "incident_cause option"
  pg_evaluatedCases :: nat

record parity_input =
  pi_adapter :: pool_adapter
  pi_vectors :: "deterministic_vector list"
  pi_quoteForVector :: "string \<Rightarrow> quote_result res"
  pi_observedTrades :: "observed_trade list"
  pi_quoteForObservedTrade :: "string \<Rightarrow> quote_result res"
  pi_referenceQuotes :: "reference_quote list"
  pi_manifestLayoutHash :: string
  pi_observedLayoutHash :: string
  pi_manifestDecoderHash :: string
  pi_decoderHash :: string

section \<open>The gate\<close>

definition badTolerance :: "jsnum \<Rightarrow> bool" where
  "badTolerance t \<longleftrightarrow> \<not> js_isInteger t \<or> js_lt t (Fin 0)"

definition withinTolerance :: "int \<Rightarrow> int \<Rightarrow> jsnum \<Rightarrow> bool" where
  "withinTolerance actual expected toleranceBps =
     (if badTolerance toleranceBps then False
      else if expected = 0 then actual = 0
      else let diff = (if expected < actual then actual - expected else expected - actual)
           in diff * 10000 \<le> expected * (case toleranceBps of Fin t \<Rightarrow> \<lfloor>t\<rfloor> | _ \<Rightarrow> 0))"

text \<open>\<open>detectUpgradeChange\<close>: a finding is a cause, and its text is pushed as the failing id too.\<close>

definition detectUpgradeChange :: "string \<Rightarrow> string \<Rightarrow> string \<Rightarrow> string \<Rightarrow> parity_cause list" where
  "detectUpgradeChange manifestLayoutHash observedLayoutHash manifestDecoderHash decoderHash =
     (if manifestLayoutHash \<noteq> observedLayoutHash then [IDL_OR_LAYOUT_HASH_MISMATCH] else []) @
     (if manifestDecoderHash \<noteq> decoderHash then [DECODER_HASH_MISMATCH] else [])"

fun finding_text :: "parity_cause \<Rightarrow> string" where
  "finding_text DETERMINISTIC_VECTOR_MISMATCH = ''DETERMINISTIC_VECTOR_MISMATCH''"
| "finding_text OBSERVED_TRADE_PARITY_DRIFT = ''OBSERVED_TRADE_PARITY_DRIFT''"
| "finding_text REFERENCE_QUOTE_PARITY_DRIFT = ''REFERENCE_QUOTE_PARITY_DRIFT''"
| "finding_text TOLERANCE_GATE_EXCEEDED = ''TOLERANCE_GATE_EXCEEDED''"
| "finding_text IDL_OR_LAYOUT_HASH_MISMATCH = ''IDL_OR_LAYOUT_HASH_MISMATCH''"
| "finding_text DECODER_HASH_MISMATCH = ''DECODER_HASH_MISMATCH''"

text \<open>One iteration of each loop: the failure it pushes with its id, if any.\<close>

definition vector_failure :: "parity_input \<Rightarrow> deterministic_vector \<Rightarrow> (parity_cause \<times> string) list" where
  "vector_failure input v =
     (case pi_quoteForVector input (dv_vectorId v) of
        Inl _ \<Rightarrow> [(DETERMINISTIC_VECTOR_MISMATCH, dv_vectorId v)]
      | Inr quote \<Rightarrow> if rawAmountOut quote \<noteq> dv_expectedOutRaw v
          then [(DETERMINISTIC_VECTOR_MISMATCH, dv_vectorId v)] else [])"

definition observed_failure :: "parity_input \<Rightarrow> observed_trade \<Rightarrow> (parity_cause \<times> string) list" where
  "observed_failure input t =
     (if badTolerance (ot_toleranceBps t) then [(TOLERANCE_GATE_EXCEEDED, ot_caseId t)]
      else case pi_quoteForObservedTrade input (ot_caseId t) of
        Inl _ \<Rightarrow> [(OBSERVED_TRADE_PARITY_DRIFT, ot_caseId t)]
      | Inr quote \<Rightarrow> if \<not> withinTolerance (rawAmountOut quote) (ot_observedOutRaw t) (ot_toleranceBps t)
          then [(OBSERVED_TRADE_PARITY_DRIFT, ot_caseId t)] else [])"

definition reference_failure :: "reference_quote \<Rightarrow> (parity_cause \<times> string) list" where
  "reference_failure r =
     (if badTolerance (rf_toleranceBps r) then [(TOLERANCE_GATE_EXCEEDED, rf_caseId r)]
      else if \<not> withinTolerance (rawAmountOut (rf_quote r)) (rf_referenceOutRaw r) (rf_toleranceBps r)
        then [(REFERENCE_QUOTE_PARITY_DRIFT, rf_caseId r)] else [])"

text \<open>\<open>[...new Set(xs)]\<close>: the first occurrences, in order.\<close>

fun js_unique :: "'a list \<Rightarrow> 'a list \<Rightarrow> 'a list" where
  "js_unique seen [] = []"
| "js_unique seen (x # xs) = (if x \<in> set seen then js_unique seen xs else x # js_unique (x # seen) xs)"

definition runParityGate :: "parity_input \<Rightarrow> parity_result" where
  "runParityGate input =
     (let upgradeFindings = detectUpgradeChange (pi_manifestLayoutHash input) (pi_observedLayoutHash input)
            (pi_manifestDecoderHash input) (pi_decoderHash input);
          pushed = concat (map (vector_failure input) (pi_vectors input)) @
            concat (map (observed_failure input) (pi_observedTrades input)) @
            concat (map reference_failure (pi_referenceQuotes input)) @
            map (\<lambda>f. (f, finding_text f)) upgradeFindings;
          passed = (pushed = [])
      in \<lparr>pg_adapterId = ad_adapterId (pi_adapter input), pg_adapterVersion = ad_version (pi_adapter input),
          pg_passed = passed, pg_failures = js_unique [] (map fst pushed),
          pg_failingCaseIds = js_unique [] (map snd pushed),
          pg_resultingSupportState = (if passed then Sup_AVAILABLE else Sup_DEGRADED),
          pg_incidentCause = (if passed then None else if upgradeFindings \<noteq> [] then Some PROGRAM_UPGRADE else Some PARITY_DRIFT),
          pg_evaluatedCases = length (pi_vectors input) + length (pi_observedTrades input) + length (pi_referenceQuotes input)\<rparr>)"

section \<open>Lemmas\<close>

lemma set_js_unique: "set (js_unique seen xs) = set xs - set seen"
  by (induction seen xs rule: js_unique.induct) auto

lemma distinct_js_unique: "distinct (js_unique seen xs)"
  by (induction seen xs rule: js_unique.induct) (auto simp: set_js_unique)

text \<open>What each case has to show to pass.\<close>

definition close_enough :: "int \<Rightarrow> int \<Rightarrow> jsnum \<Rightarrow> bool" where
  "close_enough actual expected tol \<longleftrightarrow>
     (\<exists>t. 0 \<le> t \<and> tol = Fin (of_int t) \<and> \<bar>actual - expected\<bar> * 10000 \<le> expected * t)"

definition vector_ok :: "parity_input \<Rightarrow> deterministic_vector \<Rightarrow> bool" where
  "vector_ok input v \<longleftrightarrow> (\<exists>q. pi_quoteForVector input (dv_vectorId v) = Inr q \<and> rawAmountOut q = dv_expectedOutRaw v)"

definition observed_ok :: "parity_input \<Rightarrow> observed_trade \<Rightarrow> bool" where
  "observed_ok input t \<longleftrightarrow> (\<exists>q. pi_quoteForObservedTrade input (ot_caseId t) = Inr q \<and>
     close_enough (rawAmountOut q) (ot_observedOutRaw t) (ot_toleranceBps t))"

definition reference_ok :: "reference_quote \<Rightarrow> bool" where
  "reference_ok r \<longleftrightarrow> close_enough (rawAmountOut (rf_quote r)) (rf_referenceOutRaw r) (rf_toleranceBps r)"

lemma withinTolerance_iff: "withinTolerance a e tol \<longleftrightarrow> close_enough a e tol"
proof (cases "badTolerance tol")
  case True
  then have "\<not> close_enough a e tol" by (auto simp: badTolerance_def close_enough_def)
  then show ?thesis using True by (simp add: withinTolerance_def)
next
  case False
  then obtain t where t: "tol = Fin (of_int t)" "0 \<le> t"
    by (auto simp: badTolerance_def elim: js_isIntegerE)
  have "(if e < a then a - e else e - a) = \<bar>a - e\<bar>" by simp
  then show ?thesis using False t
    by (auto simp: withinTolerance_def close_enough_def Let_def)
qed

lemma close_enough_tolerance: "close_enough a e t \<Longrightarrow> \<not> badTolerance t"
  by (auto simp: close_enough_def badTolerance_def)

lemma vector_failure_iff: "vector_failure input v = (if vector_ok input v then [] else [(DETERMINISTIC_VECTOR_MISMATCH, dv_vectorId v)])"
  by (auto simp: vector_failure_def vector_ok_def split: sum.splits)

lemma observed_failure_iff: "observed_failure input t =
   (if observed_ok input t then [] else
     [(if badTolerance (ot_toleranceBps t) then TOLERANCE_GATE_EXCEEDED else OBSERVED_TRADE_PARITY_DRIFT, ot_caseId t)])"
  by (auto simp: observed_failure_def observed_ok_def withinTolerance_iff dest: close_enough_tolerance split: sum.splits)

lemma reference_failure_iff: "reference_failure r =
   (if reference_ok r then [] else
     [(if badTolerance (rf_toleranceBps r) then TOLERANCE_GATE_EXCEEDED else REFERENCE_QUOTE_PARITY_DRIFT, rf_caseId r)])"
  by (auto simp: reference_failure_def reference_ok_def withinTolerance_iff dest: close_enough_tolerance)

lemmas failure_iffs = vector_failure_iff observed_failure_iff reference_failure_iff

lemma upgrade_ids:
  "snd ` set (map (\<lambda>f. (f, finding_text f)) (detectUpgradeChange ml ol md d)) =
     (if ml \<noteq> ol then {''IDL_OR_LAYOUT_HASH_MISMATCH''} else {}) \<union> (if md \<noteq> d then {''DECODER_HASH_MISMATCH''} else {})"
  by (cases "ml = ol"; cases "md = d") (simp_all add: detectUpgradeChange_def insert_commute)

lemma no_failures:
  assumes "\<And>x. f x = (if ok x then [] else [(c x, i x)])"
  shows "concat (map f xs) = [] \<longleftrightarrow> list_all ok xs"
  by (induction xs) (auto simp: assms)

lemma failing_ids:
  assumes "\<And>x. f x = (if ok x then [] else [(c x, i x)])"
  shows "snd ` set (concat (map f xs)) = i ` {x \<in> set xs. \<not> ok x}"
  by (induction xs) (auto simp: assms)

section \<open>Properties\<close>

text \<open>
  The gate passes exactly when every deterministic vector is reproduced to
  the unit, every observed trade and every reference quote is within its own predeclared
  tolerance (a tolerance that is negative or no integer fails its case, as does a quote that
  throws), and neither the account layout nor the decoder changed. An adapter stays
  \<open>AVAILABLE\<close> exactly when it passes and is \<open>DEGRADED\<close> otherwise; the incident is a program upgrade
  exactly when a hash differs, and parity drift for every other failure; the failing ids are those of the failing cases and of
  the changed hashes, each once. A suite without cases and with unchanged hashes passes.
\<close>

theorem parity_gate_exact:
  "let r = runParityGate input;
       upgraded = (pi_manifestLayoutHash input \<noteq> pi_observedLayoutHash input \<or> pi_manifestDecoderHash input \<noteq> pi_decoderHash input)
   in (pg_passed r \<longleftrightarrow> list_all (vector_ok input) (pi_vectors input) \<and> list_all (observed_ok input) (pi_observedTrades input) \<and>
        list_all reference_ok (pi_referenceQuotes input) \<and> \<not> upgraded) \<and>
      pg_resultingSupportState r = (if pg_passed r then Sup_AVAILABLE else Sup_DEGRADED) \<and>
      pg_incidentCause r = (if pg_passed r then None else if upgraded then Some PROGRAM_UPGRADE else Some PARITY_DRIFT) \<and>
      distinct (pg_failingCaseIds r) \<and>
      set (pg_failingCaseIds r) =
        dv_vectorId ` {v \<in> set (pi_vectors input). \<not> vector_ok input v} \<union>
        ot_caseId ` {t \<in> set (pi_observedTrades input). \<not> observed_ok input t} \<union>
        rf_caseId ` {q \<in> set (pi_referenceQuotes input). \<not> reference_ok q} \<union>
        (if pi_manifestLayoutHash input \<noteq> pi_observedLayoutHash input then {''IDL_OR_LAYOUT_HASH_MISMATCH''} else {}) \<union>
        (if pi_manifestDecoderHash input \<noteq> pi_decoderHash input then {''DECODER_HASH_MISMATCH''} else {})"
proof -
  define pushed where "pushed = concat (map (vector_failure input) (pi_vectors input)) @
    concat (map (observed_failure input) (pi_observedTrades input)) @ concat (map reference_failure (pi_referenceQuotes input)) @
    map (\<lambda>f. (f, finding_text f)) (detectUpgradeChange (pi_manifestLayoutHash input) (pi_observedLayoutHash input)
      (pi_manifestDecoderHash input) (pi_decoderHash input))"
  have empty: "pushed = [] \<longleftrightarrow> list_all (vector_ok input) (pi_vectors input) \<and> list_all (observed_ok input) (pi_observedTrades input) \<and>
      list_all reference_ok (pi_referenceQuotes input) \<and>
      \<not> (pi_manifestLayoutHash input \<noteq> pi_observedLayoutHash input \<or> pi_manifestDecoderHash input \<noteq> pi_decoderHash input)"
    unfolding pushed_def append_is_Nil_conv no_failures [OF vector_failure_iff] no_failures [OF observed_failure_iff]
      no_failures [OF reference_failure_iff]
    by (simp add: detectUpgradeChange_def)
  have ids: "snd ` set pushed =
        dv_vectorId ` {v \<in> set (pi_vectors input). \<not> vector_ok input v} \<union>
        ot_caseId ` {t \<in> set (pi_observedTrades input). \<not> observed_ok input t} \<union>
        rf_caseId ` {q \<in> set (pi_referenceQuotes input). \<not> reference_ok q} \<union>
        (if pi_manifestLayoutHash input \<noteq> pi_observedLayoutHash input then {''IDL_OR_LAYOUT_HASH_MISMATCH''} else {}) \<union>
        (if pi_manifestDecoderHash input \<noteq> pi_decoderHash input then {''DECODER_HASH_MISMATCH''} else {})"
    unfolding pushed_def set_append image_Un failing_ids [OF vector_failure_iff] failing_ids [OF observed_failure_iff]
      failing_ids [OF reference_failure_iff] upgrade_ids Un_assoc ..
  define up where "up = detectUpgradeChange (pi_manifestLayoutHash input) (pi_observedLayoutHash input)
      (pi_manifestDecoderHash input) (pi_decoderHash input)"
  have upgraded: "up = [] \<longleftrightarrow>
      \<not> (pi_manifestLayoutHash input \<noteq> pi_observedLayoutHash input \<or> pi_manifestDecoderHash input \<noteq> pi_decoderHash input)"
    by (simp add: up_def detectUpgradeChange_def)
  have run: "runParityGate input = \<lparr>pg_adapterId = ad_adapterId (pi_adapter input), pg_adapterVersion = ad_version (pi_adapter input),
      pg_passed = (pushed = []), pg_failures = js_unique [] (map fst pushed), pg_failingCaseIds = js_unique [] (map snd pushed),
      pg_resultingSupportState = (if pushed = [] then Sup_AVAILABLE else Sup_DEGRADED),
      pg_incidentCause = (if pushed = [] then None else if up \<noteq> [] then Some PROGRAM_UPGRADE else Some PARITY_DRIFT),
      pg_evaluatedCases = length (pi_vectors input) + length (pi_observedTrades input) + length (pi_referenceQuotes input)\<rparr>"
    unfolding runParityGate_def Let_def pushed_def up_def ..
  have set_ids: "set (pg_failingCaseIds (runParityGate input)) = snd ` set pushed" "distinct (pg_failingCaseIds (runParityGate input))"
    by (simp_all add: run set_js_unique distinct_js_unique)
  show ?thesis
    unfolding Let_def set_ids(1) ids [symmetric]
    by (intro conjI set_ids refl) (simp_all only: run parity_result.simps empty upgraded simp_thms split: if_split)
qed

text \<open>One vector reproduced; then the same suite after a decoder change.\<close>

definition demo_gate :: "string \<Rightarrow> parity_input" where
  "demo_gate h = \<lparr>pi_adapter = demo_adapter, pi_vectors = [\<lparr>dv_vectorId = ''v'', dv_expectedOutRaw = 180\<rparr>],
     pi_quoteForVector = (\<lambda>_. Inr \<lparr>rawAmountIn = 100, rawAmountOut = 180, feeRawAmount = 1, priceImpactBps = Fin 0, minimumOutputRaw = None\<rparr>),
     pi_observedTrades = [], pi_quoteForObservedTrade = (\<lambda>_. Inl RangeError), pi_referenceQuotes = [],
     pi_manifestLayoutHash = ''l'', pi_observedLayoutHash = ''l'', pi_manifestDecoderHash = ''d'', pi_decoderHash = h\<rparr>"

theorem parity_gate_exact_witness:
  "pg_resultingSupportState (runParityGate (demo_gate ''d'')) = Sup_AVAILABLE \<and>
   pg_incidentCause (runParityGate (demo_gate ''e'')) = Some PROGRAM_UPGRADE"
  using parity_gate_exact [of "demo_gate ''d''"] parity_gate_exact [of "demo_gate ''e''"]
  by (simp add: Let_def) (simp add: demo_gate_def vector_ok_def)

end
