(* ===== verification/RouteEvaluation.thy ===== *)
theory RouteEvaluation
  imports PoolAdapter
begin

text \<open>
  State completeness and read-only route evaluation: packages/pool-math/src/state-completeness.ts
  (re-exported by route-aggregation.ts). Inputs are typed, so the code's guards against null and
  non-array values have no counterpart; every other guard is a branch. Aggregates are computed in
  binary64 arithmetic.
\<close>

section \<open>State completeness\<close>

definition ALWAYS_MATERIAL_FAMILIES :: "string list" where
  "ALWAYS_MATERIAL_FAMILIES = [''Pool'', ''Vault0'', ''Vault1'', ''Mint0'', ''Mint1'']"

definition CONDITIONALLY_MATERIAL_FAMILIES :: "string list" where
  "CONDITIONALLY_MATERIAL_FAMILIES = [''TickArray'', ''BinArray'', ''Position'', ''CurveState'']"

record assess_input =
  as_decoded :: pool_state
  as_availableAccountFamilies :: "string list"
  as_requiresConditionalFamilies :: bool
  as_notionalUsd :: string

text \<open>The pattern \<open>^(0|[1-9][0-9]*)(\.[0-9]+)?$\<close>.\<close>

definition dec_digit :: "char \<Rightarrow> bool" where
  "dec_digit c \<longleftrightarrow> (let n = of_char c :: nat in 48 \<le> n \<and> n \<le> 57)"

definition decimal_text :: "string \<Rightarrow> bool" where
  "decimal_text s =
     (let whole = takeWhile dec_digit s; rest = dropWhile dec_digit s
      in whole \<noteq> [] \<and> (whole = ''0'' \<or> hd whole \<noteq> CHR ''0'') \<and>
         (rest = [] \<or> hd rest = CHR ''.'' \<and> tl rest \<noteq> [] \<and> list_all dec_digit (tl rest)))"

definition assessStateCompleteness :: "assess_input \<Rightarrow> coverage_assessment res" where
  "assessStateCompleteness input =
     (if \<not> decimal_text (as_notionalUsd input) then Inl (ExecVocabularyError EXEC_UNCERTAINTY_INPUT_INVALID)
      else let available = as_availableAccountFamilies input;
               missing = filter (\<lambda>f. f \<notin> set available) ALWAYS_MATERIAL_FAMILIES @
                 (if as_requiresConditionalFamilies input
                  then filter (\<lambda>f. f \<noteq> ''CurveState'' \<and> f \<notin> set available) CONDITIONALLY_MATERIAL_FAMILIES else []);
               incomplete = (missing \<noteq> [] \<or> ps_stateCompleteness (as_decoded input) = INCOMPLETE_BLOCKING)
           in Inr \<lparr>ca_stateCompleteness = (if incomplete then INCOMPLETE_BLOCKING else COMPLETE),
                   ca_missingAccountFamilies = missing, ca_materialToFill = (missing \<noteq> []),
                   ca_uncertaintyBound = (if missing = [] then None
                     else Some (js_min (Fin 1) (js_mul (Fin (1 / 4)) (Fin (of_nat (length missing))))))\<rparr>)"

section \<open>Routes\<close>

record route_leg =
  rl_legId :: string
  rl_poolId :: string
  rl_vaultIds :: "string list"
  rl_feeBps :: jsnum
  rl_priceImpactBps :: jsnum
  rl_inTokenMint :: string
  rl_outTokenMint :: string

record quote_conversion =
  qc_sourceId :: string
  qc_quotedAt :: string
  qc_depegState :: string

record route_evaluation =
  re_aggregateImpactBps :: jsnum
  re_aggregateFeeBps :: jsnum
  re_legs :: "route_leg list"
  re_sharedVaultIds :: "string list"
  re_quoteConversion :: "quote_conversion option"
  re_routeComplexity :: nat

record route_input =
  ri_legs :: "route_leg list"
  ri_quoteConversion :: "quote_conversion option"
  ri_maxLegs :: "jsnum option"
  ri_transactionPayload :: bool

definition requireLegField :: "string \<Rightarrow> string res" where
  "requireLegField v = (if v = [] then Inl (ExecVocabularyError EXEC_LABEL_CLAUSES_INVALID) else Inr v)"

text \<open>The counting \<open>Map\<close>: entries keep their insertion order.\<close>

fun bump :: "string \<Rightarrow> (string \<times> nat) list \<Rightarrow> (string \<times> nat) list" where
  "bump v [] = [(v, 1)]"
| "bump v ((w, n) # es) = (if v = w then (w, n + 1) # es else (w, n) # bump v es)"

definition detectSharedVaults :: "route_leg list \<Rightarrow> string list" where
  "detectSharedVaults legs =
     map fst (filter (\<lambda>(v, n). 1 < n) (fold bump (concat (map rl_vaultIds legs)) []))"

definition leg_key :: "route_leg \<Rightarrow> string" where
  "leg_key leg = rl_inTokenMint leg @ ''->'' @ rl_outTokenMint leg @ ''@'' @ rl_poolId leg"

fun detectLoop :: "string list \<Rightarrow> route_leg list \<Rightarrow> bool" where
  "detectLoop visited [] = False"
| "detectLoop visited (leg # legs) =
     (if leg_key leg \<in> set visited then True else detectLoop (leg_key leg # visited) legs)"

definition check_leg :: "route_leg \<Rightarrow> unit res" where
  "check_leg leg =
     bindE (requireLegField (rl_legId leg)) (\<lambda>_.
     bindE (requireLegField (rl_poolId leg)) (\<lambda>_.
     bindE (requireLegField (rl_inTokenMint leg)) (\<lambda>_.
     bindE (requireLegField (rl_outTokenMint leg)) (\<lambda>_.
     if rl_vaultIds leg = [] then Inl (ExecVocabularyError EXEC_LABEL_CLAUSES_INVALID)
     else if \<not> js_isInteger (rl_feeBps leg) \<or> js_lt (rl_feeBps leg) (Fin 0) \<or>
             \<not> js_isInteger (rl_priceImpactBps leg) \<or> js_lt (rl_priceImpactBps leg) (Fin 0)
     then Inl (ExecVocabularyError EXEC_LABEL_CLAUSES_INVALID)
     else Inr ()))))"

fun check_legs :: "route_leg list \<Rightarrow> unit res" where
  "check_legs [] = Inr ()"
| "check_legs (leg # legs) = bindE (check_leg leg) (\<lambda>_. check_legs legs)"

definition check_conversion :: "quote_conversion \<Rightarrow> unit res" where
  "check_conversion qc =
     (if qc_sourceId qc = [] \<or> \<not> (qc_quotedAt qc \<noteq> [] \<and> last (qc_quotedAt qc) = CHR ''Z'') \<or>
         qc_depegState qc \<notin> {''NONE'', ''WATCH'', ''DEPEGGED''}
      then Inl (ExecVocabularyError EXEC_LABEL_CLAUSES_INVALID)
      else if qc_depegState qc = ''DEPEGGED'' then Inl (ExecVocabularyError EXEC_LABEL_CLAUSES_INVALID)
      else Inr ())"

fun continuous :: "route_leg list \<Rightarrow> bool" where
  "continuous (a # b # legs) = (rl_inTokenMint b = rl_outTokenMint a \<and> continuous (b # legs))"
| "continuous _ = True"

text \<open>\<open>acc = 1 - (1 - acc) * (1 - bps / 10_000)\<close>.\<close>

definition compound :: "jsnum \<Rightarrow> jsnum \<Rightarrow> jsnum" where
  "compound bps acc = js_sub (Fin 1) (js_mul (js_sub (Fin 1) acc) (js_sub (Fin 1) (js_div bps (Fin 10000))))"

definition aggregate_bps :: "jsnum list \<Rightarrow> jsnum" where
  "aggregate_bps bps = js_round (js_mul (fold compound bps (Fin 0)) (Fin 10000))"

definition evaluateRoute :: "route_input \<Rightarrow> route_evaluation res" where
  "evaluateRoute input =
     (if ri_transactionPayload input then Inl (ExecVocabularyError EXEC_LABEL_CLAUSES_INVALID)
      else let maxLegs = (case ri_maxLegs input of Some m \<Rightarrow> m | None \<Rightarrow> Fin 5); legs = ri_legs input in
      if \<not> js_isInteger maxLegs \<or> js_lt maxLegs (Fin 1) then Inl (ExecVocabularyError EXEC_LABEL_CLAUSES_INVALID)
      else bindE (check_legs legs) (\<lambda>_.
           bindE (case ri_quoteConversion input of None \<Rightarrow> Inr () | Some qc \<Rightarrow> check_conversion qc) (\<lambda>_.
           if legs = [] then Inl (ExecVocabularyError EXEC_LABEL_CLAUSES_INVALID)
           else if js_lt maxLegs (Fin (of_nat (length legs))) then Inl (ExecVocabularyError EXEC_LABEL_CLAUSES_INVALID)
           else if detectLoop [] legs then Inl (ExecVocabularyError EXEC_LABEL_CLAUSES_INVALID)
           else if \<not> continuous legs then Inl (ExecVocabularyError EXEC_LABEL_CLAUSES_INVALID)
           else Inr \<lparr>re_aggregateImpactBps = aggregate_bps (map rl_priceImpactBps legs),
                     re_aggregateFeeBps = aggregate_bps (map rl_feeBps legs), re_legs = legs,
                     re_sharedVaultIds = detectSharedVaults legs, re_quoteConversion = ri_quoteConversion input,
                     re_routeComplexity = length legs\<rparr>)))"

section \<open>Lemmas\<close>

lemma bump_keys: "fst ` set (bump v es) = insert v (fst ` set es)"
  by (induction v es rule: bump.induct) (simp_all add: insert_commute)

lemma bump_distinct: "distinct (map fst es) \<Longrightarrow> distinct (map fst (bump v es))"
  by (induction v es rule: bump.induct) (simp_all add: bump_keys)

lemma bump_count: "distinct (map fst es) \<Longrightarrow>
  map_of (bump v es) w = (if w = v then Some (case map_of es v of Some n \<Rightarrow> n + 1 | None \<Rightarrow> 1) else map_of es w)"
  by (induction es) (auto split: if_splits)

lemma counts:
  assumes "distinct (map fst es)"
  shows "distinct (map fst (fold bump vs es)) \<and>
    map_of (fold bump vs es) w =
      (if count_list vs w = 0 then map_of es w else Some (count_list vs w + (case map_of es w of Some n \<Rightarrow> n | None \<Rightarrow> 0)))"
  using assms
proof (induction vs arbitrary: es)
  case (Cons v vs)
  then show ?case using Cons.IH [of "bump v es"] bump_distinct [of es v] bump_count [of es v w]
    by (auto split: option.splits)
qed simp

lemma shared_vaults:
  "distinct (detectSharedVaults legs) \<and>
   set (detectSharedVaults legs) = {v. 1 < count_list (concat (map rl_vaultIds legs)) v}"
proof -
  let ?vs = "concat (map rl_vaultIds legs)"
  let ?es = "fold bump ?vs []"
  have d: "distinct (map fst ?es)" and m: "map_of ?es w = (if count_list ?vs w = 0 then None else Some (count_list ?vs w))" for w
    using counts [of "[]" ?vs w] by simp_all
  have "v \<in> set (detectSharedVaults legs) \<longleftrightarrow> 1 < count_list ?vs v" for v
  proof -
    have "v \<in> set (detectSharedVaults legs) \<longleftrightarrow> (\<exists>n. (v, n) \<in> set ?es \<and> 1 < n)"
      unfolding detectSharedVaults_def by (auto simp: image_iff simp del: fold_simps)
    also have "\<dots> \<longleftrightarrow> (\<exists>n. map_of ?es v = Some n \<and> 1 < n)" using map_of_eq_Some_iff [OF d] by simp
    also have "\<dots> \<longleftrightarrow> 1 < count_list ?vs v" unfolding m by simp
    finally show ?thesis .
  qed
  then have "set (detectSharedVaults legs) = {v. 1 < count_list ?vs v}" by blast
  moreover have "distinct (detectSharedVaults legs)" using d by (simp add: detectSharedVaults_def distinct_map_filter)
  ultimately show ?thesis by blast
qed

lemma detectLoop_iff: "detectLoop visited legs \<longleftrightarrow> \<not> (distinct (map leg_key legs) \<and> set visited \<inter> leg_key ` set legs = {})"
  by (induction visited legs rule: detectLoop.induct) auto

lemma check_legs_ok: "check_legs legs = Inr () \<longleftrightarrow> list_all (\<lambda>l. check_leg l = Inr ()) legs"
  by (induction legs) (auto simp: bindE_def split: sum.splits)

lemma check_leg_bps:
  assumes "check_leg leg = Inr ()"
  shows "\<exists>f i. rl_feeBps leg = Fin (of_int f) \<and> rl_priceImpactBps leg = Fin (of_int i) \<and> 0 \<le> f \<and> 0 \<le> i"
  using assms by (auto simp: check_leg_def bindE_eq_Inr split: if_splits elim!: js_isIntegerE)

lemma compound_unit:
  assumes "acc = Fin a" "0 \<le> a" "a \<le> 1" "is_double a" and "0 \<le> b" and "b \<le> 10000"
  shows "\<exists>r. compound (Fin (of_int b)) acc = Fin r \<and> 0 \<le> r \<and> r \<le> 1 \<and> is_double r"
proof -
  have unit: "\<exists>r. to_num x = Fin r \<and> 0 \<le> r \<and> r \<le> 1 \<and> is_double r" if "0 \<le> x" "x \<le> 1" for x
    using to_num_between [of 0 1 x] that to_num_is_double by fastforce
  obtain q where q: "js_div (Fin (of_int b)) (Fin 10000) = Fin q" "0 \<le> q" "q \<le> 1"
    using unit [of "of_int b / 10000"] assms(5,6) by auto
  obtain g where g: "js_sub (Fin 1) (Fin q) = Fin g" "0 \<le> g" "g \<le> 1"
    using unit [of "1 - q"] q by (auto simp: js_sub_def)
  obtain h where h: "js_sub (Fin 1) (Fin a) = Fin h" "0 \<le> h" "h \<le> 1"
    using unit [of "1 - a"] assms by (auto simp: js_sub_def)
  have "h * g \<le> 1" using g h by (metis mult_le_one)
  then obtain p where p: "js_mul (Fin h) (Fin g) = Fin p" "0 \<le> p" "p \<le> 1"
    using unit [of "h * g"] g h by auto
  obtain r where "js_sub (Fin 1) (Fin p) = Fin r" "0 \<le> r" "r \<le> 1" "is_double r"
    using unit [of "1 - p"] p by (auto simp: js_sub_def)
  then show ?thesis using assms(1) by (simp add: compound_def q g h p del: js_div.simps js_mul.simps)
qed

lemma aggregate_unit:
  assumes "list_all (\<lambda>v. \<exists>b. v = Fin (of_int b) \<and> 0 \<le> b \<and> b \<le> 10000) bps"
  shows "\<exists>n. aggregate_bps bps = Fin (of_int n) \<and> 0 \<le> n \<and> n \<le> 10000"
proof -
  have "\<exists>r. fold compound bps acc = Fin r \<and> 0 \<le> r \<and> r \<le> 1 \<and> is_double r"
    if "acc = Fin a" "0 \<le> a" "a \<le> 1" "is_double a" for acc a
    using assms that
  proof (induction bps arbitrary: acc a)
    case (Cons v bps)
    then obtain b where b: "v = Fin (of_int b)" "0 \<le> b" "b \<le> 10000" by auto
    obtain r where r: "compound v acc = Fin r" "0 \<le> r" "r \<le> 1" "is_double r"
      using compound_unit [OF Cons.prems(2-5) b(2,3)] b(1) by auto
    show ?case using Cons.IH [OF _ r] Cons.prems(1) by simp
  qed simp
  then obtain r where r: "fold compound bps (Fin 0) = Fin r" "0 \<le> r" "r \<le> 1" by fastforce
  obtain v where v: "js_mul (Fin r) (Fin 10000) = Fin v" "0 \<le> v" "v \<le> 10000"
    using to_num_between [of 0 10000 "r * 10000"] r by auto
  have "aggregate_bps bps = Fin (of_int \<lfloor>v + 1 / 2\<rfloor>)" using r v by (simp add: aggregate_bps_def)
  moreover have "0 \<le> \<lfloor>v + 1 / 2\<rfloor>" "\<lfloor>v + 1 / 2\<rfloor> \<le> 10000" using v by (simp_all add: floor_le_iff)
  ultimately show ?thesis by blast
qed

lemma evaluateRoute_ok:
  assumes "evaluateRoute input = Inr r"
  shows "\<not> ri_transactionPayload input \<and> list_all (\<lambda>l. check_leg l = Inr ()) (ri_legs input) \<and>
    pred_option (\<lambda>qc. check_conversion qc = Inr ()) (ri_quoteConversion input) \<and> ri_legs input \<noteq> [] \<and>
    (\<exists>m. (case ri_maxLegs input of Some m \<Rightarrow> m | None \<Rightarrow> Fin 5) = Fin (of_int m) \<and> int (length (ri_legs input)) \<le> m) \<and>
    distinct (map leg_key (ri_legs input)) \<and> continuous (ri_legs input) \<and>
    r = \<lparr>re_aggregateImpactBps = aggregate_bps (map rl_priceImpactBps (ri_legs input)),
         re_aggregateFeeBps = aggregate_bps (map rl_feeBps (ri_legs input)), re_legs = ri_legs input,
         re_sharedVaultIds = detectSharedVaults (ri_legs input), re_quoteConversion = ri_quoteConversion input,
         re_routeComplexity = length (ri_legs input)\<rparr>"
proof -
  let ?m = "case ri_maxLegs input of Some m \<Rightarrow> m | None \<Rightarrow> Fin 5"
  have p: "\<not> ri_transactionPayload input" and i: "js_isInteger ?m"
    using assms by (auto simp: evaluateRoute_def Let_def split: if_splits)
  obtain m where m: "?m = Fin (of_int m)" using i by (rule js_isIntegerE)
  have rest: "check_legs (ri_legs input) = Inr ()" "pred_option (\<lambda>qc. check_conversion qc = Inr ()) (ri_quoteConversion input)"
    "ri_legs input \<noteq> []" "\<not> js_lt ?m (Fin (of_nat (length (ri_legs input))))" "\<not> detectLoop [] (ri_legs input)" "continuous (ri_legs input)"
    using assms p i
    by (cases "ri_quoteConversion input"; auto simp: evaluateRoute_def Let_def bindE_eq_Inr split: if_splits)+
  have "r = \<lparr>re_aggregateImpactBps = aggregate_bps (map rl_priceImpactBps (ri_legs input)),
         re_aggregateFeeBps = aggregate_bps (map rl_feeBps (ri_legs input)), re_legs = ri_legs input,
         re_sharedVaultIds = detectSharedVaults (ri_legs input), re_quoteConversion = ri_quoteConversion input,
         re_routeComplexity = length (ri_legs input)\<rparr>"
    using assms by (auto simp: evaluateRoute_def Let_def bindE_eq_Inr split: if_splits)
  moreover have "rat_of_nat (length (ri_legs input)) \<le> of_int m" using rest(4) unfolding m by (simp add: not_less)
  then have "int (length (ri_legs input)) \<le> m" by (metis of_int_le_iff of_int_of_nat_eq)
  ultimately show ?thesis using p rest(1-3,5,6) m by (simp add: check_legs_ok detectLoop_iff)
qed

section \<open>Properties\<close>

text \<open>
  C39 (route_evaluation_sound). An accepted route is a path: it has at least one leg and no more than
  the cap (5 by default), every leg starts with the token the leg before it ended with, and no
  leg repeats a pool with the same tokens; it carries no provider payload and no depegged quote
  asset. The shared vaults are exactly the ids that occur more than once, each listed once. If
  no leg charges or moves more than 10000 basis points, the aggregate fee and impact, with all
  rounding of binary64 arithmetic, are whole numbers between 0 and 10000.
\<close>

theorem route_evaluation_sound:
  assumes "evaluateRoute input = Inr r"
  shows "ri_legs input \<noteq> [] \<and> re_legs r = ri_legs input \<and>
    (case ri_maxLegs input of None \<Rightarrow> length (ri_legs input) \<le> 5
     | Some c \<Rightarrow> \<exists>m. c = Fin (of_int m) \<and> int (length (ri_legs input)) \<le> m) \<and>
    (\<forall>i. Suc i < length (ri_legs input) \<longrightarrow> rl_inTokenMint (ri_legs input ! Suc i) = rl_outTokenMint (ri_legs input ! i)) \<and>
    distinct (map (\<lambda>l. (rl_inTokenMint l, rl_outTokenMint l, rl_poolId l)) (ri_legs input)) \<and>
    \<not> ri_transactionPayload input \<and> pred_option (\<lambda>qc. qc_depegState qc \<in> {''NONE'', ''WATCH''}) (ri_quoteConversion input) \<and>
    distinct (re_sharedVaultIds r) \<and>
    set (re_sharedVaultIds r) = {v. 1 < count_list (concat (map rl_vaultIds (ri_legs input))) v} \<and>
    ((\<forall>l \<in> set (ri_legs input). \<not> js_lt (Fin 10000) (rl_feeBps l)) \<longrightarrow>
       (\<exists>n. re_aggregateFeeBps r = Fin (of_int n) \<and> 0 \<le> n \<and> n \<le> 10000)) \<and>
    ((\<forall>l \<in> set (ri_legs input). \<not> js_lt (Fin 10000) (rl_priceImpactBps l)) \<longrightarrow>
       (\<exists>n. re_aggregateImpactBps r = Fin (of_int n) \<and> 0 \<le> n \<and> n \<le> 10000))"
proof -
  note ok = evaluateRoute_ok [OF assms]
  have legs: "\<exists>f i. rl_feeBps l = Fin (of_int f) \<and> rl_priceImpactBps l = Fin (of_int i) \<and> 0 \<le> f \<and> 0 \<le> i"
    if "l \<in> set (ri_legs input)" for l using ok that check_leg_bps by (auto simp: list_all_iff)
  have agg: "\<exists>n. aggregate_bps (map g (ri_legs input)) = Fin (of_int n) \<and> 0 \<le> n \<and> n \<le> 10000"
    if "\<forall>l \<in> set (ri_legs input). \<not> js_lt (Fin 10000) (g l)" and "\<And>l. l \<in> set (ri_legs input) \<Longrightarrow> \<exists>b. g l = Fin (of_int b) \<and> 0 \<le> b" for g
    using that by (intro aggregate_unit) (fastforce simp: list_all_iff)
  have path: "continuous ls \<Longrightarrow> Suc i < length ls \<Longrightarrow> rl_inTokenMint (ls ! Suc i) = rl_outTokenMint (ls ! i)" for ls i
    by (induction ls arbitrary: i rule: continuous.induct) (auto simp: nth_Cons split: nat.splits)
  have "distinct (map leg_key ls) \<Longrightarrow> distinct (map (\<lambda>l. (rl_inTokenMint l, rl_outTokenMint l, rl_poolId l)) ls)" for ls
    by (auto simp: distinct_map inj_on_def leg_key_def)
  moreover have "check_conversion qc = Inr () \<Longrightarrow> qc_depegState qc \<in> {''NONE'', ''WATCH''}" for qc
    unfolding check_conversion_def by (auto split: if_splits)
  then have "pred_option (\<lambda>qc. qc_depegState qc \<in> {''NONE'', ''WATCH''}) (ri_quoteConversion input)"
    using ok by (cases "ri_quoteConversion input") auto
  moreover have "case ri_maxLegs input of None \<Rightarrow> length (ri_legs input) \<le> 5
     | Some c \<Rightarrow> \<exists>m. c = Fin (of_int m) \<and> int (length (ri_legs input)) \<le> m"
  proof (cases "ri_maxLegs input")
    case None
    then obtain m :: int where m: "5 = rat_of_int m" "int (length (ri_legs input)) \<le> m" using ok by auto
    from m(1) have "m = 5" by (metis of_int_eq_iff of_int_numeral)
    with m(2) None show ?thesis by simp
  next
    case (Some c)
    then show ?thesis using ok by auto
  qed
  ultimately show ?thesis
    using ok shared_vaults [of "ri_legs input"] path [of "ri_legs input"] agg [of rl_feeBps] agg [of rl_priceImpactBps] legs
    by (elim conjE) (intro conjI allI impI; force?)
qed

definition demo_leg :: "string \<Rightarrow> string \<Rightarrow> string \<Rightarrow> jsnum \<Rightarrow> route_leg" where
  "demo_leg a b pool fee = \<lparr>rl_legId = pool, rl_poolId = pool, rl_vaultIds = [''v'', pool], rl_feeBps = fee,
     rl_priceImpactBps = Fin 0, rl_inTokenMint = a, rl_outTokenMint = b\<rparr>"

definition demo_route :: "jsnum \<Rightarrow> route_input" where
  "demo_route fee = \<lparr>ri_legs = [demo_leg ''A'' ''B'' ''p'' fee, demo_leg ''B'' ''C'' ''q'' fee], ri_quoteConversion = None,
     ri_maxLegs = None, ri_transactionPayload = False\<rparr>"

lemma demo_route_run:
  assumes "0 \<le> f"
  shows "evaluateRoute (demo_route (Fin (of_int f))) = Inr \<lparr>re_aggregateImpactBps = aggregate_bps [Fin 0, Fin 0],
    re_aggregateFeeBps = aggregate_bps [Fin (of_int f), Fin (of_int f)], re_legs = ri_legs (demo_route (Fin (of_int f))),
    re_sharedVaultIds = detectSharedVaults (ri_legs (demo_route (Fin (of_int f)))), re_quoteConversion = None, re_routeComplexity = 2\<rparr>"
  using assms by (simp add: evaluateRoute_def demo_route_def demo_leg_def check_leg_def requireLegField_def leg_key_def Let_def)

theorem route_evaluation_sound_witness:
  "\<exists>r. evaluateRoute (demo_route (Fin (of_int 30))) = Inr r \<and> set (re_sharedVaultIds r) = {''v''} \<and>
     (\<exists>n. re_aggregateFeeBps r = Fin (of_int n) \<and> 0 \<le> n \<and> n \<le> 10000)"
proof -
  obtain r where r: "evaluateRoute (demo_route (Fin (of_int 30))) = Inr r" using demo_route_run [of 30] by simp
  have "{v. 1 < count_list (concat (map rl_vaultIds (ri_legs (demo_route (Fin (of_int 30)))))) v} = {''v''}"
    by (auto simp: demo_route_def demo_leg_def split: if_splits)
  then show ?thesis using route_evaluation_sound [OF r] r by (auto simp: demo_route_def demo_leg_def)
qed

text \<open>
  Basis points above 10000 are not refused, and the compounding then changes sign: two legs
  that each charge twice the amount are reported as a route without a fee.
\<close>

lemma oversized_fees_cancel:
  "\<exists>r. evaluateRoute (demo_route (Fin (of_int 20000))) = Inr r \<and> re_aggregateFeeBps r = Fin 0"
proof -
  have n: "to_num (- 1) = Fin (- 1)" "to_num 2 = Fin 2" "to_num 1 = Fin 1" "to_num 0 = Fin 0"
    using to_num_of_int [of "- 1"] to_num_of_int [of 2] to_num_of_int [of 1] to_num_of_int [of 0] by simp_all
  have "aggregate_bps [Fin 20000, Fin 20000] = Fin 0"
    by (simp add: aggregate_bps_def compound_def js_sub_def n floor_eq_iff)
  then show ?thesis using demo_route_run [of 20000] by simp
qed

text \<open>
  The coverage verdict is \<open>COMPLETE\<close> exactly when the pool, both
  vaults and both mints are available, for designs that need them also the tick, bin and
  position accounts, and the decoded state is itself complete, whatever the notional. The
  missing families are listed without repetition; as soon as one is missing the fill is materially
  affected and the uncertainty bound is a quarter per missing family, at most 1. A notional that is no plain
  decimal is refused.
\<close>

theorem completeness_fail_closed:
  "(case assessStateCompleteness input of
      Inl e \<Rightarrow> e = ExecVocabularyError EXEC_UNCERTAINTY_INPUT_INVALID \<and> \<not> decimal_text (as_notionalUsd input)
    | Inr c \<Rightarrow> decimal_text (as_notionalUsd input) \<and>
        (let needed = {''Pool'', ''Vault0'', ''Vault1'', ''Mint0'', ''Mint1''} \<union>
              (if as_requiresConditionalFamilies input then {''TickArray'', ''BinArray'', ''Position''} else {});
             missing = needed - set (as_availableAccountFamilies input)
         in set (ca_missingAccountFamilies c) = missing \<and> distinct (ca_missingAccountFamilies c) \<and>
            (ca_stateCompleteness c = COMPLETE \<longleftrightarrow> missing = {} \<and> ps_stateCompleteness (as_decoded input) = COMPLETE) \<and>
            (ca_materialToFill c \<longleftrightarrow> missing \<noteq> {}) \<and>
            ca_uncertaintyBound c = (if missing = {} then None else Some (Fin (min 1 (of_nat (card missing) / 4))))))"
proof (cases "decimal_text (as_notionalUsd input)")
  case False
  then show ?thesis by (simp add: assessStateCompleteness_def)
next
  case True
  let ?av = "as_availableAccountFamilies input"
  define missing where "missing = filter (\<lambda>f. f \<notin> set ?av) ALWAYS_MATERIAL_FAMILIES @
    (if as_requiresConditionalFamilies input
     then filter (\<lambda>f. f \<noteq> ''CurveState'' \<and> f \<notin> set ?av) CONDITIONALLY_MATERIAL_FAMILIES else [])"
  define needed where "needed = {''Pool'', ''Vault0'', ''Vault1'', ''Mint0'', ''Mint1''} \<union>
    (if as_requiresConditionalFamilies input then {''TickArray'', ''BinArray'', ''Position''} else {})"
  have a: "set ALWAYS_MATERIAL_FAMILIES = {''Pool'', ''Vault0'', ''Vault1'', ''Mint0'', ''Mint1''}"
    by (simp add: ALWAYS_MATERIAL_FAMILIES_def)
  have c: "set (filter (\<lambda>f. f \<noteq> ''CurveState'') CONDITIONALLY_MATERIAL_FAMILIES) = {''TickArray'', ''BinArray'', ''Position''}"
    by (simp add: CONDITIONALLY_MATERIAL_FAMILIES_def)
  have set_m: "set missing = needed - set ?av"
    unfolding missing_def needed_def a [symmetric] c [symmetric] by auto
  have "distinct (ALWAYS_MATERIAL_FAMILIES @ CONDITIONALLY_MATERIAL_FAMILIES)"
    by (simp add: ALWAYS_MATERIAL_FAMILIES_def CONDITIONALLY_MATERIAL_FAMILIES_def)
  then have dist: "distinct missing" unfolding missing_def by (auto simp: distinct_append)
  have nil: "missing = [] \<longleftrightarrow> needed - set ?av = {}" using set_m by (metis set_empty2)
  have len: "length missing = card (needed - set ?av)" using dist set_m by (metis distinct_card)
  have le: "length missing \<le> 8"
    unfolding missing_def ALWAYS_MATERIAL_FAMILIES_def CONDITIONALLY_MATERIAL_FAMILIES_def by simp
  have num: "js_mul (Fin (1 / 4)) (Fin (of_nat (length missing))) = Fin (of_nat (length missing) / 4)"
  proof -
    have "fl (of_int (int (length missing)) * 2 powi (- 2)) = of_int (int (length missing)) * 2 powi (- 2)"
      using le by (intro fl_scaled) auto
    then show ?thesis using le by (simp add: to_num_def Let_def power_int_minus)
  qed
  have "js_min (Fin 1) (Fin (of_nat (length missing) / 4)) = Fin (min 1 (of_nat (card (needed - set ?av)) / 4))"
    using len by (auto simp: js_min_def min_def)
  then have "assessStateCompleteness input = Inr \<lparr>
      ca_stateCompleteness = (if missing \<noteq> [] \<or> ps_stateCompleteness (as_decoded input) = INCOMPLETE_BLOCKING then INCOMPLETE_BLOCKING else COMPLETE),
      ca_missingAccountFamilies = missing, ca_materialToFill = (missing \<noteq> []),
      ca_uncertaintyBound = (if missing = [] then None else Some (Fin (min 1 (of_nat (card (needed - set ?av)) / 4))))\<rparr>"
    using True unfolding assessStateCompleteness_def Let_def missing_def [symmetric] num by simp
  moreover have "ps_stateCompleteness (as_decoded input) = INCOMPLETE_BLOCKING \<longleftrightarrow> ps_stateCompleteness (as_decoded input) \<noteq> COMPLETE"
    by (cases "ps_stateCompleteness (as_decoded input)") simp_all
  ultimately show ?thesis
    unfolding Let_def needed_def [symmetric] using True set_m dist nil by simp
qed

theorem completeness_fail_closed_witness:
  "assessStateCompleteness \<lparr>as_decoded = \<lparr>ps_programId = ''amm'', ps_programVersion = ''v1'', ps_adapterId = ''cp'',
       ps_adapterVersion = ''1'', ps_reserves = [], ps_curveState = [], ps_feeConfiguration = [], ps_stateCompleteness = COMPLETE\<rparr>,
     as_availableAccountFamilies = [''Pool'', ''Vault0''], as_requiresConditionalFamilies = False, as_notionalUsd = ''12.5''\<rparr>
   = Inr \<lparr>ca_stateCompleteness = INCOMPLETE_BLOCKING, ca_missingAccountFamilies = [''Vault1'', ''Mint0'', ''Mint1''],
       ca_materialToFill = True, ca_uncertaintyBound = Some (Fin (3 / 4))\<rparr>" (is "?a = _")
proof -
  have d: "decimal_text ''12.5''" by (simp add: decimal_text_def dec_digit_def)
  then obtain c where c: "?a = Inr c" "ca_missingAccountFamilies c = [''Vault1'', ''Mint0'', ''Mint1'']"
    by (simp add: assessStateCompleteness_def ALWAYS_MATERIAL_FAMILIES_def Let_def)
  have "ca_stateCompleteness c \<noteq> COMPLETE \<and> ca_materialToFill c \<and>
      (\<exists>m :: string set. set (ca_missingAccountFamilies c) = m \<and> ca_uncertaintyBound c = (if m = {} then None else Some (Fin (min 1 (of_nat (card m) / 4)))))"
    using completeness_fail_closed [of "\<lparr>as_decoded = \<lparr>ps_programId = ''amm'', ps_programVersion = ''v1'', ps_adapterId = ''cp'',
       ps_adapterVersion = ''1'', ps_reserves = [], ps_curveState = [], ps_feeConfiguration = [], ps_stateCompleteness = COMPLETE\<rparr>,
     as_availableAccountFamilies = [''Pool'', ''Vault0''], as_requiresConditionalFamilies = False, as_notionalUsd = ''12.5''\<rparr>"]
    unfolding c(1) Let_def sum.case by auto
  then show ?thesis using c by (cases c; cases "ca_stateCompleteness c") auto
qed

end
