(* ===== verification/ExecLaws.thy ===== *)
theory ExecLaws
  imports WfDomain PoolAdapter
begin

text \<open>
  The execution vocabularies and pure laws of packages/domain/src/exec.ts: outcome-label
  precedence, the profit-rendering prohibition, confirmation gating, executable targets,
  uncertainty blocking, delay robustness and adverse ordering. Arguments are of type \<open>unknown\<close> at
  run time, so every clause is a \<open>js_unknown\<close> and is parsed as the code parses it.
\<close>

section \<open>Vocabularies\<close>

datatype outcome_class =
    Oc_SIGNAL_SUCCESS | Oc_SIGNAL_FAILURE | Oc_TRADABLE_SUCCESS
  | Oc_TRADABLE_FAILURE | Oc_TRADABLE_NEUTRAL | Oc_NEUTRAL
  | Oc_PENDING | Oc_CENSORED | Oc_INVALID_DATA

fun outcome_class_text :: "outcome_class \<Rightarrow> string" where
  "outcome_class_text Oc_SIGNAL_SUCCESS = ''SIGNAL_SUCCESS''"
| "outcome_class_text Oc_SIGNAL_FAILURE = ''SIGNAL_FAILURE''"
| "outcome_class_text Oc_TRADABLE_SUCCESS = ''TRADABLE_SUCCESS''"
| "outcome_class_text Oc_TRADABLE_FAILURE = ''TRADABLE_FAILURE''"
| "outcome_class_text Oc_TRADABLE_NEUTRAL = ''TRADABLE_NEUTRAL''"
| "outcome_class_text Oc_NEUTRAL = ''NEUTRAL''"
| "outcome_class_text Oc_PENDING = ''PENDING''"
| "outcome_class_text Oc_CENSORED = ''CENSORED''"
| "outcome_class_text Oc_INVALID_DATA = ''INVALID_DATA''"

definition ALL_OUTCOME_CLASSES :: "outcome_class list" where
  "ALL_OUTCOME_CLASSES =
     [Oc_SIGNAL_SUCCESS, Oc_SIGNAL_FAILURE, Oc_TRADABLE_SUCCESS,
      Oc_TRADABLE_FAILURE, Oc_TRADABLE_NEUTRAL, Oc_NEUTRAL,
      Oc_PENDING, Oc_CENSORED, Oc_INVALID_DATA]"

datatype outcome_maturity =
    Mat_PENDING | Mat_PARTIALLY_MATURED | Mat_FULLY_MATURED
  | Mat_CENSORED | Mat_INVALID_DATA

fun outcome_maturity_text :: "outcome_maturity \<Rightarrow> string" where
  "outcome_maturity_text Mat_PENDING = ''PENDING''"
| "outcome_maturity_text Mat_PARTIALLY_MATURED = ''PARTIALLY_MATURED''"
| "outcome_maturity_text Mat_FULLY_MATURED = ''FULLY_MATURED''"
| "outcome_maturity_text Mat_CENSORED = ''CENSORED''"
| "outcome_maturity_text Mat_INVALID_DATA = ''INVALID_DATA''"

definition ALL_OUTCOME_MATURITIES :: "outcome_maturity list" where
  "ALL_OUTCOME_MATURITIES =
     [Mat_PENDING, Mat_PARTIALLY_MATURED, Mat_FULLY_MATURED,
      Mat_CENSORED, Mat_INVALID_DATA]"

fun adapter_family_text :: "adapter_family \<Rightarrow> string" where
  "adapter_family_text CONSTANT_PRODUCT_AMM = ''CONSTANT_PRODUCT_AMM''"
| "adapter_family_text CONCENTRATED_LIQUIDITY_AMM = ''CONCENTRATED_LIQUIDITY_AMM''"
| "adapter_family_text DISCRETE_LIQUIDITY_BIN_AMM = ''DISCRETE_LIQUIDITY_BIN_AMM''"
| "adapter_family_text BONDING_CURVE = ''BONDING_CURVE''"
| "adapter_family_text STABLE_CURVE = ''STABLE_CURVE''"
| "adapter_family_text DYNAMIC_FEE_AMM = ''DYNAMIC_FEE_AMM''"
| "adapter_family_text VIRTUAL_RESERVE = ''VIRTUAL_RESERVE''"
| "adapter_family_text AGGREGATED_MULTI_ROUTE_READ_ONLY = ''AGGREGATED_MULTI_ROUTE_READ_ONLY''"
| "adapter_family_text UNKNOWN = ''UNKNOWN''"

definition ALL_ADAPTER_FAMILIES :: "adapter_family list" where
  "ALL_ADAPTER_FAMILIES =
     [CONSTANT_PRODUCT_AMM, CONCENTRATED_LIQUIDITY_AMM, DISCRETE_LIQUIDITY_BIN_AMM,
      BONDING_CURVE, STABLE_CURVE, DYNAMIC_FEE_AMM,
      VIRTUAL_RESERVE, AGGREGATED_MULTI_ROUTE_READ_ONLY, UNKNOWN]"

fun adapter_support_state_text :: "adapter_support_state \<Rightarrow> string" where
  "adapter_support_state_text Sup_AVAILABLE = ''AVAILABLE''"
| "adapter_support_state_text Sup_DEGRADED = ''DEGRADED''"
| "adapter_support_state_text Sup_UNAVAILABLE = ''UNAVAILABLE''"

definition ALL_ADAPTER_SUPPORT_STATES :: "adapter_support_state list" where
  "ALL_ADAPTER_SUPPORT_STATES =
     [Sup_AVAILABLE, Sup_DEGRADED, Sup_UNAVAILABLE]"

datatype exec_status =
    Ex_EXECUTED_FULL | Ex_EXECUTION_PARTIAL | Ex_EXECUTION_UNAVAILABLE
  | Ex_POOL_MATH_UNSUPPORTED | Ex_INSUFFICIENT_DATA

fun exec_status_text :: "exec_status \<Rightarrow> string" where
  "exec_status_text Ex_EXECUTED_FULL = ''EXECUTED_FULL''"
| "exec_status_text Ex_EXECUTION_PARTIAL = ''EXECUTION_PARTIAL''"
| "exec_status_text Ex_EXECUTION_UNAVAILABLE = ''EXECUTION_UNAVAILABLE''"
| "exec_status_text Ex_POOL_MATH_UNSUPPORTED = ''POOL_MATH_UNSUPPORTED''"
| "exec_status_text Ex_INSUFFICIENT_DATA = ''INSUFFICIENT_DATA''"

definition ALL_EXECUTION_STATUSES :: "exec_status list" where
  "ALL_EXECUTION_STATUSES =
     [Ex_EXECUTED_FULL, Ex_EXECUTION_PARTIAL, Ex_EXECUTION_UNAVAILABLE,
      Ex_POOL_MATH_UNSUPPORTED, Ex_INSUFFICIENT_DATA]"

datatype stress_scenario_kind =
    Str_BASE_CASE | Str_P50_DELAY | Str_P90_DELAY
  | Str_CONSERVATIVE_LATENCY_ADVERSE_SELECTION | Str_LIQUIDITY_DRAWDOWN | Str_FEE_VOLATILITY
  | Str_ROUTE_DEGRADATION | Str_FAILED_PARTIAL_FILL

fun stress_scenario_kind_text :: "stress_scenario_kind \<Rightarrow> string" where
  "stress_scenario_kind_text Str_BASE_CASE = ''BASE_CASE''"
| "stress_scenario_kind_text Str_P50_DELAY = ''P50_DELAY''"
| "stress_scenario_kind_text Str_P90_DELAY = ''P90_DELAY''"
| "stress_scenario_kind_text Str_CONSERVATIVE_LATENCY_ADVERSE_SELECTION = ''CONSERVATIVE_LATENCY_ADVERSE_SELECTION''"
| "stress_scenario_kind_text Str_LIQUIDITY_DRAWDOWN = ''LIQUIDITY_DRAWDOWN''"
| "stress_scenario_kind_text Str_FEE_VOLATILITY = ''FEE_VOLATILITY''"
| "stress_scenario_kind_text Str_ROUTE_DEGRADATION = ''ROUTE_DEGRADATION''"
| "stress_scenario_kind_text Str_FAILED_PARTIAL_FILL = ''FAILED_PARTIAL_FILL''"

definition ALL_STRESS_SCENARIO_KINDS :: "stress_scenario_kind list" where
  "ALL_STRESS_SCENARIO_KINDS =
     [Str_BASE_CASE, Str_P50_DELAY, Str_P90_DELAY,
      Str_CONSERVATIVE_LATENCY_ADVERSE_SELECTION, Str_LIQUIDITY_DRAWDOWN, Str_FEE_VOLATILITY,
      Str_ROUTE_DEGRADATION, Str_FAILED_PARTIAL_FILL]"

datatype exit_policy_kind =
    Exit_FIXED_HORIZON | Exit_TAKE_PROFIT_STOP_LOSS | Exit_TRAILING_EXIT
  | Exit_STAGED_EXIT | Exit_LIQUIDITY_RISK_DETERIORATION | Exit_THESIS_INVALIDATION

fun exit_policy_kind_text :: "exit_policy_kind \<Rightarrow> string" where
  "exit_policy_kind_text Exit_FIXED_HORIZON = ''FIXED_HORIZON''"
| "exit_policy_kind_text Exit_TAKE_PROFIT_STOP_LOSS = ''TAKE_PROFIT_STOP_LOSS''"
| "exit_policy_kind_text Exit_TRAILING_EXIT = ''TRAILING_EXIT''"
| "exit_policy_kind_text Exit_STAGED_EXIT = ''STAGED_EXIT''"
| "exit_policy_kind_text Exit_LIQUIDITY_RISK_DETERIORATION = ''LIQUIDITY_RISK_DETERIORATION''"
| "exit_policy_kind_text Exit_THESIS_INVALIDATION = ''THESIS_INVALIDATION''"

definition ALL_EXIT_POLICY_KINDS :: "exit_policy_kind list" where
  "ALL_EXIT_POLICY_KINDS =
     [Exit_FIXED_HORIZON, Exit_TAKE_PROFIT_STOP_LOSS, Exit_TRAILING_EXIT,
      Exit_STAGED_EXIT, Exit_LIQUIDITY_RISK_DETERIORATION, Exit_THESIS_INVALIDATION]"

datatype primary_ordering =
    Ord_ADVERSE_FEASIBLE | Ord_UNAMBIGUOUS

fun primary_ordering_text :: "primary_ordering \<Rightarrow> string" where
  "primary_ordering_text Ord_ADVERSE_FEASIBLE = ''ADVERSE_FEASIBLE''"
| "primary_ordering_text Ord_UNAMBIGUOUS = ''UNAMBIGUOUS''"

definition ALL_PRIMARY_ORDERINGS :: "primary_ordering list" where
  "ALL_PRIMARY_ORDERINGS =
     [Ord_ADVERSE_FEASIBLE, Ord_UNAMBIGUOUS]"

datatype tradability_verdict =
    Tv_TRADABLE | Tv_UNCERTAINTY_BLOCKED | Tv_TARGET_NOT_EXECUTABLE
  | Tv_STATE_INCOMPLETE | Tv_EXECUTION_UNAVAILABLE | Tv_POOL_MATH_UNSUPPORTED
  | Tv_INSUFFICIENT_DATA

fun tradability_verdict_text :: "tradability_verdict \<Rightarrow> string" where
  "tradability_verdict_text Tv_TRADABLE = ''TRADABLE''"
| "tradability_verdict_text Tv_UNCERTAINTY_BLOCKED = ''UNCERTAINTY_BLOCKED''"
| "tradability_verdict_text Tv_TARGET_NOT_EXECUTABLE = ''TARGET_NOT_EXECUTABLE''"
| "tradability_verdict_text Tv_STATE_INCOMPLETE = ''STATE_INCOMPLETE''"
| "tradability_verdict_text Tv_EXECUTION_UNAVAILABLE = ''EXECUTION_UNAVAILABLE''"
| "tradability_verdict_text Tv_POOL_MATH_UNSUPPORTED = ''POOL_MATH_UNSUPPORTED''"
| "tradability_verdict_text Tv_INSUFFICIENT_DATA = ''INSUFFICIENT_DATA''"

definition ALL_TRADABILITY_VERDICTS :: "tradability_verdict list" where
  "ALL_TRADABILITY_VERDICTS =
     [Tv_TRADABLE, Tv_UNCERTAINTY_BLOCKED, Tv_TARGET_NOT_EXECUTABLE,
      Tv_STATE_INCOMPLETE, Tv_EXECUTION_UNAVAILABLE, Tv_POOL_MATH_UNSUPPORTED,
      Tv_INSUFFICIENT_DATA]"

datatype observation_trigger_class =
    Ob_DEEP_RESEARCH | Ob_EARLY_WATCH | Ob_CONFIRMED_OPPORTUNITY
  | Ob_CONTROL_SAMPLE | Ob_SHADOW_PORTFOLIO

fun observation_trigger_class_text :: "observation_trigger_class \<Rightarrow> string" where
  "observation_trigger_class_text Ob_DEEP_RESEARCH = ''DEEP_RESEARCH''"
| "observation_trigger_class_text Ob_EARLY_WATCH = ''EARLY_WATCH''"
| "observation_trigger_class_text Ob_CONFIRMED_OPPORTUNITY = ''CONFIRMED_OPPORTUNITY''"
| "observation_trigger_class_text Ob_CONTROL_SAMPLE = ''CONTROL_SAMPLE''"
| "observation_trigger_class_text Ob_SHADOW_PORTFOLIO = ''SHADOW_PORTFOLIO''"

definition ALL_OBSERVATION_PLAN_TRIGGER_CLASSES :: "observation_trigger_class list" where
  "ALL_OBSERVATION_PLAN_TRIGGER_CLASSES =
     [Ob_DEEP_RESEARCH, Ob_EARLY_WATCH, Ob_CONFIRMED_OPPORTUNITY,
      Ob_CONTROL_SAMPLE, Ob_SHADOW_PORTFOLIO]"

datatype tradable_failure_reason =
    Fr_SECURITY_OR_LIQUIDITY | Fr_EXPLICIT_FAILURE_CLAUSE

fun tradable_failure_reason_text :: "tradable_failure_reason \<Rightarrow> string" where
  "tradable_failure_reason_text Fr_SECURITY_OR_LIQUIDITY = ''SECURITY_OR_LIQUIDITY''"
| "tradable_failure_reason_text Fr_EXPLICIT_FAILURE_CLAUSE = ''EXPLICIT_FAILURE_CLAUSE''"

definition ALL_TRADABLE_FAILURE_REASONS :: "tradable_failure_reason list" where
  "ALL_TRADABLE_FAILURE_REASONS =
     [Fr_SECURITY_OR_LIQUIDITY, Fr_EXPLICIT_FAILURE_CLAUSE]"

section \<open>Fail-closed parsers\<close>

definition parseVocabulary ::
  "'a list \<Rightarrow> ('a \<Rightarrow> string) \<Rightarrow> js_unknown \<Rightarrow> exec_error_code \<Rightarrow> 'a res" where
  "parseVocabulary vals name v code =
     (case v of
        U_string s \<Rightarrow> (case find (\<lambda>x. name x = s) vals of
          Some x \<Rightarrow> Inr x
        | None \<Rightarrow> Inl (ExecVocabularyError code))
      | _ \<Rightarrow> Inl (ExecVocabularyError code))"

definition parseStrictBoolean :: "js_unknown \<Rightarrow> exec_error_code \<Rightarrow> bool res" where
  "parseStrictBoolean v code = (case v of U_bool b \<Rightarrow> Inr b | _ \<Rightarrow> Inl (ExecVocabularyError code))"

definition outcomeClass :: "js_unknown \<Rightarrow> outcome_class res" where
  "outcomeClass v = parseVocabulary ALL_OUTCOME_CLASSES outcome_class_text v OUTCOME_CLASS_UNKNOWN"

definition outcomeMaturity :: "js_unknown \<Rightarrow> outcome_maturity res" where
  "outcomeMaturity v = parseVocabulary ALL_OUTCOME_MATURITIES outcome_maturity_text v OUTCOME_MATURITY_UNKNOWN"

definition adapterFamily :: "js_unknown \<Rightarrow> adapter_family res" where
  "adapterFamily v = parseVocabulary ALL_ADAPTER_FAMILIES adapter_family_text v ADAPTER_FAMILY_UNKNOWN"

definition adapterSupportState :: "js_unknown \<Rightarrow> adapter_support_state res" where
  "adapterSupportState v = parseVocabulary ALL_ADAPTER_SUPPORT_STATES adapter_support_state_text v ADAPTER_SUPPORT_STATE_UNKNOWN"

definition executionStatus :: "js_unknown \<Rightarrow> exec_status res" where
  "executionStatus v = parseVocabulary ALL_EXECUTION_STATUSES exec_status_text v EXECUTION_STATUS_UNKNOWN"

definition stressScenarioKind :: "js_unknown \<Rightarrow> stress_scenario_kind res" where
  "stressScenarioKind v = parseVocabulary ALL_STRESS_SCENARIO_KINDS stress_scenario_kind_text v STRESS_SCENARIO_KIND_UNKNOWN"

definition exitPolicyKind :: "js_unknown \<Rightarrow> exit_policy_kind res" where
  "exitPolicyKind v = parseVocabulary ALL_EXIT_POLICY_KINDS exit_policy_kind_text v EXIT_POLICY_KIND_UNKNOWN"

definition primaryOrdering :: "js_unknown \<Rightarrow> primary_ordering res" where
  "primaryOrdering v = parseVocabulary ALL_PRIMARY_ORDERINGS primary_ordering_text v PRIMARY_ORDERING_UNKNOWN"

definition tradabilityVerdict :: "js_unknown \<Rightarrow> tradability_verdict res" where
  "tradabilityVerdict v = parseVocabulary ALL_TRADABILITY_VERDICTS tradability_verdict_text v TRADABILITY_VERDICT_UNKNOWN"

definition observationPlanTriggerClass :: "js_unknown \<Rightarrow> observation_trigger_class res" where
  "observationPlanTriggerClass v = parseVocabulary ALL_OBSERVATION_PLAN_TRIGGER_CLASSES observation_trigger_class_text v OBSERVATION_PLAN_TRIGGER_CLASS_UNKNOWN"

definition tradableFailureReason :: "js_unknown \<Rightarrow> tradable_failure_reason res" where
  "tradableFailureReason v = parseVocabulary ALL_TRADABLE_FAILURE_REASONS tradable_failure_reason_text v TRADABLE_FAILURE_REASON_UNKNOWN"

section \<open>Outcome labels\<close>

definition SIGNAL_OUTCOME_CLASSES :: "outcome_class list" where
  "SIGNAL_OUTCOME_CLASSES = [Oc_SIGNAL_SUCCESS, Oc_SIGNAL_FAILURE]"

definition TERMINAL_TRADABLE_OUTCOME_CLASSES :: "outcome_class list" where
  "TERMINAL_TRADABLE_OUTCOME_CLASSES =
     [Oc_TRADABLE_SUCCESS, Oc_TRADABLE_FAILURE, Oc_TRADABLE_NEUTRAL, Oc_NEUTRAL]"

record label_clauses =
  lc_invalidData :: js_unknown
  lc_censored :: js_unknown
  lc_maturity :: js_unknown
  lc_tradableSecurityOrLiquidityFailure :: js_unknown
  lc_tradableSuccess :: js_unknown
  lc_tradableFailure :: js_unknown
  lc_signalSuccess :: js_unknown
  lc_signalFailure :: js_unknown

record label_result =
  lr_tradableLabel :: outcome_class
  lr_tradableFailureReason :: "tradable_failure_reason option"
  lr_signalLabel :: "outcome_class option"
  lr_maturity :: outcome_maturity

definition label_of :: "outcome_class \<Rightarrow> tradable_failure_reason option \<Rightarrow> outcome_class option \<Rightarrow> outcome_maturity \<Rightarrow> label_result" where
  "label_of label reason signal maturity =
     \<lparr>lr_tradableLabel = label, lr_tradableFailureReason = reason, lr_signalLabel = signal, lr_maturity = maturity\<rparr>"

text \<open>The order of the rules, once the clauses are parsed and consistent.\<close>

definition precedence ::
  "bool \<Rightarrow> bool \<Rightarrow> bool \<Rightarrow> bool \<Rightarrow> bool \<Rightarrow> outcome_class option \<Rightarrow> outcome_maturity \<Rightarrow> label_result res" where
  "precedence invalidData censored securityFailure success failure signalLabel maturity =
     (if invalidData \<or> maturity = Mat_INVALID_DATA then Inr (label_of Oc_INVALID_DATA None signalLabel maturity)
      else if censored \<or> maturity = Mat_CENSORED then Inr (label_of Oc_CENSORED None signalLabel maturity)
      else if maturity = Mat_PENDING \<or> maturity = Mat_PARTIALLY_MATURED then Inr (label_of Oc_PENDING None signalLabel maturity)
      else if maturity \<noteq> Mat_FULLY_MATURED then Inl (ExecVocabularyError EXEC_LABEL_CLAUSES_INVALID)
      else if securityFailure
        then Inr (label_of Oc_TRADABLE_FAILURE (Some Fr_SECURITY_OR_LIQUIDITY) signalLabel maturity)
      else if success then Inr (label_of Oc_TRADABLE_SUCCESS None signalLabel maturity)
      else if failure
        then Inr (label_of Oc_TRADABLE_FAILURE (Some Fr_EXPLICIT_FAILURE_CLAUSE) signalLabel maturity)
      else Inr (label_of Oc_TRADABLE_NEUTRAL None signalLabel maturity))"

definition outcomeLabelPrecedence :: "label_clauses \<Rightarrow> label_result res" where
  "outcomeLabelPrecedence clauses =
     bindE (parseStrictBoolean (lc_invalidData clauses) EXEC_LABEL_CLAUSES_INVALID) (\<lambda>invalidData.
     bindE (parseStrictBoolean (lc_censored clauses) EXEC_LABEL_CLAUSES_INVALID) (\<lambda>censored.
     bindE (parseStrictBoolean (lc_tradableSecurityOrLiquidityFailure clauses) EXEC_LABEL_CLAUSES_INVALID) (\<lambda>securityFailure.
     bindE (parseStrictBoolean (lc_tradableSuccess clauses) EXEC_LABEL_CLAUSES_INVALID) (\<lambda>tradableSuccess.
     bindE (parseStrictBoolean (lc_tradableFailure clauses) EXEC_LABEL_CLAUSES_INVALID) (\<lambda>tradableFailure.
     bindE (parseStrictBoolean (lc_signalSuccess clauses) EXEC_LABEL_CLAUSES_INVALID) (\<lambda>signalSuccess.
     bindE (parseStrictBoolean (lc_signalFailure clauses) EXEC_LABEL_CLAUSES_INVALID) (\<lambda>signalFailure.
     bindE (outcomeMaturity (lc_maturity clauses)) (\<lambda>maturity.
     if signalSuccess \<and> signalFailure then Inl (ExecVocabularyError EXEC_LABEL_CLAUSES_INVALID)
     else if censored \<and> (securityFailure \<or> tradableSuccess \<or> tradableFailure)
       then Inl (ExecVocabularyError EXEC_LABEL_CLAUSES_INVALID)
     else if securityFailure \<and> (tradableSuccess \<or> tradableFailure)
       then Inl (ExecVocabularyError EXEC_LABEL_CLAUSES_INVALID)
     else precedence invalidData censored securityFailure tradableSuccess tradableFailure
            (if signalSuccess then Some Oc_SIGNAL_SUCCESS else if signalFailure then Some Oc_SIGNAL_FAILURE else None)
            maturity))))))))"

record rendering_attempt =
  ra_signalLabel :: js_unknown
  ra_tradableLabel :: js_unknown
  ra_renderProfit :: js_unknown

definition nullish :: "js_unknown \<Rightarrow> bool" where
  "nullish v \<longleftrightarrow> v = U_null \<or> v = U_undefined"

definition optional_class :: "js_unknown \<Rightarrow> outcome_class option res" where
  "optional_class v = (if nullish v then Inr None else bindE (outcomeClass v) (\<lambda>c. Inr (Some c)))"

definition signalCannotRenderProfit :: "rendering_attempt \<Rightarrow> bool res" where
  "signalCannotRenderProfit attempt =
     bindE (outcomeClass (ra_signalLabel attempt)) (\<lambda>signalLabel.
     if signalLabel \<notin> set SIGNAL_OUTCOME_CLASSES then Inl (ExecVocabularyError EXEC_PROFIT_RENDERING_INPUT_INVALID)
     else bindE (parseStrictBoolean (ra_renderProfit attempt) EXEC_PROFIT_RENDERING_INPUT_INVALID) (\<lambda>renderProfit.
     if \<not> renderProfit then Inr False
     else bindE (optional_class (ra_tradableLabel attempt)) (\<lambda>tradableLabel.
          Inr (tradableLabel \<noteq> Some Oc_TRADABLE_SUCCESS))))"

section \<open>Confirmation\<close>

record confirmed_result =
  cr_confirmedOpportunity :: bool
  cr_blockReason :: "tradability_verdict option"
  cr_preservedSignalLabel :: "outcome_class option"

definition tradabilityBlocksConfirmedOpportunity :: "js_unknown \<Rightarrow> js_unknown \<Rightarrow> confirmed_result res" where
  "tradabilityBlocksConfirmedOpportunity signalLabel verdict =
     bindE (tradabilityVerdict verdict) (\<lambda>verdict.
     bindE (optional_class signalLabel) (\<lambda>signalLabel.
     let confirmedOpportunity = (verdict = Tv_TRADABLE)
     in Inr \<lparr>cr_confirmedOpportunity = confirmedOpportunity,
             cr_blockReason = (if confirmedOpportunity then None else Some verdict),
             cr_preservedSignalLabel = signalLabel\<rparr>))"

record target_input =
  tg_touched :: js_unknown
  tg_executableVolumeObserved :: js_unknown
  tg_targetDurationSupported :: js_unknown
  tg_isolatedWick :: js_unknown

definition executableTargetSatisfied :: "target_input \<Rightarrow> bool res" where
  "executableTargetSatisfied input =
     bindE (parseStrictBoolean (tg_touched input) EXEC_TARGET_INPUT_INVALID) (\<lambda>touched.
     bindE (parseStrictBoolean (tg_executableVolumeObserved input) EXEC_TARGET_INPUT_INVALID) (\<lambda>volume.
     bindE (parseStrictBoolean (tg_targetDurationSupported input) EXEC_TARGET_INPUT_INVALID) (\<lambda>duration.
     bindE (parseStrictBoolean (tg_isolatedWick input) EXEC_TARGET_INPUT_INVALID) (\<lambda>isolatedWick.
     if \<not> touched then Inr False
     else if isolatedWick then Inr False
     else Inr (volume \<or> duration)))))"

record uncertainty_assessment =
  ua_stateComplete :: js_unknown
  ua_parityVerified :: js_unknown
  ua_uncertaintyBound :: js_unknown
  ua_policyLimit :: js_unknown

definition finite_number :: "js_unknown \<Rightarrow> rat option" where
  "finite_number v = (case v of U_number (Fin a) \<Rightarrow> Some a | _ \<Rightarrow> None)"

definition uncertaintyBlocksTradability :: "uncertainty_assessment \<Rightarrow> bool res" where
  "uncertaintyBlocksTradability a =
     bindE (parseStrictBoolean (ua_stateComplete a) EXEC_UNCERTAINTY_INPUT_INVALID) (\<lambda>stateComplete.
     bindE (parseStrictBoolean (ua_parityVerified a) EXEC_UNCERTAINTY_INPUT_INVALID) (\<lambda>parityVerified.
     case finite_number (ua_policyLimit a) of
       None \<Rightarrow> Inl (ExecVocabularyError EXEC_UNCERTAINTY_INPUT_INVALID)
     | Some policyLimit \<Rightarrow>
         if policyLimit < 0 then Inl (ExecVocabularyError EXEC_UNCERTAINTY_INPUT_INVALID)
         else if \<not> stateComplete then Inr True
         else if \<not> parityVerified then Inr True
         else (case finite_number (ua_uncertaintyBound a) of
             None \<Rightarrow> Inr True
           | Some bound \<Rightarrow>
               if bound < 0 \<or> 1 < bound then Inl (ExecVocabularyError EXEC_UNCERTAINTY_INPUT_INVALID)
               else Inr (policyLimit < bound))))"

section \<open>Delay robustness and ordering\<close>

record delay_gate_input =
  dg_profileRequires :: "js_unknown list"
  dg_results :: "(string \<times> js_unknown) list"

record delay_gate_result =
  dr_robust :: bool
  dr_failures :: "stress_scenario_kind list"

fun delay_failures :: "(string \<times> js_unknown) list \<Rightarrow> js_unknown list \<Rightarrow> stress_scenario_kind list res" where
  "delay_failures results [] = Inr []"
| "delay_failures results (required # rest) =
     bindE (stressScenarioKind required) (\<lambda>kind.
     let result = prop_of results (stress_scenario_kind_text kind)
     in if result \<noteq> U_undefined \<and> (\<forall>b \<in> {True, False}. result \<noteq> U_bool b)
        then Inl (ExecVocabularyError EXEC_DELAY_GATE_INPUT_INVALID)
        else bindE (delay_failures results rest) (\<lambda>failures.
             Inr (if result \<noteq> U_bool True then kind # failures else failures)))"

definition robustDelayGate :: "delay_gate_input \<Rightarrow> delay_gate_result res" where
  "robustDelayGate input =
     (if dg_profileRequires input = [] then Inl (ExecVocabularyError EXEC_DELAY_GATE_INPUT_INVALID)
      else bindE (delay_failures (dg_results input) (dg_profileRequires input)) (\<lambda>failures.
           Inr \<lparr>dr_robust = (failures = []), dr_failures = failures\<rparr>))"

record ordering_result =
  or_primaryOrdering :: primary_ordering
  or_pathAmbiguous :: bool

definition adverseOrderingRequired :: "js_unknown \<Rightarrow> js_unknown \<Rightarrow> js_unknown \<Rightarrow> ordering_result res" where
  "adverseOrderingRequired favorableReachable adverseReachable orderingKnown =
     bindE (parseStrictBoolean favorableReachable EXEC_ORDERING_INPUT_INVALID) (\<lambda>favorable.
     bindE (parseStrictBoolean adverseReachable EXEC_ORDERING_INPUT_INVALID) (\<lambda>adverse.
     bindE (parseStrictBoolean orderingKnown EXEC_ORDERING_INPUT_INVALID) (\<lambda>known.
     if known then Inr \<lparr>or_primaryOrdering = Ord_UNAMBIGUOUS, or_pathAmbiguous = False\<rparr>
     else if favorable \<and> adverse then Inr \<lparr>or_primaryOrdering = Ord_ADVERSE_FEASIBLE, or_pathAmbiguous = True\<rparr>
     else Inr \<lparr>or_primaryOrdering = Ord_UNAMBIGUOUS, or_pathAmbiguous = False\<rparr>)))"

section \<open>What the vocabularies promise\<close>

locale exec_vocabulary = named_values vals name for vals :: "'a list" and name :: "'a \<Rightarrow> string" +
  fixes code :: exec_error_code
begin

lemma parse_iff: "parseVocabulary vals name v code = Inr x \<longleftrightarrow> v = U_string (name x)"
proof
  assume "parseVocabulary vals name v code = Inr x"
  then show "v = U_string (name x)" by (auto simp: parseVocabulary_def find_Some_iff split: js_unknown.splits option.splits)
qed (simp add: parseVocabulary_def find_name)

end

lemma outcome_class_text_inj: "outcome_class_text x = outcome_class_text y \<Longrightarrow> x = y"
  by (cases x; cases y; simp)

interpretation outcomeclass_ev: exec_vocabulary ALL_OUTCOME_CLASSES outcome_class_text OUTCOME_CLASS_UNKNOWN
proof
  show "x \<in> set ALL_OUTCOME_CLASSES" for x by (cases x) (simp_all add: ALL_OUTCOME_CLASSES_def)
qed (rule outcome_class_text_inj)

lemma outcome_maturity_text_inj: "outcome_maturity_text x = outcome_maturity_text y \<Longrightarrow> x = y"
  by (cases x; cases y; simp)

interpretation outcomematurity_ev: exec_vocabulary ALL_OUTCOME_MATURITIES outcome_maturity_text OUTCOME_MATURITY_UNKNOWN
proof
  show "x \<in> set ALL_OUTCOME_MATURITIES" for x by (cases x) (simp_all add: ALL_OUTCOME_MATURITIES_def)
qed (rule outcome_maturity_text_inj)

lemma adapter_family_text_inj: "adapter_family_text x = adapter_family_text y \<Longrightarrow> x = y"
  by (cases x; cases y; simp)

interpretation adapterfamily_ev: exec_vocabulary ALL_ADAPTER_FAMILIES adapter_family_text ADAPTER_FAMILY_UNKNOWN
proof
  show "x \<in> set ALL_ADAPTER_FAMILIES" for x by (cases x) (simp_all add: ALL_ADAPTER_FAMILIES_def)
qed (rule adapter_family_text_inj)

lemma adapter_support_state_text_inj: "adapter_support_state_text x = adapter_support_state_text y \<Longrightarrow> x = y"
  by (cases x; cases y; simp)

interpretation adaptersupportstate_ev: exec_vocabulary ALL_ADAPTER_SUPPORT_STATES adapter_support_state_text ADAPTER_SUPPORT_STATE_UNKNOWN
proof
  show "x \<in> set ALL_ADAPTER_SUPPORT_STATES" for x by (cases x) (simp_all add: ALL_ADAPTER_SUPPORT_STATES_def)
qed (rule adapter_support_state_text_inj)

lemma exec_status_text_inj: "exec_status_text x = exec_status_text y \<Longrightarrow> x = y"
  by (cases x; cases y; simp)

interpretation execstatus_ev: exec_vocabulary ALL_EXECUTION_STATUSES exec_status_text EXECUTION_STATUS_UNKNOWN
proof
  show "x \<in> set ALL_EXECUTION_STATUSES" for x by (cases x) (simp_all add: ALL_EXECUTION_STATUSES_def)
qed (rule exec_status_text_inj)

lemma stress_scenario_kind_text_inj: "stress_scenario_kind_text x = stress_scenario_kind_text y \<Longrightarrow> x = y"
  by (cases x; cases y; simp)

interpretation stressscenariokind_ev: exec_vocabulary ALL_STRESS_SCENARIO_KINDS stress_scenario_kind_text STRESS_SCENARIO_KIND_UNKNOWN
proof
  show "x \<in> set ALL_STRESS_SCENARIO_KINDS" for x by (cases x) (simp_all add: ALL_STRESS_SCENARIO_KINDS_def)
qed (rule stress_scenario_kind_text_inj)

lemma exit_policy_kind_text_inj: "exit_policy_kind_text x = exit_policy_kind_text y \<Longrightarrow> x = y"
  by (cases x; cases y; simp)

interpretation exitpolicykind_ev: exec_vocabulary ALL_EXIT_POLICY_KINDS exit_policy_kind_text EXIT_POLICY_KIND_UNKNOWN
proof
  show "x \<in> set ALL_EXIT_POLICY_KINDS" for x by (cases x) (simp_all add: ALL_EXIT_POLICY_KINDS_def)
qed (rule exit_policy_kind_text_inj)

lemma primary_ordering_text_inj: "primary_ordering_text x = primary_ordering_text y \<Longrightarrow> x = y"
  by (cases x; cases y; simp)

interpretation primaryordering_ev: exec_vocabulary ALL_PRIMARY_ORDERINGS primary_ordering_text PRIMARY_ORDERING_UNKNOWN
proof
  show "x \<in> set ALL_PRIMARY_ORDERINGS" for x by (cases x) (simp_all add: ALL_PRIMARY_ORDERINGS_def)
qed (rule primary_ordering_text_inj)

lemma tradability_verdict_text_inj: "tradability_verdict_text x = tradability_verdict_text y \<Longrightarrow> x = y"
  by (cases x; cases y; simp)

interpretation tradabilityverdict_ev: exec_vocabulary ALL_TRADABILITY_VERDICTS tradability_verdict_text TRADABILITY_VERDICT_UNKNOWN
proof
  show "x \<in> set ALL_TRADABILITY_VERDICTS" for x by (cases x) (simp_all add: ALL_TRADABILITY_VERDICTS_def)
qed (rule tradability_verdict_text_inj)

lemma observation_trigger_class_text_inj: "observation_trigger_class_text x = observation_trigger_class_text y \<Longrightarrow> x = y"
  by (cases x; cases y; simp)

interpretation observationtriggerclass_ev: exec_vocabulary ALL_OBSERVATION_PLAN_TRIGGER_CLASSES observation_trigger_class_text OBSERVATION_PLAN_TRIGGER_CLASS_UNKNOWN
proof
  show "x \<in> set ALL_OBSERVATION_PLAN_TRIGGER_CLASSES" for x by (cases x) (simp_all add: ALL_OBSERVATION_PLAN_TRIGGER_CLASSES_def)
qed (rule observation_trigger_class_text_inj)

lemma tradable_failure_reason_text_inj: "tradable_failure_reason_text x = tradable_failure_reason_text y \<Longrightarrow> x = y"
  by (cases x; cases y; simp)

interpretation tradablefailurereason_ev: exec_vocabulary ALL_TRADABLE_FAILURE_REASONS tradable_failure_reason_text TRADABLE_FAILURE_REASON_UNKNOWN
proof
  show "x \<in> set ALL_TRADABLE_FAILURE_REASONS" for x by (cases x) (simp_all add: ALL_TRADABLE_FAILURE_REASONS_def)
qed (rule tradable_failure_reason_text_inj)

section \<open>Lemmas\<close>

lemma parseStrictBoolean_iff: "parseStrictBoolean v code = Inr b \<longleftrightarrow> v = U_bool b"
  by (auto simp: parseStrictBoolean_def split: js_unknown.splits)

lemma parseStrictBoolean_bool [simp]: "parseStrictBoolean (U_bool b) code = Inr b"
  by (simp add: parseStrictBoolean_def)

lemma outcomeMaturity_iff: "outcomeMaturity v = Inr m \<longleftrightarrow> v = U_string (outcome_maturity_text m)"
  unfolding outcomeMaturity_def by (rule outcomematurity_ev.parse_iff)

lemma outcomeClass_iff: "outcomeClass v = Inr c \<longleftrightarrow> v = U_string (outcome_class_text c)"
  unfolding outcomeClass_def by (rule outcomeclass_ev.parse_iff)

lemma stressScenarioKind_iff: "stressScenarioKind v = Inr k \<longleftrightarrow> v = U_string (stress_scenario_kind_text k)"
  unfolding stressScenarioKind_def by (rule stressscenariokind_ev.parse_iff)

lemma tradabilityVerdict_iff: "tradabilityVerdict v = Inr k \<longleftrightarrow> v = U_string (tradability_verdict_text k)"
  unfolding tradabilityVerdict_def by (rule tradabilityverdict_ev.parse_iff)

text \<open>Well-typed clauses, and the rule table of the specification as a list: the first rule that applies.\<close>

definition typed_clauses ::
  "bool \<Rightarrow> bool \<Rightarrow> bool \<Rightarrow> bool \<Rightarrow> bool \<Rightarrow> bool \<Rightarrow> bool \<Rightarrow> outcome_maturity \<Rightarrow> label_clauses" where
  "typed_clauses bad cen sec suc fai sgs sgf m =
     \<lparr>lc_invalidData = U_bool bad, lc_censored = U_bool cen, lc_maturity = U_string (outcome_maturity_text m),
      lc_tradableSecurityOrLiquidityFailure = U_bool sec, lc_tradableSuccess = U_bool suc, lc_tradableFailure = U_bool fai,
      lc_signalSuccess = U_bool sgs, lc_signalFailure = U_bool sgf\<rparr>"

definition rule_table ::
  "bool \<Rightarrow> bool \<Rightarrow> bool \<Rightarrow> bool \<Rightarrow> bool \<Rightarrow> outcome_maturity \<Rightarrow> (bool \<times> outcome_class \<times> tradable_failure_reason option) list" where
  "rule_table bad cen sec suc fai m =
     [(bad \<or> m = Mat_INVALID_DATA, Oc_INVALID_DATA, None),
      (cen \<or> m = Mat_CENSORED, Oc_CENSORED, None),
      (m = Mat_PENDING \<or> m = Mat_PARTIALLY_MATURED, Oc_PENDING, None),
      (sec, Oc_TRADABLE_FAILURE, Some Fr_SECURITY_OR_LIQUIDITY),
      (suc, Oc_TRADABLE_SUCCESS, None),
      (fai, Oc_TRADABLE_FAILURE, Some Fr_EXPLICIT_FAILURE_CLAUSE),
      (True, Oc_TRADABLE_NEUTRAL, None)]"

definition consistent_clauses :: "bool \<Rightarrow> bool \<Rightarrow> bool \<Rightarrow> bool \<Rightarrow> bool \<Rightarrow> bool \<Rightarrow> bool" where
  "consistent_clauses cen sec suc fai sgs sgf \<longleftrightarrow>
     \<not> (sgs \<and> sgf) \<and> \<not> (cen \<and> (sec \<or> suc \<or> fai)) \<and> \<not> (sec \<and> (suc \<or> fai))"

lemma precedence_table:
  "precedence bad cen sec suc fai sg m =
     (case find fst (rule_table bad cen sec suc fai m) of Some (_, l, r) \<Rightarrow> Inr (label_of l r sg m))"
  by (cases m) (simp_all add: precedence_def rule_table_def)

lemma outcomeLabelPrecedence_typed:
  "outcomeLabelPrecedence (typed_clauses bad cen sec suc fai sgs sgf m) =
     (if consistent_clauses cen sec suc fai sgs sgf
      then precedence bad cen sec suc fai (if sgs then Some Oc_SIGNAL_SUCCESS else if sgf then Some Oc_SIGNAL_FAILURE else None) m
      else Inl (ExecVocabularyError EXEC_LABEL_CLAUSES_INVALID))"
  by (auto simp: outcomeLabelPrecedence_def typed_clauses_def consistent_clauses_def outcomeMaturity_iff [THEN iffD2, OF refl] simp del: outcome_maturity_text.simps)

lemma outcomeLabelPrecedence_parsed:
  assumes "outcomeLabelPrecedence c = Inr r"
  shows "\<exists>bad cen sec suc fai sgs sgf m. c = typed_clauses bad cen sec suc fai sgs sgf m"
proof -
  note parsed = assms [unfolded outcomeLabelPrecedence_def bindE_eq_Inr parseStrictBoolean_iff outcomeMaturity_iff]
  obtain bad where 1: "lc_invalidData c = U_bool bad" using parsed by blast
  obtain cen where 2: "lc_censored c = U_bool cen" using parsed by blast
  obtain sec where 3: "lc_tradableSecurityOrLiquidityFailure c = U_bool sec" using parsed by blast
  obtain suc where 4: "lc_tradableSuccess c = U_bool suc" using parsed by blast
  obtain fai where 5: "lc_tradableFailure c = U_bool fai" using parsed by blast
  obtain sgs where 6: "lc_signalSuccess c = U_bool sgs" using parsed by blast
  obtain sgf where 7: "lc_signalFailure c = U_bool sgf" using parsed by blast
  obtain m where 8: "lc_maturity c = U_string (outcome_maturity_text m)" using parsed by blast
  from 1 2 3 4 5 6 7 8 have "c = typed_clauses bad cen sec suc fai sgs sgf m" by (cases c) (simp add: typed_clauses_def)
  then show ?thesis by blast
qed

lemma delay_failures_robust:
  "delay_failures results req = Inr [] \<longleftrightarrow>
     list_all (\<lambda>v. \<exists>k. v = U_string (stress_scenario_kind_text k) \<and> prop_of results (stress_scenario_kind_text k) = U_bool True) req"
proof (induction req)
  case (Cons v req)
  show ?case
  proof (cases "stressScenarioKind v")
    case (Inl e)
    then have "\<nexists>k. v = U_string (stress_scenario_kind_text k)"
      unfolding stressScenarioKind_iff [symmetric] by simp
    then show ?thesis using Inl by (simp add: bindE_def)
  next
    case (Inr k)
    then have v: "v = U_string (stress_scenario_kind_text k)" by (simp add: stressScenarioKind_iff)
    define result where "result = prop_of results (stress_scenario_kind_text k)"
    have "(\<exists>k'. v = U_string (stress_scenario_kind_text k') \<and> prop_of results (stress_scenario_kind_text k') = U_bool True) \<longleftrightarrow>
        result = U_bool True"
      using v stress_scenario_kind_text_inj unfolding result_def by (metis js_unknown.inject(3))
    moreover have "delay_failures results (v # req) = Inr [] \<longleftrightarrow> result = U_bool True \<and> delay_failures results req = Inr []"
      by (cases "delay_failures results req"; cases "prop_of results (stress_scenario_kind_text k)")
        (auto simp: bindE_def Inr Let_def result_def)
    ultimately show ?thesis using Cons by simp
  qed
qed simp

lemma finite_number_Some: "finite_number v = Some b \<longleftrightarrow> v = U_number (Fin b)"
  by (cases v) (auto simp: finite_number_def split: jsnum.splits)

lemma uncertainty_open:
  "uncertaintyBlocksTradability a = Inr False \<longleftrightarrow>
      ua_stateComplete a = U_bool True \<and> ua_parityVerified a = U_bool True \<and>
      (\<exists>b l. ua_uncertaintyBound a = U_number (Fin b) \<and> ua_policyLimit a = U_number (Fin l) \<and> 0 \<le> b \<and> b \<le> 1 \<and> b \<le> l)"
    (is "?L \<longleftrightarrow> ?R")
proof
  assume ?L
  then obtain sc pv l where 1: "ua_stateComplete a = U_bool sc" "ua_parityVerified a = U_bool pv"
    and l: "finite_number (ua_policyLimit a) = Some l"
    by (cases "finite_number (ua_policyLimit a)") (auto simp: uncertaintyBlocksTradability_def bindE_eq_Inr parseStrictBoolean_iff)
  with \<open>?L\<close> have 2: "\<not> l < 0" "sc" "pv" by (auto simp: uncertaintyBlocksTradability_def split: if_splits)
  with \<open>?L\<close> 1 l obtain b where b: "finite_number (ua_uncertaintyBound a) = Some b"
    by (cases "finite_number (ua_uncertaintyBound a)") (auto simp: uncertaintyBlocksTradability_def)
  with \<open>?L\<close> 1 2 l have "0 \<le> b" "b \<le> 1" "b \<le> l" by (auto simp: uncertaintyBlocksTradability_def split: if_splits)
  then show ?R using 1 2 b l by (simp add: finite_number_Some)
next
  assume ?R
  then show ?L by (auto simp: uncertaintyBlocksTradability_def finite_number_def)
qed

section \<open>Properties\<close>



text \<open>
  The gates of a confirmed opportunity open only on positive
  evidence, whatever else is passed to them. Uncertainty does not block exactly when the state is
  complete, parity is verified and a finite bound in [0, 1] is within the finite policy limit; a delay gate
  is robust exactly when it names at least one scenario and every named one has the result true; a target counts exactly
  when it was touched, by more than an isolated wick, with volume or duration support; and only the verdict \<open>TRADABLE\<close> confirms,
  with the signal label preserved either way.
\<close>

theorem tradability_gates_fail_closed:
  "(uncertaintyBlocksTradability a = Inr False \<longleftrightarrow>
      ua_stateComplete a = U_bool True \<and> ua_parityVerified a = U_bool True \<and>
      (\<exists>b l. ua_uncertaintyBound a = U_number (Fin b) \<and> ua_policyLimit a = U_number (Fin l) \<and> 0 \<le> b \<and> b \<le> 1 \<and> b \<le> l)) \<and>
   ((\<exists>fs. robustDelayGate g = Inr \<lparr>dr_robust = True, dr_failures = fs\<rparr>) \<longleftrightarrow>
      dg_profileRequires g \<noteq> [] \<and>
      list_all (\<lambda>v. \<exists>k. v = U_string (stress_scenario_kind_text k) \<and>
        prop_of (dg_results g) (stress_scenario_kind_text k) = U_bool True) (dg_profileRequires g)) \<and>
   (executableTargetSatisfied t = Inr True \<longleftrightarrow>
      tg_touched t = U_bool True \<and> tg_isolatedWick t = U_bool False \<and>
      (\<exists>v d. tg_executableVolumeObserved t = U_bool v \<and> tg_targetDurationSupported t = U_bool d \<and> (v \<or> d))) \<and>
   (tradabilityBlocksConfirmedOpportunity signal verdict = Inr c \<longleftrightarrow>
      (\<exists>k. verdict = U_string (tradability_verdict_text k) \<and> optional_class signal = Inr (cr_preservedSignalLabel c) \<and>
         cr_confirmedOpportunity c = (k = Tv_TRADABLE) \<and> cr_blockReason c = (if k = Tv_TRADABLE then None else Some k)))"
proof (intro conjI)
  show "uncertaintyBlocksTradability a = Inr False \<longleftrightarrow>
      ua_stateComplete a = U_bool True \<and> ua_parityVerified a = U_bool True \<and>
      (\<exists>b l. ua_uncertaintyBound a = U_number (Fin b) \<and> ua_policyLimit a = U_number (Fin l) \<and> 0 \<le> b \<and> b \<le> 1 \<and> b \<le> l)"
    by (rule uncertainty_open)
  show "(\<exists>fs. robustDelayGate g = Inr \<lparr>dr_robust = True, dr_failures = fs\<rparr>) \<longleftrightarrow>
      dg_profileRequires g \<noteq> [] \<and>
      list_all (\<lambda>v. \<exists>k. v = U_string (stress_scenario_kind_text k) \<and>
        prop_of (dg_results g) (stress_scenario_kind_text k) = U_bool True) (dg_profileRequires g)"
    unfolding delay_failures_robust [symmetric] by (auto simp: robustDelayGate_def bindE_eq_Inr)
  show "executableTargetSatisfied t = Inr True \<longleftrightarrow>
      tg_touched t = U_bool True \<and> tg_isolatedWick t = U_bool False \<and>
      (\<exists>v d. tg_executableVolumeObserved t = U_bool v \<and> tg_targetDurationSupported t = U_bool d \<and> (v \<or> d))"
    by (auto simp: executableTargetSatisfied_def bindE_eq_Inr parseStrictBoolean_iff split: if_splits)
  show "tradabilityBlocksConfirmedOpportunity signal verdict = Inr c \<longleftrightarrow>
      (\<exists>k. verdict = U_string (tradability_verdict_text k) \<and> optional_class signal = Inr (cr_preservedSignalLabel c) \<and>
         cr_confirmedOpportunity c = (k = Tv_TRADABLE) \<and> cr_blockReason c = (if k = Tv_TRADABLE then None else Some k))"
    by (cases c) (auto simp: tradabilityBlocksConfirmedOpportunity_def bindE_eq_Inr tradabilityVerdict_iff Let_def
        simp del: tradability_verdict_text.simps)
qed

end
