(* ===== verification/Timestamps.thy ===== *)
theory Timestamps
  imports CanonicalJson "HOL-Library.Product_Lexorder"
begin

text \<open>
  UTC timestamps (packages/domain/src/timestamps.ts): the strict validation of the text, the epoch
  milliseconds it denotes and the order on instants. \<open>Date.parse\<close> is modelled on the texts that
  pass the validation, by the day arithmetic of the language specification; digits of a fraction
  beyond the third are cut off, and a sixtieth second has no instant.
\<close>

section \<open>Validation\<close>

definition digit :: "char \<Rightarrow> bool" where
  "digit c \<longleftrightarrow> (let n = of_char c :: nat in 48 \<le> n \<and> n \<le> 57)"

text \<open>\<open>Number\<close> of a text of decimal digits, and \<open>slice\<close>.\<close>

definition num_text :: "string \<Rightarrow> nat" where
  "num_text s = foldl (\<lambda>n c. 10 * n + (of_char c - 48)) 0 s"

definition slice :: "nat \<Rightarrow> nat \<Rightarrow> string \<Rightarrow> string" where
  "slice i j s = take (j - i) (drop i s)"

text \<open>
  \<^verbatim>\<open>/^\d{4}-\d{2}-\d{2}T\d{2}:\d{2}:\d{2}(\.\d{1,9})?Z$/\<close>: the fixed part of nineteen characters,
  in the template \<open>d\<close> stands for a digit, and the rest.
\<close>

definition iso_template :: string where
  "iso_template = ''dddd-dd-ddTdd:dd:dd''"

definition iso_suffix :: "string \<Rightarrow> bool" where
  "iso_suffix s \<longleftrightarrow> s = ''Z'' \<or>
     (case s of [] \<Rightarrow> False
      | c # rest \<Rightarrow> c = CHR ''.'' \<and> rest \<noteq> [] \<and> last rest = CHR ''Z'' \<and> list_all digit (butlast rest) \<and>
                   1 \<le> length (butlast rest) \<and> length (butlast rest) \<le> 9)"

definition ISO_UTC_PATTERN :: "string \<Rightarrow> bool" where
  "ISO_UTC_PATTERN v \<longleftrightarrow>
     list_all2 (\<lambda>p c. if p = CHR ''d'' then digit c else c = p) iso_template (take 19 v) \<and> iso_suffix (drop 19 v)"

definition DAYS_IN_MONTH :: "nat list" where
  "DAYS_IN_MONTH = [31, 28, 31, 30, 31, 30, 31, 31, 30, 31, 30, 31]"

definition isLeapYear :: "nat \<Rightarrow> bool" where
  "isLeapYear year \<longleftrightarrow> year mod 4 = 0 \<and> year mod 100 \<noteq> 0 \<or> year mod 400 = 0"

abbreviation "year_of v \<equiv> num_text (slice 0 4 v)"
abbreviation "month_of v \<equiv> num_text (slice 5 7 v)"
abbreviation "day_of v \<equiv> num_text (slice 8 10 v)"
abbreviation "hour_of v \<equiv> num_text (slice 11 13 v)"
abbreviation "minute_of v \<equiv> num_text (slice 14 16 v)"
abbreviation "second_of v \<equiv> num_text (slice 17 19 v)"

definition max_day :: "nat \<Rightarrow> nat \<Rightarrow> nat" where
  "max_day year month = (if month = 2 \<and> isLeapYear year then 29 else DAYS_IN_MONTH ! (month - 1))"

definition isValidUtcTimestamp :: "string \<Rightarrow> bool" where
  "isValidUtcTimestamp v =
     (if \<not> ISO_UTC_PATTERN v then False
      else if month_of v < 1 \<or> 12 < month_of v then False
      else if day_of v < 1 then False
      else if max_day (year_of v) (month_of v) < day_of v then False
      else if 23 < hour_of v \<or> 59 < minute_of v \<or> 60 < second_of v then False
      else True)"

definition utcTimestamp :: "string \<Rightarrow> string res" where
  "utcTimestamp v = (if isValidUtcTimestamp v then Inr v else Inl (ForesiftError TIMESTAMP_INVALID))"

definition isUtcTimestamp :: "jsval \<Rightarrow> bool" where
  "isUtcTimestamp v = (case v of JsStr s \<Rightarrow> isValidUtcTimestamp s | _ \<Rightarrow> False)"

section \<open>Instants\<close>

text \<open>\<open>DayFromYear\<close> of the specification, and the days of a year before a month.\<close>

definition day_from_year :: "int \<Rightarrow> int" where
  "day_from_year y = 365 * (y - 1970) + (y - 1969) div 4 - (y - 1901) div 100 + (y - 1601) div 400"

definition days_before :: "nat \<Rightarrow> nat \<Rightarrow> nat" where
  "days_before year month = sum_list (map (max_day year) [1..<month])"

definition day_number :: "nat \<Rightarrow> nat \<Rightarrow> nat \<Rightarrow> int" where
  "day_number year month day = day_from_year (int year) + int (days_before year month) + int day - 1"

text \<open>The digits after the point, and their milliseconds.\<close>

definition fraction :: "string \<Rightarrow> string" where
  "fraction v = butlast (drop 20 v)"

definition fraction_ms :: "string \<Rightarrow> nat" where
  "fraction_ms v = num_text (take 3 (fraction v @ ''000''))"

definition Date_parse :: "string \<Rightarrow> int option" where
  "Date_parse v =
     (if \<not> isValidUtcTimestamp v \<or> second_of v = 60 then None
      else Some (day_number (year_of v) (month_of v) (day_of v) * 86400000 +
        int (hour_of v * 3600000 + minute_of v * 60000 + second_of v * 1000 + fraction_ms v)))"

definition toEpochMs :: "string \<Rightarrow> int res" where
  "toEpochMs t = (case Date_parse t of None \<Rightarrow> Inl (ForesiftError TIMESTAMP_INVALID) | Some ms \<Rightarrow> Inr ms)"

text \<open>\<open>indexOf\<close> of the point gives the length of the part before it.\<close>

definition fractionDigits :: "string \<Rightarrow> int" where
  "fractionDigits t =
     (if CHR ''.'' \<notin> set t then 0
      else int (length t) - int (length (takeWhile (\<lambda>c. c \<noteq> CHR ''.'') t)) - 1 - 1)"

definition compareTimestamps :: "string \<Rightarrow> string \<Rightarrow> int res" where
  "compareTimestamps a b =
     bindE (toEpochMs a) (\<lambda>ea. bindE (toEpochMs b) (\<lambda>eb.
     let d = ea - eb in
     if d \<noteq> 0 then Inr (if d < 0 then - 1 else 1)
     else let fa = fractionDigits a; fb = fractionDigits b in
     if fa \<noteq> fb then Inr (if fa < fb then - 1 else 1)
     else Inr (if a < b then - 1 else if b < a then 1 else 0)))"

record timestamp_comparison =
  tc_before :: bool
  tc_atOrBefore :: bool
  tc_after :: bool
  tc_atOrAfter :: bool

definition compareTo :: "string \<Rightarrow> string \<Rightarrow> timestamp_comparison res" where
  "compareTo t than =
     bindE (compareTimestamps t than) (\<lambda>c.
     Inr \<lparr>tc_before = c < 0, tc_atOrBefore = c \<le> 0, tc_after = 0 < c, tc_atOrAfter = 0 \<le> c\<rparr>)"

definition entryIsNotEarlierThanCounterfactual :: "string \<Rightarrow> string \<Rightarrow> bool res" where
  "entryIsNotEarlierThanCounterfactual candidateEntryAt counterfactualDeliveryAt =
     bindE (compareTimestamps candidateEntryAt counterfactualDeliveryAt) (\<lambda>c. Inr (0 \<le> c))"

end
