(* ===== verification/TimestampOrder.thy ===== *)
theory TimestampOrder
  imports Timestamps
begin

text \<open>
  The laws of timestamps: which texts denote an instant, and that the comparison is the order of
  time, a total order that agrees with the order of the texts at equal precision.
\<close>

section \<open>Texts of digits\<close>

lemma num_text_Nil [simp]: "num_text [] = 0"
  by (simp add: num_text_def)

lemma foldl_num: "foldl (\<lambda>n c. 10 * n + (of_char c - 48)) k s = k * 10 ^ length s + num_text s"
proof (induction s arbitrary: k)
  case (Cons c s)
  have "num_text (c # s) = (of_char c - 48) * 10 ^ length s + num_text s"
    using Cons [of "of_char c - 48"] by (simp add: num_text_def)
  then show ?case using Cons [of "10 * k + (of_char c - 48)"] by (simp add: algebra_simps)
qed simp

lemma num_text_Cons: "num_text (c # s) = (of_char c - 48) * 10 ^ length s + num_text s"
  using foldl_num [of "of_char c - 48" s] by (simp add: num_text_def)

lemma num_text_bound: "list_all digit s \<Longrightarrow> num_text s < 10 ^ length s"
proof (induction s)
  case (Cons c s)
  then have "of_char c - 48 \<le> (9 :: nat)" "num_text s < 10 ^ length s" by (auto simp: digit_def Let_def)
  then have "(of_char c - 48) * 10 ^ length s + num_text s < 9 * 10 ^ length s + 10 ^ length s"
    by (intro add_le_less_mono mult_le_mono1)
  then show ?case by (simp add: num_text_Cons)
qed simp

lemma mixed_radix:
  assumes "(r :: 'a :: linordered_idom) < R" "0 \<le> r" "r' < R" "0 \<le> r'" "x + 1 \<le> x'"
  shows "x * R + r < x' * R + r'"
proof -
  have "(x + 1) * R \<le> x' * R" using assms by (intro mult_right_mono) auto
  then show ?thesis using assms by (simp add: algebra_simps)
qed

lemma digits_less_iff:
  "length u = length w \<Longrightarrow> list_all digit u \<Longrightarrow> list_all digit w \<Longrightarrow> u < w \<longleftrightarrow> num_text u < num_text w"
proof (induction u w rule: list_induct2)
  case (Cons c u d w)
  let ?n = "of_char c - 48 :: nat" and ?m = "of_char d - 48 :: nat" and ?p = "10 ^ length w :: nat"
  have range: "48 \<le> (of_char c :: nat)" "48 \<le> (of_char d :: nat)" using Cons.prems by (simp_all add: digit_def Let_def)
  then have cd: "c < d \<longleftrightarrow> ?n < ?m" by (auto simp: less_char_def)
  have "?n = ?m \<Longrightarrow> (of_char c :: nat) = of_char d" using range by linarith
  then have eq: "c = d \<longleftrightarrow> ?n = ?m" by (metis of_char_eq_iff)
  have b: "num_text u < ?p" "num_text w < ?p"
    using Cons num_text_bound [of u] num_text_bound [of w] by auto
  have lt: "k * ?p + x < l * ?p + y" if "k < l" "x < ?p" for k l x y :: nat
  proof -
    have "(k + 1) * ?p \<le> l * ?p" using that by (intro mult_le_mono1) simp
    then show ?thesis using that by (simp add: algebra_simps)
  qed
  have "num_text (c # u) < num_text (d # w) \<longleftrightarrow> ?n < ?m \<or> ?n = ?m \<and> num_text u < num_text w"
    using lt [of ?n ?m "num_text u" "num_text w"] lt [of ?m ?n "num_text w" "num_text u"] b Cons.hyps
    by (cases ?n ?m rule: linorder_cases) (auto simp: num_text_Cons)
  then show ?case using Cons cd eq by simp
qed simp

lemma append_less_iff:
  "length (u :: string) = length w \<Longrightarrow> u @ x < w @ y \<longleftrightarrow> u < w \<or> u = w \<and> x < y"
  by (induction u w rule: list_induct2) auto

section \<open>The calendar\<close>

lemma div_succ: "0 < (n :: int) \<Longrightarrow> (x + 1) div n = x div n + (if (x + 1) mod n = 0 then 1 else 0)"
proof -
  assume n: "0 < n"
  have x: "x = n * (x div n) + x mod n" "0 \<le> x mod n" "x mod n < n" using n by simp_all
  show ?thesis
  proof (cases "x mod n = n - 1")
    case True
    then have e: "x + 1 = n * (x div n + 1)" using x(1) by (simp add: distrib_left)
    have "(x + 1) div n = x div n + 1" "(x + 1) mod n = 0" unfolding e using n by simp_all
    then show ?thesis by simp
  next
    case False
    then have e: "x + 1 = n * (x div n) + (x mod n + 1)" "0 \<le> x mod n + 1" "x mod n + 1 < n" using x by linarith+
    have "(x + 1) div n = x div n" "(x + 1) mod n = x mod n + 1" using int_div_pos_eq [OF e] int_mod_pos_eq [OF e] by blast+
    then show ?thesis using x(2) by simp
  qed
qed

lemma day_from_year_Suc:
  "day_from_year (int (Suc y)) = day_from_year (int y) + 365 + (if isLeapYear y then 1 else 0)"
proof -
  have shift: "(int y - k) mod n = 0 \<longleftrightarrow> int y mod n = 0" if "n dvd k" for k n :: int
    using that by (simp add: mod_eq_0_iff_dvd dvd_diff_left_iff)
  have step: "(int y - k) div n = (int y - l) div n + (if int y mod n = 0 then 1 else 0)"
    if "n dvd k" "0 < n" "l = k + 1" for k l n :: int
  proof -
    have e: "int y - l + 1 = int y - k" using that(3) by simp
    show ?thesis using div_succ [OF that(2), of "int y - l"] unfolding e shift [OF that(1)] .
  qed
  have d: "(int y - 1968) div 4 = (int y - 1969) div 4 + (if int y mod 4 = 0 then 1 else 0)"
    "(int y - 1900) div 100 = (int y - 1901) div 100 + (if int y mod 100 = 0 then 1 else 0)"
    "(int y - 1600) div 400 = (int y - 1601) div 400 + (if int y mod 400 = 0 then 1 else 0)"
    by (rule step; simp)+
  have i: "int y mod 4 = int (y mod 4)" "int y mod 100 = int (y mod 100)" "int y mod 400 = int (y mod 400)"
    by (simp_all add: zmod_int)
  have m: "y mod 400 = 0 \<Longrightarrow> y mod 100 = 0" "y mod 100 = 0 \<Longrightarrow> y mod 4 = 0" by presburger+
  have e: "int (Suc y) - 1969 = int y - 1968" "int (Suc y) - 1901 = int y - 1900" "int (Suc y) - 1601 = int y - 1600"
    "int (Suc y) - 1970 = int y - 1970 + 1" by simp_all
  have leap: "(if y mod 4 = 0 then 1 else 0) - (if y mod 100 = 0 then 1 else 0) + (if y mod 400 = 0 then 1 else 0) =
      (if isLeapYear y then 1 else 0 :: int)"
    using m unfolding isLeapYear_def by (cases "y mod 4 = 0"; cases "y mod 100 = 0"; cases "y mod 400 = 0"; simp)
  have sum: "365 * (Y - 1970 + 1) + (A + a) - (B + b) + (C + c) = 365 * (Y - 1970) + A - B + C + 365 + L"
    if "a - b + c = L" for Y A B C a b c L :: int unfolding that [symmetric] by (simp add: algebra_simps)
  show ?thesis unfolding day_from_year_def e d i of_nat_eq_0_iff by (rule sum [OF leap])
qed

lemma day_from_year_mono: "y < y' \<Longrightarrow> day_from_year (int y) + 365 + (if isLeapYear y then 1 else 0) \<le> day_from_year (int y')"
proof (induction y' rule: less_induct)
  case (less y')
  then obtain z where z: "y' = Suc z" "y \<le> z" by (metis less_Suc_eq_le less_imp_Suc_add not_less_eq)
  show ?case
  proof (cases "y = z")
    case False
    then have "day_from_year (int y) + 365 + (if isLeapYear y then 1 else 0) \<le> day_from_year (int z)"
      using z less.IH [of z] by simp
    then show ?thesis using day_from_year_Suc [of z] z(1) by (simp split: if_splits)
  qed (use day_from_year_Suc [of z] z(1) in simp)
qed

lemma days_before_Suc: "1 \<le> m \<Longrightarrow> days_before y (Suc m) = days_before y m + max_day y m"
  by (simp add: days_before_def)

lemma days_before_mono: "1 \<le> m \<Longrightarrow> m \<le> m' \<Longrightarrow> days_before y m \<le> days_before y m'"
proof -
  assume m: "1 \<le> m" "m \<le> m'"
  have "days_before y m \<le> days_before y (m + k)" for k
    by (induction k) (use m(1) days_before_Suc [of "m + _" y] in \<open>auto intro: le_trans\<close>)
  from this [of "m' - m"] show ?thesis using m(2) by simp
qed

lemma days_of_year: "days_before y 13 = 365 + (if isLeapYear y then 1 else 0)"
  by (simp add: days_before_def max_day_def DAYS_IN_MONTH_def upt_rec)

text \<open>Later dates have larger day numbers.\<close>

lemma day_number_less:
  assumes d: "1 \<le> m" "m \<le> 12" "1 \<le> d" "d \<le> max_day y m" and d': "1 \<le> m'" "1 \<le> d'"
    and less: "y < y' \<or> y = y' \<and> (m < m' \<or> m = m' \<and> d < d')"
  shows "day_number y m d < day_number y' m' d'"
proof -
  have in_month: "days_before y m + d \<le> days_before y (Suc m)" using d by (simp add: days_before_Suc)
  consider (year) "y < y'" | (month) "y = y'" "m < m'" | (day) "y = y'" "m = m'" "d < d'" using less by blast
  then show ?thesis
  proof cases
    case year
    have "days_before y (Suc m) \<le> days_before y 13" using d by (intro days_before_mono) simp_all
    then have "int (days_before y m) + int d \<le> 365 + (if isLeapYear y then 1 else 0)"
      using in_month by (simp add: days_of_year split: if_splits)
    then show ?thesis using day_from_year_mono [OF year] d'(2) by (simp add: day_number_def split: if_splits)
  next
    case month
    then have "days_before y (Suc m) \<le> days_before y m'" using d by (intro days_before_mono) simp_all
    then show ?thesis using in_month d'(2) month by (simp add: day_number_def)
  qed (simp add: day_number_def)
qed

section \<open>The parts of a timestamp\<close>

lemma list_all2_Cons1_ex: "list_all2 P (x # xs) ys \<longleftrightarrow> (\<exists>z zs. ys = z # zs \<and> P x z \<and> list_all2 P xs zs)"
  by (simp add: list_all2_Cons1)

text \<open>A text that matches the pattern is its six fields with the separators and its suffix.\<close>

lemma iso_parts:
  assumes "ISO_UTC_PATTERN v"
  shows "v = slice 0 4 v @ ''-'' @ slice 5 7 v @ ''-'' @ slice 8 10 v @ ''T'' @ slice 11 13 v @ '':'' @ slice 14 16 v @
      '':'' @ slice 17 19 v @ drop 19 v"
    and "list_all digit (slice 0 4 v)" "list_all digit (slice 5 7 v)" "list_all digit (slice 8 10 v)"
      "list_all digit (slice 11 13 v)" "list_all digit (slice 14 16 v)" "list_all digit (slice 17 19 v)"
    and "length (slice 0 4 v) = 4" "length (slice 5 7 v) = 2" "length (slice 8 10 v) = 2"
      "length (slice 11 13 v) = 2" "length (slice 14 16 v) = 2" "length (slice 17 19 v) = 2"
    and "iso_suffix (drop 19 v)"
proof -
  let ?w = "take 19 v" and ?x = "drop 19 v"
  have v: "v = ?w @ ?x" by simp
  have "list_all2 (\<lambda>p c. if p = CHR ''d'' then digit c else c = p) ''dddd-dd-ddTdd:dd:dd'' ?w" and "iso_suffix ?x"
    using assms by (simp_all add: ISO_UTC_PATTERN_def iso_template_def)
  then obtain a b c d e f g h i j k l m n where w: "?w = [a, b, c, d, CHR ''-'', e, f, CHR ''-'', g, h, CHR ''T'', i, j,
        CHR '':'', k, l, CHR '':'', m, n]"
    and dig: "list_all digit [a, b, c, d, e, f, g, h, i, j, k, l, m, n]"
    by (auto simp: list_all2_Cons1_ex)
  have len: "19 \<le> length v" using arg_cong [OF w, of length] by simp
  have sl: "slice p q v = slice p q [a, b, c, d, CHR ''-'', e, f, CHR ''-'', g, h, CHR ''T'', i, j,
        CHR '':'', k, l, CHR '':'', m, n]" if "q \<le> 19" for p q
    unfolding w [symmetric] using that len by (simp add: slice_def take_drop min_def)
  have fields: "slice 0 4 v = [a, b, c, d]" "slice 5 7 v = [e, f]" "slice 8 10 v = [g, h]" "slice 11 13 v = [i, j]"
    "slice 14 16 v = [k, l]" "slice 17 19 v = [m, n]"
    by (simp_all only: sl numeral_le_iff semiring_norm, simp_all add: slice_def)
  show "v = slice 0 4 v @ ''-'' @ slice 5 7 v @ ''-'' @ slice 8 10 v @ ''T'' @ slice 11 13 v @ '':'' @ slice 14 16 v @
      '':'' @ slice 17 19 v @ drop 19 v"
    unfolding fields using v w by simp
  show "iso_suffix ?x" by fact
  show "list_all digit (slice 0 4 v)" "list_all digit (slice 5 7 v)" "list_all digit (slice 8 10 v)"
      "list_all digit (slice 11 13 v)" "list_all digit (slice 14 16 v)" "list_all digit (slice 17 19 v)"
      "length (slice 0 4 v) = 4" "length (slice 5 7 v) = 2" "length (slice 8 10 v) = 2"
      "length (slice 11 13 v) = 2" "length (slice 14 16 v) = 2" "length (slice 17 19 v) = 2"
    unfolding fields using dig by simp_all
qed

text \<open>The texts that denote an instant.\<close>

abbreviation orderable :: "string \<Rightarrow> bool" where
  "orderable v \<equiv> isValidUtcTimestamp v \<and> second_of v \<noteq> 60"

definition epoch :: "string \<Rightarrow> int" where
  "epoch v = day_number (year_of v) (month_of v) (day_of v) * 86400000 +
     int (hour_of v * 3600000 + minute_of v * 60000 + second_of v * 1000 + fraction_ms v)"

lemma toEpochMs_orderable: "orderable v \<Longrightarrow> toEpochMs v = Inr (epoch v)"
  by (simp add: toEpochMs_def Date_parse_def epoch_def)

lemma toEpochMs_refused: "\<not> orderable v \<Longrightarrow> toEpochMs v = Inl (ForesiftError TIMESTAMP_INVALID)"
  by (auto simp: toEpochMs_def Date_parse_def)

lemma validD:
  assumes "isValidUtcTimestamp v"
  shows "ISO_UTC_PATTERN v" "1 \<le> month_of v" "month_of v \<le> 12" "1 \<le> day_of v"
    "day_of v \<le> max_day (year_of v) (month_of v)" "hour_of v \<le> 23" "minute_of v \<le> 59" "second_of v \<le> 60"
  using assms by (auto simp: isValidUtcTimestamp_def not_less split: if_splits)

lemma suffix_cases:
  assumes "iso_suffix s"
  obtains "s = ''Z''" | ds where "s = CHR ''.'' # ds @ ''Z''" "list_all digit ds" "ds \<noteq> []"
proof (cases "s = ''Z''")
  case False
  then obtain rest where r: "s = CHR ''.'' # rest" "rest \<noteq> []" "last rest = CHR ''Z''" "list_all digit (butlast rest)"
    "1 \<le> length (butlast rest)" using assms by (auto simp: iso_suffix_def split: list.splits)
  then have "rest = butlast rest @ ''Z''" by (metis append_butlast_last_id)
  moreover have "butlast rest \<noteq> []" using r(5) by (metis le_zero_eq list.size(3) one_neq_zero)
  ultimately show ?thesis using that(2) [of "butlast rest"] r(1,4) by metis
qed (rule that(1))

lemma fraction_suffix: "fraction v = butlast (tl (drop 19 v))"
  by (simp add: fraction_def tl_drop drop_Suc [symmetric] flip: drop_drop)

lemma fraction_digits: "isValidUtcTimestamp v \<Longrightarrow> list_all digit (fraction v)"
proof -
  assume "isValidUtcTimestamp v"
  from suffix_cases [OF iso_parts(14) [OF validD(1) [OF this]]] show ?thesis
    by cases (simp_all add: fraction_suffix)
qed

lemma fraction_ms_less: "isValidUtcTimestamp v \<Longrightarrow> fraction_ms v < 1000"
proof -
  assume "isValidUtcTimestamp v"
  then have "list_all digit (take 3 (fraction v @ ''000''))"
    using fraction_digits [of v] by (auto simp: list_all_iff digit_def Let_def dest!: in_set_takeD)
  moreover have "length (take 3 (fraction v @ ''000'')) = 3" by simp
  ultimately have "num_text (take 3 (fraction v @ ''000'')) < 10 ^ 3" using num_text_bound by metis
  then show ?thesis by (simp add: fraction_ms_def)
qed

section \<open>Text order is time order\<close>

lemma take_mono: "length (u :: string) = length w \<Longrightarrow> u < w \<Longrightarrow> take n u \<le> take n w"
  using append_less_iff [of "take n u" "take n w" "drop n u" "drop n w"] by auto

lemma suffix_less:
  assumes "isValidUtcTimestamp a" "isValidUtcTimestamp b" and "length a = length b" and "drop 19 a < drop 19 b"
  shows "fraction_ms a \<le> fraction_ms b"
proof -
  have len: "length (drop 19 a) = length (drop 19 b)" using assms(3) by simp
  from suffix_cases [OF iso_parts(14) [OF validD(1) [OF assms(1)]]] have "fraction a < fraction b \<and> length (fraction a) = length (fraction b)"
  proof cases
    case 1
    from suffix_cases [OF iso_parts(14) [OF validD(1) [OF assms(2)]]] show ?thesis
      by cases (use 1 len assms(4) in auto)
  next
    case (2 ds)
    from suffix_cases [OF iso_parts(14) [OF validD(1) [OF assms(2)]]] show ?thesis
    proof cases
      case 1
      then show ?thesis using 2 len by simp
    next
      case es: (2 es)
      have "length ds = length es" using 2(1) es(1) len by simp
      moreover have "ds < es" using assms(4) append_less_iff [OF calculation, of "''Z''" "''Z''"] 2(1) es(1) by simp
      ultimately show ?thesis using 2(1) es(1) by (simp add: fraction_suffix)
    qed
  qed
  then have le: "take 3 (fraction a @ ''000'') \<le> take 3 (fraction b @ ''000'')"
    by (intro take_mono) (simp_all add: append_less_iff)
  have d: "list_all digit (take 3 (fraction v @ ''000''))" if "isValidUtcTimestamp v" for v
    using fraction_digits [OF that] by (auto simp: list_all_iff digit_def Let_def dest!: in_set_takeD)
  have "length (take 3 (fraction a @ ''000'')) = length (take 3 (fraction b @ ''000''))" by simp
  from digits_less_iff [OF this d [OF assms(1)] d [OF assms(2)]] le show ?thesis
    unfolding fraction_ms_def by (metis less_imp_le order_le_less order_refl)
qed

text \<open>The order of two texts of the pattern is that of their fields, the most significant first.\<close>

lemma iso_less:
  assumes a: "ISO_UTC_PATTERN a" and b: "ISO_UTC_PATTERN b" and "a < b"
  shows "year_of a < year_of b \<or> year_of a = year_of b \<and> (month_of a < month_of b \<or> month_of a = month_of b \<and>
    (day_of a < day_of b \<or> day_of a = day_of b \<and> (hour_of a < hour_of b \<or> hour_of a = hour_of b \<and>
    (minute_of a < minute_of b \<or> minute_of a = minute_of b \<and> (second_of a < second_of b \<or>
     second_of a = second_of b \<and> drop 19 a < drop 19 b)))))"
proof -
  note pa = iso_parts [OF a] and pb = iso_parts [OF b]
  have f: "slice i j a @ x < slice i j b @ y \<longleftrightarrow> num_text (slice i j a) < num_text (slice i j b) \<or>
      slice i j a = slice i j b \<and> x < y"
    if "length (slice i j a) = length (slice i j b) \<and> list_all digit (slice i j a) \<and> list_all digit (slice i j b)" for i j x y
    using append_less_iff [of "slice i j a" "slice i j b" x y] digits_less_iff [of "slice i j a" "slice i j b"] that by auto
  have c: "[c] @ x < [c] @ y \<longleftrightarrow> x < y" for c :: char and x y :: string by simp
  have "a < b \<longleftrightarrow> slice 0 4 a @ ''-'' @ slice 5 7 a @ ''-'' @ slice 8 10 a @ ''T'' @ slice 11 13 a @ '':'' @ slice 14 16 a @
      '':'' @ slice 17 19 a @ drop 19 a < slice 0 4 b @ ''-'' @ slice 5 7 b @ ''-'' @ slice 8 10 b @ ''T'' @ slice 11 13 b @
      '':'' @ slice 14 16 b @ '':'' @ slice 17 19 b @ drop 19 b"
    using pa(1) pb(1) by metis
  with assms(3) show ?thesis
    by (simp only: f [OF conjI [OF _ conjI]] pa(2-13) pb(2-13) c) auto
qed

lemma epoch_mono:
  assumes a: "orderable a" and b: "orderable b" and len: "length a = length b" and less: "a < b"
  shows "epoch a \<le> epoch b"
proof -
  note va = validD [OF conjunct1 [OF a]] and vb = validD [OF conjunct1 [OF b]]
  define ra rb where "ra = hour_of a * 3600000 + minute_of a * 60000 + second_of a * 1000 + fraction_ms a"
    and "rb = hour_of b * 3600000 + minute_of b * 60000 + second_of b * 1000 + fraction_ms b"
  have f: "fraction_ms a < 1000" "fraction_ms b < 1000" using fraction_ms_less a b by blast+
  have s: "second_of a \<le> 59" "second_of b \<le> 59" using va(8) vb(8) a b by linarith+
  have r: "ra < 86400000" "rb < 86400000" using va(6,7) vb(6,7) s f unfolding ra_def rb_def by linarith+
  let ?da = "day_number (year_of a) (month_of a) (day_of a)" and ?db = "day_number (year_of b) (month_of b) (day_of b)"
  have e: "epoch a = ?da * 86400000 + int ra" "epoch b = ?db * 86400000 + int rb"
    by (simp_all add: epoch_def ra_def rb_def)
  consider (date) "year_of a < year_of b \<or> year_of a = year_of b \<and> (month_of a < month_of b \<or> month_of a = month_of b \<and>
      day_of a < day_of b)"
    | (time) "?da = ?db" "hour_of a < hour_of b \<or> hour_of a = hour_of b \<and>
      (minute_of a < minute_of b \<or> minute_of a = minute_of b \<and> second_of a < second_of b)"
    | (frac) "?da = ?db" "hour_of a = hour_of b" "minute_of a = minute_of b" "second_of a = second_of b" "drop 19 a < drop 19 b"
    using iso_less [OF va(1) vb(1) less] by fastforce
  then show ?thesis
  proof cases
    case date
    from day_number_less [OF va(2-5) vb(2,4) this] show ?thesis unfolding e using r by linarith
  next
    case time
    then have "ra < rb" using va(6,7) vb(6,7) s f unfolding ra_def rb_def by linarith
    then show ?thesis unfolding e time(1) by simp
  next
    case frac
    then show ?thesis unfolding e ra_def rb_def using suffix_less [of a b] a b len by simp
  qed
qed

section \<open>The comparison\<close>

lemma no_point:
  assumes "ISO_UTC_PATTERN v" shows "CHR ''.'' \<notin> set (take 19 v)"
proof
  assume "CHR ''.'' \<in> set (take 19 v)"
  then obtain i where i: "i < length (take 19 v)" "take 19 v ! i = CHR ''.''" by (metis in_set_conv_nth)
  have len: "length iso_template = length (take 19 v)" and t: "\<forall>i < length iso_template.
      if iso_template ! i = CHR ''d'' then digit (take 19 v ! i) else take 19 v ! i = iso_template ! i"
    using assms unfolding ISO_UTC_PATTERN_def list_all2_conv_all_nth by auto
  have "CHR ''.'' \<notin> set iso_template" by (simp add: iso_template_def)
  then have "iso_template ! i \<noteq> CHR ''.''" using i(1) len by (metis nth_mem)
  moreover have "\<not> digit (CHR ''.'')" by (simp add: digit_def)
  ultimately show False using t i len by (metis (full_types))
qed

lemma fractionDigits_eq:
  assumes "isValidUtcTimestamp v"
  shows "fractionDigits v = int (length (fraction v))" "length v = 20 + (if fraction v = [] then 0 else Suc (length (fraction v)))"
proof -
  note p = validD(1) [OF assms]
  have l: "length (take 19 v) = 19"
    using p unfolding ISO_UTC_PATTERN_def by (auto dest!: list_all2_lengthD simp: iso_template_def)
  have v: "v = take 19 v @ drop 19 v" by simp
  have tw: "takeWhile (\<lambda>c. c \<noteq> CHR ''.'') (take 19 v @ w) = take 19 v @ takeWhile (\<lambda>c. c \<noteq> CHR ''.'') w" for w
    using no_point [OF p] by (intro takeWhile_append2) auto
  have len: "length v = 19 + length (drop 19 v)" using l by simp
  have "fractionDigits v = int (length (fraction v)) \<and>
      length v = 20 + (if fraction v = [] then 0 else Suc (length (fraction v)))"
  proof (rule suffix_cases [OF iso_parts(14) [OF p]])
    assume z: "drop 19 v = ''Z''"
    have "set v = set (take 19 v) \<union> set (drop 19 v)" by (metis append_take_drop_id set_append)
    then have "CHR ''.'' \<notin> set v" using no_point [OF p] z by simp
    moreover have "length v = 20" using len unfolding z by simp
    ultimately show ?thesis using z by (simp add: fractionDigits_def fraction_suffix)
  next
    fix ds assume z: "drop 19 v = CHR ''.'' # ds @ ''Z''" "ds \<noteq> []"
    have "CHR ''.'' \<in> set v" using v z(1) by (metis in_set_conv_decomp)
    moreover have "length (takeWhile (\<lambda>c. c \<noteq> CHR ''.'') v) = 19" using tw [of "drop 19 v"] l v z(1) by simp
    moreover have "length v = 21 + length ds" using len unfolding z(1) by simp
    ultimately show ?thesis using z by (simp add: fractionDigits_def fraction_suffix)
  qed
  then show "fractionDigits v = int (length (fraction v))" "length v = 20 + (if fraction v = [] then 0 else Suc (length (fraction v)))"
    by blast+
qed

definition stamp_key :: "string \<Rightarrow> int \<times> int \<times> string" where
  "stamp_key v = (epoch v, fractionDigits v, v)"

lemma compare_key:
  "orderable a \<Longrightarrow> orderable b \<Longrightarrow> compareTimestamps a b =
     Inr (if stamp_key a < stamp_key b then - 1 else if stamp_key b < stamp_key a then 1 else 0)"
  by (auto simp: compareTimestamps_def toEpochMs_orderable stamp_key_def less_prod_simp Let_def)

lemma compare_same_precision:
  assumes "orderable a" "orderable b" "length a = length b"
  shows "compareTimestamps a b = Inr (if a < b then - 1 else if b < a then 1 else 0)"
proof -
  have digits: "fractionDigits a = fractionDigits b"
    using fractionDigits_eq [of a] fractionDigits_eq [of b] assms by (auto split: if_splits)
  have "a < b \<Longrightarrow> epoch a \<le> epoch b" "b < a \<Longrightarrow> epoch b \<le> epoch a"
    using epoch_mono [of a b] epoch_mono [of b a] assms by simp_all
  then show ?thesis
    using assms(1,2) digits by (auto simp: compareTimestamps_def toEpochMs_orderable Let_def less_le_not_le)
qed

text \<open>
  On the timestamps that denote an instant, the comparison is a total order
  on the texts: it answers 0 for equal texts only, swapping its arguments negates it, and it is
  transitive; an earlier instant always comes first, whatever the precision, and at equal
  precision the order is the plain order of the texts. A text that is not a valid timestamp, or
  asserts a leap second, is refused with \<open>TIMESTAMP_INVALID\<close> and never ordered.
\<close>

theorem timestamp_order:
  "(compareTimestamps a b = Inl (ForesiftError TIMESTAMP_INVALID) \<longleftrightarrow>
      \<not> (orderable a \<and> orderable b)) \<and>
   (orderable a \<and> orderable b \<longrightarrow>
      (compareTimestamps a b = Inr 0 \<longleftrightarrow> a = b) \<and>
      (\<exists>r \<in> {- 1, 0, 1}. compareTimestamps a b = Inr r \<and> compareTimestamps b a = Inr (- r)) \<and>
      (toEpochMs a = Inr x \<and> toEpochMs b = Inr y \<and> x < y \<longrightarrow> compareTimestamps a b = Inr (- 1)) \<and>
      (length a = length b \<longrightarrow> compareTimestamps a b = Inr (if a < b then - 1 else if b < a then 1 else 0)) \<and>
      (compareTimestamps a b = Inr (- 1) \<and> compareTimestamps b c = Inr (- 1) \<longrightarrow> compareTimestamps a c = Inr (- 1)))"
proof (cases "orderable a \<and> orderable b")
  case True
  have eq: "stamp_key u = stamp_key w \<longleftrightarrow> u = w" for u w by (auto simp: stamp_key_def)
  have c: "orderable c" if "compareTimestamps b c = Inr r" for r
  proof (rule ccontr)
    assume "\<not> orderable c"
    then show False using that toEpochMs_refused [of c] True by (simp add: compareTimestamps_def toEpochMs_orderable)
  qed
  have trans: "compareTimestamps a c = Inr (- 1)" if "compareTimestamps a b = Inr (- 1)" "compareTimestamps b c = Inr (- 1)"
    using that c [OF that(2)] True less_trans [of "stamp_key a" "stamp_key b" "stamp_key c"]
    by (auto simp: compare_key split: if_splits)
  have early: "compareTimestamps a b = Inr (- 1)" if "toEpochMs a = Inr x" "toEpochMs b = Inr y" "x < y"
    using that True by (simp add: compareTimestamps_def)
  have zero: "compareTimestamps a b = Inr 0 \<longleftrightarrow> a = b"
    using True eq [of a b] by (auto simp: compare_key)
  have sign: "\<exists>r \<in> {- 1, 0, 1}. compareTimestamps a b = Inr r \<and> compareTimestamps b a = Inr (- r)"
    using True by (cases "stamp_key a" "stamp_key b" rule: linorder_cases) (auto simp: compare_key)
  show ?thesis using True trans early zero sign compare_same_precision [of a b] by auto
next
  case False
  have "compareTimestamps a b = Inl (ForesiftError TIMESTAMP_INVALID)"
  proof (cases "orderable a")
    case True
    then have b: "\<not> orderable b" using False by blast
    show ?thesis by (simp only: compareTimestamps_def toEpochMs_orderable [OF True] toEpochMs_refused [OF b] bindE_Inl bindE_Inr)
  next
    case False
    show ?thesis by (simp only: compareTimestamps_def toEpochMs_refused [OF False] bindE_Inl)
  qed
  with False show ?thesis by blast
qed

theorem timestamp_order_witness:
  "compareTimestamps ''2024-02-29T23:59:59.5Z'' ''2024-03-01T00:00:00Z'' = Inr (- 1) \<and>
   compareTimestamps ''2016-12-31T23:59:60Z'' ''2024-03-01T00:00:00Z'' = Inl (ForesiftError TIMESTAMP_INVALID)"
proof -
  have p: "ISO_UTC_PATTERN ''2024-02-29T23:59:59.5Z''" "ISO_UTC_PATTERN ''2024-03-01T00:00:00Z''" "ISO_UTC_PATTERN ''2016-12-31T23:59:60Z''"
    by (simp_all add: ISO_UTC_PATTERN_def iso_template_def iso_suffix_def digit_def)
  have v: "orderable ''2024-02-29T23:59:59.5Z''" "orderable ''2024-03-01T00:00:00Z''"
    "isValidUtcTimestamp ''2016-12-31T23:59:60Z'' \<and> second_of ''2016-12-31T23:59:60Z'' = 60"
    using p by (simp_all add: isValidUtcTimestamp_def slice_def num_text_def max_day_def isLeapYear_def DAYS_IN_MONTH_def)
  have e: "toEpochMs ''2024-02-29T23:59:59.5Z'' = Inr 1709251199500" "toEpochMs ''2024-03-01T00:00:00Z'' = Inr 1709251200000"
    using v by (simp_all add: toEpochMs_orderable epoch_def slice_def num_text_def fraction_ms_def fraction_def day_number_def
        day_from_year_def days_before_def max_day_def isLeapYear_def DAYS_IN_MONTH_def upt_rec)
  show ?thesis
    using timestamp_order [of "''2024-02-29T23:59:59.5Z''" "''2024-03-01T00:00:00Z''" 1709251199500 1709251200000]
      timestamp_order [of "''2016-12-31T23:59:60Z''" "''2024-03-01T00:00:00Z''"] v e by simp
qed

end
