(* ===== verification/ScheduleConfig.thy ===== *)
theory ScheduleConfig
  imports Timestamps TriggerInbox
begin

text \<open>
  The configuration of a schedule (packages/workflow-runtime/src/schedules.ts, first part): the
  validation of cron expressions and time zones, the resolution of a patch over a base, and the
  freshness of a cost forecast (its schema is in packages/shared-schemas/src/wf.ts). Patches and
  stored configurations are plain values at run time, so their members are \<open>jsval\<close>; the
  platform's time-zone database is a parameter.
\<close>

section \<open>Splitting texts\<close>

text \<open>\<open>split\<close> at one character, and at every run of white space.\<close>

fun split_char :: "char \<Rightarrow> string \<Rightarrow> string list" where
  "split_char c [] = [[]]"
| "split_char c (x # xs) =
     (if x = c then [] # split_char c xs
      else case split_char c xs of w # ws \<Rightarrow> (x # w) # ws | [] \<Rightarrow> [[x]])"

function split_spaces :: "string \<Rightarrow> string list" where
  "split_spaces [] = [[]]"
| "split_spaces (x # xs) =
     (if js_space x then [] # split_spaces (dropWhile js_space xs)
      else case split_spaces xs of w # ws \<Rightarrow> (x # w) # ws | [] \<Rightarrow> [[x]])"
  by pat_completeness auto

termination
  by (relation "measure length") (auto simp: le_imp_less_Suc length_dropWhile_le)

section \<open>Cron expressions and time zones\<close>

definition CRON_FIELD_BOUNDS :: "(nat \<times> nat) list" where
  "CRON_FIELD_BOUNDS = [(0, 59), (0, 23), (1, 31), (1, 12), (0, 7)]"

abbreviation cron_invalid :: "'a res" where
  "cron_invalid \<equiv> Inl (ForesiftError WF_SCHEDULE_CRON_INVALID)"

text \<open>\<^verbatim>\<open>/^\d{1,2}$/\<close>\<close>

definition one_or_two_digits :: "string \<Rightarrow> bool" where
  "one_or_two_digits s \<longleftrightarrow> 1 \<le> length s \<and> length s \<le> 2 \<and> list_all digit s"

definition parseCronValue :: "string \<Rightarrow> nat \<Rightarrow> nat \<Rightarrow> unit res" where
  "parseCronValue token lo hi =
     (if \<not> one_or_two_digits token then cron_invalid
      else if num_text token < lo \<or> hi < num_text token then cron_invalid
      else Inr ())"

definition cron_step :: "string \<Rightarrow> unit res" where
  "cron_step step = (if \<not> one_or_two_digits step \<or> num_text step < 1 then cron_invalid else Inr ())"

definition cron_range :: "nat \<Rightarrow> nat \<Rightarrow> string \<Rightarrow> unit res" where
  "cron_range lo hi rng =
     (if rng = ''*'' then Inr ()
      else case split_char (CHR ''-'') rng of
        [start] \<Rightarrow> parseCronValue start lo hi
      | [start, stop] \<Rightarrow>
          bindE (parseCronValue start lo hi) (\<lambda>_.
          bindE (parseCronValue stop lo hi) (\<lambda>_.
          if num_text stop < num_text start then cron_invalid else Inr ()))
      | _ \<Rightarrow> cron_invalid)"

definition cron_item :: "nat \<Rightarrow> nat \<Rightarrow> string \<Rightarrow> unit res" where
  "cron_item lo hi item =
     (if item = [] then cron_invalid
      else case split_char (CHR ''/'') item of
        [rng] \<Rightarrow> cron_range lo hi rng
      | [rng, step] \<Rightarrow> bindE (cron_step step) (\<lambda>_. cron_range lo hi rng)
      | _ \<Rightarrow> cron_invalid)"

text \<open>The two loops: over the items of a field and over the fields, stopping at the first refusal.\<close>

fun cron_items :: "nat \<Rightarrow> nat \<Rightarrow> string list \<Rightarrow> unit res" where
  "cron_items lo hi [] = Inr ()"
| "cron_items lo hi (item # items) = bindE (cron_item lo hi item) (\<lambda>_. cron_items lo hi items)"

fun cron_fields :: "(nat \<times> nat) list \<Rightarrow> string list \<Rightarrow> unit res" where
  "cron_fields ((lo, hi) # bounds) (part # parts) =
     bindE (cron_items lo hi (split_char (CHR '','') part)) (\<lambda>_. cron_fields bounds parts)"
| "cron_fields _ _ = Inr ()"

definition validateCronExpression :: "jsval \<Rightarrow> string res" where
  "validateCronExpression expression =
     (case expression of
        JsStr s \<Rightarrow>
          (let trimmed = trim s; parts = split_spaces trimmed
           in if length parts \<noteq> 5 then cron_invalid
              else bindE (cron_fields CRON_FIELD_BOUNDS parts) (\<lambda>_. Inr trimmed))
      | _ \<Rightarrow> cron_invalid)"

text \<open>\<open>iana\<close>: the names \<open>Intl.DateTimeFormat\<close> accepts.\<close>

definition validateIanaTimezone :: "(string \<Rightarrow> bool) \<Rightarrow> jsval \<Rightarrow> string res" where
  "validateIanaTimezone iana timezone =
     (case timezone of
        JsStr s \<Rightarrow>
          (if blank s then Inl (ForesiftError WF_SCHEDULE_TIMEZONE_INVALID)
           else let trimmed = trim s
                in if trimmed = ''UTC'' \<or> trimmed = ''Etc/UTC'' then Inr trimmed
                   else if iana trimmed then Inr trimmed
                   else Inl (ForesiftError WF_SCHEDULE_TIMEZONE_INVALID))
      | _ \<Rightarrow> Inl (ForesiftError WF_SCHEDULE_TIMEZONE_INVALID))"

definition sched_requireText :: "jsval \<Rightarrow> string res" where
  "sched_requireText v =
     (case v of
        JsStr s \<Rightarrow> if blank s then Inl (ForesiftError WF_SCHEDULE_CONFIG_INVALID) else Inr (trim s)
      | _ \<Rightarrow> Inl (ForesiftError WF_SCHEDULE_CONFIG_INVALID))"

section \<open>Resolution of a configuration\<close>

text \<open>
  The three members that the code does not validate keep whatever value they have; an absent
  member is \<open>JsUndefined\<close>.
\<close>

record resolved_schedule_config =
  rc_name :: string
  rc_cron :: string
  rc_timezone :: string
  rc_destination :: string
  rc_concurrencyPolicy :: jsval
  rc_workloadKind :: jsval
  rc_shadow :: jsval

record schedule_config_patch =
  cp_name :: jsval
  cp_cron :: jsval
  cp_timezone :: jsval
  cp_destination :: jsval
  cp_concurrencyPolicy :: jsval
  cp_workloadKind :: jsval
  cp_shadow :: jsval

definition empty_patch :: schedule_config_patch where
  "empty_patch = \<lparr>cp_name = JsUndefined, cp_cron = JsUndefined, cp_timezone = JsUndefined, cp_destination = JsUndefined,
     cp_concurrencyPolicy = JsUndefined, cp_workloadKind = JsUndefined, cp_shadow = JsUndefined\<rparr>"

text \<open>\<open>a ?? b\<close>.\<close>

definition coalesce :: "jsval \<Rightarrow> jsval \<Rightarrow> jsval" where
  "coalesce a b = (if a = JsUndefined \<or> a = JsNull then b else a)"

fun workload_kind_text :: "workflow_workload_kind \<Rightarrow> string" where
  "workload_kind_text BROAD_SCAN = ''BROAD_SCAN''"
| "workload_kind_text CANDIDATE_RECHECK = ''CANDIDATE_RECHECK''"

text \<open>\<open>defaultConcurrencyFor\<close> on a value of any kind: its switch has no default branch.\<close>

definition default_policy_value :: "jsval \<Rightarrow> jsval" where
  "default_policy_value kind =
     (if kind = JsStr (workload_kind_text BROAD_SCAN) then JsStr (concurrency_policy_text (defaultConcurrencyFor BROAD_SCAN))
      else if kind = JsStr (workload_kind_text CANDIDATE_RECHECK)
      then JsStr (concurrency_policy_text (defaultConcurrencyFor CANDIDATE_RECHECK))
      else JsUndefined)"

definition resolveScheduleConfig ::
  "(string \<Rightarrow> bool) \<Rightarrow> schedule_config_patch \<Rightarrow> resolved_schedule_config option \<Rightarrow> resolved_schedule_config res" where
  "resolveScheduleConfig iana patch base =
     (let of_base = (\<lambda>f. case base of None \<Rightarrow> JsUndefined | Some b \<Rightarrow> f b)
      in bindE (sched_requireText (coalesce (cp_name patch) (of_base (\<lambda>b. JsStr (rc_name b))))) (\<lambda>name.
         bindE (validateCronExpression (coalesce (cp_cron patch) (of_base (\<lambda>b. JsStr (rc_cron b))))) (\<lambda>cron.
         bindE (validateIanaTimezone iana (coalesce (cp_timezone patch) (of_base (\<lambda>b. JsStr (rc_timezone b))))) (\<lambda>timezone.
         bindE (sched_requireText (coalesce (cp_destination patch) (of_base (\<lambda>b. JsStr (rc_destination b))))) (\<lambda>destination.
         let workloadKind = coalesce (cp_workloadKind patch) (coalesce (of_base rc_workloadKind) (JsStr ''BROAD_SCAN''));
             concurrencyPolicy = coalesce (cp_concurrencyPolicy patch) (coalesce (of_base rc_concurrencyPolicy)
               (default_policy_value workloadKind));
             shadow = coalesce (cp_shadow patch) (coalesce (of_base rc_shadow) (JsBool False))
         in Inr \<lparr>rc_name = name, rc_cron = cron, rc_timezone = timezone, rc_destination = destination,
                 rc_concurrencyPolicy = concurrencyPolicy, rc_workloadKind = workloadKind, rc_shadow = shadow\<rparr>)))))"

text \<open>The configuration as the object that is hashed and stored, and a stored object as a patch.\<close>

definition config_json :: "resolved_schedule_config \<Rightarrow> jsval" where
  "config_json c = JsObj [(''name'', JsStr (rc_name c)), (''cron'', JsStr (rc_cron c)), (''timezone'', JsStr (rc_timezone c)),
     (''destination'', JsStr (rc_destination c)), (''concurrencyPolicy'', rc_concurrencyPolicy c),
     (''workloadKind'', rc_workloadKind c), (''shadow'', rc_shadow c)]"

definition patch_of :: "jsval \<Rightarrow> schedule_config_patch" where
  "patch_of v = \<lparr>cp_name = jsprop v ''name'', cp_cron = jsprop v ''cron'', cp_timezone = jsprop v ''timezone'',
     cp_destination = jsprop v ''destination'', cp_concurrencyPolicy = jsprop v ''concurrencyPolicy'',
     cp_workloadKind = jsprop v ''workloadKind'', cp_shadow = jsprop v ''shadow''\<rparr>"

definition configFromVersion :: "(string \<Rightarrow> bool) \<Rightarrow> jsval version_row \<Rightarrow> resolved_schedule_config res" where
  "configFromVersion iana version =
     (case v_resolved_config version of
        JsObj ms \<Rightarrow> resolveScheduleConfig iana (patch_of (JsObj ms)) None
      | JsArr vs \<Rightarrow> resolveScheduleConfig iana (patch_of (JsArr vs)) None
      | _ \<Rightarrow> Inl (ForesiftError WF_SCHEDULE_CONFIG_INVALID))"

section \<open>Cost forecasts\<close>

definition FORECAST_FRESHNESS_WINDOW_MS :: int where
  "FORECAST_FRESHNESS_WINDOW_MS = 24 * 60 * 60 * 1000"

definition FORECAST_CLOCK_SKEW_MS :: int where
  "FORECAST_CLOCK_SKEW_MS = 5 * 60 * 1000"

text \<open>\<^verbatim>\<open>/^(0|[1-9][0-9]*)(\.[0-9]+)?$/\<close> and \<^verbatim>\<open>/^[0-9]{4}-[0-9]{2}-[0-9]{2}$/\<close>.\<close>

definition unsignedDecimal :: "string \<Rightarrow> bool" where
  "unsignedDecimal s \<longleftrightarrow>
     (case split_char (CHR ''.'') s of
        [i] \<Rightarrow> i \<noteq> [] \<and> list_all digit i \<and> (i = ''0'' \<or> hd i \<noteq> CHR ''0'')
      | [i, f] \<Rightarrow> i \<noteq> [] \<and> list_all digit i \<and> (i = ''0'' \<or> hd i \<noteq> CHR ''0'') \<and> f \<noteq> [] \<and> list_all digit f
      | _ \<Rightarrow> False)"

definition dateOnly :: "string \<Rightarrow> bool" where
  "dateOnly s \<longleftrightarrow> list_all2 (\<lambda>p c. if p = CHR ''d'' then digit c else c = p) ''dddd-dd-dd'' s"

definition nonNegativeInt :: "jsval \<Rightarrow> bool" where
  "nonNegativeInt v \<longleftrightarrow> (case v of JsInt n \<Rightarrow> 0 \<le> n | _ \<Rightarrow> False)"

definition FORECAST_KEYS :: "string list" where
  "FORECAST_KEYS = [''computedAt'', ''runsPerDay'', ''providerCallsPerDay'', ''modelTokensPerDay'',
     ''estimatedModelSpendPerDay'', ''quotaExhaustionDate'', ''storageGrowthPerMonth'']"

text \<open>
  \<open>CostForecastPayloadSchema.safeParse\<close>: a strict object, every member required; the result has the
  members of the schema.
\<close>

definition CostForecastPayloadSchema :: "jsval \<Rightarrow> jsval option" where
  "CostForecastPayloadSchema v =
     (case v of
        JsObj ms \<Rightarrow>
          if list_all (\<lambda>(k, _). k \<in> set FORECAST_KEYS) ms \<and>
             (case jsprop v ''computedAt'' of JsStr t \<Rightarrow> isValidUtcTimestamp t | _ \<Rightarrow> False) \<and>
             nonNegativeInt (jsprop v ''runsPerDay'') \<and> nonNegativeInt (jsprop v ''providerCallsPerDay'') \<and>
             nonNegativeInt (jsprop v ''modelTokensPerDay'') \<and>
             (case jsprop v ''estimatedModelSpendPerDay'' of JsStr d \<Rightarrow> unsignedDecimal d | _ \<Rightarrow> False) \<and>
             (case jsprop v ''quotaExhaustionDate'' of JsNull \<Rightarrow> True | JsStr d \<Rightarrow> dateOnly d | _ \<Rightarrow> False) \<and>
             nonNegativeInt (jsprop v ''storageGrowthPerMonth'')
          then Some (JsObj (map (\<lambda>k. (k, jsprop v k)) FORECAST_KEYS)) else None
      | _ \<Rightarrow> None)"

definition computedAt :: "jsval \<Rightarrow> string" where
  "computedAt forecast = (case jsprop forecast ''computedAt'' of JsStr t \<Rightarrow> t | _ \<Rightarrow> [])"

text \<open>
  The freshness test. \<open>Date.parse\<close> of the timestamp may be not-a-number, and then both
  comparisons are false.
\<close>

definition assertForecastFresh :: "jsval \<Rightarrow> instant \<Rightarrow> int \<Rightarrow> jsval res" where
  "assertForecastFresh forecast now freshnessWindowMs =
     (if forecast = JsNull \<or> forecast = JsUndefined then Inl (ForesiftError WF_FORECAST_MISSING)
      else case CostForecastPayloadSchema forecast of
        None \<Rightarrow> Inl (ForesiftError WF_FORECAST_MISSING)
      | Some parsed \<Rightarrow>
          (case Date_parse (computedAt parsed) of
             None \<Rightarrow> Inr parsed
           | Some computedAtMs \<Rightarrow>
               if now + FORECAST_CLOCK_SKEW_MS < computedAtMs then Inl (ForesiftError WF_FORECAST_STALE)
               else if freshnessWindowMs < now - computedAtMs then Inl (ForesiftError WF_FORECAST_STALE)
               else Inr parsed))"

end
