(* ===== verification/Schedules.thy ===== *)
theory Schedules
  imports ScheduleConfig
begin

text \<open>
  Versioned schedules and their control actions (packages/workflow-runtime/src/schedules.ts,
  second part) over \<open>wf.schedules\<close>, \<open>wf.schedule_versions\<close> and \<open>wf.schedule_forecasts\<close>. A
  transaction is atomic. The actions that are no transaction (validate, dry run, run now) let
  other sessions commit between their statements: \<open>env\<close>.
\<close>

section \<open>Parameters and results\<close>

text \<open>
  What the code calls of its platform: digest, URL parser, time-zone names, the wall clock with its
  text, fresh ids; of the database: how a parameter becomes a boolean or a timestamp column,
  \<open>now()\<close>, and which of several rows of equal rank a \<open>LIMIT 1\<close> picks.
\<close>

record platform =
  pf_sha :: "string \<Rightarrow> string"
  pf_url :: "string \<Rightarrow> (string \<times> string) option"
  pf_iana :: "string \<Rightarrow> bool"
  pf_clock :: "string \<times> instant"
  pf_uuid :: string
  pf_boolean :: "jsval \<Rightarrow> bool option"
  pf_timestamptz :: "string \<Rightarrow> instant option"
  pf_dbnow :: instant
  pf_tie :: nat

text \<open>A given \<open>now\<close> is its text with what \<open>Date.parse\<close> reads in it.\<close>

record control_input =
  ci_action :: string
  ci_scheduleId :: string
  ci_now :: "(string \<times> iso) option"
  ci_config :: "schedule_config_patch option"
  ci_forecast :: jsval
  ci_workloadKind :: "workflow_workload_kind option"
  ci_versionId :: "string option"
  ci_forecastId :: "string option"
  ci_requestId :: "string option"
  ci_newScheduleId :: "string option"

record control_result =
  cr_action :: schedule_control_action
  cr_scheduleId :: string
  cr_status :: schedule_status
  cr_versionId :: "string option"
  cr_details :: jsval

record validation_report =
  vr_scheduleId :: string
  vr_versionId :: "string option"
  vr_configHash :: string
  vr_resolvedConfig :: resolved_schedule_config

text \<open>The constant members of the report (\<open>dryRun\<close>, no influence, no outbox) are left out.\<close>

record dry_run_report =
  dr_scheduleId :: string
  dr_versionId :: string
  dr_configHash :: string
  dr_resolvedConfig :: resolved_schedule_config
  dr_concurrencyPolicy :: jsval
  dr_concurrencyOutcome :: jsval
  dr_wouldStartRun :: bool
  dr_standardStepOrder :: "string list"

datatype control_reply =
    Controlled control_result
  | RanNow control_result trigger_result
  | Validated validation_report
  | DryRan dry_run_report

fun delivery_outcome_text :: "trigger_delivery_outcome \<Rightarrow> string" where
  "delivery_outcome_text RUN_STARTED = ''RUN_STARTED''"
| "delivery_outcome_text POLICY_SKIPPED = ''POLICY_SKIPPED''"
| "delivery_outcome_text DUPLICATE_COLLAPSED = ''DUPLICATE_COLLAPSED''"
| "delivery_outcome_text REJECTED = ''REJECTED''"

definition sched_nowIso :: "platform \<Rightarrow> (string \<times> iso) option \<Rightarrow> (string \<times> instant) res" where
  "sched_nowIso pf input =
     (case input of
        None \<Rightarrow> Inr (pf_clock pf)
      | Some (t, None) \<Rightarrow> Inl (ForesiftError WF_SCHEDULE_CONFIG_INVALID)
      | Some (t, Some i) \<Rightarrow> Inr (t, i))"

section \<open>The version store\<close>

definition loadSchedule :: "string \<Rightarrow> (jsval wf_db, schedule_row) prog" where
  "loadSchedule scheduleId =
     bindP (reads (\<lambda>db. schedule_of db scheduleId)) (\<lambda>found.
     case found of None \<Rightarrow> raise (ForesiftError WF_SCHEDULE_NOT_FOUND) | Some row \<Rightarrow> ret row)"

abbreviation version_of :: "'p wf_db \<Rightarrow> string \<Rightarrow> string \<Rightarrow> 'p version_row option" where
  "version_of db scheduleId versionId \<equiv>
     find (\<lambda>v. v_version_id v = versionId \<and> v_schedule_id v = scheduleId) (schedule_versions db)"

definition loadVersion :: "string \<Rightarrow> string \<Rightarrow> (jsval wf_db, jsval version_row) prog" where
  "loadVersion scheduleId versionId =
     bindP (reads (\<lambda>db. version_of db scheduleId versionId)) (\<lambda>found.
     case found of None \<Rightarrow> raise (ForesiftError WF_SCHEDULE_VERSION_NOT_FOUND) | Some row \<Rightarrow> ret row)"

definition loadCurrentVersion :: "schedule_row \<Rightarrow> (jsval wf_db, jsval version_row) prog" where
  "loadCurrentVersion schedule =
     (case sc_current_version_id schedule of
        None \<Rightarrow> raise (ForesiftError WF_SCHEDULE_VERSION_NOT_FOUND)
      | Some versionId \<Rightarrow> loadVersion (sc_schedule_id schedule) versionId)"

text \<open>The statements. A policy parameter that is no member of the CHECK list is refused by the database.\<close>

definition policy_column :: "jsval \<Rightarrow> concurrency_policy res" where
  "policy_column v =
     (case v of
        JsStr s \<Rightarrow> (case parseConcurrencyPolicy (Some s) of Inr p \<Rightarrow> Inr p | Inl _ \<Rightarrow> Inl SqlError)
      | _ \<Rightarrow> Inl SqlError)"

definition sql_value :: "'a option \<Rightarrow> 'a res" where
  "sql_value v = (case v of None \<Rightarrow> Inl SqlError | Some x \<Rightarrow> Inr x)"

definition schedule_checks :: "schedule_row \<Rightarrow> bool" where
  "schedule_checks r \<longleftrightarrow> sc_schedule_id r \<noteq> [] \<and> sc_name r \<noteq> []"

definition schedule_insert :: "schedule_row \<Rightarrow> (jsval wf_db, unit) prog" where
  "schedule_insert = insert_stmt schedules_update (\<lambda>db r.
     schedule_checks r \<and> schedule_of db (sc_schedule_id r) = None)"

definition schedule_update :: "string \<Rightarrow> (schedule_row \<Rightarrow> schedule_row) \<Rightarrow> (jsval wf_db, schedule_row list) prog" where
  "schedule_update scheduleId f =
     update_stmt schedules schedules_update schedule_checks (\<lambda>_ r. sc_schedule_id r = scheduleId) f"

definition version_insert :: "jsval version_row \<Rightarrow> (jsval wf_db, unit) prog" where
  "version_insert = insert_stmt schedule_versions_update (\<lambda>db r.
     v_version_id r \<noteq> [] \<and> HASH_PATTERN (v_config_hash r) \<and>
     row_by v_version_id (v_version_id r) (schedule_versions db) = None \<and>
     schedule_of db (v_schedule_id r) \<noteq> None)"

definition version_supersede :: "string \<Rightarrow> string \<Rightarrow> string \<Rightarrow> (jsval wf_db, jsval version_row list) prog" where
  "version_supersede versionId previousVersionId scheduleId =
     update_stmt schedule_versions schedule_versions_update (\<lambda>_. True)
       (\<lambda>_ r. v_version_id r = previousVersionId \<and> v_schedule_id r = scheduleId \<and> v_superseded_by r = None)
       (\<lambda>r. r\<lparr>v_superseded_by := Some versionId\<rparr>)"

definition forecast_insert :: "jsval forecast_row \<Rightarrow> (jsval wf_db, unit) prog" where
  "forecast_insert = insert_stmt schedule_forecasts_update (\<lambda>db r.
     fc_forecast_id r \<noteq> [] \<and> HASH_PATTERN (fc_payload_hash r) \<and>
     row_by fc_forecast_id (fc_forecast_id r) (schedule_forecasts db) = None \<and>
     schedule_of db (fc_schedule_id r) \<noteq> None \<and> version_of db (fc_schedule_id r) (fc_version_id r) \<noteq> None)"

definition appendVersion ::
  "platform \<Rightarrow> string \<Rightarrow> resolved_schedule_config \<Rightarrow> instant \<Rightarrow> string option \<Rightarrow> string option \<Rightarrow>
   (jsval wf_db, jsval version_row) prog" where
  "appendVersion pf scheduleId config now versionId previousVersionId =
     bindP (liftE (canonicalJson (config_json config))) (\<lambda>text.
     let configHash = sha256Text (pf_sha pf) text;
         vid = (case versionId of Some v \<Rightarrow> v | None \<Rightarrow> ''wfv_'' @ pf_uuid pf)
     in bindP (liftE (sql_value (pf_boolean pf (rc_shadow config)))) (\<lambda>shadow.
        let row = \<lparr>v_version_id = vid, v_schedule_id = scheduleId, v_config_hash = configHash,
                   v_resolved_config = jsonb (config_json config), v_shadow = shadow, v_superseded_by = None,
                   v_created_at = pf_dbnow pf\<rparr>
        in bindP (version_insert row) (\<lambda>_.
           bindP (case previousVersionId of
                    None \<Rightarrow> ret ()
                  | Some previous \<Rightarrow>
                      bindP (version_supersede vid previous scheduleId) (\<lambda>rows.
                      if rows = [] then raise (ForesiftError WF_SCHEDULE_VERSION_IMMUTABLE) else ret ())) (\<lambda>_.
           bindP (liftE (policy_column (rc_concurrencyPolicy config))) (\<lambda>policy.
           bindP (schedule_update scheduleId (\<lambda>r. r\<lparr>sc_current_version_id := Some vid, sc_name := rc_name config,
                    sc_concurrency_policy := policy, sc_updated_at := now\<rparr>)) (\<lambda>_.
           ret row))))))"

definition draft_row :: "string \<Rightarrow> string \<Rightarrow> concurrency_policy \<Rightarrow> instant \<Rightarrow> schedule_row" where
  "draft_row scheduleId name policy now = \<lparr>sc_schedule_id = scheduleId, sc_name = name, sc_concurrency_policy = policy,
     sc_status = Sched_DRAFT, sc_current_version_id = None, sc_created_at = now, sc_updated_at = now\<rparr>"

section \<open>The actions\<close>

definition createSchedule ::
  "platform \<Rightarrow> string \<Rightarrow> schedule_config_patch \<Rightarrow> (string \<times> iso) option \<Rightarrow> string option \<Rightarrow> (jsval wf_db, control_result) prog" where
  "createSchedule pf scheduleId patch given versionId =
     bindP (liftE (sched_nowIso pf given)) (\<lambda>(_, now).
     bindP (liftE (resolveScheduleConfig (pf_iana pf) patch None)) (\<lambda>config.
     transaction (
       bindP (reads (\<lambda>db. schedule_of db scheduleId)) (\<lambda>existing.
       if existing \<noteq> None then raise (ForesiftError WF_SCHEDULE_TRANSITION_INVALID)
       else bindP (liftE (policy_column (rc_concurrencyPolicy config))) (\<lambda>policy.
            bindP (schedule_insert (draft_row scheduleId (rc_name config) policy now)) (\<lambda>_.
            bindP (appendVersion pf scheduleId config now versionId None) (\<lambda>version.
            ret \<lparr>cr_action = Ctl_CREATE, cr_scheduleId = scheduleId, cr_status = Sched_DRAFT,
                 cr_versionId = Some (v_version_id version),
                 cr_details = JsObj [(''configHash'', JsStr (v_config_hash version)), (''resolvedConfig'', config_json config)]\<rparr>)))))))"

definition editScheduleDraft :: "platform \<Rightarrow> control_input \<Rightarrow> (jsval wf_db, control_result) prog" where
  "editScheduleDraft pf input =
     bindP (liftE (sched_nowIso pf (ci_now input))) (\<lambda>(_, now).
     transaction (
       bindP (loadSchedule (ci_scheduleId input)) (\<lambda>schedule.
       if sc_status schedule = Sched_DISABLED then raise (ForesiftError WF_SCHEDULE_TRANSITION_INVALID)
       else bindP (loadCurrentVersion schedule) (\<lambda>current.
            bindP (liftE (configFromVersion (pf_iana pf) current)) (\<lambda>base.
            bindP (liftE (resolveScheduleConfig (pf_iana pf)
                     (case ci_config input of Some p \<Rightarrow> p | None \<Rightarrow> empty_patch) (Some base))) (\<lambda>config.
            bindP (appendVersion pf (ci_scheduleId input) config now (ci_versionId input) (Some (v_version_id current))) (\<lambda>version.
            ret \<lparr>cr_action = Ctl_EDIT_DRAFT, cr_scheduleId = ci_scheduleId input, cr_status = sc_status schedule,
                 cr_versionId = Some (v_version_id version),
                 cr_details = JsObj [(''supersededVersionId'', JsStr (v_version_id current)),
                   (''configHash'', JsStr (v_config_hash version)), (''resolvedConfig'', config_json config)]\<rparr>)))))))"

definition config_patch :: "resolved_schedule_config \<Rightarrow> schedule_config_patch" where
  "config_patch c = \<lparr>cp_name = JsStr (rc_name c), cp_cron = JsStr (rc_cron c), cp_timezone = JsStr (rc_timezone c),
     cp_destination = JsStr (rc_destination c), cp_concurrencyPolicy = rc_concurrencyPolicy c,
     cp_workloadKind = rc_workloadKind c, cp_shadow = rc_shadow c\<rparr>"

definition validateSchedule ::
  "platform \<Rightarrow> (nat \<Rightarrow> jsval wf_db \<Rightarrow> jsval wf_db) \<Rightarrow> control_input \<Rightarrow> (jsval wf_db, validation_report) prog" where
  "validateSchedule pf env input =
     (case ci_config input of
        Some patch \<Rightarrow>
          bindP (liftE (resolveScheduleConfig (pf_iana pf) patch None)) (\<lambda>config.
          bindP (liftE (canonicalJson (config_json config))) (\<lambda>text.
          ret \<lparr>vr_scheduleId = ci_scheduleId input, vr_versionId = None, vr_configHash = sha256Text (pf_sha pf) text,
               vr_resolvedConfig = config\<rparr>))
      | None \<Rightarrow>
          bindP (loadSchedule (ci_scheduleId input)) (\<lambda>schedule.
          bindP (gap env 0) (\<lambda>_.
          bindP (loadCurrentVersion schedule) (\<lambda>version.
          bindP (liftE (configFromVersion (pf_iana pf) version)) (\<lambda>stored.
          bindP (liftE (resolveScheduleConfig (pf_iana pf) (config_patch stored) None)) (\<lambda>config.
          bindP (liftE (canonicalJson (config_json config))) (\<lambda>text.
          ret \<lparr>vr_scheduleId = ci_scheduleId input, vr_versionId = Some (v_version_id version),
               vr_configHash = sha256Text (pf_sha pf) text, vr_resolvedConfig = config\<rparr>)))))))"

definition ends_with :: "string \<Rightarrow> string \<Rightarrow> bool" where
  "ends_with s suffix \<longleftrightarrow> length suffix \<le> length s \<and> drop (length s - length suffix) s = suffix"

definition DELETED_SUFFIX :: string where
  "DELETED_SUFFIX = '' (deleted)''"

definition enableSchedule :: "platform \<Rightarrow> control_input \<Rightarrow> (jsval wf_db, control_result) prog" where
  "enableSchedule pf input =
     bindP (liftE (sched_nowIso pf (ci_now input))) (\<lambda>(_, now).
     bindP (liftE (assertForecastFresh (ci_forecast input) now FORECAST_FRESHNESS_WINDOW_MS)) (\<lambda>forecast.
     transaction (
       bindP (loadSchedule (ci_scheduleId input)) (\<lambda>schedule.
       if sc_status schedule = Sched_ACTIVE then raise (ForesiftError WF_SCHEDULE_TRANSITION_INVALID)
       else if ends_with (sc_name schedule) DELETED_SUFFIX then raise (ForesiftError WF_SCHEDULE_TRANSITION_INVALID)
       else bindP (loadCurrentVersion schedule) (\<lambda>version.
            bindP (liftE (canonicalJson forecast)) (\<lambda>text.
            let payloadHash = sha256Text (pf_sha pf) text;
                forecastId = (case ci_forecastId input of Some f \<Rightarrow> f | None \<Rightarrow> ''wff_'' @ pf_uuid pf)
            in bindP (liftE (sql_value (pf_timestamptz pf (computedAt forecast)))) (\<lambda>computed_at.
               bindP (forecast_insert \<lparr>fc_forecast_id = forecastId, fc_schedule_id = ci_scheduleId input,
                        fc_version_id = v_version_id version, fc_computed_at = computed_at, fc_payload = jsonb forecast,
                        fc_payload_hash = payloadHash, fc_created_at = now\<rparr>) (\<lambda>_.
               bindP (schedule_update (ci_scheduleId input) (\<lambda>r. r\<lparr>sc_status := Sched_ACTIVE, sc_updated_at := now\<rparr>)) (\<lambda>_.
               ret \<lparr>cr_action = Ctl_ENABLE, cr_scheduleId = ci_scheduleId input, cr_status = Sched_ACTIVE,
                    cr_versionId = Some (v_version_id version),
                    cr_details = JsObj [(''forecastId'', JsStr forecastId), (''forecastHash'', JsStr payloadHash),
                      (''computedAt'', JsStr (computedAt forecast))]\<rparr>)))))))))"

definition transitionStatus ::
  "platform \<Rightarrow> control_input \<Rightarrow> schedule_status list \<Rightarrow> schedule_status \<Rightarrow> schedule_control_action \<Rightarrow>
   (jsval wf_db, control_result) prog" where
  "transitionStatus pf input sources target action =
     bindP (liftE (sched_nowIso pf (ci_now input))) (\<lambda>(_, now).
     transaction (
       bindP (loadSchedule (ci_scheduleId input)) (\<lambda>schedule.
       if sc_status schedule \<notin> set sources then raise (ForesiftError WF_SCHEDULE_TRANSITION_INVALID)
       else bindP (schedule_update (ci_scheduleId input) (\<lambda>r. r\<lparr>sc_status := target, sc_updated_at := now\<rparr>)) (\<lambda>_.
            ret \<lparr>cr_action = action, cr_scheduleId = ci_scheduleId input, cr_status = target,
                 cr_versionId = sc_current_version_id schedule,
                 cr_details = JsObj [(''previousStatus'', JsStr (schedule_status_text (sc_status schedule)))]\<rparr>))))"

definition pauseSchedule :: "platform \<Rightarrow> control_input \<Rightarrow> (jsval wf_db, control_result) prog" where
  "pauseSchedule pf input = transitionStatus pf input [Sched_ACTIVE] Sched_PAUSED Ctl_PAUSE"

text \<open>\<open>ORDER BY computed_at DESC LIMIT 1\<close>.\<close>

definition latest_forecasts :: "'p wf_db \<Rightarrow> string \<Rightarrow> 'p forecast_row list" where
  "latest_forecasts db scheduleId =
     (let rows = filter (\<lambda>f. fc_schedule_id f = scheduleId) (schedule_forecasts db)
      in filter (\<lambda>f. list_all (\<lambda>g. fc_computed_at g \<le> fc_computed_at f) rows) rows)"

definition latest_forecast :: "nat \<Rightarrow> string \<Rightarrow> 'p wf_db \<Rightarrow> 'p forecast_row option" where
  "latest_forecast tie scheduleId db =
     (let rows = latest_forecasts db scheduleId in if rows = [] then None else Some (rows ! (tie mod length rows)))"

definition resumeSchedule :: "platform \<Rightarrow> control_input \<Rightarrow> (jsval wf_db, control_result) prog" where
  "resumeSchedule pf input =
     bindP (liftE (sched_nowIso pf (ci_now input))) (\<lambda>(_, now).
     transaction (
       bindP (loadSchedule (ci_scheduleId input)) (\<lambda>schedule.
       if sc_status schedule \<noteq> Sched_PAUSED then raise (ForesiftError WF_SCHEDULE_TRANSITION_INVALID)
       else bindP (reads (latest_forecast (pf_tie pf) (ci_scheduleId input))) (\<lambda>latest.
            case latest of
              None \<Rightarrow> raise (ForesiftError WF_FORECAST_MISSING)
            | Some persisted \<Rightarrow>
                if Some (fc_version_id persisted) \<noteq> sc_current_version_id schedule then raise (ForesiftError WF_FORECAST_STALE)
                else if now + FORECAST_CLOCK_SKEW_MS < fc_computed_at persisted then raise (ForesiftError WF_FORECAST_STALE)
                else if FORECAST_FRESHNESS_WINDOW_MS < now - fc_computed_at persisted then raise (ForesiftError WF_FORECAST_STALE)
                else bindP (schedule_update (ci_scheduleId input) (\<lambda>r. r\<lparr>sc_status := Sched_ACTIVE, sc_updated_at := now\<rparr>)) (\<lambda>_.
                     ret \<lparr>cr_action = Ctl_RESUME, cr_scheduleId = ci_scheduleId input, cr_status = Sched_ACTIVE,
                          cr_versionId = sc_current_version_id schedule,
                          cr_details = JsObj [(''previousStatus'', JsStr (schedule_status_text (sc_status schedule))),
                            (''forecastVersionId'', JsStr (fc_version_id persisted))]\<rparr>)))))"

definition run_now_input :: "platform \<Rightarrow> control_input \<Rightarrow> string \<Rightarrow> instant \<Rightarrow> string \<Rightarrow> trigger_input" where
  "run_now_input pf input requestId now text =
     \<lparr>ti_source = ''admin'', ti_externalMessageId = requestId, ti_scheduleId = ci_scheduleId input,
      ti_scheduledFor = Some now, ti_payloadHash = sha256Text (pf_sha pf) text, ti_receivedAt = Some now,
      ti_verifiedAt = Some (Some now), ti_workloadKind = ci_workloadKind input, ti_deadlineMs = None,
      ti_inboxId = None, ti_runId = None\<rparr>"

definition runScheduleNow ::
  "platform \<Rightarrow> (nat \<Rightarrow> jsval wf_db \<Rightarrow> jsval wf_db) \<Rightarrow> control_input \<Rightarrow> (jsval wf_db, control_result \<times> trigger_result) prog" where
  "runScheduleNow pf env input =
     bindP (liftE (sched_nowIso pf (ci_now input))) (\<lambda>(now_text, now).
     bindP (loadSchedule (ci_scheduleId input)) (\<lambda>schedule.
     if sc_status schedule = Sched_DISABLED then raise (ForesiftError WF_SCHEDULE_DISABLED)
     else if sc_status schedule = Sched_PAUSED then raise (ForesiftError WF_SCHEDULE_PAUSED)
     else if sc_status schedule \<noteq> Sched_ACTIVE then raise (ForesiftError WF_SCHEDULE_NOT_ACTIVE)
     else let requestId = (case ci_requestId input of Some i \<Rightarrow> i
                           | None \<Rightarrow> ''run-now:'' @ ci_scheduleId input @ '':'' @ now_text)
          in bindP (liftE (canonicalJson (JsObj [(''action'', JsStr ''RUN_NOW''), (''scheduleId'', JsStr (ci_scheduleId input)),
                      (''requestId'', JsStr requestId)]))) (\<lambda>text.
             bindP (gap env 0) (\<lambda>_.
             bindP (recordTriggerDeliveryInner (pf_sha pf) (pf_url pf) (run_now_input pf input requestId now text)) (\<lambda>run.
             ret (\<lparr>cr_action = Ctl_RUN_NOW, cr_scheduleId = ci_scheduleId input, cr_status = sc_status schedule,
                   cr_versionId = sc_current_version_id schedule,
                   cr_details = JsObj [(''requestId'', JsStr requestId),
                     (''runId'', case tr_runId run of Some i \<Rightarrow> JsStr i | None \<Rightarrow> JsNull),
                     (''outcome'', JsStr (delivery_outcome_text (tr_outcome run)))]\<rparr>, run))))))"

definition dryRunSchedule ::
  "platform \<Rightarrow> (nat \<Rightarrow> jsval wf_db \<Rightarrow> jsval wf_db) \<Rightarrow> control_input \<Rightarrow> (jsval wf_db, dry_run_report) prog" where
  "dryRunSchedule pf env input =
     bindP (loadSchedule (ci_scheduleId input)) (\<lambda>schedule.
     bindP (gap env 0) (\<lambda>_.
     bindP (loadCurrentVersion schedule) (\<lambda>version.
     bindP (liftE (configFromVersion (pf_iana pf) version)) (\<lambda>config.
     bindP (liftE (resolveScheduleConfig (pf_iana pf) empty_patch (Some config))) (\<lambda>resolvedConfig.
     bindP (gap env 1) (\<lambda>_.
     bindP (reads (\<lambda>db. active_runs db (sc_schedule_id schedule) \<noteq> [])) (\<lambda>active.
     let policy = rc_concurrencyPolicy resolvedConfig
     in ret \<lparr>dr_scheduleId = sc_schedule_id schedule, dr_versionId = v_version_id version,
             dr_configHash = v_config_hash version, dr_resolvedConfig = resolvedConfig,
             dr_concurrencyPolicy = policy, dr_concurrencyOutcome = policy,
             dr_wouldStartRun = (\<not> (active \<and> policy = JsStr (concurrency_policy_text SKIP_IF_RUNNING))),
             dr_standardStepOrder = WF_STANDARD_STEP_ORDER\<rparr>)))))))"

definition duplicateSchedule :: "platform \<Rightarrow> control_input \<Rightarrow> (jsval wf_db, control_result) prog" where
  "duplicateSchedule pf input =
     bindP (liftE (sched_nowIso pf (ci_now input))) (\<lambda>(_, now).
     transaction (
       bindP (loadSchedule (ci_scheduleId input)) (\<lambda>schedule.
       bindP (loadCurrentVersion schedule) (\<lambda>current.
       bindP (liftE (configFromVersion (pf_iana pf) current)) (\<lambda>base.
       let newScheduleId = (case ci_newScheduleId input of Some i \<Rightarrow> i | None \<Rightarrow> ''wfs_'' @ pf_uuid pf);
           config = base\<lparr>rc_name := rc_name base @ '' (copy)''\<rparr>
       in bindP (liftE (policy_column (rc_concurrencyPolicy config))) (\<lambda>policy.
          bindP (schedule_insert (draft_row newScheduleId (rc_name config) policy now)) (\<lambda>_.
          bindP (appendVersion pf newScheduleId config now (ci_versionId input) None) (\<lambda>version.
          ret \<lparr>cr_action = Ctl_DUPLICATE, cr_scheduleId = newScheduleId, cr_status = Sched_DRAFT,
               cr_versionId = Some (v_version_id version),
               cr_details = JsObj [(''sourceScheduleId'', JsStr (sc_schedule_id schedule)),
                 (''sourceVersionId'', JsStr (v_version_id current))]\<rparr>))))))))"

definition disableSchedule :: "platform \<Rightarrow> control_input \<Rightarrow> (jsval wf_db, control_result) prog" where
  "disableSchedule pf input =
     transitionStatus pf input [Sched_DRAFT, Sched_ACTIVE, Sched_PAUSED] Sched_DISABLED Ctl_DISABLE"

definition deleteSchedule :: "platform \<Rightarrow> control_input \<Rightarrow> (jsval wf_db, control_result) prog" where
  "deleteSchedule pf input =
     bindP (liftE (sched_nowIso pf (ci_now input))) (\<lambda>(_, now).
     transaction (
       bindP (loadSchedule (ci_scheduleId input)) (\<lambda>schedule.
       if sc_status schedule = Sched_ACTIVE then raise (ForesiftError WF_SCHEDULE_TRANSITION_INVALID)
       else bindP (reads (\<lambda>db. active_runs db (ci_scheduleId input) \<noteq> [])) (\<lambda>live.
            if live then raise (ForesiftError WF_SCHEDULE_TRANSITION_INVALID)
            else let alreadyDeleted = ends_with (sc_name schedule) DELETED_SUFFIX;
                     name = (if alreadyDeleted then sc_name schedule else sc_name schedule @ DELETED_SUFFIX)
                 in bindP (schedule_update (ci_scheduleId input) (\<lambda>r. r\<lparr>sc_status := Sched_DISABLED, sc_name := name,
                             sc_updated_at := now\<rparr>)) (\<lambda>_.
                    ret \<lparr>cr_action = Ctl_DELETE, cr_scheduleId = ci_scheduleId input, cr_status = Sched_DISABLED,
                         cr_versionId = sc_current_version_id schedule,
                         cr_details = JsObj [(''softDeleted'', JsBool True), (''alreadyDeleted'', JsBool alreadyDeleted)]\<rparr>)))))"

definition mapP :: "('a \<Rightarrow> 'b) \<Rightarrow> ('s, 'a) prog \<Rightarrow> ('s, 'b) prog" where
  "mapP f m = bindP m (\<lambda>x. ret (f x))"

definition applyScheduleControl ::
  "platform \<Rightarrow> (nat \<Rightarrow> jsval wf_db \<Rightarrow> jsval wf_db) \<Rightarrow> control_input \<Rightarrow> (jsval wf_db, control_reply) prog" where
  "applyScheduleControl pf env input =
     bindP (liftE (parseScheduleControlAction (Some (ci_action input)))) (\<lambda>action.
     case action of
       Ctl_CREATE \<Rightarrow> mapP Controlled (createSchedule pf (ci_scheduleId input)
         (case ci_config input of Some p \<Rightarrow> p | None \<Rightarrow> empty_patch) (ci_now input) (ci_versionId input))
     | Ctl_EDIT_DRAFT \<Rightarrow> mapP Controlled (editScheduleDraft pf input)
     | Ctl_VALIDATE \<Rightarrow> mapP Validated (validateSchedule pf env input)
     | Ctl_ENABLE \<Rightarrow> mapP Controlled (enableSchedule pf input)
     | Ctl_PAUSE \<Rightarrow> mapP Controlled (pauseSchedule pf input)
     | Ctl_RESUME \<Rightarrow> mapP Controlled (resumeSchedule pf input)
     | Ctl_RUN_NOW \<Rightarrow> mapP (\<lambda>(r, run). RanNow r run) (runScheduleNow pf env input)
     | Ctl_DRY_RUN \<Rightarrow> mapP DryRan (dryRunSchedule pf env input)
     | Ctl_DUPLICATE \<Rightarrow> mapP Controlled (duplicateSchedule pf input)
     | Ctl_DISABLE \<Rightarrow> mapP Controlled (disableSchedule pf input)
     | Ctl_DELETE \<Rightarrow> mapP Controlled (deleteSchedule pf input))"

end
