(* ===== verification/ScheduleLaws.thy ===== *)
theory ScheduleLaws
  imports Schedules
begin

text \<open>
  What schedule control promises. The specification is a small state machine: a schedule moves
  between its statuses, a draft is created with its first version, or an edit appends a version
  and supersedes the current one. Every control action of the code, with any such interference
  between its statements, is a sequence of these steps; the invariant of the version store and the
  immutability of versions follow by induction over the steps.
\<close>

section \<open>The specification\<close>

abbreviation deleted_name :: "string \<Rightarrow> bool" where
  "deleted_name n \<equiv> ends_with n DELETED_SUFFIX"

definition status_move :: "schedule_row \<Rightarrow> schedule_status \<Rightarrow> string \<Rightarrow> bool" where
  "status_move s st name \<longleftrightarrow>
     st = Sched_ACTIVE \<and> name = sc_name s \<and> (sc_status s \<noteq> Sched_ACTIVE \<and> \<not> deleted_name (sc_name s) \<or> sc_status s = Sched_PAUSED) \<or>
     st = Sched_PAUSED \<and> name = sc_name s \<and> sc_status s = Sched_ACTIVE \<or>
     st = Sched_DISABLED \<and> name = sc_name s \<and> sc_status s \<noteq> Sched_DISABLED \<or>
     st = Sched_DISABLED \<and> sc_status s \<noteq> Sched_ACTIVE \<and>
       name = (if deleted_name (sc_name s) then sc_name s else sc_name s @ DELETED_SUFFIX)"

text \<open>A new version as a schedule's configuration: content address and policy match what is stored.\<close>

definition sound_version :: "(string \<Rightarrow> string) \<Rightarrow> concurrency_policy \<Rightarrow> jsval version_row \<Rightarrow> bool" where
  "sound_version sha policy v \<longleftrightarrow> v_superseded_by v = None \<and>
     (\<exists>t. canonicalJson (v_resolved_config v) = Inr t \<and> v_config_hash v = sha256Text sha t) \<and>
     jsprop (v_resolved_config v) ''concurrencyPolicy'' = JsStr (concurrency_policy_text policy)"

definition supersede_in ::
  "jsval version_row \<Rightarrow> string \<Rightarrow> jsval version_row list \<Rightarrow> jsval version_row list" where
  "supersede_in v previous rows =
     sql_update (\<lambda>r. v_version_id r = previous \<and> v_schedule_id r = v_schedule_id v \<and> v_superseded_by r = None)
       (\<lambda>r. r\<lparr>v_superseded_by := Some (v_version_id v)\<rparr>) rows"

definition keeps_version :: "(schedule_row \<Rightarrow> schedule_row) \<Rightarrow> bool" where
  "keeps_version f \<longleftrightarrow> (\<forall>r. sc_schedule_id (f r) = sc_schedule_id r \<and> sc_current_version_id (f r) = sc_current_version_id r \<and>
     sc_concurrency_policy (f r) = sc_concurrency_policy r)"

inductive sched_step :: "(string \<Rightarrow> string) \<Rightarrow> jsval wf_db \<Rightarrow> jsval wf_db \<Rightarrow> bool" for sha where
  move: "schedule_of db k = Some s \<Longrightarrow> status_move s (sc_status (f s)) (sc_name (f s)) \<Longrightarrow> keeps_version f \<Longrightarrow>
    schedules db' = sql_update (\<lambda>r. sc_schedule_id r = k) f (schedules db) \<Longrightarrow>
    schedule_versions db' = schedule_versions db \<Longrightarrow> sched_step sha db db'"
| create: "schedule_of db (sc_schedule_id s) = None \<Longrightarrow> row_by v_version_id (v_version_id v) (schedule_versions db) = None \<Longrightarrow>
    sc_status s = Sched_DRAFT \<Longrightarrow> sc_current_version_id s = Some (v_version_id v) \<Longrightarrow> v_schedule_id v = sc_schedule_id s \<Longrightarrow>
    sound_version sha (sc_concurrency_policy s) v \<Longrightarrow>
    schedules db' = schedules db @ [s] \<Longrightarrow> schedule_versions db' = schedule_versions db @ [v] \<Longrightarrow> sched_step sha db db'"
| edit: "schedule_of db k = Some s \<Longrightarrow> sc_status s \<noteq> Sched_DISABLED \<Longrightarrow> sc_current_version_id s = Some previous \<Longrightarrow>
    version_of db k previous = Some old \<Longrightarrow> v_superseded_by old = None \<Longrightarrow>
    row_by v_version_id (v_version_id v) (schedule_versions db) = None \<Longrightarrow> v_schedule_id v = k \<Longrightarrow> sound_version sha policy v \<Longrightarrow>
    schedules db' = sql_update (\<lambda>r. sc_schedule_id r = k) (\<lambda>r. r\<lparr>sc_current_version_id := Some (v_version_id v), sc_name := name,
      sc_concurrency_policy := policy, sc_updated_at := t\<rparr>) (schedules db) \<Longrightarrow>
    schedule_versions db' = supersede_in v previous (schedule_versions db @ [v]) \<Longrightarrow> sched_step sha db db'"
| other: "schedules db' = schedules db \<Longrightarrow> schedule_versions db' = schedule_versions db \<Longrightarrow> sched_step sha db db'"

abbreviation sched_steps :: "(string \<Rightarrow> string) \<Rightarrow> jsval wf_db \<Rightarrow> jsval wf_db \<Rightarrow> bool" where
  "sched_steps sha \<equiv> (sched_step sha)\<^sup>*\<^sup>*"

interpretation sched_history: rely_guarantee "sched_steps sha"
  by unfold_locales auto

section \<open>The invariant of the version store\<close>

text \<open>
  Ids are unique; every schedule points to a version of its own that is not superseded and whose
  stored policy is the schedule's; there is no other such version; every pointer of a superseded
  version stays within its schedule; every version carries its content address.
\<close>

definition sched_inv :: "(string \<Rightarrow> string) \<Rightarrow> jsval wf_db \<Rightarrow> bool" where
  "sched_inv sha db \<longleftrightarrow>
     keys_distinct sc_schedule_id (schedules db) \<and> keys_distinct v_version_id (schedule_versions db) \<and>
     (\<forall>s \<in> set (schedules db). \<exists>v \<in> set (schedule_versions db). sc_current_version_id s = Some (v_version_id v) \<and>
        v_schedule_id v = sc_schedule_id s \<and> v_superseded_by v = None \<and>
        jsprop (v_resolved_config v) ''concurrencyPolicy'' = JsStr (concurrency_policy_text (sc_concurrency_policy s))) \<and>
     (\<forall>v \<in> set (schedule_versions db). v_superseded_by v = None \<longrightarrow>
        (\<exists>s \<in> set (schedules db). sc_schedule_id s = v_schedule_id v \<and> sc_current_version_id s = Some (v_version_id v))) \<and>
     (\<forall>v \<in> set (schedule_versions db). \<forall>w. v_superseded_by v = Some w \<longrightarrow>
        (\<exists>u \<in> set (schedule_versions db). v_version_id u = w \<and> v_schedule_id u = v_schedule_id v)) \<and>
     (\<forall>v \<in> set (schedule_versions db). \<exists>t. canonicalJson (v_resolved_config v) = Inr t \<and> v_config_hash v = sha256Text sha t)"

lemma sched_invD:
  assumes "sched_inv sha db"
  shows "keys_distinct sc_schedule_id (schedules db)" and "keys_distinct v_version_id (schedule_versions db)"
    and "s \<in> set (schedules db) \<Longrightarrow> \<exists>v \<in> set (schedule_versions db). sc_current_version_id s = Some (v_version_id v) \<and>
        v_schedule_id v = sc_schedule_id s \<and> v_superseded_by v = None \<and>
        jsprop (v_resolved_config v) ''concurrencyPolicy'' = JsStr (concurrency_policy_text (sc_concurrency_policy s))"
    and "v \<in> set (schedule_versions db) \<Longrightarrow> v_superseded_by v = None \<Longrightarrow>
        \<exists>s \<in> set (schedules db). sc_schedule_id s = v_schedule_id v \<and> sc_current_version_id s = Some (v_version_id v)"
    and "v \<in> set (schedule_versions db) \<Longrightarrow> v_superseded_by v = Some w \<Longrightarrow>
        \<exists>u \<in> set (schedule_versions db). v_version_id u = w \<and> v_schedule_id u = v_schedule_id v"
    and "v \<in> set (schedule_versions db) \<Longrightarrow> \<exists>t. canonicalJson (v_resolved_config v) = Inr t \<and> v_config_hash v = sha256Text sha t"
  using assms unfolding sched_inv_def by blast+

lemma sched_inv_empty: "sched_inv sha empty_db"
  by (simp add: sched_inv_def empty_db_def keys_distinct_def)

lemma row_unique: "keys_distinct key rows \<Longrightarrow> r \<in> set rows \<Longrightarrow> q \<in> set rows \<Longrightarrow> key r = key q \<Longrightarrow> r = q"
  by (auto simp: keys_distinct_def distinct_map inj_on_def)

lemma set_sql_update_image: "set (sql_update p f rows) = (\<lambda>r. if p r then f r else r) ` set rows"
  by (simp add: sql_update_def)

lemma row_by_update_key:
  assumes "\<And>r. key (f r) = key r"
  shows "row_by key k (sql_update (\<lambda>r. key r = k') f rows) = (if k = k' then map_option f (row_by key k rows) else row_by key k rows)"
  using assms by (induction rows) auto

lemma version_ofD:
  "version_of db k i = Some v \<Longrightarrow> v \<in> set (schedule_versions db) \<and> v_version_id v = i \<and> v_schedule_id v = k"
  by (auto simp: find_Some_iff)

lemma sched_inv_move:
  assumes "sched_inv sha db"
    and "schedules db' = sql_update p f (schedules db)" and "schedule_versions db' = schedule_versions db" and "keeps_version f"
  shows "sched_inv sha db'"
proof -
  have s: "\<exists>q \<in> set (schedules db). sc_schedule_id r = sc_schedule_id q \<and> sc_current_version_id r = sc_current_version_id q \<and>
      sc_concurrency_policy r = sc_concurrency_policy q" if "r \<in> set (schedules db')" for r
    using that assms(4) unfolding assms(2) set_sql_update keeps_version_def by blast
  have s': "\<exists>q \<in> set (schedules db'). sc_schedule_id r = sc_schedule_id q \<and> sc_current_version_id r = sc_current_version_id q"
    if "r \<in> set (schedules db)" for r
    using that assms(4) unfolding assms(2) set_sql_update_image keeps_version_def by (intro bexI [OF _ imageI [OF that]]) simp
  have keys: "keys_distinct sc_schedule_id (schedules db')" unfolding assms(2) using sched_invD(1) [OF assms(1)] assms(4) by (simp add: keeps_version_def)
  have 3: "\<exists>v \<in> set (schedule_versions db). sc_current_version_id r = Some (v_version_id v) \<and>
        v_schedule_id v = sc_schedule_id r \<and> v_superseded_by v = None \<and>
        jsprop (v_resolved_config v) ''concurrencyPolicy'' = JsStr (concurrency_policy_text (sc_concurrency_policy r))"
    if "r \<in> set (schedules db')" for r
    using s [OF that] sched_invD(3) [OF assms(1)] by metis
  have 4: "\<exists>r \<in> set (schedules db'). sc_schedule_id r = v_schedule_id v \<and> sc_current_version_id r = Some (v_version_id v)"
    if "v \<in> set (schedule_versions db)" "v_superseded_by v = None" for v
    using s' sched_invD(4) [OF assms(1) that] by metis
  show ?thesis
    using keys 3 4 sched_invD(2,5,6) [OF assms(1)] unfolding sched_inv_def assms(3) by blast
qed

lemma sched_inv_create:
  assumes "sched_inv sha db" and "schedule_of db (sc_schedule_id s) = None"
    and "row_by v_version_id (v_version_id v) (schedule_versions db) = None"
    and "sc_current_version_id s = Some (v_version_id v)" and "v_schedule_id v = sc_schedule_id s"
    and "sound_version sha (sc_concurrency_policy s) v"
    and "schedules db' = schedules db @ [s]" and "schedule_versions db' = schedule_versions db @ [v]"
  shows "sched_inv sha db'"
proof -
  have "keys_distinct sc_schedule_id (schedules db')" "keys_distinct v_version_id (schedule_versions db')"
    using assms sched_invD(1,2) [OF assms(1)] by simp_all
  then show ?thesis
    using assms(1,4,5,6) unfolding sched_inv_def sound_version_def assms(7,8)
    by (simp del: keys_distinct_append)
qed

text \<open>After an edit each old row is itself, but for the pointer of the superseded one.\<close>

lemma supersede_in_rows:
  assumes "keys_distinct v_version_id rows" and "old \<in> set rows" and "v_version_id old = previous"
    and "v_schedule_id old = v_schedule_id v" and "v_superseded_by old = None"
    and "row_by v_version_id (v_version_id v) rows = None"
  shows "set (supersede_in v previous (rows @ [v])) =
    insert v (insert (old\<lparr>v_superseded_by := Some (v_version_id v)\<rparr>) (set rows - {old}))"
proof -
  let ?g = "\<lambda>r. if v_version_id r = previous \<and> v_schedule_id r = v_schedule_id v \<and> v_superseded_by r = None
    then r\<lparr>v_superseded_by := Some (v_version_id v)\<rparr> else r"
  have v: "v_version_id v \<noteq> previous" using assms(2,3,6) by (auto simp: row_by_None_iff)
  have other: "?g r = r" if "r \<in> set rows" "r \<noteq> old" for r
    using row_unique [OF assms(1) that(1) assms(2)] that(2) assms(3) by auto
  have "set (supersede_in v previous (rows @ [v])) = insert (?g v) (?g ` set rows)"
    by (simp add: supersede_in_def set_sql_update_image)
  moreover have "?g ` set rows = insert (?g old) (?g ` (set rows - {old}))" using assms(2) by blast
  moreover have "?g ` (set rows - {old}) = set rows - {old}" using other by force
  moreover have "?g old = old\<lparr>v_superseded_by := Some (v_version_id v)\<rparr>" using assms(3-5) by simp
  moreover have "?g v = v" using v by simp
  ultimately show ?thesis by simp
qed

lemma sched_inv_edit:
  assumes inv: "sched_inv sha db" and k: "schedule_of db k = Some s" and cur: "sc_current_version_id s = Some previous"
    and old: "version_of db k previous = Some old" "v_superseded_by old = None"
    and new: "row_by v_version_id (v_version_id v) (schedule_versions db) = None" "v_schedule_id v = k" "sound_version sha policy v"
    and sch: "schedules db' = sql_update (\<lambda>r. sc_schedule_id r = k) (\<lambda>r. r\<lparr>sc_current_version_id := Some (v_version_id v),
      sc_name := name, sc_concurrency_policy := policy, sc_updated_at := t\<rparr>) (schedules db)"
    and ver: "schedule_versions db' = supersede_in v previous (schedule_versions db @ [v])"
  shows "sched_inv sha db'"
proof -
  let ?s = "s\<lparr>sc_current_version_id := Some (v_version_id v), sc_name := name, sc_concurrency_policy := policy, sc_updated_at := t\<rparr>"
  let ?old = "old\<lparr>v_superseded_by := Some (v_version_id v)\<rparr>"
  note D = sched_invD [OF inv]
  have o: "old \<in> set (schedule_versions db)" "v_version_id old = previous" "v_schedule_id old = k"
    using version_ofD [OF old(1)] by auto
  have s: "s \<in> set (schedules db)" "sc_schedule_id s = k" using row_by_SomeD [OF k] by auto
  have V: "set (schedule_versions db') = insert v (insert ?old (set (schedule_versions db) - {old}))"
    unfolding ver using supersede_in_rows [OF D(2) o(1,2) _ old(2) new(1)] o(3) new(2) by simp
  have uniq: "r = s" if "r \<in> set (schedules db)" "sc_schedule_id r = k" for r
    using row_unique [OF D(1) that(1) s(1)] that(2) s(2) by simp
  have S: "set (schedules db') = insert ?s (set (schedules db) - {s})"
  proof -
    let ?g = "\<lambda>r. if sc_schedule_id r = k then r\<lparr>sc_current_version_id := Some (v_version_id v), sc_name := name,
      sc_concurrency_policy := policy, sc_updated_at := t\<rparr> else r"
    have "?g ` set (schedules db) = insert (?g s) (?g ` (set (schedules db) - {s}))" using s(1) by blast
    moreover have "?g ` (set (schedules db) - {s}) = set (schedules db) - {s}" using uniq by force
    ultimately show ?thesis unfolding sch set_sql_update_image using s(2) by simp
  qed
  have keys: "keys_distinct sc_schedule_id (schedules db')" "keys_distinct v_version_id (schedule_versions db')"
    unfolding sch ver supersede_in_def using D(1,2) new(1) by simp_all
  have 3: "\<exists>u \<in> set (schedule_versions db'). sc_current_version_id r = Some (v_version_id u) \<and> v_schedule_id u = sc_schedule_id r \<and>
      v_superseded_by u = None \<and>
      jsprop (v_resolved_config u) ''concurrencyPolicy'' = JsStr (concurrency_policy_text (sc_concurrency_policy r))"
    if r: "r \<in> set (schedules db')" for r
  proof (cases "r = ?s")
    case True
    then show ?thesis using new(2,3) s(2) by (intro bexI [of _ v]) (simp_all add: V sound_version_def)
  next
    case False
    then have rdb: "r \<in> set (schedules db)" "r \<noteq> s" using r S by auto
    then obtain u where u: "u \<in> set (schedule_versions db)" "sc_current_version_id r = Some (v_version_id u)"
      "v_schedule_id u = sc_schedule_id r" "v_superseded_by u = None"
      "jsprop (v_resolved_config u) ''concurrencyPolicy'' = JsStr (concurrency_policy_text (sc_concurrency_policy r))"
      using D(3) by blast
    have "u \<noteq> old" using u(3) o(3) uniq rdb by auto
    then show ?thesis using u by (intro bexI [of _ u]) (simp_all add: V)
  qed
  have 4: "\<exists>r \<in> set (schedules db'). sc_schedule_id r = v_schedule_id u \<and> sc_current_version_id r = Some (v_version_id u)"
    if u: "u \<in> set (schedule_versions db')" "v_superseded_by u = None" for u
  proof (cases "u = v")
    case True
    then show ?thesis using new(2) s(2) by (intro bexI [of _ ?s]) (simp_all add: S)
  next
    case False
    have "v_superseded_by ?old \<noteq> None" by simp
    then have "u \<noteq> ?old" using u(2) by metis
    then have udb: "u \<in> set (schedule_versions db)" "u \<noteq> old" using u(1) V False by blast+
    then obtain r where r: "r \<in> set (schedules db)" "sc_schedule_id r = v_schedule_id u"
      "sc_current_version_id r = Some (v_version_id u)" using D(4) u(2) by blast
    have "r \<noteq> s" using r(3) cur o(1,2) udb row_unique [OF D(2) udb(1) o(1)] by auto
    then show ?thesis using r by (intro bexI [of _ r]) (simp_all add: S)
  qed
  have 5: "\<exists>x \<in> set (schedule_versions db'). v_version_id x = w \<and> v_schedule_id x = v_schedule_id u"
    if u: "u \<in> set (schedule_versions db')" "v_superseded_by u = Some w" for u w
  proof (cases "u = ?old")
    case True
    then show ?thesis using u(2) o(3) new(2) by (intro bexI [of _ v]) (simp_all add: V)
  next
    case False
    then have udb: "u \<in> set (schedule_versions db)" using u V new(3) by (auto simp: sound_version_def)
    then obtain x where x: "x \<in> set (schedule_versions db)" "v_version_id x = w" "v_schedule_id x = v_schedule_id u"
      using D(5) u(2) by blast
    then show ?thesis by (intro bexI [of _ "if x = old then ?old else x"]) (auto simp: V)
  qed
  have 6: "\<exists>t. canonicalJson (v_resolved_config u) = Inr t \<and> v_config_hash u = sha256Text sha t"
    if u: "u \<in> set (schedule_versions db')" for u
    using u D(6) o(1) new(3) by (auto simp: V sound_version_def)
  show ?thesis unfolding sched_inv_def using keys 3 4 5 6 by blast
qed

lemma sched_inv_step: "sched_step sha db db' \<Longrightarrow> sched_inv sha db \<Longrightarrow> sched_inv sha db'"
proof (induction rule: sched_step.induct)
  case (move db k s f db')
  then show ?case by (blast intro: sched_inv_move)
next
  case (create db s v db')
  then show ?case by (blast intro: sched_inv_create)
next
  case (edit db k s previous old v policy db' name t)
  then show ?case by (blast intro: sched_inv_edit)
next
  case (other db' db)
  then show ?case by (simp add: sched_inv_def)
qed

lemma sched_inv_steps: "sched_steps sha db db' \<Longrightarrow> sched_inv sha db \<Longrightarrow> sched_inv sha db'"
  by (induction rule: rtranclp_induct) (auto intro: sched_inv_step)

section \<open>Immutability and deletion\<close>

definition version_kept :: "jsval version_row \<Rightarrow> jsval version_row \<Rightarrow> bool" where
  "version_kept v v' \<longleftrightarrow> v' = v \<or> v_superseded_by v = None \<and> (\<exists>w. v' = v\<lparr>v_superseded_by := Some w\<rparr>)"

definition versions_evolve :: "jsval wf_db \<Rightarrow> jsval wf_db \<Rightarrow> bool" where
  "versions_evolve db db' \<longleftrightarrow> (\<forall>v \<in> set (schedule_versions db). \<exists>v' \<in> set (schedule_versions db'). version_kept v v')"

lemma version_kept_trans: "version_kept u v \<Longrightarrow> version_kept v w \<Longrightarrow> version_kept u w"
  by (auto simp: version_kept_def)

lemma versions_evolve_trans: "versions_evolve a b \<Longrightarrow> versions_evolve b c \<Longrightarrow> versions_evolve a c"
  unfolding versions_evolve_def by (meson version_kept_trans)

lemma versions_evolve_step: "sched_step sha db db' \<Longrightarrow> sched_inv sha db \<Longrightarrow> versions_evolve db db'"
proof (induction rule: sched_step.induct)
  case (edit db k s previous old v policy db' name t)
  have o: "old \<in> set (schedule_versions db)" "v_version_id old = previous" "v_schedule_id old = v_schedule_id v"
    using version_ofD [OF edit(4)] edit(7) by auto
  have "set (schedule_versions db') = insert v (insert (old\<lparr>v_superseded_by := Some (v_version_id v)\<rparr>) (set (schedule_versions db) - {old}))"
    unfolding edit(10) using supersede_in_rows [OF sched_invD(2) [OF edit(11)] o edit(5,6)] .
  then show ?case using edit(5) unfolding versions_evolve_def version_kept_def by (metis DiffI insertCI singletonD)
qed (auto simp: versions_evolve_def version_kept_def)

lemma versions_evolve_steps: "sched_steps sha db db' \<Longrightarrow> sched_inv sha db \<Longrightarrow> versions_evolve db db'"
proof (induction rule: rtranclp_induct)
  case base
  then show ?case by (auto simp: versions_evolve_def version_kept_def)
next
  case (step y z)
  then show ?case using versions_evolve_step [of sha y z] sched_inv_steps [of sha db y] versions_evolve_trans by blast
qed

definition deleted :: "string \<Rightarrow> jsval wf_db \<Rightarrow> bool" where
  "deleted k db \<longleftrightarrow> (\<exists>s. schedule_of db k = Some s \<and> sc_status s = Sched_DISABLED \<and> deleted_name (sc_name s))"

lemma deleted_step: "sched_step sha db db' \<Longrightarrow> deleted k db \<Longrightarrow> deleted k db'"
proof (induction rule: sched_step.induct)
  case (move db k' s f db')
  then show ?case by (cases "k' = k") (auto simp: deleted_def row_by_update_key status_move_def keeps_version_def)
next
  case (edit db k' s previous old v policy db' name t)
  then show ?case by (cases "k' = k") (auto simp: deleted_def row_by_update_key)
qed (auto simp: deleted_def)

lemma deleted_steps: "sched_steps sha db db' \<Longrightarrow> deleted k db \<Longrightarrow> deleted k db'"
  by (induction rule: rtranclp_induct) (auto intro: deleted_step)

section \<open>The code implements the specification\<close>

lemma guarantees_transaction:
  assumes "\<And>s. R s s" and "\<And>s x t. m s = (Inr x, t) \<Longrightarrow> R s t"
  shows "guarantees R (transaction m)"
  unfolding guarantees_def
proof
  fix s
  obtain r t where "m s = (r, t)" by fastforce
  then show "R s (snd (transaction m s))" using assms by (cases r) (auto simp: transaction_def)
qed

lemma policy_column_ok: "policy_column v = Inr p \<longleftrightarrow> v = JsStr (concurrency_policy_text p)"
proof -
  have parse: "parseConcurrencyPolicy (Some s) = Inr p \<longleftrightarrow> s = concurrency_policy_text p" for s
    unfolding parseConcurrencyPolicy_def policy_voc.parse_iff by simp
  have "policy_column (JsStr s) = Inr p \<longleftrightarrow> parseConcurrencyPolicy (Some s) = Inr p" for s
    by (cases "parseConcurrencyPolicy (Some s)") (simp_all add: policy_column_def)
  then have "policy_column (JsStr s) = Inr p \<longleftrightarrow> JsStr s = JsStr (concurrency_policy_text p)" for s using parse by simp
  then show ?thesis by (cases v) (auto simp: policy_column_def)
qed

lemma sql_value_ok [simp]: "sql_value v = Inr x \<longleftrightarrow> v = Some x"
  by (auto simp: sql_value_def split: option.splits)

lemma config_policy:
  "rc_concurrencyPolicy c = JsStr p \<Longrightarrow> jsprop (jsonb (config_json c)) ''concurrencyPolicy'' = JsStr p"
  by (simp add: config_json_def jsprop_def)

text \<open>What a successful \<open>appendVersion\<close> has done.\<close>

lemma appendVersion_ok:
  assumes "appendVersion pf k c now vid prev db = (Inr v, db')"
  obtains policy where "sound_version (pf_sha pf) policy v" and "rc_concurrencyPolicy c = JsStr (concurrency_policy_text policy)"
    and "v_schedule_id v = k" and "row_by v_version_id (v_version_id v) (schedule_versions db) = None"
    and "v_resolved_config v = jsonb (config_json c)"
    and "\<And>p. prev = Some p \<Longrightarrow> \<exists>r \<in> set (schedule_versions db @ [v]). v_version_id r = p \<and> v_schedule_id r = k \<and> v_superseded_by r = None"
    and "db' = db\<lparr>schedules := sql_update (\<lambda>r. sc_schedule_id r = k) (\<lambda>r. r\<lparr>sc_current_version_id := Some (v_version_id v),
      sc_name := rc_name c, sc_concurrency_policy := policy, sc_updated_at := now\<rparr>) (schedules db),
      schedule_versions := (case prev of None \<Rightarrow> schedule_versions db @ [v] | Some p \<Rightarrow> supersede_in v p (schedule_versions db @ [v]))\<rparr>"
proof -
  define i where "i = (case vid of Some i \<Rightarrow> i | None \<Rightarrow> ''wfv_'' @ pf_uuid pf)"
  from assms obtain tj shadow policy u u2 where canon: "canonicalJson (config_json c) = Inr tj"
    and policy: "policy_column (rc_concurrencyPolicy c) = Inr policy"
    and v: "v = \<lparr>v_version_id = i, v_schedule_id = k,
      v_config_hash = sha256Text (pf_sha pf) tj, v_resolved_config = jsonb (config_json c), v_shadow = shadow,
      v_superseded_by = None, v_created_at = pf_dbnow pf\<rparr>"
    and ins: "version_insert v db = (Inr (), u)"
    and sup: "(case prev of None \<Rightarrow> ret () | Some p \<Rightarrow> bindP (version_supersede i p k) (\<lambda>rows.
        if rows = [] then raise (ForesiftError WF_SCHEDULE_VERSION_IMMUTABLE) else ret ())) u = (Inr (), u2)"
    and upd: "\<exists>rows. schedule_update k (\<lambda>r. r\<lparr>sc_current_version_id := Some i, sc_name := rc_name c,
        sc_concurrency_policy := policy, sc_updated_at := now\<rparr>) u2 = (Inr rows, db')"
    unfolding appendVersion_def i_def [symmetric] by (auto simp: bindP_eq_Inr Let_def)
  from ins have fresh: "row_by v_version_id (v_version_id v) (schedule_versions db) = None"
    and u: "u = db\<lparr>schedule_versions := schedule_versions db @ [v]\<rparr>"
    by (auto simp: version_insert_def insert_stmt_def split: if_splits)
  have u2: "u2 = u\<lparr>schedule_versions := (case prev of None \<Rightarrow> schedule_versions u | Some p \<Rightarrow> supersede_in v p (schedule_versions u))\<rparr>"
    and rows: "\<And>p. prev = Some p \<Longrightarrow> \<exists>r \<in> set (schedule_versions u). v_version_id r = p \<and> v_schedule_id r = k \<and> v_superseded_by r = None"
    using sup v by (auto simp: bindP_eq_Inr version_supersede_def update_stmt_def supersede_in_def sql_returning_empty_iff
        split: option.splits if_splits)
  have db': "db' = u2\<lparr>schedules := sql_update (\<lambda>r. sc_schedule_id r = k) (\<lambda>r. r\<lparr>sc_current_version_id := Some (v_version_id v),
      sc_name := rc_name c, sc_concurrency_policy := policy, sc_updated_at := now\<rparr>) (schedules u2)\<rparr>"
    using upd v by (auto simp: schedule_update_def update_stmt_def split: if_splits)
  show ?thesis
  proof (rule that [of policy])
    show "sound_version (pf_sha pf) policy v"
      using v canonical_jsonb(1) [OF canon] policy config_policy [of c] by (simp add: sound_version_def policy_column_ok)
  qed (use policy fresh rows v u u2 db' in \<open>auto simp: policy_column_ok split: option.split\<close>)
qed

lemma loadSchedule_ok [simp]: "loadSchedule k db = (Inr s, u) \<longleftrightarrow> schedule_of db k = Some s \<and> u = db"
  by (auto simp: loadSchedule_def split: option.splits)

lemma loadCurrentVersion_ok [simp]:
  "loadCurrentVersion s db = (Inr v, u) \<longleftrightarrow> (\<exists>i. sc_current_version_id s = Some i \<and> version_of db (sc_schedule_id s) i = Some v) \<and> u = db"
  by (auto simp: loadCurrentVersion_def loadVersion_def split: option.splits)

lemma schedule_update_ok:
  "schedule_update k f db = (Inr rows, u) \<Longrightarrow> u = db\<lparr>schedules := sql_update (\<lambda>r. sc_schedule_id r = k) f (schedules db)\<rparr>"
  by (auto simp: schedule_update_def update_stmt_def split: if_splits)

text \<open>A new schedule, for create and duplicate.\<close>

lemma new_schedule_step:
  assumes "schedule_insert (draft_row k name policy now) db = (Inr (), u)"
    and "appendVersion pf k c now vid None u = (Inr v, db')" and "policy_column (rc_concurrencyPolicy c) = Inr policy"
  shows "sched_step (pf_sha pf) db db'"
proof -
  have new: "schedule_of db k = None" and u: "u = db\<lparr>schedules := schedules db @ [draft_row k name policy now]\<rparr>"
    using assms(1) by (auto simp: schedule_insert_def insert_stmt_def draft_row_def split: if_splits)
  from assms(2) obtain p where p: "sound_version (pf_sha pf) p v" "rc_concurrencyPolicy c = JsStr (concurrency_policy_text p)"
    "v_schedule_id v = k" "row_by v_version_id (v_version_id v) (schedule_versions u) = None"
    and db': "db' = u\<lparr>schedules := sql_update (\<lambda>r. sc_schedule_id r = k) (\<lambda>r. r\<lparr>sc_current_version_id := Some (v_version_id v),
      sc_name := rc_name c, sc_concurrency_policy := p, sc_updated_at := now\<rparr>) (schedules u),
      schedule_versions := schedule_versions u @ [v]\<rparr>"
    by (rule appendVersion_ok) simp
  let ?s = "(draft_row k name policy now)\<lparr>sc_current_version_id := Some (v_version_id v), sc_name := rc_name c,
    sc_concurrency_policy := p, sc_updated_at := now\<rparr>"
  have none: "\<forall>r \<in> set (schedules db). sc_schedule_id r \<noteq> k" using new by (auto simp: row_by_None_iff)
  have S: "schedules db' = schedules db @ [?s]"
    unfolding db' u by (simp add: sql_update_def draft_row_def) (use none in \<open>simp add: map_idI\<close>)
  show ?thesis
  proof (rule sched_step.create [where s = ?s and v = v])
    show "schedule_of db (sc_schedule_id ?s) = None" using new by (simp add: draft_row_def)
    show "schedules db' = schedules db @ [?s]" by (rule S)
  qed (use p u db' in \<open>simp_all add: draft_row_def\<close>)
qed

lemma createSchedule_steps: "guarantees (sched_steps (pf_sha pf)) (createSchedule pf k patch given vid)"
  unfolding createSchedule_def
  by (intro sched_history.g_bindP_liftE, clarify, intro sched_history.g_bindP_liftE guarantees_transaction)
    (auto simp: bindP_eq_Inr split: if_splits intro!: r_into_rtranclp new_schedule_step)

lemma duplicateSchedule_steps: "guarantees (sched_steps (pf_sha pf)) (duplicateSchedule pf input)"
  unfolding duplicateSchedule_def
  by (intro sched_history.g_bindP_liftE, clarify, intro guarantees_transaction)
    (auto simp: bindP_eq_Inr Let_def intro!: r_into_rtranclp new_schedule_step)

lemma edit_step:
  assumes k: "schedule_of db k = Some s" "sc_status s \<noteq> Sched_DISABLED" "sc_current_version_id s = Some i"
    and old: "version_of db (sc_schedule_id s) i = Some old"
    and app: "appendVersion pf k c now vid (Some (v_version_id old)) db = (Inr v, db')"
    and keys: "keys_distinct v_version_id (schedule_versions db)"
  shows "sched_step (pf_sha pf) db db'"
proof -
  have o: "old \<in> set (schedule_versions db)" "v_version_id old = i" "v_schedule_id old = k"
    using version_ofD [OF old] row_by_SomeD [OF k(1)] by auto
  from app obtain p where p: "sound_version (pf_sha pf) p v" "v_schedule_id v = k"
    "row_by v_version_id (v_version_id v) (schedule_versions db) = None"
    and ex: "\<exists>r \<in> set (schedule_versions db @ [v]). v_version_id r = i \<and> v_schedule_id r = k \<and> v_superseded_by r = None"
    and db': "db' = db\<lparr>schedules := sql_update (\<lambda>r. sc_schedule_id r = k) (\<lambda>r. r\<lparr>sc_current_version_id := Some (v_version_id v),
      sc_name := rc_name c, sc_concurrency_policy := p, sc_updated_at := now\<rparr>) (schedules db),
      schedule_versions := supersede_in v i (schedule_versions db @ [v])\<rparr>"
    by (rule appendVersion_ok) (use o(2) in simp)
  have "v_version_id v \<noteq> i" using p(3) o(1,2) by (auto simp: row_by_None_iff)
  then have "v_superseded_by old = None" using ex row_unique [OF keys _ o(1)] o(2) by auto
  then show ?thesis
    using k old p o row_by_SomeD [OF k(1)] by (intro sched_step.edit [where k = k and s = s and v = v and policy = p]) (simp_all add: db')
qed

lemma move_step:
  assumes "schedule_of db k = Some s" and "status_move s (sc_status (f s)) (sc_name (f s))" and "keeps_version f"
    and "schedule_update k f db = (Inr rows, db')"
  shows "sched_step sha db db'"
  using assms(1-3) schedule_update_ok [OF assms(4)] by (intro sched_step.move [where k = k and s = s and f = f]) auto

lemma transitionStatus_steps:
  assumes "\<And>s. sc_status s \<in> set sources \<Longrightarrow> status_move s target (sc_name s)"
  shows "guarantees (sched_steps sha) (transitionStatus pf input sources target action)"
  unfolding transitionStatus_def
  by (intro sched_history.g_bindP_liftE, clarify, intro guarantees_transaction)
    (auto simp: bindP_eq_Inr assms keeps_version_def split: if_splits intro!: r_into_rtranclp elim!: move_step [rotated 3])

lemma status_moves:
  "sc_status s \<in> set [Sched_ACTIVE] \<Longrightarrow> status_move s Sched_PAUSED (sc_name s)"
  "sc_status s \<in> set [Sched_DRAFT, Sched_ACTIVE, Sched_PAUSED] \<Longrightarrow> status_move s Sched_DISABLED (sc_name s)"
  by (auto simp: status_move_def)

lemma pauseSchedule_steps: "guarantees (sched_steps sha) (pauseSchedule pf input)"
  unfolding pauseSchedule_def by (rule transitionStatus_steps) (rule status_moves)

lemma disableSchedule_steps: "guarantees (sched_steps sha) (disableSchedule pf input)"
  unfolding disableSchedule_def by (rule transitionStatus_steps) (rule status_moves)

lemma resumeSchedule_steps: "guarantees (sched_steps sha) (resumeSchedule pf input)"
  unfolding resumeSchedule_def
  by (intro sched_history.g_bindP_liftE, clarify, intro guarantees_transaction)
    (auto simp: bindP_eq_Inr keeps_version_def status_move_def split: if_splits option.splits
      intro!: r_into_rtranclp elim!: move_step [rotated 3])

lemma deleteSchedule_steps: "guarantees (sched_steps sha) (deleteSchedule pf input)"
  unfolding deleteSchedule_def
  by (intro sched_history.g_bindP_liftE, clarify, intro guarantees_transaction)
    (auto simp: bindP_eq_Inr Let_def keeps_version_def status_move_def split: if_splits
      intro!: r_into_rtranclp elim!: move_step [rotated 3])

text \<open>Enabling stores the forecast first, which touches neither schedules nor versions.\<close>

lemma enableSchedule_steps: "guarantees (sched_steps sha) (enableSchedule pf input)"
  unfolding enableSchedule_def
proof (intro sched_history.g_bindP_liftE, clarify, intro sched_history.g_bindP_liftE guarantees_transaction)
  fix now forecast db r db'
  let ?f = "\<lambda>r. r\<lparr>sc_status := Sched_ACTIVE, sc_updated_at := now\<rparr>" and ?k = "ci_scheduleId input"
  assume "bindP (loadSchedule ?k) (\<lambda>schedule.
       if sc_status schedule = Sched_ACTIVE then raise (ForesiftError WF_SCHEDULE_TRANSITION_INVALID)
       else if ends_with (sc_name schedule) DELETED_SUFFIX then raise (ForesiftError WF_SCHEDULE_TRANSITION_INVALID)
       else bindP (loadCurrentVersion schedule) (\<lambda>version.
            bindP (liftE (canonicalJson forecast)) (\<lambda>json.
            let payloadHash = sha256Text (pf_sha pf) json;
                forecastId = (case ci_forecastId input of Some f \<Rightarrow> f | None \<Rightarrow> ''wff_'' @ pf_uuid pf)
            in bindP (liftE (sql_value (pf_timestamptz pf (computedAt forecast)))) (\<lambda>computed_at.
               bindP (forecast_insert \<lparr>fc_forecast_id = forecastId, fc_schedule_id = ?k,
                        fc_version_id = v_version_id version, fc_computed_at = computed_at, fc_payload = jsonb forecast,
                        fc_payload_hash = payloadHash, fc_created_at = now\<rparr>) (\<lambda>_.
               bindP (schedule_update ?k ?f) (\<lambda>_.
               ret \<lparr>cr_action = Ctl_ENABLE, cr_scheduleId = ?k, cr_status = Sched_ACTIVE,
                    cr_versionId = Some (v_version_id version),
                    cr_details = JsObj [(''forecastId'', JsStr forecastId), (''forecastHash'', JsStr payloadHash),
                      (''computedAt'', JsStr (computedAt forecast))]\<rparr>)))))) db = (Inr r, db')"
  then obtain s row u rows where s: "schedule_of db ?k = Some s" "sc_status s \<noteq> Sched_ACTIVE" "\<not> deleted_name (sc_name s)"
    and ins: "forecast_insert row db = (Inr (), u)" and upd: "schedule_update ?k ?f u = (Inr rows, db')"
    by (auto simp: bindP_eq_Inr Let_def split: if_splits)
  from ins have u: "schedules u = schedules db" "schedule_versions u = schedule_versions db"
    by (auto simp: forecast_insert_def insert_stmt_def split: if_splits)
  have "sched_step sha u db'"
    by (rule move_step [OF _ _ _ upd, of s]) (use s u in \<open>simp_all add: keeps_version_def status_move_def\<close>)
  moreover have "sched_step sha db u" using u by (rule sched_step.other)
  ultimately show "sched_steps sha db db'" by (meson converse_rtranclp_into_rtranclp r_into_rtranclp)
qed simp

text \<open>Deliveries leave schedules and versions alone.\<close>

interpretation same_schedules: rely_guarantee
  "\<lambda>s t :: jsval wf_db. schedules t = schedules s \<and> schedule_versions t = schedule_versions s"
  by unfold_locales auto

lemma delivery_same_schedules:
  "guarantees (\<lambda>s t. schedules t = schedules s \<and> schedule_versions t = schedule_versions s)
     (recordTriggerDeliveryInner sha url input)"
proof -
  note G = same_schedules.g_bindP same_schedules.g_pure same_schedules.g_transaction
  have st: "guarantees (\<lambda>s t. schedules t = schedules s \<and> schedule_versions t = schedule_versions s) (inbox_insert i)"
    "guarantees (\<lambda>s t. schedules t = schedules s \<and> schedule_versions t = schedule_versions s) (run_insert r)"
    "guarantees (\<lambda>s t. schedules t = schedules s \<and> schedule_versions t = schedule_versions s) (cancel_active k e)"
    "guarantees (\<lambda>s t. schedules t = schedules s \<and> schedule_versions t = schedule_versions s) (inbox_update p k f)"
    for i r k e p f
    by (simp_all add: guarantees_def inbox_insert_def run_insert_def cancel_active_def inbox_update_def update_stmt_def)
  show ?thesis
    unfolding recordTriggerDeliveryInner_def trigger_tx_def admit_def start_run_def create_run_def Let_def
    by (intro G st | simp split: option.split if_split | intro conjI impI allI)+
qed

end
