(* ===== verification/ScheduleControl.thy ===== *)
theory ScheduleControl
  imports ScheduleLaws TriggerRuns
begin

text \<open>
  The properties of schedule control: every action refines the specification of ScheduleLaws, versions
  are immutable, deletion is final, activation needs a fresh forecast for the version that becomes
  active, and a dry run predicts what a delivery does.
\<close>

section \<open>Every action is a sequence of steps\<close>

lemma runScheduleNow_steps:
  assumes "\<And>i d. sched_steps sha d (env i d)"
  shows "guarantees (sched_steps sha) (runScheduleNow pf env input)"
proof -
  have del: "guarantees (sched_steps sha) (recordTriggerDeliveryInner s u t)" for s u t
    using delivery_same_schedules [of s u t] unfolding guarantees_def by (blast intro: r_into_rtranclp sched_step.other)
  have load: "guarantees (sched_steps sha) (loadSchedule k)" for k
    unfolding loadSchedule_def by (intro sched_history.g_bindP sched_history.g_pure) (simp split: option.split)
  show ?thesis
    unfolding runScheduleNow_def Let_def
    by (intro sched_history.g_bindP_liftE, clarify)
      (intro sched_history.g_bindP load, simp,
       intro impI sched_history.g_bindP_liftE sched_history.g_bindP sched_history.g_gap assms del sched_history.g_pure)
qed

lemma loads_steps:
  "guarantees (sched_steps sha) (loadSchedule k)" "guarantees (sched_steps sha) (loadCurrentVersion s)"
  by (auto simp: guarantees_def loadSchedule_def loadCurrentVersion_def loadVersion_def split: option.split)

lemma validateSchedule_steps:
  assumes "\<And>i d. sched_steps sha d (env i d)"
  shows "guarantees (sched_steps sha) (validateSchedule pf env input)"
  unfolding validateSchedule_def
  by (cases "ci_config input")
    (simp_all, (intro sched_history.g_bindP sched_history.g_pure sched_history.g_gap assms loads_steps)+)

lemma dryRunSchedule_steps:
  assumes "\<And>i d. sched_steps sha d (env i d)"
  shows "guarantees (sched_steps sha) (dryRunSchedule pf env input)"
  unfolding dryRunSchedule_def Let_def
  by (intro sched_history.g_bindP sched_history.g_pure sched_history.g_gap assms loads_steps)

lemma editScheduleDraft_steps: "sched_history.keeps (pf_sha pf) (sched_inv (pf_sha pf)) (editScheduleDraft pf input)"
  unfolding editScheduleDraft_def
proof (intro sched_history.keeps_liftE, clarify)
  fix now_text now
  let ?m = "bindP (loadSchedule (ci_scheduleId input)) (\<lambda>schedule.
       if sc_status schedule = Sched_DISABLED then raise (ForesiftError WF_SCHEDULE_TRANSITION_INVALID)
       else bindP (loadCurrentVersion schedule) (\<lambda>current.
            bindP (liftE (configFromVersion (pf_iana pf) current)) (\<lambda>base.
            bindP (liftE (resolveScheduleConfig (pf_iana pf)
                     (case ci_config input of Some p \<Rightarrow> p | None \<Rightarrow> empty_patch) (Some base))) (\<lambda>config.
            bindP (appendVersion pf (ci_scheduleId input) config now (ci_versionId input) (Some (v_version_id current))) (\<lambda>version.
            ret \<lparr>cr_action = Ctl_EDIT_DRAFT, cr_scheduleId = ci_scheduleId input, cr_status = sc_status schedule,
                 cr_versionId = Some (v_version_id version),
                 cr_details = JsObj [(''supersededVersionId'', JsStr (v_version_id current)),
                   (''configHash'', JsStr (v_config_hash version)), (''resolvedConfig'', config_json config)]\<rparr>)))))"
  show "sched_history.keeps (pf_sha pf) (sched_inv (pf_sha pf)) (transaction ?m)"
    unfolding sched_history.keeps_def
  proof (intro allI impI)
    fix db assume inv: "sched_inv (pf_sha pf) db"
    obtain r db' where run: "transaction ?m db = (r, db')" by fastforce
    show "sched_steps (pf_sha pf) db (snd (transaction ?m db))"
    proof (cases r)
      case (Inl e)
      then show ?thesis using run transaction_rollback [of ?m db e db'] by simp
    next
      case (Inr x)
      then have "?m db = (Inr x, db')" using run by simp
      then obtain s i old c v where "schedule_of db (ci_scheduleId input) = Some s" "sc_status s \<noteq> Sched_DISABLED"
        "sc_current_version_id s = Some i" "version_of db (sc_schedule_id s) i = Some old"
        "appendVersion pf (ci_scheduleId input) c now (ci_versionId input) (Some (v_version_id old)) db = (Inr v, db')"
        by (auto simp: bindP_eq_Inr split: if_splits)
      then have "sched_step (pf_sha pf) db db'" using edit_step sched_invD(2) [OF inv] by blast
      then show ?thesis using run by simp
    qed
  qed
qed

lemma mapP_guarantees: "guarantees (sched_steps sha) m \<Longrightarrow> guarantees (sched_steps sha) (mapP f m)"
  unfolding mapP_def by (intro sched_history.g_bindP sched_history.g_pure)

lemma mapP_keeps: "sched_history.keeps sha P m \<Longrightarrow> sched_history.keeps sha P (mapP f m)"
  unfolding mapP_def by (rule sched_history.keeps_last) (auto simp: ret_def liftE_def)

lemma control_steps:
  assumes "sched_inv (pf_sha pf) db" and "\<And>i d. (sched_step (pf_sha pf))\<^sup>*\<^sup>* d (env i d)"
  shows "(sched_step (pf_sha pf))\<^sup>*\<^sup>* db (snd (applyScheduleControl pf env input db))"
proof -
  note G = sched_history.keeps_guarantees [OF mapP_guarantees]
  have "sched_history.keeps (pf_sha pf) (sched_inv (pf_sha pf)) (applyScheduleControl pf env input)"
    unfolding applyScheduleControl_def
  proof (intro sched_history.keeps_liftE)
    fix action
    show "sched_history.keeps (pf_sha pf) (sched_inv (pf_sha pf)) (case action of
       Ctl_CREATE \<Rightarrow> mapP Controlled (createSchedule pf (ci_scheduleId input)
         (case ci_config input of Some p \<Rightarrow> p | None \<Rightarrow> empty_patch) (ci_now input) (ci_versionId input))
     | Ctl_EDIT_DRAFT \<Rightarrow> mapP Controlled (editScheduleDraft pf input)
     | Ctl_VALIDATE \<Rightarrow> mapP Validated (validateSchedule pf env input)
     | Ctl_ENABLE \<Rightarrow> mapP Controlled (enableSchedule pf input)
     | Ctl_PAUSE \<Rightarrow> mapP Controlled (pauseSchedule pf input)
     | Ctl_RESUME \<Rightarrow> mapP Controlled (resumeSchedule pf input)
     | Ctl_RUN_NOW \<Rightarrow> mapP (\<lambda>(r, run). RanNow r run) (runScheduleNow pf env input)
     | Ctl_DRY_RUN \<Rightarrow> mapP DryRan (dryRunSchedule pf env input)
     | Ctl_DUPLICATE \<Rightarrow> mapP Controlled (duplicateSchedule pf input)
     | Ctl_DISABLE \<Rightarrow> mapP Controlled (disableSchedule pf input)
     | Ctl_DELETE \<Rightarrow> mapP Controlled (deleteSchedule pf input))"
      by (cases action)
        (simp_all add: mapP_keeps editScheduleDraft_steps G createSchedule_steps validateSchedule_steps enableSchedule_steps
          pauseSchedule_steps resumeSchedule_steps runScheduleNow_steps dryRunSchedule_steps duplicateSchedule_steps
          disableSchedule_steps deleteSchedule_steps assms(2))
  qed
  then show ?thesis using assms(1) unfolding sched_history.keeps_def by blast
qed

section \<open>Histories\<close>

text \<open>Any number of actions, each with its own platform, interference and arguments.\<close>

type_synonym control = "platform \<times> (nat \<Rightarrow> jsval wf_db \<Rightarrow> jsval wf_db) \<times> control_input"

fun run_controls :: "control list \<Rightarrow> jsval wf_db \<Rightarrow> jsval wf_db" where
  "run_controls [] db = db"
| "run_controls ((pf, env, input) # cs) db = run_controls cs (snd (applyScheduleControl pf env input db))"

definition fair :: "(string \<Rightarrow> string) \<Rightarrow> control \<Rightarrow> bool" where
  "fair sha = (\<lambda>(pf, env, input). pf_sha pf = sha \<and> (\<forall>i d. sched_steps sha d (env i d)))"

lemma run_controls_steps:
  "list_all (fair sha) cs \<Longrightarrow> sched_inv sha db \<Longrightarrow> sched_steps sha db (run_controls cs db)"
proof (induction cs db rule: run_controls.induct)
  case (2 pf env input cs db)
  let ?db = "snd (applyScheduleControl pf env input db)"
  have "sched_steps sha db ?db" using control_steps [of pf db env input] 2 by (simp add: fair_def)
  moreover have "sched_steps sha ?db (run_controls cs ?db)" using 2 calculation sched_inv_steps by auto
  ultimately show ?case by simp
qed simp


text \<open>
  C19 (schedule_versions_immutable). Versions are immutable and every schedule has exactly one current
  version. After any history of control actions and interference, each schedule points to a version
  of its own that is not superseded and there is no other such version of it; every version's hash
  is the content address of its stored configuration; and every version there was before keeps
  its identity, configuration, hash, shadow flag and creation time, and its supersede pointer once set.
\<close>

theorem schedule_versions_immutable:
  assumes "sched_inv sha db" and "list_all (fair sha) cs" and "db' = run_controls cs db"
  shows "(\<forall>s \<in> set (schedules db'). \<exists>!v. v \<in> set (schedule_versions db') \<and> v_schedule_id v = sc_schedule_id s \<and>
      v_superseded_by v = None \<and> sc_current_version_id s = Some (v_version_id v)) \<and>
    (\<forall>s \<in> set (schedules db'). \<forall>v \<in> set (schedule_versions db'). v_schedule_id v = sc_schedule_id s \<and> v_superseded_by v = None \<longrightarrow>
      sc_current_version_id s = Some (v_version_id v)) \<and>
    (\<forall>v \<in> set (schedule_versions db'). \<exists>t. canonicalJson (v_resolved_config v) = Inr t \<and> v_config_hash v = sha256Text sha t) \<and>
    (\<forall>v \<in> set (schedule_versions db). \<exists>v' \<in> set (schedule_versions db').
      v' = v\<lparr>v_superseded_by := v_superseded_by v'\<rparr> \<and> (v_superseded_by v \<noteq> None \<longrightarrow> v_superseded_by v' = v_superseded_by v))"
proof -
  have steps: "sched_steps sha db db'" using run_controls_steps [OF assms(2,1)] assms(3) by simp
  have inv: "sched_inv sha db'" using sched_inv_steps [OF steps assms(1)] .
  have current: "sc_current_version_id s = Some (v_version_id v)"
    if "s \<in> set (schedules db')" "v \<in> set (schedule_versions db')" "v_schedule_id v = sc_schedule_id s" "v_superseded_by v = None" for s v
    using sched_invD(4) [OF inv that(2,4)] row_unique [OF sched_invD(1) [OF inv] that(1)] that(3) by metis
  have one: "\<exists>!v. v \<in> set (schedule_versions db') \<and> v_schedule_id v = sc_schedule_id s \<and>
      v_superseded_by v = None \<and> sc_current_version_id s = Some (v_version_id v)" if "s \<in> set (schedules db')" for s
    using sched_invD(3) [OF inv that] row_unique [OF sched_invD(2) [OF inv]] by (metis option.inject)
  have kept: "\<exists>v' \<in> set (schedule_versions db'). v' = v\<lparr>v_superseded_by := v_superseded_by v'\<rparr> \<and>
      (v_superseded_by v \<noteq> None \<longrightarrow> v_superseded_by v' = v_superseded_by v)" if v: "v \<in> set (schedule_versions db)" for v
  proof -
    obtain v' where "v' \<in> set (schedule_versions db')" "version_kept v v'"
      using versions_evolve_steps [OF steps assms(1)] v unfolding versions_evolve_def by blast
    then show ?thesis by (intro bexI [of _ v']) (auto simp: version_kept_def)
  qed
  show ?thesis using one current kept sched_invD(6) [OF inv] by blast
qed

text \<open>
  Deletion is final: once a schedule was deleted, no history of control
  actions and interference brings it back. It stays disabled under its tombstone name, and then
  enabling, editing, pausing and resuming it are refused as invalid transitions, and running it now
  is refused as disabled; none of them writes anything.
\<close>

theorem deleted_schedule_final:
  assumes "sched_inv sha db" and "list_all (fair sha) cs" and "db' = run_controls cs db" and "deleted k db"
  shows "(\<exists>s. schedule_of db' k = Some s \<and> sc_status s = Sched_DISABLED \<and> ends_with (sc_name s) '' (deleted)'') \<and>
    (sched_nowIso pf (ci_now input) = Inr now \<and> ci_scheduleId input = k \<longrightarrow>
      editScheduleDraft pf input db' = (Inl (ForesiftError WF_SCHEDULE_TRANSITION_INVALID), db') \<and>
      pauseSchedule pf input db' = (Inl (ForesiftError WF_SCHEDULE_TRANSITION_INVALID), db') \<and>
      resumeSchedule pf input db' = (Inl (ForesiftError WF_SCHEDULE_TRANSITION_INVALID), db') \<and>
      (\<forall>f. assertForecastFresh (ci_forecast input) (snd now) FORECAST_FRESHNESS_WINDOW_MS = Inr f \<longrightarrow>
         enableSchedule pf input db' = (Inl (ForesiftError WF_SCHEDULE_TRANSITION_INVALID), db')) \<and>
      runScheduleNow pf env input db' = (Inl (ForesiftError WF_SCHEDULE_DISABLED), db'))"
proof -
  have "deleted k db'" using deleted_steps [OF run_controls_steps [OF assms(2,1)] assms(4)] assms(3) by simp
  then obtain s where s: "schedule_of db' k = Some s" "sc_status s = Sched_DISABLED" "deleted_name (sc_name s)"
    unfolding deleted_def by blast
  obtain nt n where now: "now = (nt, n)" by fastforce
  have load: "loadSchedule k db' = (Inr s, db')" using s(1) by simp
  have tx: "transaction (bindP (loadSchedule k) f) db' = (Inl e, db')" if "f s db' = (Inl e, db')" for f e
    using that by (simp add: transaction_def bindP_run load del: loadSchedule_ok)
  have first: "bindP (loadSchedule k) f db' = f s db'" for f :: "schedule_row \<Rightarrow> (jsval wf_db, 'x) prog"
    by (simp add: bindP_run load del: loadSchedule_ok)
  show ?thesis
    using s unfolding editScheduleDraft_def pauseSchedule_def resumeSchedule_def enableSchedule_def runScheduleNow_def
      transitionStatus_def now
    by (auto simp: bindP_liftE tx first DELETED_SUFFIX_def)
qed

section \<open>Activation\<close>

definition is_active :: "string \<Rightarrow> 'p wf_db \<Rightarrow> bool" where
  "is_active k db \<longleftrightarrow> (\<exists>s. schedule_of db k = Some s \<and> sc_status s = Sched_ACTIVE)"

definition no_activation :: "jsval wf_db \<Rightarrow> jsval wf_db \<Rightarrow> bool" where
  "no_activation db db' \<longleftrightarrow> (\<forall>k. is_active k db' \<longrightarrow> is_active k db)"

interpretation quiet: rely_guarantee no_activation
  by unfold_locales (auto simp: no_activation_def)

lemma no_activation_same: "schedules db' = schedules db \<Longrightarrow> no_activation db db'"
  by (simp add: no_activation_def is_active_def)

lemma quiet_schedule_update:
  assumes "\<And>r. sc_schedule_id (f r) = sc_schedule_id r" and "\<And>r. sc_status (f r) = Sched_ACTIVE \<Longrightarrow> sc_status r = Sched_ACTIVE"
  shows "guarantees no_activation (schedule_update k f)"
proof -
  have "no_activation db (schedules_update (sql_update (\<lambda>r. sc_schedule_id r = k) f) db)" for db :: "jsval wf_db"
    unfolding no_activation_def is_active_def using assms(2) by (auto simp: row_by_update_key assms(1) split: if_splits)
  then show ?thesis by (simp add: guarantees_def schedule_update_def update_stmt_def quiet.R_refl)
qed

lemma quiet_insert: "sc_status r = Sched_DRAFT \<Longrightarrow> guarantees no_activation (schedule_insert r)"
  by (auto simp: guarantees_def schedule_insert_def insert_stmt_def no_activation_def is_active_def split: if_splits option.splits)

lemma quiet_others:
  "guarantees no_activation (version_insert v)" "guarantees no_activation (version_supersede i p k)"
  "guarantees no_activation (loadSchedule k)" "guarantees no_activation (loadCurrentVersion s)"
  "guarantees no_activation (gap (\<lambda>_ d. d) n)" "guarantees no_activation (recordTriggerDeliveryInner sha url t)"
proof -
  show "guarantees no_activation (recordTriggerDeliveryInner sha url t)"
    using delivery_same_schedules [of sha url t] unfolding guarantees_def by (blast intro: no_activation_same)
qed (auto simp: guarantees_def version_insert_def insert_stmt_def version_supersede_def update_stmt_def loadSchedule_def
    loadCurrentVersion_def loadVersion_def intro: no_activation_same split: option.split)

lemmas quiet_rules = quiet.g_bindP quiet.g_pure quiet.g_transaction quiet_others

lemma quiet_append: "guarantees no_activation (appendVersion pf k c now vid prev)"
  unfolding appendVersion_def Let_def
  by (cases prev) (simp_all, (intro quiet_rules quiet_schedule_update | simp)+)

lemma quiet_actions:
  "guarantees no_activation (createSchedule pf k patch given vid)" "guarantees no_activation (editScheduleDraft pf input)"
  "guarantees no_activation (duplicateSchedule pf input)" "guarantees no_activation (deleteSchedule pf input)"
  "guarantees no_activation (runScheduleNow pf (\<lambda>_ d. d) input)" "guarantees no_activation (dryRunSchedule pf (\<lambda>_ d. d) input)"
  "guarantees no_activation (validateSchedule pf (\<lambda>_ d. d) input)"
  unfolding createSchedule_def editScheduleDraft_def duplicateSchedule_def deleteSchedule_def runScheduleNow_def
    dryRunSchedule_def validateSchedule_def Let_def case_prod_beta
  by ((intro quiet_rules quiet_append quiet_schedule_update quiet_insert | simp add: draft_row_def split: option.split | intro conjI impI allI)+)

lemma quiet_transition:
  "target \<noteq> Sched_ACTIVE \<Longrightarrow> guarantees no_activation (transitionStatus pf input sources target action)"
  unfolding transitionStatus_def case_prod_beta
  by ((intro quiet_rules quiet_schedule_update impI | simp)+)

lemma computedAt_parsed: "CostForecastPayloadSchema v = Some p \<Longrightarrow> computedAt p = computedAt v"
  by (auto simp: CostForecastPayloadSchema_def computedAt_def jsprop_def FORECAST_KEYS_def split: jsval.splits if_splits)

lemma forecast_fresh:
  assumes "assertForecastFresh forecast now w = Inr p"
  shows "computedAt p = computedAt forecast"
    and "Date_parse (computedAt forecast) = Some c \<Longrightarrow> now - w \<le> c \<and> c \<le> now + FORECAST_CLOCK_SKEW_MS"
  using assms computedAt_parsed
  by (auto simp: assertForecastFresh_def not_less algebra_simps split: if_splits option.splits)

text \<open>What a successful enable and resume leave behind.\<close>

lemma enable_ok:
  assumes "enableSchedule pf input db = (Inr r, db')" and "sched_nowIso pf (ci_now input) = Inr (nt, now)"
  obtains s forecast f where "schedule_of db (ci_scheduleId input) = Some s"
    and "assertForecastFresh (ci_forecast input) now FORECAST_FRESHNESS_WINDOW_MS = Inr forecast"
    and "f \<in> set (schedule_forecasts db')" and "fc_schedule_id f = ci_scheduleId input"
    and "sc_current_version_id s = Some (fc_version_id f)" and "pf_timestamptz pf (computedAt forecast) = Some (fc_computed_at f)"
    and "schedules db' = sql_update (\<lambda>r. sc_schedule_id r = ci_scheduleId input)
      (\<lambda>r. r\<lparr>sc_status := Sched_ACTIVE, sc_updated_at := now\<rparr>) (schedules db)"
proof -
  from assms obtain forecast s i v u fid c pl h rows where
    fresh: "assertForecastFresh (ci_forecast input) now FORECAST_FRESHNESS_WINDOW_MS = Inr forecast"
    and s: "schedule_of db (ci_scheduleId input) = Some s" "sc_current_version_id s = Some i"
      "version_of db (sc_schedule_id s) i = Some v"
    and c: "pf_timestamptz pf (computedAt forecast) = Some c"
    and ins0: "forecast_insert \<lparr>fc_forecast_id = fid, fc_schedule_id = ci_scheduleId input, fc_version_id = v_version_id v,
      fc_computed_at = c, fc_payload = pl, fc_payload_hash = h, fc_created_at = now\<rparr> db = (Inr (), u)"
    and upd: "schedule_update (ci_scheduleId input) (\<lambda>r. r\<lparr>sc_status := Sched_ACTIVE, sc_updated_at := now\<rparr>) u = (Inr rows, db')"
    unfolding enableSchedule_def by (auto simp: bindP_eq_Inr Let_def split: if_splits)
  define f where "f = \<lparr>fc_forecast_id = fid, fc_schedule_id = ci_scheduleId input, fc_version_id = v_version_id v,
      fc_computed_at = c, fc_payload = pl, fc_payload_hash = h, fc_created_at = now\<rparr>"
  have f: "fc_schedule_id f = ci_scheduleId input" "fc_version_id f = v_version_id v"
    "pf_timestamptz pf (computedAt forecast) = Some (fc_computed_at f)" using c by (simp_all add: f_def)
  note ins = ins0 [folded f_def]
  from ins have u: "u = db\<lparr>schedule_forecasts := schedule_forecasts db @ [f]\<rparr>"
    by (auto simp: forecast_insert_def insert_stmt_def split: if_splits)
  have db': "db' = u\<lparr>schedules := sql_update (\<lambda>r. sc_schedule_id r = ci_scheduleId input)
      (\<lambda>r. r\<lparr>sc_status := Sched_ACTIVE, sc_updated_at := now\<rparr>) (schedules u)\<rparr>"
    using schedule_update_ok [OF upd] .
  show ?thesis
    by (rule that [OF s(1) fresh, of f]) (use f s version_ofD [OF s(3)] u db' in simp_all)
qed

lemma latest_forecastD: "latest_forecast tie k db = Some f \<Longrightarrow> f \<in> set (schedule_forecasts db) \<and> fc_schedule_id f = k"
proof -
  assume "latest_forecast tie k db = Some f"
  then have "latest_forecasts db k \<noteq> []" "f = latest_forecasts db k ! (tie mod length (latest_forecasts db k))"
    by (auto simp: latest_forecast_def Let_def split: if_splits)
  then have "f \<in> set (latest_forecasts db k)" by simp
  then show ?thesis by (auto simp: latest_forecasts_def Let_def)
qed

lemma resume_ok:
  assumes "resumeSchedule pf input db = (Inr r, db')" and "sched_nowIso pf (ci_now input) = Inr (nt, now)"
  obtains s f where "schedule_of db (ci_scheduleId input) = Some s"
    and "f \<in> set (schedule_forecasts db')" and "fc_schedule_id f = ci_scheduleId input"
    and "sc_current_version_id s = Some (fc_version_id f)"
    and "now - FORECAST_FRESHNESS_WINDOW_MS \<le> fc_computed_at f" and "fc_computed_at f \<le> now + FORECAST_CLOCK_SKEW_MS"
    and "schedules db' = sql_update (\<lambda>r. sc_schedule_id r = ci_scheduleId input)
      (\<lambda>r. r\<lparr>sc_status := Sched_ACTIVE, sc_updated_at := now\<rparr>) (schedules db)"
proof -
  from assms obtain s f rows where s: "schedule_of db (ci_scheduleId input) = Some s"
    and f: "latest_forecast (pf_tie pf) (ci_scheduleId input) db = Some f" "sc_current_version_id s = Some (fc_version_id f)"
      "\<not> now + FORECAST_CLOCK_SKEW_MS < fc_computed_at f" "\<not> FORECAST_FRESHNESS_WINDOW_MS < now - fc_computed_at f"
    and upd: "schedule_update (ci_scheduleId input) (\<lambda>r. r\<lparr>sc_status := Sched_ACTIVE, sc_updated_at := now\<rparr>) db = (Inr rows, db')"
    unfolding resumeSchedule_def by (auto simp: bindP_eq_Inr split: if_splits option.splits)
  show ?thesis
    by (rule that [OF s, of f]) (use f latest_forecastD [OF f(1)] schedule_update_ok [OF upd] in simp_all)
qed

lemma became_active:
  assumes "schedules db' = sql_update (\<lambda>r. sc_schedule_id r = j) (\<lambda>r. r\<lparr>sc_status := Sched_ACTIVE, sc_updated_at := now\<rparr>) (schedules db)"
    and "schedule_of db' k = Some s'" "sc_status s' = Sched_ACTIVE" and "\<not> is_active k db" and "schedule_of db j = Some s"
  shows "k = j \<and> sc_current_version_id s' = sc_current_version_id s"
  using assms by (auto simp: is_active_def row_by_update_key split: if_splits)

lemma refused_unchanged:
  "enableSchedule pf input db = (Inl e, db') \<Longrightarrow> db' = db" "resumeSchedule pf input db = (Inl e, db') \<Longrightarrow> db' = db"
  unfolding enableSchedule_def resumeSchedule_def
  by (auto simp: bindP_eq_Inl transaction_eq_Inl split: prod.splits)

lemma mapP_store: "mapP f m db = (res, db') \<Longrightarrow> \<exists>r. m db = (r, db')"
  by (cases "m db"; cases "fst (m db)") (auto simp: mapP_def bindP_run)

lemma activating_action:
  assumes run: "applyScheduleControl pf (\<lambda>_ d. d) input db = (res, db')" and new: "\<not> no_activation db db'"
  shows "(\<exists>r. enableSchedule pf input db = (Inr r, db')) \<or> (\<exists>r. resumeSchedule pf input db = (Inr r, db'))"
proof -
  obtain action where action: "parseScheduleControlAction (Some (ci_action input)) = Inr action"
    using run new quiet.R_refl
    by (cases "parseScheduleControlAction (Some (ci_action input))") (auto simp: applyScheduleControl_def bindP_liftE)
  have q: False if "guarantees no_activation m" "mapP f m db = (res, db')" for m :: "(jsval wf_db, 'x) prog" and f :: "'x \<Rightarrow> control_reply"
    using mapP_store [OF that(2)] guaranteesD [OF that(1)] new by blast
  have loud: "\<exists>r. m db = (Inr r, db')" if m: "mapP f m db = (res, db')" "\<And>e. m db = (Inl e, db') \<Longrightarrow> db' = db"
    for m :: "(jsval wf_db, 'x) prog" and f :: "'x \<Rightarrow> control_reply"
  proof -
    obtain r where "m db = (r, db')" using mapP_store [OF m(1)] by blast
    then show ?thesis using m(2) new quiet.R_refl by (cases r) auto
  qed
  note quietly = quiet_actions [THEN q] quiet_transition [of Sched_PAUSED, THEN q] quiet_transition [of Sched_DISABLED, THEN q]
  note run' = run [unfolded applyScheduleControl_def bindP_liftE action sum.case]
  show ?thesis
  proof (cases action)
    case Ctl_ENABLE
    then show ?thesis using run' loud [of Controlled "enableSchedule pf input"] refused_unchanged(1) by simp
  next
    case Ctl_RESUME
    then show ?thesis using run' loud [of Controlled "resumeSchedule pf input"] refused_unchanged(2) by simp
  next
    case Ctl_CREATE
    then show ?thesis using run' by (auto dest: quietly(1))
  next
    case Ctl_EDIT_DRAFT
    then show ?thesis using run' by (auto dest: quietly(2))
  next
    case Ctl_DUPLICATE
    then show ?thesis using run' by (auto dest: quietly(3))
  next
    case Ctl_DELETE
    then show ?thesis using run' by (auto dest: quietly(4))
  next
    case Ctl_RUN_NOW
    then show ?thesis using run' by (auto dest: quietly(5))
  next
    case Ctl_DRY_RUN
    then show ?thesis using run' by (auto dest: quietly(6))
  next
    case Ctl_VALIDATE
    then show ?thesis using run' by (auto dest: quietly(7))
  next
    case Ctl_PAUSE
    then show ?thesis using run' by (auto simp: pauseSchedule_def dest: quietly(8) [rotated])
  next
    case Ctl_DISABLE
    then show ?thesis using run' by (auto simp: disableSchedule_def dest: quietly(9) [rotated])
  qed
qed


text \<open>The exception is real: such a forecast passes the freshness test at every time.\<close>

lemma leap_second_never_stale:
  assumes "CostForecastPayloadSchema forecast = Some p" and "second_of (computedAt forecast) = 60" and "forecast \<noteq> JsNull"
    and "forecast \<noteq> JsUndefined"
  shows "assertForecastFresh forecast now w = Inr p"
  using assms computedAt_parsed [OF assms(1)] by (simp add: assertForecastFresh_def Date_parse_def)

section \<open>Dry runs\<close>

text \<open>A delivery that was not a duplicate has gone through \<open>admit\<close> on the same schedules and runs.\<close>

lemma create_run_fresh:
  "create_run input a inboxId policy skipped row db = (Inr tr, db') \<Longrightarrow> \<not> tr_duplicate tr \<Longrightarrow>
     tr_outcome tr = (if skipped then POLICY_SKIPPED else RUN_STARTED) \<and> tr_concurrencyPolicy tr = policy"
  by (auto simp: create_run_def bindP_eq_Inr split: if_splits option.splits)

lemma admit_fresh:
  assumes "admit sha input a schedule inboxId db = (Inr tr, db')" and "\<not> tr_duplicate tr"
  shows "\<exists>i v. sc_current_version_id schedule = Some i \<and> version_of db (sc_schedule_id schedule) i = Some v \<and>
    resolveConcurrencyPolicy (v_resolved_config v) (Some (concurrency_policy_text (sc_concurrency_policy schedule))) (ti_workloadKind input) =
      Inr (tr_concurrencyPolicy tr) \<and>
    tr_outcome tr = (if active_runs db (sc_schedule_id schedule) \<noteq> [] \<and> tr_concurrencyPolicy tr = SKIP_IF_RUNNING
      then POLICY_SKIPPED else RUN_STARTED)"
  using assms unfolding admit_def start_run_def Let_def
  by (auto simp: bindP_eq_Inr split: if_splits option.splits dest!: create_run_fresh)

lemma delivery_fresh:
  assumes "recordTriggerDeliveryInner sha url input db = (Inr tr, db')" and "\<not> tr_duplicate tr"
  obtains s i v where "schedule_of db (ti_scheduleId input) = Some s" and "sc_current_version_id s = Some i"
    and "version_of db (ti_scheduleId input) i = Some v"
    and "resolveConcurrencyPolicy (v_resolved_config v) (Some (concurrency_policy_text (sc_concurrency_policy s))) (ti_workloadKind input) =
      Inr (tr_concurrencyPolicy tr)"
    and "tr_outcome tr = (if active_runs db (ti_scheduleId input) \<noteq> [] \<and> tr_concurrencyPolicy tr = SKIP_IF_RUNNING
      then POLICY_SKIPPED else RUN_STARTED)"
proof -
  from assms(1) obtain a where tx: "trigger_tx sha input a db = (Inr tr, db')"
    by (auto simp: recordTriggerDeliveryInner_def bindP_eq_Inr)
  then obtain s where s: "schedule_of db (ti_scheduleId input) = Some s"
    by (cases "schedule_of db (ti_scheduleId input)") (auto simp: trigger_tx_def)
  from tx s obtain p k inserted u where ins: "inbox_insert (new_inbox_row input a k) db = (Inr inserted, u)"
    and rest: "(if inserted then admit sha input a s k
         else bindP (reads (\<lambda>db. delivery_of db (da_source a) (da_canonical a))) (\<lambda>existing.
              case existing of
                None \<Rightarrow> raise (ForesiftError CONTRACT_INVARIANT_VIOLATED)
              | Some existing \<Rightarrow>
                  if i_schedule_id existing \<noteq> ti_scheduleId input
                  then raise (ForesiftError WF_TRIGGER_SCHEDULE_MISMATCH)
                  else if i_status existing = Trig_REJECTED
                  then raise (ForesiftError WF_TRIGGER_DELIVERY_REJECTED)
                  else if i_processed_run_id existing \<noteq> None \<or> i_status existing = Trig_PROCESSED
                  then bindP (inbox_update (\<lambda>i. i_status i = Trig_PROCESSED) (i_inbox_id existing)
                                (i_status_update (\<lambda>_. Trig_DUPLICATE_COLLAPSED))) (\<lambda>_.
                       ret \<lparr>tr_inboxId = i_inbox_id existing, tr_runId = i_processed_run_id existing,
                            tr_outcome = DUPLICATE_COLLAPSED, tr_duplicate = True,
                            tr_concurrencyPolicy = p\<rparr>)
                  else admit sha input a s (i_inbox_id existing))) u = (Inr tr, db')"
    unfolding trigger_tx_def by (simp add: bindP_eq_Inr) blast
  from ins have same: "schedule_versions u = schedule_versions db" "runs u = runs db"
    by (auto simp: inbox_insert_def split: if_splits)
  from rest assms(2) obtain k' where admit: "admit sha input a s k' u = (Inr tr, db')"
    by (cases inserted) (auto simp: bindP_eq_Inr split: option.splits if_splits)
  have sid: "sc_schedule_id s = ti_scheduleId input" using row_by_SomeD [OF s] by simp
  from admit_fresh [OF admit assms(2)] same sid show ?thesis by (auto simp: active_runs_def intro: that [OF s])
qed

lemma stored_policy:
  assumes "configFromVersion iana v = Inr c" and "jsprop (v_resolved_config v) ''concurrencyPolicy'' = JsStr p"
    and "resolveScheduleConfig iana empty_patch (Some c) = Inr c'"
  shows "rc_concurrencyPolicy c' = JsStr p"
proof -
  have "rc_concurrencyPolicy c = JsStr p"
    using assms(1,2) by (auto simp: configFromVersion_def resolveScheduleConfig_def patch_of_def coalesce_def Let_def bindE_eq_Inr
        split: jsval.splits)
  then show ?thesis
    using assms(3) by (auto simp: resolveScheduleConfig_def empty_patch_def coalesce_def Let_def bindE_eq_Inr)
qed

text \<open>
  A dry run writes nothing and predicts a delivery: in a store of schedule
  control, its report names the version, the policy and the start decision that the trigger pipeline
  then takes for any delivery to the schedule that is not a duplicate: a run is started exactly when
  the report says so, and skipped by policy otherwise.
\<close>

theorem dry_run_predicts:
  assumes "sched_inv sha db" and "dryRunSchedule pf (\<lambda>_ d. d) input db = (Inr rep, db1)"
    and "recordTriggerDeliveryInner sha' url delivery db = (Inr tr, db2)" and "\<not> tr_duplicate tr"
    and "ti_scheduleId delivery = ci_scheduleId input"
  shows "db1 = db \<and> dr_concurrencyPolicy rep = JsStr (concurrency_policy_text (tr_concurrencyPolicy tr)) \<and>
    tr_outcome tr = (if dr_wouldStartRun rep then RUN_STARTED else POLICY_SKIPPED) \<and>
    (\<exists>s. schedule_of db (ci_scheduleId input) = Some s \<and> sc_current_version_id s = Some (dr_versionId rep))"
proof -
  let ?k = "ci_scheduleId input"
  from assms(2) obtain s i v c c' where db1: "db1 = db" and s: "schedule_of db ?k = Some s" "sc_current_version_id s = Some i"
    "version_of db (sc_schedule_id s) i = Some v" and c: "configFromVersion (pf_iana pf) v = Inr c"
    "resolveScheduleConfig (pf_iana pf) empty_patch (Some c) = Inr c'"
    and rep: "dr_concurrencyPolicy rep = rc_concurrencyPolicy c'" "dr_versionId rep = v_version_id v"
      "dr_wouldStartRun rep = (\<not> (active_runs db (sc_schedule_id s) \<noteq> [] \<and> rc_concurrencyPolicy c' = JsStr (concurrency_policy_text SKIP_IF_RUNNING)))"
    unfolding dryRunSchedule_def by (auto simp: bindP_eq_Inr gap_def Let_def) blast
  have sid: "sc_schedule_id s = ?k" "s \<in> set (schedules db)" using row_by_SomeD [OF s(1)] by auto
  obtain s2 i2 v2 where
    d: "schedule_of db ?k = Some s2" "sc_current_version_id s2 = Some i2" "version_of db ?k i2 = Some v2"
    and pol: "resolveConcurrencyPolicy (v_resolved_config v2) (Some (concurrency_policy_text (sc_concurrency_policy s2))) (ti_workloadKind delivery) =
      Inr (tr_concurrencyPolicy tr)"
    and out: "tr_outcome tr = (if active_runs db ?k \<noteq> [] \<and> tr_concurrencyPolicy tr = SKIP_IF_RUNNING
      then POLICY_SKIPPED else RUN_STARTED)"
    by (rule delivery_fresh [OF assms(3,4), unfolded assms(5)])
  have same: "s2 = s" "i2 = i" "v2 = v" using s d sid(1) by auto
  obtain u where u: "u \<in> set (schedule_versions db)" "sc_current_version_id s = Some (v_version_id u)"
    "jsprop (v_resolved_config u) ''concurrencyPolicy'' = JsStr (concurrency_policy_text (sc_concurrency_policy s))"
    using sched_invD(3) [OF assms(1) sid(2)] by blast
  have uv: "u = v" using row_unique [OF sched_invD(2) [OF assms(1)] u(1)] version_ofD [OF s(3)] u(2) s(2) by auto
  have jp: "jsprop (v_resolved_config v) ''concurrencyPolicy'' = JsStr (concurrency_policy_text (sc_concurrency_policy s))"
    using u(3) uv by simp
  have "parseConcurrencyPolicy (Some (concurrency_policy_text (sc_concurrency_policy s))) = Inr (tr_concurrencyPolicy tr)"
    using pol unfolding same resolveConcurrencyPolicy_def jp by simp
  then have p: "tr_concurrencyPolicy tr = sc_concurrency_policy s"
    unfolding parseConcurrencyPolicy_def policy_voc.parse_roundtrip by simp
  have "concurrency_policy_text x = ''SKIP_IF_RUNNING'' \<longleftrightarrow> x = SKIP_IF_RUNNING" for x by (cases x) simp_all
  then show ?thesis
    using db1 s version_ofD [OF s(3)] rep out p sid(1) stored_policy [OF c(1) jp c(2)] by simp
qed

section \<open>Worked example\<close>

text \<open>A platform with a constant digest, and a schedule that is created, enabled and deleted on it.\<close>

definition demo_pf :: platform where
  "demo_pf = \<lparr>pf_sha = no_sha, pf_url = (\<lambda>_. None), pf_iana = (\<lambda>_. False), pf_clock = (''t'', 1709251200000), pf_uuid = ''u'',
     pf_boolean = (\<lambda>v. case v of JsBool b \<Rightarrow> Some b | _ \<Rightarrow> None), pf_timestamptz = Date_parse, pf_dbnow = 0, pf_tie = 0\<rparr>"

definition demo_patch :: schedule_config_patch where
  "demo_patch = empty_patch\<lparr>cp_name := JsStr ''scan'', cp_cron := JsStr '' 0 * * * * '', cp_timezone := JsStr ''UTC'',
     cp_destination := JsStr ''d''\<rparr>"

definition demo_control :: "string \<Rightarrow> control_input" where
  "demo_control action = \<lparr>ci_action = action, ci_scheduleId = ''s1'', ci_now = None, ci_config = Some demo_patch,
     ci_forecast = JsObj [(''computedAt'', JsStr ''2024-02-29T23:59:59.5Z''), (''runsPerDay'', JsInt 24),
       (''providerCallsPerDay'', JsInt 0), (''modelTokensPerDay'', JsInt 0), (''estimatedModelSpendPerDay'', JsStr ''0.5''),
       (''quotaExhaustionDate'', JsNull), (''storageGrowthPerMonth'', JsInt 1)],
     ci_workloadKind = None, ci_versionId = Some ''v1'', ci_forecastId = Some ''f1'', ci_requestId = None, ci_newScheduleId = None\<rparr>"

definition demo_config :: resolved_schedule_config where
  "demo_config = \<lparr>rc_name = ''scan'', rc_cron = ''0 * * * *'', rc_timezone = ''UTC'', rc_destination = ''d'',
     rc_concurrencyPolicy = JsStr ''SKIP_IF_RUNNING'', rc_workloadKind = JsStr ''BROAD_SCAN'', rc_shadow = JsBool False\<rparr>"

lemma demo_resolves: "resolveScheduleConfig iana demo_patch None = Inr demo_config"
proof -
  have t: "trim ''scan'' = ''scan''" "trim ''d'' = ''d''" "trim ''UTC'' = ''UTC''" "trim '' 0 * * * * '' = ''0 * * * *''"
    "\<not> blank ''scan''" "\<not> blank ''d''" "\<not> blank ''UTC''"
    by (simp_all add: trim_def blank_def js_space_def)
  have "split_spaces ''0 * * * *'' = [''0'', ''*'', ''*'', ''*'', ''*'']" by (simp add: js_space_def)
  then have "validateCronExpression (JsStr '' 0 * * * * '') = Inr ''0 * * * *''"
    by (simp add: validateCronExpression_def t CRON_FIELD_BOUNDS_def cron_item_def cron_range_def parseCronValue_def
        one_or_two_digits_def digit_def num_text_def)
  then show ?thesis
    by (simp add: resolveScheduleConfig_def demo_patch_def empty_patch_def coalesce_def sched_requireText_def
        validateIanaTimezone_def t default_policy_value_def demo_config_def)
qed

definition demo_v1 :: "jsval version_row" where
  "demo_v1 = \<lparr>v_version_id = ''v1'', v_schedule_id = ''s1'', v_config_hash = sha256Text no_sha [], v_resolved_config = config_json demo_config,
     v_shadow = False, v_superseded_by = None, v_created_at = 0\<rparr>"

definition demo_s1 :: "schedule_status \<Rightarrow> schedule_row" where
  "demo_s1 st = \<lparr>sc_schedule_id = ''s1'', sc_name = ''scan'', sc_concurrency_policy = SKIP_IF_RUNNING, sc_status = st,
     sc_current_version_id = Some ''v1'', sc_created_at = 1709251200000, sc_updated_at = 1709251200000\<rparr>"

definition sched_store :: "jsval wf_db" where
  "sched_store = empty_db\<lparr>schedules := [demo_s1 Sched_DRAFT], schedule_versions := [demo_v1]\<rparr>"

lemma parse_action: "parseScheduleControlAction (Some (schedule_control_action_text a)) = Inr a"
  unfolding parseScheduleControlAction_def by (rule action_voc.parse_roundtrip)

lemma demo_canon: "\<exists>t. canonicalJson (config_json demo_config) = Inr t"
  by (simp add: config_json_def demo_config_def)

lemma demo_config_members [simp]:
  "rc_name demo_config = ''scan''" "rc_concurrencyPolicy demo_config = JsStr ''SKIP_IF_RUNNING''" "rc_shadow demo_config = JsBool False"
  by (simp_all add: demo_config_def)

lemma demo_create: "\<exists>r. applyScheduleControl demo_pf env (demo_control ''CREATE'') empty_db = (Inr r, sched_store)"
proof -
  obtain t where canon: "canonicalJson (config_json demo_config) = Inr t" using demo_canon by blast
  have h: "sha256Text no_sha t = sha256Text no_sha []" "HASH_PATTERN (sha256Text no_sha [])"
    by (simp_all add: sha256Text_def no_sha_def HASH_PATTERN_def hex_digit_def list_all_iff)
  have pol: "policy_column (JsStr ''SKIP_IF_RUNNING'') = Inr SKIP_IF_RUNNING" by (simp add: policy_column_ok)
  have j: "jsonb (config_json demo_config) = config_json demo_config" by (simp add: config_json_def demo_config_def)
  have "\<exists>r. createSchedule demo_pf ''s1'' demo_patch None (Some ''v1'') empty_db = (Inr r, sched_store)"
    by (simp add: createSchedule_def sched_nowIso_def demo_pf_def demo_resolves bindP_run transaction_def empty_db_def canon pol h
        schedule_insert_def insert_stmt_def draft_row_def schedule_checks_def appendVersion_def sql_value_def version_insert_def
        schedule_update_def update_stmt_def sched_store_def demo_s1_def demo_v1_def j Let_def)
  then show ?thesis
    using parse_action [of Ctl_CREATE] by (auto simp: applyScheduleControl_def demo_control_def mapP_def bindP_run)
qed

lemma sched_store_inv: "sched_inv no_sha sched_store"
proof -
  obtain r where "applyScheduleControl demo_pf (\<lambda>_ d. d) (demo_control ''CREATE'') empty_db = (Inr r, sched_store)"
    using demo_create by blast
  moreover have "pf_sha demo_pf = no_sha" by (simp add: demo_pf_def)
  ultimately show ?thesis
    using control_steps [of demo_pf empty_db "\<lambda>_ d. d" "demo_control ''CREATE''"] sched_inv_empty
      sched_inv_steps [of no_sha empty_db sched_store] by simp
qed


definition demo_history :: "control list" where
  "demo_history = [(demo_pf, \<lambda>_ d. d, demo_control ''CREATE'')]"

lemma demo_history_run: "list_all (fair no_sha) demo_history" "run_controls demo_history empty_db = sched_store"
proof -
  obtain r where "applyScheduleControl demo_pf (\<lambda>_ d. d) (demo_control ''CREATE'') empty_db = (Inr r, sched_store)"
    using demo_create by blast
  then show "run_controls demo_history empty_db = sched_store" by (simp add: demo_history_def)
qed (simp add: demo_history_def fair_def demo_pf_def)

theorem schedule_versions_immutable_witness:
  "\<exists>!v. v \<in> set (schedule_versions sched_store) \<and> v_schedule_id v = ''s1'' \<and> v_superseded_by v = None \<and>
     sc_current_version_id (demo_s1 Sched_DRAFT) = Some (v_version_id v)"
proof -
  have "demo_s1 Sched_DRAFT \<in> set (schedules sched_store)" "sc_schedule_id (demo_s1 Sched_DRAFT) = ''s1''"
    by (simp_all add: sched_store_def demo_s1_def)
  with schedule_versions_immutable [OF sched_inv_empty demo_history_run(1) refl] show ?thesis
    unfolding demo_history_run(2) by (elim conjE) (drule bspec, assumption, simp)
qed

definition deleted_store :: "jsval wf_db" where
  "deleted_store = sched_store\<lparr>schedules := [(demo_s1 Sched_DISABLED)\<lparr>sc_name := ''scan (deleted)''\<rparr>]\<rparr>"

theorem deleted_schedule_final_witness:
  "runScheduleNow demo_pf (\<lambda>_ d. d) (demo_control ''RUN_NOW'') deleted_store = (Inl (ForesiftError WF_SCHEDULE_DISABLED), deleted_store)"
proof -
  have "schedule_versions deleted_store = schedule_versions sched_store" by (simp add: deleted_store_def)
  moreover have "schedules deleted_store = sql_update (\<lambda>_. True) (\<lambda>r. r\<lparr>sc_status := Sched_DISABLED, sc_name := ''scan (deleted)''\<rparr>)
      (schedules sched_store)" by (simp add: deleted_store_def sched_store_def demo_s1_def)
  ultimately have inv: "sched_inv no_sha deleted_store"
    using sched_inv_move [OF sched_store_inv] by (simp add: keeps_version_def)
  have del: "deleted ''s1'' deleted_store"
    by (simp add: deleted_def deleted_store_def demo_s1_def ends_with_def DELETED_SUFFIX_def)
  show ?thesis
    using deleted_schedule_final [where cs = "[]" and pf = demo_pf and input = "demo_control ''RUN_NOW''" and env = "\<lambda>_ d. d",
        OF inv _ _ del] by (simp add: sched_nowIso_def demo_control_def)
qed

lemma demo_timestamp: "isValidUtcTimestamp ''2024-02-29T23:59:59.5Z''" "Date_parse ''2024-02-29T23:59:59.5Z'' = Some 1709251199500"
proof -
  have p: "ISO_UTC_PATTERN ''2024-02-29T23:59:59.5Z''"
    by (simp add: ISO_UTC_PATTERN_def iso_template_def iso_suffix_def digit_def)
  then show v: "isValidUtcTimestamp ''2024-02-29T23:59:59.5Z''"
    by (simp add: isValidUtcTimestamp_def slice_def num_text_def max_day_def isLeapYear_def DAYS_IN_MONTH_def)
  then show "Date_parse ''2024-02-29T23:59:59.5Z'' = Some 1709251199500"
    by (simp add: Date_parse_def slice_def num_text_def fraction_ms_def fraction_def day_number_def
        day_from_year_def days_before_def max_day_def isLeapYear_def DAYS_IN_MONTH_def upt_rec)
qed

definition demo_forecast :: "jsval forecast_row" where
  "demo_forecast = \<lparr>fc_forecast_id = ''f1'', fc_schedule_id = ''s1'', fc_version_id = ''v1'', fc_computed_at = 1709251199500,
     fc_payload = ci_forecast (demo_control []), fc_payload_hash = sha256Text no_sha [], fc_created_at = 1709251200000\<rparr>"

definition enabled_store :: "jsval wf_db" where
  "enabled_store = sched_store\<lparr>schedules := [demo_s1 Sched_ACTIVE], schedule_forecasts := [demo_forecast]\<rparr>"

lemma demo_enable: "\<exists>r. applyScheduleControl demo_pf (\<lambda>_ d. d) (demo_control ''ENABLE'') sched_store = (Inr r, enabled_store)"
proof -
  let ?f = "ci_forecast (demo_control [])"
  have dec: "unsignedDecimal ''0.5''" by (simp add: unsignedDecimal_def digit_def)
  have schema: "CostForecastPayloadSchema ?f = Some ?f"
    by (simp add: CostForecastPayloadSchema_def demo_control_def FORECAST_KEYS_def jsprop_def demo_timestamp nonNegativeInt_def dec)
  have at: "computedAt ?f = ''2024-02-29T23:59:59.5Z''" by (simp add: computedAt_def jsprop_def demo_control_def)
  have fresh: "assertForecastFresh ?f 1709251200000 FORECAST_FRESHNESS_WINDOW_MS = Inr ?f"
    using schema by (simp add: assertForecastFresh_def at demo_timestamp FORECAST_CLOCK_SKEW_MS_def FORECAST_FRESHNESS_WINDOW_MS_def)
      (simp add: demo_control_def)
  obtain t where canon: "canonicalJson ?f = Inr t" by (simp add: demo_control_def)
  have h: "sha256Text no_sha t = sha256Text no_sha []" "HASH_PATTERN (sha256Text no_sha [])"
    by (simp_all add: sha256Text_def no_sha_def HASH_PATTERN_def hex_digit_def list_all_iff)
  have j: "jsonb ?f = ?f" by (simp add: demo_control_def)
  have in0: "ci_forecast (demo_control ''ENABLE'') = ?f" "ci_now (demo_control ''ENABLE'') = None"
    "ci_scheduleId (demo_control ''ENABLE'') = ''s1''" "ci_forecastId (demo_control ''ENABLE'') = Some ''f1''"
    "ci_action (demo_control ''ENABLE'') = ''ENABLE''"
    by (simp_all add: demo_control_def)
  have "\<exists>r. enableSchedule demo_pf (demo_control ''ENABLE'') sched_store = (Inr r, enabled_store)"
    by (simp add: enableSchedule_def in0 sched_nowIso_def demo_pf_def fresh bindP_run transaction_def loadSchedule_def
        loadCurrentVersion_def loadVersion_def sched_store_def demo_s1_def demo_v1_def canon h j at demo_timestamp
        sql_value_def forecast_insert_def insert_stmt_def schedule_update_def update_stmt_def schedule_checks_def Let_def
        ends_with_def DELETED_SUFFIX_def enabled_store_def demo_forecast_def empty_db_def del: loadSchedule_ok loadCurrentVersion_ok)
  then show ?thesis
    using parse_action [of Ctl_ENABLE] by (auto simp: applyScheduleControl_def in0 mapP_def bindP_run)
qed


lemma demo_delivery:
  "\<exists>tr db2. recordTriggerDeliveryInner no_sha no_url (demo_trigger ''m'') enabled_store = (Inr tr, db2) \<and> \<not> tr_duplicate tr \<and>
     tr_outcome tr = RUN_STARTED"
proof -
  have pol: "parseConcurrencyPolicy (Some ''SKIP_IF_RUNNING'') = Inr SKIP_IF_RUNNING"
    using policy_voc.parse_roundtrip [of SKIP_IF_RUNNING] by (simp add: parseConcurrencyPolicy_def)
  have "jsprop (config_json demo_config) ''concurrencyPolicy'' = JsStr ''SKIP_IF_RUNNING''"
    by (simp add: config_json_def jsprop_def)
  then have "\<exists>tr db2. trigger_tx no_sha (demo_trigger ''m'') (demo_args ''m'') enabled_store = (Inr tr, db2) \<and> \<not> tr_duplicate tr \<and>
     tr_outcome tr = RUN_STARTED"
    by (simp add: trigger_tx_def enabled_store_def sched_store_def empty_db_def demo_trigger_def demo_s1_def pol bindP_run
        inbox_insert_def new_inbox_row_def demo_args_def admit_def demo_v1_def resolveConcurrencyPolicy_def
        active_runs_def start_run_def demo_deadline create_run_def run_insert_def new_run_row_def inbox_update_run)
  then show ?thesis unfolding delivery_is_tx [OF demo_args_ok] using transaction_ok by metis
qed

lemma demo_dry_run: "\<exists>rep. dryRunSchedule demo_pf (\<lambda>_ d. d) (demo_control ''DRY_RUN'') enabled_store = (Inr rep, enabled_store)"
proof -
  have t: "trim ''scan'' = ''scan''" "trim ''d'' = ''d''" "trim ''UTC'' = ''UTC''" "trim ''0 * * * *'' = ''0 * * * *''"
    "\<not> blank ''scan''" "\<not> blank ''d''" "\<not> blank ''UTC''"
    by (simp_all add: trim_def blank_def js_space_def)
  have "split_spaces ''0 * * * *'' = [''0'', ''*'', ''*'', ''*'', ''*'']" by (simp add: js_space_def)
  then have cron: "validateCronExpression (JsStr ''0 * * * *'') = Inr ''0 * * * *''"
    by (simp add: validateCronExpression_def t CRON_FIELD_BOUNDS_def cron_item_def cron_range_def parseCronValue_def
        one_or_two_digits_def digit_def num_text_def)
  have c: "configFromVersion iana demo_v1 = Inr demo_config" for iana
    by (simp add: configFromVersion_def demo_v1_def config_json_def demo_config_def patch_of_def jsprop_def resolveScheduleConfig_def
        coalesce_def sched_requireText_def validateIanaTimezone_def t cron)
  have r: "resolveScheduleConfig iana empty_patch (Some demo_config) = Inr demo_config" for iana
    by (simp add: demo_config_def resolveScheduleConfig_def empty_patch_def coalesce_def sched_requireText_def
        validateIanaTimezone_def t cron)
  have in0: "ci_scheduleId (demo_control ''DRY_RUN'') = ''s1''" by (simp add: demo_control_def)
  have v: "v_version_id demo_v1 = ''v1''" "v_schedule_id demo_v1 = ''s1''" by (simp_all add: demo_v1_def)
  show ?thesis
    by (simp add: dryRunSchedule_def in0 bindP_run loadSchedule_def loadCurrentVersion_def loadVersion_def enabled_store_def
        sched_store_def demo_s1_def v c r Let_def del: loadSchedule_ok loadCurrentVersion_ok)
qed

theorem dry_run_predicts_witness:
  "\<exists>rep tr db2. dryRunSchedule demo_pf (\<lambda>_ d. d) (demo_control ''DRY_RUN'') enabled_store = (Inr rep, enabled_store) \<and>
     recordTriggerDeliveryInner no_sha no_url (demo_trigger ''m'') enabled_store = (Inr tr, db2) \<and>
     tr_outcome tr = RUN_STARTED \<and> dr_wouldStartRun rep"
proof -
  obtain r where "applyScheduleControl demo_pf (\<lambda>_ d. d) (demo_control ''ENABLE'') sched_store = (Inr r, enabled_store)"
    using demo_enable by blast
  moreover have "pf_sha demo_pf = no_sha" by (simp add: demo_pf_def)
  ultimately have inv: "sched_inv no_sha enabled_store"
    using control_steps [of demo_pf sched_store "\<lambda>_ d. d" "demo_control ''ENABLE''"] sched_store_inv
      sched_inv_steps [of no_sha sched_store enabled_store] by simp
  obtain rep where dry: "dryRunSchedule demo_pf (\<lambda>_ d. d) (demo_control ''DRY_RUN'') enabled_store = (Inr rep, enabled_store)"
    using demo_dry_run by blast
  obtain tr db2 where del: "recordTriggerDeliveryInner no_sha no_url (demo_trigger ''m'') enabled_store = (Inr tr, db2)"
    "\<not> tr_duplicate tr" "tr_outcome tr = RUN_STARTED" using demo_delivery by blast
  have "ti_scheduleId (demo_trigger ''m'') = ci_scheduleId (demo_control ''DRY_RUN'')"
    by (simp add: demo_trigger_def demo_control_def)
  from dry_run_predicts [OF inv dry del(1,2) this] del(3) have "dr_wouldStartRun rep" by (auto split: if_splits)
  then show ?thesis using dry del by blast
qed

end
