(* ===== verification/CronGrammar.thy ===== *)
theory CronGrammar
  imports ScheduleConfig TriggerRuns
begin

text \<open>
  The language of cron expressions as a grammar, and the proof that the validator of
  schedules.ts accepts exactly that language; the typing of resolved configurations, and that a stored
  configuration reads back as itself.
\<close>

section \<open>Splitting\<close>

lemma split_char_Nil [simp]: "split_char c s \<noteq> []"
  by (induction s) (auto split: list.splits)

lemma split_char_Cons_iff:
  "split_char c s = w # ws \<longleftrightarrow> c \<notin> set w \<and> (ws = [] \<and> s = w \<or> (\<exists>v. s = w @ c # v \<and> split_char c v = ws))"
proof (induction s arbitrary: w)
  case (Cons x s)
  show ?case
  proof (cases "x = c")
    case True
    then show ?thesis by (cases w) auto
  next
    case False
    obtain u us where u: "split_char c s = u # us" by (meson neq_Nil_conv split_char_Nil)
    show ?thesis
    proof (cases w)
      case Nil
      then show ?thesis using False u by auto
    next
      case (Cons y w')
      have "split_char c (x # s) = w # ws \<longleftrightarrow> x = y \<and> split_char c s = w' # ws" using False u Cons by auto
      then show ?thesis unfolding Cons.IH using False Cons by auto
    qed
  qed
qed auto

lemma split_char_one: "split_char c s = [w] \<longleftrightarrow> s = w \<and> c \<notin> set w"
  by (auto simp: split_char_Cons_iff)

lemma split_char_two: "split_char c s = [u, v] \<longleftrightarrow> s = u @ c # v \<and> c \<notin> set u \<and> c \<notin> set v"
  by (auto simp: split_char_Cons_iff)

lemma split_spaces_Nil [simp]: "split_spaces s \<noteq> []"
  by (induction s rule: split_spaces.induct) (auto split: list.splits)

abbreviation no_space :: "string \<Rightarrow> bool" where
  "no_space s \<equiv> \<forall>c \<in> set s. \<not> js_space c"

lemma split_spaces_word: "no_space w \<Longrightarrow> split_spaces w = [w]"
  by (induction w) auto

lemma split_spaces_append:
  "no_space f \<Longrightarrow> w \<noteq> [] \<Longrightarrow> list_all js_space w \<Longrightarrow> rest \<noteq> [] \<Longrightarrow> \<not> js_space (hd rest) \<Longrightarrow>
     split_spaces (f @ w @ rest) = f # split_spaces rest"
proof (induction f)
  case Nil
  then obtain x w' where w: "w = x # w'" "js_space x" "\<forall>c \<in> set w'. js_space c" by (cases w) (auto simp: list_all_iff)
  obtain y ys where r: "rest = y # ys" using Nil by (cases rest) auto
  have "dropWhile js_space (w' @ rest) = rest" using w(3) Nil(5) r by (simp add: dropWhile_append2)
  then show ?case using w by simp
qed simp

lemma split_spaces_Cons:
  "split_spaces s = f # fs \<Longrightarrow> no_space f \<and> (fs = [] \<and> s = f \<or>
     (\<exists>w rest. s = f @ w @ rest \<and> w \<noteq> [] \<and> list_all js_space w \<and> split_spaces rest = fs))"
proof (induction s arbitrary: f fs rule: split_spaces.induct)
  case (2 x xs)
  show ?case
  proof (cases "js_space x")
    case True
    let ?w = "x # takeWhile js_space xs" and ?r = "dropWhile js_space xs"
    have "x # xs = ?w @ ?r" "list_all js_space ?w" using True by (auto simp: list_all_iff dest: set_takeWhileD)
    moreover have "f = []" "split_spaces ?r = fs" using 2(3) True by auto
    ultimately show ?thesis by (intro conjI) (simp, metis append_Nil list.distinct(1))
  next
    case False
    obtain u us where u: "split_spaces xs = u # us" by (meson neq_Nil_conv split_spaces_Nil)
    then have f: "f = x # u" "fs = us" using 2(3) False by auto
    show ?thesis using 2(2) [OF False u] False f by (metis append_Cons set_ConsD)
  qed
qed auto

section \<open>The grammar\<close>

inductive cron_value :: "nat \<Rightarrow> nat \<Rightarrow> string \<Rightarrow> bool" for lo hi where
  "one_or_two_digits t \<Longrightarrow> lo \<le> num_text t \<Longrightarrow> num_text t \<le> hi \<Longrightarrow> cron_value lo hi t"

inductive cron_span :: "nat \<Rightarrow> nat \<Rightarrow> string \<Rightarrow> bool" for lo hi where
  any: "cron_span lo hi ''*''"
| single: "cron_value lo hi t \<Longrightarrow> cron_span lo hi t"
| between: "cron_value lo hi t \<Longrightarrow> cron_value lo hi u \<Longrightarrow> num_text t \<le> num_text u \<Longrightarrow> cron_span lo hi (t @ ''-'' @ u)"

inductive cron_entry :: "nat \<Rightarrow> nat \<Rightarrow> string \<Rightarrow> bool" for lo hi where
  plain: "cron_span lo hi r \<Longrightarrow> cron_entry lo hi r"
| stepped: "cron_span lo hi r \<Longrightarrow> one_or_two_digits n \<Longrightarrow> 1 \<le> num_text n \<Longrightarrow> cron_entry lo hi (r @ ''/'' @ n)"

inductive cron_list :: "nat \<Rightarrow> nat \<Rightarrow> string \<Rightarrow> bool" for lo hi where
  final: "cron_entry lo hi e \<Longrightarrow> cron_list lo hi e"
| more: "cron_entry lo hi e \<Longrightarrow> cron_list lo hi l \<Longrightarrow> cron_list lo hi (e @ '','' @ l)"

inductive cron_sequence :: "(nat \<times> nat) list \<Rightarrow> string \<Rightarrow> bool" where
  one: "cron_list lo hi f \<Longrightarrow> cron_sequence [(lo, hi)] f"
| another: "cron_list lo hi f \<Longrightarrow> w \<noteq> [] \<Longrightarrow> list_all js_space w \<Longrightarrow> bounds \<noteq> [] \<Longrightarrow> cron_sequence bounds s \<Longrightarrow>
    cron_sequence ((lo, hi) # bounds) (f @ w @ s)"

lemma cron_value_iff: "cron_value lo hi t \<longleftrightarrow> parseCronValue t lo hi = Inr ()"
  by (auto simp: cron_value.simps parseCronValue_def)

text \<open>The characters of each level, so that the separators of the next cannot occur in it.\<close>

definition cron_chars :: "char set" where
  "cron_chars = {c. digit c} \<union> {CHR ''*'', CHR ''-'', CHR ''/'', CHR '',''}"

lemma digits_chars: "one_or_two_digits t \<Longrightarrow> set t \<subseteq> {c. digit c} \<and> t \<noteq> []"
  by (auto simp: one_or_two_digits_def list_all_iff)

lemma digit_special [simp]: "\<not> digit (CHR ''*'')" "\<not> digit (CHR ''-'')" "\<not> digit (CHR ''/'')" "\<not> digit (CHR '','')"
  by (simp_all add: digit_def)

lemma span_chars: "cron_span lo hi r \<Longrightarrow> set r \<subseteq> {c. digit c} \<union> {CHR ''*'', CHR ''-''} \<and> r \<noteq> []"
  by (induction rule: cron_span.induct) (auto simp: cron_value.simps dest!: digits_chars)

lemma entry_chars: "cron_entry lo hi e \<Longrightarrow> set e \<subseteq> {c. digit c} \<union> {CHR ''*'', CHR ''-'', CHR ''/''} \<and> e \<noteq> []"
  by (induction rule: cron_entry.induct) (auto dest!: span_chars digits_chars)

lemma list_chars: "cron_list lo hi l \<Longrightarrow> set l \<subseteq> cron_chars \<and> l \<noteq> []"
  by (induction rule: cron_list.induct) (auto simp: cron_chars_def dest!: entry_chars)

lemma cron_chars_no_space: "c \<in> cron_chars \<Longrightarrow> \<not> js_space c"
  by (auto simp: cron_chars_def digit_def js_space_def Let_def)

section \<open>The validator accepts exactly the grammar\<close>

lemma value_no_dash: "cron_value lo hi t \<Longrightarrow> CHR ''-'' \<notin> set t"
  by (auto simp: cron_value.simps dest!: digits_chars)

lemma cron_range_iff: "cron_range lo hi r = Inr () \<longleftrightarrow> cron_span lo hi r"
proof
  assume ok: "cron_range lo hi r = Inr ()"
  show "cron_span lo hi r"
  proof (cases "r = ''*''")
    case False
    then consider t where "split_char (CHR ''-'') r = [t]" "parseCronValue t lo hi = Inr ()"
      | t u where "split_char (CHR ''-'') r = [t, u]" "parseCronValue t lo hi = Inr ()" "parseCronValue u lo hi = Inr ()" "num_text t \<le> num_text u"
      using ok by (auto simp: cron_range_def bindE_eq_Inr split: list.splits if_splits)
    then show ?thesis
    proof cases
      case 1
      then show ?thesis by (auto simp: split_char_one cron_value_iff intro: cron_span.single)
    next
      case (2 t u)
      then show ?thesis using cron_span.between [of lo hi t u] by (simp add: split_char_two cron_value_iff)
    qed
  qed (simp add: cron_span.any)
next
  assume "cron_span lo hi r"
  then show "cron_range lo hi r = Inr ()"
  proof cases
    case single
    then show ?thesis using value_no_dash [of lo hi r] by (auto simp: cron_range_def cron_value_iff split_char_one [THEN iffD2])
  next
    case (between t u)
    then have "split_char (CHR ''-'') r = [t, u]" using value_no_dash [of lo hi] by (simp add: split_char_two)
    moreover have "r \<noteq> ''*''" using between(1) by (auto simp: append_eq_Cons_conv)
    ultimately show ?thesis using between by (simp add: cron_range_def cron_value_iff)
  qed (simp add: cron_range_def)
qed

lemma cron_item_iff: "cron_item lo hi e = Inr () \<longleftrightarrow> cron_entry lo hi e"
proof
  assume ok: "cron_item lo hi e = Inr ()"
  then consider r where "split_char (CHR ''/'') e = [r]" "cron_range lo hi r = Inr ()"
    | r n where "split_char (CHR ''/'') e = [r, n]" "cron_step n = Inr ()" "cron_range lo hi r = Inr ()"
    by (auto simp: cron_item_def bindE_eq_Inr split: list.splits if_splits)
  then show "cron_entry lo hi e"
  proof cases
    case 1
    then show ?thesis by (auto simp: split_char_one cron_range_iff intro: cron_entry.plain)
  next
    case (2 r n)
    then show ?thesis using cron_entry.stepped [of lo hi r n]
      by (auto simp: split_char_two cron_range_iff cron_step_def split: if_splits)
  qed
next
  assume e: "cron_entry lo hi e"
  then have ne: "e \<noteq> []" using entry_chars by blast
  from e show "cron_item lo hi e = Inr ()"
  proof cases
    case plain
    then have "split_char (CHR ''/'') e = [e]" using span_chars [of lo hi e] by (auto simp: split_char_one)
    then show ?thesis using plain ne by (simp add: cron_item_def cron_range_iff)
  next
    case (stepped r n)
    then have "split_char (CHR ''/'') e = [r, n]" using span_chars [of lo hi r] digits_chars [of n] by (auto simp: split_char_two)
    then show ?thesis using stepped ne by (simp add: cron_item_def cron_range_iff cron_step_def)
  qed
qed

lemma entry_no_comma: "cron_entry lo hi e \<Longrightarrow> CHR '','' \<notin> set e"
  using entry_chars [of lo hi e] by auto

lemma cron_items_iff: "cron_items lo hi (split_char (CHR '','') l) = Inr () \<longleftrightarrow> cron_list lo hi l"
proof
  assume "cron_items lo hi (split_char (CHR '','') l) = Inr ()"
  then show "cron_list lo hi l"
  proof (induction "length l" arbitrary: l rule: less_induct)
    case less
    obtain e es where e: "split_char (CHR '','') l = e # es" by (meson neq_Nil_conv split_char_Nil)
    then have ok: "cron_entry lo hi e" "cron_items lo hi es = Inr ()"
      using less.prems by (auto simp: bindE_eq_Inr cron_item_iff)
    from e consider "l = e" | v where "l = e @ CHR '','' # v" "split_char (CHR '','') v = es" by (auto simp: split_char_Cons_iff)
    then show ?case
    proof cases
      case 1
      then show ?thesis using ok by (simp add: cron_list.final)
    next
      case (2 v)
      then have "cron_list lo hi v" using less.hyps [of v] ok(2) by simp
      then show ?thesis using cron_list.more [OF ok(1)] 2 by simp
    qed
  qed
next
  assume "cron_list lo hi l"
  then show "cron_items lo hi (split_char (CHR '','') l) = Inr ()"
  proof induction
    case (final e)
    then have "split_char (CHR '','') e = [e]" using entry_no_comma by (simp add: split_char_one)
    then show ?case using final by (simp add: cron_item_iff [symmetric])
  next
    case (more e l)
    then have "split_char (CHR '','') (e @ '','' @ l) = e # split_char (CHR '','') l"
      using entry_no_comma [of lo hi e] by (auto simp: split_char_Cons_iff)
    then show ?case using more by (simp add: cron_item_iff [symmetric])
  qed
qed

lemma list_no_space: "cron_list lo hi l \<Longrightarrow> no_space l"
  using list_chars [of lo hi l] cron_chars_no_space by blast

lemma sequence_first: "cron_sequence bounds s \<Longrightarrow> s \<noteq> [] \<and> \<not> js_space (hd s) \<and> \<not> js_space (last s)"
proof (induction rule: cron_sequence.induct)
  case (one lo hi f)
  then show ?case using list_chars [of lo hi f] list_no_space [of lo hi f] by auto
next
  case (another lo hi f w bounds s)
  then show ?case using list_chars [of lo hi f] list_no_space [of lo hi f] by (auto simp: hd_append)
qed

lemma cron_fields_sequence:
  assumes "bounds \<noteq> []"
  shows "length (split_spaces s) = length bounds \<and> cron_fields bounds (split_spaces s) = Inr () \<longleftrightarrow> cron_sequence bounds s"
proof
  assume "length (split_spaces s) = length bounds \<and> cron_fields bounds (split_spaces s) = Inr ()"
  then show "cron_sequence bounds s" using assms
  proof (induction bounds arbitrary: s)
    case (Cons b bounds)
    obtain lo hi where b: "b = (lo, hi)" by fastforce
    obtain f fs where f: "split_spaces s = f # fs" by (meson neq_Nil_conv split_spaces_Nil)
    then have ok: "cron_list lo hi f" "cron_fields bounds fs = Inr ()" "length fs = length bounds"
      using Cons.prems b by (auto simp: bindE_eq_Inr cron_items_iff)
    from split_spaces_Cons [OF f] consider "fs = []" "s = f"
      | w rest where "s = f @ w @ rest" "w \<noteq> []" "list_all js_space w" "split_spaces rest = fs" by blast
    then show ?case
    proof cases
      case 1
      then show ?thesis using ok b cron_sequence.one by simp
    next
      case (2 w rest)
      have "bounds \<noteq> []" using 2(4) ok(3) by (metis length_0_conv split_spaces_Nil)
      then show ?thesis using Cons.IH [of rest] 2 ok b cron_sequence.another [of lo hi f w bounds rest] by simp
    qed
  qed simp
next
  assume "cron_sequence bounds s"
  then show "length (split_spaces s) = length bounds \<and> cron_fields bounds (split_spaces s) = Inr ()"
  proof induction
    case (one lo hi f)
    then have "split_spaces f = [f]" using list_no_space split_spaces_word by blast
    then show ?case using one cron_items_iff [THEN iffD2, OF one] by simp
  next
    case (another lo hi f w bounds s)
    then have "split_spaces (f @ w @ s) = f # split_spaces s"
      using split_spaces_append [OF list_no_space] sequence_first by blast
    then show ?case using another cron_items_iff [THEN iffD2, OF another(1)] by simp
  qed
qed

lemma cron_refused: "validateCronExpression v = Inl e \<Longrightarrow> e = ForesiftError WF_SCHEDULE_CRON_INVALID"
proof -
  have item: "cron_item lo hi i = Inl e \<Longrightarrow> e = ForesiftError WF_SCHEDULE_CRON_INVALID" for lo hi i e
    by (auto simp: cron_item_def cron_range_def cron_step_def parseCronValue_def bindE_eq_Inl split: if_splits list.splits)
  have items: "cron_items lo hi is = Inl e \<Longrightarrow> e = ForesiftError WF_SCHEDULE_CRON_INVALID" for lo hi "is" e
    by (induction "is") (auto simp: bindE_eq_Inl dest: item)
  have flds: "cron_fields b fs = Inl e \<Longrightarrow> e = ForesiftError WF_SCHEDULE_CRON_INVALID" for b fs e
    by (induction b fs rule: cron_fields.induct) (auto simp: bindE_eq_Inl dest: items)
  show "validateCronExpression v = Inl e \<Longrightarrow> e = ForesiftError WF_SCHEDULE_CRON_INVALID"
    by (auto simp: validateCronExpression_def Let_def bindE_eq_Inl split: jsval.splits if_splits dest: flds)
qed

lemma cron_accepts: "validateCronExpression (JsStr s) = Inr t \<longleftrightarrow> t = trim s \<and> cron_sequence CRON_FIELD_BOUNDS (trim s)"
proof -
  have len: "length CRON_FIELD_BOUNDS = 5" "CRON_FIELD_BOUNDS \<noteq> []" by (simp_all add: CRON_FIELD_BOUNDS_def)
  have "validateCronExpression (JsStr s) = Inr t \<longleftrightarrow> t = trim s \<and>
      (length (split_spaces (trim s)) = length CRON_FIELD_BOUNDS \<and> cron_fields CRON_FIELD_BOUNDS (split_spaces (trim s)) = Inr ())"
    by (auto simp: validateCronExpression_def Let_def bindE_eq_Inr len(1))
  then show ?thesis unfolding cron_fields_sequence [OF len(2)] .
qed

lemma cron_idem: "validateCronExpression v = Inr t \<Longrightarrow> validateCronExpression (JsStr t) = Inr t \<and> trim t = t"
proof -
  assume "validateCronExpression v = Inr t"
  then obtain s where t: "t = trim s" "cron_sequence CRON_FIELD_BOUNDS (trim s)"
    by (cases v) (simp_all add: cron_accepts, simp_all add: validateCronExpression_def)
  then have "trim t = t" using sequence_first trim_id by metis
  then show ?thesis using t by (simp add: cron_accepts)
qed



section \<open>Configurations\<close>

text \<open>
  The TypeScript types of a patch and of a configuration: policy, workload kind and shadow flag are
  members of their vocabularies.
\<close>

definition policy_value :: "jsval \<Rightarrow> bool" where
  "policy_value v \<longleftrightarrow> (\<exists>p. v = JsStr (concurrency_policy_text p))"

definition kind_value :: "jsval \<Rightarrow> bool" where
  "kind_value v \<longleftrightarrow> (\<exists>k. v = JsStr (workload_kind_text k))"

definition flag_value :: "jsval \<Rightarrow> bool" where
  "flag_value v \<longleftrightarrow> (\<exists>b. v = JsBool b)"

definition typed_patch :: "schedule_config_patch \<Rightarrow> bool" where
  "typed_patch p \<longleftrightarrow> (cp_concurrencyPolicy p = JsUndefined \<or> policy_value (cp_concurrencyPolicy p)) \<and>
     (cp_workloadKind p = JsUndefined \<or> kind_value (cp_workloadKind p)) \<and> (cp_shadow p = JsUndefined \<or> flag_value (cp_shadow p))"

definition typed_config :: "(string \<Rightarrow> bool) \<Rightarrow> resolved_schedule_config \<Rightarrow> bool" where
  "typed_config iana c \<longleftrightarrow> policy_value (rc_concurrencyPolicy c) \<and> kind_value (rc_workloadKind c) \<and> flag_value (rc_shadow c) \<and>
     rc_name c \<noteq> [] \<and> trim (rc_name c) = rc_name c \<and> rc_destination c \<noteq> [] \<and> trim (rc_destination c) = rc_destination c \<and>
     cron_sequence CRON_FIELD_BOUNDS (rc_cron c) \<and>
     trim (rc_timezone c) = rc_timezone c \<and> (rc_timezone c = ''UTC'' \<or> rc_timezone c = ''Etc/UTC'' \<or> rc_timezone c \<noteq> [] \<and> iana (rc_timezone c))"

lemma trim_idem: "trim (trim s) = trim s"
proof (cases "trim s = []")
  case True
  moreover have "trim [] = []" by (simp add: trim_def)
  ultimately show ?thesis by simp
next
  case False
  then show ?thesis using trim_ends [of s] trim_id [of "trim s"] by blast
qed

lemma requireText_ok: "sched_requireText v = Inr t \<Longrightarrow> t \<noteq> [] \<and> trim t = t"
  by (auto simp: sched_requireText_def blank_def trim_idem split: jsval.splits if_splits)

lemma requireText_id: "t \<noteq> [] \<Longrightarrow> trim t = t \<Longrightarrow> sched_requireText (JsStr t) = Inr t"
  by (simp add: sched_requireText_def blank_def)

lemma timezone_ok:
  "validateIanaTimezone iana v = Inr t \<Longrightarrow> trim t = t \<and> (t = ''UTC'' \<or> t = ''Etc/UTC'' \<or> t \<noteq> [] \<and> iana t)"
proof -
  assume ok: "validateIanaTimezone iana v = Inr t"
  then obtain s where "t = trim s" and "t = ''UTC'' \<or> t = ''Etc/UTC'' \<or> t \<noteq> [] \<and> iana t"
    by (auto simp: validateIanaTimezone_def blank_def Let_def split: jsval.splits if_splits)
  then show ?thesis by (simp add: trim_idem)
qed

lemma timezone_id:
  "trim t = t \<Longrightarrow> t = ''UTC'' \<or> t = ''Etc/UTC'' \<or> t \<noteq> [] \<and> iana t \<Longrightarrow> validateIanaTimezone iana (JsStr t) = Inr t"
  by (auto simp: validateIanaTimezone_def blank_def)

lemma coalesce_value [simp]:
  "policy_value v \<Longrightarrow> coalesce v w = v" "kind_value v \<Longrightarrow> coalesce v w = v" "flag_value v \<Longrightarrow> coalesce v w = v" "coalesce JsUndefined w = w"
  by (auto simp: policy_value_def kind_value_def flag_value_def coalesce_def)

lemma default_policy_typed: "kind_value v \<Longrightarrow> policy_value (default_policy_value v)"
proof -
  assume "kind_value v"
  then obtain k where v: "v = JsStr (workload_kind_text k)" by (auto simp: kind_value_def)
  have "default_policy_value v = JsStr (concurrency_policy_text (if k = CANDIDATE_RECHECK then QUEUE_AFTER_RUNNING else SKIP_IF_RUNNING))"
    by (cases k) (simp_all add: v default_policy_value_def)
  then show ?thesis unfolding policy_value_def by blast
qed

lemma kind_default: "kind_value (JsStr ''BROAD_SCAN'')" "flag_value (JsBool b)"
  by (auto simp: kind_value_def flag_value_def intro: exI [of _ BROAD_SCAN])

lemma typed_resolves:
  assumes "typed_config iana c"
  shows "resolveScheduleConfig iana (patch_of (config_json c)) None = Inr c"
    and "resolveScheduleConfig iana empty_patch (Some c) = Inr c"
    and "jsonb (config_json c) = config_json c"
proof -
  have t: "sched_requireText (JsStr (rc_name c)) = Inr (rc_name c)" "sched_requireText (JsStr (rc_destination c)) = Inr (rc_destination c)"
    "validateIanaTimezone iana (JsStr (rc_timezone c)) = Inr (rc_timezone c)"
    using assms requireText_id timezone_id unfolding typed_config_def by blast+
  have cron: "validateCronExpression (JsStr (rc_cron c)) = Inr (rc_cron c)"
    using assms sequence_first [of CRON_FIELD_BOUNDS "rc_cron c"] trim_id [of "rc_cron c"] by (simp add: cron_accepts typed_config_def)
  have v: "policy_value (rc_concurrencyPolicy c)" "kind_value (rc_workloadKind c)" "flag_value (rc_shadow c)"
    using assms by (simp_all add: typed_config_def)
  show j: "jsonb (config_json c) = config_json c"
    using v by (auto simp: config_json_def policy_value_def kind_value_def flag_value_def)
  have str: "coalesce (JsStr x) w = JsStr x" for x w by (simp add: coalesce_def)
  show "resolveScheduleConfig iana empty_patch (Some c) = Inr c"
    using t cron v by (simp add: resolveScheduleConfig_def empty_patch_def)
  show "resolveScheduleConfig iana (patch_of (config_json c)) None = Inr c"
    using t cron v by (simp add: resolveScheduleConfig_def patch_of_def config_json_def jsprop_def str)
qed

lemma resolve_typed:
  assumes "typed_patch p" and "case base of None \<Rightarrow> True | Some b \<Rightarrow> typed_config iana b"
    and "resolveScheduleConfig iana p base = Inr c"
  shows "typed_config iana c"
proof -
  let ?b = "\<lambda>f. case base of None \<Rightarrow> JsUndefined | Some b \<Rightarrow> f b"
  from assms(3) have
    n: "sched_requireText (coalesce (cp_name p) (?b (\<lambda>b. JsStr (rc_name b)))) = Inr (rc_name c)"
    and cr: "validateCronExpression (coalesce (cp_cron p) (?b (\<lambda>b. JsStr (rc_cron b)))) = Inr (rc_cron c)"
    and tz: "validateIanaTimezone iana (coalesce (cp_timezone p) (?b (\<lambda>b. JsStr (rc_timezone b)))) = Inr (rc_timezone c)"
    and d: "sched_requireText (coalesce (cp_destination p) (?b (\<lambda>b. JsStr (rc_destination b)))) = Inr (rc_destination c)"
    and k: "rc_workloadKind c = coalesce (cp_workloadKind p) (coalesce (?b rc_workloadKind) (JsStr ''BROAD_SCAN''))"
    and pol: "rc_concurrencyPolicy c = coalesce (cp_concurrencyPolicy p) (coalesce (?b rc_concurrencyPolicy) (default_policy_value (rc_workloadKind c)))"
    and sh: "rc_shadow c = coalesce (cp_shadow p) (coalesce (?b rc_shadow) (JsBool False))"
    by (auto simp: resolveScheduleConfig_def Let_def bindE_eq_Inr)
  have b: "?b f = JsUndefined \<or> (\<exists>b. typed_config iana b \<and> ?b f = f b)" for f using assms(2) by (cases base) auto
  have kind: "kind_value (rc_workloadKind c)"
    using assms(1) b [of rc_workloadKind] kind_default(1) unfolding k by (auto simp: typed_patch_def typed_config_def)
  have policy: "policy_value (rc_concurrencyPolicy c)"
    using assms(1) b [of rc_concurrencyPolicy] default_policy_typed [OF kind] unfolding pol by (auto simp: typed_patch_def typed_config_def)
  have flag: "flag_value (rc_shadow c)"
    using assms(1) b [of rc_shadow] kind_default(2) unfolding sh by (auto simp: typed_patch_def typed_config_def)
  have "cron_sequence CRON_FIELD_BOUNDS (rc_cron c)" using cron_idem [OF cr] cron_accepts by metis
  then show ?thesis
    using kind policy flag requireText_ok [OF n] requireText_ok [OF d] timezone_ok [OF tz] by (simp add: typed_config_def)
qed

text \<open>
  C38 (config_typed_roundtrip). Resolution is well typed and stable: a patch of the declared type over
  no base or a well-typed base resolves, if it resolves, to a well-typed configuration, trimmed
  and within the grammars. Such a configuration survives storage: read back from the version row it is
  the same configuration, resolving an empty patch over it changes nothing, and the content address of
  the stored object is that of the configuration.
\<close>

theorem config_typed_roundtrip:
  assumes "typed_patch p" and "case base of None \<Rightarrow> True | Some b \<Rightarrow> typed_config iana b"
    and "resolveScheduleConfig iana p base = Inr c" and "v_resolved_config v = jsonb (config_json c)"
  shows "typed_config iana c \<and> configFromVersion iana v = Inr c \<and> resolveScheduleConfig iana empty_patch (Some c) = Inr c \<and>
    canonicalJson (v_resolved_config v) = canonicalJson (config_json c)"
proof -
  have c: "typed_config iana c" using assms(1-3) by (rule resolve_typed)
  note r = typed_resolves [OF c]
  have "configFromVersion iana v = Inr c"
    unfolding configFromVersion_def assms(4) r(3) using r(1) by (simp add: config_json_def)
  then show ?thesis using c r(2,3) assms(4) by simp
qed

theorem config_typed_roundtrip_witness:
  "\<exists>c. resolveScheduleConfig (\<lambda>_. False) (empty_patch\<lparr>cp_name := JsStr '' a '', cp_cron := JsStr ''* * * * *'', cp_timezone := JsStr ''UTC'',
      cp_destination := JsStr ''d''\<rparr>) None = Inr c \<and> typed_config (\<lambda>_. False) c \<and> rc_name c = ''a''"
proof -
  let ?p = "empty_patch\<lparr>cp_name := JsStr '' a '', cp_cron := JsStr ''* * * * *'', cp_timezone := JsStr ''UTC'', cp_destination := JsStr ''d''\<rparr>"
  have t: "trim '' a '' = ''a''" "trim ''d'' = ''d''" "trim ''UTC'' = ''UTC''" "trim ''* * * * *'' = ''* * * * *''"
    by (simp_all add: trim_def js_space_def)
  have "split_spaces ''* * * * *'' = [''*'', ''*'', ''*'', ''*'', ''*'']" by (simp add: js_space_def)
  then have cron: "validateCronExpression (JsStr ''* * * * *'') = Inr ''* * * * *''"
    by (simp add: validateCronExpression_def t CRON_FIELD_BOUNDS_def cron_item_def cron_range_def)
  obtain c where c: "resolveScheduleConfig (\<lambda>_. False) ?p None = Inr c" "rc_name c = ''a''"
    by (simp add: resolveScheduleConfig_def empty_patch_def coalesce_def sched_requireText_def blank_def t
        validateIanaTimezone_def cron Let_def)
  have "typed_patch ?p" by (simp add: typed_patch_def empty_patch_def)
  then have "typed_config (\<lambda>_. False) c"
    using config_typed_roundtrip [of ?p "\<lambda>_. False" None c "\<lparr>v_version_id = [], v_schedule_id = [], v_config_hash = [],
      v_resolved_config = jsonb (config_json c), v_shadow = False, v_superseded_by = None, v_created_at = 0\<rparr>"] c by simp
  then show ?thesis using c by blast
qed

end
