(* ===== verification/RetryLoops.thy ===== *)
theory RetryLoops
  imports Retries
begin

text \<open>
  The loop of a caller that follows the retry plans of \<open>planAttempt\<close>: it ends, with a typed handoff to the
  dead-letter writer, as long as the caller draws its rate-limit waits from the budget it declares.
\<close>

section \<open>A caller that retries\<close>

text \<open>One failed attempt: its error class, the jitter draw and the context the caller passes.\<close>

type_synonym failure = "retry_error_class \<times> jsnum \<times> attempt_context"

text \<open>
  Attempt \<open>n\<close> fails with the first failure of the list. \<open>None\<close>: the list ended while the plan was to retry, so an
  attempt did not fail; \<open>Some (n, r)\<close>: after attempt \<open>n\<close> the loop ended with the plan or the error \<open>r\<close>.
\<close>

fun run_retries :: "int \<Rightarrow> failure list \<Rightarrow> (int \<times> attempt_plan res) option" where
  "run_retries n [] = None"
| "run_retries n ((c, random, ctx) # fs) =
     (case planAttempt c (Fin (of_int n)) random ctx of
        Inl e \<Rightarrow> Some (n, Inl e)
      | Inr p \<Rightarrow> (case nextAttempt p of None \<Rightarrow> Some (n, Inr p) | Some m \<Rightarrow> run_retries m fs))"

text \<open>
  The caller declares what is left of the budget \<open>b\<close>, or none, and every wait of a rate-limited attempt with
  a budget is at least a millisecond and is drawn from it.
\<close>

fun accounted :: "rat \<Rightarrow> failure list \<Rightarrow> bool" where
  "accounted b [] \<longleftrightarrow> True"
| "accounted b ((c, random, ctx) # fs) \<longleftrightarrow>
     (if c = RATE_LIMITED \<and> ctx_budgetRemainingMs ctx \<noteq> None
      then (case ctx_retryAfterMs ctx of
              Some (Fin w) \<Rightarrow> ctx_budgetRemainingMs ctx = Some (Fin b) \<and> 1 \<le> w \<and> accounted (b - w) fs
            | _ \<Rightarrow> False)
      else accounted b fs)"

lemma retry_step:
  assumes "planAttempt c (Fin (of_int n)) random ctx = Inr p" and "nextAttempt p = Some m"
  shows "m = n + 1 \<and> retry_allowed c n ctx"
proof -
  have "plan_wf c n ctx p" using planAttempt_ok_wf [OF assms(1)] by auto
  then have "pl_action p = RETRY \<and> m = n + 1" using assms(2) by (auto simp: plan_wf_def split: if_splits)
  then show ?thesis using planAttempt_ok_retry [OF assms(1)] by simp
qed

text \<open>A retry uses up an attempt below the fixed caps, or part of the budget.\<close>

lemma retry_allowed_cases:
  assumes "retry_allowed c n ctx"
  obtains (capped) "n < 5" and "c = RATE_LIMITED \<Longrightarrow> ctx_budgetRemainingMs ctx = None"
  | (budgeted) budget where "c = RATE_LIMITED" and "ctx_budgetRemainingMs ctx = Some budget"
      and "\<not> js_lt budget (case ctx_retryAfterMs ctx of None \<Rightarrow> Fin 0 | Some r \<Rightarrow> r)"
proof (cases "c = RATE_LIMITED")
  case True
  then show thesis using assms
    by (cases "ctx_budgetRemainingMs ctx") (auto simp: reset_fits_def Let_def RATE_LIMIT_DEFAULT_MAX_ATTEMPTS_def intro: capped budgeted)
next
  case False
  then show thesis using assms by (intro capped) (cases c; simp)+
qed

lemma floor_draw: "1 \<le> w \<Longrightarrow> w \<le> b \<Longrightarrow> nat \<lfloor>b - w :: rat\<rfloor> < nat \<lfloor>b\<rfloor>"
  by linarith

lemma run_retries_ends:
  assumes "1 \<le> n" and "0 \<le> b" and "accounted b fs" and "nat (5 - n) + 1 + nat \<lfloor>b\<rfloor> \<le> length fs"
  shows "\<exists>k r. run_retries n fs = Some (k, r) \<and> k \<le> n + int (nat (5 - n) + nat \<lfloor>b\<rfloor>) \<and>
    (case r of Inl e \<Rightarrow> e = ForesiftError WF_RETRY_POLICY_INVALID | Inr p \<Rightarrow> exhausted p \<and> map_option ho_attempts (handoff p) = Some k)"
  using assms
proof (induction fs arbitrary: n b)
  case (Cons f fs)
  obtain c random ctx where f: "f = (c, random, ctx)" by (cases f) auto
  show ?case
  proof (cases "planAttempt c (Fin (of_int n)) random ctx")
    case (Inl e)
    then show ?thesis using planAttempt_error [of c "Fin (of_int n)" random ctx e] by (auto simp: f)
  next
    case (Inr p)
    show ?thesis
    proof (cases "nextAttempt p")
      case None
      have "plan_wf c n ctx p" using planAttempt_ok_wf [OF Inr] by auto
      then show ?thesis using None Inr by (auto simp: f plan_wf_def split: if_splits)
    next
      case (Some m)
      have m: "m = n + 1" "retry_allowed c n ctx" using retry_step [OF Inr Some] by auto
      have step: "run_retries n (f # fs) = run_retries (n + 1) fs" using Inr Some m(1) by (simp add: f)
      from m(2) show ?thesis
      proof (cases rule: retry_allowed_cases)
        case capped
        have "accounted b fs" using Cons.prems(3) capped(2) by (auto simp: f split: if_splits)
        moreover have "nat (5 - (n + 1)) + 1 + nat \<lfloor>b\<rfloor> \<le> length fs" using Cons.prems(4) capped(1) by simp
        moreover have "nat (5 - n) = Suc (nat (5 - (n + 1)))" using capped(1) by simp
        ultimately show ?thesis using Cons.IH [of "n + 1" b] Cons.prems(1,2) unfolding step by fastforce
      next
        case (budgeted budget)
        then obtain w where w: "ctx_retryAfterMs ctx = Some (Fin w)" "budget = Fin b" "1 \<le> w" "accounted (b - w) fs"
          using Cons.prems(3) by (auto simp: f split: option.splits jsnum.splits)
        have b: "w \<le> b" using budgeted(3) w by simp
        have drawn: "nat \<lfloor>b - w\<rfloor> < nat \<lfloor>b\<rfloor>" using floor_draw [OF w(3) b] .
        have "nat (5 - (n + 1)) + 1 + nat \<lfloor>b - w\<rfloor> \<le> length fs" using Cons.prems(4) drawn by (simp only: list.size)
        then obtain k r where "run_retries (n + 1) fs = Some (k, r)" and k: "k \<le> n + 1 + int (nat (5 - (n + 1)) + nat \<lfloor>b - w\<rfloor>)"
          and "case r of Inl e \<Rightarrow> e = ForesiftError WF_RETRY_POLICY_INVALID
            | Inr p \<Rightarrow> exhausted p \<and> map_option ho_attempts (handoff p) = Some k"
          using Cons.IH [of "n + 1" "b - w", OF _ _ w(4)] Cons.prems(1) b by auto
        moreover have "k \<le> n + int (nat (5 - n) + nat \<lfloor>b\<rfloor>)" using k drawn by linarith
        ultimately show ?thesis unfolding step by blast
      qed
    qed
  qed
qed simp



text \<open>
  Without the accounting there is no end: a rate-limited attempt with a declared budget and no advertised reset is
  planned again at once, whatever its number.
\<close>

lemma zero_reset_never_exhausts:
  assumes "1 \<le> n" and "ctx_retryAfterMs ctx \<in> {None, Some (Fin 0)}" and "ctx_budgetRemainingMs ctx = Some (Fin budget)" and "0 \<le> budget"
  shows "\<exists>p. planAttempt RATE_LIMITED (Fin (of_int n)) random ctx = Inr p \<and> pl_action p = RETRY \<and> delayMs p = Fin 0"
  using assms by (auto simp: planAttempt_nextAttemptPlan nextAttemptPlan_def retryAfterReset_def Let_def retryPlan_def RATE_LIMIT_MAX_DELAY_MS_def)

end
