(* ===== verification/SchedulerPort.thy ===== *)
theory SchedulerPort
  imports ScheduleConfig
begin

text \<open>
  The seam to the external scheduler (packages/workflow-runtime/src/scheduler-port.ts): the port, the
  in-process adapter, the adapter over an injected transport, and the verification of an inbound
  delivery. A port acts on a state of any kind \<open>'s\<close>; the transport, the HMAC and \<open>Date.parse\<close> of
  arbitrary texts are parameters.
\<close>

section \<open>Schedules of the scheduler\<close>

record scheduler_schedule =
  ss_externalId :: string
  ss_scheduleId :: string
  ss_cron :: string
  ss_timezone :: string
  ss_paused :: bool
  ss_destination :: string

record scheduler_schedule_input =
  si_scheduleId :: string
  si_cron :: string
  si_timezone :: string
  si_paused :: bool
  si_destination :: string

record 's scheduler_port_ops =
  pt_create :: "scheduler_schedule_input \<Rightarrow> ('s, scheduler_schedule) prog"
  pt_update :: "string \<Rightarrow> scheduler_schedule_input \<Rightarrow> ('s, scheduler_schedule) prog"
  pt_delete :: "string \<Rightarrow> ('s, unit) prog"
  pt_get :: "string \<Rightarrow> ('s, scheduler_schedule option) prog"
  pt_list :: "('s, scheduler_schedule list) prog"

abbreviation scheduler_missing :: "'a res" where
  "scheduler_missing \<equiv> Inl (ForesiftError WF_SCHEDULER_NOT_FOUND)"

definition requireNonEmpty :: "jsval \<Rightarrow> string res" where
  "requireNonEmpty v = (case v of JsStr s \<Rightarrow> if blank s then scheduler_missing else Inr s | _ \<Rightarrow> scheduler_missing)"

definition parseSchedulerSchedule :: "jsval \<Rightarrow> scheduler_schedule res" where
  "parseSchedulerSchedule v =
     (if \<not> (case v of JsObj _ \<Rightarrow> True | JsArr _ \<Rightarrow> True | _ \<Rightarrow> False) then scheduler_missing
      else case jsprop v ''paused'' of
        JsBool paused \<Rightarrow>
          bindE (requireNonEmpty (jsprop v ''externalId'')) (\<lambda>externalId.
          bindE (requireNonEmpty (jsprop v ''scheduleId'')) (\<lambda>scheduleId.
          bindE (requireNonEmpty (jsprop v ''cron'')) (\<lambda>cron.
          bindE (requireNonEmpty (jsprop v ''timezone'')) (\<lambda>timezone.
          bindE (requireNonEmpty (jsprop v ''destination'')) (\<lambda>destination.
          Inr \<lparr>ss_externalId = externalId, ss_scheduleId = scheduleId, ss_cron = cron, ss_timezone = timezone,
               ss_paused = paused, ss_destination = destination\<rparr>)))))
      | _ \<Rightarrow> scheduler_missing)"

definition localExternalId :: "string \<Rightarrow> string res" where
  "localExternalId scheduleId = bindE (requireNonEmpty (JsStr scheduleId)) (\<lambda>s. Inr (''local:'' @ s))"

definition schedule_entry :: "string \<Rightarrow> scheduler_schedule_input \<Rightarrow> scheduler_schedule" where
  "schedule_entry externalId i = \<lparr>ss_externalId = externalId, ss_scheduleId = si_scheduleId i, ss_cron = si_cron i,
     ss_timezone = si_timezone i, ss_paused = si_paused i, ss_destination = si_destination i\<rparr>"

section \<open>The in-process adapter\<close>

text \<open>
  \<open>Map<string, SchedulerSchedule>\<close> is the list of its entries in insertion order; \<open>set\<close> of a known
  key keeps its place.
\<close>

type_synonym local_scheduler = "(string \<times> scheduler_schedule) list"

fun map_set :: "string \<Rightarrow> 'v \<Rightarrow> (string \<times> 'v) list \<Rightarrow> (string \<times> 'v) list" where
  "map_set k v [] = [(k, v)]"
| "map_set k v ((k', v') # m) = (if k' = k then (k, v) # m else (k', v') # map_set k v m)"

definition map_delete :: "string \<Rightarrow> (string \<times> 'v) list \<Rightarrow> (string \<times> 'v) list" where
  "map_delete k m = filter (\<lambda>(k', _). k' \<noteq> k) m"

definition local_create :: "scheduler_schedule_input \<Rightarrow> (local_scheduler, scheduler_schedule) prog" where
  "local_create i =
     bindP (liftE (localExternalId (si_scheduleId i))) (\<lambda>externalId.
     bindP (writes (map_set externalId (schedule_entry externalId i))) (\<lambda>_.
     ret (schedule_entry externalId i)))"

definition local_update :: "string \<Rightarrow> scheduler_schedule_input \<Rightarrow> (local_scheduler, scheduler_schedule) prog" where
  "local_update externalId i =
     bindP (reads (\<lambda>m. map_of m externalId)) (\<lambda>found.
     if found = None then raise (ForesiftError WF_SCHEDULER_NOT_FOUND)
     else bindP (writes (map_set externalId (schedule_entry externalId i))) (\<lambda>_.
          ret (schedule_entry externalId i)))"

definition local_delete :: "string \<Rightarrow> (local_scheduler, unit) prog" where
  "local_delete externalId =
     bindP (reads (\<lambda>m. map_of m externalId)) (\<lambda>found.
     if found = None then raise (ForesiftError WF_SCHEDULER_NOT_FOUND)
     else writes (map_delete externalId))"

definition local_get :: "string \<Rightarrow> (local_scheduler, scheduler_schedule option) prog" where
  "local_get externalId = reads (\<lambda>m. map_of m externalId)"

definition local_list :: "(local_scheduler, scheduler_schedule list) prog" where
  "local_list = reads (\<lambda>m. sort_key ss_externalId (map snd m))"

definition local_size :: "local_scheduler \<Rightarrow> nat" where
  "local_size m = length m"

definition LocalSchedulerAdapter :: "local_scheduler scheduler_port_ops" where
  "LocalSchedulerAdapter = \<lparr>pt_create = local_create, pt_update = local_update, pt_delete = local_delete,
     pt_get = local_get, pt_list = local_list\<rparr>"

section \<open>The adapter over a transport\<close>

datatype http_method = HTTP_GET | HTTP_POST | HTTP_PATCH | HTTP_DELETE

record transport_request =
  xq_method :: http_method
  xq_path :: string
  xq_body :: "jsval option"

record transport_response =
  xr_status :: jsnum
  xr_body :: jsval

type_synonym 'w transport = "transport_request \<Rightarrow> ('w, transport_response) prog"

text \<open>
  \<open>encodeURIComponent\<close> on code units up to 255: the unreserved characters stand for themselves,
  every other one for the percent escapes of its UTF-8 bytes.
\<close>

definition uri_unreserved :: "char \<Rightarrow> bool" where
  "uri_unreserved c \<longleftrightarrow> (let n = of_char c :: nat in
     48 \<le> n \<and> n \<le> 57 \<or> 65 \<le> n \<and> n \<le> 90 \<or> 97 \<le> n \<and> n \<le> 122 \<or> n \<in> {33, 39, 40, 41, 42, 45, 46, 95, 126})"

definition hex_upper :: "nat \<Rightarrow> char" where
  "hex_upper n = (if n < 10 then char_of (48 + n) else char_of (55 + n))"

definition percent :: "nat \<Rightarrow> string" where
  "percent n = [CHR ''%'', hex_upper (n div 16), hex_upper (n mod 16)]"

definition encode_char :: "char \<Rightarrow> string" where
  "encode_char c = (let n = of_char c :: nat in
     if uri_unreserved c then [c]
     else if n < 128 then percent n
     else percent (192 + n div 64) @ percent (128 + n mod 64))"

definition encodeURIComponent :: "string \<Rightarrow> string" where
  "encodeURIComponent s = concat (map encode_char s)"

definition input_json :: "scheduler_schedule_input \<Rightarrow> jsval" where
  "input_json i = JsObj [(''scheduleId'', JsStr (si_scheduleId i)), (''cron'', JsStr (si_cron i)),
     (''timezone'', JsStr (si_timezone i)), (''paused'', JsBool (si_paused i)), (''destination'', JsStr (si_destination i))]"

definition DEFAULT_BASE_PATH :: string where
  "DEFAULT_BASE_PATH = ''/v2/schedules''"

abbreviation transport_failed :: "('w, 'a) prog" where
  "transport_failed \<equiv> raise (ForesiftError WF_SCHEDULER_TRANSPORT_FAILED)"

definition call :: "'w transport \<Rightarrow> http_method \<Rightarrow> string \<Rightarrow> jsval option \<Rightarrow> ('w, transport_response) prog" where
  "call transport meth path body =
     tryP (transport \<lparr>xq_method = meth, xq_path = path, xq_body = body\<rparr>) (\<lambda>_. transport_failed)"

text \<open>\<open>status < 200 || status >= 300\<close>\<close>

definition rejected :: "transport_response \<Rightarrow> bool" where
  "rejected response \<longleftrightarrow> js_lt (xr_status response) (Fin 200) \<or> js_le (Fin 300) (xr_status response)"

definition callSchedule ::
  "'w transport \<Rightarrow> http_method \<Rightarrow> string \<Rightarrow> jsval option \<Rightarrow> ('w, scheduler_schedule) prog" where
  "callSchedule transport meth path body =
     bindP (call transport meth path body) (\<lambda>response.
     if rejected response then transport_failed
     else liftE (parseSchedulerSchedule (xr_body response)))"

definition item_path :: "string \<Rightarrow> string \<Rightarrow> string" where
  "item_path basePath externalId = basePath @ ''/'' @ encodeURIComponent externalId"

definition qstash_create :: "'w transport \<Rightarrow> string \<Rightarrow> scheduler_schedule_input \<Rightarrow> ('w, scheduler_schedule) prog" where
  "qstash_create transport basePath i = callSchedule transport HTTP_POST basePath (Some (input_json i))"

definition qstash_update ::
  "'w transport \<Rightarrow> string \<Rightarrow> string \<Rightarrow> scheduler_schedule_input \<Rightarrow> ('w, scheduler_schedule) prog" where
  "qstash_update transport basePath externalId i =
     callSchedule transport HTTP_PATCH (item_path basePath externalId) (Some (input_json i))"

definition qstash_delete :: "'w transport \<Rightarrow> string \<Rightarrow> string \<Rightarrow> ('w, unit) prog" where
  "qstash_delete transport basePath externalId =
     bindP (call transport HTTP_DELETE (item_path basePath externalId) None) (\<lambda>response.
     if rejected response then transport_failed else ret ())"

definition qstash_get :: "'w transport \<Rightarrow> string \<Rightarrow> string \<Rightarrow> ('w, scheduler_schedule option) prog" where
  "qstash_get transport basePath externalId =
     bindP (call transport HTTP_GET (item_path basePath externalId) None) (\<lambda>response.
     if js_eq (xr_status response) (Fin 404) then ret None
     else if rejected response then transport_failed
     else bindP (liftE (parseSchedulerSchedule (xr_body response))) (\<lambda>schedule. ret (Some schedule)))"

definition list_rows :: "jsval \<Rightarrow> jsval list option" where
  "list_rows body =
     (case body of
        JsArr rows \<Rightarrow> Some rows
      | JsObj _ \<Rightarrow> (case jsprop body ''schedules'' of JsArr rows \<Rightarrow> Some rows | _ \<Rightarrow> None)
      | _ \<Rightarrow> None)"

definition qstash_list :: "'w transport \<Rightarrow> string \<Rightarrow> ('w, scheduler_schedule list) prog" where
  "qstash_list transport basePath =
     bindP (call transport HTTP_GET basePath None) (\<lambda>response.
     if rejected response then transport_failed
     else case list_rows (xr_body response) of
       None \<Rightarrow> transport_failed
     | Some rows \<Rightarrow> liftE (map_rows rows parseSchedulerSchedule))"

definition QStashSchedulerAdapter :: "'w transport \<Rightarrow> string option \<Rightarrow> 'w scheduler_port_ops" where
  "QStashSchedulerAdapter transport given =
     (let basePath = (case given of Some p \<Rightarrow> p | None \<Rightarrow> DEFAULT_BASE_PATH)
      in \<lparr>pt_create = qstash_create transport basePath, pt_update = qstash_update transport basePath,
          pt_delete = qstash_delete transport basePath, pt_get = qstash_get transport basePath,
          pt_list = qstash_list transport basePath\<rparr>)"

section \<open>The delivery trust boundary\<close>

record delivery_mac_input =
  dm_payload :: string
  dm_secret :: string
  dm_deliveredAt :: string
  dm_messageId :: string

record delivery_verification_input = delivery_mac_input +
  dm_signature :: string
  dm_now :: string
  dm_replayWindowMs :: jsnum
  dm_seenMessageIds :: "string list option"

record delivery_verification =
  sv_messageId :: string
  sv_deliveredAt :: string
  sv_mac :: string

definition newline :: char where
  "newline = char_of (10 :: nat)"

definition deliveryMacMessage :: "string \<Rightarrow> string \<Rightarrow> string \<Rightarrow> string" where
  "deliveryMacMessage messageId deliveredAt payload = messageId @ [newline] @ deliveredAt @ [newline] @ payload"

text \<open>\<open>hmac key message\<close>: the HMAC-SHA256 in lowercase hex.\<close>

definition computeDeliveryMac :: "(string \<Rightarrow> string \<Rightarrow> string) \<Rightarrow> 'a delivery_mac_input_scheme \<Rightarrow> string" where
  "computeDeliveryMac hmac input =
     hmac (dm_secret input) (deliveryMacMessage (dm_messageId input) (dm_deliveredAt input) (dm_payload input))"

definition normalizeSignature :: "string \<Rightarrow> string" where
  "normalizeSignature signature =
     (let v = toLowerCase (trim signature)
      in if take 7 v = ''sha256='' then drop 7 v else v)"

definition parseInstant :: "(string \<Rightarrow> iso) \<Rightarrow> string \<Rightarrow> instant res" where
  "parseInstant date v =
     (if blank v then Inl (ForesiftError WF_SCHEDULER_TIMESTAMP_INVALID)
      else case date v of None \<Rightarrow> Inl (ForesiftError WF_SCHEDULER_TIMESTAMP_INVALID) | Some t \<Rightarrow> Inr t)"

definition wasSeen :: "string list option \<Rightarrow> string \<Rightarrow> bool" where
  "wasSeen seen messageId = (case seen of None \<Rightarrow> False | Some ids \<Rightarrow> messageId \<in> set ids)"

definition verifySchedulerDelivery ::
  "(string \<Rightarrow> string \<Rightarrow> string) \<Rightarrow> (string \<Rightarrow> iso) \<Rightarrow> delivery_verification_input \<Rightarrow> delivery_verification res" where
  "verifySchedulerDelivery hmac date input =
     (if dm_payload input = [] then Inl (ForesiftError WF_SCHEDULER_SIGNATURE_INVALID)
      else if dm_secret input = [] then Inl (ForesiftError WF_SCHEDULER_SIGNATURE_INVALID)
      else if blank (dm_messageId input) then Inl (ForesiftError WF_SCHEDULER_SIGNATURE_INVALID)
      else if blank (dm_signature input) then Inl (ForesiftError WF_SCHEDULER_SIGNATURE_INVALID)
      else if \<not> js_isFinite (dm_replayWindowMs input) \<or> js_lt (dm_replayWindowMs input) (Fin 0)
        then Inl (ForesiftError WF_SCHEDULER_TIMESTAMP_INVALID)
      else bindE (parseInstant date (dm_deliveredAt input)) (\<lambda>deliveredAtMs.
           bindE (parseInstant date (dm_now input)) (\<lambda>nowMs.
           let expected = computeDeliveryMac hmac input; presented = normalizeSignature (dm_signature input)
           in if presented \<noteq> expected then Inl (ForesiftError WF_SCHEDULER_SIGNATURE_INVALID)
              else if js_lt (dm_replayWindowMs input) (js_Number \<bar>nowMs - deliveredAtMs\<bar>)
                then Inl (ForesiftError WF_SCHEDULER_TIMESTAMP_OUT_OF_WINDOW)
              else if wasSeen (dm_seenMessageIds input) (dm_messageId input)
                then Inl (ForesiftError WF_SCHEDULER_DELIVERY_REPLAYED)
              else Inr \<lparr>sv_messageId = dm_messageId input, sv_deliveredAt = dm_deliveredAt input, sv_mac = expected\<rparr>)))"

end
