(* ===== verification/SchedulerLaws.thy ===== *)
theory SchedulerLaws
  imports SchedulerPort
begin

text \<open>
  Laws of the scheduler seam: the contract of a port as a locale, the in-process adapter as an
  implementation of an abstract table, the adapter over a transport as fail-closed for every
  transport, the item paths as an injective encoding, and what a delivery MAC binds.
\<close>

section \<open>The contract of a port\<close>

text \<open>\<open>view s\<close>: the schedules the scheduler holds in state \<open>s\<close>, by external id.\<close>

locale scheduler_port =
  fixes ops :: "'s scheduler_port_ops"
    and invar :: "'s \<Rightarrow> bool"
    and view :: "'s \<Rightarrow> string \<Rightarrow> scheduler_schedule option"
  assumes view_key: "invar s \<Longrightarrow> view s k = Some e \<Longrightarrow> ss_externalId e = k"
    and list_run: "invar s \<Longrightarrow> \<exists>ls. pt_list ops s = (Inr ls, s) \<and> set ls = ran (view s) \<and> distinct (map ss_externalId ls)"
    and update_known: "invar s \<Longrightarrow> view s k \<noteq> None \<Longrightarrow>
      \<exists>t. pt_update ops k i s = (Inr (schedule_entry k i), t) \<and> invar t \<and> view t = (view s)(k \<mapsto> schedule_entry k i)"
    and update_unknown: "invar s \<Longrightarrow> view s k = None \<Longrightarrow>
      pt_update ops k i s = (Inl (ForesiftError WF_SCHEDULER_NOT_FOUND), s)"
begin

lemma update_cases:
  assumes "invar s" and "pt_update ops k i s = (r, t)"
  obtains (unknown) "view s k = None" and "t = s" and "r = Inl (ForesiftError WF_SCHEDULER_NOT_FOUND)"
  | (known) e where "view s k = Some e" and "r = Inr (schedule_entry k i)" and "invar t"
      and "view t = (view s)(k \<mapsto> schedule_entry k i)"
proof (cases "view s k")
  case None
  show thesis using update_unknown [OF assms(1) None, of i] None assms(2) by (intro unknown) simp_all
next
  case (Some e)
  then obtain u where u: "pt_update ops k i s = (Inr (schedule_entry k i), u)" "invar u" "view u = (view s)(k \<mapsto> schedule_entry k i)"
    using update_known [OF assms(1), of k i] by auto
  show thesis using Some u assms(2) by (intro known [of e]) simp_all
qed

lemma listed:
  assumes "invar s" and "pt_list ops s = (r, t)"
  obtains ls where "r = Inr ls" and "t = s" and "set ls = ran (view s)" and "distinct (map ss_externalId ls)"
    and "\<And>e. e \<in> set ls \<longleftrightarrow> view s (ss_externalId e) = Some e"
proof -
  obtain ls where ls: "pt_list ops s = (Inr ls, s)" "set ls = ran (view s)" "distinct (map ss_externalId ls)"
    using list_run [OF assms(1)] by blast
  have "e \<in> set ls \<longleftrightarrow> view s (ss_externalId e) = Some e" for e
    using view_key [OF assms(1)] unfolding ls(2) by (auto simp: ran_def)
  then show thesis using that ls assms(2) by simp
qed

end

section \<open>The in-process adapter\<close>

lemma map_of_map_set [simp]: "map_of (map_set k v m) = (map_of m)(k \<mapsto> v)"
  by (induction m) auto

lemma keys_map_set: "map fst (map_set k v m) = (if k \<in> fst ` set m then map fst m else map fst m @ [k])"
  by (induction k v m rule: map_set.induct) auto

lemma distinct_map_set: "distinct (map fst m) \<Longrightarrow> distinct (map fst (map_set k v m))"
  by (simp add: keys_map_set)

lemma map_of_map_delete [simp]: "map_of (map_delete k m) = (map_of m)(k := None)"
  by (induction m) (auto simp: map_delete_def)

lemma distinct_map_delete: "distinct (map fst m) \<Longrightarrow> distinct (map fst (map_delete k m))"
  by (induction m) (auto simp: map_delete_def)

definition local_inv :: "local_scheduler \<Rightarrow> bool" where
  "local_inv m \<longleftrightarrow> distinct (map fst m) \<and> (\<forall>k e. map_of m k = Some e \<longrightarrow> ss_externalId e = k)"

lemma local_invD: "local_inv m \<Longrightarrow> map_of m k = Some e \<Longrightarrow> ss_externalId e = k"
  by (simp add: local_inv_def)

lemma local_inv_empty [simp]: "local_inv []"
  by (simp add: local_inv_def)

lemma local_inv_set: "local_inv m \<Longrightarrow> local_inv (map_set k (schedule_entry k i) m)"
  by (simp add: local_inv_def distinct_map_set schedule_entry_def)

lemma local_inv_delete: "local_inv m \<Longrightarrow> local_inv (map_delete k m)"
  by (simp add: local_inv_def distinct_map_delete)

lemma local_entries: "local_inv m \<Longrightarrow> map fst m = map (ss_externalId \<circ> snd) m"
  by (auto simp: local_inv_def)

lemma local_listing:
  assumes "local_inv m"
  shows "sort_key ss_externalId (map snd m) = map (the \<circ> map_of m) (sorted_list_of_set (dom (map_of m)))"
proof -
  let ?ls = "sort_key ss_externalId (map snd m)"
  have keys: "map fst m = map ss_externalId (map snd m)" using local_entries [OF assms] by simp
  have "set (map ss_externalId ?ls) = dom (map_of m)" unfolding dom_map_of_conv_image_fst
    using arg_cong [OF keys, of set] by (simp add: image_image)
  moreover have "distinct (map ss_externalId ?ls)"
    using assms keys by (metis distinct_map local_inv_def mset_eq_imp_distinct_iff mset_map mset_sort)
  ultimately have "map ss_externalId ?ls = sorted_list_of_set (dom (map_of m))"
    by (metis sorted_list_of_set.idem_if_sorted_distinct sorted_sort_key)
  moreover have "the (map_of m (ss_externalId e)) = e" if "e \<in> set ?ls" for e
  proof -
    from that obtain k where "(k, e) \<in> set m" by auto
    then have "map_of m k = Some e" using assms by (simp add: local_inv_def)
    then show ?thesis using local_invD [OF assms] by simp
  qed
  then have "map (\<lambda>e. the (map_of m (ss_externalId e))) ?ls = ?ls" by (rule map_idI)
  then have "map (the \<circ> map_of m) (map ss_externalId ?ls) = ?ls" by (simp add: comp_def)
  ultimately show ?thesis by metis
qed

interpretation local_port: scheduler_port LocalSchedulerAdapter local_inv map_of
proof
  fix s :: local_scheduler and k i e
  assume s: "local_inv s"
  show "map_of s k = Some e \<Longrightarrow> ss_externalId e = k" using s by (rule local_invD)
  have "distinct (map fst s)" using s by (simp add: local_inv_def)
  then have d: "distinct (map (ss_externalId \<circ> snd) s)" using local_entries [OF s] by simp
  then have "distinct (map ss_externalId (sort_key ss_externalId (map snd s)))"
    by (metis (no_types, lifting) distinct_map list.map_comp mset_eq_imp_distinct_iff mset_map mset_sort)
  moreover have "set (map snd s) = ran (map_of s)"
    using s by (force simp: ran_def local_inv_def map_of_eq_Some_iff)
  ultimately show "\<exists>ls. pt_list LocalSchedulerAdapter s = (Inr ls, s) \<and> set ls = ran (map_of s) \<and> distinct (map ss_externalId ls)"
    by (simp add: LocalSchedulerAdapter_def local_list_def)
  show "map_of s k \<noteq> None \<Longrightarrow> \<exists>t. pt_update LocalSchedulerAdapter k i s = (Inr (schedule_entry k i), t) \<and> local_inv t \<and>
      map_of t = (map_of s)(k \<mapsto> schedule_entry k i)"
    using s by (auto simp: LocalSchedulerAdapter_def local_update_def local_inv_set)
  show "map_of s k = None \<Longrightarrow> pt_update LocalSchedulerAdapter k i s = (Inl (ForesiftError WF_SCHEDULER_NOT_FOUND), s)"
    by (simp add: LocalSchedulerAdapter_def local_update_def)
qed

text \<open>Histories of calls, on a port and on the abstract table.\<close>

datatype port_call =
    Create scheduler_schedule_input
  | Update string scheduler_schedule_input
  | Delete string
  | Get string
  | List

datatype port_answer =
    Scheduled scheduler_schedule
  | Removed
  | Found "scheduler_schedule option"
  | Listed "scheduler_schedule list"

fun port_run :: "'s scheduler_port_ops \<Rightarrow> port_call \<Rightarrow> ('s, port_answer) prog" where
  "port_run ops (Create i) = bindP (pt_create ops i) (\<lambda>e. ret (Scheduled e))"
| "port_run ops (Update k i) = bindP (pt_update ops k i) (\<lambda>e. ret (Scheduled e))"
| "port_run ops (Delete k) = bindP (pt_delete ops k) (\<lambda>_. ret Removed)"
| "port_run ops (Get k) = bindP (pt_get ops k) (\<lambda>e. ret (Found e))"
| "port_run ops List = bindP (pt_list ops) (\<lambda>ls. ret (Listed ls))"

fun table_run :: "port_call \<Rightarrow> (string \<Rightarrow> scheduler_schedule option, port_answer) prog" where
  "table_run (Create i) t =
     (if blank (si_scheduleId i) then (Inl (ForesiftError WF_SCHEDULER_NOT_FOUND), t)
      else let k = ''local:'' @ si_scheduleId i
           in (Inr (Scheduled (schedule_entry k i)), t(k \<mapsto> schedule_entry k i)))"
| "table_run (Update k i) t =
     (if t k = None then (Inl (ForesiftError WF_SCHEDULER_NOT_FOUND), t)
      else (Inr (Scheduled (schedule_entry k i)), t(k \<mapsto> schedule_entry k i)))"
| "table_run (Delete k) t =
     (if t k = None then (Inl (ForesiftError WF_SCHEDULER_NOT_FOUND), t) else (Inr Removed, t(k := None)))"
| "table_run (Get k) t = (Inr (Found (t k)), t)"
| "table_run List t = (Inr (Listed (map (the \<circ> t) (sorted_list_of_set (dom t)))), t)"

fun answers :: "('c \<Rightarrow> ('s, 'a) prog) \<Rightarrow> 'c list \<Rightarrow> 's \<Rightarrow> 'a res list \<times> 's" where
  "answers run [] s = ([], s)"
| "answers run (c # cs) s = (let (a, t) = run c s; (as, u) = answers run cs t in (a # as, u))"

lemma port_simulates:
  assumes "local_inv m" and "port_run LocalSchedulerAdapter c m = (a, m')"
  shows "local_inv m'" and "table_run c (map_of m) = (a, map_of m')"
  using assms
  by (cases c; auto simp: LocalSchedulerAdapter_def local_create_def local_update_def local_delete_def local_get_def
      local_list_def localExternalId_def requireNonEmpty_def bindP_run local_inv_set local_inv_delete
      local_listing Let_def split: if_splits)+

text \<open>
  The in-process scheduler implements the abstract table of schedules by
  external id: started empty, every history of creates, updates, deletes, lookups and listings gives the
  very answers of the table, refusals included, and leaves the contents of the table.
\<close>

theorem local_scheduler_refines:
  "(case answers (port_run LocalSchedulerAdapter) calls [] of (as, m) \<Rightarrow>
      answers table_run calls Map.empty = (as, map_of m))"
proof -
  have "local_inv m \<Longrightarrow> (case answers (port_run LocalSchedulerAdapter) calls m of (as, m') \<Rightarrow>
      answers table_run calls (map_of m) = (as, map_of m'))" for m
  proof (induction calls arbitrary: m)
    case (Cons c cs)
    obtain a m1 where c: "port_run LocalSchedulerAdapter c m = (a, m1)" by fastforce
    note sim = port_simulates [OF Cons.prems c]
    show ?case using Cons.IH [OF sim(1)] by (simp add: c sim(2) split: prod.splits)
  qed simp
  from this [OF local_inv_empty] show ?thesis by simp
qed

section \<open>The adapter over a transport\<close>

definition schedule_wf :: "scheduler_schedule \<Rightarrow> bool" where
  "schedule_wf e \<longleftrightarrow> \<not> blank (ss_externalId e) \<and> \<not> blank (ss_scheduleId e) \<and> \<not> blank (ss_cron e) \<and>
     \<not> blank (ss_timezone e) \<and> \<not> blank (ss_destination e)"

definition scheduler_refusal :: "js_error \<Rightarrow> bool" where
  "scheduler_refusal e \<longleftrightarrow> e = ForesiftError WF_SCHEDULER_TRANSPORT_FAILED \<or> e = ForesiftError WF_SCHEDULER_NOT_FOUND"

text \<open>A refusal of the seam, or a result all of whose schedules are well formed.\<close>

definition sound_answer :: "('a \<Rightarrow> scheduler_schedule set) \<Rightarrow> 'a res \<Rightarrow> bool" where
  "sound_answer f r \<longleftrightarrow> (case r of Inl e \<Rightarrow> scheduler_refusal e | Inr x \<Rightarrow> (\<forall>s \<in> f x. schedule_wf s))"

lemma requireNonEmpty_sound:
  "requireNonEmpty v = Inr s \<Longrightarrow> \<not> blank s" "requireNonEmpty v = Inl e \<Longrightarrow> e = ForesiftError WF_SCHEDULER_NOT_FOUND"
  by (auto simp: requireNonEmpty_def split: jsval.splits if_splits)

lemma parse_sound: "sound_answer (\<lambda>e. {e}) (parseSchedulerSchedule v)"
proof (cases "parseSchedulerSchedule v")
  case (Inl e)
  then have "e = ForesiftError WF_SCHEDULER_NOT_FOUND"
    by (auto simp: parseSchedulerSchedule_def bindE_eq_Inl split: if_splits jsval.splits dest: requireNonEmpty_sound(2))
  then show ?thesis by (simp add: sound_answer_def Inl scheduler_refusal_def)
next
  case (Inr s)
  then have "schedule_wf s"
    by (auto simp: parseSchedulerSchedule_def bindE_eq_Inr schedule_wf_def split: if_splits jsval.splits dest: requireNonEmpty_sound(1))
  then show ?thesis by (simp add: sound_answer_def Inr)
qed

lemma parse_rows_sound: "sound_answer set (map_rows vs parseSchedulerSchedule)"
proof (induction vs)
  case (Cons v vs)
  then show ?case using parse_sound [of v] by (auto simp: sound_answer_def bindE_def split: sum.splits)
qed (simp add: sound_answer_def)

lemma call_sound:
  assumes k: "\<And>response u. sound_answer f (fst (k response u))"
  shows "sound_answer f (fst (bindP (call transport meth path body) k w))"
proof (cases "transport \<lparr>xq_method = meth, xq_path = path, xq_body = body\<rparr> w")
  case (Pair r u)
  show ?thesis
  proof (cases r)
    case (Inl e)
    then show ?thesis using Pair by (simp add: call_def tryP_def bindP_run sound_answer_def scheduler_refusal_def)
  next
    case (Inr x)
    then show ?thesis using Pair k by (simp add: call_def tryP_def bindP_run)
  qed
qed

lemma refused_sound: "sound_answer f (fst (transport_failed u))"
  by (simp add: sound_answer_def scheduler_refusal_def)

lemma callSchedule_sound: "sound_answer (\<lambda>e. {e}) (fst (callSchedule transport meth path body w))"
  unfolding callSchedule_def by (rule call_sound) (simp add: refused_sound parse_sound del: raise_run)


text \<open>A status that is not a number is no refusal: both comparisons are false.\<close>

lemma nan_status_accepted: "\<not> rejected \<lparr>xr_status = NaN, xr_body = b\<rparr>"
  by (simp add: rejected_def js_le_def js_eq_def)

section \<open>Item paths\<close>

text \<open>A decoder of the escapes, as the reference for the encoding.\<close>

definition hex_number :: "char \<Rightarrow> nat" where
  "hex_number c = (let n = of_char c :: nat in if n < 65 then n - 48 else n - 55)"

definition escaped :: "char \<Rightarrow> char \<Rightarrow> nat" where
  "escaped x y = 16 * hex_number x + hex_number y"

fun decode_uri :: "string \<Rightarrow> string" where
  "decode_uri [] = []"
| "decode_uri (c # cs) =
     (if c \<noteq> CHR ''%'' then c # decode_uri cs
      else case cs of
        x # y # rest \<Rightarrow>
          if escaped x y < 128 then char_of (escaped x y) # decode_uri rest
          else (case rest of
            p # x' # y' # rest' \<Rightarrow> char_of (64 * (escaped x y - 192) + (escaped x' y' - 128)) # decode_uri rest'
          | _ \<Rightarrow> [])
      | _ \<Rightarrow> [])"

lemma hex_number_upper: "n < 16 \<Longrightarrow> hex_number (hex_upper n) = n"
  by (simp add: hex_number_def hex_upper_def Let_def)

lemma escaped_percent: "n < 256 \<Longrightarrow> escaped (hex_upper (n div 16)) (hex_upper (n mod 16)) = n"
  by (simp add: escaped_def hex_number_upper)

lemma code_unit: "(of_char c :: nat) < 256"
  by simp

lemma unreserved_no_percent: "uri_unreserved c \<Longrightarrow> c \<noteq> CHR ''%''"
  by (auto simp: uri_unreserved_def)

lemma decode_percent:
  "escaped x y = n \<Longrightarrow> n < 128 \<Longrightarrow> decode_uri (CHR ''%'' # x # y # s) = char_of n # decode_uri s"
  "escaped x y = 192 + h \<Longrightarrow> escaped x' y' = 128 + l \<Longrightarrow>
     decode_uri (CHR ''%'' # x # y # CHR ''%'' # x' # y' # s) = char_of (64 * h + l) # decode_uri s"
  by simp_all

lemma decode_encode_char: "decode_uri (encode_char c @ s) = c # decode_uri s"
proof -
  define n where "n = (of_char c :: nat)"
  have c: "c = char_of n" and n: "n < 256" by (simp_all add: n_def)
  consider "uri_unreserved c" | "\<not> uri_unreserved c" "n < 128" | "\<not> uri_unreserved c" "128 \<le> n" by linarith
  then show ?thesis
  proof cases
    case 1
    then show ?thesis using unreserved_no_percent by (simp add: encode_char_def Let_def)
  next
    case 2
    then show ?thesis using c by (simp add: encode_char_def Let_def percent_def escaped_percent flip: n_def)
  next
    case 3
    have d: "n div 64 < 4" using n by linarith
    have m: "n mod 64 < 64" by simp
    have e: "escaped (hex_upper ((192 + n div 64) div 16)) (hex_upper ((192 + n div 64) mod 16)) = 192 + n div 64"
      "escaped (hex_upper ((128 + n mod 64) div 16)) (hex_upper ((128 + n mod 64) mod 16)) = 128 + n mod 64"
      using d m by (intro escaped_percent; linarith)+
    have "encode_char c = percent (192 + n div 64) @ percent (128 + n mod 64)"
      using 3 by (simp add: encode_char_def Let_def n_def)
    then have "decode_uri (encode_char c @ s) = char_of (64 * (n div 64) + n mod 64) # decode_uri s"
      unfolding percent_def using decode_percent(2) [OF e, of s] by (simp only: append.simps)
    then show ?thesis unfolding c by (simp only: mult_div_mod_eq)
  qed
qed

lemma decode_encode: "decode_uri (encodeURIComponent s) = s"
  by (induction s) (simp_all add: encodeURIComponent_def decode_encode_char)

lemma hex_upper_plain: "n < 16 \<Longrightarrow> hex_upper n \<notin> {CHR ''/'', CHR ''?'', CHR ''#''}"
  by (auto simp: hex_upper_def dest!: arg_cong [of _ _ "of_char :: char \<Rightarrow> nat"])

lemma percent_plain: "n < 256 \<Longrightarrow> set (percent n) \<inter> {CHR ''/'', CHR ''?'', CHR ''#''} = {}"
  using hex_upper_plain [of "n div 16"] hex_upper_plain [of "n mod 16"] by (auto simp: percent_def)

lemma encode_char_plain: "set (encode_char c) \<inter> {CHR ''/'', CHR ''?'', CHR ''#''} = {}"
proof -
  have "c \<notin> {CHR ''/'', CHR ''?'', CHR ''#''}" if "uri_unreserved c" using that by (auto simp: uri_unreserved_def)
  moreover have "(of_char c :: nat) div 64 < 4" using code_unit [of c] by linarith
  ultimately show ?thesis
    using percent_plain [of "of_char c"] percent_plain [of "192 + of_char c div 64"] percent_plain [of "128 + of_char c mod 64"]
    by (auto simp: encode_char_def Let_def)
qed

text \<open>
  The path of an external id determines the id: after the base path and one
  slash it is a single segment, with no slash, query or fragment character in it, and decoding that
  segment gives the id back. Ids cannot reach outside the collection, and two ids never address the
  same item.
\<close>

theorem item_path_roundtrip:
  "\<exists>segment. item_path basePath externalId = basePath @ ''/'' @ segment \<and> decode_uri segment = externalId \<and>
     set segment \<inter> {CHR ''/'', CHR ''?'', CHR ''#''} = {}"
proof -
  have "set (encodeURIComponent externalId) \<inter> {CHR ''/'', CHR ''?'', CHR ''#''} = {}"
    using encode_char_plain by (auto simp: encodeURIComponent_def)
  then show ?thesis using decode_encode by (auto simp: item_path_def)
qed

section \<open>Deliveries\<close>

text \<open>The signed text binds message id, instant and payload, as long as the first two have no line break.\<close>

lemma split_at_newline:
  "newline \<notin> set a \<Longrightarrow> newline \<notin> set b \<Longrightarrow> a @ newline # x = b @ newline # y \<Longrightarrow> a = b \<and> x = y"
proof (induction a arbitrary: b)
  case (Cons c a)
  then show ?case by (cases b) auto
next
  case Nil
  then show ?case by (cases b) auto
qed

lemma mac_message_binds:
  assumes "deliveryMacMessage m d p = deliveryMacMessage m' d' p'"
    and "newline \<notin> set m" and "newline \<notin> set d" and "newline \<notin> set m'" and "newline \<notin> set d'"
  shows "m = m'" and "d = d'" and "p = p'"
proof -
  have "m = m' \<and> d @ newline # p = d' @ newline # p'"
    using assms by (intro split_at_newline) (simp_all add: deliveryMacMessage_def)
  then show "m = m'" "d = d'" "p = p'" using split_at_newline [OF assms(3,5)] by blast+
qed

text \<open>What an accepted delivery has proved.\<close>

lemma delivery_verified:
  assumes "verifySchedulerDelivery hmac date input = Inr v"
  obtains d n w where "date (dm_deliveredAt input) = Some d" and "date (dm_now input) = Some n"
    and "normalizeSignature (dm_signature input) = computeDeliveryMac hmac input"
    and "dm_replayWindowMs input = Fin w" and "0 \<le> w" and "\<not> js_lt (Fin w) (js_Number \<bar>n - d\<bar>)"
    and "\<not> wasSeen (dm_seenMessageIds input) (dm_messageId input)" and "\<not> blank (dm_messageId input)"
proof -
  obtain w where w: "dm_replayWindowMs input = Fin w" "0 \<le> w"
    using assms by (cases "dm_replayWindowMs input") (auto simp: verifySchedulerDelivery_def split: if_splits)
  from assms show thesis
    by (auto simp: verifySchedulerDelivery_def parseInstant_def bindE_eq_Inr Let_def w split: if_splits option.splits intro!: that [OF _ _ _ w])
qed

end
