(* ===== verification/Reconciliation.thy ===== *)
theory Reconciliation
  imports Schedules SchedulerLaws Outbox
begin

text \<open>
  Reconciliation of the database's schedules with the external scheduler
  (packages/workflow-runtime/src/reconciliation.ts). It works on the store and on the state of a
  scheduler port; other sessions and the scheduler's own users may act on both between two
  statements: \<open>env\<close>.
\<close>

section \<open>Reports\<close>

datatype reconciliation_dimension = PRESENCE | CRON_TIMEZONE | PAUSED_STATE | DESTINATION | EXTERNAL_ID

fun dimension_text :: "reconciliation_dimension \<Rightarrow> string" where
  "dimension_text PRESENCE = ''PRESENCE''"
| "dimension_text CRON_TIMEZONE = ''CRON_TIMEZONE''"
| "dimension_text PAUSED_STATE = ''PAUSED_STATE''"
| "dimension_text DESTINATION = ''DESTINATION''"
| "dimension_text EXTERNAL_ID = ''EXTERNAL_ID''"

definition ALL_RECONCILIATION_DIMENSIONS :: "reconciliation_dimension list" where
  "ALL_RECONCILIATION_DIMENSIONS = [PRESENCE, CRON_TIMEZONE, PAUSED_STATE, DESTINATION, EXTERNAL_ID]"

text \<open>An observed value is a text, a boolean or null.\<close>

record skew =
  sk_dimension :: reconciliation_dimension
  sk_detail :: string
  sk_scheduleId :: string
  sk_externalId :: "string option"
  sk_databaseValue :: jsval
  sk_externalValue :: jsval

record incident =
  ri_incidentId :: string
  ri_scheduleId :: string
  ri_dimension :: reconciliation_dimension
  ri_detail :: string
  ri_reason :: string

datatype repair_action = PAUSE_EXTERNAL | REFUSED_UNPAUSE

record repair =
  rx_scheduleId :: string
  rx_externalId :: "string option"
  rx_action :: repair_action
  rx_applied :: bool
  rx_reason :: string

record reconcile_options =
  ro_now :: "(string \<times> iso) option"
  ro_repair :: bool
  ro_reportId :: "string option"
  ro_expectedExternalId :: "(string \<Rightarrow> string res) option"

record reconcile_result =
  rcr_reportId :: string
  rcr_checkedAt :: string
  rcr_skews :: "skew list"
  rcr_incidents :: "incident list"
  rcr_incidentRefs :: "string list"
  rcr_diffHash :: string
  rcr_repairRequested :: bool
  rcr_repaired :: "repair list"

section \<open>The two sides\<close>

record managed_schedule =
  ms_scheduleId :: string
  ms_status :: schedule_status
  ms_config :: resolved_schedule_config

text \<open>\<open>LEFT JOIN\<close> on the version id, a primary key; a schedule without a version row has a null configuration.\<close>

definition managed_rows :: "jsval wf_db \<Rightarrow> (schedule_row \<times> jsval) list" where
  "managed_rows db =
     map (\<lambda>s. (s, case sc_current_version_id s of
                    None \<Rightarrow> JsNull
                  | Some v \<Rightarrow> (case row_by v_version_id v (schedule_versions db) of None \<Rightarrow> JsNull | Some r \<Rightarrow> v_resolved_config r)))
       (sort_key sc_schedule_id (filter (\<lambda>s. sc_status s \<in> {Sched_ACTIVE, Sched_PAUSED}) (schedules db)))"

definition managed_schedule_of :: "(string \<Rightarrow> bool) \<Rightarrow> schedule_row \<times> jsval \<Rightarrow> managed_schedule res" where
  "managed_schedule_of iana row =
     (case row of (s, config) \<Rightarrow>
        if \<not> (case config of JsObj _ \<Rightarrow> True | JsArr _ \<Rightarrow> True | _ \<Rightarrow> False)
        then Inl (ForesiftError WF_RECONCILIATION_CHECK_INVALID)
        else bindE (resolveScheduleConfig iana (patch_of config) None) (\<lambda>c.
             Inr \<lparr>ms_scheduleId = sc_schedule_id s, ms_status = sc_status s, ms_config = c\<rparr>))"

definition loadManagedSchedules :: "(string \<Rightarrow> bool) \<Rightarrow> (jsval wf_db, managed_schedule list) prog" where
  "loadManagedSchedules iana =
     bindP (reads managed_rows) (\<lambda>rows. liftE (map_rows rows (managed_schedule_of iana)))"

text \<open>\<open>new Map(external.map(...))\<close>: a later schedule of the same id replaces an earlier one.\<close>

definition external_by_id :: "scheduler_schedule list \<Rightarrow> string \<Rightarrow> scheduler_schedule option" where
  "external_by_id external = map_of (rev (map (\<lambda>s. (ss_scheduleId s, s)) external))"

definition skew_of ::
  "reconciliation_dimension \<Rightarrow> string \<Rightarrow> string \<Rightarrow> string option \<Rightarrow> jsval \<Rightarrow> jsval \<Rightarrow> skew" where
  "skew_of dimension detail scheduleId externalId databaseValue externalValue =
     \<lparr>sk_dimension = dimension, sk_detail = detail, sk_scheduleId = scheduleId, sk_externalId = externalId,
      sk_databaseValue = databaseValue, sk_externalValue = externalValue\<rparr>"

definition managed_skews ::
  "(string \<Rightarrow> string res) \<Rightarrow> (string \<Rightarrow> scheduler_schedule option) \<Rightarrow> managed_schedule \<Rightarrow> skew list res" where
  "managed_skews expectedExternalId externalById db =
     (let sid = ms_scheduleId db; config = ms_config db
      in case externalById sid of
        None \<Rightarrow> Inr [skew_of PRESENCE ''MISSING_EXTERNAL'' sid None (JsStr (rc_cron config)) JsNull]
      | Some ext \<Rightarrow>
          (let eid = Some (ss_externalId ext); dbPaused = (ms_status db = Sched_PAUSED)
           in bindE (expectedExternalId sid) (\<lambda>expectedId. Inr (
             (if ss_cron ext \<noteq> rc_cron config
              then [skew_of CRON_TIMEZONE ''cron'' sid eid (JsStr (rc_cron config)) (JsStr (ss_cron ext))] else []) @
             (if ss_timezone ext \<noteq> rc_timezone config
              then [skew_of CRON_TIMEZONE ''timezone'' sid eid (JsStr (rc_timezone config)) (JsStr (ss_timezone ext))] else []) @
             (if ss_paused ext \<noteq> dbPaused
              then [skew_of PAUSED_STATE ''paused'' sid eid (JsBool dbPaused) (JsBool (ss_paused ext))] else []) @
             (if ss_destination ext \<noteq> rc_destination config
              then [skew_of DESTINATION ''destination'' sid eid (JsStr (rc_destination config)) (JsStr (ss_destination ext))] else []) @
             (if ss_externalId ext \<noteq> expectedId
              then [skew_of EXTERNAL_ID ''externalId'' sid eid (JsStr expectedId) (JsStr (ss_externalId ext))] else [])))))"

definition unmanaged_skews :: "managed_schedule list \<Rightarrow> scheduler_schedule list \<Rightarrow> skew list" where
  "unmanaged_skews database external =
     map (\<lambda>ext. skew_of PRESENCE ''MISSING_DATABASE'' (ss_scheduleId ext) (Some (ss_externalId ext)) JsNull
            (JsStr (if ss_paused ext then ''PAUSED'' else ''ACTIVE'')))
       (filter (\<lambda>ext. ss_scheduleId ext \<notin> set (map ms_scheduleId database)) external)"

definition diffSchedulesAgainstExternal ::
  "managed_schedule list \<Rightarrow> scheduler_schedule list \<Rightarrow> (string \<Rightarrow> string res) \<Rightarrow> skew list res" where
  "diffSchedulesAgainstExternal database external expectedExternalId =
     bindE (map_rows database (managed_skews expectedExternalId (external_by_id external))) (\<lambda>parts.
     Inr (concat parts @ unmanaged_skews database external))"

section \<open>Incidents and the persisted diff\<close>

text \<open>\<open>String(value)\<close>, and a template with \<open>?? s.scheduleId\<close>.\<close>

definition value_text :: "jsval \<Rightarrow> string" where
  "value_text v = (case v of JsStr s \<Rightarrow> s | JsBool b \<Rightarrow> (if b then ''true'' else ''false'') | _ \<Rightarrow> ''null'')"

definition drift_reason :: "string \<Rightarrow> skew \<Rightarrow> string" where
  "drift_reason what s = what @ '' drift for '' @ sk_scheduleId s @ '': database '' @ value_text (sk_databaseValue s) @
     '' != external '' @ value_text (sk_externalValue s)"

definition incidentReason :: "skew \<Rightarrow> string" where
  "incidentReason s =
     (if sk_detail s = ''MISSING_EXTERNAL'' then
        ''schedule '' @ sk_scheduleId s @ '' is '' @ value_text (sk_databaseValue s) @
        '' in the database but missing from the external scheduler''
      else if sk_detail s = ''MISSING_DATABASE'' then
        ''external schedule '' @ (case sk_externalId s of Some e \<Rightarrow> e | None \<Rightarrow> sk_scheduleId s) @
        '' has no matching database schedule''
      else if sk_detail s = ''cron'' then drift_reason ''cron'' s
      else if sk_detail s = ''timezone'' then drift_reason ''timezone'' s
      else if sk_detail s = ''paused'' then drift_reason ''paused-state'' s
      else if sk_detail s = ''destination'' then drift_reason ''destination'' s
      else ''external-id drift for '' @ sk_scheduleId s @ '': expected '' @ value_text (sk_databaseValue s) @
        '' got '' @ value_text (sk_externalValue s))"

definition incident_id :: "string \<Rightarrow> nat \<Rightarrow> string" where
  "incident_id reportId index = ''wfinc_'' @ reportId @ ''_'' @ digits (index + 1)"

definition incidents_of :: "string \<Rightarrow> skew list \<Rightarrow> incident list" where
  "incidents_of reportId skews =
     map (\<lambda>(index, s). \<lparr>ri_incidentId = incident_id reportId index, ri_scheduleId = sk_scheduleId s,
            ri_dimension = sk_dimension s, ri_detail = sk_detail s, ri_reason = incidentReason s\<rparr>)
       (zip [0..<length skews] skews)"

definition skew_json :: "skew \<Rightarrow> jsval" where
  "skew_json s = JsObj [(''dimension'', JsStr (dimension_text (sk_dimension s))), (''detail'', JsStr (sk_detail s)),
     (''scheduleId'', JsStr (sk_scheduleId s)),
     (''externalId'', case sk_externalId s of None \<Rightarrow> JsNull | Some e \<Rightarrow> JsStr e),
     (''databaseValue'', sk_databaseValue s), (''externalValue'', sk_externalValue s)]"

definition diff_json :: "string \<Rightarrow> skew list \<Rightarrow> string list \<Rightarrow> jsval" where
  "diff_json checkedAt skews refs = JsObj [(''checkedAt'', JsStr checkedAt),
     (''dimensions'', JsArr (map (\<lambda>d. JsStr (dimension_text d)) ALL_RECONCILIATION_DIMENSIONS)),
     (''skews'', JsArr (map skew_json skews)), (''incidentRefs'', JsArr (map JsStr refs))]"

definition report_insert :: "jsval report_row \<Rightarrow> (jsval wf_db, unit) prog" where
  "report_insert = insert_stmt reconciliation_reports_update (\<lambda>db r.
     rp_report_id r \<noteq> [] \<and> row_by rp_report_id (rp_report_id r) (reconciliation_reports db) = None)"

section \<open>The job\<close>

definition pause_input :: "scheduler_schedule \<Rightarrow> scheduler_schedule_input" where
  "pause_input ext = \<lparr>si_scheduleId = ss_scheduleId ext, si_cron = ss_cron ext, si_timezone = ss_timezone ext,
     si_paused = True, si_destination = ss_destination ext\<rparr>"

text \<open>One round of the repair loop: what it appends to \<open>repaired\<close>.\<close>

definition repair_skew ::
  "'s scheduler_port_ops \<Rightarrow> (string \<Rightarrow> scheduler_schedule option) \<Rightarrow> skew \<Rightarrow> ('s world, repair list) prog" where
  "repair_skew port externalById s =
     (if sk_dimension s \<noteq> PAUSED_STATE then ret []
      else case externalById (sk_scheduleId s) of
        None \<Rightarrow> ret []
      | Some ext \<Rightarrow>
          if sk_databaseValue s = JsBool True \<and> sk_externalValue s = JsBool False then
            bindP (on_channel (pt_update port (ss_externalId ext) (pause_input ext))) (\<lambda>_.
            ret [\<lparr>rx_scheduleId = sk_scheduleId s, rx_externalId = Some (ss_externalId ext), rx_action = PAUSE_EXTERNAL,
                  rx_applied = True, rx_reason = ''propagated the database pause to the external scheduler''\<rparr>])
          else if sk_databaseValue s = JsBool False \<and> sk_externalValue s = JsBool True then
            ret [\<lparr>rx_scheduleId = sk_scheduleId s, rx_externalId = Some (ss_externalId ext), rx_action = REFUSED_UNPAUSE,
                  rx_applied = False, rx_reason = ''repair never unpauses an external schedule; operator action required''\<rparr>]
          else ret [])"

fun repair_loop ::
  "(nat \<Rightarrow> 's world \<Rightarrow> 's world) \<Rightarrow> 's scheduler_port_ops \<Rightarrow> (string \<Rightarrow> scheduler_schedule option) \<Rightarrow> nat \<Rightarrow> skew list \<Rightarrow>
   ('s world, repair list) prog" where
  "repair_loop env port externalById i [] = ret []"
| "repair_loop env port externalById i (s # skews) =
     bindP (gap env i) (\<lambda>_.
     bindP (repair_skew port externalById s) (\<lambda>done_now.
     bindP (repair_loop env port externalById (i + 1) skews) (\<lambda>later.
     ret (done_now @ later))))"

definition checked_now :: "platform \<Rightarrow> (string \<times> iso) option \<Rightarrow> (string \<times> instant) res" where
  "checked_now pf now =
     (case now of
        None \<Rightarrow> Inr (pf_clock pf)
      | Some (t, None) \<Rightarrow> Inl (ForesiftError WF_RECONCILIATION_CHECK_INVALID)
      | Some (t, Some i) \<Rightarrow> Inr (t, i))"

definition reconcileSchedules ::
  "platform \<Rightarrow> (nat \<Rightarrow> 's world \<Rightarrow> 's world) \<Rightarrow> 's scheduler_port_ops \<Rightarrow> reconcile_options \<Rightarrow>
   ('s world, reconcile_result) prog" where
  "reconcileSchedules pf env port options =
     bindP (liftE (checked_now pf (ro_now options))) (\<lambda>(checkedAt, checked_at).
     let reportId = (case ro_reportId options of Some i \<Rightarrow> i | None \<Rightarrow> ''wfrc_'' @ pf_uuid pf);
         expectedExternalId = (case ro_expectedExternalId options of Some f \<Rightarrow> f | None \<Rightarrow> localExternalId)
     in bindP (on_db (loadManagedSchedules (pf_iana pf))) (\<lambda>database.
        bindP (gap env 0) (\<lambda>_.
        bindP (on_channel (pt_list port)) (\<lambda>external.
        bindP (liftE (diffSchedulesAgainstExternal database external expectedExternalId)) (\<lambda>skews.
        let incidents = incidents_of reportId skews;
            refs = map ri_incidentId incidents;
            diff = diff_json checkedAt skews refs
        in bindP (liftE (canonicalJson diff)) (\<lambda>text.
           bindP (gap env 1) (\<lambda>_.
           bindP (on_db (report_insert \<lparr>rp_report_id = reportId, rp_checked_at = checked_at, rp_diff = jsonb diff,
                    rp_incident_refs = refs\<rparr>)) (\<lambda>_.
           bindP (if ro_repair options then repair_loop env port (external_by_id external) 2 skews else ret []) (\<lambda>repaired.
           ret \<lparr>rcr_reportId = reportId, rcr_checkedAt = checkedAt, rcr_skews = skews, rcr_incidents = incidents,
                rcr_incidentRefs = refs, rcr_diffHash = sha256Text (pf_sha pf) text,
                rcr_repairRequested = ro_repair options, rcr_repaired = repaired\<rparr>)))))))))"

end
