(* ===== verification/DecimalText.thy ===== *)
theory DecimalText
  imports TimestampOrder CanonicalJson JsNumber
begin

text \<open>
  Decimal texts (packages/execution-simulator/src/net-return.ts, target-touch.ts): the patterns, the
  conversion of a text to a scaled integer and back, and the comparison. The number a text denotes is
  \<open>dec_value\<close>; conversions are exact, and a number has one normal text.
\<close>

section \<open>Patterns and parts\<close>

text \<open>\<^verbatim>\<open>/^(0|[1-9][0-9]*)(\.[0-9]+)?$/\<close>, with and without a sign.\<close>

definition NON_NEGATIVE_DECIMAL :: "string \<Rightarrow> bool" where
  "NON_NEGATIVE_DECIMAL s \<longleftrightarrow>
     (let whole = takeWhile digit s; rest = dropWhile digit s
      in (whole = ''0'' \<or> whole \<noteq> [] \<and> hd whole \<noteq> CHR ''0'') \<and>
         (rest = [] \<or> hd rest = CHR ''.'' \<and> tl rest \<noteq> [] \<and> list_all digit (tl rest)))"

definition unsigned_part :: "string \<Rightarrow> string" where
  "unsigned_part s = (if take 1 s = ''-'' then drop 1 s else s)"

definition SIGNED_DECIMAL :: "string \<Rightarrow> bool" where
  "SIGNED_DECIMAL s \<longleftrightarrow> NON_NEGATIVE_DECIMAL (unsigned_part s)"

text \<open>The parts \<open>split('.')\<close> gives.\<close>

definition integer_part :: "string \<Rightarrow> string" where
  "integer_part s = takeWhile (\<lambda>c. c \<noteq> CHR ''.'') s"

definition fractional_part :: "string \<Rightarrow> string" where
  "fractional_part s = takeWhile (\<lambda>c. c \<noteq> CHR ''.'') (drop (length (integer_part s) + 1) s)"

definition scaleOf :: "string \<Rightarrow> nat" where
  "scaleOf s = (if CHR ''.'' \<in> set s then length s - length (integer_part s) - 1 else 0)"

definition toScaled :: "string \<Rightarrow> nat \<Rightarrow> int" where
  "toScaled v scale =
     (let negative = (take 1 v = ''-''); unsigned = unsigned_part v;
          padded = take scale (fractional_part unsigned @ replicate scale (CHR ''0''));
          scaled = int (num_text (integer_part unsigned @ padded))
      in if negative then - scaled else scaled)"

definition padStart :: "nat \<Rightarrow> string \<Rightarrow> string" where
  "padStart n s = replicate (n - length s) (CHR ''0'') @ s"

definition strip_zeros :: "string \<Rightarrow> string" where
  "strip_zeros s = rev (dropWhile (\<lambda>c. c = CHR ''0'') (rev s))"

definition fromScaled :: "int \<Rightarrow> nat \<Rightarrow> string" where
  "fromScaled v scale =
     (let ds = padStart (scale + 1) (digits (nat \<bar>v\<bar>));
          integerPart = take (length ds - scale) ds;
          fractionalPart = strip_zeros (if 0 < scale then drop (length ds - scale) ds else []);
          sign = (if v < 0 then ''-'' else [])
      in if fractionalPart \<noteq> [] then sign @ integerPart @ ''.'' @ fractionalPart else sign @ integerPart)"

definition decimalCompare :: "string \<Rightarrow> string \<Rightarrow> int" where
  "decimalCompare a b =
     (let af = fractional_part a; bf = fractional_part b; scale = max (length af) (length bf);
          av = num_text (integer_part a @ af @ replicate (scale - length af) (CHR ''0''));
          bv = num_text (integer_part b @ bf @ replicate (scale - length bf) (CHR ''0''))
      in if av = bv then 0 else if bv < av then 1 else -1)"

section \<open>What a text denotes\<close>

definition dec_value :: "string \<Rightarrow> rat" where
  "dec_value s =
     (let u = unsigned_part s; f = fractional_part u;
          v = of_nat (num_text (integer_part u)) + of_nat (num_text f) / 10 ^ length f
      in if take 1 s = ''-'' then - v else v)"

definition normal_decimal :: "string \<Rightarrow> bool" where
  "normal_decimal s \<longleftrightarrow> SIGNED_DECIMAL s \<and> s \<noteq> ''-0'' \<and>
     (let f = fractional_part (unsigned_part s) in f = [] \<or> last f \<noteq> CHR ''0'')"

lemma digit_zero [simp]: "digit (CHR ''0'')" "\<not> digit (CHR ''.'')" "\<not> digit (CHR ''-'')"
  by (simp_all add: digit_def)

lemma num_text_append: "num_text (s @ t) = num_text s * 10 ^ length t + num_text t"
  using foldl_num [of "num_text s" t] by (simp add: num_text_def)

lemma num_text_zeros [simp]: "num_text (replicate n (CHR ''0'')) = 0"
  by (induction n) (simp_all add: num_text_Cons)

lemma digit_chars: "digit c \<Longrightarrow> c \<noteq> CHR ''.'' \<and> c \<noteq> CHR ''-''"
  by (auto simp: digit_def)

lemma digits_nil: "list_all digit s \<Longrightarrow> CHR ''.'' \<notin> set s \<and> take 1 s \<noteq> ''-''"
  by (cases s) (auto simp: list_all_iff digit_chars)

text \<open>A text that matches is its digits, with a point and more digits or without.\<close>

definition point_text :: "string \<Rightarrow> string \<Rightarrow> string" where
  "point_text w f = (if f = [] then w else w @ ''.'' @ f)"

definition whole_digits :: "string \<Rightarrow> bool" where
  "whole_digits w \<longleftrightarrow> list_all digit w \<and> (w = ''0'' \<or> w \<noteq> [] \<and> hd w \<noteq> CHR ''0'')"

lemma digits_no_point: "list_all digit t \<Longrightarrow> takeWhile (\<lambda>c. c \<noteq> CHR ''.'') t = t"
  by (auto simp: list_all_iff takeWhile_eq_all_conv digit_chars)

lemma point_text_parts:
  assumes "whole_digits w" and "list_all digit f"
  shows "NON_NEGATIVE_DECIMAL (point_text w f)" and "integer_part (point_text w f) = w" and "fractional_part (point_text w f) = f"
    and "unsigned_part (point_text w f) = point_text w f" and "unsigned_part (''-'' @ point_text w f) = point_text w f"
    and "take 1 (point_text w f) \<noteq> ''-''"
proof -
  have w: "list_all digit w" "w \<noteq> []" using assms(1) by (auto simp: whole_digits_def)
  have t: "takeWhile digit (w @ x) = w" "dropWhile digit (w @ x) = x" if "x = [] \<or> hd x = CHR ''.''" for x
    using w(1) that by (cases x; auto simp: list_all_iff)+
  show "NON_NEGATIVE_DECIMAL (point_text w f)"
  proof (cases "f = []")
    case True
    have e: "takeWhile digit w = w" "dropWhile digit w = []" using t [of "[]"] by simp_all
    have "w = ''0'' \<or> w \<noteq> [] \<and> hd w \<noteq> CHR ''0''" using assms(1) by (simp add: whole_digits_def)
    then show ?thesis unfolding NON_NEGATIVE_DECIMAL_def point_text_def True Let_def if_P [OF refl] e by simp
  next
    case False
    then show ?thesis using assms t [of "''.'' @ f"] by (auto simp: NON_NEGATIVE_DECIMAL_def point_text_def whole_digits_def Let_def)
  qed
  have "takeWhile (\<lambda>c. c \<noteq> CHR ''.'') (w @ ''.'' @ f) = w"
    using w(1) by (subst takeWhile_append2) (auto simp: list_all_iff digit_chars)
  then show i: "integer_part (point_text w f) = w" using digits_no_point [OF w(1)] by (simp add: integer_part_def point_text_def)
  show "fractional_part (point_text w f) = f" using i digits_no_point [OF assms(2)] by (simp add: fractional_part_def point_text_def)
  show n: "take 1 (point_text w f) \<noteq> ''-''" using w by (cases w) (auto simp: point_text_def digit_chars)
  then show "unsigned_part (point_text w f) = point_text w f" by (simp add: unsigned_part_def)
  show "unsigned_part (''-'' @ point_text w f) = point_text w f" by (simp add: unsigned_part_def)
qed

lemma decimal_parts:
  assumes "NON_NEGATIVE_DECIMAL s"
  obtains w f where "s = point_text w f" and "whole_digits w" and "list_all digit f"
proof -
  let ?w = "takeWhile digit s" and ?r = "dropWhile digit s"
  have w: "whole_digits ?w"
    using assms by (auto simp: NON_NEGATIVE_DECIMAL_def whole_digits_def list_all_iff Let_def dest: set_takeWhileD)
  show thesis
  proof (cases "?r = []")
    case True
    then have "s = ?w" by (metis append_Nil2 takeWhile_dropWhile_id)
    then show thesis using w that [of ?w "[]"] by (simp add: point_text_def)
  next
    case False
    then have f: "?r = ''.'' @ tl ?r" "tl ?r \<noteq> []" "list_all digit (tl ?r)"
      using assms by (cases ?r; simp add: NON_NEGATIVE_DECIMAL_def Let_def)+
    have "s = ?w @ ?r" by simp
    then have "s = point_text ?w (tl ?r)" using f(1,2) by (simp add: point_text_def)
    then show thesis using w f(3) by (rule that)
  qed
qed

lemma signed_parts:
  assumes "SIGNED_DECIMAL s"
  obtains sign w f where "s = sign @ point_text w f" and "sign = [] \<or> sign = ''-''" and "whole_digits w" and "list_all digit f"
    and "unsigned_part s = point_text w f" and "take 1 s = ''-'' \<longleftrightarrow> sign \<noteq> []"
proof -
  from assms obtain w f where u: "unsigned_part s = point_text w f" "whole_digits w" "list_all digit f"
    unfolding SIGNED_DECIMAL_def by (rule decimal_parts)
  show thesis
  proof (cases "take 1 s = ''-''")
    case True
    then have "s = ''-'' @ point_text w f" using u(1) by (cases s) (auto simp: unsigned_part_def)
    then show thesis using u True by (intro that [of "''-''" w f]) simp_all
  next
    case False
    then have "s = point_text w f" using u(1) by (simp add: unsigned_part_def)
    then show thesis using u False by (intro that [of "[]" w f]) simp_all
  qed
qed

section \<open>Conversions are exact\<close>

lemma scaleOf_fraction: "SIGNED_DECIMAL s \<Longrightarrow> scaleOf s = length (fractional_part (unsigned_part s))"
proof (erule signed_parts)
  fix sign w f
  assume s: "s = sign @ point_text w f" "sign = [] \<or> sign = ''-''" and w: "whole_digits w" and f: "list_all digit f"
    and u: "unsigned_part s = point_text w f"
  have "takeWhile (\<lambda>c. c \<noteq> CHR ''.'') s = sign @ integer_part (point_text w f)"
    using s by (auto simp: integer_part_def)
  then have i: "integer_part s = sign @ w" using point_text_parts(2) [OF w f] by (simp add: integer_part_def)
  have "CHR ''.'' \<in> set s \<longleftrightarrow> f \<noteq> []"
    using s w f digits_nil by (auto simp: point_text_def whole_digits_def)
  moreover have "length s = length sign + length w + (if f = [] then 0 else 1 + length f)"
    using s(1) by (simp add: point_text_def)
  ultimately show "scaleOf s = length (fractional_part (unsigned_part s))"
    using point_text_parts(3) [OF w f] u i by (simp add: scaleOf_def)
qed

lemma toScaled_value:
  assumes "SIGNED_DECIMAL v" and "scaleOf v \<le> n"
  shows "of_int (toScaled v n) = dec_value v * 10 ^ n"
proof -
  obtain sign w f where v: "whole_digits w" "list_all digit f" "unsigned_part v = point_text w f"
    using assms(1) by (rule signed_parts)
  note parts = point_text_parts [OF v(1,2)]
  have le: "length f \<le> n" using assms scaleOf_fraction v(3) parts(3) by simp
  then have pad: "take n (f @ replicate n (CHR ''0'')) = f @ replicate (n - length f) (CHR ''0'')" by simp
  have "(10 :: rat) ^ n = 10 ^ (n - length f) * 10 ^ length f" using le by (simp flip: power_add)
  then show ?thesis
    using le by (simp add: toScaled_def dec_value_def Let_def v(3) parts(2,3) pad num_text_append field_simps flip: power_add)
qed

lemma digits_digit: "list_all digit (digits n)"
proof (induction n rule: digits.induct)
  case (1 n)
  have "digit (char_of (48 + k))" if "k < 10" for k :: nat using that by (simp add: digit_def)
  then show ?case using 1 by (subst digits.simps) auto
qed

lemma digits_number: "num_text (digits n) = n"
proof (induction n rule: digits.induct)
  case (1 n)
  then show ?case by (subst digits.simps) (auto simp: num_text_append num_text_Cons)
qed

lemma digits_snoc:
  assumes "digit c" and "n = 10 * m + (of_char c - 48)"
  shows "digits n = (if m = 0 then [c] else digits m @ [c])"
proof -
  have c: "of_char c - 48 < (10 :: nat)" "char_of (48 + (of_char c - 48 :: nat)) = c" using assms(1) by (auto simp: digit_def Let_def)
  show ?thesis using c assms(2) by (subst digits.simps) auto
qed

lemma pad_digits:
  assumes "list_all digit t" and "t \<noteq> []"
  shows "padStart (length t) (digits (num_text t)) = t \<and> length (digits (num_text t)) \<le> length t"
  using assms
proof (induction t rule: rev_induct)
  case (snoc c t)
  have n: "num_text (t @ [c]) = 10 * num_text t + (of_char c - 48)" by (simp add: num_text_append num_text_Cons)
  have d: "digits (num_text (t @ [c])) = (if num_text t = 0 then [c] else digits (num_text t) @ [c])"
    using snoc.prems by (intro digits_snoc [OF _ n]) simp
  show ?case
  proof (cases "t = []")
    case True
    then show ?thesis using d by (simp add: padStart_def)
  next
    case False
    then have IH: "padStart (length t) (digits (num_text t)) = t" "length (digits (num_text t)) \<le> length t"
      using snoc by auto
    show ?thesis
    proof (cases "num_text t = 0")
      case True
      have "digits 0 = ''0''" by (simp add: digits.simps char_of_def bit_0)
      then have "replicate (length t - 1) (CHR ''0'') @ ''0'' = t" using IH(1) True by (simp add: padStart_def)
      then have "t = replicate (length t) (CHR ''0'')" using False
        by (metis Suc_pred' length_greater_0_conv replicate_Suc replicate_append_same)
      then show ?thesis using d True by (simp add: padStart_def)
    next
      case False
      then show ?thesis using d IH by (simp add: padStart_def)
    qed
  qed
qed simp

lemma digits_zero_lead: "n = 0 \<and> digits n = ''0'' \<or> 0 < n \<and> hd (digits n) \<noteq> CHR ''0''"
proof (cases "n = 0")
  case True
  then show ?thesis by (simp add: digits.simps char_of_def bit_0)
next
  case False
  have "hd (digits n) \<noteq> CHR ''0''" if "0 < n" using that
  proof (induction n rule: digits.induct)
    case (1 n)
    have ne: "digits m \<noteq> []" for m by (subst digits.simps) simp
    show ?case
    proof (cases "n < 10")
      case True
      have "of_char (char_of (48 + n) :: char) \<noteq> (of_char (CHR ''0'') :: nat)" using True 1(2) by simp
      then have "char_of (48 + n) \<noteq> CHR ''0''" by metis
      then show ?thesis using True by (simp add: digits.simps [of n])
    next
      case False
      then have "hd (digits (n div 10)) \<noteq> CHR ''0''" using 1 by simp
      then show ?thesis using False ne [of "n div 10"] by (simp add: digits.simps [of n])
    qed
  qed
  then show ?thesis using False by simp
qed

lemma strip_zeros_append: "\<exists>k. s = strip_zeros s @ replicate k (CHR ''0'')"
proof -
  have "rev s = takeWhile (\<lambda>c. c = CHR ''0'') (rev s) @ dropWhile (\<lambda>c. c = CHR ''0'') (rev s)" by simp
  then have "s = strip_zeros s @ rev (takeWhile (\<lambda>c. c = CHR ''0'') (rev s))"
    unfolding strip_zeros_def by (metis rev_append rev_rev_ident)
  moreover have "takeWhile (\<lambda>c. c = CHR ''0'') (rev s) = replicate (length (takeWhile (\<lambda>c. c = CHR ''0'') (rev s))) (CHR ''0'')"
    by (intro replicate_eqI) (auto dest: set_takeWhileD)
  ultimately show ?thesis by (metis rev_replicate)
qed

lemma strip_zeros_last: "strip_zeros s = [] \<or> last (strip_zeros s) \<noteq> CHR ''0''"
  using hd_dropWhile [of "\<lambda>c. c = CHR ''0''" "rev s"] unfolding strip_zeros_def last_rev rev_is_Nil_conv by blast

lemma strip_zeros_id: "f = [] \<or> last f \<noteq> CHR ''0'' \<Longrightarrow> strip_zeros (f @ replicate k (CHR ''0'')) = f"
proof (cases "f = []")
  case False
  assume "f = [] \<or> last f \<noteq> CHR ''0''"
  then have "dropWhile (\<lambda>c. c = CHR ''0'') (rev f) = rev f" using False by (cases f rule: rev_cases) simp_all
  moreover have "dropWhile (\<lambda>c. c = CHR ''0'') (replicate k (CHR ''0'') @ xs) = dropWhile (\<lambda>c. c = CHR ''0'') xs" for xs
    by (induction k) simp_all
  ultimately show ?thesis by (simp add: strip_zeros_def)
qed (simp add: strip_zeros_def)

text \<open>The padded digits of a number, cut before the last \<open>n\<close>.\<close>

lemma padded_digits:
  fixes n m :: nat
  defines "ds \<equiv> padStart (n + 1) (digits m)"
  shows "whole_digits (take (length ds - n) ds)" and "list_all digit (drop (length ds - n) ds)"
    and "length (drop (length ds - n) ds) = n" and "num_text (take (length ds - n) ds) * 10 ^ n + num_text (drop (length ds - n) ds) = m"
proof -
  have len: "n + 1 \<le> length ds" by (simp add: ds_def padStart_def)
  have d: "list_all digit ds" using digits_digit [of m] by (auto simp: ds_def padStart_def list_all_iff)
  then show "list_all digit (drop (length ds - n) ds)" by (auto simp: list_all_iff dest: in_set_dropD)
  show l: "length (drop (length ds - n) ds) = n" using len by simp
  have "num_text ds = m" by (simp add: ds_def padStart_def num_text_append digits_number)
  moreover have "num_text ds = num_text (take (length ds - n) ds) * 10 ^ n + num_text (drop (length ds - n) ds)"
    using num_text_append [of "take (length ds - n) ds" "drop (length ds - n) ds"] l by simp
  ultimately show "num_text (take (length ds - n) ds) * 10 ^ n + num_text (drop (length ds - n) ds) = m" by simp
  have w: "list_all digit (take (length ds - n) ds)" using d by (auto simp: list_all_iff dest: in_set_takeD)
  show "whole_digits (take (length ds - n) ds)"
  proof (cases "length (digits m) \<le> n")
    case True
    then have "ds = CHR ''0'' # replicate (n - length (digits m)) (CHR ''0'') @ digits m" and "length ds = n + 1"
      by (simp_all add: ds_def padStart_def Suc_diff_le)
    then have "take (length ds - n) ds = ''0''" by simp
    then show ?thesis by (simp add: whole_digits_def)
  next
    case False
    then have ds: "ds = digits m" by (simp add: ds_def padStart_def)
    have ne: "take (length ds - n) ds \<noteq> []" using len by auto
    have "hd (take (length ds - n) ds) = hd (digits m)" using ds len by (simp add: hd_take)
    then show ?thesis using digits_zero_lead [of m] w ne ds len by (auto simp: whole_digits_def)
  qed
qed

lemma fromScaled_parts:
  obtains w f k where "fromScaled v n = (if v < 0 then ''-'' else []) @ point_text w f" and "whole_digits w" and "list_all digit f"
    and "f = [] \<or> last f \<noteq> CHR ''0''" and "length f + k = n" and "num_text w * 10 ^ n + num_text f * 10 ^ k = nat \<bar>v\<bar>"
proof -
  define ds where "ds = padStart (n + 1) (digits (nat \<bar>v\<bar>))"
  define w g where "w = take (length ds - n) ds" and "g = drop (length ds - n) ds"
  have p: "whole_digits w" "list_all digit g" "length g = n" "num_text w * 10 ^ n + num_text g = nat \<bar>v\<bar>"
    unfolding w_def g_def ds_def by (rule padded_digits)+
  obtain k where k: "g = strip_zeros g @ replicate k (CHR ''0'')" using strip_zeros_append by blast
  have num: "num_text g = num_text (strip_zeros g) * 10 ^ k" using arg_cong [OF k, of num_text] by (simp add: num_text_append)
  have len: "length (strip_zeros g) + k = n" using p(3) arg_cong [OF k, of length] by simp
  have dig: "list_all digit (strip_zeros g)" using p(2) arg_cong [OF k, of "list_all digit"] by simp
  have "(if 0 < n then g else []) = g" using p(3) by auto
  then have "fromScaled v n = (if v < 0 then ''-'' else []) @ point_text w (strip_zeros g)"
    unfolding fromScaled_def Let_def ds_def [symmetric] w_def [symmetric] g_def [symmetric] point_text_def by simp
  then show thesis using p(1,4) strip_zeros_last [of g] num len dig by (intro that [of w "strip_zeros g" k]) simp_all
qed

lemma fromScaled_value: "normal_decimal (fromScaled v n) \<and> dec_value (fromScaled v n) = of_int v / 10 ^ n"
proof -
  obtain w f k where e: "fromScaled v n = (if v < 0 then ''-'' else []) @ point_text w f" and w: "whole_digits w" "list_all digit f"
    and l: "f = [] \<or> last f \<noteq> CHR ''0''" and k: "length f + k = n" and v: "num_text w * 10 ^ n + num_text f * 10 ^ k = nat \<bar>v\<bar>"
    by (rule fromScaled_parts)
  note parts = point_text_parts [OF w]
  have u: "unsigned_part (fromScaled v n) = point_text w f" using parts(4,5) by (simp add: e)
  have s: "take 1 (fromScaled v n) = ''-'' \<longleftrightarrow> v < 0" using parts(6) by (simp add: e)
  have "fromScaled v n \<noteq> ''-0''"
  proof
    assume z: "fromScaled v n = ''-0''"
    then have neg: "v < 0" using s by simp
    then have "point_text w f = ''0''" using z by (simp add: e)
    then have "w = ''0''" "f = []" using parts(2,3) by (auto simp: integer_part_def fractional_part_def)
    then show False using v neg by (simp add: num_text_Cons)
  qed
  moreover have "of_int \<bar>v\<bar> = of_nat (num_text w) * 10 ^ n + of_nat (num_text f) * (10 :: rat) ^ k"
    using arg_cong [OF v, of "of_nat :: nat \<Rightarrow> rat"] by simp
  then have "of_int \<bar>v\<bar> / 10 ^ n = of_nat (num_text w) + of_nat (num_text f) / (10 :: rat) ^ length f"
    by (simp add: k [symmetric] power_add field_simps)
  ultimately show ?thesis
    using l parts(1-3) s by (auto simp: normal_decimal_def SIGNED_DECIMAL_def u dec_value_def Let_def)
qed

lemma fromScaled_toScaled:
  assumes "normal_decimal s" and "scaleOf s \<le> n"
  shows "fromScaled (toScaled s n) n = s"
proof -
  have sd: "SIGNED_DECIMAL s" using assms(1) by (simp add: normal_decimal_def)
  then obtain sign w f where s: "s = sign @ point_text w f" "sign = [] \<or> sign = ''-''" and w: "whole_digits w" "list_all digit f"
    and u: "unsigned_part s = point_text w f" "take 1 s = ''-'' \<longleftrightarrow> sign \<noteq> []" by (rule signed_parts)
  note parts = point_text_parts [OF w]
  have f: "f = [] \<or> last f \<noteq> CHR ''0''" "length f \<le> n"
    using assms scaleOf_fraction [OF sd] parts(3) by (simp_all add: normal_decimal_def u(1))
  let ?t = "w @ f @ replicate (n - length f) (CHR ''0'')"
  have pad: "take n (f @ replicate n (CHR ''0'')) = f @ replicate (n - length f) (CHR ''0'')" using f(2) by simp
  have v: "toScaled s n = (if sign \<noteq> [] then - int (num_text ?t) else int (num_text ?t))"
    unfolding toScaled_def Let_def u parts(2,3) pad by simp
  have t: "list_all digit ?t" "?t \<noteq> []" using w by (auto simp: whole_digits_def list_all_iff)
  note pd = pad_digits [OF t]
  have ds: "padStart (n + 1) (digits (num_text ?t)) = ?t"
  proof (cases "w = ''0''")
    case True
    then show ?thesis using pd f(2) by simp
  next
    case False
    then have "hd ?t \<noteq> CHR ''0''" and len: "n + 1 \<le> length ?t" using w f(2) by (auto simp: whole_digits_def Suc_le_eq)
    then have "length ?t - length (digits (num_text ?t)) = 0"
      using pd unfolding padStart_def by (cases "length ?t - length (digits (num_text ?t))") (auto dest: arg_cong [of _ _ hd])
    then have "digits (num_text ?t) = ?t" using pd by (simp add: padStart_def)
    then show ?thesis using len unfolding padStart_def by simp
  qed
  have len: "length ?t - n = length w" using f(2) by simp
  have neg: "toScaled s n < 0 \<longleftrightarrow> sign \<noteq> []"
  proof -
    have "num_text ?t \<noteq> 0" if "sign \<noteq> []"
    proof
      assume z: "num_text ?t = 0"
      have "digits 0 = ''0''" using digits_zero_lead [of 0] by simp
      then have zeros: "?t = replicate (n + 1) (CHR ''0'')" using ds unfolding z padStart_def by (simp add: replicate_append_same)
      then have "set ?t \<subseteq> {CHR ''0''}" by (simp only: zeros) auto
      then have "w = ''0''" "set f \<subseteq> {CHR ''0''}" using w(1) by (cases w; auto simp: whole_digits_def)+
      then have "s = ''-0''" using f(1) s that by (cases f rule: rev_cases) (auto simp: point_text_def)
      then show False using assms(1) by (simp add: normal_decimal_def)
    qed
    then show ?thesis by (simp add: v)
  qed
  have m: "nat \<bar>toScaled s n\<bar> = num_text ?t" by (simp add: v)
  have "(if 0 < n then drop (length w) ?t else []) = f @ replicate (n - length f) (CHR ''0'')" using f(2) by auto
  then show ?thesis
    unfolding fromScaled_def m ds Let_def len using strip_zeros_id [OF f(1)] s neg by (auto simp: point_text_def)
qed

text \<open>A number has one normal text.\<close>

lemma normal_unique: "normal_decimal s \<Longrightarrow> normal_decimal t \<Longrightarrow> dec_value s = dec_value t \<Longrightarrow> s = t"
proof -
  assume s: "normal_decimal s" and t: "normal_decimal t" and eq: "dec_value s = dec_value t"
  let ?n = "max (scaleOf s) (scaleOf t)"
  have "(of_int (toScaled s ?n) :: rat) = of_int (toScaled t ?n)"
    using toScaled_value [of s ?n] toScaled_value [of t ?n] s t eq by (simp add: normal_decimal_def)
  then show "s = t" using fromScaled_toScaled [OF s, of ?n] fromScaled_toScaled [OF t, of ?n] by simp
qed

lemma decimalCompare_value:
  assumes "NON_NEGATIVE_DECIMAL a" and "NON_NEGATIVE_DECIMAL b"
  shows "decimalCompare a b = (if dec_value a = dec_value b then 0 else if dec_value b < dec_value a then 1 else -1)"
proof -
  obtain w f where a: "a = point_text w f" "whole_digits w" "list_all digit f" using assms(1) by (rule decimal_parts)
  obtain w' f' where b: "b = point_text w' f'" "whole_digits w'" "list_all digit f'" using assms(2) by (rule decimal_parts)
  note pa = point_text_parts [OF a(2,3), folded a(1)] and pb = point_text_parts [OF b(2,3), folded b(1)]
  let ?n = "max (length f) (length f')"
  have scaled: "of_nat (num_text (v @ g @ replicate (?n - length g) (CHR ''0''))) =
      (of_nat (num_text v) + of_nat (num_text g) / 10 ^ length g :: rat) * 10 ^ ?n" if "length g \<le> ?n" for v g
  proof -
    have "(10 :: rat) ^ ?n = 10 ^ (?n - length g) * 10 ^ length g" using that by (simp flip: power_add)
    then show ?thesis using that by (simp add: num_text_append field_simps flip: power_add)
  qed
  have va: "dec_value a = of_nat (num_text w) + of_nat (num_text f) / 10 ^ length f"
    using pa by (simp add: dec_value_def Let_def)
  have vb: "dec_value b = of_nat (num_text w') + of_nat (num_text f') / 10 ^ length f'"
    using pb by (simp add: dec_value_def Let_def)
  let ?x = "num_text (w @ f @ replicate (?n - length f) (CHR ''0''))" and ?y = "num_text (w' @ f' @ replicate (?n - length f') (CHR ''0''))"
  have xy: "of_nat ?x = dec_value a * 10 ^ ?n" "of_nat ?y = dec_value b * 10 ^ ?n" using scaled [of f w] scaled [of f' w'] va vb by simp_all
  have "?x = ?y \<longleftrightarrow> dec_value a = dec_value b" using arg_cong [of ?x ?y "of_nat :: nat \<Rightarrow> rat"] xy
    by (metis mult_right_cancel of_nat_eq_iff power_not_zero zero_neq_numeral)
  moreover have "?y < ?x \<longleftrightarrow> dec_value b < dec_value a"
    using of_nat_less_iff [of ?y ?x, where ?'a = rat] unfolding xy by simp
  ultimately show ?thesis unfolding decimalCompare_def pa(2,3) pb(2,3) Let_def by simp
qed

end
