(* ===== verification/ReconciliationLaws.thy ===== *)
theory ReconciliationLaws
  imports Reconciliation ScheduleControl DecimalText
begin

text \<open>
  Laws of the reconciliation job: the diff is empty exactly when both sides agree, the job uses a
  port only to list and to pause, a report is written exactly when the job completes, and a repair
  pauses exactly the entries of paused schedules and then has nothing left to do.
\<close>

section \<open>The diff\<close>

lemma map_rows_map: "(\<And>x. x \<in> set xs \<Longrightarrow> f x = Inr (g x)) \<Longrightarrow> map_rows xs f = Inr (map g xs)"
  by (induction xs) auto

lemma external_by_id_Some: "external_by_id external k = Some e \<Longrightarrow> e \<in> set external \<and> ss_scheduleId e = k"
  by (auto simp: external_by_id_def dest: map_of_SomeD)

lemma external_by_id_None: "external_by_id external k = None \<longleftrightarrow> k \<notin> ss_scheduleId ` set external"
  by (force simp: external_by_id_def map_of_eq_None_iff)

lemma external_by_id_distinct:
  assumes "inj_on ss_scheduleId (set external)"
  shows "external_by_id external k = Some e \<longleftrightarrow> e \<in> set external \<and> ss_scheduleId e = k"
proof (cases "external_by_id external k")
  case None
  then have "k \<notin> ss_scheduleId ` set external" by (simp add: external_by_id_None)
  then show ?thesis using None by auto
next
  case (Some e')
  then show ?thesis using external_by_id_Some [OF Some] assms by (auto simp: inj_on_def)
qed

text \<open>The entry the scheduler should hold for a managed schedule.\<close>

definition managed_entry :: "(string \<Rightarrow> string) \<Rightarrow> managed_schedule \<Rightarrow> scheduler_schedule" where
  "managed_entry f d = \<lparr>ss_externalId = f (ms_scheduleId d), ss_scheduleId = ms_scheduleId d, ss_cron = rc_cron (ms_config d),
     ss_timezone = rc_timezone (ms_config d), ss_paused = (ms_status d = Sched_PAUSED), ss_destination = rc_destination (ms_config d)\<rparr>"

lemma managed_entry_eq:
  "e\<lparr>ss_scheduleId := ms_scheduleId d\<rparr> = managed_entry f d \<longleftrightarrow> ss_cron e = rc_cron (ms_config d) \<and>
     ss_timezone e = rc_timezone (ms_config d) \<and> ss_paused e = (ms_status d = Sched_PAUSED) \<and>
     ss_destination e = rc_destination (ms_config d) \<and> ss_externalId e = f (ms_scheduleId d)"
  by (cases e) (auto simp: managed_entry_def)

lemma managed_skews_ok:
  assumes e: "expected (ms_scheduleId d) = Inr (f (ms_scheduleId d))"
    and part: "part = projr (managed_skews expected by_id d)"
  shows "managed_skews expected by_id d = Inr part"
    and "part = [] \<longleftrightarrow> (\<exists>e. by_id (ms_scheduleId d) = Some e \<and> e\<lparr>ss_scheduleId := ms_scheduleId d\<rparr> = managed_entry f d)"
    and "distinct (map sk_detail part)"
    and "s \<in> set part \<Longrightarrow> sk_scheduleId s = ms_scheduleId d \<and> sk_detail s \<noteq> ''MISSING_DATABASE'' \<and>
           sk_databaseValue s \<noteq> sk_externalValue s"
proof -
  show "managed_skews expected by_id d = Inr part"
    using e by (auto simp: part managed_skews_def Let_def split: option.split)
  show "part = [] \<longleftrightarrow> (\<exists>e. by_id (ms_scheduleId d) = Some e \<and> e\<lparr>ss_scheduleId := ms_scheduleId d\<rparr> = managed_entry f d)"
    using e by (auto simp: part managed_skews_def Let_def managed_entry_eq split: option.split)
  show "distinct (map sk_detail part)"
    using e by (auto simp: part managed_skews_def Let_def skew_of_def split: option.split)
  show "sk_scheduleId s = ms_scheduleId d \<and> sk_detail s \<noteq> ''MISSING_DATABASE'' \<and> sk_databaseValue s \<noteq> sk_externalValue s"
    if "s \<in> set part"
    using that e by (auto simp: part managed_skews_def Let_def skew_of_def split: if_splits option.splits)
qed

lemma distinct_parts:
  assumes "distinct (map g ds)" and "\<And>d. d \<in> set ds \<Longrightarrow> distinct (map snd (part d)) \<and> (\<forall>s \<in> set (part d). fst s = g d)"
  shows "distinct (concat (map part ds))"
  using assms
proof (induction ds)
  case (Cons d ds)
  have "set (part d) \<inter> set (concat (map part ds)) = {}"
  proof (rule ccontr)
    assume "set (part d) \<inter> set (concat (map part ds)) \<noteq> {}"
    then obtain s d' where "s \<in> set (part d)" "d' \<in> set ds" "s \<in> set (part d')" by auto
    then have "g d = g d'" using Cons.prems(2) by (metis list.set_intros(1,2))
    then show False using Cons.prems(1) \<open>d' \<in> set ds\<close> by auto
  qed
  then show ?case using Cons by (auto simp: distinct_map)
qed simp

abbreviation skew_key :: "skew \<Rightarrow> string \<times> string" where
  "skew_key s \<equiv> (sk_scheduleId s, sk_detail s)"

abbreviation skews_of :: "(string \<Rightarrow> string res) \<Rightarrow> scheduler_schedule list \<Rightarrow> managed_schedule \<Rightarrow> skew list" where
  "skews_of expected external d \<equiv> projr (managed_skews expected (external_by_id external) d)"

lemma diff_ok:
  assumes "\<And>d. d \<in> set database \<Longrightarrow> expected (ms_scheduleId d) = Inr (f (ms_scheduleId d))"
  shows "diffSchedulesAgainstExternal database external expected =
    Inr (concat (map (skews_of expected external) database) @ unmanaged_skews database external)"
proof -
  have "map_rows database (managed_skews expected (external_by_id external)) = Inr (map (skews_of expected external) database)"
    using managed_skews_ok(1) [where expected = expected and f = f, OF assms refl] by (rule map_rows_map)
  then show ?thesis by (simp add: diffSchedulesAgainstExternal_def)
qed

text \<open>
  With unique schedule ids on both sides, the diff decides agreement:
  it is empty exactly when the external scheduler holds the entries of the managed schedules and
  nothing else. Every skew shows two values that differ, and no schedule has two skews of one kind, so
  that incidents are one to one with mismatches.
\<close>

theorem reconciliation_diff_exact:
  assumes "distinct (map ms_scheduleId database)" and "distinct (map ss_scheduleId external)"
    and "\<And>d. d \<in> set database \<Longrightarrow> expected (ms_scheduleId d) = Inr (f (ms_scheduleId d))"
  shows "\<exists>skews. diffSchedulesAgainstExternal database external expected = Inr skews \<and>
    (skews = [] \<longleftrightarrow> set external = managed_entry f ` set database) \<and>
    distinct (map skew_key skews) \<and> (\<forall>s \<in> set skews. sk_databaseValue s \<noteq> sk_externalValue s)"
proof -
  let ?part = "skews_of expected external"
  note diff = diff_ok [where database = database and expected = expected and f = f and external = external, OF assms(3)]
  note part = managed_skews_ok(2-4) [where expected = expected and f = f and by_id = "external_by_id external", OF assms(3) refl]
  let ?u = "unmanaged_skews database external"
  let ?skews = "concat (map ?part database) @ ?u"
  have inj: "inj_on ss_scheduleId (set external)" using assms(2) by (simp add: distinct_map)
  have found: "?part d = [] \<longleftrightarrow> managed_entry f d \<in> set external" if "d \<in> set database" for d
  proof -
    have "e\<lparr>ss_scheduleId := ms_scheduleId d\<rparr> = e" if "ss_scheduleId e = ms_scheduleId d" for e using that by simp
    then show ?thesis unfolding part(1) [OF that] external_by_id_distinct [OF inj]
      by (metis managed_entry_def scheduler_schedule.select_convs(2))
  qed
  have "?u = [] \<longleftrightarrow> ss_scheduleId ` set external \<subseteq> ms_scheduleId ` set database"
    by (auto simp: unmanaged_skews_def filter_empty_conv)
  then have "?skews = [] \<longleftrightarrow> (\<forall>d \<in> set database. managed_entry f d \<in> set external) \<and>
      ss_scheduleId ` set external \<subseteq> ms_scheduleId ` set database"
    using found by auto
  also have "\<dots> \<longleftrightarrow> set external = managed_entry f ` set database"
  proof
    assume r: "(\<forall>d \<in> set database. managed_entry f d \<in> set external) \<and>
      ss_scheduleId ` set external \<subseteq> ms_scheduleId ` set database"
    have "e \<in> managed_entry f ` set database" if e: "e \<in> set external" for e
    proof -
      obtain d where d: "d \<in> set database" "ss_scheduleId e = ms_scheduleId d" using r e by blast
      then have "ss_scheduleId (managed_entry f d) = ss_scheduleId e" by (simp add: managed_entry_def)
      then show ?thesis using r d e inj by (metis imageI inj_onD)
    qed
    then show "set external = managed_entry f ` set database" using r by blast
  qed (auto simp: managed_entry_def)
  finally have agree: "?skews = [] \<longleftrightarrow> set external = managed_entry f ` set database" .
  have "distinct (concat (map (\<lambda>d. map skew_key (?part d)) database))"
    using assms(1) part(2,3) by (intro distinct_parts [of ms_scheduleId]) (auto simp: comp_def)
  moreover have "distinct (map skew_key ?u)"
    using assms(2) by (auto simp: unmanaged_skews_def skew_of_def comp_def distinct_map inj_on_def)
  moreover have "sk_detail s = ''MISSING_DATABASE''" "sk_databaseValue s \<noteq> sk_externalValue s" if "s \<in> set ?u" for s
    using that by (auto simp: unmanaged_skews_def skew_of_def)
  ultimately have "distinct (map skew_key ?skews) \<and> (\<forall>s \<in> set ?skews. sk_databaseValue s \<noteq> sk_externalValue s)"
    using part(3) by (auto simp: map_concat comp_def) blast
  then show ?thesis using diff agree by blast
qed

text \<open>
  Two entries of one schedule: only the later one is compared, and the earlier one is no skew although
  it keeps firing for a paused schedule.
\<close>

lemma duplicate_entry_unseen:
  assumes "e = managed_entry f d" and "expected (ms_scheduleId d) = Inr (f (ms_scheduleId d))"
  shows "diffSchedulesAgainstExternal [d] [e\<lparr>ss_externalId := other, ss_paused := False\<rparr>, e] expected = Inr []"
proof -
  have "external_by_id [e\<lparr>ss_externalId := other, ss_paused := False\<rparr>, e] (ms_scheduleId d) = Some e"
    by (simp add: external_by_id_def assms(1) managed_entry_def)
  then show ?thesis using assms
    by (simp add: diffSchedulesAgainstExternal_def managed_skews_def Let_def unmanaged_skews_def managed_entry_def)
qed

section \<open>Which calls the job makes\<close>

lemma repair_skew_calls:
  assumes "\<And>k i. si_paused i \<Longrightarrow> pt_update P k i = pt_update Q k i"
  shows "repair_skew P by_id s = repair_skew Q by_id s"
proof -
  have same: "pt_update P k (pause_input e) = pt_update Q k (pause_input e)" for k e
    by (rule assms) (simp add: pause_input_def)
  show ?thesis unfolding repair_skew_def same ..
qed

lemma repair_loop_calls:
  assumes "\<And>k i. si_paused i \<Longrightarrow> pt_update P k i = pt_update Q k i"
  shows "repair_loop env P by_id i skews = repair_loop env Q by_id i skews"
  by (induction skews arbitrary: i) (simp_all add: repair_skew_calls [OF assms])

text \<open>
  C21 (reconciliation_only_pauses). Whatever the port and whatever others do meanwhile, the job depends
  on a port through its listing and its pausing updates only: on two ports that agree there, it does
  the same, result and effects. It never creates, deletes or looks up an external schedule and never
  writes one that is not paused; without repair it only lists.
\<close>

theorem reconciliation_only_pauses:
  assumes "pt_list P = pt_list Q"
    and "\<And>k i. ro_repair options \<Longrightarrow> si_paused i \<Longrightarrow> pt_update P k i = pt_update Q k i"
  shows "reconcileSchedules pf env P options = reconcileSchedules pf env Q options"
proof (cases "ro_repair options")
  case True
  then have "repair_loop env P by_id i skews = repair_loop env Q by_id i skews" for by_id i skews
    using assms(2) by (intro repair_loop_calls) blast
  then show ?thesis by (simp add: reconcileSchedules_def assms(1) Let_def True)
next
  case False
  then show ?thesis by (simp add: reconcileSchedules_def assms(1) Let_def)
qed

section \<open>A completed run\<close>

abbreviation alone :: "nat \<Rightarrow> 'a \<Rightarrow> 'a" where
  "alone i w \<equiv> w"

lemma load_reads: "loadManagedSchedules iana db = (map_rows (managed_rows db) (managed_schedule_of iana), db)"
  by (simp add: loadManagedSchedules_def)

lemma managed_rows_reports [simp]: "managed_rows (db\<lparr>reconciliation_reports := x\<rparr>) = managed_rows db"
  by (simp add: managed_rows_def cong: option.case_cong)

definition stored_report :: "string \<Rightarrow> instant \<Rightarrow> string \<Rightarrow> skew list \<Rightarrow> jsval report_row" where
  "stored_report reportId checked_at checkedAt skews =
     (let refs = map ri_incidentId (incidents_of reportId skews)
      in \<lparr>rp_report_id = reportId, rp_checked_at = checked_at, rp_diff = jsonb (diff_json checkedAt skews refs),
          rp_incident_refs = refs\<rparr>)"

text \<open>The pause a skew asks for.\<close>

definition pauses :: "(string \<Rightarrow> scheduler_schedule option) \<Rightarrow> skew \<Rightarrow> scheduler_schedule option" where
  "pauses by_id s =
     (if sk_dimension s = PAUSED_STATE \<and> sk_databaseValue s = JsBool True \<and> sk_externalValue s = JsBool False
      then by_id (sk_scheduleId s) else None)"

definition paused_view ::
  "(string \<Rightarrow> scheduler_schedule option) \<Rightarrow> skew list \<Rightarrow> (string \<Rightarrow> scheduler_schedule option) \<Rightarrow> string \<Rightarrow> scheduler_schedule option" where
  "paused_view by_id skews v k =
     map_option (\<lambda>e. if \<exists>s \<in> set skews. \<exists>ext. pauses by_id s = Some ext \<and> ss_externalId ext = k then e\<lparr>ss_paused := True\<rparr> else e) (v k)"

context scheduler_port
begin

lemma repair_skew_quiet:
  assumes "invar s" and "\<And>ext. pauses by_id sk = Some ext \<Longrightarrow> \<exists>e. view s (ss_externalId ext) = Some e \<and>
      e\<lparr>ss_paused := True\<rparr> = ext\<lparr>ss_paused := True\<rparr>"
  obtains reps s' where "repair_skew ops by_id sk (db, s) = (Inr reps, (db, s'))" and "invar s'"
    and "view s' = paused_view by_id [sk] (view s)"
    and "\<And>x. x \<in> set reps \<Longrightarrow> rx_action x = PAUSE_EXTERNAL \<Longrightarrow> pauses by_id sk \<noteq> None"
proof (cases "pauses by_id sk")
  case None
  then have "\<exists>reps. repair_skew ops by_id sk (db, s) = (Inr reps, (db, s)) \<and> (\<forall>x \<in> set reps. rx_action x \<noteq> PAUSE_EXTERNAL)"
    by (auto simp: repair_skew_def pauses_def split: option.splits if_splits)
  then obtain reps where r: "repair_skew ops by_id sk (db, s) = (Inr reps, (db, s))" "\<forall>x \<in> set reps. rx_action x \<noteq> PAUSE_EXTERNAL"
    by blast
  have "view s = paused_view by_id [sk] (view s)" using None by (simp add: paused_view_def fun_eq_iff option.map_ident)
  then show thesis using that [OF r(1) assms(1)] r(2) by blast
next
  case (Some ext)
  obtain e where e: "view s (ss_externalId ext) = Some e" "e\<lparr>ss_paused := True\<rparr> = ext\<lparr>ss_paused := True\<rparr>"
    using assms(2) [OF Some] by blast
  obtain t where t: "pt_update ops (ss_externalId ext) (pause_input ext) s = (Inr (schedule_entry (ss_externalId ext) (pause_input ext)), t)"
    "invar t" "view t = (view s)(ss_externalId ext \<mapsto> schedule_entry (ss_externalId ext) (pause_input ext))"
    using update_known [OF assms(1), of "ss_externalId ext" "pause_input ext"] e(1) by blast
  have "schedule_entry (ss_externalId ext) (pause_input ext) = ext\<lparr>ss_paused := True\<rparr>"
    by (cases ext) (simp add: schedule_entry_def pause_input_def)
  then have v: "view t = paused_view by_id [sk] (view s)"
    using t(3) e Some by (auto simp: paused_view_def fun_eq_iff option.map_ident)
  have "\<exists>reps. repair_skew ops by_id sk (db, s) = (Inr reps, (db, t))"
    using Some t(1) by (auto simp: repair_skew_def pauses_def bindP_run on_channel_def split: if_splits)
  then show thesis using that t(2) v Some by auto
qed

lemma paused_view_Cons: "paused_view by_id (sk # skews) v = paused_view by_id skews (paused_view by_id [sk] v)"
  by (auto simp: paused_view_def fun_eq_iff option.map_comp comp_def intro!: option.map_cong) blast

lemma repair_loop_quiet:
  assumes "invar s" and "\<And>sk ext. sk \<in> set skews \<Longrightarrow> pauses by_id sk = Some ext \<Longrightarrow>
      \<exists>e. view s (ss_externalId ext) = Some e \<and> e\<lparr>ss_paused := True\<rparr> = ext\<lparr>ss_paused := True\<rparr>"
  shows "\<exists>reps s'. repair_loop alone ops by_id i skews (db, s) = (Inr reps, (db, s')) \<and> invar s' \<and>
    view s' = paused_view by_id skews (view s) \<and>
    (\<forall>x \<in> set reps. rx_action x = PAUSE_EXTERNAL \<longrightarrow> (\<exists>sk \<in> set skews. pauses by_id sk \<noteq> None))"
  using assms
proof (induction skews arbitrary: s i)
  case Nil
  then show ?case by (simp add: paused_view_def fun_eq_iff option.map_ident)
next
  case (Cons sk skews)
  obtain r1 t where 1: "repair_skew ops by_id sk (db, s) = (Inr r1, (db, t))" "invar t" "view t = paused_view by_id [sk] (view s)"
    "\<And>x. x \<in> set r1 \<Longrightarrow> rx_action x = PAUSE_EXTERNAL \<Longrightarrow> pauses by_id sk \<noteq> None"
    using repair_skew_quiet [where sk = sk and by_id = by_id and db = db, OF Cons.prems(1)] Cons.prems(2) [of sk] by auto
  have keep: "\<exists>e. view t (ss_externalId ext) = Some e \<and> e\<lparr>ss_paused := True\<rparr> = ext\<lparr>ss_paused := True\<rparr>"
    if m: "sk' \<in> set skews" "pauses by_id sk' = Some ext" for sk' ext
  proof -
    obtain e where e: "view s (ss_externalId ext) = Some e" "e\<lparr>ss_paused := True\<rparr> = ext\<lparr>ss_paused := True\<rparr>"
      using Cons.prems(2) [of sk' ext] m by auto
    then have "view t (ss_externalId ext) = Some e \<or> view t (ss_externalId ext) = Some (e\<lparr>ss_paused := True\<rparr>)"
      by (simp add: 1(3) paused_view_def)
    then show ?thesis using e(2) by auto
  qed
  obtain r2 s' where
    2: "repair_loop alone ops by_id (i + 1) skews (db, t) = (Inr r2, (db, s'))" "invar s'" "view s' = paused_view by_id skews (view t)"
      "\<forall>x \<in> set r2. rx_action x = PAUSE_EXTERNAL \<longrightarrow> (\<exists>sk \<in> set skews. pauses by_id sk \<noteq> None)"
    using Cons.IH [where i = "i + 1", OF 1(2)] keep by blast
  have "repair_loop alone ops by_id i (sk # skews) (db, s) = (Inr (r1 @ r2), (db, s'))"
    using 1(1) 2(1) by (simp add: bindP_run)
  moreover have "view s' = paused_view by_id (sk # skews) (view s)" using 1(3) 2(3) paused_view_Cons by metis
  moreover have "\<forall>x \<in> set (r1 @ r2). rx_action x = PAUSE_EXTERNAL \<longrightarrow> (\<exists>sk \<in> set (sk # skews). pauses by_id sk \<noteq> None)"
    using 1(4) 2(4) by auto
  ultimately show ?case using 2(2) by blast
qed

lemma pauses_listed:
  assumes "invar s" and "set ls = ran (view s)" and "pauses (external_by_id ls) sk = Some ext"
  shows "view s (ss_externalId ext) = Some ext"
proof -
  have "ext \<in> ran (view s)"
    using assms(2,3) external_by_id_Some [of ls "sk_scheduleId sk" ext] by (simp add: pauses_def split: if_splits)
  then show ?thesis using view_key [OF assms(1)] by (auto simp: ran_def)
qed

lemma reconcile_quiet:
  assumes inv: "invar s" and run: "reconcileSchedules pf alone ops options (db, s) = (res, (db', s'))"
  obtains (failed) e where "res = Inl e" and "db' = db" and "s' = s"
  | (completed) r database ls checkedAt checked_at json where "res = Inr r"
      and "loadManagedSchedules (pf_iana pf) db = (Inr database, db)" and "pt_list ops s = (Inr ls, s)"
      and "diffSchedulesAgainstExternal database ls
        (case ro_expectedExternalId options of Some f \<Rightarrow> f | None \<Rightarrow> localExternalId) = Inr (rcr_skews r)"
      and "db' = db\<lparr>reconciliation_reports := reconciliation_reports db @
        [stored_report (rcr_reportId r) checked_at checkedAt (rcr_skews r)]\<rparr>"
      and "rcr_incidents r = incidents_of (rcr_reportId r) (rcr_skews r)"
      and "rcr_incidentRefs r = map ri_incidentId (rcr_incidents r)"
      and "canonicalJson (diff_json checkedAt (rcr_skews r) (rcr_incidentRefs r)) = Inr json"
      and "rcr_diffHash r = sha256Text (pf_sha pf) json" and "invar s'"
      and "view s' = (if ro_repair options then paused_view (external_by_id ls) (rcr_skews r) (view s) else view s)"
      and "\<And>x. x \<in> set (rcr_repaired r) \<Longrightarrow> rx_action x = PAUSE_EXTERNAL \<Longrightarrow>
        \<exists>sk \<in> set (rcr_skews r). pauses (external_by_id ls) sk \<noteq> None"
proof -
  let ?id = "case ro_reportId options of Some i \<Rightarrow> i | None \<Rightarrow> ''wfrc_'' @ pf_uuid pf"
  let ?expected = "case ro_expectedExternalId options of Some f \<Rightarrow> f | None \<Rightarrow> localExternalId"
  obtain ls where ls: "pt_list ops s = (Inr ls, s)" "set ls = ran (view s)" using list_run [OF inv] by blast
  note unfold = reconcileSchedules_def bindP_run on_db_def on_channel_def load_reads ls(1) Let_def
  consider (stop) e where "res = Inl e" "db' = db" "s' = s"
    | (go) checkedAt checked_at database skews json where "checked_now pf (ro_now options) = Inr (checkedAt, checked_at)"
        "map_rows (managed_rows db) (managed_schedule_of (pf_iana pf)) = Inr database"
        "diffSchedulesAgainstExternal database ls ?expected = Inr skews"
        "canonicalJson (diff_json checkedAt skews (map ri_incidentId (incidents_of ?id skews))) = Inr json"
        "report_insert (stored_report ?id checked_at checkedAt skews) db =
           (Inr (), db\<lparr>reconciliation_reports := reconciliation_reports db @ [stored_report ?id checked_at checkedAt skews]\<rparr>)"
    using run by (auto simp: unfold stored_report_def report_insert_def insert_stmt_def split: sum.splits prod.splits if_splits)
  then show thesis
  proof cases
    case stop
    then show thesis by (rule failed)
  next
    case go
    let ?db = "db\<lparr>reconciliation_reports := reconciliation_reports db @ [stored_report ?id checked_at checkedAt skews]\<rparr>"
    let ?m = "if ro_repair options then repair_loop alone ops (external_by_id ls) 2 skews else ret []"
    have "\<exists>reps t. ?m (?db, s) = (Inr reps, (?db, t)) \<and> invar t \<and>
        view t = (if ro_repair options then paused_view (external_by_id ls) skews (view s) else view s) \<and>
        (\<forall>x \<in> set reps. rx_action x = PAUSE_EXTERNAL \<longrightarrow> (\<exists>sk \<in> set skews. pauses (external_by_id ls) sk \<noteq> None))"
      using repair_loop_quiet [OF inv, of skews "external_by_id ls" 2 ?db] pauses_listed [OF inv ls(2)] inv by auto
    then obtain reps t where t: "?m (?db, s) = (Inr reps, (?db, t))" "invar t"
        "view t = (if ro_repair options then paused_view (external_by_id ls) skews (view s) else view s)"
        "\<And>x. x \<in> set reps \<Longrightarrow> rx_action x = PAUSE_EXTERNAL \<Longrightarrow> \<exists>sk \<in> set skews. pauses (external_by_id ls) sk \<noteq> None" by blast
    let ?r = "\<lparr>rcr_reportId = ?id, rcr_checkedAt = checkedAt, rcr_skews = skews, rcr_incidents = incidents_of ?id skews,
        rcr_incidentRefs = map ri_incidentId (incidents_of ?id skews), rcr_diffHash = sha256Text (pf_sha pf) json,
        rcr_repairRequested = ro_repair options, rcr_repaired = reps\<rparr>"
    have "res = Inr ?r" "db' = ?db" "s' = t" using run t(1) go by (simp_all add: unfold stored_report_def)
    then show thesis using go t ls(1)
      by (intro completed [of ?r database ls checked_at checkedAt json]) (simp_all add: load_reads del: bex_simps ball_simps)
  qed
qed

end

lemma incident_refs:
  "length (map ri_incidentId (incidents_of reportId skews)) = length skews"
  "distinct (map ri_incidentId (incidents_of reportId skews))"
proof -
  have refs: "map ri_incidentId (incidents_of reportId skews) = map (incident_id reportId) [0..<length skews]"
    by (simp add: incidents_of_def comp_def split_def map_fst_zip flip: map_map [of "incident_id reportId" fst, unfolded comp_def])
  have "i = j" if "incident_id reportId i = incident_id reportId j" for i j
    using that digits_number [of "i + 1"] digits_number [of "j + 1"] by (simp add: incident_id_def)
  then show "distinct (map ri_incidentId (incidents_of reportId skews))"
    unfolding refs by (simp add: distinct_map inj_on_def)
qed (simp add: incidents_of_def)

text \<open>
  On the in-process scheduler and undisturbed, the job is all or
  nothing: if it throws, store and scheduler are as before; if it completes, exactly one report is
  added and nothing else in the store changes. The report names one incident per skew, all with
  different ids, and its stored diff hashes to the returned content address. Without the repair option
  the scheduler is unchanged.
\<close>

theorem reconciliation_report_exact:
  assumes "local_inv s" and "reconcileSchedules pf alone LocalSchedulerAdapter options (db, s) = (res, (db', s'))"
  shows "case res of Inl e \<Rightarrow> db' = db \<and> s' = s
    | Inr r \<Rightarrow> \<exists>row json. db' = db\<lparr>reconciliation_reports := reconciliation_reports db @ [row]\<rparr> \<and>
        rp_report_id row = rcr_reportId r \<and> rp_incident_refs row = rcr_incidentRefs r \<and>
        length (rcr_incidentRefs r) = length (rcr_skews r) \<and> distinct (rcr_incidentRefs r) \<and>
        canonicalJson (rp_diff row) = Inr json \<and> rcr_diffHash r = sha256Text (pf_sha pf) json \<and>
        (\<not> ro_repair options \<longrightarrow> map_of s' = map_of s)"
  using assms
proof (cases rule: local_port.reconcile_quiet)
  case (completed r database ls checkedAt checked_at json)
  have "canonicalJson (rp_diff (stored_report (rcr_reportId r) checked_at checkedAt (rcr_skews r))) = Inr json"
    using completed(6-8) canonical_jsonb(1) by (simp add: stored_report_def Let_def)
  then show ?thesis using completed incident_refs [of "rcr_reportId r" "rcr_skews r"]
    by (auto simp: stored_report_def Let_def)
qed simp

text \<open>What the diff says about pauses.\<close>

lemma diff_pauses:
  assumes "diffSchedulesAgainstExternal database ls expected = Inr skews"
  shows "(\<exists>sk \<in> set skews. pauses (external_by_id ls) sk = Some ext) \<longleftrightarrow>
    (\<exists>d \<in> set database. ms_status d = Sched_PAUSED \<and> external_by_id ls (ms_scheduleId d) = Some ext \<and> \<not> ss_paused ext)"
proof -
  obtain parts where parts: "list_all2 (\<lambda>d p. managed_skews expected (external_by_id ls) d = Inr p) database parts"
    and skews: "skews = concat parts @ unmanaged_skews database ls"
    using assms by (auto simp: diffSchedulesAgainstExternal_def bindE_eq_Inr map_rows_eq_Inr)
  have one: "(\<exists>sk \<in> set p. pauses (external_by_id ls) sk = Some ext) \<longleftrightarrow>
      ms_status d = Sched_PAUSED \<and> external_by_id ls (ms_scheduleId d) = Some ext \<and> \<not> ss_paused ext"
    if "managed_skews expected (external_by_id ls) d = Inr p" for d p
    using that by (auto simp: managed_skews_def Let_def pauses_def skew_of_def bindE_eq_Inr split: option.splits if_splits)
  have "pauses (external_by_id ls) sk = None" if "sk \<in> set (unmanaged_skews database ls)" for sk
    using that by (auto simp: unmanaged_skews_def skew_of_def pauses_def)
  then have "(\<exists>sk \<in> set skews. pauses (external_by_id ls) sk = Some ext) \<longleftrightarrow>
      (\<exists>p \<in> set parts. \<exists>sk \<in> set p. pauses (external_by_id ls) sk = Some ext)"
    by (auto simp: skews)
  also have "\<dots> \<longleftrightarrow> (\<exists>d \<in> set database. ms_status d = Sched_PAUSED \<and> external_by_id ls (ms_scheduleId d) = Some ext \<and> \<not> ss_paused ext)"
    using parts by (induction rule: list_all2_induct) (simp_all add: one)
  finally show ?thesis .
qed

definition paused_by :: "managed_schedule list \<Rightarrow> scheduler_schedule \<Rightarrow> bool" where
  "paused_by database e \<longleftrightarrow> (\<exists>d \<in> set database. ms_scheduleId d = ss_scheduleId e \<and> ms_status d = Sched_PAUSED)"

lemma paused_view_exact:
  assumes "diffSchedulesAgainstExternal database ls expected = Inr skews" and "inj_on ss_scheduleId (set ls)"
    and "\<And>e. e \<in> set ls \<longleftrightarrow> v (ss_externalId e) = Some e" and "\<And>k e. v k = Some e \<Longrightarrow> ss_externalId e = k"
  shows "paused_view (external_by_id ls) skews v k = map_option (\<lambda>e. if paused_by database e then e\<lparr>ss_paused := True\<rparr> else e) (v k)"
proof (cases "v k")
  case (Some e)
  have e: "e \<in> set ls" "ss_externalId e = k" using Some assms(3,4) by auto
  have same: "ext = e" if "ext \<in> set ls" "ss_externalId ext = k" for ext using that assms(3) Some by auto
  have "(\<exists>s \<in> set skews. \<exists>ext. pauses (external_by_id ls) s = Some ext \<and> ss_externalId ext = k) \<longleftrightarrow>
      (\<exists>ext. (\<exists>s \<in> set skews. pauses (external_by_id ls) s = Some ext) \<and> ss_externalId ext = k)" by blast
  also have "\<dots> \<longleftrightarrow> paused_by database e \<and> \<not> ss_paused e"
    unfolding diff_pauses [OF assms(1)] external_by_id_distinct [OF assms(2)] paused_by_def using e same by metis
  finally show ?thesis using Some by (cases "ss_paused e") (auto simp: paused_view_def)
qed (simp add: paused_view_def)

text \<open>
  C22 (repair_converges). On the in-process scheduler, undisturbed and with one external entry per
  schedule, a completed repair pauses exactly the entries of the schedules that are paused in the
  database and leaves every other entry as it is. A later run, with or without repair, has no pause left
  to propagate: it changes no entry, and every repair it lists is a refusal to unpause.
\<close>

theorem repair_converges:
  assumes "local_inv s" and "inj_on ss_scheduleId (ran (map_of s))" and "ro_repair options"
    and run: "reconcileSchedules pf alone LocalSchedulerAdapter options (db, s) = (Inr r, (db', s'))"
    and again: "reconcileSchedules pf alone LocalSchedulerAdapter options' (db', s') = (Inr r', (db'', s''))"
  shows "\<exists>database. loadManagedSchedules (pf_iana pf) db = (Inr database, db) \<and>
    (\<forall>k. map_of s' k = map_option (\<lambda>e. if paused_by database e then e\<lparr>ss_paused := True\<rparr> else e) (map_of s k)) \<and>
    map_of s'' = map_of s' \<and> (\<forall>x \<in> set (rcr_repaired r'). rx_action x = REFUSED_UNPAUSE)"
proof -
  from assms(1) run obtain database ls where 1: "loadManagedSchedules (pf_iana pf) db = (Inr database, db)"
    "pt_list LocalSchedulerAdapter s = (Inr ls, s)"
    "diffSchedulesAgainstExternal database ls (case ro_expectedExternalId options of Some f \<Rightarrow> f | None \<Rightarrow> localExternalId) = Inr (rcr_skews r)"
    "local_inv s'" "map_of s' = paused_view (external_by_id ls) (rcr_skews r) (map_of s)" "managed_rows db' = managed_rows db"
    by (cases rule: local_port.reconcile_quiet) (auto simp: assms(3))
  obtain ls' where ls': "ls' = ls" "set ls = ran (map_of s)" "\<And>e. e \<in> set ls \<longleftrightarrow> map_of s (ss_externalId e) = Some e"
    using assms(1) 1(2) by (rule local_port.listed) auto
  have view: "map_of s' k = map_option (\<lambda>e. if paused_by database e then e\<lparr>ss_paused := True\<rparr> else e) (map_of s k)" for k
    unfolding 1(5) using 1(3) _ ls'(3) local_invD [OF assms(1)]
    by (rule paused_view_exact) (simp add: ls'(2) assms(2))
  from 1(4) again obtain database2 ls2 where 2: "loadManagedSchedules (pf_iana pf) db' = (Inr database2, db')"
    "pt_list LocalSchedulerAdapter s' = (Inr ls2, s')"
    "diffSchedulesAgainstExternal database2 ls2 (case ro_expectedExternalId options' of Some f \<Rightarrow> f | None \<Rightarrow> localExternalId) = Inr (rcr_skews r')"
    "map_of s'' = (if ro_repair options' then paused_view (external_by_id ls2) (rcr_skews r') (map_of s') else map_of s')"
    "\<And>x. x \<in> set (rcr_repaired r') \<Longrightarrow> rx_action x = PAUSE_EXTERNAL \<Longrightarrow> \<exists>sk \<in> set (rcr_skews r'). pauses (external_by_id ls2) sk \<noteq> None"
    by (cases rule: local_port.reconcile_quiet) auto
  have d: "database2 = database" using 1(1,6) 2(1) by (simp add: load_reads)
  have none: "pauses (external_by_id ls2) sk = None" if sk: "sk \<in> set (rcr_skews r')" for sk
  proof (rule ccontr)
    assume "pauses (external_by_id ls2) sk \<noteq> None"
    then obtain ext where "\<exists>sk \<in> set (rcr_skews r'). pauses (external_by_id ls2) sk = Some ext" using sk by blast
    then obtain m where m: "m \<in> set database" "ms_status m = Sched_PAUSED" "external_by_id ls2 (ms_scheduleId m) = Some ext" "\<not> ss_paused ext"
      unfolding diff_pauses [OF 2(3)] d by blast
    have "ext \<in> set ls2" "ss_scheduleId ext = ms_scheduleId m" using external_by_id_Some [OF m(3)] by auto
    moreover have "set ls2 = ran (map_of s')" using 1(4) 2(2) by (rule local_port.listed) auto
    ultimately obtain k where "map_of s' k = Some ext" by (auto simp: ran_def)
    then obtain e where "ext = (if paused_by database e then e\<lparr>ss_paused := True\<rparr> else e)" unfolding view by auto
    then have "paused_by database ext \<longrightarrow> ss_paused ext" by (auto simp: paused_by_def)
    then show False using m \<open>ss_scheduleId ext = ms_scheduleId m\<close> by (auto simp: paused_by_def)
  qed
  have "paused_view (external_by_id ls2) (rcr_skews r') (map_of s') = map_of s'"
    using none by (auto simp: paused_view_def fun_eq_iff option.map_ident intro!: option.map_ident_strong)
  then have "map_of s'' = map_of s'" using 2(4) by simp
  moreover have "rx_action x = REFUSED_UNPAUSE" if "x \<in> set (rcr_repaired r')" for x
    using 2(5) [OF that] none by (cases "rx_action x") auto
  ultimately show ?thesis using 1(1) view by blast
qed

section \<open>Instances\<close>

definition demo_managed :: managed_schedule where
  "demo_managed = \<lparr>ms_scheduleId = ''s1'', ms_status = Sched_PAUSED, ms_config = demo_config\<rparr>"

definition demo_external :: "bool \<Rightarrow> local_scheduler" where
  "demo_external p = [(''local:s1'', \<lparr>ss_externalId = ''local:s1'', ss_scheduleId = ''s1'', ss_cron = ''0 * * * *'', ss_timezone = ''UTC'',
     ss_paused = p, ss_destination = ''d''\<rparr>)]"

definition demo_paused_db :: "jsval wf_db" where
  "demo_paused_db = empty_db\<lparr>schedules := [demo_s1 Sched_PAUSED], schedule_versions := [demo_v1]\<rparr>"

definition demo_options :: "string \<Rightarrow> reconcile_options" where
  "demo_options i = \<lparr>ro_now = None, ro_repair = True, ro_reportId = Some i, ro_expectedExternalId = None\<rparr>"

lemma demo_expected: "localExternalId ''s1'' = Inr ''local:s1''"
  by (simp add: localExternalId_def requireNonEmpty_def blank_def trim_def js_space_def)

theorem reconciliation_diff_exact_witness:
  "\<exists>skews. diffSchedulesAgainstExternal [demo_managed] (map snd (demo_external False)) localExternalId = Inr skews \<and> skews \<noteq> []"
proof -
  have "\<exists>skews. diffSchedulesAgainstExternal [demo_managed] (map snd (demo_external False)) localExternalId = Inr skews \<and>
    (skews = [] \<longleftrightarrow> set (map snd (demo_external False)) = managed_entry (\<lambda>s. ''local:'' @ s) ` set [demo_managed]) \<and>
    distinct (map skew_key skews) \<and> (\<forall>s \<in> set skews. sk_databaseValue s \<noteq> sk_externalValue s)"
    by (rule reconciliation_diff_exact) (simp_all add: demo_managed_def demo_external_def demo_expected)
  moreover have "set (map snd (demo_external False)) \<noteq> managed_entry (\<lambda>s. ''local:'' @ s) ` set [demo_managed]"
    by (simp add: demo_managed_def demo_external_def managed_entry_def)
  ultimately show ?thesis by blast
qed

theorem reconciliation_only_pauses_witness:
  "\<exists>Q. Q \<noteq> LocalSchedulerAdapter \<and>
     reconcileSchedules demo_pf alone Q (demo_options ''r1'') = reconcileSchedules demo_pf alone LocalSchedulerAdapter (demo_options ''r1'')"
proof -
  let ?Q = "LocalSchedulerAdapter\<lparr>pt_delete := \<lambda>_. raise RangeError\<rparr>"
  have "pt_delete LocalSchedulerAdapter ''x'' [] \<noteq> pt_delete ?Q ''x'' []"
    by (simp add: LocalSchedulerAdapter_def local_delete_def)
  then have "?Q \<noteq> LocalSchedulerAdapter" by metis
  moreover have "reconcileSchedules demo_pf alone ?Q (demo_options ''r1'') = reconcileSchedules demo_pf alone LocalSchedulerAdapter (demo_options ''r1'')"
    by (rule reconciliation_only_pauses) simp_all
  ultimately show ?thesis by blast
qed

lemma demo_stored: "resolveScheduleConfig iana (patch_of (config_json demo_config)) None = Inr demo_config"
proof -
  have t: "trim ''scan'' = ''scan''" "trim ''d'' = ''d''" "trim ''UTC'' = ''UTC''" "trim ''0 * * * *'' = ''0 * * * *''"
    "\<not> blank ''scan''" "\<not> blank ''d''" "\<not> blank ''UTC''"
    by (simp_all add: trim_def blank_def js_space_def)
  have "split_spaces ''0 * * * *'' = [''0'', ''*'', ''*'', ''*'', ''*'']" by (simp add: js_space_def)
  then have "validateCronExpression (JsStr ''0 * * * *'') = Inr ''0 * * * *''"
    by (simp add: validateCronExpression_def t CRON_FIELD_BOUNDS_def cron_item_def cron_range_def parseCronValue_def
        one_or_two_digits_def digit_def num_text_def)
  then show ?thesis
    by (simp add: resolveScheduleConfig_def patch_of_def jsprop_def config_json_def coalesce_def sched_requireText_def
        validateIanaTimezone_def t demo_config_def)
qed

lemma demo_load: "loadManagedSchedules iana (demo_paused_db\<lparr>reconciliation_reports := x\<rparr>) =
    (Inr [demo_managed], demo_paused_db\<lparr>reconciliation_reports := x\<rparr>)"
proof -
  have "managed_rows demo_paused_db = [(demo_s1 Sched_PAUSED, config_json demo_config)]"
    by (simp add: managed_rows_def demo_paused_db_def demo_s1_def demo_v1_def empty_db_def)
  moreover have "managed_schedule_of iana (demo_s1 Sched_PAUSED, config_json demo_config) = Inr demo_managed"
    using demo_stored by (simp add: managed_schedule_of_def demo_managed_def demo_s1_def config_json_def)
  ultimately show ?thesis by (simp add: load_reads)
qed

lemma demo_local: "local_inv (demo_external p)" "inj_on ss_scheduleId (ran (map_of (demo_external p)))"
  by (auto simp: local_inv_def demo_external_def ran_def)

definition demo_skews :: "bool \<Rightarrow> skew list" where
  "demo_skews p = (if p then [] else [skew_of PAUSED_STATE ''paused'' ''s1'' (Some ''local:s1'') (JsBool True) (JsBool False)])"

lemma demo_reconcile:
  assumes "row_by rp_report_id i reports = None" and "i \<noteq> []"
  shows "\<exists>r. reconcileSchedules demo_pf alone LocalSchedulerAdapter (demo_options i)
      (demo_paused_db\<lparr>reconciliation_reports := reports\<rparr>, demo_external p) =
    (Inr r, (demo_paused_db\<lparr>reconciliation_reports := reports @ [stored_report i 1709251200000 ''t'' (demo_skews p)]\<rparr>, demo_external True)) \<and>
    rcr_skews r = demo_skews p"
proof -
  have list: "pt_list LocalSchedulerAdapter (demo_external p) = (Inr (map snd (demo_external p)), demo_external p)"
    by (simp add: LocalSchedulerAdapter_def local_list_def demo_external_def)
  have diff: "diffSchedulesAgainstExternal [demo_managed] (map snd (demo_external p)) localExternalId = Inr (demo_skews p)"
    by (simp add: diffSchedulesAgainstExternal_def managed_skews_def demo_managed_def external_by_id_def demo_external_def demo_config_def
        demo_expected unmanaged_skews_def demo_skews_def Let_def)
  let ?db = "demo_paused_db\<lparr>reconciliation_reports := reports @ [stored_report i 1709251200000 ''t'' (demo_skews p)]\<rparr>"
  let ?refs = "map ri_incidentId (incidents_of i (demo_skews p))"
  have "\<exists>json. canonicalJson (diff_json ''t'' (demo_skews p) ?refs) = Inr json"
    by (simp add: diff_json_def demo_skews_def skew_json_def skew_of_def ALL_RECONCILIATION_DIMENSIONS_def incidents_of_def)
  then obtain json where json: "canonicalJson (diff_json ''t'' (demo_skews p) ?refs) = Inr json" by blast
  have ins: "report_insert \<lparr>rp_report_id = i, rp_checked_at = 1709251200000, rp_diff = jsonb (diff_json ''t'' (demo_skews p) ?refs),
      rp_incident_refs = ?refs\<rparr> (demo_paused_db\<lparr>reconciliation_reports := reports\<rparr>) = (Inr (), ?db)"
    using assms by (simp add: report_insert_def insert_stmt_def stored_report_def Let_def)
  have "\<exists>reps. repair_loop alone LocalSchedulerAdapter (external_by_id (map snd (demo_external p))) 2 (demo_skews p) (?db, demo_external p) =
      (Inr reps, (?db, demo_external True))"
    by (simp add: demo_skews_def repair_skew_def skew_of_def external_by_id_def demo_external_def bindP_run on_channel_def
        LocalSchedulerAdapter_def local_update_def schedule_entry_def pause_input_def)
  then obtain reps where reps: "repair_loop alone LocalSchedulerAdapter (external_by_id (map snd (demo_external p))) 2 (demo_skews p) (?db, demo_external p) =
      (Inr reps, (?db, demo_external True))" by blast
  show ?thesis
    using json ins reps by (simp add: reconcileSchedules_def demo_options_def checked_now_def demo_pf_def bindP_run on_db_def on_channel_def
        demo_load list diff Let_def)
qed

abbreviation demo_first :: "jsval report_row" where
  "demo_first \<equiv> stored_report ''r1'' 1709251200000 ''t'' (demo_skews False)"

lemma demo_runs:
  "\<exists>r. reconcileSchedules demo_pf alone LocalSchedulerAdapter (demo_options ''r1'') (demo_paused_db, demo_external False) =
     (Inr r, (demo_paused_db\<lparr>reconciliation_reports := [demo_first]\<rparr>, demo_external True)) \<and> rcr_skews r = demo_skews False"
  "\<exists>r db. reconcileSchedules demo_pf alone LocalSchedulerAdapter (demo_options ''r2'')
     (demo_paused_db\<lparr>reconciliation_reports := [demo_first]\<rparr>, demo_external True) = (Inr r, (db, demo_external True))"
proof -
  have "demo_paused_db\<lparr>reconciliation_reports := []\<rparr> = demo_paused_db" by (simp add: demo_paused_db_def empty_db_def)
  then show "\<exists>r. reconcileSchedules demo_pf alone LocalSchedulerAdapter (demo_options ''r1'') (demo_paused_db, demo_external False) =
     (Inr r, (demo_paused_db\<lparr>reconciliation_reports := [demo_first]\<rparr>, demo_external True)) \<and> rcr_skews r = demo_skews False"
    using demo_reconcile [of "''r1''" "[]" False] by simp
  show "\<exists>r db. reconcileSchedules demo_pf alone LocalSchedulerAdapter (demo_options ''r2'')
     (demo_paused_db\<lparr>reconciliation_reports := [demo_first]\<rparr>, demo_external True) = (Inr r, (db, demo_external True))"
    using demo_reconcile [of "''r2''" "[demo_first]" True] by (auto simp: stored_report_def Let_def)
qed

theorem reconciliation_report_exact_witness:
  "\<exists>r db s. reconcileSchedules demo_pf alone LocalSchedulerAdapter (demo_options ''r1'') (demo_paused_db, demo_external False) = (Inr r, (db, s)) \<and>
     length (rcr_incidentRefs r) = 1"
proof -
  obtain r db s where run: "reconcileSchedules demo_pf alone LocalSchedulerAdapter (demo_options ''r1'') (demo_paused_db, demo_external False) =
      (Inr r, (db, s))" "rcr_skews r = demo_skews False" using demo_runs(1) by blast
  have "length (rcr_incidentRefs r) = length (rcr_skews r)"
    using reconciliation_report_exact [OF demo_local(1) run(1)] by auto
  then show ?thesis using run by (auto simp: demo_skews_def)
qed

theorem repair_converges_witness:
  "\<exists>r r' db db'. reconcileSchedules demo_pf alone LocalSchedulerAdapter (demo_options ''r1'') (demo_paused_db, demo_external False) =
       (Inr r, (db, demo_external True)) \<and>
     reconcileSchedules demo_pf alone LocalSchedulerAdapter (demo_options ''r2'') (db, demo_external True) = (Inr r', (db', demo_external True)) \<and>
     (\<forall>x \<in> set (rcr_repaired r'). rx_action x = REFUSED_UNPAUSE)"
proof -
  obtain r db where 1: "reconcileSchedules demo_pf alone LocalSchedulerAdapter (demo_options ''r1'') (demo_paused_db, demo_external False) =
      (Inr r, (db, demo_external True))" "db = demo_paused_db\<lparr>reconciliation_reports := [demo_first]\<rparr>" using demo_runs(1) by blast
  obtain r' db' where 2: "reconcileSchedules demo_pf alone LocalSchedulerAdapter (demo_options ''r2'') (db, demo_external True) =
      (Inr r', (db', demo_external True))" using demo_runs(2) unfolding 1(2) by blast
  have "\<forall>x \<in> set (rcr_repaired r'). rx_action x = REFUSED_UNPAUSE"
    using repair_converges [OF demo_local _ 1(1) 2] by (auto simp: demo_options_def)
  then show ?thesis using 1(1) 2 by blast
qed

end
