(* ===== verification/VerifyState.thy ===== *)
theory VerifyState
  imports DeadLetters Outbox
begin

text \<open>
  The read-only state checks (packages/workflow-runtime/src/verify-state.ts) over the tables of the
  workflow schema. A check is two queries, samples and count; other sessions may commit between
  them: \<open>env\<close>. Each resolution of the options reads the clock anew: \<open>clock i\<close>. \<open>limit\<close> is a bigint parameter of the statement.
\<close>

definition DEFAULT_INBOX_MAX_AGE_MS :: jsnum where
  "DEFAULT_INBOX_MAX_AGE_MS = Fin (5 * 60 * 1000)"

definition DEFAULT_OUTBOX_MAX_LAG_MS :: jsnum where
  "DEFAULT_OUTBOX_MAX_LAG_MS = Fin (5 * 60 * 1000)"

definition DEFAULT_WF_STATE_CHECK_LIMIT :: jsnum where
  "DEFAULT_WF_STATE_CHECK_LIMIT = Fin 100"

datatype wf_state_check =
    orphaned_outbox_claims
  | unprocessed_trigger_inbox
  | outbox_lag
  | dead_letter_backlog
  | orphaned_step_leases

fun check_name :: "wf_state_check \<Rightarrow> string" where
  "check_name orphaned_outbox_claims = ''orphaned_outbox_claims''"
| "check_name unprocessed_trigger_inbox = ''unprocessed_trigger_inbox''"
| "check_name outbox_lag = ''outbox_lag''"
| "check_name dead_letter_backlog = ''dead_letter_backlog''"
| "check_name orphaned_step_leases = ''orphaned_step_leases''"

record check_meta =
  cm_check :: wf_state_check
  cm_tables :: "string list"
  cm_description :: string

definition WF_STATE_CHECKS :: "check_meta list" where
  "WF_STATE_CHECKS =
     [\<lparr>cm_check = orphaned_outbox_claims, cm_tables = [''wf.notification_outbox''],
       cm_description = ''CLAIMED outbox rows whose claim lease expired without a SENT/FAILED mark''\<rparr>,
      \<lparr>cm_check = unprocessed_trigger_inbox, cm_tables = [''wf.trigger_inbox''],
       cm_description = ''RECEIVED/VERIFIED inbox rows older than the configured threshold''\<rparr>,
      \<lparr>cm_check = outbox_lag, cm_tables = [''wf.notification_outbox''],
       cm_description = ''PENDING outbox rows older than the configured lag threshold''\<rparr>,
      \<lparr>cm_check = dead_letter_backlog, cm_tables = [''wf.dead_letters''],
       cm_description = ''OPEN dead letters awaiting operator action''\<rparr>,
      \<lparr>cm_check = orphaned_step_leases, cm_tables = [''wf.step_leases''],
       cm_description = ''unreleased step leases past their expiry''\<rparr>]"

section \<open>Options\<close>

record wf_state_check_options =
  vo_now :: "iso option"
  vo_inboxMaxAgeMs :: "jsnum option"
  vo_outboxMaxLagMs :: "jsnum option"
  vo_limit :: "jsnum option"

record resolved_check_options =
  vc_now :: instant
  vc_inboxMaxAgeMs :: jsnum
  vc_outboxMaxLagMs :: jsnum
  vc_limit :: int

abbreviation check_refused :: "'a res" where
  "check_refused \<equiv> Inl (ForesiftError WF_STATE_CHECK_UNKNOWN)"

definition bad_duration :: "jsnum \<Rightarrow> bool" where
  "bad_duration d \<longleftrightarrow> \<not> js_isFinite d \<or> js_lt d (Fin 0)"

definition resolveOptions :: "instant \<Rightarrow> wf_state_check_options \<Rightarrow> resolved_check_options res" where
  "resolveOptions clock options =
     (case (case vo_now options of None \<Rightarrow> Some clock | Some now \<Rightarrow> now) of
        None \<Rightarrow> check_refused
      | Some now \<Rightarrow>
          (let inboxMaxAgeMs = (case vo_inboxMaxAgeMs options of Some d \<Rightarrow> d | None \<Rightarrow> DEFAULT_INBOX_MAX_AGE_MS);
               outboxMaxLagMs = (case vo_outboxMaxLagMs options of Some d \<Rightarrow> d | None \<Rightarrow> DEFAULT_OUTBOX_MAX_LAG_MS);
               limit = (case vo_limit options of Some l \<Rightarrow> l | None \<Rightarrow> DEFAULT_WF_STATE_CHECK_LIMIT)
           in if bad_duration inboxMaxAgeMs then check_refused
              else if bad_duration outboxMaxLagMs then check_refused
              else case limit of
                Fin l \<Rightarrow>
                  if l \<noteq> of_int \<lfloor>l\<rfloor> \<or> l \<le> 0 then check_refused
                  else Inr \<lparr>vc_now = now, vc_inboxMaxAgeMs = inboxMaxAgeMs, vc_outboxMaxLagMs = outboxMaxLagMs, vc_limit = \<lfloor>l\<rfloor>\<rparr>
              | _ \<Rightarrow> check_refused))"

text \<open>\<open>new Date(Date.parse(now) - ageMs).toISOString()\<close>\<close>

definition cutoff :: "instant \<Rightarrow> jsnum \<Rightarrow> instant res" where
  "cutoff now ageMs = date_add now (js_neg ageMs)"

definition sql_limit :: "int \<Rightarrow> nat res" where
  "sql_limit l = (if l < 2 ^ 63 then Inr (nat l) else Inl SqlError)"

section \<open>The offending rows\<close>

definition orphaned_claim :: "instant \<Rightarrow> outbox_row \<Rightarrow> bool" where
  "orphaned_claim now r \<longleftrightarrow> o_status r = Out_CLAIMED \<and> (case o_claim_expires_at r of None \<Rightarrow> False | Some e \<Rightarrow> e \<le> now)"

definition unprocessed :: "instant \<Rightarrow> inbox_row \<Rightarrow> bool" where
  "unprocessed receivedBefore r \<longleftrightarrow> i_status r \<in> {Trig_RECEIVED, Trig_VERIFIED} \<and> i_received_at r \<le> receivedBefore"

definition lagging :: "instant \<Rightarrow> outbox_row \<Rightarrow> bool" where
  "lagging enqueuedBefore r \<longleftrightarrow> o_status r = Out_PENDING \<and> o_enqueued_at r \<le> enqueuedBefore"

definition open_letter :: "'p dead_letter_row \<Rightarrow> bool" where
  "open_letter r \<longleftrightarrow> dl_status r = DL_OPEN"

definition orphaned_lease :: "instant \<Rightarrow> lease_row \<Rightarrow> bool" where
  "orphaned_lease now r \<longleftrightarrow> l_released_at r = None \<and> l_expires_at r \<le> now"

text \<open>\<open>ORDER BY a, b LIMIT n\<close>\<close>

definition first_by :: "('r \<Rightarrow> 'a::linorder) \<Rightarrow> ('r \<Rightarrow> 'b::linorder) \<Rightarrow> ('r \<Rightarrow> bool) \<Rightarrow> nat \<Rightarrow> 'r list \<Rightarrow> 'r list" where
  "first_by a b p n rows = take n (sort_key a (sort_key b (filter p rows)))"

record orphaned_outbox_claim =
  oc_outboxId :: string
  oc_claimOwner :: "string option"
  oc_claimExpiresAt :: "instant option"
  oc_attempts :: int

record unprocessed_inbox_row =
  ur_inboxId :: string
  ur_scheduleId :: string
  ur_status :: trigger_status
  ur_receivedAt :: instant

record outbox_lag_row =
  ol_outboxId :: string
  ol_status :: outbox_status
  ol_enqueuedAt :: instant
  ol_attempts :: int

record open_dead_letter_row =
  ol_deadLetterId :: string
  ol_runId :: string
  ol_errorClass :: retry_error_class
  ol_openedAt :: instant

record orphaned_step_lease =
  ol_resourceKey :: string
  ol_owner :: string
  ol_expiresAt :: instant

definition claim_sample :: "outbox_row \<Rightarrow> orphaned_outbox_claim" where
  "claim_sample r = \<lparr>oc_outboxId = o_outbox_id r, oc_claimOwner = o_claim_owner r, oc_claimExpiresAt = o_claim_expires_at r,
     oc_attempts = o_attempts r\<rparr>"

definition inbox_sample :: "inbox_row \<Rightarrow> unprocessed_inbox_row" where
  "inbox_sample r = \<lparr>ur_inboxId = i_inbox_id r, ur_scheduleId = i_schedule_id r, ur_status = i_status r, ur_receivedAt = i_received_at r\<rparr>"

definition lag_sample :: "outbox_row \<Rightarrow> outbox_lag_row" where
  "lag_sample r = \<lparr>ol_outboxId = o_outbox_id r, ol_status = o_status r, ol_enqueuedAt = o_enqueued_at r, ol_attempts = o_attempts r\<rparr>"

definition letter_sample :: "'p dead_letter_row \<Rightarrow> open_dead_letter_row" where
  "letter_sample r = \<lparr>ol_deadLetterId = dl_dead_letter_id r, ol_runId = dl_run_id r, ol_errorClass = dl_error_class r,
     ol_openedAt = dl_opened_at r\<rparr>"

definition lease_sample :: "lease_row \<Rightarrow> orphaned_step_lease" where
  "lease_sample r = \<lparr>ol_resourceKey = l_resource_key r, ol_owner = l_owner r, ol_expiresAt = l_expires_at r\<rparr>"

text \<open>The expiry a row sorts by: the predicate has ruled out null.\<close>

definition claim_expiry :: "outbox_row \<Rightarrow> instant" where
  "claim_expiry r = (case o_claim_expires_at r of Some e \<Rightarrow> e | None \<Rightarrow> 0)"

definition findOrphanedOutboxClaims ::
  "instant \<Rightarrow> wf_state_check_options \<Rightarrow> ('p wf_db, orphaned_outbox_claim list) prog" where
  "findOrphanedOutboxClaims clock options =
     bindP (liftE (resolveOptions clock options)) (\<lambda>q.
     bindP (liftE (sql_limit (vc_limit q))) (\<lambda>limit.
     reads (\<lambda>db. map claim_sample (first_by claim_expiry o_outbox_id (orphaned_claim (vc_now q)) limit (notification_outbox db)))))"

definition findUnprocessedTriggerInbox ::
  "instant \<Rightarrow> wf_state_check_options \<Rightarrow> ('p wf_db, unprocessed_inbox_row list) prog" where
  "findUnprocessedTriggerInbox clock options =
     bindP (liftE (resolveOptions clock options)) (\<lambda>q.
     bindP (liftE (cutoff (vc_now q) (vc_inboxMaxAgeMs q))) (\<lambda>receivedBefore.
     bindP (liftE (sql_limit (vc_limit q))) (\<lambda>limit.
     reads (\<lambda>db. map inbox_sample (first_by i_received_at i_inbox_id (unprocessed receivedBefore) limit (trigger_inbox db))))))"

definition findOutboxLag :: "instant \<Rightarrow> wf_state_check_options \<Rightarrow> ('p wf_db, outbox_lag_row list) prog" where
  "findOutboxLag clock options =
     bindP (liftE (resolveOptions clock options)) (\<lambda>q.
     bindP (liftE (cutoff (vc_now q) (vc_outboxMaxLagMs q))) (\<lambda>enqueuedBefore.
     bindP (liftE (sql_limit (vc_limit q))) (\<lambda>limit.
     reads (\<lambda>db. map lag_sample (first_by o_enqueued_at o_outbox_id (lagging enqueuedBefore) limit (notification_outbox db))))))"

definition findOpenDeadLetters :: "instant \<Rightarrow> wf_state_check_options \<Rightarrow> ('p wf_db, open_dead_letter_row list) prog" where
  "findOpenDeadLetters clock options =
     bindP (liftE (resolveOptions clock options)) (\<lambda>q.
     bindP (liftE (sql_limit (vc_limit q))) (\<lambda>limit.
     reads (\<lambda>db. map letter_sample (first_by dl_opened_at dl_dead_letter_id open_letter limit (dead_letters db)))))"

definition findOrphanedStepLeases :: "instant \<Rightarrow> wf_state_check_options \<Rightarrow> ('p wf_db, orphaned_step_lease list) prog" where
  "findOrphanedStepLeases clock options =
     bindP (liftE (resolveOptions clock options)) (\<lambda>q.
     bindP (liftE (sql_limit (vc_limit q))) (\<lambda>limit.
     reads (\<lambda>db. map lease_sample (first_by l_expires_at l_resource_key (orphaned_lease (vc_now q)) limit (step_leases db)))))"

section \<open>The checks\<close>

datatype wf_samples =
    ClaimSamples "orphaned_outbox_claim list"
  | InboxSamples "unprocessed_inbox_row list"
  | LagSamples "outbox_lag_row list"
  | LetterSamples "open_dead_letter_row list"
  | LeaseSamples "orphaned_step_lease list"

record wf_state_finding =
  wf_check :: wf_state_check
  wf_ok :: bool
  wf_count :: nat
  wf_tables :: "string list"
  wf_description :: string
  wf_limit :: int
  wf_maxAgeMs :: "jsnum option"
  wf_samples :: wf_samples

definition checkMeta :: "string \<Rightarrow> check_meta res" where
  "checkMeta name = (case find (\<lambda>c. check_name (cm_check c) = name) WF_STATE_CHECKS of None \<Rightarrow> check_refused | Some m \<Rightarrow> Inr m)"

definition finding ::
  "check_meta \<Rightarrow> int \<Rightarrow> jsnum option \<Rightarrow> wf_samples \<Rightarrow> nat \<Rightarrow> wf_state_finding" where
  "finding meta limit maxAge samples n =
     \<lparr>wf_check = cm_check meta, wf_ok = (n = 0), wf_count = n, wf_tables = cm_tables meta,
      wf_description = cm_description meta, wf_limit = limit, wf_maxAgeMs = maxAge, wf_samples = samples\<rparr>"

definition countRows :: "('p wf_db \<Rightarrow> 'r list) \<Rightarrow> ('r \<Rightarrow> bool) \<Rightarrow> ('p wf_db, nat) prog" where
  "countRows table p = reads (\<lambda>db. length (filter p (table db)))"

definition runWfStateCheck ::
  "(nat \<Rightarrow> instant) \<Rightarrow> (nat \<Rightarrow> 'p wf_db \<Rightarrow> 'p wf_db) \<Rightarrow> string \<Rightarrow> wf_state_check_options \<Rightarrow> ('p wf_db, wf_state_finding) prog" where
  "runWfStateCheck clock env name options =
     bindP (liftE (checkMeta name)) (\<lambda>meta.
     bindP (liftE (resolveOptions (clock 0) options)) (\<lambda>q.
     case cm_check meta of
       orphaned_outbox_claims \<Rightarrow>
         bindP (findOrphanedOutboxClaims (clock 1) options) (\<lambda>samples.
         bindP (gap env 0) (\<lambda>_.
         bindP (countRows notification_outbox (orphaned_claim (vc_now q))) (\<lambda>n.
         ret (finding meta (vc_limit q) None (ClaimSamples samples) n))))
     | unprocessed_trigger_inbox \<Rightarrow>
         bindP (findUnprocessedTriggerInbox (clock 1) options) (\<lambda>samples.
         bindP (liftE (cutoff (vc_now q) (vc_inboxMaxAgeMs q))) (\<lambda>before.
         bindP (gap env 0) (\<lambda>_.
         bindP (countRows trigger_inbox (unprocessed before)) (\<lambda>n.
         ret (finding meta (vc_limit q) (Some (vc_inboxMaxAgeMs q)) (InboxSamples samples) n)))))
     | outbox_lag \<Rightarrow>
         bindP (findOutboxLag (clock 1) options) (\<lambda>samples.
         bindP (liftE (cutoff (vc_now q) (vc_outboxMaxLagMs q))) (\<lambda>before.
         bindP (gap env 0) (\<lambda>_.
         bindP (countRows notification_outbox (lagging before)) (\<lambda>n.
         ret (finding meta (vc_limit q) (Some (vc_outboxMaxLagMs q)) (LagSamples samples) n)))))
     | dead_letter_backlog \<Rightarrow>
         bindP (findOpenDeadLetters (clock 1) options) (\<lambda>samples.
         bindP (gap env 0) (\<lambda>_.
         bindP (countRows dead_letters open_letter) (\<lambda>n.
         ret (finding meta (vc_limit q) None (LetterSamples samples) n))))
     | orphaned_step_leases \<Rightarrow>
         bindP (findOrphanedStepLeases (clock 1) options) (\<lambda>samples.
         bindP (gap env 0) (\<lambda>_.
         bindP (countRows step_leases (orphaned_lease (vc_now q))) (\<lambda>n.
         ret (finding meta (vc_limit q) None (LeaseSamples samples) n))))))"

text \<open>The checks one after the other; the interference of the \<open>n\<close>-th check is \<open>env n\<close>.\<close>

fun run_checks ::
  "(nat \<Rightarrow> nat \<Rightarrow> instant) \<Rightarrow> (nat \<Rightarrow> nat \<Rightarrow> 'p wf_db \<Rightarrow> 'p wf_db) \<Rightarrow> nat \<Rightarrow> wf_state_check_options \<Rightarrow> check_meta list \<Rightarrow>
   ('p wf_db, wf_state_finding list) prog" where
  "run_checks clock env n options [] = ret []"
| "run_checks clock env n options (c # cs) =
     bindP (runWfStateCheck (clock n) (env n) (check_name (cm_check c)) options) (\<lambda>f.
     bindP (gap (env n) 1) (\<lambda>_.
     bindP (run_checks clock env (n + 1) options cs) (\<lambda>fs. ret (f # fs))))"

definition runAllWfStateChecks ::
  "(nat \<Rightarrow> nat \<Rightarrow> instant) \<Rightarrow> (nat \<Rightarrow> nat \<Rightarrow> 'p wf_db \<Rightarrow> 'p wf_db) \<Rightarrow> wf_state_check_options \<Rightarrow> ('p wf_db, wf_state_finding list) prog" where
  "runAllWfStateChecks clock env options = run_checks clock env 0 options WF_STATE_CHECKS"

end
