(* ===== verification/VerifyLaws.thy ===== *)
theory VerifyLaws
  imports VerifyState OutboxCommit
begin

text \<open>
  What the state checks tell: run undisturbed, they are clear exactly when nothing is stuck in the
  runtime's own terms, they never write, and a batch claim clears the orphaned claims they report.
\<close>

definition sample_count :: "wf_samples \<Rightarrow> nat" where
  "sample_count s = (case s of ClaimSamples xs \<Rightarrow> length xs | InboxSamples xs \<Rightarrow> length xs | LagSamples xs \<Rightarrow> length xs
     | LetterSamples xs \<Rightarrow> length xs | LeaseSamples xs \<Rightarrow> length xs)"

lemma first_by_length [simp]: "length (first_by a b p n rows) = min n (length (filter p rows))"
  by (simp add: first_by_def min.commute)

lemma checkMeta_known: "checkMeta (check_name c) = Inr m \<Longrightarrow> cm_check m = c"
  by (cases c) (auto simp: checkMeta_def WF_STATE_CHECKS_def)

lemma checkMeta_total: "\<exists>m. checkMeta (check_name c) = Inr m \<and> cm_check m = c"
  by (cases c) (simp_all add: checkMeta_def WF_STATE_CHECKS_def)

text \<open>The rows a check counts.\<close>

fun offending :: "resolved_check_options \<Rightarrow> instant \<Rightarrow> instant \<Rightarrow> wf_state_check \<Rightarrow> 'p wf_db \<Rightarrow> nat" where
  "offending q before lag orphaned_outbox_claims db = length (filter (orphaned_claim (vc_now q)) (notification_outbox db))"
| "offending q before lag unprocessed_trigger_inbox db = length (filter (unprocessed before) (trigger_inbox db))"
| "offending q before lag outbox_lag db = length (filter (lagging lag) (notification_outbox db))"
| "offending q before lag dead_letter_backlog db = length (filter open_letter (dead_letters db))"
| "offending q before lag orphaned_step_leases db = length (filter (orphaned_lease (vc_now q)) (step_leases db))"

lemma check_run:
  assumes "runWfStateCheck clock env (check_name c) options db = (res, db')"
  shows "case res of Inl e \<Rightarrow> db' = db
    | Inr f \<Rightarrow> db' = env 0 db \<and> wf_check f = c \<and> wf_ok f = (wf_count f = 0)"
proof -
  obtain m where m: "checkMeta (check_name c) = Inr m" "cm_check m = c" using checkMeta_total by blast
  show ?thesis using assms(1) [unfolded runWfStateCheck_def m(1)] m(2)
    by (cases c; auto simp: bindP_run findOrphanedOutboxClaims_def findUnprocessedTriggerInbox_def
        findOutboxLag_def findOpenDeadLetters_def findOrphanedStepLeases_def countRows_def finding_def split: sum.splits)
qed

lemma check_quiet:
  assumes "runWfStateCheck (\<lambda>_. t) (\<lambda>_ d. d) (check_name c) options db = (Inr f, db')" and "resolveOptions t options = Inr q"
    and "c = unprocessed_trigger_inbox \<Longrightarrow> cutoff (vc_now q) (vc_inboxMaxAgeMs q) = Inr before"
    and "c = outbox_lag \<Longrightarrow> cutoff (vc_now q) (vc_outboxMaxLagMs q) = Inr lag"
  shows "wf_count f = offending q before lag c db \<and> sample_count (wf_samples f) = min (wf_count f) (nat (vc_limit q))"
proof -
  obtain m where m: "checkMeta (check_name c) = Inr m" "cm_check m = c" using checkMeta_total by blast
  show ?thesis using assms(1) [unfolded runWfStateCheck_def m(1)] m(2) assms(2-)
    by (cases c; auto simp: bindP_run findOrphanedOutboxClaims_def findUnprocessedTriggerInbox_def
        findOutboxLag_def findOpenDeadLetters_def findOrphanedStepLeases_def countRows_def finding_def sample_count_def
        sql_limit_def min.commute split: sum.splits if_splits)
qed

lemma all_checks:
  "(\<forall>c. P c) \<longleftrightarrow> P orphaned_outbox_claims \<and> P unprocessed_trigger_inbox \<and> P outbox_lag \<and> P dead_letter_backlog \<and> P orphaned_step_leases"
proof
  assume all: "P orphaned_outbox_claims \<and> P unprocessed_trigger_inbox \<and> P outbox_lag \<and> P dead_letter_backlog \<and> P orphaned_step_leases"
  show "\<forall>c. P c"
  proof
    fix c show "P c" using all by (cases c) simp_all
  qed
qed blast

lemma checks_quiet:
  assumes "run_checks (\<lambda>_ _. t) (\<lambda>_ _ d. d) n options cs db = (Inr fs, db')"
  shows "db' = db \<and> list_all2 (\<lambda>c f. runWfStateCheck (\<lambda>_. t) (\<lambda>_ d. d) (check_name (cm_check c)) options db = (Inr f, db)) cs fs"
  using assms
proof (induction cs arbitrary: n fs)
  case (Cons c cs)
  obtain f u fs' where f: "runWfStateCheck (\<lambda>_. t) (\<lambda>_ d. d) (check_name (cm_check c)) options db = (Inr f, u)"
    and fs: "fs = f # fs'" "run_checks (\<lambda>_ _. t) (\<lambda>_ _ d. d) (n + 1) options cs u = (Inr fs', db')"
    using Cons.prems by (auto simp: bindP_eq_Inr)
  have "u = db" using check_run [OF f] by simp
  then show ?case using Cons.IH [of "n + 1" fs'] f fs by simp
qed simp

text \<open>
  Run undisturbed at one instant, the checks write nothing, come in the documented
  order, and each shows its offending rows up to the limit. All are clear exactly when nothing is stuck in the
  runtime's own terms: no claimed outbox row could be claimed again, no trigger delivery and no outbox row
  is waiting for longer than its threshold, no dead letter is open, and every step lease not released
  has its expiry ahead.
\<close>

theorem state_checks_exact:
  assumes "runAllWfStateChecks (\<lambda>_ _. t) (\<lambda>_ _ d. d) options db = (Inr fs, db')"
  shows "\<exists>q before lag. resolveOptions t options = Inr q \<and> cutoff (vc_now q) (vc_inboxMaxAgeMs q) = Inr before \<and>
    cutoff (vc_now q) (vc_outboxMaxLagMs q) = Inr lag \<and> db' = db \<and> map wf_check fs = map cm_check WF_STATE_CHECKS \<and>
    (\<forall>f \<in> set fs. sample_count (wf_samples f) = min (wf_count f) (nat (vc_limit q))) \<and>
    (list_all wf_ok fs \<longleftrightarrow>
       (\<forall>r \<in> set (notification_outbox db). \<not> (claimable (vc_now q) r \<and> o_status r = Out_CLAIMED) \<and>
          \<not> (o_status r = Out_PENDING \<and> o_enqueued_at r \<le> lag)) \<and>
       (\<forall>i \<in> set (trigger_inbox db). i_received_at i \<le> before \<longrightarrow> i_status i \<notin> {Trig_RECEIVED, Trig_VERIFIED}) \<and>
       (\<forall>l \<in> set (dead_letters db). dl_status l \<noteq> DL_OPEN) \<and>
       (\<forall>l \<in> set (step_leases db). l_released_at l = None \<longrightarrow> vc_now q < l_expires_at l))"
proof -
  obtain q where q: "resolveOptions t options = Inr q"
    using assms by (auto simp: runAllWfStateChecks_def WF_STATE_CHECKS_def runWfStateCheck_def bindP_eq_Inr)
  have db: "db' = db" and fs: "list_all2 (\<lambda>c f. runWfStateCheck (\<lambda>_. t) (\<lambda>_ d. d) (check_name (cm_check c)) options db = (Inr f, db))
      WF_STATE_CHECKS fs" using checks_quiet assms unfolding runAllWfStateChecks_def by blast+
  let ?ran = "\<lambda>c f. runWfStateCheck (\<lambda>_. t) (\<lambda>_ d. d) (check_name c) options db = (Inr f, db)"
  obtain f1 f2 f3 f4 f5 where fl: "fs = [f1, f2, f3, f4, f5]" and ran: "?ran orphaned_outbox_claims f1"
    "?ran unprocessed_trigger_inbox f2" "?ran outbox_lag f3" "?ran dead_letter_backlog f4" "?ran orphaned_step_leases f5"
    using fs by (auto simp: WF_STATE_CHECKS_def list_all2_Cons1)
  have "\<exists>before. cutoff (vc_now q) (vc_inboxMaxAgeMs q) = Inr before"
    using ran(2) by (auto simp: runWfStateCheck_def checkMeta_def WF_STATE_CHECKS_def bindP_eq_Inr q)
  then obtain before where before: "cutoff (vc_now q) (vc_inboxMaxAgeMs q) = Inr before" by blast
  have "\<exists>lag. cutoff (vc_now q) (vc_outboxMaxLagMs q) = Inr lag"
    using ran(3) by (auto simp: runWfStateCheck_def checkMeta_def WF_STATE_CHECKS_def bindP_eq_Inr q)
  then obtain lag where lag: "cutoff (vc_now q) (vc_outboxMaxLagMs q) = Inr lag" by blast
  note exact = check_quiet [OF _ q before lag] and meta = check_run
  have c: "wf_check f = c" "wf_ok f = (offending q before lag c db = 0)" "sample_count (wf_samples f) = min (wf_count f) (nat (vc_limit q))"
    if "?ran c f" for c f
    using exact [OF that] meta [OF that] by simp_all
  have ok: "list_all wf_ok fs \<longleftrightarrow> (\<forall>c. offending q before lag c db = 0)"
    unfolding all_checks using ran [THEN c(2)] by (simp add: fl)
  have "(\<forall>c. offending q before lag c db = 0) \<longleftrightarrow>
      (\<forall>r \<in> set (notification_outbox db). \<not> orphaned_claim (vc_now q) r) \<and> (\<forall>i \<in> set (trigger_inbox db). \<not> unprocessed before i) \<and>
      (\<forall>r \<in> set (notification_outbox db). \<not> lagging lag r) \<and> (\<forall>l \<in> set (dead_letters db). \<not> open_letter l) \<and>
      (\<forall>l \<in> set (step_leases db). \<not> orphaned_lease (vc_now q) l)"
    unfolding all_checks by (simp add: filter_empty_conv)
  also have "\<dots> \<longleftrightarrow> (\<forall>r \<in> set (notification_outbox db). \<not> (claimable (vc_now q) r \<and> o_status r = Out_CLAIMED) \<and>
          \<not> (o_status r = Out_PENDING \<and> o_enqueued_at r \<le> lag)) \<and>
       (\<forall>i \<in> set (trigger_inbox db). i_received_at i \<le> before \<longrightarrow> i_status i \<notin> {Trig_RECEIVED, Trig_VERIFIED}) \<and>
       (\<forall>l \<in> set (dead_letters db). dl_status l \<noteq> DL_OPEN) \<and>
       (\<forall>l \<in> set (step_leases db). l_released_at l = None \<longrightarrow> vc_now q < l_expires_at l)"
    unfolding orphaned_claim_def claimable_def unprocessed_def lagging_def open_letter_def orphaned_lease_def
    by (auto simp: not_le)
  finally have clear: "list_all wf_ok fs \<longleftrightarrow> \<dots>" unfolding ok .
  have "map wf_check fs = map cm_check WF_STATE_CHECKS" using ran [THEN c(1)] by (simp add: fl WF_STATE_CHECKS_def)
  moreover have "\<forall>f \<in> set fs. sample_count (wf_samples f) = min (wf_count f) (nat (vc_limit q))" using ran [THEN c(3)] by (simp add: fl)
  ultimately show ?thesis using q before lag db clear by blast
qed

section \<open>Recovery\<close>

lemma claimed_batch:
  assumes "claimOutboxBatch clock locked w (Some (Some t)) lease limit db = (Inr cs, db')"
    and "claim_lease lease = Inr d" and "claim_limit limit = Inr n"
  obtains e where "date_add t d = Inr e" and "notification_outbox db' = map (claim_row (claim_tokens (wf_outbox_fencing_seq db)
      (claim_candidates locked t n (notification_outbox db))) w t e) (notification_outbox db)"
proof -
  obtain worker where w: "requireText w = Inr worker" using assms(1) by (auto simp: claimOutboxBatch_def bindP_eq_Inr)
  then have "worker = w" by (auto simp: requireText_def split: if_splits)
  with w show thesis using assms that
    by (auto simp: claimOutboxBatch_def bindP_eq_Inr outbox_nowIso_def addMs_def claim_batch_stmt_def Let_def)
qed

text \<open>
  The outbox recovers from crashed workers: after a batch claim with a
  lease of at least a millisecond and a limit that covers the free rows, no claimed row is past its
  expiry, and the check for orphaned claims at the same instant reports ok.
\<close>

theorem claim_clears_orphans:
  assumes "claimOutboxBatch clock [] w (Some (Some t)) lease limit db = (Inr cs, db')"
    and "claim_lease lease = Inr (Fin d)" and "1 \<le> d" and "\<bar>t\<bar> \<le> 8640000000000000" and "claim_limit limit = Inr n"
    and "length (filter (claimable t) (notification_outbox db)) \<le> n"
  shows "\<exists>f. runWfStateCheck ck (\<lambda>_ d. d) ''orphaned_outbox_claims''
      \<lparr>vo_now = Some (Some t), vo_inboxMaxAgeMs = None, vo_outboxMaxLagMs = None, vo_limit = None\<rparr> db' = (Inr f, db') \<and> wf_ok f"
proof -
  let ?cs = "claim_candidates [] t n (notification_outbox db)"
  obtain e where e: "date_add t (Fin d) = Inr e" and rows: "notification_outbox db' =
      map (claim_row (claim_tokens (wf_outbox_fencing_seq db) ?cs) w t e) (notification_outbox db)"
    using assms(1,2,5) by (rule claimed_batch)
  have later: "t < e" using assms(4,3) e by (rule date_add_later)
  have "\<not> orphaned_claim t (claim_row (claim_tokens (wf_outbox_fencing_seq db) ?cs) w t e r)" if r: "r \<in> set (notification_outbox db)" for r
  proof (cases "map_of (claim_tokens (wf_outbox_fencing_seq db) ?cs) (o_outbox_id r)")
    case None
    have "r \<notin> set ?cs" using None by (auto simp: claim_tokens_def)
    then have "\<not> claimable t r" using r assms(6) by (simp add: claim_candidates_def)
    then show ?thesis using None by (simp add: claim_row_def orphaned_claim_def claimable_def)
  next
    case (Some k)
    then show ?thesis using later by (simp add: claim_row_def claim_set_def orphaned_claim_def)
  qed
  then have none: "filter (orphaned_claim t) (notification_outbox db') = []" by (simp add: rows filter_empty_conv)
  show ?thesis
    by (simp add: runWfStateCheck_def checkMeta_def WF_STATE_CHECKS_def resolveOptions_def bad_duration_def DEFAULT_INBOX_MAX_AGE_MS_def
        DEFAULT_OUTBOX_MAX_LAG_MS_def DEFAULT_WF_STATE_CHECK_LIMIT_def findOrphanedOutboxClaims_def bindP_run sql_limit_def
        countRows_def finding_def none Let_def)
qed

theorem claim_clears_orphans_witness:
  "orphaned_claim 60010 (claim_set ''w1'' 10 30010 1 demo_entry) \<and>
   (\<exists>f. runWfStateCheck (\<lambda>_. 0) (\<lambda>_ d. d) ''orphaned_outbox_claims''
      \<lparr>vo_now = Some (Some 60010), vo_inboxMaxAgeMs = None, vo_outboxMaxLagMs = None, vo_limit = None\<rparr> (demo_claimed ''w2'' 2 60010) =
        (Inr f, demo_claimed ''w2'' 2 60010) \<and> wf_ok f)"
proof -
  have "claim_lease None = Inr (Fin 30000)" "claim_limit None = Inr 10"
    by (simp_all add: claim_lease_def claim_limit_def MAX_BATCH_LIMIT_def js_le_def js_eq_def)
  moreover have "length (filter (claimable 60010) (notification_outbox (demo_claimed ''w1'' 1 10))) \<le> 10"
    by (simp add: demo_claimed_def)
  ultimately show ?thesis
    using claim_clears_orphans [OF demo_claim_runs(2)] by (simp add: orphaned_claim_def claim_set_def)
qed

theorem state_checks_exact_witness:
  "\<exists>fs. runAllWfStateChecks (\<lambda>_ _. 60010) (\<lambda>_ _ d. d) \<lparr>vo_now = None, vo_inboxMaxAgeMs = None, vo_outboxMaxLagMs = None, vo_limit = None\<rparr>
      (demo_claimed ''w1'' 1 10) = (Inr fs, demo_claimed ''w1'' 1 10) \<and> \<not> list_all wf_ok fs"
proof -
  let ?o = "\<lparr>vo_now = None, vo_inboxMaxAgeMs = None, vo_outboxMaxLagMs = None, vo_limit = None\<rparr>"
  let ?db = "demo_claimed ''w1'' 1 10"
  have q: "resolveOptions 60010 ?o = Inr \<lparr>vc_now = 60010, vc_inboxMaxAgeMs = Fin 300000, vc_outboxMaxLagMs = Fin 300000, vc_limit = 100\<rparr>"
    by (simp add: resolveOptions_def bad_duration_def DEFAULT_INBOX_MAX_AGE_MS_def DEFAULT_OUTBOX_MAX_LAG_MS_def DEFAULT_WF_STATE_CHECK_LIMIT_def Let_def)
  have "cutoff 60010 (Fin 300000) = Inr (- 239990)"
    using date_add_int [of 60010 "- 300000"] by (simp add: cutoff_def)
  then have "\<exists>fs. runAllWfStateChecks (\<lambda>_ _. 60010) (\<lambda>_ _ d. d) ?o ?db = (Inr fs, ?db)"
    by (simp add: runAllWfStateChecks_def WF_STATE_CHECKS_def runWfStateCheck_def checkMeta_def q bindP_run findOrphanedOutboxClaims_def
        findUnprocessedTriggerInbox_def findOutboxLag_def findOpenDeadLetters_def findOrphanedStepLeases_def sql_limit_def countRows_def)
  then obtain fs where run: "runAllWfStateChecks (\<lambda>_ _. 60010) (\<lambda>_ _ d. d) ?o ?db = (Inr fs, ?db)" by blast
  have "claimable 60010 (claim_set ''w1'' 10 30010 1 demo_entry)" by (simp add: claimable_def claim_set_def)
  moreover have "claim_set ''w1'' 10 30010 1 demo_entry \<in> set (notification_outbox ?db)" by (simp add: demo_claimed_def)
  ultimately have "\<not> list_all wf_ok fs" using state_checks_exact [OF run] q by (auto simp: claim_set_def)
  then show ?thesis using run by blast
qed

end
