(* ===== verification/InternalSurface.thy ===== *)
theory InternalSurface
  imports Reconciliation VerifyState
begin

text \<open>
  The internal schedule surface (apps/api/src/internal/internal-surface.ts): authentication, routing,
  and the handlers that call the workflow runtime. It works on the store, the scheduler port and
  its own set of seen message ids. The query-string and percent-decoding functions, the HMAC,
  \<open>Date.parse\<close> and the clock are parameters; so is what others do while a handler waits.
\<close>

section \<open>Requests, responses and parameters\<close>

record internal_request =
  iq_method :: string
  iq_path :: string
  iq_headers :: "(string \<times> string option) list"
  iq_body :: jsval

text \<open>A column value as a read handler passes it on.\<close>

datatype column = ColText string | ColInt int | ColBool bool | ColTime instant | ColNull

datatype surface_body =
    ErrorBody string
  | TriggerBody trigger_result
  | ActionBody control_reply
  | ReportBody reconcile_result
  | RunsBody "(string \<times> column) list list"
  | RunBody "(string \<times> column) list"
  | StepsBody "(string \<times> column) list list"
  | DeadLettersBody "jsval dead_letter_row list"
  | OutboxBody "(string \<times> column) list list" "wf_state_finding list option"

record internal_response =
  ir_status :: nat
  ir_body :: surface_body
  ir_allow :: "string option"

type_synonym 's surface = "'s world \<times> string list"

record 's surface_env =
  se_handler :: "nat \<Rightarrow> 's surface \<Rightarrow> 's surface"
  se_store :: "nat \<Rightarrow> jsval wf_db \<Rightarrow> jsval wf_db"
  se_world :: "nat \<Rightarrow> 's world \<Rightarrow> 's world"
  se_checks :: "nat \<Rightarrow> nat \<Rightarrow> jsval wf_db \<Rightarrow> jsval wf_db"

record surface_platform =
  sp_pf :: platform
  sp_hmac :: "string \<Rightarrow> string \<Rightarrow> string"
  sp_date :: "string \<Rightarrow> iso"
  sp_query :: "string \<Rightarrow> string \<Rightarrow> string option"
  sp_decode :: "string \<Rightarrow> string option"
  sp_now :: string
  sp_clock :: "nat \<Rightarrow> nat \<Rightarrow> instant"

record 's surface_config =
  su_secret :: string
  su_replayWindowMs :: jsnum
  su_port :: "'s scheduler_port_ops"

definition DEFAULT_REPLAY_WINDOW_MS :: jsnum where
  "DEFAULT_REPLAY_WINDOW_MS = Fin (5 * 60 * 1000)"

definition INTERNAL_READ_LIMIT_MAX :: nat where
  "INTERNAL_READ_LIMIT_MAX = 500"

definition INTERNAL_READ_LIMIT_DEFAULT :: nat where
  "INTERNAL_READ_LIMIT_DEFAULT = 100"

definition SCHEDULER_MESSAGE_ID_HEADER :: string where
  "SCHEDULER_MESSAGE_ID_HEADER = ''x-foresift-scheduler-message-id''"

definition SCHEDULER_DELIVERED_AT_HEADER :: string where
  "SCHEDULER_DELIVERED_AT_HEADER = ''x-foresift-scheduler-delivered-at''"

definition SCHEDULER_SIGNATURE_HEADER :: string where
  "SCHEDULER_SIGNATURE_HEADER = ''x-foresift-scheduler-signature''"

definition route_trigger :: string where "route_trigger = ''/api/v1/internal/schedules/trigger''"

definition route_reconcile :: string where "route_reconcile = ''/api/v1/internal/schedules/reconcile''"

definition route_runs :: string where "route_runs = ''/api/v1/internal/runs''"

definition route_steps :: string where "route_steps = ''/api/v1/internal/steps''"

definition route_deadLetters :: string where "route_deadLetters = ''/api/v1/internal/dead-letters''"

definition route_outbox :: string where "route_outbox = ''/api/v1/internal/outbox''"

section \<open>Transport helpers\<close>

definition strip_slashes :: "string \<Rightarrow> string" where
  "strip_slashes s = rev (dropWhile (\<lambda>c. c = CHR ''/'') (rev s))"

text \<open>The path name and the text after the first question mark.\<close>

definition parsePath :: "string \<Rightarrow> (string \<times> string) option" where
  "parsePath path =
     (if take 1 path \<noteq> ''/'' then None
      else let raw = takeWhile (\<lambda>c. c \<noteq> CHR ''?'') path;
               query = drop (length raw + 1) path;
               pathname = (if 1 < length raw \<and> last raw = CHR ''/'' then strip_slashes raw else raw)
           in Some (pathname, query))"

definition isRecord :: "jsval \<Rightarrow> bool" where
  "isRecord v \<longleftrightarrow> (case v of JsObj _ \<Rightarrow> True | _ \<Rightarrow> False)"

abbreviation request_invalid :: js_error where
  "request_invalid \<equiv> InternalSurfaceError REQUEST_INVALID 400"

definition decodeSegment :: "(string \<Rightarrow> string option) \<Rightarrow> string \<Rightarrow> string res" where
  "decodeSegment decode s = (case decode s of None \<Rightarrow> Inl request_invalid | Some t \<Rightarrow> Inr t)"

text \<open>A later header of the same lower-case name replaces an earlier one; absent values are skipped.\<close>

fun headerMap :: "(string \<times> string option) list \<Rightarrow> (string \<times> string) list \<Rightarrow> (string \<times> string) list" where
  "headerMap [] m = m"
| "headerMap ((name, v) # hs) m =
     headerMap hs (case v of Some t \<Rightarrow> map_set (toLowerCase name) t m | None \<Rightarrow> m)"

definition jsonResponse :: "nat \<Rightarrow> surface_body \<Rightarrow> internal_response" where
  "jsonResponse status body = \<lparr>ir_status = status, ir_body = body, ir_allow = None\<rparr>"

fun ENGINE_STATUS :: "error_code \<Rightarrow> nat" where
  "ENGINE_STATUS AUTHENTICATION_REFUSED = 401"
| "ENGINE_STATUS AUTHORIZATION_REFUSED = 401"
| "ENGINE_STATUS WF_SCHEDULER_SIGNATURE_INVALID = 401"
| "ENGINE_STATUS WF_SCHEDULE_NOT_FOUND = 404"
| "ENGINE_STATUS WF_RUN_NOT_FOUND = 404"
| "ENGINE_STATUS WF_DEAD_LETTER_NOT_FOUND = 404"
| "ENGINE_STATUS WF_OUTBOX_NOT_FOUND = 404"
| "ENGINE_STATUS WF_SCHEDULE_TRANSITION_INVALID = 409"
| "ENGINE_STATUS WF_SCHEDULE_DISABLED = 409"
| "ENGINE_STATUS WF_SCHEDULE_PAUSED = 409"
| "ENGINE_STATUS WF_SCHEDULE_NOT_ACTIVE = 409"
| "ENGINE_STATUS WF_SCHEDULE_VERSION_IMMUTABLE = 409"
| "ENGINE_STATUS WF_TRIGGER_DELIVERY_REJECTED = 409"
| "ENGINE_STATUS _ = 400"

text \<open>The listed codes with status 400 and the default for an unlisted one are one case.\<close>

definition toErrorResponse :: "js_error \<Rightarrow> internal_response" where
  "toErrorResponse error =
     (case error of
        InternalSurfaceError code status \<Rightarrow> jsonResponse status (ErrorBody (internal_surface_code_text code))
      | ForesiftError code \<Rightarrow> jsonResponse (ENGINE_STATUS code) (ErrorBody (error_code_text code))
      | _ \<Rightarrow> jsonResponse 500 (ErrorBody (internal_surface_code_text SURFACE_FAILURE)))"

definition requireRecord :: "jsval \<Rightarrow> jsval res" where
  "requireRecord body = (if isRecord body then Inr body else Inl request_invalid)"

definition requireString :: "jsval \<Rightarrow> string res" where
  "requireString v = (case v of JsStr s \<Rightarrow> if blank s then Inl request_invalid else Inr s | _ \<Rightarrow> Inl request_invalid)"

definition optionalString :: "jsval \<Rightarrow> string option" where
  "optionalString v = (case v of JsStr s \<Rightarrow> if blank s then None else Some s | _ \<Rightarrow> None)"

definition parseLimit :: "string option \<Rightarrow> nat res" where
  "parseLimit raw =
     (case raw of
        None \<Rightarrow> Inr INTERNAL_READ_LIMIT_DEFAULT
      | Some r \<Rightarrow>
          if blank r then Inr INTERNAL_READ_LIMIT_DEFAULT
          else if \<not> list_all digit (trim r) then Inl request_invalid
          else let limit = num_text (trim r)
               in if limit < 1 \<or> INTERNAL_READ_LIMIT_MAX < limit then Inl request_invalid else Inr limit)"

definition nullableParam :: "string option \<Rightarrow> string option" where
  "nullableParam v = (case v of None \<Rightarrow> None | Some s \<Rightarrow> if blank s then None else Some s)"

definition workload_kind_of :: "jsval \<Rightarrow> workflow_workload_kind option" where
  "workload_kind_of v =
     (if v = JsStr ''BROAD_SCAN'' then Some BROAD_SCAN
      else if v = JsStr ''CANDIDATE_RECHECK'' then Some CANDIDATE_RECHECK else None)"

section \<open>Rows of the read handlers\<close>

definition opt_col :: "('a \<Rightarrow> column) \<Rightarrow> 'a option \<Rightarrow> column" where
  "opt_col f v = (case v of None \<Rightarrow> ColNull | Some x \<Rightarrow> f x)"

definition mapRun :: "run_row \<Rightarrow> (string \<times> column) list" where
  "mapRun r = [(''runId'', ColText (r_run_id r)), (''scheduleId'', ColText (r_schedule_id r)),
     (''resolvedScheduleVersion'', ColText (r_resolved_schedule_version r)), (''inboxId'', ColText (r_inbox_id r)),
     (''triggerSource'', ColText (r_trigger_source r)), (''triggerExternalMessageId'', ColText (r_trigger_external_message_id r)),
     (''triggerCanonicalExternalMessageId'', ColText (r_trigger_canonical_external_message_id r)),
     (''concurrencyPolicy'', ColText (concurrency_policy_text (r_concurrency_policy r))),
     (''concurrencyOutcome'', ColText (concurrency_policy_text (r_concurrency_outcome r))), (''shadow'', ColBool (r_shadow r)),
     (''status'', ColText (run_status_text (r_status r))), (''deadline'', ColTime (r_deadline r)),
     (''startedAt'', opt_col ColTime (r_started_at r)), (''completedAt'', opt_col ColTime (r_completed_at r))]"

definition mapStep :: "step_row \<Rightarrow> (string \<times> column) list" where
  "mapStep r = [(''stepId'', ColText (s_step_id r)), (''runId'', ColText (s_run_id r)), (''stepType'', ColText (s_step_type r)),
     (''idempotencyKey'', ColText (s_idempotency_key r)), (''attempt'', ColInt (s_attempt r)),
     (''inputHash'', opt_col ColText (s_input_hash r)), (''outputHash'', opt_col ColText (s_output_hash r)),
     (''status'', ColText (step_status_text (s_status r))), (''leaseOwner'', opt_col ColText (s_lease_owner r)),
     (''leaseVersion'', ColInt (s_lease_version r)), (''leaseExpiresAt'', opt_col ColTime (s_lease_expires_at r)),
     (''startedAt'', opt_col ColTime (s_started_at r)), (''completedAt'', opt_col ColTime (s_completed_at r)),
     (''errorClass'', opt_col (\<lambda>c. ColText (retry_error_class_text c)) (s_error_class r)),
     (''retryable'', opt_col ColBool (s_retryable r))]"

definition mapOutbox :: "outbox_row \<Rightarrow> (string \<times> column) list" where
  "mapOutbox r = [(''outboxId'', ColText (o_outbox_id r)), (''decisionRef'', ColText (o_decision_ref r)),
     (''alertRef'', opt_col ColText (o_alert_ref r)), (''channel'', ColText (o_channel r)), (''payloadHash'', ColText (o_payload_hash r)),
     (''status'', ColText (outbox_status_text (o_status r))), (''claimOwner'', opt_col ColText (o_claim_owner r)),
     (''claimFencingToken'', opt_col (\<lambda>t. ColInt (int t)) (o_claim_fencing_token r)),
     (''claimExpiresAt'', opt_col ColTime (o_claim_expires_at r)), (''attempts'', ColInt (o_attempts r)),
     (''enqueuedAt'', ColTime (o_enqueued_at r)), (''claimedAt'', opt_col ColTime (o_claimed_at r)),
     (''sentAt'', opt_col ColTime (o_sent_at r)), (''lastError'', opt_col ColText (o_last_error r))]"

definition schedulerDeliveryPayload :: "jsval \<Rightarrow> string res" where
  "schedulerDeliveryPayload body = canonicalJson body"

section \<open>The surface\<close>

definition createInternalScheduleSurface ::
  "string \<Rightarrow> jsnum option \<Rightarrow> 's scheduler_port_ops \<Rightarrow> 's surface_config res" where
  "createInternalScheduleSurface secret window port =
     (if secret = [] then Inl (ForesiftError AUTHENTICATION_REFUSED)
      else let w = (case window of Some x \<Rightarrow> x | None \<Rightarrow> DEFAULT_REPLAY_WINDOW_MS)
           in if \<not> js_isFinite w \<or> js_lt w (Fin 0) then Inl (ForesiftError WF_SCHEDULER_TIMESTAMP_INVALID)
              else Inr \<lparr>su_secret = secret, su_replayWindowMs = w, su_port = port\<rparr>)"

definition resolveNow :: "surface_platform \<Rightarrow> string res" where
  "resolveNow sp = (if sp_date sp (sp_now sp) = None then Inl (ForesiftError WF_SCHEDULER_TIMESTAMP_INVALID) else Inr (sp_now sp))"

text \<open>\<^verbatim>\<open>/^Bearer\s+(\S+)$/\<close>\<close>

definition BEARER_PATTERN :: "string \<Rightarrow> string option" where
  "BEARER_PATTERN s =
     (let rest = drop 6 s; token = dropWhile js_space rest
      in if take 6 s = ''Bearer'' \<and> takeWhile js_space rest \<noteq> [] \<and> token \<noteq> [] \<and> list_all (\<lambda>c. \<not> js_space c) token
         then Some token else None)"

definition authenticate :: "string \<Rightarrow> (string \<times> string) list \<Rightarrow> unit res" where
  "authenticate secret headers =
     (case map_of headers ''authorization'' of
        None \<Rightarrow> Inl (ForesiftError AUTHENTICATION_REFUSED)
      | Some authorization \<Rightarrow>
          (case BEARER_PATTERN authorization of
             None \<Rightarrow> Inl (ForesiftError AUTHENTICATION_REFUSED)
           | Some presented \<Rightarrow> if presented = secret then Inr () else Inl (ForesiftError AUTHORIZATION_REFUSED)))"

definition notFound :: "internal_response" where
  "notFound = jsonResponse 404 (ErrorBody (internal_surface_code_text ROUTE_NOT_FOUND))"

definition methodNotAllowed :: "string \<Rightarrow> internal_response" where
  "methodNotAllowed allowed = (jsonResponse 405 (ErrorBody (internal_surface_code_text METHOD_NOT_ALLOWED)))\<lparr>ir_allow := Some allowed\<rparr>"

definition on_world :: "('s world, 'a) prog \<Rightarrow> ('s surface, 'a) prog" where
  "on_world m = (\<lambda>(w, seen). case m w of (r, w') \<Rightarrow> (r, (w', seen)))"

definition on_store :: "(jsval wf_db, 'a) prog \<Rightarrow> ('s surface, 'a) prog" where
  "on_store m = on_world (on_db m)"

definition header :: "(string \<times> string) list \<Rightarrow> string \<Rightarrow> string" where
  "header headers name = (case map_of headers name of Some v \<Rightarrow> v | None \<Rightarrow> [])"

definition delivery_of_request ::
  "surface_platform \<Rightarrow> 's surface_config \<Rightarrow> (string \<times> string) list \<Rightarrow> string \<Rightarrow> string \<Rightarrow> string list \<Rightarrow> delivery_verification_input" where
  "delivery_of_request sp cfg headers payload now seen =
     \<lparr>dm_payload = payload, dm_secret = su_secret cfg, dm_deliveredAt = header headers SCHEDULER_DELIVERED_AT_HEADER,
      dm_messageId = header headers SCHEDULER_MESSAGE_ID_HEADER, dm_signature = header headers SCHEDULER_SIGNATURE_HEADER,
      dm_now = now, dm_replayWindowMs = su_replayWindowMs cfg, dm_seenMessageIds = Some seen\<rparr>"

definition trigger_of_request ::
  "surface_platform \<Rightarrow> (string \<times> string) list \<Rightarrow> jsval \<Rightarrow> string \<Rightarrow> string \<Rightarrow> string \<Rightarrow> trigger_input" where
  "trigger_of_request sp headers body scheduleId payload now =
     \<lparr>ti_source = (case optionalString (jsprop body ''source'') of Some s \<Rightarrow> s | None \<Rightarrow> ''scheduler''),
      ti_externalMessageId = header headers SCHEDULER_MESSAGE_ID_HEADER, ti_scheduleId = scheduleId,
      ti_scheduledFor = sp_date sp (case optionalString (jsprop body ''scheduledFor'') of Some t \<Rightarrow> t
        | None \<Rightarrow> header headers SCHEDULER_DELIVERED_AT_HEADER),
      ti_payloadHash = sha256Text (pf_sha (sp_pf sp)) payload, ti_receivedAt = sp_date sp now, ti_verifiedAt = Some (sp_date sp now),
      ti_workloadKind = workload_kind_of (jsprop body ''workloadKind''), ti_deadlineMs = None, ti_inboxId = None, ti_runId = None\<rparr>"

text \<open>\<open>Set.add\<close>\<close>

definition mark_seen :: "string \<Rightarrow> ('s surface, unit) prog" where
  "mark_seen messageId = writes (\<lambda>(w, seen). (w, if messageId \<in> set seen then seen else seen @ [messageId]))"

definition handleTrigger ::
  "surface_platform \<Rightarrow> 's surface_env \<Rightarrow> 's surface_config \<Rightarrow> internal_request \<Rightarrow> (string \<times> string) list \<Rightarrow>
   ('s surface, internal_response) prog" where
  "handleTrigger sp env cfg request headers =
     bindP (liftE (requireRecord (iq_body request))) (\<lambda>body.
     bindP (liftE (requireString (jsprop body ''scheduleId''))) (\<lambda>scheduleId.
     bindP (liftE (resolveNow sp)) (\<lambda>now.
     bindP (liftE (schedulerDeliveryPayload body)) (\<lambda>payload.
     bindP (reads snd) (\<lambda>seen.
     bindP (liftE (verifySchedulerDelivery (sp_hmac sp) (sp_date sp) (delivery_of_request sp cfg headers payload now seen))) (\<lambda>_.
     bindP (gap (se_handler env) 0) (\<lambda>_.
     bindP (on_store (recordTriggerDeliveryInner (pf_sha (sp_pf sp)) (pf_url (sp_pf sp))
              (trigger_of_request sp headers body scheduleId payload now))) (\<lambda>result.
     bindP (mark_seen (header headers SCHEDULER_MESSAGE_ID_HEADER)) (\<lambda>_.
     ret (jsonResponse 202 (TriggerBody result)))))))))))"

definition control_of_request :: "surface_platform \<Rightarrow> string \<Rightarrow> jsval \<Rightarrow> schedule_control_action \<Rightarrow> control_input" where
  "control_of_request sp scheduleId body action =
     \<lparr>ci_action = schedule_control_action_text action, ci_scheduleId = scheduleId,
      ci_now = map_option (\<lambda>t. (t, sp_date sp t)) (optionalString (jsprop body ''now'')),
      ci_config = (let config = jsprop body ''config'' in if isRecord config then Some (patch_of config) else None),
      ci_forecast = jsprop body ''forecast'', ci_workloadKind = workload_kind_of (jsprop body ''workloadKind''),
      ci_versionId = optionalString (jsprop body ''versionId''), ci_forecastId = optionalString (jsprop body ''forecastId''),
      ci_requestId = optionalString (jsprop body ''requestId''), ci_newScheduleId = optionalString (jsprop body ''newScheduleId'')\<rparr>"

definition handleAction ::
  "surface_platform \<Rightarrow> 's surface_env \<Rightarrow> string \<Rightarrow> internal_request \<Rightarrow> ('s surface, internal_response) prog" where
  "handleAction sp env scheduleId request =
     (if scheduleId = [] then raise request_invalid
      else bindP (liftE (requireRecord (iq_body request))) (\<lambda>body.
           bindP (liftE (parseScheduleControlAction (case jsprop body ''action'' of JsStr s \<Rightarrow> Some s | _ \<Rightarrow> None))) (\<lambda>action.
           bindP (on_store (applyScheduleControl (sp_pf sp) (se_store env) (control_of_request sp scheduleId body action))) (\<lambda>result.
           ret (jsonResponse 200 (ActionBody result))))))"

definition handleReconcile ::
  "surface_platform \<Rightarrow> 's surface_env \<Rightarrow> 's surface_config \<Rightarrow> internal_request \<Rightarrow> ('s surface, internal_response) prog" where
  "handleReconcile sp env cfg request =
     bindP (liftE (if iq_body request = JsUndefined then Inr (JsObj []) else requireRecord (iq_body request))) (\<lambda>body.
     bindP (on_world (reconcileSchedules (sp_pf sp) (se_world env) (su_port cfg)
              \<lparr>ro_now = map_option (\<lambda>t. (t, sp_date sp t)) (optionalString (jsprop body ''now'')),
               ro_repair = (jsprop body ''repair'' = JsBool True), ro_reportId = None, ro_expectedExternalId = None\<rparr>)) (\<lambda>report.
     ret (jsonResponse 200 (ReportBody report))))"

text \<open>\<open>$n::text IS NULL OR column = $n\<close>\<close>

definition matches :: "string option \<Rightarrow> string \<Rightarrow> bool" where
  "matches param v \<longleftrightarrow> (case param of None \<Rightarrow> True | Some p \<Rightarrow> v = p)"

definition handleRuns :: "(string \<Rightarrow> string option) \<Rightarrow> ('s surface, internal_response) prog" where
  "handleRuns query =
     (let scheduleId = nullableParam (query ''scheduleId''); status = nullableParam (query ''status'')
      in bindP (liftE (parseLimit (query ''limit''))) (\<lambda>limit.
         bindP (on_store (reads (\<lambda>db. take limit (sort_key r_run_id
             (filter (\<lambda>r. matches scheduleId (r_schedule_id r) \<and> matches status (run_status_text (r_status r))) (runs db)))))) (\<lambda>rows.
         ret (jsonResponse 200 (RunsBody (map mapRun rows))))))"

definition handleRun :: "string \<Rightarrow> ('s surface, internal_response) prog" where
  "handleRun runId =
     (if runId = [] then raise request_invalid
      else bindP (on_store (reads (\<lambda>db. run_of db runId))) (\<lambda>found.
           case found of
             None \<Rightarrow> raise (ForesiftError WF_RUN_NOT_FOUND)
           | Some row \<Rightarrow> ret (jsonResponse 200 (RunBody (mapRun row)))))"

definition handleSteps :: "(string \<Rightarrow> string option) \<Rightarrow> ('s surface, internal_response) prog" where
  "handleSteps query =
     (let runId = nullableParam (query ''runId'')
      in bindP (liftE (parseLimit (query ''limit''))) (\<lambda>limit.
         bindP (on_store (reads (\<lambda>db. take limit (sort_key s_run_id (sort_key s_step_id
             (filter (\<lambda>r. matches runId (s_run_id r)) (steps db))))))) (\<lambda>rows.
         ret (jsonResponse 200 (StepsBody (map mapStep rows))))))"

definition handleDeadLetters :: "(string \<Rightarrow> string option) \<Rightarrow> ('s surface, internal_response) prog" where
  "handleDeadLetters query =
     bindP (on_store (listDeadLetters (nullableParam (query ''status'')))) (\<lambda>records.
     ret (jsonResponse 200 (DeadLettersBody records)))"

definition default_check_options :: wf_state_check_options where
  "default_check_options = \<lparr>vo_now = None, vo_inboxMaxAgeMs = None, vo_outboxMaxLagMs = None, vo_limit = None\<rparr>"

definition handleOutbox ::
  "surface_platform \<Rightarrow> 's surface_env \<Rightarrow> (string \<Rightarrow> string option) \<Rightarrow> ('s surface, internal_response) prog" where
  "handleOutbox sp env query =
     (let status = nullableParam (query ''status'')
      in bindP (liftE (parseLimit (query ''limit''))) (\<lambda>limit.
         bindP (on_store (reads (\<lambda>db. take limit (sort_key o_enqueued_at (sort_key o_outbox_id
             (filter (\<lambda>r. matches status (outbox_status_text (o_status r))) (notification_outbox db))))))) (\<lambda>rows.
         if query ''checks'' = Some ''1''
         then bindP (on_store (runAllWfStateChecks (sp_clock sp) (se_checks env) default_check_options)) (\<lambda>checks.
              ret (jsonResponse 200 (OutboxBody (map mapOutbox rows) (Some checks))))
         else ret (jsonResponse 200 (OutboxBody (map mapOutbox rows) None)))))"

text \<open>
  The routes with a parameter: one non-empty segment without a slash between a prefix and a suffix.
\<close>

definition segment :: "string \<Rightarrow> string \<Rightarrow> string \<Rightarrow> string option" where
  "segment before after pathname =
     (let n = length pathname - length before - length after;
          seg = take n (drop (length before) pathname)
      in if pathname = before @ seg @ after \<and> seg \<noteq> [] \<and> CHR ''/'' \<notin> set seg then Some seg else None)"

definition ACTION_PATH_PATTERN :: "string \<Rightarrow> string option" where
  "ACTION_PATH_PATTERN = segment ''/api/v1/internal/schedules/'' ''/actions''"

definition RUN_PATH_PATTERN :: "string \<Rightarrow> string option" where
  "RUN_PATH_PATTERN = segment ''/api/v1/internal/runs/'' []"

text \<open>\<open>toUpperCase\<close> on code units below 256 (those whose capital lies beyond are left as they are).\<close>

definition upper_char :: "char \<Rightarrow> string" where
  "upper_char c = (let n = of_char c :: nat in
     if 97 \<le> n \<and> n \<le> 122 \<or> 224 \<le> n \<and> n \<le> 254 \<and> n \<noteq> 247 then [char_of (n - 32)]
     else if n = 223 then ''SS'' else [c])"

definition toUpperCase :: "string \<Rightarrow> string" where
  "toUpperCase s = concat (map upper_char s)"

definition only :: "string \<Rightarrow> string \<Rightarrow> ('s surface, internal_response) prog \<Rightarrow> ('s surface, internal_response) prog" where
  "only allowed meth m = (if meth \<noteq> allowed then ret (methodNotAllowed allowed) else m)"

definition route ::
  "surface_platform \<Rightarrow> 's surface_env \<Rightarrow> 's surface_config \<Rightarrow> internal_request \<Rightarrow> (string \<times> string) list \<Rightarrow> string \<Rightarrow> string \<Rightarrow>
   ('s surface, internal_response) prog" where
  "route sp env cfg request headers pathname query =
     (let meth = toUpperCase (iq_method request); q = sp_query sp query
      in if pathname = route_trigger then only ''POST'' meth (handleTrigger sp env cfg request headers)
         else if pathname = route_reconcile then only ''POST'' meth (handleReconcile sp env cfg request)
         else (case ACTION_PATH_PATTERN pathname of
           Some seg \<Rightarrow> only ''POST'' meth (bindP (liftE (decodeSegment (sp_decode sp) seg)) (\<lambda>s. handleAction sp env s request))
         | None \<Rightarrow>
             if pathname = route_runs then only ''GET'' meth (handleRuns q)
             else (case RUN_PATH_PATTERN pathname of
               Some seg \<Rightarrow> only ''GET'' meth (bindP (liftE (decodeSegment (sp_decode sp) seg)) handleRun)
             | None \<Rightarrow>
                 if pathname = route_steps then only ''GET'' meth (handleSteps q)
                 else if pathname = route_deadLetters then only ''GET'' meth (handleDeadLetters q)
                 else if pathname = route_outbox then only ''GET'' meth (handleOutbox sp env q)
                 else ret notFound)))"

definition handle_inner ::
  "surface_platform \<Rightarrow> 's surface_env \<Rightarrow> 's surface_config \<Rightarrow> internal_request \<Rightarrow> ('s surface, internal_response) prog" where
  "handle_inner sp env cfg request =
     (case parsePath (iq_path request) of
        None \<Rightarrow> raise request_invalid
      | Some (pathname, query) \<Rightarrow>
          (let headers = headerMap (iq_headers request) []
           in bindP (liftE (authenticate (su_secret cfg) headers)) (\<lambda>_.
              route sp env cfg request headers pathname query)))"

text \<open>Every throw becomes a response.\<close>

definition handle ::
  "surface_platform \<Rightarrow> 's surface_env \<Rightarrow> 's surface_config \<Rightarrow> internal_request \<Rightarrow> 's surface \<Rightarrow> internal_response \<times> 's surface" where
  "handle sp env cfg request st =
     (case handle_inner sp env cfg request st of
        (Inl e, st') \<Rightarrow> (toErrorResponse e, st')
      | (Inr response, st') \<Rightarrow> (response, st'))"

end
