(* ===== verification/SurfaceLaws.thy ===== *)
theory SurfaceLaws
  imports InternalSurface VerifyLaws ScheduleControl
begin

text \<open>
  Laws of the internal schedule surface: nothing passes without the shared secret, only the three
  writing routes change anything, a scheduler message is accepted at most once per process and
  starts at most one run across processes, and the listings are bounded pages of the matching rows.
\<close>

section \<open>The shape of a request\<close>

definition request_headers :: "internal_request \<Rightarrow> (string \<times> string) list" where
  "request_headers request = headerMap (iq_headers request) []"

definition message_id :: "internal_request \<Rightarrow> string" where
  "message_id request = header (request_headers request) SCHEDULER_MESSAGE_ID_HEADER"

text \<open>The credential is the text after \<open>Bearer\<close> and white space, up to the end of the header.\<close>

definition presents_secret :: "'s surface_config \<Rightarrow> internal_request \<Rightarrow> bool" where
  "presents_secret cfg request \<longleftrightarrow>
     Option.bind (map_of (request_headers request) ''authorization'') BEARER_PATTERN = Some (su_secret cfg)"

lemma authenticate_ok: "authenticate (su_secret cfg) (request_headers request) = Inr () \<longleftrightarrow> presents_secret cfg request"
  by (auto simp: authenticate_def presents_secret_def split: option.split)

lemma authenticate_error:
  assumes "\<not> presents_secret cfg request"
  shows "\<exists>code. authenticate (su_secret cfg) (request_headers request) = Inl (ForesiftError code) \<and> ENGINE_STATUS code = 401"
  using assms by (auto simp: authenticate_def presents_secret_def split: option.split)

text \<open>A delivery that passes every check of \<open>verifySchedulerDelivery\<close>.\<close>

definition verified_trigger ::
  "surface_platform \<Rightarrow> 's surface_config \<Rightarrow> internal_request \<Rightarrow> string list \<Rightarrow> bool" where
  "verified_trigger sp cfg request seen \<longleftrightarrow> (\<exists>payload scheduleId v. isRecord (iq_body request) \<and>
     jsprop (iq_body request) ''scheduleId'' = JsStr scheduleId \<and> \<not> blank scheduleId \<and> canonicalJson (iq_body request) = Inr payload \<and>
     verifySchedulerDelivery (sp_hmac sp) (sp_date sp)
       (delivery_of_request sp cfg (request_headers request) payload (sp_now sp) seen) = Inr v)"

lemma requireRecord_ok: "requireRecord b = Inr c \<longleftrightarrow> isRecord b \<and> c = b"
  by (auto simp: requireRecord_def)

lemma requireString_ok: "requireString v = Inr s \<longleftrightarrow> v = JsStr s \<and> \<not> blank s"
  by (cases v) (auto simp: requireString_def)

lemma resolveNow_ok: "resolveNow sp = Inr t \<longleftrightarrow> sp_date sp (sp_now sp) \<noteq> None \<and> t = sp_now sp"
  by (auto simp: resolveNow_def)

text \<open>The delivery as it reaches the trigger pipeline, and what is left of the handler then.\<close>

definition trigger_input_of :: "surface_platform \<Rightarrow> internal_request \<Rightarrow> string \<Rightarrow> string \<Rightarrow> trigger_input" where
  "trigger_input_of sp request scheduleId payload =
     trigger_of_request sp (request_headers request) (iq_body request) scheduleId payload (sp_now sp)"

lemma trigger_refused:
  assumes "\<not> verified_trigger sp cfg request seen"
  shows "\<exists>e. handleTrigger sp env cfg request (request_headers request) (w, seen) = (Inl e, (w, seen))"
proof -
  have "\<exists>e. verifySchedulerDelivery (sp_hmac sp) (sp_date sp)
      (delivery_of_request sp cfg (request_headers request) payload (sp_now sp) seen) = Inl e"
    if "isRecord (iq_body request)" "jsprop (iq_body request) ''scheduleId'' = JsStr k" "\<not> blank k" "canonicalJson (iq_body request) = Inr payload"
    for payload k
    using assms that unfolding verified_trigger_def
    by (cases "verifySchedulerDelivery (sp_hmac sp) (sp_date sp)
      (delivery_of_request sp cfg (request_headers request) payload (sp_now sp) seen)") auto
  note no = this
  let ?m = "handleTrigger sp env cfg request (request_headers request) (w, seen)"
  have "isl (fst ?m) \<and> snd ?m = (w, seen)"
    using no by (force simp: handleTrigger_def bindP_run schedulerDeliveryPayload_def requireRecord_ok requireString_ok resolveNow_ok split: sum.split)
  then show ?thesis by (metis isl_def prod.collapse)
qed

lemma trigger_verified:
  assumes "verified_trigger sp cfg request seen" and "se_handler env 0 (w, seen) = ((db, s), seen')"
  obtains payload scheduleId where "canonicalJson (iq_body request) = Inr payload"
    and "jsprop (iq_body request) ''scheduleId'' = JsStr scheduleId"
    and "handleTrigger sp env cfg request (request_headers request) (w, seen) =
      (case recordTriggerDeliveryInner (pf_sha (sp_pf sp)) (pf_url (sp_pf sp)) (trigger_input_of sp request scheduleId payload) db of
         (Inl e, db') \<Rightarrow> (Inl e, ((db', s), seen'))
       | (Inr x, db') \<Rightarrow> (Inr (jsonResponse 202 (TriggerBody x)),
           ((db', s), if message_id request \<in> set seen' then seen' else seen' @ [message_id request])))"
proof -
  from assms(1) obtain payload scheduleId v where v: "isRecord (iq_body request)" "jsprop (iq_body request) ''scheduleId'' = JsStr scheduleId"
    "\<not> blank scheduleId" "canonicalJson (iq_body request) = Inr payload"
    "verifySchedulerDelivery (sp_hmac sp) (sp_date sp)
       (delivery_of_request sp cfg (request_headers request) payload (sp_now sp) seen) = Inr v"
    by (auto simp: verified_trigger_def)
  have now: "resolveNow sp = Inr (sp_now sp)"
    using v(5) by (rule delivery_verified) (simp add: resolveNow_ok delivery_of_request_def)
  have r: "requireRecord (iq_body request) = Inr (iq_body request)" "requireString (jsprop (iq_body request) ''scheduleId'') = Inr scheduleId"
    using v by (simp_all add: requireRecord_ok requireString_ok)
  show thesis
    by (rule that [OF v(4,2)])
      (simp add: handleTrigger_def bindP_run r now v(4,5) schedulerDeliveryPayload_def assms(2) on_store_def on_world_def on_db_def
        trigger_input_of_def message_id_def mark_seen_def split: prod.split sum.split)
qed

section \<open>The routes that read\<close>

interpretation still: rely_guarantee "(=)"
  by unfold_locales simp_all

lemma still_on_store: "guarantees (=) m \<Longrightarrow> guarantees (=) (on_store m)"
  by (auto simp: guarantees_def on_store_def on_world_def on_db_def split: prod.splits) (metis snd_conv)+

lemma still_run: "guarantees (=) m \<Longrightarrow> snd (m st) = st"
  by (simp add: guarantees_def)

lemma still_checks:
  assumes "\<And>c i db. env c i db = db"
  shows "guarantees (=) (run_checks clock env n options cs)"
proof (induction cs arbitrary: n)
  case (Cons c cs)
  have "guarantees (=) (runWfStateCheck (clock n) (env n) (check_name (cm_check c)) options)"
    unfolding guarantees_def
  proof
    fix db
    obtain res db' where run: "runWfStateCheck (clock n) (env n) (check_name (cm_check c)) options db = (res, db')" by fastforce
    show "db = snd (runWfStateCheck (clock n) (env n) (check_name (cm_check c)) options db)"
      using check_run [OF run] run assms by (cases res) simp_all
  qed
  moreover have "guarantees (=) (gap (env n) 1)" using assms by (intro still.g_gap) simp
  ultimately show ?case unfolding run_checks.simps by (intro still.g_bindP still.g_pure Cons.IH)
qed simp

lemmas still_rules = still.g_bindP still.g_pure still_on_store

lemma still_reads:
  "guarantees (=) (handleRuns q)" "guarantees (=) (handleRun k)" "guarantees (=) (handleSteps q)" "guarantees (=) (handleDeadLetters q)"
  unfolding handleRuns_def handleRun_def handleSteps_def handleDeadLetters_def listDeadLetters_def Let_def
  by ((intro still_rules conjI | simp split: option.split | intro conjI impI allI)+)

lemma still_outbox:
  assumes "\<And>c i db. se_checks env c i db = db"
  shows "guarantees (=) (handleOutbox sp env q)"
  unfolding handleOutbox_def Let_def runAllWfStateChecks_def
  by ((intro still_rules still_checks assms | simp | intro conjI impI)+)

section \<open>The trust boundary\<close>

definition writing_request :: "surface_platform \<Rightarrow> 's surface_config \<Rightarrow> internal_request \<Rightarrow> string list \<Rightarrow> bool" where
  "writing_request sp cfg request seen \<longleftrightarrow> presents_secret cfg request \<and> toUpperCase (iq_method request) = ''POST'' \<and>
     (\<exists>pathname query. parsePath (iq_path request) = Some (pathname, query) \<and>
        (pathname = route_trigger \<and> verified_trigger sp cfg request seen \<or>
         pathname = route_reconcile \<and> (iq_body request = JsUndefined \<or> isRecord (iq_body request)) \<or>
         (\<exists>seg scheduleId action. ACTION_PATH_PATTERN pathname = Some seg \<and> sp_decode sp seg = Some scheduleId \<and> scheduleId \<noteq> [] \<and>
            isRecord (iq_body request) \<and> jsprop (iq_body request) ''action'' = JsStr (schedule_control_action_text action))))"

lemma handle_refused:
  assumes "\<not> presents_secret cfg request"
  shows "\<exists>msg. handle sp env cfg request st = (jsonResponse (if parsePath (iq_path request) = None then 400 else 401) (ErrorBody msg), st)"
proof -
  obtain code where "authenticate (su_secret cfg) (headerMap (iq_headers request) []) = Inl (ForesiftError code)" "ENGINE_STATUS code = 401"
    using authenticate_error [OF assms] by (auto simp: request_headers_def)
  then show ?thesis
    by (cases "parsePath (iq_path request)") (auto simp: handle_def handle_inner_def toErrorResponse_def bindP_run split: prod.split)
qed

lemma handle_routed:
  assumes "presents_secret cfg request" and "parsePath (iq_path request) = Some (pathname, query)"
  shows "handle sp env cfg request st =
    (case route sp env cfg request (request_headers request) pathname query st of
       (Inl e, st') \<Rightarrow> (toErrorResponse e, st') | (Inr response, st') \<Rightarrow> (response, st'))"
  using assms by (simp add: handle_def handle_inner_def request_headers_def [symmetric] bindP_run authenticate_ok [symmetric])

lemma handle_pathless: "parsePath (iq_path request) = None \<Longrightarrow> \<exists>msg. handle sp env cfg request st = (jsonResponse 400 (ErrorBody msg), st)"
  by (auto simp: handle_def handle_inner_def toErrorResponse_def)

lemma action_still:
  assumes "snd (handleAction sp env scheduleId request st) \<noteq> st"
  shows "scheduleId \<noteq> [] \<and> isRecord (iq_body request) \<and>
    (\<exists>action. jsprop (iq_body request) ''action'' = JsStr (schedule_control_action_text action))"
proof -
  obtain b action where b: "scheduleId \<noteq> []" "requireRecord (iq_body request) = Inr b"
    and a: "parseScheduleControlAction (case jsprop b ''action'' of JsStr s \<Rightarrow> Some s | _ \<Rightarrow> None) = Inr action"
    using assms by (auto simp: handleAction_def bindP_run split: sum.splits if_splits)
  have "jsprop b ''action'' = JsStr (schedule_control_action_text action)"
    using a by (cases "jsprop b ''action''") (simp_all add: parseScheduleControlAction_def action_voc.parse_iff)
  then show ?thesis using b by (auto simp: requireRecord_ok)
qed

lemma reconcile_still:
  assumes "snd (handleReconcile sp env cfg request st) \<noteq> st"
  shows "iq_body request = JsUndefined \<or> isRecord (iq_body request)"
  using assms by (auto simp: handleReconcile_def bindP_run requireRecord_def split: if_splits)

lemma route_still:
  assumes quiet: "\<And>c i db. se_checks env c i db = db" and secret: "presents_secret cfg request"
    and path: "parsePath (iq_path request) = Some (pathname, query)"
    and changed: "snd (route sp env cfg request (request_headers request) pathname query st) \<noteq> st"
  shows "writing_request sp cfg request (snd st)"
proof -
  note reads = still_reads [THEN still_run] still_outbox [OF quiet, THEN still_run]
  have "toUpperCase (iq_method request) = ''POST'' \<and>
        (pathname = route_trigger \<and> verified_trigger sp cfg request (snd st) \<or>
         pathname = route_reconcile \<and> (iq_body request = JsUndefined \<or> isRecord (iq_body request)) \<or>
         (\<exists>seg scheduleId action. ACTION_PATH_PATTERN pathname = Some seg \<and> sp_decode sp seg = Some scheduleId \<and> scheduleId \<noteq> [] \<and>
            isRecord (iq_body request) \<and> jsprop (iq_body request) ''action'' = JsStr (schedule_control_action_text action)))"
  proof (cases "pathname = route_trigger")
    case True
    have "verified_trigger sp cfg request (snd st)"
    proof (rule ccontr)
      assume "\<not> verified_trigger sp cfg request (snd st)"
      then have "snd (handleTrigger sp env cfg request (request_headers request) st) = st"
        using trigger_refused [of sp cfg request "snd st" env "fst st"] by auto
      then show False using changed True by (simp add: route_def only_def split: if_splits)
    qed
    then show ?thesis using changed True by (auto simp: route_def only_def split: if_splits)
  next
    case no_trigger: False
    show ?thesis
    proof (cases "pathname = route_reconcile")
      case True
      then show ?thesis using changed no_trigger reconcile_still [of sp env cfg request st]
        by (auto simp: route_def only_def Let_def split: if_splits)
    next
      case False
      show ?thesis
      proof (cases "ACTION_PATH_PATTERN pathname")
        case None
        then show ?thesis using changed no_trigger False
          by (auto simp: reads route_def only_def Let_def bindP_run split: if_splits option.splits sum.splits)
      next
        case (Some seg)
        then obtain k where k: "sp_decode sp seg = Some k" "toUpperCase (iq_method request) = ''POST''"
          "snd (handleAction sp env k request st) \<noteq> st"
          using changed no_trigger False
          by (auto simp: route_def only_def Let_def bindP_run decodeSegment_def split: if_splits option.splits)
        then show ?thesis using Some action_still [OF k(3)] by blast
      qed
    qed
  qed
  then show ?thesis using secret path by (simp add: writing_request_def)
qed

text \<open>
  C11 (surface_trust_boundary). The service boundary fails closed: a request that does not present the shared
  secret is refused with 401 (400 for a malformed path) before its route, method or body is looked
  at, and changes nothing; and whatever the request, the store, the scheduler and the replay guard change only for
  a POST with the secret that is a trigger whose delivery passed every check of the verification, a
  reconciliation, or a known control action on a named schedule. The read routes never write.
\<close>

theorem surface_trust_boundary:
  assumes "\<And>c i db. se_checks env c i db = db"
    and "handle sp env cfg request st = (response, st')"
  shows "(\<not> presents_secret cfg request \<longrightarrow>
      st' = st \<and> (\<exists>msg. response = jsonResponse (if parsePath (iq_path request) = None then 400 else 401) (ErrorBody msg))) \<and>
    (st' \<noteq> st \<longrightarrow> writing_request sp cfg request (snd st))"
proof (cases "presents_secret cfg request")
  case False
  then show ?thesis using handle_refused [OF False, of sp env st] assms(2) by auto
next
  case True
  show ?thesis
  proof (cases "parsePath (iq_path request)")
    case None
    then show ?thesis using handle_pathless [OF None, of sp env cfg st] assms(2) True by auto
  next
    case (Some p)
    obtain pathname query where p: "p = (pathname, query)" by fastforce
    have "st' = snd (route sp env cfg request (request_headers request) pathname query st)"
      using assms(2) handle_routed [OF True Some [unfolded p], of sp env st] by (auto split: prod.splits sum.splits)
    then show ?thesis using route_still [OF assms(1) True Some [unfolded p]] True by metis
  qed
qed

section \<open>The replay guard\<close>

definition guard_grows :: "'s surface \<Rightarrow> 's surface \<Rightarrow> bool" where
  "guard_grows st st' \<longleftrightarrow> set (snd st) \<subseteq> set (snd st')"

interpretation guard: rely_guarantee guard_grows
  by unfold_locales (auto simp: guard_grows_def)

lemma guard_world: "guarantees guard_grows (on_world m)" "guarantees guard_grows (on_store n)" "guarantees guard_grows (mark_seen k)"
  by (auto simp: guarantees_def guard_grows_def on_store_def on_world_def mark_seen_def split: prod.splits)

lemmas guard_rules = guard.g_bindP guard.g_pure guard_world guard.g_gap

lemma guard_handlers:
  "guarantees guard_grows (handleRuns q)" "guarantees guard_grows (handleRun k)" "guarantees guard_grows (handleSteps q)"
  "guarantees guard_grows (handleDeadLetters q)" "guarantees guard_grows (handleOutbox sp env q)"
  "guarantees guard_grows (handleReconcile sp env cfg request)" "guarantees guard_grows (handleAction sp env k request)"
  unfolding handleRuns_def handleRun_def handleSteps_def handleDeadLetters_def handleOutbox_def handleReconcile_def handleAction_def Let_def
  by ((intro guard_rules | simp split: option.split | intro conjI impI allI)+)

lemma guard_trigger:
  assumes "\<And>st. guard_grows st (se_handler env 0 st)"
  shows "guarantees guard_grows (handleTrigger sp env cfg request headers)"
  unfolding handleTrigger_def by (intro guard_rules assms)

lemma guarantees_if: "guarantees R m \<Longrightarrow> guarantees R n \<Longrightarrow> guarantees R (if b then m else n)"
  by simp

lemma guarantees_option: "guarantees R m \<Longrightarrow> (\<And>x. guarantees R (f x)) \<Longrightarrow> guarantees R (case v of None \<Rightarrow> m | Some x \<Rightarrow> f x)"
  by (simp split: option.split)

lemma guard_handle:
  assumes "\<And>st. guard_grows st (se_handler env 0 st)"
  shows "guard_grows st (snd (handle sp env cfg request st))"
proof -
  have only: "guarantees guard_grows m \<Longrightarrow> guarantees guard_grows (only a b m)" for a b and m :: "('a surface, internal_response) prog"
    by (simp add: only_def)
  have "guarantees guard_grows (route sp env cfg request headers pathname query)" for headers pathname query
    unfolding route_def Let_def
    by (intro guarantees_if guarantees_option only guard_handlers guard_trigger guard.g_bindP guard.g_pure assms)
  then have "guarantees guard_grows (handle_inner sp env cfg request)"
    unfolding handle_inner_def Let_def by (auto split: option.split intro: guard.g_bindP)
  then have "guard_grows st (snd (handle_inner sp env cfg request st))" unfolding guarantees_def by blast
  moreover have "snd (handle sp env cfg request st) = snd (handle_inner sp env cfg request st)"
    by (simp add: handle_def split: prod.split sum.split)
  ultimately show ?thesis by simp
qed

lemma body_of_others:
  assumes "route sp env cfg request headers pathname query st = (Inr response, st')" and "pathname \<noteq> route_trigger"
  shows "ir_body response \<noteq> TriggerBody x"
  using assms by (auto simp: route_def only_def Let_def bindP_eq_Inr handleReconcile_def handleAction_def handleRuns_def handleRun_def
      handleSteps_def handleDeadLetters_def handleOutbox_def jsonResponse_def notFound_def methodNotAllowed_def
      split: if_splits option.splits)

lemma error_body [simp]: "ir_body (toErrorResponse e) \<noteq> TriggerBody x"
  by (cases e) (simp_all add: toErrorResponse_def jsonResponse_def)

text \<open>What an accepted trigger has gone through.\<close>

lemma accepted_request:
  assumes "handle sp env cfg request (w, seen) = (response, st')" and "ir_body response = TriggerBody x"
  obtains payload scheduleId db s seen' db' where "verified_trigger sp cfg request seen"
    and "canonicalJson (iq_body request) = Inr payload" and "jsprop (iq_body request) ''scheduleId'' = JsStr scheduleId"
    and "se_handler env 0 (w, seen) = ((db, s), seen')"
    and "recordTriggerDeliveryInner (pf_sha (sp_pf sp)) (pf_url (sp_pf sp)) (trigger_input_of sp request scheduleId payload) db = (Inr x, db')"
    and "st' = ((db', s), if message_id request \<in> set seen' then seen' else seen' @ [message_id request])"
proof -
  have secret: "presents_secret cfg request"
    using handle_refused [of cfg request sp env "(w, seen)"] assms by (cases "presents_secret cfg request") (auto simp: jsonResponse_def)
  obtain pathname query where path: "parsePath (iq_path request) = Some (pathname, query)"
    using handle_pathless [of request sp env cfg "(w, seen)"] assms by (cases "parsePath (iq_path request)") (auto simp: jsonResponse_def)
  have run: "route sp env cfg request (request_headers request) pathname query (w, seen) = (Inr response, st')"
    using assms handle_routed [OF secret path, of sp env "(w, seen)"] by (auto split: prod.splits sum.splits)
  have "pathname = route_trigger" using body_of_others [OF run] assms(2) by blast
  then have trig: "handleTrigger sp env cfg request (request_headers request) (w, seen) = (Inr response, st')"
    using run assms(2) by (auto simp: route_def only_def methodNotAllowed_def jsonResponse_def split: if_splits)
  obtain db s seen' where env: "se_handler env 0 (w, seen) = ((db, s), seen')" by (metis prod.collapse)
  have v: "verified_trigger sp cfg request seen" using trigger_refused [of sp cfg request seen env w] trig by auto
  obtain payload scheduleId where k: "canonicalJson (iq_body request) = Inr payload" "jsprop (iq_body request) ''scheduleId'' = JsStr scheduleId"
    and h: "(Inr response, st') =
      (case recordTriggerDeliveryInner (pf_sha (sp_pf sp)) (pf_url (sp_pf sp)) (trigger_input_of sp request scheduleId payload) db of
         (Inl e, db') \<Rightarrow> (Inl e, ((db', s), seen'))
       | (Inr x, db') \<Rightarrow> (Inr (jsonResponse 202 (TriggerBody x)),
           ((db', s), if message_id request \<in> set seen' then seen' else seen' @ [message_id request])))"
    by (rule trigger_verified [OF v env]) (simp add: trig)
  then obtain db' where "recordTriggerDeliveryInner (pf_sha (sp_pf sp)) (pf_url (sp_pf sp)) (trigger_input_of sp request scheduleId payload) db =
      (Inr x, db')" "st' = ((db', s), if message_id request \<in> set seen' then seen' else seen' @ [message_id request])"
    using assms(2) by (simp add: jsonResponse_def split: prod.splits sum.splits)
  then show thesis by (rule that [OF v k env])
qed

lemma verified_unseen: "verified_trigger sp cfg request seen \<Longrightarrow> message_id request \<notin> set seen"
  unfolding verified_trigger_def by (auto elim!: delivery_verified simp: delivery_of_request_def wasSeen_def message_id_def)

text \<open>A history of requests: each with its clock, platform and interference.\<close>

type_synonym 's surface_call = "surface_platform \<times> 's surface_env \<times> internal_request"

fun serve :: "'s surface_config \<Rightarrow> 's surface_call list \<Rightarrow> 's surface \<Rightarrow> 's surface" where
  "serve cfg [] st = st"
| "serve cfg ((sp, env, request) # calls) st = serve cfg calls (snd (handle sp env cfg request st))"

fun accepted_ids :: "'s surface_config \<Rightarrow> 's surface_call list \<Rightarrow> 's surface \<Rightarrow> string list" where
  "accepted_ids cfg [] st = []"
| "accepted_ids cfg ((sp, env, request) # calls) st =
     (case handle sp env cfg request st of (response, st') \<Rightarrow>
        (case ir_body response of TriggerBody _ \<Rightarrow> [message_id request] | _ \<Rightarrow> []) @ accepted_ids cfg calls st')"


section \<open>Redelivery to another process\<close>

lemma trigger_args_identity:
  assumes "trigger_args url (trigger_input_of sp request k payload) = Inr a" and "trigger_args url (trigger_input_of sp2 request2 k payload) = Inr a2"
    and "iq_body request2 = iq_body request" and "message_id request2 = message_id request"
  shows "da_source a2 = da_source a \<and> da_canonical a2 = da_canonical a"
  using assms by (auto simp: trigger_args_def trigger_input_of_def trigger_of_request_def message_id_def bindE_eq_Inr Let_def split: if_splits)

lemma trigger_unaccepted:
  assumes "handle sp env cfg request (w, seen) = (response, (w', seen'))" and "parsePath (iq_path request) = Some (route_trigger, query)"
    and "\<And>st. se_handler env 0 st = st" and "\<And>x. ir_body response \<noteq> TriggerBody x"
  shows "w' = w"
proof (cases "presents_secret cfg request")
  case False
  then show ?thesis using handle_refused [OF False, of sp env "(w, seen)"] assms(1) by auto
next
  case True
  note run = handle_routed [OF True assms(2), of sp env "(w, seen)", unfolded assms(1)]
  show ?thesis
  proof (cases "verified_trigger sp cfg request seen")
    case False
    then show ?thesis using trigger_refused [OF False, of env w] run
      by (auto simp: route_def only_def Let_def split: if_splits)
  next
    case v: True
    have env: "se_handler env 0 (w, seen) = ((fst w, snd w), seen)" using assms(3) by simp
    obtain payload k where h: "handleTrigger sp env cfg request (request_headers request) (w, seen) =
      (case recordTriggerDeliveryInner (pf_sha (sp_pf sp)) (pf_url (sp_pf sp)) (trigger_input_of sp request k payload) (fst w) of
         (Inl e, db') \<Rightarrow> (Inl e, ((db', snd w), seen))
       | (Inr x, db') \<Rightarrow> (Inr (jsonResponse 202 (TriggerBody x)),
           ((db', snd w), if message_id request \<in> set seen then seen else seen @ [message_id request])))"
      by (rule trigger_verified [OF v env]) blast
    obtain r db' where rec: "recordTriggerDeliveryInner (pf_sha (sp_pf sp)) (pf_url (sp_pf sp)) (trigger_input_of sp request k payload) (fst w) = (r, db')"
      by (metis surj_pair)
    have "db' = fst w" if "r = Inl e" for e using delivery_refused rec that by blast
    then show ?thesis using run assms(4) rec
      by (cases r) (auto simp: route_def only_def Let_def h jsonResponse_def split: if_splits)
  qed
qed

text \<open>
  A scheduler retry never becomes a second run, even when it reaches a process whose replay guard
  is empty: once a trigger was accepted, and after whatever the trigger pipeline and the runs did in between, a
  request with the same envelope and message id, whatever its headers and clock otherwise, changes no run; if it is accepted
  it is acknowledged as a collapsed duplicate with the run of the first delivery.
\<close>

theorem surface_retry_one_run:
  assumes "trig_inv (fst w)" and "\<And>st. se_handler env 0 st = st" and "\<And>st. se_handler env2 0 st = st"
    and "handle sp env cfg request (w, seen) = (response, (w1, seen1))" and "ir_body response = TriggerBody x"
    and "trigger_step\<^sup>*\<^sup>* (fst w1) (fst w2)" and "sp_pf sp2 = sp_pf sp"
    and "iq_body request2 = iq_body request" and "message_id request2 = message_id request"
    and "parsePath (iq_path request2) = Some (route_trigger, query)"
    and "handle sp2 env2 cfg2 request2 (w2, seen2) = (response2, (w3, seen3))"
  shows "runs (fst w3) = runs (fst w2) \<and>
    (\<forall>y. ir_body response2 = TriggerBody y \<longrightarrow> tr_runId x \<noteq> None \<and> tr_runId y = tr_runId x \<and> tr_duplicate y)"
proof (cases "\<exists>y. ir_body response2 = TriggerBody y")
  case False
  then show ?thesis using trigger_unaccepted [OF assms(11,10,3)] by auto
next
  case True
  then obtain y where y: "ir_body response2 = TriggerBody y" by blast
  let ?store = "recordTriggerDeliveryInner (pf_sha (sp_pf sp)) (pf_url (sp_pf sp))"
  from assms(4,5) obtain payload k db1 where body: "canonicalJson (iq_body request) = Inr payload" "jsprop (iq_body request) ''scheduleId'' = JsStr k"
    and first: "?store (trigger_input_of sp request k payload) (fst w) = (Inr x, fst w1)"
    by (rule accepted_request) (auto simp: assms(2))
  from assms(11) y have second: "?store (trigger_input_of sp2 request2 k payload) (fst w2) = (Inr y, fst w3)"
    by (rule accepted_request) (use body in \<open>auto simp: assms(3,7,8)\<close>)
  obtain a where a: "trigger_args (pf_url (sp_pf sp)) (trigger_input_of sp request k payload) = Inr a"
    using first assms(1) by (rule delivery_ok) auto
  have sched: "ti_scheduleId (trigger_input_of sp request k payload) = k" "ti_scheduleId (trigger_input_of sp2 request2 k payload) = k"
    by (simp_all add: trigger_input_of_def trigger_of_request_def)
  obtain r where r: "tr_runId x = Some r" "settled (fst w1) (da_source a) (da_canonical a) k r"
    using accepted_settled [OF first assms(1) a] sched(1) by metis
  have later: "trig_inv (fst w2)" "settled (fst w2) (da_source a) (da_canonical a) k r"
    using steps_settled [OF assms(6) delivery_inv [OF first assms(1)] r(2)] by blast+
  from second later(1) show ?thesis
  proof (cases rule: delivery_ok)
    case (duplicate a2 i k')
    have "da_source a2 = da_source a \<and> da_canonical a2 = da_canonical a" by (rule trigger_args_identity [OF a duplicate(1) assms(8,9)])
    then show ?thesis using duplicate later(2) r(1) y by (auto simp: settled_def)
  next
    case (admitted a2 i schedule policy row db0)
    have "da_source a2 = da_source a \<and> da_canonical a2 = da_canonical a" by (rule trigger_args_identity [OF a admitted(1) assms(8,9)])
    note same = this
    then have "delivery_of db0 (da_source a) (da_canonical a) = Some i"
      using trig_invD(2) [OF admitted(10)] admitted(2,3) by (simp add: row_by_eq_Some_iff)
    then show ?thesis using admitted(5,9) later(2) same by (auto simp: settled_def)
  qed
qed

section \<open>The listings\<close>

definition key_le :: "('r \<Rightarrow> 'a::linorder) \<Rightarrow> ('r \<Rightarrow> 'b::linorder) \<Rightarrow> 'r \<Rightarrow> 'r \<Rightarrow> bool" where
  "key_le a b x y \<longleftrightarrow> a x < a y \<or> a x = a y \<and> b x \<le> b y"

lemma insort_key_le: "sorted_wrt (key_le a b) zs \<Longrightarrow> \<forall>z \<in> set zs. b x \<le> b z \<Longrightarrow> sorted_wrt (key_le a b) (insort_key a x zs)"
  by (induction zs) (auto simp: key_le_def set_insort_key not_le)

lemma sort_key_le: "sorted_wrt (key_le a b) (sort_key a (sort_key b xs))"
proof -
  have "sorted (map b ys) \<Longrightarrow> sorted_wrt (key_le a b) (sort_key a ys)" for ys
    by (induction ys) (auto intro!: insort_key_le)
  then show ?thesis by simp
qed

text \<open>One page: the first \<open>limit\<close> of the rows in question, in order, and all others come after them.\<close>

definition page :: "('r \<Rightarrow> 'r \<Rightarrow> bool) \<Rightarrow> nat \<Rightarrow> 'r list \<Rightarrow> 'r list \<Rightarrow> bool" where
  "page le limit rows chosen \<longleftrightarrow> length chosen = min limit (length rows) \<and>
     (\<exists>others. mset (chosen @ others) = mset rows \<and> sorted_wrt le (chosen @ others))"

lemma page_take:
  assumes "mset sorted_rows = mset rows" and "sorted_wrt le sorted_rows"
  shows "page le limit rows (take limit sorted_rows)"
proof -
  have "length sorted_rows = length rows" using assms(1) by (rule mset_eq_length)
  then show ?thesis unfolding page_def using assms by (intro conjI exI [of _ "drop limit sorted_rows"]) (auto simp: min.commute)
qed

lemma page_sort: "page (\<lambda>x y. a x \<le> a y) limit rows (take limit (sort_key a rows))"
  by (rule page_take) (use sorted_sort_key [of a rows] in \<open>simp_all add: sorted_map\<close>)

lemma page_sort2: "page (key_le a b) limit rows (take limit (sort_key a (sort_key b rows)))"
  by (rule page_take) (simp_all add: sort_key_le)

lemma parseLimit_bounds: "parseLimit raw = Inr limit \<Longrightarrow> 1 \<le> limit \<and> limit \<le> INTERNAL_READ_LIMIT_MAX"
  by (auto simp: parseLimit_def Let_def INTERNAL_READ_LIMIT_DEFAULT_def INTERNAL_READ_LIMIT_MAX_def split: option.splits if_splits)

lemma listing_routes:
  "route_runs \<noteq> route_trigger" "route_runs \<noteq> route_reconcile" "ACTION_PATH_PATTERN route_runs = None"
  "route_steps \<noteq> route_trigger" "route_steps \<noteq> route_reconcile" "ACTION_PATH_PATTERN route_steps = None"
  "route_steps \<noteq> route_runs" "RUN_PATH_PATTERN route_steps = None"
  "route_outbox \<noteq> route_trigger" "route_outbox \<noteq> route_reconcile" "ACTION_PATH_PATTERN route_outbox = None"
  "route_runs \<noteq> route_steps" "route_runs \<noteq> route_outbox" "route_steps \<noteq> route_outbox"
  "route_outbox \<noteq> route_runs" "RUN_PATH_PATTERN route_outbox = None" "route_outbox \<noteq> route_steps" "route_outbox \<noteq> route_deadLetters"
  by (simp_all add: route_runs_def route_trigger_def route_reconcile_def route_steps_def route_outbox_def route_deadLetters_def
      ACTION_PATH_PATTERN_def RUN_PATH_PATTERN_def segment_def Let_def)

text \<open>
  An authenticated listing writes nothing. With a limit that is no number from 1 to 500 it is refused
  with 400; otherwise it answers with one page of the rows that match every filter given (a blank filter counts as
  none): as many as there are up to the limit, in the documented order, and every matching row left out comes after them.
\<close>

theorem surface_listings_exact:
  assumes "presents_secret cfg request" and "parsePath (iq_path request) = Some (pathname, query)"
    and "toUpperCase (iq_method request) = ''GET''" and "pathname \<in> {route_runs, route_steps, route_outbox}"
    and "sp_query sp query ''checks'' \<noteq> Some ''1''" and "handle sp env cfg request ((db, s), seen) = (response, st')"
  shows "st' = ((db, s), seen) \<and>
    (case parseLimit (sp_query sp query ''limit'') of
       Inl e \<Rightarrow> ir_status response = 400
     | Inr limit \<Rightarrow> 1 \<le> limit \<and> limit \<le> 500 \<and> ir_status response = 200 \<and>
        (let param = (\<lambda>name. nullableParam (sp_query sp query name)) in
         (pathname = route_runs \<longrightarrow> (\<exists>rows. ir_body response = RunsBody (map mapRun rows) \<and>
            page (\<lambda>x y. r_run_id x \<le> r_run_id y) limit
              (filter (\<lambda>r. param ''scheduleId'' \<in> {None, Some (r_schedule_id r)} \<and>
                 param ''status'' \<in> {None, Some (run_status_text (r_status r))}) (runs db)) rows)) \<and>
         (pathname = route_steps \<longrightarrow> (\<exists>rows. ir_body response = StepsBody (map mapStep rows) \<and>
            page (key_le s_run_id s_step_id) limit
              (filter (\<lambda>r. param ''runId'' \<in> {None, Some (s_run_id r)}) (steps db)) rows)) \<and>
         (pathname = route_outbox \<longrightarrow> (\<exists>rows. ir_body response = OutboxBody (map mapOutbox rows) None \<and>
            page (key_le o_enqueued_at o_outbox_id) limit
              (filter (\<lambda>r. param ''status'' \<in> {None, Some (outbox_status_text (o_status r))}) (notification_outbox db)) rows))))"
proof -
  have m: "matches p v \<longleftrightarrow> p \<in> {None, Some v}" for p v by (auto simp: matches_def split: option.split)
  have bad: "ir_status (toErrorResponse e) = 400" if "parseLimit raw = Inl e" for raw e
    using that by (auto simp: parseLimit_def toErrorResponse_def jsonResponse_def Let_def split: option.splits if_splits)
  note run = handle_routed [OF assms(1,2), of sp env "((db, s), seen)", unfolded assms(6)] and only = only_def assms(3)
  note unfold = on_store_def on_world_def on_db_def bindP_run m Let_def jsonResponse_def listing_routes
  consider (runs) "pathname = route_runs" | (steps) "pathname = route_steps" | (outbox) "pathname = route_outbox" using assms(4) by blast
  note which = this
  show ?thesis
  proof (cases "parseLimit (sp_query sp query ''limit'')")
    case (Inl e)
    have "response = toErrorResponse e \<and> st' = ((db, s), seen)"
      using which run by cases (simp_all add: route_def only listing_routes Let_def bindP_run Inl handleRuns_def handleSteps_def handleOutbox_def)
    then show ?thesis using Inl bad [OF Inl] by simp
  next
    case (Inr limit)
    have bounds: "1 \<le> limit \<and> limit \<le> 500" using parseLimit_bounds [OF Inr] by (simp add: INTERNAL_READ_LIMIT_MAX_def)
    from which show ?thesis
    proof cases
      case runs
      then show ?thesis using run page_sort [of r_run_id limit] bounds by (auto simp: Inr route_def only handleRuns_def unfold)
    next
      case steps
      then show ?thesis using run page_sort2 [of s_run_id s_step_id limit] bounds by (auto simp: Inr route_def only handleSteps_def unfold)
    next
      case outbox
      then show ?thesis using run page_sort2 [of o_enqueued_at o_outbox_id limit] bounds assms(5)
        by (auto simp: Inr route_def only handleOutbox_def unfold)
    qed
  qed
qed

section \<open>Worked example\<close>

definition demo_sp :: surface_platform where
  "demo_sp = \<lparr>sp_pf = demo_pf, sp_hmac = (\<lambda>_ _. ''ab''), sp_date = (\<lambda>_. Some 6), sp_query = (\<lambda>_ _. None), sp_decode = Some,
     sp_now = ''t'', sp_clock = (\<lambda>_ _. 6)\<rparr>"

definition demo_env :: "'s surface_env" where
  "demo_env = \<lparr>se_handler = (\<lambda>_ st. st), se_store = (\<lambda>_ db. db), se_world = (\<lambda>_ w. w), se_checks = (\<lambda>_ _ db. db)\<rparr>"

definition demo_cfg :: "local_scheduler surface_config" where
  "demo_cfg = \<lparr>su_secret = ''k'', su_replayWindowMs = DEFAULT_REPLAY_WINDOW_MS, su_port = LocalSchedulerAdapter\<rparr>"

definition demo_body :: jsval where
  "demo_body = JsObj [(''scheduleId'', JsStr ''s1''), (''source'', JsStr ''q'')]"

definition demo_request :: "string \<Rightarrow> string \<Rightarrow> string \<Rightarrow> internal_request" where
  "demo_request meth path authorization = \<lparr>iq_method = meth, iq_path = path,
     iq_headers = [(''Authorization'', Some authorization), (SCHEDULER_MESSAGE_ID_HEADER, Some ''m''),
       (SCHEDULER_DELIVERED_AT_HEADER, Some ''t''), (SCHEDULER_SIGNATURE_HEADER, Some ''ab'')],
     iq_body = demo_body\<rparr>"

lemma demo_headers: "request_headers (demo_request meth path a) = [(''authorization'', a), (SCHEDULER_MESSAGE_ID_HEADER, ''m''),
       (SCHEDULER_DELIVERED_AT_HEADER, ''t''), (SCHEDULER_SIGNATURE_HEADER, ''ab'')]"
  by (simp add: request_headers_def demo_request_def toLowerCase_def lower_char_def char_of_def bit_0 SCHEDULER_MESSAGE_ID_HEADER_def
      SCHEDULER_DELIVERED_AT_HEADER_def SCHEDULER_SIGNATURE_HEADER_def)

lemma demo_secret: "presents_secret demo_cfg (demo_request meth path ''Bearer k'')"
  by (simp add: presents_secret_def demo_headers BEARER_PATTERN_def js_space_def demo_cfg_def)

lemma demo_no_secret: "\<not> presents_secret demo_cfg (demo_request meth path ''Bearer x'')"
  by (simp add: presents_secret_def demo_headers BEARER_PATTERN_def js_space_def demo_cfg_def)

lemma demo_payload: "\<exists>payload. canonicalJson demo_body = Inr payload \<and> payload \<noteq> []"
  by (simp add: demo_body_def)

lemma demo_header:
  "header (request_headers (demo_request meth path a)) SCHEDULER_MESSAGE_ID_HEADER = ''m''"
  "header (request_headers (demo_request meth path a)) SCHEDULER_DELIVERED_AT_HEADER = ''t''"
  "header (request_headers (demo_request meth path a)) SCHEDULER_SIGNATURE_HEADER = ''ab''"
  by (simp_all add: header_def demo_headers SCHEDULER_MESSAGE_ID_HEADER_def SCHEDULER_DELIVERED_AT_HEADER_def SCHEDULER_SIGNATURE_HEADER_def)

lemma demo_request_body [simp]: "iq_body (demo_request meth path a) = demo_body"
  by (simp add: demo_request_def)

lemma demo_digest: "HASH_PATTERN (sha256Text no_sha [])" "sha256Text no_sha t = sha256Text no_sha []"
  by (simp_all add: sha256Text_def no_sha_def HASH_PATTERN_def hex_digit_def list_all_iff)

lemma demo_verified:
  assumes "m \<notin> set seen" and "m = ''m''"
  shows "verified_trigger demo_sp demo_cfg (demo_request meth path a) seen"
proof -
  obtain payload where p: "canonicalJson demo_body = Inr payload" "payload \<noteq> []" using demo_payload by blast
  have b: "\<not> blank ''s1''" "\<not> blank ''m''" "\<not> blank ''t''" "\<not> blank ''ab''" by (simp_all add: blank_def trim_def js_space_def)
  have n: "normalizeSignature ''ab'' = ''ab''" by (simp add: normalizeSignature_def trim_def js_space_def toLowerCase_def lower_char_def)
  have body: "isRecord demo_body" "jsprop demo_body ''scheduleId'' = JsStr ''s1''" by (simp_all add: demo_body_def isRecord_def jsprop_def)
  have "\<exists>v. verifySchedulerDelivery (sp_hmac demo_sp) (sp_date demo_sp)
      (delivery_of_request demo_sp demo_cfg (request_headers (demo_request meth path a)) payload (sp_now demo_sp) seen) = Inr v"
    using assms p(2) b n by (simp add: verifySchedulerDelivery_def delivery_of_request_def demo_header parseInstant_def demo_sp_def demo_cfg_def
        computeDeliveryMac_def wasSeen_def DEFAULT_REPLAY_WINDOW_MS_def Let_def js_Number_exact)
  then show ?thesis
    unfolding verified_trigger_def using p(1) b(1) body by simp
qed

lemma demo_path: "parsePath route_trigger = Some (route_trigger, [])" "parsePath route_runs = Some (route_runs, [])"
  by (simp_all add: parsePath_def route_trigger_def route_runs_def)

lemma demo_post: "toUpperCase ''post'' = ''POST''" "toUpperCase ''GET'' = ''GET''"
  by (simp_all add: toUpperCase_def upper_char_def char_of_def bit_0)

definition demo_input :: "string \<Rightarrow> trigger_input" where
  "demo_input payload = trigger_input_of demo_sp (demo_request ''post'' route_trigger ''Bearer k'') ''s1'' payload"

definition demo_surface_args :: delivery_args where
  "demo_surface_args = \<lparr>da_source = ''q'', da_canonical = ''m'', da_payloadHash = sha256Text no_sha [], da_scheduledFor = 6, da_receivedAt = 6,
     da_verifiedAt = 6, da_deadlineMs = Fin 900000\<rparr>"

lemma demo_input_eq: "demo_input payload = \<lparr>ti_source = ''q'', ti_externalMessageId = ''m'', ti_scheduleId = ''s1'', ti_scheduledFor = Some 6,
     ti_payloadHash = sha256Text no_sha [], ti_receivedAt = Some 6, ti_verifiedAt = Some (Some 6), ti_workloadKind = None,
     ti_deadlineMs = None, ti_inboxId = None, ti_runId = None\<rparr>"
proof -
  have "\<not> blank ''q''" by (simp add: blank_def trim_def js_space_def)
  then show ?thesis
    using demo_digest(2) [of payload] by (simp add: demo_input_def trigger_input_of_def trigger_of_request_def demo_header)
      (simp add: demo_body_def jsprop_def optionalString_def workload_kind_of_def demo_sp_def demo_pf_def)
qed

lemma demo_input_args: "trigger_args no_url (demo_input payload) = Inr demo_surface_args"
  by (simp add: trigger_args_def demo_input_eq demo_canonical trigger_assertHash_def assertTimestamp_def demo_digest(1)
      DEFAULT_RUN_DEADLINE_MS_def js_le_def js_eq_def demo_surface_args_def)

lemma demo_input_run: "\<exists>res db'. recordTriggerDeliveryInner no_sha no_url (demo_input payload) demo_scheduled = (Inr res, db')"
proof -
  have pol: "parseConcurrencyPolicy (Some ''SKIP_IF_RUNNING'') = Inr SKIP_IF_RUNNING"
    using policy_voc.parse_roundtrip [of SKIP_IF_RUNNING] by (simp add: parseConcurrencyPolicy_def)
  obtain k where k: "deriveTriggerInboxId no_sha ''q'' ''m'' = Inr k" "k \<noteq> []" using deriveTriggerInboxId_ok by blast
  obtain r where r: "deriveTriggerRunId no_sha ''s1'' ''v1'' k = Inr r" "r \<noteq> []" by (simp add: deriveTriggerRunId_def)
  have "\<exists>res db'. trigger_tx no_sha (demo_input payload) demo_surface_args demo_scheduled = (Inr res, db')"
    by (simp add: trigger_tx_def demo_scheduled_def empty_db_def demo_input_eq demo_schedule_def pol bindP_run k r
        inbox_insert_def new_inbox_row_def demo_surface_args_def admit_def demo_version_def resolveConcurrencyPolicy_def jsprop_def
        active_runs_def start_run_def demo_deadline create_run_def run_insert_def new_run_row_def inbox_update_run demo_digest(1))
  then show ?thesis unfolding delivery_is_tx [OF demo_input_args] using transaction_ok by metis
qed

definition demo_state :: "local_scheduler surface" where
  "demo_state = ((demo_scheduled, []), [])"

text \<open>The first delivery is accepted.\<close>

lemma demo_accepted:
  "\<exists>response db1 x. handle demo_sp demo_env demo_cfg (demo_request ''post'' route_trigger ''Bearer k'') demo_state = (response, ((db1, []), [''m''])) \<and>
     ir_body response = TriggerBody x"
proof -
  let ?r = "demo_request ''post'' route_trigger ''Bearer k''"
  have v: "verified_trigger demo_sp demo_cfg ?r []" by (rule demo_verified) simp_all
  have env: "se_handler demo_env 0 ((demo_scheduled, []), []) = ((demo_scheduled, []), [])" by (simp add: demo_env_def)
  have id: "message_id ?r = ''m''" by (simp add: message_id_def demo_header)
  have pf: "pf_sha (sp_pf demo_sp) = no_sha" "pf_url (sp_pf demo_sp) = no_url" by (auto simp: demo_sp_def demo_pf_def no_url_def)
  obtain payload k where k: "jsprop (iq_body ?r) ''scheduleId'' = JsStr k"
    and h: "handleTrigger demo_sp demo_env demo_cfg ?r (request_headers ?r) ((demo_scheduled, []), []) =
      (case recordTriggerDeliveryInner (pf_sha (sp_pf demo_sp)) (pf_url (sp_pf demo_sp)) (trigger_input_of demo_sp ?r k payload) demo_scheduled of
         (Inl e, db') \<Rightarrow> (Inl e, ((db', []), []))
       | (Inr x, db') \<Rightarrow> (Inr (jsonResponse 202 (TriggerBody x)), ((db', []), if message_id ?r \<in> set [] then [] else [] @ [message_id ?r])))"
    by (rule trigger_verified [OF v env]) blast
  have "k = ''s1''" using k by (simp add: demo_body_def jsprop_def)
  moreover obtain x db1 where "recordTriggerDeliveryInner no_sha no_url (demo_input payload) demo_scheduled = (Inr x, db1)"
    using demo_input_run by blast
  ultimately have run: "handleTrigger demo_sp demo_env demo_cfg ?r (request_headers ?r) ((demo_scheduled, []), []) =
      (Inr (jsonResponse 202 (TriggerBody x)), ((db1, []), [''m'']))" using h by (simp add: pf id demo_input_def)
  have m: "toUpperCase (iq_method ?r) = ''POST''" "parsePath (iq_path ?r) = Some (route_trigger, [])"
    by (simp_all add: demo_request_def demo_path demo_post)
  show ?thesis unfolding demo_state_def handle_routed [OF demo_secret m(2)]
    by (simp add: route_def only_def m(1) run jsonResponse_def)
qed

theorem surface_trust_boundary_witness:
  "\<exists>msg. handle demo_sp demo_env demo_cfg (demo_request ''post'' route_trigger ''Bearer x'') demo_state = (jsonResponse 401 (ErrorBody msg), demo_state)"
proof -
  let ?r = "demo_request ''post'' route_trigger ''Bearer x''"
  obtain response st' where run: "handle demo_sp demo_env demo_cfg ?r demo_state = (response, st')" by (metis surj_pair)
  have "se_checks demo_env c i db = db" for c i db by (simp add: demo_env_def)
  from surface_trust_boundary [OF this run] demo_no_secret run show ?thesis by (auto simp: demo_request_def demo_path)
qed


theorem surface_retry_one_run_witness:
  "\<exists>response st1 x. handle demo_sp demo_env demo_cfg (demo_request ''post'' route_trigger ''Bearer k'') demo_state = (response, st1) \<and>
     ir_body response = TriggerBody x \<and>
     runs (fst (fst (snd (handle demo_sp demo_env demo_cfg (demo_request ''post'' route_trigger ''Bearer k'') (fst st1, []))))) = runs (fst (fst st1))"
proof -
  let ?r = "demo_request ''post'' route_trigger ''Bearer k''"
  obtain response db1 x where run: "handle demo_sp demo_env demo_cfg ?r ((demo_scheduled, []), []) = (response, ((db1, []), [''m'']))"
    "ir_body response = TriggerBody x" using demo_accepted unfolding demo_state_def by blast
  obtain response2 w3 seen3 where again: "handle demo_sp demo_env demo_cfg ?r ((db1, []), []) = (response2, (w3, seen3))" by (metis surj_pair)
  have quiet: "se_handler demo_env 0 st = st" for st :: "local_scheduler surface" by (simp add: demo_env_def)
  have inv: "trig_inv (fst (demo_scheduled, [] :: local_scheduler))" using demo_scheduled_inv by simp
  have path: "parsePath (iq_path ?r) = Some (route_trigger, [])" by (simp add: demo_request_def demo_path)
  have "runs (fst w3) = runs (fst (db1, [] :: local_scheduler))"
    using surface_retry_one_run [OF inv quiet quiet run _ refl refl refl path again] by simp
  then show ?thesis using run again unfolding demo_state_def by fastforce
qed

theorem surface_listings_exact_witness:
  "\<exists>response rows. handle demo_sp demo_env demo_cfg (demo_request ''GET'' route_runs ''Bearer k'') demo_state = (response, demo_state) \<and>
     ir_status response = 200 \<and> ir_body response = RunsBody (map mapRun rows) \<and> rows = []"
proof -
  let ?r = "demo_request ''GET'' route_runs ''Bearer k''"
  obtain response st' where run: "handle demo_sp demo_env demo_cfg ?r ((demo_scheduled, []), []) = (response, st')" by (metis surj_pair)
  have m: "toUpperCase (iq_method ?r) = ''GET''" "parsePath (iq_path ?r) = Some (route_runs, [])"
    by (simp_all add: demo_request_def demo_path demo_post)
  have q: "sp_query demo_sp [] n = None" for n by (simp add: demo_sp_def)
  have l: "parseLimit None = Inr 100" by (simp add: parseLimit_def INTERNAL_READ_LIMIT_DEFAULT_def)
  have none: "runs demo_scheduled = []" by (simp add: demo_scheduled_def empty_db_def)
  have "st' = ((demo_scheduled, []), []) \<and> ir_status response = 200 \<and> (\<exists>rows. ir_body response = RunsBody (map mapRun rows) \<and> rows = [])"
    using surface_listings_exact [OF demo_secret m(2,1) _ _ run] by (simp add: q l none page_def Let_def)
  then show ?thesis using run unfolding demo_state_def by blast
qed

end
