(* ===== verification/NetReturn.thy ===== *)
theory NetReturn
  imports DecimalText ExecLaws
begin

text \<open>
  Net-return composition (packages/execution-simulator/src/net-return.ts): every cost leg is
  required, the subtraction is exact, and a recorded breakdown is accepted exactly when its net is
  the normal text of gross minus the legs. Leaf values are \<open>js_unknown\<close>, as the code tests them.
\<close>

section \<open>Quality codes\<close>

definition ALL_QUALITY_CODES :: "string list" where
  "ALL_QUALITY_CODES =
     [''VALID'', ''MISSING_PROVIDER'', ''NOT_REQUESTED_BY_POLICY'',
      ''UNSUPPORTED_CHAIN'', ''UNSUPPORTED_PROGRAM_VERSION'', ''STALE'',
      ''PARTIAL'', ''ESTIMATED'', ''CONFLICTING'',
      ''REORG_PENDING'', ''GAP_AFFECTED'', ''LOW_SAMPLE'',
      ''DECIMAL_UNCERTAIN'', ''LICENSE_RESTRICTED'', ''SCHEMA_DEGRADED'',
      ''DEPRECATED_OPERATION'', ''COST_BLOCKED'', ''QUOTA_RESERVE_PROTECTED'',
      ''CAPACITY_BLOCKED'', ''EXECUTION_UNAVAILABLE'', ''EXECUTION_PARTIAL'',
      ''POOL_MATH_UNSUPPORTED'', ''QUOTE_PARITY_FAILED'', ''TOKEN_EXTENSION_UNKNOWN'',
      ''SUPPLY_UNCERTAIN'', ''SYSTEM_ADDRESS_UNCERTAIN'', ''SOCIAL_UNAVAILABLE'',
      ''SOURCE_DEPENDENCE_HIGH'', ''OUTCOME_PENDING'', ''OUTCOME_CENSORED'',
      ''RETROSPECTIVE_ONLY'']"

definition isQualityCode :: "js_unknown \<Rightarrow> bool" where
  "isQualityCode v = (case v of U_string s \<Rightarrow> s \<in> set ALL_QUALITY_CODES | _ \<Rightarrow> False)"

section \<open>Legs\<close>

datatype cost_leg =
    Leg_poolFees | Leg_aggregatorFees | Leg_tokenTransferFees | Leg_priorityNetworkFees
  | Leg_executionImpact | Leg_failedAttempts | Leg_partialFillPenalty | Leg_residualInventory
  | Leg_adverseSelectionMevBuffer | Leg_quoteConversionDepeg | Leg_accountCreationRent

definition COST_LEGS :: "cost_leg list" where
  "COST_LEGS =
     [Leg_poolFees, Leg_aggregatorFees, Leg_tokenTransferFees, Leg_priorityNetworkFees,
      Leg_executionImpact, Leg_failedAttempts, Leg_partialFillPenalty, Leg_residualInventory,
      Leg_adverseSelectionMevBuffer, Leg_quoteConversionDepeg, Leg_accountCreationRent]"

text \<open>The eleven leg fields are one function of the leg; a breakdown is an input with its net.\<close>

record net_return_input =
  ni_grossReturnUsd :: js_unknown
  ni_legs :: "cost_leg \<Rightarrow> js_unknown"
  ni_qualityCodes :: "js_unknown list"

record net_return_breakdown = net_return_input +
  nb_netReturnUsd :: js_unknown

definition requireLeg :: "js_unknown \<Rightarrow> bool \<Rightarrow> string res" where
  "requireLeg v signed =
     (case v of
        U_string s \<Rightarrow>
          if (if signed then SIGNED_DECIMAL s else NON_NEGATIVE_DECIMAL s) then Inr s
          else Inl (OtherError ''NET_RETURN_LEG_MALFORMED'')
      | _ \<Rightarrow> Inl (OtherError ''NET_RETURN_LEG_MISSING''))"

fun require_legs :: "(cost_leg \<Rightarrow> js_unknown) \<Rightarrow> cost_leg list \<Rightarrow> (cost_leg \<Rightarrow> string) \<Rightarrow> (cost_leg \<Rightarrow> string) res" where
  "require_legs input [] legs = Inr legs"
| "require_legs input (leg # rest) legs =
     bindE (requireLeg (input leg) False) (\<lambda>s. require_legs input rest (legs(leg := s)))"

fun require_codes :: "js_unknown list \<Rightarrow> unit res" where
  "require_codes [] = Inr ()"
| "require_codes (code # rest) =
     (if \<not> isQualityCode code then Inl (OtherError ''NET_RETURN_QUALITY_CODE_UNKNOWN'') else require_codes rest)"

definition common_scale :: "string \<Rightarrow> (cost_leg \<Rightarrow> string) \<Rightarrow> nat" where
  "common_scale gross legs = foldl max (scaleOf gross) (map (\<lambda>leg. scaleOf (legs leg)) COST_LEGS)"

definition scaled_net :: "string \<Rightarrow> (cost_leg \<Rightarrow> string) \<Rightarrow> nat \<Rightarrow> int" where
  "scaled_net gross legs scale = foldl (\<lambda>net leg. net - toScaled (legs leg) scale) (toScaled gross scale) COST_LEGS"

definition composeNetReturn :: "net_return_input option \<Rightarrow> net_return_breakdown res" where
  "composeNetReturn arg =
     (case arg of
        None \<Rightarrow> Inl (OtherError ''NET_RETURN_INPUT_INVALID'')
      | Some input \<Rightarrow>
          bindE (requireLeg (ni_grossReturnUsd input) True) (\<lambda>gross.
          bindE (require_legs (ni_legs input) COST_LEGS (\<lambda>_. [])) (\<lambda>legs.
          bindE (require_codes (ni_qualityCodes input)) (\<lambda>_.
          let scale = common_scale gross legs; net = scaled_net gross legs scale
          in Inr \<lparr>ni_grossReturnUsd = U_string gross, ni_legs = (\<lambda>leg. U_string (legs leg)),
                  ni_qualityCodes = ni_qualityCodes input, nb_netReturnUsd = U_string (fromScaled net scale)\<rparr>))))"

definition netReturnConsistent :: "net_return_breakdown \<Rightarrow> bool" where
  "netReturnConsistent breakdown =
     (let legs = \<lparr>ni_grossReturnUsd = ni_grossReturnUsd breakdown, ni_legs = ni_legs breakdown,
                  ni_qualityCodes = ni_qualityCodes breakdown\<rparr>
      in case composeNetReturn (Some legs) of
           Inl _ \<Rightarrow> False
         | Inr b \<Rightarrow> nb_netReturnUsd b = nb_netReturnUsd breakdown)"

section \<open>What the composition computes\<close>

definition valid_net_input :: "'a net_return_input_scheme \<Rightarrow> bool" where
  "valid_net_input input \<longleftrightarrow>
     (\<exists>g. ni_grossReturnUsd input = U_string g \<and> SIGNED_DECIMAL g) \<and>
     (\<forall>leg. \<exists>s. ni_legs input leg = U_string s \<and> NON_NEGATIVE_DECIMAL s) \<and>
     list_all isQualityCode (ni_qualityCodes input)"

definition usd :: "js_unknown \<Rightarrow> rat" where
  "usd v = (case v of U_string s \<Rightarrow> dec_value s | _ \<Rightarrow> 0)"

definition net_value :: "'a net_return_input_scheme \<Rightarrow> rat" where
  "net_value input = usd (ni_grossReturnUsd input) - (\<Sum>leg\<leftarrow>COST_LEGS. usd (ni_legs input leg))"

lemma COST_LEGS_all: "leg \<in> set COST_LEGS"
  by (cases leg) (simp_all add: COST_LEGS_def)

lemma requireLeg_Inr:
  "requireLeg v signed = Inr s \<longleftrightarrow> v = U_string s \<and> (if signed then SIGNED_DECIMAL s else NON_NEGATIVE_DECIMAL s)"
  by (auto simp: requireLeg_def split: js_unknown.splits if_splits)

lemma require_legs_ok:
  "\<forall>leg \<in> set xs. input leg = U_string (f leg) \<and> NON_NEGATIVE_DECIMAL (f leg) \<Longrightarrow>
     require_legs input xs acc = Inr (\<lambda>leg. if leg \<in> set xs then f leg else acc leg)"
  by (induction xs arbitrary: acc) (auto simp: requireLeg_def)

lemma require_legs_valid:
  "require_legs input xs acc = Inr legs \<Longrightarrow> leg \<in> set xs \<Longrightarrow> \<exists>s. input leg = U_string s \<and> NON_NEGATIVE_DECIMAL s"
  by (induction xs arbitrary: acc) (auto simp: bindE_eq_Inr requireLeg_Inr)

lemma require_codes_Inr: "require_codes codes = Inr u \<longleftrightarrow> list_all isQualityCode codes"
  by (induction codes) auto

lemma common_scale_ge: "scaleOf gross \<le> common_scale gross legs" "scaleOf (legs leg) \<le> common_scale gross legs"
proof -
  have m: "y \<le> foldl max x ys" if "y = x \<or> y \<in> set ys" for x y :: nat and ys
    using that
  proof (induction ys arbitrary: x)
    case (Cons z zs)
    have up: "w \<le> foldl max w vs" for w :: nat and vs by (induction vs arbitrary: w) (auto intro: order_trans [OF max.cobounded1])
    show ?case using Cons.prems Cons.IH [of "max x z"] up [of "max x z" zs] by auto
  qed simp
  show "scaleOf gross \<le> common_scale gross legs" unfolding common_scale_def by (rule m) simp
  show "scaleOf (legs leg) \<le> common_scale gross legs" unfolding common_scale_def by (rule m) (simp add: COST_LEGS_all)
qed

lemma scaled_net_value:
  assumes "SIGNED_DECIMAL gross" and "\<And>leg. NON_NEGATIVE_DECIMAL (legs leg)" and "scale = common_scale gross legs"
  shows "of_int (scaled_net gross legs scale) = (dec_value gross - (\<Sum>leg\<leftarrow>COST_LEGS. dec_value (legs leg))) * 10 ^ scale"
proof -
  have leg: "of_int (toScaled (legs leg) scale) = dec_value (legs leg) * 10 ^ scale" for leg
  proof (rule toScaled_value)
    have "take 1 (legs leg) \<noteq> ''-''" using assms(2) [of leg] by (cases "legs leg") (auto simp: NON_NEGATIVE_DECIMAL_def)
    then show "SIGNED_DECIMAL (legs leg)" using assms(2) by (simp add: SIGNED_DECIMAL_def unsigned_part_def)
  qed (simp add: assms(3) common_scale_ge)
  have "of_int (foldl (\<lambda>net leg. net - toScaled (legs leg) scale) n xs) =
      of_int n - (\<Sum>leg\<leftarrow>xs. dec_value (legs leg)) * 10 ^ scale" for n xs
  proof (induction xs arbitrary: n)
    case (Cons a xs)
    show ?case using Cons [of "n - toScaled (legs a) scale"] leg [of a] by (simp add: distrib_right)
  qed simp
  then show ?thesis
    using toScaled_value [OF assms(1), of scale] common_scale_ge(1) [of gross legs] assms(3)
    by (simp add: scaled_net_def left_diff_distrib)
qed

lemma composeNetReturn_valid:
  assumes "valid_net_input input"
  obtains t where "composeNetReturn (Some input) = Inr (net_return_input.extend input \<lparr>nb_netReturnUsd = U_string t\<rparr>)"
    and "normal_decimal t" and "dec_value t = net_value input"
proof -
  obtain g where g: "ni_grossReturnUsd input = U_string g" "SIGNED_DECIMAL g"
    and codes: "list_all isQualityCode (ni_qualityCodes input)" using assms by (auto simp: valid_net_input_def)
  obtain f where f: "ni_legs input leg = U_string (f leg) \<and> NON_NEGATIVE_DECIMAL (f leg)" for leg
    using assms unfolding valid_net_input_def by metis
  have legs: "require_legs (ni_legs input) COST_LEGS (\<lambda>_. []) = Inr f"
    using require_legs_ok [of COST_LEGS "ni_legs input" f] f COST_LEGS_all by simp
  define n t where "n = common_scale g f" and "t = fromScaled (scaled_net g f n) n"
  have codes': "require_codes (ni_qualityCodes input) = Inr ()" using codes by (simp add: require_codes_Inr)
  have eq: "ni_legs input = (\<lambda>leg. U_string (f leg))" using f by auto
  have "dec_value t = net_value input"
    using fromScaled_value [of "scaled_net g f n" n] scaled_net_value [OF g(2), of f n] f
    by (simp add: t_def n_def net_value_def usd_def g eq)
  moreover have "normal_decimal t" using fromScaled_value by (simp add: t_def)
  moreover have "composeNetReturn (Some input) = Inr (net_return_input.extend input \<lparr>nb_netReturnUsd = U_string t\<rparr>)"
    using g legs codes' eq
    by (simp add: composeNetReturn_def requireLeg_def Let_def t_def n_def net_return_input.defs)
  ultimately show thesis by (intro that)
qed

lemma composeNetReturn_invalid: "composeNetReturn (Some input) = Inr b \<Longrightarrow> valid_net_input input"
  unfolding composeNetReturn_def valid_net_input_def using require_legs_valid [OF _ COST_LEGS_all]
  by (auto simp: bindE_eq_Inr requireLeg_Inr require_codes_Inr)

lemma netReturnConsistent_iff:
  "netReturnConsistent r \<longleftrightarrow> valid_net_input r \<and>
     (\<exists>t. nb_netReturnUsd r = U_string t \<and> normal_decimal t \<and> dec_value t = net_value r)"
proof -
  let ?i = "\<lparr>ni_grossReturnUsd = ni_grossReturnUsd r, ni_legs = ni_legs r, ni_qualityCodes = ni_qualityCodes r\<rparr>"
  have same: "valid_net_input ?i = valid_net_input r" "net_value ?i = net_value r"
    by (simp_all add: valid_net_input_def net_value_def)
  show ?thesis
  proof (cases "valid_net_input r")
    case True
    then have "valid_net_input ?i" using same by simp
    then obtain t where t: "composeNetReturn (Some ?i) = Inr (net_return_input.extend ?i \<lparr>nb_netReturnUsd = U_string t\<rparr>)"
      "normal_decimal t" "dec_value t = net_value ?i" by (rule composeNetReturn_valid)
    then have "netReturnConsistent r \<longleftrightarrow> nb_netReturnUsd r = U_string t"
      by (auto simp: netReturnConsistent_def net_return_input.defs)
    then show ?thesis using True t same normal_unique by metis
  next
    case False
    then show ?thesis using composeNetReturn_invalid [of ?i] same
      by (auto simp: netReturnConsistent_def split: sum.splits)
  qed
qed

lemma composeNetReturn_cases:
  "case composeNetReturn (Some input) of
     Inl e \<Rightarrow> \<not> valid_net_input input
   | Inr b \<Rightarrow> valid_net_input input \<and> net_return_input.truncate b = input \<and> netReturnConsistent b"
proof (cases "valid_net_input input")
  case True
  then obtain t where t: "composeNetReturn (Some input) = Inr (net_return_input.extend input \<lparr>nb_netReturnUsd = U_string t\<rparr>)"
    "normal_decimal t" "dec_value t = net_value input" by (rule composeNetReturn_valid)
  let ?b = "net_return_input.extend input \<lparr>nb_netReturnUsd = U_string t\<rparr>"
  have "valid_net_input ?b" "net_value ?b = net_value input" using True
    by (simp_all add: valid_net_input_def net_value_def net_return_input.defs)
  then have "netReturnConsistent ?b" using t by (auto simp: netReturnConsistent_iff net_return_input.defs)
  then show ?thesis using True t(1) by (simp add: net_return_input.defs)
next
  case False
  then show ?thesis using composeNetReturn_invalid by (auto split: sum.splits)
qed

text \<open>
  C9 (net_return_exact). Cost assembly is exact and closed. A breakdown is composed exactly from an
  input whose gross is a signed decimal, all of whose legs are present non-negative decimals and all
  of whose quality codes are known; it keeps the input and is consistent. A recorded breakdown passes
  the consistency check exactly when its input is such and its net is the normal text of gross minus
  the sum of the legs, so no other net, and no other spelling of it, is accepted.
\<close>

theorem net_return_exact:
  "(case composeNetReturn (Some input) of
      Inl e \<Rightarrow> \<not> valid_net_input input
    | Inr b \<Rightarrow> valid_net_input input \<and> net_return_input.truncate b = input \<and> netReturnConsistent b) \<and>
   (netReturnConsistent recorded \<longleftrightarrow>
      valid_net_input recorded \<and>
      (\<exists>t. nb_netReturnUsd recorded = U_string t \<and> normal_decimal t \<and> dec_value t = net_value recorded))"
  by (intro conjI composeNetReturn_cases netReturnConsistent_iff)

end
