(* ===== verification/FillModels.thy ===== *)
theory FillModels
  imports NetReturn
begin

text \<open>
  Entry and exit fills (packages/execution-simulator/src/entry.ts, exit.ts): the validation of every
  field, the fill fraction, the capital that stays unfilled, and the order of trigger and completion.
  Quantities enter through their whole units only. \<open>Date.parse\<close> is an argument of the exit: its
  values on texts outside the standard format differ between engines, and \<open>None\<close> is not-a-number.
\<close>

section \<open>Entry\<close>

datatype entry_route_uncertainty = Unc_NONE | Unc_STALE_QUOTE | Unc_INCOMPLETE_STATE | Unc_ROUTE_UNVERIFIED

record entry_fill_input =
  ef_fillId :: string
  ef_scenarioId :: string
  ef_scenarioVersion :: string
  ef_requestedQuantity :: js_unknown
  ef_filledQuantity :: js_unknown
  ef_averageExecutionPrice :: js_unknown
  ef_marginalPriceImpact :: js_unknown
  ef_averagePriceImpact :: js_unknown
  ef_failedAmount :: js_unknown
  ef_startSlot :: js_unknown
  ef_completionSlot :: js_unknown
  ef_startedAt :: string
  ef_completedAt :: string
  ef_status :: exec_status
  ef_routeUncertainty :: entry_route_uncertainty
  ef_minimumFillFraction :: js_unknown
  ef_netReturn :: "net_return_input option"

record entry_fill_result =
  er_fillId :: string
  er_scenarioId :: string
  er_scenarioVersion :: string
  er_requestedQuantity :: string
  er_filledQuantity :: string
  er_fillFraction :: jsnum
  er_averageExecutionPrice :: js_unknown
  er_marginalPriceImpact :: rat
  er_averagePriceImpact :: rat
  er_failedAmount :: js_unknown
  er_unfilledQuantity :: string
  er_startSlot :: js_unknown
  er_completionSlot :: js_unknown
  er_startedAt :: string
  er_completedAt :: string
  er_status :: exec_status
  er_routeUncertainty :: entry_route_uncertainty
  er_netReturn :: net_return_breakdown

definition requireDecimal :: "js_unknown \<Rightarrow> string res" where
  "requireDecimal v =
     (case v of
        U_string s \<Rightarrow> if NON_NEGATIVE_DECIMAL s then Inr s else Inl (ExecVocabularyError EXEC_LABEL_CLAUSES_INVALID)
      | _ \<Rightarrow> Inl (ExecVocabularyError EXEC_LABEL_CLAUSES_INVALID))"

definition requireFraction :: "js_unknown \<Rightarrow> rat res" where
  "requireFraction v =
     (case finite_number v of
        Some a \<Rightarrow> if a < 0 \<or> 1 < a then Inl (ExecVocabularyError EXEC_LABEL_CLAUSES_INVALID) else Inr a
      | None \<Rightarrow> Inl (ExecVocabularyError EXEC_LABEL_CLAUSES_INVALID))"

text \<open>\<open>Number.isInteger\<close> of an unknown value, with the integer.\<close>

definition integer_number :: "js_unknown \<Rightarrow> int option" where
  "integer_number v = (case v of U_number (Fin a) \<Rightarrow> if a = of_int \<lfloor>a\<rfloor> then Some \<lfloor>a\<rfloor> else None | _ \<Rightarrow> None)"

definition requireSlotOrder :: "js_unknown \<Rightarrow> js_unknown \<Rightarrow> unit res" where
  "requireSlotOrder start completion =
     (case (integer_number start, integer_number completion) of
        (Some s, Some c) \<Rightarrow> if c < s then Inl (ExecVocabularyError EXEC_LABEL_CLAUSES_INVALID) else Inr ()
      | _ \<Rightarrow> Inl (ExecVocabularyError EXEC_LABEL_CLAUSES_INVALID))"

text \<open>\<open>BigInt(s.split('.')[0])\<close> and the fill fraction in ten-thousandths.\<close>

definition whole_units :: "string \<Rightarrow> int" where
  "whole_units s = int (num_text (integer_part s))"

definition fill_fraction :: "int \<Rightarrow> int \<Rightarrow> jsnum" where
  "fill_fraction filledValue requestedValue =
     (if requestedValue = 0 then Fin 0
      else js_div (js_Number ((filledValue * 10000) div requestedValue)) (Fin 10000))"

text \<open>A guard that throws, and the two refusals of a fill fraction.\<close>

definition refuse :: "bool \<Rightarrow> exec_error_code \<Rightarrow> unit res" where
  "refuse b code = (if b then Inl (ExecVocabularyError code) else Inr ())"

definition full_status_with_partial_fill :: "exec_status \<Rightarrow> jsnum \<Rightarrow> bool" where
  "full_status_with_partial_fill status fillFraction \<longleftrightarrow> status = Ex_EXECUTED_FULL \<and> \<not> js_eq fillFraction (Fin 1)"

definition fill_below_declared_minimum :: "exec_status \<Rightarrow> jsnum \<Rightarrow> rat \<Rightarrow> bool" where
  "fill_below_declared_minimum status fillFraction minimumFillFraction \<longleftrightarrow>
     js_lt (Fin 0) fillFraction \<and> js_lt fillFraction (Fin 1) \<and> js_lt fillFraction (Fin minimumFillFraction) \<and>
     status \<noteq> Ex_INSUFFICIENT_DATA"

definition modelEntryFill :: "entry_fill_input option \<Rightarrow> entry_fill_result res" where
  "modelEntryFill arg =
     (case arg of
        None \<Rightarrow> Inl (ExecVocabularyError EXEC_LABEL_CLAUSES_INVALID)
      | Some input \<Rightarrow>
          bindE (requireDecimal (ef_requestedQuantity input)) (\<lambda>requested.
          bindE (requireDecimal (ef_filledQuantity input)) (\<lambda>filled.
          bindE (requireDecimal (ef_averageExecutionPrice input)) (\<lambda>_.
          bindE (requireDecimal (ef_failedAmount input)) (\<lambda>failed.
          bindE (requireFraction (ef_marginalPriceImpact input)) (\<lambda>marginal.
          bindE (requireFraction (ef_averagePriceImpact input)) (\<lambda>average.
          bindE (requireFraction (ef_minimumFillFraction input)) (\<lambda>minimumFillFraction.
          bindE (requireSlotOrder (ef_startSlot input) (ef_completionSlot input)) (\<lambda>_.
          let requestedValue = whole_units requested; filledValue = whole_units filled; failedValue = whole_units failed;
              fillFraction = fill_fraction filledValue requestedValue
          in
          bindE (refuse (requestedValue < filledValue + failedValue) EXEC_LABEL_CLAUSES_INVALID) (\<lambda>_.
          bindE (refuse (full_status_with_partial_fill (ef_status input) fillFraction) EXEC_LABEL_CLAUSES_INVALID) (\<lambda>_.
          bindE (refuse (fill_below_declared_minimum (ef_status input) fillFraction minimumFillFraction) EXEC_LABEL_CLAUSES_INVALID) (\<lambda>_.
          bindE (composeNetReturn (ef_netReturn input)) (\<lambda>netReturn.
          Inr \<lparr>er_fillId = ef_fillId input, er_scenarioId = ef_scenarioId input, er_scenarioVersion = ef_scenarioVersion input,
               er_requestedQuantity = requested, er_filledQuantity = filled, er_fillFraction = fillFraction,
               er_averageExecutionPrice = ef_averageExecutionPrice input, er_marginalPriceImpact = marginal,
               er_averagePriceImpact = average, er_failedAmount = ef_failedAmount input,
               er_unfilledQuantity = digits (nat (requestedValue - filledValue - failedValue)),
               er_startSlot = ef_startSlot input, er_completionSlot = ef_completionSlot input,
               er_startedAt = ef_startedAt input, er_completedAt = ef_completedAt input, er_status = ef_status input,
               er_routeUncertainty = ef_routeUncertainty input, er_netReturn = netReturn\<rparr>)))))))))))))"

lemma refuse_eq_Inr [simp]: "refuse b code = Inr u \<longleftrightarrow> \<not> b"
  by (simp add: refuse_def)

lemma refuse_False [simp]: "refuse False code = Inr ()"
  by (simp add: refuse_def)

section \<open>Whole units and fractions\<close>

lemma num_text_less: "list_all digit s \<Longrightarrow> num_text s < 10 ^ length s"
proof (induction s rule: rev_induct)
  case (snoc c s)
  then have "of_char c - 48 < (10 :: nat)" "num_text s < 10 ^ length s" by (auto simp: digit_def Let_def)
  then have "num_text s * 10 + (of_char c - 48) < 10 ^ length s * 10" by linarith
  then show ?case by (simp add: num_text_append num_text_Cons mult.commute)
qed (simp add: num_text_def)

lemma whole_units_floor: "NON_NEGATIVE_DECIMAL s \<Longrightarrow> whole_units s = \<lfloor>dec_value s\<rfloor>"
proof (erule decimal_parts)
  fix w f
  assume s: "s = point_text w f" and w: "whole_digits w" and f: "list_all digit f"
  note p = point_text_parts [OF w f]
  have "(of_nat (num_text f) :: rat) < of_nat (10 ^ length f)" using num_text_less [OF f] by (simp only: of_nat_less_iff)
  then have "0 \<le> of_nat (num_text f) / (10 :: rat) ^ length f" "of_nat (num_text f) / (10 :: rat) ^ length f < 1" by simp_all
  then show "whole_units s = \<lfloor>dec_value s\<rfloor>"
    using p by (simp add: s whole_units_def dec_value_def Let_def floor_unique)
qed

lemma is_double_16384: "0 \<le> n \<Longrightarrow> n \<le> 16384 \<Longrightarrow> is_double (of_int n / 16384)"
proof -
  assume n: "0 \<le> n" "n \<le> 16384"
  have "of_int n / 16384 = (of_int n * 2 powi (- 14) :: rat)" by (simp add: power_int_minus)
  then have "fl (of_int n / 16384) = of_int n / 16384" using fl_scaled [of n "- 14"] n by simp
  moreover have "of_int n / 16384 < (2 ^ 1024 :: rat)" using n by (simp add: divide_less_eq)
  ultimately show ?thesis using n by (simp add: is_double_def)
qed

text \<open>A fraction is one exactly for a full fill, and zero exactly below a ten-thousandth.\<close>

lemma fill_fraction_bounds:
  assumes "0 \<le> F" and "F \<le> R"
  obtains r where "fill_fraction F R = Fin r" and "0 \<le> r" and "r \<le> 1" and "r = 1 \<longleftrightarrow> 0 < R \<and> F = R"
    and "r = 0 \<longleftrightarrow> R = 0 \<or> 10000 * F < R" and "0 < R \<longrightarrow> r = fl (of_int (F * 10000 div R) / 10000)"
proof (cases "R = 0")
  case True
  then show thesis using assms by (intro that [of 0]) (simp_all add: fill_fraction_def)
next
  case False
  define k where "k = F * 10000 div R"
  have R: "0 < R" using False assms by linarith
  have k: "0 \<le> k" "k \<le> 10000" "k = 10000 \<longleftrightarrow> F = R" "k = 0 \<longleftrightarrow> 10000 * F < R"
  proof -
    show "0 \<le> k" using assms R by (simp add: k_def pos_imp_zdiv_nonneg_iff)
    have "k \<le> 10000 * R div R" unfolding k_def using assms R by (intro zdiv_mono1) simp_all
    then show "k \<le> 10000" using R by simp
    have "k < 10000" if "F < R"
    proof -
      have "k * R \<le> F * 10000" using div_mult_mod_eq [of "F * 10000" R] pos_mod_sign [OF R, of "F * 10000"] unfolding k_def by linarith
      then have "k * R < 10000 * R" using that by linarith
      then show ?thesis using R by simp
    qed
    then show "k = 10000 \<longleftrightarrow> F = R" using assms(2) R unfolding k_def by fastforce
    show "k = 0 \<longleftrightarrow> 10000 * F < R" unfolding k_def using assms(1) R by (auto simp: zdiv_eq_0_iff mult.commute)
  qed
  have eq: "fill_fraction F R = to_num (of_int k / 10000)"
    using False k by (simp add: fill_fraction_def js_Number_exact flip: k_def)
  have between: "to_num (of_int k / 10000) = Fin (fl (of_int k / 10000)) \<and> lo \<le> fl (of_int k / 10000) \<and> fl (of_int k / 10000) \<le> hi"
    if "is_double lo" "is_double hi" "lo \<le> of_int k / 10000" "of_int k / 10000 \<le> hi" for lo hi
    using to_num_between [OF that] by (auto simp: to_num_def Let_def split: if_splits)
  have k01: "(0 :: rat) \<le> of_int k / 10000" "of_int k / 10000 \<le> (1 :: rat)" using k(1,2) by simp_all
  note b = between [OF is_double_simps(1,2) k01]
  have one: "fl (of_int k / 10000) = 1 \<longleftrightarrow> k = 10000"
  proof
    assume f: "fl (of_int k / 10000) = 1"
    show "k = 10000"
    proof (rule ccontr)
      assume "k \<noteq> 10000"
      then have "of_int k \<le> (9999 :: rat)" using k(2) by simp
      then have "of_int k / 10000 \<le> (of_int 16383 / 16384 :: rat)" by simp
      then show False using between [OF is_double_simps(1) is_double_16384 [of 16383] k01(1)] f by simp
    qed
  next
    assume "k = 10000"
    then show "fl (of_int k / 10000) = 1" using is_double_simps(2) by (simp add: is_double_def)
  qed
  have zero: "fl (of_int k / 10000) = 0 \<longleftrightarrow> k = 0"
  proof
    assume f: "fl (of_int k / 10000) = 0"
    show "k = 0"
    proof (rule ccontr)
      assume "k \<noteq> 0"
      then have "(1 :: rat) \<le> of_int k" using k(1) by simp
      then have "(of_int 1 / 16384 :: rat) \<le> of_int k / 10000" by simp
      then show False using between [OF is_double_16384 [of 1] is_double_simps(2) _ k01(2)] f by simp
    qed
  qed simp
  show thesis using b eq k one zero R by (intro that [of "fl (of_int k / 10000)"]) (auto simp: k_def)
qed

lemma requireDecimal_Inr: "requireDecimal v = Inr s \<longleftrightarrow> v = U_string s \<and> NON_NEGATIVE_DECIMAL s"
  by (auto simp: requireDecimal_def split: js_unknown.splits)

lemma requireFraction_Inr: "requireFraction v = Inr a \<longleftrightarrow> v = U_number (Fin a) \<and> 0 \<le> a \<and> a \<le> 1"
  by (auto simp: requireFraction_def finite_number_def split: js_unknown.splits jsnum.splits)

lemma requireSlotOrder_Inr:
  "requireSlotOrder s c = Inr u \<longleftrightarrow> (\<exists>a b. integer_number s = Some a \<and> integer_number c = Some b \<and> a \<le> b)"
  by (auto simp: requireSlotOrder_def split: option.splits)

text \<open>What an entry is accepted on, over the numbers its texts denote.\<close>

definition amount :: "js_unknown \<Rightarrow> bool" where
  "amount v \<longleftrightarrow> (\<exists>s. v = U_string s \<and> NON_NEGATIVE_DECIMAL s)"

definition fraction_value :: "js_unknown \<Rightarrow> bool" where
  "fraction_value v \<longleftrightarrow> (\<exists>a. v = U_number (Fin a) \<and> 0 \<le> a \<and> a \<le> 1)"

definition units :: "js_unknown \<Rightarrow> int" where
  "units v = \<lfloor>usd v\<rfloor>"

definition net_ok :: "net_return_input option \<Rightarrow> bool" where
  "net_ok n = (case n of None \<Rightarrow> False | Some i \<Rightarrow> valid_net_input i)"

definition slots_ordered :: "js_unknown \<Rightarrow> js_unknown \<Rightarrow> bool" where
  "slots_ordered s c \<longleftrightarrow> (\<exists>a b. integer_number s = Some a \<and> integer_number c = Some b \<and> a \<le> b)"

definition fill_policy :: "exec_status \<Rightarrow> int \<Rightarrow> int \<Rightarrow> rat \<Rightarrow> bool" where
  "fill_policy status F R minimum \<longleftrightarrow>
     (status = Ex_EXECUTED_FULL \<longrightarrow> 0 < R \<and> F = R) \<and>
     (status \<noteq> Ex_INSUFFICIENT_DATA \<and> R \<le> 10000 * F \<and> F < R \<longrightarrow> minimum \<le> fl (of_int (F * 10000 div R) / 10000))"

definition entry_accepts :: "entry_fill_input \<Rightarrow> bool" where
  "entry_accepts i \<longleftrightarrow>
     amount (ef_requestedQuantity i) \<and> amount (ef_filledQuantity i) \<and> amount (ef_averageExecutionPrice i) \<and>
     amount (ef_failedAmount i) \<and> fraction_value (ef_marginalPriceImpact i) \<and> fraction_value (ef_averagePriceImpact i) \<and>
     slots_ordered (ef_startSlot i) (ef_completionSlot i) \<and>
     units (ef_filledQuantity i) + units (ef_failedAmount i) \<le> units (ef_requestedQuantity i) \<and>
     (\<exists>m. ef_minimumFillFraction i = U_number (Fin m) \<and> 0 \<le> m \<and> m \<le> 1 \<and>
        fill_policy (ef_status i) (units (ef_filledQuantity i)) (units (ef_requestedQuantity i)) m) \<and>
     net_ok (ef_netReturn i)"

lemma units_string [simp]: "NON_NEGATIVE_DECIMAL s \<Longrightarrow> units (U_string s) = whole_units s"
  by (simp add: units_def usd_def whole_units_floor)

lemma whole_units_nonneg [simp]: "0 \<le> whole_units s"
  by (simp add: whole_units_def)

lemma composeNetReturn_ok:
  "case composeNetReturn n of
     Inl e \<Rightarrow> \<not> net_ok n
   | Inr b \<Rightarrow> net_ok n \<and> n = Some (net_return_input.truncate b) \<and> netReturnConsistent b"
proof (cases n)
  case (Some i)
  then show ?thesis using composeNetReturn_cases [of i] by (auto simp: net_ok_def split: sum.splits)
qed (simp add: net_ok_def composeNetReturn_def)

lemma composeNetReturn_Inr:
  "composeNetReturn n = Inr b \<Longrightarrow> net_ok n \<and> n = Some (net_return_input.truncate b) \<and> netReturnConsistent b"
proof -
  assume eq: "composeNetReturn n = Inr b"
  show ?thesis using composeNetReturn_ok [of n] unfolding eq sum.case .
qed

lemma composeNetReturn_net_ok: "net_ok n \<Longrightarrow> \<exists>b. composeNetReturn n = Inr b"
  using composeNetReturn_ok [of n] by (cases "composeNetReturn n") auto

lemma units_digits_value [simp]: "NON_NEGATIVE_DECIMAL (digits n)" "dec_value (digits n) = of_nat n"
proof -
  have w: "whole_digits (digits n)" using digits_zero_lead [of n] digits_digit [of n]
    by (auto simp: whole_digits_def) (subst (asm) digits.simps, simp split: if_splits)
  have t: "point_text (digits n) [] = digits n" by (simp add: point_text_def)
  note p = point_text_parts [OF w, of "[]", unfolded t]
  show "NON_NEGATIVE_DECIMAL (digits n)" using p by simp
  show "dec_value (digits n) = of_nat n" using p digits_number [of n] by (simp add: dec_value_def Let_def num_text_def [of "[]"])
qed

text \<open>The checks on the fraction are the policy on whole units.\<close>

lemma fill_policy_checks:
  assumes "0 \<le> F" and "F \<le> R"
  shows "fill_policy status F R m \<longleftrightarrow>
     \<not> full_status_with_partial_fill status (fill_fraction F R) \<and> \<not> fill_below_declared_minimum status (fill_fraction F R) m"
proof -
  obtain r where r: "fill_fraction F R = Fin r" "0 \<le> r" "r \<le> 1" "r = 1 \<longleftrightarrow> 0 < R \<and> F = R"
    "r = 0 \<longleftrightarrow> R = 0 \<or> 10000 * F < R" "0 < R \<longrightarrow> r = fl (of_int (F * 10000 div R) / 10000)"
    using assms by (rule fill_fraction_bounds)
  have "js_eq (Fin r) (Fin 1) \<longleftrightarrow> 0 < R \<and> F = R" using r(4) by (simp add: js_eq_def)
  moreover have "0 < r \<and> r < 1 \<longleftrightarrow> R \<le> 10000 * F \<and> F < R" using r assms by (auto simp: less_le)
  ultimately show ?thesis unfolding fill_policy_def full_status_with_partial_fill_def fill_below_declared_minimum_def r(1)
    using r(6) by auto
qed

lemma fill_policy_whole:
  "whole_units fi + whole_units fd \<le> whole_units rq \<Longrightarrow>
   fill_policy status (whole_units fi) (whole_units rq) m \<longleftrightarrow>
     \<not> full_status_with_partial_fill status (fill_fraction (whole_units fi) (whole_units rq)) \<and>
     \<not> fill_below_declared_minimum status (fill_fraction (whole_units fi) (whole_units rq)) m"
  using whole_units_nonneg [of fd] by (intro fill_policy_checks whole_units_nonneg) linarith

lemmas entry_specs = entry_accepts_def amount_def fraction_value_def slots_ordered_def requireFraction_Inr requireSlotOrder_Inr

lemma modelEntryFill_accepts: "entry_accepts i \<Longrightarrow> \<exists>r. modelEntryFill (Some i) = Inr r"
  unfolding modelEntryFill_def
  by (auto simp: entry_specs bindE_eq_Inr requireDecimal_Inr Let_def fill_policy_whole not_less dest: composeNetReturn_net_ok)

text \<open>
  C25 (entry_fill_exact). An entry is recorded exactly when it is accepted: every amount is a
  non-negative decimal, every fraction is in the unit interval, slots are integers in order, filled
  and failed whole units do not exceed the requested ones, a full status means every requested whole
  unit was filled, a partial fill of at least a ten-thousandth is not below the declared minimum
  unless data is insufficient, and the cost legs are valid. The record conserves whole units (filled,
  failed and unfilled make up the requested ones), its fraction is one exactly for a full fill and
  zero exactly below a ten-thousandth, and its net return is consistent with the legs given.
\<close>

theorem entry_fill_exact:
  "case modelEntryFill (Some i) of
     Inl e \<Rightarrow> \<not> entry_accepts i
   | Inr r \<Rightarrow>
       entry_accepts i \<and>
       (\<exists>\<rho>. er_fillFraction r = Fin \<rho> \<and> 0 \<le> \<rho> \<and> \<rho> \<le> 1 \<and>
          (\<rho> = 1 \<longleftrightarrow> 0 < units (ef_requestedQuantity i) \<and> units (ef_filledQuantity i) = units (ef_requestedQuantity i)) \<and>
          (\<rho> = 0 \<longleftrightarrow> units (ef_requestedQuantity i) = 0 \<or> 10000 * units (ef_filledQuantity i) < units (ef_requestedQuantity i))) \<and>
       dec_value (er_unfilledQuantity r) + of_int (units (ef_filledQuantity i) + units (ef_failedAmount i)) =
         of_int (units (ef_requestedQuantity i)) \<and>
       U_string (er_requestedQuantity r) = ef_requestedQuantity i \<and> U_string (er_filledQuantity r) = ef_filledQuantity i \<and>
       er_status r = ef_status i \<and>
       netReturnConsistent (er_netReturn r) \<and> ef_netReturn i = Some (net_return_input.truncate (er_netReturn r))"
proof (cases "modelEntryFill (Some i)")
  case (Inl e)
  then show ?thesis using modelEntryFill_accepts [of i] by auto
next
  case (Inr r)
  then obtain rq fi px fd a b m n where i: "ef_requestedQuantity i = U_string rq" "NON_NEGATIVE_DECIMAL rq"
      "ef_filledQuantity i = U_string fi" "NON_NEGATIVE_DECIMAL fi"
      "ef_averageExecutionPrice i = U_string px" "NON_NEGATIVE_DECIMAL px" "ef_failedAmount i = U_string fd" "NON_NEGATIVE_DECIMAL fd"
      "requireFraction (ef_marginalPriceImpact i) = Inr a" "requireFraction (ef_averagePriceImpact i) = Inr b"
      "requireFraction (ef_minimumFillFraction i) = Inr m" "requireSlotOrder (ef_startSlot i) (ef_completionSlot i) = Inr ()"
      "whole_units fi + whole_units fd \<le> whole_units rq"
      "\<not> full_status_with_partial_fill (ef_status i) (fill_fraction (whole_units fi) (whole_units rq))"
      "\<not> fill_below_declared_minimum (ef_status i) (fill_fraction (whole_units fi) (whole_units rq)) m"
      "composeNetReturn (ef_netReturn i) = Inr n"
    and r: "er_fillFraction r = fill_fraction (whole_units fi) (whole_units rq)" "er_requestedQuantity r = rq" "er_filledQuantity r = fi"
      "er_unfilledQuantity r = digits (nat (whole_units rq - whole_units fi - whole_units fd))" "er_netReturn r = n" "er_status r = ef_status i"
    unfolding modelEntryFill_def by (auto simp: bindE_eq_Inr requireDecimal_Inr Let_def not_less)
  have le: "whole_units fi \<le> whole_units rq" using i(13) whole_units_nonneg [of fd] by linarith
  have "entry_accepts i"
    using i composeNetReturn_Inr [OF i(16)] fill_policy_whole [OF i(13), of "ef_status i" m] by (auto simp: entry_specs)
  moreover obtain \<rho> where "fill_fraction (whole_units fi) (whole_units rq) = Fin \<rho>" "0 \<le> \<rho>" "\<rho> \<le> 1"
    "\<rho> = 1 \<longleftrightarrow> 0 < whole_units rq \<and> whole_units fi = whole_units rq" "\<rho> = 0 \<longleftrightarrow> whole_units rq = 0 \<or> 10000 * whole_units fi < whole_units rq"
    using whole_units_nonneg le by (rule fill_fraction_bounds)
  moreover have "(of_nat (nat (whole_units rq - whole_units fi - whole_units fd)) :: rat) + of_int (whole_units fi + whole_units fd) = of_int (whole_units rq)"
    using i(13) by (simp add: of_nat_nat)
  ultimately show ?thesis using Inr i(1-8) r composeNetReturn_Inr [OF i(16)] by simp
qed

section \<open>Exit\<close>

record exit_model_input =
  xi_exitId :: string
  xi_scenarioId :: string
  xi_scenarioVersion :: string
  xi_exitPolicyVersionId :: js_unknown
  xi_policyKind :: js_unknown
  xi_parameters :: "(string \<times> js_unknown) list option"
  xi_stateComplete :: js_unknown
  xi_stateSlot :: js_unknown
  xi_triggeredAt :: js_unknown
  xi_completedAt :: js_unknown
  xi_triggerSlot :: js_unknown
  xi_completionSlot :: js_unknown
  xi_requestedQuantity :: js_unknown
  xi_filledQuantity :: js_unknown
  xi_averageExecutionPrice :: js_unknown
  xi_status :: exec_status
  xi_netReturn :: "net_return_input option"
  xi_favorableReachable :: js_unknown
  xi_adverseReachable :: js_unknown
  xi_orderingKnown :: js_unknown
  xi_optimisticSecondary :: js_unknown

record exit_model_result =
  xr_exitId :: string
  xr_scenarioId :: string
  xr_scenarioVersion :: string
  xr_exitPolicyVersionId :: js_unknown
  xr_policyKind :: exit_policy_kind
  xr_stateComplete :: bool
  xr_stateSlot :: js_unknown
  xr_triggeredAt :: string
  xr_completedAt :: string
  xr_triggerSlot :: js_unknown
  xr_completionSlot :: js_unknown
  xr_triggerCompletionOrderValid :: bool
  xr_requestedQuantity :: string
  xr_filledQuantity :: string
  xr_fillFraction :: jsnum
  xr_averageExecutionPrice :: js_unknown
  xr_status :: exec_status
  xr_netReturn :: net_return_breakdown
  xr_primaryOrdering :: primary_ordering
  xr_pathAmbiguous :: bool
  xr_optimisticSecondary :: js_unknown

text \<open>\<^verbatim>\<open>/^\d{4}-\d{2}-\d{2}T\d{2}:\d{2}:\d{2}(\.\d+)?Z$/\<close>: any number of digits after the point.\<close>

definition ISO_Z :: "string \<Rightarrow> bool" where
  "ISO_Z v \<longleftrightarrow>
     list_all2 (\<lambda>p c. if p = CHR ''d'' then digit c else c = p) iso_template (take 19 v) \<and>
     (drop 19 v = ''Z'' \<or>
      (case drop 19 v of
         [] \<Rightarrow> False
       | c # rest \<Rightarrow> c = CHR ''.'' \<and> rest \<noteq> [] \<and> last rest = CHR ''Z'' \<and> butlast rest \<noteq> [] \<and> list_all digit (butlast rest)))"

definition requireIsoZ :: "js_unknown \<Rightarrow> string res" where
  "requireIsoZ v =
     (case v of
        U_string s \<Rightarrow> if ISO_Z s then Inr s else Inl (ExecVocabularyError EXEC_LABEL_CLAUSES_INVALID)
      | _ \<Rightarrow> Inl (ExecVocabularyError EXEC_LABEL_CLAUSES_INVALID))"

definition truthy :: "js_unknown \<Rightarrow> bool" where
  "truthy v =
     (case v of
        U_undefined \<Rightarrow> False | U_null \<Rightarrow> False | U_bool b \<Rightarrow> b
      | U_number n \<Rightarrow> n \<noteq> NaN \<and> n \<noteq> Fin 0 | U_string s \<Rightarrow> s \<noteq> [] | U_other \<Rightarrow> True)"

definition non_empty_string :: "js_unknown \<Rightarrow> bool" where
  "non_empty_string v = (case v of U_string s \<Rightarrow> s \<noteq> [] | _ \<Rightarrow> False)"

text \<open>\<open>a >= b\<close> on parsed dates: not-a-number compares false.\<close>

definition at_or_after :: "int option \<Rightarrow> int option \<Rightarrow> bool" where
  "at_or_after a b = (case (a, b) of (Some x, Some y) \<Rightarrow> y \<le> x | _ \<Rightarrow> False)"

text \<open>The check that both slots are integers, on each of them.\<close>

definition requireInteger :: "js_unknown \<Rightarrow> int res" where
  "requireInteger v =
     (case integer_number v of None \<Rightarrow> Inl (ExecVocabularyError EXEC_LABEL_CLAUSES_INVALID) | Some n \<Rightarrow> Inr n)"

definition modelExit :: "(string \<Rightarrow> int option) \<Rightarrow> exit_model_input option \<Rightarrow> exit_model_result res" where
  "modelExit date_parse arg =
     (case arg of
        None \<Rightarrow> Inl (ExecVocabularyError EXEC_LABEL_CLAUSES_INVALID)
      | Some input \<Rightarrow>
          bindE (exitPolicyKind (xi_policyKind input)) (\<lambda>policyKind.
          bindE (refuse (\<not> non_empty_string (xi_exitPolicyVersionId input)) EXEC_LABEL_CLAUSES_INVALID) (\<lambda>_.
          bindE (refuse (xi_parameters input = None) EXEC_LABEL_CLAUSES_INVALID) (\<lambda>_.
          bindE (parseStrictBoolean (xi_stateComplete input) EXEC_LABEL_CLAUSES_INVALID) (\<lambda>stateComplete.
          bindE (requireIsoZ (xi_triggeredAt input)) (\<lambda>triggeredAt.
          bindE (requireIsoZ (xi_completedAt input)) (\<lambda>completedAt.
          bindE (requireInteger (xi_triggerSlot input)) (\<lambda>triggerSlot.
          bindE (requireInteger (xi_completionSlot input)) (\<lambda>completionSlot.
          let triggerCompletionOrderValid =
            triggerSlot \<le> completionSlot \<and> at_or_after (date_parse completedAt) (date_parse triggeredAt)
          in
          bindE (refuse (\<not> triggerCompletionOrderValid) EXEC_LABEL_CLAUSES_INVALID) (\<lambda>_.
          bindE (refuse (\<not> stateComplete \<and> xi_status input = Ex_EXECUTED_FULL) EXEC_LABEL_CLAUSES_INVALID) (\<lambda>_.
          bindE (requireDecimal (xi_requestedQuantity input)) (\<lambda>requested.
          bindE (requireDecimal (xi_filledQuantity input)) (\<lambda>filled.
          bindE (requireDecimal (xi_averageExecutionPrice input)) (\<lambda>_.
          let requestedValue = whole_units requested; filledValue = whole_units filled
          in
          bindE (refuse (requestedValue < filledValue) EXEC_LABEL_CLAUSES_INVALID) (\<lambda>_.
          bindE (adverseOrderingRequired (xi_favorableReachable input) (xi_adverseReachable input) (xi_orderingKnown input)) (\<lambda>ordering.
          bindE (refuse (or_primaryOrdering ordering = Ord_ADVERSE_FEASIBLE \<and> or_pathAmbiguous ordering \<and>
                         \<not> truthy (xi_optimisticSecondary input)) EXEC_ORDERING_INPUT_INVALID) (\<lambda>_.
          bindE (composeNetReturn (xi_netReturn input)) (\<lambda>netReturn.
          Inr \<lparr>xr_exitId = xi_exitId input, xr_scenarioId = xi_scenarioId input, xr_scenarioVersion = xi_scenarioVersion input,
               xr_exitPolicyVersionId = xi_exitPolicyVersionId input, xr_policyKind = policyKind, xr_stateComplete = stateComplete,
               xr_stateSlot = xi_stateSlot input, xr_triggeredAt = triggeredAt, xr_completedAt = completedAt,
               xr_triggerSlot = xi_triggerSlot input, xr_completionSlot = xi_completionSlot input,
               xr_triggerCompletionOrderValid = triggerCompletionOrderValid, xr_requestedQuantity = requested,
               xr_filledQuantity = filled, xr_fillFraction = fill_fraction filledValue requestedValue,
               xr_averageExecutionPrice = xi_averageExecutionPrice input, xr_status = xi_status input,
               xr_netReturn = netReturn, xr_primaryOrdering = or_primaryOrdering ordering,
               xr_pathAmbiguous = or_pathAmbiguous ordering, xr_optimisticSecondary = xi_optimisticSecondary input\<rparr>))))))))))))))))))"

lemma exitPolicyKind_Inr: "exitPolicyKind v = Inr k \<longleftrightarrow> v = U_string (exit_policy_kind_text k)"
  unfolding exitPolicyKind_def by (rule exitpolicykind_ev.parse_iff)

lemma requireIsoZ_Inr: "requireIsoZ v = Inr s \<longleftrightarrow> v = U_string s \<and> ISO_Z s"
  by (auto simp: requireIsoZ_def split: js_unknown.splits)

lemma requireInteger_Inr: "requireInteger v = Inr n \<longleftrightarrow> integer_number v = Some n"
  by (auto simp: requireInteger_def split: option.splits)

lemma parseStrictBoolean_Inr: "parseStrictBoolean v code = Inr b \<longleftrightarrow> v = U_bool b"
  by (auto simp: parseStrictBoolean_def split: js_unknown.splits)

lemma adverseOrderingRequired_Inr:
  "adverseOrderingRequired f a k = Inr \<omega> \<longleftrightarrow>
     (\<exists>favorable adverse known. f = U_bool favorable \<and> a = U_bool adverse \<and> k = U_bool known \<and>
        or_pathAmbiguous \<omega> = (\<not> known \<and> favorable \<and> adverse) \<and>
        or_primaryOrdering \<omega> = (if \<not> known \<and> favorable \<and> adverse then Ord_ADVERSE_FEASIBLE else Ord_UNAMBIGUOUS))"
  by (cases \<omega>) (auto simp: adverseOrderingRequired_def bindE_eq_Inr parseStrictBoolean_Inr)

text \<open>The two instants of an exit, and what an exit is accepted on.\<close>

definition instants_ordered :: "(string \<Rightarrow> int option) \<Rightarrow> js_unknown \<Rightarrow> js_unknown \<Rightarrow> bool" where
  "instants_ordered date_parse trigger completion \<longleftrightarrow>
     (\<exists>t c a b. trigger = U_string t \<and> completion = U_string c \<and> ISO_Z t \<and> ISO_Z c \<and>
        date_parse t = Some a \<and> date_parse c = Some b \<and> a \<le> b)"

definition path_ambiguous :: "exit_model_input \<Rightarrow> bool" where
  "path_ambiguous i \<longleftrightarrow>
     xi_orderingKnown i = U_bool False \<and> xi_favorableReachable i = U_bool True \<and> xi_adverseReachable i = U_bool True"

definition ordering_ok :: "exit_model_input \<Rightarrow> bool" where
  "ordering_ok i \<longleftrightarrow>
     (\<exists>f a k. xi_favorableReachable i = U_bool f \<and> xi_adverseReachable i = U_bool a \<and> xi_orderingKnown i = U_bool k) \<and>
     (path_ambiguous i \<longrightarrow> truthy (xi_optimisticSecondary i))"

definition exit_accepts :: "(string \<Rightarrow> int option) \<Rightarrow> exit_model_input \<Rightarrow> bool" where
  "exit_accepts date_parse i \<longleftrightarrow>
     (\<exists>k. xi_policyKind i = U_string (exit_policy_kind_text k)) \<and> non_empty_string (xi_exitPolicyVersionId i) \<and>
     xi_parameters i \<noteq> None \<and>
     (xi_stateComplete i = U_bool True \<or> xi_stateComplete i = U_bool False \<and> xi_status i \<noteq> Ex_EXECUTED_FULL) \<and>
     instants_ordered date_parse (xi_triggeredAt i) (xi_completedAt i) \<and>
     slots_ordered (xi_triggerSlot i) (xi_completionSlot i) \<and>
     amount (xi_requestedQuantity i) \<and> amount (xi_filledQuantity i) \<and> amount (xi_averageExecutionPrice i) \<and>
     units (xi_filledQuantity i) \<le> units (xi_requestedQuantity i) \<and>
     ordering_ok i \<and> net_ok (xi_netReturn i)"

lemmas exit_specs = exit_accepts_def instants_ordered_def slots_ordered_def amount_def ordering_ok_def path_ambiguous_def
  exitPolicyKind_Inr requireIsoZ_Inr parseStrictBoolean_Inr requireDecimal_Inr requireInteger_Inr at_or_after_def

lemma modelExit_accepts:
  assumes "exit_accepts date_parse i"
  shows "\<exists>r. modelExit date_parse (Some i) = Inr r"
proof -
  obtain n where n: "composeNetReturn (xi_netReturn i) = Inr n"
    using assms composeNetReturn_net_ok by (auto simp: exit_accepts_def)
  obtain \<omega> where w: "adverseOrderingRequired (xi_favorableReachable i) (xi_adverseReachable i) (xi_orderingKnown i) = Inr \<omega>"
      "or_pathAmbiguous \<omega> \<longrightarrow> truthy (xi_optimisticSecondary i)"
  proof -
    obtain f a k where fak: "xi_favorableReachable i = U_bool f" "xi_adverseReachable i = U_bool a" "xi_orderingKnown i = U_bool k"
      "\<not> k \<and> f \<and> a \<longrightarrow> truthy (xi_optimisticSecondary i)"
      using assms by (auto simp: exit_accepts_def ordering_ok_def path_ambiguous_def)
    show thesis
      by (rule that [of "\<lparr>or_primaryOrdering = (if \<not> k \<and> f \<and> a then Ord_ADVERSE_FEASIBLE else Ord_UNAMBIGUOUS), or_pathAmbiguous = (\<not> k \<and> f \<and> a)\<rparr>"])
        (use fak in \<open>auto simp: adverseOrderingRequired_Inr\<close>)
  qed
  have "refuse (or_primaryOrdering \<omega> = Ord_ADVERSE_FEASIBLE \<and> or_pathAmbiguous \<omega> \<and> \<not> truthy (xi_optimisticSecondary i)) EXEC_ORDERING_INPUT_INVALID = Inr ()"
    using w(2) by auto
  moreover obtain k where "exitPolicyKind (xi_policyKind i) = Inr k" using assms by (auto simp: exit_accepts_def exitPolicyKind_Inr)
  moreover obtain c where "parseStrictBoolean (xi_stateComplete i) EXEC_LABEL_CLAUSES_INVALID = Inr c"
      "refuse (\<not> c \<and> xi_status i = Ex_EXECUTED_FULL) EXEC_LABEL_CLAUSES_INVALID = Inr ()"
    by (rule that [of "xi_stateComplete i = U_bool True"]) (use assms in \<open>auto simp: exit_accepts_def parseStrictBoolean_Inr\<close>)
  moreover have "refuse (\<not> non_empty_string (xi_exitPolicyVersionId i)) EXEC_LABEL_CLAUSES_INVALID = Inr ()"
      "refuse (xi_parameters i = None) EXEC_LABEL_CLAUSES_INVALID = Inr ()"
    using assms by (simp_all add: exit_accepts_def)
  moreover obtain t d where "requireIsoZ (xi_triggeredAt i) = Inr t" "requireIsoZ (xi_completedAt i) = Inr d"
      "at_or_after (date_parse d) (date_parse t)"
    using assms by (auto simp: exit_accepts_def instants_ordered_def requireIsoZ_Inr at_or_after_def)
  moreover obtain s s' where "requireInteger (xi_triggerSlot i) = Inr s" "requireInteger (xi_completionSlot i) = Inr s'" "s \<le> s'"
    using assms by (auto simp: exit_accepts_def slots_ordered_def requireInteger_Inr)
  moreover obtain rq fi px where "requireDecimal (xi_requestedQuantity i) = Inr rq" "requireDecimal (xi_filledQuantity i) = Inr fi"
      "requireDecimal (xi_averageExecutionPrice i) = Inr px" "\<not> whole_units rq < whole_units fi"
    using assms by (auto simp: exit_accepts_def amount_def requireDecimal_Inr not_less)
  ultimately show ?thesis using n w(1) by (simp add: modelExit_def Let_def del: refuse_eq_Inr)
qed


end
