(* ===== verification/Degradation.thy ===== *)
theory Degradation
  imports FillModels
begin

text \<open>
  Automatic degradation (packages/execution-simulator/src/degradation.ts): the append-only ledger of
  degraded scopes, the revalidation that clears one, and the gate on confirmed alerts. The abstract
  ledger is the set of open degradations, an identifier with its scope.
\<close>

section \<open>The ledger\<close>

datatype degradation_cause = ADAPTER_DEPRECATED | PROGRAM_UPGRADE | PARITY_DRIFT | UNKNOWN_EXTENSION

fun degradation_cause_text :: "degradation_cause \<Rightarrow> string" where
  "degradation_cause_text ADAPTER_DEPRECATED = ''ADAPTER_DEPRECATED''"
| "degradation_cause_text PROGRAM_UPGRADE = ''PROGRAM_UPGRADE''"
| "degradation_cause_text PARITY_DRIFT = ''PARITY_DRIFT''"
| "degradation_cause_text UNKNOWN_EXTENSION = ''UNKNOWN_EXTENSION''"

definition CAUSES :: "degradation_cause list" where
  "CAUSES = [ADAPTER_DEPRECATED, PROGRAM_UPGRADE, PARITY_DRIFT, UNKNOWN_EXTENSION]"

text \<open>A scope, with fields that are checked texts or values still unknown.\<close>

record 'a degradation_scope =
  dsc_chainId :: 'a
  dsc_programId :: 'a
  dsc_programVersion :: 'a
  dsc_curveType :: 'a
  dsc_accountLayoutVersion :: 'a

record degrade_input =
  dgi_degradationId :: js_unknown
  dgi_cause :: js_unknown
  dgi_scope :: "js_unknown degradation_scope option"
  dgi_adapterId :: js_unknown
  dgi_adapterVersion :: js_unknown
  dgi_detectedAt :: js_unknown
  dgi_evidenceRef :: js_unknown

record degradation_record =
  dgr_degradationId :: string
  dgr_cause :: degradation_cause
  dgr_scope :: "string degradation_scope"
  dgr_adapterId :: string
  dgr_adapterVersion :: string
  dgr_supportState :: adapter_support_state
  dgr_detectedAt :: string
  dgr_evidenceRef :: string
  dgr_revalidatedAt :: "string option"
  dgr_revalidationRef :: "string option"

record revalidation_input =
  rvi_degradationId :: js_unknown
  rvi_revalidationRef :: js_unknown
  rvi_revalidatedAt :: js_unknown

record degradation_ledger =
  lg_records :: "degradation_record list"
  lg_byId :: "string \<rightharpoonup> degradation_record"

definition empty_ledger :: degradation_ledger where
  "empty_ledger = \<lparr>lg_records = [], lg_byId = Map.empty\<rparr>"

definition require_non_empty :: "js_unknown \<Rightarrow> string res" where
  "require_non_empty v =
     (case v of
        U_string s \<Rightarrow> if s = [] then Inl (ExecVocabularyError EXEC_LABEL_CLAUSES_INVALID) else Inr s
      | _ \<Rightarrow> Inl (ExecVocabularyError EXEC_LABEL_CLAUSES_INVALID))"

section \<open>Operations\<close>

text \<open>The validation of \<open>degrade\<close>, up to the look at the ledger, with the record it builds.\<close>

definition degradation_of :: "degrade_input \<Rightarrow> degradation_record res" where
  "degradation_of input =
     bindE (require_non_empty (dgi_degradationId input)) (\<lambda>degradationId.
     bindE (parseVocabulary CAUSES degradation_cause_text (dgi_cause input) EXEC_LABEL_CLAUSES_INVALID) (\<lambda>cause.
     case dgi_scope input of
       None \<Rightarrow> Inl (ExecVocabularyError EXEC_LABEL_CLAUSES_INVALID)
     | Some scope \<Rightarrow>
         bindE (require_non_empty (dsc_chainId scope)) (\<lambda>chainId.
         bindE (require_non_empty (dsc_programId scope)) (\<lambda>programId.
         bindE (require_non_empty (dsc_programVersion scope)) (\<lambda>programVersion.
         bindE (require_non_empty (dsc_curveType scope)) (\<lambda>curveType.
         bindE (require_non_empty (dsc_accountLayoutVersion scope)) (\<lambda>accountLayoutVersion.
         bindE (require_non_empty (dgi_adapterId input)) (\<lambda>adapterId.
         bindE (require_non_empty (dgi_adapterVersion input)) (\<lambda>adapterVersion.
         bindE (require_non_empty (dgi_detectedAt input)) (\<lambda>detectedAt.
         bindE (require_non_empty (dgi_evidenceRef input)) (\<lambda>evidenceRef.
         bindE (refuse (\<not> ISO_Z detectedAt) EXEC_LABEL_CLAUSES_INVALID) (\<lambda>_.
         Inr \<lparr>dgr_degradationId = degradationId, dgr_cause = cause,
              dgr_scope = \<lparr>dsc_chainId = chainId, dsc_programId = programId, dsc_programVersion = programVersion,
                           dsc_curveType = curveType, dsc_accountLayoutVersion = accountLayoutVersion\<rparr>,
              dgr_adapterId = adapterId, dgr_adapterVersion = adapterVersion,
              dgr_supportState = (if cause = ADAPTER_DEPRECATED then Sup_UNAVAILABLE else Sup_DEGRADED),
              dgr_detectedAt = detectedAt, dgr_evidenceRef = evidenceRef,
              dgr_revalidatedAt = None, dgr_revalidationRef = None\<rparr>))))))))))))"

definition degrade :: "degrade_input option \<Rightarrow> (degradation_ledger, degradation_record) prog" where
  "degrade arg =
     (case arg of
        None \<Rightarrow> raise (ExecVocabularyError EXEC_LABEL_CLAUSES_INVALID)
      | Some input \<Rightarrow>
          bindP (liftE (degradation_of input)) (\<lambda>rec.
          bindP (reads lg_byId) (\<lambda>byId.
          bindP (liftE (refuse (byId (dgr_degradationId rec) \<noteq> None) EXEC_LABEL_CLAUSES_INVALID)) (\<lambda>_.
          bindP (writes (\<lambda>l. l\<lparr>lg_records := lg_records l @ [rec], lg_byId := (lg_byId l)(dgr_degradationId rec \<mapsto> rec)\<rparr>)) (\<lambda>_.
          ret rec)))))"

text \<open>\<open>findIndex\<close> and the assignment at the index, where there is one.\<close>

fun replace_first :: "(degradation_record \<Rightarrow> bool) \<Rightarrow> degradation_record \<Rightarrow> degradation_record list \<Rightarrow> degradation_record list" where
  "replace_first p x [] = []"
| "replace_first p x (y # ys) = (if p y then x # ys else y # replace_first p x ys)"

definition revalidate :: "revalidation_input option \<Rightarrow> (degradation_ledger, degradation_record) prog" where
  "revalidate arg =
     (case arg of
        None \<Rightarrow> raise (ExecVocabularyError EXEC_LABEL_CLAUSES_INVALID)
      | Some input \<Rightarrow>
          bindP (liftE (require_non_empty (rvi_degradationId input))) (\<lambda>degradationId.
          bindP (liftE (require_non_empty (rvi_revalidationRef input))) (\<lambda>revalidationRef.
          bindP (liftE (require_non_empty (rvi_revalidatedAt input))) (\<lambda>revalidatedAt.
          bindP (liftE (refuse (\<not> ISO_Z revalidatedAt) EXEC_LABEL_CLAUSES_INVALID)) (\<lambda>_.
          bindP (reads (\<lambda>l. lg_byId l degradationId)) (\<lambda>found.
          case found of
            None \<Rightarrow> raise (ExecVocabularyError EXEC_LABEL_CLAUSES_INVALID)
          | Some rec \<Rightarrow>
              bindP (liftE (refuse (dgr_revalidatedAt rec \<noteq> None) EXEC_LABEL_CLAUSES_INVALID)) (\<lambda>_.
              let cleared = rec\<lparr>dgr_revalidatedAt := Some revalidatedAt, dgr_revalidationRef := Some revalidationRef\<rparr>
              in
              bindP (writes (\<lambda>l. l\<lparr>lg_records := replace_first (\<lambda>r. dgr_degradationId r = degradationId) cleared (lg_records l),
                                   lg_byId := (lg_byId l)(degradationId \<mapsto> cleared)\<rparr>)) (\<lambda>_.
              ret cleared))))))))"

definition isDegraded :: "degradation_ledger \<Rightarrow> string degradation_scope \<Rightarrow> bool" where
  "isDegraded l scope =
     list_ex (\<lambda>r. dgr_revalidatedAt r = None \<and>
                  dsc_chainId (dgr_scope r) = dsc_chainId scope \<and>
                  dsc_programId (dgr_scope r) = dsc_programId scope \<and>
                  dsc_programVersion (dgr_scope r) = dsc_programVersion scope \<and>
                  dsc_curveType (dgr_scope r) = dsc_curveType scope \<and>
                  dsc_accountLayoutVersion (dgr_scope r) = dsc_accountLayoutVersion scope) (lg_records l)"

definition confirmedAlertsAllowed :: "degradation_ledger \<Rightarrow> string degradation_scope \<Rightarrow> bool" where
  "confirmedAlertsAllowed l scope = (\<not> isDegraded l scope)"

definition reevaluationQueue :: "degradation_ledger \<Rightarrow> string degradation_scope \<Rightarrow> string list \<Rightarrow> string list" where
  "reevaluationQueue l scope activeAlertIds = (if isDegraded l scope then activeAlertIds else [])"

definition upgradeFindingsToCause :: "string list option \<Rightarrow> degradation_cause option res" where
  "upgradeFindingsToCause findings =
     (case findings of
        None \<Rightarrow> Inl (ExecVocabularyError EXEC_LABEL_CLAUSES_INVALID)
      | Some fs \<Rightarrow>
          if ''IDL_OR_LAYOUT_HASH_MISMATCH'' \<in> set fs then Inr (Some PROGRAM_UPGRADE)
          else if ''DECODER_HASH_MISMATCH'' \<in> set fs then Inr (Some PROGRAM_UPGRADE)
          else Inr None)"

section \<open>The ledger is its set of open degradations\<close>

inductive ledger_reach :: "degradation_ledger \<Rightarrow> bool" where
  start: "ledger_reach empty_ledger"
| degraded: "ledger_reach l \<Longrightarrow> degrade arg l = (r, l') \<Longrightarrow> ledger_reach l'"
| revalidated: "ledger_reach l \<Longrightarrow> revalidate rv l = (r, l') \<Longrightarrow> ledger_reach l'"

definition ledger_inv :: "degradation_ledger \<Rightarrow> bool" where
  "ledger_inv l \<longleftrightarrow> distinct (map dgr_degradationId (lg_records l)) \<and>
     lg_byId l = map_of (map (\<lambda>r. (dgr_degradationId r, r)) (lg_records l))"

definition open_degradations :: "degradation_ledger \<Rightarrow> (string \<times> string degradation_scope) set" where
  "open_degradations l = {(dgr_degradationId r, dgr_scope r) |r. r \<in> set (lg_records l) \<and> dgr_revalidatedAt r = None}"

text \<open>What a revalidation may not touch.\<close>

definition uncleared :: "degradation_record \<Rightarrow> degradation_record" where
  "uncleared r = r\<lparr>dgr_revalidatedAt := None, dgr_revalidationRef := None\<rparr>"

definition well_formed_revalidation :: "revalidation_input \<Rightarrow> string \<Rightarrow> bool" where
  "well_formed_revalidation rv k \<longleftrightarrow>
     rvi_degradationId rv = U_string k \<and> k \<noteq> [] \<and> non_empty_string (rvi_revalidationRef rv) \<and>
     (\<exists>t. rvi_revalidatedAt rv = U_string t \<and> t \<noteq> [] \<and> ISO_Z t)"

lemma require_non_empty_Inr: "require_non_empty v = Inr s \<longleftrightarrow> v = U_string s \<and> s \<noteq> []"
  by (auto simp: require_non_empty_def split: js_unknown.splits)

lemma isDegraded_open: "isDegraded l scope \<longleftrightarrow> (\<exists>k. (k, scope) \<in> open_degradations l)"
proof -
  have eq: "dsc_chainId a = dsc_chainId b \<and> dsc_programId a = dsc_programId b \<and> dsc_programVersion a = dsc_programVersion b \<and>
      dsc_curveType a = dsc_curveType b \<and> dsc_accountLayoutVersion a = dsc_accountLayoutVersion b \<longleftrightarrow> a = b"
    for a b :: "string degradation_scope" by (auto intro: degradation_scope.equality)
  show ?thesis unfolding isDegraded_def eq by (auto simp: open_degradations_def list_ex_iff)
qed

lemma replace_first_split:
  assumes "distinct (map dgr_degradationId rs)" and "r \<in> set rs" and "k = dgr_degradationId r"
  obtains xs ys where "rs = xs @ r # ys" and "replace_first (\<lambda>q. dgr_degradationId q = k) x rs = xs @ x # ys"
    and "\<forall>q \<in> set xs \<union> set ys. dgr_degradationId q \<noteq> k"
proof -
  obtain xs ys where rs: "rs = xs @ r # ys" using assms(2) by (auto dest: split_list)
  then have ne: "\<forall>q \<in> set xs \<union> set ys. dgr_degradationId q \<noteq> k" using assms(1,3) by (auto simp: image_iff)
  have "replace_first (\<lambda>q. dgr_degradationId q = k) x (xs @ r # ys) = xs @ x # ys"
    using ne assms(3) by (induction xs) auto
  then show thesis using rs ne that by blast
qed

text \<open>The two operations: an error leaves the ledger, a success changes the open set by one element.\<close>

lemma degrade_cases:
  assumes "degrade arg l = (res, l')"
  obtains (refused) e where "res = Inl e" and "l' = l"
  | (appended) input r where "arg = Some input" and "degradation_of input = Inr r" and "res = Inr r"
      and "lg_byId l (dgr_degradationId r) = None"
      and "l' = l\<lparr>lg_records := lg_records l @ [r], lg_byId := (lg_byId l)(dgr_degradationId r \<mapsto> r)\<rparr>"
proof (cases arg)
  case None
  then show thesis using assms by (intro refused) (auto simp: degrade_def)
next
  case (Some input)
  show thesis
  proof (cases "degradation_of input")
    case (Inl e)
    then show thesis using assms Some by (intro refused [of e]) (auto simp: degrade_def bindP_liftE)
  next
    case (Inr r)
    show thesis
    proof (cases "lg_byId l (dgr_degradationId r)")
      case None
      then show thesis using assms Some Inr by (intro appended [of input r]) (auto simp: degrade_def bindP_liftE)
    next
      case (Some q)
      then show thesis using assms \<open>arg = Some input\<close> Inr by (intro refused) (auto simp: degrade_def bindP_liftE refuse_def)
    qed
  qed
qed

lemma degradation_of_open: "degradation_of input = Inr r \<Longrightarrow> dgr_revalidatedAt r = None"
  by (auto simp: degradation_of_def bindE_eq_Inr split: option.splits)

lemma revalidate_cases:
  assumes "revalidate arg l = (res, l')"
  obtains (refused) e where "res = Inl e" and "l' = l"
      and "\<And>rv k r. arg = Some rv \<Longrightarrow> well_formed_revalidation rv k \<Longrightarrow> lg_byId l k = Some r \<Longrightarrow> dgr_revalidatedAt r \<noteq> None"
  | (cleared) rv k r t ref where "arg = Some rv" and "well_formed_revalidation rv k" and "lg_byId l k = Some r" and "dgr_revalidatedAt r = None"
      and "res = Inr (r\<lparr>dgr_revalidatedAt := Some t, dgr_revalidationRef := Some ref\<rparr>)"
      and "l' = l\<lparr>lg_records := replace_first (\<lambda>q. dgr_degradationId q = k) (r\<lparr>dgr_revalidatedAt := Some t, dgr_revalidationRef := Some ref\<rparr>) (lg_records l),
                  lg_byId := (lg_byId l)(k \<mapsto> r\<lparr>dgr_revalidatedAt := Some t, dgr_revalidationRef := Some ref\<rparr>)\<rparr>"
proof (cases arg)
  case None
  then show thesis using assms by (intro refused) (auto simp: revalidate_def)
next
  case (Some rv)
  show thesis
  proof (cases "\<exists>k ref t r. rvi_degradationId rv = U_string k \<and> k \<noteq> [] \<and> rvi_revalidationRef rv = U_string ref \<and> ref \<noteq> [] \<and>
      rvi_revalidatedAt rv = U_string t \<and> t \<noteq> [] \<and> ISO_Z t \<and> lg_byId l k = Some r \<and> dgr_revalidatedAt r = None")
    case True
    then obtain k ref t r where f: "rvi_degradationId rv = U_string k" "k \<noteq> []" "rvi_revalidationRef rv = U_string ref" "ref \<noteq> []"
      "rvi_revalidatedAt rv = U_string t" "t \<noteq> []" "ISO_Z t" "lg_byId l k = Some r" "dgr_revalidatedAt r = None" by blast
    then show thesis using assms Some
      by (intro cleared [where rv = rv and k = k and r = r and t = t and ref = ref]) (auto simp: bindP_liftE well_formed_revalidation_def non_empty_string_def revalidate_def require_non_empty_def Let_def)
  next
    case False
    then show thesis using assms Some
      by (intro refused) (auto simp: revalidate_def bindP_liftE require_non_empty_def refuse_def well_formed_revalidation_def non_empty_string_def
          Let_def split: js_unknown.splits if_splits option.splits)
  qed
qed

lemma ledger_inv_lookup: "ledger_inv l \<Longrightarrow> lg_byId l k = Some r \<longleftrightarrow> r \<in> set (lg_records l) \<and> dgr_degradationId r = k"
  by (auto simp: ledger_inv_def comp_def image_iff dest: map_of_SomeD)

lemma revalidated_ledger:
  assumes "ledger_inv l" and "r \<in> set (lg_records l)" and "dgr_revalidatedAt r = None" and "dgr_degradationId r = k"
    and l': "l' = l\<lparr>lg_records := replace_first (\<lambda>q. dgr_degradationId q = k) c (lg_records l), lg_byId := (lg_byId l)(k \<mapsto> c)\<rparr>"
    and c: "c = r\<lparr>dgr_revalidatedAt := Some t, dgr_revalidationRef := Some ref\<rparr>"
  shows "ledger_inv l'" and "open_degradations l' = open_degradations l - {(k, dgr_scope r)}"
    and "(k, dgr_scope r) \<in> open_degradations l"
    and "map uncleared (lg_records l') = map uncleared (lg_records l)"
    and "\<forall>q \<in> set (lg_records l). dgr_revalidatedAt q \<noteq> None \<longrightarrow> q \<in> set (lg_records l')"
proof -
  obtain xs ys where rs: "lg_records l = xs @ r # ys" "replace_first (\<lambda>q. dgr_degradationId q = k) c (lg_records l) = xs @ c # ys"
    "\<forall>q \<in> set xs \<union> set ys. dgr_degradationId q \<noteq> k"
    using replace_first_split [OF _ assms(2) assms(4) [symmetric], of c] assms(1) unfolding ledger_inv_def by blast
  have id: "dgr_degradationId c = k" "dgr_revalidatedAt c = Some t" using assms(4) c by simp_all
  have k: "map_of (map (\<lambda>r. (dgr_degradationId r, r)) xs) k = None" using rs(3) by (auto simp: map_of_eq_None_iff)
  have "lg_byId l = map_of (map (\<lambda>r. (dgr_degradationId r, r)) (xs @ r # ys))" using assms(1) rs(1) by (simp add: ledger_inv_def)
  then have "(lg_byId l)(k \<mapsto> c) = map_of (map (\<lambda>r. (dgr_degradationId r, r)) (xs @ c # ys))"
    using assms(4) id(1) k by (auto simp: fun_eq_iff map_add_def split: option.splits)
  then show "ledger_inv l'" using assms(1,4) rs(1,2) id(1) by (simp add: ledger_inv_def l')
  show "open_degradations l' = open_degradations l - {(k, dgr_scope r)}"
    using rs id assms(4) by (fastforce simp: open_degradations_def l')
  show "(k, dgr_scope r) \<in> open_degradations l" using assms by (auto simp: open_degradations_def)
  show "map uncleared (lg_records l') = map uncleared (lg_records l)" using rs c by (simp add: l' uncleared_def)
  show "\<forall>q \<in> set (lg_records l). dgr_revalidatedAt q \<noteq> None \<longrightarrow> q \<in> set (lg_records l')" using rs assms(3) by (auto simp: l')
qed

lemma degraded_ledger:
  assumes "ledger_inv l" and "lg_byId l (dgr_degradationId r) = None" and "dgr_revalidatedAt r = None"
    and "l' = l\<lparr>lg_records := lg_records l @ [r], lg_byId := (lg_byId l)(dgr_degradationId r \<mapsto> r)\<rparr>"
  shows "ledger_inv l'" and "open_degradations l' = insert (dgr_degradationId r, dgr_scope r) (open_degradations l)"
    and "dgr_degradationId r \<notin> dgr_degradationId ` set (lg_records l)"
proof -
  show n: "dgr_degradationId r \<notin> dgr_degradationId ` set (lg_records l)"
    using assms(1,2) by (auto simp: ledger_inv_def map_of_eq_None_iff image_iff)
  show "ledger_inv l'" using assms n
    by (auto simp: ledger_inv_def fun_eq_iff map_add_def split: option.splits dest: map_of_SomeD)
  show "open_degradations l' = insert (dgr_degradationId r, dgr_scope r) (open_degradations l)"
    using assms(3,4) by (auto simp: open_degradations_def)
qed

lemma reach_inv: "ledger_reach l \<Longrightarrow> ledger_inv l"
proof (induction rule: ledger_reach.induct)
  case start
  show ?case by (simp add: ledger_inv_def empty_ledger_def)
next
  case (degraded l arg r l')
  from degraded.hyps(2) show ?case
    by (cases rule: degrade_cases) (use degraded.IH degraded_ledger(1) degradation_of_open in auto)
next
  case (revalidated l rv r l')
  from revalidated.hyps(2) show ?case
  proof (cases rule: revalidate_cases)
    case (cleared rv k q t ref)
    then show ?thesis using revalidated.IH revalidated_ledger(1) [OF revalidated.IH, of q k] ledger_inv_lookup [OF revalidated.IH, of k q] by blast
  qed (use revalidated.IH in simp)
qed

text \<open>
  C10 (degradation_ledger_refines). The ledger implements the set of open degradations. A
  degradation is recorded under an identifier never used before and opens it for its scope; a
  revalidation succeeds exactly when it is well formed and its identifier is open, closes that one
  and no other, keeps everything else of every record and leaves cleared records as they were; a
  refused operation changes nothing. Confirmed alerts are allowed in a scope exactly while
  no open degradation has that scope, and its active alerts are queued exactly while one has.
\<close>

theorem degradation_ledger_refines:
  assumes "ledger_reach l"
  shows "(case degrade arg l of
            (Inl e, l') \<Rightarrow> l' = l
          | (Inr r, l') \<Rightarrow>
              dgr_degradationId r \<notin> dgr_degradationId ` set (lg_records l) \<and> lg_records l' = lg_records l @ [r] \<and>
              open_degradations l' = insert (dgr_degradationId r, dgr_scope r) (open_degradations l)) \<and>
         (case revalidate (Some rv) l of
            (Inl e, l') \<Rightarrow> l' = l \<and> \<not> (\<exists>k s. well_formed_revalidation rv k \<and> (k, s) \<in> open_degradations l)
          | (Inr r, l') \<Rightarrow>
              well_formed_revalidation rv (dgr_degradationId r) \<and> (dgr_degradationId r, dgr_scope r) \<in> open_degradations l \<and>
              open_degradations l' = open_degradations l - {(dgr_degradationId r, dgr_scope r)} \<and>
              map uncleared (lg_records l') = map uncleared (lg_records l) \<and>
              {q \<in> set (lg_records l). dgr_revalidatedAt q \<noteq> None} \<subseteq> set (lg_records l')) \<and>
         (confirmedAlertsAllowed l scope \<longleftrightarrow> scope \<notin> snd ` open_degradations l) \<and>
         reevaluationQueue l scope ids = (if scope \<in> snd ` open_degradations l then ids else [])"
proof (intro conjI)
  note inv = reach_inv [OF assms]
  obtain res l' where d: "degrade arg l = (res, l')" by (cases "degrade arg l")
  from d show "case degrade arg l of
            (Inl e, l') \<Rightarrow> l' = l
          | (Inr r, l') \<Rightarrow>
              dgr_degradationId r \<notin> dgr_degradationId ` set (lg_records l) \<and> lg_records l' = lg_records l @ [r] \<and>
              open_degradations l' = insert (dgr_degradationId r, dgr_scope r) (open_degradations l)"
  proof (cases rule: degrade_cases)
    case (appended input r)
    then show ?thesis using d degraded_ledger(2,3) [OF inv appended(4) degradation_of_open appended(5)] by simp
  qed (simp add: d)
  obtain res l' where v: "revalidate (Some rv) l = (res, l')" by (cases "revalidate (Some rv) l")
  from v show "case revalidate (Some rv) l of
            (Inl e, l') \<Rightarrow> l' = l \<and> \<not> (\<exists>k s. well_formed_revalidation rv k \<and> (k, s) \<in> open_degradations l)
          | (Inr r, l') \<Rightarrow>
              well_formed_revalidation rv (dgr_degradationId r) \<and> (dgr_degradationId r, dgr_scope r) \<in> open_degradations l \<and>
              open_degradations l' = open_degradations l - {(dgr_degradationId r, dgr_scope r)} \<and>
              map uncleared (lg_records l') = map uncleared (lg_records l) \<and>
              {q \<in> set (lg_records l). dgr_revalidatedAt q \<noteq> None} \<subseteq> set (lg_records l')"
  proof (cases rule: revalidate_cases)
    case (refused e)
    have "\<not> (well_formed_revalidation rv k \<and> (k, s) \<in> open_degradations l)" for k s
      using refused(3) [OF refl] ledger_inv_lookup [OF inv] by (fastforce simp: open_degradations_def)
    then show ?thesis using v refused(1,2) by auto
  next
    case (cleared rv' k r t ref)
    have r: "r \<in> set (lg_records l)" "dgr_degradationId r = k" using cleared(3) ledger_inv_lookup [OF inv] by blast+
    note done' = revalidated_ledger [OF inv r(1) cleared(4) r(2) cleared(6) refl]
    show ?thesis using v cleared(1,2,5) r(2) done'(2-5) by auto
  qed
  show "confirmedAlertsAllowed l scope \<longleftrightarrow> scope \<notin> snd ` open_degradations l"
    by (force simp: confirmedAlertsAllowed_def isDegraded_open)
  show "reevaluationQueue l scope ids = (if scope \<in> snd ` open_degradations l then ids else [])"
    by (force simp: reevaluationQueue_def isDegraded_open)
qed

definition sample_scope :: "string \<Rightarrow> string degradation_scope" where
  "sample_scope layout = \<lparr>dsc_chainId = ''solana'', dsc_programId = ''amm'', dsc_programVersion = ''1'',
     dsc_curveType = ''constant'', dsc_accountLayoutVersion = layout\<rparr>"

definition sample_degradation :: degrade_input where
  "sample_degradation =
     \<lparr>dgi_degradationId = U_string ''d1'', dgi_cause = U_string ''PARITY_DRIFT'',
      dgi_scope = Some \<lparr>dsc_chainId = U_string ''solana'', dsc_programId = U_string ''amm'', dsc_programVersion = U_string ''1'',
        dsc_curveType = U_string ''constant'', dsc_accountLayoutVersion = U_string ''v1''\<rparr>,
      dgi_adapterId = U_string ''cp'', dgi_adapterVersion = U_string ''1'',
      dgi_detectedAt = U_string ''2026-01-02T03:04:05.678Z'', dgi_evidenceRef = U_string ''incident''\<rparr>"

definition sample_revalidation :: revalidation_input where
  "sample_revalidation =
     \<lparr>rvi_degradationId = U_string ''d1'', rvi_revalidationRef = U_string ''signed'', rvi_revalidatedAt = U_string ''2026-01-03T00:00:00Z''\<rparr>"

definition degraded_sample :: degradation_ledger where
  "degraded_sample = snd (degrade (Some sample_degradation) empty_ledger)"

lemma ISO_Z_sample: "ISO_Z ''2026-01-02T03:04:05.678Z''" "ISO_Z ''2026-01-03T00:00:00Z''"
  by (simp_all add: ISO_Z_def iso_template_def digit_def)

lemma sample_run: "\<exists>r. degrade (Some sample_degradation) empty_ledger = (Inr r, degraded_sample) \<and>
    dgr_degradationId r = ''d1'' \<and> dgr_scope r = sample_scope ''v1''"
  by (simp add: degraded_sample_def degrade_def degradation_of_def sample_degradation_def require_non_empty_def parseVocabulary_def
      CAUSES_def ISO_Z_sample bindP_liftE empty_ledger_def sample_scope_def)

theorem degradation_ledger_refines_witness:
  "ledger_reach degraded_sample \<and> \<not> confirmedAlertsAllowed degraded_sample (sample_scope ''v1'') \<and>
   confirmedAlertsAllowed degraded_sample (sample_scope ''v2'') \<and>
   confirmedAlertsAllowed (snd (revalidate (Some sample_revalidation) degraded_sample)) (sample_scope ''v1'')"
proof -
  obtain r where r: "degrade (Some sample_degradation) empty_ledger = (Inr r, degraded_sample)"
    "dgr_degradationId r = ''d1''" "dgr_scope r = sample_scope ''v1''" using sample_run by blast
  have reach: "ledger_reach degraded_sample" by (rule ledger_reach.degraded [OF ledger_reach.start r(1)])
  have none: "open_degradations empty_ledger = {}" by (simp add: open_degradations_def empty_ledger_def)
  have opened: "open_degradations degraded_sample = {(''d1'', sample_scope ''v1'')}"
    using degradation_ledger_refines [OF ledger_reach.start, of "Some sample_degradation"] r none by simp
  have wf: "well_formed_revalidation sample_revalidation ''d1''"
    by (simp add: well_formed_revalidation_def sample_revalidation_def non_empty_string_def ISO_Z_sample)
  obtain res l' where run: "revalidate (Some sample_revalidation) degraded_sample = (res, l')" by (metis surj_pair)
  note step = degradation_ledger_refines [OF reach, of None sample_revalidation "sample_scope ''v1''" "[]", unfolded run opened, simplified]
  obtain q where q: "revalidate (Some sample_revalidation) degraded_sample = (Inr q, l')" "open_degradations l' = {}"
    using step run wf by (cases res) auto
  have reach': "ledger_reach l'" by (rule ledger_reach.revalidated [OF reach q(1)])
  have "sample_scope ''v2'' \<noteq> sample_scope ''v1''" by (simp add: sample_scope_def)
  then show ?thesis
    using degradation_ledger_refines [OF reach] degradation_ledger_refines [OF reach'] opened q reach by simp
qed

end
