(* ===== verification/TargetEvidence.thy ===== *)
theory TargetEvidence
  imports Degradation
begin

text \<open>
  Evidence for tradability (packages/execution-simulator/src/delays.ts, target-touch.ts): versioned
  delay profiles with their gate, and the executable-target law with the resolution floor.
\<close>

section \<open>Delay profiles\<close>

datatype delay_measurement_source = EMPIRICAL_SAMPLE | CONSERVATIVE_CONFIGURED | SYSTEM_CONSTANT

record delay_point =
  dpt_slots :: int
  dpt_measurementSource :: delay_measurement_source
  dpt_sampleSize :: "int option"

record action_delay_profile =
  adp_profileVersion :: string
  adp_deterministicReference :: delay_point
  adp_p50 :: delay_point
  adp_p90 :: delay_point
  adp_maximumSupportedDelay :: delay_point

record resolve_delay_input =
  rdi_profileVersion :: js_unknown
  rdi_deterministicReferenceSlots :: js_unknown
  rdi_p50Slots :: js_unknown
  rdi_p90Slots :: js_unknown
  rdi_maximumSupportedDelaySlots :: js_unknown
  rdi_measurementSource :: delay_measurement_source
  rdi_sampleSize :: js_unknown

definition requireSlotCount :: "js_unknown \<Rightarrow> int res" where
  "requireSlotCount v =
     (case integer_number v of
        Some n \<Rightarrow> if n < 0 then Inl (ExecVocabularyError EXEC_UNCERTAINTY_INPUT_INVALID) else Inr n
      | None \<Rightarrow> Inl (ExecVocabularyError EXEC_UNCERTAINTY_INPUT_INVALID))"

definition buildPoint :: "js_unknown \<Rightarrow> delay_measurement_source \<Rightarrow> js_unknown \<Rightarrow> delay_point res" where
  "buildPoint slots measurementSource sampleSize =
     bindE (requireSlotCount slots) (\<lambda>n.
     if measurementSource = EMPIRICAL_SAMPLE
     then (case integer_number sampleSize of
             Some k \<Rightarrow>
               if k \<le> 0 then Inl (ExecVocabularyError EXEC_UNCERTAINTY_INPUT_INVALID)
               else Inr \<lparr>dpt_slots = n, dpt_measurementSource = measurementSource, dpt_sampleSize = Some k\<rparr>
           | None \<Rightarrow> Inl (ExecVocabularyError EXEC_UNCERTAINTY_INPUT_INVALID))
     else Inr \<lparr>dpt_slots = n, dpt_measurementSource = measurementSource, dpt_sampleSize = None\<rparr>)"

definition resolveActionDelayProfile :: "resolve_delay_input \<Rightarrow> action_delay_profile res" where
  "resolveActionDelayProfile input =
     (case rdi_profileVersion input of
        U_string version \<Rightarrow>
          if version = [] then Inl (ExecVocabularyError EXEC_UNCERTAINTY_INPUT_INVALID)
          else
          bindE (buildPoint (rdi_p50Slots input) (rdi_measurementSource input) (rdi_sampleSize input)) (\<lambda>p50.
          bindE (buildPoint (rdi_p90Slots input) (rdi_measurementSource input) (rdi_sampleSize input)) (\<lambda>p90.
          bindE (buildPoint (rdi_maximumSupportedDelaySlots input) (rdi_measurementSource input) (rdi_sampleSize input)) (\<lambda>mx.
          bindE (buildPoint (rdi_deterministicReferenceSlots input) SYSTEM_CONSTANT U_undefined) (\<lambda>reference.
          if dpt_slots p90 < dpt_slots p50 \<or> dpt_slots mx < dpt_slots p90
          then Inl (ExecVocabularyError EXEC_UNCERTAINTY_INPUT_INVALID)
          else Inr \<lparr>adp_profileVersion = version, adp_deterministicReference = reference, adp_p50 = p50, adp_p90 = p90,
                    adp_maximumSupportedDelay = mx\<rparr>))))
      | _ \<Rightarrow> Inl (ExecVocabularyError EXEC_UNCERTAINTY_INPUT_INVALID))"

datatype delay_quantile = P50 | P90

record delay_gate_verdict =
  dgv_passed :: bool
  dgv_evaluatedAt :: delay_quantile
  dgv_delaySlots :: int
  dgv_labeledSource :: delay_measurement_source

text \<open>The gate of a profile; the candidate's survival test may throw, which is a failure.\<close>

definition profile_robustDelayGate :: "action_delay_profile \<Rightarrow> delay_quantile \<Rightarrow> (int \<Rightarrow> js_unknown res) \<Rightarrow> delay_gate_verdict" where
  "profile_robustDelayGate profile requires survivesAtSlots =
     (let point = (if requires = P90 then adp_p90 profile else adp_p50 profile)
      in \<lparr>dgv_passed = (case survivesAtSlots (dpt_slots point) of Inr v \<Rightarrow> v = U_bool True | Inl _ \<Rightarrow> False),
          dgv_evaluatedAt = requires, dgv_delaySlots = dpt_slots point, dgv_labeledSource = dpt_measurementSource point\<rparr>)"

section \<open>Target touches\<close>

record resolution_floor =
  rfl_minimumSlotTouches :: js_unknown
  rfl_minimumTargetDurationSeconds :: js_unknown
  rfl_minimumExecutableVolumeUsd :: js_unknown

record target_touch_input =
  tti_touched :: js_unknown
  tti_touchSlots :: "js_unknown list option"
  tti_executableVolumeUsd :: js_unknown
  tti_targetDurationSeconds :: js_unknown
  tti_resolutionFloor :: "resolution_floor option"
  tti_stateComplete :: js_unknown

record target_touch_result =
  ttr_satisfied :: bool
  ttr_isolatedWick :: bool
  ttr_resolutionBelowFloor :: bool
  ttr_supportsTradableLabel :: bool
  ttr_refusal :: "string option"

definition target_decimal :: "js_unknown \<Rightarrow> string res" where
  "target_decimal v =
     (case v of
        U_string s \<Rightarrow> if NON_NEGATIVE_DECIMAL s then Inr s else Inl (ExecVocabularyError EXEC_TARGET_INPUT_INVALID)
      | _ \<Rightarrow> Inl (ExecVocabularyError EXEC_TARGET_INPUT_INVALID))"

text \<open>An integer at or above a bound, and an array of integers.\<close>

definition target_integer :: "int \<Rightarrow> js_unknown \<Rightarrow> int res" where
  "target_integer least v =
     (case integer_number v of
        Some n \<Rightarrow> if n < least then Inl (ExecVocabularyError EXEC_TARGET_INPUT_INVALID) else Inr n
      | None \<Rightarrow> Inl (ExecVocabularyError EXEC_TARGET_INPUT_INVALID))"

definition target_slots :: "js_unknown list option \<Rightarrow> int list res" where
  "target_slots v =
     (case v of
        None \<Rightarrow> Inl (ExecVocabularyError EXEC_TARGET_INPUT_INVALID)
      | Some slots \<Rightarrow>
          if list_ex (\<lambda>s. integer_number s = None) slots then Inl (ExecVocabularyError EXEC_TARGET_INPUT_INVALID)
          else Inr (map (\<lambda>s. the (integer_number s)) slots))"

definition touch_refusal :: "bool \<Rightarrow> bool \<Rightarrow> bool \<Rightarrow> bool \<Rightarrow> string option" where
  "touch_refusal touched isolatedWick stateComplete satisfied =
     (if \<not> touched then Some ''TARGET_NEVER_TOUCHED''
      else if isolatedWick then Some ''ISOLATED_WICK_INSUFFICIENT_VOLUME_OR_DURATION''
      else if \<not> stateComplete then Some ''CONFIRMED_TRADABILITY_BLOCKED''
      else if \<not> satisfied then Some ''INSUFFICIENT_EXECUTABLE_VOLUME_OR_DURATION''
      else None)"

definition evaluateTargetTouch :: "target_touch_input option \<Rightarrow> target_touch_result res" where
  "evaluateTargetTouch arg =
     (case arg of
        None \<Rightarrow> Inl (ExecVocabularyError EXEC_TARGET_INPUT_INVALID)
      | Some input \<Rightarrow>
     (case tti_resolutionFloor input of
        None \<Rightarrow> Inl (ExecVocabularyError EXEC_TARGET_INPUT_INVALID)
      | Some limits \<Rightarrow>
          bindE (target_decimal (tti_executableVolumeUsd input)) (\<lambda>volume.
          bindE (target_decimal (rfl_minimumExecutableVolumeUsd limits)) (\<lambda>minimumVolume.
          bindE (target_integer 1 (rfl_minimumSlotTouches limits)) (\<lambda>minimumSlotTouches.
          bindE (target_integer 0 (rfl_minimumTargetDurationSeconds limits)) (\<lambda>minimumDuration.
          bindE (target_integer 0 (tti_targetDurationSeconds input)) (\<lambda>duration.
          bindE (parseStrictBoolean (tti_touched input) EXEC_TARGET_INPUT_INVALID) (\<lambda>touched.
          bindE (parseStrictBoolean (tti_stateComplete input) EXEC_TARGET_INPUT_INVALID) (\<lambda>stateComplete.
          bindE (target_slots (tti_touchSlots input)) (\<lambda>touchSlots.
          let distinctSlots = int (card (set touchSlots));
              volumeSufficient = 0 \<le> decimalCompare volume minimumVolume;
              durationSufficient = minimumDuration \<le> duration;
              isolatedWick = touched \<and> distinctSlots = 1 \<and> \<not> volumeSufficient \<and> \<not> durationSufficient
          in
          bindE (executableTargetSatisfied
                   \<lparr>tg_touched = U_bool touched, tg_executableVolumeObserved = U_bool volumeSufficient,
                    tg_targetDurationSupported = U_bool durationSufficient, tg_isolatedWick = U_bool isolatedWick\<rparr>) (\<lambda>executable.
          let satisfied = executable \<and> stateComplete;
              resolutionBelowFloor = distinctSlots < minimumSlotTouches \<or> \<not> volumeSufficient \<or> \<not> durationSufficient
          in Inr \<lparr>ttr_satisfied = satisfied, ttr_isolatedWick = isolatedWick, ttr_resolutionBelowFloor = resolutionBelowFloor,
                  ttr_supportsTradableLabel = (satisfied \<and> \<not> resolutionBelowFloor),
                  ttr_refusal = touch_refusal touched isolatedWick stateComplete satisfied\<rparr>)))))))))))"

datatype rendering_policy = SIGNAL_ONLY_LOW_RESOLUTION | TRADABLE_EVIDENCE | NO_EVIDENCE

definition renderingPolicyFor :: "target_touch_result \<Rightarrow> rendering_policy" where
  "renderingPolicyFor result =
     (if \<not> ttr_satisfied result then NO_EVIDENCE
      else if ttr_resolutionBelowFloor result then SIGNAL_ONLY_LOW_RESOLUTION else TRADABLE_EVIDENCE)"

section \<open>What the evidence means\<close>

lemma target_decimal_Inr: "target_decimal v = Inr s \<longleftrightarrow> v = U_string s \<and> NON_NEGATIVE_DECIMAL s"
  by (auto simp: target_decimal_def split: js_unknown.splits)

lemma target_integer_Inr: "target_integer least v = Inr n \<longleftrightarrow> integer_number v = Some n \<and> least \<le> n"
  by (auto simp: target_integer_def split: option.splits)

lemma target_slots_Inr:
  "target_slots v = Inr ns \<longleftrightarrow> (\<exists>slots. v = Some slots \<and> map integer_number slots = map Some ns)"
proof
  assume "target_slots v = Inr ns"
  then obtain slots where s: "v = Some slots" "\<not> list_ex (\<lambda>s. integer_number s = None) slots" "ns = map (\<lambda>s. the (integer_number s)) slots"
    by (auto simp: target_slots_def split: option.splits if_splits)
  then have "map integer_number slots = map Some ns" by (auto simp: list_ex_iff)
  then show "\<exists>slots. v = Some slots \<and> map integer_number slots = map Some ns" using s(1) by blast
next
  assume "\<exists>slots. v = Some slots \<and> map integer_number slots = map Some ns"
  then obtain slots where v: "v = Some slots" and m: "map integer_number slots = map Some ns" by blast
  have "\<not> list_ex (\<lambda>s. integer_number s = None) slots" "map (\<lambda>s. the (integer_number s)) slots = ns" using m
    by (induction slots arbitrary: ns; fastforce)+
  then show "target_slots v = Inr ns" using v by (simp add: target_slots_def)
qed

text \<open>The evidence of a touch: whether it was, the state, the slots, and the two sufficiency tests.\<close>

definition touch_evidence :: "target_touch_input \<Rightarrow> bool \<Rightarrow> bool \<Rightarrow> bool \<Rightarrow> bool \<Rightarrow> bool \<Rightarrow> bool" where
  "touch_evidence i touched stateComplete enoughSlots enoughVolume enoughDuration \<longleftrightarrow>
     (\<exists>limits ns least minimum seconds slots.
        tti_resolutionFloor i = Some limits \<and> amount (tti_executableVolumeUsd i) \<and> amount (rfl_minimumExecutableVolumeUsd limits) \<and>
        integer_number (rfl_minimumSlotTouches limits) = Some least \<and> 1 \<le> least \<and>
        integer_number (rfl_minimumTargetDurationSeconds limits) = Some minimum \<and> 0 \<le> minimum \<and>
        integer_number (tti_targetDurationSeconds i) = Some seconds \<and> 0 \<le> seconds \<and>
        tti_touched i = U_bool touched \<and> tti_stateComplete i = U_bool stateComplete \<and>
        tti_touchSlots i = Some slots \<and> map integer_number slots = map Some ns \<and>
        enoughSlots = (least \<le> int (card (set ns))) \<and>
        enoughVolume = (usd (rfl_minimumExecutableVolumeUsd limits) \<le> usd (tti_executableVolumeUsd i)) \<and>
        enoughDuration = (minimum \<le> seconds))"

lemma decimalCompare_sufficient:
  "NON_NEGATIVE_DECIMAL a \<Longrightarrow> NON_NEGATIVE_DECIMAL b \<Longrightarrow> 0 \<le> decimalCompare a b \<longleftrightarrow> dec_value b \<le> dec_value a"
  by (simp add: decimalCompare_value)

lemma executableTarget_bools [simp]:
  "executableTargetSatisfied \<lparr>tg_touched = U_bool t, tg_executableVolumeObserved = U_bool v, tg_targetDurationSupported = U_bool d, tg_isolatedWick = U_bool w\<rparr> =
     Inr (t \<and> \<not> w \<and> (v \<or> d))"
  by (simp add: executableTargetSatisfied_def parseStrictBoolean_def)

lemma evaluateTargetTouch_complete:
  "touch_evidence i touched stateOk slots volume duration \<Longrightarrow> \<exists>r. evaluateTargetTouch (Some i) = Inr r"
proof -
  assume "touch_evidence i touched stateOk slots volume duration"
  then obtain limits ns least minimum seconds where t: "tti_resolutionFloor i = Some limits"
      "target_integer 1 (rfl_minimumSlotTouches limits) = Inr least" "target_integer 0 (rfl_minimumTargetDurationSeconds limits) = Inr minimum"
      "target_integer 0 (tti_targetDurationSeconds i) = Inr seconds" "target_slots (tti_touchSlots i) = Inr ns"
      "tti_touched i = U_bool touched" "tti_stateComplete i = U_bool stateOk"
    and a: "amount (tti_executableVolumeUsd i)" "amount (rfl_minimumExecutableVolumeUsd limits)"
    unfolding touch_evidence_def target_integer_Inr target_slots_Inr by blast
  obtain v m where "target_decimal (tti_executableVolumeUsd i) = Inr v" "target_decimal (rfl_minimumExecutableVolumeUsd limits) = Inr m"
    using a by (auto simp: amount_def target_decimal_Inr)
  then show ?thesis using t by (simp add: evaluateTargetTouch_def parseStrictBoolean_def Let_def)
qed

text \<open>
  The executable-target law, on the numbers the texts denote: malformed
  evidence is refused and nothing else is; a touch satisfies the law exactly when it happened on
  complete state with enough volume or enough duration; an isolated wick never does; it supports a
  tradable label, and is rendered as tradable evidence, exactly when volume, duration and the number
  of distinct slots all reach the floor; and a refusal is given exactly when it does not satisfy.
\<close>

theorem target_touch_exact:
  "case evaluateTargetTouch (Some i) of
     Inl e \<Rightarrow> \<not> (\<exists>touched stateOk slots volume duration. touch_evidence i touched stateOk slots volume duration)
   | Inr r \<Rightarrow>
       \<exists>touched stateOk slots volume duration.
         touch_evidence i touched stateOk slots volume duration \<and>
         ttr_satisfied r = (touched \<and> stateOk \<and> (volume \<or> duration)) \<and>
         \<not> (ttr_isolatedWick r \<and> ttr_satisfied r) \<and>
         ttr_supportsTradableLabel r = (touched \<and> stateOk \<and> volume \<and> duration \<and> slots) \<and>
         (renderingPolicyFor r = TRADABLE_EVIDENCE) = ttr_supportsTradableLabel r \<and>
         (ttr_refusal r = None) = ttr_satisfied r"
proof (cases "evaluateTargetTouch (Some i)")
  case (Inl e)
  then show ?thesis using evaluateTargetTouch_complete by force
next
  case (Inr r)
  then obtain limits v m least minimum seconds touched stateOk ns where
      t: "tti_resolutionFloor i = Some limits" "target_decimal (tti_executableVolumeUsd i) = Inr v"
      "target_decimal (rfl_minimumExecutableVolumeUsd limits) = Inr m" "target_integer 1 (rfl_minimumSlotTouches limits) = Inr least"
      "target_integer 0 (rfl_minimumTargetDurationSeconds limits) = Inr minimum" "target_integer 0 (tti_targetDurationSeconds i) = Inr seconds"
      "tti_touched i = U_bool touched" "tti_stateComplete i = U_bool stateOk" "target_slots (tti_touchSlots i) = Inr ns"
    by (auto simp: evaluateTargetTouch_def bindE_eq_Inr parseStrictBoolean_Inr Let_def split: option.splits)
  let ?v = "0 \<le> decimalCompare v m" and ?d = "minimum \<le> seconds" and ?s = "least \<le> int (card (set ns))"
  have e: "touch_evidence i touched stateOk ?s ?v ?d"
    using t unfolding touch_evidence_def target_decimal_Inr target_integer_Inr target_slots_Inr amount_def
    by (auto simp: decimalCompare_sufficient usd_def)
  have r: "r = (let wick = touched \<and> int (card (set ns)) = 1 \<and> \<not> ?v \<and> \<not> ?d; sat = (touched \<and> \<not> wick \<and> (?v \<or> ?d)) \<and> stateOk;
      below = int (card (set ns)) < least \<or> \<not> ?v \<or> \<not> ?d
    in \<lparr>ttr_satisfied = sat, ttr_isolatedWick = wick, ttr_resolutionBelowFloor = below, ttr_supportsTradableLabel = (sat \<and> \<not> below),
        ttr_refusal = touch_refusal touched wick stateOk sat\<rparr>)"
    using Inr t by (simp add: evaluateTargetTouch_def parseStrictBoolean_def Let_def)
  show ?thesis unfolding Inr sum.case
    by (intro exI conjI, rule e) (auto simp: r Let_def renderingPolicyFor_def touch_refusal_def)
qed

text \<open>A profile is ordered, every point is labelled with its source, and only empirical points have a sample size.\<close>

lemma delay_profile_ordered:
  assumes "resolveActionDelayProfile input = Inr profile"
  shows "0 \<le> dpt_slots (adp_p50 profile) \<and> dpt_slots (adp_p50 profile) \<le> dpt_slots (adp_p90 profile) \<and>
     dpt_slots (adp_p90 profile) \<le> dpt_slots (adp_maximumSupportedDelay profile) \<and>
     dpt_measurementSource (adp_p90 profile) = rdi_measurementSource input \<and>
     (dpt_sampleSize (adp_p90 profile) \<noteq> None) = (rdi_measurementSource input = EMPIRICAL_SAMPLE)"
  using assms
  by (auto simp: resolveActionDelayProfile_def buildPoint_def requireSlotCount_def bindE_eq_Inr not_less
      split: js_unknown.splits if_splits option.splits)

end
