(* ===== verification/TradabilityGate.thy ===== *)
theory TradabilityGate
  imports TargetEvidence DeadLetters
begin

text \<open>
  The stress matrix and the tradability gate (packages/execution-simulator/src/stress.ts,
  tradability.ts): which stress kinds were recorded, which of the required ones failed, and the
  verdict and confirmation that follow. Fields the code never reads are left out of the inputs.
\<close>

section \<open>The gate\<close>

record gate_scenario_result =
  gsr_stressKind :: js_unknown
  gsr_passed :: js_unknown

record gate_input =
  tgi_candidateId :: js_unknown
  tgi_requiredKinds :: "js_unknown list option"
  tgi_conservativeStressPolicyId :: js_unknown
  tgi_results :: "gate_scenario_result option list option"
  tgi_targetExecutable :: js_unknown
  tgi_uncertaintyBlocked :: js_unknown
  tgi_stateComplete :: js_unknown
  tgi_signalLabel :: js_unknown
  tgi_requiresDelayKinds :: "js_unknown list option"

record gate_result =
  tgr_candidateId :: js_unknown
  tgr_verdict :: tradability_verdict
  tgr_blockReason :: "tradability_verdict option"
  tgr_preservedSignalLabel :: "outcome_class option"
  tgr_kindResults :: "(stress_scenario_kind \<times> bool) list"
  tgr_confirmedOpportunity :: bool
  tgr_failedKinds :: "stress_scenario_kind list"
  tgr_refusal :: "string option"

definition requireKind :: "js_unknown \<Rightarrow> stress_scenario_kind res" where
  "requireKind v = parseVocabulary ALL_STRESS_SCENARIO_KINDS stress_scenario_kind_text v STRESS_SCENARIO_KIND_UNKNOWN"

text \<open>The validation of one recorded result, with its kind and whether it passed.\<close>

definition check_result :: "gate_scenario_result option \<Rightarrow> (stress_scenario_kind \<times> bool) res" where
  "check_result r =
     (case r of
        None \<Rightarrow> Inl (ExecVocabularyError EXEC_CONFIRMATION_INPUT_INVALID)
      | Some result \<Rightarrow>
          bindE (parseStrictBoolean (gsr_passed result) EXEC_CONFIRMATION_INPUT_INVALID) (\<lambda>passed.
          bindE (requireKind (gsr_stressKind result)) (\<lambda>kind. Inr (kind, passed))))"

definition is_string :: "js_unknown \<Rightarrow> bool" where
  "is_string v = (case v of U_string _ \<Rightarrow> True | _ \<Rightarrow> False)"

text \<open>The first recorded result of a kind stands; a kind without one has not passed.\<close>

definition kind_passed :: "(stress_scenario_kind \<times> bool) list \<Rightarrow> stress_scenario_kind \<Rightarrow> bool" where
  "kind_passed results kind = (map_of results kind = Some True)"

definition gate_verdict ::
  "gate_input \<Rightarrow> stress_scenario_kind list \<Rightarrow> bool \<Rightarrow> tradability_verdict \<times> string option" where
  "gate_verdict input failedKinds conservativePass =
     (if \<not> truthy (tgi_stateComplete input) then (Tv_STATE_INCOMPLETE, None)
      else if truthy (tgi_uncertaintyBlocked input) then (Tv_UNCERTAINTY_BLOCKED, None)
      else if \<not> truthy (tgi_targetExecutable input) then (Tv_TARGET_NOT_EXECUTABLE, None)
      else if failedKinds \<noteq> [] then
        (Tv_INSUFFICIENT_DATA,
         Some (if Str_CONSERVATIVE_LATENCY_ADVERSE_SELECTION \<in> set failedKinds \<and> \<not> conservativePass
               then ''FAILS_CONSERVATIVE_STRESS_SCENARIOS'' else ''FAILS_REQUIRED_STRESS_PASS_MATRIX''))
      else (Tv_TRADABLE, None))"

text \<open>\<open>delayResults\<close> and the robust-delay law of the domain over it.\<close>

definition delay_gate :: "(stress_scenario_kind \<times> bool) list \<Rightarrow> js_unknown list \<Rightarrow> delay_gate_result res" where
  "delay_gate results kinds =
     bindE (map_rows kinds requireKind) (\<lambda>ks.
     robustDelayGate \<lparr>dg_profileRequires = kinds,
       dg_results = map (\<lambda>k. (stress_scenario_kind_text k, U_bool (kind_passed results k))) ks\<rparr>)"

text \<open>The validation of the input, and the decision over the recorded results and required kinds.\<close>

definition gate_matrix :: "gate_input \<Rightarrow> ((stress_scenario_kind \<times> bool) list \<times> stress_scenario_kind list) res" where
  "gate_matrix input =
     bindE (refuse (\<not> non_empty_string (tgi_candidateId input)) EXEC_CONFIRMATION_INPUT_INVALID) (\<lambda>_.
     bindE (case tgi_requiredKinds input of
              None \<Rightarrow> Inl (ExecVocabularyError EXEC_CONFIRMATION_INPUT_INVALID)
            | Some ks \<Rightarrow> if ks = [] \<or> list_ex (\<lambda>k. \<not> is_string k) ks
                then Inl (ExecVocabularyError EXEC_CONFIRMATION_INPUT_INVALID) else Inr ks) (\<lambda>requiredKinds.
     bindE (refuse (\<not> non_empty_string (tgi_conservativeStressPolicyId input)) EXEC_CONFIRMATION_INPUT_INVALID) (\<lambda>_.
     bindE (case tgi_results input of
              None \<Rightarrow> Inl (ExecVocabularyError EXEC_CONFIRMATION_INPUT_INVALID)
            | Some rs \<Rightarrow> map_rows rs check_result) (\<lambda>results.
     bindE (refuse (\<not> nullish (tgi_signalLabel input) \<and> \<not> is_string (tgi_signalLabel input)) EXEC_CONFIRMATION_INPUT_INVALID) (\<lambda>_.
     bindE (map_rows requiredKinds requireKind) (\<lambda>required. Inr (results, required)))))))"

definition gate_decide :: "gate_input \<Rightarrow> (stress_scenario_kind \<times> bool) list \<Rightarrow> stress_scenario_kind list \<Rightarrow> gate_result res" where
  "gate_decide input results required =
     (let kindResults = map (\<lambda>k. (k, kind_passed results k)) required;
          failedKinds = filter (\<lambda>k. \<not> kind_passed results k) required;
          conservativeRequired = Str_CONSERVATIVE_LATENCY_ADVERSE_SELECTION \<in> set required;
          conservativeResult = map_of results Str_CONSERVATIVE_LATENCY_ADVERSE_SELECTION;
          conservativePass = kind_passed results Str_CONSERVATIVE_LATENCY_ADVERSE_SELECTION
      in case gate_verdict input failedKinds conservativePass of (verdict, refusal0) \<Rightarrow>
      let refusal = (if verdict \<noteq> Tv_TRADABLE \<and> conservativeRequired \<and> conservativeResult \<noteq> None \<and> \<not> conservativePass \<and> refusal0 = None
            then Some ''FAILS_CONSERVATIVE_STRESS_SCENARIOS'' else refusal0)
      in
      bindE (tradabilityBlocksConfirmedOpportunity
               (if nullish (tgi_signalLabel input) then U_null else tgi_signalLabel input)
               (U_string (tradability_verdict_text verdict))) (\<lambda>confirmation.
      bindE (case tgi_requiresDelayKinds input of
               None \<Rightarrow> Inr (verdict, refusal)
             | Some kinds \<Rightarrow>
                 bindE (delay_gate results kinds) (\<lambda>delayGate.
                 Inr (if \<not> dr_robust delayGate \<and> verdict = Tv_TRADABLE
                      then (Tv_INSUFFICIENT_DATA, Some ''FAILS_REQUIRED_STRESS_PASS_MATRIX'') else (verdict, refusal)))) (\<lambda>final.
      Inr \<lparr>tgr_candidateId = tgi_candidateId input, tgr_verdict = fst final, tgr_blockReason = cr_blockReason confirmation,
           tgr_preservedSignalLabel = cr_preservedSignalLabel confirmation, tgr_kindResults = kindResults,
           tgr_confirmedOpportunity = cr_confirmedOpportunity confirmation, tgr_failedKinds = failedKinds,
           tgr_refusal = snd final\<rparr>)))"

definition evaluateTradabilityGate :: "gate_input option \<Rightarrow> gate_result res" where
  "evaluateTradabilityGate arg =
     (case arg of
        None \<Rightarrow> Inl (ExecVocabularyError EXEC_CONFIRMATION_INPUT_INVALID)
      | Some input \<Rightarrow> bindE (gate_matrix input) (\<lambda>(results, required). gate_decide input results required))"

section \<open>What the gate decides\<close>

lemma requireKind_Inr: "requireKind v = Inr k \<longleftrightarrow> v = U_string (stress_scenario_kind_text k)"
  unfolding requireKind_def by (rule stressscenariokind_ev.parse_iff)

abbreviation kind_text_value :: "stress_scenario_kind \<Rightarrow> js_unknown" where
  "kind_text_value k \<equiv> U_string (stress_scenario_kind_text k)"

lemma list_all2_map_eq: "list_all2 (\<lambda>x y. x = f y) xs ys \<longleftrightarrow> xs = map f ys"
  by (induction xs arbitrary: ys) (auto simp: list_all2_Cons1 Cons_eq_map_conv)

lemma map_rows_kinds: "map_rows vs requireKind = Inr ks \<longleftrightarrow> vs = map kind_text_value ks"
  by (simp add: map_rows_eq_Inr requireKind_Inr list_all2_map_eq)

definition recorded :: "stress_scenario_kind \<times> bool \<Rightarrow> gate_scenario_result option" where
  "recorded r = Some \<lparr>gsr_stressKind = kind_text_value (fst r), gsr_passed = U_bool (snd r)\<rparr>"

lemma check_result_Inr: "check_result v = Inr r \<longleftrightarrow> v = recorded r"
  by (cases v; cases r; cases "the v") (auto simp: check_result_def recorded_def bindE_eq_Inr parseStrictBoolean_Inr requireKind_Inr)

lemma map_rows_results: "map_rows vs check_result = Inr rs \<longleftrightarrow> vs = map recorded rs"
  by (simp add: map_rows_eq_Inr check_result_Inr list_all2_map_eq)

lemma delay_failures_kinds:
  assumes "set ks \<subseteq> set all"
  shows "delay_failures (map (\<lambda>k. (stress_scenario_kind_text k, U_bool (passed k))) all) (map kind_text_value ks) =
     Inr (filter (\<lambda>k. \<not> passed k) ks)"
  using assms
proof (induction ks)
  case (Cons k ks)
  have "map_of (map (\<lambda>k. (stress_scenario_kind_text k, U_bool (passed k))) xs) (stress_scenario_kind_text k) =
      (if k \<in> set xs then Some (U_bool (passed k)) else None)" for xs
    by (induction xs) (auto dest: stress_scenario_kind_text_inj)
  then have "prop_of (map (\<lambda>k. (stress_scenario_kind_text k, U_bool (passed k))) all) (stress_scenario_kind_text k) = U_bool (passed k)"
    using Cons.prems by (simp add: prop_of_def)
  moreover have "stressScenarioKind (kind_text_value k) = Inr k"
    unfolding stressScenarioKind_def by (simp add: stressscenariokind_ev.parse_iff)
  ultimately show ?case using Cons by (simp add: Let_def)
qed simp

lemma delay_gate_kinds:
  "delay_gate results (map kind_text_value ks) =
     (if ks = [] then Inl (ExecVocabularyError EXEC_DELAY_GATE_INPUT_INVALID)
      else Inr \<lparr>dr_robust = list_all (kind_passed results) ks, dr_failures = filter (\<lambda>k. \<not> kind_passed results k) ks\<rparr>)"
  using map_rows_kinds [of "map kind_text_value ks" ks] delay_failures_kinds [OF order_refl, where passed = "kind_passed results"]
  by (simp add: delay_gate_def robustDelayGate_def filter_empty_conv list_all_iff)

text \<open>What a well-formed input says: required kinds, recorded results, signal label and delay kinds.\<close>

definition gate_evidence ::
  "gate_input \<Rightarrow> stress_scenario_kind list \<Rightarrow> (stress_scenario_kind \<times> bool) list \<Rightarrow> outcome_class option \<Rightarrow> stress_scenario_kind list option \<Rightarrow> bool" where
  "gate_evidence i required results label delays \<longleftrightarrow>
     non_empty_string (tgi_candidateId i) \<and> non_empty_string (tgi_conservativeStressPolicyId i) \<and>
     tgi_requiredKinds i = Some (map kind_text_value required) \<and> required \<noteq> [] \<and> tgi_results i = Some (map recorded results) \<and>
     (case label of None \<Rightarrow> nullish (tgi_signalLabel i) | Some c \<Rightarrow> tgi_signalLabel i = U_string (outcome_class_text c)) \<and>
     tgi_requiresDelayKinds i = map_option (map kind_text_value) delays \<and> delays \<noteq> Some []"

definition base_tradable :: "gate_input \<Rightarrow> stress_scenario_kind list \<Rightarrow> (stress_scenario_kind \<times> bool) list \<Rightarrow> bool" where
  "base_tradable i required results \<longleftrightarrow>
     truthy (tgi_stateComplete i) \<and> \<not> truthy (tgi_uncertaintyBlocked i) \<and> truthy (tgi_targetExecutable i) \<and>
     list_all (kind_passed results) required"

lemma gate_verdict_tradable:
  "fst (gate_verdict i (filter (\<lambda>k. \<not> kind_passed results k) required) p) = Tv_TRADABLE \<longleftrightarrow> base_tradable i required results"
  by (auto simp: gate_verdict_def base_tradable_def filter_empty_conv list_all_iff)

lemma confirmation_of:
  "tradabilityBlocksConfirmedOpportunity label (U_string (tradability_verdict_text v)) =
     bindE (optional_class label) (\<lambda>l. Inr \<lparr>cr_confirmedOpportunity = (v = Tv_TRADABLE),
       cr_blockReason = (if v = Tv_TRADABLE then None else Some v), cr_preservedSignalLabel = l\<rparr>)"
proof -
  have "tradabilityVerdict (U_string (tradability_verdict_text v)) = Inr v"
    unfolding tradabilityVerdict_def by (simp add: tradabilityverdict_ev.parse_iff)
  then show ?thesis by (simp add: tradabilityBlocksConfirmedOpportunity_def Let_def)
qed

lemma optional_class_label:
  "optional_class (if nullish v then U_null else v) = Inr label \<longleftrightarrow>
     (case label of None \<Rightarrow> nullish v | Some c \<Rightarrow> v = U_string (outcome_class_text c))"
proof -
  have "outcomeClass v = Inr c \<longleftrightarrow> v = U_string (outcome_class_text c)" for c
    unfolding outcomeClass_def by (rule outcomeclass_ev.parse_iff)
  then show ?thesis by (auto simp: optional_class_def nullish_def bindE_eq_Inr split: option.splits)
qed

definition delays_pass :: "stress_scenario_kind list option \<Rightarrow> (stress_scenario_kind \<times> bool) list \<Rightarrow> bool" where
  "delays_pass delays results = (case delays of None \<Rightarrow> True | Some ks \<Rightarrow> list_all (kind_passed results) ks)"

text \<open>The gate on well-formed input, and that it returns on no other.\<close>

lemma gate_run:
  assumes "gate_evidence i required results label delays"
  obtains r where "evaluateTradabilityGate (Some i) = Inr r"
    and "tgr_kindResults r = map (\<lambda>k. (k, kind_passed results k)) required"
    and "tgr_failedKinds r = filter (\<lambda>k. \<not> kind_passed results k) required"
    and "tgr_verdict r = Tv_TRADABLE \<longleftrightarrow> base_tradable i required results \<and> delays_pass delays results"
    and "tgr_confirmedOpportunity r \<longleftrightarrow> base_tradable i required results"
    and "tgr_blockReason r = None \<longleftrightarrow> base_tradable i required results"
    and "tgr_preservedSignalLabel r = label"
proof -
  let ?failed = "filter (\<lambda>k. \<not> kind_passed results k) required"
  let ?p = "kind_passed results Str_CONSERVATIVE_LATENCY_ADVERSE_SELECTION"
  obtain v f where vf: "gate_verdict i ?failed ?p = (v, f)" by (metis surj_pair)
  have v: "v = Tv_TRADABLE \<longleftrightarrow> base_tradable i required results" using gate_verdict_tradable [of i results required ?p] vf by simp
  have sl: "optional_class (if nullish (tgi_signalLabel i) then U_null else tgi_signalLabel i) = Inr label"
    "\<not> nullish (tgi_signalLabel i) \<Longrightarrow> is_string (tgi_signalLabel i)"
    using assms by (auto simp: optional_class_label gate_evidence_def is_string_def split: option.splits)
  have kinds: "map_rows (map kind_text_value ks) requireKind = Inr ks" for ks by (simp add: map_rows_kinds)
  have rows: "map_rows (map recorded results) check_result = Inr results" by (simp add: map_rows_results)
  have strings: "\<not> list_ex (\<lambda>k. \<not> is_string k) (map kind_text_value required)" by (simp add: list_ex_iff is_string_def)
  have guards: "refuse (\<not> non_empty_string (tgi_candidateId i)) EXEC_CONFIRMATION_INPUT_INVALID = Inr ()"
    "refuse (\<not> non_empty_string (tgi_conservativeStressPolicyId i)) EXEC_CONFIRMATION_INPUT_INVALID = Inr ()"
    "refuse (\<not> nullish (tgi_signalLabel i) \<and> \<not> is_string (tgi_signalLabel i)) EXEC_CONFIRMATION_INPUT_INVALID = Inr ()"
    using assms sl(2) by (auto simp: gate_evidence_def)
  have in': "tgi_requiredKinds i = Some (map kind_text_value required)" "required \<noteq> []" "tgi_results i = Some (map recorded results)"
    "tgi_requiresDelayKinds i = map_option (map kind_text_value) delays" "delays \<noteq> Some []"
    using assms by (simp_all add: gate_evidence_def)
  have "\<exists>fv fr. evaluateTradabilityGate (Some i) = Inr
      \<lparr>tgr_candidateId = tgi_candidateId i, tgr_verdict = fv, tgr_blockReason = (if v = Tv_TRADABLE then None else Some v),
       tgr_preservedSignalLabel = label, tgr_kindResults = map (\<lambda>k. (k, kind_passed results k)) required,
       tgr_confirmedOpportunity = (v = Tv_TRADABLE), tgr_failedKinds = ?failed, tgr_refusal = fr\<rparr> \<and>
      (fv = Tv_TRADABLE \<longleftrightarrow> v = Tv_TRADABLE \<and> delays_pass delays results)"
  proof (cases delays)
    case None
    then show ?thesis using in'
      by (simp add: evaluateTradabilityGate_def gate_matrix_def gate_decide_def guards in' strings rows kinds Let_def vf confirmation_of sl(1) delays_pass_def del: refuse_eq_Inr)
  next
    case (Some ks)
    then show ?thesis using in'
      by (auto simp: evaluateTradabilityGate_def gate_matrix_def gate_decide_def guards in' strings rows kinds Let_def vf confirmation_of sl(1) delays_pass_def
          delay_gate_kinds simp del: refuse_eq_Inr)
  qed
  then obtain fv fr where run: "evaluateTradabilityGate (Some i) = Inr
      \<lparr>tgr_candidateId = tgi_candidateId i, tgr_verdict = fv, tgr_blockReason = (if v = Tv_TRADABLE then None else Some v),
       tgr_preservedSignalLabel = label, tgr_kindResults = map (\<lambda>k. (k, kind_passed results k)) required,
       tgr_confirmedOpportunity = (v = Tv_TRADABLE), tgr_failedKinds = ?failed, tgr_refusal = fr\<rparr>"
    "fv = Tv_TRADABLE \<longleftrightarrow> v = Tv_TRADABLE \<and> delays_pass delays results" by blast
  show thesis by (rule that [OF run(1)]) (use run(2) v in simp_all)
qed

lemma gate_evidence_of:
  assumes "evaluateTradabilityGate (Some i) = Inr r"
  shows "\<exists>required results label delays. gate_evidence i required results label delays"
proof -
  obtain results required where m: "gate_matrix i = Inr (results, required)" and dec: "gate_decide i results required = Inr r"
    using assms by (auto simp: evaluateTradabilityGate_def bindE_eq_Inr)
  have k: "tgi_requiredKinds i = Some (map kind_text_value required)" "required \<noteq> []" and r: "tgi_results i = Some (map recorded results)"
      and n: "non_empty_string (tgi_candidateId i)" "non_empty_string (tgi_conservativeStressPolicyId i)"
    using m by (auto simp: gate_matrix_def bindE_eq_Inr map_rows_kinds map_rows_results split: option.splits if_splits)
  obtain label where l: "optional_class (if nullish (tgi_signalLabel i) then U_null else tgi_signalLabel i) = Inr label"
    using dec unfolding gate_decide_def Let_def confirmation_of split_beta bindE_eq_Inr by blast
  have d: "\<exists>g. delay_gate results kinds = Inr g" if given: "tgi_requiresDelayKinds i = Some kinds" for kinds
    using dec unfolding gate_decide_def Let_def given option.case confirmation_of split_beta bindE_eq_Inr by blast
  obtain delays where "tgi_requiresDelayKinds i = map_option (map kind_text_value) delays" "delays \<noteq> Some []"
  proof (cases "tgi_requiresDelayKinds i")
    case None
    then show thesis by (intro that [of None]) simp_all
  next
    case (Some kinds)
    then obtain g where g: "delay_gate results kinds = Inr g" using d by blast
    then obtain ks where ks: "kinds = map kind_text_value ks" by (auto simp: delay_gate_def bindE_eq_Inr map_rows_kinds)
    then have "ks \<noteq> []" using g by (auto simp: delay_gate_kinds)
    then show thesis using Some ks by (intro that [of "Some ks"]) simp_all
  qed
  then have "gate_evidence i required results label delays"
    using k r n l unfolding gate_evidence_def optional_class_label by auto
  then show ?thesis by blast
qed

text \<open>An input on which a delay kind fails that no required kind covers.\<close>

definition sample_gate :: gate_input where
  "sample_gate =
     \<lparr>tgi_candidateId = U_string ''c1'', tgi_requiredKinds = Some [kind_text_value Str_BASE_CASE],
      tgi_conservativeStressPolicyId = U_string ''policy'',
      tgi_results = Some [recorded (Str_BASE_CASE, True), recorded (Str_P90_DELAY, False)],
      tgi_targetExecutable = U_bool True, tgi_uncertaintyBlocked = U_bool False, tgi_stateComplete = U_bool True,
      tgi_signalLabel = U_null, tgi_requiresDelayKinds = Some [kind_text_value Str_P90_DELAY]\<rparr>"

text \<open>
  C24 (tradability_gate_exact). The gate returns exactly on well-formed input. Its verdict is tradable
  exactly when state is complete, uncertainty does not block, the target is executable, every
  required kind has a recorded pass (the first record of a kind counts, a missing one fails), and
  every delay kind the profile declares has one too; the failed kinds are listed and the signal
  label is kept. Confirmation, however, is decided before the delay kinds are looked at: it ignores
  them, so that an input exists whose verdict is not tradable and whose opportunity is confirmed.
\<close>

theorem tradability_gate_exact:
  "(case evaluateTradabilityGate (Some i) of
      Inl e \<Rightarrow> \<not> (\<exists>required results label delays. gate_evidence i required results label delays)
    | Inr r \<Rightarrow>
        \<exists>required results label delays.
          gate_evidence i required results label delays \<and>
          tgr_kindResults r = map (\<lambda>k. (k, kind_passed results k)) required \<and>
          tgr_failedKinds r = filter (\<lambda>k. \<not> kind_passed results k) required \<and>
          tgr_preservedSignalLabel r = label \<and>
          (tgr_verdict r = Tv_TRADABLE \<longleftrightarrow> base_tradable i required results \<and> delays_pass delays results) \<and>
          (tgr_confirmedOpportunity r \<longleftrightarrow> base_tradable i required results) \<and>
          (tgr_blockReason r = None \<longleftrightarrow> tgr_confirmedOpportunity r)) \<and>
   (\<exists>r. evaluateTradabilityGate (Some sample_gate) = Inr r \<and> tgr_verdict r \<noteq> Tv_TRADABLE \<and> tgr_confirmedOpportunity r)"
proof
  show "case evaluateTradabilityGate (Some i) of
      Inl e \<Rightarrow> \<not> (\<exists>required results label delays. gate_evidence i required results label delays)
    | Inr r \<Rightarrow>
        \<exists>required results label delays.
          gate_evidence i required results label delays \<and>
          tgr_kindResults r = map (\<lambda>k. (k, kind_passed results k)) required \<and>
          tgr_failedKinds r = filter (\<lambda>k. \<not> kind_passed results k) required \<and>
          tgr_preservedSignalLabel r = label \<and>
          (tgr_verdict r = Tv_TRADABLE \<longleftrightarrow> base_tradable i required results \<and> delays_pass delays results) \<and>
          (tgr_confirmedOpportunity r \<longleftrightarrow> base_tradable i required results) \<and>
          (tgr_blockReason r = None \<longleftrightarrow> tgr_confirmedOpportunity r)"
  proof (cases "evaluateTradabilityGate (Some i)")
    case (Inl e)
    then show ?thesis by (auto elim: gate_run)
  next
    case (Inr r)
    then obtain required results label delays where ev: "gate_evidence i required results label delays" using gate_evidence_of by blast
    then obtain r' where "evaluateTradabilityGate (Some i) = Inr r'" "tgr_kindResults r' = map (\<lambda>k. (k, kind_passed results k)) required"
      "tgr_failedKinds r' = filter (\<lambda>k. \<not> kind_passed results k) required"
      "tgr_verdict r' = Tv_TRADABLE \<longleftrightarrow> base_tradable i required results \<and> delays_pass delays results"
      "tgr_confirmedOpportunity r' \<longleftrightarrow> base_tradable i required results" "tgr_blockReason r' = None \<longleftrightarrow> base_tradable i required results"
      "tgr_preservedSignalLabel r' = label" by (rule gate_run)
    then show ?thesis unfolding Inr sum.case using ev Inr by (intro exI conjI) auto
  qed
  have "gate_evidence sample_gate [Str_BASE_CASE] [(Str_BASE_CASE, True), (Str_P90_DELAY, False)] None (Some [Str_P90_DELAY])"
    by (simp add: gate_evidence_def sample_gate_def non_empty_string_def nullish_def)
  then obtain r where "evaluateTradabilityGate (Some sample_gate) = Inr r"
    "tgr_verdict r = Tv_TRADABLE \<longleftrightarrow> base_tradable sample_gate [Str_BASE_CASE] [(Str_BASE_CASE, True), (Str_P90_DELAY, False)] \<and>
       delays_pass (Some [Str_P90_DELAY]) [(Str_BASE_CASE, True), (Str_P90_DELAY, False)]"
    "tgr_confirmedOpportunity r \<longleftrightarrow> base_tradable sample_gate [Str_BASE_CASE] [(Str_BASE_CASE, True), (Str_P90_DELAY, False)]"
    by (rule gate_run)
  then show "\<exists>r. evaluateTradabilityGate (Some sample_gate) = Inr r \<and> tgr_verdict r \<noteq> Tv_TRADABLE \<and> tgr_confirmedOpportunity r"
    by (auto simp: base_tradable_def sample_gate_def truthy_def kind_passed_def delays_pass_def)
qed

end
