(* ===== verification/StressMatrix.thy ===== *)
theory StressMatrix
  imports TradabilityGate
begin

text \<open>
  The stress pass matrix (packages/execution-simulator/src/stress.ts): the validation of
  the evaluated kinds, the kinds that are missing or failed, the refusal of an optimistic-only
  candidate, and the delay robustness of a built matrix.
\<close>

section \<open>Conservative assumptions\<close>

record conservative_assumptions =
  cas_policyId :: js_unknown
  cas_policyVersion :: js_unknown
  cas_addedQuoteLatencySeconds :: js_unknown
  cas_adverseSelectionMevBufferFraction :: js_unknown
  cas_feeVolatilityMultiplier :: js_unknown
  cas_liquidityDeteriorationFraction :: js_unknown

definition validateAssumptions :: "conservative_assumptions option \<Rightarrow> unit res" where
  "validateAssumptions arg =
     (case arg of
        None \<Rightarrow> Inl (ExecVocabularyError EXEC_LABEL_CLAUSES_INVALID)
      | Some a \<Rightarrow>
          bindE (refuse (\<not> non_empty_string (cas_policyId a) \<or> \<not> non_empty_string (cas_policyVersion a)) EXEC_LABEL_CLAUSES_INVALID) (\<lambda>_.
          bindE (refuse (case integer_number (cas_addedQuoteLatencySeconds a) of None \<Rightarrow> True | Some n \<Rightarrow> n < 0) EXEC_LABEL_CLAUSES_INVALID) (\<lambda>_.
          bindE (requireFraction (cas_adverseSelectionMevBufferFraction a)) (\<lambda>_.
          bindE (requireFraction (cas_liquidityDeteriorationFraction a)) (\<lambda>_.
          refuse (case finite_number (cas_feeVolatilityMultiplier a) of None \<Rightarrow> True | Some m \<Rightarrow> m < 1) EXEC_LABEL_CLAUSES_INVALID)))))"

text \<open>Assumptions that pass can only make an outcome worse: they add latency, buffers and fees and remove depth.\<close>

lemma assumptions_conservative:
  assumes "validateAssumptions (Some a) = Inr ()"
  obtains n b d m where "integer_number (cas_addedQuoteLatencySeconds a) = Some n" "0 \<le> n"
    "cas_adverseSelectionMevBufferFraction a = U_number (Fin b)" "0 \<le> b" "b \<le> 1"
    "cas_liquidityDeteriorationFraction a = U_number (Fin d)" "0 \<le> d" "d \<le> 1"
    "cas_feeVolatilityMultiplier a = U_number (Fin m)" "1 \<le> m"
  using assms unfolding validateAssumptions_def option.case
  by (auto simp: bindE_eq_Inr requireFraction_Inr finite_number_Some not_less split: option.splits)

section \<open>The matrix\<close>

record stress_evaluation =
  sev_stressKind :: js_unknown
  sev_status :: exec_status
  sev_netReturnUsd :: js_unknown
  sev_fillFraction :: js_unknown
  sev_passed :: js_unknown

text \<open>An evaluation after its validation.\<close>

record valid_evaluation =
  pev_stressKind :: stress_scenario_kind
  pev_status :: exec_status
  pev_netReturnUsd :: string
  pev_fillFraction :: rat
  pev_passed :: bool

record stress_result =
  ssr_scenarioId :: js_unknown
  ssr_scenarioVersion :: js_unknown
  ssr_stressKind :: stress_scenario_kind
  ssr_status :: exec_status
  ssr_netReturn :: net_return_breakdown
  ssr_fillFraction :: rat
  ssr_passed :: bool
  ssr_assumptionsHash :: string

record build_matrix_input =
  bmi_matrixId :: js_unknown
  bmi_candidateId :: js_unknown
  bmi_outcomeProfileVersion :: js_unknown
  bmi_scenarioId :: js_unknown
  bmi_scenarioVersion :: js_unknown
  bmi_conservativeStressPolicyId :: js_unknown
  bmi_requiredKinds :: "js_unknown list option"
  bmi_evaluations :: "stress_evaluation option list option"
  bmi_assumptionsHash :: string
  bmi_evaluatedAt :: string
  bmi_confirmedOpportunityCandidate :: bool

record pass_matrix =
  mtx_matrixId :: js_unknown
  mtx_candidateId :: js_unknown
  mtx_outcomeProfileVersion :: js_unknown
  mtx_requiredKinds :: "stress_scenario_kind list"
  mtx_results :: "stress_result list"
  mtx_conservativeStressPolicyId :: js_unknown
  mtx_evaluatedAt :: string

record build_matrix_result =
  bmr_matrix :: pass_matrix
  bmr_missingKinds :: "stress_scenario_kind list"
  bmr_satisfiesMatrix :: bool
  bmr_refusal :: "string option"

definition signed_text :: "js_unknown \<Rightarrow> string res" where
  "signed_text v =
     (case v of
        U_string s \<Rightarrow> if SIGNED_DECIMAL s then Inr s else Inl (ExecVocabularyError EXEC_LABEL_CLAUSES_INVALID)
      | _ \<Rightarrow> Inl (ExecVocabularyError EXEC_LABEL_CLAUSES_INVALID))"

definition check_evaluation :: "stress_evaluation option \<Rightarrow> valid_evaluation res" where
  "check_evaluation e =
     (case e of
        None \<Rightarrow> Inl (ExecVocabularyError EXEC_LABEL_CLAUSES_INVALID)
      | Some evaluation \<Rightarrow>
          bindE (requireKind (sev_stressKind evaluation)) (\<lambda>kind.
          bindE (parseStrictBoolean (sev_passed evaluation) EXEC_LABEL_CLAUSES_INVALID) (\<lambda>passed.
          bindE (signed_text (sev_netReturnUsd evaluation)) (\<lambda>net.
          bindE (requireFraction (sev_fillFraction evaluation)) (\<lambda>fillFraction.
          Inr \<lparr>pev_stressKind = kind, pev_status = sev_status evaluation, pev_netReturnUsd = net,
               pev_fillFraction = fillFraction, pev_passed = passed\<rparr>)))))"

fun check_evaluations :: "stress_scenario_kind list \<Rightarrow> stress_evaluation option list \<Rightarrow> valid_evaluation list res" where
  "check_evaluations seenKinds [] = Inr []"
| "check_evaluations seenKinds (e # es) =
     bindE (check_evaluation e) (\<lambda>v.
     if pev_stressKind v \<in> set seenKinds then Inl (ExecVocabularyError EXEC_LABEL_CLAUSES_INVALID)
     else bindE (check_evaluations (pev_stressKind v # seenKinds) es) (\<lambda>vs. Inr (v # vs)))"

text \<open>The record of an evaluation: gross and net are the text given, and every leg is zero.\<close>

definition matrix_breakdown :: "string \<Rightarrow> net_return_breakdown" where
  "matrix_breakdown net =
     \<lparr>ni_grossReturnUsd = U_string net, ni_legs = (\<lambda>_. U_string ''0''), ni_qualityCodes = [U_string ''VALID''],
      nb_netReturnUsd = U_string net\<rparr>"

definition matrix_result :: "build_matrix_input \<Rightarrow> valid_evaluation \<Rightarrow> stress_result" where
  "matrix_result input v =
     \<lparr>ssr_scenarioId = bmi_scenarioId input, ssr_scenarioVersion = bmi_scenarioVersion input, ssr_stressKind = pev_stressKind v,
      ssr_status = pev_status v, ssr_netReturn = matrix_breakdown (pev_netReturnUsd v), ssr_fillFraction = pev_fillFraction v,
      ssr_passed = pev_passed v, ssr_assumptionsHash = bmi_assumptionsHash input\<rparr>"

definition result_passed :: "stress_result list \<Rightarrow> stress_scenario_kind \<Rightarrow> bool" where
  "result_passed results kind =
     (case find (\<lambda>r. ssr_stressKind r = kind) results of None \<Rightarrow> False | Some r \<Rightarrow> ssr_passed r)"

definition buildScenarioPassMatrix :: "build_matrix_input option \<Rightarrow> build_matrix_result res" where
  "buildScenarioPassMatrix arg =
     (case arg of
        None \<Rightarrow> Inl (ExecVocabularyError EXEC_LABEL_CLAUSES_INVALID)
      | Some input \<Rightarrow>
          bindE (refuse (list_ex (\<lambda>v. \<not> non_empty_string v)
                   [bmi_matrixId input, bmi_candidateId input, bmi_outcomeProfileVersion input, bmi_scenarioId input,
                    bmi_scenarioVersion input, bmi_conservativeStressPolicyId input]) EXEC_LABEL_CLAUSES_INVALID) (\<lambda>_.
          bindE (refuse (\<not> ISO_Z (bmi_evaluatedAt input)) EXEC_LABEL_CLAUSES_INVALID) (\<lambda>_.
          bindE (case bmi_requiredKinds input of
                   None \<Rightarrow> Inl (ExecVocabularyError EXEC_LABEL_CLAUSES_INVALID)
                 | Some ks \<Rightarrow> if ks = [] then Inl (ExecVocabularyError EXEC_LABEL_CLAUSES_INVALID) else map_rows ks requireKind) (\<lambda>requiredKinds.
          bindE (case bmi_evaluations input of
                   None \<Rightarrow> Inl (ExecVocabularyError EXEC_LABEL_CLAUSES_INVALID)
                 | Some es \<Rightarrow> check_evaluations [] es) (\<lambda>evaluations.
          let results = map (matrix_result input) evaluations;
              seenKinds = set (map pev_stressKind evaluations);
              missingKinds = filter (\<lambda>k. k \<notin> seenKinds) ALL_STRESS_SCENARIO_KINDS;
              failedKinds = filter (\<lambda>k. \<not> result_passed results k) requiredKinds;
              refusal = (if missingKinds \<noteq> [] then Some ''REQUIRED_STRESS_KINDS_NOT_RECORDED'' else None);
              refusal = (if bmi_confirmedOpportunityCandidate input \<and>
                            Str_CONSERVATIVE_LATENCY_ADVERSE_SELECTION \<in> set requiredKinds \<and>
                            Str_CONSERVATIVE_LATENCY_ADVERSE_SELECTION \<in> set failedKinds
                         then Some ''FAILS_CONSERVATIVE_STRESS_SCENARIOS'' else refusal)
          in Inr \<lparr>bmr_matrix =
                    \<lparr>mtx_matrixId = bmi_matrixId input, mtx_candidateId = bmi_candidateId input,
                     mtx_outcomeProfileVersion = bmi_outcomeProfileVersion input, mtx_requiredKinds = requiredKinds, mtx_results = results,
                     mtx_conservativeStressPolicyId = bmi_conservativeStressPolicyId input, mtx_evaluatedAt = bmi_evaluatedAt input\<rparr>,
                  bmr_missingKinds = missingKinds, bmr_satisfiesMatrix = (missingKinds = [] \<and> failedKinds = []), bmr_refusal = refusal\<rparr>)))))"

definition delayRobustnessOf :: "pass_matrix \<Rightarrow> js_unknown list \<Rightarrow> delay_gate_result res" where
  "delayRobustnessOf matrix requiredDelayKinds =
     bindE (map_rows requiredDelayKinds requireKind) (\<lambda>kinds.
     if kinds = [] then Inl (ExecVocabularyError EXEC_DELAY_GATE_INPUT_INVALID)
     else robustDelayGate \<lparr>dg_profileRequires = map kind_text_value kinds,
            dg_results = map (\<lambda>k. (stress_scenario_kind_text k, U_bool (result_passed (mtx_results matrix) k))) kinds\<rparr>)"

section \<open>What a matrix records\<close>

definition evaluated :: "valid_evaluation \<Rightarrow> stress_evaluation option" where
  "evaluated v = Some \<lparr>sev_stressKind = kind_text_value (pev_stressKind v), sev_status = pev_status v,
     sev_netReturnUsd = U_string (pev_netReturnUsd v), sev_fillFraction = U_number (Fin (pev_fillFraction v)), sev_passed = U_bool (pev_passed v)\<rparr>"

definition valid_values :: "valid_evaluation \<Rightarrow> bool" where
  "valid_values v \<longleftrightarrow> SIGNED_DECIMAL (pev_netReturnUsd v) \<and> 0 \<le> pev_fillFraction v \<and> pev_fillFraction v \<le> 1"

lemma signed_text_Inr: "signed_text v = Inr s \<longleftrightarrow> v = U_string s \<and> SIGNED_DECIMAL s"
  by (auto simp: signed_text_def split: js_unknown.splits)

lemma check_evaluation_Inr: "check_evaluation e = Inr v \<longleftrightarrow> e = evaluated v \<and> valid_values v"
  by (cases e; cases v; cases "the e")
    (auto simp: check_evaluation_def evaluated_def valid_values_def bindE_eq_Inr requireKind_Inr parseStrictBoolean_Inr
      signed_text_Inr requireFraction_Inr)

lemma check_evaluations_Inr:
  "check_evaluations seen es = Inr vs \<longleftrightarrow>
     es = map evaluated vs \<and> list_all valid_values vs \<and> distinct (map pev_stressKind vs) \<and> set seen \<inter> pev_stressKind ` set vs = {}"
proof (induction es arbitrary: seen vs)
  case (Cons e es)
  show ?case
  proof (cases vs)
    case Nil
    then show ?thesis by (auto simp: bindE_eq_Inr)
  next
    case (Cons v ws)
    then show ?thesis using Cons.IH [of "pev_stressKind v # seen" ws] by (auto simp: bindE_eq_Inr check_evaluation_Inr)
  qed
qed auto

lemma find_result:
  assumes "distinct (map pev_stressKind vs)"
  shows "result_passed (map (matrix_result i) vs) k \<longleftrightarrow> (\<exists>v \<in> set vs. pev_stressKind v = k \<and> pev_passed v)"
  using assms by (induction vs) (auto simp: result_passed_def matrix_result_def image_iff)

text \<open>What a well-formed input says.\<close>

definition matrix_evidence :: "build_matrix_input \<Rightarrow> stress_scenario_kind list \<Rightarrow> valid_evaluation list \<Rightarrow> bool" where
  "matrix_evidence i required vs \<longleftrightarrow>
     list_all non_empty_string [bmi_matrixId i, bmi_candidateId i, bmi_outcomeProfileVersion i, bmi_scenarioId i,
       bmi_scenarioVersion i, bmi_conservativeStressPolicyId i] \<and> ISO_Z (bmi_evaluatedAt i) \<and>
     bmi_requiredKinds i = Some (map kind_text_value required) \<and> required \<noteq> [] \<and>
     bmi_evaluations i = Some (map evaluated vs) \<and> list_all valid_values vs \<and> distinct (map pev_stressKind vs)"

definition evaluated_pass :: "valid_evaluation list \<Rightarrow> stress_scenario_kind \<Rightarrow> bool" where
  "evaluated_pass vs k \<longleftrightarrow> (\<exists>v \<in> set vs. pev_stressKind v = k \<and> pev_passed v)"

lemma all_kinds: "k \<in> set ALL_STRESS_SCENARIO_KINDS"
  by (cases k) (simp_all add: ALL_STRESS_SCENARIO_KINDS_def)

lemma matrix_run:
  assumes "matrix_evidence i required vs"
  obtains r where "buildScenarioPassMatrix (Some i) = Inr r"
    and "mtx_results (bmr_matrix r) = map (matrix_result i) vs" and "mtx_requiredKinds (bmr_matrix r) = required"
    and "set (bmr_missingKinds r) = - set (map pev_stressKind vs)"
    and "bmr_satisfiesMatrix r \<longleftrightarrow> set (map pev_stressKind vs) = UNIV \<and> list_all (evaluated_pass vs) required"
    and "bmr_refusal r = (if bmi_confirmedOpportunityCandidate i \<and> Str_CONSERVATIVE_LATENCY_ADVERSE_SELECTION \<in> set required \<and>
            \<not> evaluated_pass vs Str_CONSERVATIVE_LATENCY_ADVERSE_SELECTION then Some ''FAILS_CONSERVATIVE_STRESS_SCENARIOS''
          else if set (map pev_stressKind vs) = UNIV then None else Some ''REQUIRED_STRESS_KINDS_NOT_RECORDED'')"
proof -
  have e: "list_ex (\<lambda>v. \<not> non_empty_string v) xs \<longleftrightarrow> \<not> list_all non_empty_string xs" for xs by (auto simp: list_ex_iff list_all_iff)
  have i: "list_all non_empty_string [bmi_matrixId i, bmi_candidateId i, bmi_outcomeProfileVersion i, bmi_scenarioId i,
       bmi_scenarioVersion i, bmi_conservativeStressPolicyId i] = True" "ISO_Z (bmi_evaluatedAt i) = True"
     "bmi_requiredKinds i = Some (map kind_text_value required)" "required \<noteq> []"
     "bmi_evaluations i = Some (map evaluated vs)" and d: "distinct (map pev_stressKind vs)"
    using assms unfolding matrix_evidence_def by blast+
  have kinds: "map_rows (map kind_text_value required) requireKind = Inr required" by (simp add: map_rows_kinds)
  have evs: "check_evaluations [] (map evaluated vs) = Inr vs" using assms by (simp add: check_evaluations_Inr matrix_evidence_def)
  let ?seen = "set (map pev_stressKind vs)"
  have miss: "filter (\<lambda>k. k \<notin> ?seen) ALL_STRESS_SCENARIO_KINDS = [] \<longleftrightarrow> ?seen = UNIV"
    using all_kinds by (auto simp: filter_empty_conv)
  have pass: "result_passed (map (matrix_result i) vs) = evaluated_pass vs"
    using find_result [OF d] by (auto simp: evaluated_pass_def fun_eq_iff)
  have empty: "filter (\<lambda>k. \<not> evaluated_pass vs k) required = [] \<longleftrightarrow> list_all (evaluated_pass vs) required"
    by (auto simp: filter_empty_conv list_all_iff)
  define r where "r = \<lparr>bmr_matrix = \<lparr>mtx_matrixId = bmi_matrixId i, mtx_candidateId = bmi_candidateId i,
      mtx_outcomeProfileVersion = bmi_outcomeProfileVersion i, mtx_requiredKinds = required, mtx_results = map (matrix_result i) vs,
      mtx_conservativeStressPolicyId = bmi_conservativeStressPolicyId i, mtx_evaluatedAt = bmi_evaluatedAt i\<rparr>,
    bmr_missingKinds = filter (\<lambda>k. k \<notin> ?seen) ALL_STRESS_SCENARIO_KINDS,
    bmr_satisfiesMatrix = (?seen = UNIV \<and> list_all (evaluated_pass vs) required),
    bmr_refusal = (if bmi_confirmedOpportunityCandidate i \<and> Str_CONSERVATIVE_LATENCY_ADVERSE_SELECTION \<in> set required \<and>
            \<not> evaluated_pass vs Str_CONSERVATIVE_LATENCY_ADVERSE_SELECTION then Some ''FAILS_CONSERVATIVE_STRESS_SCENARIOS''
          else if ?seen = UNIV then None else Some ''REQUIRED_STRESS_KINDS_NOT_RECORDED'')\<rparr>"
  have "buildScenarioPassMatrix (Some i) = Inr r"
    unfolding buildScenarioPassMatrix_def option.case e i not_True_eq_False refuse_False bindE_Inr kinds evs Let_def miss pass empty r_def
    using i(4) by (auto simp: kinds filter_empty_conv list_all_iff)
  then show thesis
  proof (rule that)
    show "set (bmr_missingKinds r) = - ?seen" using all_kinds by (auto simp: r_def)
  qed (simp_all add: r_def)
qed

lemma matrix_evidence_of:
  assumes "buildScenarioPassMatrix (Some i) = Inr r"
  shows "\<exists>required vs. matrix_evidence i required vs"
proof -
  have e: "list_ex (\<lambda>v. \<not> non_empty_string v) xs \<longleftrightarrow> \<not> list_all non_empty_string xs" for xs by (auto simp: list_ex_iff list_all_iff)
  show ?thesis using assms unfolding buildScenarioPassMatrix_def e matrix_evidence_def
    by (auto simp: bindE_eq_Inr map_rows_kinds check_evaluations_Inr Let_def split: option.splits if_splits)
qed

lemma delayRobustnessOf_kinds:
  "delayRobustnessOf matrix (map kind_text_value ks) =
     (if ks = [] then Inl (ExecVocabularyError EXEC_DELAY_GATE_INPUT_INVALID)
      else Inr \<lparr>dr_robust = list_all (result_passed (mtx_results matrix)) ks,
                dr_failures = filter (\<lambda>k. \<not> result_passed (mtx_results matrix) k) ks\<rparr>)"
  using map_rows_kinds [of "map kind_text_value ks" ks] delay_failures_kinds [OF order_refl, where passed = "result_passed (mtx_results matrix)"]
  by (simp add: delayRobustnessOf_def robustDelayGate_def filter_empty_conv list_all_iff)

text \<open>The recorded breakdown passes the consistency check only when its text is the normal one.\<close>

lemma matrix_breakdown_consistent:
  assumes "SIGNED_DECIMAL net"
  shows "netReturnConsistent (matrix_breakdown net) \<longleftrightarrow> normal_decimal net"
proof -
  have z: "NON_NEGATIVE_DECIMAL ''0''" "dec_value ''0'' = 0"
    by (simp_all add: NON_NEGATIVE_DECIMAL_def digit_def Let_def dec_value_def unsigned_part_def integer_part_def fractional_part_def num_text_def)
  have v: "valid_net_input (matrix_breakdown net)" using assms z(1)
    by (simp add: valid_net_input_def matrix_breakdown_def isQualityCode_def ALL_QUALITY_CODES_def)
  have "net_value (matrix_breakdown net) = dec_value net" using z(2)
    by (simp add: net_value_def usd_def matrix_breakdown_def sum_list_triv)
  then show ?thesis using v by (auto simp: netReturnConsistent_iff matrix_breakdown_def)
qed

definition sample_evaluation :: "stress_scenario_kind \<Rightarrow> bool \<Rightarrow> valid_evaluation" where
  "sample_evaluation k passed =
     \<lparr>pev_stressKind = k, pev_status = Ex_EXECUTED_FULL, pev_netReturnUsd = ''1'', pev_fillFraction = 1, pev_passed = passed\<rparr>"

definition sample_matrix :: build_matrix_input where
  "sample_matrix =
     \<lparr>bmi_matrixId = U_string ''m'', bmi_candidateId = U_string ''c'', bmi_outcomeProfileVersion = U_string ''1'',
      bmi_scenarioId = U_string ''s'', bmi_scenarioVersion = U_string ''1'', bmi_conservativeStressPolicyId = U_string ''p'',
      bmi_requiredKinds = Some [kind_text_value Str_BASE_CASE],
      bmi_evaluations = Some (map (\<lambda>k. evaluated (sample_evaluation k (k = Str_BASE_CASE))) ALL_STRESS_SCENARIO_KINDS),
      bmi_assumptionsHash = ''h'', bmi_evaluatedAt = ''2026-01-03T00:00:00Z'', bmi_confirmedOpportunityCandidate = True\<rparr>"

text \<open>
  C34 (stress_matrix_exact). A matrix is built exactly from well-formed input with no kind evaluated
  twice; it records every evaluation, failures included, and it is satisfied exactly when all eight
  kinds were evaluated and every required one passed. A confirmed-opportunity candidate is refused
  when the conservative kind is required and did not pass. It is not when the profile does not
  require that kind: an input exists with all other kinds failed that satisfies the matrix unrefused.
\<close>

theorem stress_matrix_exact:
  "(case buildScenarioPassMatrix (Some i) of
      Inl e \<Rightarrow> \<not> (\<exists>required vs. matrix_evidence i required vs)
    | Inr r \<Rightarrow>
        \<exists>required vs.
          matrix_evidence i required vs \<and> mtx_requiredKinds (bmr_matrix r) = required \<and>
          mtx_results (bmr_matrix r) = map (matrix_result i) vs \<and>
          set (bmr_missingKinds r) = - set (map pev_stressKind vs) \<and>
          (bmr_satisfiesMatrix r \<longleftrightarrow> set (map pev_stressKind vs) = UNIV \<and> list_all (evaluated_pass vs) required) \<and>
          (bmr_refusal r = Some ''FAILS_CONSERVATIVE_STRESS_SCENARIOS'' \<longleftrightarrow>
             bmi_confirmedOpportunityCandidate i \<and> Str_CONSERVATIVE_LATENCY_ADVERSE_SELECTION \<in> set required \<and>
             \<not> evaluated_pass vs Str_CONSERVATIVE_LATENCY_ADVERSE_SELECTION)) \<and>
   (\<exists>r. buildScenarioPassMatrix (Some sample_matrix) = Inr r \<and> bmr_satisfiesMatrix r \<and> bmr_refusal r = None \<and>
      \<not> result_passed (mtx_results (bmr_matrix r)) Str_CONSERVATIVE_LATENCY_ADVERSE_SELECTION)"
proof
  show "case buildScenarioPassMatrix (Some i) of
      Inl e \<Rightarrow> \<not> (\<exists>required vs. matrix_evidence i required vs)
    | Inr r \<Rightarrow>
        \<exists>required vs.
          matrix_evidence i required vs \<and> mtx_requiredKinds (bmr_matrix r) = required \<and>
          mtx_results (bmr_matrix r) = map (matrix_result i) vs \<and>
          set (bmr_missingKinds r) = - set (map pev_stressKind vs) \<and>
          (bmr_satisfiesMatrix r \<longleftrightarrow> set (map pev_stressKind vs) = UNIV \<and> list_all (evaluated_pass vs) required) \<and>
          (bmr_refusal r = Some ''FAILS_CONSERVATIVE_STRESS_SCENARIOS'' \<longleftrightarrow>
             bmi_confirmedOpportunityCandidate i \<and> Str_CONSERVATIVE_LATENCY_ADVERSE_SELECTION \<in> set required \<and>
             \<not> evaluated_pass vs Str_CONSERVATIVE_LATENCY_ADVERSE_SELECTION)"
  proof (cases "buildScenarioPassMatrix (Some i)")
    case (Inl e)
    then show ?thesis by (auto elim: matrix_run)
  next
    case (Inr r)
    then obtain required vs where ev: "matrix_evidence i required vs" using matrix_evidence_of by blast
    then show ?thesis unfolding Inr sum.case
      by (rule matrix_run) (intro exI [of _ required] exI [of _ vs], use ev Inr in \<open>simp split: if_splits\<close>)
  qed
  define vs where "vs = map (\<lambda>k. sample_evaluation k (k = Str_BASE_CASE)) ALL_STRESS_SCENARIO_KINDS"
  have d: "map pev_stressKind vs = ALL_STRESS_SCENARIO_KINDS" by (simp add: vs_def sample_evaluation_def comp_def)
  have ev: "matrix_evidence sample_matrix [Str_BASE_CASE] vs"
    unfolding matrix_evidence_def d
    by (auto simp: sample_matrix_def non_empty_string_def ISO_Z_sample list_all_iff valid_values_def sample_evaluation_def SIGNED_DECIMAL_def
        unsigned_part_def NON_NEGATIVE_DECIMAL_def digit_def Let_def comp_def ALL_STRESS_SCENARIO_KINDS_def vs_def)
  have all: "set (map pev_stressKind vs) = UNIV" using all_kinds d by auto
  have pass: "evaluated_pass vs k \<longleftrightarrow> k = Str_BASE_CASE" for k
    using all_kinds by (auto simp: evaluated_pass_def vs_def sample_evaluation_def)
  have "distinct (map pev_stressKind vs)" unfolding d by (simp add: ALL_STRESS_SCENARIO_KINDS_def)
  then have "\<not> result_passed (map (matrix_result sample_matrix) vs) Str_CONSERVATIVE_LATENCY_ADVERSE_SELECTION"
    using pass [of Str_CONSERVATIVE_LATENCY_ADVERSE_SELECTION] by (simp add: find_result evaluated_pass_def)
  moreover obtain r where "buildScenarioPassMatrix (Some sample_matrix) = Inr r"
      "mtx_results (bmr_matrix r) = map (matrix_result sample_matrix) vs"
      "bmr_satisfiesMatrix r \<longleftrightarrow> set (map pev_stressKind vs) = UNIV \<and> list_all (evaluated_pass vs) [Str_BASE_CASE]"
      "bmr_refusal r = (if bmi_confirmedOpportunityCandidate sample_matrix \<and> Str_CONSERVATIVE_LATENCY_ADVERSE_SELECTION \<in> set [Str_BASE_CASE] \<and>
            \<not> evaluated_pass vs Str_CONSERVATIVE_LATENCY_ADVERSE_SELECTION then Some ''FAILS_CONSERVATIVE_STRESS_SCENARIOS''
          else if set (map pev_stressKind vs) = UNIV then None else Some ''REQUIRED_STRESS_KINDS_NOT_RECORDED'')"
    using ev by (rule matrix_run)
  ultimately show "\<exists>r. buildScenarioPassMatrix (Some sample_matrix) = Inr r \<and> bmr_satisfiesMatrix r \<and> bmr_refusal r = None \<and>
      \<not> result_passed (mtx_results (bmr_matrix r)) Str_CONSERVATIVE_LATENCY_ADVERSE_SELECTION"
    unfolding all by (simp add: pass)
qed

end
