(* ===== verification/ShadowDepth.thy ===== *)
theory ShadowDepth
  imports Degradation ScheduleConfig DeadLetters "HOL-Library.Multiset"
begin

text \<open>
  Concurrent shadow positions (packages/execution-simulator/src/concurrency.ts): the positions of
  one sharing group compete for the depth before the exit, in the order of their registration ids.
  The specification is \<open>serve_depth\<close>: each takes what it asks for or what is left.
\<close>

section \<open>Requests and outcomes\<close>

record sharing_keys =
  shk_poolId :: js_unknown
  shk_routeId :: "string option"
  shk_quoteAsset :: js_unknown
  shk_liquiditySourceId :: js_unknown
  shk_deployerClusterId :: "string option"
  shk_exitWindowId :: js_unknown

record position_request =
  pq_registrationId :: js_unknown
  pq_positionId :: js_unknown
  pq_keys :: sharing_keys
  pq_requestedExitUsd :: js_unknown

text \<open>A request after its validation, and the group it belongs to.\<close>

record valid_position =
  vp_registrationId :: string
  vp_positionId :: string
  vp_requestedExitUsd :: string
  vp_key :: string

record position_outcome =
  po_registrationId :: string
  po_positionId :: string
  po_requestedExitUsd :: string
  po_filledUsd :: string
  po_fillFraction :: jsnum
  po_rejected :: bool

record shadow_aggregate =
  sag_aggregateId :: string
  sag_poolId :: string
  sag_routeId :: "string option"
  sag_sharedLiquidityIdentifiers :: "string list"
  sag_concurrentExitCount :: nat
  sag_preExitDepthUsd :: string
  sag_aggregatedRequestedExitsUsd :: string
  sag_aggregatedFillFraction :: jsnum
  sag_rejectedExitCount :: nat

record competition_result =
  cmp_aggregate :: shadow_aggregate
  cmp_outcomes :: "position_outcome list"
  cmp_depthCollisionDetected :: bool

definition sharingKeyOf :: "sharing_keys \<Rightarrow> string res" where
  "sharingKeyOf keys =
     bindE (require_non_empty (shk_poolId keys)) (\<lambda>poolId.
     bindE (require_non_empty (shk_quoteAsset keys)) (\<lambda>quoteAsset.
     bindE (require_non_empty (shk_liquiditySourceId keys)) (\<lambda>liquiditySourceId.
     bindE (require_non_empty (shk_exitWindowId keys)) (\<lambda>exitWindowId.
     let orEmpty = (\<lambda>v. case v of None \<Rightarrow> [] | Some s \<Rightarrow> s)
     in Inr (poolId @ ''|'' @ orEmpty (shk_routeId keys) @ ''|'' @ quoteAsset @ ''|'' @ liquiditySourceId @ ''|'' @
             orEmpty (shk_deployerClusterId keys) @ ''|'' @ exitWindowId)))))"

definition check_position :: "position_request option \<Rightarrow> valid_position res" where
  "check_position p =
     (case p of
        None \<Rightarrow> Inl (ExecVocabularyError EXEC_LABEL_CLAUSES_INVALID)
      | Some position \<Rightarrow>
          bindE (require_non_empty (pq_registrationId position)) (\<lambda>registrationId.
          bindE (require_non_empty (pq_positionId position)) (\<lambda>positionId.
          bindE (requireDecimal (pq_requestedExitUsd position)) (\<lambda>requestedExitUsd.
          bindE (sharingKeyOf (pq_keys position)) (\<lambda>key.
          Inr \<lparr>vp_registrationId = registrationId, vp_positionId = positionId,
               vp_requestedExitUsd = requestedExitUsd, vp_key = key\<rparr>)))))"

definition text_scale :: "string \<Rightarrow> nat" where
  "text_scale v = (if CHR ''.'' \<in> set v then length (fractional_part v) else 0)"

definition scaled :: "string \<Rightarrow> nat \<Rightarrow> int" where
  "scaled v scale =
     (let f = fractional_part v
      in int (num_text (integer_part v @ take (max scale (length f)) (f @ replicate (scale - length f) (CHR ''0'')))))"

definition unsigned_fromScaled :: "int \<Rightarrow> nat \<Rightarrow> string" where
  "unsigned_fromScaled v scale =
     (let ds = padStart (scale + 1) (digits (nat v));
          integerPart = take (length ds - scale) ds;
          fractionalPart = (if 0 < scale then strip_zeros (drop (length ds - scale) ds) else [])
      in if fractionalPart \<noteq> [] then integerPart @ ''.'' @ fractionalPart else integerPart)"

section \<open>The competition\<close>

record competition_state =
  cst_remaining :: int
  cst_outcomes :: "position_outcome list"
  cst_filledTotal :: int
  cst_requestedTotal :: int
  cst_rejectedCount :: nat
  cst_collision :: bool
  cst_priorConsumption :: int

definition serve_position :: "nat \<Rightarrow> competition_state \<Rightarrow> valid_position \<Rightarrow> competition_state" where
  "serve_position scale s p =
     (let requested = scaled (vp_requestedExitUsd p) scale;
          filled = (if requested \<le> cst_remaining s then requested else cst_remaining s)
      in \<lparr>cst_remaining = cst_remaining s - filled,
          cst_outcomes = cst_outcomes s @
            [\<lparr>po_registrationId = vp_registrationId p, po_positionId = vp_positionId p, po_requestedExitUsd = vp_requestedExitUsd p,
              po_filledUsd = unsigned_fromScaled filled scale, po_fillFraction = fill_fraction filled requested,
              po_rejected = (filled = 0 \<and> 0 < requested)\<rparr>],
          cst_filledTotal = cst_filledTotal s + filled,
          cst_requestedTotal = cst_requestedTotal s + requested,
          cst_rejectedCount = cst_rejectedCount s + (if filled < requested \<and> 0 < requested \<and> filled = 0 then 1 else 0),
          cst_collision = (cst_collision s \<or> 0 < cst_priorConsumption s \<and> 0 < requested \<and> filled < requested),
          cst_priorConsumption = cst_priorConsumption s + filled\<rparr>)"

definition competition_start :: "int \<Rightarrow> competition_state" where
  "competition_start depth =
     \<lparr>cst_remaining = depth, cst_outcomes = [], cst_filledTotal = 0, cst_requestedTotal = 0, cst_rejectedCount = 0,
      cst_collision = False, cst_priorConsumption = 0\<rparr>"

definition competition_scale :: "string \<Rightarrow> valid_position list \<Rightarrow> nat" where
  "competition_scale depth positions = foldl max (text_scale depth) (map (\<lambda>p. text_scale (vp_requestedExitUsd p)) positions)"

definition compete :: "string \<Rightarrow> valid_position list \<Rightarrow> nat \<Rightarrow> competition_state" where
  "compete depth positions scale =
     foldl (serve_position scale) (competition_start (scaled depth scale)) (sort_key vp_registrationId positions)"

definition competeForDepth :: "string \<Rightarrow> js_unknown \<Rightarrow> position_request option list \<Rightarrow> competition_result res" where
  "competeForDepth aggregateId depth requests =
     bindE (requireDecimal depth) (\<lambda>preExitDepthUsd.
     bindE (refuse (requests = []) EXEC_LABEL_CLAUSES_INVALID) (\<lambda>_.
     bindE (map_rows requests check_position) (\<lambda>positions.
     bindE (refuse (card (vp_key ` set positions) \<noteq> 1) EXEC_LABEL_CLAUSES_INVALID) (\<lambda>_.
     let scale = competition_scale preExitDepthUsd positions;
         final = compete preExitDepthUsd positions scale;
         keys = remdups (map vp_key positions);
         parts = split_char (CHR ''|'') (hd keys)
     in Inr \<lparr>cmp_aggregate =
               \<lparr>sag_aggregateId = aggregateId, sag_poolId = parts ! 0,
                sag_routeId = (if parts ! 1 = [] then None else Some (parts ! 1)),
                sag_sharedLiquidityIdentifiers = keys, sag_concurrentExitCount = length requests,
                sag_preExitDepthUsd = preExitDepthUsd,
                sag_aggregatedRequestedExitsUsd = unsigned_fromScaled (cst_requestedTotal final) scale,
                sag_aggregatedFillFraction =
                  (if cst_requestedTotal final = 0 then Fin 1 else fill_fraction (cst_filledTotal final) (cst_requestedTotal final)),
                sag_rejectedExitCount = cst_rejectedCount final\<rparr>,
             cmp_outcomes = cst_outcomes final, cmp_depthCollisionDetected = cst_collision final\<rparr>))))"

section \<open>The competition serves the depth once\<close>

fun serve_depth :: "rat \<Rightarrow> rat list \<Rightarrow> rat list" where
  "serve_depth depth [] = []"
| "serve_depth depth (q # qs) = min q depth # serve_depth (depth - min q depth) qs"

lemma serve_total: "0 \<le> depth \<Longrightarrow> list_all (\<lambda>q. 0 \<le> q) qs \<Longrightarrow> sum_list (serve_depth depth qs) = min depth (sum_list qs)"
proof (induction qs arbitrary: depth)
  case (Cons q qs)
  have nn: "0 \<le> sum_list qs" using Cons.prems by (intro sum_list_nonneg) (auto simp: list_all_iff)
  show ?case using Cons nn by (cases "q \<le> depth") (auto simp: min_def)
qed simp

lemma unsigned_fromScaled_eq: "0 \<le> v \<Longrightarrow> unsigned_fromScaled v n = fromScaled v n"
  by (auto simp: unsigned_fromScaled_def fromScaled_def Let_def strip_zeros_def)

lemma text_scale_fraction: "text_scale v = length (fractional_part v)"
proof (cases "CHR ''.'' \<in> set v")
  case False
  then have "integer_part v = v" by (auto simp: integer_part_def takeWhile_eq_all_conv)
  then show ?thesis using False by (simp add: text_scale_def fractional_part_def)
qed (simp add: text_scale_def)

lemma scaled_value:
  assumes "NON_NEGATIVE_DECIMAL v" and "text_scale v \<le> n"
  shows "of_int (scaled v n) = dec_value v * 10 ^ n" and "0 \<le> scaled v n"
proof -
  obtain w f where v: "v = point_text w f" "whole_digits w" "list_all digit f" using assms(1) by (rule decimal_parts)
  note p = point_text_parts [OF v(2,3), folded v(1)]
  have le: "length f \<le> n" using assms(2) p(3) by (simp add: text_scale_fraction)
  then have "(10 :: rat) ^ n = 10 ^ (n - length f) * 10 ^ length f" by (simp flip: power_add)
  then show "of_int (scaled v n) = dec_value v * 10 ^ n"
    using le p by (simp add: scaled_def dec_value_def Let_def num_text_append field_simps flip: power_add)
  show "0 \<le> scaled v n" by (simp add: scaled_def Let_def)
qed

lemma foldl_max_ge: "y = x \<or> y \<in> set ys \<Longrightarrow> y \<le> foldl max x ys" for x y :: nat
proof (induction ys arbitrary: x)
  case (Cons z zs)
  have up: "w \<le> foldl max w vs" for w :: nat and vs by (induction vs arbitrary: w) (auto intro: order_trans [OF max.cobounded1])
  show ?case using Cons.prems Cons.IH [of "max x z"] up [of "max x z" zs] by auto
qed simp

text \<open>The same on scaled integers, and the loop as a function of what is served.\<close>

fun serve_scaled :: "int \<Rightarrow> int list \<Rightarrow> int list" where
  "serve_scaled depth [] = []"
| "serve_scaled depth (q # qs) = min q depth # serve_scaled (depth - min q depth) qs"

fun contended :: "int \<Rightarrow> int list \<Rightarrow> int list \<Rightarrow> bool" where
  "contended prior (q # qs) (f # fs) \<longleftrightarrow> 0 < prior \<and> 0 < q \<and> f < q \<or> contended (prior + f) qs fs"
| "contended prior _ _ \<longleftrightarrow> False"

definition outcome_of :: "nat \<Rightarrow> valid_position \<Rightarrow> int \<Rightarrow> position_outcome" where
  "outcome_of n p filled =
     \<lparr>po_registrationId = vp_registrationId p, po_positionId = vp_positionId p, po_requestedExitUsd = vp_requestedExitUsd p,
      po_filledUsd = unsigned_fromScaled filled n, po_fillFraction = fill_fraction filled (scaled (vp_requestedExitUsd p) n),
      po_rejected = (filled = 0 \<and> 0 < scaled (vp_requestedExitUsd p) n)\<rparr>"

abbreviation scaled_requests :: "nat \<Rightarrow> valid_position list \<Rightarrow> int list" where
  "scaled_requests n ps \<equiv> map (\<lambda>p. scaled (vp_requestedExitUsd p) n) ps"

lemma length_serve_scaled [simp]: "length (serve_scaled d qs) = length qs"
  by (induction qs arbitrary: d) simp_all

lemma serve_step:
  "serve_position n s p =
     (let q = scaled (vp_requestedExitUsd p) n; f = min q (cst_remaining s); out = outcome_of n p f
      in \<lparr>cst_remaining = cst_remaining s - f, cst_outcomes = cst_outcomes s @ [out], cst_filledTotal = cst_filledTotal s + f,
          cst_requestedTotal = cst_requestedTotal s + q, cst_rejectedCount = cst_rejectedCount s + (if po_rejected out then 1 else 0),
          cst_collision = (cst_collision s \<or> 0 < cst_priorConsumption s \<and> 0 < q \<and> f < q),
          cst_priorConsumption = cst_priorConsumption s + f\<rparr>)"
proof -
  let ?q = "scaled (vp_requestedExitUsd p) n"
  have f: "(if ?q \<le> cst_remaining s then ?q else cst_remaining s) = min ?q (cst_remaining s)" by (simp add: min_def)
  show ?thesis unfolding serve_position_def f outcome_of_def Let_def by auto
qed

lemma serve_loop:
  "foldl (serve_position n) s ps =
     (let qs = scaled_requests n ps; fs = serve_scaled (cst_remaining s) qs
      in \<lparr>cst_remaining = cst_remaining s - sum_list fs,
          cst_outcomes = cst_outcomes s @ map2 (outcome_of n) ps fs,
          cst_filledTotal = cst_filledTotal s + sum_list fs,
          cst_requestedTotal = cst_requestedTotal s + sum_list qs,
          cst_rejectedCount = cst_rejectedCount s + length (filter po_rejected (map2 (outcome_of n) ps fs)),
          cst_collision = (cst_collision s \<or> contended (cst_priorConsumption s) qs fs),
          cst_priorConsumption = cst_priorConsumption s + sum_list fs\<rparr>)"
proof (induction ps arbitrary: s)
  case (Cons p ps)
  show ?case unfolding foldl_Cons Cons.IH by (simp add: serve_step Let_def)
qed simp

lemma serve_scaled_nonneg: "0 \<le> d \<Longrightarrow> list_all (\<lambda>q. 0 \<le> q) qs \<Longrightarrow> list_all (\<lambda>f. 0 \<le> f) (serve_scaled d qs)"
  by (induction qs arbitrary: d) auto

lemma serve_scaled_serve:
  "(0 :: rat) < c \<Longrightarrow> map (\<lambda>f. of_int f / c) (serve_scaled d qs) = serve_depth (of_int d / c) (map (\<lambda>q. of_int q / c) qs)"
proof (induction qs arbitrary: d)
  case (Cons q qs)
  have m: "of_int (min q d) / c = min (of_int q / c) (of_int d / c)" using Cons.prems
    by (simp add: min_def divide_le_cancel)
  then have "of_int (d - min q d) / c = of_int d / c - min (of_int q / c) (of_int d / c)" by (simp add: diff_divide_distrib)
  then show ?case using Cons m by simp
qed simp

lemma contended_iff:
  assumes "length fs = length qs" and "list_all (\<lambda>f. 0 \<le> f) fs" and "0 \<le> prior"
  shows "contended prior qs fs \<longleftrightarrow>
     (\<exists>j < length fs. fs ! j < qs ! j \<and> (0 < prior \<or> (\<exists>i < j. 0 < fs ! i)))"
  using assms
proof (induction prior qs fs rule: contended.induct)
  case (1 prior q qs f fs)
  have f: "0 \<le> f" using 1 by simp
  have sum: "0 < prior + f \<longleftrightarrow> 0 < prior \<or> 0 < f" using f \<open>0 \<le> prior\<close> by linarith
  have earlier: "(\<exists>i < Suc j. 0 < (f # fs) ! i) \<longleftrightarrow> 0 < f \<or> (\<exists>i < j. 0 < fs ! i)" for j by (simp add: Ex_less_Suc2)
  have "contended (prior + f) qs fs \<longleftrightarrow> (\<exists>j < length fs. fs ! j < qs ! j \<and> (0 < prior + f \<or> (\<exists>i < j. 0 < fs ! i)))"
    using 1 by simp
  then have rest: "contended (prior + f) qs fs \<longleftrightarrow>
    (\<exists>j < length fs. fs ! j < qs ! j \<and> (0 < prior \<or> (\<exists>i < Suc j. 0 < (f # fs) ! i)))"
    unfolding sum earlier by (simp only: disj_assoc)
  have q: "0 < prior \<and> 0 < q \<and> f < q \<longleftrightarrow> f < q \<and> 0 < prior" using f by auto
  show ?case unfolding contended.simps rest q length_Cons Ex_less_Suc2 by simp
qed auto

text \<open>A competition is accepted on a decimal depth and one group of well-formed positions.\<close>

definition one_group :: "position_request option list \<Rightarrow> valid_position list \<Rightarrow> bool" where
  "one_group requests positions \<longleftrightarrow>
     list_all2 (\<lambda>r p. check_position r = Inr p) requests positions \<and> (\<exists>k. vp_key ` set positions = {k})"

lemma check_position_decimal: "check_position r = Inr p \<Longrightarrow> NON_NEGATIVE_DECIMAL (vp_requestedExitUsd p)"
  by (auto simp: check_position_def bindE_eq_Inr requireDecimal_Inr split: option.splits)

lemma competition_scale_ge:
  "text_scale depth \<le> competition_scale depth ps" "p \<in> set ps \<Longrightarrow> text_scale (vp_requestedExitUsd p) \<le> competition_scale depth ps"
  unfolding competition_scale_def by (simp_all add: foldl_max_ge)

lemma competeForDepth_cases:
  "(\<exists>r. competeForDepth aggregateId depth requests = Inr r) \<longleftrightarrow> amount depth \<and> (\<exists>positions. one_group requests positions)"
proof
  assume "\<exists>r. competeForDepth aggregateId depth requests = Inr r"
  then show "amount depth \<and> (\<exists>positions. one_group requests positions)"
    by (auto simp: competeForDepth_def bindE_eq_Inr requireDecimal_Inr map_rows_eq_Inr amount_def one_group_def Let_def card_1_singleton_iff)
next
  assume a: "amount depth \<and> (\<exists>positions. one_group requests positions)"
  then obtain d positions k where d: "depth = U_string d" "NON_NEGATIVE_DECIMAL d" and m: "map_rows requests check_position = Inr positions"
    and k: "vp_key ` set positions = {k}" by (auto simp: amount_def one_group_def map_rows_eq_Inr)
  have "requests \<noteq> []" using m k by auto
  then show "\<exists>r. competeForDepth aggregateId depth requests = Inr r"
    using d m k by (simp add: competeForDepth_def requireDecimal_def refuse_def Let_def)
qed

text \<open>What is recorded of a competition, on the numbers the texts denote.\<close>

lemma compete_values:
  assumes d: "NON_NEGATIVE_DECIMAL d" and ps: "\<And>p. p \<in> set ps \<Longrightarrow> NON_NEGATIVE_DECIMAL (vp_requestedExitUsd p)"
    and n: "n = competition_scale d ps" and fin: "final = compete d ps n"
  defines "qs \<equiv> map (\<lambda>out. dec_value (po_requestedExitUsd out)) (cst_outcomes final)"
    and "fs \<equiv> map (\<lambda>out. dec_value (po_filledUsd out)) (cst_outcomes final)"
  shows "map (\<lambda>out. (po_registrationId out, po_positionId out, po_requestedExitUsd out)) (cst_outcomes final) =
      map (\<lambda>p. (vp_registrationId p, vp_positionId p, vp_requestedExitUsd p)) (sort_key vp_registrationId ps)"
    and "fs = serve_depth (dec_value d) qs" and "sum_list fs = min (dec_value d) (sum_list qs)"
    and "map po_rejected (cst_outcomes final) = map2 (\<lambda>q f. f = 0 \<and> 0 < q) qs fs"
    and "cst_rejectedCount final = length (filter po_rejected (cst_outcomes final))"
    and "cst_collision final \<longleftrightarrow> (\<exists>i j. i < j \<and> j < length fs \<and> 0 < fs ! i \<and> fs ! j < qs ! j)"
    and "dec_value (unsigned_fromScaled (cst_requestedTotal final) n) = sum_list qs"
proof -
  define xs where "xs = sort_key vp_registrationId ps"
  define iq where "iq = scaled_requests n xs"
  define ifs where "ifs = serve_scaled (scaled d n) iq"
  have len: "length ifs = length xs" "length iq = length xs" by (simp_all add: ifs_def iq_def)
  have final: "cst_outcomes final = map2 (outcome_of n) xs ifs" "cst_requestedTotal final = sum_list iq"
    "cst_rejectedCount final = length (filter po_rejected (cst_outcomes final))" "cst_collision final = contended 0 iq ifs"
    by (simp_all add: fin compete_def serve_loop competition_start_def Let_def xs_def iq_def ifs_def)
  then show "cst_rejectedCount final = length (filter po_rejected (cst_outcomes final))" by simp
  have dv: "of_int (scaled d n) = dec_value d * 10 ^ n" "0 \<le> scaled d n"
    using scaled_value [OF d] competition_scale_ge(1) n by simp_all
  have pv: "of_int (scaled (vp_requestedExitUsd p) n) = dec_value (vp_requestedExitUsd p) * 10 ^ n" "0 \<le> scaled (vp_requestedExitUsd p) n"
    if "p \<in> set xs" for p using scaled_value [OF ps] competition_scale_ge(2) that n by (simp_all add: xs_def)
  have iq_nn: "list_all (\<lambda>q. 0 \<le> q) iq" using pv(2) by (simp add: iq_def list_all_iff)
  have if_nn: "list_all (\<lambda>f. 0 \<le> f) ifs" unfolding ifs_def using dv(2) iq_nn by (rule serve_scaled_nonneg)
  have qs: "qs = map (\<lambda>q. of_int q / 10 ^ n) iq"
    unfolding qs_def final(1) using len pv(1) by (intro nth_equalityI) (simp_all add: iq_def outcome_of_def)
  have fs: "fs = map (\<lambda>f. of_int f / 10 ^ n) ifs"
    unfolding fs_def final(1)
  proof (intro nth_equalityI)
    fix i assume i: "i < length (map (\<lambda>out. dec_value (po_filledUsd out)) (map2 (outcome_of n) xs ifs))"
    then have "0 \<le> ifs ! i" using if_nn len by (simp add: list_all_length)
    then show "map (\<lambda>out. dec_value (po_filledUsd out)) (map2 (outcome_of n) xs ifs) ! i = map (\<lambda>f. of_int f / 10 ^ n) ifs ! i"
      using i len fromScaled_value by (simp add: outcome_of_def unsigned_fromScaled_eq)
  qed (simp add: len)
  have tn: "(0 :: rat) < 10 ^ n" by simp
  show serves: "fs = serve_depth (dec_value d) qs"
    using serve_scaled_serve [OF tn, of "scaled d n" iq] dv(1) by (simp add: fs qs ifs_def)
  have "0 \<le> dec_value d" using dv tn by (metis of_int_0_le_iff zero_le_mult_iff not_less)
  moreover have "list_all (\<lambda>q. 0 \<le> q) qs" using iq_nn by (simp add: qs list_all_iff)
  ultimately show "sum_list fs = min (dec_value d) (sum_list qs)" unfolding serves by (rule serve_total)
  show "map (\<lambda>out. (po_registrationId out, po_positionId out, po_requestedExitUsd out)) (cst_outcomes final) =
      map (\<lambda>p. (vp_registrationId p, vp_positionId p, vp_requestedExitUsd p)) (sort_key vp_registrationId ps)"
    unfolding final(1) xs_def [symmetric] using len by (intro nth_equalityI) (simp_all add: outcome_of_def)
  show "map po_rejected (cst_outcomes final) = map2 (\<lambda>q f. f = 0 \<and> 0 < q) qs fs"
    unfolding final(1) using len by (intro nth_equalityI) (simp_all add: outcome_of_def qs fs iq_def zero_less_divide_iff)
  have c1: "0 < fs ! i \<longleftrightarrow> 0 < ifs ! i" and c2: "fs ! i < qs ! i \<longleftrightarrow> ifs ! i < iq ! i" if "i < length ifs" for i
    using that len by (simp_all add: fs qs zero_less_divide_iff divide_less_cancel)
  have lf: "length fs = length ifs" by (simp add: fs)
  have "contended 0 iq ifs \<longleftrightarrow> (\<exists>j < length ifs. ifs ! j < iq ! j \<and> (\<exists>i < j. 0 < ifs ! i))"
    using contended_iff [OF _ if_nn, of iq 0] len by simp
  also have "\<dots> \<longleftrightarrow> (\<exists>i j. i < j \<and> j < length fs \<and> 0 < fs ! i \<and> fs ! j < qs ! j)"
    unfolding lf using c1 [OF less_trans] c2 by blast
  finally show "cst_collision final \<longleftrightarrow> (\<exists>i j. i < j \<and> j < length fs \<and> 0 < fs ! i \<and> fs ! j < qs ! j)" by (simp add: final(4))
  have "sum_list (map (\<lambda>q. of_int q / 10 ^ n :: rat) iq) = of_int (sum_list iq) / 10 ^ n" for iq :: "int list"
    by (induction iq) (simp_all add: add_divide_distrib)
  moreover have "0 \<le> sum_list iq" using iq_nn by (intro sum_list_nonneg) (auto simp: list_all_iff)
  ultimately show "dec_value (unsigned_fromScaled (cst_requestedTotal final) n) = sum_list qs"
    using fromScaled_value [of "sum_list iq" n] by (simp add: final(2) qs unsigned_fromScaled_eq)
qed

text \<open>
  C15 (competition_serves_depth). A competition is run exactly on a decimal depth and a non-empty
  list of well-formed positions of one sharing key. Every position has one outcome, in the order of
  registration ids; each is filled with what it asked for or what the earlier ones left, exactly, so
  that together they get the smaller of the depth and of what they asked for and no depth is served
  twice. A position is rejected exactly when it asked for something and got nothing, the aggregate
  counts those and the total asked for, and a collision is reported exactly when a position was cut
  after an earlier one had taken depth.
\<close>

theorem competition_serves_depth:
  "case competeForDepth aggregateId depth requests of
     Inl e \<Rightarrow> \<not> (amount depth \<and> (\<exists>positions. one_group requests positions))
   | Inr r \<Rightarrow>
       (\<exists>positions. amount depth \<and> one_group requests positions \<and>
          map (\<lambda>out. (po_registrationId out, po_positionId out, po_requestedExitUsd out)) (cmp_outcomes r) =
            map (\<lambda>p. (vp_registrationId p, vp_positionId p, vp_requestedExitUsd p)) (sort_key vp_registrationId positions)) \<and>
       (let qs = map (\<lambda>out. dec_value (po_requestedExitUsd out)) (cmp_outcomes r);
            fs = map (\<lambda>out. dec_value (po_filledUsd out)) (cmp_outcomes r)
        in fs = serve_depth (usd depth) qs \<and> sum_list fs = min (usd depth) (sum_list qs) \<and>
           map po_rejected (cmp_outcomes r) = map2 (\<lambda>q f. f = 0 \<and> 0 < q) qs fs \<and>
           dec_value (sag_aggregatedRequestedExitsUsd (cmp_aggregate r)) = sum_list qs \<and>
           (cmp_depthCollisionDetected r \<longleftrightarrow> (\<exists>i j. i < j \<and> j < length fs \<and> 0 < fs ! i \<and> fs ! j < qs ! j))) \<and>
       sag_rejectedExitCount (cmp_aggregate r) = length (filter po_rejected (cmp_outcomes r)) \<and>
       sag_concurrentExitCount (cmp_aggregate r) = length (cmp_outcomes r)"
proof (cases "competeForDepth aggregateId depth requests")
  case (Inl e)
  then show ?thesis using competeForDepth_cases [of aggregateId depth requests] by auto
next
  case (Inr r)
  then obtain d ps where d: "depth = U_string d" "NON_NEGATIVE_DECIMAL d" and m: "list_all2 (\<lambda>r p. check_position r = Inr p) requests ps"
      and k: "card (vp_key ` set ps) = 1"
      and r: "cmp_outcomes r = cst_outcomes (compete d ps (competition_scale d ps))"
      "cmp_depthCollisionDetected r = cst_collision (compete d ps (competition_scale d ps))"
      "sag_aggregatedRequestedExitsUsd (cmp_aggregate r) =
         unsigned_fromScaled (cst_requestedTotal (compete d ps (competition_scale d ps))) (competition_scale d ps)"
      "sag_rejectedExitCount (cmp_aggregate r) = cst_rejectedCount (compete d ps (competition_scale d ps))"
      "sag_concurrentExitCount (cmp_aggregate r) = length requests"
    by (auto simp: competeForDepth_def bindE_eq_Inr requireDecimal_Inr map_rows_eq_Inr Let_def)
  have dec: "NON_NEGATIVE_DECIMAL (vp_requestedExitUsd p)" if "p \<in> set ps" for p
    using m that check_position_decimal by (auto simp: list_all2_conv_all_nth in_set_conv_nth)
  note v = compete_values [OF d(2) _ refl refl, of ps, OF dec, folded r(1-5)]
  have len: "length (cmp_outcomes r) = length requests"
    using arg_cong [OF v(1), where f = length] m by (simp add: list_all2_lengthD)
  have acc: "amount depth" "one_group requests ps" using d m k by (simp_all add: amount_def one_group_def card_1_singleton_iff)
  have cnt: "sag_concurrentExitCount (cmp_aggregate r) = length (cmp_outcomes r)" unfolding len by (rule r(5))
  have u: "usd depth = dec_value d" by (simp add: usd_def d(1))
  show ?thesis unfolding Inr sum.case Let_def u
    by (intro conjI exI [of _ ps] v acc cnt)
qed

section \<open>The order of submission\<close>

lemma check_position_error: "check_position r = Inl e \<Longrightarrow> e = ExecVocabularyError EXEC_LABEL_CLAUSES_INVALID"
  by (auto simp: check_position_def sharingKeyOf_def bindE_eq_Inl require_non_empty_def requireDecimal_def Let_def
      split: option.splits js_unknown.splits if_splits)

lemma map_rows_Inl: "map_rows xs f = Inl e \<Longrightarrow> \<exists>x \<in> set xs. f x = Inl e"
  by (induction xs) (auto simp: bindE_eq_Inl)

lemma competeForDepth_error:
  "competeForDepth aggregateId depth requests = Inl e \<Longrightarrow> e = ExecVocabularyError EXEC_LABEL_CLAUSES_INVALID"
  by (auto simp: competeForDepth_def bindE_eq_Inl requireDecimal_def refuse_def Let_def
      dest!: map_rows_Inl check_position_error split: js_unknown.splits if_splits)

lemma foldl_max_mset: "mset xs = mset ys \<Longrightarrow> foldl max x xs = foldl max x ys" for x :: nat
proof -
  assume "mset xs = mset ys"
  then have "set xs = set ys" by (metis set_mset_mset)
  moreover have "foldl max x zs = Max (set (x # zs))" for zs
    unfolding Max.set_eq_fold foldl_conv_fold by (simp add: max.commute)
  ultimately show ?thesis by simp
qed

lemma remdups_one: "set xs = {k} \<Longrightarrow> remdups xs = [k]"
proof (induction xs)
  case (Cons x xs)
  then have "set xs = {} \<or> set xs = {k}" by (auto simp: insert_eq_iff subset_singleton_iff)
  then show ?case using Cons by auto
qed simp

lemma check_position_id: "check_position x = Inr p \<Longrightarrow> map_option pq_registrationId x = Some (U_string (vp_registrationId p))"
  by (auto simp: check_position_def bindE_eq_Inr require_non_empty_Inr split: option.splits)

text \<open>Two groups with the same positions and no tie are competed alike.\<close>

lemma compete_mset:
  assumes "mset ps' = mset ps" and "distinct (map vp_registrationId ps)"
  shows "competition_scale d ps' = competition_scale d ps" and "compete d ps' n = compete d ps n"
proof -
  have "mset (map (\<lambda>p. text_scale (vp_requestedExitUsd p)) ps') = mset (map (\<lambda>p. text_scale (vp_requestedExitUsd p)) ps)"
    using assms(1) by simp
  then show "competition_scale d ps' = competition_scale d ps" unfolding competition_scale_def by (rule foldl_max_mset)
  have "inj_on vp_registrationId (set ps')" using assms by (metis distinct_map set_mset_mset)
  then have "sort_key vp_registrationId ps' = sort_key vp_registrationId ps"
    using assms(1) by (intro sort_key_inj_key_eq) simp_all
  then show "compete d ps' n = compete d ps n" by (simp add: compete_def)
qed

lemma competeForDepth_mset:
  assumes "mset requests' = mset requests" and "distinct (map (map_option pq_registrationId) requests)"
    and "competeForDepth aggregateId depth requests = Inr r"
  shows "competeForDepth aggregateId depth requests' = Inr r"
proof -
  define g where "g x = (case check_position x of Inr p \<Rightarrow> p)" for x
  obtain d ps where d: "requireDecimal depth = Inr d" and ps: "map_rows requests check_position = Inr ps" and k: "card (vp_key ` set ps) = 1"
    using assms(3) by (auto simp: competeForDepth_def bindE_eq_Inr Let_def)
  have ok: "check_position x = Inr (g x)" if "x \<in> set requests" for x
    using ps that by (fastforce simp: g_def map_rows_eq_Inr list_all2_conv_all_nth in_set_conv_nth)
  have rows: "map_rows xs check_position = Inr (map g xs)" if "set xs \<subseteq> set requests" for xs
    using that ok by (induction xs) auto
  have sets: "set requests' = set requests" using assms(1) by (metis set_mset_mset)
  have ps_eq: "ps = map g requests" using rows [of requests] ps by simp
  have rid: "map_option pq_registrationId x = Some (U_string (vp_registrationId (g x)))" if "x \<in> set requests" for x
    using ok [OF that] by (rule check_position_id)
  have "distinct requests" using assms(2) by (simp add: distinct_map)
  moreover have "inj_on (\<lambda>x. vp_registrationId (g x)) (set requests)"
  proof (rule inj_onI)
    fix x y assume xy: "x \<in> set requests" "y \<in> set requests" "vp_registrationId (g x) = vp_registrationId (g y)"
    have "map_option pq_registrationId x = map_option pq_registrationId y" unfolding rid [OF xy(1)] rid [OF xy(2)] xy(3) ..
    then show "x = y" using assms(2) xy by (meson distinct_map inj_onD)
  qed
  ultimately have dist: "distinct (map vp_registrationId (map g requests))" by (simp add: distinct_map comp_def)
  have m: "mset (map g requests') = mset (map g requests)" using assms(1) by simp
  obtain key where key: "vp_key ` set ps = {key}" using k by (auto simp: card_1_singleton_iff)
  have keys: "remdups (map vp_key (map g requests')) = [key]" "remdups (map vp_key (map g requests)) = [key]"
    using key sets by (auto intro!: remdups_one simp: ps_eq image_image)
  have len: "length requests' = length requests" "(requests' = []) = (requests = [])" using assms(1) by (metis size_mset) (use sets in force)
  note same = compete_mset [OF m dist]
  show ?thesis
    using assms(3) unfolding competeForDepth_def d rows [OF order_refl] rows [OF eq_refl [OF sets]] bindE_Inr Let_def
    unfolding keys same len set_map image_image sets .
qed

text \<open>
  C27 (competition_order_free). Positions with distinct registration ids: the whole result, fills,
  aggregate and refusals alike, is the same in whatever order they are submitted.
\<close>

theorem competition_order_free:
  assumes "mset requests' = mset requests" and "distinct (map (map_option pq_registrationId) requests)"
  shows "competeForDepth aggregateId depth requests' = competeForDepth aggregateId depth requests"
proof (cases "competeForDepth aggregateId depth requests")
  case (Inr r)
  then show ?thesis using competeForDepth_mset [OF assms] by simp
next
  case (Inl e)
  have "distinct (map (map_option pq_registrationId) requests')"
    using assms by (metis mset_map mset_eq_imp_distinct_iff)
  then have "competeForDepth aggregateId depth requests' \<noteq> Inr r" for r
    using competeForDepth_mset [OF assms(1) [symmetric]] Inl by force
  then obtain e' where "competeForDepth aggregateId depth requests' = Inl e'"
    by (cases "competeForDepth aggregateId depth requests'") auto
  then show ?thesis using Inl by (auto dest: competeForDepth_error)
qed

definition sample_position :: "string \<Rightarrow> string \<Rightarrow> position_request option" where
  "sample_position registrationId positionId =
     Some \<lparr>pq_registrationId = U_string registrationId, pq_positionId = U_string positionId,
       pq_keys = \<lparr>shk_poolId = U_string ''pool'', shk_routeId = None, shk_quoteAsset = U_string ''USDC'',
         shk_liquiditySourceId = U_string ''src'', shk_deployerClusterId = None, shk_exitWindowId = U_string ''w1''\<rparr>,
       pq_requestedExitUsd = U_string ''1''\<rparr>"

lemma sample_checked: "registrationId \<noteq> [] \<Longrightarrow> positionId \<noteq> [] \<Longrightarrow>
    check_position (sample_position registrationId positionId) =
      Inr \<lparr>vp_registrationId = registrationId, vp_positionId = positionId, vp_requestedExitUsd = ''1'', vp_key = ''pool||USDC|src||w1''\<rparr>"
  by (simp add: sample_position_def check_position_def sharingKeyOf_def require_non_empty_def requireDecimal_def
      NON_NEGATIVE_DECIMAL_def digit_def Let_def)

theorem competition_order_free_witness:
  "mset [sample_position ''b'' ''p2'', sample_position ''a'' ''p1''] = mset [sample_position ''a'' ''p1'', sample_position ''b'' ''p2''] \<and>
   competeForDepth ''agg'' (U_string ''1'') [sample_position ''b'' ''p2'', sample_position ''a'' ''p1''] =
     competeForDepth ''agg'' (U_string ''1'') [sample_position ''a'' ''p1'', sample_position ''b'' ''p2'']"
proof
  show m: "mset [sample_position ''b'' ''p2'', sample_position ''a'' ''p1''] = mset [sample_position ''a'' ''p1'', sample_position ''b'' ''p2'']"
    by simp
  show "competeForDepth ''agg'' (U_string ''1'') [sample_position ''b'' ''p2'', sample_position ''a'' ''p1''] =
     competeForDepth ''agg'' (U_string ''1'') [sample_position ''a'' ''p1'', sample_position ''b'' ''p2'']"
    by (rule competition_order_free [OF m]) (simp add: sample_position_def)
qed

text \<open>With one registration id twice the first submitted is served first: the order decides who is filled.\<close>

lemma duplicate_ids_race:
  assumes "p \<noteq> []" and "p' \<noteq> []"
  shows "\<exists>r. competeForDepth ''agg'' (U_string ''1'') [sample_position ''a'' p, sample_position ''a'' p'] = Inr r \<and>
     map po_positionId (cmp_outcomes r) = [p, p'] \<and> map (\<lambda>out. dec_value (po_filledUsd out)) (cmp_outcomes r) = [1, 0]"
proof -
  let ?rs = "[sample_position ''a'' p, sample_position ''a'' p']"
  let ?v = "\<lambda>p. \<lparr>vp_registrationId = ''a'', vp_positionId = p, vp_requestedExitUsd = ''1'', vp_key = ''pool||USDC|src||w1''\<rparr>"
  have rows: "map_rows ?rs check_position = Inr [?v p, ?v p']" using assms by (simp add: sample_checked)
  have d: "NON_NEGATIVE_DECIMAL ''1''" by (simp add: NON_NEGATIVE_DECIMAL_def digit_def)
  have one: "dec_value ''1'' = 1" by (simp add: dec_value_def unsigned_part_def integer_part_def fractional_part_def num_text_def)
  let ?f = "compete ''1'' [?v p, ?v p'] (competition_scale ''1'' [?v p, ?v p'])"
  have dec: "NON_NEGATIVE_DECIMAL (vp_requestedExitUsd q)" if "q \<in> set [?v p, ?v p']" for q using that d by auto
  note v = compete_values [OF d _ refl refl, of "[?v p, ?v p']", OF dec]
  have ids: "map (\<lambda>out. (po_registrationId out, po_positionId out, po_requestedExitUsd out)) (cst_outcomes ?f) = [(''a'', p, ''1''), (''a'', p', ''1'')]"
    using v(1) by simp
  then have "map po_positionId (cst_outcomes ?f) = [p, p']" "map (\<lambda>out. dec_value (po_requestedExitUsd out)) (cst_outcomes ?f) = [1, 1]"
    using one by (auto simp: map_eq_Cons_conv)
  moreover have "map (\<lambda>out. dec_value (po_filledUsd out)) (cst_outcomes ?f) = serve_depth 1 [1, 1]"
    using v(2) one calculation(2) by simp
  ultimately show ?thesis using rows d
    by (simp add: competeForDepth_def requireDecimal_def refuse_def Let_def)
qed

end
