(* ===== verification/OutcomeRecord.thy ===== *)
theory OutcomeRecord
  imports FillModels
begin

text \<open>
  Outcome classification (packages/execution-simulator/src/outcome.ts): the assembly over the
  domain's label precedence with the documented reasons, and the disclosed denominators.
\<close>

section \<open>Classification\<close>

definition CENSOR_REASONS :: "string list" where
  "CENSOR_REASONS = [''HORIZON_NOT_ELAPSED'', ''EXOGENOUS_HORIZON_TRUNCATION'', ''NO_TERMINAL_EVENT_ESTABLISHED'']"

definition INVALID_REASONS :: "string list" where
  "INVALID_REASONS = [''IDENTITY_MISMATCH'', ''CHRONOLOGY_INVALID'', ''REQUIRED_STATE_MISSING'',
     ''ADAPTER_CORRECTNESS_UNVERIFIABLE'', ''EVIDENCE_INTEGRITY_FAILURE'']"

record classify_input =
  ci_clauses :: label_clauses
  ci_censorReason :: js_unknown
  ci_invalidReason :: js_unknown
  ci_qualityCodes :: "js_unknown list"

record classify_result =
  clr_resolution :: label_result
  clr_untradableSignalWin :: bool
  clr_profitRenderRefused :: bool
  clr_censorReason :: "string option"
  clr_invalidReason :: "string option"
  clr_qualityCodes :: "js_unknown list"

definition requireReason :: "js_unknown \<Rightarrow> string list \<Rightarrow> string res" where
  "requireReason v allowed =
     (case v of
        U_string s \<Rightarrow> if s \<in> set allowed then Inr s else Inl (ExecVocabularyError EXEC_LABEL_CLAUSES_INVALID)
      | _ \<Rightarrow> Inl (ExecVocabularyError EXEC_LABEL_CLAUSES_INVALID))"

text \<open>A reason where the label needs one, and none where it does not.\<close>

definition reason_for :: "bool \<Rightarrow> js_unknown \<Rightarrow> string list \<Rightarrow> string option res" where
  "reason_for needed v allowed =
     (if needed then bindE (requireReason v allowed) (\<lambda>s. Inr (Some s))
      else if v \<noteq> U_null then Inl (ExecVocabularyError EXEC_LABEL_CLAUSES_INVALID)
      else Inr None)"

definition classifyOutcome :: "classify_input option \<Rightarrow> classify_result res" where
  "classifyOutcome arg =
     (case arg of
        None \<Rightarrow> Inl (ExecVocabularyError EXEC_LABEL_CLAUSES_INVALID)
      | Some input \<Rightarrow>
          bindE (refuse (list_ex (\<lambda>c. \<not> isQualityCode c) (ci_qualityCodes input)) EXEC_LABEL_CLAUSES_INVALID) (\<lambda>_.
          bindE (outcomeLabelPrecedence (ci_clauses input)) (\<lambda>resolution.
          bindE (reason_for (lr_tradableLabel resolution = Oc_CENSORED \<or> lr_maturity resolution = Mat_CENSORED)
                   (ci_censorReason input) CENSOR_REASONS) (\<lambda>censorReason.
          bindE (reason_for (lr_tradableLabel resolution = Oc_INVALID_DATA \<or> lr_maturity resolution = Mat_INVALID_DATA)
                   (ci_invalidReason input) INVALID_REASONS) (\<lambda>invalidReason.
          let signalLabel = lr_signalLabel resolution;
              untradableSignalWin = (signalLabel = Some Oc_SIGNAL_SUCCESS \<and> lr_tradableLabel resolution \<noteq> Oc_TRADABLE_SUCCESS)
          in
          bindE (signalCannotRenderProfit
                   \<lparr>ra_signalLabel = U_string (outcome_class_text
                      (case signalLabel of
                         Some l \<Rightarrow> if l = Oc_SIGNAL_SUCCESS \<or> l = Oc_SIGNAL_FAILURE then l else Oc_SIGNAL_FAILURE
                       | None \<Rightarrow> Oc_SIGNAL_FAILURE)),
                    ra_tradableLabel = U_string (outcome_class_text (lr_tradableLabel resolution)),
                    ra_renderProfit = U_bool untradableSignalWin\<rparr>) (\<lambda>profitRenderRefused.
          Inr \<lparr>clr_resolution = resolution, clr_untradableSignalWin = untradableSignalWin, clr_profitRenderRefused = profitRenderRefused,
               clr_censorReason = censorReason, clr_invalidReason = invalidReason, clr_qualityCodes = ci_qualityCodes input\<rparr>))))))"

section \<open>Denominators\<close>

record denominator_counts =
  dnc_classified :: nat
  dnc_censored :: nat
  dnc_invalid :: nat
  dnc_pending :: nat
  dnc_terminal :: nat

fun disclose :: "outcome_class list \<Rightarrow> denominator_counts \<Rightarrow> denominator_counts res" where
  "disclose [] c = Inr c"
| "disclose (label # labels) c =
     (case label of
        Oc_CENSORED \<Rightarrow> disclose labels (c\<lparr>dnc_censored := dnc_censored c + 1\<rparr>)
      | Oc_INVALID_DATA \<Rightarrow> disclose labels (c\<lparr>dnc_invalid := dnc_invalid c + 1\<rparr>)
      | Oc_PENDING \<Rightarrow> disclose labels (c\<lparr>dnc_pending := dnc_pending c + 1\<rparr>)
      | Oc_SIGNAL_SUCCESS \<Rightarrow> Inl (ExecVocabularyError EXEC_LABEL_CLAUSES_INVALID)
      | Oc_SIGNAL_FAILURE \<Rightarrow> Inl (ExecVocabularyError EXEC_LABEL_CLAUSES_INVALID)
      | _ \<Rightarrow> disclose labels (c\<lparr>dnc_terminal := dnc_terminal c + 1\<rparr>))"

definition discloseDenominator :: "outcome_class list \<Rightarrow> denominator_counts res" where
  "discloseDenominator labels =
     disclose labels \<lparr>dnc_classified = length labels, dnc_censored = 0, dnc_invalid = 0, dnc_pending = 0, dnc_terminal = 0\<rparr>"

section \<open>Laws\<close>

definition reason_ok :: "bool \<Rightarrow> js_unknown \<Rightarrow> string list \<Rightarrow> bool" where
  "reason_ok needed v allowed = (if needed then v \<in> U_string ` set allowed else v = U_null)"

lemma reason_for_ok: "(\<exists>r. reason_for needed v allowed = Inr r) \<longleftrightarrow> reason_ok needed v allowed"
  by (auto simp: reason_for_def reason_ok_def requireReason_def split: js_unknown.splits)

lemma profit_refused:
  assumes "s = Oc_SIGNAL_SUCCESS \<or> s = Oc_SIGNAL_FAILURE"
  shows "signalCannotRenderProfit \<lparr>ra_signalLabel = U_string (outcome_class_text s), ra_tradableLabel = U_string (outcome_class_text t), ra_renderProfit = U_bool b\<rparr> =
     Inr (b \<and> t \<noteq> Oc_TRADABLE_SUCCESS)"
proof -
  have c: "outcomeClass (U_string (outcome_class_text x)) = Inr x" for x
    unfolding outcomeClass_def by (simp add: outcomeclass_ev.parse_iff)
  show ?thesis using assms
    by (auto simp: signalCannotRenderProfit_def c SIGNAL_OUTCOME_CLASSES_def parseStrictBoolean_def optional_class_def nullish_def)
qed

lemma disclose_counts:
  "disclose labels c =
     (if Oc_SIGNAL_SUCCESS \<in> set labels \<or> Oc_SIGNAL_FAILURE \<in> set labels then Inl (ExecVocabularyError EXEC_LABEL_CLAUSES_INVALID)
      else Inr (c\<lparr>dnc_censored := dnc_censored c + count_list labels Oc_CENSORED,
                 dnc_invalid := dnc_invalid c + count_list labels Oc_INVALID_DATA,
                 dnc_pending := dnc_pending c + count_list labels Oc_PENDING,
                 dnc_terminal := dnc_terminal c + length (filter (\<lambda>l. l \<in> set TERMINAL_TRADABLE_OUTCOME_CLASSES) labels)\<rparr>))"
  by (induction labels arbitrary: c)
    (auto simp: TERMINAL_TRADABLE_OUTCOME_CLASSES_def split: outcome_class.splits)

lemma classified_partition:
  "Oc_SIGNAL_SUCCESS \<notin> set labels \<Longrightarrow> Oc_SIGNAL_FAILURE \<notin> set labels \<Longrightarrow>
   count_list labels Oc_CENSORED + count_list labels Oc_INVALID_DATA + count_list labels Oc_PENDING +
     length (filter (\<lambda>l. l \<in> set TERMINAL_TRADABLE_OUTCOME_CLASSES) labels) = length labels"
proof (induction labels)
  case (Cons l ls)
  then show ?case by (cases l) (simp_all add: TERMINAL_TRADABLE_OUTCOME_CLASSES_def)
qed simp

lemma classify_cases:
  "case classifyOutcome (Some i) of
     Inl e \<Rightarrow> \<not> (list_all isQualityCode (ci_qualityCodes i) \<and>
       (\<exists>res. outcomeLabelPrecedence (ci_clauses i) = Inr res \<and>
          reason_ok (lr_tradableLabel res = Oc_CENSORED \<or> lr_maturity res = Mat_CENSORED) (ci_censorReason i) CENSOR_REASONS \<and>
          reason_ok (lr_tradableLabel res = Oc_INVALID_DATA \<or> lr_maturity res = Mat_INVALID_DATA) (ci_invalidReason i) INVALID_REASONS))
   | Inr r \<Rightarrow>
       list_all isQualityCode (ci_qualityCodes i) \<and> outcomeLabelPrecedence (ci_clauses i) = Inr (clr_resolution r) \<and>
       reason_ok (lr_tradableLabel (clr_resolution r) = Oc_CENSORED \<or> lr_maturity (clr_resolution r) = Mat_CENSORED)
         (ci_censorReason i) CENSOR_REASONS \<and>
       reason_ok (lr_tradableLabel (clr_resolution r) = Oc_INVALID_DATA \<or> lr_maturity (clr_resolution r) = Mat_INVALID_DATA)
         (ci_invalidReason i) INVALID_REASONS \<and>
       (clr_untradableSignalWin r \<longleftrightarrow>
          lr_signalLabel (clr_resolution r) = Some Oc_SIGNAL_SUCCESS \<and> lr_tradableLabel (clr_resolution r) \<noteq> Oc_TRADABLE_SUCCESS) \<and>
       clr_profitRenderRefused r = clr_untradableSignalWin r"
proof -
  have codes: "refuse (list_ex (\<lambda>c. \<not> isQualityCode c) cs) code = (if list_all isQualityCode cs then Inr () else Inl (ExecVocabularyError code))" for cs code
    by (auto simp: refuse_def list_ex_iff list_all_iff)
  have bad: "\<not> reason_ok n v a \<Longrightarrow> \<exists>e. reason_for n v a = Inl e" for n v a
    using reason_for_ok [of n v a] by (cases "reason_for n v a") auto
  show ?thesis
  proof (cases "outcomeLabelPrecedence (ci_clauses i)")
    case (Inl e)
    then show ?thesis by (simp add: classifyOutcome_def codes)
  next
    case (Inr res)
    let ?c = "lr_tradableLabel res = Oc_CENSORED \<or> lr_maturity res = Mat_CENSORED"
    let ?v = "lr_tradableLabel res = Oc_INVALID_DATA \<or> lr_maturity res = Mat_INVALID_DATA"
    show ?thesis
    proof (cases "list_all isQualityCode (ci_qualityCodes i) \<and> reason_ok ?c (ci_censorReason i) CENSOR_REASONS \<and> reason_ok ?v (ci_invalidReason i) INVALID_REASONS")
      case True
      then obtain a b where "reason_for ?c (ci_censorReason i) CENSOR_REASONS = Inr a" "reason_for ?v (ci_invalidReason i) INVALID_REASONS = Inr b"
        using reason_for_ok by meson
      then show ?thesis using True Inr
        by (auto simp: classifyOutcome_def codes Let_def profit_refused split: option.splits)
    next
      case False
      then have "\<exists>e. classifyOutcome (Some i) = Inl e" using Inr bad [of ?c "ci_censorReason i" CENSOR_REASONS] bad [of ?v "ci_invalidReason i" INVALID_REASONS]
        by (cases "reason_for ?c (ci_censorReason i) CENSOR_REASONS") (auto simp: classifyOutcome_def codes Let_def)
      then show ?thesis using False Inr by auto
    qed
  qed
qed

text \<open>
  A classification is recorded exactly when every quality code is known,
  the clauses resolve under the single precedence, and a censored or invalid resolution carries a
  documented reason of its own kind while any other carries none; a signal win without tradable
  success is marked as untradable and refuses a profit rendering, nothing else does. Denominators are
  disclosed exactly for tradable labels, and every label is counted in one bucket.
\<close>

theorem outcome_record_exact:
  "(case classifyOutcome (Some i) of
      Inl e \<Rightarrow> \<not> (list_all isQualityCode (ci_qualityCodes i) \<and>
        (\<exists>res. outcomeLabelPrecedence (ci_clauses i) = Inr res \<and>
           reason_ok (lr_tradableLabel res = Oc_CENSORED \<or> lr_maturity res = Mat_CENSORED) (ci_censorReason i) CENSOR_REASONS \<and>
           reason_ok (lr_tradableLabel res = Oc_INVALID_DATA \<or> lr_maturity res = Mat_INVALID_DATA) (ci_invalidReason i) INVALID_REASONS))
    | Inr r \<Rightarrow>
        list_all isQualityCode (ci_qualityCodes i) \<and> outcomeLabelPrecedence (ci_clauses i) = Inr (clr_resolution r) \<and>
        reason_ok (lr_tradableLabel (clr_resolution r) = Oc_CENSORED \<or> lr_maturity (clr_resolution r) = Mat_CENSORED)
          (ci_censorReason i) CENSOR_REASONS \<and>
        reason_ok (lr_tradableLabel (clr_resolution r) = Oc_INVALID_DATA \<or> lr_maturity (clr_resolution r) = Mat_INVALID_DATA)
          (ci_invalidReason i) INVALID_REASONS \<and>
        (clr_untradableSignalWin r \<longleftrightarrow>
           lr_signalLabel (clr_resolution r) = Some Oc_SIGNAL_SUCCESS \<and> lr_tradableLabel (clr_resolution r) \<noteq> Oc_TRADABLE_SUCCESS) \<and>
        clr_profitRenderRefused r = clr_untradableSignalWin r) \<and>
   (case discloseDenominator labels of
      Inl e \<Rightarrow> Oc_SIGNAL_SUCCESS \<in> set labels \<or> Oc_SIGNAL_FAILURE \<in> set labels
    | Inr c \<Rightarrow>
        dnc_classified c = length labels \<and> dnc_censored c = count_list labels Oc_CENSORED \<and>
        dnc_invalid c = count_list labels Oc_INVALID_DATA \<and> dnc_pending c = count_list labels Oc_PENDING \<and>
        dnc_censored c + dnc_invalid c + dnc_pending c + dnc_terminal c = dnc_classified c)"
  using classify_cases [of i] classified_partition [of labels] by (auto simp: discloseDenominator_def disclose_counts)

end
