(* ===== verification/TransferSemantics.thy ===== *)
theory TransferSemantics
  imports FillModels
begin

text \<open>
  Transfer semantics: the verdicts on token extensions (packages/solana-security/src/transfer-semantics.ts),
  and the adapter plane and fee model that consume them (packages/transfer-semantics/src/adapter.ts,
  fee-model.ts). \<open>Date.parse\<close> and the digest are arguments. Objects used as tables are their own
  properties, in a list. Amounts are \<open>bigint\<close>.
\<close>

section \<open>Verdicts\<close>

datatype transfer_support = KNOWN_MODELED | KNOWN_UNMODELED | UNKNOWN_REQUIRED | NOT_PRESENT

definition TRANSFER_VERDICT_POLICY_VERSION :: string where
  "TRANSFER_VERDICT_POLICY_VERSION = ''solsec-transfer-semantics@1''"

definition SPL_TOKEN_PROGRAM_ID :: string where
  "SPL_TOKEN_PROGRAM_ID = ''TokenkegQfeZyiNwAJbNbGKPFXCWuBvf9Ss623VQ5DA''"

definition TOKEN_2022_PROGRAM_ID :: string where
  "TOKEN_2022_PROGRAM_ID = ''TokenzQdBNbLqP5VEhdkAS6EPFLC1PHnBqCXEpPxuEb''"

record transfer_policy =
  tsp_version :: string
  tsp_programVersions :: "(string \<times> string list) list"
  tsp_extensionVerdicts :: "(string \<times> transfer_support) list"

definition DEFAULT_TRANSFER_SEMANTICS_POLICY :: transfer_policy where
  "DEFAULT_TRANSFER_SEMANTICS_POLICY =
     \<lparr>tsp_version = TRANSFER_VERDICT_POLICY_VERSION,
      tsp_programVersions = [(SPL_TOKEN_PROGRAM_ID, [''1.0.0'']), (TOKEN_2022_PROGRAM_ID, [''1.0.0''])],
      tsp_extensionVerdicts =
        [(''BASE_TRANSFER'', KNOWN_MODELED), (''TRANSFER_FEE'', KNOWN_MODELED), (''TRANSFER_HOOK'', KNOWN_UNMODELED),
         (''DEFAULT_STATE'', KNOWN_MODELED), (''NON_TRANSFERABLE'', KNOWN_MODELED), (''CONFIDENTIAL_TRANSFER'', KNOWN_UNMODELED)]\<rparr>"

definition NAMES :: "(string \<times> string) list" where
  "NAMES =
     [(''base'', ''BASE_TRANSFER''), (''basetransfer'', ''BASE_TRANSFER''),
      (''transferfeeconfig'', ''TRANSFER_FEE''), (''transferfeeconfiguration'', ''TRANSFER_FEE''),
      (''transferhook'', ''TRANSFER_HOOK''), (''transferhookprogram'', ''TRANSFER_HOOK''),
      (''defaultaccountstate'', ''DEFAULT_STATE''),
      (''nontransferable'', ''NON_TRANSFERABLE''), (''nontransferableaccount'', ''NON_TRANSFERABLE''),
      (''confidentialtransfer'', ''CONFIDENTIAL_TRANSFER''), (''confidentialtransfermint'', ''CONFIDENTIAL_TRANSFER''),
      (''confidentialtransferaccount'', ''CONFIDENTIAL_TRANSFER''), (''confidentialtransferfeeconfig'', ''CONFIDENTIAL_TRANSFER''),
      (''confidentialtransferfeeamount'', ''CONFIDENTIAL_TRANSFER''), (''confidentialmintburn'', ''CONFIDENTIAL_TRANSFER''),
      (''transferfeeamount'', ''TRANSFER_FEE''), (''transferhookaccount'', ''TRANSFER_HOOK'')]"

text \<open>\<^verbatim>\<open>replaceAll(/[^a-zA-Z0-9]/g, '')\<close> and \<open>toLowerCase\<close> of what is left.\<close>

definition alphanumeric :: "char \<Rightarrow> bool" where
  "alphanumeric c \<longleftrightarrow>
     (let n = of_char c :: nat in 48 \<le> n \<and> n \<le> 57 \<or> 65 \<le> n \<and> n \<le> 90 \<or> 97 \<le> n \<and> n \<le> 122)"

definition lower_ascii :: "char \<Rightarrow> char" where
  "lower_ascii c = (let n = of_char c :: nat in if 65 \<le> n \<and> n \<le> 90 then char_of (n + 32) else c)"

definition normalize_name :: "string \<Rightarrow> string option" where
  "normalize_name v = map_of NAMES (map lower_ascii (filter alphanumeric v))"

definition supports_version :: "transfer_policy \<Rightarrow> string \<Rightarrow> string \<Rightarrow> bool" where
  "supports_version policy programId programVersion =
     (case map_of (tsp_programVersions policy) programId of None \<Rightarrow> False | Some vs \<Rightarrow> programVersion \<in> set vs)"

definition transferExtensionVerdict ::
  "string \<Rightarrow> string \<Rightarrow> string \<Rightarrow> bool \<Rightarrow> string \<Rightarrow> transfer_policy list option \<Rightarrow> transfer_support" where
  "transferExtensionVerdict programId programVersion extension present verdictPolicyVersion policies =
     (if \<not> present then NOT_PRESENT
      else case find (\<lambda>p. tsp_version p = verdictPolicyVersion)
                  (case policies of None \<Rightarrow> [DEFAULT_TRANSFER_SEMANTICS_POLICY] | Some ps \<Rightarrow> ps) of
        None \<Rightarrow> UNKNOWN_REQUIRED
      | Some policy \<Rightarrow>
          if \<not> supports_version policy programId programVersion then UNKNOWN_REQUIRED
          else case normalize_name extension of
            None \<Rightarrow> UNKNOWN_REQUIRED
          | Some canonical \<Rightarrow>
              (case map_of (tsp_extensionVerdicts policy) canonical of
                 Some KNOWN_MODELED \<Rightarrow> KNOWN_MODELED
               | Some KNOWN_UNMODELED \<Rightarrow> KNOWN_UNMODELED
               | _ \<Rightarrow> UNKNOWN_REQUIRED))"

text \<open>An extension as it is observed: a name, a number, or an object with a type and maybe data.\<close>

datatype ext_name = Name_string string | Name_number int

datatype mint_extension = Ext_plain ext_name | Ext_object ext_name "jsval option"

fun name_text :: "ext_name \<Rightarrow> string" where
  "name_text (Name_string s) = s"
| "name_text (Name_number n) = int_text n"

fun name_value :: "ext_name \<Rightarrow> jsval" where
  "name_value (Name_string s) = JsStr s"
| "name_value (Name_number n) = JsInt n"

fun raw_extension :: "mint_extension \<Rightarrow> string \<times> jsval" where
  "raw_extension (Ext_plain n) = (name_text n, name_value n)"
| "raw_extension (Ext_object n d) =
     (name_text n,
      (case d of
         Some v \<Rightarrow> if v = JsNull \<or> v = JsUndefined then JsObj [(''type'', name_value n), (''data'', v)] else v
       | None \<Rightarrow> JsObj [(''type'', name_value n)]))"

record extension_row =
  ter_assessmentId :: string
  ter_extensionType :: string
  ter_extensionDataHash :: string
  ter_support :: transfer_support
  ter_verdictPolicyVersion :: string
  ter_observedAt :: string
  ter_availableAt :: string
  ter_qualityCodes :: "string list"

record transfer_semantics_input =
  tsi_assessmentId :: string
  tsi_programId :: string
  tsi_programVersion :: string
  tsi_extensions :: "mint_extension list"
  tsi_verdictPolicyVersion :: string
  tsi_observedAt :: string
  tsi_availableAt :: string
  tsi_policies :: "transfer_policy list option"

text \<open>One row; the digest of the data, which may fail to serialise, is taken before the row is pushed.\<close>

definition row_of_extension ::
  "(string \<Rightarrow> string) \<Rightarrow> transfer_semantics_input \<Rightarrow> string \<Rightarrow> jsval \<Rightarrow> transfer_support \<Rightarrow> string list \<Rightarrow> extension_row res" where
  "row_of_extension sha input type data support codes =
     bindE (canonicalJson data) (\<lambda>json.
     Inr \<lparr>ter_assessmentId = tsi_assessmentId input, ter_extensionType = type, ter_extensionDataHash = sha256Text sha json,
          ter_support = support, ter_verdictPolicyVersion = tsi_verdictPolicyVersion input, ter_observedAt = tsi_observedAt input,
          ter_availableAt = tsi_availableAt input, ter_qualityCodes = codes\<rparr>)"

fun present_rows ::
  "(string \<Rightarrow> string) \<Rightarrow> transfer_semantics_input \<Rightarrow> transfer_policy list \<Rightarrow> string list \<Rightarrow> (string \<times> jsval) list \<Rightarrow> (extension_row list \<times> string list) res" where
  "present_rows sha input policies present [] = Inr ([], present)"
| "present_rows sha input policies present ((type, data) # rest) =
     (let canonical = normalize_name type
      in if (case canonical of Some c \<Rightarrow> c \<in> set present | None \<Rightarrow> False) then present_rows sha input policies present rest
      else
      let present' = (case canonical of Some c \<Rightarrow> c # present | None \<Rightarrow> present);
          support = transferExtensionVerdict (tsi_programId input) (tsi_programVersion input) type True
            (tsi_verdictPolicyVersion input) (Some policies)
      in
      bindE (row_of_extension sha input (case canonical of Some c \<Rightarrow> c | None \<Rightarrow> type) data support
               (if support = UNKNOWN_REQUIRED then [''TOKEN_EXTENSION_UNKNOWN''] else [''VALID''])) (\<lambda>row.
      bindE (present_rows sha input policies present' rest) (\<lambda>(rows, final). Inr (row # rows, final))))"

fun absent_rows :: "(string \<Rightarrow> string) \<Rightarrow> transfer_semantics_input \<Rightarrow> string list \<Rightarrow> string list \<Rightarrow> extension_row list res" where
  "absent_rows sha input present [] = Inr []"
| "absent_rows sha input present (extension # rest) =
     (if extension \<in> set present then absent_rows sha input present rest
      else
      bindE (row_of_extension sha input extension (JsObj [(''present'', JsBool False), (''extension'', JsStr extension)]) NOT_PRESENT [''VALID'']) (\<lambda>row.
      bindE (absent_rows sha input present rest) (\<lambda>rows. Inr (row # rows))))"

definition evaluateTransferSemantics ::
  "(string \<Rightarrow> int option) \<Rightarrow> (string \<Rightarrow> string) \<Rightarrow> transfer_semantics_input \<Rightarrow> extension_row list res" where
  "evaluateTransferSemantics date_parse sha input =
     (case (date_parse (tsi_observedAt input), date_parse (tsi_availableAt input)) of
        (Some observedAt, Some availableAt) \<Rightarrow>
          if availableAt < observedAt then Inl (OtherError ''AVAILABLE_AT_PRECEDES_OBSERVED_AT'')
          else
          let policies = (case tsi_policies input of None \<Rightarrow> [DEFAULT_TRANSFER_SEMANTICS_POLICY] | Some ps \<Rightarrow> ps)
          in if \<not> distinct (map tsp_version policies) then Inl (OtherError ''DUPLICATE_VERDICT_POLICY_VERSION'')
          else
          let policy = find (\<lambda>p. tsp_version p = tsi_verdictPolicyVersion input) policies;
              raw = map raw_extension (tsi_extensions input);
              names = (if raw = [] \<and> policy = None then [(''POLICY'', JsStr (tsi_verdictPolicyVersion input))] else raw)
          in
          bindE (present_rows sha input policies [] names) (\<lambda>(rows, present).
          bindE (case policy of
                   None \<Rightarrow> Inr []
                 | Some p \<Rightarrow>
                     if supports_version p (tsi_programId input) (tsi_programVersion input)
                     then absent_rows sha input present (sort (map fst (tsp_extensionVerdicts p))) else Inr []) (\<lambda>absent.
          if rows @ absent = []
          then bindE (row_of_extension sha input ''PROGRAM_OR_VERSION''
                        (JsObj [(''programId'', JsStr (tsi_programId input)), (''programVersion'', JsStr (tsi_programVersion input))])
                        UNKNOWN_REQUIRED [''UNSUPPORTED_PROGRAM_VERSION'']) (\<lambda>row. Inr [row])
          else Inr (rows @ absent)))
      | _ \<Rightarrow> Inl (OtherError ''INVALID_VERDICT_TIMESTAMP''))"

text \<open>\<open>blocksCompleteExecutionModeling\<close> of a row, and of an array of rows.\<close>

definition blocksCompleteExecutionModeling :: "extension_row \<Rightarrow> bool" where
  "blocksCompleteExecutionModeling row =
     (if ter_support row = UNKNOWN_REQUIRED then True
      else ter_support row \<noteq> KNOWN_MODELED \<and> ter_support row \<noteq> KNOWN_UNMODELED \<and> ter_support row \<noteq> NOT_PRESENT)"

definition rows_block :: "extension_row list \<Rightarrow> bool" where
  "rows_block rows = list_ex blocksCompleteExecutionModeling rows"

end
