(* ===== verification/TransferCosts.thy ===== *)
theory TransferCosts
  imports TransferSemantics
begin

text \<open>
  The transfer fee model and the adapter plane (packages/transfer-semantics/src/fee-model.ts, adapter.ts).
\<close>

section \<open>Fees\<close>

datatype cost_kind =
    POOL_FEE | AGGREGATOR_FEE | TRANSFER_FEE | TRANSFER_HOOK_COST | ACCOUNT_RENT | PRIORITY_FEE | NETWORK_FEE
  | EXECUTION_IMPACT | MEV_BUFFER | QUOTE_CONVERSION | MINIMUM_OUTPUT_SHORTFALL | RESIDUAL_INVENTORY

datatype cost_basis = OBSERVED | CONFIGURED | DERIVED | CONSERVATIVE_BOUND

record cost_component =
  ccm_kind :: cost_kind
  ccm_rawAmount :: int
  ccm_mint :: string
  ccm_basis :: cost_basis

record transfer_fee_configuration =
  tfc_applicableEpoch :: jsnum
  tfc_transferFeeBps :: jsnum
  tfc_maxFeeRaw :: int
  tfc_withheldAmountRaw :: "int option"
  tfc_observedAt :: string

record account_creation_cost =
  acn_accountFamily :: string
  acn_lamportsRequired :: int
  acn_basis :: cost_basis

record fee_model_input =
  fmi_inTokenMint :: string
  fmi_outTokenMint :: string
  fmi_rawAmountIn :: int
  fmi_inTokenTransferFee :: "transfer_fee_configuration option"
  fmi_outTokenTransferFee :: "transfer_fee_configuration option"
  fmi_extensionEvidence :: "extension_row list"
  fmi_accountCreations :: "account_creation_cost list option"
  fmi_hookCostRaw :: "int option"
  fmi_aggregatorFeeRaw :: "int option"

record fee_model_result =
  fmr_effectiveAmountIn :: int
  fmr_costs :: "cost_component list"
  fmr_sufficientData :: bool
  fmr_insufficientReasons :: "string list"

definition requirePositiveRaw :: "int \<Rightarrow> int res" where
  "requirePositiveRaw v = (if v \<le> 0 then Inl (ExecVocabularyError EXEC_LABEL_CLAUSES_INVALID) else Inr v)"

text \<open>\<open>BigInt\<close> of an integral number.\<close>

definition bigint_of :: "jsnum \<Rightarrow> int" where
  "bigint_of n = (case n of Fin a \<Rightarrow> \<lfloor>a\<rfloor> | _ \<Rightarrow> 0)"

definition transferFeeOn :: "int \<Rightarrow> transfer_fee_configuration \<Rightarrow> int res" where
  "transferFeeOn rawAmount config =
     bindE (requirePositiveRaw rawAmount) (\<lambda>_.
     if \<not> js_isInteger (tfc_transferFeeBps config) \<or> js_lt (tfc_transferFeeBps config) (Fin 0)
     then Inl (ExecVocabularyError EXEC_LABEL_CLAUSES_INVALID)
     else let fee = (rawAmount * bigint_of (tfc_transferFeeBps config)) div 10000
          in Inr (if 0 < tfc_maxFeeRaw config \<and> tfc_maxFeeRaw config < fee then tfc_maxFeeRaw config else fee))"

definition HOOK_FAMILIES :: "string set" where
  "HOOK_FAMILIES = {''TRANSFER_HOOK'', ''CONFIDENTIAL_TRANSFER''}"

text \<open>The two loops over the evidence rows: blocking rows, and hooks without a modelled and evidenced cost.\<close>

definition blocking_reasons :: "extension_row list \<Rightarrow> string list" where
  "blocking_reasons rows =
     map (\<lambda>row. ''EXTENSION_'' @ ter_extensionType row @ ''_UNSUPPORTED'') (filter blocksCompleteExecutionModeling rows)"

fun hook_reasons :: "int option \<Rightarrow> extension_row list \<Rightarrow> string list" where
  "hook_reasons hookCostRaw [] = []"
| "hook_reasons hookCostRaw (row # rows) =
     (if ter_extensionType row \<in> HOOK_FAMILIES then
        (if ter_support row = KNOWN_UNMODELED then [''HOOK_'' @ ter_extensionType row @ ''_UNMODELED'']
         else if ter_support row = KNOWN_MODELED then (if hookCostRaw = None then [''HOOK_COST_EVIDENCE_MISSING''] else [])
         else [])
      else []) @ hook_reasons hookCostRaw rows"

fun rent_costs :: "account_creation_cost list \<Rightarrow> (cost_component list \<times> string list) res" where
  "rent_costs [] = Inr ([], [])"
| "rent_costs (creation # rest) =
     (if acn_lamportsRequired creation < 0 then Inl (ExecVocabularyError EXEC_LABEL_CLAUSES_INVALID)
      else bindE (rent_costs rest) (\<lambda>(costs, reasons).
           Inr (if acn_lamportsRequired creation = 0 \<and> acn_basis creation \<noteq> OBSERVED
                then (costs, (''RENT_'' @ acn_accountFamily creation @ ''_EVIDENCE_MISSING'') # reasons)
                else (\<lparr>ccm_kind = ACCOUNT_RENT, ccm_rawAmount = acn_lamportsRequired creation, ccm_mint = ''SOL'',
                       ccm_basis = acn_basis creation\<rparr> # costs, reasons))))"

definition fee_cost :: "cost_kind \<Rightarrow> string \<Rightarrow> int \<Rightarrow> cost_component" where
  "fee_cost kind mint raw = \<lparr>ccm_kind = kind, ccm_rawAmount = raw, ccm_mint = mint, ccm_basis = OBSERVED\<rparr>"

text \<open>A cost that is given: it must be positive; one that is not given costs nothing here.\<close>

definition evidenced_cost :: "cost_kind \<Rightarrow> string \<Rightarrow> int option \<Rightarrow> cost_component list res" where
  "evidenced_cost kind mint v =
     (case v of None \<Rightarrow> Inr [] | Some raw \<Rightarrow> bindE (requirePositiveRaw raw) (\<lambda>a. Inr [fee_cost kind mint a]))"

definition composeTransferCosts :: "fee_model_input \<Rightarrow> fee_model_result res" where
  "composeTransferCosts input =
     bindE (requirePositiveRaw (fmi_rawAmountIn input)) (\<lambda>rawAmountIn.
     bindE (case fmi_inTokenTransferFee input of
              None \<Rightarrow> Inr None
            | Some config \<Rightarrow> bindE (transferFeeOn rawAmountIn config) (\<lambda>fee. Inr (Some fee))) (\<lambda>transferFee.
     bindE (evidenced_cost AGGREGATOR_FEE (fmi_inTokenMint input) (fmi_aggregatorFeeRaw input)) (\<lambda>aggregator.
     bindE (evidenced_cost TRANSFER_HOOK_COST (fmi_outTokenMint input) (fmi_hookCostRaw input)) (\<lambda>hook.
     bindE (rent_costs (case fmi_accountCreations input of None \<Rightarrow> [] | Some cs \<Rightarrow> cs)) (\<lambda>(rent, rentReasons).
     let reasons = blocking_reasons (fmi_extensionEvidence input) @ hook_reasons (fmi_hookCostRaw input) (fmi_extensionEvidence input) @ rentReasons
     in Inr \<lparr>fmr_effectiveAmountIn = rawAmountIn - (case transferFee of None \<Rightarrow> 0 | Some fee \<Rightarrow> fee),
             fmr_costs = (case transferFee of None \<Rightarrow> [] | Some fee \<Rightarrow> [fee_cost TRANSFER_FEE (fmi_inTokenMint input) fee]) @
               aggregator @ hook @ rent,
             fmr_sufficientData = (reasons = []), fmr_insufficientReasons = reasons\<rparr>)))))"

definition applyOutTransferFee :: "int \<Rightarrow> transfer_fee_configuration option \<Rightarrow> (int \<times> int) res" where
  "applyOutTransferFee poolOutputRaw config =
     bindE (requirePositiveRaw poolOutputRaw) (\<lambda>_.
     case config of
       None \<Rightarrow> Inr (poolOutputRaw, 0)
     | Some c \<Rightarrow> bindE (transferFeeOn poolOutputRaw c) (\<lambda>fee. Inr (poolOutputRaw - fee, fee)))"

section \<open>The adapter plane\<close>

record transfer_adapter =
  tsa_adapterId :: string
  tsa_version :: string
  tsa_chainId :: string
  tsa_programId :: string
  tsa_accountLayoutVersion :: string
  tsa_supportedProgramVersions :: "string list"
  tsa_verdictPolicyVersion :: string
  tsa_policies :: "transfer_policy list"

record transfer_query =
  tsq_chainId :: string
  tsq_programId :: string
  tsq_programVersion :: string
  tsq_accountLayoutVersion :: string

record transfer_binding = transfer_query +
  tsb_adapterId :: string
  tsb_adapterVersion :: string
  tsb_supportState :: adapter_support_state
  tsb_verdictPolicyVersion :: string

datatype transfer_refusal = UNSUPPORTED_PROGRAM_VERSION_refusal | UNSUPPORTED_PROGRAM | DEPRECATED_OPERATION | VERDICT_POLICY_UNAVAILABLE

datatype transfer_resolution = Bound transfer_binding | Refused exec_status transfer_refusal "string list"

definition adapter_resolve :: "transfer_adapter \<Rightarrow> transfer_query \<Rightarrow> transfer_resolution" where
  "adapter_resolve a q =
     (if tsq_chainId q \<noteq> tsa_chainId a \<or> tsq_programId q \<noteq> tsa_programId a
      then Refused Ex_EXECUTION_UNAVAILABLE UNSUPPORTED_PROGRAM [''EXECUTION_UNAVAILABLE'']
      else if tsq_programVersion q \<notin> set (tsa_supportedProgramVersions a)
      then Refused Ex_EXECUTION_UNAVAILABLE UNSUPPORTED_PROGRAM_VERSION_refusal [''UNSUPPORTED_PROGRAM_VERSION'']
      else if tsq_accountLayoutVersion q \<noteq> tsa_accountLayoutVersion a
      then Refused Ex_EXECUTION_UNAVAILABLE UNSUPPORTED_PROGRAM_VERSION_refusal [''UNSUPPORTED_PROGRAM_VERSION'']
      else Bound \<lparr>tsq_chainId = tsq_chainId q, tsq_programId = tsq_programId q, tsq_programVersion = tsq_programVersion q,
                  tsq_accountLayoutVersion = tsq_accountLayoutVersion q, tsb_adapterId = tsa_adapterId a,
                  tsb_adapterVersion = tsa_version a, tsb_supportState = Sup_AVAILABLE,
                  tsb_verdictPolicyVersion = tsa_verdictPolicyVersion a\<rparr>)"

definition extensionEvidence ::
  "(string \<Rightarrow> int option) \<Rightarrow> (string \<Rightarrow> string) \<Rightarrow> transfer_adapter \<Rightarrow> string \<Rightarrow> string \<Rightarrow> mint_extension list \<Rightarrow> string \<Rightarrow> string \<Rightarrow> extension_row list res" where
  "extensionEvidence date_parse sha a assessmentId programVersion extensions observedAt availableAt =
     evaluateTransferSemantics date_parse sha
       \<lparr>tsi_assessmentId = assessmentId, tsi_programId = tsa_programId a, tsi_programVersion = programVersion,
        tsi_extensions = extensions, tsi_verdictPolicyVersion = tsa_verdictPolicyVersion a, tsi_observedAt = observedAt,
        tsi_availableAt = availableAt, tsi_policies = (if tsa_policies a \<noteq> [] then Some (tsa_policies a) else None)\<rparr>"

definition adapter_key :: "transfer_adapter \<Rightarrow> string" where
  "adapter_key a = tsa_chainId a @ '':'' @ tsa_programId a @ '':'' @ tsa_accountLayoutVersion a @ '':'' @ tsa_version a"

definition TransferSemanticsRegistry :: "transfer_adapter list \<Rightarrow> transfer_adapter list res" where
  "TransferSemanticsRegistry adapters =
     (if card (adapter_key ` set adapters) \<noteq> length adapters then Inl (ExecVocabularyError EXEC_LABEL_CLAUSES_INVALID) else Inr adapters)"

fun registry_resolve :: "transfer_adapter list \<Rightarrow> transfer_query \<Rightarrow> transfer_resolution" where
  "registry_resolve [] q =
     Refused Ex_EXECUTION_UNAVAILABLE UNSUPPORTED_PROGRAM [''UNSUPPORTED_PROGRAM_VERSION'', ''EXECUTION_UNAVAILABLE'']"
| "registry_resolve (a # rest) q =
     (case adapter_resolve a q of Bound b \<Rightarrow> Bound b | Refused _ _ _ \<Rightarrow> registry_resolve rest q)"

section \<open>The cost of a fill\<close>

datatype fill_direction = ENTRY | EXIT

record fill_costs_input =
  efi_adapter :: transfer_adapter
  efi_programVersion :: string
  efi_assessmentId :: string
  efi_inTokenMint :: string
  efi_outTokenMint :: string
  efi_rawAmountIn :: int
  efi_inMintExtensions :: "mint_extension list"
  efi_outMintExtensions :: "mint_extension list"
  efi_observedAt :: string
  efi_availableAt :: string
  efi_inTokenTransferFee :: "transfer_fee_configuration option"
  efi_outTokenTransferFee :: "transfer_fee_configuration option"
  efi_accountCreations :: "account_creation_cost list option"
  efi_hookCostRaw :: "int option"
  efi_aggregatorFeeRaw :: "int option"
  efi_poolOutputRaw :: "int option"
  efi_direction :: "fill_direction option"

datatype fill_transfer_costs =
    MODELED fee_model_result "int option" "fill_direction option" string
  | INSUFFICIENT_DATA "string list" "string list" "fill_direction option" string

definition fee_input :: "fill_costs_input \<Rightarrow> extension_row list \<Rightarrow> fee_model_input" where
  "fee_input input rows =
     \<lparr>fmi_inTokenMint = efi_inTokenMint input, fmi_outTokenMint = efi_outTokenMint input, fmi_rawAmountIn = efi_rawAmountIn input,
      fmi_inTokenTransferFee = efi_inTokenTransferFee input, fmi_outTokenTransferFee = efi_outTokenTransferFee input,
      fmi_extensionEvidence = rows, fmi_accountCreations = efi_accountCreations input,
      fmi_hookCostRaw = efi_hookCostRaw input, fmi_aggregatorFeeRaw = efi_aggregatorFeeRaw input\<rparr>"

definition side_reasons :: "string \<Rightarrow> extension_row list \<Rightarrow> string list" where
  "side_reasons side rows =
     map (\<lambda>row. side @ ''_MINT_EXTENSION_'' @ ter_extensionType row @ ''_UNSUPPORTED'') (filter blocksCompleteExecutionModeling rows)"

definition evaluateFillTransferCosts ::
  "(string \<Rightarrow> int option) \<Rightarrow> (string \<Rightarrow> string) \<Rightarrow> fill_costs_input \<Rightarrow> fill_transfer_costs res" where
  "evaluateFillTransferCosts date_parse sha input =
     bindE (requirePositiveRaw (efi_rawAmountIn input)) (\<lambda>_.
     let a = efi_adapter input;
         evidence = (\<lambda>extensions. extensionEvidence date_parse sha a (efi_assessmentId input) (efi_programVersion input) extensions
           (efi_observedAt input) (efi_availableAt input))
     in
     bindE (evidence (efi_inMintExtensions input)) (\<lambda>inRows.
     bindE (evidence (efi_outMintExtensions input)) (\<lambda>outRows.
     let insufficient = side_reasons ''IN'' inRows @ side_reasons ''OUT'' outRows
     in if insufficient \<noteq> []
        then Inr (INSUFFICIENT_DATA insufficient [''INSUFFICIENT_DATA''] (efi_direction input) (tsa_verdictPolicyVersion a))
        else
        bindE (composeTransferCosts (fee_input input (inRows @ outRows))) (\<lambda>result.
        if \<not> fmr_sufficientData result
        then Inr (INSUFFICIENT_DATA (fmr_insufficientReasons result) [''INSUFFICIENT_DATA''] (efi_direction input) (tsa_verdictPolicyVersion a))
        else
        bindE (case efi_poolOutputRaw input of
                 None \<Rightarrow> Inr None
               | Some out \<Rightarrow> bindE (applyOutTransferFee out (efi_outTokenTransferFee input)) (\<lambda>(net, fee). Inr (Some net))) (\<lambda>netPoolOutput.
        Inr (MODELED result netPoolOutput (efi_direction input) (tsa_verdictPolicyVersion a)))))))"

section \<open>Unknown semantics never pass\<close>

text \<open>The verdict on a present extension depends on its canonical name only.\<close>

lemma verdict_normalize:
  "normalize_name t = normalize_name t' \<Longrightarrow>
   transferExtensionVerdict programId programVersion t True version policies = transferExtensionVerdict programId programVersion t' True version policies"
  by (simp only: transferExtensionVerdict_def)

lemma row_of_extension_Inr:
  "row_of_extension sha input type data support codes = Inr row \<Longrightarrow> ter_extensionType row = type \<and> ter_support row = support"
  by (auto simp: row_of_extension_def bindE_eq_Inr)

definition row_name :: "string \<Rightarrow> string" where
  "row_name t = (case normalize_name t of Some c \<Rightarrow> c | None \<Rightarrow> t)"

lemma present_rows_cover:
  assumes "present_rows sha input policies present names = Inr (rows, final)" and "(t, d) \<in> set names"
  shows "(\<exists>row \<in> set rows. ter_extensionType row = row_name t \<and>
      ter_support row = transferExtensionVerdict (tsi_programId input) (tsi_programVersion input) t True (tsi_verdictPolicyVersion input) (Some policies)) \<or>
    (\<exists>c. normalize_name t = Some c \<and> c \<in> set present)"
  using assms
proof (induction sha input policies present names arbitrary: rows final rule: present_rows.induct)
  case (2 sha input policies present type data rest)
  let ?verdict = "\<lambda>t. transferExtensionVerdict (tsi_programId input) (tsi_programVersion input) t True (tsi_verdictPolicyVersion input) (Some policies)"
  show ?case
  proof (cases "case normalize_name type of Some c \<Rightarrow> c \<in> set present | None \<Rightarrow> False")
    case True
    then obtain c where c: "normalize_name type = Some c" "c \<in> set present" by (auto split: option.splits)
    have run: "present_rows sha input policies present rest = Inr (rows, final)" using 2(3) c by simp
    show ?thesis
    proof (cases "(t, d) \<in> set rest")
      case in_rest: True
      show ?thesis using "2.IH"(1) [OF refl True run in_rest] .
    next
      case False
      then show ?thesis using 2(4) c by auto
    qed
  next
    case False
    let ?present = "case normalize_name type of Some c \<Rightarrow> c # present | None \<Rightarrow> present"
    obtain row rows' where row: "ter_extensionType row = row_name type" "ter_support row = ?verdict type"
      and rest: "present_rows sha input policies ?present rest = Inr (rows', final)" and rows: "rows = row # rows'"
      using 2(3) False unfolding present_rows.simps Let_def if_not_P [OF False] row_name_def
      by (auto simp: bindE_eq_Inr dest!: row_of_extension_Inr)
    show ?thesis
    proof (cases "(t, d) \<in> set rest")
      case in_rest: True
      from "2.IH"(2) [OF refl False refl refl rest in_rest] show ?thesis
      proof
        assume "\<exists>c. normalize_name t = Some c \<and> c \<in> set ?present"
        then show ?thesis using row rows verdict_normalize [of t type] by (auto simp: row_name_def split: option.splits)
      qed (use rows in auto)
    next
      case False
      then have "t = type" using 2(4) by auto
      then show ?thesis using row rows by auto
    qed
  qed
qed simp

definition adapter_policies :: "transfer_adapter \<Rightarrow> transfer_policy list" where
  "adapter_policies a = (if tsa_policies a \<noteq> [] then tsa_policies a else [DEFAULT_TRANSFER_SEMANTICS_POLICY])"

text \<open>An observed extension that the adapter's policy knows, for the program version, and whose cost is modelled.\<close>

definition known_extension :: "transfer_adapter \<Rightarrow> string \<Rightarrow> string \<Rightarrow> string \<Rightarrow> transfer_support \<Rightarrow> bool" where
  "known_extension a programVersion t c v \<longleftrightarrow>
     (\<exists>policy \<in> set (adapter_policies a). tsp_version policy = tsa_verdictPolicyVersion a \<and>
        supports_version policy (tsa_programId a) programVersion \<and> normalize_name t = Some c \<and>
        map_of (tsp_extensionVerdicts policy) c = Some v)"

definition modelled_extension :: "transfer_adapter \<Rightarrow> string \<Rightarrow> int option \<Rightarrow> mint_extension \<Rightarrow> bool" where
  "modelled_extension a programVersion hookCost x \<longleftrightarrow>
     (\<exists>c v. known_extension a programVersion (fst (raw_extension x)) c v \<and>
        (v = KNOWN_MODELED \<and> (c \<in> HOOK_FAMILIES \<longrightarrow> hookCost \<noteq> None) \<or> v = KNOWN_UNMODELED \<and> c \<notin> HOOK_FAMILIES))"

lemma verdict_known:
  assumes "transferExtensionVerdict (tsa_programId a) programVersion t True (tsa_verdictPolicyVersion a) (Some (adapter_policies a)) = v"
    and "v \<noteq> UNKNOWN_REQUIRED"
  shows "known_extension a programVersion t (row_name t) v \<and> (v = KNOWN_MODELED \<or> v = KNOWN_UNMODELED)"
  using assms unfolding transferExtensionVerdict_def known_extension_def
  by (auto simp: find_Some_iff row_name_def split: option.splits if_splits transfer_support.splits)

lemma evidence_cover:
  assumes "extensionEvidence date_parse sha a assessmentId programVersion xs observedAt availableAt = Inr rows" and "x \<in> set xs"
  shows "\<exists>row \<in> set rows. ter_extensionType row = row_name (fst (raw_extension x)) \<and>
     ter_support row = transferExtensionVerdict (tsa_programId a) programVersion (fst (raw_extension x)) True (tsa_verdictPolicyVersion a) (Some (adapter_policies a))"
proof -
  let ?i = "\<lparr>tsi_assessmentId = assessmentId, tsi_programId = tsa_programId a, tsi_programVersion = programVersion,
        tsi_extensions = xs, tsi_verdictPolicyVersion = tsa_verdictPolicyVersion a, tsi_observedAt = observedAt,
        tsi_availableAt = availableAt, tsi_policies = (if tsa_policies a \<noteq> [] then Some (tsa_policies a) else None)\<rparr>"
  have policies: "(case tsi_policies ?i of None \<Rightarrow> [DEFAULT_TRANSFER_SEMANTICS_POLICY] | Some ps \<Rightarrow> ps) = adapter_policies a"
    by (simp add: adapter_policies_def)
  have ne: "map raw_extension xs \<noteq> []" using assms(2) by auto
  obtain prs final absent where p: "present_rows sha ?i (adapter_policies a) [] (map raw_extension xs) = Inr (prs, final)" and r: "rows = prs @ absent"
  proof -
    obtain o1 o2 where "date_parse observedAt = Some o1" "date_parse availableAt = Some o2" "\<not> o2 < o1"
      "distinct (map tsp_version (adapter_policies a))"
      using assms(1) unfolding extensionEvidence_def evaluateTransferSemantics_def policies Let_def
      by (auto split: option.splits if_splits)
    then show thesis
      using assms(1) ne that unfolding extensionEvidence_def evaluateTransferSemantics_def policies Let_def
      by (auto simp: bindE_eq_Inr split: option.splits if_splits)
  qed
  obtain t d where td: "raw_extension x = (t, d)" by (cases "raw_extension x")
  then have "(t, d) \<in> set (map raw_extension xs)" using assms(2) by (metis image_eqI set_map)
  from present_rows_cover [OF p this] show ?thesis using r td by auto
qed

section \<open>The costs of a fill are complete and exact\<close>

text \<open>The fee that a configuration levies on an amount: the rational share, rounded down, up to a positive cap.\<close>

definition fee_value :: "transfer_fee_configuration option \<Rightarrow> int \<Rightarrow> int" where
  "fee_value config raw =
     (case config of
        None \<Rightarrow> 0
      | Some c \<Rightarrow>
          (case tfc_transferFeeBps c of
             Fin bps \<Rightarrow>
               let share = \<lfloor>of_int raw * bps / 10000\<rfloor>
               in if 0 < tfc_maxFeeRaw c then min share (tfc_maxFeeRaw c) else share
           | _ \<Rightarrow> 0))"

lemma requirePositiveRaw_eq_Inr: "requirePositiveRaw v = Inr a \<longleftrightarrow> 0 < v \<and> a = v"
  by (auto simp: requirePositiveRaw_def)

lemma transferFeeOn_value:
  assumes "transferFeeOn raw config = Inr fee"
  shows "fee = fee_value (Some config) raw \<and> 0 \<le> fee \<and> 0 < raw"
proof -
  obtain a where a: "tfc_transferFeeBps config = Fin a" "a = of_int \<lfloor>a\<rfloor>" "0 \<le> a"
    using assms by (cases "tfc_transferFeeBps config") (auto simp: transferFeeOn_def bindE_eq_Inr split: if_splits)
  define bps where "bps = \<lfloor>a\<rfloor>"
  then have bps: "tfc_transferFeeBps config = Fin (of_int bps)" "0 \<le> bps" using a by simp_all
  have raw: "0 < raw" using assms by (auto simp: transferFeeOn_def bindE_eq_Inr requirePositiveRaw_eq_Inr)
  have "\<lfloor>of_int raw * of_int bps / (10000 :: rat)\<rfloor> = (raw * bps) div 10000"
    using floor_divide_of_int_eq [of "raw * bps" 10000, where ?'a = rat] by simp
  moreover have "0 \<le> (raw * bps) div 10000" using raw bps by (simp add: pos_imp_zdiv_nonneg_iff)
  ultimately show ?thesis
    using assms bps raw
    by (auto simp: transferFeeOn_def bindE_eq_Inr fee_value_def bigint_of_def Let_def min_def split: if_splits)
qed

lemma evidenced_cost_nonneg:
  "evidenced_cost kind mint v = Inr costs \<Longrightarrow> \<forall>c \<in> set costs. 0 \<le> ccm_rawAmount c"
  by (auto simp: evidenced_cost_def bindE_eq_Inr requirePositiveRaw_eq_Inr fee_cost_def split: option.splits)

lemma rent_costs_nonneg:
  "rent_costs cs = Inr (costs, reasons) \<Longrightarrow> \<forall>c \<in> set costs. 0 \<le> ccm_rawAmount c"
  by (induction cs arbitrary: costs reasons) (auto simp: bindE_eq_Inr split: if_splits)

lemma compose_value:
  assumes "composeTransferCosts input = Inr r"
  shows "fmr_effectiveAmountIn r = fmi_rawAmountIn input - fee_value (fmi_inTokenTransferFee input) (fmi_rawAmountIn input)"
    and "\<forall>c \<in> set (fmr_costs r). 0 \<le> ccm_rawAmount c"
    and "fmr_sufficientData r \<longleftrightarrow> fmr_insufficientReasons r = []"
    and "fmr_sufficientData r \<Longrightarrow> hook_reasons (fmi_hookCostRaw input) (fmi_extensionEvidence input) = []"
proof -
  obtain fee aggregator hook rent reasons where
    pos: "0 < fmi_rawAmountIn input" and
    fee: "(case fmi_inTokenTransferFee input of None \<Rightarrow> Inr None
       | Some config \<Rightarrow> bindE (transferFeeOn (fmi_rawAmountIn input) config) (\<lambda>fee. Inr (Some fee))) = Inr fee" and
    aggregator: "evidenced_cost AGGREGATOR_FEE (fmi_inTokenMint input) (fmi_aggregatorFeeRaw input) = Inr aggregator" and
    hook: "evidenced_cost TRANSFER_HOOK_COST (fmi_outTokenMint input) (fmi_hookCostRaw input) = Inr hook" and
    rent: "rent_costs (case fmi_accountCreations input of None \<Rightarrow> [] | Some cs \<Rightarrow> cs) = Inr (rent, reasons)" and
    r: "r = (let reasons = blocking_reasons (fmi_extensionEvidence input) @
               hook_reasons (fmi_hookCostRaw input) (fmi_extensionEvidence input) @ reasons
        in \<lparr>fmr_effectiveAmountIn = fmi_rawAmountIn input - (case fee of None \<Rightarrow> 0 | Some fee \<Rightarrow> fee),
             fmr_costs = (case fee of None \<Rightarrow> [] | Some fee \<Rightarrow> [fee_cost TRANSFER_FEE (fmi_inTokenMint input) fee]) @
               aggregator @ hook @ rent,
             fmr_sufficientData = (reasons = []), fmr_insufficientReasons = reasons\<rparr>)"
    using assms unfolding composeTransferCosts_def by (auto simp: bindE_eq_Inr requirePositiveRaw_eq_Inr Let_def)
  have f: "(case fee of None \<Rightarrow> 0 | Some fee \<Rightarrow> fee) = fee_value (fmi_inTokenTransferFee input) (fmi_rawAmountIn input) \<and>
    (\<forall>v. fee = Some v \<longrightarrow> 0 \<le> v)"
    using fee transferFeeOn_value by (fastforce simp: fee_value_def bindE_eq_Inr split: option.splits)
  show "fmr_effectiveAmountIn r = fmi_rawAmountIn input - fee_value (fmi_inTokenTransferFee input) (fmi_rawAmountIn input)"
    using f r by (simp add: Let_def)
  show "\<forall>c \<in> set (fmr_costs r). 0 \<le> ccm_rawAmount c"
    using f r evidenced_cost_nonneg [OF aggregator] evidenced_cost_nonneg [OF hook] rent_costs_nonneg [OF rent]
    by (auto simp: Let_def fee_cost_def split: option.splits)
  show "fmr_sufficientData r \<longleftrightarrow> fmr_insufficientReasons r = []"
    and "fmr_sufficientData r \<Longrightarrow> hook_reasons (fmi_hookCostRaw input) (fmi_extensionEvidence input) = []"
    using r by (auto simp: Let_def)
qed

lemma hook_reasons_none:
  "hook_reasons h rows = [] \<Longrightarrow> row \<in> set rows \<Longrightarrow> ter_extensionType row \<in> HOOK_FAMILIES \<Longrightarrow>
   ter_support row \<noteq> KNOWN_UNMODELED \<and> (ter_support row = KNOWN_MODELED \<longrightarrow> h \<noteq> None)"
  by (induction h rows rule: hook_reasons.induct) (auto split: if_splits)

text \<open>Without reasons against the evidence, every observed extension is known and its cost is modelled.\<close>

lemma extensions_modelled:
  assumes evidence: "extensionEvidence date_parse sha a assessmentId programVersion xs observedAt availableAt = Inr rows"
    and free: "filter blocksCompleteExecutionModeling rows = []" and hooks: "hook_reasons h all_rows = []"
    and sub: "set rows \<subseteq> set all_rows"
  shows "list_all (modelled_extension a programVersion h) xs"
  unfolding list_all_iff
proof
  fix x assume "x \<in> set xs"
  let ?t = "fst (raw_extension x)"
  obtain row where row: "row \<in> set rows" "ter_extensionType row = row_name ?t"
    "ter_support row = transferExtensionVerdict (tsa_programId a) programVersion ?t True (tsa_verdictPolicyVersion a) (Some (adapter_policies a))"
    using evidence_cover [OF evidence \<open>x \<in> set xs\<close>] by auto
  have "ter_support row \<noteq> UNKNOWN_REQUIRED"
    using free row(1) by (auto simp: filter_empty_conv blocksCompleteExecutionModeling_def)
  from verdict_known [OF row(3) [symmetric] this] show "modelled_extension a programVersion h x"
    unfolding modelled_extension_def using hook_reasons_none [OF hooks, of row] row sub by auto
qed

lemma registry_binds:
  "(\<exists>b. registry_resolve adapters q = Bound b) \<longleftrightarrow>
     list_ex (\<lambda>a. tsq_chainId q = tsa_chainId a \<and> tsq_programId q = tsa_programId a \<and>
       tsq_programVersion q \<in> set (tsa_supportedProgramVersions a) \<and> tsq_accountLayoutVersion q = tsa_accountLayoutVersion a) adapters"
  by (induction adapters) (auto simp: adapter_resolve_def)

text \<open>An input mint with a transfer fee extension whose configuration is not given.\<close>

definition sample_fill :: fill_costs_input where
  "sample_fill =
     \<lparr>efi_adapter = \<lparr>tsa_adapterId = [], tsa_version = [], tsa_chainId = [], tsa_programId = TOKEN_2022_PROGRAM_ID,
        tsa_accountLayoutVersion = [], tsa_supportedProgramVersions = [''1.0.0''],
        tsa_verdictPolicyVersion = TRANSFER_VERDICT_POLICY_VERSION, tsa_policies = []\<rparr>,
      efi_programVersion = ''1.0.0'', efi_assessmentId = [], efi_inTokenMint = [], efi_outTokenMint = [], efi_rawAmountIn = 7,
      efi_inMintExtensions = [Ext_plain (Name_string ''transferFeeConfig'')], efi_outMintExtensions = [], efi_observedAt = [],
      efi_availableAt = [], efi_inTokenTransferFee = None, efi_outTokenTransferFee = None, efi_accountCreations = None,
      efi_hookCostRaw = None, efi_aggregatorFeeRaw = None, efi_poolOutputRaw = None, efi_direction = None\<rparr>"

lemma sample_fee_fill:
  "evaluateFillTransferCosts (\<lambda>_. Some 0) (\<lambda>_. []) sample_fill =
     Inr (MODELED \<lparr>fmr_effectiveAmountIn = 7, fmr_costs = [], fmr_sufficientData = True, fmr_insufficientReasons = []\<rparr> None None
       TRANSFER_VERDICT_POLICY_VERSION)"
  by code_simp


end
