(* ===== verification/RouteSelection.thy ===== *)
theory RouteSelection
  imports Degradation DeadLetters "HOL-Library.Multiset" "HOL-Library.Product_Lexorder"
begin

text \<open>
  Point-in-time route selection (packages/execution-simulator/src/routes.ts): of the routes that were
  known at the slot of the action, the one created first. The selection does not depend on the order
  of the candidates.
\<close>

section \<open>Candidates\<close>

record selection_leg =
  rtl_poolId :: string
  rtl_poolCreatedSlot :: jsnum

record migration_edge =
  mge_edgeId :: string
  mge_fromProgramVersion :: string
  mge_toProgramVersion :: string
  mge_migrationCompletedSlot :: jsnum

record route_candidate =
  rtc_routeId :: js_unknown
  rtc_createdSlot :: js_unknown
  rtc_legs :: "selection_leg list option"
  rtc_migrationEdges :: "migration_edge list option"

record route_selection_input =
  rsi_actionSlot :: js_unknown
  rsi_candidates :: "route_candidate option list option"
  rsi_requireMigrationToVersion :: "string option"

datatype route_refusal =
  POOL_CREATED_AFTER_ACTION_TIME | ROUTE_CREATED_AFTER_ACTION_TIME | MIGRATION_NOT_COMPLETED_AT_ACTION_SLOT | EMPTY_ROUTE

record route_selection_result =
  rsr_routeId :: "string option"
  rsr_refusals :: "(string \<times> route_refusal) list"
  rsr_eligibleOrder :: "string list"

definition require_slot :: "js_unknown \<Rightarrow> int res" where
  "require_slot v =
     (case integer_number v of
        None \<Rightarrow> Inl (ExecVocabularyError EXEC_LABEL_CLAUSES_INVALID)
      | Some n \<Rightarrow> if n < 0 then Inl (ExecVocabularyError EXEC_LABEL_CLAUSES_INVALID) else Inr n)"

text \<open>One turn of the loop: the id and slot of a candidate, with the reason it is refused for.\<close>

definition assess_route :: "int \<Rightarrow> string option \<Rightarrow> route_candidate option \<Rightarrow> (string \<times> int \<times> route_refusal option) res" where
  "assess_route actionSlot required arg =
     (case arg of
        None \<Rightarrow> Inl (ExecVocabularyError EXEC_LABEL_CLAUSES_INVALID)
      | Some candidate \<Rightarrow>
          bindE (require_non_empty (rtc_routeId candidate)) (\<lambda>routeId.
          bindE (require_slot (rtc_createdSlot candidate)) (\<lambda>createdSlot.
          let legs = (case rtc_legs candidate of None \<Rightarrow> [] | Some ls \<Rightarrow> ls);
              edge = (case required of
                        None \<Rightarrow> None
                      | Some v \<Rightarrow> find (\<lambda>e. mge_toProgramVersion e = v)
                          (case rtc_migrationEdges candidate of None \<Rightarrow> [] | Some es \<Rightarrow> es))
          in Inr (routeId, createdSlot,
               (if legs = [] then Some EMPTY_ROUTE
                else if list_ex (\<lambda>leg. js_lt (Fin (of_int actionSlot)) (rtl_poolCreatedSlot leg)) legs then Some POOL_CREATED_AFTER_ACTION_TIME
                else if actionSlot < createdSlot then Some ROUTE_CREATED_AFTER_ACTION_TIME
                else if required \<noteq> None \<and> (case edge of None \<Rightarrow> True | Some e \<Rightarrow> js_lt (Fin (of_int actionSlot)) (mge_migrationCompletedSlot e))
                then Some MIGRATION_NOT_COMPLETED_AT_ACTION_SLOT
                else None)))))"

definition selectRouteAtActionTime :: "route_selection_input option \<Rightarrow> route_selection_result res" where
  "selectRouteAtActionTime arg =
     (case arg of
        None \<Rightarrow> Inl (ExecVocabularyError EXEC_LABEL_CLAUSES_INVALID)
      | Some input \<Rightarrow>
          bindE (require_slot (rsi_actionSlot input)) (\<lambda>actionSlot.
          case rsi_candidates input of
            None \<Rightarrow> Inl (ExecVocabularyError EXEC_LABEL_CLAUSES_INVALID)
          | Some candidates \<Rightarrow>
              bindE (map_rows candidates (assess_route actionSlot (rsi_requireMigrationToVersion input))) (\<lambda>rows.
              let refusals = List.map_filter (\<lambda>(k, s, refusal). map_option (Pair k) refusal) rows;
                  eligible = List.map_filter (\<lambda>(k, s, refusal). if refusal = None then Some (s, k) else None) rows;
                  ordered = sort eligible
              in Inr \<lparr>rsr_routeId = (case ordered of [] \<Rightarrow> None | e # _ \<Rightarrow> Some (snd e)),
                      rsr_refusals = refusals, rsr_eligibleOrder = map snd ordered\<rparr>)))"

section \<open>What is selected\<close>

text \<open>A route that was known at the action slot, with its slot of creation and its id.\<close>

definition routable :: "int \<Rightarrow> string option \<Rightarrow> route_candidate \<Rightarrow> int \<times> string \<Rightarrow> bool" where
  "routable a required c sk \<longleftrightarrow>
     rtc_routeId c = U_string (snd sk) \<and> integer_number (rtc_createdSlot c) = Some (fst sk) \<and> fst sk \<le> a \<and>
     (\<exists>legs. rtc_legs c = Some legs \<and> legs \<noteq> [] \<and> (\<forall>leg \<in> set legs. \<not> js_lt (Fin (of_int a)) (rtl_poolCreatedSlot leg))) \<and>
     (\<forall>v. required = Some v \<longrightarrow>
        (\<exists>e es. rtc_migrationEdges c = Some es \<and> find (\<lambda>e. mge_toProgramVersion e = v) es = Some e \<and>
           \<not> js_lt (Fin (of_int a)) (mge_migrationCompletedSlot e)))"

definition well_formed_candidate :: "route_candidate option \<Rightarrow> bool" where
  "well_formed_candidate arg \<longleftrightarrow>
     (\<exists>c n. arg = Some c \<and> non_empty_string (rtc_routeId c) \<and> integer_number (rtc_createdSlot c) = Some n \<and> 0 \<le> n)"

lemma require_slot_Inr: "require_slot v = Inr n \<longleftrightarrow> integer_number v = Some n \<and> 0 \<le> n"
  by (auto simp: require_slot_def split: option.splits)

lemma assess_ok: "well_formed_candidate arg \<longleftrightarrow> (\<exists>row. assess_route a required arg = Inr row)"
  by (auto simp: well_formed_candidate_def assess_route_def bindE_eq_Inr require_slot_Inr require_non_empty_Inr non_empty_string_def Let_def
      split: option.splits js_unknown.splits)

lemma assess_fails: "assess_route a required arg = Inl e \<Longrightarrow> e = ExecVocabularyError EXEC_LABEL_CLAUSES_INVALID"
  by (auto simp: assess_route_def bindE_eq_Inl require_slot_def require_non_empty_def Let_def split: option.splits js_unknown.splits if_splits)

lemma assess_routable:
  assumes "assess_route a required (Some c) = Inr (k, s, refusal)"
  shows "refusal = None \<longleftrightarrow> routable a required c (s, k)" and "routable a required c sk \<Longrightarrow> sk = (s, k)"
proof -
  have r: "rtc_routeId c = U_string k" "integer_number (rtc_createdSlot c) = Some s"
    using assms by (auto simp: assess_route_def bindE_eq_Inr require_slot_Inr require_non_empty_Inr Let_def)
  then show "routable a required c sk \<Longrightarrow> sk = (s, k)" by (auto simp: routable_def prod_eq_iff)
  show "refusal = None \<longleftrightarrow> routable a required c (s, k)"
    using assms r by (auto simp: assess_route_def bindE_eq_Inr Let_def routable_def list_ex_iff split: option.splits if_splits)
qed

lemma map_rows_fails:
  assumes "\<And>x e. f x = Inl e \<Longrightarrow> e = err"
  shows "map_rows xs f = (if \<forall>x \<in> set xs. \<exists>y. f x = Inr y then Inr (map (\<lambda>x. projr (f x)) xs) else Inl err)"
proof (induction xs)
  case (Cons x xs)
  then show ?case using assms by (cases "f x") (auto simp: bindE_def split: sum.splits if_splits)
qed simp

text \<open>The eligible routes of a list of candidates.\<close>

definition eligible_of :: "int \<Rightarrow> string option \<Rightarrow> route_candidate option list \<Rightarrow> (int \<times> string) list" where
  "eligible_of a required cs =
     List.map_filter (\<lambda>(k, s, refusal). if refusal = None then Some (s, k) else None) (map (\<lambda>c. projr (assess_route a required c)) cs)"

lemma select_eq:
  assumes "integer_number (rsi_actionSlot i) = Some a" "0 \<le> a" "rsi_candidates i = Some cs"
  shows "selectRouteAtActionTime (Some i) =
    (if \<forall>c \<in> set cs. well_formed_candidate c
     then Inr \<lparr>rsr_routeId = (case sort (eligible_of a (rsi_requireMigrationToVersion i) cs) of [] \<Rightarrow> None | e # _ \<Rightarrow> Some (snd e)),
               rsr_refusals = List.map_filter (\<lambda>(k, s, refusal). map_option (Pair k) refusal)
                 (map (\<lambda>c. projr (assess_route a (rsi_requireMigrationToVersion i) c)) cs),
               rsr_eligibleOrder = map snd (sort (eligible_of a (rsi_requireMigrationToVersion i) cs))\<rparr>
     else Inl (ExecVocabularyError EXEC_LABEL_CLAUSES_INVALID))"
proof -
  let ?f = "assess_route a (rsi_requireMigrationToVersion i)"
  have "require_slot (rsi_actionSlot i) = Inr a" using assms by (simp add: require_slot_Inr)
  moreover have "map_rows cs ?f = (if \<forall>c \<in> set cs. \<exists>y. ?f c = Inr y then Inr (map (\<lambda>c. projr (?f c)) cs)
     else Inl (ExecVocabularyError EXEC_LABEL_CLAUSES_INVALID))"
    by (rule map_rows_fails) (rule assess_fails)
  ultimately show ?thesis using assms(3)
    by (simp add: selectRouteAtActionTime_def eligible_of_def Let_def assess_ok [of _ a "rsi_requireMigrationToVersion i"])
qed

lemma map_filter_set: "x \<in> set (List.map_filter f xs) \<longleftrightarrow> (\<exists>y \<in> set xs. f y = Some x)"
  by (force simp: List.map_filter_def image_iff)

lemma eligible_set:
  assumes "\<forall>c \<in> set cs. well_formed_candidate c"
  shows "sk \<in> set (eligible_of a required cs) \<longleftrightarrow> (\<exists>c. Some c \<in> set cs \<and> routable a required c sk)"
proof -
  have "(case projr (assess_route a required arg) of (k, s, refusal) \<Rightarrow> if refusal = None then Some (s, k) else None) = Some sk \<longleftrightarrow>
      (\<exists>c. arg = Some c \<and> routable a required c sk)" if wf: "well_formed_candidate arg" for arg
  proof -
    obtain c where c: "arg = Some c" using wf by (auto simp: well_formed_candidate_def)
    obtain row where "assess_route a required arg = Inr row" using wf assess_ok [of arg a required] by blast
    then obtain k s refusal where row: "assess_route a required arg = Inr (k, s, refusal)" by (cases row) auto
    then have "routable a required c sk \<longleftrightarrow> refusal = None \<and> sk = (s, k)"
      using assess_routable [of a required c k s refusal] c by metis
    then show ?thesis using row unfolding c by auto
  qed
  note row = this
  have "sk \<in> set (eligible_of a required cs) \<longleftrightarrow> (\<exists>arg \<in> set cs. \<exists>c. arg = Some c \<and> routable a required c sk)"
    using row assms by (simp add: eligible_of_def map_filter_set)
  then show ?thesis by blast
qed

lemma map_filter_mset: "mset (List.map_filter f xs) = image_mset (the \<circ> f) (filter_mset (\<lambda>x. f x \<noteq> None) (mset xs))"
  by (simp add: List.map_filter_def)

lemma eligible_perm: "mset cs = mset cs' \<Longrightarrow> sort (eligible_of a required cs) = sort (eligible_of a required cs')"
  by (rule properties_for_sort) (simp_all add: eligible_of_def map_filter_mset)

lemma rows_partition:
  "length (List.map_filter (\<lambda>(k, s, refusal). map_option (Pair k) refusal) rows) +
   length (List.map_filter (\<lambda>(k, s, refusal). if refusal = None then Some (s, k) else None) rows) = length rows"
  by (induction rows) (auto simp: List.map_filter_simps split: option.splits)

text \<open>
  C29 (route_selection_exact). For an action slot and a list of candidates, the selection refuses exactly the
  malformed ones among the lists. Otherwise every candidate is either refused with one reason or
  eligible; a route is selected exactly when one was routable at the action slot, and it is the one with the
  least slot of creation and, among equals, the least id. Reordering the candidates changes neither the
  selected route nor the order of the eligible ones, nor whether the list is refused. (The slot of a pool is
  not validated: a leg whose slot is not a number counts as created before the action.)
\<close>

theorem route_selection_exact:
  assumes "integer_number (rsi_actionSlot i) = Some a" "0 \<le> a" "rsi_candidates i = Some cs" "mset cs' = mset cs"
  shows "(case selectRouteAtActionTime (Some i) of
      Inl e \<Rightarrow> (\<exists>c \<in> set cs. \<not> well_formed_candidate c) \<and> selectRouteAtActionTime (Some (i\<lparr>rsi_candidates := Some cs'\<rparr>)) = Inl e
    | Inr r \<Rightarrow>
        (\<forall>c \<in> set cs. well_formed_candidate c) \<and>
        length (rsr_refusals r) + length (rsr_eligibleOrder r) = length cs \<and>
        (case rsr_routeId r of
           None \<Rightarrow> \<not> (\<exists>c sk. Some c \<in> set cs \<and> routable a (rsi_requireMigrationToVersion i) c sk)
         | Some k \<Rightarrow> \<exists>c s. Some c \<in> set cs \<and> routable a (rsi_requireMigrationToVersion i) c (s, k) \<and>
             (\<forall>d tl. Some d \<in> set cs \<and> routable a (rsi_requireMigrationToVersion i) d tl \<longrightarrow> (s, k) \<le> tl)) \<and>
        (\<exists>r'. selectRouteAtActionTime (Some (i\<lparr>rsi_candidates := Some cs'\<rparr>)) = Inr r' \<and>
           rsr_routeId r' = rsr_routeId r \<and> rsr_eligibleOrder r' = rsr_eligibleOrder r))"
proof -
  let ?v = "rsi_requireMigrationToVersion i" and ?i' = "i\<lparr>rsi_candidates := Some cs'\<rparr>"
  have set: "set cs' = set cs" using assms(4) by (metis set_mset_mset)
  have perm: "sort (eligible_of a ?v cs') = sort (eligible_of a ?v cs)" by (rule eligible_perm [OF assms(4)])
  note sel = select_eq [OF assms(1-3)] select_eq [of ?i' a cs', simplified, OF assms(1,2)]
  show ?thesis
  proof (cases "\<forall>c \<in> set cs. well_formed_candidate c")
    case True
    let ?e = "eligible_of a ?v cs"
    have first: "case (case sort ?e of [] \<Rightarrow> None | e # _ \<Rightarrow> Some (snd e)) of
           None \<Rightarrow> \<not> (\<exists>c sk. Some c \<in> set cs \<and> routable a ?v c sk)
         | Some k \<Rightarrow> \<exists>c s. Some c \<in> set cs \<and> routable a ?v c (s, k) \<and>
             (\<forall>d tl. Some d \<in> set cs \<and> routable a ?v d tl \<longrightarrow> (s, k) \<le> tl)"
    proof (cases "sort ?e")
      case Nil
      then have "set ?e = {}" by (metis set_empty set_sort)
      then show ?thesis using Nil eligible_set [OF True, where a = a and required = ?v] by simp
    next
      case (Cons sk rest)
      then have "sk \<in> set ?e" "\<forall>tl \<in> set ?e. sk \<le> tl"
        using sorted_sort [of ?e] by (metis list.set_intros(1) set_sort, metis set_ConsD set_sort sorted_simps(2) order_refl)
      moreover obtain s k where sk: "sk = (s, k)" by (cases sk)
      moreover from \<open>sk \<in> set ?e\<close> obtain c where "Some c \<in> set cs" "routable a ?v c (s, k)"
        unfolding sk eligible_set [OF True] by auto
      moreover have "(s, k) \<le> tl" if "Some d \<in> set cs \<and> routable a ?v d tl" for d tl
      proof -
        have "tl \<in> set ?e" unfolding eligible_set [OF True] using that by (rule exI)
        then show ?thesis using \<open>\<forall>tl \<in> set ?e. sk \<le> tl\<close> sk by simp
      qed
      ultimately show ?thesis unfolding Cons sk list.case option.case snd_conv by (intro exI [of _ c] exI [of _ s] conjI allI impI)
    qed
    show ?thesis using True first rows_partition [of "map (\<lambda>c. projr (assess_route a ?v c)) cs"]
      by (simp add: sel set perm) (simp add: eligible_of_def)
  qed (auto simp: sel set)
qed

definition sample_route :: "string \<Rightarrow> rat \<Rightarrow> jsnum \<Rightarrow> route_candidate option" where
  "sample_route k created pool =
     Some \<lparr>rtc_routeId = U_string k, rtc_createdSlot = U_number (Fin created),
           rtc_legs = Some [\<lparr>rtl_poolId = ''p'', rtl_poolCreatedSlot = pool\<rparr>], rtc_migrationEdges = None\<rparr>"

definition sample_routes :: "route_candidate option list \<Rightarrow> route_selection_input" where
  "sample_routes cs = \<lparr>rsi_actionSlot = U_number (Fin 10), rsi_candidates = Some cs, rsi_requireMigrationToVersion = None\<rparr>"

theorem route_selection_exact_witness:
  "(\<exists>r. selectRouteAtActionTime (Some (sample_routes [sample_route ''a'' 5 (Fin 11), sample_route ''b'' 7 (Fin 1), sample_route ''c'' 8 NaN])) = Inr r \<and>
     rsr_routeId r = Some ''b'' \<and>
     (\<exists>r'. selectRouteAtActionTime (Some (sample_routes [sample_route ''c'' 8 NaN, sample_route ''b'' 7 (Fin 1), sample_route ''a'' 5 (Fin 11)])) = Inr r' \<and>
       rsr_routeId r' = Some ''b'' \<and> rsr_eligibleOrder r' = [''b'', ''c'']))"
proof -
  let ?cs = "[sample_route ''a'' 5 (Fin 11), sample_route ''b'' 7 (Fin 1), sample_route ''c'' 8 NaN]"
  let ?cs' = "[sample_route ''c'' 8 NaN, sample_route ''b'' 7 (Fin 1), sample_route ''a'' 5 (Fin 11)]"
  have r: "selectRouteAtActionTime (Some (sample_routes ?cs)) =
    Inr \<lparr>rsr_routeId = Some ''b'', rsr_refusals = [(''a'', POOL_CREATED_AFTER_ACTION_TIME)], rsr_eligibleOrder = [''b'', ''c'']\<rparr>"
    by (simp add: selectRouteAtActionTime_def sample_routes_def sample_route_def assess_route_def require_slot_def require_non_empty_def
        integer_number_def List.map_filter_simps)
  have "integer_number (rsi_actionSlot (sample_routes ?cs)) = Some 10" "rsi_candidates (sample_routes ?cs) = Some ?cs" "mset ?cs' = mset ?cs"
    by (simp_all add: sample_routes_def integer_number_def)
  from route_selection_exact [OF this(1) _ this(2,3)] r show ?thesis by (simp add: sample_routes_def)
qed

end
