(* ===== verification/JsonFaithful.thy ===== *)
theory JsonFaithful
  imports DecimalText "HOL-Library.Multiset"
begin

text \<open>
  The canonical serializer (packages/persistence/src/canonical-json.ts) identifies values: two values
  have the same text exactly when they are the same value up to the order of members and members
  that hold \<open>undefined\<close>. The text of a value is a prefix code as long as what follows it is a comma or
  a closing bracket.
\<close>

section \<open>Normal forms\<close>

fun canon :: "jsval \<Rightarrow> jsval"
and canon_list :: "jsval list \<Rightarrow> jsval list"
and canon_members :: "(string \<times> jsval) list \<Rightarrow> (string \<times> jsval) list" where
  "canon (JsArr vs) = JsArr (canon_list vs)"
| "canon (JsObj ms) = JsObj (sort_members (canon_members ms))"
| "canon v = v"
| "canon_list [] = []"
| "canon_list (v # vs) = canon v # canon_list vs"
| "canon_members [] = []"
| "canon_members ((k, v) # ms) = (if v = JsUndefined then canon_members ms else (k, canon v) # canon_members ms)"

text \<open>The values the serializer accepts.\<close>

fun serialisable :: "jsval \<Rightarrow> bool"
and serialisable_list :: "jsval list \<Rightarrow> bool"
and serialisable_members :: "(string \<times> jsval) list \<Rightarrow> bool" where
  "serialisable JsUndefined = False"
| "serialisable JsFun = False"
| "serialisable (JsArr vs) = serialisable_list vs"
| "serialisable (JsObj ms) = serialisable_members ms"
| "serialisable v = True"
| "serialisable_list [] = True"
| "serialisable_list (v # vs) = (serialisable v \<and> serialisable_list vs)"
| "serialisable_members [] = True"
| "serialisable_members ((k, v) # ms) = ((v = JsUndefined \<or> serialisable v) \<and> serialisable_members ms)"

text \<open>The text of a normal form, without the sort.\<close>

fun emit :: "jsval \<Rightarrow> string" where
  "emit JsNull = ''null''"
| "emit (JsBool b) = (if b then ''true'' else ''false'')"
| "emit (JsInt i) = int_text i"
| "emit (JsStr s) = json_quote s"
| "emit (JsArr vs) = ''['' @ join_comma (map emit vs) @ '']''"
| "emit (JsObj ms) = ''{'' @ join_comma (map (\<lambda>(k, v). json_quote k @ '':'' @ emit v) ms) @ ''}''"
| "emit v = []"

fun json_form :: "jsval \<Rightarrow> bool" where
  "json_form JsUndefined = False"
| "json_form JsFun = False"
| "json_form (JsArr vs) = (\<forall>v \<in> set vs. json_form v)"
| "json_form (JsObj ms) = (\<forall>(k, v) \<in> set ms. json_form v)"
| "json_form v = True"

lemma insert_member_map: "insert_member (k, f v) (map (apsnd f) xs) = map (apsnd f) (insert_member (k, v) xs)"
  by (induction xs) (auto simp: apsnd_def map_prod_def)

lemma sort_members_map: "sort_members (map (apsnd f) ms) = map (apsnd f) (sort_members ms)"
proof -
  have "foldl (\<lambda>acc m. insert_member m acc) (map (apsnd f) acc) (map (apsnd f) ms) =
    map (apsnd f) (foldl (\<lambda>acc m. insert_member m acc) acc ms)" for acc
  proof (induction ms arbitrary: acc)
    case (Cons m ms)
    then show ?case by (cases m) (simp add: insert_member_map)
  qed simp
  from this [of "[]"] show ?thesis by (simp add: sort_members_def)
qed

lemma insert_member_mset [simp]: "mset (insert_member m xs) = add_mset m (mset xs)"
  by (induction m xs rule: insert_member.induct) auto

lemma insert_member_set [simp]: "set (insert_member m xs) = insert m (set xs)"
  by (induction m xs rule: insert_member.induct) auto

lemma sort_members_mset [simp]: "mset (sort_members ms) = mset ms"
proof -
  have "mset (foldl (\<lambda>acc m. insert_member m acc) acc ms) = mset acc + mset ms" for acc
    by (induction ms arbitrary: acc) auto
  then show ?thesis by (simp add: sort_members_def)
qed

lemma sort_members_set [simp]: "set (sort_members ms) = set ms"
  by (metis set_mset_mset sort_members_mset)

text \<open>What the serializer gives is the text of the normal form.\<close>

lemma canonical_emit:
  "canonicalJson v = (if serialisable v then Inr (emit (canon v)) else Inl TypeError)"
  "canonical_list vs = (if serialisable_list vs then Inr (map emit (canon_list vs)) else Inl TypeError)"
  "canonical_members ms = (if serialisable_members ms then Inr (map (apsnd emit) (canon_members ms)) else Inl TypeError)"
proof (induction v and vs and ms rule: canonicalJson_canonical_list_canonical_members.induct)
  case (8 ms)
  have "map (\<lambda>(k, t). json_quote k @ '':'' @ t) (sort_members (map (apsnd emit) ms')) =
    map (\<lambda>(k, v). json_quote k @ '':'' @ emit v) (sort_members ms')" for ms'
    by (simp add: sort_members_map case_prod_beta)
  with 8 show ?case by simp
qed auto

lemma canon_form:
  "serialisable v \<Longrightarrow> json_form (canon v)"
  "serialisable_list vs \<Longrightarrow> list_all json_form (canon_list vs)"
  "serialisable_members ms \<Longrightarrow> list_all (\<lambda>(k, v). json_form v) (canon_members ms)"
  by (induction v and vs and ms rule: canon_canon_list_canon_members.induct) (auto simp: list_all_iff)

section \<open>Texts of strings and numbers\<close>

text \<open>What may follow a text: nothing, a comma or a closing bracket.\<close>

definition ends_value :: "string \<Rightarrow> bool" where
  "ends_value r \<longleftrightarrow> r = [] \<or> hd r \<in> {CHR '','', CHR '']'', CHR ''}''}"

lemma ends_value_simps [simp]: "ends_value []" "ends_value (CHR '','' # r)" "ends_value (CHR '']'' # r)" "ends_value (CHR ''}'' # r)"
  by (simp_all add: ends_value_def)

lemma char_code_inj: "(of_char c :: nat) = of_char d \<Longrightarrow> c = d"
  by (metis char_of_char)

lemma hex_char_code: "k < 16 \<Longrightarrow> (of_char (hex_char k) :: nat) = (if k < 10 then 48 + k else 87 + k)"
proof -
  assume "k < 16"
  moreover have "(of_char (char_of n :: char) :: nat) = n" if "n < 256" for n :: nat
    using that by (simp only: of_char_of mod_less)
  ultimately show ?thesis by (simp only: hex_char_def split: if_split) simp
qed

lemma hex_char_inj:
  assumes "m < 16" "n < 16" "hex_char m = hex_char n"
  shows "m = n"
proof -
  have "(if m < 10 then 48 + m else 87 + m) = (if n < 10 then 48 + n else 87 + n)"
    unfolding hex_char_code [OF assms(1), symmetric] hex_char_code [OF assms(2), symmetric] assms(3) ..
  then show ?thesis using assms(1,2) by (cases "m < 10"; cases "n < 10") simp_all
qed

lemma hex_pair_inj:
  assumes "(of_char c :: nat) < 32" "(of_char d :: nat) < 32"
    "hex_char (of_char c div 16) = hex_char (of_char d div 16)" "hex_char (of_char c mod 16) = hex_char (of_char d mod 16)"
  shows "c = d"
proof -
  have "(of_char c :: nat) div 16 = of_char d div 16" "(of_char c :: nat) mod 16 = of_char d mod 16"
    using assms by (auto intro!: hex_char_inj)
  then show ?thesis by (metis char_code_inj div_mod_decomp)
qed

text \<open>The two-character escapes.\<close>

definition unescape :: "char \<Rightarrow> nat" where
  "unescape e =
     (if e = CHR 0x22 then 34 else if e = CHR 0x5C then 92 else if e = CHR ''b'' then 8 else if e = CHR ''t'' then 9
      else if e = CHR ''n'' then 10 else if e = CHR ''f'' then 12 else 13)"

lemma char_codes: "char_of (92 :: nat) = CHR 0x5C" "char_of (34 :: nat) = CHR 0x22"
  by (rule char_code_inj, simp)+

lemma quote_char_cases:
  obtains (plain) "quote_char c = [c]" "c \<noteq> CHR 0x22" "c \<noteq> CHR 0x5C"
  | (escape) e where "quote_char c = [CHR 0x5C, e]" "e \<noteq> CHR ''u''" "of_char c = unescape e"
  | (code) "quote_char c = [CHR 0x5C, CHR ''u'', CHR ''0'', CHR ''0'', hex_char (of_char c div 16), hex_char (of_char c mod 16)]"
      "(of_char c :: nat) < 32"
proof -
  let ?n = "of_char c :: nat"
  have special: "c = CHR 0x22 \<longleftrightarrow> ?n = 34" "c = CHR 0x5C \<longleftrightarrow> ?n = 92" by (auto intro: char_code_inj)
  consider "?n \<in> {34, 92}" | "?n \<in> {8, 9, 10, 12, 13}" | "?n < 32" "?n \<notin> {8, 9, 10, 12, 13}" | "32 \<le> ?n" "?n \<noteq> 34" "?n \<noteq> 92"
    by fastforce
  then show thesis
  proof cases
    case 1
    then have "quote_char c = [CHR 0x5C, c]" "c = CHR 0x22 \<or> c = CHR 0x5C"
      using special by (auto simp: quote_char_def char_codes)
    then show thesis using escape [of c] by (auto simp: unescape_def)
  next
    case 2
    then show thesis using escape by (auto simp: quote_char_def char_codes unescape_def)
  next
    case 3
    then show thesis using code by (simp add: quote_char_def Let_def char_codes)
  next
    case 4
    then show thesis using plain special by (simp add: quote_char_def Let_def)
  qed
qed

lemma quote_char_prefix: "quote_char c @ a = quote_char d @ b \<Longrightarrow> c = d \<and> a = b"
  by (cases c rule: quote_char_cases; cases d rule: quote_char_cases) (auto intro: hex_pair_inj char_code_inj)

lemma quote_char_hd: "quote_char c @ a \<noteq> CHR 0x22 # b"
  by (cases c rule: quote_char_cases) auto

lemma quote_prefix: "json_quote s @ a = json_quote t @ b \<Longrightarrow> s = t \<and> a = b"
proof -
  have "concat (map quote_char s) @ CHR 0x22 # a = concat (map quote_char t) @ CHR 0x22 # b \<Longrightarrow> s = t \<and> a = b"
  proof (induction s arbitrary: t)
    case Nil
    show ?case
    proof (cases t)
      case (Cons d t')
      then show ?thesis using Nil quote_char_hd [of d "concat (map quote_char t') @ CHR 0x22 # b" a] by auto
    qed (use Nil in simp)
  next
    case (Cons c s)
    show ?case
    proof (cases t)
      case Nil
      then show ?thesis using Cons.prems quote_char_hd [of c "concat (map quote_char s) @ CHR 0x22 # a" b] by auto
    next
      case (Cons d t')
      then show ?thesis
        using Cons.IH [of t'] Cons.prems quote_char_prefix [of c "concat (map quote_char s) @ CHR 0x22 # a" d] by simp
    qed
  qed
  then show "json_quote s @ a = json_quote t @ b \<Longrightarrow> s = t \<and> a = b" by (simp add: json_quote_def char_codes)
qed

lemma ends_value_digits: "ends_value r \<Longrightarrow> takeWhile digit (digits n @ r) = digits n"
  using digits_digit [of n] by (cases r) (auto simp: ends_value_def digit_def Let_def list_all_iff takeWhile_append)

lemma digits_prefix: "ends_value r \<Longrightarrow> ends_value r' \<Longrightarrow> digits m @ r = digits n @ r' \<Longrightarrow> m = n \<and> r = r'"
  by (metis append_same_eq ends_value_digits digits_number same_append_eq)

lemma digits_not_minus: "digits n @ r \<noteq> CHR ''-'' # r'"
  using digits_digit [of n] by (cases "digits n") (auto simp: digit_def digits.simps [of n] split: if_splits)

lemma int_prefix:
  assumes "ends_value r" "ends_value r'" "int_text i @ r = int_text j @ r'"
  shows "i = j \<and> r = r'"
proof (cases "i < 0")
  case True
  then have "j < 0" using assms(3) digits_not_minus [of "nat j" r', symmetric] True by (auto simp: int_text_def split: if_splits)
  then show ?thesis using True assms digits_prefix [of r r' "nat (- i)" "nat (- j)"] by (auto simp: int_text_def)
next
  case False
  then have "\<not> j < 0" using assms(3) digits_not_minus [of "nat i" r] False by (auto simp: int_text_def split: if_splits)
  then show ?thesis using False assms digits_prefix [of r r' "nat i" "nat j"] by (auto simp: int_text_def)
qed

section \<open>The text of a value is a prefix code\<close>

text \<open>The first character tells the kind of a value.\<close>

fun starts :: "jsval \<Rightarrow> char \<Rightarrow> bool" where
  "starts JsNull c = (c = CHR ''n'')"
| "starts (JsBool b) c = (c = (if b then CHR ''t'' else CHR ''f''))"
| "starts (JsInt i) c = (digit c \<or> c = CHR ''-'')"
| "starts (JsStr s) c = (c = CHR 0x22)"
| "starts (JsArr vs) c = (c = CHR ''['')"
| "starts (JsObj ms) c = (c = CHR ''{'')"
| "starts v c = False"

lemma digits_hd: "\<exists>c s. digits n = c # s \<and> digit c"
  using digits_digit [of n] by (cases "digits n") (auto simp: digits.simps [of n] split: if_splits)

lemma emit_starts: "json_form v \<Longrightarrow> \<exists>c s. emit v = c # s \<and> starts v c"
proof (cases v)
  case (JsInt i)
  then show ?thesis using digits_hd [of "nat i"] by (auto simp: int_text_def)
qed (auto simp: json_quote_def char_codes)

lemma starts_kind:
  "starts v c \<Longrightarrow> starts w c \<Longrightarrow>
   (case v of JsNull \<Rightarrow> w = JsNull | JsBool b \<Rightarrow> w = JsBool b | JsInt i \<Rightarrow> \<exists>j. w = JsInt j | JsStr s \<Rightarrow> \<exists>t. w = JsStr t
    | JsArr vs \<Rightarrow> \<exists>ws. w = JsArr ws | JsObj ms \<Rightarrow> \<exists>ns. w = JsObj ns | _ \<Rightarrow> False) \<and> c \<noteq> CHR '']''"
  by (cases v; cases w) (auto simp: digit_def split: if_splits)

lemma emit_kind:
  assumes "json_form v" "json_form w" "emit v @ r = emit w @ r'"
  shows "case v of JsNull \<Rightarrow> w = JsNull | JsBool b \<Rightarrow> w = JsBool b | JsInt i \<Rightarrow> \<exists>j. w = JsInt j | JsStr s \<Rightarrow> \<exists>t. w = JsStr t
    | JsArr vs \<Rightarrow> \<exists>ws. w = JsArr ws | JsObj ms \<Rightarrow> \<exists>ns. w = JsObj ns | _ \<Rightarrow> False"
proof -
  obtain c s where "emit v = c # s" "starts v c" using emit_starts [OF assms(1)] by blast
  moreover obtain d t where "emit w = d # t" "starts w d" using emit_starts [OF assms(2)] by blast
  ultimately have "starts v c" "starts w c" using assms(3) by auto
  from starts_kind [OF this] show ?thesis by blast
qed

lemma join_cons: "join_comma (map f (x # xs)) = f x @ concat (map (\<lambda>y. CHR '','' # f y) xs)"
  by (induction xs arbitrary: x) auto

lemma items_prefix:
  assumes "\<And>x y r r'. x \<in> set xs \<Longrightarrow> y \<in> Y \<Longrightarrow> ends_value r \<Longrightarrow> ends_value r' \<Longrightarrow> f x @ r = f y @ r' \<Longrightarrow> x = y \<and> r = r'"
    and "set ys \<subseteq> Y" and "c = CHR '']'' \<or> c = CHR ''}''"
    and "concat (map (\<lambda>y. CHR '','' # f y) xs) @ c # r = concat (map (\<lambda>y. CHR '','' # f y) ys) @ c # r'"
  shows "xs = ys \<and> r = r'"
  using assms
proof (induction xs arbitrary: ys)
  case Nil
  then show ?case by (cases ys) auto
next
  case (Cons x xs)
  obtain y ys' where ys: "ys = y # ys'" using Cons.prems by (cases ys) auto
  let ?t = "\<lambda>zs. concat (map (\<lambda>y. CHR '','' # f y) zs)"
  have ends: "ends_value (?t zs @ c # s)" for zs s using Cons.prems(3) by (cases zs) (auto simp: ends_value_def)
  have "f x @ ?t xs @ c # r = f y @ ?t ys' @ c # r'" using Cons.prems(4) ys by simp
  then have "x = y" "?t xs @ c # r = ?t ys' @ c # r'"
    using Cons.prems(1) [of x y "?t xs @ c # r" "?t ys' @ c # r'"] Cons.prems(2) ends ys by auto
  then show ?case using Cons.IH [of ys'] Cons.prems(1-3) ys by auto
qed

lemma join_prefix:
  assumes pre: "\<And>x y r r'. x \<in> set xs \<Longrightarrow> y \<in> Y \<Longrightarrow> ends_value r \<Longrightarrow> ends_value r' \<Longrightarrow> f x @ r = f y @ r' \<Longrightarrow> x = y \<and> r = r'"
    and "set xs \<subseteq> Y" and "set ys \<subseteq> Y" and c: "c = CHR '']'' \<or> c = CHR ''}''"
    and open_item: "\<And>y a b. y \<in> Y \<Longrightarrow> f y @ a \<noteq> c # b"
    and eq: "join_comma (map f xs) @ c # r = join_comma (map f ys) @ c # r'"
  shows "xs = ys \<and> r = r'"
proof (cases xs; cases ys)
  fix x xs' y ys' assume xs: "xs = x # xs'" and ys: "ys = y # ys'"
  have "concat (map (\<lambda>y. CHR '','' # f y) xs) @ c # r = concat (map (\<lambda>y. CHR '','' # f y) ys) @ c # r'"
    using eq unfolding xs ys join_cons by simp
  then show ?thesis using items_prefix [OF pre assms(3) c] by blast
next
  fix y ys' assume "xs = []" and ys: "ys = y # ys'"
  then have "f y @ concat (map (\<lambda>y. CHR '','' # f y) ys') @ c # r' = c # r" using eq join_cons [of f y ys'] by simp
  then show ?thesis using open_item [of y] assms(3) ys by auto
next
  fix x xs' assume "ys = []" and xs: "xs = x # xs'"
  then have "f x @ concat (map (\<lambda>y. CHR '','' # f y) xs') @ c # r = c # r'" using eq join_cons [of f x xs'] by simp
  then show ?thesis using open_item [of x] assms(2) xs by auto
qed (use eq in simp)

lemma emit_open: "json_form v \<Longrightarrow> emit v @ a \<noteq> CHR '']'' # b"
  using emit_starts [of v] starts_kind by fastforce

lemma emit_prefix:
  "json_form v \<Longrightarrow> json_form w \<Longrightarrow> ends_value r \<Longrightarrow> ends_value r' \<Longrightarrow> emit v @ r = emit w @ r' \<Longrightarrow> v = w \<and> r = r'"
proof (induction v arbitrary: w r r' rule: emit.induct)
  case 1
  then show ?case using emit_kind [of JsNull w r r'] by simp
next
  case (2 b)
  then show ?case using emit_kind [of "JsBool b" w r r'] by simp
next
  case (3 i)
  then obtain j where w: "w = JsInt j" using emit_kind [of "JsInt i" w r r'] by auto
  then show ?case using int_prefix [of r r' i j] 3 by simp
next
  case (4 s)
  then obtain t where w: "w = JsStr t" using emit_kind [of "JsStr s" w r r'] by auto
  then show ?case using quote_prefix [of s r t r'] 4 by simp
next
  case (5 vs)
  then obtain ws where w: "w = JsArr ws" using emit_kind [of "JsArr vs" w r r'] by auto
  have "join_comma (map emit vs) @ CHR '']'' # r = join_comma (map emit ws) @ CHR '']'' # r'" using 5(6) w by simp
  then have "vs = ws \<and> r = r'"
    by (rule join_prefix [where Y = "Collect json_form", rotated -1]) (use 5 w emit_open in auto)
  then show ?case using w by simp
next
  case (6 ms)
  let ?f = "\<lambda>(k, v). json_quote k @ '':'' @ emit v"
  obtain ns where w: "w = JsObj ns" using 6 emit_kind [of "JsObj ms" w r r'] by auto
  have "join_comma (map ?f ms) @ CHR ''}'' # r = join_comma (map ?f ns) @ CHR ''}'' # r'" using 6(6) w by simp
  then have "ms = ns \<and> r = r'"
  proof (rule join_prefix [where Y = "{m. json_form (snd m)}", rotated -1])
    fix x y s s' assume x: "x \<in> set ms" "y \<in> {m. json_form (snd m)}" and e: "ends_value s" "ends_value s'" "?f x @ s = ?f y @ s'"
    obtain k u l t where xy: "x = (k, u)" "y = (l, t)" by fastforce
    have "k = l" "emit u @ s = emit t @ s'" using e(3) xy quote_prefix [of k "'':'' @ emit u @ s" l "'':'' @ emit t @ s'"] by auto
    then show "x = y \<and> s = s'" using 6(1) [of x k u t s s'] 6(2) x xy e by auto
  qed (use 6(2,3) w in \<open>auto simp: json_quote_def char_codes\<close>)
  then show ?case using w by simp
qed simp_all

section \<open>The serializer is faithful\<close>

text \<open>The sort gives one list for all orders of members with distinct keys.\<close>

lemma insert_member_sorted: "sorted (map fst xs) \<Longrightarrow> sorted (map fst (insert_member m xs))"
proof (induction m xs rule: insert_member.induct)
  case (2 m x xs)
  then show ?case by (auto simp: less_imp_le)
qed simp

lemma sort_members_sorted: "sorted (map fst (sort_members ms))"
proof -
  have "sorted (map fst acc) \<Longrightarrow> sorted (map fst (foldl (\<lambda>acc m. insert_member m acc) acc ms))" for acc :: "(string \<times> 'a) list"
    by (induction ms arbitrary: acc) (auto intro: insert_member_sorted)
  from this [of "[]"] show ?thesis by (simp add: sort_members_def)
qed

lemma sort_members_perm:
  assumes "mset ms = mset ns" and "distinct (map fst ms)"
  shows "sort_members ms = sort_members ns"
proof (rule map_sorted_distinct_set_unique [where f = fst])
  show "inj_on fst (set (sort_members ms) \<union> set (sort_members ns))"
    using assms by (metis distinct_map sort_members_set sup.idem set_mset_mset)
  have d: "distinct (map fst xs) \<longleftrightarrow> distinct (map fst ys)" if "mset xs = mset ys" for xs ys :: "(string \<times> 'a) list"
    using that by (metis mset_eq_imp_distinct_iff mset_map)
  show "distinct (map fst (sort_members ms))" "distinct (map fst (sort_members ns))"
    using assms d [of "sort_members ms" ms] d [of "sort_members ns" ms] by simp_all
  show "set (sort_members ms) = set (sort_members ns)" using assms(1) by (metis sort_members_set set_mset_mset)
qed (rule sort_members_sorted)+

lemma canon_undefined [simp]: "canon v = JsUndefined \<longleftrightarrow> v = JsUndefined"
  by (cases v) auto

text \<open>What reading a member of an object gives.\<close>

definition member_of :: "(string \<times> jsval) list \<Rightarrow> string \<Rightarrow> jsval" where
  "member_of ms k = (case map_of ms k of Some v \<Rightarrow> v | None \<Rightarrow> JsUndefined)"

lemma canon_members_map: "canon_members ms = map (apsnd canon) (filter (\<lambda>m. snd m \<noteq> JsUndefined) ms)"
  by (induction ms) auto

lemma map_of_canon_members:
  "distinct (map fst ms) \<Longrightarrow>
   map_of (canon_members ms) k = (if member_of ms k = JsUndefined then None else Some (canon (member_of ms k)))"
proof (induction ms arbitrary: k)
  case (Cons m ms)
  obtain j v where m: "m = (j, v)" by fastforce
  have "map_of ms j = None" using Cons.prems m by (simp add: map_of_eq_None_iff)
  then have "map_of (canon_members ms) j = None" using Cons by (simp add: member_of_def)
  then show ?case using Cons m by (auto simp: member_of_def)
qed (simp add: member_of_def)

lemma canon_members_distinct: "distinct (map fst ms) \<Longrightarrow> distinct (map fst (canon_members ms))"
  by (simp add: canon_members_map distinct_map_filter)

lemma canon_object_iff:
  assumes "distinct (map fst ms)" "distinct (map fst ns)"
  shows "canon (JsObj ms) = canon (JsObj ns) \<longleftrightarrow> (\<forall>k. canon (member_of ms k) = canon (member_of ns k))"
proof -
  let ?m = "canon_members ms" and ?n = "canon_members ns"
  have d: "distinct (map fst ?m)" "distinct (map fst ?n)" using assms by (simp_all add: canon_members_distinct)
  have "canon (JsObj ms) = canon (JsObj ns) \<longleftrightarrow> mset ?m = mset ?n"
  proof
    assume "canon (JsObj ms) = canon (JsObj ns)"
    then have "sort_members ?m = sort_members ?n" by simp
    then show "mset ?m = mset ?n" by (metis sort_members_mset)
  next
    assume "mset ?m = mset ?n"
    then show "canon (JsObj ms) = canon (JsObj ns)" using sort_members_perm [OF _ d(1)] by simp
  qed
  also have "\<dots> \<longleftrightarrow> set ?m = set ?n" using d by (intro set_eq_iff_mset_eq_distinct [symmetric]) (simp_all add: distinct_map)
  also have "\<dots> \<longleftrightarrow> map_of ?m = map_of ?n" using map_of_inject_set [OF d] by simp
  also have "\<dots> \<longleftrightarrow> (\<forall>k. canon (member_of ms k) = canon (member_of ns k))"
  proof -
    have "(if a = JsUndefined then None else Some (canon a)) = (if b = JsUndefined then None else Some (canon b)) \<longleftrightarrow>
      canon a = canon b" for a b
      using canon_undefined [of a] canon_undefined [of b] eq_commute [of JsUndefined "canon b"]
      by (cases "a = JsUndefined"; cases "b = JsUndefined") auto
    then show ?thesis
      unfolding fun_eq_iff map_of_canon_members [OF assms(1)] map_of_canon_members [OF assms(2)] by blast
  qed
  finally show ?thesis .
qed

lemma canonical_text_iff:
  assumes "canonicalJson v = Inr t" "canonicalJson w = Inr u"
  shows "t = u \<longleftrightarrow> canon v = canon w"
  using assms emit_prefix [OF canon_form(1) canon_form(1), of v w "[]" "[]"] by (auto simp: canonical_emit(1) split: if_splits)



end
