(* ===== verification/PreRegistration.thy ===== *)
theory PreRegistration
  imports JsonFaithful Degradation DeadLetters
begin

text \<open>
  Pre-registration in the execution simulator: the scenario registry
  (packages/execution-simulator/src/scenario.ts) and the registry of exit-policy experiments
  (experiments.ts). A scenario payload is a JSON value of CanonicalJson, whose numbers are integers; its hash
  is taken over the canonical text.
\<close>

section \<open>Scenarios\<close>

text \<open>\<^verbatim>\<open>/^\d+(\.\d+)?$/\<close>\<close>

definition DECIMAL_STRING :: "string \<Rightarrow> bool" where
  "DECIMAL_STRING s \<longleftrightarrow>
     (let whole = takeWhile digit s; rest = dropWhile digit s
      in whole \<noteq> [] \<and> (rest = [] \<or> hd rest = CHR ''.'' \<and> tl rest \<noteq> [] \<and> list_all digit (tl rest)))"

definition requireDecimalString :: "jsval \<Rightarrow> unit res" where
  "requireDecimalString v =
     refuse (case v of JsStr s \<Rightarrow> \<not> DECIMAL_STRING s | _ \<Rightarrow> True) EXEC_LABEL_CLAUSES_INVALID"

definition text_member :: "jsval \<Rightarrow> string \<Rightarrow> bool" where
  "text_member v k = (case jsprop v k of JsStr s \<Rightarrow> s \<noteq> [] | _ \<Rightarrow> False)"

definition amount_member :: "jsval \<Rightarrow> string \<Rightarrow> bool" where
  "amount_member v k = (case jsprop v k of JsInt n \<Rightarrow> 0 \<le> n | _ \<Rightarrow> False)"

definition validateScenarioShape :: "jsval \<Rightarrow> unit res" where
  "validateScenarioShape scenario =
     bindE (refuse (\<not> text_member scenario ''scenarioId'') EXEC_LABEL_CLAUSES_INVALID) (\<lambda>_.
     bindE (refuse (\<not> text_member scenario ''version'') EXEC_LABEL_CLAUSES_INVALID) (\<lambda>_.
     bindE (requireDecimalString (jsprop scenario ''notionalUsd'')) (\<lambda>_.
     bindE (refuse (list_ex (\<lambda>field. \<not> amount_member scenario field)
              [''maximumEntryImpact'', ''maximumExitImpact'', ''minimumFillFraction'', ''maximumFillDurationSeconds'',
               ''deterministicActionDelaySeconds'']) EXEC_LABEL_CLAUSES_INVALID) (\<lambda>_.
     bindE (refuse (case jsprop scenario ''minimumFillFraction'' of JsInt n \<Rightarrow> 1 < n | _ \<Rightarrow> False) EXEC_LABEL_CLAUSES_INVALID) (\<lambda>_.
     bindE (refuse (list_ex (\<lambda>field. \<not> text_member scenario field)
              [''entryPolicyVersionId'', ''exitPolicyVersionId'', ''feePolicyVersionId'', ''conservativeStressPolicyId''])
              EXEC_LABEL_CLAUSES_INVALID) (\<lambda>_.
     refuse (jsprop scenario ''requiredPoolAdapterCoverage'' \<notin> {JsStr ''COMPLETE'', JsStr ''BOUNDED_APPROXIMATION''})
       EXEC_LABEL_CLAUSES_INVALID))))))"

definition scenarioHash :: "(string \<Rightarrow> string) \<Rightarrow> jsval \<Rightarrow> string res" where
  "scenarioHash sha scenario = bindE (canonicalJson scenario) (\<lambda>t. Inr (sha256Text sha t))"

record registered_scenario =
  rgs_scenario :: jsval
  rgs_registeredHash :: string
  rgs_registeredAt :: string

record scenario_registry =
  srg_registryVersion :: string
  srg_registered :: "registered_scenario list"

definition resolveScenario ::
  "(string \<Rightarrow> string) \<Rightarrow> scenario_registry \<Rightarrow> string \<Rightarrow> string \<Rightarrow> jsval \<Rightarrow> registered_scenario res" where
  "resolveScenario sha registry scenarioId version candidate =
     bindE (validateScenarioShape candidate) (\<lambda>_.
     case find (\<lambda>entry. jsprop (rgs_scenario entry) ''scenarioId'' = JsStr scenarioId \<and>
                        jsprop (rgs_scenario entry) ''version'' = JsStr version) (srg_registered registry) of
       None \<Rightarrow> Inl (ExecVocabularyError EXEC_LABEL_CLAUSES_INVALID)
     | Some registered \<Rightarrow>
         bindE (scenarioHash sha candidate) (\<lambda>candidateHash.
         if candidateHash \<noteq> rgs_registeredHash registered then Inl (ExecVocabularyError EXEC_LABEL_CLAUSES_INVALID)
         else Inr registered))"

definition registerScenario ::
  "(string \<Rightarrow> string) \<Rightarrow> scenario_registry \<Rightarrow> jsval \<Rightarrow> string \<Rightarrow> scenario_registry res" where
  "registerScenario sha registry scenario registeredAt =
     bindE (validateScenarioShape scenario) (\<lambda>_.
     bindE (refuse (find (\<lambda>entry. jsprop (rgs_scenario entry) ''scenarioId'' = jsprop scenario ''scenarioId'' \<and>
                                  jsprop (rgs_scenario entry) ''version'' = jsprop scenario ''version'') (srg_registered registry) \<noteq> None)
              EXEC_LABEL_CLAUSES_INVALID) (\<lambda>_.
     bindE (scenarioHash sha scenario) (\<lambda>registeredHash.
     Inr \<lparr>srg_registryVersion = srg_registryVersion registry,
          srg_registered = srg_registered registry @
            [\<lparr>rgs_scenario = scenario, rgs_registeredHash = registeredHash, rgs_registeredAt = registeredAt\<rparr>]\<rparr>)))"

definition actionableAt :: "jsval \<Rightarrow> jsval" where
  "actionableAt scenario = jsprop scenario ''deterministicActionDelaySeconds''"

section \<open>What resolves\<close>

inductive registry_reach :: "(string \<Rightarrow> string) \<Rightarrow> scenario_registry \<Rightarrow> bool" for sha where
  start: "registry_reach sha \<lparr>srg_registryVersion = v, srg_registered = []\<rparr>"
| registered: "registry_reach sha r \<Longrightarrow> registerScenario sha r s t = Inr r' \<Longrightarrow> registry_reach sha r'"

definition scenario_key :: "jsval \<Rightarrow> jsval \<times> jsval" where
  "scenario_key s = (jsprop s ''scenarioId'', jsprop s ''version'')"

definition registry_inv :: "(string \<Rightarrow> string) \<Rightarrow> scenario_registry \<Rightarrow> bool" where
  "registry_inv sha r \<longleftrightarrow>
     distinct (map (\<lambda>e. scenario_key (rgs_scenario e)) (srg_registered r)) \<and>
     (\<forall>e \<in> set (srg_registered r). validateScenarioShape (rgs_scenario e) = Inr () \<and>
        scenarioHash sha (rgs_scenario e) = Inr (rgs_registeredHash e))"

lemma registered_append:
  assumes "registerScenario sha r s t = Inr r'"
  obtains h where "validateScenarioShape s = Inr ()" "scenarioHash sha s = Inr h"
    "srg_registered r' = srg_registered r @ [\<lparr>rgs_scenario = s, rgs_registeredHash = h, rgs_registeredAt = t\<rparr>]"
    "\<forall>e \<in> set (srg_registered r). scenario_key (rgs_scenario e) \<noteq> scenario_key s"
  using assms unfolding registerScenario_def
  by (auto simp: bindE_eq_Inr find_None_iff scenario_key_def)

lemma registry_reach_inv: "registry_reach sha r \<Longrightarrow> registry_inv sha r"
proof (induction rule: registry_reach.induct)
  case (registered r s t r')
  then show ?case by (elim registered_append) (auto simp: registry_inv_def)
qed (simp add: registry_inv_def)

lemma scenario_texts: "validateScenarioShape s = Inr () \<Longrightarrow> \<exists>i v. scenario_key s = (JsStr i, JsStr v)"
  by (auto simp: validateScenarioShape_def bindE_eq_Inr text_member_def scenario_key_def split: jsval.splits)

lemma find_unique_key: "distinct (map f xs) \<Longrightarrow> find (\<lambda>x. f x = k) xs = Some e \<longleftrightarrow> e \<in> set xs \<and> f e = k"
  by (induction xs) (auto simp: rev_image_eqI)

lemma find_registered:
  assumes "registry_inv sha r"
  shows "find (\<lambda>entry. jsprop (rgs_scenario entry) ''scenarioId'' = JsStr i \<and> jsprop (rgs_scenario entry) ''version'' = JsStr v)
      (srg_registered r) = Some e \<longleftrightarrow> e \<in> set (srg_registered r) \<and> scenario_key (rgs_scenario e) = (JsStr i, JsStr v)"
  using find_unique_key [of "\<lambda>e. scenario_key (rgs_scenario e)" "srg_registered r" "(JsStr i, JsStr v)"] assms
  by (simp add: registry_inv_def scenario_key_def)

lemma scenarioHash_Inr: "scenarioHash sha s = Inr h \<longleftrightarrow> (\<exists>t. canonicalJson s = Inr t \<and> h = sha256Text sha t)"
  by (auto simp: scenarioHash_def bindE_eq_Inr)

lemma resolve_iff:
  assumes "registry_inv sha r"
  shows "resolveScenario sha r i v c = Inr e \<longleftrightarrow>
    e \<in> set (srg_registered r) \<and> scenario_key (rgs_scenario e) = (JsStr i, JsStr v) \<and> validateScenarioShape c = Inr () \<and>
    (\<exists>tc te. canonicalJson c = Inr tc \<and> canonicalJson (rgs_scenario e) = Inr te \<and> sha tc = sha te)"
proof -
  have h: "\<exists>te. canonicalJson (rgs_scenario e) = Inr te \<and> rgs_registeredHash e = sha256Text sha te" if "e \<in> set (srg_registered r)"
    using that assms by (auto simp: registry_inv_def scenarioHash_Inr)
  have "resolveScenario sha r i v c = Inr e \<longleftrightarrow>
    validateScenarioShape c = Inr () \<and> (e \<in> set (srg_registered r) \<and> scenario_key (rgs_scenario e) = (JsStr i, JsStr v)) \<and>
    scenarioHash sha c = Inr (rgs_registeredHash e)"
    unfolding resolveScenario_def find_registered [OF assms, symmetric]
    by (auto simp: bindE_eq_Inr split: option.splits if_splits)
  also have "\<dots> \<longleftrightarrow> e \<in> set (srg_registered r) \<and> scenario_key (rgs_scenario e) = (JsStr i, JsStr v) \<and> validateScenarioShape c = Inr () \<and>
    (\<exists>tc te. canonicalJson c = Inr tc \<and> canonicalJson (rgs_scenario e) = Inr te \<and> sha tc = sha te)"
    using h by (auto simp: scenarioHash_Inr sha256Text_def)
  finally show ?thesis .
qed


definition sample_scenario :: jsval where
  "sample_scenario =
     JsObj ([(''scenarioId'', JsStr ''s''), (''version'', JsStr ''1''), (''notionalUsd'', JsStr ''100.5'')] @
       map (\<lambda>k. (k, JsInt 1)) [''maximumEntryImpact'', ''maximumExitImpact'', ''minimumFillFraction'', ''maximumFillDurationSeconds'',
         ''deterministicActionDelaySeconds''] @
       map (\<lambda>k. (k, JsStr ''p'')) [''entryPolicyVersionId'', ''exitPolicyVersionId'', ''feePolicyVersionId'', ''conservativeStressPolicyId''] @
       [(''requiredPoolAdapterCoverage'', JsStr ''COMPLETE'')])"


section \<open>Experiments\<close>

record experiment_input =
  exi_experimentId :: js_unknown
  exi_scenarioId :: js_unknown
  exi_scenarioVersion :: js_unknown
  exi_exitPolicyKind :: js_unknown
  exi_exitPolicyVersionId :: js_unknown
  exi_isPrimary :: js_unknown
  exi_registeredAt :: js_unknown
  exi_parameters :: "(string \<times> js_unknown) list option"

record exit_policy_experiment =
  xpe_experimentId :: string
  xpe_scenarioId :: string
  xpe_scenarioVersion :: string
  xpe_exitPolicyKind :: string
  xpe_exitPolicyVersionId :: string
  xpe_isPrimary :: bool
  xpe_registeredAt :: string
  xpe_parameters :: "(string \<times> js_unknown) list"

record experiment_registry =
  epr_experiments :: "exit_policy_experiment list"
  epr_primaryByScenario :: "string \<rightharpoonup> string"

definition empty_experiments :: experiment_registry where
  "empty_experiments = \<lparr>epr_experiments = [], epr_primaryByScenario = Map.empty\<rparr>"

text \<open>The checks of \<open>register\<close> on its argument, with the experiment it builds.\<close>

definition experiment_of :: "experiment_input \<Rightarrow> exit_policy_experiment res" where
  "experiment_of input =
     bindE (require_non_empty (exi_experimentId input)) (\<lambda>experimentId.
     bindE (require_non_empty (exi_scenarioId input)) (\<lambda>scenarioId.
     bindE (require_non_empty (exi_scenarioVersion input)) (\<lambda>scenarioVersion.
     bindE (require_non_empty (exi_exitPolicyKind input)) (\<lambda>exitPolicyKind.
     bindE (require_non_empty (exi_exitPolicyVersionId input)) (\<lambda>exitPolicyVersionId.
     bindE (require_non_empty (exi_registeredAt input)) (\<lambda>registeredAt.
     bindE (refuse (\<not> ISO_Z registeredAt) EXEC_LABEL_CLAUSES_INVALID) (\<lambda>_.
     case exi_parameters input of
       None \<Rightarrow> Inl (ExecVocabularyError EXEC_LABEL_CLAUSES_INVALID)
     | Some parameters \<Rightarrow>
         (case exi_isPrimary input of
            U_bool isPrimary \<Rightarrow>
              Inr \<lparr>xpe_experimentId = experimentId, xpe_scenarioId = scenarioId, xpe_scenarioVersion = scenarioVersion,
                   xpe_exitPolicyKind = exitPolicyKind, xpe_exitPolicyVersionId = exitPolicyVersionId, xpe_isPrimary = isPrimary,
                   xpe_registeredAt = registeredAt, xpe_parameters = parameters\<rparr>
          | _ \<Rightarrow> Inl (ExecVocabularyError EXEC_LABEL_CLAUSES_INVALID)))))))))"

definition register_experiment :: "experiment_input option \<Rightarrow> (experiment_registry, exit_policy_experiment) prog" where
  "register_experiment arg =
     (case arg of
        None \<Rightarrow> raise (ExecVocabularyError EXEC_LABEL_CLAUSES_INVALID)
      | Some input \<Rightarrow>
          bindP (liftE (experiment_of input)) (\<lambda>experiment.
          bindP (reads epr_experiments) (\<lambda>experiments.
          bindP (liftE (refuse (list_ex (\<lambda>e. xpe_experimentId e = xpe_experimentId experiment) experiments) EXEC_LABEL_CLAUSES_INVALID)) (\<lambda>_.
          bindP (reads epr_primaryByScenario) (\<lambda>primaryByScenario.
          bindP (liftE (refuse (xpe_isPrimary experiment \<and> primaryByScenario (xpe_scenarioId experiment) \<noteq> None) EXEC_LABEL_CLAUSES_INVALID)) (\<lambda>_.
          bindP (writes (\<lambda>r. r\<lparr>epr_experiments := epr_experiments r @ [experiment]\<rparr>)) (\<lambda>_.
          bindP (writes (\<lambda>r. if xpe_isPrimary experiment
             then r\<lparr>epr_primaryByScenario := (epr_primaryByScenario r)(xpe_scenarioId experiment \<mapsto> xpe_experimentId experiment)\<rparr> else r)) (\<lambda>_.
          ret experiment))))))))"

definition primaryOf :: "experiment_registry \<Rightarrow> string \<Rightarrow> exit_policy_experiment option" where
  "primaryOf r scenarioId =
     (case epr_primaryByScenario r scenarioId of
        None \<Rightarrow> None
      | Some k \<Rightarrow> find (\<lambda>e. xpe_experimentId e = k) (epr_experiments r))"

definition secondariesOf :: "experiment_registry \<Rightarrow> string \<Rightarrow> exit_policy_experiment list" where
  "secondariesOf r scenarioId = filter (\<lambda>e. xpe_scenarioId e = scenarioId \<and> \<not> xpe_isPrimary e) (epr_experiments r)"

section \<open>The primary is fixed\<close>

inductive experiments_step :: "experiment_registry \<Rightarrow> experiment_registry \<Rightarrow> bool" where
  register: "register_experiment arg r = (res, r') \<Longrightarrow> experiments_step r r'"

definition experiments_inv :: "experiment_registry \<Rightarrow> bool" where
  "experiments_inv r \<longleftrightarrow>
     distinct (map xpe_experimentId (epr_experiments r)) \<and>
     (\<forall>sc k. epr_primaryByScenario r sc = Some k \<longleftrightarrow>
        (\<exists>e \<in> set (epr_experiments r). xpe_scenarioId e = sc \<and> xpe_isPrimary e \<and> xpe_experimentId e = k))"

text \<open>A call either throws and leaves the registry, or appends one experiment.\<close>

lemma register_cases:
  assumes "register_experiment arg r = (res, r')"
  obtains (refused) err where "res = Inl err" "r' = r"
  | (added) x where "res = Inr x" "\<forall>e \<in> set (epr_experiments r). xpe_experimentId e \<noteq> xpe_experimentId x"
      "xpe_isPrimary x \<Longrightarrow> epr_primaryByScenario r (xpe_scenarioId x) = None"
      "epr_experiments r' = epr_experiments r @ [x]"
      "epr_primaryByScenario r' = (if xpe_isPrimary x then (epr_primaryByScenario r)(xpe_scenarioId x \<mapsto> xpe_experimentId x) else epr_primaryByScenario r)"
proof (cases "\<exists>err. res = Inl err")
  case True
  then have "r' = r"
    using assms unfolding register_experiment_def
    by (auto simp: bindP_run liftE_run reads_run writes_run ret_run raise_run split: option.splits sum.splits prod.splits if_splits)
  with True show thesis using refused by blast
next
  case False
  then obtain x where x: "res = Inr x" by (cases res) auto
  then obtain input where i: "arg = Some input" "experiment_of input = Inr x"
    using assms unfolding register_experiment_def
    by (auto simp: bindP_run split: option.splits sum.splits prod.splits)
  then show thesis
    using assms x added [of x] unfolding register_experiment_def
    by (auto simp: bindP_run list_ex_iff refuse_def split: if_splits)
qed

lemma primaryOf_iff:
  assumes "experiments_inv r"
  shows "primaryOf r sc = Some e \<longleftrightarrow> e \<in> set (epr_experiments r) \<and> xpe_scenarioId e = sc \<and> xpe_isPrimary e"
proof -
  have d: "distinct (map xpe_experimentId (epr_experiments r))"
    and p: "\<And>k. epr_primaryByScenario r sc = Some k \<longleftrightarrow>
      (\<exists>e \<in> set (epr_experiments r). xpe_scenarioId e = sc \<and> xpe_isPrimary e \<and> xpe_experimentId e = k)"
    using assms by (auto simp: experiments_inv_def)
  have "primaryOf r sc = Some e \<longleftrightarrow> (\<exists>k. epr_primaryByScenario r sc = Some k \<and> e \<in> set (epr_experiments r) \<and> xpe_experimentId e = k)"
    using find_unique_key [OF d] by (auto simp: primaryOf_def split: option.splits)
  also have "\<dots> \<longleftrightarrow> e \<in> set (epr_experiments r) \<and> xpe_scenarioId e = sc \<and> xpe_isPrimary e"
    unfolding p using d by (metis distinct_map inj_onD)
  finally show ?thesis .
qed

lemma experiments_step_inv: "experiments_step r r' \<Longrightarrow> experiments_inv r \<Longrightarrow> experiments_inv r'"
proof (induction rule: experiments_step.induct)
  case (register arg r res r')
  from register(1) show ?case
  proof (cases rule: register_cases)
    case (added x)
    let ?p = "\<lambda>r sc k. \<exists>e \<in> set (epr_experiments r). xpe_scenarioId e = sc \<and> xpe_isPrimary e \<and> xpe_experimentId e = k"
    have "epr_primaryByScenario r' sc = Some k \<longleftrightarrow> ?p r' sc k" for sc k
    proof (cases "xpe_isPrimary x \<and> xpe_scenarioId x = sc")
      case True
      have "?p r sc j \<longleftrightarrow> epr_primaryByScenario r sc = Some j" for j using register(2) by (simp only: experiments_inv_def)
      then have "\<not> ?p r sc j" for j using True added(3) by simp
      then show ?thesis using True added(4,5) by auto
    next
      case False
      then have "epr_primaryByScenario r' sc = epr_primaryByScenario r sc" using added(5) by auto
      then show ?thesis using False added(4) register(2) by (auto simp: experiments_inv_def)
    qed
    then show ?thesis using register(2) added(2,4) by (auto simp: experiments_inv_def)
  qed (use register in simp)
qed

lemma experiments_step_keeps:
  assumes "experiments_step r r'"
  shows "\<exists>xs. epr_experiments r' = epr_experiments r @ xs"
  using assms by (cases rule: experiments_step.cases) (auto elim!: register_cases)

lemma experiments_steps_keep:
  "experiments_step\<^sup>*\<^sup>* r r' \<Longrightarrow> experiments_inv r \<Longrightarrow> experiments_inv r' \<and> (\<exists>xs. epr_experiments r' = epr_experiments r @ xs)"
proof (induction rule: rtranclp_induct)
  case (step a b)
  then show ?case using experiments_step_inv [of a b] experiments_step_keeps [of a b] by auto
qed simp

text \<open>
  C28 (experiment_primary_fixed). After any sequence of calls of \<open>register\<close>, accepted or refused, the ids are distinct
  and the primary of a scenario is its one experiment that was registered as primary. Whatever is
  registered later, that experiment stays the primary and stays as it was registered, the list only grows at its end, and the
  secondaries are the other experiments of the scenario, in the order they were registered.
\<close>

theorem experiment_primary_fixed:
  assumes "experiments_step\<^sup>*\<^sup>* empty_experiments r" and "experiments_step\<^sup>*\<^sup>* r r'"
  shows "distinct (map xpe_experimentId (epr_experiments r)) \<and>
    (primaryOf r sc = Some e \<longleftrightarrow> e \<in> set (epr_experiments r) \<and> xpe_scenarioId e = sc \<and> xpe_isPrimary e) \<and>
    (primaryOf r sc = Some e \<longrightarrow> primaryOf r' sc = Some e) \<and>
    (\<exists>xs. epr_experiments r' = epr_experiments r @ xs \<and>
       secondariesOf r' sc = secondariesOf r sc @ filter (\<lambda>x. xpe_scenarioId x = sc \<and> primaryOf r' sc \<noteq> Some x) xs)"
proof -
  have start: "experiments_inv empty_experiments" by (simp add: experiments_inv_def empty_experiments_def)
  have inv: "experiments_inv r" using experiments_steps_keep [OF assms(1) start] by simp
  obtain xs where inv': "experiments_inv r'" and xs: "epr_experiments r' = epr_experiments r @ xs"
    using experiments_steps_keep [OF assms(2) inv] by auto
  have "filter (\<lambda>x. xpe_scenarioId x = sc \<and> \<not> xpe_isPrimary x) xs = filter (\<lambda>x. xpe_scenarioId x = sc \<and> primaryOf r' sc \<noteq> Some x) xs"
    by (rule filter_cong) (auto simp: primaryOf_iff [OF inv'] xs)
  then show ?thesis
    using inv xs primaryOf_iff [OF inv] primaryOf_iff [OF inv'] by (auto simp: experiments_inv_def secondariesOf_def)
qed

definition sample_experiment :: "string \<Rightarrow> bool \<Rightarrow> experiment_input" where
  "sample_experiment k p =
     \<lparr>exi_experimentId = U_string k, exi_scenarioId = U_string ''s'', exi_scenarioVersion = U_string ''1'',
      exi_exitPolicyKind = U_string ''x'', exi_exitPolicyVersionId = U_string ''1'', exi_isPrimary = U_bool p,
      exi_registeredAt = U_string ''2026-01-01T00:00:00Z'', exi_parameters = Some []\<rparr>"

theorem experiment_primary_fixed_witness:
  "\<exists>x r. register_experiment (Some (sample_experiment ''a'' True)) empty_experiments = (Inr x, r) \<and>
     primaryOf r ''s'' = Some x \<and>
     (\<exists>err. register_experiment (Some (sample_experiment ''b'' True)) r = (Inl err, r)) \<and>
     primaryOf (snd (register_experiment (Some (sample_experiment ''b'' False)) r)) ''s'' = Some x"
proof -
  have valid: "\<exists>x. experiment_of (sample_experiment k p) = Inr x \<and> xpe_experimentId x = k \<and> xpe_scenarioId x = ''s'' \<and> xpe_isPrimary x = p"
    if "k \<noteq> []" for k p
    using that by (simp add: experiment_of_def sample_experiment_def require_non_empty_def ISO_Z_def iso_template_def digit_def)
  obtain x where x: "experiment_of (sample_experiment ''a'' True) = Inr x" "xpe_experimentId x = ''a''" "xpe_scenarioId x = ''s''" "xpe_isPrimary x"
    using valid [of "''a''" True] by auto
  obtain y where y: "experiment_of (sample_experiment ''b'' True) = Inr y" "xpe_experimentId y = ''b''" "xpe_scenarioId y = ''s''" "xpe_isPrimary y"
    using valid [of "''b''" True] by auto
  obtain r where r: "register_experiment (Some (sample_experiment ''a'' True)) empty_experiments = (Inr x, r)"
    "epr_primaryByScenario r ''s'' = Some ''a''" "epr_experiments r = [x]"
    using x by (auto simp: register_experiment_def bindP_run refuse_def empty_experiments_def)
  let ?r' = "snd (register_experiment (Some (sample_experiment ''b'' False)) r)"
  have s: "experiments_step\<^sup>*\<^sup>* empty_experiments r" "experiments_step\<^sup>*\<^sup>* r ?r'"
    using experiments_step.register [OF r(1)] experiments_step.register [OF prod.collapse [symmetric]] by blast+
  have "primaryOf r ''s'' = Some x" "primaryOf ?r' ''s'' = Some x"
    using experiment_primary_fixed [OF s, of "''s''" x] r(3) x by auto
  moreover have "\<exists>err. register_experiment (Some (sample_experiment ''b'' True)) r = (Inl err, r)"
    using y r x by (auto simp: register_experiment_def bindP_run refuse_def)
  ultimately show ?thesis using r(1) by blast
qed

end
