(* ===== verification/ReplayManifest.thy ===== *)
theory ReplayManifest
  imports PreRegistration
begin

text \<open>
  The read-only guard of the execution simulator (packages/execution-simulator/src/read-only-guard.ts)
  and the frozen replay manifests (replay-manifest.ts). Payloads are JSON values; \<open>Date.parse\<close> and the
  digest are arguments.
\<close>

section \<open>The read-only guard\<close>

definition PROHIBITED_PAYLOAD_MARKERS :: "string list" where
  "PROHIBITED_PAYLOAD_MARKERS =
     [''transactionPayload'', ''serializedMessage'', ''swapTransaction'', ''unsignedTransaction'', ''signedTransaction'',
      ''compiledInstructions'', ''partialSign'', ''signTransaction'', ''signAndSendTransaction'', ''sendTransaction'',
      ''signAllTransactions'', ''serializeMessage'', ''messageBytes'', ''blockhashLifetimeConstraint'',
      ''lastValidBlockHeight'', ''walletAdapter'', ''publicKeySigner'']"

definition MAX_SCAN_DEPTH :: nat where
  "MAX_SCAN_DEPTH = 8"

fun looksLikeTransactionPayload :: "jsval \<Rightarrow> nat \<Rightarrow> bool" where
  "looksLikeTransactionPayload (JsArr items) depth =
     (if depth > MAX_SCAN_DEPTH then False else list_ex (\<lambda>item. looksLikeTransactionPayload item (depth + 1)) items)"
| "looksLikeTransactionPayload (JsObj members) depth =
     (if depth > MAX_SCAN_DEPTH then False
      else if list_ex (\<lambda>marker. marker \<in> fst ` set members) PROHIBITED_PAYLOAD_MARKERS then True
      else list_ex (\<lambda>(k, child). looksLikeTransactionPayload child (depth + 1)) members)"
| "looksLikeTransactionPayload v depth = False"

definition refuseTransactionPayloads :: "jsval \<Rightarrow> unit res" where
  "refuseTransactionPayloads payload =
     (if payload = JsNull \<or> payload = JsUndefined then Inr ()
      else refuse (looksLikeTransactionPayload payload 0) EXEC_LABEL_CLAUSES_INVALID)"

text \<open>A marker is the name of a member of an object that is reached in so many steps into arrays and members.\<close>

fun carries :: "nat \<Rightarrow> jsval \<Rightarrow> bool" where
  "carries 0 v = (case v of JsObj ms \<Rightarrow> \<exists>marker \<in> set PROHIBITED_PAYLOAD_MARKERS. marker \<in> fst ` set ms | _ \<Rightarrow> False)"
| "carries (Suc n) v =
     (case v of JsArr vs \<Rightarrow> \<exists>w \<in> set vs. carries n w | JsObj ms \<Rightarrow> \<exists>(k, w) \<in> set ms. carries n w | _ \<Rightarrow> False)"

lemma carries_leaf [simp]: "carries n JsNull = False" "carries n JsUndefined = False" "carries n JsFun = False"
  "carries n (JsBool b) = False" "carries n (JsInt i) = False" "carries n (JsStr s) = False"
  by (cases n; simp)+

lemma carries_split: "(\<exists>n \<le> Suc m. carries n v) \<longleftrightarrow> carries 0 v \<or> (\<exists>n \<le> m. carries (Suc n) v)"
  by (metis Suc_le_mono le0 not0_implies_Suc)

lemma bex_pair: "(\<exists>m \<in> set ms. case m of (k, w) \<Rightarrow> P k w) \<longleftrightarrow> (\<exists>k w. (k, w) \<in> set ms \<and> P k w)"
  by auto

lemma looks_carries:
  "looksLikeTransactionPayload v d \<longleftrightarrow> d \<le> MAX_SCAN_DEPTH \<and> (\<exists>n \<le> MAX_SCAN_DEPTH - d. carries n v)"
proof (induction v d rule: looksLikeTransactionPayload.induct)
  case (1 vs d)
  show ?case
  proof (cases "MAX_SCAN_DEPTH - d")
    case 0
    then show ?thesis using 1 by (auto simp: list_ex_iff MAX_SCAN_DEPTH_def)
  next
    case (Suc m)
    then have "MAX_SCAN_DEPTH - (d + 1) = m" "d + 1 \<le> MAX_SCAN_DEPTH" by auto
    then show ?thesis using 1 unfolding Suc carries_split by (auto simp: list_ex_iff)
  qed
next
  case (2 ms d)
  let ?marked = "list_ex (\<lambda>marker. marker \<in> fst ` set ms) PROHIBITED_PAYLOAD_MARKERS"
  have marked: "carries 0 (JsObj ms) \<longleftrightarrow> ?marked" by (simp add: list_ex_iff)
  have child: "looksLikeTransactionPayload w (d + 1) \<longleftrightarrow> d + 1 \<le> MAX_SCAN_DEPTH \<and> (\<exists>n \<le> MAX_SCAN_DEPTH - (d + 1). carries n w)"
    if "\<not> MAX_SCAN_DEPTH < d" "\<not> ?marked" "(k, w) \<in> set ms" for k w
    by (rule 2 [OF that refl])
  show ?case
  proof (cases "MAX_SCAN_DEPTH - d")
    case 0
    then show ?thesis using child marked by (auto simp: list_ex_iff)
  next
    case (Suc m)
    then have "MAX_SCAN_DEPTH - (d + 1) = m" "d + 1 \<le> MAX_SCAN_DEPTH" "\<not> MAX_SCAN_DEPTH < d" by auto
    then show ?thesis using child unfolding Suc carries_split marked by (auto simp: list_ex_iff bex_pair) blast+
  qed
qed simp_all

text \<open>A value wrapped in so many arrays.\<close>

fun nested :: "nat \<Rightarrow> jsval \<Rightarrow> jsval" where
  "nested 0 v = v"
| "nested (Suc n) v = JsArr [nested n v]"

lemma carries_nested: "carries n (nested k v) \<longleftrightarrow> k \<le> n \<and> carries (n - k) v"
proof (induction k arbitrary: n)
  case (Suc k)
  then show ?case by (cases n) auto
qed simp

text \<open>
  C30 (read_only_guard_exact). The guard refuses a payload exactly when one of the prohibited markers names a member
  of an object that is at most eight steps inside the payload, through arrays and members in any
  combination; the refusal is always the typed error. (Transaction material that is wrapped nine times or more passes.)
\<close>

theorem read_only_guard_exact:
  "refuseTransactionPayloads p =
     (if \<exists>n \<le> 8. carries n p then Inl (ExecVocabularyError EXEC_LABEL_CLAUSES_INVALID) else Inr ()) \<and>
   (refuseTransactionPayloads (nested k (JsObj [(''signedTransaction'', JsNull)])) = Inr () \<longleftrightarrow> 8 < k)"
proof
  have eq: "refuseTransactionPayloads p =
     (if \<exists>n \<le> 8. carries n p then Inl (ExecVocabularyError EXEC_LABEL_CLAUSES_INVALID) else Inr ())" for p
    by (auto simp: refuseTransactionPayloads_def looks_carries refuse_def MAX_SCAN_DEPTH_def)
  show "refuseTransactionPayloads p =
     (if \<exists>n \<le> 8. carries n p then Inl (ExecVocabularyError EXEC_LABEL_CLAUSES_INVALID) else Inr ())" by (rule eq)
  let ?v = "JsObj [(''signedTransaction'', JsNull)]"
  have obj: "carries n ?v \<longleftrightarrow> n = 0" for n by (cases n) (simp_all add: PROHIBITED_PAYLOAD_MARKERS_def)
  have "(\<exists>n \<le> 8. carries n (nested k ?v)) \<longleftrightarrow> k \<le> 8" unfolding carries_nested obj by auto
  then show "refuseTransactionPayloads (nested k ?v) = Inr () \<longleftrightarrow> 8 < k" unfolding eq by auto
qed

section \<open>Frozen manifests\<close>

definition requireVersionList :: "jsval \<Rightarrow> jsval list res" where
  "requireVersionList v =
     (case v of
        JsArr vs \<Rightarrow>
          if vs = [] \<or> list_ex (\<lambda>x. case x of JsStr s \<Rightarrow> s = [] | _ \<Rightarrow> True) vs
          then Inl (ExecVocabularyError EXEC_LABEL_CLAUSES_INVALID) else Inr vs
      | _ \<Rightarrow> Inl (ExecVocabularyError EXEC_LABEL_CLAUSES_INVALID))"

text \<open>\<open>typeof v === 'object'\<close> for a value that is not null.\<close>

definition object_value :: "jsval \<Rightarrow> bool" where
  "object_value v = (case v of JsObj _ \<Rightarrow> True | JsArr _ \<Rightarrow> True | _ \<Rightarrow> False)"

definition require_text_member :: "jsval \<Rightarrow> string \<Rightarrow> unit res" where
  "require_text_member v k = refuse (\<not> text_member v k) EXEC_LABEL_CLAUSES_INVALID"

definition assumptionsHash :: "(string \<Rightarrow> string) \<Rightarrow> jsval \<Rightarrow> string res" where
  "assumptionsHash sha assumptions =
     bindE (refuse (\<not> object_value assumptions) EXEC_LABEL_CLAUSES_INVALID) (\<lambda>_.
     bindE (refuse (\<not> object_value (jsprop assumptions ''scenarioPayloads'')) EXEC_LABEL_CLAUSES_INVALID) (\<lambda>_.
     bindE (requireVersionList (jsprop assumptions ''poolMathAdapterVersions'')) (\<lambda>_.
     bindE (requireVersionList (jsprop assumptions ''executionScenarioVersions'')) (\<lambda>_.
     bindE (require_text_member assumptions ''conservativeStressPolicyId'') (\<lambda>_.
     bindE (require_text_member assumptions ''outcomeProfileVersion'') (\<lambda>_.
     bindE (require_text_member assumptions ''feePolicyVersionId'') (\<lambda>_.
     bindE (require_text_member assumptions ''entryPolicyVersionId'') (\<lambda>_.
     bindE (require_text_member assumptions ''exitPolicyVersionId'') (\<lambda>_.
     bindE (canonicalJson assumptions) (\<lambda>t. Inr (sha256Text sha t)))))))))))"

text \<open>The fields that are copied unchanged are one record, shared by the input and the manifest.\<close>

record manifest_versions =
  mfv_replayId :: js_unknown
  mfv_asOf :: js_unknown
  mfv_datasetVersion :: js_unknown
  mfv_populationClaim :: js_unknown
  mfv_candidateUniverseHash :: string
  mfv_observationCutoff :: js_unknown
  mfv_collectorCoverageManifestId :: js_unknown
  mfv_providerDependenceVersion :: js_unknown
  mfv_featureVersion :: js_unknown
  mfv_rankingVersion :: js_unknown
  mfv_workflowVersion :: js_unknown
  mfv_promptVersion :: js_unknown
  mfv_toolProfileVersion :: js_unknown
  mfv_modelProfileVersion :: js_unknown
  mfv_policyVersion :: js_unknown
  mfv_deliveryLatencyPolicyVersion :: js_unknown
  mfv_capacityContractVersion :: js_unknown
  mfv_holdoutExposureSnapshotId :: js_unknown
  mfv_codeAndDependencyHash :: string

record freeze_input =
  fzi_versions :: manifest_versions
  fzi_assumptions :: jsval
  fzi_artifactIds :: "js_unknown list option"

record replay_manifest =
  rmf_versions :: manifest_versions
  rmf_outcomeProfileVersion :: jsval
  rmf_poolMathAdapterVersions :: "jsval list"
  rmf_executionScenarioVersions :: "jsval list"
  rmf_artifactIds :: "js_unknown list"
  rmf_assumptionsHash :: "string option"

fun require_all :: "js_unknown list \<Rightarrow> unit res" where
  "require_all [] = Inr ()"
| "require_all (v # vs) = bindE (require_non_empty v) (\<lambda>_. require_all vs)"

text \<open>The items of a spread or iterated array.\<close>

definition array_items :: "jsval \<Rightarrow> jsval list res" where
  "array_items v = (case v of JsArr vs \<Rightarrow> Inr vs | _ \<Rightarrow> Inl TypeError)"

text \<open>\<open>a > b\<close> on parsed dates: not-a-number compares false.\<close>

definition date_after :: "int option \<Rightarrow> int option \<Rightarrow> bool" where
  "date_after a b = (case (a, b) of (Some x, Some y) \<Rightarrow> y < x | _ \<Rightarrow> False)"

definition freezeReplayManifest ::
  "(string \<Rightarrow> string) \<Rightarrow> (string \<Rightarrow> int option) \<Rightarrow> freeze_input option \<Rightarrow> replay_manifest res" where
  "freezeReplayManifest sha date_parse arg =
     (case arg of
        None \<Rightarrow> Inl (ExecVocabularyError EXEC_LABEL_CLAUSES_INVALID)
      | Some input \<Rightarrow>
          let v = fzi_versions input; a = fzi_assumptions input
          in
          bindE (require_non_empty (mfv_replayId v)) (\<lambda>_.
          bindE (requireIsoZ (mfv_asOf v)) (\<lambda>asOf.
          bindE (require_all [mfv_datasetVersion v, mfv_populationClaim v, mfv_collectorCoverageManifestId v, mfv_providerDependenceVersion v,
            mfv_featureVersion v, mfv_rankingVersion v, mfv_workflowVersion v, mfv_promptVersion v, mfv_toolProfileVersion v,
            mfv_modelProfileVersion v, mfv_policyVersion v, mfv_deliveryLatencyPolicyVersion v, mfv_capacityContractVersion v,
            mfv_holdoutExposureSnapshotId v]) (\<lambda>_.
          bindE (refuse (\<not> HASH_PATTERN (mfv_candidateUniverseHash v)) EXEC_LABEL_CLAUSES_INVALID) (\<lambda>_.
          bindE (refuse (\<not> HASH_PATTERN (mfv_codeAndDependencyHash v)) EXEC_LABEL_CLAUSES_INVALID) (\<lambda>_.
          bindE (requireIsoZ (mfv_observationCutoff v)) (\<lambda>observationCutoff.
          bindE (refuse (date_after (date_parse observationCutoff) (date_parse asOf)) EXEC_LABEL_CLAUSES_INVALID) (\<lambda>_.
          bindE (case fzi_artifactIds input of
                   None \<Rightarrow> Inl (ExecVocabularyError EXEC_LABEL_CLAUSES_INVALID)
                 | Some ids \<Rightarrow> if list_ex (\<lambda>x. \<not> non_empty_string x) ids then Inl (ExecVocabularyError EXEC_LABEL_CLAUSES_INVALID) else Inr ids) (\<lambda>ids.
          bindE (assumptionsHash sha a) (\<lambda>hash.
          bindE (array_items (jsprop a ''poolMathAdapterVersions'')) (\<lambda>adapters.
          bindE (array_items (jsprop a ''executionScenarioVersions'')) (\<lambda>scenarios.
          Inr \<lparr>rmf_versions = v, rmf_outcomeProfileVersion = jsprop a ''outcomeProfileVersion'', rmf_poolMathAdapterVersions = adapters,
               rmf_executionScenarioVersions = scenarios, rmf_artifactIds = ids, rmf_assumptionsHash = Some hash\<rparr>))))))))))))"

definition verifyReproduction :: "(string \<Rightarrow> string) \<Rightarrow> replay_manifest option \<Rightarrow> jsval \<Rightarrow> (bool \<times> string option) res" where
  "verifyReproduction sha arg evaluating =
     (case arg of
        None \<Rightarrow> Inl (ExecVocabularyError EXEC_LABEL_CLAUSES_INVALID)
      | Some manifest \<Rightarrow>
          bindE (array_items (jsprop evaluating ''executionScenarioVersions'')) (\<lambda>scenarios.
          if \<not> set scenarios \<subseteq> set (rmf_executionScenarioVersions manifest) then Inr (False, Some ''SCENARIO_VERSION_NOT_IN_MANIFEST'')
          else
          bindE (array_items (jsprop evaluating ''poolMathAdapterVersions'')) (\<lambda>adapters.
          if \<not> set adapters \<subseteq> set (rmf_poolMathAdapterVersions manifest) then Inr (False, Some ''ADAPTER_VERSION_NOT_IN_MANIFEST'')
          else if rmf_outcomeProfileVersion manifest \<noteq> jsprop evaluating ''outcomeProfileVersion''
          then Inr (False, Some ''OUTCOME_PROFILE_DRIFT'')
          else
          case rmf_assumptionsHash manifest of
            None \<Rightarrow> Inr (True, None)
          | Some frozen \<Rightarrow>
              bindE (assumptionsHash sha evaluating) (\<lambda>hash.
              if hash \<noteq> frozen then Inr (False, Some ''ASSUMPTIONS_HASH_DRIFT'') else Inr (True, None)))))"

section \<open>What reproduces\<close>

definition well_formed_assumptions :: "jsval \<Rightarrow> bool" where
  "well_formed_assumptions a \<longleftrightarrow> (\<exists>h. assumptionsHash (\<lambda>t. t) a = Inr h)"

lemma assumptionsHash_Inr:
  "assumptionsHash sha a = Inr h \<longleftrightarrow> well_formed_assumptions a \<and> (\<exists>t. canonicalJson a = Inr t \<and> h = sha256Text sha t)"
  by (auto simp: assumptionsHash_def well_formed_assumptions_def bindE_eq_Inr)

lemma well_formed_lists:
  "well_formed_assumptions a \<Longrightarrow> \<exists>xs ys. array_items (jsprop a ''poolMathAdapterVersions'') = Inr xs \<and> array_items (jsprop a ''executionScenarioVersions'') = Inr ys"
  by (auto simp: well_formed_assumptions_def assumptionsHash_def bindE_eq_Inr requireVersionList_def array_items_def split: jsval.splits)

lemma frozen_manifest:
  assumes "freezeReplayManifest sha date_parse (Some i) = Inr m"
  obtains t adapters scenarios where "well_formed_assumptions (fzi_assumptions i)" "canonicalJson (fzi_assumptions i) = Inr t"
    "array_items (jsprop (fzi_assumptions i) ''poolMathAdapterVersions'') = Inr adapters"
    "array_items (jsprop (fzi_assumptions i) ''executionScenarioVersions'') = Inr scenarios"
    "rmf_assumptionsHash m = Some (sha256Text sha t)" "rmf_poolMathAdapterVersions m = adapters"
    "rmf_executionScenarioVersions m = scenarios" "rmf_outcomeProfileVersion m = jsprop (fzi_assumptions i) ''outcomeProfileVersion''"
  using assms unfolding freezeReplayManifest_def by (auto simp: bindE_eq_Inr Let_def assumptionsHash_Inr)


definition sample_assumptions :: jsval where
  "sample_assumptions =
     JsObj ([(''scenarioPayloads'', JsObj []), (''poolMathAdapterVersions'', JsArr [JsStr ''a1'']),
             (''executionScenarioVersions'', JsArr [JsStr ''s1''])] @
       map (\<lambda>k. (k, JsStr ''v'')) [''conservativeStressPolicyId'', ''outcomeProfileVersion'', ''feePolicyVersionId'', ''entryPolicyVersionId'',
         ''exitPolicyVersionId''])"

definition sample_freeze :: freeze_input where
  "sample_freeze =
     (let u = U_string ''v''; t = U_string ''2026-01-01T00:00:00Z''; h = ''sha256:'' @ replicate 64 (CHR ''0'')
      in \<lparr>fzi_versions =
            \<lparr>mfv_replayId = u, mfv_asOf = t, mfv_datasetVersion = u, mfv_populationClaim = u, mfv_candidateUniverseHash = h,
             mfv_observationCutoff = t, mfv_collectorCoverageManifestId = u, mfv_providerDependenceVersion = u, mfv_featureVersion = u,
             mfv_rankingVersion = u, mfv_workflowVersion = u, mfv_promptVersion = u, mfv_toolProfileVersion = u,
             mfv_modelProfileVersion = u, mfv_policyVersion = u, mfv_deliveryLatencyPolicyVersion = u, mfv_capacityContractVersion = u,
             mfv_holdoutExposureSnapshotId = u, mfv_codeAndDependencyHash = h\<rparr>,
          fzi_assumptions = sample_assumptions, fzi_artifactIds = Some []\<rparr>)"


end
