(* ===== verification/SimulationRecords.thy ===== *)
theory SimulationRecords
  imports TargetEvidence
begin

text \<open>
  What a simulation exposes: the uncertainty record (packages/execution-simulator/src/uncertainty.ts), the
  execution content of an alert (alert-content.ts) and the finite observation plans (experiments.ts).
  \<open>Date.parse\<close> is an argument; a date that does not parse is not a number and compares false.
\<close>

section \<open>Uncertainty\<close>

record uncertainty_input =
  uri_stateCompleteness :: js_unknown
  uri_relativeUncertainty :: js_unknown
  uri_policyLimit :: js_unknown
  uri_qualityCodes :: "js_unknown list"
  uri_adapterVersions :: "string list option"
  uri_notionalUsd :: string
  uri_actionDelaySeconds :: jsnum
  uri_baseCaseNetReturnUsd :: string
  uri_stressCaseNetReturnUsd :: string
  uri_fillFraction :: js_unknown
  uri_fillDurationSeconds :: jsnum
  uri_modeledFeesUsd :: string
  uri_modeledImpactUsd :: string
  uri_unsupportedAssumptions :: "string list"
  uri_renderedAt :: string
  uri_validUntil :: string

record uncertainty_bound =
  unb_stateCompleteness :: js_unknown
  unb_relativeUncertainty :: js_unknown
  unb_policyLimit :: js_unknown
  unb_qualityCodes :: "js_unknown list"

text \<open>The rendering: the bound and the verdict, and the fields that are copied from the input.\<close>

record uncertainty_rendering =
  urr_bound :: "uncertainty_bound option"
  urr_adapterVersions :: "string list"
  urr_notionalUsd :: string
  urr_actionDelaySeconds :: jsnum
  urr_baseCaseNetReturnUsd :: string
  urr_stressCaseNetReturnUsd :: string
  urr_fillFraction :: js_unknown
  urr_fillDurationSeconds :: jsnum
  urr_modeledFeesUsd :: string
  urr_modeledImpactUsd :: string
  urr_unsupportedAssumptions :: "string list"
  urr_renderedAt :: string
  urr_validUntil :: string
  urr_blocked :: bool

definition unit_fraction :: "js_unknown \<Rightarrow> bool" where
  "unit_fraction v = (case finite_number v of None \<Rightarrow> False | Some a \<Rightarrow> \<not> (a < 0 \<or> 1 < a))"

text \<open>\<open>a <= b\<close> on parsed dates.\<close>

definition date_upto :: "int option \<Rightarrow> int option \<Rightarrow> bool" where
  "date_upto a b = (case (a, b) of (Some x, Some y) \<Rightarrow> x \<le> y | _ \<Rightarrow> False)"

definition bound_value :: "uncertainty_input \<Rightarrow> js_unknown" where
  "bound_value input =
     (if uri_stateCompleteness input = U_string ''INCOMPLETE_BLOCKING'' \<and> finite_number (uri_relativeUncertainty input) = None
      then U_number (Fin 1) else uri_relativeUncertainty input)"

definition renderUncertainty :: "(string \<Rightarrow> int option) \<Rightarrow> uncertainty_input option \<Rightarrow> uncertainty_rendering res" where
  "renderUncertainty date_parse arg =
     (case arg of
        None \<Rightarrow> Inl (ExecVocabularyError EXEC_UNCERTAINTY_INPUT_INVALID)
      | Some input \<Rightarrow>
          bindE (refuse (uri_stateCompleteness input \<notin> {U_string ''COMPLETE'', U_string ''INCOMPLETE_BLOCKING''}) EXEC_UNCERTAINTY_INPUT_INVALID) (\<lambda>_.
          bindE (refuse (\<not> unit_fraction (uri_policyLimit input)) EXEC_UNCERTAINTY_INPUT_INVALID) (\<lambda>_.
          bindE (refuse (uri_qualityCodes input = []) EXEC_UNCERTAINTY_INPUT_INVALID) (\<lambda>_.
          bindE (refuse (list_ex (\<lambda>code. \<not> isQualityCode code) (uri_qualityCodes input)) EXEC_UNCERTAINTY_INPUT_INVALID) (\<lambda>_.
          let boundValue = bound_value input
          in
          bindE (refuse (boundValue \<noteq> U_null \<and> \<not> unit_fraction boundValue) EXEC_UNCERTAINTY_INPUT_INVALID) (\<lambda>_.
          bindE (refuse (\<not> ISO_Z (uri_renderedAt input) \<or> \<not> ISO_Z (uri_validUntil input)) EXEC_UNCERTAINTY_INPUT_INVALID) (\<lambda>_.
          bindE (refuse (date_upto (date_parse (uri_validUntil input)) (date_parse (uri_renderedAt input))) EXEC_UNCERTAINTY_INPUT_INVALID) (\<lambda>_.
          bindE (refuse (\<not> NON_NEGATIVE_DECIMAL (uri_notionalUsd input) \<or> \<not> NON_NEGATIVE_DECIMAL (uri_baseCaseNetReturnUsd input) \<or>
                   \<not> NON_NEGATIVE_DECIMAL (uri_stressCaseNetReturnUsd input) \<or> \<not> NON_NEGATIVE_DECIMAL (uri_modeledFeesUsd input) \<or>
                   \<not> NON_NEGATIVE_DECIMAL (uri_modeledImpactUsd input)) EXEC_UNCERTAINTY_INPUT_INVALID) (\<lambda>_.
          bindE (refuse (\<not> unit_fraction (uri_fillFraction input)) EXEC_UNCERTAINTY_INPUT_INVALID) (\<lambda>_.
          bindE (case uri_adapterVersions input of
                   None \<Rightarrow> Inl (ExecVocabularyError EXEC_UNCERTAINTY_INPUT_INVALID)
                 | Some vs \<Rightarrow> if vs = [] then Inl (ExecVocabularyError EXEC_UNCERTAINTY_INPUT_INVALID) else Inr vs) (\<lambda>adapterVersions.
          let stateComplete = (uri_stateCompleteness input = U_string ''COMPLETE'')
          in
          bindE (uncertaintyBlocksTradability
                   \<lparr>ua_stateComplete = U_bool stateComplete,
                    ua_parityVerified = U_bool (stateComplete \<and> uri_unsupportedAssumptions input = []),
                    ua_uncertaintyBound = boundValue, ua_policyLimit = uri_policyLimit input\<rparr>) (\<lambda>blocked.
          Inr \<lparr>urr_bound = (if boundValue = U_null then None
                 else Some \<lparr>unb_stateCompleteness = uri_stateCompleteness input, unb_relativeUncertainty = boundValue,
                            unb_policyLimit = uri_policyLimit input, unb_qualityCodes = uri_qualityCodes input\<rparr>),
               urr_adapterVersions = adapterVersions, urr_notionalUsd = uri_notionalUsd input,
               urr_actionDelaySeconds = uri_actionDelaySeconds input, urr_baseCaseNetReturnUsd = uri_baseCaseNetReturnUsd input,
               urr_stressCaseNetReturnUsd = uri_stressCaseNetReturnUsd input, urr_fillFraction = uri_fillFraction input,
               urr_fillDurationSeconds = uri_fillDurationSeconds input, urr_modeledFeesUsd = uri_modeledFeesUsd input,
               urr_modeledImpactUsd = uri_modeledImpactUsd input, urr_unsupportedAssumptions = uri_unsupportedAssumptions input,
               urr_renderedAt = uri_renderedAt input, urr_validUntil = uri_validUntil input, urr_blocked = blocked\<rparr>))))))))))))"

text \<open>What is accepted, and which accepted record leaves tradability open.\<close>

definition renderable :: "(string \<Rightarrow> int option) \<Rightarrow> uncertainty_input \<Rightarrow> bool" where
  "renderable date_parse i \<longleftrightarrow>
     (uri_stateCompleteness i = U_string ''COMPLETE'' \<and> (uri_relativeUncertainty i = U_null \<or> fraction_value (uri_relativeUncertainty i)) \<or>
      uri_stateCompleteness i = U_string ''INCOMPLETE_BLOCKING'' \<and>
        (fraction_value (uri_relativeUncertainty i) \<or> finite_number (uri_relativeUncertainty i) = None)) \<and>
     fraction_value (uri_policyLimit i) \<and> fraction_value (uri_fillFraction i) \<and>
     uri_qualityCodes i \<noteq> [] \<and> list_all isQualityCode (uri_qualityCodes i) \<and>
     ISO_Z (uri_renderedAt i) \<and> ISO_Z (uri_validUntil i) \<and>
     \<not> (\<exists>r u. date_parse (uri_renderedAt i) = Some r \<and> date_parse (uri_validUntil i) = Some u \<and> u \<le> r) \<and>
     list_all NON_NEGATIVE_DECIMAL [uri_notionalUsd i, uri_baseCaseNetReturnUsd i, uri_stressCaseNetReturnUsd i, uri_modeledFeesUsd i, uri_modeledImpactUsd i] \<and>
     uri_adapterVersions i \<noteq> None \<and> uri_adapterVersions i \<noteq> Some []"

definition within_limit :: "uncertainty_input \<Rightarrow> bool" where
  "within_limit i \<longleftrightarrow>
     uri_stateCompleteness i = U_string ''COMPLETE'' \<and> uri_unsupportedAssumptions i = [] \<and>
     (\<exists>b l. uri_relativeUncertainty i = U_number (Fin b) \<and> uri_policyLimit i = U_number (Fin l) \<and> b \<le> l)"

lemma refuse_bind: "bindE (refuse b c) f = (if b then Inl (ExecVocabularyError c) else f ())"
  by (simp add: refuse_def)

lemma unit_fraction_iff: "unit_fraction v \<longleftrightarrow> fraction_value v"
  by (auto simp: unit_fraction_def fraction_value_def finite_number_def split: js_unknown.splits jsnum.splits)

lemma date_upto_iff: "date_upto a b \<longleftrightarrow> (\<exists>x y. b = Some x \<and> a = Some y \<and> y \<le> x)"
  by (auto simp: date_upto_def split: option.splits)

lemma fraction_finite: "fraction_value v \<Longrightarrow> \<exists>a. finite_number v = Some a"
  by (auto simp: fraction_value_def finite_number_def)

lemma bound_ok:
  assumes "uri_stateCompleteness i \<in> {U_string ''COMPLETE'', U_string ''INCOMPLETE_BLOCKING''}"
  shows "bound_value i = U_null \<or> fraction_value (bound_value i) \<longleftrightarrow>
    uri_stateCompleteness i = U_string ''COMPLETE'' \<and> (uri_relativeUncertainty i = U_null \<or> fraction_value (uri_relativeUncertainty i)) \<or>
      uri_stateCompleteness i = U_string ''INCOMPLETE_BLOCKING'' \<and>
        (fraction_value (uri_relativeUncertainty i) \<or> finite_number (uri_relativeUncertainty i) = None)"
  using assms fraction_finite [of "uri_relativeUncertainty i"]
  by (auto simp: bound_value_def fraction_value_def finite_number_def)

text \<open>The assessment the record is blocked by.\<close>

abbreviation assessed :: "uncertainty_input \<Rightarrow> uncertainty_assessment" where
  "assessed i \<equiv>
     \<lparr>ua_stateComplete = U_bool (uri_stateCompleteness i = U_string ''COMPLETE''),
      ua_parityVerified = U_bool (uri_stateCompleteness i = U_string ''COMPLETE'' \<and> uri_unsupportedAssumptions i = []),
      ua_uncertaintyBound = bound_value i, ua_policyLimit = uri_policyLimit i\<rparr>"

lemma render_eq:
  "renderUncertainty date_parse (Some i) =
     (if renderable date_parse i then
        bindE (uncertaintyBlocksTradability (assessed i)) (\<lambda>blocked.
          Inr \<lparr>urr_bound = (if bound_value i = U_null then None
                 else Some \<lparr>unb_stateCompleteness = uri_stateCompleteness i, unb_relativeUncertainty = bound_value i,
                            unb_policyLimit = uri_policyLimit i, unb_qualityCodes = uri_qualityCodes i\<rparr>),
               urr_adapterVersions = the (uri_adapterVersions i), urr_notionalUsd = uri_notionalUsd i,
               urr_actionDelaySeconds = uri_actionDelaySeconds i, urr_baseCaseNetReturnUsd = uri_baseCaseNetReturnUsd i,
               urr_stressCaseNetReturnUsd = uri_stressCaseNetReturnUsd i, urr_fillFraction = uri_fillFraction i,
               urr_fillDurationSeconds = uri_fillDurationSeconds i, urr_modeledFeesUsd = uri_modeledFeesUsd i,
               urr_modeledImpactUsd = uri_modeledImpactUsd i, urr_unsupportedAssumptions = uri_unsupportedAssumptions i,
               urr_renderedAt = uri_renderedAt i, urr_validUntil = uri_validUntil i, urr_blocked = blocked\<rparr>)
      else Inl (ExecVocabularyError EXEC_UNCERTAINTY_INPUT_INVALID))"
proof (cases "uri_stateCompleteness i \<in> {U_string ''COMPLETE'', U_string ''INCOMPLETE_BLOCKING''}")
  case True
  have codes: "list_ex (\<lambda>code. \<not> isQualityCode code) cs \<longleftrightarrow> \<not> list_all isQualityCode cs" for cs by (simp add: list_ex_iff list_all_iff)
  have b: "renderable date_parse i \<longleftrightarrow> (bound_value i = U_null \<or> fraction_value (bound_value i)) \<and>
     fraction_value (uri_policyLimit i) \<and> fraction_value (uri_fillFraction i) \<and>
     uri_qualityCodes i \<noteq> [] \<and> list_all isQualityCode (uri_qualityCodes i) \<and>
     ISO_Z (uri_renderedAt i) \<and> ISO_Z (uri_validUntil i) \<and>
     \<not> date_upto (date_parse (uri_validUntil i)) (date_parse (uri_renderedAt i)) \<and>
     list_all NON_NEGATIVE_DECIMAL [uri_notionalUsd i, uri_baseCaseNetReturnUsd i, uri_stressCaseNetReturnUsd i, uri_modeledFeesUsd i, uri_modeledImpactUsd i] \<and>
     uri_adapterVersions i \<noteq> None \<and> uri_adapterVersions i \<noteq> Some []"
    unfolding bound_ok [OF True] renderable_def date_upto_iff ..
  show ?thesis
    unfolding renderUncertainty_def option.case refuse_bind Let_def unit_fraction_iff codes b using True
    by (cases "uri_adapterVersions i") (auto simp: bindE_def)
next
  case False
  then show ?thesis by (auto simp: renderUncertainty_def renderable_def refuse_bind)
qed

lemma assessed_blocks:
  assumes "renderable date_parse i"
  shows "uncertaintyBlocksTradability (assessed i) = Inr (\<not> within_limit i)"
proof -
  obtain l where l: "uri_policyLimit i = U_number (Fin l)" "0 \<le> l" using assms by (auto simp: renderable_def fraction_value_def)
  have b: "bound_value i = U_null \<or> fraction_value (bound_value i)"
    using assms bound_ok [of i] unfolding renderable_def by blast
  show ?thesis
  proof (cases "uri_stateCompleteness i = U_string ''COMPLETE''")
    case True
    then have "bound_value i = uri_relativeUncertainty i" by (simp add: bound_value_def)
    then show ?thesis using True l b
      by (auto simp: uncertaintyBlocksTradability_def within_limit_def finite_number_def fraction_value_def parseStrictBoolean_iff bindE_def parseStrictBoolean_def)
  qed (use l in \<open>simp add: uncertaintyBlocksTradability_def within_limit_def finite_number_def parseStrictBoolean_def\<close>)
qed

text \<open>
  C31 (uncertainty_rendering_exact). A record is rendered exactly when its input is renderable: a known state completeness,
  fractions for the limit and the fill, known quality codes and at least one, ISO instants of which the
  expiry is not at or before the rendering, non-negative amounts, at least one adapter version, and a bound that is a fraction, or absent for a complete
  state and anything but an out-of-range number for an incomplete one. Every refusal is the one typed error. The record leaves tradability open exactly when the state is complete, no
  assumption is unsupported and an established bound is within the policy limit; an incomplete
  state always states a bound, the greatest one when it is unknown. (Negative net returns cannot be
  rendered, and an expiry whose date does not parse is not refused.)
\<close>

theorem uncertainty_rendering_exact:
  "renderUncertainty date_parse None = Inl (ExecVocabularyError EXEC_UNCERTAINTY_INPUT_INVALID) \<and>
   (case renderUncertainty date_parse (Some i) of
      Inl e \<Rightarrow> \<not> renderable date_parse i \<and> e = ExecVocabularyError EXEC_UNCERTAINTY_INPUT_INVALID
    | Inr r \<Rightarrow> renderable date_parse i \<and> (urr_blocked r \<longleftrightarrow> \<not> within_limit i) \<and> urr_validUntil r = uri_validUntil i \<and>
        (if uri_stateCompleteness i = U_string ''COMPLETE''
         then map_option unb_relativeUncertainty (urr_bound r) =
           (if uri_relativeUncertainty i = U_null then None else Some (uri_relativeUncertainty i))
         else urr_blocked r \<and> map_option unb_relativeUncertainty (urr_bound r) =
           Some (case finite_number (uri_relativeUncertainty i) of None \<Rightarrow> U_number (Fin 1) | Some _ \<Rightarrow> uri_relativeUncertainty i)))"
proof
  show "renderUncertainty date_parse None = Inl (ExecVocabularyError EXEC_UNCERTAINTY_INPUT_INVALID)" by (simp add: renderUncertainty_def)
  show "case renderUncertainty date_parse (Some i) of
      Inl e \<Rightarrow> \<not> renderable date_parse i \<and> e = ExecVocabularyError EXEC_UNCERTAINTY_INPUT_INVALID
    | Inr r \<Rightarrow> renderable date_parse i \<and> (urr_blocked r \<longleftrightarrow> \<not> within_limit i) \<and> urr_validUntil r = uri_validUntil i \<and>
        (if uri_stateCompleteness i = U_string ''COMPLETE''
         then map_option unb_relativeUncertainty (urr_bound r) =
           (if uri_relativeUncertainty i = U_null then None else Some (uri_relativeUncertainty i))
         else urr_blocked r \<and> map_option unb_relativeUncertainty (urr_bound r) =
           Some (case finite_number (uri_relativeUncertainty i) of None \<Rightarrow> U_number (Fin 1) | Some _ \<Rightarrow> uri_relativeUncertainty i))"
  proof (cases "renderable date_parse i")
    case True
    then have "uri_stateCompleteness i \<noteq> U_string ''COMPLETE'' \<longrightarrow> uri_stateCompleteness i = U_string ''INCOMPLETE_BLOCKING''"
      by (auto simp: renderable_def)
    then show ?thesis
      unfolding render_eq assessed_blocks [OF True]
      using True by (auto simp: bound_value_def within_limit_def finite_number_def split: option.splits)
  qed (simp add: render_eq)
qed

section \<open>Alert content\<close>

record alert_content =
  aec_alertId :: js_unknown
  aec_candidateId :: js_unknown
  aec_configuredNotionalUsd :: js_unknown
  aec_actionDelaySeconds :: js_unknown
  aec_modeledEntryImpact :: js_unknown
  aec_modeledExitImpact :: js_unknown
  aec_assumptions :: "js_unknown list"
  aec_assumptionsHash :: js_unknown
  aec_renderedAt :: string
  aec_validUntil :: string

definition non_negative_number :: "js_unknown \<Rightarrow> bool" where
  "non_negative_number v = (case finite_number v of None \<Rightarrow> False | Some a \<Rightarrow> \<not> a < 0)"

text \<open>The rendered content has the fields of the input, so one record serves for both.\<close>

definition renderAlertExecutionContent :: "(string \<Rightarrow> int option) \<Rightarrow> alert_content option \<Rightarrow> alert_content res" where
  "renderAlertExecutionContent date_parse arg =
     (case arg of
        None \<Rightarrow> Inl (ExecVocabularyError EXEC_LABEL_CLAUSES_INVALID)
      | Some input \<Rightarrow>
          bindE (refuse (list_ex (\<lambda>v. \<not> non_empty_string v) [aec_alertId input, aec_candidateId input]) EXEC_LABEL_CLAUSES_INVALID) (\<lambda>_.
          bindE (requireDecimal (aec_configuredNotionalUsd input)) (\<lambda>_.
          bindE (refuse (case integer_number (aec_actionDelaySeconds input) of None \<Rightarrow> True | Some n \<Rightarrow> n < 0) EXEC_LABEL_CLAUSES_INVALID) (\<lambda>_.
          bindE (refuse (list_ex (\<lambda>v. \<not> non_negative_number v) [aec_modeledEntryImpact input, aec_modeledExitImpact input]) EXEC_LABEL_CLAUSES_INVALID) (\<lambda>_.
          bindE (refuse (aec_assumptions input = [] \<or> list_ex (\<lambda>a. \<not> non_empty_string a) (aec_assumptions input)) EXEC_LABEL_CLAUSES_INVALID) (\<lambda>_.
          bindE (refuse (case aec_assumptionsHash input of U_string h \<Rightarrow> \<not> HASH_PATTERN h | _ \<Rightarrow> True) EXEC_LABEL_CLAUSES_INVALID) (\<lambda>_.
          bindE (refuse (\<not> ISO_Z (aec_renderedAt input) \<or> \<not> ISO_Z (aec_validUntil input)) EXEC_LABEL_CLAUSES_INVALID) (\<lambda>_.
          bindE (refuse (date_upto (date_parse (aec_validUntil input)) (date_parse (aec_renderedAt input))) EXEC_LABEL_CLAUSES_INVALID) (\<lambda>_.
          Inr input)))))))))"

lemma alert_content_exact:
  "renderAlertExecutionContent date_parse (Some c) = Inr d \<longleftrightarrow>
     d = c \<and> list_all non_empty_string (aec_alertId c # aec_candidateId c # aec_assumptions c) \<and> aec_assumptions c \<noteq> [] \<and>
     amount (aec_configuredNotionalUsd c) \<and> (\<exists>n \<ge> 0. integer_number (aec_actionDelaySeconds c) = Some n) \<and>
     list_all non_negative_number [aec_modeledEntryImpact c, aec_modeledExitImpact c] \<and>
     (\<exists>h. aec_assumptionsHash c = U_string h \<and> HASH_PATTERN h) \<and> ISO_Z (aec_renderedAt c) \<and> ISO_Z (aec_validUntil c) \<and>
     \<not> (\<exists>r u. date_parse (aec_renderedAt c) = Some r \<and> date_parse (aec_validUntil c) = Some u \<and> u \<le> r)"
proof -
  have "(case integer_number v of None \<Rightarrow> True | Some n \<Rightarrow> n < 0) \<longleftrightarrow> \<not> (\<exists>n \<ge> 0. integer_number v = Some n)" for v
    by (cases "integer_number v") (auto simp: not_le [symmetric])
  moreover have "(case v of U_string h \<Rightarrow> \<not> HASH_PATTERN h | _ \<Rightarrow> True) \<longleftrightarrow> \<not> (\<exists>h. v = U_string h \<and> HASH_PATTERN h)" for v
    by (auto split: js_unknown.splits)
  moreover have "(\<exists>s. requireDecimal v = Inr s) \<longleftrightarrow> amount v" for v by (auto simp: requireDecimal_Inr amount_def)
  ultimately show ?thesis
    unfolding renderAlertExecutionContent_def option.case
    by (auto simp: bindE_eq_Inr date_upto_iff list_ex_iff list_all_iff)
qed

section \<open>Observation plans\<close>

record plan_floor =
  plf_temporalSeconds :: js_unknown
  plf_poolStateComplete :: js_unknown
  plf_liquidityDepthMinUsd :: string

record observation_plan =
  obp_planId :: js_unknown
  obp_planVersion :: js_unknown
  obp_candidateId :: js_unknown
  obp_triggerClass :: js_unknown
  obp_cadenceSeconds :: js_unknown
  obp_observedFields :: "js_unknown list"
  obp_providerSourceIds :: "js_unknown list"
  obp_durationSeconds :: js_unknown
  obp_quotaCeiling :: "(string \<times> js_unknown) list option"
  obp_degradationPolicyId :: js_unknown
  obp_resolutionFloor :: "plan_floor option"
  obp_inclusionProbability :: js_unknown
  obp_stratum :: js_unknown
  obp_populationLimit :: js_unknown
  obp_registeredAt :: js_unknown

definition positive_integer :: "js_unknown \<Rightarrow> bool" where
  "positive_integer v = (case integer_number v of None \<Rightarrow> False | Some n \<Rightarrow> \<not> n < 1)"

definition strict_boolean :: "js_unknown \<Rightarrow> bool" where
  "strict_boolean v = (case v of U_bool _ \<Rightarrow> True | _ \<Rightarrow> False)"

definition null_coalesce :: "js_unknown \<Rightarrow> js_unknown" where
  "null_coalesce v = (if nullish v then U_null else v)"

definition text_list :: "js_unknown list \<Rightarrow> bool" where
  "text_list vs \<longleftrightarrow> vs \<noteq> [] \<and> list_all non_empty_string vs"

definition issueObservationPlan :: "observation_plan option \<Rightarrow> observation_plan res" where
  "issueObservationPlan arg =
     (case arg of
        None \<Rightarrow> Inl (ExecVocabularyError EXEC_LABEL_CLAUSES_INVALID)
      | Some input \<Rightarrow>
          bindE (refuse (list_ex (\<lambda>v. \<not> non_empty_string v) [obp_planId input, obp_planVersion input, obp_candidateId input,
            obp_triggerClass input, obp_degradationPolicyId input, obp_registeredAt input]) EXEC_LABEL_CLAUSES_INVALID) (\<lambda>_.
          bindE (requireIsoZ (obp_registeredAt input)) (\<lambda>_.
          bindE (refuse (\<not> positive_integer (obp_cadenceSeconds input)) EXEC_LABEL_CLAUSES_INVALID) (\<lambda>_.
          bindE (refuse (\<not> positive_integer (obp_durationSeconds input)) EXEC_LABEL_CLAUSES_INVALID) (\<lambda>_.
          bindE (refuse (\<not> text_list (obp_observedFields input)) EXEC_LABEL_CLAUSES_INVALID) (\<lambda>_.
          bindE (refuse (\<not> text_list (obp_providerSourceIds input)) EXEC_LABEL_CLAUSES_INVALID) (\<lambda>_.
          bindE (refuse (obp_quotaCeiling input = None) EXEC_LABEL_CLAUSES_INVALID) (\<lambda>_.
          bindE (refuse (case obp_resolutionFloor input of
                   None \<Rightarrow> True
                 | Some f \<Rightarrow> \<not> positive_integer (plf_temporalSeconds f) \<or> \<not> strict_boolean (plf_poolStateComplete f)) EXEC_LABEL_CLAUSES_INVALID) (\<lambda>_.
          let sampled = \<not> nullish (obp_inclusionProbability input)
          in
          bindE (refuse (sampled \<and> \<not> unit_fraction (obp_inclusionProbability input)) EXEC_LABEL_CLAUSES_INVALID) (\<lambda>_.
          bindE (refuse (sampled \<and> (obp_stratum input = U_null \<or> obp_populationLimit input = U_null)) EXEC_LABEL_CLAUSES_INVALID) (\<lambda>_.
          Inr (input\<lparr>obp_inclusionProbability := null_coalesce (obp_inclusionProbability input),
                     obp_stratum := null_coalesce (obp_stratum input),
                     obp_populationLimit := null_coalesce (obp_populationLimit input)\<rparr>))))))))))))"

text \<open>A plan that is issued is finite, and a sampled one has its probability, a stratum and a limit that are not null.\<close>

lemma issued_plan_finite:
  assumes "issueObservationPlan (Some i) = Inr p"
  shows "(\<exists>n \<ge> 1. integer_number (obp_durationSeconds p) = Some n) \<and> (\<exists>n \<ge> 1. integer_number (obp_cadenceSeconds p) = Some n) \<and>
    obp_quotaCeiling p \<noteq> None \<and> text_list (obp_observedFields p) \<and> text_list (obp_providerSourceIds p) \<and>
    (obp_inclusionProbability p = U_null \<or>
      fraction_value (obp_inclusionProbability p) \<and> obp_stratum i \<noteq> U_null \<and> obp_populationLimit i \<noteq> U_null)"
proof -
  have pos: "positive_integer v \<longleftrightarrow> (\<exists>n \<ge> 1. integer_number v = Some n)" for v by (auto simp: positive_integer_def split: option.splits)
  show ?thesis
    using assms unfolding issueObservationPlan_def option.case
    by (auto simp: bindE_eq_Inr Let_def pos unit_fraction_iff null_coalesce_def)
qed

text \<open>A value that was checked to be a number, as a number.\<close>

definition number_of :: "js_unknown \<Rightarrow> jsnum" where
  "number_of v = (case v of U_number n \<Rightarrow> n | _ \<Rightarrow> NaN)"

datatype resolution_ceiling = TRADABLE_SUCCESS_PROVABLE | SIGNAL_ONLY

text \<open>The comparison of depths is that of \<open>decimalCompare\<close>: the parts padded to one scale. Both texts are decimals.\<close>

definition resolutionCeilingFor :: "observation_plan option \<Rightarrow> jsnum \<Rightarrow> string \<Rightarrow> bool \<Rightarrow> resolution_ceiling res" where
  "resolutionCeilingFor arg effectiveTemporalSeconds observedLiquidityDepthUsd poolStateComplete =
     (case arg of
        None \<Rightarrow> Inl (ExecVocabularyError EXEC_LABEL_CLAUSES_INVALID)
      | Some plan \<Rightarrow>
          (case obp_resolutionFloor plan of
             None \<Rightarrow> Inl TypeError
           | Some floor_of \<Rightarrow>
               Inr (if js_lt (number_of (plf_temporalSeconds floor_of)) effectiveTemporalSeconds then SIGNAL_ONLY
                    else if \<not> poolStateComplete \<and> truthy (plf_poolStateComplete floor_of) then SIGNAL_ONLY
                    else if decimalCompare observedLiquidityDepthUsd (plf_liquidityDepthMinUsd floor_of) < 0 then SIGNAL_ONLY
                    else TRADABLE_SUCCESS_PROVABLE)))"

text \<open>
  For an issued plan, success is provable exactly when the observation is not coarser than the
  temporal floor, the pool state is as complete as the floor asks for and the depth is at least the least depth.
\<close>

lemma ceiling_exact:
  assumes "issueObservationPlan (Some i) = Inr p" and "NON_NEGATIVE_DECIMAL depth"
    and "\<And>f. obp_resolutionFloor i = Some f \<Longrightarrow> NON_NEGATIVE_DECIMAL (plf_liquidityDepthMinUsd f)"
  shows "\<exists>f n b. obp_resolutionFloor i = Some f \<and> integer_number (plf_temporalSeconds f) = Some n \<and> plf_poolStateComplete f = U_bool b \<and>
    resolutionCeilingFor (Some p) (Fin seconds) depth complete_state =
      Inr (if seconds \<le> of_int n \<and> (b \<longrightarrow> complete_state) \<and> dec_value (plf_liquidityDepthMinUsd f) \<le> dec_value depth
           then TRADABLE_SUCCESS_PROVABLE else SIGNAL_ONLY)"
proof -
  have floor: "obp_resolutionFloor p = obp_resolutionFloor i"
    and ok: "\<not> (case obp_resolutionFloor i of None \<Rightarrow> True
        | Some f \<Rightarrow> \<not> positive_integer (plf_temporalSeconds f) \<or> \<not> strict_boolean (plf_poolStateComplete f))"
    using assms(1) unfolding issueObservationPlan_def option.case by (auto simp: bindE_eq_Inr Let_def)
  obtain f n b where f: "obp_resolutionFloor i = Some f" "integer_number (plf_temporalSeconds f) = Some n" "plf_poolStateComplete f = U_bool b"
    using ok by (auto simp: positive_integer_def strict_boolean_def split: option.splits js_unknown.splits)
  have "number_of (plf_temporalSeconds f) = Fin (of_int n)"
    using f(2) by (auto simp: number_of_def integer_number_def split: js_unknown.splits jsnum.splits if_splits)
  then have "resolutionCeilingFor (Some p) (Fin seconds) depth complete_state =
      Inr (if seconds \<le> of_int n \<and> (b \<longrightarrow> complete_state) \<and> dec_value (plf_liquidityDepthMinUsd f) \<le> dec_value depth
           then TRADABLE_SUCCESS_PROVABLE else SIGNAL_ONLY)"
    using decimalCompare_value [OF assms(2) assms(3) [OF f(1)]] f floor
    by (simp add: resolutionCeilingFor_def truthy_def not_less)
  with f show ?thesis by blast
qed

end
