(* ===== verification/Spec2Isabelle.thy ===== *)
theory Spec2Isabelle
  imports OutboxProgress TriggerRuns PoolTrades ParityGate RouteEvaluation ExecLaws TimestampOrder ScheduleControl CronGrammar
    RetryLoops ReconciliationLaws VerifyLaws SurfaceLaws StressMatrix ShadowDepth OutcomeRecord TransferCosts
    RouteSelection ReplayManifest SimulationRecords
begin

text \<open>
  A verification library for three cores of the repository: the durable workflow runtime
  (packages/workflow-runtime, with the laws of packages/domain/src/wf.ts and timestamps.ts, the
  serializer of packages/persistence and the service surface of apps/api), the execution
  core (packages/pool-math, with the laws of packages/domain/src/exec.ts) and the execution simulator
  (packages/execution-simulator, with packages/transfer-semantics and the transfer verdicts of
  packages/solana-security).

  \<^bold>\<open>The program.\<close> Operators manage versioned schedules (schedules.ts); an external scheduler
  (scheduler-port.ts) holds an entry for each and sends signed deliveries, and reconciliation.ts compares
  and repairs the two sides. The internal surface (apps/api/src/internal/internal-surface.ts)
  authenticates requests, verifies deliveries and calls the runtime; verify-state.ts inspects the
  store for what is stuck. A trigger delivery (trigger-inbox.ts) is identified by its canonical message id
  and starts at most one run under the concurrency policy of its schedule. A run executes named steps
  (steps.ts), each claimed under an idempotency key, checkpointed with its output hash and guarded
  by a lease with a fencing token (leases.ts). A failed attempt is planned by the retry taxonomy
  (retries.ts); when it gives up, a dead letter is opened and later resumed from the last valid
  checkpoint (dead-letters.ts). A decision and its alert are committed together with an outbox
  row (outbox.ts); delivery workers claim rows under fencing tokens and send them over a
  notification channel (channels.ts), at most once per idempotency key, and never for a shadow run
  (shadow.ts). All of these share the tables of the \<open>wf\<close> schema. The execution core evaluates what a
  trade would give: the registry (registry.ts, adapter-contract.ts) resolves an adapter for
  an operation or refuses, the constant-product adapter quotes it, the parity gate
  compares adapters with reference quotes, routes are evaluated over several legs, and the laws of
  exec.ts decide what may be called executable. The simulator judges a candidate on that evidence:
  scenarios and exit-policy experiments are registered before any outcome (scenario.ts, experiments.ts), a
  route is selected as of the action slot (routes.ts), entries and exits are modelled with
  their costs (entry.ts, exit.ts, net-return.ts, transfer-semantics), concurrent exits share one depth (concurrency.ts),
  stress results form a pass matrix (stress.ts) on which the tradability gate decides (tradability.ts), a ledger of
  degradations blocks confirmed alerts (degradation.ts), and what is shown is rendered with its uncertainty and frozen for
  replay (uncertainty.ts, alert-content.ts, replay-manifest.ts, read-only-guard.ts).

  \<^bold>\<open>Theories and sources.\<close>
  \<^item> Prelude: thrown errors (domain/src/errors.ts), programs over an explicit store as functions to
    a result and a store, \<open>engine.transaction\<close> of persistence/src/db.ts as rollback on a throw, and
    the locale \<open>rely_guarantee\<close> for programs whose statements interleave with other sessions.
  \<^item> JsNumber: ECMAScript numbers as exact rationals rounded to binary64, with infinities and
    not-a-number; \<open>Math.min\<close>, \<open>Math.round\<close>, the relational operators and the integer tests.
  \<^item> WfDomain: domain/src/wf.ts. WfTables: row types, checks and keys of the migrations.
  \<^item> CanonicalJson: persistence/src/canonical-json.ts. Retries and RetryLoops: workflow-runtime/src/retries.ts,
    the plans and the loop of a caller that follows them.
  \<^item> Timestamps and TimestampOrder: domain/src/timestamps.ts, definitions and order.
  \<^item> ScheduleConfig and CronGrammar: the configuration part of schedules.ts with the forecast schema
    of shared-schemas/src/wf.ts, and the cron grammar it decides. Schedules: the control actions
    of schedules.ts; ScheduleLaws and ScheduleControl hold their laws, over any history of
    actions and interference.
  \<^item> SchedulerPort: scheduler-port.ts; SchedulerLaws states the port as the locale \<open>scheduler_port\<close> and interprets
    it on the in-process adapter. Reconciliation: reconciliation.ts; ReconciliationLaws proves its laws in that locale.
  \<^item> VerifyState and VerifyLaws: verify-state.ts. InternalSurface and SurfaceLaws: internal-surface.ts.
  \<^item> Fencing: the contract \<open>fenced_tokens\<close> of fencing tokens; Leases (leases.ts) and OutboxCommit
    interpret it on the step leases and on the outbox claims.
  \<^item> Steps: steps.ts. Channels: channels.ts with the locale \<open>notification_channel\<close>. DeadLetters:
    dead-letters.ts. TriggerInbox and TriggerRuns: trigger-inbox.ts, definitions and laws.
  \<^item> Outbox: shadow.ts and outbox.ts, definitions; OutboxCommit, OutboxDelivery and OutboxProgress
    hold the laws of commit and claim, the safety of delivery and its progress.
  \<^item> PoolAdapter: adapter-contract.ts and registry.ts. ConstantProduct: constant-product.ts, with its
    laws in PoolLaws and PoolTrades. ParityGate: pool-math's parity.ts and the upgrade detection of
    program-decoders/src/parity.ts. RouteEvaluation: state-completeness.ts. ExecLaws: domain/src/exec.ts.
  \<^item> DecimalText and NetReturn: net-return.ts with the codes of domain/src/quality.ts. FillModels: entry.ts and
    exit.ts. Degradation: degradation.ts. ShadowDepth: concurrency.ts. TargetEvidence: delays.ts and target-touch.ts.
    TradabilityGate: tradability.ts. StressMatrix: stress.ts. OutcomeRecord: outcome.ts.
  \<^item> JsonFaithful: the serializer identifies values. PreRegistration: scenario.ts and the registry of
    experiments.ts. RouteSelection: routes.ts. ReplayManifest: read-only-guard.ts and replay-manifest.ts.
    SimulationRecords: uncertainty.ts, alert-content.ts and the observation plans of experiments.ts.
  \<^item> TransferSemantics: solana-security/src/transfer-semantics.ts. TransferCosts: adapter.ts and
    fee-model.ts of transfer-semantics.

  A definition has the name of the function it models; a part of a longer function has a name of
  its own. A table is the list of its rows in insertion order, a statement maps the store to
  the store, \<open>INSERT\<close> fails on a key or check violation and \<open>UPDATE\<close> changes the rows its
  condition selects. Instants are milliseconds as integers and \<open>bigint\<close> is \<open>int\<close>; a \<open>number\<close>
  that is computed with is a \<open>jsnum\<close>, and values of type \<open>unknown\<close> are a datatype of what \<open>typeof\<close> can
  see. A throw is \<open>Inl\<close> of the error with its code.

  \<^bold>\<open>What is shown.\<close>
  \<^item> Outbox: a commit is all or nothing; a batch holds the oldest claimable rows under fresh tokens; a
    superseded claim changes nothing; with any interleaving of workers what the channel accepted is
    what was committed, never for a shadow run; after a crash between acceptance and the
    \<open>SENT\<close> write the next claim completes the row without a second delivery.
  \<^item> Leases and steps: takeover makes the old handle powerless, also for checkpoints; a step
    whose run returned is durable and replays without its effect; the history of steps is kept.
  \<^item> Schedules: control actions refine a small specification; versions are immutable and every schedule
    has one current version; nothing becomes active without a fresh forecast; deletion is final; a dry
    run predicts the delivery; the cron validator decides its grammar; configurations are typed and stable.
  \<^item> Scheduler, reconciliation and checks: the in-process adapter is a table; the adapter over a transport
    fails closed for every transport; the diff is empty exactly when both sides agree; a repair
    only pauses, and a second one has nothing left to pause; the state checks report exactly the stuck rows.
  \<^item> Surface: nothing changes without the shared secret and, for a trigger, a verified delivery; a message is
    accepted at most once per process and starts at most one run across processes; listings are bounded pages.
  \<^item> Triggers: one run per delivery identity, duplicates collapse, policies and refusals are exact.
  \<^item> Retries and dead letters: plans are well formed, delays are bounded, the retry loop ends, recovery happens at most
    once and resumes exactly the missing steps; a plan that gives up always opens its letter.
  \<^item> Pools: quotes round against the trader, exact-out quotes are minimal, no sequence of trades
    lowers the product of the reserves, liquidity changes are reversible.
  \<^item> Registry, parity, routes and gates: each accepts exactly what the code's conditions say, and fails
    closed with a typed error.
  \<^item> Hashes: two values have one canonical text exactly when they are the same value, so a registered scenario
    and frozen assumptions are reproduced by themselves alone, up to collisions of the digest.
  \<^item> Simulator: decimal arithmetic is exact; fills, exits, targets, matrices and the gate accept and conclude exactly what their
    specifications say; competing exits take what they ask for or what is left, whatever the order of submission;
    a scope is degraded exactly while a degradation is open; the primary experiment of a scenario
    never changes; no transfer cost is modelled on an extension that the policy does not know. Where the
    code departs from its documentation, the property states what the code does and evaluates a sample.

  \<^bold>\<open>Parameters.\<close> What the sources only call is an argument: the SHA-256 digest, the HMAC, the URL parser,
  query-string and percent decoding, the time-zone database, the database's casts, the transport of
  the scheduler adapter, \<open>Date.parse\<close> on texts that were not validated, the wall clock and \<open>Date.now\<close>, random draws and UUIDs, the effect of a step, the resume callback of a
  recovery, the quote callbacks of the parity gate, the payload resolver and the channel of a
  delivery worker, and \<open>env\<close>, the commits of other sessions between two statements. Where a
  law needs something of a channel it is an assumption of \<open>notification_channel\<close>, which the
  code's own fake channel is shown to satisfy.

  \<^bold>\<open>Bounds.\<close> No definition needs fuel: the loops of the modelled code run over a list by structural
  recursion, and the splitting of texts has a measure, so the model is total. Where a law needs a range (dates, exactly
  representable integers) it is a hypothesis of that law. The guard of read-only-guard.ts scans eight levels, as in the code.

  \<^bold>\<open>Not modelled.\<close> Message texts and details of errors: an error is its code. Database
  triggers and indexes, and isolation anomalies within one transaction other than at the
  points where \<open>env\<close> acts. Fractional numbers inside JSON values, and so the hash of the conservative stress
  assumptions. The other packages (collectors, providers, alerts, evaluation,
  security, release rules), the rest of the apps and the automation scripts: network and file I/O, schema
  declarations and policy tables outside the three cores.
\<close>

section \<open>Properties across components\<close>

text \<open>The context a retry plan's handoff gives the dead-letter writer.\<close>

definition handoff_input :: "string \<Rightarrow> string option \<Rightarrow> string \<Rightarrow> dead_letter_handoff \<Rightarrow> open_input" where
  "handoff_input runId stepId deadLetterId h =
     \<lparr>od_runId = runId, od_stepId = stepId, od_errorClass = retry_error_class_text (ho_errorClass h),
      od_context = JsObj [(''attempts'', JsInt (ho_attempts h)), (''reason'', JsStr (ho_reason h))],
      od_lastValidCheckpointRef = ho_lastValidCheckpointRef h, od_now = None,
      od_deadLetterId = Some deadLetterId\<rparr>"

text \<open>
  C40 (superseded_worker_cannot_commit). Leases and steps together: a worker that acquired a step's
  lease and lost it to another worker, after any interleaving of acquisitions and releases,
  can no longer commit any checkpoint with its handle: a request that would otherwise be valid
  fails with \<open>LEASE_FENCING_TOKEN_STALE\<close>, and the store is exactly what it was.
\<close>

theorem superseded_worker_cannot_commit:
  assumes "leases_ok db0"
    and "acquire now1 dflt1 key owner1 ttl1 db0 = (Inr h1, db1)" and "lease_step\<^sup>*\<^sup>* db1 db2"
    and "acquire now2 dflt2 key owner2 ttl2 db2 = (Inr h2, db3)" and "lease_step\<^sup>*\<^sup>* db3 db4"
    and "c_lease input = Some \<lparr>f_resourceKey = h_resourceKey h1, f_fencingToken = h_fencingToken h1\<rparr>"
    and "c_status input \<notin> {Step_PENDING, Step_RUNNING}"
    and "pred_option HASH_PATTERN (c_outputHash input)"
    and "c_status input = Step_SUCCEEDED \<Longrightarrow> c_outputHash input \<noteq> None"
    and "nowIso clock (c_now input) = Inr now"
    and "step_of db4 (c_runId input) (c_idempotencyKey input) = Some existing"
    and "c_status input \<in> set (ALLOWED_STEP_TRANSITIONS (s_status existing))"
    and "keys_distinct step_key (steps db4)"
  shows "checkpointStep sha clock (\<lambda>_ d. d) input db4 = (Inl (ForesiftError LEASE_FENCING_TOKEN_STALE), db4)"
proof -
  have lost: "leases_ok db4 \<and> current_token db4 key \<noteq> Some (h_fencingToken h1)"
    using takeover_supersedes [OF assms(1-5)] by blast
  have key: "h_resourceKey h1 = key" using acquire_current(2) [OF assms(2)] .
  show ?thesis
    using stale_fence_refused [of input _ clock now db4 existing "\<lambda>_ d. d" sha] assms(6-13) lost key by simp
qed

definition takeover_db :: "unit wf_db" where
  "takeover_db = empty_db\<lparr>steps := [demo_row\<lparr>s_status := Step_RUNNING\<rparr>]\<rparr>"

lemma takeover_runs:
  "acquire 0 None ''k'' ''a'' (Some (Fin 60)) takeover_db =
     (Inr \<lparr>h_resourceKey = ''k'', h_fencingToken = 1, h_expiresAt = 60000\<rparr>,
      lease_demo1\<lparr>steps := steps takeover_db\<rparr>)"
  "acquire 60000 None ''k'' ''b'' (Some (Fin 5)) (lease_demo1\<lparr>steps := steps takeover_db\<rparr>) =
     (Inr \<lparr>h_resourceKey = ''k'', h_fencingToken = 3, h_expiresAt = 65000\<rparr>,
      lease_demo2\<lparr>steps := steps takeover_db\<rparr>)"
  by (simp_all add: acquire_int [of 60 0, simplified] acquire_int [of 5 60000, simplified] lease_demo1_def lease_demo2_def
      takeover_db_def bindP_run step_lease_takeover_def lease_checks_def empty_db_def Let_def)

theorem superseded_worker_cannot_commit_witness:
  "checkpointStep no_sha 9 (\<lambda>_ d. d)
     ((success_checkpoint demo_begin demo_hash)\<lparr>c_lease := Some \<lparr>f_resourceKey = ''k'', f_fencingToken = 1\<rparr>\<rparr>)
     (lease_demo2\<lparr>steps := steps takeover_db\<rparr>) =
   (Inl (ForesiftError LEASE_FENCING_TOKEN_STALE), lease_demo2\<lparr>steps := steps takeover_db\<rparr>)"
proof -
  have ok: "leases_ok takeover_db" by (simp add: takeover_db_def leases_ok_def empty_db_def keys_distinct_def)
  show ?thesis
    by (rule superseded_worker_cannot_commit [OF ok takeover_runs(1) rtranclp.rtrancl_refl takeover_runs(2)
          rtranclp.rtrancl_refl, where now = 9 and existing = "demo_row\<lparr>s_status := Step_RUNNING\<rparr>"])
      (simp_all add: success_checkpoint_def demo_begin_def nowIso_def demo_row_def keys_distinct_def takeover_db_def)
qed

text \<open>Opening without a step succeeds whenever the run can be dead-lettered and the id is new.\<close>

lemma openDeadLetter_opens:
  assumes "assertActionableContext (od_context i) = Inr ()" and "dl_nowIso clock (od_now i) = Inr now"
    and "parseRetryErrorClass (Some (od_errorClass i)) = Inr e" and "\<not> blank (od_runId i)"
    and "od_stepId i = None" and "od_deadLetterId i = Some k" and "k \<noteq> []" and "letter_of db k = None"
    and "run_of db (od_runId i) = Some run" and "r_status run \<notin> {Run_SUCCEEDED, Run_CANCELLED}"
    and "od_lastValidCheckpointRef i \<noteq> Some []"
  shows "openDeadLetter clock uuid i db = (Inr (open_row i k e now), opened_db i (open_row i k e now) db)"
proof -
  have "sql_update (exhausts i) f (steps db) = steps db" for f
    using assms(5) by (intro sql_update_none) (simp add: exhausts_def)
  then have "open_tx (open_row i k e now) db = (Inr (open_row i k e now), opened_db i (open_row i k e now) db)"
    using assms(5-11)
    by (simp add: open_tx_def open_row_def exhaust_given_step_def letter_insert_def insert_stmt_def bindP_run
        run_update_run opened_db_def)
  then show ?thesis using assms by (simp add: openDeadLetter_def bindP_run transaction_ok)
qed

lemma reason_not_blank:
  assumes "planAttempt c a random ctx = Inr p" shows "\<not> blank (pl_reason p)"
  using assms
  by (cases c)
     (auto simp: planAttempt_nextAttemptPlan nextAttemptPlan_def retryAfterReset_def Let_def
       bindE_eq_Inr stopPlan_def retryPlan_def blank_iff js_space_def split: if_splits option.splits)

text \<open>
  Retries and dead letters together: when the retry law gives
  up on a failed attempt, its handoff is always accepted by the dead-letter writer. For a run that
  is neither \<open>SUCCEEDED\<close> nor \<open>CANCELLED\<close> and a fresh letter id, opening succeeds, and the letter
  records the error class, the number of attempts made, the reason of the plan and its
  checkpoint reference; the run is then \<open>DEAD_LETTERED\<close>.
\<close>

theorem exhausted_plan_opens_letter:
  assumes "planAttempt c (Fin (of_int n)) random ctx = Inr p" and "pl_action p \<noteq> RETRY"
    and "run_of db runId = Some run" and "r_status run \<notin> {Run_SUCCEEDED, Run_CANCELLED}" and "\<not> blank runId"
    and "letter_of db k = None" and "k \<noteq> []" and "ctx_lastValidCheckpointRef ctx \<noteq> Some []"
  shows "\<exists>h d db'. handoff p = Some h \<and>
    openDeadLetter clock uuid (handoff_input runId None k h) db = (Inr d, db') \<and>
    dl_error_class d = c \<and> jsprop (dl_context d) ''attempts'' = JsInt n \<and>
    jsprop (dl_context d) ''reason'' = JsStr (pl_reason p) \<and>
    dl_last_valid_checkpoint_ref d = ctx_lastValidCheckpointRef ctx \<and>
    letter_of db' k = Some (d\<lparr>dl_context := jsonb (dl_context d)\<rparr>) \<and>
    run_of db' runId = Some (run\<lparr>r_status := Run_DEAD_LETTERED\<rparr>)"
proof -
  let ?h = "\<lparr>ho_errorClass = c, ho_attempts = n, ho_lastValidCheckpointRef = ctx_lastValidCheckpointRef ctx,
    ho_reason = pl_reason p\<rparr>"
  have n: "1 \<le> n" "plan_wf c n ctx p" using planAttempt_ok_wf [OF assms(1)] by auto
  then have h: "handoff p = Some ?h" using assms(2) by (simp add: plan_wf_def)
  let ?i = "handoff_input runId None k ?h" and ?d = "open_row (handoff_input runId None k ?h) k c clock"
  have ctx: "assertActionableContext (od_context ?i) = Inr ()"
    using n(1) reason_not_blank [OF assms(1)]
    by (simp add: handoff_input_def assertActionableContext_def jsprop_def guardE_def)
  have "openDeadLetter clock uuid ?i db = (Inr ?d, opened_db ?i ?d db)"
    using assms(3-8) errclass_voc.parse_roundtrip [of c]
    by (intro openDeadLetter_opens ctx) (simp_all add: handoff_input_def parseRetryErrorClass_def dl_nowIso_def)
  moreover have "letter_of (opened_db ?i ?d db) k = Some (?d\<lparr>dl_context := jsonb (dl_context ?d)\<rparr>)"
    using assms(6) by (simp add: opened_db_def row_by_append open_row_def)
  moreover have "run_of (opened_db ?i ?d db) runId = Some (run\<lparr>r_status := Run_DEAD_LETTERED\<rparr>)"
    using assms(3) by (auto simp: opened_db_def row_by_update handoff_input_def dest: row_by_SomeD)
  ultimately show ?thesis using h
    by (intro exI [of _ ?h] exI [of _ ?d] exI [of _ "opened_db ?i ?d db"] conjI)
      (simp_all add: open_row_def jsprop_letter_context, simp_all add: handoff_input_def jsprop_def)
qed

theorem exhausted_plan_opens_letter_witness:
  "\<exists>d db'. openDeadLetter 5 ''u'' (handoff_input ''r1'' None ''d1''
        \<lparr>ho_errorClass = SCHEMA_DRIFT, ho_attempts = 1, ho_lastValidCheckpointRef = None,
         ho_reason = ''schema drift: no automated repeated retry; mark operation degraded''\<rparr>) demo_fail_db = (Inr d, db') \<and>
     run_of db' ''r1'' = Some (demo_run\<lparr>r_status := Run_DEAD_LETTERED\<rparr>)"
proof -
  let ?r = "''schema drift: no automated repeated retry; mark operation degraded''"
  let ?p = "stopPlan K_DEGRADE_NO_REPEAT 1 DEGRADE ?r (no_context\<lparr>ctx_errorClass := Some SCHEMA_DRIFT\<rparr>)"
  have plan: "planAttempt SCHEMA_DRIFT (Fin (of_int 1)) (Fin 0) no_context = Inr ?p"
    by (simp add: planAttempt_nextAttemptPlan nextAttemptPlan_def assertAttempt_def)
  have "handoff ?p = Some \<lparr>ho_errorClass = SCHEMA_DRIFT, ho_attempts = 1, ho_lastValidCheckpointRef = None, ho_reason = ?r\<rparr>"
    by (simp add: stopPlan_def handoffFor_def no_context_def)
  then show ?thesis
    using exhausted_plan_opens_letter [OF plan, where db = demo_fail_db and runId = "''r1''" and run = demo_run and
      k = "''d1''" and clock = 5 and uuid = "''u''"]
    by (simp add: stopPlan_def no_context_def demo_fail_db_def empty_db_def demo_run_def blank_iff js_space_def) blast
qed

end
